(* ===== verification/Prelude.thy ===== *)
theory Prelude
  imports Main
begin

text \<open>
  Shared material of the development: the result type of code that can raise (a sum, the
  exception on the left), the combinators that sequence such code, a partial-correctness
  predicate with composition rules (collection \<open>okE_intro\<close>), and generic facts about lists.

  Python code that raises is a value of \<open>'e + 'a\<close>. \<open>bindE\<close> is statement sequencing,
  \<open>mapE\<close> a list comprehension whose body may raise, \<open>foldE\<close> a \<open>for\<close> loop over a
  state, \<open>catchE\<close> a \<open>try/except\<close> with a handler.
\<close>

named_theorems okE_intro "composition rules for partial correctness of raising code"

definition bindE :: "'e + 'a \<Rightarrow> ('a \<Rightarrow> 'e + 'b) \<Rightarrow> 'e + 'b" where
  "bindE m f = (case m of Inl e \<Rightarrow> Inl e | Inr x \<Rightarrow> f x)"

definition catchE :: "'e + 'a \<Rightarrow> ('e \<Rightarrow> 'e + 'a) \<Rightarrow> 'e + 'a" where
  "catchE m h = (case m of Inl e \<Rightarrow> h e | Inr x \<Rightarrow> Inr x)"

definition guardE :: "bool \<Rightarrow> 'e \<Rightarrow> 'e + unit" where
  "guardE b e = (if b then Inr () else Inl e)"

fun mapE :: "('a \<Rightarrow> 'e + 'b) \<Rightarrow> 'a list \<Rightarrow> 'e + 'b list" where
  "mapE f [] = Inr []"
| "mapE f (x # xs) = bindE (f x) (\<lambda>y. bindE (mapE f xs) (\<lambda>ys. Inr (y # ys)))"

fun foldE :: "('s \<Rightarrow> 'a \<Rightarrow> 'e + 's) \<Rightarrow> 's \<Rightarrow> 'a list \<Rightarrow> 'e + 's" where
  "foldE f s [] = Inr s"
| "foldE f s (x # xs) = bindE (f s x) (\<lambda>s'. foldE f s' xs)"

text \<open>\<open>any(f(x) for x in xs)\<close>, which stops at the first hit.\<close>

fun existsE :: "('a \<Rightarrow> 'e + bool) \<Rightarrow> 'a list \<Rightarrow> 'e + bool" where
  "existsE f [] = Inr False"
| "existsE f (x # xs) = bindE (f x) (\<lambda>b. if b then Inr True else existsE f xs)"

lemma bindE_simps [simp]:
  "bindE (Inl e) f = Inl e"
  "bindE (Inr x) f = f x"
  by (simp_all add: bindE_def)

lemma bindE_Inr_iff [simp]: "bindE m f = Inr y \<longleftrightarrow> (\<exists>x. m = Inr x \<and> f x = Inr y)"
  by (cases m) auto

lemma Inr_bindE_iff [simp]: "Inr y = bindE m f \<longleftrightarrow> (\<exists>x. m = Inr x \<and> f x = Inr y)"
  by (cases m) auto

lemma bindE_Inl_iff: "bindE m f = Inl e \<longleftrightarrow> m = Inl e \<or> (\<exists>x. m = Inr x \<and> f x = Inl e)"
  by (cases m) auto

lemma bindE_assoc: "bindE (bindE m f) g = bindE m (\<lambda>x. bindE (f x) g)"
  by (cases m) auto

lemma bindE_cong [fundef_cong]:
  "m = m' \<Longrightarrow> (\<And>x. m' = Inr x \<Longrightarrow> f x = f' x) \<Longrightarrow> bindE m f = bindE m' f'"
  by (cases m') auto

lemma catchE_simps [simp]:
  "catchE (Inl e) h = h e"
  "catchE (Inr x) h = Inr x"
  by (simp_all add: catchE_def)

lemma guardE_Inr_iff [simp]: "guardE b e = Inr u \<longleftrightarrow> b"
  by (simp add: guardE_def)

lemma guardE_Inl_iff [simp]: "guardE b e = Inl e' \<longleftrightarrow> \<not> b \<and> e' = e"
  by (auto simp: guardE_def)

lemma guardE_simps [simp]: "guardE True e = Inr ()" "guardE False e = Inl e"
  by (simp_all add: guardE_def)

lemma mapE_cong [fundef_cong]:
  "xs = ys \<Longrightarrow> (\<And>x. x \<in> set ys \<Longrightarrow> f x = g x) \<Longrightarrow> mapE f xs = mapE g ys"
  by (induction ys arbitrary: xs) auto

lemma foldE_cong [fundef_cong]:
  "s = t \<Longrightarrow> xs = ys \<Longrightarrow> (\<And>u x. x \<in> set ys \<Longrightarrow> f u x = g u x) \<Longrightarrow> foldE f s xs = foldE g t ys"
proof (induction ys arbitrary: xs s t)
  case Nil
  then show ?case by simp
next
  case (Cons y ys)
  have "\<And>s'. foldE f s' ys = foldE g s' ys" using Cons by simp
  then show ?case using Cons.prems by simp
qed

lemma foldE_append: "foldE f s (xs @ ys) = bindE (foldE f s xs) (\<lambda>t. foldE f t ys)"
  by (induction xs arbitrary: s) (auto simp: bindE_assoc)

lemma mapE_length: "mapE f xs = Inr ys \<Longrightarrow> length ys = length xs"
  by (induction xs arbitrary: ys) auto

lemma mapE_nth: "mapE f xs = Inr ys \<Longrightarrow> i < length xs \<Longrightarrow> f (xs ! i) = Inr (ys ! i)"
proof (induction xs arbitrary: ys i)
  case Nil
  then show ?case by simp
next
  case (Cons x xs)
  then show ?case by (cases i) auto
qed

lemma mapE_in_set:
  assumes "mapE f xs = Inr ys" and "y \<in> set ys"
  shows "\<exists>x \<in> set xs. f x = Inr y"
  using assms by (induction xs arbitrary: ys) auto

lemma mapE_in_set2: "mapE f xs = Inr ys \<Longrightarrow> x \<in> set xs \<Longrightarrow> \<exists>y \<in> set ys. f x = Inr y"
  by (induction xs arbitrary: ys) auto

lemma mapE_Inr_map: "(\<And>x. x \<in> set xs \<Longrightarrow> f x = Inr (g x)) \<Longrightarrow> mapE f xs = Inr (map g xs)"
  by (induction xs) auto

lemma mapE_empty_iff [simp]: "mapE f xs = Inr [] \<longleftrightarrow> xs = []"
  by (cases xs) auto

lemma list_all_set: "list_all P xs = (\<forall>x \<in> set xs. P x)"
  by (induction xs) auto

text \<open>
  \<open>okE P m\<close>: whatever \<open>m\<close> returns satisfies \<open>P\<close>; raising is allowed.
\<close>

definition okE :: "('a \<Rightarrow> bool) \<Rightarrow> 'e + 'a \<Rightarrow> bool" where
  "okE P m = (case m of Inl e \<Rightarrow> True | Inr x \<Rightarrow> P x)"

lemma okE_simps [simp]: "okE P (Inl e)" "okE P (Inr x) = P x"
  by (simp_all add: okE_def)

lemma okE_iff: "okE P m \<longleftrightarrow> (\<forall>x. m = Inr x \<longrightarrow> P x)"
  by (cases m) auto

lemma okE_D: "okE P m \<Longrightarrow> m = Inr x \<Longrightarrow> P x"
  by simp

lemma okE_I: "(\<And>x. m = Inr x \<Longrightarrow> P x) \<Longrightarrow> okE P m"
  by (cases m) auto

lemma okE_weaken: "okE P m \<Longrightarrow> (\<And>x. P x \<Longrightarrow> Q x) \<Longrightarrow> okE Q m"
  by (cases m) auto

lemma okE_bind: "(\<And>x. m = Inr x \<Longrightarrow> okE P (f x)) \<Longrightarrow> okE P (bindE m f)"
  by (cases m) auto

lemma okE_bind_spec: "okE Q m \<Longrightarrow> (\<And>x. Q x \<Longrightarrow> okE P (f x)) \<Longrightarrow> okE P (bindE m f)"
  by (cases m) auto

lemma okE_if [okE_intro]:
  "(b \<Longrightarrow> okE P m) \<Longrightarrow> (\<not> b \<Longrightarrow> okE P n) \<Longrightarrow> okE P (if b then m else n)"
  by simp

lemma okE_mapE:
  assumes "\<And>x. x \<in> set xs \<Longrightarrow> okE P (f x)"
  shows "okE (list_all P) (mapE f xs)"
proof (rule okE_I)
  fix ys assume "mapE f xs = Inr ys"
  then show "list_all P ys"
    using assms by (auto simp: list_all_set okE_iff dest: mapE_in_set)
qed

lemma okE_foldE:
  assumes "I s" and "\<And>s x. I s \<Longrightarrow> x \<in> set xs \<Longrightarrow> okE I (f s x)"
  shows "okE I (foldE f s xs)"
  using assms
proof (induction xs arbitrary: s)
  case Nil
  then show ?case by simp
next
  case (Cons x xs)
  show ?case
  proof (cases "f s x")
    case (Inr s')
    moreover have "okE I (f s x)" using Cons.prems by simp
    ultimately have "I s'" by simp
    then show ?thesis using Inr Cons by simp
  qed simp
qed

text \<open>Generic list facts.\<close>

lemma list_all_concat [simp]: "list_all P (concat xss) = list_all (list_all P) xss"
  by (induction xss) auto

lemma takeWhile_all: "list_all P xs \<Longrightarrow> takeWhile P xs = xs"
  by (induction xs) auto

lemma list_all_dropWhile: "list_all P xs \<Longrightarrow> list_all P (dropWhile Q xs)"
  by (induction xs) auto

lemma list_all_rev: "list_all P (rev xs) = list_all P xs"
  by (induction xs) auto

lemma list_all_take: "list_all P xs \<Longrightarrow> list_all P (take n xs)"
  by (auto simp: list_all_set dest: in_set_takeD)

lemma list_all_drop: "list_all P xs \<Longrightarrow> list_all P (drop n xs)"
  by (auto simp: list_all_set dest: in_set_dropD)

end
