(* ===== verification/PyStr.thy ===== *)
theory PyStr
  imports Prelude "HOL-Library.Char_ord" "HOL-Library.List_Lexorder"
begin

text \<open>
  The part of Python's \<open>str\<close> that the modelled code uses. A Python string is a list of
  \<open>char\<close>, that is, a string over the code points 0 to 255; every operation is the one of
  CPython on such strings (whitespace, case and decimal digits of the Latin-1 range included).
  Regular expressions of the source are written as the predicates and maps they denote.
\<close>

definition ord :: "char \<Rightarrow> int" where
  "ord c = of_char c"

abbreviation nl :: char where "nl \<equiv> CHR 0x0A"

abbreviation cr :: char where "cr \<equiv> CHR 0x0D"

text \<open>\<open>str.isspace\<close> for one character, the characters \<open>str.strip()\<close> removes.\<close>

definition is_space :: "char \<Rightarrow> bool" where
  "is_space c = (let n = ord c in (9 \<le> n \<and> n \<le> 13) \<or> (28 \<le> n \<and> n \<le> 32) \<or> n = 133 \<or> n = 160)"

definition lstrip :: "string \<Rightarrow> string" where
  "lstrip s = dropWhile is_space s"

definition rstrip :: "string \<Rightarrow> string" where
  "rstrip s = rev (dropWhile is_space (rev s))"

definition strip :: "string \<Rightarrow> string" where
  "strip s = rstrip (lstrip s)"

definition strip_char :: "char \<Rightarrow> string \<Rightarrow> string" where
  "strip_char c s = rev (dropWhile (\<lambda>x. x = c) (rev (dropWhile (\<lambda>x. x = c) s)))"

definition lower_char :: "char \<Rightarrow> char" where
  "lower_char c = (let n = ord c in
     if (65 \<le> n \<and> n \<le> 90) \<or> (192 \<le> n \<and> n \<le> 222 \<and> n \<noteq> 215) then char_of (n + 32) else c)"

definition lower :: "string \<Rightarrow> string" where
  "lower s = map lower_char s"

definition is_digit :: "char \<Rightarrow> bool" where
  "is_digit c = (48 \<le> ord c \<and> ord c \<le> 57)"

definition is_lower_alpha :: "char \<Rightarrow> bool" where
  "is_lower_alpha c = (97 \<le> ord c \<and> ord c \<le> 122)"

definition is_alpha :: "char \<Rightarrow> bool" where
  "is_alpha c = ((97 \<le> ord c \<and> ord c \<le> 122) \<or> (65 \<le> ord c \<and> ord c \<le> 90))"

definition is_alnum :: "char \<Rightarrow> bool" where
  "is_alnum c = (is_alpha c \<or> is_digit c)"

definition is_hex_digit :: "char \<Rightarrow> bool" where
  "is_hex_digit c = (is_digit c \<or> (97 \<le> ord c \<and> ord c \<le> 102) \<or> (65 \<le> ord c \<and> ord c \<le> 70))"

text \<open>\<open>str.startswith\<close>, \<open>str.endswith\<close> and \<open>in\<close> on strings.\<close>

fun starts_with :: "string \<Rightarrow> string \<Rightarrow> bool" where
  "starts_with [] s = True"
| "starts_with (p # ps) [] = False"
| "starts_with (p # ps) (c # cs) = (p = c \<and> starts_with ps cs)"

definition ends_with :: "string \<Rightarrow> string \<Rightarrow> bool" where
  "ends_with p s = starts_with (rev p) (rev s)"

fun contains :: "string \<Rightarrow> string \<Rightarrow> bool" where
  "contains p [] = (p = [])"
| "contains p (c # cs) = (starts_with p (c # cs) \<or> contains p cs)"

text \<open>\<open>str.split(sep)\<close> for a one-character separator, and \<open>str.partition(sep)\<close>.\<close>

fun split_on :: "char \<Rightarrow> string \<Rightarrow> string list" where
  "split_on d [] = [[]]"
| "split_on d (c # cs) =
     (if c = d then [] # split_on d cs
      else (case split_on d cs of [] \<Rightarrow> [[c]] | w # ws \<Rightarrow> (c # w) # ws))"

definition partition_at :: "char \<Rightarrow> string \<Rightarrow> string \<times> bool \<times> string" where
  "partition_at d s =
     (let h = takeWhile (\<lambda>c. c \<noteq> d) s; t = dropWhile (\<lambda>c. c \<noteq> d) s
      in (h, t \<noteq> [], drop 1 t))"

fun join :: "string \<Rightarrow> string list \<Rightarrow> string" where
  "join d [] = []"
| "join d [x] = x"
| "join d (x # y # ys) = x @ d @ join d (y # ys)"

text \<open>\<open>str.replace(old, new)\<close> with a non-empty \<open>old\<close>: leftmost, non-overlapping.\<close>

function replace_all :: "string \<Rightarrow> string \<Rightarrow> string \<Rightarrow> string" where
  "replace_all old new s =
     (if old = [] \<or> s = [] then s
      else if starts_with old s then new @ replace_all old new (drop (length old) s)
      else hd s # replace_all old new (tl s))"
  by pat_completeness auto
termination
  by (relation "measure (\<lambda>(old, new, s). length s)") auto

declare replace_all.simps [simp del]

text \<open>
  Decimal text of an integer: \<open>str(n)\<close>. The recursion is on \<open>int\<close> so that the
  kernel evaluates it on binary numerals.
\<close>

definition digit_char :: "int \<Rightarrow> char" where
  "digit_char n = ''0123456789abcdef'' ! nat n"

function dec_str :: "int \<Rightarrow> string" where
  "dec_str n = (if n < 10 then [digit_char n] else dec_str (n div 10) @ [digit_char (n mod 10)])"
  by pat_completeness auto
termination
  by (relation "measure nat") auto

declare dec_str.simps [simp del]

lemma dec_str_small [simp]: "n < 10 \<Longrightarrow> dec_str n = [digit_char n]"
  by (subst dec_str.simps) simp

lemma dec_str_step [simp]:
  "10 \<le> n \<Longrightarrow> dec_str n = dec_str (n div 10) @ [digit_char (n mod 10)]"
  by (subst dec_str.simps) simp

definition int_str :: "int \<Rightarrow> string" where
  "int_str i = (if i < 0 then ''-'' @ dec_str (- i) else dec_str i)"

definition digit_val :: "char \<Rightarrow> int" where
  "digit_val c = ord c - 48"

definition digits_val :: "string \<Rightarrow> int" where
  "digits_val s = foldl (\<lambda>a c. a * 10 + digit_val c) 0 s"

text \<open>
  \<open>int(text)\<close>: surrounding whitespace and one sign are accepted, single underscores may
  stand between digits, and CPython refuses more than 4300 digits. \<open>None\<close> is
  \<open>ValueError\<close>.
\<close>

fun digits_us :: "string \<Rightarrow> bool" where
  "digits_us [] = False"
| "digits_us [c] = is_digit c"
| "digits_us (c # d # s) = (is_digit c \<and> (if d = CHR ''_'' then digits_us s else digits_us (d # s)))"

definition unsigned_of_str :: "string \<Rightarrow> int option" where
  "unsigned_of_str s =
     (let ds = filter is_digit s in
      if digits_us s \<and> int (length ds) \<le> 4300 then Some (digits_val ds) else None)"

definition int_of_str :: "string \<Rightarrow> int option" where
  "int_of_str s =
     (case strip s of
        [] \<Rightarrow> None
      | c # cs \<Rightarrow>
          if c = CHR ''-'' then map_option (\<lambda>n. - n) (unsigned_of_str cs)
          else if c = CHR ''+'' then unsigned_of_str cs
          else unsigned_of_str (c # cs))"

text \<open>\<open>repr\<close> of a string.\<close>

definition hex2 :: "char \<Rightarrow> string" where
  "hex2 c = (let n = ord c in [digit_char (n div 16), digit_char (n mod 16)])"

definition is_printable :: "char \<Rightarrow> bool" where
  "is_printable c = (let n = ord c in (32 \<le> n \<and> n \<le> 126) \<or> (161 \<le> n \<and> n \<noteq> 173))"

definition repr_char :: "char \<Rightarrow> char \<Rightarrow> string" where
  "repr_char q c =
     (if c = q \<or> c = CHR 0x5C then [CHR 0x5C, c]
      else if c = CHR 0x09 then [CHR 0x5C, CHR ''t'']
      else if c = nl then [CHR 0x5C, CHR ''n'']
      else if c = cr then [CHR 0x5C, CHR ''r'']
      else if is_printable c then [c]
      else [CHR 0x5C, CHR ''x''] @ hex2 c)"

definition repr_quote :: "string \<Rightarrow> char" where
  "repr_quote s = (if CHR 0x27 \<in> set s \<and> CHR 0x22 \<notin> set s then CHR 0x22 else CHR 0x27)"

definition repr_str :: "string \<Rightarrow> string" where
  "repr_str s = (let q = repr_quote s in [q] @ concat (map (repr_char q) s) @ [q])"

text \<open>\<open>re.sub("[^...]", "_", s)\<close> for a class given as a predicate.\<close>

definition sub_class :: "(char \<Rightarrow> bool) \<Rightarrow> string \<Rightarrow> string" where
  "sub_class ok s = map (\<lambda>c. if ok c then c else CHR ''_'') s"

text \<open>\<open>re.sub("_+", "_", s)\<close>.\<close>

fun collapse_us :: "string \<Rightarrow> string" where
  "collapse_us [] = []"
| "collapse_us [c] = [c]"
| "collapse_us (c # d # s) =
     (if c = CHR ''_'' \<and> d = CHR ''_'' then collapse_us (d # s) else c # collapse_us (d # s))"

text \<open>A full match of a non-empty character class, with an optional length bound.\<close>

definition all_in :: "(char \<Rightarrow> bool) \<Rightarrow> string \<Rightarrow> bool" where
  "all_in ok s = (s \<noteq> [] \<and> list_all ok s)"

end
