(* ===== verification/PyStrFacts.thy ===== *)
theory PyStrFacts
  imports PyStr
begin

text \<open>
  Facts about the Python string operations that the components share: decimal text and its
  parse (round trip), \<open>split\<close> against \<open>join\<close>, injectivity of \<open>repr\<close> (so that
  de-duplication by \<open>repr\<close> is de-duplication), and freedom from line breaks
  (\<open>one_line\<close>, collection \<open>one_line\<close>).
\<close>

named_theorems one_line_intro "strings without a line break"

definition one_line :: "string \<Rightarrow> bool" where
  "one_line s = list_all (\<lambda>c. c \<noteq> nl) s"

lemma one_line_Nil [simp]: "one_line []"
  by (simp add: one_line_def)

lemma one_line_Cons [simp]: "one_line (c # s) \<longleftrightarrow> c \<noteq> nl \<and> one_line s"
  by (simp add: one_line_def)

lemma one_line_append [simp]: "one_line (s @ t) \<longleftrightarrow> one_line s \<and> one_line t"
  by (simp add: one_line_def)

lemma one_line_set: "one_line s \<longleftrightarrow> nl \<notin> set s"
  by (induction s) auto

lemma ord_eq_iff: "ord c = ord d \<longleftrightarrow> c = d"
  by (simp add: ord_def of_char_eq_iff)

lemma ord_bounds: "0 \<le> ord c" "ord c < 256"
proof -
  have "(of_char c :: nat) < 256" by (rule nat_of_char_less_256)
  then have "int (of_char c) < 256" by linarith
  moreover have "int (of_char c) = ord c" unfolding ord_def by (rule of_nat_of_char)
  ultimately show "0 \<le> ord c" "ord c < 256" by simp_all
qed

lemma one_line_list_all:
  assumes "list_all P s" and "\<not> P nl"
  shows "one_line s"
  using assms by (induction s) auto

lemma set_dropWhile_subset: "set (dropWhile P s) \<subseteq> set s"
  by (auto dest: set_dropWhileD)

lemma set_strip: "set (strip s) \<subseteq> set s"
proof
  fix c assume "c \<in> set (strip s)"
  then have "c \<in> set (lstrip s)"
    by (auto simp: strip_def rstrip_def dest: set_dropWhileD)
  then show "c \<in> set s" by (auto simp: lstrip_def dest: set_dropWhileD)
qed

lemma one_line_strip [one_line_intro]: "one_line s \<Longrightarrow> one_line (strip s)"
  using set_strip by (auto simp: one_line_set)

lemma one_line_take [one_line_intro]: "one_line s \<Longrightarrow> one_line (take n s)"
  by (auto simp: one_line_set dest: in_set_takeD)

lemma one_line_drop [one_line_intro]: "one_line s \<Longrightarrow> one_line (drop n s)"
  by (auto simp: one_line_set dest: in_set_dropD)

lemma one_line_sub_class [one_line_intro]: "\<not> ok nl \<Longrightarrow> one_line (sub_class ok s)"
  by (induction s) (auto simp: sub_class_def)

lemma one_line_join:
  "one_line d \<Longrightarrow> (\<And>x. x \<in> set xs \<Longrightarrow> one_line x) \<Longrightarrow> one_line (join d xs)"
  by (induction d xs rule: join.induct) auto

lemma is_digit_nl [simp]: "\<not> is_digit nl"
  by (simp add: is_digit_def ord_def)

lemma is_alnum_nl [simp]: "\<not> is_alnum nl" "\<not> is_alpha nl" "\<not> is_lower_alpha nl" "\<not> is_hex_digit nl"
  by (simp_all add: is_alnum_def is_alpha_def is_digit_def is_lower_alpha_def is_hex_digit_def ord_def)

lemma lower_char_nl [simp]: "lower_char c = nl \<longleftrightarrow> c = nl"
proof (cases "(65 \<le> ord c \<and> ord c \<le> 90) \<or> (192 \<le> ord c \<and> ord c \<le> 222 \<and> ord c \<noteq> 215)")
  case True
  then have "lower_char c = char_of (ord c + 32)" by (auto simp: lower_char_def Let_def)
  then have "ord (lower_char c) = (ord c + 32) mod 256" by (simp add: ord_def)
  also have "\<dots> = ord c + 32" using True by auto
  finally have "ord (lower_char c) \<noteq> ord nl" "ord c \<noteq> ord nl" using True by (auto simp: ord_def)
  then show ?thesis by metis
next
  case False
  then have "lower_char c = c" by (auto simp: lower_char_def Let_def)
  then show ?thesis by simp
qed

lemma one_line_lower [simp]: "one_line (lower s) \<longleftrightarrow> one_line s"
  by (induction s) (auto simp: lower_def)

subsection \<open>Decimal text\<close>

lemma digit_char_facts:
  assumes "0 \<le> n" and "n < 10"
  shows "is_digit (digit_char n)" and "digit_val (digit_char n) = n"
    and "digit_char n = CHR ''0'' \<longleftrightarrow> n = 0"
proof -
  have "n \<in> {0, 1, 2, 3, 4, 5, 6, 7, 8, 9}" using assms by simp presburger
  then consider "n = 0" | "n = 1" | "n = 2" | "n = 3" | "n = 4" | "n = 5" | "n = 6"
    | "n = 7" | "n = 8" | "n = 9" by auto
  then show "is_digit (digit_char n)" and "digit_val (digit_char n) = n"
    and "digit_char n = CHR ''0'' \<longleftrightarrow> n = 0"
    by (cases; simp add: digit_char_def is_digit_def digit_val_def ord_def)+
qed

lemma digits_val_snoc [simp]: "digits_val (s @ [c]) = digits_val s * 10 + digit_val c"
  by (simp add: digits_val_def)

lemma digits_val_Nil [simp]: "digits_val [] = 0"
  by (simp add: digits_val_def)

lemma dec_str_neq_Nil [simp]: "dec_str n \<noteq> []"
  by (subst dec_str.simps) simp

lemma dec_str_digits: "0 \<le> n \<Longrightarrow> list_all is_digit (dec_str n)"
proof (induction n rule: dec_str.induct)
  case (1 n)
  show ?case
  proof (cases "n < 10")
    case True
    then show ?thesis using 1 by (simp add: digit_char_facts)
  next
    case False
    then show ?thesis using 1 by (simp add: digit_char_facts)
  qed
qed

lemma digits_val_dec_str: "0 \<le> n \<Longrightarrow> digits_val (dec_str n) = n"
proof (induction n rule: dec_str.induct)
  case (1 n)
  show ?case
  proof (cases "n < 10")
    case True
    then show ?thesis using 1 digits_val_snoc[of "[]" "digit_char n"]
      by (simp add: digit_char_facts)
  next
    case False
    then show ?thesis using 1 by (simp add: digit_char_facts)
  qed
qed

lemma dec_str_hd: "0 < n \<Longrightarrow> hd (dec_str n) \<noteq> CHR ''0''"
proof (induction n rule: dec_str.induct)
  case (1 n)
  show ?case
  proof (cases "n < 10")
    case True
    then show ?thesis using 1 by (simp add: digit_char_facts)
  next
    case False
    then show ?thesis using 1 by simp
  qed
qed

lemma dec_str_inj: "0 \<le> m \<Longrightarrow> 0 \<le> n \<Longrightarrow> dec_str m = dec_str n \<Longrightarrow> m = n"
  by (metis digits_val_dec_str)

lemma dec_str_length: "n < 10 ^ k \<Longrightarrow> 0 < k \<Longrightarrow> length (dec_str n) \<le> k"
proof (induction k arbitrary: n)
  case 0
  then show ?case by simp
next
  case (Suc k)
  show ?case
  proof (cases "n < 10")
    case True
    then show ?thesis by simp
  next
    case False
    then have "k \<noteq> 0" using Suc.prems by (cases k) auto
    moreover have "n div 10 < 10 ^ k" using Suc.prems by auto
    ultimately have "length (dec_str (n div 10)) \<le> k" using Suc.IH by blast
    then show ?thesis using False by simp
  qed
qed

lemma is_digit_not_space: "is_digit c \<Longrightarrow> \<not> is_space c"
  by (auto simp: is_digit_def is_space_def Let_def)

lemma strip_id: "list_all (\<lambda>c. \<not> is_space c) s \<Longrightarrow> strip s = s"
proof -
  have id: "dropWhile is_space t = t" if "list_all (\<lambda>c. \<not> is_space c) t" for t
    using that by (cases t) auto
  assume "list_all (\<lambda>c. \<not> is_space c) s"
  then show ?thesis by (simp add: strip_def rstrip_def lstrip_def id list_all_rev)
qed

lemma digits_us_digits: "s \<noteq> [] \<Longrightarrow> list_all is_digit s \<Longrightarrow> digits_us s"
proof (induction s rule: digits_us.induct)
  case (3 c d s)
  have "is_digit d" using 3 by simp
  then have "d \<noteq> CHR ''_''" by (auto simp: is_digit_def ord_def)
  then show ?case using 3 by simp
qed simp_all

lemma filter_all: "list_all P s \<Longrightarrow> filter P s = s"
  by (induction s) auto

lemma unsigned_of_digits:
  assumes "s \<noteq> []" "list_all is_digit s" "length s \<le> 4300"
  shows "unsigned_of_str s = Some (digits_val s)"
  using assms by (simp add: unsigned_of_str_def Let_def digits_us_digits filter_all)

lemma int_of_digits:
  assumes "s \<noteq> []" "list_all is_digit s" "length s \<le> 4300"
  shows "int_of_str s = Some (digits_val s)"
proof -
  have "list_all (\<lambda>c. \<not> is_space c) s" using assms(2) is_digit_not_space
    by (auto simp: list_all_set)
  then have "strip s = s" by (rule strip_id)
  moreover obtain c cs where s: "s = c # cs" using assms(1) by (cases s) auto
  moreover have "c \<noteq> CHR ''-''" "c \<noteq> CHR ''+''"
    using assms(2) s by (auto simp: is_digit_def ord_def)
  ultimately show ?thesis using unsigned_of_digits[OF assms] by (simp add: int_of_str_def)
qed

lemma int_of_dec_str:
  assumes "0 \<le> n" "length (dec_str n) \<le> 4300"
  shows "int_of_str (dec_str n) = Some n"
  using assms int_of_digits[of "dec_str n"] by (simp add: dec_str_digits digits_val_dec_str)

lemma int_of_dec_str_small:
  assumes "0 \<le> n" "n < 10 ^ 20"
  shows "int_of_str (dec_str n) = Some n"
  using assms dec_str_length[OF assms(2)] by (simp add: int_of_dec_str)

lemma one_line_dec_str [simp]: "0 \<le> n \<Longrightarrow> one_line (dec_str n)"
  using dec_str_digits one_line_list_all by fastforce

lemma one_line_int_str [simp]: "one_line (int_str n)"
  by (simp add: int_str_def)

subsection \<open>The text of \<open>repr\<close> determines the string\<close>

lemma digit_char_inj:
  assumes "0 \<le> m" "m < 16" "0 \<le> n" "n < 16" "digit_char m = digit_char n"
  shows "m = n"
proof -
  have "distinct ''0123456789abcdef''" by simp
  moreover have "nat m < length ''0123456789abcdef''" "nat n < length ''0123456789abcdef''"
    using assms by auto
  ultimately have "nat m = nat n"
    using assms(5) by (simp only: digit_char_def nth_eq_iff_index_eq)
  then show ?thesis using assms by simp
qed

lemma hex2_inj: "hex2 c = hex2 d \<Longrightarrow> c = d"
proof -
  assume h: "hex2 c = hex2 d"
  have "ord c div 16 = ord d div 16"
    by (rule digit_char_inj) (use h ord_bounds[of c] ord_bounds[of d] in \<open>auto simp: hex2_def Let_def\<close>)
  moreover have "ord c mod 16 = ord d mod 16"
    by (rule digit_char_inj) (use h in \<open>auto simp: hex2_def Let_def\<close>)
  ultimately have "ord c = ord d" by (metis div_mult_mod_eq)
  then show "c = d" by (simp add: ord_eq_iff)
qed

lemma hex2_two: "\<exists>a b. hex2 c = [a, b]"
  by (simp add: hex2_def Let_def)

definition is_quote :: "char \<Rightarrow> bool" where
  "is_quote q = (q = CHR 0x27 \<or> q = CHR 0x22)"

lemma repr_char_shape:
  assumes q: "is_quote q"
  shows "(repr_char q c = [c] \<and> c \<noteq> CHR 0x5C)
    \<or> (repr_char q c = [CHR 0x5C, c] \<and> (c = q \<or> c = CHR 0x5C))
    \<or> (repr_char q c = [CHR 0x5C, CHR ''t''] \<and> c = CHR 0x09)
    \<or> (repr_char q c = [CHR 0x5C, CHR ''n''] \<and> c = nl)
    \<or> (repr_char q c = [CHR 0x5C, CHR ''r''] \<and> c = cr)
    \<or> (\<exists>a b. repr_char q c = [CHR 0x5C, CHR ''x'', a, b] \<and> hex2 c = [a, b])"
proof -
  have qn: "q \<noteq> CHR 0x09" "q \<noteq> nl" "q \<noteq> cr" using q by (auto simp: is_quote_def)
  obtain a b where h: "hex2 c = [a, b]" using hex2_two by blast
  consider "c = q \<or> c = CHR 0x5C" | "c = CHR 0x09" | "c = nl" | "c = cr"
    | "\<not> (c = q \<or> c = CHR 0x5C)" "c \<noteq> CHR 0x09" "c \<noteq> nl" "c \<noteq> cr" by blast
  then show ?thesis by cases (use qn h in \<open>simp_all add: repr_char_def\<close>)
qed

lemma repr_char_prefix:
  assumes q: "is_quote q" and eq: "repr_char q c @ s = repr_char q d @ t"
  shows "c = d \<and> s = t"
proof -
  have qn: "q \<noteq> CHR 0x5C" "q \<noteq> CHR ''t''" "q \<noteq> CHR ''n''" "q \<noteq> CHR ''r''" "q \<noteq> CHR ''x''"
    using q by (auto simp: is_quote_def)
  show ?thesis
    using repr_char_shape[OF q, of c] repr_char_shape[OF q, of d] eq qn
    by (elim disjE exE conjE; simp) (metis hex2_inj)
qed

lemma repr_char_neq_Nil [simp]: "repr_char q c \<noteq> []"
  by (simp add: repr_char_def)

lemma repr_body_inj:
  assumes "is_quote q"
  shows "concat (map (repr_char q) s) = concat (map (repr_char q) t) \<Longrightarrow> s = t"
proof (induction s arbitrary: t)
  case Nil
  then show ?case by (cases t) auto
next
  case (Cons c s)
  then obtain d t' where t: "t = d # t'" by (cases t) auto
  with Cons.prems have "repr_char q c @ concat (map (repr_char q) s) =
      repr_char q d @ concat (map (repr_char q) t')" by simp
  then have "c = d \<and> concat (map (repr_char q) s) = concat (map (repr_char q) t')"
    by (rule repr_char_prefix[OF assms])
  then show ?case using Cons.IH t by simp
qed

lemma repr_str_inj: "repr_str s = repr_str t \<longleftrightarrow> s = t"
proof
  assume a: "repr_str s = repr_str t"
  have q: "repr_quote s = repr_quote t" using a by (simp add: repr_str_def Let_def)
  have "concat (map (repr_char (repr_quote s)) s) = concat (map (repr_char (repr_quote s)) t)"
    using a by (simp add: repr_str_def Let_def q)
  moreover have "is_quote (repr_quote s)" by (simp add: is_quote_def repr_quote_def)
  ultimately show "s = t" using repr_body_inj by blast
qed simp

subsection \<open>\<open>split\<close> and \<open>join\<close>\<close>

lemma split_on_neq_Nil [simp]: "split_on d s \<noteq> []"
  by (induction s) (auto split: list.splits)

lemma split_on_no_sep: "d \<notin> set s \<Longrightarrow> split_on d s = [s]"
  by (induction s) auto

lemma split_on_append: "d \<notin> set s \<Longrightarrow> split_on d (s @ d # t) = s # split_on d t"
  by (induction s) auto

lemma split_on_join:
  "xs \<noteq> [] \<Longrightarrow> (\<And>x. x \<in> set xs \<Longrightarrow> d \<notin> set x) \<Longrightarrow> split_on d (join [d] xs) = xs"
  by (induction "[d]" xs rule: join.induct) (auto simp: split_on_no_sep split_on_append)

lemma join_split_on: "join [d] (split_on d s) = s"
proof (induction s)
  case Nil
  then show ?case by simp
next
  case (Cons c s)
  obtain w ws where w: "split_on d s = w # ws" using split_on_neq_Nil by (metis neq_Nil_conv)
  show ?case using Cons w by (cases ws) auto
qed

lemma split_on_pieces: "w \<in> set (split_on d s) \<Longrightarrow> d \<notin> set w"
  by (induction s arbitrary: w) (auto split: list.splits if_splits)

end
