(* ===== verification/PyValue.thy ===== *)
theory PyValue
  imports PyStrFacts
begin

text \<open>
  Python values as the decoders of configuration documents produce them (\<open>yaml.safe_load\<close>,
  \<open>json.loads\<close>), exceptions, and the built-in operations on them: \<open>str\<close>, \<open>repr\<close>,
  \<open>int\<close>, truth value, and dictionaries. A dictionary is an association list in insertion
  order with string keys. A float is represented by what the code can observe of it: its text and
  the outcome of \<open>int(x)\<close>.
\<close>

datatype float_int = FInt int | FInf | FNan

datatype pyval =
    PNone
  | PBool bool
  | PInt int
  | PFloat string float_int
  | PStr string
  | PList "pyval list"
  | PDict "(string \<times> pyval) list"

datatype pyexn =
    PolicyError string
  | TuningError string
  | UnsupportedControl string
  | ValueErr
  | TypeErr
  | AttributeErr
  | KeyErr string
  | OverflowErr
  | RuntimeErr
  | AssertionErr
  | SubprocessErr
  | CleanupErr
  | GGUFError string
  | OSErr string
  | CommandTimeout string
  | RecoveryRequired string
  | KeyboardInterrupt
  | Killed

text \<open>
  \<open>CommandTimeout\<close> and \<open>RecoveryRequired\<close> are the subclasses of \<open>PolicyError\<close>, \<open>CleanupErr\<close> is
  \<open>NetworkCleanupError\<close>, a subclass of \<open>RuntimeError\<close>; \<open>Killed\<close> is no exception:
  it stands for the end of the process (SIGKILL, power loss), which no handler and no \<open>finally\<close> sees.
\<close>

fun is_policy_error :: "pyexn \<Rightarrow> bool" where
  "is_policy_error (PolicyError m) = True"
| "is_policy_error (CommandTimeout m) = True"
| "is_policy_error (RecoveryRequired m) = True"
| "is_policy_error e = False"

fun is_os_error :: "pyexn \<Rightarrow> bool" where
  "is_os_error (OSErr m) = True"
| "is_os_error e = False"

fun is_value_error :: "pyexn \<Rightarrow> bool" where
  "is_value_error ValueErr = True"
| "is_value_error (GGUFError m) = True"
| "is_value_error e = False"

fun is_tuning_error :: "pyexn \<Rightarrow> bool" where
  "is_tuning_error (TuningError m) = True"
| "is_tuning_error (UnsupportedControl m) = True"
| "is_tuning_error e = False"

text \<open>\<open>str(exc)\<close>.\<close>

fun exn_str :: "pyexn \<Rightarrow> string" where
  "exn_str (PolicyError m) = m"
| "exn_str (TuningError m) = m"
| "exn_str (UnsupportedControl m) = m"
| "exn_str (OSErr m) = m"
| "exn_str (CommandTimeout m) = m"
| "exn_str (RecoveryRequired m) = m"
| "exn_str (KeyErr m) = m"
| "exn_str (GGUFError m) = m"
| "exn_str e = []"

type_synonym 'a res = "pyexn + 'a"
type_synonym pydict = "(string \<times> pyval) list"

fun py_repr :: "pyval \<Rightarrow> string" where
  "py_repr PNone = ''None''"
| "py_repr (PBool b) = (if b then ''True'' else ''False'')"
| "py_repr (PInt i) = int_str i"
| "py_repr (PFloat t f) = t"
| "py_repr (PStr s) = repr_str s"
| "py_repr (PList xs) = ''['' @ join '', '' (map py_repr xs) @ '']''"
| "py_repr (PDict kvs) = ''{'' @ join '', '' (map (\<lambda>kv. repr_str (fst kv) @ '': '' @ py_repr (snd kv)) kvs) @ ''}''"

definition py_str :: "pyval \<Rightarrow> string" where
  "py_str v = (case v of PStr s \<Rightarrow> s | _ \<Rightarrow> py_repr v)"

lemma py_str_PStr [simp]: "py_str (PStr s) = s"
  by (simp add: py_str_def)

definition py_int :: "pyval \<Rightarrow> int res" where
  "py_int v = (case v of
      PBool b \<Rightarrow> Inr (if b then 1 else 0)
    | PInt i \<Rightarrow> Inr i
    | PFloat t f \<Rightarrow> (case f of FInt i \<Rightarrow> Inr i | FInf \<Rightarrow> Inl OverflowErr | FNan \<Rightarrow> Inl ValueErr)
    | PStr s \<Rightarrow> (case int_of_str s of None \<Rightarrow> Inl ValueErr | Some i \<Rightarrow> Inr i)
    | _ \<Rightarrow> Inl TypeErr)"

fun py_truthy :: "pyval \<Rightarrow> bool" where
  "py_truthy PNone = False"
| "py_truthy (PBool b) = b"
| "py_truthy (PInt i) = (i \<noteq> 0)"
| "py_truthy (PFloat t f) = (t \<noteq> ''0.0'' \<and> t \<noteq> ''-0.0'')"
| "py_truthy (PStr s) = (s \<noteq> [])"
| "py_truthy (PList xs) = (xs \<noteq> [])"
| "py_truthy (PDict kvs) = (kvs \<noteq> [])"

text \<open>Dictionaries: \<open>d.get(k)\<close>, \<open>d.get(k, default)\<close>, \<open>d[k] = v\<close>, \<open>d.update(e)\<close>.\<close>

definition dget :: "string \<Rightarrow> pydict \<Rightarrow> pyval" where
  "dget k d = (case map_of d k of None \<Rightarrow> PNone | Some v \<Rightarrow> v)"

definition dget_or :: "string \<Rightarrow> pyval \<Rightarrow> pydict \<Rightarrow> pyval" where
  "dget_or k v0 d = (case map_of d k of None \<Rightarrow> v0 | Some v \<Rightarrow> v)"

definition dmem :: "string \<Rightarrow> pydict \<Rightarrow> bool" where
  "dmem k d = (map_of d k \<noteq> None)"

fun dset :: "'k \<Rightarrow> 'v \<Rightarrow> ('k \<times> 'v) list \<Rightarrow> ('k \<times> 'v) list" where
  "dset k v [] = [(k, v)]"
| "dset k v ((j, w) # d) = (if k = j then (j, v) # d else (j, w) # dset k v d)"

definition dupdate :: "('k \<times> 'v) list \<Rightarrow> ('k \<times> 'v) list \<Rightarrow> ('k \<times> 'v) list" where
  "dupdate d e = foldl (\<lambda>d kv. dset (fst kv) (snd kv) d) d e"

lemma map_of_dset [simp]: "map_of (dset k v d) = (map_of d)(k \<mapsto> v)"
  by (induction d) auto

lemma dkeys_dset: "map fst (dset k v d) = (if k \<in> fst ` set d then map fst d else map fst d @ [k])"
  by (induction d) (force split: if_splits)+

lemma set_dset: "set (dset k v d) \<subseteq> insert (k, v) (set d)"
  by (induction d) (auto split: if_splits)

lemma distinct_dset [simp]: "distinct (map fst d) \<Longrightarrow> distinct (map fst (dset k v d))"
  by (auto simp: dkeys_dset)

lemma dset_id: "map_of d k = Some v \<Longrightarrow> dset k v d = d"
  by (induction d) auto

lemma dset_in_place:
  "k \<in> fst ` set d \<Longrightarrow> length (dset k v d) = length d"
  by (induction d) (force split: if_splits)+

lemma map_of_dupdate: "map_of (dupdate d e) = map_of d ++ map_of (rev e)"
proof (induction e arbitrary: d)
  case Nil
  then show ?case by (simp add: dupdate_def)
next
  case (Cons kv e)
  have "dupdate d (kv # e) = dupdate (dset (fst kv) (snd kv) d) e" by (simp add: dupdate_def)
  then show ?case using Cons by (simp add: map_add_def fun_eq_iff split: option.split)
qed

lemma set_dupdate: "set (dupdate d e) \<subseteq> set d \<union> set e"
proof (induction e arbitrary: d)
  case Nil
  then show ?case by (simp add: dupdate_def)
next
  case (Cons kv e)
  have "set (dupdate d (kv # e)) \<subseteq> set (dset (fst kv) (snd kv) d) \<union> set e"
    using Cons by (simp add: dupdate_def)
  then show ?case using set_dset[of "fst kv" "snd kv" d] by auto
qed

lemma dget_dset [simp]: "dget k (dset j v d) = (if k = j then v else dget k d)"
  by (simp add: dget_def)

lemma dmem_dset [simp]: "dmem k (dset j v d) = (k = j \<or> dmem k d)"
  by (simp add: dmem_def)

lemma dget_in_set: "map_of d k = Some v \<Longrightarrow> (k, v) \<in> set d"
  by (rule map_of_SomeD)

text \<open>
  A property of every string a document holds, keys and values apart: \<open>doc_all P Q v\<close> is
  \<open>P\<close> on every mapping key and \<open>Q\<close> on every string or float text.
\<close>

fun doc_all :: "(string \<Rightarrow> bool) \<Rightarrow> (string \<Rightarrow> bool) \<Rightarrow> pyval \<Rightarrow> bool" where
  "doc_all P Q (PFloat t f) = Q t"
| "doc_all P Q (PStr s) = Q s"
| "doc_all P Q (PList xs) = list_all (doc_all P Q) xs"
| "doc_all P Q (PDict kvs) = list_all (\<lambda>kv. P (fst kv) \<and> doc_all P Q (snd kv)) kvs"
| "doc_all P Q PNone = True"
| "doc_all P Q (PBool b) = True"
| "doc_all P Q (PInt i) = True"

lemma doc_all_dget: "doc_all P Q (PDict d) \<Longrightarrow> doc_all P Q (dget k d)"
  by (force simp: dget_def list_all_set split: option.splits dest: dget_in_set)

lemma doc_all_dget_or:
  "doc_all P Q (PDict d) \<Longrightarrow> doc_all P Q v \<Longrightarrow> doc_all P Q (dget_or k v d)"
  by (force simp: dget_or_def list_all_set split: option.splits dest: dget_in_set)

lemma doc_all_dset:
  "doc_all P Q (PDict d) \<Longrightarrow> P k \<Longrightarrow> doc_all P Q v \<Longrightarrow> doc_all P Q (PDict (dset k v d))"
  using set_dset[of k v d] by (fastforce simp: list_all_set)

text \<open>Well-formed documents: no mapping has a key twice, as a Python dictionary.\<close>

fun doc_wf :: "pyval \<Rightarrow> bool" where
  "doc_wf (PList xs) = list_all doc_wf xs"
| "doc_wf (PDict kvs) = (distinct (map fst kvs) \<and> list_all (\<lambda>kv. doc_wf (snd kv)) kvs)"
| "doc_wf v = True"

text \<open>
  \<open>unique_by key xs\<close>: the elements of \<open>xs\<close> in order, each only where its key occurs
  first (the \<open>seen\<close> set of the source is the list of keys met so far).
\<close>

fun unique_from :: "('a \<Rightarrow> string) \<Rightarrow> string list \<Rightarrow> 'a list \<Rightarrow> 'a list" where
  "unique_from key seen [] = []"
| "unique_from key seen (x # xs) =
     (if key x \<in> set seen then unique_from key seen xs
      else x # unique_from key (key x # seen) xs)"

definition unique_by :: "('a \<Rightarrow> string) \<Rightarrow> 'a list \<Rightarrow> 'a list" where
  "unique_by key xs = unique_from key [] xs"

lemma unique_from_subset: "set (unique_from key seen xs) \<subseteq> set xs"
  by (induction xs arbitrary: seen) auto

lemma unique_from_keys:
  "key ` set (unique_from key seen xs) = key ` set xs - set seen"
  by (induction xs arbitrary: seen) auto

lemma unique_from_distinct: "distinct (map key (unique_from key seen xs))"
proof (induction xs arbitrary: seen)
  case Nil
  then show ?case by simp
next
  case (Cons x xs)
  have "key x \<notin> key ` set (unique_from key (key x # seen) xs)"
    by (simp add: unique_from_keys)
  then show ?case using Cons by simp
qed

lemma unique_from_id:
  "distinct (map key xs) \<Longrightarrow> key ` set xs \<inter> set seen = {} \<Longrightarrow> unique_from key seen xs = xs"
  by (induction xs arbitrary: seen) auto

lemma unique_by_subset: "set (unique_by key xs) \<subseteq> set xs"
  by (simp add: unique_by_def unique_from_subset)

lemma unique_by_distinct_keys: "distinct (map key (unique_by key xs))"
  by (simp add: unique_by_def unique_from_distinct)

lemma unique_by_keys: "key ` set (unique_by key xs) = key ` set xs"
  by (simp add: unique_by_def unique_from_keys)

lemma unique_by_idem [simp]: "unique_by key (unique_by key xs) = unique_by key xs"
  using unique_from_id[of key "unique_by key xs" "[]"] unique_by_distinct_keys[of key xs]
  by (simp add: unique_by_def)

lemma unique_by_id: "distinct (map key xs) \<Longrightarrow> unique_by key xs = xs"
  by (simp add: unique_by_def unique_from_id)

lemma unique_by_Nil [simp]: "unique_by key xs = [] \<longleftrightarrow> xs = []"
  by (cases xs) (auto simp: unique_by_def)

lemma unique_by_list_all: "list_all P xs \<Longrightarrow> list_all P (unique_by key xs)"
  using unique_by_subset by (fastforce simp: list_all_set)

lemma unique_by_inj_set:
  assumes "inj_on key (set xs)"
  shows "set (unique_by key xs) = set xs"
proof
  show "set (unique_by key xs) \<subseteq> set xs" by (rule unique_by_subset)
  show "set xs \<subseteq> set (unique_by key xs)"
  proof
    fix x assume x: "x \<in> set xs"
    then have "key x \<in> key ` set (unique_by key xs)" by (simp add: unique_by_keys)
    then obtain y where "y \<in> set (unique_by key xs)" "key y = key x" by auto
    then show "x \<in> set (unique_by key xs)"
      using assms x unique_by_subset by (metis inj_onD subsetD)
  qed
qed

end
