(* ===== verification/NftBase.thy ===== *)
theory NftBase
  imports PyValue "HOL-Library.Product_Lexorder"
begin

text \<open>
  \<open>nft-policy-generate.py\<close>, part 1: constants, the render context, log levels, the coercions
  of document values, identifiers, de-duplication, the recursive merge and the merge of an overlay
  into a policy, and the loading of a profile with its overlays.

  Every \<open>raise PolicyError(...)\<close> is \<open>Inl (PolicyError message)\<close> with the source's message.
  A path is the text \<open>str(path)\<close>. The YAML parser (PyYAML) and the file system are arguments.
\<close>

subsection \<open>Constants and the render context\<close>

definition SUPPORTED_API_VERSION :: string where "SUPPORTED_API_VERSION = ''cybops.nftables/v1''"
definition PROFILE_KIND :: string where "PROFILE_KIND = ''NftablesProfile''"
definition OVERLAY_KIND :: string where "OVERLAY_KIND = ''NftablesServiceOverlay''"
definition PROTO_SET :: "string list" where "PROTO_SET = [''tcp'', ''udp'']"
definition DIRECTION_SET :: "string list" where
  "DIRECTION_SET = [''inbound'', ''outbound'', ''bidirectional'']"
definition MAX_YAML_BYTES :: int where "MAX_YAML_BYTES = 1024 * 1024"
definition NFT_FAMILIES :: "string list" where
  "NFT_FAMILIES = [''arp'', ''bridge'', ''inet'', ''ip'', ''ip6'', ''netdev'']"
definition NFT_NAT_FAMILIES :: "string list" where "NFT_NAT_FAMILIES = [''inet'', ''ip'', ''ip6'']"
definition EGRESS_MODES :: "string list" where
  "EGRESS_MODES = [''allow_all'', ''allow_all_with_audit'', ''audit'', ''deny_by_default'',
     ''enforce'', ''strict'']"
definition DROP_LOG_CHAINS :: "string list" where
  "DROP_LOG_CHAINS = [''forward'', ''input'', ''output'']"
definition LOG_LEVEL_VALUES :: "(string \<times> int) list" where
  "LOG_LEVEL_VALUES = [(''debug'', 10), (''info'', 20), (''warning'', 30), (''error'', 40),
     (''none'', 99)]"

text \<open>\<open>sorted(CONSTANT_SET)!r\<close>: the constant sets above are listed in sorted order.\<close>

definition repr_strs :: "string list \<Rightarrow> string" where
  "repr_strs xs = py_repr (PList (map PStr xs))"

record render_context =
  warnings :: "string list"
  skipped :: "string list"

definition empty_context :: render_context where
  "empty_context = \<lparr>warnings = [], skipped = []\<rparr>"

definition ctx_warn :: "string \<Rightarrow> render_context \<Rightarrow> render_context" where
  "ctx_warn m c = c\<lparr>warnings := warnings c @ [m]\<rparr>"

definition ctx_skip :: "string \<Rightarrow> render_context \<Rightarrow> render_context" where
  "ctx_skip m c = c\<lparr>skipped := skipped c @ [m]\<rparr>"

subsection \<open>Log levels\<close>

definition normalized_level :: "string \<Rightarrow> string" where
  "normalized_level level =
     (let n = lower (strip (if level = [] then ''none'' else level))
      in if n = ''warn'' then ''warning'' else n)"

definition canonical_log_level :: "string \<Rightarrow> string" where
  "canonical_log_level level =
     (let n = normalized_level level
      in if n \<in> set (map fst LOG_LEVEL_VALUES) then n else ''none'')"

definition set_log_level :: "string \<Rightarrow> string res" where
  "set_log_level level =
     (let n = normalized_level level
      in if n \<notin> set (map fst LOG_LEVEL_VALUES)
         then Inl (PolicyError ''NFTABLES_LOG_LEVEL must be debug, info, warning, error, or none'')
         else Inr n)"

definition level_value :: "string \<Rightarrow> int" where
  "level_value n = the (map_of LOG_LEVEL_VALUES n)"

definition log_enabled :: "string \<Rightarrow> string \<Rightarrow> bool" where
  "log_enabled active_level level =
     (let requested = canonical_log_level level; active = canonical_log_level active_level
      in if requested = ''error'' then True
         else active \<noteq> ''none'' \<and> level_value active \<le> level_value requested)"

definition eprint :: "string \<Rightarrow> string \<Rightarrow> string \<Rightarrow> string list \<Rightarrow> string list" where
  "eprint active_level level message err =
     (if log_enabled active_level level then err @ [message] else err)"

subsection \<open>Coercions of document values\<close>

definition require_kind :: "pydict \<Rightarrow> string \<Rightarrow> string \<Rightarrow> unit res" where
  "require_kind doc kind path =
     (let api_version = dget ''apiVersion'' doc; actual_kind = dget ''kind'' doc in
      if api_version \<noteq> PStr SUPPORTED_API_VERSION
      then Inl (PolicyError (path @ '': unsupported apiVersion '' @ py_repr api_version
             @ ''; expected '' @ repr_str SUPPORTED_API_VERSION))
      else if actual_kind \<noteq> PStr kind
      then Inl (PolicyError (path @ '': invalid kind '' @ py_repr actual_kind
             @ ''; expected '' @ repr_str kind))
      else Inr ())"

definition as_dict :: "pyval \<Rightarrow> string \<Rightarrow> pydict res" where
  "as_dict value label =
     (case value of
        PNone \<Rightarrow> Inr []
      | PDict d \<Rightarrow> Inr d
      | _ \<Rightarrow> Inl (PolicyError (label @ '' must be a mapping'')))"

definition as_list :: "pyval \<Rightarrow> string \<Rightarrow> pyval list res" where
  "as_list value label =
     (case value of
        PNone \<Rightarrow> Inr []
      | PList xs \<Rightarrow> Inr xs
      | _ \<Rightarrow> Inl (PolicyError (label @ '' must be a list'')))"

definition as_bool :: "pyval \<Rightarrow> bool \<Rightarrow> bool res" where
  "as_bool value dflt =
     (let bad = Inl (PolicyError (''expected boolean, got '' @ py_repr value)) in
      case value of
        PNone \<Rightarrow> Inr dflt
      | PBool b \<Rightarrow> Inr b
      | PStr s \<Rightarrow>
          (let lowered = lower (strip s) in
           if lowered \<in> {''true'', ''yes'', ''1'', ''on''} then Inr True
           else if lowered \<in> {''false'', ''no'', ''0'', ''off''} then Inr False
           else bad)
      | _ \<Rightarrow> bad)"

definition as_int :: "pyval \<Rightarrow> string \<Rightarrow> int \<Rightarrow> int \<Rightarrow> int res" where
  "as_int value label minimum maximum =
     (case value of
        PBool b \<Rightarrow> Inl (PolicyError (label @ '': expected integer, got boolean''))
      | _ \<Rightarrow>
          bindE (catchE (py_int value)
                   (\<lambda>e. if e = TypeErr \<or> e = ValueErr
                        then Inl (PolicyError (label @ '': expected integer, got '' @ py_repr value))
                        else Inl e))
            (\<lambda>parsed.
               if parsed < minimum \<or> parsed > maximum
               then Inl (PolicyError (label @ '': '' @ int_str parsed @ '' outside ''
                      @ int_str minimum @ ''..'' @ int_str maximum))
               else Inr parsed))"

subsection \<open>Identifiers and families\<close>

definition ident_char :: "char \<Rightarrow> bool" where
  "ident_char c = (is_alnum c \<or> c = CHR ''_'')"

definition safe_ident :: "string \<Rightarrow> string res" where
  "safe_ident name =
     (let n1 = sub_class ident_char (strip name);
          n2 = strip_char (CHR ''_'') (collapse_us n1)
      in case n2 of
           [] \<Rightarrow> Inl (PolicyError ''empty identifier'')
         | c # cs \<Rightarrow> Inr (lower (if is_digit c then ''n_'' @ n2 else n2)))"

definition nft_ident_ok :: "string \<Rightarrow> bool" where
  "nft_ident_ok s =
     (case s of [] \<Rightarrow> False | c # cs \<Rightarrow> (is_alpha c \<or> c = CHR ''_'') \<and> list_all ident_char cs)"

definition validate_nft_identifier :: "pyval \<Rightarrow> string \<Rightarrow> string res" where
  "validate_nft_identifier value label =
     (let text = strip (py_str value) in
      if nft_ident_ok text then Inr text
      else Inl (PolicyError (label @ '': invalid nft identifier '' @ py_repr value)))"

definition validate_nft_family :: "pyval \<Rightarrow> string \<Rightarrow> string list \<Rightarrow> string res" where
  "validate_nft_family value label allowed =
     (let text = lower (strip (py_str value)) in
      if text \<notin> set allowed
      then Inl (PolicyError (label @ '': unsupported nft family '' @ py_repr value
             @ ''; expected one of '' @ repr_strs allowed))
      else Inr text)"

subsection \<open>De-duplication and the recursive merge\<close>

definition unique_preserve :: "pyval list \<Rightarrow> pyval list" where
  "unique_preserve xs = unique_by py_repr xs"

text \<open>The same function on a list that holds strings only.\<close>

definition unique_strs :: "string list \<Rightarrow> string list" where
  "unique_strs xs = unique_by repr_str xs"

fun deep_merge :: "pyval \<Rightarrow> pyval \<Rightarrow> pyval"
  and deep_merge_items :: "pydict \<Rightarrow> pydict \<Rightarrow> pydict" where
  "deep_merge (PDict base) (PDict overlay) = PDict (deep_merge_items base overlay)"
| "deep_merge (PList base) (PList overlay) = PList (unique_preserve (base @ overlay))"
| "deep_merge base overlay = overlay"
| "deep_merge_items result [] = result"
| "deep_merge_items result ((key, value) # items) =
     deep_merge_items
       (dset key (case map_of result key of
                    Some old \<Rightarrow> deep_merge old value
                  | None \<Rightarrow> value) result) items"

subsection \<open>Merging one overlay\<close>

text \<open>
  \<open>as_dict(policy.setdefault(key, {}), key)\<close>. The result says whether the mapping that the
  caller goes on to mutate is the one stored in \<open>policy\<close>: when the stored value is
  \<open>None\<close>, \<open>as_dict\<close> returns a fresh dictionary that nothing else refers to.
\<close>

definition setdefault_dict :: "pydict \<Rightarrow> string \<Rightarrow> (bool \<times> pydict) res" where
  "setdefault_dict policy key =
     (case map_of policy key of
        None \<Rightarrow> Inr (True, [])
      | Some PNone \<Rightarrow> Inr (False, [])
      | Some v \<Rightarrow> bindE (as_dict v key) (\<lambda>d. Inr (True, d)))"

definition store_dict :: "bool \<Rightarrow> string \<Rightarrow> pydict \<Rightarrow> pydict \<Rightarrow> pydict" where
  "store_dict stored key target policy = (if stored then dset key (PDict target) policy else policy)"

definition merge_group :: "string \<Rightarrow> string \<Rightarrow> pydict \<Rightarrow> string \<times> pyval \<Rightarrow> pydict res" where
  "merge_group overlay_path key target gv =
     (case gv of (grp, values) \<Rightarrow>
        bindE (as_list (dget grp target) (key @ ''.'' @ grp)) (\<lambda>old.
        bindE (as_list values (overlay_path @ '': '' @ key @ ''.'' @ grp)) (\<lambda>new.
        Inr (dset grp (PList (unique_preserve (old @ new))) target))))"

definition merge_group_key :: "string \<Rightarrow> pydict \<Rightarrow> pydict \<Rightarrow> string \<Rightarrow> pydict res" where
  "merge_group_key overlay_path overlay policy key =
     (case map_of overlay key of
        None \<Rightarrow> Inr policy
      | Some ov \<Rightarrow>
          bindE (setdefault_dict policy key) (\<lambda>(stored, target).
          bindE (as_dict ov (overlay_path @ '': '' @ key)) (\<lambda>groups.
          bindE (foldE (merge_group overlay_path key) target groups) (\<lambda>target'.
          Inr (store_dict stored key target' policy)))))"

definition merge_services :: "string \<Rightarrow> pydict \<Rightarrow> pydict \<Rightarrow> pydict res" where
  "merge_services overlay_path overlay policy =
     (case map_of overlay ''services'' of
        None \<Rightarrow> Inr policy
      | Some ov \<Rightarrow>
          bindE (setdefault_dict policy ''services'') (\<lambda>(stored, services).
          bindE (as_dict ov (overlay_path @ '': services'')) (\<lambda>items.
          Inr (store_dict stored ''services''
                 (foldl (\<lambda>s (name, service).
                            dset name (deep_merge (dget_or name (PDict []) s) service) s)
                    services items) policy))))"

text \<open>\<open>if okey in overlay: policy[pkey] = deep_merge(policy.get(pkey, {}), overlay[okey])\<close>\<close>

definition merge_section :: "string \<Rightarrow> string \<Rightarrow> pydict \<Rightarrow> pydict \<Rightarrow> pydict" where
  "merge_section okey pkey overlay policy =
     (case map_of overlay okey of
        None \<Rightarrow> policy
      | Some ov \<Rightarrow> dset pkey (deep_merge (dget_or pkey (PDict []) policy) ov) policy)"

definition check_applies ::
    "pydict \<Rightarrow> pydict \<Rightarrow> string \<Rightarrow> bool \<Rightarrow> render_context \<Rightarrow> render_context res" where
  "check_applies policy overlay overlay_path force ctx =
     bindE (as_dict (dget ''metadata'' policy) ''metadata'') (\<lambda>meta.
     let profile_name = py_str (dget_or ''name'' (PStr []) meta);
         profile_class = py_str (dget_or ''profile_class'' (PStr profile_name) meta)
     in
     bindE (as_dict (dget ''metadata'' overlay) (overlay_path @ '': metadata'')) (\<lambda>overlay_meta.
     case dget ''applies_to_profiles'' overlay_meta of
       PNone \<Rightarrow> Inr ctx
     | applies \<Rightarrow>
         bindE (as_list applies (overlay_path @ '': metadata.applies_to_profiles'')) (\<lambda>xs.
         let applies_list = map py_str xs;
             msg = ''overlay '' @ overlay_path @ '' does not apply to profile ''
                     @ repr_str profile_name @ ''/'' @ repr_str profile_class
         in if profile_name \<notin> set applies_list \<and> profile_class \<notin> set applies_list
               \<and> ''*'' \<notin> set applies_list
            then (if force then Inr (ctx_warn (msg @ '' (forced)'') ctx) else Inl (PolicyError msg))
            else Inr ctx)))"

definition GROUP_KEYS :: "string list" where
  "GROUP_KEYS = [''interface_groups'', ''cidr_groups'', ''port_groups'', ''interfaces'', ''cidrs'',
     ''ports'']"

definition merge_overlay ::
    "pydict \<Rightarrow> pydict \<Rightarrow> string \<Rightarrow> bool \<Rightarrow> render_context \<Rightarrow> (pydict \<times> render_context) res" where
  "merge_overlay policy overlay overlay_path force ctx =
     bindE (check_applies policy overlay overlay_path force ctx) (\<lambda>ctx'.
     bindE (foldE (merge_group_key overlay_path overlay) policy GROUP_KEYS) (\<lambda>p1.
     bindE (merge_services overlay_path overlay p1) (\<lambda>p2.
     let p3 = merge_section ''egress'' ''egress'' overlay p2;
         p4 = merge_section ''egress_mode_override'' ''egress'' overlay p3;
         p5 = merge_section ''forwarding'' ''forwarding'' overlay p4;
         p6 = merge_section ''nat'' ''nat'' overlay p5;
         p7 = merge_section ''containers'' ''containers'' overlay p6;
         p8 = merge_section ''logging'' ''logging'' overlay p7
     in case map_of overlay ''tailscale_netkit'' of
          None \<Rightarrow> Inr (p8, ctx')
        | Some t \<Rightarrow>
            if dmem ''tailscale_netkit'' p8
            then Inl (PolicyError ''tailscale_netkit: duplicate transport ownership'')
            else Inr (dset ''tailscale_netkit'' t p8, ctx'))))"

subsection \<open>Loading a profile with its overlays\<close>

text \<open>
  The file system answers a path with an \<open>OSError\<close> text, or whether it is a regular file, its
  size and its decoded text (\<open>None\<close> when it is not UTF-8). The parser answers a text with an
  error text or a document.
\<close>

type_synonym fs_read = "string \<Rightarrow> string + bool \<times> int \<times> string option"
type_synonym yaml_load = "string \<Rightarrow> string + pyval"

definition load_yaml_file :: "fs_read \<Rightarrow> yaml_load \<Rightarrow> string \<Rightarrow> pydict res" where
  "load_yaml_file fs safe_load path =
     (case fs path of
        Inl exc \<Rightarrow> Inl (PolicyError (''cannot read YAML file '' @ path @ '': '' @ exc))
      | Inr (is_file, st_size, content) \<Rightarrow>
          if \<not> is_file
          then Inl (PolicyError (''YAML path is not a regular file: '' @ path))
          else if st_size > MAX_YAML_BYTES
          then Inl (PolicyError (''YAML file exceeds '' @ int_str MAX_YAML_BYTES @ '' bytes: '' @ path))
          else (case content of
                  None \<Rightarrow> Inl ValueErr
                | Some raw \<Rightarrow>
                    (case safe_load raw of
                       Inl exc \<Rightarrow> Inl (PolicyError (''invalid YAML in '' @ path @ '': '' @ exc))
                     | Inr PNone \<Rightarrow> Inl (PolicyError (''empty YAML file: '' @ path))
                     | Inr (PDict d) \<Rightarrow> Inr d
                     | Inr _ \<Rightarrow>
                         Inl (PolicyError
                           (''top-level YAML document must be a mapping: '' @ path)))))"

definition load_overlay :: "fs_read \<Rightarrow> yaml_load \<Rightarrow> string \<Rightarrow> (int \<times> string \<times> pydict) res" where
  "load_overlay fs safe_load overlay_path =
     bindE (load_yaml_file fs safe_load overlay_path) (\<lambda>overlay.
     bindE (require_kind overlay OVERLAY_KIND overlay_path) (\<lambda>_.
     bindE (as_dict (dget ''metadata'' overlay) (overlay_path @ '': metadata'')) (\<lambda>meta.
     bindE (as_int (dget_or ''merge_priority'' (PInt 50) meta)
              (overlay_path @ '': metadata.merge_priority'') 0 1000) (\<lambda>prio.
     Inr (prio, overlay_path, overlay)))))"

definition overlay_key :: "int \<times> string \<times> pydict \<Rightarrow> int \<times> string" where
  "overlay_key item = (fst item, fst (snd item))"

definition load_policy ::
    "fs_read \<Rightarrow> yaml_load \<Rightarrow> string \<Rightarrow> string list \<Rightarrow> bool \<Rightarrow> render_context
       \<Rightarrow> (pydict \<times> render_context) res" where
  "load_policy fs safe_load profile_path overlay_paths force_overlay ctx =
     bindE (load_yaml_file fs safe_load profile_path) (\<lambda>profile.
     bindE (require_kind profile PROFILE_KIND profile_path) (\<lambda>_.
     bindE (mapE (load_overlay fs safe_load) overlay_paths) (\<lambda>loaded.
     foldE (\<lambda>(policy, c) (prio, overlay_path, overlay).
               merge_overlay policy overlay overlay_path force_overlay c)
       (profile, ctx) (sort_key overlay_key loaded))))"

end
