(* ===== verification/PyIp.thy ===== *)
theory PyIp
  imports PyValue "HOL-Library.Product_Lexorder"
begin

text \<open>
  Python's \<open>ipaddress\<close> module as far as the modelled code uses it (CPython 3.14): parsing of
  addresses and of networks with \<open>strict=False\<close>, IPv6 scope identifiers, the canonical text,
  \<open>subnet_of\<close>, \<open>is_multicast\<close>, and \<open>collapse_addresses\<close>.

  An address is its integer; masking with a netmask of prefix length \<open>l\<close> is rounding down to
  a multiple of \<open>2 ^ (W - l)\<close>, where \<open>W\<close> is 32 or 128.
\<close>

datatype ip_version = V4 | V6

definition ip_bits :: "ip_version \<Rightarrow> nat" where
  "ip_bits v = (case v of V4 \<Rightarrow> 32 | V6 \<Rightarrow> 128)"

datatype ip_addr = IpAddr (addr_ver: ip_version) (addr_int: int) (addr_scope: "string option")

datatype ip_net = IpNet (net_ver: ip_version) (net_int: int) (net_len: nat) (net_scope: "string option")

definition block_size :: "ip_version \<Rightarrow> nat \<Rightarrow> int" where
  "block_size v l = 2 ^ (ip_bits v - l)"

definition net_last :: "ip_net \<Rightarrow> int" where
  "net_last n = net_int n + block_size (net_ver n) (net_len n) - 1"

subsection \<open>Parsing\<close>

definition all_digits :: "string \<Rightarrow> bool" where
  "all_digits s = all_in is_digit s"

definition parse_octet :: "string \<Rightarrow> int option" where
  "parse_octet s =
     (if \<not> all_digits s then None
      else if length s > 3 then None
      else if s \<noteq> ''0'' \<and> hd s = CHR ''0'' then None
      else if digits_val s > 255 then None
      else Some (digits_val s))"

definition parse_ipv4_int :: "string \<Rightarrow> int option" where
  "parse_ipv4_int s =
     (case map parse_octet (split_on CHR ''.'' s) of
        [Some a, Some b, Some c, Some d] \<Rightarrow> Some (((a * 256 + b) * 256 + c) * 256 + d)
      | _ \<Rightarrow> None)"

definition hex_val :: "char \<Rightarrow> int" where
  "hex_val c = (if is_digit c then ord c - 48 else if ord c \<ge> 97 then ord c - 87 else ord c - 55)"

definition parse_hextet :: "string \<Rightarrow> int option" where
  "parse_hextet s =
     (if all_in is_hex_digit s \<and> length s \<le> 4 then Some (foldl (\<lambda>a c. a * 16 + hex_val c) 0 s)
      else None)"

fun all_some :: "'a option list \<Rightarrow> 'a list option" where
  "all_some [] = Some []"
| "all_some (None # xs) = None"
| "all_some (Some x # xs) = map_option (\<lambda>ys. x # ys) (all_some xs)"

definition hextets_int :: "int list \<Rightarrow> int" where
  "hextets_int hs = foldl (\<lambda>a h. a * 65536 + h) 0 hs"

text \<open>
  The parts of an IPv6 text after the split at colons and the replacement of a dotted tail.
  \<open>inner_empty\<close> lists the positions \<open>0 < i < len - 1\<close> with an empty part.
\<close>

definition inner_empty :: "string list \<Rightarrow> nat list" where
  "inner_empty parts = filter (\<lambda>i. parts ! i = []) [1..<length parts - 1]"

definition parse_ipv6_parts :: "string list \<Rightarrow> int option" where
  "parse_ipv6_parts parts =
     (if length parts > 9 then None
      else case inner_empty parts of
        [] \<Rightarrow>
          (if length parts \<noteq> 8 then None
           else map_option hextets_int (all_some (map parse_hextet parts)))
      | [skip] \<Rightarrow>
          (let hi0 = skip; lo0 = length parts - skip - 1;
               hi = (if hd parts = [] then hi0 - 1 else hi0);
               lo = (if last parts = [] then lo0 - 1 else lo0)
           in if hd parts = [] \<and> hi \<noteq> 0 then None
              else if last parts = [] \<and> lo \<noteq> 0 then None
              else if hi + lo \<ge> 8 then None
              else (case all_some (map parse_hextet (take hi parts)) of
                      None \<Rightarrow> None
                    | Some hs \<Rightarrow>
                        (case all_some (map parse_hextet (drop (length parts - lo) parts)) of
                           None \<Rightarrow> None
                         | Some ls \<Rightarrow>
                             Some (hextets_int (hs @ replicate (8 - (hi + lo)) 0 @ ls)))))
      | _ \<Rightarrow> None)"

function hex_str :: "int \<Rightarrow> string" where
  "hex_str n = (if n < 16 then [digit_char n] else hex_str (n div 16) @ [digit_char (n mod 16)])"
  by pat_completeness auto
termination
  by (relation "measure nat") auto

declare hex_str.simps [simp del]

definition parse_ipv6_int :: "string \<Rightarrow> int option" where
  "parse_ipv6_int s =
     (let parts = split_on CHR '':'' s in
      if s = [] \<or> length parts < 3 then None
      else if CHR ''.'' \<in> set (last parts)
      then (case parse_ipv4_int (last parts) of
              None \<Rightarrow> None
            | Some v4 \<Rightarrow>
                parse_ipv6_parts (butlast parts @ [hex_str (v4 div 65536), hex_str (v4 mod 65536)]))
      else parse_ipv6_parts parts)"

definition split_scope :: "string \<Rightarrow> (string \<times> string option) option" where
  "split_scope s =
     (case partition_at CHR ''%'' s of (addr, sep, scope) \<Rightarrow>
        if \<not> sep then Some (addr, None)
        else if scope = [] \<or> CHR ''%'' \<in> set scope then None
        else Some (addr, Some scope))"

definition parse_ipv4_addr :: "string \<Rightarrow> ip_addr option" where
  "parse_ipv4_addr s =
     (if CHR ''/'' \<in> set s then None else map_option (\<lambda>i. IpAddr V4 i None) (parse_ipv4_int s))"

definition parse_ipv6_addr :: "string \<Rightarrow> ip_addr option" where
  "parse_ipv6_addr s =
     (if CHR ''/'' \<in> set s then None
      else case split_scope s of
             None \<Rightarrow> None
           | Some (addr, scope) \<Rightarrow> map_option (\<lambda>i. IpAddr V6 i scope) (parse_ipv6_int addr))"

text \<open>\<open>ipaddress.ip_address(text)\<close>\<close>

definition ip_address :: "string \<Rightarrow> ip_addr option" where
  "ip_address s = (case parse_ipv4_addr s of Some a \<Rightarrow> Some a | None \<Rightarrow> parse_ipv6_addr s)"

subsection \<open>Prefix lengths and networks\<close>

definition prefix_of_str :: "ip_version \<Rightarrow> string \<Rightarrow> nat option" where
  "prefix_of_str v s =
     (if all_digits s \<and> length s \<le> 4300 \<and> digits_val s \<le> int (ip_bits v)
      then Some (nat (digits_val s)) else None)"

fun trailing_zeros :: "nat \<Rightarrow> int \<Rightarrow> nat" where
  "trailing_zeros 0 n = 0"
| "trailing_zeros (Suc b) n = (if n mod 2 = 0 then Suc (trailing_zeros b (n div 2)) else 0)"

definition prefix_of_ip_int :: "int \<Rightarrow> nat option" where
  "prefix_of_ip_int n =
     (let tz = trailing_zeros 32 n; l = 32 - tz
      in if n div 2 ^ tz = 2 ^ l - 1 then Some l else None)"

definition prefix_of_ip_str :: "string \<Rightarrow> nat option" where
  "prefix_of_ip_str s =
     (case parse_ipv4_int s of
        None \<Rightarrow> None
      | Some n \<Rightarrow>
          (case prefix_of_ip_int n of
             Some l \<Rightarrow> Some l
           | None \<Rightarrow> prefix_of_ip_int (2 ^ 32 - 1 - n)))"

definition make_netmask :: "ip_version \<Rightarrow> string \<Rightarrow> nat option" where
  "make_netmask v s =
     (case prefix_of_str v s of
        Some l \<Rightarrow> Some l
      | None \<Rightarrow> (case v of V4 \<Rightarrow> prefix_of_ip_str s | V6 \<Rightarrow> None))"

text \<open>Clearing host bits drops the scope only when there were host bits to clear.\<close>

definition net_of_addr :: "ip_addr \<Rightarrow> nat \<Rightarrow> ip_net" where
  "net_of_addr a l =
     (let b = block_size (addr_ver a) l; host = addr_int a mod b
      in if host = 0 then IpNet (addr_ver a) (addr_int a) l (addr_scope a)
         else IpNet (addr_ver a) (addr_int a - host) l None)"

definition parse_net :: "ip_version \<Rightarrow> (string \<Rightarrow> ip_addr option) \<Rightarrow> string \<Rightarrow> ip_net option" where
  "parse_net v parse_addr s =
     (case split_on CHR ''/'' s of
        [a] \<Rightarrow> map_option (\<lambda>x. net_of_addr x (ip_bits v)) (parse_addr a)
      | [a, m] \<Rightarrow>
          (case parse_addr a of
             None \<Rightarrow> None
           | Some x \<Rightarrow> map_option (net_of_addr x) (make_netmask v m))
      | _ \<Rightarrow> None)"

text \<open>\<open>ipaddress.ip_network(text, strict=False)\<close>\<close>

definition ip_network :: "string \<Rightarrow> ip_net option" where
  "ip_network s =
     (case parse_net V4 parse_ipv4_addr s of
        Some n \<Rightarrow> Some n
      | None \<Rightarrow> parse_net V6 parse_ipv6_addr s)"

subsection \<open>Canonical text\<close>

definition ipv4_str :: "int \<Rightarrow> string" where
  "ipv4_str n = join ''.''
     [dec_str (n div 16777216 mod 256), dec_str (n div 65536 mod 256),
      dec_str (n div 256 mod 256), dec_str (n mod 256)]"

definition hextets_of :: "int \<Rightarrow> int list" where
  "hextets_of n = map (\<lambda>i. n div 65536 ^ (7 - i) mod 65536) [0..<8]"

text \<open>The scan for the longest run of zero hextets: (best start, best length, run start, run length).\<close>

definition zero_scan_step ::
    "nat \<times> int \<Rightarrow> nat \<times> nat \<times> nat \<times> nat \<Rightarrow> nat \<times> nat \<times> nat \<times> nat" where
  "zero_scan_step ih st =
     (case ih of (i, h) \<Rightarrow> case st of (bs, bl, rs, rl) \<Rightarrow>
        if h = 0 then
          (let rs' = (if rl = 0 then i else rs); rl' = rl + 1
           in if rl' > bl then (rs', rl', rs', rl') else (bs, bl, rs', rl'))
        else (bs, bl, 0, 0))"

definition compress_hextets :: "int list \<Rightarrow> string list" where
  "compress_hextets hs =
     (let texts = map hex_str hs;
          (bs, bl, _, _) = fold zero_scan_step (zip [0..<length hs] hs) (0, 0, 0, 0)
      in if bl > 1 then
           (if bs = 0 then [[]] else []) @ take bs texts @ [[]] @ drop (bs + bl) texts
             @ (if bs + bl = length hs then [[]] else [])
         else texts)"

definition ipv6_int_str :: "int \<Rightarrow> string" where
  "ipv6_int_str n =
     (if n div 2 ^ 32 = 65535
      then join '':'' (compress_hextets (hextets_of 65535)) @ '':'' @ ipv4_str (n mod 2 ^ 32)
      else join '':'' (compress_hextets (hextets_of n)))"

definition addr_str :: "ip_addr \<Rightarrow> string" where
  "addr_str a =
     (case addr_ver a of
        V4 \<Rightarrow> ipv4_str (addr_int a)
      | V6 \<Rightarrow> ipv6_int_str (addr_int a)
               @ (case addr_scope a of None \<Rightarrow> [] | Some s \<Rightarrow> ''%'' @ s))"

definition net_str :: "ip_net \<Rightarrow> string" where
  "net_str n = addr_str (IpAddr (net_ver n) (net_int n) (net_scope n)) @ ''/'' @ dec_str (int (net_len n))"

subsection \<open>Relations between networks\<close>

definition subnet_of :: "ip_net \<Rightarrow> ip_net \<Rightarrow> bool" where
  "subnet_of n m = (net_int m \<le> net_int n \<and> net_last n \<le> net_last m)"

definition net_is_multicast :: "ip_net \<Rightarrow> bool" where
  "net_is_multicast n =
     (case net_ver n of
        V4 \<Rightarrow> net_int n div 2 ^ 28 = 14 \<and> net_last n div 2 ^ 28 = 14
      | V6 \<Rightarrow> net_int n div 2 ^ 120 = 255 \<and> net_last n div 2 ^ 120 = 255)"

text \<open>\<open>net.supernet()\<close>: one bit shorter, without scope; the network itself at length 0.\<close>

definition supernet :: "ip_net \<Rightarrow> ip_net" where
  "supernet n =
     (if net_len n = 0 then n
      else (let b = block_size (net_ver n) (net_len n - 1)
            in IpNet (net_ver n) (net_int n - net_int n mod b) (net_len n - 1) None))"

subsection \<open>\<open>collapse_addresses\<close>\<close>

text \<open>
  The merge loop. \<open>to_merge\<close> is a stack, kept with its top first; \<open>subnets\<close> is the
  dictionary from a supernet to the one of its halves met so far.
\<close>

definition ddel :: "'k \<Rightarrow> ('k \<times> 'v) list \<Rightarrow> ('k \<times> 'v) list" where
  "ddel k d = filter (\<lambda>kv. fst kv \<noteq> k) d"

lemma length_ddel: "map_of d k = Some v \<Longrightarrow> length (ddel k d) < length d"
proof -
  assume "map_of d k = Some v"
  then have "(k, v) \<in> set d" by (rule map_of_SomeD)
  then have "length (filter (\<lambda>kv. fst kv \<noteq> k) d) < length d"
    by (intro length_filter_less [of "(k, v)"]) auto
  then show ?thesis by (simp add: ddel_def)
qed

lemma length_dset_new: "map_of d k = None \<Longrightarrow> length (dset k v d) = Suc (length d)"
  by (induction d) (auto split: if_splits)

function merge_loop :: "ip_net list \<Rightarrow> (ip_net \<times> ip_net) list \<Rightarrow> (ip_net \<times> ip_net) list" where
  "merge_loop [] subnets = subnets"
| "merge_loop (net # to_merge) subnets =
     (case map_of subnets (supernet net) of
        None \<Rightarrow> merge_loop to_merge (dset (supernet net) net subnets)
      | Some existing \<Rightarrow>
          if existing \<noteq> net
          then merge_loop (supernet net # to_merge) (ddel (supernet net) subnets)
          else merge_loop to_merge subnets)"
  by pat_completeness auto
termination
proof (relation "measure (\<lambda>(t, s). 2 * length t + length s)", goal_cases)
  case 1
  show ?case by simp
next
  case (2 net to_merge subnets)
  then show ?case by (simp add: length_dset_new)
next
  case (3 net to_merge subnets existing)
  then show ?case using length_ddel [of subnets "supernet net" existing] by simp
next
  case (4 net to_merge subnets existing)
  then show ?case by simp
qed

declare merge_loop.simps(2) [simp del]

fun skip_subsumed :: "ip_net option \<Rightarrow> ip_net list \<Rightarrow> ip_net list" where
  "skip_subsumed prev [] = []"
| "skip_subsumed prev (net # nets) =
     (if (case prev of None \<Rightarrow> False | Some p \<Rightarrow> net_last p \<ge> net_last net)
      then skip_subsumed prev nets
      else net # skip_subsumed (Some net) nets)"

definition net_order :: "ip_net \<Rightarrow> int \<times> nat" where
  "net_order n = (net_int n, net_len n)"

text \<open>Consecutive addresses as (first, last) ranges, of a sorted list without repetition.\<close>

fun address_ranges :: "int \<Rightarrow> int \<Rightarrow> int list \<Rightarrow> (int \<times> int) list" where
  "address_ranges first prev [] = [(first, prev)]"
| "address_ranges first prev (ip # ips) =
     (if ip \<noteq> prev + 1 then (first, prev) # address_ranges ip ip ips
      else address_ranges first ip ips)"

text \<open>\<open>(last - first + 1).bit_length() - 1\<close>: the exponent of the largest power that fits.\<close>

fun floor_log :: "nat \<Rightarrow> int \<Rightarrow> nat" where
  "floor_log 0 n = 0"
| "floor_log (Suc b) n = (if n < 2 then 0 else Suc (floor_log b (n div 2)))"

text \<open>
  \<open>summarize_address_range\<close>: the loop runs at most once per address of the range, so the range
  length bounds it.
\<close>

function summarize_range :: "ip_version \<Rightarrow> int \<Rightarrow> int \<Rightarrow> ip_net list" where
  "summarize_range v first fin =
     (if first \<le> fin then
        (let nbits = min (trailing_zeros (ip_bits v) first) (floor_log (ip_bits v) (fin - first + 1))
         in IpNet v first (ip_bits v - nbits) None # summarize_range v (first + 2 ^ nbits) fin)
      else [])"
  by pat_completeness auto
termination
  by (relation "measure (\<lambda>(v, f, l). nat (l - f + 1))") (auto simp: Let_def)

declare summarize_range.simps [simp del]

definition collapse_internal :: "ip_net list \<Rightarrow> ip_net list" where
  "collapse_internal nets =
     skip_subsumed None (sort_key net_order (map snd (merge_loop (rev nets) [])))"

text \<open>
  \<open>sorted(set(ips))\<close> of the host networks' addresses: two addresses that differ in scope
  only stay two elements of the set.
\<close>

definition host_ips :: "ip_net list \<Rightarrow> int list" where
  "host_ips hosts = sort (map net_int (remdups hosts))"

definition collapse_addresses :: "ip_version \<Rightarrow> ip_net list \<Rightarrow> ip_net list" where
  "collapse_addresses v xs =
     (let hosts = filter (\<lambda>n. net_len n = ip_bits v) xs;
          nets = filter (\<lambda>n. net_len n \<noteq> ip_bits v) xs;
          addrs = (case host_ips hosts of
                     [] \<Rightarrow> []
                   | ip # ips \<Rightarrow>
                       concat (map (\<lambda>(f, l). summarize_range v f l) (address_ranges ip ip ips)))
      in collapse_internal (addrs @ nets))"

end
