(* ===== verification/PyPath.thy ===== *)
theory PyPath
  imports PyStr
begin

text \<open>
  The part of \<open>pathlib\<close>'s \<open>PurePosixPath\<close> that the modelled code uses, on path texts: the normal text
  of a path, its root and its parts.
\<close>

text \<open>\<open>str(Path(text))\<close>, \<open>Path.parts\<close> without the root, and \<open>Path.is_absolute()\<close> of POSIX paths.\<close>

definition path_root :: "string \<Rightarrow> string" where
  "path_root s =
     (if starts_with ''//'' s \<and> \<not> starts_with ''///'' s then ''//''
      else if starts_with ''/'' s then ''/'' else [])"

definition path_parts :: "string \<Rightarrow> string list" where
  "path_parts s = filter (\<lambda>p. p \<noteq> [] \<and> p \<noteq> ''.'') (split_on CHR ''/'' s)"

definition path_str :: "string \<Rightarrow> string" where
  "path_str s = (let t = path_root s @ join ''/'' (path_parts s) in if t = [] then ''.'' else t)"

text \<open>\<open>root / rel\<close> for a relative \<open>rel\<close>.\<close>

definition path_join :: "string \<Rightarrow> string \<Rightarrow> string" where
  "path_join root rel = path_str (root @ ''/'' @ rel)"

definition lstrip_slash :: "string \<Rightarrow> string" where
  "lstrip_slash s = dropWhile (\<lambda>c. c = CHR ''/'') s"

end
