(* ===== verification/NftNorm.thy ===== *)
theory NftNorm
  imports NftBase PyIp PyPath
begin

text \<open>
  \<open>nft-policy-generate.py\<close>, part 2: normalisation and validation of ports, protocols,
  networks, interface names and identities, the small text builders (quoting, sets, rates,
  comments, log statements), output paths and the define maps.
\<close>

subsection \<open>Ports and protocols\<close>

definition normalize_port :: "pyval \<Rightarrow> string \<Rightarrow> int res" where
  "normalize_port value label =
     (case value of
        PBool b \<Rightarrow> Inl (PolicyError (label @ '': port must be integer, got boolean''))
      | _ \<Rightarrow>
          bindE (catchE (py_int value)
                   (\<lambda>e. if e = TypeErr \<or> e = ValueErr
                        then Inl (PolicyError (label @ '': invalid port '' @ py_repr value))
                        else Inl e))
            (\<lambda>port. if port < 1 \<or> port > 65535
                    then Inl (PolicyError (label @ '': port '' @ int_str port @ '' outside 1..65535''))
                    else Inr port))"

definition port_range_groups :: "string \<Rightarrow> (string \<times> string) option" where
  "port_range_groups text =
     (case split_on CHR ''-'' text of
        [a, b] \<Rightarrow>
          if all_in is_digit a \<and> length a \<le> 5 \<and> all_in is_digit b \<and> length b \<le> 5
          then Some (a, b) else None
      | _ \<Rightarrow> None)"

definition normalize_port_range :: "pyval \<Rightarrow> string \<Rightarrow> string res" where
  "normalize_port_range value label =
     (case port_range_groups (strip (py_str value)) of
        None \<Rightarrow> Inl (PolicyError (label @ '': invalid port range '' @ py_repr value
                  @ ''; expected START-END''))
      | Some (g1, g2) \<Rightarrow>
          bindE (normalize_port (PStr g1) label) (\<lambda>start.
          bindE (normalize_port (PStr g2) label) (\<lambda>fin.
          if start > fin
          then Inl (PolicyError (label @ '': invalid port range '' @ py_repr value @ ''; start > end''))
          else Inr (int_str start @ ''-'' @ int_str fin))))"

definition ports_of :: "string \<Rightarrow> string \<Rightarrow> pydict \<Rightarrow> string \<Rightarrow> string list res" where
  "ports_of key range_key service label =
     bindE (as_list (dget key service) (label @ ''.'' @ key)) (\<lambda>items.
     bindE (mapE (\<lambda>item. normalize_port item (label @ ''.'' @ key)) items) (\<lambda>ps.
     bindE (as_list (dget range_key service) (label @ ''.'' @ range_key)) (\<lambda>ranges.
     bindE (mapE (\<lambda>item. normalize_port_range item (label @ ''.'' @ range_key)) ranges) (\<lambda>rs.
     Inr (unique_strs (map int_str ps @ rs))))))"

definition normalize_ports :: "pydict \<Rightarrow> string \<Rightarrow> string list res" where
  "normalize_ports service label = ports_of ''ports'' ''port_ranges'' service label"

definition normalize_source_ports :: "pydict \<Rightarrow> string \<Rightarrow> string list res" where
  "normalize_source_ports service label = ports_of ''source_ports'' ''source_port_ranges'' service label"

definition normalize_protocols :: "pydict \<Rightarrow> string \<Rightarrow> string list res" where
  "normalize_protocols service label =
     bindE (as_list (dget ''protocols'' service) (label @ ''.protocols'')) (\<lambda>ps.
     let listed = map (\<lambda>p. lower (py_str p)) ps;
         protos = (if listed = []
                   then (case dget ''proto'' service of
                           PNone \<Rightarrow> [] | proto \<Rightarrow> [lower (py_str proto)])
                   else listed)
     in if protos = [] then Inl (PolicyError (label @ '': protocols is required''))
        else (case filter (\<lambda>p. p \<notin> set PROTO_SET) protos of
                p # _ \<Rightarrow> Inl (PolicyError (label @ '': unsupported protocol '' @ repr_str p
                           @ ''; supported: '' @ repr_strs PROTO_SET))
              | [] \<Rightarrow> Inr (unique_strs protos)))"

subsection \<open>Networks\<close>

fun angle_placeholder :: "string \<Rightarrow> bool" where
  "angle_placeholder [] = False"
| "angle_placeholder (c # cs) =
     ((c = CHR ''<'' \<and> (case cs of [] \<Rightarrow> False | d # ds \<Rightarrow> d \<noteq> CHR ''>'' \<and> CHR ''>'' \<in> set ds))
      \<or> angle_placeholder cs)"

text \<open>\<open>UNRESOLVED_RE.search\<close>, case-insensitive.\<close>

definition unresolved :: "string \<Rightarrow> bool" where
  "unresolved s =
     (contains ''${'' s \<or> angle_placeholder s \<or> contains ''your_'' (lower s)
      \<or> contains ''change_me'' (lower s) \<or> contains ''todo'' (lower s))"

definition should_warn_for_documentation_network :: "string \<Rightarrow> bool" where
  "should_warn_for_documentation_network label =
     (let l = lower label in
      \<not> contains ''unsafe'' l \<and> \<not> contains ''bogon'' l \<and> \<not> contains ''martian'' l
      \<and> \<not> contains ''.drop_'' l \<and> \<not> contains ''anti_spoofing.drop_'' l)"

definition DOC_IPV4_NETS :: "ip_net list" where
  "DOC_IPV4_NETS = [IpNet V4 3221225984 24 None, IpNet V4 3325256704 24 None,
     IpNet V4 3405803776 24 None]"

definition DOC_IPV6_NETS :: "ip_net list" where
  "DOC_IPV6_NETS = [IpNet V6 42540766411282592856903984951653826560 32 None]"

definition doc_warning :: "string \<Rightarrow> ip_net \<Rightarrow> string" where
  "doc_warning label net =
     label @ '': '' @ net_str net @ '' is documentation/example ''
       @ (case net_ver net of V4 \<Rightarrow> ''IPv4'' | V6 \<Rightarrow> ''IPv6'')
       @ '' space; replace before production use''"

definition doc_nets :: "ip_version \<Rightarrow> ip_net list" where
  "doc_nets v = (case v of V4 \<Rightarrow> DOC_IPV4_NETS | V6 \<Rightarrow> DOC_IPV6_NETS)"

text \<open>One iteration of the loop of \<open>parse_networks\<close> over the state \<open>(v4, v6, ctx)\<close>.\<close>

definition parse_network_step ::
    "string \<Rightarrow> string list \<times> string list \<times> render_context \<Rightarrow> pyval
       \<Rightarrow> (string list \<times> string list \<times> render_context) res" where
  "parse_network_step label st raw =
     (case st of (v4, v6, ctx) \<Rightarrow>
      let text = strip (py_str raw) in
      if text = [] then Inr (v4, v6, ctx)
      else if unresolved text
      then Inl (PolicyError (label @ '': unresolved placeholder '' @ repr_str text))
      else (case ip_network text of
              None \<Rightarrow> Inl (PolicyError (label @ '': invalid CIDR/IP '' @ repr_str text))
            | Some net \<Rightarrow>
                (let warn = should_warn_for_documentation_network label
                          \<and> list_ex (subnet_of net) (doc_nets (net_ver net));
                     ctx' = (if warn then ctx_warn (doc_warning label net) ctx else ctx)
                 in case net_ver net of
                      V4 \<Rightarrow> Inr (v4 @ [net_str net], v6, ctx')
                    | V6 \<Rightarrow> Inr (v4, v6 @ [net_str net], ctx'))))"

definition parse_networks ::
    "pyval list \<Rightarrow> string \<Rightarrow> render_context \<Rightarrow> (string list \<times> string list \<times> render_context) res" where
  "parse_networks values label ctx =
     bindE (foldE (parse_network_step label) ([], [], ctx) values) (\<lambda>(v4, v6, ctx').
       Inr (unique_strs v4, unique_strs v6, ctx'))"

subsection \<open>Interface names\<close>

definition interface_char :: "char \<Rightarrow> bool" where
  "interface_char c = (is_alnum c \<or> c \<in> set ''_.:+*-'')"

definition validate_interface :: "pyval \<Rightarrow> string \<Rightarrow> string res" where
  "validate_interface value label =
     (let iface = strip (py_str value) in
      if iface = [] then Inl (PolicyError (label @ '': empty interface name''))
      else if unresolved iface
      then Inl (PolicyError (label @ '': unresolved placeholder '' @ repr_str iface))
      else if \<not> all_in interface_char iface
      then Inl (PolicyError (label @ '': unsafe interface name '' @ repr_str iface))
      else if CHR ''*'' \<in> set iface
              \<and> (iface = ''*'' \<or> count_list iface CHR ''*'' \<noteq> 1 \<or> \<not> ends_with ''*'' iface)
      then Inl (PolicyError (label
             @ '': interface wildcards must be non-empty prefixes ending with '' @ repr_str ''*''
             @ '': '' @ repr_str iface))
      else Inr iface)"

definition split_interface_patterns :: "string list \<Rightarrow> string list \<times> string list" where
  "split_interface_patterns values =
     (unique_strs (filter (\<lambda>v. CHR ''*'' \<notin> set v) values),
      unique_strs (filter (\<lambda>v. CHR ''*'' \<in> set v) values))"

subsection \<open>Text builders\<close>

definition quote_char :: "char \<Rightarrow> string" where
  "quote_char c = (if c = CHR 0x5C \<or> c = CHR 0x22 then [CHR 0x5C, c] else [c])"

definition quote_nft_string :: "string \<Rightarrow> string" where
  "quote_nft_string value = [CHR 0x22] @ concat (map quote_char value) @ [CHR 0x22]"

definition render_elems :: "string list \<Rightarrow> bool \<Rightarrow> string list" where
  "render_elems values quote_strings = (if quote_strings then map quote_nft_string values else values)"

definition nft_set :: "string list \<Rightarrow> bool \<Rightarrow> string res" where
  "nft_set values quote_strings =
     (case render_elems values quote_strings of
        [] \<Rightarrow> Inl (PolicyError ''cannot render empty nft set'')
      | [x] \<Rightarrow> Inr x
      | xs \<Rightarrow> Inr (''{ '' @ join '', '' xs @ '' }''))"

definition nft_define_set :: "string list \<Rightarrow> bool \<Rightarrow> string res" where
  "nft_define_set values quote_strings =
     (if values = [] then Inl (PolicyError ''cannot render empty define set'')
      else Inr (''{ '' @ join '', '' (render_elems values quote_strings) @ '' }''))"

definition RATE_UNITS :: "string list" where
  "RATE_UNITS = [''second'', ''minute'', ''hour'', ''day'']"

definition rate_burst_ok :: "string \<Rightarrow> bool" where
  "rate_burst_ok rest =
     (rest = [] \<or>
      (starts_with '' burst '' rest \<and>
       (let r = drop 7 rest; ds = takeWhile is_digit r
        in ds \<noteq> [] \<and> dropWhile is_digit r = '' packets'')))"

definition rate_ok :: "string \<Rightarrow> bool" where
  "rate_ok text =
     (let ds = takeWhile is_digit text; r = dropWhile is_digit text in
      ds \<noteq> [] \<and>
      list_ex (\<lambda>u. starts_with (''/'' @ u) r \<and> rate_burst_ok (drop (Suc (length u)) r)) RATE_UNITS)"

definition rate_expr :: "pyval \<Rightarrow> string \<Rightarrow> string res" where
  "rate_expr rate label =
     (let text = strip (py_str rate) in
      if rate = PNone \<or> text = [] then Inr []
      else if \<not> rate_ok text
      then Inl (PolicyError (label @ '': unsafe/invalid rate expression '' @ repr_str text))
      else Inr ('' limit rate '' @ text))"

definition comment_char :: "char \<Rightarrow> bool" where
  "comment_char c = (is_alnum c \<or> c \<in> set ''_.:/@+ -'')"

definition comment_expr :: "string \<Rightarrow> string" where
  "comment_expr text =
     (let clean = strip (sub_class comment_char text)
      in if clean = [] then [] else '' comment '' @ quote_nft_string (take 120 clean))"

definition prefix_char :: "char \<Rightarrow> bool" where
  "prefix_char c = (is_alnum c \<or> c \<in> set ''_.:-'')"

definition log_prefix :: "pyval \<Rightarrow> string" where
  "log_prefix v = take 32 (sub_class prefix_char (py_str v))"

definition log_expr :: "pydict \<Rightarrow> string \<Rightarrow> string \<Rightarrow> string res" where
  "log_expr policy service_name verdict =
     bindE (as_dict (dget ''logging'' policy) ''logging'') (\<lambda>logging.
     bindE (as_dict (dget ''accept'' logging) ''logging.accept'') (\<lambda>accept_logging.
     bindE (as_bool (dget ''enabled'' accept_logging) False) (\<lambda>enabled.
     if \<not> enabled then Inr []
     else Inr ('' log prefix ''
            @ quote_nft_string (log_prefix (dget_or ''prefix'' (PStr ''nftables'') logging)
                @ '' '' @ verdict @ '' '' @ service_name @ '' '')))))"

subsection \<open>Chains and rules\<close>

record chains =
  ch_input :: string
  ch_forward :: string
  ch_output :: string
  ch_local_input :: string
  ch_local_forward :: string
  ch_local_output :: string

definition chain_name :: "pydict \<Rightarrow> string \<Rightarrow> string res" where
  "chain_name chain_cfg key =
     validate_nft_identifier (dget_or key (PStr key) chain_cfg) (''nftables.chain_names.'' @ key)"

definition chain_names :: "pydict \<Rightarrow> chains res" where
  "chain_names policy =
     bindE (as_dict (dget ''nftables'' policy) ''nftables'') (\<lambda>nft.
     bindE (as_dict (dget ''chain_names'' nft) ''nftables.chain_names'') (\<lambda>cfg.
     bindE (chain_name cfg ''input'') (\<lambda>i.
     bindE (chain_name cfg ''forward'') (\<lambda>f.
     bindE (chain_name cfg ''output'') (\<lambda>out.
     bindE (chain_name cfg ''local_input'') (\<lambda>li.
     bindE (chain_name cfg ''local_forward'') (\<lambda>lf.
     bindE (chain_name cfg ''local_output'') (\<lambda>lo.
     Inr \<lparr>ch_input = i, ch_forward = f, ch_output = out,
          ch_local_input = li, ch_local_forward = lf, ch_local_output = lo\<rparr>))))))))"

definition family_table :: "pydict \<Rightarrow> (string \<times> string) res" where
  "family_table policy =
     bindE (as_dict (dget ''nftables'' policy) ''nftables'') (\<lambda>nft.
     bindE (validate_nft_family (dget_or ''family'' (PStr ''inet'') nft) ''nftables.family'' NFT_FAMILIES)
       (\<lambda>family.
     bindE (validate_nft_identifier (dget_or ''filter_table'' (PStr ''labwc_filter'') nft)
              ''nftables.filter_table'') (\<lambda>tbl.
     Inr (family, tbl))))"

definition add_rule :: "pydict \<Rightarrow> string \<Rightarrow> string \<Rightarrow> string res" where
  "add_rule policy chain expr =
     bindE (family_table policy) (\<lambda>(family, tbl).
       Inr (''add rule '' @ family @ '' '' @ tbl @ '' '' @ chain @ '' '' @ expr))"

text \<open>The statement \<open>lines.append(add_rule(policy, chain, expr))\<close>, for several rules in order.\<close>

definition add_rules :: "pydict \<Rightarrow> (string \<times> string) list \<Rightarrow> string list res" where
  "add_rules policy rules = mapE (\<lambda>(chain, expr). add_rule policy chain expr) rules"

subsection \<open>The private application network and the Tailscale transport\<close>

definition lower_alnum :: "char \<Rightarrow> bool" where
  "lower_alnum c = (is_lower_alpha c \<or> is_digit c)"

definition veth_name_ok :: "string \<Rightarrow> bool" where
  "veth_name_ok s =
     (case split_on CHR ''-'' s of
        [a, b] \<Rightarrow>
          (case a of [] \<Rightarrow> False
           | c # cs \<Rightarrow> is_lower_alpha c \<and> list_all lower_alnum cs \<and> cs \<noteq> [] \<and> is_digit (last cs))
          \<and> (case b of [] \<Rightarrow> False | c # cs \<Rightarrow> is_lower_alpha c \<and> list_all lower_alnum cs)
      | _ \<Rightarrow> False)"

definition pyval_str :: "pyval \<Rightarrow> string option" where
  "pyval_str v = (case v of PStr s \<Rightarrow> Some s | _ \<Rightarrow> None)"

definition web_port_ok :: "pyval \<Rightarrow> bool" where
  "web_port_ok v = (case v of PInt p \<Rightarrow> 1 \<le> p \<and> p \<le> 65535 \<and> p \<noteq> 80 | _ \<Rightarrow> False)"

definition pyval_int :: "pyval \<Rightarrow> int" where
  "pyval_int v = (case v of PInt i \<Rightarrow> i | _ \<Rightarrow> 0)"

definition app_veth_web_tls_ports :: "pydict \<Rightarrow> int list res" where
  "app_veth_web_tls_ports policy =
     bindE (as_dict (dget ''app_veth'' policy) ''app_veth'') (\<lambda>value.
     bindE (as_list (dget_or ''web_tls_ports'' (PList []) value) ''app_veth.web_tls_ports'') (\<lambda>ports.
     if length ports > 32 \<or> \<not> list_all web_port_ok ports \<or> \<not> distinct ports
     then Inl (PolicyError ''app_veth: invalid, duplicate or plaintext HTTP browser ports'')
     else Inr (map pyval_int ports)))"

text \<open>\<open>ipaddress.IPv4Address(value)\<close>: integers are accepted as well as texts.\<close>

definition ipv4_of_value :: "pyval \<Rightarrow> int option" where
  "ipv4_of_value v =
     (case v of
        PInt i \<Rightarrow> if 0 \<le> i \<and> i < 2 ^ 32 then Some i else None
      | PBool b \<Rightarrow> Some (if b then 1 else 0)
      | _ \<Rightarrow> map_option addr_int (parse_ipv4_addr (py_str v)))"

definition app_veth_identity :: "pydict \<Rightarrow> (string \<times> string \<times> int) res" where
  "app_veth_identity policy =
     bindE (as_dict (dget ''app_veth'' policy) ''app_veth'') (\<lambda>value.
     let required = [''interfaces'', ''dns_host_address'', ''dns_host_port'']; keys = map fst value in
     if \<not> set required \<subseteq> set keys \<or> \<not> set keys \<subseteq> insert ''web_tls_ports'' (set required)
     then Inl (PolicyError ''app_veth: requires interfaces, DNS listener and optional HTTPS ports'')
     else
     bindE (app_veth_web_tls_ports policy) (\<lambda>_.
     bindE (as_list (dget ''interfaces'' value) ''app_veth.interfaces'') (\<lambda>interfaces.
     if interfaces = [] \<or> length interfaces > 128
        \<or> \<not> list_all (\<lambda>v. case v of PStr s \<Rightarrow> length s \<le> 15 \<and> veth_name_ok s | _ \<Rightarrow> False) interfaces
        \<or> \<not> distinct interfaces
     then Inl (PolicyError ''app_veth: invalid, wildcard or duplicate reserved interfaces'')
     else
       (let address = dget ''dns_host_address'' value; port = dget ''dns_host_port'' value in
        case ipv4_of_value address of
          None \<Rightarrow> Inl (PolicyError ''app_veth: invalid DNS listener address'')
        | Some listener \<Rightarrow>
            (case (address, port) of
               (PStr a, PInt p) \<Rightarrow>
                 if ipv4_str listener \<noteq> a \<or> listener div 16777216 \<noteq> 127 \<or> p < 1024 \<or> p > 65535
                 then Inl (PolicyError (''app_veth: DNS listener must be a canonical loopback ''
                        @ ''address and unprivileged port''))
                 else bindE (nft_set (map py_str interfaces) True) (\<lambda>s. Inr (s, a, p))
             | _ \<Rightarrow> Inl (PolicyError (''app_veth: DNS listener must be a canonical loopback ''
                        @ ''address and unprivileged port'')))))))"

definition netkit_name_char :: "char \<Rightarrow> bool" where
  "netkit_name_char c = (is_alnum c \<or> c \<in> set ''_.-'')"

definition netkit_name_ok :: "string \<Rightarrow> bool" where
  "netkit_name_ok s =
     (case s of [] \<Rightarrow> False
      | c # cs \<Rightarrow> is_alnum c \<and> list_all netkit_name_char cs \<and> length cs \<le> 14
                  \<and> s \<noteq> ''lo'' \<and> s \<noteq> ''ts-uplink'' \<and> \<not> starts_with ''veth'' s)"

definition tailscale_rule_exprs ::
    "string \<Rightarrow> string \<Rightarrow> string \<Rightarrow> string \<Rightarrow> int \<Rightarrow> int \<Rightarrow> (string \<times> string) list" where
  "tailscale_rule_exprs input_chain forward_chain interface uplinks dns_port udp_port =
     (input_chain,
        ''iifname '' @ interface
          @ '' ip saddr 10.255.253.2 ip daddr 127.0.0.1 meta l4proto { tcp, udp } th dport ''
          @ int_str dns_port @ '' ct status dnat accept''
          @ comment_expr ''private Tailscale bootstrap DNS'')
     # concat (map (\<lambda>(family, peer).
         [(forward_chain,
             ''iifname '' @ interface @ '' '' @ family @ '' saddr '' @ peer @ '' oifname '' @ uplinks
               @ '' accept'' @ comment_expr ''private Tailscale transport egress''),
          (forward_chain,
             ''iifname '' @ uplinks @ '' oifname '' @ interface @ '' '' @ family @ '' daddr '' @ peer
               @ '' udp dport '' @ int_str udp_port @ '' ct status dnat accept''
               @ comment_expr ''private Tailscale transport ingress'')])
         [(''ip'', ''10.255.253.2''), (''ip6'', ''fd6b:bbad:cd4e:104::2'')])"

definition TAILSCALE_KEYS :: "string set" where
  "TAILSCALE_KEYS = {''interface'', ''physical_interfaces'', ''dns_host_address'', ''dns_host_port'',
     ''udp_port''}"

text \<open>\<open>interface\<close> and the \<open>physical_interfaces\<close>: three distinct acceptable names.\<close>

definition netkit_names :: "pydict \<Rightarrow> pyval list" where
  "netkit_names value =
     (case dget ''physical_interfaces'' value of
        PList xs \<Rightarrow> dget ''interface'' value # xs | _ \<Rightarrow> [])"

definition netkit_names_ok :: "pyval list \<Rightarrow> bool" where
  "netkit_names_ok names =
     (length names = 3
      \<and> list_all (\<lambda>v. case v of PStr s \<Rightarrow> netkit_name_ok s | _ \<Rightarrow> False) names
      \<and> distinct names)"

definition tailscale_ports :: "pydict \<Rightarrow> (int \<times> int) option" where
  "tailscale_ports value =
     (case (dget ''dns_host_port'' value, dget ''udp_port'' value) of
        (PInt dns_port, PInt udp_port) \<Rightarrow>
          if dget ''dns_host_address'' value = PStr ''127.0.0.1''
             \<and> 1024 \<le> dns_port \<and> dns_port \<le> 65535 \<and> 1 \<le> udp_port \<and> udp_port \<le> 65535
          then Some (dns_port, udp_port) else None
      | _ \<Rightarrow> None)"

definition tailscale_netkit_rules :: "pydict \<Rightarrow> string \<Rightarrow> string \<Rightarrow> string list res" where
  "tailscale_netkit_rules policy input_chain forward_chain =
     (case map_of policy ''tailscale_netkit'' of
        None \<Rightarrow> Inr []
      | Some raw \<Rightarrow>
          bindE (as_dict raw ''tailscale_netkit'') (\<lambda>value.
          if set (map fst value) \<noteq> TAILSCALE_KEYS
          then Inl (PolicyError ''tailscale_netkit: invalid transport schema'')
          else
            (let names = netkit_names value in
             if \<not> netkit_names_ok names
             then Inl (PolicyError ''tailscale_netkit: invalid or overlapping interface identities'')
             else (case tailscale_ports value of
                     None \<Rightarrow> Inl (PolicyError ''tailscale_netkit: invalid DNS or transport port'')
                   | Some (dns_port, udp_port) \<Rightarrow>
                       bindE (nft_set (map py_str (tl names)) True) (\<lambda>uplinks.
                         add_rules policy (tailscale_rule_exprs input_chain forward_chain
                           (quote_nft_string (py_str (hd names))) uplinks dns_port udp_port))))))"

subsection \<open>Output paths\<close>

text \<open>\<open>resolved_root\<close> is \<open>str(target_root.resolve())\<close>.\<close>

definition map_to_target_root :: "string \<Rightarrow> string \<Rightarrow> string res" where
  "map_to_target_root path resolved_root =
     (if path_root path = [] \<or> ''..'' \<in> set (path_parts path)
         \<or> CHR 0x00 \<in> set path \<or> nl \<in> set path \<or> cr \<in> set path
      then Inl (PolicyError (''output path must be absolute: '' @ path))
      else if resolved_root = ''/'' then Inr path
      else Inr (path_join resolved_root (lstrip_slash path)))"

type_synonym out_paths = "(string \<times> string) list"

definition FRAGMENT_KEYS :: "string list" where
  "FRAGMENT_KEYS = [''defines'', ''base'', ''filter'', ''nat'', ''local'']"

definition output_paths :: "pydict \<Rightarrow> string \<Rightarrow> out_paths res" where
  "output_paths policy resolved_root =
     bindE (as_dict (dget ''generator'' policy) ''generator'') (\<lambda>gen.
     bindE (as_dict (dget ''outputs'' gen) ''generator.outputs'') (\<lambda>outputs.
     bindE (as_dict (dget ''fragments'' outputs) ''generator.outputs.fragments'') (\<lambda>fragments.
     bindE (map_to_target_root
              (path_str (py_str (dget_or ''nftables_conf'' (PStr ''/etc/nftables.conf'') outputs)))
              resolved_root) (\<lambda>conf.
     bindE (mapE (\<lambda>key.
              case map_of fragments key of
                None \<Rightarrow> Inl (PolicyError (''generator.outputs.fragments.'' @ key @ '' is required''))
              | Some v \<Rightarrow> bindE (map_to_target_root (path_str (py_str v)) resolved_root)
                            (\<lambda>p. Inr (key, p))) FRAGMENT_KEYS) (\<lambda>rest.
     Inr ((''nftables_conf'', conf) # rest))))))"

definition out_path :: "string \<Rightarrow> out_paths \<Rightarrow> string res" where
  "out_path key paths = (case map_of paths key of None \<Rightarrow> Inl (KeyErr key) | Some p \<Rightarrow> Inr p)"

subsection \<open>The define maps\<close>

record define_item =
  def_name :: string
  def_values :: "string list"
  def_wildcards :: "string list"

record define_maps =
  dm_interfaces :: "(string \<times> define_item) list"
  dm_cidr4 :: "(string \<times> define_item) list"
  dm_cidr6 :: "(string \<times> define_item) list"
  dm_ports :: "(string \<times> define_item) list"

definition empty_maps :: define_maps where
  "empty_maps = \<lparr>dm_interfaces = [], dm_cidr4 = [], dm_cidr6 = [], dm_ports = []\<rparr>"

definition group_sources :: "pydict \<Rightarrow> string \<Rightarrow> string \<Rightarrow> pydict res" where
  "group_sources policy group_key key =
     bindE (as_dict (dget group_key policy) group_key) (\<lambda>g.
     bindE (as_dict (dget key policy) key) (\<lambda>d.
     Inr (dupdate (dupdate [] g) d)))"

definition define_interfaces_step :: "define_maps \<Rightarrow> string \<times> pyval \<Rightarrow> define_maps res" where
  "define_interfaces_step maps nv =
     (case nv of (name, raw_values) \<Rightarrow>
      let label = ''interfaces.'' @ name in
      bindE (as_list raw_values label) (\<lambda>raws.
      bindE (mapE (\<lambda>x. validate_interface x label) raws) (\<lambda>vs.
      let values = unique_strs vs in
      if values = [] then Inr maps
      else (case split_interface_patterns values of (exact, wildcards) \<Rightarrow>
             bindE (safe_ident name) (\<lambda>ident.
             Inr (maps\<lparr>dm_interfaces := dset name
                   \<lparr>def_name = ''if_'' @ ident, def_values = exact, def_wildcards = wildcards\<rparr>
                   (dm_interfaces maps)\<rparr>))))))"

definition define_cidrs_step ::
    "define_maps \<times> render_context \<Rightarrow> string \<times> pyval \<Rightarrow> (define_maps \<times> render_context) res" where
  "define_cidrs_step st nv =
     (case st of (maps, ctx) \<Rightarrow> case nv of (name, raw_values) \<Rightarrow>
      let label = ''cidrs.'' @ name in
      bindE (as_list raw_values label) (\<lambda>raws.
      bindE (parse_networks raws label ctx) (\<lambda>(v4, v6, ctx').
      bindE (if v4 = [] then Inr maps
             else bindE (safe_ident name) (\<lambda>ident.
                    Inr (maps\<lparr>dm_cidr4 := dset name
                          \<lparr>def_name = ''ipv4_'' @ ident, def_values = v4, def_wildcards = []\<rparr>
                          (dm_cidr4 maps)\<rparr>))) (\<lambda>maps4.
      bindE (if v6 = [] then Inr maps4
             else bindE (safe_ident name) (\<lambda>ident.
                    Inr (maps4\<lparr>dm_cidr6 := dset name
                          \<lparr>def_name = ''ipv6_'' @ ident, def_values = v6, def_wildcards = []\<rparr>
                          (dm_cidr6 maps4)\<rparr>))) (\<lambda>maps6.
      Inr (maps6, ctx'))))))"

definition define_ports_step :: "define_maps \<Rightarrow> string \<times> pyval \<Rightarrow> define_maps res" where
  "define_ports_step maps nv =
     (case nv of (name, raw_values) \<Rightarrow>
      let label = ''ports.'' @ name in
      bindE (as_list raw_values label) (\<lambda>raws.
      bindE (mapE (\<lambda>x. normalize_port x label) raws) (\<lambda>ps.
      let values = unique_strs (map int_str ps) in
      if values = [] then Inr maps
      else bindE (safe_ident name) (\<lambda>ident.
             Inr (maps\<lparr>dm_ports := dset name
                   \<lparr>def_name = ''ports_'' @ ident, def_values = values, def_wildcards = []\<rparr>
                   (dm_ports maps)\<rparr>)))))"

definition build_define_maps ::
    "pydict \<Rightarrow> render_context \<Rightarrow> (define_maps \<times> render_context) res" where
  "build_define_maps policy ctx =
     bindE (group_sources policy ''interface_groups'' ''interfaces'') (\<lambda>interface_sources.
     bindE (foldE define_interfaces_step empty_maps interface_sources) (\<lambda>maps1.
     bindE (group_sources policy ''cidr_groups'' ''cidrs'') (\<lambda>cidr_sources.
     bindE (foldE define_cidrs_step (maps1, ctx) cidr_sources) (\<lambda>(maps2, ctx').
     bindE (group_sources policy ''port_groups'' ''ports'') (\<lambda>port_sources.
     bindE (foldE define_ports_step maps2 port_sources) (\<lambda>maps3.
     Inr (maps3, ctx')))))))"

definition define_ref :: "(string \<times> define_item) list \<Rightarrow> string \<Rightarrow> string option" where
  "define_ref category group_name =
     (case map_of category group_name of
        None \<Rightarrow> None
      | Some item \<Rightarrow> if def_values item = [] then None else Some (''$'' @ def_name item))"

end
