(* ===== verification/NftRules.thy ===== *)
theory NftRules
  imports NftNorm
begin

text \<open>
  \<open>nft-policy-generate.py\<close>, part 3: the fragments \<open>nftables.conf\<close>, defines, base and local,
  the egress mode, and the builders of match expressions and of the rules of one service.
\<close>

subsection \<open>nftables.conf, defines and base\<close>

definition conf_text :: "string \<Rightarrow> string list \<Rightarrow> string" where
  "conf_text shebang incs = join [nl]
     ([shebang, [],
       ''# Managed by nft-policy-generate.py. Do not edit generated fragments directly.'',
       ''# Reserved exclusively for this installer; other tables are untouched.'',
       ''destroy table inet labwc_filter'', ''destroy table ip labwc_nat'', []]
      @ incs @ [[]])"

definition render_nftables_conf :: "pydict \<Rightarrow> out_paths \<Rightarrow> string res" where
  "render_nftables_conf policy paths =
     bindE (as_dict (dget ''generator'' policy) ''generator'') (\<lambda>gen.
     bindE (as_dict (dget ''nftables_conf'' gen) ''generator.nftables_conf'') (\<lambda>conf_settings.
     let shebang = py_str (dget_or ''shebang'' (PStr ''#!/usr/sbin/nft -f'') conf_settings) in
     if \<not> starts_with ''#!'' shebang \<or> nl \<in> set shebang \<or> cr \<in> set shebang
     then Inl (PolicyError
            ''generator.nftables_conf.shebang must be a single line starting with #!'')
     else
     bindE (as_bool (dget ''flush_ruleset'' conf_settings) False) (\<lambda>flush.
     if flush
     then Inl (PolicyError (''global ruleset flushing is forbidden; this project owns only ''
            @ ''labwc_filter/labwc_nat''))
     else
     bindE (as_dict (dget ''nftables'' policy) ''nftables'') (\<lambda>nft.
     if (dget_or ''family'' (PStr ''inet'') nft, dget_or ''filter_table'' (PStr ''labwc_filter'') nft,
         dget_or ''nat_family'' (PStr ''ip'') nft, dget_or ''nat_table'' (PStr ''labwc_nat'') nft)
        \<noteq> (PStr ''inet'', PStr ''labwc_filter'', PStr ''ip'', PStr ''labwc_nat'')
     then Inl (PolicyError (''managed firewall table identities are fixed; do not claim another ''
            @ ''owner's tables''))
     else
     bindE (mapE (\<lambda>key. bindE (out_path key paths)
              (\<lambda>p. Inr (''include '' @ quote_nft_string p))) FRAGMENT_KEYS) (\<lambda>includes.
     Inr (conf_text shebang includes))))))"

definition define_line :: "bool \<Rightarrow> define_item \<Rightarrow> string res" where
  "define_line quote_strings item =
     bindE (nft_define_set (def_values item) quote_strings) (\<lambda>s.
       Inr (''define '' @ def_name item @ '' = '' @ s))"

definition define_section :: "bool \<Rightarrow> (string \<times> define_item) list \<Rightarrow> string list res" where
  "define_section quote_strings category =
     mapE (\<lambda>name. define_line quote_strings (the (map_of category name)))
       (sort (map fst category))"

definition render_defines :: "pydict \<Rightarrow> define_maps \<Rightarrow> string res" where
  "render_defines policy maps =
     bindE (as_dict (dget ''metadata'' policy) ''metadata'') (\<lambda>meta.
     bindE (define_section True (filter (\<lambda>nv. def_values (snd nv) \<noteq> []) (dm_interfaces maps))) (\<lambda>ifs.
     bindE (define_section False (dm_cidr4 maps)) (\<lambda>v4s.
     bindE (define_section False (dm_cidr6 maps)) (\<lambda>v6s.
     bindE (define_section False (dm_ports maps)) (\<lambda>ps.
     Inr (join [nl]
       ([''# Managed by nft-policy-generate.py.'',
         ''# Profile: '' @ py_str (dget_or ''name'' (PStr ''unknown'') meta), [],
         ''# Interface constants''] @ ifs
        @ [[], ''# IPv4 CIDR constants''] @ v4s
        @ [[], ''# IPv6 CIDR constants''] @ v6s
        @ [[], ''# Port constants''] @ ps @ [[]])))))))"

definition validate_egress_mode :: "pyval \<Rightarrow> string res" where
  "validate_egress_mode value =
     (let mode = lower (strip (py_str value)) in
      if mode \<notin> set EGRESS_MODES
      then Inl (PolicyError (''egress.mode: unsupported mode '' @ py_repr value
             @ ''; expected one of '' @ repr_strs EGRESS_MODES))
      else Inr mode)"

definition egress_enforced :: "pydict \<Rightarrow> bool res" where
  "egress_enforced policy =
     bindE (as_dict (dget ''egress'' policy) ''egress'') (\<lambda>egress.
     bindE (validate_egress_mode (dget_or ''mode'' (PStr ''allow_all'') egress)) (\<lambda>mode.
     bindE (as_bool (dget ''enforce'' egress) False) (\<lambda>enforce.
     Inr (enforce \<or> mode \<in> {''enforce'', ''strict'', ''deny_by_default''}))))"

definition egress_audit_enabled :: "pydict \<Rightarrow> bool res" where
  "egress_audit_enabled policy =
     bindE (as_dict (dget ''egress'' policy) ''egress'') (\<lambda>egress.
     bindE (validate_egress_mode (dget_or ''mode'' (PStr ''allow_all'') egress)) (\<lambda>mode.
     if mode \<in> {''audit'', ''allow_all_with_audit''} then Inr True
     else as_bool (dget ''audit_unknown_egress'' egress) False))"

definition base_policy_ok :: "string \<times> string \<Rightarrow> unit res" where
  "base_policy_ok lv =
     (if snd lv \<notin> {''accept'', ''drop''}
      then Inl (PolicyError (''policies.'' @ fst lv @ '': unsupported policy '' @ repr_str (snd lv)))
      else Inr ())"

definition base_text :: "string \<Rightarrow> string \<Rightarrow> chains \<Rightarrow> string \<Rightarrow> string \<Rightarrow> string \<Rightarrow> string" where
  "base_text family tbl ch input_policy forward_policy output_policy =
     join [nl]
       [''# Managed by nft-policy-generate.py.'',
        ''table '' @ family @ '' '' @ tbl @ '' {'',
        ''    chain '' @ ch_input ch @ '' {'',
        ''        type filter hook input priority 0; policy '' @ input_policy @ '';'',
        ''    }'', [],
        ''    chain '' @ ch_forward ch @ '' {'',
        ''        type filter hook forward priority 0; policy '' @ forward_policy @ '';'',
        ''    }'', [],
        ''    chain '' @ ch_output ch @ '' {'',
        ''        type filter hook output priority 0; policy '' @ output_policy @ '';'',
        ''    }'', [],
        ''    chain '' @ ch_local_input ch @ '' {'', ''    }'', [],
        ''    chain '' @ ch_local_forward ch @ '' {'', ''    }'', [],
        ''    chain '' @ ch_local_output ch @ '' {'', ''    }'', ''}'', []]"

definition base_output_policy :: "pydict \<Rightarrow> pydict \<Rightarrow> string res" where
  "base_output_policy policy policies =
     bindE (egress_enforced policy) (\<lambda>enforced.
     if enforced
     then bindE (as_dict (dget ''egress'' policy) ''egress'') (\<lambda>egress.
            Inr (lower (py_str (dget_or ''default_policy_when_enforced'' (PStr ''drop'') egress))))
     else Inr (lower (py_str (dget_or ''output'' (PStr ''accept'') policies))))"

definition render_base :: "pydict \<Rightarrow> string res" where
  "render_base policy =
     bindE (as_dict (dget ''nftables'' policy) ''nftables'') (\<lambda>nft.
     bindE (as_dict (dget ''policies'' policy) ''policies'') (\<lambda>policies.
     bindE (family_table policy) (\<lambda>(family, tbl).
     bindE (chain_names policy) (\<lambda>ch.
     let input_policy = lower (py_str (dget_or ''input'' (PStr ''drop'') policies));
         forward_policy = lower (py_str (dget_or ''forward'' (PStr ''drop'') policies))
     in
     bindE (base_output_policy policy policies) (\<lambda>output_policy.
     bindE (as_dict (dget ''egress'' policy) ''egress'') (\<lambda>egress.
     bindE (validate_egress_mode (dget_or ''mode'' (PStr ''allow_all'') egress)) (\<lambda>_.
     bindE (mapE base_policy_ok [(''input'', input_policy), (''forward'', forward_policy),
              (''output'', output_policy)]) (\<lambda>_.
     Inr (base_text family tbl ch input_policy forward_policy output_policy)))))))))"

definition render_local :: "pydict \<Rightarrow> string res" where
  "render_local policy =
     bindE (as_dict (dget ''local'' policy) ''local'') (\<lambda>local.
     bindE (as_bool (dget ''allow_raw_nft'' local) False) (\<lambda>raw.
     let includes = [''include '' @ quote_nft_string ''/etc/nftables.d/95-firewall-security.nft'',
                     ''include '' @ quote_nft_string ''/etc/nftables.local.d/*.nft'', []]
     in Inr (join [nl]
          ((if raw
            then [''# Managed by nft-policy-generate.py.'',
                  ''# Raw local nft is permitted by profile, but this generator does not emit ''
                    @ ''raw YAML snippets.'']
            else [''# Managed by nft-policy-generate.py.'', ''# Local override fragment.'', ''#'',
                  ''# The base table exposes local_input/local_forward/local_output chains for'',
                  ''# controlled extension points. The Firewall Security launcher owns the included'',
                  ''# persistent fragment; do not add hand-written rules to this generated file.''])
           @ includes))))"

subsection \<open>Match expressions\<close>

definition if_keyword :: "string \<Rightarrow> string" where
  "if_keyword direction = (if direction = ''in'' then ''iifname'' else ''oifname'')"

definition if_match ::
    "define_maps \<Rightarrow> string list \<Rightarrow> string \<Rightarrow> string \<Rightarrow> bool \<Rightarrow> string res" where
  "if_match maps groups direction label required =
     (let refs = unique_strs (List.map_filter (define_ref (dm_interfaces maps)) groups) in
      case refs of
        [] \<Rightarrow> if required
              then Inl (PolicyError (label @ '': no usable interface groups resolved''))
              else Inr []
      | r # _ \<Rightarrow> Inr (if_keyword direction @ '' '' @ r))"

definition group_refs :: "define_maps \<Rightarrow> string \<Rightarrow> string \<Rightarrow> string list res" where
  "group_refs maps label grp =
     (case map_of (dm_interfaces maps) grp of
        None \<Rightarrow> Inl (PolicyError (label @ '': unknown interface group '' @ repr_str grp))
      | Some item \<Rightarrow>
          Inr ((case define_ref (dm_interfaces maps) grp of None \<Rightarrow> [] | Some r \<Rightarrow> [r])
               @ map quote_nft_string (def_wildcards item)))"

definition expand_interface_group_refs ::
    "define_maps \<Rightarrow> string list \<Rightarrow> string \<Rightarrow> string list res" where
  "expand_interface_group_refs maps groups label =
     bindE (mapE (group_refs maps label) groups) (\<lambda>rss. Inr (unique_strs (concat rss)))"

definition direct_if_exprs :: "string \<Rightarrow> string list \<Rightarrow> string list res" where
  "direct_if_exprs keyword direct =
     (if direct = [] then Inr []
      else case split_interface_patterns (unique_strs direct) of (exact, wildcards) \<Rightarrow>
        bindE (if exact = [] then Inr []
               else bindE (nft_set exact True) (\<lambda>s. Inr [keyword @ '' '' @ s])) (\<lambda>es.
        Inr (es @ map (\<lambda>w. keyword @ '' '' @ quote_nft_string w) wildcards)))"

definition interface_match_exprs ::
    "define_maps \<Rightarrow> pydict \<Rightarrow> string \<Rightarrow> string \<Rightarrow> string list res" where
  "interface_match_exprs maps block direction label =
     (let keyword = if_keyword direction in
      bindE (as_list (dget ''interfaces'' block) (label @ ''.interfaces'')) (\<lambda>raws.
      bindE (mapE (\<lambda>x. validate_interface x (label @ ''.interfaces'')) raws) (\<lambda>direct.
      bindE (direct_if_exprs keyword direct) (\<lambda>es.
      bindE (as_list (dget ''interface_groups'' block) (label @ ''.interface_groups'')) (\<lambda>groups.
      bindE (expand_interface_group_refs maps (map py_str groups) (label @ ''.interface_groups''))
        (\<lambda>refs.
      let exprs = unique_strs (es @ map (\<lambda>r. keyword @ '' '' @ r) refs)
      in Inr (if exprs = [] then [[]] else exprs)))))))"

text \<open>\<open>{"interfaces": d.get(k1, []), "interface_groups": d.get(k2, [])}\<close>\<close>

definition if_block :: "pydict \<Rightarrow> string \<Rightarrow> string \<Rightarrow> pydict" where
  "if_block d k1 k2 =
     [(''interfaces'', dget_or k1 (PList []) d), (''interface_groups'', dget_or k2 (PList []) d)]"

definition direct_cidrs_for_version ::
    "pyval list \<Rightarrow> ip_version \<Rightarrow> string \<Rightarrow> render_context \<Rightarrow> (string list \<times> render_context) res" where
  "direct_cidrs_for_version values version label ctx =
     bindE (parse_networks values label ctx) (\<lambda>(v4, v6, ctx').
     case version of
       V4 \<Rightarrow> if v6 \<noteq> []
              then Inl (PolicyError (label @ '': IPv6 values are not valid in an IPv4 field: ''
                     @ join '', '' v6))
              else Inr (v4, ctx')
     | V6 \<Rightarrow> if v4 \<noteq> []
              then Inl (PolicyError (label @ '': IPv4 values are not valid in an IPv6 field: ''
                     @ join '', '' v4))
              else Inr (v6, ctx'))"

definition cidr_category :: "define_maps \<Rightarrow> ip_version \<Rightarrow> (string \<times> define_item) list" where
  "cidr_category maps version = (case version of V4 \<Rightarrow> dm_cidr4 maps | V6 \<Rightarrow> dm_cidr6 maps)"

definition cidr_ref :: "define_maps \<Rightarrow> ip_version \<Rightarrow> string \<Rightarrow> string \<Rightarrow> string res" where
  "cidr_ref maps version label grp =
     (case define_ref (cidr_category maps version) grp of
        None \<Rightarrow> Inl (PolicyError (label @ '': unknown ''
                  @ (case version of V4 \<Rightarrow> ''IPv4'' | V6 \<Rightarrow> ''IPv6'')
                  @ '' CIDR group '' @ repr_str grp))
      | Some r \<Rightarrow> Inr r)"

definition cidr_refs :: "define_maps \<Rightarrow> string list \<Rightarrow> ip_version \<Rightarrow> string \<Rightarrow> string list res" where
  "cidr_refs maps groups version label =
     bindE (mapE (cidr_ref maps version label) groups) (\<lambda>refs. Inr (unique_strs refs))"

definition cidr_refs_of ::
    "define_maps \<Rightarrow> pydict \<Rightarrow> string \<Rightarrow> ip_version \<Rightarrow> string \<Rightarrow> string list res" where
  "cidr_refs_of maps d key version label =
     bindE (as_list (dget key d) label) (\<lambda>xs. cidr_refs maps (map py_str xs) version label)"

definition direct_cidrs_of ::
    "pydict \<Rightarrow> string \<Rightarrow> ip_version \<Rightarrow> string \<Rightarrow> render_context \<Rightarrow> (string list \<times> render_context) res" where
  "direct_cidrs_of d key version label ctx =
     bindE (as_list (dget key d) label) (\<lambda>xs. direct_cidrs_for_version xs version label ctx)"

definition networks_are_multicast :: "string list \<Rightarrow> bool" where
  "networks_are_multicast values =
     (values \<noteq> [] \<and>
      list_all (\<lambda>s. case ip_network s of None \<Rightarrow> False | Some n \<Rightarrow> net_is_multicast n) values)"

definition port_match :: "string \<Rightarrow> string list \<Rightarrow> string \<Rightarrow> string res" where
  "port_match proto ports direction =
     (if ports = [] then Inr []
      else if direction \<notin> {''d'', ''s''}
      then Inl (PolicyError (''unsupported port direction: '' @ repr_str direction))
      else bindE (nft_set ports False) (\<lambda>s. Inr (proto @ '' '' @ direction @ ''port '' @ s)))"

definition IP_CONSTRAINT_KEYS :: "string list" where
  "IP_CONSTRAINT_KEYS = [''ipv4'', ''ipv6'', ''ipv4_groups'', ''ipv6_groups'']"

fun any_list_non_empty :: "pydict \<Rightarrow> string \<Rightarrow> string list \<Rightarrow> bool res" where
  "any_list_non_empty d label [] = Inr False"
| "any_list_non_empty d label (key # keys) =
     bindE (as_list (dget key d) (label @ ''.'' @ key)) (\<lambda>xs.
       if xs \<noteq> [] then Inr True else any_list_non_empty d label keys)"

definition allow_has_any_ip_constraints :: "pydict \<Rightarrow> string \<Rightarrow> bool res" where
  "allow_has_any_ip_constraints allow label = any_list_non_empty allow label IP_CONSTRAINT_KEYS"

definition ip_keyword :: "ip_version \<Rightarrow> string" where
  "ip_keyword version = (case version of V4 \<Rightarrow> ''ip'' | V6 \<Rightarrow> ''ip6'')"

definition direct_key :: "ip_version \<Rightarrow> string" where
  "direct_key version = (case version of V4 \<Rightarrow> ''ipv4'' | V6 \<Rightarrow> ''ipv6'')"

definition groups_key :: "ip_version \<Rightarrow> string" where
  "groups_key version = (case version of V4 \<Rightarrow> ''ipv4_groups'' | V6 \<Rightarrow> ''ipv6_groups'')"

definition ip_match_exprs ::
    "define_maps \<Rightarrow> pydict \<Rightarrow> ip_version \<Rightarrow> string \<Rightarrow> string \<Rightarrow> render_context
       \<Rightarrow> (string list \<times> render_context) res" where
  "ip_match_exprs maps allow version address_role label ctx =
     bindE (allow_has_any_ip_constraints allow label) (\<lambda>constrained.
     bindE (cidr_refs_of maps allow (groups_key version) version (label @ ''.'' @ groups_key version))
       (\<lambda>refs.
     bindE (direct_cidrs_of allow (direct_key version) version (label @ ''.'' @ direct_key version) ctx)
       (\<lambda>(direct_values, ctx').
     if refs = [] \<and> direct_values = [] then Inr (if constrained then [] else [[]], ctx')
     else
       (let from_refs = map (\<lambda>r. ip_keyword version @ '' '' @ address_role @ '' '' @ r) refs in
        if direct_values = [] then Inr (unique_strs from_refs, ctx')
        else
          bindE (nft_set direct_values False) (\<lambda>s.
          let fld = (if networks_are_multicast direct_values then ''daddr'' else address_role)
          in Inr (unique_strs (from_refs @ [ip_keyword version @ '' '' @ fld @ '' '' @ s]), ctx'))))))"

subsection \<open>The rules of one service\<close>

definition non_empty :: "string list \<Rightarrow> string list" where
  "non_empty xs = filter (\<lambda>x. x \<noteq> []) xs"

definition service_log_elem :: "pydict \<Rightarrow> string \<Rightarrow> pydict \<Rightarrow> string res" where
  "service_log_elem policy name service =
     bindE (as_bool (dget ''log'' service) False) (\<lambda>log.
     if log then bindE (log_expr policy name ''accept'') (\<lambda>s. Inr (strip s)) else Inr [])"

definition inbound_rule ::
    "pydict \<Rightarrow> string \<Rightarrow> string \<Rightarrow> pydict \<Rightarrow> string \<Rightarrow> string list \<Rightarrow> string \<times> string \<Rightarrow> string res" where
  "inbound_rule policy chain service_name service proto ports exprs =
     (case exprs of (iface_expr, ip_expr) \<Rightarrow>
      bindE (port_match proto ports ''d'') (\<lambda>pm.
      bindE (rate_expr (dget ''rate_limit'' service) (''services.'' @ service_name @ ''.rate_limit''))
        (\<lambda>rlim.
      bindE (service_log_elem policy service_name service) (\<lambda>slog.
      add_rule policy chain (join '' '' (non_empty
        [iface_expr, ip_expr, pm, (if proto = ''tcp'' then ''ct state new'' else []), strip rlim, slog,
         ''counter accept'',
         strip (comment_expr (''service '' @ service_name @ '' inbound''))]))))))"

definition build_inbound_rules_for_ip_version ::
    "pydict \<Rightarrow> define_maps \<Rightarrow> string \<Rightarrow> pydict \<Rightarrow> string \<Rightarrow> string list \<Rightarrow> ip_version \<Rightarrow> render_context
       \<Rightarrow> (string list \<times> render_context) res" where
  "build_inbound_rules_for_ip_version policy maps service_name service proto ports version ctx =
     (let label = ''services.'' @ service_name @ ''.allow'' in
      bindE (chain_names policy) (\<lambda>ch.
      bindE (as_dict (dget ''allow'' service) label) (\<lambda>allow.
      bindE (ip_match_exprs maps allow version ''saddr'' label ctx) (\<lambda>(ip_exprs, ctx').
      if ip_exprs = [] then Inr ([], ctx')
      else
      bindE (interface_match_exprs maps allow ''in'' label) (\<lambda>iface_exprs.
      bindE (mapE (inbound_rule policy (ch_input ch) service_name service proto ports)
               (List.product iface_exprs ip_exprs)) (\<lambda>rules.
      Inr (rules, ctx')))))))"

definition outbound_rule ::
    "pydict \<Rightarrow> string \<Rightarrow> string \<Rightarrow> pydict \<Rightarrow> string \<Rightarrow> string list \<Rightarrow> string list \<Rightarrow> string
       \<Rightarrow> string \<times> string \<Rightarrow> string res" where
  "outbound_rule policy chain name spec proto ports source_ports source exprs =
     (case exprs of (iface_expr, ip_expr) \<Rightarrow>
      bindE (port_match proto ports ''d'') (\<lambda>pm.
      bindE (port_match proto source_ports ''s'') (\<lambda>spm.
      bindE (service_log_elem policy name spec) (\<lambda>slog.
      add_rule policy chain (join '' '' (non_empty
        [iface_expr, ip_expr, pm, spm, slog, ''counter accept'',
         strip (comment_expr (source @ '' '' @ name @ '' outbound''))]))))))"

definition build_outbound_rules_for_ip_version ::
    "pydict \<Rightarrow> define_maps \<Rightarrow> string \<Rightarrow> pydict \<Rightarrow> string \<Rightarrow> string list \<Rightarrow> ip_version \<Rightarrow> string
       \<Rightarrow> render_context \<Rightarrow> (string list \<times> render_context) res" where
  "build_outbound_rules_for_ip_version policy maps name spec proto ports version source ctx =
     (let label = source @ ''.'' @ name @ ''.allow_to'' in
      bindE (chain_names policy) (\<lambda>ch.
      bindE (as_dict (dget ''allow_to'' spec) label) (\<lambda>allow_to.
      bindE (normalize_source_ports spec (source @ ''.'' @ name)) (\<lambda>source_ports.
      bindE (ip_match_exprs maps allow_to version ''daddr'' label ctx) (\<lambda>(ip_exprs, ctx').
      if ip_exprs = [] then Inr ([], ctx')
      else
      bindE (interface_match_exprs maps allow_to ''out'' label) (\<lambda>iface_exprs.
      bindE (mapE (outbound_rule policy (ch_output ch) name spec proto ports source_ports source)
               (List.product iface_exprs ip_exprs)) (\<lambda>rules.
      Inr (rules, ctx'))))))))"

end
