(* ===== verification/NftFilter.thy ===== *)
theory NftFilter
  imports NftRules
begin

text \<open>
  \<open>nft-policy-generate.py\<close>, part 4: source filtering, logging and accounting rules, the checks
  on services with the public-exposure interlock, the allowlist guards, and \<open>render_filter\<close> as
  the concatenation of its sections in source order.

  A section that may emit warnings takes and returns the render context.
\<close>

subsection \<open>Source filtering, logging, accounting\<close>

definition SOURCE_CATEGORIES :: "(string \<times> ip_version \<times> string \<times> string) list" where
  "SOURCE_CATEGORIES =
     [(''martian ipv4 source'', V4, ''martian_ipv4_source_groups'', ''martian_ipv4_sources''),
      (''bogon ipv4 source'', V4, ''bogon_ipv4_source_groups'', ''bogon_ipv4_sources''),
      (''martian ipv6 source'', V6, ''martian_ipv6_source_groups'', ''martian_ipv6_sources''),
      (''bogon ipv6 source'', V6, ''bogon_ipv6_source_groups'', ''bogon_ipv6_sources'')]"

definition source_drop_exprs ::
    "string \<Rightarrow> ip_version \<Rightarrow> string list \<Rightarrow> string list \<Rightarrow> string \<Rightarrow> string list res" where
  "source_drop_exprs comment version refs direct if_expr =
     (let pre = (if if_expr = [] then [] else if_expr @ '' '') @ ip_keyword version @ '' saddr '';
          by_ref = map (\<lambda>r. pre @ r @ '' counter drop'' @ comment_expr comment) refs
      in if direct = [] then Inr by_ref
         else bindE (nft_set direct False) (\<lambda>s.
                Inr (by_ref @ [pre @ s @ '' counter drop'' @ comment_expr (comment @ '' direct'')])))"

definition source_category_rules ::
    "pydict \<Rightarrow> define_maps \<Rightarrow> pydict \<Rightarrow> string \<Rightarrow> string list
       \<Rightarrow> string list \<times> render_context \<Rightarrow> string \<times> ip_version \<times> string \<times> string
       \<Rightarrow> (string list \<times> render_context) res" where
  "source_category_rules policy maps source chain if_exprs st cat =
     (case st of (rules, ctx) \<Rightarrow> case cat of (comment, version, gkey, dkey) \<Rightarrow>
      bindE (cidr_refs_of maps source gkey version (''source_filtering.'' @ gkey)) (\<lambda>refs.
      bindE (direct_cidrs_of source dkey version (''source_filtering.'' @ dkey) ctx)
        (\<lambda>(direct, ctx').
      if refs = [] \<and> direct = [] then Inr (rules, ctx')
      else
      bindE (mapE (source_drop_exprs comment version refs direct) if_exprs) (\<lambda>ess.
      bindE (add_rules policy (map (Pair chain) (concat ess))) (\<lambda>new.
      Inr (rules @ new, ctx'))))))"

definition build_source_filter_drop_rules ::
    "pydict \<Rightarrow> define_maps \<Rightarrow> render_context \<Rightarrow> (string list \<times> render_context) res" where
  "build_source_filter_drop_rules policy maps ctx =
     bindE (as_dict (dget ''source_filtering'' policy) ''source_filtering'') (\<lambda>source.
     bindE (as_bool (dget ''enabled'' source) False) (\<lambda>enabled.
     if \<not> enabled then Inr ([], ctx)
     else
     bindE (chain_names policy) (\<lambda>ch.
     bindE (interface_match_exprs maps
              (if_block source ''apply_to_interfaces'' ''apply_to_interface_groups'') ''in''
              ''source_filtering.apply_to'') (\<lambda>if_exprs.
     foldE (source_category_rules policy maps source (ch_input ch) if_exprs) ([], ctx)
       SOURCE_CATEGORIES))))"

definition chain_of :: "chains \<Rightarrow> string \<Rightarrow> string" where
  "chain_of ch name =
     (if name = ''input'' then ch_input ch else if name = ''forward'' then ch_forward ch
      else ch_output ch)"

text \<open>\<open>str(section.get(key, logging.get(key, default)))\<close>\<close>

definition log_setting :: "pydict \<Rightarrow> pydict \<Rightarrow> string \<Rightarrow> string \<Rightarrow> pyval" where
  "log_setting section logging key default_text =
     PStr (py_str (dget_or key (dget_or key (PStr default_text) logging) section))"

text \<open>An optional rate limit, the log statement, a counter.\<close>

definition limited_log :: "string \<Rightarrow> string \<Rightarrow> string" where
  "limited_log limit prefix =
     join '' '' ((if limit = [] then [] else [limit])
       @ [''log prefix '' @ quote_nft_string prefix, ''counter''])"

text \<open>The configured chains; output is a default only when egress is enforced.\<close>

definition drop_log_chains :: "pydict \<Rightarrow> bool \<Rightarrow> string list res" where
  "drop_log_chains drop_logging enforced =
     bindE (as_list (dget_or ''chains''
              (PList ([PStr ''input'', PStr ''forward''] @ (if enforced then [PStr ''output''] else [])))
              drop_logging) ''logging.drop.chains'') (\<lambda>raw.
     Inr (map (\<lambda>x. lower (py_str x)) raw))"

definition drop_log_targets :: "string list \<Rightarrow> bool \<Rightarrow> string list res" where
  "drop_log_targets names enforced =
     bindE (mapE (\<lambda>c. if c \<in> set DROP_LOG_CHAINS then Inr ()
              else Inl (PolicyError (''logging.drop.chains: unsupported chain '' @ repr_str c
                     @ ''; expected one of '' @ repr_strs DROP_LOG_CHAINS))) names) (\<lambda>_.
     Inr (unique_strs (if enforced then names else filter (\<lambda>c. c \<noteq> ''output'') names)))"

definition build_drop_log_rules :: "pydict \<Rightarrow> pydict \<Rightarrow> string list res" where
  "build_drop_log_rules policy logging =
     bindE (as_dict (dget ''drop'' logging) ''logging.drop'') (\<lambda>drop_logging.
     bindE (as_bool (dget ''log_drops'' logging) False) (\<lambda>log_drops.
     bindE (as_bool (dget ''enabled'' drop_logging) log_drops) (\<lambda>enabled.
     if \<not> enabled then Inr []
     else
     bindE (chain_names policy) (\<lambda>ch.
     bindE (egress_enforced policy) (\<lambda>enforced.
     bindE (drop_log_chains drop_logging enforced) (\<lambda>names.
     if names = [] then Inr []
     else
     bindE (drop_log_targets names enforced) (\<lambda>targets.
     bindE (rate_expr (log_setting drop_logging logging ''limit'' ''10/minute'') ''logging.drop.limit'')
       (\<lambda>rlim.
     let pre = log_prefix (log_setting drop_logging logging ''prefix'' ''nftables'')
     in add_rules policy (map (\<lambda>c. (chain_of ch c, limited_log (strip rlim) (pre @ '' drop '' @ c @ '' '')))
          targets)))))))))"

definition build_output_audit_rule :: "pydict \<Rightarrow> pydict \<Rightarrow> string list res" where
  "build_output_audit_rule policy logging =
     bindE (egress_audit_enabled policy) (\<lambda>audit.
     bindE (if audit then egress_enforced policy else Inr True) (\<lambda>enforced.
     if \<not> audit \<or> enforced then Inr []
     else
     bindE (as_dict (dget ''egress_audit'' logging) ''logging.egress_audit'') (\<lambda>audit_logging.
     bindE (as_bool (dget ''enabled'' audit_logging) True) (\<lambda>enabled.
     if \<not> enabled then Inr []
     else
     bindE (chain_names policy) (\<lambda>ch.
     bindE (rate_expr (log_setting audit_logging logging ''limit'' ''10/minute'')
              ''logging.egress_audit.limit'') (\<lambda>rlim.
     let limit = strip rlim;
         pre = log_prefix (log_setting audit_logging logging ''prefix'' ''nftables'')
     in add_rules policy [(ch_output ch, limited_log limit (pre @ '' accept output ''))]))))))"

definition build_link_local_noise_drop_rules :: "pydict \<Rightarrow> string list res" where
  "build_link_local_noise_drop_rules policy =
     bindE (chain_names policy) (\<lambda>ch.
     bindE (add_rules policy
       [(ch_input ch, ''meta pkttype { broadcast, multicast } counter drop''
           @ comment_expr ''silent link-local noise input''),
        (ch_input ch, ''ip daddr 224.0.0.0/4 counter drop'' @ comment_expr ''silent multicast input''),
        (ch_input ch, ''ip6 daddr ff00::/8 counter drop'' @ comment_expr ''silent multicast input'')])
       (\<lambda>rules.
     bindE (egress_enforced policy) (\<lambda>enforced.
     if \<not> enforced then Inr rules
     else
     bindE (add_rules policy
       [(ch_output ch, ''meta pkttype { broadcast, multicast } counter drop''
           @ comment_expr ''silent link-local noise output''),
        (ch_output ch, ''ip daddr 224.0.0.0/4 counter drop'' @ comment_expr ''silent multicast output''),
        (ch_output ch, ''ip6 daddr ff00::/8 counter drop'' @ comment_expr ''silent multicast output'')])
       (\<lambda>more. Inr (rules @ more)))))"

definition build_desktop_ipv6_accounting_rules ::
    "pydict \<Rightarrow> define_maps \<Rightarrow> render_context \<Rightarrow> (string list \<times> render_context) res" where
  "build_desktop_ipv6_accounting_rules policy maps ctx =
     bindE (as_dict (dget ''desktop_ipv6'' policy) ''desktop_ipv6'') (\<lambda>d.
     bindE (as_bool (dget ''enabled'' d) False) (\<lambda>enabled.
     if \<not> enabled then Inr ([], ctx)
     else
     (let group_name = strip (py_str (dget_or ''host_cidr_group'' (PStr ''desktop_static_ipv6_host'') d))
      in
      if group_name = []
      then Inl (PolicyError ''desktop_ipv6.host_cidr_group must not be empty'')
      else case define_ref (dm_cidr6 maps) group_name of
        None \<Rightarrow> Inr ([], ctx_skip (''desktop_ipv6: CIDR group '' @ repr_str group_name
                  @ '' is empty or absent; no desktop IPv6 accounting rules generated'') ctx)
      | Some ref \<Rightarrow>
          bindE (chain_names policy) (\<lambda>ch.
          bindE (as_bool (dget ''account_input'' d) True) (\<lambda>ain.
          bindE (as_bool (dget ''account_output'' d) True) (\<lambda>aout.
          bindE (add_rules policy
            ((if ain then [(ch_input ch, ''ip6 daddr '' @ ref @ '' counter''
                @ comment_expr ''desktop generated ipv6 input'')] else [])
             @ (if aout then [(ch_output ch, ''ip6 saddr '' @ ref @ '' counter''
                @ comment_expr ''desktop generated ipv6 output'')] else []))) (\<lambda>rules.
          Inr (rules, ctx))))))))"

definition egress_rule_enabled :: "pydict \<Rightarrow> string \<Rightarrow> bool res" where
  "egress_rule_enabled egress_rules rule_name =
     (case dget rule_name egress_rules of
        PDict rule \<Rightarrow> as_bool (dget ''enabled'' rule) False
      | _ \<Rightarrow> Inr False)"

subsection \<open>Checks on services\<close>

definition service_has_ip_constraints :: "define_maps \<Rightarrow> pydict \<Rightarrow> string \<Rightarrow> bool res" where
  "service_has_ip_constraints maps service service_name =
     (let label = ''services.'' @ service_name @ ''.allow'' in
      bindE (as_dict (dget ''allow'' service) label) (\<lambda>allow.
      bindE (any_list_non_empty allow label [''ipv4'', ''ipv6'']) (\<lambda>direct.
      if direct then Inr True
      else
      bindE (cidr_refs_of maps allow ''ipv4_groups'' V4 (label @ ''.ipv4_groups'')) (\<lambda>refs4.
      if refs4 \<noteq> [] then Inr True
      else
      bindE (cidr_refs_of maps allow ''ipv6_groups'' V6 (label @ ''.ipv6_groups'')) (\<lambda>refs6.
      Inr (refs6 \<noteq> []))))))"

definition group_values :: "define_maps \<Rightarrow> ip_version \<Rightarrow> string \<Rightarrow> string list res" where
  "group_values maps version grp =
     (case map_of (cidr_category maps version) grp of
        None \<Rightarrow> Inl (PolicyError (''allow: unknown CIDR group '' @ repr_str grp))
      | Some item \<Rightarrow>
          if def_values item = []
          then Inl (PolicyError (''allow: unknown CIDR group '' @ repr_str grp))
          else Inr (def_values item))"

text \<open>\<open>if allow.get(key): _, v = parse_networks(...)\<close>, with a context that is thrown away.\<close>

definition direct_allow :: "pydict \<Rightarrow> string \<Rightarrow> ip_version \<Rightarrow> string list res" where
  "direct_allow allow key version =
     (if \<not> py_truthy (dget key allow) then Inr []
      else bindE (as_list (dget key allow) (''allow.'' @ key)) (\<lambda>xs.
           bindE (parse_networks xs (''allow.'' @ key) empty_context) (\<lambda>(v4, v6, _).
           Inr (case version of V4 \<Rightarrow> v4 | V6 \<Rightarrow> v6))))"

definition parse_resolved :: "string \<Rightarrow> ip_net res" where
  "parse_resolved value = (case ip_network value of None \<Rightarrow> Inl ValueErr | Some n \<Rightarrow> Inr n)"

definition covers_family :: "ip_net list \<Rightarrow> ip_version \<Rightarrow> bool" where
  "covers_family networks version =
     list_ex (\<lambda>n. net_len n = 0)
       (collapse_addresses version (filter (\<lambda>n. net_ver n = version) networks))"

text \<open>
  The networks an allowlist resolves to: the direct entries and the values of its groups, which are
  the texts the generated match expressions contain.
\<close>

definition allow_networks :: "define_maps \<Rightarrow> pydict \<Rightarrow> ip_net list res" where
  "allow_networks maps service =
     bindE (as_dict (dget ''allow'' service) ''allow'') (\<lambda>allow.
     bindE (as_list (dget ''ipv4_groups'' allow) ''allow.ipv4_groups'') (\<lambda>g4.
     bindE (as_list (dget ''ipv6_groups'' allow) ''allow.ipv6_groups'') (\<lambda>g6.
     bindE (direct_allow allow ''ipv4'' V4) (\<lambda>direct4.
     bindE (direct_allow allow ''ipv6'' V6) (\<lambda>direct6.
     bindE (mapE (group_values maps V4) (map py_str g4)) (\<lambda>vs4.
     bindE (mapE (group_values maps V6) (map py_str g6)) (\<lambda>vs6.
     mapE parse_resolved (direct4 @ direct6 @ concat vs4 @ concat vs6))))))))"

definition sensitive_public_violation :: "define_maps \<Rightarrow> pydict \<Rightarrow> bool res" where
  "sensitive_public_violation maps service =
     bindE (allow_networks maps service) (\<lambda>networks.
       Inr (covers_family networks V4 \<or> covers_family networks V6))"

record service_safety =
  sf_require_non_empty :: bool
  sf_forbid_public :: bool
  sf_allow_public :: bool

definition validate_service ::
    "pydict \<Rightarrow> define_maps \<Rightarrow> service_safety \<Rightarrow> render_context \<Rightarrow> string \<times> pyval
       \<Rightarrow> render_context res" where
  "validate_service policy maps sf ctx entry =
     (case entry of (service_name, raw_service) \<Rightarrow>
      let label = ''services.'' @ service_name in
      bindE (as_dict raw_service label) (\<lambda>service.
      bindE (as_bool (dget ''enabled'' service) False) (\<lambda>enabled.
      if \<not> enabled then Inr ctx
      else
      (let direction = lower (py_str (dget_or ''direction'' (PStr ''inbound'') service)) in
       if direction \<notin> set DIRECTION_SET
       then Inl (PolicyError (label @ ''.direction: unsupported direction '' @ repr_str direction))
       else
       bindE (normalize_protocols service label) (\<lambda>_.
       bindE (normalize_ports service label) (\<lambda>ports.
       bindE (normalize_source_ports service label) (\<lambda>source_ports.
       let ctx' = (if ports = [] \<and> source_ports = []
                   then ctx_skip (label @ '': enabled but has no destination or source ports; ''
                          @ ''no rules generated'') ctx
                   else ctx)
       in
       bindE (as_bool (dget ''sensitive'' service) False) (\<lambda>sensitive.
       if \<not> (sensitive \<and> direction \<in> {''inbound'', ''bidirectional''}) then Inr ctx'
       else
       bindE (if sf_require_non_empty sf
              then service_has_ip_constraints maps service service_name else Inr True) (\<lambda>has.
       if \<not> has
       then Inl (PolicyError (label @ '': sensitive inbound service requires non-empty IP allowlist''))
       else
       bindE (if sf_forbid_public sf \<and> \<not> sf_allow_public sf
              then sensitive_public_violation maps service else Inr False) (\<lambda>violation.
       if violation
       then Inl (PolicyError (label @ '': sensitive service has a public allowlist; narrow it for ''
              @ ''admin/private services or pass --allow-public-sensitive''))
       else Inr ctx'))))))))))"

definition validate_services ::
    "pydict \<Rightarrow> define_maps \<Rightarrow> render_context \<Rightarrow> bool \<Rightarrow> render_context res" where
  "validate_services policy maps ctx allow_public_sensitive =
     bindE (as_dict (dget ''safety'' policy) ''safety'') (\<lambda>safety.
     bindE (as_dict (dget ''services'' policy) ''services'') (\<lambda>services.
     bindE (as_bool (dget ''require_non_empty_allowlist_for_sensitive_services'' safety) True) (\<lambda>rne.
     bindE (as_bool (dget ''forbid_public_admin_services_by_default'' safety) True) (\<lambda>fps.
     foldE (validate_service policy maps
              \<lparr>sf_require_non_empty = rne, sf_forbid_public = fps,
               sf_allow_public = allow_public_sensitive\<rparr>) ctx services))))"

subsection \<open>Allowlist guards\<close>

definition chain_list :: "chains \<Rightarrow> string list" where
  "chain_list ch = [ch_input ch, ch_forward ch, ch_output ch, ch_local_input ch,
     ch_local_forward ch, ch_local_output ch]"

definition guard_rules ::
    "pydict \<Rightarrow> string \<Rightarrow> string \<Rightarrow> string \<Rightarrow> string \<Rightarrow> string \<Rightarrow> string list \<Rightarrow> string list
       \<Rightarrow> string list \<Rightarrow> string list res" where
  "guard_rules policy family tbl name guard hook_chain matches protos ports =
     bindE (add_rules policy
       (map (\<lambda>m. (guard, m @ '' counter return''
               @ comment_expr (''service '' @ name @ '' allowlist peer''))) matches
        @ [(guard, ''counter drop'' @ comment_expr (''service '' @ name @ '' allowlist deny''))]))
       (\<lambda>body.
     bindE (mapE (\<lambda>proto. bindE (port_match proto ports ''d'') (\<lambda>pm.
              add_rule policy hook_chain (pm @ '' jump '' @ guard
                @ comment_expr (''service '' @ name @ '' allowlist guard'')))) protos) (\<lambda>jumps.
     Inr ((''add chain '' @ family @ '' '' @ tbl @ '' '' @ guard) # body @ jumps)))"

text \<open>One match per address and interface, the addresses outermost.\<close>

definition guard_matches :: "string list \<Rightarrow> string list \<Rightarrow> string list" where
  "guard_matches interfaces ips =
     concat (map (\<lambda>ip. map (\<lambda>iface. iface @ '' '' @ ip) interfaces) ips)"

definition guard_service ::
    "pydict \<Rightarrow> define_maps \<Rightarrow> string \<Rightarrow> pydict \<Rightarrow> render_context
       \<Rightarrow> (string list \<times> render_context) res" where
  "guard_service policy maps name service ctx =
     (let label = ''services.'' @ name;
          direction = lower (py_str (dget_or ''direction'' (PStr ''inbound'') service)) in
      bindE (family_table policy) (\<lambda>(family, tbl).
      bindE (chain_names policy) (\<lambda>ch.
      if direction \<notin> {''inbound'', ''outbound''}
      then Inl (PolicyError (label @ '': enforced allowlists require one explicit direction''))
      else
      bindE (normalize_ports service label) (\<lambda>ports.
      bindE (if ports = [] then Inr [] else normalize_source_ports service label) (\<lambda>source_ports.
      if ports = [] \<or> source_ports \<noteq> []
      then Inl (PolicyError (label @ '': enforced allowlists require destination ports only''))
      else
      (let inbound = (direction = ''inbound'');
           fld = (if inbound then ''allow'' else ''allow_to'');
           flabel = label @ ''.'' @ fld;
           role = (if inbound then ''saddr'' else ''daddr'') in
      bindE (as_dict (dget fld service) flabel) (\<lambda>allow.
      bindE (allow_has_any_ip_constraints allow flabel) (\<lambda>constrained.
      if \<not> constrained
      then Inl (PolicyError (label @ '': enforced allowlist requires explicit IP peers''))
      else
      bindE (interface_match_exprs maps allow (if inbound then ''in'' else ''out'') flabel)
        (\<lambda>interfaces.
      if interfaces = [[]]
      then Inl (PolicyError (label @ '': enforced allowlist requires explicit interfaces''))
      else
      bindE (ip_match_exprs maps allow V4 role flabel ctx) (\<lambda>(ips4, ctx4).
      bindE (ip_match_exprs maps allow V6 role flabel ctx4) (\<lambda>(ips6, ctx6).
      let matches = guard_matches interfaces (ips4 @ ips6) in
      if matches = []
      then Inl (PolicyError (label @ '': enforced allowlist has no usable IP peers''))
      else
      bindE (validate_nft_identifier (PStr (''allow_'' @ name @ ''_'' @ direction))
               (label @ ''.guard_chain'')) (\<lambda>guard.
      if guard \<in> set (chain_list ch)
      then Inl (PolicyError (label @ '': allowlist guard collides with a configured chain''))
      else
      bindE (normalize_protocols service label) (\<lambda>protos.
      bindE (guard_rules policy family tbl name guard
               (if inbound then ch_input ch else ch_output ch) matches protos ports) (\<lambda>rules.
      Inr (rules, ctx6)))))))))))))))"

text \<open>The mapping under a service name, for \<open>sorted(services)\<close>.\<close>

definition sorted_items :: "pydict \<Rightarrow> (string \<times> pyval) list" where
  "sorted_items d = map (\<lambda>k. (k, dget k d)) (sort (map fst d))"

definition guard_step ::
    "pydict \<Rightarrow> define_maps \<Rightarrow> string list \<times> render_context \<Rightarrow> string \<times> pyval
       \<Rightarrow> (string list \<times> render_context) res" where
  "guard_step policy maps st entry =
     (case st of (rules, ctx) \<Rightarrow> case entry of (name, raw) \<Rightarrow>
      bindE (as_dict raw (''services.'' @ name)) (\<lambda>service.
      bindE (as_bool (dget ''enabled'' service) False) (\<lambda>enabled.
      bindE (if enabled then as_bool (dget ''enforce_allowlist'' service) False else Inr False)
        (\<lambda>enforce.
      if \<not> enforce then Inr (rules, ctx)
      else bindE (guard_service policy maps name service ctx) (\<lambda>(new, ctx').
             Inr (rules @ new, ctx'))))))"

definition build_allowlist_guards ::
    "pydict \<Rightarrow> define_maps \<Rightarrow> render_context \<Rightarrow> (string list \<times> render_context) res" where
  "build_allowlist_guards policy maps ctx =
     bindE (family_table policy) (\<lambda>_.
     bindE (chain_names policy) (\<lambda>_.
     bindE (as_dict (dget ''services'' policy) ''services'') (\<lambda>services.
     foldE (guard_step policy maps) ([], ctx) (sorted_items services))))"

end
