(* ===== verification/NftRender.thy ===== *)
theory NftRender
  imports NftFilter
begin

text \<open>
  \<open>nft-policy-generate.py\<close>, part 5: \<open>render_filter\<close> section by section.

  A section is a function of the render context that returns the lines it appends;
  \<open>run_sections\<close> executes the sections in source order on the growing list of lines.
\<close>

type_synonym section_fun = "render_context \<Rightarrow> (string list \<times> render_context) res"

definition lift_lines :: "string list res \<Rightarrow> section_fun" where
  "lift_lines m ctx = bindE m (\<lambda>ls. Inr (ls, ctx))"

definition run_section ::
    "string list \<times> render_context \<Rightarrow> section_fun \<Rightarrow> (string list \<times> render_context) res" where
  "run_section st sec =
     (case st of (lines, ctx) \<Rightarrow> bindE (sec ctx) (\<lambda>(new, ctx'). Inr (lines @ new, ctx')))"

definition run_sections ::
    "string list \<Rightarrow> render_context \<Rightarrow> section_fun list \<Rightarrow> (string list \<times> render_context) res" where
  "run_sections header ctx secs = foldE run_section (header, ctx) secs"

record filter_cfg =
  fc_features :: pydict
  fc_anti :: pydict
  fc_source :: pydict
  fc_unsafe :: pydict
  fc_egress :: pydict
  fc_forwarding :: pydict
  fc_containers :: pydict
  fc_rate_limits :: pydict
  fc_logging :: pydict

definition filter_config :: "pydict \<Rightarrow> filter_cfg res" where
  "filter_config policy =
     bindE (as_dict (dget ''features'' policy) ''features'') (\<lambda>features.
     bindE (as_dict (dget ''anti_spoofing'' policy) ''anti_spoofing'') (\<lambda>anti.
     bindE (as_dict (dget ''source_filtering'' policy) ''source_filtering'') (\<lambda>source.
     bindE (as_dict (dget ''unsafe_source_filtering'' policy) ''unsafe_source_filtering'') (\<lambda>unsafe.
     bindE (as_dict (dget ''egress'' policy) ''egress'') (\<lambda>egress.
     bindE (as_dict (dget ''forwarding'' policy) ''forwarding'') (\<lambda>forwarding.
     bindE (as_dict (dget ''containers'' policy) ''containers'') (\<lambda>containers.
     bindE (as_dict (dget ''rate_limits'' policy) ''rate_limits'') (\<lambda>rate_limits.
     bindE (as_dict (dget ''logging'' policy) ''logging'') (\<lambda>logging.
     Inr \<lparr>fc_features = features, fc_anti = anti, fc_source = source, fc_unsafe = unsafe,
          fc_egress = egress, fc_forwarding = forwarding, fc_containers = containers,
          fc_rate_limits = rate_limits, fc_logging = logging\<rparr>)))))))))"

text \<open>\<open>if as_bool(features.get(flag), default): <rules>\<close>\<close>

definition when_flag :: "pydict \<Rightarrow> string \<Rightarrow> bool \<Rightarrow> string list res \<Rightarrow> string list res" where
  "when_flag d flag dflt body =
     bindE (as_bool (dget flag d) dflt) (\<lambda>b. if b then body else Inr [])"

definition sec_invalid :: "pydict \<Rightarrow> filter_cfg \<Rightarrow> chains \<Rightarrow> string list res" where
  "sec_invalid policy cfg ch =
     when_flag (fc_features cfg) ''drop_invalid'' True (add_rules policy
       [(ch_input ch, ''ct state invalid counter drop'' @ comment_expr ''base drop invalid''),
        (ch_forward ch, ''ct state invalid counter drop'' @ comment_expr ''base drop invalid forward''),
        (ch_output ch, ''ct state invalid counter drop'' @ comment_expr ''base drop invalid output'')])"

definition sec_app_veth :: "pydict \<Rightarrow> chains \<Rightarrow> string list res" where
  "sec_app_veth policy ch =
     bindE (app_veth_identity policy) (\<lambda>(ifs, dns_address, dns_port).
     bindE (add_rules policy
       [(ch_input ch, ''iifname '' @ ifs @ '' ip daddr '' @ dns_address
           @ '' meta l4proto { tcp, udp } th dport '' @ int_str dns_port @ '' ct status dnat accept''
           @ comment_expr ''managed namespace DNS cache'')]) (\<lambda>dns.
     bindE (app_veth_web_tls_ports policy) (\<lambda>web_ports.
     bindE (if web_ports = [] then Inr []
            else bindE (nft_set (map int_str web_ports) False) (\<lambda>s. add_rules policy
              [(ch_input ch, ''iifname '' @ ifs @ '' meta l4proto tcp tcp dport '' @ s @ '' accept''
                  @ comment_expr ''managed browser host HTTPS'')])) (\<lambda>web.
     bindE (add_rules policy
       [(ch_forward ch, ''iifname '' @ ifs @ '' accept'' @ comment_expr ''app veth guarded egress''),
        (ch_forward ch, ''oifname '' @ ifs @ '' accept'' @ comment_expr ''app veth guarded ingress'')])
       (\<lambda>fwd.
     bindE (tailscale_netkit_rules policy (ch_input ch) (ch_forward ch)) (\<lambda>ts.
     Inr (dns @ web @ fwd @ ts)))))))"

definition sec_established :: "pydict \<Rightarrow> filter_cfg \<Rightarrow> chains \<Rightarrow> string list res" where
  "sec_established policy cfg ch =
     when_flag (fc_features cfg) ''allow_established_related'' True (add_rules policy
       [(ch_input ch, ''ct state established,related counter accept''
           @ comment_expr ''base established related''),
        (ch_forward ch, ''ct state established,related counter accept''
           @ comment_expr ''base established related forward''),
        (ch_output ch, ''ct state established,related counter accept''
           @ comment_expr ''base established related output'')])"

definition sec_loopback :: "pydict \<Rightarrow> define_maps \<Rightarrow> filter_cfg \<Rightarrow> chains \<Rightarrow> string list res" where
  "sec_loopback policy maps cfg ch =
     when_flag (fc_features cfg) ''allow_loopback'' True
       (let lo = (case define_ref (dm_interfaces maps) ''loopback'' of
                    Some r \<Rightarrow> r | None \<Rightarrow> quote_nft_string ''lo'')
        in add_rules policy
          [(ch_input ch, ''iifname '' @ lo @ '' counter accept'' @ comment_expr ''base loopback input''),
           (ch_output ch, ''oifname '' @ lo @ '' counter accept'' @ comment_expr ''base loopback output'')])"

definition opt_rule :: "string \<Rightarrow> string option \<Rightarrow> (string \<Rightarrow> string) \<Rightarrow> (string \<times> string) list" where
  "opt_rule chain r mk = (case r of None \<Rightarrow> [] | Some ref \<Rightarrow> [(chain, mk ref)])"

definition sec_martian_loopback ::
    "pydict \<Rightarrow> define_maps \<Rightarrow> filter_cfg \<Rightarrow> chains \<Rightarrow> string list res" where
  "sec_martian_loopback policy maps cfg ch =
     (let not_lo = ''iifname != '' @ quote_nft_string ''lo'' in
      bindE (as_bool (dget ''drop_loopback_on_non_loopback'' (fc_unsafe cfg)) True) (\<lambda>dflt.
      when_flag (fc_source cfg) ''drop_loopback_on_non_loopback'' dflt (add_rules policy
        (opt_rule (ch_input ch) (define_ref (dm_cidr4 maps) ''localhost_ipv4'')
           (\<lambda>r. not_lo @ '' ip saddr '' @ r @ '' counter drop''
                 @ comment_expr ''martian loopback source'')
         @ opt_rule (ch_input ch) (define_ref (dm_cidr6 maps) ''localhost_ipv6'')
           (\<lambda>r. not_lo @ '' ip6 saddr '' @ r @ '' counter drop''
                 @ comment_expr ''martian loopback source'')))))"

definition sec_dhcp :: "pydict \<Rightarrow> filter_cfg \<Rightarrow> chains \<Rightarrow> string list res" where
  "sec_dhcp policy cfg ch =
     bindE (as_dict (dget ''exceptions'' (fc_anti cfg)) ''anti_spoofing.exceptions'') (\<lambda>ex.
     when_flag ex ''allow_dhcp_client'' False (add_rules policy
       [(ch_input ch, ''udp sport 67 udp dport 68 counter accept''
           @ comment_expr ''dhcpv4 client before anti-spoof''),
        (ch_input ch, ''udp sport 547 udp dport 546 counter accept''
           @ comment_expr ''dhcpv6 client before anti-spoof'')]))"

definition sec_source_filter :: "pydict \<Rightarrow> define_maps \<Rightarrow> filter_cfg \<Rightarrow> section_fun" where
  "sec_source_filter policy maps cfg ctx =
     bindE (as_bool (dget ''source_filtering'' (fc_features cfg)) True) (\<lambda>b.
       if b then build_source_filter_drop_rules policy maps ctx else Inr ([], ctx))"

definition sec_unsafe :: "pydict \<Rightarrow> define_maps \<Rightarrow> filter_cfg \<Rightarrow> chains \<Rightarrow> string list res" where
  "sec_unsafe policy maps cfg ch =
     when_flag (fc_features cfg) ''unsafe_source_filtering'' True
       (when_flag (fc_unsafe cfg) ''enabled'' False (add_rules policy
          (opt_rule (ch_input ch) (define_ref (dm_cidr4 maps) ''unsafe_ipv4_sources'')
             (\<lambda>r. ''ip saddr '' @ r @ '' counter drop'' @ comment_expr ''unsafe ipv4 source'')
           @ opt_rule (ch_input ch) (define_ref (dm_cidr6 maps) ''unsafe_ipv6_sources'')
             (\<lambda>r. ''ip6 saddr '' @ r @ '' counter drop'' @ comment_expr ''unsafe ipv6 source''))))"

definition sec_neighbor :: "pydict \<Rightarrow> filter_cfg \<Rightarrow> chains \<Rightarrow> string list res" where
  "sec_neighbor policy cfg ch =
     (let expr = ''ip6 nexthdr icmpv6 icmpv6 type { nd-neighbor-solicit, nd-neighbor-advert, ''
                 @ ''nd-router-solicit, nd-router-advert } counter accept''
                 @ comment_expr ''ipv6 neighbor discovery''
      in when_flag (fc_features cfg) ''allow_ipv6_neighbor_discovery'' True
           (add_rules policy [(ch_input ch, expr), (ch_output ch, expr)]))"

definition anti_spoof_exprs ::
    "string list \<Rightarrow> string list \<Rightarrow> string list \<Rightarrow> string list \<Rightarrow> string \<Rightarrow> string list res" where
  "anti_spoof_exprs refs4 direct4 refs6 direct6 if_expr =
     (if if_expr = [] then Inr []
      else
      bindE (if direct4 = [] then Inr [] else bindE (nft_set direct4 False) (\<lambda>s.
               Inr [if_expr @ '' ip saddr '' @ s @ '' counter drop''
                    @ comment_expr ''anti-spoof ipv4 direct''])) (\<lambda>d4.
      bindE (if direct6 = [] then Inr [] else bindE (nft_set direct6 False) (\<lambda>s.
               Inr [if_expr @ '' ip6 saddr '' @ s @ '' counter drop''
                    @ comment_expr ''anti-spoof ipv6 direct''])) (\<lambda>d6.
      Inr (map (\<lambda>r. if_expr @ '' ip saddr '' @ r @ '' counter drop''
                   @ comment_expr ''anti-spoof ipv4'') refs4
           @ d4
           @ map (\<lambda>r. if_expr @ '' ip6 saddr '' @ r @ '' counter drop''
                   @ comment_expr ''anti-spoof ipv6'') refs6
           @ d6))))"

definition anti_spoof_rules ::
    "pydict \<Rightarrow> define_maps \<Rightarrow> pydict \<Rightarrow> chains \<Rightarrow> section_fun" where
  "anti_spoof_rules policy maps anti ch ctx =
     bindE (interface_match_exprs maps
              (if_block anti ''apply_to_interfaces'' ''apply_to_interface_groups'') ''in''
              ''anti_spoofing.apply_to'') (\<lambda>if_exprs.
     bindE (cidr_refs_of maps anti ''drop_ipv4_source_groups'' V4
              ''anti_spoofing.drop_ipv4_source_groups'') (\<lambda>refs4.
     bindE (cidr_refs_of maps anti ''drop_ipv6_source_groups'' V6
              ''anti_spoofing.drop_ipv6_source_groups'') (\<lambda>refs6.
     bindE (direct_cidrs_of anti ''drop_ipv4_sources'' V4 ''anti_spoofing.drop_ipv4_sources'' ctx)
       (\<lambda>(direct4, ctx4).
     bindE (direct_cidrs_of anti ''drop_ipv6_sources'' V6 ''anti_spoofing.drop_ipv6_sources'' ctx4)
       (\<lambda>(direct6, ctx6).
     bindE (mapE (anti_spoof_exprs refs4 direct4 refs6 direct6) if_exprs) (\<lambda>ess.
     bindE (add_rules policy (map (Pair (ch_input ch)) (concat ess))) (\<lambda>rules.
     Inr (rules, ctx6))))))))"

definition sec_anti_spoof :: "pydict \<Rightarrow> define_maps \<Rightarrow> filter_cfg \<Rightarrow> chains \<Rightarrow> section_fun" where
  "sec_anti_spoof policy maps cfg ch ctx =
     bindE (as_bool (dget ''anti_spoofing'' (fc_features cfg)) True) (\<lambda>feature.
     bindE (if feature then as_bool (dget ''enabled'' (fc_anti cfg)) True else Inr False) (\<lambda>enabled.
     if enabled then anti_spoof_rules policy maps (fc_anti cfg) ch ctx else Inr ([], ctx)))"

definition rate_setting :: "pydict \<Rightarrow> string \<Rightarrow> string res" where
  "rate_setting rate_limits key =
     rate_expr (PStr (py_str (dget_or key (PStr ''20/second burst 50 packets'') rate_limits)))
       (''rate_limits.'' @ key)"

definition sec_icmp :: "pydict \<Rightarrow> filter_cfg \<Rightarrow> chains \<Rightarrow> string list res" where
  "sec_icmp policy cfg ch =
     bindE (when_flag (fc_features cfg) ''allow_icmpv4'' True
       (bindE (rate_setting (fc_rate_limits cfg) ''icmpv4'') (\<lambda>lim. add_rules policy
          [(ch_input ch, ''ip protocol icmp icmp type { echo-request, destination-unreachable, ''
              @ ''time-exceeded, parameter-problem }'' @ lim @ '' counter accept'' @ comment_expr ''icmpv4''),
           (ch_output ch, ''ip protocol icmp counter accept'' @ comment_expr ''icmpv4 output'')])))
       (\<lambda>v4.
     bindE (when_flag (fc_features cfg) ''allow_icmpv6'' True
       (bindE (rate_setting (fc_rate_limits cfg) ''icmpv6'') (\<lambda>lim. add_rules policy
          [(ch_input ch, ''ip6 nexthdr icmpv6 icmpv6 type { echo-request, echo-reply, ''
              @ ''destination-unreachable, packet-too-big, time-exceeded, parameter-problem }'' @ lim
              @ '' counter accept'' @ comment_expr ''icmpv6''),
           (ch_output ch, ''ip6 nexthdr icmpv6 counter accept'' @ comment_expr ''icmpv6 output'')])))
       (\<lambda>v6. Inr (v4 @ v6)))"

definition sec_local_hooks :: "pydict \<Rightarrow> filter_cfg \<Rightarrow> chains \<Rightarrow> string list res" where
  "sec_local_hooks policy cfg ch =
     bindE (add_rules policy
       [(ch_input ch, ''jump '' @ ch_local_input ch @ comment_expr ''local input hook''),
        (ch_forward ch, ''jump '' @ ch_local_forward ch @ comment_expr ''local forward hook''),
        (ch_output ch, ''jump '' @ ch_local_output ch @ comment_expr ''local output hook'')]) (\<lambda>hooks.
     bindE (build_output_audit_rule policy (fc_logging cfg)) (\<lambda>audit.
     Inr (hooks @ audit)))"

subsection \<open>Service and egress rules\<close>

text \<open>The two address families of one protocol, IPv4 first.\<close>

definition both_families ::
    "(ip_version \<Rightarrow> section_fun) \<Rightarrow> string list \<times> render_context
       \<Rightarrow> (string list \<times> render_context) res" where
  "both_families build st = foldE run_section st [build V4, build V6]"

definition inbound_service_step ::
    "pydict \<Rightarrow> define_maps \<Rightarrow> string list \<times> render_context \<Rightarrow> string \<times> pyval
       \<Rightarrow> (string list \<times> render_context) res" where
  "inbound_service_step policy maps st entry =
     (case entry of (name, raw) \<Rightarrow>
      let label = ''services.'' @ name in
      bindE (as_dict raw label) (\<lambda>service.
      bindE (as_bool (dget ''enabled'' service) False) (\<lambda>enabled.
      if \<not> enabled \<or> lower (py_str (dget_or ''direction'' (PStr ''inbound'') service))
            \<notin> {''inbound'', ''bidirectional''} then Inr st
      else
      bindE (normalize_ports service label) (\<lambda>ports.
      if ports = [] then Inr st
      else
      bindE (normalize_protocols service label) (\<lambda>protos.
      foldE (\<lambda>s proto. both_families
                (build_inbound_rules_for_ip_version policy maps name service proto ports) s)
        st protos)))))"

text \<open>Services written with \<open>allow\<close> only are mirrored to \<open>allow_to\<close> for outbound rules.\<close>

definition MIRROR_KEYS :: "string list" where
  "MIRROR_KEYS = [''ipv4_groups'', ''ipv6_groups'', ''ipv4'', ''ipv6'', ''interfaces'', ''interface_groups'']"

definition mirror_allow :: "pydict \<Rightarrow> string \<Rightarrow> pydict res" where
  "mirror_allow service label =
     (if \<not> dmem ''allow_to'' service \<and> dmem ''allow'' service
      then bindE (as_dict (dget ''allow'' service) (label @ ''.allow'')) (\<lambda>allow.
             Inr (dset ''allow_to'' (PDict (map (\<lambda>k. (k, dget_or k (PList []) allow)) MIRROR_KEYS))
                    service))
      else Inr service)"

definition outbound_spec ::
    "pydict \<Rightarrow> define_maps \<Rightarrow> string \<Rightarrow> pydict \<Rightarrow> string list \<Rightarrow> string \<Rightarrow> string
       \<Rightarrow> string list \<times> render_context \<Rightarrow> (string list \<times> render_context) res" where
  "outbound_spec policy maps name spec ports label source st =
     bindE (normalize_protocols spec label) (\<lambda>protos.
     foldE (\<lambda>s proto. both_families
               (\<lambda>v. build_outbound_rules_for_ip_version policy maps name spec proto ports v source) s)
       st protos)"

definition outbound_service_step ::
    "pydict \<Rightarrow> define_maps \<Rightarrow> string list \<times> render_context \<Rightarrow> string \<times> pyval
       \<Rightarrow> (string list \<times> render_context) res" where
  "outbound_service_step policy maps st entry =
     (case entry of (name, raw) \<Rightarrow>
      let label = ''services.'' @ name in
      bindE (as_dict raw label) (\<lambda>service.
      bindE (as_bool (dget ''enabled'' service) False) (\<lambda>enabled.
      if \<not> enabled \<or> lower (py_str (dget_or ''direction'' (PStr ''inbound'') service))
            \<notin> {''outbound'', ''bidirectional''} then Inr st
      else
      bindE (normalize_ports service label) (\<lambda>ports.
      bindE (normalize_source_ports service label) (\<lambda>source_ports.
      if ports = [] \<and> source_ports = [] then Inr st
      else
      bindE (mirror_allow service label) (\<lambda>mirrored.
      outbound_spec policy maps name mirrored ports label ''service'' st))))))"

definition egress_rule_step ::
    "pydict \<Rightarrow> define_maps \<Rightarrow> string list \<times> render_context \<Rightarrow> string \<times> pyval
       \<Rightarrow> (string list \<times> render_context) res" where
  "egress_rule_step policy maps st entry =
     (case entry of (name, raw) \<Rightarrow>
      let label = ''egress.rules.'' @ name in
      bindE (as_dict raw label) (\<lambda>spec.
      bindE (as_bool (dget ''enabled'' spec) False) (\<lambda>enabled.
      if \<not> enabled then Inr st
      else
      bindE (normalize_ports spec label) (\<lambda>ports.
      bindE (normalize_source_ports spec label) (\<lambda>source_ports.
      if ports = [] \<and> source_ports = [] then Inr st
      else outbound_spec policy maps name spec ports label ''egress'' st)))))"

definition sec_inbound :: "pydict \<Rightarrow> define_maps \<Rightarrow> section_fun" where
  "sec_inbound policy maps ctx =
     bindE (as_dict (dget ''services'' policy) ''services'') (\<lambda>services.
     foldE (inbound_service_step policy maps) ([[], ''# Inbound and bidirectional service rules''], ctx)
       (sorted_items services))"

definition sec_outbound :: "pydict \<Rightarrow> define_maps \<Rightarrow> section_fun" where
  "sec_outbound policy maps ctx =
     bindE (as_dict (dget ''services'' policy) ''services'') (\<lambda>services.
     foldE (outbound_service_step policy maps) ([[], ''# Outbound service and egress rules''], ctx)
       (sorted_items services))"

definition sec_egress_rules :: "pydict \<Rightarrow> define_maps \<Rightarrow> filter_cfg \<Rightarrow> section_fun" where
  "sec_egress_rules policy maps cfg ctx =
     bindE (as_dict (dget ''rules'' (fc_egress cfg)) ''egress.rules'') (\<lambda>rules.
     foldE (egress_rule_step policy maps) ([], ctx) (sorted_items rules))"

text \<open>A profile boolean such as \<open>egress.allow_dns\<close>, unless a named egress rule replaces it.\<close>

definition builtin_enabled :: "pydict \<Rightarrow> pydict \<Rightarrow> string \<Rightarrow> string \<Rightarrow> bool res" where
  "builtin_enabled egress rules flag rule_name =
     bindE (as_bool (dget flag egress) False) (\<lambda>on.
     if on then bindE (egress_rule_enabled rules rule_name) (\<lambda>e. Inr (\<not> e)) else Inr False)"

definition builtin_pair ::
    "chains \<Rightarrow> string option \<Rightarrow> string option \<Rightarrow> string \<Rightarrow> string \<Rightarrow> (string \<times> string) list" where
  "builtin_pair ch any4 any6 matching comment =
     opt_rule (ch_output ch) any4 (\<lambda>r. ''ip daddr '' @ r @ '' '' @ matching @ '' counter accept''
        @ comment_expr comment)
     @ opt_rule (ch_output ch) any6 (\<lambda>r. ''ip6 daddr '' @ r @ '' '' @ matching @ '' counter accept''
        @ comment_expr comment)"

definition sec_egress_builtin :: "pydict \<Rightarrow> define_maps \<Rightarrow> filter_cfg \<Rightarrow> chains \<Rightarrow> string list res" where
  "sec_egress_builtin policy maps cfg ch =
     bindE (as_dict (dget ''rules'' (fc_egress cfg)) ''egress.rules'') (\<lambda>rules.
     bindE (egress_enforced policy) (\<lambda>enforced.
     if \<not> enforced then Inr []
     else
     (let any4 = define_ref (dm_cidr4 maps) ''any_ipv4''; any6 = define_ref (dm_cidr6 maps) ''any_ipv6''
      in
      bindE (builtin_enabled (fc_egress cfg) rules ''allow_dns'' ''dns'') (\<lambda>dns.
      bindE (add_rules policy (if \<not> dns then []
              else builtin_pair ch any4 any6 ''tcp dport 53'' ''egress builtin dns''
                   @ builtin_pair ch any4 any6 ''udp dport 53'' ''egress builtin dns'')) (\<lambda>r1.
      bindE (builtin_enabled (fc_egress cfg) rules ''allow_ntp'' ''ntp'') (\<lambda>ntp.
      bindE (add_rules policy (if \<not> ntp then []
              else builtin_pair ch any4 any6 ''udp dport 123'' ''egress builtin ntp'')) (\<lambda>r2.
      bindE (builtin_enabled (fc_egress cfg) rules ''allow_http_https'' ''http_https'') (\<lambda>http.
      bindE (add_rules policy (if \<not> http then []
              else builtin_pair ch any4 any6 ''tcp dport { 80, 443 }'' ''egress builtin http https''))
        (\<lambda>r3. Inr (r1 @ r2 @ r3))))))))))"

subsection \<open>Forwarding and containers\<close>

definition opt_match :: "string \<Rightarrow> string list \<Rightarrow> string list" where
  "opt_match pre refs = (case refs of [] \<Rightarrow> [] | r # _ \<Rightarrow> [pre @ r])"

definition set_match :: "string \<Rightarrow> string list \<Rightarrow> string list res" where
  "set_match pre direct =
     (if direct = [] then Inr [] else bindE (nft_set direct False) (\<lambda>s. Inr [pre @ s]))"

definition forward_rule_expr ::
    "string \<Rightarrow> string list \<Rightarrow> string list \<Rightarrow> string list \<Rightarrow> string list \<Rightarrow> string \<times> string
       \<Rightarrow> string res" where
  "forward_rule_expr rule_name src_refs src_direct dst_refs dst_direct ft =
     (case ft of (fi, ti) \<Rightarrow>
      bindE (set_match ''ip saddr '' src_direct) (\<lambda>sd.
      bindE (set_match ''ip daddr '' dst_direct) (\<lambda>dd.
      Inr (join '' '' (non_empty ([fi, ti] @ opt_match ''ip saddr '' src_refs @ sd
             @ opt_match ''ip daddr '' dst_refs @ dd
             @ [''counter accept'', strip (comment_expr (''forward '' @ rule_name))]))))))"

definition forward_rule_step ::
    "pydict \<Rightarrow> define_maps \<Rightarrow> chains \<Rightarrow> string list \<times> render_context \<Rightarrow> string \<times> pyval
       \<Rightarrow> (string list \<times> render_context) res" where
  "forward_rule_step policy maps ch st entry =
     (case st of (lines, ctx) \<Rightarrow> case entry of (rule_name, raw) \<Rightarrow>
      let label = ''forwarding.rules.'' @ rule_name in
      bindE (as_dict raw label) (\<lambda>rule.
      bindE (as_bool (dget ''enabled'' rule) False) (\<lambda>enabled.
      if \<not> enabled then Inr st
      else
      bindE (interface_match_exprs maps (if_block rule ''from_interfaces'' ''from_interface_groups'')
               ''in'' (label @ ''.from'')) (\<lambda>from_exprs.
      bindE (interface_match_exprs maps (if_block rule ''to_interfaces'' ''to_interface_groups'')
               ''out'' (label @ ''.to'')) (\<lambda>to_exprs.
      bindE (cidr_refs_of maps rule ''source_ipv4_groups'' V4 (label @ ''.source_ipv4_groups'')) (\<lambda>src.
      bindE (cidr_refs_of maps rule ''destination_ipv4_groups'' V4
               (label @ ''.destination_ipv4_groups'')) (\<lambda>dst.
      if length src > 1 \<or> length dst > 1
      then Inl (PolicyError (label
             @ '': multiple CIDR groups per side are unsupported; use one composed group''))
      else
      bindE (direct_cidrs_of rule ''source_ipv4'' V4 (label @ ''.source_ipv4'') ctx) (\<lambda>(dsrc, ctx1).
      bindE (direct_cidrs_of rule ''destination_ipv4'' V4 (label @ ''.destination_ipv4'') ctx1)
        (\<lambda>(ddst, ctx2).
      bindE (mapE (forward_rule_expr rule_name src dsrc dst ddst) (List.product from_exprs to_exprs))
        (\<lambda>es.
      bindE (add_rules policy (map (Pair (ch_forward ch)) es)) (\<lambda>rules.
      Inr (lines @ rules, ctx2))))))))))))"

definition forwarding_active :: "pydict \<Rightarrow> bool res" where
  "forwarding_active forwarding =
     bindE (as_bool (dget ''enabled'' forwarding) False) (\<lambda>enabled.
     if enabled then Inr True else as_bool (dget ''router_mode'' forwarding) False)"

definition sec_forwarding :: "pydict \<Rightarrow> define_maps \<Rightarrow> filter_cfg \<Rightarrow> chains \<Rightarrow> section_fun" where
  "sec_forwarding policy maps cfg ch ctx =
     bindE (forwarding_active (fc_forwarding cfg)) (\<lambda>active.
     let header = [[], ''# Forwarding and container rules''] in
     if \<not> active then Inr (header, ctx)
     else
     bindE (when_flag (fc_forwarding cfg) ''allow_established_related'' True (add_rules policy
       [(ch_forward ch, ''ct state established,related counter accept''
           @ comment_expr ''forward established related'')])) (\<lambda>est.
     bindE (as_dict (dget ''rules'' (fc_forwarding cfg)) ''forwarding.rules'') (\<lambda>rules.
     foldE (forward_rule_step policy maps ch) (header @ est, ctx) rules)))"

definition container_step ::
    "pydict \<Rightarrow> define_maps \<Rightarrow> chains \<Rightarrow> bool \<Rightarrow> string list
       \<Rightarrow> string list \<times> render_context \<Rightarrow> string \<times> pyval \<Rightarrow> (string list \<times> render_context) res" where
  "container_step policy maps ch active wan_exprs st entry =
     (case st of (lines, ctx) \<Rightarrow> case entry of (cname, raw) \<Rightarrow>
      let label = ''containers.'' @ cname in
      bindE (as_dict raw label) (\<lambda>cspec.
      bindE (as_bool (dget ''enabled'' cspec) False) (\<lambda>enabled.
      bindE (if enabled then as_bool (dget ''allow_container_outbound'' cspec) False else Inr False)
        (\<lambda>outbound.
      if \<not> outbound then Inr st
      else if \<not> active
      then Inr (lines, ctx_skip (label
             @ '': outbound forwarding requested but forwarding.enabled/router_mode is false'') ctx)
      else
      bindE (interface_match_exprs maps (if_block cspec ''interfaces'' ''interface_groups'') ''in'' label)
        (\<lambda>c_exprs.
      bindE (add_rules policy (map (\<lambda>(c, w). (ch_forward ch, c @ '' '' @ w @ '' counter accept''
                 @ comment_expr (''container outbound '' @ cname)))
               (filter (\<lambda>(c, w). c \<noteq> [] \<and> w \<noteq> []) (List.product c_exprs wan_exprs)))) (\<lambda>rules.
      Inr (lines @ rules, ctx)))))))"

definition wan_block :: "pydict \<Rightarrow> pydict res" where
  "wan_block policy =
     bindE (as_dict (dget ''interfaces'' policy) ''interfaces'') (\<lambda>ifs.
     let wan_direct = dget_or ''wan'' (PList []) ifs
     in Inr (if py_truthy wan_direct then [(''interfaces'', wan_direct)]
             else [(''interface_groups'', PList [PStr ''wan''])]))"

definition sec_containers :: "pydict \<Rightarrow> define_maps \<Rightarrow> filter_cfg \<Rightarrow> chains \<Rightarrow> section_fun" where
  "sec_containers policy maps cfg ch ctx =
     bindE (forwarding_active (fc_forwarding cfg)) (\<lambda>active.
     bindE (wan_block policy) (\<lambda>block.
     bindE (interface_match_exprs maps block ''out'' ''interfaces.wan'') (\<lambda>wan_exprs.
     foldE (container_step policy maps ch active wan_exprs) ([], ctx) (fc_containers cfg))))"

definition sec_tail :: "pydict \<Rightarrow> filter_cfg \<Rightarrow> string list res" where
  "sec_tail policy cfg =
     bindE (build_link_local_noise_drop_rules policy) (\<lambda>noise.
     bindE (build_drop_log_rules policy (fc_logging cfg)) (\<lambda>drops.
     Inr (noise @ drops @ [[]])))"

subsection \<open>The filter fragment\<close>

definition filter_sections :: "pydict \<Rightarrow> define_maps \<Rightarrow> filter_cfg \<Rightarrow> chains \<Rightarrow> section_fun list" where
  "filter_sections policy maps cfg ch =
     [lift_lines (sec_invalid policy cfg ch),
      lift_lines (sec_app_veth policy ch),
      build_allowlist_guards policy maps,
      lift_lines (sec_established policy cfg ch),
      lift_lines (sec_loopback policy maps cfg ch),
      lift_lines (sec_martian_loopback policy maps cfg ch),
      lift_lines (sec_dhcp policy cfg ch),
      sec_source_filter policy maps cfg,
      lift_lines (sec_unsafe policy maps cfg ch),
      lift_lines (sec_neighbor policy cfg ch),
      sec_anti_spoof policy maps cfg ch,
      lift_lines (sec_icmp policy cfg ch),
      build_desktop_ipv6_accounting_rules policy maps,
      lift_lines (sec_local_hooks policy cfg ch),
      sec_inbound policy maps,
      sec_outbound policy maps,
      sec_egress_rules policy maps cfg,
      lift_lines (sec_egress_builtin policy maps cfg ch),
      sec_forwarding policy maps cfg ch,
      sec_containers policy maps cfg ch,
      lift_lines (sec_tail policy cfg)]"

definition FILTER_HEADER :: "string list" where
  "FILTER_HEADER = [''# Managed by nft-policy-generate.py.'', ''# Filter rules'', []]"

definition filter_lines ::
    "pydict \<Rightarrow> define_maps \<Rightarrow> render_context \<Rightarrow> bool \<Rightarrow> (string list \<times> render_context) res" where
  "filter_lines policy maps ctx allow_public_sensitive =
     bindE (validate_services policy maps ctx allow_public_sensitive) (\<lambda>ctx1.
     bindE (filter_config policy) (\<lambda>cfg.
     bindE (chain_names policy) (\<lambda>ch.
     run_sections FILTER_HEADER ctx1 (filter_sections policy maps cfg ch))))"

definition render_filter ::
    "pydict \<Rightarrow> define_maps \<Rightarrow> render_context \<Rightarrow> bool \<Rightarrow> (string \<times> render_context) res" where
  "render_filter policy maps ctx allow_public_sensitive =
     bindE (filter_lines policy maps ctx allow_public_sensitive) (\<lambda>(lines, ctx').
       Inr (join [nl] lines, ctx'))"

end
