(* ===== verification/NftPolicy.thy ===== *)
theory NftPolicy
  imports NftRender
begin

text \<open>
  \<open>nft-policy-generate.py\<close>, part 6: \<open>render_nat\<close>, \<open>render_all\<close>, the validation of a merged
  policy, run-time CIDRs, and \<open>generate\<close>: the path of \<open>main\<close> from the arguments to the
  rendered files.
\<close>

subsection \<open>The NAT fragment\<close>

definition container_wants_nat :: "pydict \<Rightarrow> bool res" where
  "container_wants_nat containers =
     foldE (\<lambda>acc cspec.
        bindE (as_dict cspec ''containers.*'') (\<lambda>c.
        bindE (as_bool (dget ''enabled'' c) False) (\<lambda>enabled.
        bindE (if enabled then as_bool (dget ''allow_container_outbound'' c) False else Inr False)
          (\<lambda>outbound. Inr (acc \<or> outbound)))))
       False (map snd containers)"

definition nat_table_text :: "string \<Rightarrow> string \<Rightarrow> string list" where
  "nat_table_text family tbl =
     [''table '' @ family @ '' '' @ tbl @ '' {'',
      ''    chain prerouting {'',
      ''        type nat hook prerouting priority -100; policy accept;'',
      ''    }'', [],
      ''    chain postrouting {'',
      ''        type nat hook postrouting priority 100; policy accept;'',
      ''    }'', ''}'', []]"

definition masquerade_block :: "pydict \<Rightarrow> pydict" where
  "masquerade_block masq =
     (let grp = dget_or ''out_interface_group'' (PStr ''wan'') masq in
      [(''interfaces'', dget_or ''out_interfaces'' (PList []) masq),
       (''interface_groups'', PList (if py_truthy grp then [grp] else []))])"

definition masquerade_rules ::
    "string \<Rightarrow> string \<Rightarrow> string list \<Rightarrow> string list \<Rightarrow> string \<Rightarrow> string list res" where
  "masquerade_rules family tbl refs direct out_expr =
     (let pre = ''add rule '' @ family @ '' '' @ tbl @ '' postrouting '' @ out_expr @ '' ip saddr '';
          by_ref = map (\<lambda>r. pre @ r @ '' counter masquerade'' @ comment_expr ''masquerade'') refs
      in if direct = [] then Inr by_ref
         else bindE (nft_set direct False) (\<lambda>s.
                Inr (by_ref @ [pre @ s @ '' counter masquerade''
                       @ comment_expr ''masquerade direct''])))"

definition nat_masquerade :: "define_maps \<Rightarrow> pydict \<Rightarrow> string \<Rightarrow> string \<Rightarrow> string list res" where
  "nat_masquerade maps masq family tbl =
     bindE (interface_match_exprs maps (masquerade_block masq) ''out'' ''nat.masquerade.out'')
       (\<lambda>out_exprs.
     bindE (cidr_refs_of maps masq ''source_ipv4_groups'' V4 ''nat.masquerade.source_ipv4_groups'')
       (\<lambda>src4_refs.
     bindE (direct_cidrs_of masq ''source_ipv4'' V4 ''nat.masquerade.source_ipv4'' empty_context)
       (\<lambda>(src4_direct, _).
     if out_exprs = []
     then Inl (PolicyError ''nat.masquerade requires at least one out interface'')
     else bindE (mapE (masquerade_rules family tbl src4_refs src4_direct) out_exprs)
            (\<lambda>rss. Inr (concat rss)))))"

definition parse_target_ip :: "pyval \<Rightarrow> string res" where
  "parse_target_ip v =
     (case ip_address (py_str v) of None \<Rightarrow> Inl ValueErr | Some a \<Rightarrow> Inr (addr_str a))"

definition dnat_rule :: "string \<Rightarrow> string \<Rightarrow> string \<times> pyval \<Rightarrow> string list res" where
  "dnat_rule family tbl entry =
     (case entry of (name, raw_rule) \<Rightarrow>
      let label = ''nat.dnat_rules.'' @ name in
      bindE (as_dict raw_rule label) (\<lambda>rule.
      bindE (as_bool (dget ''enabled'' rule) False) (\<lambda>enabled.
      if \<not> enabled then Inr []
      else
      (let proto = lower (py_str (dget_or ''proto''
                     (dget_or ''protocol'' (PStr ''tcp'') rule) rule)) in
       if proto \<notin> set PROTO_SET
       then Inl (PolicyError (label @ ''.proto unsupported '' @ repr_str proto))
       else
       bindE (normalize_port (dget ''public_port'' rule) (label @ ''.public_port'')) (\<lambda>public_port.
       bindE (parse_target_ip (dget ''target_ip'' rule)) (\<lambda>target_ip.
       bindE (normalize_port (dget ''target_port'' rule) (label @ ''.target_port'')) (\<lambda>target_port.
       Inr [''add rule '' @ family @ '' '' @ tbl @ '' prerouting '' @ proto @ '' dport ''
              @ int_str public_port @ '' counter dnat to '' @ target_ip @ '':'' @ int_str target_port
              @ comment_expr (''dnat '' @ name)])))))))"

definition NAT_HEADER :: "string list" where
  "NAT_HEADER = [''# Managed by nft-policy-generate.py.'', ''# NAT rules'', []]"

definition nat_lines :: "pydict \<Rightarrow> define_maps \<Rightarrow> string list res" where
  "nat_lines policy maps =
     bindE (as_dict (dget ''nftables'' policy) ''nftables'') (\<lambda>nft.
     bindE (as_dict (dget ''nat'' policy) ''nat'') (\<lambda>nat.
     bindE (as_dict (dget ''containers'' policy) ''containers'') (\<lambda>containers.
     bindE (as_bool (dget ''enabled'' nat) False) (\<lambda>enabled.
     bindE (as_dict (dget ''masquerade'' nat) ''nat.masquerade'') (\<lambda>masq.
     bindE (if enabled then as_bool (dget ''enabled'' masq) False else Inr False) (\<lambda>masq_enabled.
     bindE (container_wants_nat containers) (\<lambda>wants.
     bindE (validate_nft_family (dget_or ''nat_family'' (PStr ''ip'') nft) ''nftables.nat_family''
              NFT_NAT_FAMILIES) (\<lambda>family.
     bindE (validate_nft_identifier (dget_or ''nat_table'' (PStr ''labwc_nat'') nft)
              ''nftables.nat_table'') (\<lambda>tbl.
     if \<not> (enabled \<or> masq_enabled)
     then Inr (NAT_HEADER
            @ [if wants
               then ''# Container outbound is enabled, but nat.enabled is false; ''
                      @ ''no masquerade rule generated.''
               else ''# NAT disabled by profile.'', []])
     else
     bindE (if masq_enabled then nat_masquerade maps masq family tbl else Inr []) (\<lambda>masq_rules.
     bindE (as_dict (dget ''dnat_rules'' nat) ''nat.dnat_rules'') (\<lambda>dnat_rules.
     bindE (mapE (dnat_rule family tbl) dnat_rules) (\<lambda>dnats.
     Inr (NAT_HEADER @ nat_table_text family tbl @ masq_rules @ concat dnats @ [[]])))))))))))))"

definition render_nat :: "pydict \<Rightarrow> define_maps \<Rightarrow> string res" where
  "render_nat policy maps = bindE (nat_lines policy maps) (\<lambda>ls. Inr (join [nl] ls))"

subsection \<open>All fragments\<close>

text \<open>The dictionary from output path to text: a repeated path keeps its first position.\<close>

definition render_all ::
    "pydict \<Rightarrow> out_paths \<Rightarrow> render_context \<Rightarrow> bool \<Rightarrow> ((string \<times> string) list \<times> render_context) res" where
  "render_all policy paths ctx allow_public_sensitive =
     bindE (build_define_maps policy ctx) (\<lambda>(maps, ctx1).
     bindE (out_path ''nftables_conf'' paths) (\<lambda>p1.
     bindE (render_nftables_conf policy paths) (\<lambda>t1.
     bindE (out_path ''defines'' paths) (\<lambda>p2.
     bindE (render_defines policy maps) (\<lambda>t2.
     bindE (out_path ''base'' paths) (\<lambda>p3.
     bindE (render_base policy) (\<lambda>t3.
     bindE (out_path ''filter'' paths) (\<lambda>p4.
     bindE (render_filter policy maps ctx1 allow_public_sensitive) (\<lambda>(t4, ctx2).
     bindE (out_path ''nat'' paths) (\<lambda>p5.
     bindE (render_nat policy maps) (\<lambda>t5.
     bindE (out_path ''local'' paths) (\<lambda>p6.
     bindE (render_local policy) (\<lambda>t6.
     Inr (dupdate [] [(p1, t1), (p2, t2), (p3, t3), (p4, t4), (p5, t5), (p6, t6)], ctx2))))))))))))))"

subsection \<open>Validation of the merged policy\<close>

fun validate_unresolved :: "pyval \<Rightarrow> string \<Rightarrow> unit res"
  and validate_items :: "pydict \<Rightarrow> string \<Rightarrow> unit res"
  and validate_elems :: "pyval list \<Rightarrow> string \<Rightarrow> int \<Rightarrow> unit res" where
  "validate_unresolved (PDict kvs) path = validate_items kvs path"
| "validate_unresolved (PList xs) path = validate_elems xs path 0"
| "validate_unresolved (PStr s) path =
     (if unresolved s
      then Inl (PolicyError (path @ '': unresolved placeholder '' @ repr_str s)) else Inr ())"
| "validate_unresolved _ path = Inr ()"
| "validate_items [] path = Inr ()"
| "validate_items ((k, v) # kvs) path =
     bindE (validate_unresolved v (path @ ''.'' @ k)) (\<lambda>_. validate_items kvs path)"
| "validate_elems [] path i = Inr ()"
| "validate_elems (v # vs) path i =
     bindE (validate_unresolved v (path @ ''['' @ int_str i @ '']''))
       (\<lambda>_. validate_elems vs path (i + 1))"

definition validate_policy :: "pydict \<Rightarrow> render_context \<Rightarrow> bool \<Rightarrow> render_context res" where
  "validate_policy policy ctx reject_unresolved =
     bindE (require_kind policy PROFILE_KIND ''<merged-policy>'') (\<lambda>_.
     bindE (if reject_unresolved then validate_unresolved (PDict policy) ''policy'' else Inr ()) (\<lambda>_.
     bindE (build_define_maps policy ctx) (\<lambda>(_, ctx'). Inr ctx')))"

subsection \<open>Run-time CIDRs\<close>

definition runtime_cidr_step ::
    "pydict \<times> render_context \<Rightarrow> string \<Rightarrow> (pydict \<times> render_context) res" where
  "runtime_cidr_step st item =
     (case st of (cidrs, ctx) \<Rightarrow>
      case partition_at CHR ''='' item of (raw_name, has_eq, raw_text) \<Rightarrow>
      let name = strip raw_name; raw_value = strip raw_text in
      if \<not> has_eq
      then Inl (PolicyError (''--add-cidr expects NAME=CIDR, got '' @ repr_str item))
      else if \<not> nft_ident_ok name
      then Inl (PolicyError (''--add-cidr has invalid CIDR group name '' @ repr_str name))
      else if raw_value = []
      then Inl (PolicyError (''--add-cidr '' @ name @ '': CIDR value is empty''))
      else
      bindE (parse_networks [PStr raw_value] (''runtime_cidrs.'' @ name) ctx) (\<lambda>(v4, v6, ctx').
      let normalized = v4 @ v6 in
      if length normalized \<noteq> 1
      then Inl (PolicyError (''--add-cidr '' @ name @ '': expected exactly one CIDR/IP value''))
      else
      bindE (as_list (dget name cidrs) (''cidrs.'' @ name)) (\<lambda>existing.
      Inr (dset name (PList (unique_preserve (existing @ map PStr normalized))) cidrs, ctx'))))"

definition apply_runtime_cidrs ::
    "pydict \<Rightarrow> string list \<Rightarrow> render_context \<Rightarrow> (pydict \<times> render_context) res" where
  "apply_runtime_cidrs policy runtime_cidrs ctx =
     (if runtime_cidrs = [] then Inr (policy, ctx)
      else
      bindE (setdefault_dict policy ''cidrs'') (\<lambda>(stored, cidrs).
      bindE (foldE runtime_cidr_step (cidrs, ctx) runtime_cidrs) (\<lambda>(cidrs', ctx').
      Inr (store_dict stored ''cidrs'' cidrs' policy, ctx'))))"

subsection \<open>From the arguments to the rendered files\<close>

record cli_args =
  arg_profile :: string
  arg_overlay :: "string list"
  arg_resolved_root :: string
  arg_write :: bool
  arg_print :: bool
  arg_check :: bool
  arg_reload :: bool
  arg_backup :: bool
  arg_backup_dir :: string
  arg_force_overlay :: bool
  arg_add_cidr :: "string list"
  arg_allow_public_sensitive :: bool
  arg_allow_placeholders :: bool
  arg_log_level :: string

definition check_mode_flags :: "cli_args \<Rightarrow> unit res" where
  "check_mode_flags args =
     (if arg_check args \<and> \<not> arg_write args
      then Inl (PolicyError ''--check requires --write'')
      else if arg_reload args \<and> (\<not> arg_check args \<or> \<not> arg_write args)
      then Inl (PolicyError ''--reload requires --write --check'')
      else if arg_reload args \<and> arg_resolved_root args \<noteq> ''/''
      then Inl (PolicyError ''--reload is only allowed with --target-root /'')
      else Inr ())"

record generated =
  gen_policy :: pydict
  gen_safety :: pydict
  gen_paths :: out_paths
  gen_rendered :: "(string \<times> string) list"
  gen_ctx :: render_context

definition generate :: "fs_read \<Rightarrow> yaml_load \<Rightarrow> cli_args \<Rightarrow> generated res" where
  "generate fs safe_load args =
     bindE (check_mode_flags args) (\<lambda>_.
     bindE (set_log_level (arg_log_level args)) (\<lambda>_.
     bindE (load_policy fs safe_load (arg_profile args) (arg_overlay args) (arg_force_overlay args)
              empty_context) (\<lambda>(policy0, ctx0).
     bindE (apply_runtime_cidrs policy0 (arg_add_cidr args) ctx0) (\<lambda>(policy, ctx1).
     bindE (as_dict (dget ''safety'' policy) ''safety'') (\<lambda>safety.
     bindE (as_bool (dget ''reject_unresolved_placeholders'' safety) True) (\<lambda>reject.
     bindE (validate_policy policy ctx1 (reject \<and> \<not> arg_allow_placeholders args)) (\<lambda>ctx2.
     bindE (output_paths policy (arg_resolved_root args)) (\<lambda>paths.
     bindE (render_all policy paths ctx2 (arg_allow_public_sensitive args)) (\<lambda>(rendered, ctx3).
     Inr \<lparr>gen_policy = policy, gen_safety = safety, gen_paths = paths, gen_rendered = rendered,
          gen_ctx = ctx3\<rparr>)))))))))"

end
