(* ===== verification/NftBaseFacts.thy ===== *)
theory NftBaseFacts
  imports NftBase "HOL-Library.Multiset"
begin

text \<open>
  Facts about the merge of overlays: the law of the recursive merge, key by key; what an overlay
  can change of a policy and what it cannot; that the order of the overlay options does not matter.
\<close>

subsection \<open>The recursive merge\<close>

text \<open>What \<open>deep_merge_items\<close> stores under one key.\<close>

definition merged_at :: "pyval option \<Rightarrow> pyval option \<Rightarrow> pyval option" where
  "merged_at old new =
     (case (old, new) of
        (_, None) \<Rightarrow> old
      | (None, Some v) \<Rightarrow> Some v
      | (Some u, Some v) \<Rightarrow> Some (deep_merge u v))"

lemma map_of_deep_merge_items:
  "distinct (map fst items) \<Longrightarrow>
     map_of (deep_merge_items result items) k = merged_at (map_of result k) (map_of items k)"
proof (induction items arbitrary: result)
  case Nil
  then show ?case by (simp add: merged_at_def split: option.split)
next
  case (Cons kv items)
  obtain key v where kv: "kv = (key, v)" by force
  have fresh: "map_of items key = None" and d: "distinct (map fst items)"
    using Cons.prems by (auto simp: kv map_of_eq_None_iff)
  show ?case
    using Cons.IH [OF d] fresh
    by (auto simp: kv merged_at_def split: option.split)
qed

lemma deep_merge_items_keys:
  "fst ` set (deep_merge_items result items) = fst ` set result \<union> fst ` set items"
proof (induction items arbitrary: result)
  case Nil
  then show ?case by simp
next
  case (Cons kv items)
  obtain key v where kv: "kv = (key, v)" by force
  have "fst ` set (dset key w result) = insert key (fst ` set result)" for w
    using dkeys_dset [of key w result] by (metis insert_absorb list.set_map list.simps(15) set_append
        Un_insert_right empty_set sup_bot_right)
  then show ?case using Cons by (simp add: kv insert_commute)
qed

lemma deep_merge_items_distinct:
  "distinct (map fst result) \<Longrightarrow> distinct (map fst (deep_merge_items result items))"
proof (induction items arbitrary: result)
  case Nil
  then show ?case by simp
next
  case (Cons kv items)
  obtain key v where kv: "kv = (key, v)" by force
  show ?case using Cons by (simp add: kv)
qed

lemma inj_on_py_repr_PStr: "inj_on py_repr (PStr ` A)"
  by (auto simp: inj_on_def repr_str_inj)

text \<open>
  A document in merge-normal form: no mapping has a key twice and no list has two entries of the
  same \<open>repr\<close>, which is what the merge itself produces.
\<close>

fun merge_normal :: "pyval \<Rightarrow> bool" where
  "merge_normal (PList xs) = distinct (map py_repr xs)"
| "merge_normal (PDict kvs) =
     (distinct (map fst kvs) \<and> list_all (\<lambda>kv. merge_normal (snd kv)) kvs)"
| "merge_normal v = True"

lemma merge_normal_at:
  "merge_normal (PDict kvs) \<Longrightarrow> map_of kvs k = Some v \<Longrightarrow> merge_normal v"
  by (force simp: list_all_set dest: map_of_SomeD)

lemma deep_merge_items_stable:
  assumes "\<And>k v. (k, v) \<in> set items \<Longrightarrow> \<exists>w. map_of d k = Some w \<and> deep_merge w v = w"
  shows "deep_merge_items d items = d"
  using assms
proof (induction items)
  case Nil
  then show ?case by simp
next
  case (Cons kv items)
  obtain k v where kv: "kv = (k, v)" by force
  from Cons.prems [of k v] obtain w where w: "map_of d k = Some w" "deep_merge w v = w"
    by (auto simp: kv)
  then have "dset k (deep_merge w v) d = d" by (simp add: dset_id)
  moreover have "deep_merge_items d items = d" using Cons by simp
  ultimately show ?case using w by (simp add: kv)
qed

lemma unique_by_append_same:
  "unique_by key (unique_by key (xs @ ys) @ ys) = unique_by key (xs @ ys)"
proof -
  have drop: "unique_from key seen (us @ vs) = unique_from key seen us"
    if "key ` set vs \<subseteq> set seen \<union> key ` set us" for seen :: "string list" and us vs :: "'a list"
    using that
  proof (induction us arbitrary: seen)
    case Nil
    then show ?case by (induction vs) auto
  next
    case (Cons u us)
    then show ?case by (auto intro!: Cons.IH)
  qed
  have "key ` set ys \<subseteq> set [] \<union> key ` set (unique_by key (xs @ ys))"
    by (auto simp: unique_by_keys)
  from drop [OF this] have "unique_by key (unique_by key (xs @ ys) @ ys)
      = unique_by key (unique_by key (xs @ ys))"
    by (simp add: unique_by_def)
  then show ?thesis by simp
qed

lemma deep_merge_self: "merge_normal v \<Longrightarrow> deep_merge v v = v"
proof (induction v)
  case (PList xs)
  then show ?case
    using unique_by_append_same [of py_repr "[]" xs]
    by (simp add: unique_preserve_def unique_by_id)
next
  case (PDict kvs)
  have "deep_merge_items kvs kvs = kvs"
  proof (rule deep_merge_items_stable)
    fix k v assume kv: "(k, v) \<in> set kvs"
    have "map_of kvs k = Some v" using PDict.prems kv by simp
    moreover have "merge_normal v" using PDict.prems kv by (force simp: list_all_set)
    ultimately show "\<exists>w. map_of kvs k = Some w \<and> deep_merge w v = w"
      using PDict.IH [of "(k, v)" v] kv by simp
  qed
  then show ?case by simp
qed simp_all

lemma deep_merge_again:
  "merge_normal v \<Longrightarrow> deep_merge (deep_merge u v) v = deep_merge u v"
proof (induction v arbitrary: u)
  case (PList xs)
  then show ?case
    using deep_merge_self [of "PList xs"]
    by (cases u) (simp_all add: unique_preserve_def unique_by_append_same)
next
  case (PDict kvs)
  show ?case
  proof (cases "\<exists>r. u = PDict r")
    case False
    then have "deep_merge u (PDict kvs) = PDict kvs" by (cases u) simp_all
    then show ?thesis using deep_merge_self [OF PDict.prems] by simp
  next
    case True
    then obtain r where u: "u = PDict r" by blast
    let ?d = "deep_merge_items r kvs"
    have "deep_merge_items ?d kvs = ?d"
    proof (rule deep_merge_items_stable)
      fix k v assume kv: "(k, v) \<in> set kvs"
      have d: "distinct (map fst kvs)" using PDict.prems by simp
      then have m: "map_of ?d k = merged_at (map_of r k) (Some v)"
        using kv by (simp add: map_of_deep_merge_items)
      have nv: "merge_normal v" using PDict.prems kv by (force simp: list_all_set)
      show "\<exists>w. map_of ?d k = Some w \<and> deep_merge w v = w"
      proof (cases "map_of r k")
        case None
        then show ?thesis using m deep_merge_self [OF nv] by (simp add: merged_at_def)
      next
        case (Some w)
        then show ?thesis using m PDict.IH [of "(k, v)" v w] kv nv by (simp add: merged_at_def)
      qed
    qed
    then show ?thesis by (simp add: u)
  qed
qed (case_tac u; simp)+

subsection \<open>What an overlay can change\<close>

lemma setdefault_dict_stored:
  "setdefault_dict policy key = Inr (True, d) \<Longrightarrow>
     map_of policy key = Some (PDict d) \<or> map_of policy key = None \<and> d = []"
  by (auto simp: setdefault_dict_def as_dict_def split: option.splits pyval.splits)

lemma merge_group_key_frame:
  "merge_group_key path overlay policy key = Inr p' \<Longrightarrow> k \<noteq> key \<Longrightarrow> map_of p' k = map_of policy k"
  by (auto simp: merge_group_key_def store_dict_def split: option.splits)

lemma merge_group_keys_frame:
  "foldE (merge_group_key path overlay) policy keys = Inr p' \<Longrightarrow> k \<notin> set keys \<Longrightarrow>
     map_of p' k = map_of policy k"
  by (induction keys arbitrary: policy) (auto dest: merge_group_key_frame)

lemma merge_services_frame:
  "merge_services path overlay policy = Inr p' \<Longrightarrow> k \<noteq> ''services'' \<Longrightarrow>
     map_of p' k = map_of policy k"
  by (auto simp: merge_services_def store_dict_def split: option.splits)

lemma map_of_merge_section:
  "k \<noteq> pkey \<Longrightarrow> map_of (merge_section okey pkey overlay policy) k = map_of policy k"
  by (simp add: merge_section_def split: option.split)

text \<open>The top-level keys an overlay may write.\<close>

definition OVERLAY_KEYS :: "string list" where
  "OVERLAY_KEYS = GROUP_KEYS @ [''services'', ''egress'', ''forwarding'', ''nat'', ''containers'',
     ''logging'', ''tailscale_netkit'']"

definition merge_sections :: "pydict \<Rightarrow> pydict \<Rightarrow> pydict" where
  "merge_sections overlay policy =
     foldl (\<lambda>p kk. merge_section (fst kk) (snd kk) overlay p) policy
       [(''egress'', ''egress''), (''egress_mode_override'', ''egress''), (''forwarding'', ''forwarding''),
        (''nat'', ''nat''), (''containers'', ''containers''), (''logging'', ''logging'')]"

lemma map_of_sections:
  "k \<notin> {''egress'', ''forwarding'', ''nat'', ''containers'', ''logging''} \<Longrightarrow>
     map_of (merge_sections overlay policy) k = map_of policy k"
  by (simp add: merge_sections_def map_of_merge_section)

lemma merge_overlayE:
  assumes "merge_overlay policy overlay path force ctx = Inr (p', ctx')"
  obtains p1 p2 where "check_applies policy overlay path force ctx = Inr ctx'"
    and "foldE (merge_group_key path overlay) policy GROUP_KEYS = Inr p1"
    and "merge_services path overlay p1 = Inr p2"
    and "p' = (case map_of overlay ''tailscale_netkit'' of
                 None \<Rightarrow> merge_sections overlay p2
               | Some t \<Rightarrow> dset ''tailscale_netkit'' t (merge_sections overlay p2))"
    and "map_of overlay ''tailscale_netkit'' = None \<or>
         \<not> dmem ''tailscale_netkit'' (merge_sections overlay p2)"
proof (cases "map_of overlay ''tailscale_netkit''")
  case None
  then show ?thesis using assms that
    by (simp add: merge_overlay_def merge_sections_def Let_def) blast
next
  case (Some t)
  then show ?thesis using assms that
    by (auto simp: merge_overlay_def merge_sections_def Let_def split: if_splits)
qed

lemma merge_overlay_frame:
  assumes "merge_overlay policy overlay path force ctx = Inr (p', ctx')" "k \<notin> set OVERLAY_KEYS"
  shows "map_of p' k = map_of policy k"
proof -
  from assms(1) obtain p1 p2 where p1: "foldE (merge_group_key path overlay) policy GROUP_KEYS = Inr p1"
    and p2: "merge_services path overlay p1 = Inr p2"
    and p': "map_of p' k = map_of (merge_sections overlay p2) k"
    using assms(2) by (auto simp: OVERLAY_KEYS_def elim!: merge_overlayE split: option.splits)
  have "map_of (merge_sections overlay p2) k = map_of p2 k"
    using assms(2) by (intro map_of_sections) (auto simp: OVERLAY_KEYS_def)
  moreover have "map_of p1 k = map_of policy k"
    using merge_group_keys_frame [OF p1, of k] assms(2) by (auto simp: OVERLAY_KEYS_def)
  moreover have "map_of p2 k = map_of p1 k"
    using merge_services_frame [OF p2, of k] assms(2) by (auto simp: OVERLAY_KEYS_def)
  ultimately show ?thesis using p' by simp
qed

text \<open>A value of a group is known by its \<open>repr\<close>, the key \<open>unique_preserve\<close> compares.\<close>

definition group_holds :: "pydict \<Rightarrow> string \<Rightarrow> string \<Rightarrow> bool" where
  "group_holds target grp r =
     (case map_of target grp of Some (PList xs) \<Rightarrow> r \<in> py_repr ` set xs | _ \<Rightarrow> False)"

definition policy_group_holds :: "pydict \<Rightarrow> string \<Rightarrow> string \<Rightarrow> string \<Rightarrow> bool" where
  "policy_group_holds policy key grp r =
     (case map_of policy key of Some (PDict t) \<Rightarrow> group_holds t grp r | _ \<Rightarrow> False)"

lemma merge_group_grows:
  "merge_group path key t gv = Inr t' \<Longrightarrow> group_holds t grp r \<Longrightarrow> group_holds t' grp r"
  by (auto simp: merge_group_def group_holds_def as_list_def dget_def unique_preserve_def
        unique_by_keys split: prod.splits option.splits pyval.splits if_splits)

lemma merge_groups_grow:
  assumes "foldE (merge_group path key) t gvs = Inr t'" "group_holds t grp r"
  shows "group_holds t' grp r"
proof -
  have "okE (\<lambda>t. group_holds t grp r) (foldE (merge_group path key) t gvs)"
    using assms(2) by (intro okE_foldE) (auto simp: okE_iff dest: merge_group_grows)
  then show ?thesis using assms(1) by simp
qed

lemma merge_group_key_grows:
  assumes "merge_group_key path overlay policy key = Inr p'" "policy_group_holds policy j grp r"
  shows "policy_group_holds p' j grp r"
proof (cases "j = key")
  case False
  then show ?thesis using assms merge_group_key_frame [of path overlay policy key p' j]
    by (simp add: policy_group_holds_def)
next
  case True
  then obtain t where t: "map_of policy key = Some (PDict t)" "group_holds t grp r"
    using assms(2) by (auto simp: policy_group_holds_def split: option.splits pyval.splits)
  then have "setdefault_dict policy key = Inr (True, t)"
    by (simp add: setdefault_dict_def as_dict_def)
  then consider "p' = policy"
    | gs t' where "foldE (merge_group path key) t gs = Inr t'" "p' = dset key (PDict t') policy"
    using assms(1) by (auto simp: merge_group_key_def store_dict_def split: option.splits)
  then show ?thesis
  proof cases
    case 1
    then show ?thesis using assms(2) by simp
  next
    case 2
    then show ?thesis using merge_groups_grow [OF 2(1) t(2)] True by (simp add: policy_group_holds_def)
  qed
qed

lemma merge_group_keys_grow:
  assumes "foldE (merge_group_key path overlay) policy keys = Inr p'" "policy_group_holds policy j grp r"
  shows "policy_group_holds p' j grp r"
proof -
  have "okE (\<lambda>p. policy_group_holds p j grp r) (foldE (merge_group_key path overlay) policy keys)"
    using assms(2) by (intro okE_foldE) (auto simp: okE_iff dest: merge_group_key_grows)
  then show ?thesis using assms(1) by simp
qed

lemma merge_overlay_groups:
  assumes "merge_overlay policy overlay path force ctx = Inr (p', ctx')"
  shows "\<exists>p1 p2. foldE (merge_group_key path overlay) policy GROUP_KEYS = Inr p1
    \<and> merge_services path overlay p1 = Inr p2
    \<and> (\<forall>k. k \<in> set GROUP_KEYS \<longrightarrow> map_of p' k = map_of p2 k)"
proof -
  have frame: "map_of (merge_sections overlay p) k = map_of p k \<and> k \<noteq> ''tailscale_netkit''"
    if "k \<in> set GROUP_KEYS" for p k
    using that by (subst map_of_sections) (auto simp: GROUP_KEYS_def)
  show ?thesis
    using assms by (rule merge_overlayE) (auto dest: frame split: option.split)
qed

lemma merge_overlay_grows:
  assumes "merge_overlay policy overlay path force ctx = Inr (p', ctx')"
    and "j \<in> set GROUP_KEYS" "policy_group_holds policy j grp r"
  shows "policy_group_holds p' j grp r"
proof -
  from assms(1) obtain p1 p2 where p1: "foldE (merge_group_key path overlay) policy GROUP_KEYS = Inr p1"
    and p2: "merge_services path overlay p1 = Inr p2"
    and p': "\<And>k. k \<in> set GROUP_KEYS \<Longrightarrow> map_of p' k = map_of p2 k"
    using merge_overlay_groups by blast
  have "policy_group_holds p1 j grp r" using merge_group_keys_grow [OF p1] assms(3) by simp
  moreover have "map_of p2 j = map_of p1 j"
    using merge_services_frame [OF p2, of j] assms(2) by (auto simp: GROUP_KEYS_def)
  ultimately show ?thesis using p' [OF assms(2)] by (simp add: policy_group_holds_def)
qed

subsection \<open>The overlays of one run\<close>

definition overlay_step :: "bool \<Rightarrow> pydict \<times> render_context \<Rightarrow> int \<times> string \<times> pydict
    \<Rightarrow> (pydict \<times> render_context) res" where
  "overlay_step force st item =
     merge_overlay (fst st) (snd (snd item)) (fst (snd item)) force (snd st)"

lemma load_policy_alt:
  "load_policy fs safe_load profile_path overlay_paths force ctx =
     bindE (load_yaml_file fs safe_load profile_path) (\<lambda>profile.
     bindE (require_kind profile PROFILE_KIND profile_path) (\<lambda>_.
     bindE (mapE (load_overlay fs safe_load) overlay_paths) (\<lambda>loaded.
     foldE (overlay_step force) (profile, ctx) (sort_key overlay_key loaded))))"
proof -
  have "(\<lambda>(policy, c) (prio, overlay_path, overlay). merge_overlay policy overlay overlay_path force c)
      = overlay_step force"
    by (auto simp: fun_eq_iff overlay_step_def)
  then show ?thesis by (simp add: load_policy_def)
qed

lemma overlay_steps_inv:
  assumes "foldE (overlay_step force) (p, c) items = Inr (p', c')" and "P p"
    and step: "\<And>p overlay path c p' c'. merge_overlay p overlay path force c = Inr (p', c')
                 \<Longrightarrow> P p \<Longrightarrow> P p'"
  shows "P p'"
proof -
  have "okE (\<lambda>st. P (fst st)) (foldE (overlay_step force) (p, c) items)"
    using assms(2) by (intro okE_foldE) (auto simp: okE_iff overlay_step_def dest: step)
  then show ?thesis using assms(1) by simp
qed

lemma load_overlay_path:
  "load_overlay fs safe_load path = Inr item \<Longrightarrow> fst (snd item) = path"
  by (auto simp: load_overlay_def)

lemma sort_key_perm:
  assumes "mset xs = mset ys" "inj_on f (set xs)"
  shows "sort_key f xs = sort_key f ys"
proof (rule properties_for_sort_key)
  show "mset (sort_key f ys) = mset xs" using assms(1) by simp
  show "sorted (map f (sort_key f ys))" by simp
  fix k assume "k \<in> set (sort_key f ys)"
  have eq: "set xs = set ys" using assms(1) by (rule mset_eq_setD)
  have one: "filter (\<lambda>x. f k = f x) zs = replicate (count (mset zs) k) k"
    if "set zs \<subseteq> set xs" "k \<in> set xs" for zs
    using that assms(2) by (induction zs) (auto dest: inj_onD)
  have "k \<in> set xs" using \<open>k \<in> _\<close> eq by simp
  then show "filter (\<lambda>x. f k = f x) (sort_key f ys) = filter (\<lambda>x. f k = f x) xs"
    using one [of "sort_key f ys"] one [of xs] assms(1) eq by simp
qed

lemma mapE_perm:
  assumes "mapE f xs = Inr us" "mset ys = mset xs"
  shows "\<exists>vs. mapE f ys = Inr vs \<and> mset vs = mset us"
proof -
  define g where "g = (\<lambda>x. case f x of Inr y \<Rightarrow> y | Inl _ \<Rightarrow> undefined)"
  have ok: "f x = Inr (g x)" if "x \<in> set xs" for x
    using mapE_in_set2 [OF assms(1) that] by (auto simp: g_def)
  have us: "us = map g xs" using mapE_Inr_map [of xs f g] ok assms(1) by simp
  have "set ys = set xs" using assms(2) by (rule mset_eq_setD)
  then have "mapE f ys = Inr (map g ys)" using ok by (intro mapE_Inr_map) simp
  moreover have "mset (map g ys) = mset us" using us assms(2) by (simp add: mset_map)
  ultimately show ?thesis by blast
qed

lemma load_policy_perm:
  assumes "mset paths' = mset paths" "distinct paths"
    and "\<forall>p \<in> set paths. \<exists>item. load_overlay fs safe_load p = Inr item"
  shows "load_policy fs safe_load profile paths' force ctx = load_policy fs safe_load profile paths force ctx"
proof -
  have "\<exists>us. mapE (load_overlay fs safe_load) paths = Inr us"
    using assms(3) by (induction paths) auto
  then obtain us where us: "mapE (load_overlay fs safe_load) paths = Inr us" ..
  from mapE_perm [OF us assms(1)] obtain vs where
    vs: "mapE (load_overlay fs safe_load) paths' = Inr vs" "mset vs = mset us" by blast
  have "map (fst \<circ> snd) us = paths"
    using us by (induction paths arbitrary: us) (auto dest: load_overlay_path)
  then have "distinct (map (fst \<circ> snd) us)" using assms(2) by simp
  then have "inj_on (fst \<circ> snd) (set us)" by (simp add: distinct_map)
  then have "inj_on overlay_key (set us)" by (auto simp: inj_on_def overlay_key_def)
  then have "inj_on overlay_key (set vs)" using mset_eq_setD [OF vs(2)] by simp
  then have "sort_key overlay_key vs = sort_key overlay_key us" by (rule sort_key_perm [OF vs(2)])
  then show ?thesis by (simp add: load_policy_alt us vs)
qed

end
