(* ===== verification/NetCover.thy ===== *)
theory NetCover
  imports PyIp
begin

text \<open>
  What \<open>collapse_addresses\<close> computes, in terms of the addresses its networks hold: the merge loop
  loses no address, and it ends in a list where no block is present as its two halves, so a list
  that covers a whole address space collapses to a network of prefix length 0. For networks without
  scope identifiers the converse holds as well.
\<close>

subsection \<open>Well-formed networks and their addresses\<close>

definition net_wf :: "ip_net \<Rightarrow> bool" where
  "net_wf n = (net_len n \<le> ip_bits (net_ver n) \<and> 0 \<le> net_int n
     \<and> net_last n < 2 ^ ip_bits (net_ver n)
     \<and> net_int n mod block_size (net_ver n) (net_len n) = 0)"

definition net_addrs :: "ip_net \<Rightarrow> int set" where
  "net_addrs n = {net_int n .. net_last n}"

definition nets_addrs :: "ip_net list \<Rightarrow> int set" where
  "nets_addrs ns = (\<Union>n \<in> set ns. net_addrs n)"

definition ip_space :: "ip_version \<Rightarrow> int set" where
  "ip_space v = {0 ..< 2 ^ ip_bits v}"

definition nets_ok :: "ip_version \<Rightarrow> ip_net list \<Rightarrow> bool" where
  "nets_ok v ns = list_all (\<lambda>n. net_wf n \<and> net_ver n = v) ns"

definition scope_free :: "ip_net list \<Rightarrow> bool" where
  "scope_free ns = list_all (\<lambda>n. net_scope n = None) ns"

lemma nets_addrs_simps [simp]:
  "nets_addrs [] = {}"
  "nets_addrs (n # ns) = net_addrs n \<union> nets_addrs ns"
  "nets_addrs (ms @ ns) = nets_addrs ms \<union> nets_addrs ns"
  by (auto simp: nets_addrs_def)

lemma nets_ok_simps [simp]:
  "nets_ok v []"
  "nets_ok v (n # ns) = (net_wf n \<and> net_ver n = v \<and> nets_ok v ns)"
  "nets_ok v (ms @ ns) = (nets_ok v ms \<and> nets_ok v ns)"
  by (auto simp: nets_ok_def)

lemma scope_free_simps [simp]:
  "scope_free []"
  "scope_free (n # ns) = (net_scope n = None \<and> scope_free ns)"
  "scope_free (ms @ ns) = (scope_free ms \<and> scope_free ns)"
  by (auto simp: scope_free_def)

lemma nets_addrs_set: "set ms = set ns \<Longrightarrow> nets_addrs ms = nets_addrs ns"
  by (simp add: nets_addrs_def)

lemma nets_ok_set: "set ms \<subseteq> set ns \<Longrightarrow> nets_ok v ns \<Longrightarrow> nets_ok v ms"
  by (auto simp: nets_ok_def list_all_set)

lemma block_size_pos [simp]: "0 < block_size v l"
  by (simp add: block_size_def)

lemma block_size_nonneg [simp]: "0 \<le> block_size v l" "block_size v l \<noteq> 0"
  by (simp_all add: block_size_def)

lemma block_size_Suc:
  "0 < l \<Longrightarrow> l \<le> ip_bits v \<Longrightarrow> block_size v (l - 1) = 2 * block_size v l"
proof -
  assume "0 < l" "l \<le> ip_bits v"
  then have "ip_bits v - (l - 1) = Suc (ip_bits v - l)" by simp
  then show ?thesis by (simp only: block_size_def power_Suc)
qed

lemma block_size_0: "block_size v 0 = 2 ^ ip_bits v"
  by (simp add: block_size_def)

subsection \<open>Supernets\<close>

text \<open>The half of its supernet a network is: its integer, rounded to the double block.\<close>

lemma mod_double:
  fixes x b :: int
  assumes "0 < b" "x mod b = 0"
  shows "x mod (2 * b) = 0 \<or> x mod (2 * b) = b"
proof -
  from assms(2) obtain k where k: "x = b * k" by (auto simp: mod_eq_0_iff_dvd elim: dvdE)
  have "x mod (2 * b) = b * (k mod 2)"
    unfolding k mult.commute [of 2 b] by (rule mult_mod_right [symmetric])
  moreover have "k mod 2 = 0 \<or> k mod 2 = 1" by presburger
  ultimately show ?thesis by auto
qed

lemma supernet_facts:
  assumes "net_wf n" "0 < net_len n"
  defines "b \<equiv> block_size (net_ver n) (net_len n)"
  shows "net_wf (supernet n)"
    and "net_ver (supernet n) = net_ver n" "net_scope (supernet n) = None"
    and "net_len (supernet n) = net_len n - 1"
    and "net_int n = net_int (supernet n) \<or> net_int n = net_int (supernet n) + b"
    and "net_last (supernet n) = net_int (supernet n) + 2 * b - 1"
proof -
  have le: "net_len n \<le> ip_bits (net_ver n)" using assms(1) by (simp add: net_wf_def)
  have b2: "block_size (net_ver n) (net_len n - 1) = 2 * b"
    unfolding b_def by (rule block_size_Suc [OF assms(2) le])
  have b: "0 < b" by (simp add: b_def)
  have al: "net_int n mod b = 0" using assms(1) by (simp add: net_wf_def b_def)
  show ver: "net_ver (supernet n) = net_ver n" and "net_scope (supernet n) = None"
    and len: "net_len (supernet n) = net_len n - 1"
    using assms(2) by (simp_all add: supernet_def Let_def)
  have int: "net_int (supernet n) = net_int n - net_int n mod (2 * b)"
    using assms(2) b2 by (simp add: supernet_def Let_def)
  then show "net_int n = net_int (supernet n) \<or> net_int n = net_int (supernet n) + b"
    using mod_double [OF b al] by auto
  show l: "net_last (supernet n) = net_int (supernet n) + 2 * b - 1"
    using b2 by (simp add: net_last_def ver len)
  have al2: "net_int (supernet n) mod (2 * b) = 0" by (simp add: int)
  have le2: "net_int (supernet n) \<le> net_int n" using b by (simp add: int)
  have dvd: "2 * b dvd 2 ^ ip_bits (net_ver n)"
    unfolding b2 [symmetric] block_size_def by (rule le_imp_power_dvd) simp
  have "net_int (supernet n) < 2 ^ ip_bits (net_ver n)"
  proof -
    have "net_int n + b - 1 < 2 ^ ip_bits (net_ver n)"
      using assms(1) by (simp add: net_wf_def net_last_def b_def)
    then show ?thesis using le2 b by linarith
  qed
  then have "net_int (supernet n) + 2 * b \<le> 2 ^ ip_bits (net_ver n)"
  proof -
    obtain k where k: "net_int (supernet n) = 2 * b * k" using al2 by (auto simp: mod_eq_0_iff_dvd elim: dvdE)
    obtain m where m: "2 ^ ip_bits (net_ver n) = 2 * b * m" using dvd by (rule dvdE)
    have "k < m" using \<open>net_int (supernet n) < _\<close> b unfolding k m by simp
    then have "2 * b * (k + 1) \<le> 2 * b * m" using b by simp
    then show ?thesis by (simp only: k m) (simp add: algebra_simps)
  qed
  moreover have "0 \<le> net_int (supernet n)"
    using assms(1) b zmod_le_nonneg_dividend [of "net_int n" "2 * b"] by (simp add: int net_wf_def)
  ultimately show "net_wf (supernet n)"
    using le b2 al2 by (simp add: net_wf_def ver len l)
qed

lemma supernet_0: "net_len n = 0 \<Longrightarrow> supernet n = n"
  by (simp add: supernet_def)

lemma supernet_wf: "net_wf n \<Longrightarrow> net_wf (supernet n) \<and> net_ver (supernet n) = net_ver n"
  using supernet_facts(1,2) [of n] by (cases "net_len n") (auto simp: supernet_0)

lemma supernet_scope: "net_scope n = None \<Longrightarrow> net_scope (supernet n) = None"
  by (simp add: supernet_def Let_def)

lemma net_last_eq: "net_last n = net_int n + block_size (net_ver n) (net_len n) - 1"
  by (simp add: net_last_def)

lemma supernet_addrs: "net_wf n \<Longrightarrow> net_addrs n \<subseteq> net_addrs (supernet n)"
proof (cases "net_len n")
  case 0
  then show ?thesis by (simp add: supernet_0)
next
  case (Suc l)
  assume "net_wf n"
  define b where "b = block_size (net_ver n) (net_len n)"
  have "0 < b" by (simp add: b_def)
  moreover have "net_last n = net_int n + b - 1" by (simp add: net_last_def b_def)
  ultimately show ?thesis
    using supernet_facts(5,6) [OF \<open>net_wf n\<close>, folded b_def] Suc by (auto simp: net_addrs_def)
qed

text \<open>Two different networks with one supernet: their blocks are in it, and fill it.\<close>

lemma siblings_fill:
  assumes "net_wf n" "net_wf m" "net_ver n = net_ver m" "supernet n = supernet m" "n \<noteq> m"
    and "net_scope n = None" "net_scope m = None"
  shows "net_addrs (supernet n) = net_addrs n \<union> net_addrs m"
proof -
  have one: "net_addrs (supernet x) = net_addrs x \<union> net_addrs y"
    if "net_len x = 0" "net_wf y" "supernet x = supernet y" for x y
    using supernet_addrs [OF that(2)] that by (auto simp: supernet_0)
  consider "net_len n = 0" | "net_len m = 0" | "0 < net_len n" "0 < net_len m" by auto
  then show ?thesis
  proof cases
    case 1
    then show ?thesis using one assms by metis
  next
    case 2
    then show ?thesis using one [OF 2 assms(1)] assms by auto
  next
    case 3
    define b where "b = block_size (net_ver n) (net_len n)"
    have b: "0 < b" by (simp add: b_def)
    note N = supernet_facts [OF assms(1) 3(1), folded b_def] and M = supernet_facts [OF assms(2) 3(2)]
    have len: "net_len n = net_len m" using N(4) M(4) 3 assms(4) by simp
    then have "net_int n \<noteq> net_int m" using assms by (metis ip_net.expand)
    moreover have "net_int m = net_int (supernet n) \<or> net_int m = net_int (supernet n) + b"
      using M(5) assms(3,4) len by (simp add: b_def)
    moreover have "net_last m = net_int m + b - 1" "net_last n = net_int n + b - 1"
      using len assms(3) by (simp_all add: net_last_def b_def)
    ultimately show ?thesis
      using N(5,6) b by (auto simp: net_addrs_def)
  qed
qed

subsection \<open>The merge loop\<close>

definition subnets_ok :: "ip_version \<Rightarrow> (ip_net \<times> ip_net) list \<Rightarrow> bool" where
  "subnets_ok v d = (distinct (map fst d) \<and> list_all (\<lambda>kn. fst kn = supernet (snd kn)) d
     \<and> nets_ok v (map snd d))"

lemma dset_fresh: "map_of d k = None \<Longrightarrow> dset k v d = d @ [(k, v)]"
  by (induction d) (auto split: if_splits)

lemma ddel_split:
  assumes "map_of d k = Some e" "distinct (map fst d)"
  shows "set d = insert (k, e) (set (ddel k d))"
  using assms by (auto simp: ddel_def dest: map_of_SomeD) (metis eq_key_imp_eq_value map_of_SomeD)

lemma subnets_ok_ddel: "subnets_ok v d \<Longrightarrow> subnets_ok v (ddel k d)"
  by (auto simp: subnets_ok_def ddel_def nets_ok_def list_all_set distinct_map_filter)

lemma merge_loop_ok:
  assumes "nets_ok v todo" "subnets_ok v d"
  defines "before \<equiv> nets_addrs todo \<union> nets_addrs (map snd d)"
  shows "subnets_ok v (merge_loop todo d)"
    and "before \<subseteq> nets_addrs (map snd (merge_loop todo d))"
    and "scope_free todo \<Longrightarrow> scope_free (map snd d) \<Longrightarrow>
           nets_addrs (map snd (merge_loop todo d)) = before"
proof -
  let ?goal = "\<lambda>todo d. subnets_ok v (merge_loop todo d)
    \<and> nets_addrs todo \<union> nets_addrs (map snd d) \<subseteq> nets_addrs (map snd (merge_loop todo d))
    \<and> (scope_free todo \<and> scope_free (map snd d) \<longrightarrow>
         nets_addrs (map snd (merge_loop todo d)) = nets_addrs todo \<union> nets_addrs (map snd d))"
  have "?goal todo d"
    using assms(1,2)
  proof (induction todo d rule: merge_loop.induct)
    case (1 d)
    then show ?case by simp
  next
    case (2 net todo d)
    have net: "net_wf net" "net_ver net = v" "nets_ok v todo" using "2.prems" by auto
    show ?case
    proof (cases "map_of d (supernet net)")
      case None
      let ?d = "dset (supernet net) net d"
      have d: "?d = d @ [(supernet net, net)]" using None by (rule dset_fresh)
      have ok: "subnets_ok v ?d"
        using "2.prems"(2) net None unfolding d
        by (auto simp: subnets_ok_def map_of_eq_None_iff)
      have step: "merge_loop (net # todo) d = merge_loop todo ?d"
        using None by (simp add: merge_loop.simps(2))
      show ?thesis using "2.IH"(1) [OF None net(3) ok] unfolding step by (auto simp: d)
    next
      case (Some e)
      have e: "(supernet net, e) \<in> set d" using Some by (rule map_of_SomeD)
      have ew: "net_wf e" "net_ver e = v" "supernet e = supernet net"
        using "2.prems"(2) e by (force simp: subnets_ok_def nets_ok_def list_all_set)+
      have split: "nets_addrs (map snd d) = net_addrs e \<union> nets_addrs (map snd (ddel (supernet net) d))"
        using ddel_split [OF Some] "2.prems"(2) by (auto simp: subnets_ok_def nets_addrs_def)
      have sf: "scope_free (map snd d) \<longrightarrow> net_scope e = None
          \<and> scope_free (map snd (ddel (supernet net) d))"
        using e by (force simp: scope_free_def list_all_set ddel_def)
      show ?thesis
      proof (cases "e = net")
        case True
        have step: "merge_loop (net # todo) d = merge_loop todo d"
          using Some True by (simp add: merge_loop.simps(2))
        show ?thesis using "2.IH"(3) [OF Some _ net(3) "2.prems"(2)] True split
          unfolding step by auto
      next
        case False
        have step: "merge_loop (net # todo) d = merge_loop (supernet net # todo) (ddel (supernet net) d)"
          using Some False by (simp add: merge_loop.simps(2))
        have sup: "net_wf (supernet net)" "net_ver (supernet net) = v"
          using supernet_wf [OF net(1)] net(2) by auto
        have sub: "net_addrs net \<union> net_addrs e \<subseteq> net_addrs (supernet net)"
          using supernet_addrs [OF net(1)] supernet_addrs [OF ew(1)] ew(3) by auto
        have fill: "net_scope net = None \<Longrightarrow> net_scope e = None \<Longrightarrow>
            net_addrs (supernet net) = net_addrs net \<union> net_addrs e"
          using siblings_fill [of net e] net ew False by auto
        have "?goal (supernet net # todo) (ddel (supernet net) d)"
          using "2.IH"(2) [OF Some False] sup net(3) "2.prems"(2) subnets_ok_ddel by simp
        then show ?thesis
          unfolding step split using sub sf fill supernet_scope [of net] by auto
      qed
    qed
  qed
  then show "subnets_ok v (merge_loop todo d)"
    and "before \<subseteq> nets_addrs (map snd (merge_loop todo d))"
    and "scope_free todo \<Longrightarrow> scope_free (map snd d) \<Longrightarrow>
           nets_addrs (map snd (merge_loop todo d)) = before"
    by (simp_all add: before_def)
qed

subsection \<open>A list without siblings that covers the space holds the whole space\<close>

lemma aligned_block_cover:
  fixes a c :: int
  assumes "0 < b" "b dvd B" "a mod b = 0" "c mod B = 0" "0 < B" "x \<in> {a ..< a + b}" "x \<in> {c ..< c + B}"
  shows "c \<le> a \<and> a + b \<le> c + B"
proof -
  obtain m where B: "B = b * m" using assms(2) by (rule dvdE)
  obtain i where a: "a = b * i" using assms(3) by (auto simp: mod_eq_0_iff_dvd elim: dvdE)
  obtain j where "c = B * j" using assms(4) by (auto simp: mod_eq_0_iff_dvd elim: dvdE)
  then have c: "c = b * (m * j)" by (simp add: B)
  have "b * i < b * (m * j + m)" "b * (m * j) < b * (i + 1)"
    using assms(6,7) unfolding a c B by (auto simp: algebra_simps)
  then have "i < m * j + m" "m * j < i + 1" using assms(1) by auto
  then have "b * (m * j) \<le> b * i" "b * (i + 1) \<le> b * (m * j + m)" using assms(1) by auto
  then show ?thesis unfolding a c B by (simp add: algebra_simps)
qed

text \<open>
  An aligned block of prefix length \<open>l\<close> that is covered lies inside one network, when no two
  networks of the list have the same supernet.
\<close>

lemma covered_block_in_one:
  assumes ok: "nets_ok v ns" and inj: "inj_on supernet (set ns)"
  shows "l \<le> ip_bits v \<Longrightarrow> 0 \<le> c \<Longrightarrow> c mod block_size v l = 0 \<Longrightarrow>
    {c ..< c + block_size v l} \<subseteq> nets_addrs ns \<Longrightarrow>
    \<exists>n \<in> set ns. net_len n \<le> l \<and> {c ..< c + block_size v l} \<subseteq> net_addrs n"
proof (induction "ip_bits v - l" arbitrary: l c)
  case 0
  then have "block_size v l = 1" by (simp add: block_size_def)
  then have "c \<in> nets_addrs ns" using "0.prems" by auto
  then obtain n where "n \<in> set ns" "c \<in> net_addrs n" by (auto simp: nets_addrs_def)
  moreover have "net_len n \<le> l"
    using ok \<open>n \<in> set ns\<close> 0 by (auto simp: nets_ok_def list_all_set net_wf_def)
  ultimately show ?case using \<open>block_size v l = 1\<close> by (intro bexI [of _ n]) auto
next
  case (Suc d)
  let ?b = "block_size v (Suc l)"
  have "block_size v l = 2 * ?b"
    using Suc.hyps(2) block_size_Suc [of "Suc l" v] by simp
  then have bl: "block_size v l = 2 * ?b" .
  have al: "c mod ?b = 0"
    using Suc.prems(3) unfolding bl by (auto simp: mod_eq_0_iff_dvd)
  have d: "d = ip_bits v - Suc l" and le: "Suc l \<le> ip_bits v" using Suc.hyps(2) by auto
  have sub: "{c ..< c + ?b} \<subseteq> nets_addrs ns" "{c + ?b ..< c + ?b + ?b} \<subseteq> nets_addrs ns"
    using Suc.prems(4) block_size_pos [of v "Suc l"] unfolding bl by auto
  have al2: "(c + ?b) mod ?b = 0" using al by simp
  from Suc.hyps(1) [OF d le Suc.prems(2) al sub(1)] obtain n where
    n: "n \<in> set ns" "net_len n \<le> Suc l" "{c ..< c + ?b} \<subseteq> net_addrs n" by blast
  have "0 \<le> c + ?b" using Suc.prems(2) block_size_pos [of v "Suc l"] by linarith
  from Suc.hyps(1) [OF d le this al2 sub(2)] obtain m where
    m: "m \<in> set ns" "net_len m \<le> Suc l" "{c + ?b ..< c + ?b + ?b} \<subseteq> net_addrs m" by blast
  have wf: "net_wf x \<and> net_ver x = v" if "x \<in> set ns" for x
    using ok that by (simp add: nets_ok_def list_all_set)
  have inside: "{c ..< c + block_size v l} \<subseteq> net_addrs x"
    if x: "x \<in> set ns" "net_len x \<le> l" and y: "y \<in> {c ..< c + block_size v l}" "y \<in> net_addrs x"
    for x y
  proof -
    have w: "net_wf x" "net_ver x = v" using wf [OF x(1)] by auto
    have "block_size v l dvd block_size v (net_len x)"
      unfolding block_size_def by (rule le_imp_power_dvd) (use x in simp)
    from aligned_block_cover [OF block_size_pos this Suc.prems(3) _ block_size_pos y(1), of "net_int x"]
    show ?thesis using y(2) w by (auto simp: net_addrs_def net_last_def net_wf_def)
  qed
  show ?case
  proof (cases "net_len n \<le> l \<or> net_len m \<le> l")
    case True
    have "c \<in> {c ..< c + block_size v l}" "c + ?b \<in> {c ..< c + block_size v l}"
      unfolding bl using block_size_pos [of v "Suc l"] by auto
    moreover have "c \<in> net_addrs n" "c + ?b \<in> net_addrs m"
      using n(3) m(3) block_size_pos [of v "Suc l"] by auto
    ultimately show ?thesis using True inside n(1) m(1) by blast
  next
    case False
    then have len: "net_len n = Suc l" "net_len m = Suc l" using n(2) m(2) by auto
    have at: "net_int x = y"
      if "x \<in> set ns" "net_len x = Suc l" "{y ..< y + ?b} \<subseteq> net_addrs x" for x y
    proof -
      have "y \<in> net_addrs x" "y + ?b - 1 \<in> net_addrs x"
        using that(3) block_size_pos [of v "Suc l"] by (auto intro!: subsetD [OF that(3)])
      then show ?thesis using that(2) wf [OF that(1)] by (simp add: net_addrs_def net_last_def)
    qed
    have i: "net_int n = c" "net_int m = c + ?b" using at n m len by auto
    have sup: "supernet x = IpNet v c l None"
      if "x \<in> set ns" "net_len x = Suc l" "net_int x = c \<or> net_int x = c + ?b" for x
    proof -
      have "(c + ?b) mod (2 * ?b) = ?b"
        using Suc.prems(3) block_size_pos [of v "Suc l"] unfolding bl
        by (metis add_0 mod_add_left_eq mod_pos_pos_trivial mult_2 order_less_imp_le less_add_same_cancel1)
      then show ?thesis
        using that wf [OF that(1)] Suc.prems(3) bl by (auto simp: supernet_def Let_def)
    qed
    have "supernet n = supernet m" using sup [of n] sup [of m] n m len i by simp
    then have "n = m" using inj n(1) m(1) by (simp add: inj_on_def)
    then show ?thesis using i block_size_pos [of v "Suc l"] by simp
  qed
qed

lemma covers_space_has_0:
  assumes "nets_ok v ns" "inj_on supernet (set ns)" "ip_space v \<subseteq> nets_addrs ns"
  shows "\<exists>n \<in> set ns. net_len n = 0"
  using covered_block_in_one [OF assms(1,2), of 0 0] assms(3)
  by (auto simp: block_size_0 ip_space_def)

subsection \<open>The last step: dropping networks inside their predecessor\<close>

lemma skip_subsumed_subset: "set (skip_subsumed p ns) \<subseteq> set ns"
  by (induction p ns rule: skip_subsumed.induct) auto

lemma skip_subsumed_addrs:
  assumes "sorted (map net_order ns)" and "\<And>p n. prev = Some p \<Longrightarrow> n \<in> set ns \<Longrightarrow> net_int p \<le> net_int n"
  shows "nets_addrs (skip_subsumed prev ns) \<union> (case prev of None \<Rightarrow> {} | Some p \<Rightarrow> net_addrs p)
    = nets_addrs ns \<union> (case prev of None \<Rightarrow> {} | Some p \<Rightarrow> net_addrs p)"
  using assms
proof (induction prev ns rule: skip_subsumed.induct)
  case (1 prev)
  then show ?case by simp
next
  case (2 prev net nets)
  have mono: "net_int net \<le> net_int n" if "n \<in> set nets" for n
    using "2.prems"(1) that by (auto simp: net_order_def less_eq_prod_def)
  show ?case
  proof (cases "case prev of None \<Rightarrow> False | Some p \<Rightarrow> net_last p \<ge> net_last net")
    case True
    then obtain p where p: "prev = Some p" "net_last net \<le> net_last p" by (cases prev) auto
    have "net_addrs net \<subseteq> net_addrs p"
      using p "2.prems"(2) [OF p(1), of net] by (auto simp: net_addrs_def)
    then show ?thesis using "2.IH"(1) [OF True] "2.prems" p by auto
  next
    case False
    have p: "Some net = Some q \<Longrightarrow> n \<in> set nets \<Longrightarrow> net_int q \<le> net_int n" for q n
      using mono by simp
    have "nets_addrs (skip_subsumed (Some net) nets) \<union> net_addrs net = nets_addrs nets \<union> net_addrs net"
      using "2.IH"(2) [OF False, OF _ p] "2.prems"(1) by simp
    then show ?thesis using False by (auto split: option.splits)
  qed
qed

lemma skip_subsumed_keeps_0:
  assumes "sorted (map net_order ns)" "n \<in> set ns" "net_len n = 0" "nets_ok v ns"
  shows "\<exists>m \<in> set (skip_subsumed None ns). net_len m = 0"
proof -
  obtain h t where ns: "ns = h # t" using assms(2) by (cases ns) auto
  have "net_order h \<le> net_order n" using assms(1,2) ns by auto
  moreover have "net_wf n" "net_wf h" using assms(2,4) ns by (auto simp: nets_ok_def list_all_set)
  moreover have "net_int n = 0"
    using \<open>net_wf n\<close> assms(3) by (simp add: net_wf_def net_last_def block_size_0)
  ultimately have "net_len h = 0"
    using assms(3) by (auto simp: net_order_def less_eq_prod_def net_wf_def)
  then show ?thesis by (simp add: ns)
qed

lemma collapse_internal_ok:
  assumes "nets_ok v ns"
  shows "nets_ok v (collapse_internal ns)"
    and "ip_space v \<subseteq> nets_addrs ns \<Longrightarrow> \<exists>n \<in> set (collapse_internal ns). net_len n = 0"
    and "scope_free ns \<Longrightarrow> nets_addrs (collapse_internal ns) = nets_addrs ns"
proof -
  let ?m = "merge_loop (rev ns) []"
  let ?s = "sort_key net_order (map snd ?m)"
  have rev: "nets_ok v (rev ns)" using assms by (rule nets_ok_set [rotated]) simp
  have e: "subnets_ok v []" by (simp add: subnets_ok_def)
  note M = merge_loop_ok [OF rev e, simplified]
  have revu: "nets_addrs (rev ns) = nets_addrs ns" by (rule nets_addrs_set) simp
  have sf: "scope_free (rev ns) = scope_free ns" by (simp add: scope_free_def list_all_rev)
  have sok: "nets_ok v ?s"
    using M(1) nets_ok_set [of ?s "map snd ?m"] by (simp add: subnets_ok_def)
  have su: "nets_addrs ?s = nets_addrs (map snd ?m)" by (rule nets_addrs_set) simp
  show "nets_ok v (collapse_internal ns)"
    using sok skip_subsumed_subset by (auto simp: collapse_internal_def intro: nets_ok_set)
  have cu: "nets_addrs (collapse_internal ns) = nets_addrs ?s"
    using skip_subsumed_addrs [of ?s None] by (simp add: collapse_internal_def)
  show "nets_addrs (collapse_internal ns) = nets_addrs ns" if "scope_free ns"
    using M(3) sf that revu su cu by simp
  assume "ip_space v \<subseteq> nets_addrs ns"
  then have "ip_space v \<subseteq> nets_addrs (map snd ?m)" using M(2) revu by auto
  moreover have "inj_on supernet (set (map snd ?m))"
  proof (rule inj_onI)
    fix x y assume "x \<in> set (map snd ?m)" "y \<in> set (map snd ?m)" "supernet x = supernet y"
    then have "(supernet x, x) \<in> set ?m" "(supernet x, y) \<in> set ?m"
      using M(1) by (force simp: subnets_ok_def list_all_set)+
    then show "x = y" using M(1) by (auto simp: subnets_ok_def dest: eq_key_imp_eq_value)
  qed
  moreover have "nets_ok v (map snd ?m)" using M(1) by (simp add: subnets_ok_def)
  ultimately obtain n where "n \<in> set (map snd ?m)" "net_len n = 0"
    using covers_space_has_0 by blast
  then have "n \<in> set ?s" "net_len n = 0" by auto
  from skip_subsumed_keeps_0 [OF _ this sok]
  show "\<exists>n \<in> set (collapse_internal ns). net_len n = 0" by (simp add: collapse_internal_def)
qed

subsection \<open>Ranges of host addresses\<close>

lemma floor_log_le: "1 \<le> n \<Longrightarrow> 2 ^ floor_log b n \<le> n"
proof (induction b n rule: floor_log.induct)
  case (1 n)
  then show ?case by simp
next
  case (2 b n)
  then show ?case
  proof (cases "n < 2")
    case False
    then have "2 ^ floor_log b (n div 2) \<le> n div 2" using 2 by simp
    then show ?thesis using False by simp
  qed simp
qed

lemma trailing_zeros_dvd: "2 ^ trailing_zeros b n dvd n"
proof (induction b n rule: trailing_zeros.induct)
  case (1 n)
  then show ?case by simp
next
  case (2 b n)
  then show ?case
  proof (cases "n mod 2 = 0")
    case True
    then obtain k where "n div 2 = 2 ^ trailing_zeros b (n div 2) * k" using 2 by (auto elim: dvdE)
    moreover have "n = 2 * (n div 2)" using True by auto
    ultimately have "n = 2 ^ Suc (trailing_zeros b (n div 2)) * k" by simp
    then have "2 ^ Suc (trailing_zeros b (n div 2)) dvd n" by (rule dvdI)
    then show ?thesis using True by simp
  qed simp
qed

lemma trailing_zeros_le: "trailing_zeros b n \<le> b"
  by (induction b n rule: trailing_zeros.induct) auto

lemma summarize_range_ok:
  "0 \<le> first \<Longrightarrow> fin < 2 ^ ip_bits v \<Longrightarrow>
     nets_ok v (summarize_range v first fin) \<and> scope_free (summarize_range v first fin)
     \<and> nets_addrs (summarize_range v first fin) = {first .. fin}"
proof (induction v first fin rule: summarize_range.induct)
  case (1 v first fin)
  show ?case
  proof (cases "first \<le> fin")
    case False
    then show ?thesis by (simp add: summarize_range.simps)
  next
    case True
    define k where "k = min (trailing_zeros (ip_bits v) first) (floor_log (ip_bits v) (fin - first + 1))"
    let ?n = "IpNet v first (ip_bits v - k) None"
    have step: "summarize_range v first fin = ?n # summarize_range v (first + 2 ^ k) fin"
      using True by (subst summarize_range.simps) (simp add: k_def Let_def)
    have kb: "k \<le> ip_bits v" using trailing_zeros_le [of "ip_bits v" first] by (simp add: k_def)
    have bs: "block_size v (ip_bits v - k) = 2 ^ k" using kb by (simp add: block_size_def)
    have "(2::int) ^ k \<le> 2 ^ floor_log (ip_bits v) (fin - first + 1)"
      by (rule power_increasing) (simp_all add: k_def)
    also have "\<dots> \<le> fin - first + 1" using True by (intro floor_log_le) simp
    finally have fits: "first + 2 ^ k \<le> fin + 1" by simp
    have "(2::int) ^ k dvd 2 ^ trailing_zeros (ip_bits v) first"
      by (rule le_imp_power_dvd) (simp add: k_def)
    then have al: "2 ^ k dvd first" using trailing_zeros_dvd by (rule dvd_trans)
    have wf: "net_wf ?n"
      using "1.prems" fits al kb by (simp add: net_wf_def net_last_def bs)
    have addrs: "net_addrs ?n = {first ..< first + 2 ^ k}"
      by (auto simp: net_addrs_def net_last_def bs)
    have "0 \<le> first + 2 ^ k" using "1.prems" by simp
    from "1.IH" [OF True k_def this "1.prems"(2)]
    have "nets_ok v (summarize_range v (first + 2 ^ k) fin)"
      "scope_free (summarize_range v (first + 2 ^ k) fin)"
      "nets_addrs (summarize_range v (first + 2 ^ k) fin) = {first + 2 ^ k .. fin}" by auto
    moreover have "{first ..< first + 2 ^ k} \<union> {first + 2 ^ k .. fin} = {first .. fin}"
    proof -
      have "{a ..< a + q} \<union> {a + q .. b} = {a .. b}" if "a + q \<le> b + 1" "0 < q" for a b q :: int
        using that by auto
      then show ?thesis using fits by simp
    qed
    ultimately show ?thesis unfolding step using wf addrs by simp
  qed
qed

lemma address_ranges_ends:
  "fl \<in> set (address_ranges first prev ips) \<Longrightarrow>
     fst fl \<in> insert first (set ips) \<and> snd fl \<in> insert prev (set ips)"
  by (induction first prev ips rule: address_ranges.induct) (auto split: if_splits)

lemma address_ranges_union:
  "first \<le> prev \<Longrightarrow>
     (\<Union>fl \<in> set (address_ranges first prev ips). {fst fl .. snd fl}) = {first .. prev} \<union> set ips"
proof (induction first prev ips rule: address_ranges.induct)
  case (1 first prev)
  then show ?case by simp
next
  case (2 first prev ip ips)
  show ?case
  proof (cases "ip = prev + 1")
    case True
    have "{first .. ip} = insert ip {first .. prev}" using True "2.prems" by auto
    moreover have "first \<le> ip" using True "2.prems" by simp
    ultimately show ?thesis using "2.IH"(2) True by auto
  next
    case False
    then show ?thesis using "2.IH"(1) "2.prems" by simp
  qed
qed

lemma nets_addrs_concat: "nets_addrs (concat xss) = (\<Union>xs \<in> set xss. nets_addrs xs)"
  by (auto simp: nets_addrs_def)

lemma collapse_addresses_ok:
  assumes "nets_ok v ns"
  shows "nets_ok v (collapse_addresses v ns)"
    and "ip_space v \<subseteq> nets_addrs ns \<Longrightarrow> \<exists>n \<in> set (collapse_addresses v ns). net_len n = 0"
    and "scope_free ns \<Longrightarrow> nets_addrs (collapse_addresses v ns) = nets_addrs ns"
proof -
  let ?hosts = "filter (\<lambda>n. net_len n = ip_bits v) ns"
  let ?nets = "filter (\<lambda>n. net_len n \<noteq> ip_bits v) ns"
  define addrs where "addrs = (case host_ips ?hosts of [] \<Rightarrow> []
    | ip # ips \<Rightarrow> concat (map (\<lambda>(f, l). summarize_range v f l) (address_ranges ip ip ips)))"
  have eq: "collapse_addresses v ns = collapse_internal (addrs @ ?nets)"
    by (simp add: collapse_addresses_def addrs_def)
  have host: "net_addrs n = {net_int n} \<and> 0 \<le> net_int n \<and> net_int n < 2 ^ ip_bits v"
    if "n \<in> set ?hosts" for n
    using assms that by (auto simp: nets_ok_def list_all_set net_wf_def net_addrs_def net_last_def
        block_size_def)
  have ips: "set (host_ips ?hosts) = net_int ` set ?hosts" by (simp add: host_ips_def)
  have addrs: "nets_ok v addrs \<and> scope_free addrs \<and> nets_addrs addrs = set (host_ips ?hosts)"
  proof (cases "host_ips ?hosts")
    case Nil
    then show ?thesis by (simp add: addrs_def)
  next
    case (Cons ip ips')
    let ?r = "address_ranges ip ip ips'"
    have bounds: "0 \<le> x \<and> x < 2 ^ ip_bits v" if "x \<in> set (host_ips ?hosts)" for x
      using that host unfolding ips by auto
    have "nets_ok v (summarize_range v (fst fl) (snd fl)) \<and> scope_free (summarize_range v (fst fl) (snd fl))
        \<and> nets_addrs (summarize_range v (fst fl) (snd fl)) = {fst fl .. snd fl}"
      if "fl \<in> set ?r" for fl
      using address_ranges_ends [OF that] bounds Cons by (intro summarize_range_ok) auto
    then have "nets_ok v (concat (map (\<lambda>(f, l). summarize_range v f l) ?r))"
      and "scope_free (concat (map (\<lambda>(f, l). summarize_range v f l) ?r))"
      and "nets_addrs (concat (map (\<lambda>(f, l). summarize_range v f l) ?r))
        = (\<Union>fl \<in> set ?r. {fst fl .. snd fl})"
      by (auto simp: nets_ok_def scope_free_def list_all_set nets_addrs_concat split_beta)
    then show ?thesis using address_ranges_union [of ip ip ips'] Cons by (simp add: addrs_def)
  qed
  have "nets_addrs ns = nets_addrs ?hosts \<union> nets_addrs ?nets" by (auto simp: nets_addrs_def)
  also have "nets_addrs ?hosts = net_int ` set ?hosts" using host by (auto simp: nets_addrs_def)
  finally have un: "nets_addrs (addrs @ ?nets) = nets_addrs ns" using addrs ips by simp
  have ok: "nets_ok v (addrs @ ?nets)"
    using addrs assms by (auto intro: nets_ok_set [OF _ assms])
  show "nets_ok v (collapse_addresses v ns)" unfolding eq by (rule collapse_internal_ok(1) [OF ok])
  show "\<exists>n \<in> set (collapse_addresses v ns). net_len n = 0" if "ip_space v \<subseteq> nets_addrs ns"
    unfolding eq using collapse_internal_ok(2) [OF ok] that un by simp
  show "nets_addrs (collapse_addresses v ns) = nets_addrs ns" if "scope_free ns"
  proof -
    have "scope_free (addrs @ ?nets)"
      using addrs that by (auto simp: scope_free_def list_all_set)
    then show ?thesis unfolding eq using collapse_internal_ok(3) [OF ok] un by simp
  qed
qed

end
