(* ===== verification/PyIpFacts.thy ===== *)
theory PyIpFacts
  imports NetCover
begin

text \<open>
  Every network that \<open>ip_network\<close> returns is well-formed; the canonical text of an IPv4 network
  parses back to it; and what characters a canonical text can contain.
\<close>

subsection \<open>Bounds of parsed addresses\<close>

lemma digit_val_bounds: "is_digit c \<Longrightarrow> 0 \<le> digit_val c \<and> digit_val c < 10"
  by (simp add: is_digit_def digit_val_def)

lemma digits_val_nonneg: "list_all is_digit s \<Longrightarrow> 0 \<le> digits_val s"
  by (induction s rule: rev_induct) (auto dest: digit_val_bounds)

lemma parse_octet_bounds: "parse_octet s = Some x \<Longrightarrow> 0 \<le> x \<and> x \<le> 255"
  by (auto simp: parse_octet_def all_digits_def all_in_def digits_val_nonneg split: if_splits)

lemma parse_ipv4_int_bounds:
  assumes "parse_ipv4_int s = Some n"
  shows "0 \<le> n \<and> n < 2 ^ 32"
proof -
  from assms obtain a b c d where m: "map parse_octet (split_on CHR ''.'' s) = [Some a, Some b, Some c, Some d]"
    and n: "n = ((a * 256 + b) * 256 + c) * 256 + d"
    by (auto simp: parse_ipv4_int_def split: list.splits option.splits)
  have "0 \<le> x \<and> x \<le> 255" if "Some x \<in> set (map parse_octet (split_on CHR ''.'' s))" for x
    using that parse_octet_bounds by fastforce
  then have "0 \<le> a \<and> a \<le> 255" "0 \<le> b \<and> b \<le> 255" "0 \<le> c \<and> c \<le> 255" "0 \<le> d \<and> d \<le> 255"
    unfolding m by simp_all
  then show ?thesis unfolding n by simp
qed

lemma hex_val_bounds: "is_hex_digit c \<Longrightarrow> 0 \<le> hex_val c \<and> hex_val c < 16"
  by (auto simp: is_hex_digit_def is_digit_def hex_val_def)

lemma hex_digits_bounds:
  "list_all is_hex_digit s \<Longrightarrow>
     0 \<le> foldl (\<lambda>a c. a * 16 + hex_val c) 0 s \<and> foldl (\<lambda>a c. a * 16 + hex_val c) 0 s < 16 ^ length s"
  by (induction s rule: rev_induct) (auto dest: hex_val_bounds)

lemma parse_hextet_bounds: "parse_hextet s = Some x \<Longrightarrow> 0 \<le> x \<and> x < 65536"
proof -
  assume "parse_hextet s = Some x"
  then have h: "list_all is_hex_digit s" "length s \<le> 4" "x = foldl (\<lambda>a c. a * 16 + hex_val c) 0 s"
    by (auto simp: parse_hextet_def all_in_def split: if_splits)
  have "(16::int) ^ length s \<le> 16 ^ 4" using h(2) by (intro power_increasing) auto
  then show ?thesis using hex_digits_bounds [OF h(1)] h(3) by auto
qed

lemma hextets_int_snoc [simp]: "hextets_int (hs @ [h]) = hextets_int hs * 65536 + h"
  by (simp add: hextets_int_def)

lemma hextets_int_bounds:
  "list_all (\<lambda>h. 0 \<le> h \<and> h < 65536) hs \<Longrightarrow> 0 \<le> hextets_int hs \<and> hextets_int hs < 65536 ^ length hs"
  by (induction hs rule: rev_induct) (auto simp: hextets_int_def)

lemma all_some_map: "all_some xs = Some ys \<Longrightarrow> xs = map Some ys"
  by (induction xs arbitrary: ys rule: all_some.induct) auto

lemma all_some_hextets:
  assumes "all_some (map parse_hextet parts) = Some hs"
  shows "length hs = length parts \<and> list_all (\<lambda>h. 0 \<le> h \<and> h < 65536) hs"
proof -
  have m: "map parse_hextet parts = map Some hs" using assms by (rule all_some_map)
  then have len: "length hs = length parts" by (metis length_map)
  have "0 \<le> h \<and> h < 65536" if h: "h \<in> set hs" for h
  proof -
    have "Some h \<in> set (map parse_hextet parts)" unfolding m using h by simp
    then show ?thesis using parse_hextet_bounds by fastforce
  qed
  with len show ?thesis by (simp add: list_all_set)
qed

lemma hextets_int_128:
  assumes "list_all (\<lambda>h. 0 \<le> h \<and> h < 65536) hs" "length hs \<le> 8"
  shows "0 \<le> hextets_int hs \<and> hextets_int hs < 2 ^ 128"
proof -
  have "(65536::int) ^ length hs \<le> 65536 ^ 8" using assms(2) by (intro power_increasing) auto
  also have "(65536::int) ^ 8 = 2 ^ 128" by simp
  finally show ?thesis using hextets_int_bounds [OF assms(1)] by auto
qed

lemma parse_ipv6_parts_bounds:
  assumes "parse_ipv6_parts parts = Some n"
  shows "0 \<le> n \<and> n < 2 ^ 128"
proof (cases "inner_empty parts")
  case Nil
  then obtain hs where "length parts = 8" "all_some (map parse_hextet parts) = Some hs" "n = hextets_int hs"
    using assms by (auto simp: parse_ipv6_parts_def split: if_splits)
  then show ?thesis using hextets_int_128 [of hs] all_some_hextets by auto
next
  case (Cons skip rest)
  then have "rest = []" using assms by (auto simp: parse_ipv6_parts_def split: if_splits list.splits)
  define hi where "hi = (if hd parts = [] then skip - 1 else skip)"
  define lo where "lo = (if last parts = [] then length parts - skip - 1 - 1 else length parts - skip - 1)"
  obtain hs ls where hl: "hi + lo < 8"
    "all_some (map parse_hextet (take hi parts)) = Some hs"
    "all_some (map parse_hextet (drop (length parts - lo) parts)) = Some ls"
    "n = hextets_int (hs @ replicate (8 - (hi + lo)) 0 @ ls)"
    using assms unfolding parse_ipv6_parts_def Cons \<open>rest = []\<close> list.case Let_def
      hi_def [symmetric] lo_def [symmetric]
    by (simp split: if_splits option.splits)
  have "length hs \<le> hi" "length ls \<le> lo"
    using all_some_hextets [OF hl(2)] all_some_hextets [OF hl(3)] by auto
  then have "length (hs @ replicate (8 - (hi + lo)) 0 @ ls) \<le> 8" using hl(1) by simp
  moreover have "list_all (\<lambda>h. 0 \<le> h \<and> h < 65536) (hs @ replicate (8 - (hi + lo)) 0 @ ls)"
    using all_some_hextets [OF hl(2)] all_some_hextets [OF hl(3)] by (auto simp: list_all_set)
  ultimately show ?thesis unfolding hl(4) by (intro hextets_int_128)
qed

lemma parse_ipv6_int_bounds: "parse_ipv6_int s = Some n \<Longrightarrow> 0 \<le> n \<and> n < 2 ^ 128"
  by (auto simp: parse_ipv6_int_def Let_def simp del: parse_ipv6_parts_def
        dest!: parse_ipv6_parts_bounds split: if_splits option.splits)

definition addr_wf :: "ip_addr \<Rightarrow> bool" where
  "addr_wf a = (0 \<le> addr_int a \<and> addr_int a < 2 ^ ip_bits (addr_ver a))"

lemma ip_bits_simps [simp]: "ip_bits V4 = 32" "ip_bits V6 = 128"
  by (simp_all add: ip_bits_def)

lemma parse_ipv4_addr_wf:
  "parse_ipv4_addr s = Some a \<Longrightarrow> addr_wf a \<and> addr_ver a = V4 \<and> addr_scope a = None"
  using parse_ipv4_int_bounds by (auto simp: parse_ipv4_addr_def addr_wf_def split: if_splits)

lemma parse_ipv6_addr_wf: "parse_ipv6_addr s = Some a \<Longrightarrow> addr_wf a \<and> addr_ver a = V6"
  using parse_ipv6_int_bounds
  by (auto simp: parse_ipv6_addr_def addr_wf_def split: if_splits option.splits prod.splits)

subsection \<open>Parsed networks are well-formed\<close>

lemma prefix_of_str_le: "prefix_of_str v s = Some l \<Longrightarrow> l \<le> ip_bits v"
  by (auto simp: prefix_of_str_def split: if_splits)

lemma make_netmask_le: "make_netmask v s = Some l \<Longrightarrow> l \<le> ip_bits v"
  by (auto simp: make_netmask_def prefix_of_ip_str_def prefix_of_ip_int_def Let_def
        dest: prefix_of_str_le split: option.splits ip_version.splits if_splits)

lemma aligned_fits:
  fixes x b :: int
  assumes "0 < b" "b dvd B" "0 \<le> x" "x < B" "x mod b = 0"
  shows "x + b \<le> B"
proof -
  obtain m where B: "B = b * m" using assms(2) by (rule dvdE)
  obtain i where x: "x = b * i" using assms(5) by (auto simp: mod_eq_0_iff_dvd elim: dvdE)
  have "i < m" using assms(1,4) unfolding x B by simp
  then have "b * (i + 1) \<le> b * m" using assms(1) by simp
  then show ?thesis unfolding x B by (simp add: algebra_simps)
qed

lemma net_of_addr_wf:
  assumes "addr_wf a" "l \<le> ip_bits (addr_ver a)"
  shows "net_wf (net_of_addr a l) \<and> net_ver (net_of_addr a l) = addr_ver a
    \<and> (net_scope (net_of_addr a l) = None \<or> net_scope (net_of_addr a l) = addr_scope a)"
proof -
  define b where "b = block_size (addr_ver a) l"
  define x where "x = addr_int a - addr_int a mod b"
  have b: "0 < b" by (simp add: b_def)
  have dvd: "b dvd 2 ^ ip_bits (addr_ver a)"
    unfolding b_def block_size_def by (rule le_imp_power_dvd) simp
  have x: "0 \<le> x" "x \<le> addr_int a" "x mod b = 0"
    using assms(1) b zmod_le_nonneg_dividend [of "addr_int a" b] by (auto simp: x_def addr_wf_def)
  then have "x + b \<le> 2 ^ ip_bits (addr_ver a)"
    using assms(1) by (intro aligned_fits [OF b dvd]) (auto simp: addr_wf_def)
  moreover have "net_of_addr a l = IpNet (addr_ver a) x l (if addr_int a mod b = 0 then addr_scope a else None)"
    by (auto simp: net_of_addr_def Let_def x_def b_def)
  ultimately show ?thesis using x assms(2) by (auto simp: net_wf_def net_last_def b_def)
qed

lemma parse_net_wf:
  assumes "parse_net v p s = Some n" and "\<And>t a. p t = Some a \<Longrightarrow> addr_wf a \<and> addr_ver a = v"
  shows "net_wf n \<and> net_ver n = v"
  using assms(1) assms(2) net_of_addr_wf make_netmask_le
  by (auto simp: parse_net_def split: list.splits option.splits)

lemma ip_network_wf:
  assumes "ip_network s = Some n"
  shows "net_wf n"
  using assms parse_net_wf [of V4 parse_ipv4_addr s n] parse_net_wf [of V6 parse_ipv6_addr s n]
    parse_ipv4_addr_wf parse_ipv6_addr_wf
  by (auto simp: ip_network_def split: option.splits)

lemma ip_network_V4_scope:
  assumes "ip_network s = Some n" "net_ver n = V4"
  shows "net_scope n = None"
proof -
  have "parse_net V6 parse_ipv6_addr s \<noteq> Some n"
    using parse_net_wf [of V6 parse_ipv6_addr s n] parse_ipv6_addr_wf assms(2) by auto
  then have "parse_net V4 parse_ipv4_addr s = Some n"
    using assms(1) by (auto simp: ip_network_def split: option.splits)
  then show ?thesis
    using net_of_addr_wf parse_ipv4_addr_wf make_netmask_le
    by (fastforce simp: parse_net_def split: list.splits option.splits)
qed

subsection \<open>IPv4: text and network\<close>

lemma is_digit_dec_str: "0 \<le> n \<Longrightarrow> c \<in> set (dec_str n) \<Longrightarrow> is_digit c"
  using dec_str_digits [of n] by (simp add: list_all_set)

lemma parse_octet_dec_str:
  assumes "0 \<le> n" "n \<le> 255"
  shows "parse_octet (dec_str n) = Some n"
proof -
  have "length (dec_str n) \<le> 3" using assms by (intro dec_str_length) auto
  moreover have "dec_str n = ''0'' \<or> hd (dec_str n) \<noteq> CHR ''0''"
    using dec_str_hd [of n] assms by (cases "n = 0") (auto simp: digit_char_def)
  ultimately show ?thesis
    using assms by (auto simp: parse_octet_def all_digits_def all_in_def dec_str_digits digits_val_dec_str)
qed

lemma digit_neq:
  assumes "is_digit c"
  shows "c \<noteq> CHR ''.''" "c \<noteq> CHR ''/''" "c \<noteq> CHR '':''" "c \<noteq> CHR ''%''" "c \<noteq> CHR ''-''"
  using assms by (auto simp: is_digit_def ord_def)

lemma dec_str_not_in:
  assumes "0 \<le> n"
  shows "CHR ''.'' \<notin> set (dec_str n)" "CHR ''/'' \<notin> set (dec_str n)" "CHR ''-'' \<notin> set (dec_str n)"
  using is_digit_dec_str [OF assms] digit_neq by blast+

lemma ipv4_bytes:
  fixes n :: int
  assumes "0 \<le> n" "n < 4294967296"
  shows "((n div 16777216 mod 256 * 256 + n div 65536 mod 256) * 256 + n div 256 mod 256) * 256
           + n mod 256 = n"
proof -
  define q1 q2 q3 where "q1 = n div 256" and "q2 = q1 div 256" and "q3 = q2 div 256"
  have e: "n div 65536 = q2" "n div 16777216 = q3"
    unfolding q1_def q2_def q3_def
    using zdiv_zmult2_eq [of 256 n 256] zdiv_zmult2_eq [of 256 n 65536] by simp_all
  have n: "n = q1 * 256 + n mod 256" "q1 = q2 * 256 + q1 mod 256" "q2 = q3 * 256 + q2 mod 256"
    unfolding q1_def q2_def q3_def by (simp_all only: div_mult_mod_eq)
  have b: "0 \<le> n mod 256" "0 \<le> q1 mod 256" "0 \<le> q2 mod 256" by simp_all
  have "q3 < 256" "0 \<le> q3"
    using n b assms pos_mod_bound [of 256 n] pos_mod_bound [of 256 q1] pos_mod_bound [of 256 q2] by linarith+
  then have "q3 mod 256 = q3" by (intro mod_pos_pos_trivial)
  have mix: "((q3 * 256 + r2) * 256 + r1) * 256 + r0 = n"
    if "n = q1 * 256 + r0" "q1 = q2 * 256 + r1" "q2 = q3 * 256 + r2" for r0 r1 r2 :: int
    unfolding that by simp
  show ?thesis
    unfolding e q1_def [symmetric] \<open>q3 mod 256 = q3\<close> by (rule mix [OF n])
qed

lemma parse_ipv4_join:
  assumes "0 \<le> a" "0 \<le> b" "0 \<le> c" "0 \<le> d" "a \<le> 255" "b \<le> 255" "c \<le> 255" "d \<le> 255"
  shows "parse_ipv4_int (join ''.'' [dec_str a, dec_str b, dec_str c, dec_str d])
    = Some (((a * 256 + b) * 256 + c) * 256 + d)"
proof -
  have "split_on CHR ''.'' (join ''.'' [dec_str a, dec_str b, dec_str c, dec_str d])
      = [dec_str a, dec_str b, dec_str c, dec_str d]"
    by (rule split_on_join) (use assms dec_str_not_in(1) in \<open>auto simp del: dec_str_step\<close>)
  then show ?thesis
    unfolding parse_ipv4_int_def by (simp only: list.map parse_octet_dec_str assms list.case option.case)
qed

lemma parse_ipv4_str:
  assumes "0 \<le> n" "n < 2 ^ 32"
  shows "parse_ipv4_int (ipv4_str n) = Some n"
proof -
  have m: "0 \<le> k mod 256" "k mod 256 \<le> 255" for k :: int
    using pos_mod_bound [of 256 k] pos_mod_sign [of 256 k] by linarith+
  have "n < 4294967296" using assms(2) by simp
  from ipv4_bytes [OF assms(1) this] show ?thesis
    unfolding ipv4_str_def parse_ipv4_join [OF m(1) m(1) m(1) m(1) m(2) m(2) m(2) m(2)] by (rule arg_cong)
qed

lemma ipv4_str_chars: "c \<in> set (ipv4_str n) \<Longrightarrow> is_digit c \<or> c = CHR ''.''"
  by (auto simp: ipv4_str_def dest: is_digit_dec_str [rotated])

lemma prefix_of_dec_str:
  assumes "l \<le> ip_bits v"
  shows "prefix_of_str v (dec_str (int l)) = Some l"
proof -
  have "l \<le> 128" using assms by (cases v) auto
  then have "length (dec_str (int l)) \<le> 3" by (intro dec_str_length) auto
  then show ?thesis
    using assms by (simp add: prefix_of_str_def all_digits_def all_in_def dec_str_digits digits_val_dec_str)
qed

lemma ip_network_net_str_V4:
  assumes "net_wf n" "net_ver n = V4" "net_scope n = None"
  shows "ip_network (net_str n) = Some n"
proof -
  have l: "net_len n \<le> 32" and al: "net_int n mod block_size V4 (net_len n) = 0"
    and w: "0 \<le> net_int n" "net_int n + block_size V4 (net_len n) - 1 < 2 ^ 32"
    using assms(1,2) by (simp_all add: net_wf_def net_last_def)
  have i: "0 \<le> net_int n" "net_int n < 2 ^ 32"
    using w block_size_pos [of V4 "net_len n"] by linarith+
  have no: "CHR ''/'' \<notin> set (ipv4_str (net_int n))"
    using ipv4_str_chars digit_neq by fastforce
  have "net_str n = ipv4_str (net_int n) @ CHR ''/'' # dec_str (int (net_len n))"
    using assms by (simp add: net_str_def addr_str_def)
  then have "split_on CHR ''/'' (net_str n) = [ipv4_str (net_int n), dec_str (int (net_len n))]"
    using no by (simp add: split_on_append split_on_no_sep dec_str_not_in)
  then have "parse_net V4 parse_ipv4_addr (net_str n)
      = Some (net_of_addr (IpAddr V4 (net_int n) None) (net_len n))"
    using no i l prefix_of_dec_str [of "net_len n" V4]
    by (simp add: parse_net_def parse_ipv4_addr_def parse_ipv4_str make_netmask_def)
  also have "net_of_addr (IpAddr V4 (net_int n) None) (net_len n) = n"
    using al assms by (cases n) (simp add: net_of_addr_def)
  finally show ?thesis by (simp add: ip_network_def)
qed

subsection \<open>Characters of canonical texts\<close>

definition net_char :: "char \<Rightarrow> bool" where
  "net_char c = (c \<in> set ''0123456789abcdef.:/'')"

lemma net_char_simps [simp]: "net_char CHR ''.''" "net_char CHR '':''" "net_char CHR ''/''" "\<not> net_char nl"
  by (simp_all add: net_char_def)

lemma net_char_digit: "n < 16 \<Longrightarrow> net_char (digit_char n)"
proof -
  assume "n < 16"
  then have "digit_char n \<in> set ''0123456789abcdef''" unfolding digit_char_def by (intro nth_mem) simp
  then show ?thesis by (auto simp: net_char_def)
qed

lemma net_char_dec_str [simp]: "list_all net_char (dec_str n)"
proof (induction n rule: dec_str.induct)
  case (1 n)
  show ?case
  proof (cases "n < 10")
    case True
    then show ?thesis by (simp add: net_char_digit)
  next
    case False
    have "n mod 10 < 10" by (rule pos_mod_bound) simp
    then show ?thesis using 1 False by (simp add: net_char_digit)
  qed
qed

lemma net_char_hex_str [simp]: "list_all net_char (hex_str n)"
proof (induction n rule: hex_str.induct)
  case (1 n)
  show ?case
  proof (cases "n < 16")
    case True
    then show ?thesis by (subst hex_str.simps) (simp add: net_char_digit)
  next
    case False
    have "n mod 16 < 16" by (rule pos_mod_bound) simp
    then show ?thesis using 1 False by (subst hex_str.simps) (simp add: net_char_digit)
  qed
qed

lemma list_all_join: "list_all P d \<Longrightarrow> list_all (list_all P) xs \<Longrightarrow> list_all P (join d xs)"
  by (induction d xs rule: join.induct) auto

lemma net_char_ipv4_str [simp]: "list_all net_char (ipv4_str n)"
  unfolding ipv4_str_def by (rule list_all_join) (simp_all del: dec_str_small dec_str_step)

lemma net_char_compress: "list_all (list_all net_char) (compress_hextets hs)"
proof -
  have t: "list_all (list_all net_char) (map hex_str hs)" by (induction hs) simp_all
  show ?thesis
    by (auto simp: compress_hextets_def Let_def split_beta intro!: list_all_take list_all_drop t)
qed

lemma net_char_ipv6_str [simp]: "list_all net_char (ipv6_int_str n)"
  by (simp add: ipv6_int_str_def list_all_join net_char_compress)

lemma one_line_net_str_scope:
  "one_line (net_str n) \<longleftrightarrow> (case net_scope n of None \<Rightarrow> True | Some s \<Rightarrow> net_ver n = V4 \<or> one_line s)"
proof -
  have "one_line (dec_str m)" "one_line (ipv4_str m)" "one_line (ipv6_int_str m)" for m
    using one_line_list_all [of net_char] by (simp_all del: dec_str_small dec_str_step)
  then show ?thesis
    by (auto simp: net_str_def addr_str_def split: ip_version.splits option.splits
        simp del: dec_str_small dec_str_step)
qed

lemma partition_at_set:
  assumes "partition_at d s = (h, True, t)"
  shows "d \<in> set s \<and> set h \<subseteq> set s \<and> set t \<subseteq> set s"
proof -
  have t: "t = drop 1 (dropWhile (\<lambda>c. c \<noteq> d) s)" "dropWhile (\<lambda>c. c \<noteq> d) s \<noteq> []"
    and h: "h = takeWhile (\<lambda>c. c \<noteq> d) s"
    using assms by (auto simp: partition_at_def Let_def)
  show ?thesis
    using t(2) unfolding t(1) h
    by (auto simp: dropWhile_eq_Nil_conv dest: set_takeWhileD in_set_dropD set_dropWhileD)
qed

lemma ip_network_scope:
  assumes "ip_network s = Some n" "net_scope n = Some sc"
  shows "CHR ''%'' \<in> set s \<and> set sc \<subseteq> set s"
proof -
  have v: "net_ver n \<noteq> V4" using ip_network_V4_scope [OF assms(1)] assms(2) by auto
  have "parse_net V4 parse_ipv4_addr s \<noteq> Some n"
    using parse_net_wf [of V4 parse_ipv4_addr s n] parse_ipv4_addr_wf v by auto
  then have p: "parse_net V6 parse_ipv6_addr s = Some n"
    using assms(1) by (auto simp: ip_network_def split: option.splits)
  then obtain w a l where w: "w \<in> set (split_on CHR ''/'' s)" "parse_ipv6_addr w = Some a"
    "n = net_of_addr a l"
    by (auto simp: parse_net_def split: list.splits option.splits)
  have "addr_scope a = Some sc"
    using w(3) assms(2) by (auto simp: net_of_addr_def Let_def split: if_splits)
  then have "CHR ''%'' \<in> set w \<and> set sc \<subseteq> set w"
    using w(2) partition_at_set [of "CHR ''%''" w _ sc]
    by (fastforce simp: parse_ipv6_addr_def split_scope_def split: if_splits prod.splits option.splits)
  moreover have "set w \<subseteq> set s"
  proof -
    have "set x \<subseteq> set t" if "x \<in> set (split_on d t)" for x d and t :: string
      using that
    proof (induction t arbitrary: x)
      case (Cons c t)
      obtain w ws where t: "split_on d t = w # ws" by (cases "split_on d t") auto
      have "set y \<subseteq> set t" if "y \<in> set (w # ws)" for y using Cons.IH that by (simp add: t)
      then show ?case using Cons.prems t by (fastforce split: if_splits)
    qed simp
    then show ?thesis using w(1) by blast
  qed
  ultimately show ?thesis by auto
qed

text \<open>A network text is free of newlines when its source is, or when it has no scope identifier.\<close>

lemma one_line_net_str:
  assumes "ip_network s = Some n" "CHR ''%'' \<notin> set s \<or> one_line s"
  shows "one_line (net_str n)"
proof -
  have "one_line sc" if "net_scope n = Some sc" for sc
    using ip_network_scope [OF assms(1) that] assms(2) by (auto simp: one_line_set)
  then show ?thesis by (simp add: one_line_net_str_scope split: option.split)
qed

end
