(* ===== verification/NftSafety.thy ===== *)
theory NftSafety
  imports NftPolicy NftBaseFacts PyIpFacts
begin

text \<open>
  The safety properties of a whole run: what \<open>generate\<close> guarantees of the files it returns. The
  run is first taken apart into the results of its stages; then the stages are related to the
  interlocks of the policy.
\<close>

subsection \<open>The stages of a run\<close>

lemma generateE:
  assumes "generate fs safe_load args = Inr g"
  obtains policy0 ctx0 ctx1 ctx2 reject where
    "check_mode_flags args = Inr ()"
    and "load_policy fs safe_load (arg_profile args) (arg_overlay args) (arg_force_overlay args)
           empty_context = Inr (policy0, ctx0)"
    and "apply_runtime_cidrs policy0 (arg_add_cidr args) ctx0 = Inr (gen_policy g, ctx1)"
    and "as_dict (dget ''safety'' (gen_policy g)) ''safety'' = Inr (gen_safety g)"
    and "as_bool (dget ''reject_unresolved_placeholders'' (gen_safety g)) True = Inr reject"
    and "validate_policy (gen_policy g) ctx1 (reject \<and> \<not> arg_allow_placeholders args) = Inr ctx2"
    and "output_paths (gen_policy g) (arg_resolved_root args) = Inr (gen_paths g)"
    and "render_all (gen_policy g) (gen_paths g) ctx2 (arg_allow_public_sensitive args)
           = Inr (gen_rendered g, gen_ctx g)"
  using assms by (auto simp: generate_def)

text \<open>The six texts of a run, by the key of their output path.\<close>

lemma render_allE:
  assumes "render_all policy paths ctx allow_public = Inr (rendered, ctx')"
  obtains maps ctx1 conf defs base filt nat loc where
    "build_define_maps policy ctx = Inr (maps, ctx1)"
    and "render_nftables_conf policy paths = Inr conf"
    and "render_defines policy maps = Inr defs"
    and "render_base policy = Inr base"
    and "render_filter policy maps ctx1 allow_public = Inr (filt, ctx')"
    and "render_nat policy maps = Inr nat"
    and "render_local policy = Inr loc"
    and "\<exists>p1 p2 p3 p4 p5 p6.
           map_of paths ''nftables_conf'' = Some p1 \<and> map_of paths ''defines'' = Some p2
           \<and> map_of paths ''base'' = Some p3 \<and> map_of paths ''filter'' = Some p4
           \<and> map_of paths ''nat'' = Some p5 \<and> map_of paths ''local'' = Some p6
           \<and> rendered = dupdate [] [(p1, conf), (p2, defs), (p3, base), (p4, filt), (p5, nat), (p6, loc)]"
  using assms
  by (auto simp: render_all_def out_path_def simp del: dupdate_def split: option.splits)

lemma render_filterE:
  assumes "render_filter policy maps ctx allow_public = Inr (filt, ctx')"
  obtains ctx1 lines cfg ch where
    "validate_services policy maps ctx allow_public = Inr ctx1"
    and "filter_config policy = Inr cfg" and "chain_names policy = Inr ch"
    and "run_sections FILTER_HEADER ctx1 (filter_sections policy maps cfg ch) = Inr (lines, ctx')"
    and "filt = join [nl] lines"
  using assms by (auto simp: render_filter_def filter_lines_def)

subsection \<open>The public-exposure interlock\<close>

lemma mapE_all: "mapE f xs = Inr ys \<Longrightarrow> (\<And>x y. f x = Inr y \<Longrightarrow> P y) \<Longrightarrow> list_all P ys"
  by (induction xs arbitrary: ys) auto

lemma allow_networks_wf: "allow_networks maps service = Inr ns \<Longrightarrow> list_all net_wf ns"
  by (auto simp: allow_networks_def parse_resolved_def intro!: mapE_all [where P = net_wf]
      dest: ip_network_wf split: option.splits)

lemma not_covers_gap:
  assumes "list_all net_wf ns" "\<not> covers_family ns v"
  shows "\<exists>a \<in> ip_space v. a \<notin> nets_addrs (filter (\<lambda>n. net_ver n = v) ns)"
proof -
  let ?f = "filter (\<lambda>n. net_ver n = v) ns"
  have "nets_ok v ?f" using assms(1) by (auto simp: nets_ok_def list_all_set)
  from collapse_addresses_ok(2) [OF this] assms(2)
  show ?thesis unfolding covers_family_def list_ex_iff by blast
qed

lemma validate_service_public:
  assumes "validate_service policy maps sf ctx (name, raw) = Inr ctx'"
    and "sf_forbid_public sf" "\<not> sf_allow_public sf"
    and "as_dict raw (''services.'' @ name) = Inr service"
    and "as_bool (dget ''enabled'' service) False = Inr True"
    and "as_bool (dget ''sensitive'' service) False = Inr True"
    and "lower (py_str (dget_or ''direction'' (PStr ''inbound'') service)) \<in> {''inbound'', ''bidirectional''}"
  shows "sensitive_public_violation maps service = Inr False"
  using assms by (auto simp: validate_service_def Let_def split: if_splits)

lemma foldE_each:
  assumes "foldE f s xs = Inr t" "x \<in> set xs"
  shows "\<exists>s1 s2. f s1 x = Inr s2"
  using assms by (induction xs arbitrary: s) auto

lemma validate_services_public:
  assumes "validate_services policy maps ctx False = Inr ctx'"
    and "as_dict (dget ''safety'' policy) ''safety'' = Inr safety"
    and "as_bool (dget ''forbid_public_admin_services_by_default'' safety) True = Inr True"
    and "as_dict (dget ''services'' policy) ''services'' = Inr services"
    and "(name, raw) \<in> set services"
    and "as_dict raw (''services.'' @ name) = Inr service"
    and "as_bool (dget ''enabled'' service) False = Inr True"
    and "as_bool (dget ''sensitive'' service) False = Inr True"
    and "lower (py_str (dget_or ''direction'' (PStr ''inbound'') service)) \<in> {''inbound'', ''bidirectional''}"
  shows "\<exists>ns. allow_networks maps service = Inr ns
    \<and> (\<forall>v. \<exists>a \<in> ip_space v. a \<notin> nets_addrs (filter (\<lambda>n. net_ver n = v) ns))"
proof -
  from assms(1-4) obtain rne where
    "foldE (validate_service policy maps \<lparr>sf_require_non_empty = rne, sf_forbid_public = True,
       sf_allow_public = False\<rparr>) ctx services = Inr ctx'"
    by (auto simp: validate_services_def)
  from foldE_each [OF this assms(5)] obtain c1 c2 where
    "validate_service policy maps \<lparr>sf_require_non_empty = rne, sf_forbid_public = True,
       sf_allow_public = False\<rparr> c1 (name, raw) = Inr c2" by blast
  then have "sensitive_public_violation maps service = Inr False"
    by (rule validate_service_public) (use assms(6-9) in simp_all)
  then obtain ns where ns: "allow_networks maps service = Inr ns"
    "\<not> covers_family ns V4" "\<not> covers_family ns V6"
    by (auto simp: sensitive_public_violation_def)
  have "\<not> covers_family ns v" for v using ns by (cases v) auto
  then show ?thesis using not_covers_gap [OF allow_networks_wf [OF ns(1)]] ns(1) by blast
qed

end
