(* ===== verification/NftDemo.thy ===== *)
theory NftDemo
  imports NftSafety
begin

text \<open>
  A small profile on which the properties are instantiated: it enables a sensitive service with an
  enforced allowlist, a forwarding rule and egress enforcement, and is read from a file system that
  holds one file. The facts below are the results of running the model on it.
\<close>

definition demo_service :: pydict where
  "demo_service =
     [(''enabled'', PBool True), (''sensitive'', PBool True), (''enforce_allowlist'', PBool True),
      (''proto'', PStr ''tcp''), (''ports'', PList [PInt 22]),
      (''allow'', PDict [(''interface_groups'', PList [PStr ''lan'']),
                         (''ipv4_groups'', PList [PStr ''admin'']),
                         (''ipv6'', PList [PStr ''fd00::/8''])])]"

definition demo_policy :: pydict where
  "demo_policy =
     [(''apiVersion'', PStr ''cybops.nftables/v1''), (''kind'', PStr ''NftablesProfile''),
      (''metadata'', PDict [(''name'', PStr ''server'')]),
      (''generator'', PDict [(''outputs'', PDict [(''fragments'', PDict
         [(''defines'', PStr ''/etc/d''), (''base'', PStr ''/etc/b''), (''filter'', PStr ''/etc/f''),
          (''nat'', PStr ''/etc/n''), (''local'', PStr ''/etc/l'')])])]),
      (''interface_groups'', PDict [(''lan'', PList [PStr ''eth0'']), (''wan'', PList [PStr ''eth1''])]),
      (''cidr_groups'', PDict [(''admin'', PList [PStr ''10.0.0.5/8''])]),
      (''features'', PDict (map (\<lambda>k. (k, PBool False))
         [''drop_invalid'', ''allow_loopback'', ''source_filtering'', ''unsafe_source_filtering'',
          ''anti_spoofing'', ''ipv6_neighbor_discovery'', ''icmp'', ''icmpv6'', ''local_hooks''])),
      (''egress'', PDict [(''mode'', PStr ''enforce'')]),
      (''app_veth'', PDict [(''interfaces'', PList [PStr ''vapp0-h'']),
         (''dns_host_address'', PStr ''127.0.0.53''), (''dns_host_port'', PInt 5300)]),
      (''services'', PDict [(''ssh'', PDict demo_service)])]"

definition demo_fs :: fs_read where
  "demo_fs path = Inr (True, 900, Some path)"

text \<open>The text of a file is its own path here, so the parser can tell the two documents apart.\<close>

definition demo_overlay :: pydict where
  "demo_overlay =
     [(''apiVersion'', PStr ''cybops.nftables/v1''), (''kind'', PStr ''NftablesServiceOverlay''),
      (''metadata'', PDict [(''applies_to_profiles'', PList [PStr ''server'']), (''merge_priority'', PInt 20)]),
      (''cidr_groups'', PDict [(''admin'', PList [PStr ''192.168.7.0/24''])]),
      (''policies'', PDict [(''input'', PStr ''accept'')]),
      (''egress'', PDict [(''enforce'', PBool True)])]"

definition demo_yaml :: yaml_load where
  "demo_yaml text = Inr (PDict (if text = ''/p.yaml'' then demo_policy else demo_overlay))"

definition demo_args :: cli_args where
  "demo_args = \<lparr>arg_profile = ''/p.yaml'', arg_overlay = [], arg_resolved_root = ''/'',
     arg_write = False, arg_print = False, arg_check = False, arg_reload = False, arg_backup = False,
     arg_backup_dir = ''/var/backups/nftables'', arg_force_overlay = False, arg_add_cidr = [],
     arg_allow_public_sensitive = False, arg_allow_placeholders = False, arg_log_level = ''none''\<rparr>"

definition demo_generated :: generated where
  "demo_generated = (case generate demo_fs demo_yaml demo_args of
     Inr g \<Rightarrow> g
   | Inl e \<Rightarrow> \<lparr>gen_policy = [], gen_safety = [], gen_paths = [], gen_rendered = [], gen_ctx = empty_context\<rparr>)"

lemma demo_runs: "case generate demo_fs demo_yaml demo_args of Inl e \<Rightarrow> False | Inr g \<Rightarrow> True"
  by code_simp

lemma demo_generate: "generate demo_fs demo_yaml demo_args = Inr demo_generated"
  using demo_runs by (simp add: demo_generated_def split: sum.splits)

lemma demo_kind: "require_kind demo_policy PROFILE_KIND path = Inr ()"
  by (simp add: require_kind_def demo_policy_def dget_def SUPPORTED_API_VERSION_def PROFILE_KIND_def)

lemma demo_load: "load_policy demo_fs demo_yaml ''/p.yaml'' [] False empty_context = Inr (demo_policy, empty_context)"
  by (simp add: load_policy_def load_yaml_file_def demo_fs_def demo_yaml_def MAX_YAML_BYTES_def
        demo_kind)

lemma demo_gen_policy: "gen_policy demo_generated = demo_policy"
  using demo_generate demo_load
  by (auto simp: demo_args_def apply_runtime_cidrs_def elim!: generateE)

text \<open>The same profile with the overlay merged.\<close>

definition demo_merged :: pydict where
  "demo_merged = (case load_policy demo_fs demo_yaml ''/p.yaml'' [''/o.yaml''] False empty_context of
     Inr (p, c) \<Rightarrow> p | Inl e \<Rightarrow> [])"

lemma demo_merge_runs:
  "load_policy demo_fs demo_yaml ''/p.yaml'' [''/o.yaml''] False empty_context = Inr (demo_merged, empty_context)"
  by code_simp

lemma demo_overlay_loads:
  "load_overlay demo_fs demo_yaml ''/o.yaml'' = Inr (20, ''/o.yaml'', demo_overlay)"
  by code_simp

end
