(* ===== verification/NftNormFacts.thy ===== *)
theory NftNormFacts
  imports NftPolicy PyIpFacts
begin

text \<open>
  Facts about normalisation: what a returned port, port range, network, interface name or identifier
  looks like, and that normalised values are fixed points.
\<close>

subsection \<open>Ports\<close>

lemma normalize_port_bounds: "normalize_port v label = Inr p \<Longrightarrow> 1 \<le> p \<and> p \<le> 65535"
  by (auto simp: normalize_port_def split: pyval.splits if_splits)

lemma normalize_port_PInt: "1 \<le> p \<Longrightarrow> p \<le> 65535 \<Longrightarrow> normalize_port (PInt p) label = Inr p"
  by (simp add: normalize_port_def py_int_def)

lemma int_str_pos: "0 \<le> p \<Longrightarrow> int_str p = dec_str p"
  by (simp add: int_str_def)

lemma normalize_port_text:
  assumes "1 \<le> p" "p \<le> 65535"
  shows "normalize_port (PStr (int_str p)) label = Inr p"
  using assms int_of_dec_str_small [of p] by (simp add: normalize_port_def py_int_def int_str_pos)

text \<open>A normalised port text: one port, or two joined by a dash with the lower first.\<close>

definition port_text :: "string \<Rightarrow> bool" where
  "port_text t = (\<exists>p. 1 \<le> p \<and> p \<le> 65535 \<and>
     (t = dec_str p \<or> (\<exists>q. p \<le> q \<and> q \<le> 65535 \<and> t = dec_str p @ ''-'' @ dec_str q)))"

lemma normalize_port_range_text:
  assumes "normalize_port_range v label = Inr t"
  shows "\<exists>p q. 1 \<le> p \<and> p \<le> q \<and> q \<le> 65535 \<and> t = dec_str p @ ''-'' @ dec_str q"
proof -
  from assms obtain g1 g2 p q where
    "normalize_port (PStr g1) label = Inr p" "normalize_port (PStr g2) label = Inr q"
    "p \<le> q" "t = int_str p @ ''-'' @ int_str q"
    by (auto simp: normalize_port_range_def split: option.splits if_splits)
  then show ?thesis using normalize_port_bounds by (intro exI [of _ p] exI [of _ q]) (auto simp: int_str_pos dest: normalize_port_bounds)
qed

lemma ports_of_texts:
  assumes "ports_of key range_key service label = Inr ts"
  shows "list_all port_text ts \<and> distinct ts"
proof -
  from assms obtain ps rs items ranges where
    p: "mapE (\<lambda>item. normalize_port item (label @ ''.'' @ key)) items = Inr ps" and
    r: "mapE (\<lambda>item. normalize_port_range item (label @ ''.'' @ range_key)) ranges = Inr rs" and
    ts: "ts = unique_strs (map int_str ps @ rs)"
    by (auto simp: ports_of_def)
  have "port_text (int_str x)" if "x \<in> set ps" for x
    using mapE_in_set [OF p that] normalize_port_bounds
    by (fastforce simp: port_text_def int_str_pos)
  moreover have "port_text t" if "t \<in> set rs" for t
    using mapE_in_set [OF r that] normalize_port_range_text by (fastforce simp: port_text_def)
  ultimately have "list_all port_text (map int_str ps @ rs)" by (auto simp: list_all_set)
  then have "list_all port_text ts" by (simp add: ts unique_strs_def unique_by_list_all)
  moreover have "distinct ts"
    using unique_by_distinct_keys [of repr_str] by (auto simp: ts unique_strs_def distinct_map)
  ultimately show ?thesis ..
qed

lemma port_range_groups_dec:
  assumes "0 \<le> p" "p < 100000" "0 \<le> q" "q < 100000"
  shows "port_range_groups (dec_str p @ ''-'' @ dec_str q) = Some (dec_str p, dec_str q)"
proof -
  have "length (dec_str p) \<le> 5" "length (dec_str q) \<le> 5" using assms by (auto intro!: dec_str_length)
  moreover have "split_on CHR ''-'' (dec_str p @ CHR ''-'' # dec_str q) = [dec_str p, dec_str q]"
    using dec_str_not_in assms by (simp add: split_on_append split_on_no_sep)
  ultimately show ?thesis
    using assms by (simp add: port_range_groups_def all_in_def dec_str_digits)
qed

lemma strip_dec_range: "0 \<le> p \<Longrightarrow> 0 \<le> q \<Longrightarrow> strip (dec_str p @ ''-'' @ dec_str q) = dec_str p @ ''-'' @ dec_str q"
proof (rule strip_id)
  assume "0 \<le> p" "0 \<le> q"
  moreover have "\<not> is_space CHR ''-''" by (simp add: is_space_def ord_def)
  ultimately show "list_all (\<lambda>c. \<not> is_space c) (dec_str p @ ''-'' @ dec_str q)"
    by (auto simp: list_all_set dest: is_digit_dec_str is_digit_not_space)
qed

lemma normalize_port_range_again:
  assumes "normalize_port_range v label = Inr t"
  shows "normalize_port_range (PStr t) label' = Inr t"
proof -
  from normalize_port_range_text [OF assms] obtain p q where
    pq: "1 \<le> p" "p \<le> q" "q \<le> 65535" and t: "t = dec_str p @ ''-'' @ dec_str q" by blast
  have "normalize_port (PStr (dec_str p)) label' = Inr p" "normalize_port (PStr (dec_str q)) label' = Inr q"
    using normalize_port_text [of p] normalize_port_text [of q] pq by (simp_all add: int_str_pos)
  then show ?thesis
    using pq port_range_groups_dec [of p q] strip_dec_range [of p q]
    by (simp add: normalize_port_range_def t int_str_pos)
qed

subsection \<open>Networks\<close>

text \<open>What one network text contributes to the two lists.\<close>

definition net_texts :: "ip_version \<Rightarrow> pyval list \<Rightarrow> string list" where
  "net_texts v raws = map net_str (filter (\<lambda>n. net_ver n = v)
     (List.map_filter (\<lambda>raw. ip_network (strip (py_str raw))) raws))"

lemma parse_step_result:
  assumes "foldE (parse_network_step label) (a4, a6, c) raws = Inr (b4, b6, c')"
  shows "b4 = a4 @ net_texts V4 (filter (\<lambda>r. strip (py_str r) \<noteq> []) raws)
    \<and> b6 = a6 @ net_texts V6 (filter (\<lambda>r. strip (py_str r) \<noteq> []) raws)"
  using assms
proof (induction raws arbitrary: a4 a6 c)
  case Nil
  then show ?case by (simp add: net_texts_def map_filter_simps)
next
  case (Cons raw raws)
  from Cons.prems obtain x4 x6 cx where
    st: "parse_network_step label (a4, a6, c) raw = Inr (x4, x6, cx)"
    and rest: "foldE (parse_network_step label) (x4, x6, cx) raws = Inr (b4, b6, c')"
    by (auto split: prod.splits)
  from st have "x4 = a4 @ net_texts V4 (filter (\<lambda>r. strip (py_str r) \<noteq> []) [raw])
      \<and> x6 = a6 @ net_texts V6 (filter (\<lambda>r. strip (py_str r) \<noteq> []) [raw])"
    by (auto simp: parse_network_step_def Let_def net_texts_def map_filter_simps
        split: if_splits option.splits ip_version.splits)
  then show ?case using Cons.IH [OF rest] by (auto simp: net_texts_def map_filter_simps split: option.splits)
qed

lemma parse_networks_texts:
  assumes "parse_networks raws label ctx = Inr (v4, v6, ctx')"
  shows "v4 = unique_strs (net_texts V4 (filter (\<lambda>r. strip (py_str r) \<noteq> []) raws))
    \<and> v6 = unique_strs (net_texts V6 (filter (\<lambda>r. strip (py_str r) \<noteq> []) raws))"
  using assms by (auto simp: parse_networks_def dest!: parse_step_result)

lemma starts_with_set: "starts_with p s \<Longrightarrow> set p \<subseteq> set s"
  by (induction p s rule: starts_with.induct) auto

lemma contains_set: "contains p s \<Longrightarrow> set p \<subseteq> set s"
proof (induction p s rule: contains.induct)
  case (2 p c cs)
  then show ?case using starts_with_set [of p "c # cs"] by auto
qed simp

lemma angle_placeholder_set: "angle_placeholder s \<Longrightarrow> CHR ''<'' \<in> set s"
  by (induction s) auto

lemma net_char_lower: "net_char c \<Longrightarrow> lower_char c = c"
  by (auto simp: net_char_def lower_char_def ord_def)

lemma net_text_plain:
  assumes "list_all net_char s"
  shows "\<not> unresolved s" "strip s = s"
proof -
  have l: "lower s = s"
    unfolding lower_def using assms net_char_lower by (induction s) auto
  have "\<not> net_char CHR ''$''" "\<not> net_char CHR ''<''" "\<not> net_char CHR ''y''" "\<not> net_char CHR ''h''"
    "\<not> net_char CHR ''t''"
    by (simp_all add: net_char_def)
  then have "CHR ''$'' \<notin> set s" "CHR ''<'' \<notin> set s" "CHR ''y'' \<notin> set s" "CHR ''h'' \<notin> set s"
    "CHR ''t'' \<notin> set s"
    using assms by (auto simp: list_all_set)
  then show "\<not> unresolved s"
    unfolding unresolved_def l using contains_set angle_placeholder_set by fastforce
  have "\<not> is_space c" if "net_char c" for c
    using that by (auto simp: net_char_def is_space_def ord_def)
  then show "strip s = s" using assms by (intro strip_id) (auto simp: list_all_set)
qed

lemma net_str_plain_V4:
  assumes "net_ver n = V4"
  shows "\<not> unresolved (net_str n)" "strip (net_str n) = net_str n" "net_str n \<noteq> []"
proof -
  have "list_all net_char (net_str n)"
    using assms by (simp add: net_str_def addr_str_def del: dec_str_small dec_str_step)
  then show "\<not> unresolved (net_str n)" "strip (net_str n) = net_str n" by (rule net_text_plain)+
  show "net_str n \<noteq> []" by (simp add: net_str_def)
qed

text \<open>A text the list of IPv4 networks may contain.\<close>

definition canonical_v4 :: "string \<Rightarrow> bool" where
  "canonical_v4 t = (\<exists>n. net_wf n \<and> net_ver n = V4 \<and> net_scope n = None \<and> t = net_str n)"

lemma net_texts_V4: "list_all canonical_v4 (net_texts V4 raws)"
  using ip_network_wf ip_network_V4_scope
  by (fastforce simp: net_texts_def list_all_set canonical_v4_def List.map_filter_def)

lemma parse_network_step_canonical:
  assumes "canonical_v4 t"
  shows "\<exists>c'. parse_network_step label (v4, v6, c) (PStr t) = Inr (v4 @ [t], v6, c')"
proof -
  from assms obtain n where n: "net_wf n" "net_ver n = V4" "net_scope n = None" and t: "t = net_str n"
    by (auto simp: canonical_v4_def)
  have "ip_network t = Some n" unfolding t by (rule ip_network_net_str_V4 [OF n])
  then show ?thesis
    using net_str_plain_V4 [OF n(2)] n(2) unfolding t
    by (simp add: parse_network_step_def Let_def)
qed

lemma parse_steps_canonical:
  "list_all canonical_v4 ts \<Longrightarrow>
     \<exists>c'. foldE (parse_network_step label) (v4, v6, c) (map PStr ts) = Inr (v4 @ ts, v6, c')"
proof (induction ts arbitrary: v4 c)
  case (Cons t ts)
  then obtain c1 where "parse_network_step label (v4, v6, c) (PStr t) = Inr (v4 @ [t], v6, c1)"
    using parse_network_step_canonical by fastforce
  then show ?case using Cons.IH [of "v4 @ [t]" c1] Cons.prems by simp
qed simp

subsection \<open>Properties\<close>

text \<open>Port lists: the port texts of a service are distinct, every one is a port of 1..65535 or a
  range of two such ports in ascending order, and the destination-port builder accepts them.\<close>

theorem normalize_ports_texts:
  assumes "normalize_ports service label = Inr ts"
  shows "list_all port_text ts \<and> distinct ts
    \<and> (\<exists>pm. port_match proto ts ''d'' = Inr pm)"
proof -
  have "ts \<noteq> [] \<Longrightarrow> \<exists>s. nft_set ts False = Inr s"
    by (cases ts; cases "tl ts") (auto simp: nft_set_def render_elems_def)
  then show ?thesis
    using assms ports_of_texts [of "''ports''" "''port_ranges''" service label ts]
    by (auto simp: normalize_ports_def port_match_def)
qed

theorem normalize_ports_texts_witness:
  "list_all port_text [''22'', ''8000-8080''] \<and> distinct [''22'', ''8000-8080'']
    \<and> (\<exists>pm. port_match ''tcp'' [''22'', ''8000-8080''] ''d'' = Inr pm)"
proof (rule normalize_ports_texts)
  show "normalize_ports [(''ports'', PList [PInt 22, PStr ''22'']), (''port_ranges'', PList [PStr '' 08000-8080''])]
      ''s'' = Inr [''22'', ''8000-8080'']"
    by code_simp
qed

text \<open>Port ranges are canonical: a normalised range text normalises to itself under any
  label.\<close>

theorem normalize_port_range_idem:
  assumes "normalize_port_range v label = Inr t"
  shows "normalize_port_range (PStr t) label' = Inr t"
  using assms by (rule normalize_port_range_again)

theorem normalize_port_range_idem_witness:
  "normalize_port_range (PStr ''80-443'') ''b'' = Inr ''80-443''"
proof (rule normalize_port_range_idem)
  show "normalize_port_range (PStr '' 0080-443 '') ''a'' = Inr ''80-443''" by code_simp
qed

text \<open>IPv4 lists are canonical: the IPv4 list that \<open>parse_networks\<close> returns has no duplicate,
  and parsing it again, under any label and context, returns the same list and no IPv6 text; so the
  texts in a define and in a rule denote the networks that were validated.\<close>

theorem parse_networks_v4_idem:
  assumes "parse_networks raws label ctx = Inr (v4, v6, ctx')"
  shows "distinct v4 \<and> (\<exists>c. parse_networks (map PStr v4) label' ctx2 = Inr (v4, [], c))"
proof -
  let ?ts = "net_texts V4 (filter (\<lambda>r. strip (py_str r) \<noteq> []) raws)"
  have v4: "v4 = unique_strs ?ts" using parse_networks_texts [OF assms] by simp
  then have d: "distinct (map repr_str v4)" by (simp add: unique_strs_def unique_by_distinct_keys)
  have "list_all canonical_v4 v4"
    unfolding v4 unique_strs_def by (rule unique_by_list_all [OF net_texts_V4])
  from parse_steps_canonical [OF this, of label' "[]" "[]" ctx2] obtain c where
    "foldE (parse_network_step label') ([], [], ctx2) (map PStr v4) = Inr (v4, [], c)" by auto
  then have "parse_networks (map PStr v4) label' ctx2 = Inr (v4, [], c)"
    using unique_by_id [OF d] by (simp add: parse_networks_def unique_strs_def unique_by_def)
  then show ?thesis using d by (auto simp: distinct_map)
qed

theorem parse_networks_v4_idem_witness:
  "distinct [''10.0.0.0/8''] \<and>
     (\<exists>c. parse_networks (map PStr [''10.0.0.0/8'']) ''b'' empty_context = Inr ([''10.0.0.0/8''], [], c))"
proof (rule parse_networks_v4_idem)
  show "parse_networks [PStr '' 10.9.8.7/8'', PStr ''10.0.0.0/255.0.0.0'', PStr ''fd00::1/64''] ''a'' empty_context
    = Inr ([''10.0.0.0/8''], [''fd00::/64''], empty_context)"
    by code_simp
qed

end
