(* ===== verification/NftRulesFacts.thy ===== *)
theory NftRulesFacts
  imports NftNormFacts NftSafety
begin

text \<open>
  Facts about the fragments and the match expressions: the base policies, the table identities, the
  shape of \<open>nftables.conf\<close>, and that an address constraint is never lost on the way to a rule.
\<close>

subsection \<open>Identifiers, families, chains\<close>

lemma validate_nft_identifier_ok: "validate_nft_identifier v label = Inr t \<Longrightarrow> nft_ident_ok t"
  by (auto simp: validate_nft_identifier_def Let_def split: if_splits)

lemma validate_nft_family_ok: "validate_nft_family v label allowed = Inr t \<Longrightarrow> t \<in> set allowed"
  by (auto simp: validate_nft_family_def Let_def split: if_splits)

lemma family_table_ok:
  "family_table policy = Inr (family, tbl) \<Longrightarrow> family \<in> set NFT_FAMILIES \<and> nft_ident_ok tbl"
  by (auto simp: family_table_def dest: validate_nft_identifier_ok validate_nft_family_ok)

lemma chain_names_ok: "chain_names policy = Inr ch \<Longrightarrow> list_all nft_ident_ok (chain_list ch)"
  by (auto simp: chain_names_def chain_name_def chain_list_def dest: validate_nft_identifier_ok)

lemma nft_ident_ok_chars: "nft_ident_ok s \<Longrightarrow> list_all ident_char s"
  by (auto simp: nft_ident_ok_def ident_char_def is_alnum_def split: list.splits)

subsection \<open>The base fragment\<close>

lemma render_baseE:
  assumes "render_base policy = Inr t"
  obtains nft policies family tbl ch out where
    "family_table policy = Inr (family, tbl)" "chain_names policy = Inr ch"
    "as_dict (dget ''policies'' policy) ''policies'' = Inr policies"
    "base_output_policy policy policies = Inr out"
    "t = base_text family tbl ch (lower (py_str (dget_or ''input'' (PStr ''drop'') policies)))
           (lower (py_str (dget_or ''forward'' (PStr ''drop'') policies))) out"
    "{lower (py_str (dget_or ''input'' (PStr ''drop'') policies)),
      lower (py_str (dget_or ''forward'' (PStr ''drop'') policies)), out} \<subseteq> {''accept'', ''drop''}"
  using assms
  by (auto simp: render_base_def base_policy_ok_def Let_def split: if_splits)

subsection \<open>Address constraints\<close>

lemma any_list_non_empty_False:
  "any_list_non_empty d label keys = Inr False \<Longrightarrow> k \<in> set keys \<Longrightarrow>
     as_list (dget k d) (label @ ''.'' @ k) = Inr []"
  by (induction d label keys rule: any_list_non_empty.induct) (auto split: if_splits)

lemma starts_with_append [simp]: "starts_with p (p @ s)"
  by (induction p) auto

text \<open>An address match: the family keyword, a direction, then a set or a reference.\<close>

definition address_match :: "ip_version \<Rightarrow> string \<Rightarrow> bool" where
  "address_match version e = (\<exists>role s. role \<in> {''saddr'', ''daddr''}
     \<and> e = ip_keyword version @ '' '' @ role @ '' '' @ s)"

lemma unique_strs_set: "set (unique_strs xs) = set xs"
  unfolding unique_strs_def by (rule unique_by_inj_set) (auto simp: inj_on_def repr_str_inj)

lemma unique_strs_distinct: "distinct (unique_strs xs)"
  using unique_by_distinct_keys [of repr_str xs] by (auto simp: unique_strs_def distinct_map)

lemma ip_match_exprs_cases:
  assumes "ip_match_exprs maps allow version role label ctx = Inr (es, ctx')" "role \<in> {''saddr'', ''daddr''}"
  shows "(allow_has_any_ip_constraints allow label = Inr False \<and> es = [[]])
    \<or> (list_all (address_match version) es)"
proof -
  from assms(1) obtain constrained refs direct c2 where
    c: "allow_has_any_ip_constraints allow label = Inr constrained"
    and es: "(if refs = [] \<and> direct = [] then Inr (if constrained then [] else [[]], c2)
     else
       (let from_refs = map (\<lambda>r. ip_keyword version @ '' '' @ role @ '' '' @ r) refs in
        if direct = [] then Inr (unique_strs from_refs, c2)
        else
          bindE (nft_set direct False) (\<lambda>s.
          let fld = (if networks_are_multicast direct then ''daddr'' else role)
          in Inr (unique_strs (from_refs @ [ip_keyword version @ '' '' @ fld @ '' '' @ s]), c2))))
     = Inr (es, ctx')"
    by (auto simp: ip_match_exprs_def)
  have am: "address_match version (ip_keyword version @ '' '' @ r @ '' '' @ s)"
    if "r \<in> {''saddr'', ''daddr''}" for r s
    using that by (auto simp: address_match_def)
  note am2 = am [of "''saddr''", simplified] am [of "''daddr''", simplified]
  show ?thesis
  proof (cases "refs = [] \<and> direct = []")
    case True
    then show ?thesis using es c by (cases constrained) auto
  next
    case False
    then have "list_all (address_match version) es"
      using es assms(2) by (auto simp: Let_def list_all_set unique_strs_set am2 split: if_splits)
    then show ?thesis ..
  qed
qed

text \<open>A constrained allowlist never gives the empty match.\<close>

lemma ip_match_exprs_closed:
  assumes "ip_match_exprs maps allow version role label ctx = Inr (es, ctx')" "role \<in> {''saddr'', ''daddr''}"
    and "allow_has_any_ip_constraints allow label = Inr True"
  shows "list_all (address_match version) es"
  using ip_match_exprs_cases [OF assms(1,2)] assms(3) by auto

subsection \<open>Interface constraints\<close>

definition iface_match :: "string \<Rightarrow> string \<Rightarrow> bool" where
  "iface_match direction e = (\<exists>s. e = if_keyword direction @ '' '' @ s)"

lemma direct_if_exprs_match:
  "direct_if_exprs (if_keyword direction) direct = Inr es \<Longrightarrow> list_all (iface_match direction) es"
  by (auto simp: direct_if_exprs_def iface_match_def list_all_set split: if_splits prod.splits)

lemma interface_match_exprs_cases:
  assumes "interface_match_exprs maps block direction label = Inr es"
  shows "es = [[]] \<or> (es \<noteq> [] \<and> list_all (iface_match direction) es)"
proof -
  from assms obtain ds refs where
    d: "list_all (iface_match direction) ds"
    and es: "es = (let exprs = unique_strs (ds @ map (\<lambda>r. if_keyword direction @ '' '' @ r) refs)
                   in if exprs = [] then [[]] else exprs)"
    by (auto simp: interface_match_exprs_def Let_def dest!: direct_if_exprs_match)
  have "list_all (iface_match direction)
      (unique_strs (ds @ map (\<lambda>r. if_keyword direction @ '' '' @ r) refs))"
    using d by (auto simp: list_all_set unique_strs_set iface_match_def)
  then show ?thesis using es by (auto simp: Let_def)
qed

text \<open>Direct interfaces are never dropped: a block with one has no empty match.\<close>

lemma interface_match_exprs_direct:
  assumes "interface_match_exprs maps block direction label = Inr es"
    and "as_list (dget ''interfaces'' block) (label @ ''.interfaces'') = Inr raws" "raws \<noteq> []"
  shows "list_all (iface_match direction) es \<and> es \<noteq> []"
proof -
  from assms obtain direct ds refs where
    m: "mapE (\<lambda>x. validate_interface x (label @ ''.interfaces'')) raws = Inr direct"
    and d: "direct_if_exprs (if_keyword direction) direct = Inr ds"
    and es: "es = (let exprs = unique_strs (ds @ map (\<lambda>r. if_keyword direction @ '' '' @ r) refs)
                   in if exprs = [] then [[]] else exprs)"
    by (auto simp: interface_match_exprs_def Let_def)
  have "direct \<noteq> []" using mapE_length [OF m] assms(3) by auto
  then obtain x where "x \<in> set direct" by (cases direct) auto
  then have "ds \<noteq> []"
    using d by (cases "CHR ''*'' \<in> set x")
      (auto simp: direct_if_exprs_def split_interface_patterns_def filter_empty_conv
        dest: arg_cong [where f = set] simp flip: set_empty split: if_splits simp: unique_strs_set)
  then have "unique_strs (ds @ map (\<lambda>r. if_keyword direction @ '' '' @ r) refs) \<noteq> []"
    by (simp add: unique_strs_def)
  then have "es = unique_strs (ds @ map (\<lambda>r. if_keyword direction @ '' '' @ r) refs)"
    by (simp add: es Let_def)
  then show ?thesis
    using direct_if_exprs_match [OF d] \<open>unique_strs _ \<noteq> []\<close>
    by (auto simp: list_all_set unique_strs_set iface_match_def)
qed

subsection \<open>Service rules keep the address match\<close>

lemma join_contains:
  "x \<in> set xs \<Longrightarrow> \<exists>pre post. join d xs = pre @ x @ post"
proof (induction d xs rule: join.induct)
  case (3 d y z zs)
  show ?case
  proof (cases "x = y")
    case True
    then have "join d (y # z # zs) = [] @ x @ (d @ join d (z # zs))" by simp
    then show ?thesis by blast
  next
    case False
    then obtain pre post where "join d (z # zs) = pre @ x @ post" using 3 by auto
    then have "join d (y # z # zs) = (y @ d @ pre) @ x @ post" by simp
    then show ?thesis by blast
  qed
qed (auto intro: exI [of _ "[]"])

definition has_address_match :: "ip_version \<Rightarrow> string \<Rightarrow> bool" where
  "has_address_match version r = (\<exists>pre e post. address_match version e \<and> r = pre @ e @ post)"

lemma address_match_non_empty: "address_match version e \<Longrightarrow> e \<noteq> []"
  by (auto simp: address_match_def)

lemma inbound_rule_keeps:
  assumes "inbound_rule policy chain name service proto ports (i, e) = Inr r" "address_match version e"
  shows "has_address_match version r"
proof -
  from assms(1) obtain family tbl xs where
    "r = ''add rule '' @ family @ '' '' @ tbl @ '' '' @ chain @ '' '' @ join '' '' (non_empty (i # e # xs))"
    by (auto simp: inbound_rule_def add_rule_def)
  moreover have "e \<in> set (non_empty (i # e # xs))"
    using address_match_non_empty [OF assms(2)] by (simp add: non_empty_def)
  then obtain pre post where "join '' '' (non_empty (i # e # xs)) = pre @ e @ post"
    using join_contains by blast
  ultimately have "r = (''add rule '' @ family @ '' '' @ tbl @ '' '' @ chain @ '' '' @ pre) @ e @ post" by simp
  then show ?thesis unfolding has_address_match_def using assms(2) by blast
qed

lemma outbound_rule_keeps:
  assumes "outbound_rule policy chain name spec proto ports sports source (i, e) = Inr r"
    and "address_match version e"
  shows "has_address_match version r"
proof -
  from assms(1) obtain family tbl xs where
    "r = ''add rule '' @ family @ '' '' @ tbl @ '' '' @ chain @ '' '' @ join '' '' (non_empty (i # e # xs))"
    by (auto simp: outbound_rule_def add_rule_def)
  moreover have "e \<in> set (non_empty (i # e # xs))"
    using address_match_non_empty [OF assms(2)] by (simp add: non_empty_def)
  then obtain pre post where "join '' '' (non_empty (i # e # xs)) = pre @ e @ post"
    using join_contains by blast
  ultimately have "r = (''add rule '' @ family @ '' '' @ tbl @ '' '' @ chain @ '' '' @ pre) @ e @ post" by simp
  then show ?thesis unfolding has_address_match_def using assms(2) by blast
qed

lemma inbound_rules_keep:
  assumes "build_inbound_rules_for_ip_version policy maps name service proto ports version ctx = Inr (rules, ctx')"
    and "as_dict (dget ''allow'' service) (''services.'' @ name @ ''.allow'') = Inr allow"
    and "allow_has_any_ip_constraints allow (''services.'' @ name @ ''.allow'') = Inr True"
  shows "list_all (has_address_match version) rules"
proof -
  from assms(1,2) obtain es c where
    ip: "ip_match_exprs maps allow version ''saddr'' (''services.'' @ name @ ''.allow'') ctx = Inr (es, c)"
    and r: "rules = [] \<or> (\<exists>(ch :: chains) is. mapE (inbound_rule policy (ch_input ch) name service proto ports)
        (List.product is es) = Inr rules)"
    by (auto simp: build_inbound_rules_for_ip_version_def Let_def split: if_splits)
  have "list_all (address_match version) es" using ip_match_exprs_closed [OF ip _ assms(3)] by simp
  then show ?thesis
    using r by (auto simp: list_all_set dest!: mapE_in_set intro: inbound_rule_keeps)
qed

lemma outbound_rules_keep:
  assumes "build_outbound_rules_for_ip_version policy maps name spec proto ports version source ctx = Inr (rules, ctx')"
    and "as_dict (dget ''allow_to'' spec) (source @ ''.'' @ name @ ''.allow_to'') = Inr allow"
    and "allow_has_any_ip_constraints allow (source @ ''.'' @ name @ ''.allow_to'') = Inr True"
  shows "list_all (has_address_match version) rules"
proof -
  from assms(1,2) obtain es c where
    ip: "ip_match_exprs maps allow version ''daddr'' (source @ ''.'' @ name @ ''.allow_to'') ctx = Inr (es, c)"
    and r: "rules = [] \<or> (\<exists>(ch :: chains) is sp. mapE (outbound_rule policy (ch_output ch) name spec proto ports sp source)
        (List.product is es) = Inr rules)"
    by (auto simp: build_outbound_rules_for_ip_version_def Let_def split: if_splits) blast
  have "list_all (address_match version) es" using ip_match_exprs_closed [OF ip _ assms(3)] by simp
  then show ?thesis
    using r by (auto simp: list_all_set dest!: mapE_in_set intro: outbound_rule_keeps)
qed

subsection \<open>Allowlist guards\<close>

lemma add_rules_map:
  assumes "add_rules policy rules = Inr ls" "family_table policy = Inr (family, tbl)"
  shows "ls = map (\<lambda>(chain, e). ''add rule '' @ family @ '' '' @ tbl @ '' '' @ chain @ '' '' @ e) rules"
  using assms unfolding add_rules_def
  by (induction rules arbitrary: ls) (auto simp: add_rule_def split: prod.splits)

lemma mapE_rule_map:
  assumes "mapE (\<lambda>p. bindE (f p) (\<lambda>m. add_rule policy chain (g m))) ps = Inr ls"
    and "family_table policy = Inr (family, tbl)"
  shows "\<exists>ms. mapE f ps = Inr ms
    \<and> ls = map (\<lambda>m. ''add rule '' @ family @ '' '' @ tbl @ '' '' @ chain @ '' '' @ g m) ms"
  using assms by (induction ps arbitrary: ls) (auto simp: add_rule_def)

text \<open>
  The text of one guard: a chain of its own, one \<open>return\<close> per permitted interface and peer, a
  final \<open>drop\<close>, and the jumps from the hook chain, one per protocol.
\<close>

definition guard_block ::
    "string \<Rightarrow> string \<Rightarrow> string \<Rightarrow> string \<Rightarrow> string \<Rightarrow> string list \<Rightarrow> string list \<Rightarrow> string list" where
  "guard_block family tbl name guard hook matches pms =
     (let pre = ''add rule '' @ family @ '' '' @ tbl @ '' '' in
      [''add chain '' @ family @ '' '' @ tbl @ '' '' @ guard]
      @ map (\<lambda>m. pre @ guard @ '' '' @ m @ '' counter return''
               @ comment_expr (''service '' @ name @ '' allowlist peer'')) matches
      @ [pre @ guard @ '' counter drop'' @ comment_expr (''service '' @ name @ '' allowlist deny'')]
      @ map (\<lambda>pm. pre @ hook @ '' '' @ pm @ '' jump '' @ guard
               @ comment_expr (''service '' @ name @ '' allowlist guard'')) pms)"

lemma guard_rules_block:
  assumes "guard_rules policy family tbl name guard hook matches protos ports = Inr rules"
    and "family_table policy = Inr (family, tbl)"
  shows "\<exists>pms. mapE (\<lambda>proto. port_match proto ports ''d'') protos = Inr pms
    \<and> rules = guard_block family tbl name guard hook matches pms"
proof -
  from assms(1) obtain body jumps where
    b: "add_rules policy (map (\<lambda>m. (guard, m @ '' counter return''
           @ comment_expr (''service '' @ name @ '' allowlist peer''))) matches
        @ [(guard, ''counter drop'' @ comment_expr (''service '' @ name @ '' allowlist deny''))]) = Inr body"
    and j: "mapE (\<lambda>proto. bindE (port_match proto ports ''d'') (\<lambda>pm.
              add_rule policy hook (pm @ '' jump '' @ guard
                @ comment_expr (''service '' @ name @ '' allowlist guard'')))) protos = Inr jumps"
    and r: "rules = (''add chain '' @ family @ '' '' @ tbl @ '' '' @ guard) # body @ jumps"
    unfolding guard_rules_def by (auto simp del: mapE.simps append.simps append_assoc)
  from mapE_rule_map [OF j assms(2)] obtain pms where
    "mapE (\<lambda>proto. port_match proto ports ''d'') protos = Inr pms"
    "jumps = map (\<lambda>pm. ''add rule '' @ family @ '' '' @ tbl @ '' '' @ hook @ '' '' @ (pm @ '' jump '' @ guard
                @ comment_expr (''service '' @ name @ '' allowlist guard''))) pms" by blast
  then show ?thesis
    using add_rules_map [OF b assms(2)] r by (auto simp: guard_block_def Let_def comp_def)
qed

lemma guard_service_parts:
  assumes "guard_service policy maps name service ctx = Inr (rules, ctx')"
  defines "inb \<equiv> lower (py_str (dget_or ''direction'' (PStr ''inbound'') service)) = ''inbound''"
  defines "fl \<equiv> ''services.'' @ name @ ''.'' @ (if inb then ''allow'' else ''allow_to'')"
  obtains family tbl ch ports allow interfaces ips4 c4 ips6 guard protos where
    "family_table policy = Inr (family, tbl)" "chain_names policy = Inr ch"
    "normalize_ports service (''services.'' @ name) = Inr ports" "ports \<noteq> []"
    "normalize_protocols service (''services.'' @ name) = Inr protos"
    "guard \<notin> set (chain_list ch)" "nft_ident_ok guard"
    "as_dict (dget (if inb then ''allow'' else ''allow_to'') service) fl = Inr allow"
    "allow_has_any_ip_constraints allow fl = Inr True"
    "interface_match_exprs maps allow (if inb then ''in'' else ''out'') fl = Inr interfaces" "interfaces \<noteq> [[]]"
    "ip_match_exprs maps allow V4 (if inb then ''saddr'' else ''daddr'') fl ctx = Inr (ips4, c4)"
    "ip_match_exprs maps allow V6 (if inb then ''saddr'' else ''daddr'') fl c4 = Inr (ips6, ctx')"
    "guard_matches interfaces (ips4 @ ips6) \<noteq> []"
    "guard_rules policy family tbl name guard (if inb then ch_input ch else ch_output ch)
       (guard_matches interfaces (ips4 @ ips6)) protos ports = Inr rules"
  using assms(1) unfolding guard_service_def Let_def inb_def [symmetric] fl_def
  by (auto simp del: append.simps split: if_splits dest: validate_nft_identifier_ok)

lemma normalize_protocols_nonempty:
  assumes "normalize_protocols service label = Inr protos"
  shows "protos \<noteq> [] \<and> set protos \<subseteq> set PROTO_SET"
proof -
  from assms obtain ps where ps: "ps \<noteq> []" "filter (\<lambda>p. p \<notin> set PROTO_SET) ps = []"
    and "protos = unique_strs ps"
    by (auto simp: normalize_protocols_def Let_def split: if_splits list.splits)
  then have "set protos = set ps" by (simp add: unique_strs_set)
  moreover have "set ps \<subseteq> set PROTO_SET" using ps(2) by (auto simp: filter_empty_conv)
  moreover have "set ps \<noteq> {}" using ps(1) by simp
  ultimately show ?thesis by force
qed

text \<open>The ports of a jump: one port as it is, several as an anonymous set.\<close>

fun ports_text :: "string list \<Rightarrow> string" where
  "ports_text [p] = p"
| "ports_text ps = ''{ '' @ join '', '' ps @ '' }''"

text \<open>Every port and range that the service lists, normalised, and no other.\<close>

definition listed_ports :: "pydict \<Rightarrow> string \<Rightarrow> string list \<Rightarrow> bool" where
  "listed_ports service label ports =
     (\<exists>items ranges ps rs.
        as_list (dget ''ports'' service) (label @ ''.ports'') = Inr items
        \<and> mapE (\<lambda>item. normalize_port item (label @ ''.ports'')) items = Inr ps
        \<and> as_list (dget ''port_ranges'' service) (label @ ''.port_ranges'') = Inr ranges
        \<and> mapE (\<lambda>item. normalize_port_range item (label @ ''.port_ranges'')) ranges = Inr rs
        \<and> set ports = int_str ` set ps \<union> set rs)"

text \<open>
  The block of one guarded service: its peers are the interfaces and the addresses of both families
  that the allowlist of its direction resolves to, each pair once; there is one jump per protocol of
  the service, each for all its ports.
\<close>

definition guarded_block :: "pydict \<Rightarrow> define_maps \<Rightarrow> string \<Rightarrow> pydict \<Rightarrow> string list \<Rightarrow> bool" where
  "guarded_block policy maps name service block =
     (let inbound = (lower (py_str (dget_or ''direction'' (PStr ''inbound'') service)) = ''inbound'');
          label = ''services.'' @ name;
          fld = (if inbound then ''allow'' else ''allow_to'');
          allow_label = label @ ''.'' @ fld;
          dir = (if inbound then ''in'' else ''out'');
          role = (if inbound then ''saddr'' else ''daddr'') in
      \<exists>family tbl ch guard ports protos allow interfaces ips4 ips6 c0 c1 c2.
        family_table policy = Inr (family, tbl) \<and> chain_names policy = Inr ch
        \<and> nft_ident_ok guard \<and> guard \<notin> set (chain_list ch)
        \<and> listed_ports service label ports \<and> ports \<noteq> []
        \<and> normalize_protocols service label = Inr protos \<and> protos \<noteq> [] \<and> set protos \<subseteq> set PROTO_SET
        \<and> as_dict (dget fld service) allow_label = Inr allow
        \<and> interface_match_exprs maps allow dir allow_label = Inr interfaces
        \<and> ip_match_exprs maps allow V4 role allow_label c0 = Inr (ips4, c1)
        \<and> ip_match_exprs maps allow V6 role allow_label c1 = Inr (ips6, c2)
        \<and> interfaces \<noteq> [] \<and> ips4 @ ips6 \<noteq> []
        \<and> list_all (iface_match dir) interfaces
        \<and> list_all (address_match V4) ips4 \<and> list_all (address_match V6) ips6
        \<and> block = guard_block family tbl name guard (if inbound then ch_input ch else ch_output ch)
            (concat (map (\<lambda>ip. map (\<lambda>iface. iface @ '' '' @ ip) interfaces) (ips4 @ ips6)))
            (map (\<lambda>proto. proto @ '' dport '' @ ports_text ports) protos))"

lemma port_match_text:
  "port_match proto ports ''d'' = Inr pm \<Longrightarrow> ports \<noteq> [] \<Longrightarrow> pm = proto @ '' dport '' @ ports_text ports"
  by (cases ports rule: ports_text.cases) (auto simp: port_match_def nft_set_def render_elems_def)

lemma port_matches_text:
  assumes "mapE (\<lambda>proto. port_match proto ports ''d'') protos = Inr pms" "ports \<noteq> []"
  shows "pms = map (\<lambda>proto. proto @ '' dport '' @ ports_text ports) protos"
  using assms(1) by (induction protos arbitrary: pms) (auto dest: port_match_text [OF _ assms(2)])

lemma normalize_ports_listed:
  "normalize_ports service label = Inr ports \<Longrightarrow> listed_ports service label ports"
  by (fastforce simp: normalize_ports_def ports_of_def listed_ports_def unique_strs_set)

lemma guard_service_block:
  assumes "guard_service policy maps name service ctx = Inr (rules, ctx')"
  shows "guarded_block policy maps name service rules"
proof -
  define inb where "inb \<longleftrightarrow> lower (py_str (dget_or ''direction'' (PStr ''inbound'') service)) = ''inbound''"
  define fld where "fld = (if inb then ''allow'' else ''allow_to'')"
  let ?dir = "if inb then ''in'' else ''out''" and ?role = "if inb then ''saddr'' else ''daddr''"
  let ?fl = "''services.'' @ name @ ''.'' @ fld"
  from assms obtain family tbl ch ports allow interfaces ips4 c4 ips6 guard protos where
    h: "family_table policy = Inr (family, tbl)" "chain_names policy = Inr ch"
      "normalize_ports service (''services.'' @ name) = Inr ports" "ports \<noteq> []"
      "normalize_protocols service (''services.'' @ name) = Inr protos"
      "guard \<notin> set (chain_list ch)" "nft_ident_ok guard"
      "as_dict (dget fld service) ?fl = Inr allow"
    and constrained: "allow_has_any_ip_constraints allow ?fl = Inr True"
    and ifs: "interface_match_exprs maps allow ?dir ?fl = Inr interfaces" "interfaces \<noteq> [[]]"
    and i4: "ip_match_exprs maps allow V4 ?role ?fl ctx = Inr (ips4, c4)"
    and i6: "ip_match_exprs maps allow V6 ?role ?fl c4 = Inr (ips6, ctx')"
    and ne: "guard_matches interfaces (ips4 @ ips6) \<noteq> []"
    and g: "guard_rules policy family tbl name guard (if inb then ch_input ch else ch_output ch)
       (guard_matches interfaces (ips4 @ ips6)) protos ports = Inr rules"
    unfolding inb_def fld_def by (rule guard_service_parts)
  have m: "list_all (address_match V4) ips4" "list_all (address_match V6) ips6"
    using ip_match_exprs_closed [OF i4 _ constrained] ip_match_exprs_closed [OF i6 _ constrained] by auto
  have i: "list_all (iface_match ?dir) interfaces" "interfaces \<noteq> []"
    using interface_match_exprs_cases [OF ifs(1)] ifs(2) by auto
  have e: "ips4 @ ips6 \<noteq> []" using ne by (auto simp: guard_matches_def)
  from guard_rules_block [OF g h(1)] obtain pms where
    pms: "mapE (\<lambda>proto. port_match proto ports ''d'') protos = Inr pms"
    and r: "rules = guard_block family tbl name guard (if inb then ch_input ch else ch_output ch)
      (guard_matches interfaces (ips4 @ ips6)) pms" by blast
  have p: "protos \<noteq> []" "set protos \<subseteq> set PROTO_SET" using normalize_protocols_nonempty [OF h(5)] by auto
  show ?thesis
    unfolding guarded_block_def Let_def inb_def [symmetric] append_assoc fld_def [symmetric]
    by (intro exI conjI)
      (use h normalize_ports_listed [OF h(3)] ifs(1) i4 i6 m i e p r port_matches_text [OF pms h(4)]
        in \<open>simp_all add: guard_matches_def\<close>)
qed

lemma guard_steps_grow:
  assumes "foldE (guard_step policy maps) (rules, ctx) es = Inr (rules', ctx')"
  shows "\<exists>t. rules' = rules @ t"
  using assms
proof (induction es arbitrary: rules ctx)
  case (Cons e es)
  then obtain r1 c1 where s: "guard_step policy maps (rules, ctx) e = Inr (r1, c1)"
    and rest: "foldE (guard_step policy maps) (r1, c1) es = Inr (rules', ctx')" by (auto split: prod.splits)
  have "\<exists>t. r1 = rules @ t" using s by (auto simp: guard_step_def split: prod.splits if_splits)
  then show ?case using Cons.IH [OF rest] by auto
qed simp

lemma guard_steps_block:
  assumes "foldE (guard_step policy maps) (rules, ctx) es = Inr (rules', ctx')" "(name, raw) \<in> set es"
    and "as_dict raw (''services.'' @ name) = Inr service"
    and "as_bool (dget ''enabled'' service) False = Inr True"
    and "as_bool (dget ''enforce_allowlist'' service) False = Inr True"
  shows "\<exists>pre block post. rules' = pre @ block @ post \<and> guarded_block policy maps name service block"
  using assms(1,2)
proof (induction es arbitrary: rules ctx)
  case (Cons e es)
  then obtain r1 c1 where s: "guard_step policy maps (rules, ctx) e = Inr (r1, c1)"
    and rest: "foldE (guard_step policy maps) (r1, c1) es = Inr (rules', ctx')" by (auto split: prod.splits)
  show ?case
  proof (cases "e = (name, raw)")
    case False
    then show ?thesis using Cons.IH [OF rest] Cons.prems(2) by auto
  next
    case True
    with s assms(3-5) obtain block where "guard_service policy maps name service ctx = Inr (block, c1)"
      and r1: "r1 = rules @ block"
      by (auto simp: guard_step_def split: prod.splits if_splits)
    then have "guarded_block policy maps name service block" by (blast dest: guard_service_block)
    moreover obtain t where "rules' = r1 @ t" using guard_steps_grow [OF rest] by blast
    ultimately show ?thesis using r1 by auto
  qed
qed simp

lemma sorted_items_mem: "map_of d k = Some v \<Longrightarrow> (k, v) \<in> set (sorted_items d)"
  by (force simp: sorted_items_def dget_def dest: map_of_SomeD)

lemma run_section_step:
  "foldE run_section (h, c) (s # ss) = Inr r \<Longrightarrow>
     \<exists>new c1. s c = Inr (new, c1) \<and> foldE run_section (h @ new, c1) ss = Inr r"
  by (auto simp: run_section_def split: prod.splits)

lemma run_sections_prefix:
  "foldE run_section (h, c) ss = Inr (ls, c') \<Longrightarrow> \<exists>t. ls = h @ t"
proof (induction ss arbitrary: h c)
  case (Cons s ss)
  from run_section_step [OF Cons.prems] obtain new c1 where
    "foldE run_section (h @ new, c1) ss = Inr (ls, c')" by blast
  from Cons.IH [OF this] show ?case by auto
qed simp

subsection \<open>Properties\<close>

text \<open>C2 (allowlist guards come first): in the rendered filter lines, every enabled service with an
  enforced allowlist has its guard block: a chain of its own whose rules are one \<open>return\<close> for each pair of
  an interface and an address match that its allowlist resolves to, at least one pair, then an
  unconditional \<open>drop\<close>, and from the hook chain one jump per protocol of the service, each for all the
  ports and ranges it lists. The block stands before every section but the drop of invalid packets and
  the private application network, so no broad accept (established, loopback, local hooks, services)
  precedes it.\<close>

theorem enforced_service_guarded:
  assumes "filter_lines policy maps ctx allow_public = Inr (lines, ctx')"
    and "as_dict (dget ''services'' policy) ''services'' = Inr services"
    and "map_of services name = Some raw"
    and "as_dict raw (''services.'' @ name) = Inr service"
    and "as_bool (dget ''enabled'' service) False = Inr True"
    and "as_bool (dget ''enforce_allowlist'' service) False = Inr True"
  shows "\<exists>cfg ch invalid veth pre block post.
    filter_config policy = Inr cfg \<and> chain_names policy = Inr ch
    \<and> sec_invalid policy cfg ch = Inr invalid \<and> sec_app_veth policy ch = Inr veth
    \<and> lines = FILTER_HEADER @ invalid @ veth @ pre @ block @ post
    \<and> guarded_block policy maps name service block
    \<and> (\<exists>ctx1 guards ctx2 after. build_allowlist_guards policy maps ctx1 = Inr (guards, ctx2)
         \<and> pre @ block @ post = guards @ after \<and> (\<exists>rest. guards = pre @ block @ rest))"
proof -
  from assms(1) obtain ctx1 cfg ch where
    cfg: "filter_config policy = Inr cfg" and ch: "chain_names policy = Inr ch"
    and run: "foldE run_section (FILTER_HEADER, ctx1) (filter_sections policy maps cfg ch) = Inr (lines, ctx')"
    by (auto simp: filter_lines_def run_sections_def)
  obtain rest where secs: "filter_sections policy maps cfg ch =
      lift_lines (sec_invalid policy cfg ch) # lift_lines (sec_app_veth policy ch)
      # build_allowlist_guards policy maps # rest"
    by (simp add: filter_sections_def)
  from run_section_step [OF run [unfolded secs]] obtain invalid c1 where
    inv: "lift_lines (sec_invalid policy cfg ch) ctx1 = Inr (invalid, c1)"
    and r1: "foldE run_section (FILTER_HEADER @ invalid, c1) (lift_lines (sec_app_veth policy ch)
      # build_allowlist_guards policy maps # rest) = Inr (lines, ctx')" by blast
  from run_section_step [OF r1] obtain veth c2 where
    veth: "lift_lines (sec_app_veth policy ch) c1 = Inr (veth, c2)"
    and r2: "foldE run_section ((FILTER_HEADER @ invalid) @ veth, c2)
      (build_allowlist_guards policy maps # rest) = Inr (lines, ctx')" by blast
  from run_section_step [OF r2] obtain guards c3 where
    g: "build_allowlist_guards policy maps c2 = Inr (guards, c3)"
    and r3: "foldE run_section (((FILTER_HEADER @ invalid) @ veth) @ guards, c3) rest = Inr (lines, ctx')"
    by blast
  from run_sections_prefix [OF r3] obtain after where
    lines: "lines = (((FILTER_HEADER @ invalid) @ veth) @ guards) @ after" by blast
  have "foldE (guard_step policy maps) ([], c2) (sorted_items services) = Inr (guards, c3)"
    using g assms(2) by (auto simp: build_allowlist_guards_def)
  from guard_steps_block [OF this sorted_items_mem [OF assms(3)] assms(4-6)] obtain pre block post where
    b: "guards = pre @ block @ post" "guarded_block policy maps name service block" by blast
  have "lines = FILTER_HEADER @ invalid @ veth @ pre @ block @ (post @ after)" using lines b(1) by simp
  moreover have "sec_invalid policy cfg ch = Inr invalid" "sec_app_veth policy ch = Inr veth"
    using inv veth by (auto simp: lift_lines_def)
  moreover have "pre @ block @ (post @ after) = guards @ after" using b(1) by simp
  ultimately show ?thesis using cfg ch b g by blast
qed

text \<open>C31 (inbound rules fail closed): when a service's \<open>allow\<close> names any address or address group,
  of either family, every inbound rule generated for it carries an address match of the rule's
  family; a family for which nothing resolves gets no rule at all.\<close>

theorem inbound_rules_fail_closed:
  assumes "build_inbound_rules_for_ip_version policy maps name service proto ports version ctx = Inr (rules, ctx')"
    and "as_dict (dget ''allow'' service) (''services.'' @ name @ ''.allow'') = Inr allow"
    and "allow_has_any_ip_constraints allow (''services.'' @ name @ ''.allow'') = Inr True"
  shows "list_all (has_address_match version) rules"
  using assms by (rule inbound_rules_keep)

text \<open>Outbound rules fail closed: the same of \<open>allow_to\<close> and the outbound rules.\<close>

theorem outbound_rules_fail_closed:
  assumes "build_outbound_rules_for_ip_version policy maps name spec proto ports version source ctx = Inr (rules, ctx')"
    and "as_dict (dget ''allow_to'' spec) (source @ ''.'' @ name @ ''.allow_to'') = Inr allow"
    and "allow_has_any_ip_constraints allow (source @ ''.'' @ name @ ''.allow_to'') = Inr True"
  shows "list_all (has_address_match version) rules"
  using assms by (rule outbound_rules_keep)

text \<open>Base policies: a rendered base fragment is the fixed text of six chains; the three hook
  policies are \<open>accept\<close> or \<open>drop\<close> and nothing else, the names are nft identifiers, and when egress is
  enforced and the profile names no other policy, output defaults to \<open>drop\<close>.\<close>

theorem render_base_policies:
  assumes "render_base policy = Inr t"
  shows "\<exists>family tbl ch i f out. t = base_text family tbl ch i f out
    \<and> {i, f, out} \<subseteq> {''accept'', ''drop''}
    \<and> family \<in> set NFT_FAMILIES \<and> nft_ident_ok tbl \<and> list_all nft_ident_ok (chain_list ch)
    \<and> (\<forall>egress. egress_enforced policy = Inr True
         \<longrightarrow> as_dict (dget ''egress'' policy) ''egress'' = Inr egress
         \<longrightarrow> \<not> dmem ''default_policy_when_enforced'' egress \<longrightarrow> out = ''drop'')"
proof -
  from assms obtain policies family tbl ch out where
    h: "family_table policy = Inr (family, tbl)" "chain_names policy = Inr ch"
    "base_output_policy policy policies = Inr out"
    and t: "t = base_text family tbl ch (lower (py_str (dget_or ''input'' (PStr ''drop'') policies)))
           (lower (py_str (dget_or ''forward'' (PStr ''drop'') policies))) out"
    and s: "{lower (py_str (dget_or ''input'' (PStr ''drop'') policies)),
      lower (py_str (dget_or ''forward'' (PStr ''drop'') policies)), out} \<subseteq> {''accept'', ''drop''}"
    by (rule render_baseE) auto
  have "lower ''drop'' = ''drop''" by (simp add: lower_def lower_char_def ord_def)
  then have "\<forall>egress. egress_enforced policy = Inr True
         \<longrightarrow> as_dict (dget ''egress'' policy) ''egress'' = Inr egress
         \<longrightarrow> \<not> dmem ''default_policy_when_enforced'' egress \<longrightarrow> out = ''drop''"
    using h(3) by (auto simp: base_output_policy_def dmem_def dget_or_def)
  then show ?thesis using t s family_table_ok [OF h(1)] chain_names_ok [OF h(2)] by blast
qed

end
