(* ===== verification/NftLines.thy ===== *)
theory NftLines
  imports NftRulesFacts
begin

text \<open>
  The lines of the filter fragment. Every line is a comment, blank, or starts with \<open>add rule\<close> or
  \<open>add chain\<close> on the configured table, and no line holds a newline, provided the keys of the policy
  hold none and no text with a scope identifier does. The proviso is needed: an IPv6 scope
  identifier is kept verbatim by \<open>ipaddress\<close>, and a service name is quoted in a log statement.
\<close>

definition net_safe :: "string \<Rightarrow> bool" where
  "net_safe s = (CHR ''%'' \<notin> set s \<or> one_line s)"

fun clean :: "pyval \<Rightarrow> bool" where
  "clean (PFloat t f) = one_line t"
| "clean (PStr s) = net_safe s"
| "clean (PList xs) = list_all clean xs"
| "clean (PDict kvs) = list_all (\<lambda>kv. one_line (fst kv) \<and> clean (snd kv)) kvs"
| "clean PNone = True"
| "clean (PBool b) = True"
| "clean (PInt i) = True"

definition line_ok :: "pydict \<Rightarrow> string \<Rightarrow> bool" where
  "line_ok policy l = (one_line l \<and>
     (l = [] \<or> starts_with ''#'' l
      \<or> (\<exists>family tbl. family_table policy = Inr (family, tbl)
           \<and> (starts_with (''add rule '' @ family @ '' '' @ tbl @ '' '') l
              \<or> starts_with (''add chain '' @ family @ '' '' @ tbl @ '' '') l))))"

subsection \<open>Clean documents\<close>

lemma clean_dget: "clean (PDict d) \<Longrightarrow> clean (dget k d)"
  by (force simp: dget_def list_all_set split: option.splits dest: dget_in_set)

lemma clean_dget_or: "clean (PDict d) \<Longrightarrow> clean v \<Longrightarrow> clean (dget_or k v d)"
  by (force simp: dget_or_def list_all_set split: option.splits dest: dget_in_set)

lemma clean_as_dict: "as_dict v label = Inr d \<Longrightarrow> clean v \<Longrightarrow> clean (PDict d)"
  by (auto simp: as_dict_def split: pyval.splits)

lemma clean_as_list: "as_list v label = Inr xs \<Longrightarrow> clean v \<Longrightarrow> list_all clean xs"
  by (auto simp: as_list_def split: pyval.splits)

lemma clean_sub: "as_dict (dget k d) label = Inr e \<Longrightarrow> clean (PDict d) \<Longrightarrow> clean (PDict e)"
  by (rule clean_as_dict [OF _ clean_dget])

lemma clean_entry: "clean (PDict d) \<Longrightarrow> (k, v) \<in> set d \<Longrightarrow> one_line k \<and> clean v"
  by (force simp: list_all_set)

subsection \<open>Texts that are always one line\<close>

lemma strip_keeps_chars: "list_all P s \<Longrightarrow> list_all P (strip s)"
  using set_strip by (auto simp: list_all_set)

lemma one_line_quote [simp]: "one_line (quote_nft_string s) = one_line s"
proof -
  have "one_line (concat (map quote_char s)) = one_line s"
    by (induction s) (auto simp: quote_char_def)
  then show ?thesis by (simp add: quote_nft_string_def)
qed

lemma one_line_comment [simp]: "one_line (comment_expr text)"
proof -
  have "\<not> comment_char nl" by (simp add: comment_char_def)
  then have "one_line (strip (sub_class comment_char text))"
    by (intro one_line_strip one_line_sub_class)
  then show ?thesis by (simp add: comment_expr_def Let_def one_line_take)
qed

lemma one_line_log_prefix [simp]: "one_line (log_prefix v)"
  by (simp add: log_prefix_def one_line_take one_line_sub_class prefix_char_def)

lemma one_line_ident: "nft_ident_ok s \<Longrightarrow> one_line s"
  using nft_ident_ok_chars by (rule one_line_list_all) (auto simp: ident_char_def)

lemma one_line_take_drop:
  "one_line (takeWhile P s) \<Longrightarrow> one_line (dropWhile P s) \<Longrightarrow> one_line s"
  by (metis one_line_append takeWhile_dropWhile_id)

lemma one_line_digits: "one_line (takeWhile is_digit s)"
  by (auto simp: one_line_set dest: set_takeWhileD)

lemma starts_with_split: "starts_with p s \<Longrightarrow> s = p @ drop (length p) s"
  by (induction p s rule: starts_with.induct) auto

lemma one_line_after:
  "starts_with p s \<Longrightarrow> one_line p \<Longrightarrow> one_line (drop (length p) s) \<Longrightarrow> one_line s"
  by (subst starts_with_split) auto

lemma rate_burst_one_line: "rate_burst_ok s \<Longrightarrow> one_line s"
proof -
  assume a: "rate_burst_ok s"
  show ?thesis
  proof (cases "s = []")
    case False
    then have p: "starts_with '' burst '' s" and d: "dropWhile is_digit (drop 7 s) = '' packets''"
      using a by (auto simp: rate_burst_ok_def Let_def)
    have "one_line (drop 7 s)"
      by (rule one_line_take_drop [of is_digit]) (simp_all add: one_line_digits d)
    then show ?thesis by (intro one_line_after [OF p]) (simp_all add: numeral_eq_Suc)
  qed simp
qed

lemma rate_ok_one_line: "rate_ok s \<Longrightarrow> one_line s"
proof -
  assume "rate_ok s"
  then obtain u where u: "u \<in> set RATE_UNITS" "starts_with (''/'' @ u) (dropWhile is_digit s)"
    "rate_burst_ok (drop (Suc (length u)) (dropWhile is_digit s))"
    by (auto simp: rate_ok_def Let_def list_ex_iff)
  have "one_line u" using u(1) by (auto simp: RATE_UNITS_def)
  then have "one_line (dropWhile is_digit s)"
    using rate_burst_one_line [OF u(3)] by (intro one_line_after [OF u(2)]) simp_all
  then show ?thesis by (rule one_line_take_drop [OF one_line_digits])
qed

lemma rate_expr_one_line: "rate_expr v label = Inr t \<Longrightarrow> one_line t"
  by (auto simp: rate_expr_def Let_def dest: rate_ok_one_line split: if_splits)

lemma nft_set_one_line:
  assumes "nft_set xs q = Inr s" "list_all one_line xs"
  shows "one_line s"
proof -
  have "list_all one_line (render_elems xs q)" using assms(2) by (auto simp: render_elems_def list_all_set)
  moreover have "one_line (join '', '' ys)" if "list_all one_line ys" for ys
    using that by (intro one_line_join) (auto simp: list_all_set)
  ultimately show ?thesis using assms(1) by (auto simp: nft_set_def split: list.splits)
qed

lemma port_text_one_line: "port_text t \<Longrightarrow> one_line t"
  by (auto simp: port_text_def)

lemma port_match_one_line:
  assumes "port_match proto ports d = Inr t" "one_line proto" "list_all port_text ports"
  shows "one_line t"
proof -
  have "list_all one_line ports" using assms(3) port_text_one_line by (auto simp: list_all_set)
  then show ?thesis using assms(1,2) by (auto simp: port_match_def dest: nft_set_one_line split: if_splits)
qed

lemma service_log_one_line:
  "service_log_elem policy name service = Inr t \<Longrightarrow> one_line name \<Longrightarrow> one_line t"
  by (auto simp: service_log_elem_def log_expr_def one_line_strip split: if_splits)

subsection \<open>Lines\<close>

lemma add_rule_ok:
  "add_rule policy chain e = Inr r \<Longrightarrow> one_line chain \<Longrightarrow> one_line e \<Longrightarrow> line_ok policy r"
proof -
  assume a: "add_rule policy chain e = Inr r" "one_line chain" "one_line e"
  then obtain family tbl where ft: "family_table policy = Inr (family, tbl)"
    and r: "r = (''add rule '' @ family @ '' '' @ tbl @ '' '') @ chain @ '' '' @ e"
    by (auto simp: add_rule_def)
  have "one_line family" "one_line tbl"
    using family_table_ok [OF ft] one_line_ident by (auto simp: NFT_FAMILIES_def)
  then have "one_line r" using a r by simp
  moreover have "starts_with (''add rule '' @ family @ '' '' @ tbl @ '' '') r"
    unfolding r by (rule starts_with_append)
  ultimately show ?thesis using ft by (auto simp: line_ok_def)
qed

definition rule_ok :: "string \<times> string \<Rightarrow> bool" where
  "rule_ok r = (one_line (fst r) \<and> one_line (snd r))"

lemma add_rules_ok:
  "add_rules policy rules = Inr ls \<Longrightarrow> list_all rule_ok rules \<Longrightarrow> list_all (line_ok policy) ls"
  unfolding add_rules_def
  by (force simp: list_all_set rule_ok_def split_beta dest!: mapE_in_set intro: add_rule_ok)

lemma line_ok_blank [simp]: "line_ok policy []"
  by (simp add: line_ok_def)

lemma line_ok_comment: "one_line s \<Longrightarrow> line_ok policy (CHR ''#'' # s)"
  by (simp add: line_ok_def)

definition chains_ok :: "chains \<Rightarrow> bool" where
  "chains_ok ch = list_all one_line (chain_list ch)"

lemma chains_ok_simps:
  "chains_ok ch \<Longrightarrow> one_line (ch_input ch) \<and> one_line (ch_forward ch) \<and> one_line (ch_output ch)
     \<and> one_line (ch_local_input ch) \<and> one_line (ch_local_forward ch) \<and> one_line (ch_local_output ch)"
  by (simp add: chains_ok_def chain_list_def)

lemma chain_names_one_line: "chain_names policy = Inr ch \<Longrightarrow> chains_ok ch"
  using chain_names_ok one_line_ident by (fastforce simp: chains_ok_def list_all_set)

subsection \<open>Networks, interfaces and references\<close>

lemma repr_str_one_line [simp]: "one_line (repr_str s)"
proof -
  have c: "one_line (repr_char q c)" if "q \<noteq> nl" for q c
  proof -
    have "digit_char n \<noteq> nl" if "n < 16" for n
      using net_char_digit [OF that] by auto
    moreover have "ord c div 16 < 16" "ord c mod 16 < 16" using ord_bounds [of c] by auto
    ultimately show ?thesis using that by (auto simp: repr_char_def hex2_def Let_def)
  qed
  have q: "repr_quote s \<noteq> nl" by (simp add: repr_quote_def)
  have "one_line (concat (map (repr_char (repr_quote s)) t))" for t
    by (induction t) (auto simp: c [OF q])
  then show ?thesis using q by (simp add: repr_str_def Let_def)
qed

text \<open>The text of a clean value is safe: containers are shown by \<open>repr\<close>, which escapes newlines.\<close>

lemma py_repr_one_line: "clean v \<Longrightarrow> one_line (py_repr v)"
proof (induction v rule: py_repr.induct)
  case (6 xs)
  then have "list_all one_line (map py_repr xs)" by (auto simp: list_all_set)
  then show ?case by (auto simp: list_all_set intro!: one_line_join)
next
  case (7 kvs)
  have "one_line x" if "x \<in> set (map (\<lambda>kv. repr_str (fst kv) @ '': '' @ py_repr (snd kv)) kvs)" for x
    using that 7 by (auto simp: list_all_set)
  then show ?case by (auto intro!: one_line_join)
qed auto

lemma py_str_safe: "clean v \<Longrightarrow> net_safe (py_str v)"
  using py_repr_one_line [of v] by (cases v) (simp_all add: py_str_def net_safe_def)

lemma net_safe_strip: "net_safe s \<Longrightarrow> net_safe (strip s)"
  using set_strip [of s] by (auto simp: net_safe_def one_line_strip)

lemma net_text_one_line:
  "clean v \<Longrightarrow> ip_network (strip (py_str v)) = Some n \<Longrightarrow> one_line (net_str n)"
  using net_safe_strip [OF py_str_safe, of v] one_line_net_str by (auto simp: net_safe_def)

lemma net_texts_one_line: "list_all clean raws \<Longrightarrow> list_all one_line (net_texts v raws)"
  by (auto simp: net_texts_def list_all_set List.map_filter_def intro: net_text_one_line)

lemma unique_strs_all: "list_all P xs \<Longrightarrow> list_all P (unique_strs xs)"
  by (simp add: list_all_set unique_strs_set)

lemma parse_networks_one_line:
  assumes "parse_networks raws label ctx = Inr (v4, v6, ctx')" "list_all clean raws"
  shows "list_all one_line v4 \<and> list_all one_line v6"
proof -
  have "list_all clean (filter (\<lambda>r. strip (py_str r) \<noteq> []) raws)" using assms(2) by (auto simp: list_all_set)
  then show ?thesis using parse_networks_texts [OF assms(1)] by (simp add: unique_strs_all net_texts_one_line)
qed

definition item_ok :: "define_item \<Rightarrow> bool" where
  "item_ok item = (one_line (def_name item) \<and> list_all one_line (def_values item)
     \<and> list_all one_line (def_wildcards item))"

definition category_ok :: "(string \<times> define_item) list \<Rightarrow> bool" where
  "category_ok c = list_all (\<lambda>ni. item_ok (snd ni)) c"

definition maps_ok :: "define_maps \<Rightarrow> bool" where
  "maps_ok maps = (category_ok (dm_interfaces maps) \<and> category_ok (dm_cidr4 maps)
     \<and> category_ok (dm_cidr6 maps) \<and> category_ok (dm_ports maps))"

lemma category_ok_dset: "category_ok c \<Longrightarrow> item_ok item \<Longrightarrow> category_ok (dset name item c)"
  using set_dset [of name item c] by (force simp: category_ok_def list_all_set)

lemma category_ok_at: "category_ok c \<Longrightarrow> map_of c name = Some item \<Longrightarrow> item_ok item"
  by (force simp: category_ok_def list_all_set dest: map_of_SomeD)

lemma define_ref_one_line: "define_ref c name = Some r \<Longrightarrow> category_ok c \<Longrightarrow> one_line r"
  by (auto simp: define_ref_def item_ok_def dest: category_ok_at split: option.splits if_splits)

lemma safe_ident_one_line: "safe_ident name = Inr s \<Longrightarrow> one_line s"
proof -
  have c: "one_line (collapse_us t)" if "one_line t" for t
    using that by (induction t rule: collapse_us.induct) auto
  have st: "one_line (strip_char c t)" if "one_line t" for c t
    using that by (auto simp: strip_char_def one_line_set dest!: set_dropWhileD)
  have "\<not> ident_char nl" by (simp add: ident_char_def)
  then have "one_line (strip_char CHR ''_'' (collapse_us (sub_class ident_char (strip name))))"
    by (intro st c one_line_sub_class)
  then show "safe_ident name = Inr s \<Longrightarrow> one_line s"
    by (auto simp: safe_ident_def Let_def split: list.splits if_splits)
qed

lemma validate_interface_one_line: "validate_interface v label = Inr s \<Longrightarrow> one_line s"
proof -
  have "\<not> interface_char nl" by (simp add: interface_char_def)
  then show "validate_interface v label = Inr s \<Longrightarrow> one_line s"
    using one_line_list_all by (auto simp: validate_interface_def Let_def all_in_def split: if_splits)
qed

lemma clean_dupdate: "clean (PDict d) \<Longrightarrow> clean (PDict e) \<Longrightarrow> clean (PDict (dupdate d e))"
  using set_dupdate [of d e] by (fastforce simp: list_all_set)

lemma clean_group_sources:
  assumes "group_sources policy k1 k2 = Inr d" "clean (PDict policy)"
  shows "clean (PDict d)"
proof -
  from assms(1) obtain g e where "as_dict (dget k1 policy) k1 = Inr g" "as_dict (dget k2 policy) k2 = Inr e"
    and d: "d = dupdate (dupdate [] g) e"
    by (auto simp: group_sources_def)
  then have "clean (PDict g)" "clean (PDict e)" using clean_sub assms(2) by blast+
  then show ?thesis unfolding d by (intro clean_dupdate) simp_all
qed

lemma interfaces_one_line:
  "mapE (\<lambda>x. validate_interface x label) raws = Inr vs \<Longrightarrow> list_all one_line vs"
  unfolding list_all_set by (auto dest: mapE_in_set validate_interface_one_line)

lemma patterns_one_line:
  "split_interface_patterns (unique_strs vs) = (e, w) \<Longrightarrow> list_all one_line vs \<Longrightarrow>
     list_all one_line e \<and> list_all one_line w"
  by (auto simp: split_interface_patterns_def list_all_set unique_strs_set)

lemma maps_ok_update:
  assumes "maps_ok maps" "one_line n" "list_all one_line vs" "list_all one_line ws"
  defines "item \<equiv> \<lparr>def_name = n, def_values = vs, def_wildcards = ws\<rparr>"
  shows "maps_ok (maps\<lparr>dm_interfaces := dset name item (dm_interfaces maps)\<rparr>)"
    and "maps_ok (maps\<lparr>dm_cidr4 := dset name item (dm_cidr4 maps)\<rparr>)"
    and "maps_ok (maps\<lparr>dm_cidr6 := dset name item (dm_cidr6 maps)\<rparr>)"
    and "maps_ok (maps\<lparr>dm_ports := dset name item (dm_ports maps)\<rparr>)"
  using assms by (simp_all add: maps_ok_def item_ok_def category_ok_dset)

lemma define_interfaces_step_ok:
  "define_interfaces_step maps (name, raw) = Inr maps' \<Longrightarrow> maps_ok maps \<Longrightarrow> maps_ok maps'"
  by (auto simp: define_interfaces_step_def Let_def split: if_splits prod.splits
      intro!: maps_ok_update dest: interfaces_one_line patterns_one_line safe_ident_one_line)

lemma define_cidrs_step_ok:
  assumes "define_cidrs_step (maps, ctx) (name, raw) = Inr (maps', ctx')" "maps_ok maps" "clean raw"
  shows "maps_ok maps'"
proof -
  let ?l = "''cidrs.'' @ name"
  from assms(1) obtain raws v4 v6 where
    r: "as_list raw ?l = Inr raws" and p: "parse_networks raws ?l ctx = Inr (v4, v6, ctx')"
    by (auto simp: define_cidrs_step_def Let_def)
  have v: "list_all one_line v4" "list_all one_line v6"
    using parse_networks_one_line [OF p clean_as_list [OF r assms(3)]] by auto
  from assms(1) obtain maps4 where
    m4: "(if v4 = [] then Inr maps else bindE (safe_ident name) (\<lambda>ident.
           Inr (maps\<lparr>dm_cidr4 := dset name \<lparr>def_name = ''ipv4_'' @ ident, def_values = v4, def_wildcards = []\<rparr>
             (dm_cidr4 maps)\<rparr>))) = (Inr maps4 :: define_maps res)"
    and m6: "(if v6 = [] then Inr maps4 else bindE (safe_ident name) (\<lambda>ident.
           Inr (maps4\<lparr>dm_cidr6 := dset name \<lparr>def_name = ''ipv6_'' @ ident, def_values = v6, def_wildcards = []\<rparr>
             (dm_cidr6 maps4)\<rparr>))) = (Inr maps' :: define_maps res)"
    unfolding define_cidrs_step_def Let_def using r p by auto
  have "maps_ok maps4"
    using m4 assms(2) v by (cases "v4 = []") (auto intro!: maps_ok_update dest: safe_ident_one_line)
  then show ?thesis
    using m6 v by (cases "v6 = []") (auto intro!: maps_ok_update dest: safe_ident_one_line)
qed

lemma define_ports_step_ok:
  "define_ports_step maps (name, raw) = Inr maps' \<Longrightarrow> maps_ok maps \<Longrightarrow> maps_ok maps'"
  by (auto simp: define_ports_step_def Let_def list_all_set split: if_splits
      intro!: maps_ok_update unique_strs_all dest: safe_ident_one_line)

lemma foldE_inv:
  assumes "foldE f s xs = Inr t" "I s" and "\<And>s x s'. I s \<Longrightarrow> x \<in> set xs \<Longrightarrow> f s x = Inr s' \<Longrightarrow> I s'"
  shows "I t"
proof -
  have "okE I (foldE f s xs)" using assms(2,3) by (intro okE_foldE) (auto simp: okE_iff)
  then show ?thesis using assms(1) by simp
qed

lemma build_define_maps_ok:
  assumes "build_define_maps policy ctx = Inr (maps, ctx')" "clean (PDict policy)"
  shows "maps_ok maps"
proof -
  from assms(1) obtain ifs m1 cs m2 c2 ps where
    "foldE define_interfaces_step empty_maps ifs = Inr m1"
    and cs: "group_sources policy ''cidr_groups'' ''cidrs'' = Inr cs"
    and f2: "foldE define_cidrs_step (m1, ctx) cs = Inr (m2, c2)"
    and f3: "foldE define_ports_step m2 ps = Inr maps"
    by (auto simp: build_define_maps_def)
  then have "maps_ok m1"
    by (elim foldE_inv) (auto simp: maps_ok_def category_ok_def empty_maps_def dest: define_interfaces_step_ok)
  moreover have "clean (PDict cs)" using clean_group_sources [OF cs assms(2)] .
  ultimately have "maps_ok (fst (m2, c2))"
    by (intro foldE_inv [OF f2, where I = "\<lambda>st. maps_ok (fst st)"])
      (auto dest: define_cidrs_step_ok [OF _ _ conjunct2 [OF clean_entry]] simp del: clean.simps)
  then show ?thesis using f3 by (auto elim!: foldE_inv dest: define_ports_step_ok)
qed

subsection \<open>Match expressions\<close>

lemma maps_ok_cats:
  "maps_ok maps \<Longrightarrow> category_ok (dm_interfaces maps) \<and> category_ok (dm_cidr4 maps)
     \<and> category_ok (dm_cidr6 maps) \<and> category_ok (cidr_category maps v)"
  by (cases v) (auto simp: maps_ok_def cidr_category_def)

lemma cidr_refs_one_line:
  assumes "cidr_refs_of maps d key version label = Inr refs" "maps_ok maps"
  shows "list_all one_line refs"
proof -
  from assms(1) obtain gs rs where "mapE (cidr_ref maps version label) gs = Inr rs" "refs = unique_strs rs"
    by (auto simp: cidr_refs_of_def cidr_refs_def)
  moreover have "one_line r" if "cidr_ref maps version label g = Inr r" for g r
    using that maps_ok_cats [OF assms(2)]
    by (auto simp: cidr_ref_def intro: define_ref_one_line split: option.splits)
  ultimately show ?thesis by (auto simp: list_all_set unique_strs_set dest: mapE_in_set)
qed

lemma direct_cidrs_one_line:
  assumes "direct_cidrs_of d key version label ctx = Inr (vs, ctx')" "clean (PDict d)"
  shows "list_all one_line vs"
proof -
  from assms(1) obtain xs v4 v6 where x: "as_list (dget key d) label = Inr xs"
    and p: "parse_networks xs label ctx = Inr (v4, v6, ctx')" and vs: "vs = v4 \<or> vs = v6"
    by (cases version) (auto simp: direct_cidrs_of_def direct_cidrs_for_version_def split: if_splits)
  have "list_all one_line v4 \<and> list_all one_line v6"
    by (rule parse_networks_one_line [OF p clean_as_list [OF x clean_dget [OF assms(2)]]])
  then show ?thesis using vs by auto
qed

lemma ip_match_one_line:
  assumes "ip_match_exprs maps allow version role label ctx = Inr (es, ctx')"
    and "maps_ok maps" "clean (PDict allow)" "one_line role"
  shows "list_all one_line es"
proof -
  from assms(1) obtain constrained refs direct c2 where
    r: "cidr_refs_of maps allow (groups_key version) version (label @ ''.'' @ groups_key version) = Inr refs"
    and d: "direct_cidrs_of allow (direct_key version) version (label @ ''.'' @ direct_key version) ctx
      = Inr (direct, c2)"
    and es: "(if refs = [] \<and> direct = [] then Inr (if constrained then [] else [[]], c2)
     else
       (let from_refs = map (\<lambda>r. ip_keyword version @ '' '' @ role @ '' '' @ r) refs in
        if direct = [] then Inr (unique_strs from_refs, c2)
        else
          bindE (nft_set direct False) (\<lambda>s.
          let fld = (if networks_are_multicast direct then ''daddr'' else role)
          in Inr (unique_strs (from_refs @ [ip_keyword version @ '' '' @ fld @ '' '' @ s]), c2))))
     = Inr (es, ctx')"
    by (auto simp: ip_match_exprs_def)
  have R: "list_all one_line refs" and D: "list_all one_line direct"
    using cidr_refs_one_line [OF r assms(2)] direct_cidrs_one_line [OF d assms(3)] by auto
  have k: "one_line (ip_keyword version)" by (cases version) (simp_all add: ip_keyword_def)
  have "list_all one_line (map (\<lambda>r. ip_keyword version @ '' '' @ role @ '' '' @ r) refs)"
    using R k assms(4) by (auto simp: list_all_set)
  then show ?thesis
    using es k assms(4) nft_set_one_line [OF _ D]
    by (auto simp: Let_def unique_strs_all split: if_splits)
qed

lemma interface_match_one_line:
  assumes "interface_match_exprs maps block direction label = Inr es" "maps_ok maps"
  shows "list_all one_line es"
proof -
  from assms(1) obtain raws direct ds groups refs where
    m: "mapE (\<lambda>x. validate_interface x (label @ ''.interfaces'')) raws = Inr direct"
    and d: "direct_if_exprs (if_keyword direction) direct = Inr ds"
    and g: "expand_interface_group_refs maps groups (label @ ''.interface_groups'') = Inr refs"
    and es: "es = (let exprs = unique_strs (ds @ map (\<lambda>r. if_keyword direction @ '' '' @ r) refs)
                   in if exprs = [] then [[]] else exprs)"
    by (auto simp: interface_match_exprs_def Let_def)
  have k: "one_line (if_keyword direction)" by (simp add: if_keyword_def)
  have D: "list_all one_line direct" by (rule interfaces_one_line [OF m])
  obtain e w where ew: "split_interface_patterns (unique_strs direct) = (e, w)" by force
  have E: "list_all one_line e" "list_all one_line w" using patterns_one_line [OF ew D] by auto
  have "list_all one_line ds"
    using d k ew E nft_set_one_line [OF _ E(1)]
    by (auto simp: direct_if_exprs_def list_all_set split: if_splits)
  moreover have "list_all one_line refs"
  proof -
    from g obtain rss where rss: "mapE (group_refs maps (label @ ''.interface_groups'')) groups = Inr rss"
      and refs: "refs = unique_strs (concat rss)" by (auto simp: expand_interface_group_refs_def)
    have "list_all one_line rs" if "group_refs maps l grp = Inr rs" for l grp rs
    proof -
      from that obtain item where item: "map_of (dm_interfaces maps) grp = Some item"
        and rs: "rs = (case define_ref (dm_interfaces maps) grp of None \<Rightarrow> [] | Some r \<Rightarrow> [r])
          @ map quote_nft_string (def_wildcards item)"
        by (auto simp: group_refs_def split: option.splits)
      have c: "category_ok (dm_interfaces maps)" using maps_ok_cats [OF assms(2)] by blast
      have "list_all one_line (def_wildcards item)" using category_ok_at [OF c item] by (simp add: item_ok_def)
      then show ?thesis using define_ref_one_line [OF _ c] by (auto simp: rs list_all_set split: option.splits)
    qed
    then have "list_all (list_all one_line) rss"
      unfolding list_all_set [of "list_all one_line"] using mapE_in_set [OF rss] by blast
    then show ?thesis by (simp add: refs unique_strs_all)
  qed
  ultimately show ?thesis
    using k by (auto simp: es Let_def list_all_set unique_strs_set)
qed

subsection \<open>Service rules\<close>

lemma one_line_join_non_empty: "list_all one_line xs \<Longrightarrow> one_line (join '' '' (non_empty xs))"
  by (intro one_line_join) (auto simp: non_empty_def list_all_set)

lemma inbound_rule_ok:
  assumes "inbound_rule policy chain name service proto ports (i, e) = Inr r"
    and "one_line chain" "one_line name" "one_line proto" "list_all port_text ports" "one_line i" "one_line e"
  shows "line_ok policy r"
  using assms unfolding inbound_rule_def
  by (auto intro!: add_rule_ok [of policy chain] one_line_join_non_empty one_line_strip
      dest: port_match_one_line rate_expr_one_line service_log_one_line)

lemma outbound_rule_ok:
  assumes "outbound_rule policy chain name spec proto ports sports source (i, e) = Inr r"
    and "one_line chain" "one_line name" "one_line proto" "list_all port_text ports"
    and "list_all port_text sports" "one_line i" "one_line e"
  shows "line_ok policy r"
  using assms unfolding outbound_rule_def
  by (auto intro!: add_rule_ok [of policy chain] one_line_join_non_empty one_line_strip
      dest: port_match_one_line service_log_one_line)

lemma inbound_rules_ok:
  assumes "build_inbound_rules_for_ip_version policy maps name service proto ports version ctx = Inr (rules, ctx')"
    and "maps_ok maps" "clean (PDict service)" "one_line name" "one_line proto" "list_all port_text ports"
  shows "list_all (line_ok policy) rules"
proof -
  let ?l = "''services.'' @ name @ ''.allow''"
  from assms(1) obtain ch allow es c where
    ch: "chain_names policy = Inr ch" and a: "as_dict (dget ''allow'' service) ?l = Inr allow"
    and ip: "ip_match_exprs maps allow version ''saddr'' ?l ctx = Inr (es, c)"
    and r: "rules = [] \<or> (\<exists>is. interface_match_exprs maps allow ''in'' ?l = Inr is
        \<and> mapE (inbound_rule policy (ch_input ch) name service proto ports) (List.product is es) = Inr rules)"
    by (auto simp: build_inbound_rules_for_ip_version_def Let_def split: if_splits)
  have "list_all one_line es" using ip_match_one_line [OF ip assms(2) clean_sub [OF a assms(3)]] by simp
  then show ?thesis
    using r chains_ok_simps [OF chain_names_one_line [OF ch]] assms(4-6)
    by (auto simp: list_all_set dest!: mapE_in_set interface_match_one_line [OF _ assms(2)]
        intro: inbound_rule_ok)
qed

lemma outbound_rules_ok:
  assumes "build_outbound_rules_for_ip_version policy maps name spec proto ports version source ctx = Inr (rules, ctx')"
    and "maps_ok maps" "clean (PDict spec)" "one_line name" "one_line proto" "list_all port_text ports"
  shows "list_all (line_ok policy) rules"
proof -
  let ?l = "source @ ''.'' @ name @ ''.allow_to''"
  from assms(1) obtain ch allow es c sp where
    ch: "chain_names policy = Inr ch" and a: "as_dict (dget ''allow_to'' spec) ?l = Inr allow"
    and sp: "normalize_source_ports spec (source @ ''.'' @ name) = Inr sp"
    and ip: "ip_match_exprs maps allow version ''daddr'' ?l ctx = Inr (es, c)"
    and r: "rules = [] \<or> (\<exists>is. interface_match_exprs maps allow ''out'' ?l = Inr is
        \<and> mapE (outbound_rule policy (ch_output ch) name spec proto ports sp source) (List.product is es) = Inr rules)"
    by (auto simp: build_outbound_rules_for_ip_version_def Let_def split: if_splits)
  have "list_all port_text sp" using sp ports_of_texts by (auto simp: normalize_source_ports_def)
  moreover have "list_all one_line es" using ip_match_one_line [OF ip assms(2) clean_sub [OF a assms(3)]] by simp
  ultimately show ?thesis
    using r chains_ok_simps [OF chain_names_one_line [OF ch]] assms(4-6)
    by (auto simp: list_all_set dest!: mapE_in_set interface_match_one_line [OF _ assms(2)]
        intro: outbound_rule_ok)
qed

subsection \<open>Sections\<close>

definition section_ok :: "pydict \<Rightarrow> section_fun \<Rightarrow> bool" where
  "section_ok policy sec = (\<forall>ctx ls ctx'. sec ctx = Inr (ls, ctx') \<longrightarrow> list_all (line_ok policy) ls)"

lemma section_okI:
  "(\<And>ctx ls ctx'. sec ctx = Inr (ls, ctx') \<Longrightarrow> list_all (line_ok policy) ls) \<Longrightarrow> section_ok policy sec"
  by (simp add: section_ok_def)

lemma section_ok_lift:
  "(\<And>ls. m = Inr ls \<Longrightarrow> list_all (line_ok policy) ls) \<Longrightarrow> section_ok policy (lift_lines m)"
  by (auto simp: section_ok_def lift_lines_def)

lemma run_sections_ok:
  assumes "foldE run_section (h, c) secs = Inr (ls, c')" "list_all (line_ok policy) h"
    and "list_all (section_ok policy) secs"
  shows "list_all (line_ok policy) ls"
  using assms
proof (induction secs arbitrary: h c)
  case (Cons s ss)
  from run_section_step [OF Cons.prems(1)] obtain new c1 where
    "s c = Inr (new, c1)" and r: "foldE run_section (h @ new, c1) ss = Inr (ls, c')" by blast
  then have "list_all (line_ok policy) new" using Cons.prems(3) by (auto simp: section_ok_def)
  then show ?case using Cons.IH [OF r] Cons.prems by simp
qed simp

text \<open>A loop that appends lines to a pair of lines and context.\<close>

lemma line_loop_ok:
  assumes "foldE step (ls0, c0) xs = Inr (ls, c)" "list_all (line_ok policy) ls0"
    and "\<And>l1 c1 x l2 c2. list_all (line_ok policy) l1 \<Longrightarrow> x \<in> set xs \<Longrightarrow> step (l1, c1) x = Inr (l2, c2)
           \<Longrightarrow> list_all (line_ok policy) l2"
  shows "list_all (line_ok policy) ls"
  using foldE_inv [OF assms(1), of "\<lambda>st. list_all (line_ok policy) (fst st)"] assms(2,3)
  by (metis fst_conv prod.collapse)

lemma when_flag_ok:
  "when_flag d flag dflt body = Inr ls \<Longrightarrow> (body = Inr ls \<Longrightarrow> list_all P ls) \<Longrightarrow> list_all P ls"
  by (auto simp: when_flag_def split: if_splits)

lemma rule_ok_simp [simp]: "rule_ok (c, e) = (one_line c \<and> one_line e)"
  by (simp add: rule_ok_def)

lemma opt_rule_ok:
  "(\<And>r. ref = Some r \<Longrightarrow> one_line r) \<Longrightarrow> one_line chain \<Longrightarrow> (\<And>r. one_line r \<Longrightarrow> one_line (mk r))
     \<Longrightarrow> list_all rule_ok (opt_rule chain ref mk)"
  by (cases ref) (auto simp: opt_rule_def)

lemma sec_invalid_ok:
  "sec_invalid policy cfg ch = Inr ls \<Longrightarrow> chains_ok ch \<Longrightarrow> list_all (line_ok policy) ls"
  unfolding sec_invalid_def
  by (erule when_flag_ok, erule add_rules_ok) (simp add: chains_ok_simps)

lemma sec_established_ok:
  "sec_established policy cfg ch = Inr ls \<Longrightarrow> chains_ok ch \<Longrightarrow> list_all (line_ok policy) ls"
  unfolding sec_established_def
  by (erule when_flag_ok, erule add_rules_ok) (simp add: chains_ok_simps)

lemma sec_loopback_ok:
  assumes "sec_loopback policy maps cfg ch = Inr ls" "chains_ok ch" "maps_ok maps"
  shows "list_all (line_ok policy) ls"
proof -
  define lo where "lo = (case define_ref (dm_interfaces maps) ''loopback'' of
    Some r \<Rightarrow> r | None \<Rightarrow> quote_nft_string ''lo'')"
  have lo: "one_line lo"
    using define_ref_one_line maps_ok_cats [OF assms(3)] by (auto simp: lo_def split: option.split)
  from assms(1) show ?thesis
    unfolding sec_loopback_def lo_def [symmetric] Let_def
    by (elim when_flag_ok add_rules_ok) (simp add: chains_ok_simps [OF assms(2)] lo)
qed

lemma cidr_ref_one_line:
  assumes "maps_ok maps"
  shows "define_ref (dm_cidr4 maps) g = Some r \<Longrightarrow> one_line r"
    and "define_ref (dm_cidr6 maps) g = Some r \<Longrightarrow> one_line r"
  using define_ref_one_line maps_ok_cats [OF assms] by blast+

lemma sec_martian_loopback_ok:
  assumes "sec_martian_loopback policy maps cfg ch = Inr ls" "chains_ok ch" "maps_ok maps"
  shows "list_all (line_ok policy) ls"
  using assms(1) cidr_ref_one_line [OF assms(3)]
  by (auto simp: sec_martian_loopback_def Let_def chains_ok_simps [OF assms(2)]
      elim!: when_flag_ok intro!: opt_rule_ok add_rules_ok)

lemma sec_dhcp_ok:
  "sec_dhcp policy cfg ch = Inr ls \<Longrightarrow> chains_ok ch \<Longrightarrow> list_all (line_ok policy) ls"
  by (auto simp: sec_dhcp_def dest!: chains_ok_simps elim!: when_flag_ok add_rules_ok)

lemma sec_unsafe_ok:
  assumes "sec_unsafe policy maps cfg ch = Inr ls" "chains_ok ch" "maps_ok maps"
  shows "list_all (line_ok policy) ls"
  using assms(1) cidr_ref_one_line [OF assms(3)]
  by (auto simp: sec_unsafe_def Let_def chains_ok_simps [OF assms(2)]
      elim!: when_flag_ok intro!: opt_rule_ok add_rules_ok)

lemma sec_neighbor_ok:
  "sec_neighbor policy cfg ch = Inr ls \<Longrightarrow> chains_ok ch \<Longrightarrow> list_all (line_ok policy) ls"
  by (auto simp: sec_neighbor_def Let_def dest!: chains_ok_simps elim!: when_flag_ok add_rules_ok)

lemma rate_setting_one_line: "rate_setting d k = Inr t \<Longrightarrow> one_line t"
  by (auto simp: rate_setting_def dest: rate_expr_one_line)

lemma sec_icmp_ok:
  assumes "sec_icmp policy cfg ch = Inr ls" "chains_ok ch"
  shows "list_all (line_ok policy) ls"
  using assms(1) chains_ok_simps [OF assms(2)]
  by (auto simp: sec_icmp_def elim!: when_flag_ok add_rules_ok dest!: rate_setting_one_line)

lemma map_rule_ok:
  "one_line chain \<Longrightarrow> list_all one_line es \<Longrightarrow> list_all rule_ok (map (Pair chain) es)"
  by (auto simp: list_all_set)

lemma source_drop_exprs_ok:
  assumes "source_drop_exprs comment version refs direct if_expr = Inr es"
    and "list_all one_line refs" "list_all one_line direct" "one_line if_expr"
  shows "list_all one_line es"
proof -
  have k: "one_line (ip_keyword version)" by (cases version) (simp_all add: ip_keyword_def)
  show ?thesis
    using assms k nft_set_one_line [OF _ assms(3)]
    by (auto simp: source_drop_exprs_def Let_def list_all_set split: if_splits)
qed

lemma mapE_concat_one_line:
  assumes "mapE f xs = Inr ess" "\<And>x es. x \<in> set xs \<Longrightarrow> f x = Inr es \<Longrightarrow> list_all one_line es"
  shows "list_all one_line (concat ess)"
proof -
  have "list_all (list_all one_line) ess"
    unfolding list_all_set [of "list_all one_line"] using mapE_in_set [OF assms(1)] assms(2) by blast
  then show ?thesis by simp
qed

lemma source_category_ok:
  assumes "source_category_rules policy maps source chain if_exprs (rules, ctx) cat = Inr (rules', ctx')"
    and "maps_ok maps" "clean (PDict source)" "one_line chain" "list_all one_line if_exprs"
    and "list_all (line_ok policy) rules"
  shows "list_all (line_ok policy) rules'"
proof -
  obtain comment version gkey dkey where cat: "cat = (comment, version, gkey, dkey)" by (cases cat)
  from assms(1) obtain refs direct where
    r: "cidr_refs_of maps source gkey version (''source_filtering.'' @ gkey) = Inr refs"
    and d: "direct_cidrs_of source dkey version (''source_filtering.'' @ dkey) ctx = Inr (direct, ctx')"
    and rest: "rules' = rules \<or> (\<exists>ess new. mapE (source_drop_exprs comment version refs direct) if_exprs = Inr ess
      \<and> add_rules policy (map (Pair chain) (concat ess)) = Inr new \<and> rules' = rules @ new)"
    by (auto simp: source_category_rules_def cat split: if_splits)
  have R: "list_all one_line refs" "list_all one_line direct"
    using cidr_refs_one_line [OF r assms(2)] direct_cidrs_one_line [OF d assms(3)] by auto
  have "list_all (line_ok policy) new"
    if m: "mapE (source_drop_exprs comment version refs direct) if_exprs = Inr ess"
      and a: "add_rules policy (map (Pair chain) (concat ess)) = Inr new" for ess new
  proof (rule add_rules_ok [OF a map_rule_ok [OF assms(4) mapE_concat_one_line [OF m]]])
    fix x es assume "x \<in> set if_exprs" "source_drop_exprs comment version refs direct x = Inr es"
    then show "list_all one_line es"
      using source_drop_exprs_ok [OF _ R] assms(5) by (auto simp: list_all_set [of one_line if_exprs])
  qed
  then show ?thesis using rest assms(6) by auto
qed

lemma build_source_filter_ok:
  assumes "build_source_filter_drop_rules policy maps ctx = Inr (rules, ctx')" "maps_ok maps" "clean (PDict policy)"
  shows "list_all (line_ok policy) rules"
proof -
  from assms(1) obtain source where
    s: "as_dict (dget ''source_filtering'' policy) ''source_filtering'' = Inr source"
    and rest: "rules = [] \<or> (\<exists>ch if_exprs. chain_names policy = Inr ch
      \<and> interface_match_exprs maps (if_block source ''apply_to_interfaces'' ''apply_to_interface_groups'') ''in''
              ''source_filtering.apply_to'' = Inr if_exprs
      \<and> foldE (source_category_rules policy maps source (ch_input ch) if_exprs) ([], ctx) SOURCE_CATEGORIES
          = Inr (rules, ctx'))"
    by (auto simp: build_source_filter_drop_rules_def split: if_splits)
  have c: "clean (PDict source)" by (rule clean_sub [OF s assms(3)])
  from rest show ?thesis
  proof (elim disjE exE conjE)
    fix ch if_exprs
    assume ch: "chain_names policy = Inr ch"
      and i: "interface_match_exprs maps (if_block source ''apply_to_interfaces'' ''apply_to_interface_groups'') ''in''
              ''source_filtering.apply_to'' = Inr if_exprs"
      and f: "foldE (source_category_rules policy maps source (ch_input ch) if_exprs) ([], ctx) SOURCE_CATEGORIES
          = Inr (rules, ctx')"
    show ?thesis
      by (rule line_loop_ok [OF f], simp, rule source_category_ok [OF _ assms(2) c])
        (use chains_ok_simps [OF chain_names_one_line [OF ch]] interface_match_one_line [OF i assms(2)] in auto)
  qed simp
qed

lemma anti_spoof_exprs_ok:
  assumes "anti_spoof_exprs refs4 direct4 refs6 direct6 if_expr = Inr es"
    and "list_all one_line refs4" "list_all one_line direct4" "list_all one_line refs6"
    and "list_all one_line direct6" "one_line if_expr"
  shows "list_all one_line es"
  using assms nft_set_one_line [OF _ assms(3)] nft_set_one_line [OF _ assms(5)]
  by (auto simp: anti_spoof_exprs_def list_all_set split: if_splits)

lemma anti_spoof_rules_ok:
  assumes "anti_spoof_rules policy maps anti ch ctx = Inr (rules, ctx')"
    and "maps_ok maps" "clean (PDict anti)" "chains_ok ch"
  shows "list_all (line_ok policy) rules"
proof -
  from assms(1) obtain ifs r4 r6 d4 c4 d6 c6 ess where
    i: "interface_match_exprs maps (if_block anti ''apply_to_interfaces'' ''apply_to_interface_groups'') ''in''
              ''anti_spoofing.apply_to'' = Inr ifs"
    and r: "cidr_refs_of maps anti ''drop_ipv4_source_groups'' V4 ''anti_spoofing.drop_ipv4_source_groups'' = Inr r4"
      "cidr_refs_of maps anti ''drop_ipv6_source_groups'' V6 ''anti_spoofing.drop_ipv6_source_groups'' = Inr r6"
    and d: "direct_cidrs_of anti ''drop_ipv4_sources'' V4 ''anti_spoofing.drop_ipv4_sources'' ctx = Inr (d4, c4)"
      "direct_cidrs_of anti ''drop_ipv6_sources'' V6 ''anti_spoofing.drop_ipv6_sources'' c4 = Inr (d6, c6)"
    and m: "mapE (anti_spoof_exprs r4 d4 r6 d6) ifs = Inr ess"
    and a: "add_rules policy (map (Pair (ch_input ch)) (concat ess)) = Inr rules"
    by (auto simp: anti_spoof_rules_def)
  note ok = cidr_refs_one_line [OF r(1) assms(2)] direct_cidrs_one_line [OF d(1) assms(3)]
    cidr_refs_one_line [OF r(2) assms(2)] direct_cidrs_one_line [OF d(2) assms(3)]
  have "list_all one_line (concat ess)"
  proof (rule mapE_concat_one_line [OF m])
    fix x es assume "x \<in> set ifs" "anti_spoof_exprs r4 d4 r6 d6 x = Inr es"
    then show "list_all one_line es"
      using anti_spoof_exprs_ok [OF _ ok] interface_match_one_line [OF i assms(2)]
      by (auto simp: list_all_set [of one_line ifs])
  qed
  then show ?thesis using a chains_ok_simps [OF assms(4)] by (auto elim!: add_rules_ok intro!: map_rule_ok)
qed

lemma sec_anti_spoof_ok:
  assumes "sec_anti_spoof policy maps cfg ch ctx = Inr (rules, ctx')"
    and "maps_ok maps" "clean (PDict (fc_anti cfg))" "chains_ok ch"
  shows "list_all (line_ok policy) rules"
  using assms(1) anti_spoof_rules_ok [OF _ assms(2-4)]
  by (auto simp: sec_anti_spoof_def split: if_splits)

subsection \<open>The private networks\<close>

lemma veth_name_one_line: "veth_name_ok s \<Longrightarrow> one_line s"
proof -
  assume v: "veth_name_ok s"
  then obtain a b where ab: "split_on CHR ''-'' s = [a, b]"
    and ok: "list_all lower_alnum a \<or> a = []" "list_all lower_alnum b \<or> b = []"
    by (auto simp: veth_name_ok_def lower_alnum_def split: list.splits)
  have "\<not> lower_alnum nl" by (simp add: lower_alnum_def)
  then have "one_line a" "one_line b" using ok one_line_list_all by auto
  then have "one_line (join [CHR ''-''] (split_on CHR ''-'' s))" by (simp add: ab)
  then show ?thesis by (simp add: join_split_on)
qed

lemma app_veth_identity_one_line:
  assumes "app_veth_identity policy = Inr (ifs, address, port)"
  shows "one_line ifs \<and> one_line address"
proof -
  from assms obtain interfaces listener where
    i: "list_all (\<lambda>v. case v of PStr s \<Rightarrow> length s \<le> 15 \<and> veth_name_ok s | _ \<Rightarrow> False) interfaces"
    and s: "nft_set (map py_str interfaces) True = Inr ifs" and a: "ipv4_str listener = address"
    by (auto simp: app_veth_identity_def Let_def split: if_splits option.splits pyval.splits)
  have "list_all one_line (map py_str interfaces)"
    using i by (induction interfaces) (auto dest: veth_name_one_line split: pyval.splits)
  moreover have "one_line (ipv4_str listener)"
    using one_line_list_all [OF net_char_ipv4_str] by simp
  ultimately show ?thesis using nft_set_one_line [OF s] a by blast
qed

lemma netkit_name_one_line: "netkit_name_ok s \<Longrightarrow> one_line s"
proof -
  assume "netkit_name_ok s"
  then have "list_all netkit_name_char s"
    by (auto simp: netkit_name_ok_def netkit_name_char_def split: list.splits)
  then show ?thesis by (rule one_line_list_all) (simp add: netkit_name_char_def)
qed

lemma tailscale_parts:
  assumes "tailscale_netkit_rules policy ci cf = Inr ls"
  shows "ls = [] \<or> (\<exists>names uplinks dp up. netkit_names_ok names
    \<and> nft_set (map py_str (tl names)) True = Inr uplinks
    \<and> add_rules policy (tailscale_rule_exprs ci cf (quote_nft_string (py_str (hd names))) uplinks dp up)
        = Inr ls)"
  using assms
  by (auto simp: tailscale_netkit_rules_def Let_def split: option.splits if_splits)

lemma names_one_line:
  "list_all (\<lambda>v. case v of PStr s \<Rightarrow> netkit_name_ok s | _ \<Rightarrow> False) names \<Longrightarrow> list_all one_line (map py_str names)"
  by (induction names) (auto dest: netkit_name_one_line split: pyval.splits)

lemma tailscale_ok:
  assumes "tailscale_netkit_rules policy ci cf = Inr ls" "one_line ci" "one_line cf"
  shows "list_all (line_ok policy) ls"
  using tailscale_parts [OF assms(1)]
proof (elim disjE exE conjE)
  fix names uplinks dp up
  assume nn: "netkit_names_ok names"
    and s: "nft_set (map py_str (tl names)) True = Inr uplinks"
    and a: "add_rules policy (tailscale_rule_exprs ci cf (quote_nft_string (py_str (hd names))) uplinks dp up)
      = Inr ls"
  have n: "length names = 3" "list_all (\<lambda>v. case v of PStr s \<Rightarrow> netkit_name_ok s | _ \<Rightarrow> False) names"
    using nn by (auto simp: netkit_names_ok_def)
  obtain x xs where x: "names = x # xs" using n(1) by (cases names) auto
  have "list_all one_line (map py_str names)" using names_one_line [OF n(2)] .
  then have "one_line (py_str (hd names))" "list_all one_line (map py_str (tl names))" by (simp_all add: x)
  then show ?thesis
    using nft_set_one_line [OF s] assms(2,3)
    by (intro add_rules_ok [OF a]) (simp add: tailscale_rule_exprs_def)
qed simp

lemma web_ports_one_line:
  assumes "nft_set (map int_str ports) False = Inr s"
  shows "one_line s"
  by (rule nft_set_one_line [OF assms]) (simp add: list_all_set)

lemma sec_app_veth_ok:
  assumes "sec_app_veth policy ch = Inr ls" "chains_ok ch"
  shows "list_all (line_ok policy) ls"
  using assms(1) chains_ok_simps [OF assms(2)]
  by (auto simp: sec_app_veth_def split: if_splits elim!: add_rules_ok
      dest!: app_veth_identity_one_line web_ports_one_line intro: tailscale_ok)

subsection \<open>Guards, accounting, logging\<close>

lemma guard_rules_ok:
  assumes "guard_rules policy family tbl name guard hook matches protos ports = Inr rules"
    and "family_table policy = Inr (family, tbl)" "one_line guard" "one_line hook"
    and "list_all one_line matches" "set protos \<subseteq> set PROTO_SET" "list_all port_text ports"
  shows "list_all (line_ok policy) rules"
proof -
  from assms(1) obtain body jumps where
    b: "add_rules policy
       (map (\<lambda>m. (guard, m @ '' counter return''
               @ comment_expr (''service '' @ name @ '' allowlist peer''))) matches
        @ [(guard, ''counter drop'' @ comment_expr (''service '' @ name @ '' allowlist deny''))]) = Inr body"
    and j: "mapE (\<lambda>proto. bindE (port_match proto ports ''d'') (\<lambda>pm.
              add_rule policy hook (pm @ '' jump '' @ guard
                @ comment_expr (''service '' @ name @ '' allowlist guard'')))) protos = Inr jumps"
    and r: "rules = (''add chain '' @ family @ '' '' @ tbl @ '' '' @ guard) # body @ jumps"
    unfolding guard_rules_def by (auto simp del: append.simps mapE.simps)
  have "list_all (line_ok policy) body"
    by (rule add_rules_ok [OF b]) (use assms(3,5) in \<open>auto simp: list_all_set\<close>)
  moreover have "list_all (line_ok policy) jumps"
    unfolding list_all_set
  proof
    fix l assume "l \<in> set jumps"
    then obtain proto pm where p: "proto \<in> set protos" "port_match proto ports ''d'' = Inr pm"
      and a: "add_rule policy hook (pm @ '' jump '' @ guard
                @ comment_expr (''service '' @ name @ '' allowlist guard'')) = Inr l"
      using mapE_in_set [OF j \<open>l \<in> set jumps\<close>] by auto
    have "one_line proto" using p(1) assms(6) by (auto simp: PROTO_SET_def)
    then have "one_line pm" using port_match_one_line [OF p(2)] assms(7) by simp
    then show "line_ok policy l" by (intro add_rule_ok [OF a]) (simp_all add: assms)
  qed
  moreover have "line_ok policy (''add chain '' @ family @ '' '' @ tbl @ '' '' @ guard)"
  proof -
    have "one_line family" "one_line tbl"
      using family_table_ok [OF assms(2)] one_line_ident by (auto simp: NFT_FAMILIES_def)
    moreover have "starts_with (''add chain '' @ family @ '' '' @ tbl @ '' '')
        ((''add chain '' @ family @ '' '' @ tbl @ '' '') @ guard)" by (rule starts_with_append)
    ultimately show ?thesis using assms(2,3) by (auto simp: line_ok_def)
  qed
  ultimately show ?thesis by (simp add: r)
qed

lemma guard_service_ok:
  assumes "guard_service policy maps name service ctx = Inr (rules, ctx')"
    and "maps_ok maps" "clean (PDict service)"
  shows "list_all (line_ok policy) rules"
proof -
  let ?inb = "lower (py_str (dget_or ''direction'' (PStr ''inbound'') service)) = ''inbound''"
  let ?fl = "''services.'' @ name @ ''.'' @ (if ?inb then ''allow'' else ''allow_to'')"
  from assms(1) obtain family tbl ch ports allow interfaces ips4 c4 ips6 guard protos where
    ft: "family_table policy = Inr (family, tbl)" and ch: "chain_names policy = Inr ch"
    and po: "normalize_ports service (''services.'' @ name) = Inr ports"
    and pr: "normalize_protocols service (''services.'' @ name) = Inr protos"
    and gu: "nft_ident_ok guard"
    and al: "as_dict (dget (if ?inb then ''allow'' else ''allow_to'') service) ?fl = Inr allow"
    and ifs: "interface_match_exprs maps allow (if ?inb then ''in'' else ''out'') ?fl = Inr interfaces"
    and i4: "ip_match_exprs maps allow V4 (if ?inb then ''saddr'' else ''daddr'') ?fl ctx = Inr (ips4, c4)"
    and i6: "ip_match_exprs maps allow V6 (if ?inb then ''saddr'' else ''daddr'') ?fl c4 = Inr (ips6, ctx')"
    and g: "guard_rules policy family tbl name guard (if ?inb then ch_input ch else ch_output ch)
       (guard_matches interfaces (ips4 @ ips6)) protos ports = Inr rules"
    by (rule guard_service_parts)
  note c = clean_sub [OF al assms(3)]
  have m: "list_all one_line interfaces" "list_all one_line ips4" "list_all one_line ips6"
    using interface_match_one_line [OF ifs assms(2)] ip_match_one_line [OF i4 assms(2) c]
      ip_match_one_line [OF i6 assms(2) c] by auto
  then have "list_all one_line (guard_matches interfaces (ips4 @ ips6))"
    by (auto simp: guard_matches_def list_all_set)
  then show ?thesis
    using normalize_protocols_nonempty [OF pr] chains_ok_simps [OF chain_names_one_line [OF ch]]
      ports_of_texts [OF po [unfolded normalize_ports_def]]
    by (intro guard_rules_ok [OF g ft one_line_ident [OF gu]]) auto
qed

lemma guards_ok:
  assumes "build_allowlist_guards policy maps ctx = Inr (rules, ctx')" "maps_ok maps" "clean (PDict policy)"
  shows "list_all (line_ok policy) rules"
proof -
  from assms(1) obtain services where s: "as_dict (dget ''services'' policy) ''services'' = Inr services"
    and f: "foldE (guard_step policy maps) ([], ctx) (sorted_items services) = Inr (rules, ctx')"
    by (auto simp: build_allowlist_guards_def)
  note c = clean_sub [OF s assms(3)]
  show ?thesis
  proof (rule line_loop_ok [OF f])
    fix l1 c1 x l2 c2
    assume l1: "list_all (line_ok policy) l1" and x: "x \<in> set (sorted_items services)"
      and st: "guard_step policy maps (l1, c1) x = Inr (l2, c2)"
    obtain name where xe: "x = (name, dget name services)" using x by (auto simp: sorted_items_def)
    from st obtain service where sv: "as_dict (dget name services) (''services.'' @ name) = Inr service"
      and r: "l2 = l1 \<or> (\<exists>new. guard_service policy maps name service c1 = Inr (new, c2) \<and> l2 = l1 @ new)"
      by (auto simp: guard_step_def xe split: if_splits)
    show "list_all (line_ok policy) l2"
      using r l1 guard_service_ok [OF _ assms(2) clean_sub [OF sv c]] by auto
  qed simp
qed

lemma desktop_ipv6_ok:
  assumes "build_desktop_ipv6_accounting_rules policy maps ctx = Inr (rules, ctx')" "maps_ok maps"
  shows "list_all (line_ok policy) rules"
  using assms(1) cidr_ref_one_line [OF assms(2)]
  by (auto simp: build_desktop_ipv6_accounting_rules_def Let_def split: if_splits option.splits
      elim!: add_rules_ok dest!: chain_names_one_line dest: chains_ok_simps)

lemma chain_of_one_line: "chains_ok ch \<Longrightarrow> one_line (chain_of ch c)"
  by (simp add: chain_of_def chains_ok_simps)

lemma limited_log_one_line: "one_line lim \<Longrightarrow> one_line pre \<Longrightarrow> one_line (limited_log lim pre)"
  unfolding limited_log_def by (rule one_line_join) (auto split: if_splits)

lemma drop_log_targets_one_line:
  assumes "drop_log_targets names enforced = Inr targets" "c \<in> set targets"
  shows "one_line c"
proof -
  from assms obtain us where m: "mapE (\<lambda>c. if c \<in> set DROP_LOG_CHAINS then Inr ()
              else Inl (PolicyError (''logging.drop.chains: unsupported chain '' @ repr_str c
                     @ ''; expected one of '' @ repr_strs DROP_LOG_CHAINS))) names = Inr us"
    and c: "c \<in> set names"
    by (auto simp: drop_log_targets_def unique_strs_set split: if_splits)
  then show ?thesis using mapE_in_set2 [OF m c] by (auto simp: DROP_LOG_CHAINS_def split: if_splits)
qed

lemma drop_log_ok:
  assumes "build_drop_log_rules policy logging = Inr rules"
  shows "list_all (line_ok policy) rules"
proof (cases "rules = []")
  case False
  with assms obtain ch names enforced targets lim pre where
    ch: "chain_names policy = Inr ch" and lim: "one_line lim"
    and t: "drop_log_targets names enforced = Inr targets"
    and a: "add_rules policy (map (\<lambda>c. (chain_of ch c, limited_log (strip lim) (log_prefix pre @ '' drop '' @ c @ '' '')))
            targets) = Inr rules"
    unfolding build_drop_log_rules_def Let_def
    by (auto simp del: append.simps split: if_splits dest: rate_expr_one_line)
  show ?thesis
    using lim drop_log_targets_one_line [OF t] chain_of_one_line [OF chain_names_one_line [OF ch]]
    by (intro add_rules_ok [OF a])
      (auto simp: list_all_set one_line_strip intro!: limited_log_one_line)
qed simp

lemma output_audit_ok:
  assumes "build_output_audit_rule policy logging = Inr rules"
  shows "list_all (line_ok policy) rules"
proof (cases "rules = []")
  case False
  with assms obtain ch lim pre where
    ch: "chain_names policy = Inr ch" and lim: "one_line lim"
    and a: "add_rules policy [(ch_output ch, limited_log (strip lim) (log_prefix pre @ '' accept output ''))] = Inr rules"
    unfolding build_output_audit_rule_def Let_def
    by (auto simp del: append.simps join.simps split: if_splits dest: rate_expr_one_line)
  show ?thesis
    using lim chains_ok_simps [OF chain_names_one_line [OF ch]]
    by (intro add_rules_ok [OF a]) (auto simp: one_line_strip intro!: limited_log_one_line)
qed simp

lemma sec_local_hooks_ok:
  assumes "sec_local_hooks policy cfg ch = Inr ls" "chains_ok ch"
  shows "list_all (line_ok policy) ls"
  using assms(1) chains_ok_simps [OF assms(2)]
  by (auto simp: sec_local_hooks_def dest!: output_audit_ok elim!: add_rules_ok)

lemma link_local_ok:
  assumes "build_link_local_noise_drop_rules policy = Inr rules"
  shows "list_all (line_ok policy) rules"
  using assms
  by (auto simp: build_link_local_noise_drop_rules_def dest!: chain_names_one_line [THEN chains_ok_simps]
      split: if_splits elim!: add_rules_ok)

lemma sec_tail_ok: "sec_tail policy cfg = Inr ls \<Longrightarrow> list_all (line_ok policy) ls"
  by (auto simp: sec_tail_def dest: link_local_ok drop_log_ok)

subsection \<open>Services, egress, forwarding, containers\<close>

lemma both_families_ok:
  assumes "both_families build (ls0, c0) = Inr (ls, c)" "list_all (line_ok policy) ls0"
    and "\<And>v. section_ok policy (build v)"
  shows "list_all (line_ok policy) ls"
  using assms by (auto simp: both_families_def simp del: foldE.simps intro: run_sections_ok)

lemma protocol_loop_ok:
  assumes "foldE (\<lambda>s proto. both_families (build proto) s) (ls0, c0) protos = Inr (ls, c)"
    and "list_all (line_ok policy) ls0"
    and "\<And>proto v. proto \<in> set protos \<Longrightarrow> section_ok policy (build proto v)"
  shows "list_all (line_ok policy) ls"
proof (rule line_loop_ok [OF assms(1,2)])
  fix l1 c1 proto l2 c2
  assume "list_all (line_ok policy) l1" "proto \<in> set protos" "both_families (build proto) (l1, c1) = Inr (l2, c2)"
  then show "list_all (line_ok policy) l2" using both_families_ok assms(3) by blast
qed

lemma protos_one_line: "normalize_protocols service label = Inr protos \<Longrightarrow> p \<in> set protos \<Longrightarrow> one_line p"
proof -
  assume "normalize_protocols service label = Inr protos" "p \<in> set protos"
  then have "p \<in> set PROTO_SET" using normalize_protocols_nonempty by blast
  then show ?thesis by (auto simp: PROTO_SET_def)
qed

lemma ports_texts: "normalize_ports service label = Inr ports \<Longrightarrow> list_all port_text ports"
  using ports_of_texts by (auto simp: normalize_ports_def)

lemma clean_sorted_item: "clean (PDict d) \<Longrightarrow> (k, v) \<in> set (sorted_items d) \<Longrightarrow> one_line k \<and> clean v"
proof -
  assume c: "clean (PDict d)" and "(k, v) \<in> set (sorted_items d)"
  then have v: "v = dget k d" and "k \<in> fst ` set d" by (auto simp: sorted_items_def)
  then show ?thesis using c clean_dget [OF c] by (auto simp: list_all_set)
qed

lemma inbound_step_ok:
  assumes "inbound_service_step policy maps (ls0, c0) (name, raw) = Inr (ls, c)"
    and "maps_ok maps" "one_line name" "clean raw" "list_all (line_ok policy) ls0"
  shows "list_all (line_ok policy) ls"
proof -
  from assms(1) obtain service where sv: "as_dict raw (''services.'' @ name) = Inr service"
    and r: "ls = ls0 \<or> (\<exists>ports protos. normalize_ports service (''services.'' @ name) = Inr ports
      \<and> normalize_protocols service (''services.'' @ name) = Inr protos
      \<and> foldE (\<lambda>s proto. both_families
          (build_inbound_rules_for_ip_version policy maps name service proto ports) s) (ls0, c0) protos = Inr (ls, c))"
    unfolding inbound_service_step_def Let_def by (auto simp del: append.simps split: if_splits)
  from r show ?thesis
  proof (elim disjE exE conjE)
    fix ports protos
    assume p: "normalize_ports service (''services.'' @ name) = Inr ports"
      "normalize_protocols service (''services.'' @ name) = Inr protos"
      and f: "foldE (\<lambda>s proto. both_families
          (build_inbound_rules_for_ip_version policy maps name service proto ports) s) (ls0, c0) protos = Inr (ls, c)"
    show ?thesis
      by (rule protocol_loop_ok [OF f assms(5)], rule section_okI)
        (use inbound_rules_ok [OF _ assms(2) clean_as_dict [OF sv assms(4)] assms(3)]
          ports_texts [OF p(1)] protos_one_line [OF p(2)] in blast)
  qed (use assms(5) in simp)
qed

lemma outbound_spec_ok:
  assumes "outbound_spec policy maps name spec ports label source (ls0, c0) = Inr (ls, c)"
    and "maps_ok maps" "one_line name" "clean (PDict spec)" "list_all port_text ports"
    and "list_all (line_ok policy) ls0"
  shows "list_all (line_ok policy) ls"
proof -
  from assms(1) obtain protos where p: "normalize_protocols spec label = Inr protos"
    and f: "foldE (\<lambda>s proto. both_families
               (\<lambda>v. build_outbound_rules_for_ip_version policy maps name spec proto ports v source) s)
       (ls0, c0) protos = Inr (ls, c)"
    by (auto simp: outbound_spec_def)
  show ?thesis
    by (rule protocol_loop_ok [OF f assms(6)], rule section_okI)
      (use outbound_rules_ok [OF _ assms(2) assms(4) assms(3)] assms(5) protos_one_line [OF p] in blast)
qed

lemma clean_mirror:
  assumes "mirror_allow service label = Inr service'" "clean (PDict service)"
  shows "clean (PDict service')"
proof (cases "\<not> dmem ''allow_to'' service \<and> dmem ''allow'' service")
  case True
  with assms(1) obtain allow where a: "as_dict (dget ''allow'' service) (label @ ''.allow'') = Inr allow"
    and s': "service' = dset ''allow_to'' (PDict (map (\<lambda>k. (k, dget_or k (PList []) allow)) MIRROR_KEYS)) service"
    by (auto simp: mirror_allow_def)
  have "clean (PDict allow)" by (rule clean_sub [OF a assms(2)])
  then have "clean (dget_or k (PList []) allow)" for k by (rule clean_dget_or) simp
  moreover have "list_all one_line MIRROR_KEYS" by (simp add: MIRROR_KEYS_def)
  ultimately have m: "clean (PDict (map (\<lambda>k. (k, dget_or k (PList []) allow)) MIRROR_KEYS))"
    by (auto simp: list_all_set)
  show ?thesis
    using set_dset [of "''allow_to''" "PDict (map (\<lambda>k. (k, dget_or k (PList []) allow)) MIRROR_KEYS)" service]
      assms(2) m unfolding s' by (fastforce simp: list_all_set simp del: set_map)
next
  case False
  then show ?thesis using assms by (auto simp: mirror_allow_def split: if_splits)
qed

lemma outbound_step_ok:
  assumes "outbound_service_step policy maps (ls0, c0) (name, raw) = Inr (ls, c)"
    and "maps_ok maps" "one_line name" "clean raw" "list_all (line_ok policy) ls0"
  shows "list_all (line_ok policy) ls"
proof -
  from assms(1) obtain service where sv: "as_dict raw (''services.'' @ name) = Inr service"
    and r: "ls = ls0 \<or> (\<exists>ports mirrored. normalize_ports service (''services.'' @ name) = Inr ports
      \<and> mirror_allow service (''services.'' @ name) = Inr mirrored
      \<and> outbound_spec policy maps name mirrored ports (''services.'' @ name) ''service'' (ls0, c0) = Inr (ls, c))"
    unfolding outbound_service_step_def Let_def by (auto simp del: append.simps split: if_splits)
  from r show ?thesis
    using outbound_spec_ok [OF _ assms(2,3)] clean_mirror clean_as_dict [OF sv assms(4)] ports_texts assms(5)
    by blast
qed

lemma egress_step_ok:
  assumes "egress_rule_step policy maps (ls0, c0) (name, raw) = Inr (ls, c)"
    and "maps_ok maps" "one_line name" "clean raw" "list_all (line_ok policy) ls0"
  shows "list_all (line_ok policy) ls"
proof -
  from assms(1) obtain spec where sv: "as_dict raw (''egress.rules.'' @ name) = Inr spec"
    and r: "ls = ls0 \<or> (\<exists>ports. normalize_ports spec (''egress.rules.'' @ name) = Inr ports
      \<and> outbound_spec policy maps name spec ports (''egress.rules.'' @ name) ''egress'' (ls0, c0) = Inr (ls, c))"
    unfolding egress_rule_step_def Let_def by (auto simp del: append.simps split: if_splits)
  from r show ?thesis
    using outbound_spec_ok [OF _ assms(2,3)] clean_as_dict [OF sv assms(4)] ports_texts assms(5) by blast
qed

lemma item_loop_ok:
  assumes "foldE step (ls0, c0) (sorted_items d) = Inr (ls, c)" "clean (PDict d)" "list_all (line_ok policy) ls0"
    and "\<And>l1 c1 name raw l2 c2. step (l1, c1) (name, raw) = Inr (l2, c2) \<Longrightarrow> one_line name \<Longrightarrow> clean raw
      \<Longrightarrow> list_all (line_ok policy) l1 \<Longrightarrow> list_all (line_ok policy) l2"
  shows "list_all (line_ok policy) ls"
proof (rule line_loop_ok [OF assms(1,3)])
  fix l1 c1 x l2 c2
  assume "list_all (line_ok policy) l1" "x \<in> set (sorted_items d)" "step (l1, c1) x = Inr (l2, c2)"
  then show "list_all (line_ok policy) l2"
    using clean_sorted_item [OF assms(2), of "fst x" "snd x"] assms(4) [of l1 c1 "fst x" "snd x"] by simp
qed

lemma sec_inbound_ok:
  assumes "maps_ok maps" "clean (PDict policy)"
  shows "section_ok policy (sec_inbound policy maps)"
proof (rule section_okI)
  fix ctx ls ctx' assume "sec_inbound policy maps ctx = Inr (ls, ctx')"
  then obtain services where s: "as_dict (dget ''services'' policy) ''services'' = Inr services"
    and f: "foldE (inbound_service_step policy maps) ([[], ''# Inbound and bidirectional service rules''], ctx)
       (sorted_items services) = Inr (ls, ctx')"
    by (auto simp: sec_inbound_def)
  show "list_all (line_ok policy) ls"
    by (rule item_loop_ok [OF f clean_sub [OF s assms(2)]])
      (use inbound_step_ok [OF _ assms(1)] in \<open>auto simp: line_ok_comment\<close>)
qed

lemma sec_outbound_ok:
  assumes "maps_ok maps" "clean (PDict policy)"
  shows "section_ok policy (sec_outbound policy maps)"
proof (rule section_okI)
  fix ctx ls ctx' assume "sec_outbound policy maps ctx = Inr (ls, ctx')"
  then obtain services where s: "as_dict (dget ''services'' policy) ''services'' = Inr services"
    and f: "foldE (outbound_service_step policy maps) ([[], ''# Outbound service and egress rules''], ctx)
       (sorted_items services) = Inr (ls, ctx')"
    by (auto simp: sec_outbound_def)
  show "list_all (line_ok policy) ls"
    by (rule item_loop_ok [OF f clean_sub [OF s assms(2)]])
      (use outbound_step_ok [OF _ assms(1)] in \<open>auto simp: line_ok_comment\<close>)
qed

lemma sec_egress_rules_ok:
  assumes "maps_ok maps" "clean (PDict (fc_egress cfg))"
  shows "section_ok policy (sec_egress_rules policy maps cfg)"
proof (rule section_okI)
  fix ctx ls ctx' assume "sec_egress_rules policy maps cfg ctx = Inr (ls, ctx')"
  then obtain rules where s: "as_dict (dget ''rules'' (fc_egress cfg)) ''egress.rules'' = Inr rules"
    and f: "foldE (egress_rule_step policy maps) ([], ctx) (sorted_items rules) = Inr (ls, ctx')"
    by (auto simp: sec_egress_rules_def)
  show "list_all (line_ok policy) ls"
    by (rule item_loop_ok [OF f clean_sub [OF s assms(2)]]) (use egress_step_ok [OF _ assms(1)] in auto)
qed

lemma builtin_pair_ok:
  assumes "chains_ok ch" "\<And>r. any4 = Some r \<Longrightarrow> one_line r" "\<And>r. any6 = Some r \<Longrightarrow> one_line r" "one_line m"
  shows "list_all rule_ok (builtin_pair ch any4 any6 m comment)"
  using assms chains_ok_simps [OF assms(1)] by (auto simp: builtin_pair_def intro!: opt_rule_ok)

lemma sec_egress_builtin_ok:
  assumes "sec_egress_builtin policy maps cfg ch = Inr ls" "maps_ok maps" "chains_ok ch"
  shows "list_all (line_ok policy) ls"
proof -
  let ?p = "builtin_pair ch (define_ref (dm_cidr4 maps) ''any_ipv4'') (define_ref (dm_cidr6 maps) ''any_ipv6'')"
  have bp: "list_all rule_ok (?p m c)" if "one_line m" for m c
    using builtin_pair_ok [OF assms(3)] cidr_ref_one_line [OF assms(2)] that by blast
  from assms(1) obtain dns ntp http r1 r2 r3 where
    "ls = [] \<or> (add_rules policy (if \<not> dns then [] else ?p ''tcp dport 53'' ''egress builtin dns''
                   @ ?p ''udp dport 53'' ''egress builtin dns'') = Inr r1
      \<and> add_rules policy (if \<not> ntp then [] else ?p ''udp dport 123'' ''egress builtin ntp'') = Inr r2
      \<and> add_rules policy (if \<not> http then [] else ?p ''tcp dport { 80, 443 }'' ''egress builtin http https'') = Inr r3
      \<and> ls = r1 @ r2 @ r3)"
    unfolding sec_egress_builtin_def Let_def
    by (cases "egress_enforced policy = Inr True") (auto, blast)
  moreover have "list_all (line_ok policy) r"
    if "add_rules policy (if \<not> b then [] else rs) = Inr r" "list_all rule_ok rs" for b rs r
    using that by (cases b) (auto elim!: add_rules_ok)
  ultimately show ?thesis using bp by (elim disjE conjE) auto
qed

lemma set_match_one_line:
  "set_match pre direct = Inr xs \<Longrightarrow> one_line pre \<Longrightarrow> list_all one_line direct \<Longrightarrow> list_all one_line xs"
  by (auto simp: set_match_def dest: nft_set_one_line split: if_splits)

lemma opt_match_one_line: "one_line pre \<Longrightarrow> list_all one_line refs \<Longrightarrow> list_all one_line (opt_match pre refs)"
  by (cases refs) (auto simp: opt_match_def)

lemma forward_rule_expr_one_line:
  assumes "forward_rule_expr rule_name src sd dst dd (fi, ti) = Inr e"
    and "list_all one_line src" "list_all one_line sd" "list_all one_line dst" "list_all one_line dd"
    and "one_line fi" "one_line ti"
  shows "one_line e"
  using assms set_match_one_line [of "''ip saddr ''" sd] set_match_one_line [of "''ip daddr ''" dd]
    opt_match_one_line [of "''ip saddr ''" src] opt_match_one_line [of "''ip daddr ''" dst]
  by (auto simp: forward_rule_expr_def intro!: one_line_join_non_empty one_line_strip)

lemma forward_step_ok:
  assumes "forward_rule_step policy maps ch (ls0, c0) (name, raw) = Inr (ls, c)"
    and "maps_ok maps" "clean raw" "chains_ok ch" "list_all (line_ok policy) ls0"
  shows "list_all (line_ok policy) ls"
proof -
  let ?l = "''forwarding.rules.'' @ name"
  from assms(1) obtain rule where sv: "as_dict raw ?l = Inr rule"
    and r: "ls = ls0 \<or> (\<exists>fe te src dst dsrc c1 ddst es rules.
      interface_match_exprs maps (if_block rule ''from_interfaces'' ''from_interface_groups'') ''in'' (?l @ ''.from'') = Inr fe
      \<and> interface_match_exprs maps (if_block rule ''to_interfaces'' ''to_interface_groups'') ''out'' (?l @ ''.to'') = Inr te
      \<and> cidr_refs_of maps rule ''source_ipv4_groups'' V4 (?l @ ''.source_ipv4_groups'') = Inr src
      \<and> cidr_refs_of maps rule ''destination_ipv4_groups'' V4 (?l @ ''.destination_ipv4_groups'') = Inr dst
      \<and> direct_cidrs_of rule ''source_ipv4'' V4 (?l @ ''.source_ipv4'') c0 = Inr (dsrc, c1)
      \<and> direct_cidrs_of rule ''destination_ipv4'' V4 (?l @ ''.destination_ipv4'') c1 = Inr (ddst, c)
      \<and> mapE (forward_rule_expr name src dsrc dst ddst) (List.product fe te) = Inr es
      \<and> add_rules policy (map (Pair (ch_forward ch)) es) = Inr rules \<and> ls = ls0 @ rules)"
    unfolding forward_rule_step_def Let_def prod.case
    by (auto simp del: append.simps mapE.simps split: if_splits) blast?
  have c: "clean (PDict rule)" by (rule clean_as_dict [OF sv assms(3)])
  from r show ?thesis
  proof (elim disjE exE conjE)
    fix fe te src dst dsrc c1 ddst es rules
    assume f: "interface_match_exprs maps (if_block rule ''from_interfaces'' ''from_interface_groups'') ''in'' (?l @ ''.from'') = Inr fe"
      "interface_match_exprs maps (if_block rule ''to_interfaces'' ''to_interface_groups'') ''out'' (?l @ ''.to'') = Inr te"
      and r: "cidr_refs_of maps rule ''source_ipv4_groups'' V4 (?l @ ''.source_ipv4_groups'') = Inr src"
      "cidr_refs_of maps rule ''destination_ipv4_groups'' V4 (?l @ ''.destination_ipv4_groups'') = Inr dst"
      and d: "direct_cidrs_of rule ''source_ipv4'' V4 (?l @ ''.source_ipv4'') c0 = Inr (dsrc, c1)"
      "direct_cidrs_of rule ''destination_ipv4'' V4 (?l @ ''.destination_ipv4'') c1 = Inr (ddst, c)"
      and m: "mapE (forward_rule_expr name src dsrc dst ddst) (List.product fe te) = Inr es"
      and a: "add_rules policy (map (Pair (ch_forward ch)) es) = Inr rules" and ls: "ls = ls0 @ rules"
    note i = interface_match_one_line [OF f(1) assms(2)] interface_match_one_line [OF f(2) assms(2)]
    have "list_all one_line es"
      unfolding list_all_set
    proof
      fix e assume "e \<in> set es"
      then obtain fi ti where ft: "fi \<in> set fe" "ti \<in> set te"
        and e: "forward_rule_expr name src dsrc dst ddst (fi, ti) = Inr e"
        using mapE_in_set [OF m] by fastforce
      show "one_line e"
        by (rule forward_rule_expr_one_line [OF e cidr_refs_one_line [OF r(1) assms(2)]
              direct_cidrs_one_line [OF d(1) c] cidr_refs_one_line [OF r(2) assms(2)]
              direct_cidrs_one_line [OF d(2) c]])
          (use i ft in \<open>auto simp: list_all_set\<close>)
    qed
    then show ?thesis
      using assms(5) chains_ok_simps [OF assms(4)]
      by (simp add: ls add_rules_ok [OF a] map_rule_ok)
  qed (use assms(5) in simp)
qed

lemma sec_forwarding_ok:
  assumes "maps_ok maps" "clean (PDict (fc_forwarding cfg))" "chains_ok ch"
  shows "section_ok policy (sec_forwarding policy maps cfg ch)"
proof (rule section_okI)
  fix ctx ls ctx' assume "sec_forwarding policy maps cfg ch ctx = Inr (ls, ctx')"
  then have "ls = [[], ''# Forwarding and container rules''] \<or> (\<exists>est rules.
      when_flag (fc_forwarding cfg) ''allow_established_related'' True (add_rules policy
       [(ch_forward ch, ''ct state established,related counter accept''
           @ comment_expr ''forward established related'')]) = Inr est
      \<and> as_dict (dget ''rules'' (fc_forwarding cfg)) ''forwarding.rules'' = Inr rules
      \<and> foldE (forward_rule_step policy maps ch) ([[], ''# Forwarding and container rules''] @ est, ctx) rules
          = Inr (ls, ctx'))"
    by (auto simp: sec_forwarding_def Let_def simp del: append.simps split: if_splits)
  then show "list_all (line_ok policy) ls"
  proof (elim disjE exE conjE)
    fix est rules
    assume e: "when_flag (fc_forwarding cfg) ''allow_established_related'' True (add_rules policy
       [(ch_forward ch, ''ct state established,related counter accept''
           @ comment_expr ''forward established related'')]) = Inr est"
      and s: "as_dict (dget ''rules'' (fc_forwarding cfg)) ''forwarding.rules'' = Inr rules"
      and f: "foldE (forward_rule_step policy maps ch) ([[], ''# Forwarding and container rules''] @ est, ctx) rules
          = Inr (ls, ctx')"
    have "list_all (line_ok policy) est"
      by (rule when_flag_ok [OF e], erule add_rules_ok) (simp add: chains_ok_simps [OF assms(3)])
    then have "list_all (line_ok policy) ([[], ''# Forwarding and container rules''] @ est)"
      by (simp add: line_ok_comment)
    then show ?thesis
    proof (rule line_loop_ok [OF f])
      fix l1 c1 x l2 c2
      assume x: "list_all (line_ok policy) l1" "x \<in> set rules"
        and st: "forward_rule_step policy maps ch (l1, c1) x = Inr (l2, c2)"
      have "clean (snd x)" using clean_entry [OF clean_sub [OF s assms(2)], of "fst x" "snd x"] x(2) by simp
      then show "list_all (line_ok policy) l2"
        using forward_step_ok [of policy maps ch l1 c1 "fst x" "snd x"] st assms(1,3) x(1) by simp
    qed
  qed (simp add: line_ok_comment)
qed

lemma container_step_ok:
  assumes "container_step policy maps ch active wan (ls0, c0) x = Inr (ls, c)"
    and "maps_ok maps" "chains_ok ch" "list_all one_line wan" "list_all (line_ok policy) ls0"
  shows "list_all (line_ok policy) ls"
proof -
  obtain cname raw where x: "x = (cname, raw)" by force
  from assms(1) have "ls = ls0 \<or> (\<exists>cspec ce rules.
      interface_match_exprs maps (if_block cspec ''interfaces'' ''interface_groups'') ''in'' (''containers.'' @ cname) = Inr ce
      \<and> add_rules policy (map (\<lambda>(c, w). (ch_forward ch, c @ '' '' @ w @ '' counter accept''
                 @ comment_expr (''container outbound '' @ cname)))
               (filter (\<lambda>(c, w). c \<noteq> [] \<and> w \<noteq> []) (List.product ce wan))) = Inr rules
      \<and> ls = ls0 @ rules)"
    unfolding container_step_def Let_def prod.case x by (auto simp del: append.simps split: if_splits)
  then show ?thesis
  proof (elim disjE exE conjE)
    fix cspec ce rules
    assume i: "interface_match_exprs maps (if_block cspec ''interfaces'' ''interface_groups'') ''in''
        (''containers.'' @ cname) = Inr ce"
      and a: "add_rules policy (map (\<lambda>(c, w). (ch_forward ch, c @ '' '' @ w @ '' counter accept''
                 @ comment_expr (''container outbound '' @ cname)))
               (filter (\<lambda>(c, w). c \<noteq> [] \<and> w \<noteq> []) (List.product ce wan))) = Inr rules"
      and ls: "ls = ls0 @ rules"
    have "list_all (line_ok policy) rules"
      using interface_match_one_line [OF i assms(2)] assms(4) chains_ok_simps [OF assms(3)]
      by (intro add_rules_ok [OF a]) (auto simp: list_all_set)
    then show ?thesis using assms(5) ls by simp
  qed (use assms(5) in simp)
qed

lemma sec_containers_ok:
  assumes "maps_ok maps" "chains_ok ch"
  shows "section_ok policy (sec_containers policy maps cfg ch)"
proof (rule section_okI)
  fix ctx ls ctx' assume "sec_containers policy maps cfg ch ctx = Inr (ls, ctx')"
  then obtain active block wan where w: "interface_match_exprs maps block ''out'' ''interfaces.wan'' = Inr wan"
    and f: "foldE (container_step policy maps ch active wan) ([], ctx) (fc_containers cfg) = Inr (ls, ctx')"
    by (auto simp: sec_containers_def)
  show "list_all (line_ok policy) ls"
    by (rule line_loop_ok [OF f])
      (use container_step_ok [OF _ assms interface_match_one_line [OF w assms(1)]] in auto)
qed

subsection \<open>The fragment\<close>

lemma filter_config_clean:
  assumes "filter_config policy = Inr cfg" "clean (PDict policy)"
  shows "clean (PDict (fc_anti cfg)) \<and> clean (PDict (fc_egress cfg)) \<and> clean (PDict (fc_forwarding cfg))"
  using assms(1) clean_sub [OF _ assms(2)] by (auto simp: filter_config_def simp del: clean.simps)

lemma filter_sections_ok:
  assumes "filter_config policy = Inr cfg" "chain_names policy = Inr ch" "maps_ok maps" "clean (PDict policy)"
  shows "list_all (section_ok policy) (filter_sections policy maps cfg ch)"
proof -
  have ch: "chains_ok ch" by (rule chain_names_one_line [OF assms(2)])
  note cfg = filter_config_clean [OF assms(1,4)]
  have sf: "section_ok policy (sec_source_filter policy maps cfg)"
    using build_source_filter_ok [OF _ assms(3,4)]
    by (auto simp: section_ok_def sec_source_filter_def split: if_splits)
  have others: "section_ok policy (build_allowlist_guards policy maps)"
    "section_ok policy (build_desktop_ipv6_accounting_rules policy maps)"
    "section_ok policy (sec_anti_spoof policy maps cfg ch)"
    using guards_ok [OF _ assms(3,4)] desktop_ipv6_ok [OF _ assms(3)]
      sec_anti_spoof_ok [OF _ assms(3) _ ch] cfg by (blast intro: section_okI)+
  show ?thesis
    unfolding filter_sections_def
    using ch assms(3,4) cfg sf others
    by (auto simp del: clean.simps intro!: section_ok_lift sec_inbound_ok sec_outbound_ok sec_egress_rules_ok
        sec_forwarding_ok sec_containers_ok
        dest: sec_invalid_ok sec_app_veth_ok sec_established_ok sec_loopback_ok sec_martian_loopback_ok
          sec_dhcp_ok sec_unsafe_ok sec_neighbor_ok sec_icmp_ok sec_local_hooks_ok sec_egress_builtin_ok
          sec_tail_ok)
qed

lemma filter_lines_all_ok:
  assumes "filter_lines policy maps ctx allow_public = Inr (lines, ctx')"
    and "build_define_maps policy ctx0 = Inr (maps, ctx1)" "clean (PDict policy)"
  shows "list_all (line_ok policy) lines"
proof -
  from assms(1) obtain c1 cfg ch where "filter_config policy = Inr cfg" "chain_names policy = Inr ch"
    and f: "foldE run_section (FILTER_HEADER, c1) (filter_sections policy maps cfg ch) = Inr (lines, ctx')"
    by (auto simp: filter_lines_def run_sections_def)
  from filter_sections_ok [OF this(1,2) build_define_maps_ok [OF assms(2,3)] assms(3)]
  show ?thesis by (rule run_sections_ok [OF f, rotated]) (simp add: FILTER_HEADER_def line_ok_comment)
qed

end
