(* ===== verification/NftGuarantees.thy ===== *)
theory NftGuarantees
  imports NftDemo NftLines
begin

text \<open>
  What a run of the generator guarantees, stated of \<open>generate\<close> and of \<open>load_policy\<close>, with the
  demonstration profile as the instance.
\<close>

text \<open>C1 (public-exposure interlock): when a run succeeds without \<open>--allow-public-sensitive\<close> and the
  policy's \<open>safety.forbid_public_admin_services_by_default\<close> is true (its default), an enabled sensitive
  service that accepts inbound traffic has an allowlist that resolves to networks which leave some
  address of each family uncovered: split default routes, aliases, overlapping or adjacent networks
  cannot add up to a whole address space.\<close>

theorem sensitive_service_not_public:
  assumes "generate fs safe_load args = Inr g" "\<not> arg_allow_public_sensitive args"
    and "as_bool (dget ''forbid_public_admin_services_by_default'' (gen_safety g)) True = Inr True"
    and "as_dict (dget ''services'' (gen_policy g)) ''services'' = Inr services"
    and "(name, raw) \<in> set services"
    and "as_dict raw (''services.'' @ name) = Inr service"
    and "as_bool (dget ''enabled'' service) False = Inr True"
    and "as_bool (dget ''sensitive'' service) False = Inr True"
    and "lower (py_str (dget_or ''direction'' (PStr ''inbound'') service)) \<in> {''inbound'', ''bidirectional''}"
  shows "\<exists>ctx maps ctx' ns. build_define_maps (gen_policy g) ctx = Inr (maps, ctx')
    \<and> allow_networks maps service = Inr ns
    \<and> (\<forall>v. \<exists>a \<in> ip_space v. a \<notin> nets_addrs (filter (\<lambda>n. net_ver n = v) ns))"
proof -
  from assms(1) obtain ctx where
    saf: "as_dict (dget ''safety'' (gen_policy g)) ''safety'' = Inr (gen_safety g)"
    and ren: "render_all (gen_policy g) (gen_paths g) ctx (arg_allow_public_sensitive args)
      = Inr (gen_rendered g, gen_ctx g)" by (rule generateE)
  from ren obtain maps ctx1 filt where m: "build_define_maps (gen_policy g) ctx = Inr (maps, ctx1)"
    and f: "render_filter (gen_policy g) maps ctx1 False = Inr (filt, gen_ctx g)"
    using assms(2) by (auto elim!: render_allE)
  from f obtain c where "validate_services (gen_policy g) maps ctx1 False = Inr c"
    by (rule render_filterE)
  from validate_services_public [OF this saf assms(3-9)] m show ?thesis by blast
qed

lemma demo_safety: "gen_safety demo_generated = []"
proof -
  have "as_dict (dget ''safety'' demo_policy) ''safety'' = Inr []"
    by (simp add: demo_policy_def dget_def as_dict_def)
  then show ?thesis using demo_generate demo_gen_policy by (auto elim!: generateE)
qed

theorem sensitive_service_not_public_witness:
  "\<exists>ctx maps ctx' ns. build_define_maps demo_policy ctx = Inr (maps, ctx')
    \<and> allow_networks maps demo_service = Inr ns
    \<and> (\<forall>v. \<exists>a \<in> ip_space v. a \<notin> nets_addrs (filter (\<lambda>n. net_ver n = v) ns))"
  using sensitive_service_not_public [OF demo_generate, of "[(''ssh'', PDict demo_service)]" "''ssh''"
      "PDict demo_service" demo_service]
  by (simp add: demo_gen_policy demo_safety demo_args_def)
    (simp add: demo_policy_def demo_service_def dget_def dget_or_def as_dict_def as_bool_def lower_def
      lower_char_def ord_def)

text \<open>Overlays cannot reach the rest of the policy: whatever overlays a run merges, every
  top-level section outside the overlay sections is the one of the profile: identity, safety
  interlocks, base policies, features, tables, source filtering and output paths.\<close>

theorem overlays_keep_profile_sections:
  assumes "load_policy fs safe_load profile_path overlay_paths force ctx = Inr (policy, ctx')"
    and "k \<notin> set OVERLAY_KEYS"
  shows "\<exists>profile. load_yaml_file fs safe_load profile_path = Inr profile
    \<and> require_kind profile PROFILE_KIND profile_path = Inr ()
    \<and> map_of policy k = map_of profile k"
proof -
  from assms(1) obtain profile loaded where p: "load_yaml_file fs safe_load profile_path = Inr profile"
    "require_kind profile PROFILE_KIND profile_path = Inr ()"
    and st: "foldE (overlay_step force) (profile, ctx) (sort_key overlay_key loaded) = Inr (policy, ctx')"
    by (auto simp: load_policy_alt)
  have "map_of policy k = map_of profile k"
    using overlay_steps_inv [OF st, of "\<lambda>p. map_of p k = map_of profile k"]
      merge_overlay_frame [OF _ assms(2)] by simp
  with p show ?thesis by blast
qed

theorem overlays_keep_profile_sections_witness:
  "\<exists>profile. load_yaml_file demo_fs demo_yaml ''/p.yaml'' = Inr profile
    \<and> require_kind profile PROFILE_KIND ''/p.yaml'' = Inr ()
    \<and> map_of demo_merged ''policies'' = map_of profile ''policies''"
  by (rule overlays_keep_profile_sections [OF demo_merge_runs]) (simp add: OVERLAY_KEYS_def GROUP_KEYS_def)

text \<open>Overlays only extend groups: a value that the profile lists in an interface, network or port
  group is in that group after the overlays were merged.\<close>

theorem overlay_groups_grow:
  assumes "load_policy fs safe_load profile_path overlay_paths force ctx = Inr (policy, ctx')"
    and "load_yaml_file fs safe_load profile_path = Inr profile"
    and "j \<in> set GROUP_KEYS" "policy_group_holds profile j grp r"
  shows "policy_group_holds policy j grp r"
proof -
  from assms(1,2) obtain loaded where
    st: "foldE (overlay_step force) (profile, ctx) (sort_key overlay_key loaded) = Inr (policy, ctx')"
    by (auto simp: load_policy_alt)
  show ?thesis
    by (rule overlay_steps_inv [OF st, where P = "\<lambda>p. policy_group_holds p j grp r", OF assms(4)])
      (rule merge_overlay_grows [OF _ assms(3)])
qed

lemma demo_profile_loads: "load_yaml_file demo_fs demo_yaml ''/p.yaml'' = Inr demo_policy"
  by (simp add: load_yaml_file_def demo_fs_def demo_yaml_def MAX_YAML_BYTES_def)

lemma demo_group: "policy_group_holds demo_policy ''cidr_groups'' ''admin'' (repr_str ''10.0.0.5/8'')"
  by (simp add: policy_group_holds_def group_holds_def demo_policy_def)

theorem overlay_groups_grow_witness:
  "policy_group_holds demo_merged ''cidr_groups'' ''admin'' (repr_str ''10.0.0.5/8'')"
  by (rule overlay_groups_grow [OF demo_merge_runs demo_profile_loads _ demo_group])
    (simp add: GROUP_KEYS_def)

text \<open>C30 (the order of the overlay options does not matter): for distinct overlay paths that all load,
  every permutation of the options gives the same policy and warnings, or the same error.\<close>

theorem overlay_order_irrelevant:
  assumes "mset paths' = mset paths" "distinct paths"
    and "\<forall>p \<in> set paths. \<exists>item. load_overlay fs safe_load p = Inr item"
  shows "load_policy fs safe_load profile paths' force ctx = load_policy fs safe_load profile paths force ctx"
  using assms by (rule load_policy_perm)

lemma demo_overlay_loads_any:
  "path \<noteq> ''/p.yaml'' \<Longrightarrow> load_overlay demo_fs demo_yaml path = Inr (20, path, demo_overlay)"
  by (simp add: load_overlay_def load_yaml_file_def demo_fs_def demo_yaml_def MAX_YAML_BYTES_def
        require_kind_def demo_overlay_def dget_def dget_or_def as_dict_def as_int_def py_int_def
        SUPPORTED_API_VERSION_def OVERLAY_KIND_def)

theorem overlay_order_irrelevant_witness:
  "load_policy demo_fs demo_yaml ''/p.yaml'' [''/a.yaml'', ''/o.yaml''] False empty_context
    = load_policy demo_fs demo_yaml ''/p.yaml'' [''/o.yaml'', ''/a.yaml''] False empty_context"
  by (rule overlay_order_irrelevant) (simp_all add: demo_overlay_loads_any add_mset_commute)

text \<open>Merging twice is merging once: for a value in merge-normal form, merging it a second time
  changes nothing, whatever it was merged into.\<close>

theorem deep_merge_idempotent:
  assumes "merge_normal overlay"
  shows "deep_merge (deep_merge base overlay) overlay = deep_merge base overlay"
  using assms by (rule deep_merge_again)

theorem deep_merge_idempotent_witness:
  "deep_merge (deep_merge (PDict [(''a'', PList [PInt 1]), (''b'', PInt 2)])
       (PDict [(''a'', PList [PInt 3, PInt 1]), (''c'', PNone)])) (PDict [(''a'', PList [PInt 3, PInt 1]), (''c'', PNone)])
    = deep_merge (PDict [(''a'', PList [PInt 1]), (''b'', PInt 2)])
       (PDict [(''a'', PList [PInt 3, PInt 1]), (''c'', PNone)])"
  by (rule deep_merge_idempotent) code_simp

subsection \<open>Placeholders\<close>

fun str_leaves :: "pyval \<Rightarrow> string list" where
  "str_leaves (PStr s) = [s]"
| "str_leaves (PList xs) = concat (map str_leaves xs)"
| "str_leaves (PDict kvs) = concat (map (\<lambda>kv. str_leaves (snd kv)) kvs)"
| "str_leaves v = []"

lemma validate_unresolved_leaves:
  "validate_unresolved v path = Inr () \<longleftrightarrow> (\<forall>s \<in> set (str_leaves v). \<not> unresolved s)"
  "validate_items kvs path = Inr () \<longleftrightarrow> (\<forall>s \<in> set (str_leaves (PDict kvs)). \<not> unresolved s)"
  "validate_elems vs path i = Inr () \<longleftrightarrow> (\<forall>s \<in> set (str_leaves (PList vs)). \<not> unresolved s)"
  by (induction v path and kvs path and vs path i rule: validate_unresolved_validate_items_validate_elems.induct)
    auto

text \<open>No placeholder survives: when a run succeeds with placeholder rejection on, no string value
  anywhere in the merged policy, run-time networks included, is an unresolved placeholder.\<close>

theorem no_placeholder_survives:
  assumes "generate fs safe_load args = Inr g" "\<not> arg_allow_placeholders args"
    and "as_bool (dget ''reject_unresolved_placeholders'' (gen_safety g)) True = Inr True"
  shows "\<forall>s \<in> set (str_leaves (PDict (gen_policy g))). \<not> unresolved s"
proof -
  from assms(1) obtain ctx1 ctx2 reject where
    "as_bool (dget ''reject_unresolved_placeholders'' (gen_safety g)) True = Inr reject"
    and v: "validate_policy (gen_policy g) ctx1 (reject \<and> \<not> arg_allow_placeholders args) = Inr ctx2"
    by (rule generateE)
  then have "validate_unresolved (PDict (gen_policy g)) ''policy'' = Inr ()"
    using assms(2,3) by (auto simp: validate_policy_def)
  then show ?thesis by (simp only: validate_unresolved_leaves)
qed

theorem no_placeholder_survives_witness:
  "list_all (\<lambda>s. \<not> unresolved s) (str_leaves (PDict demo_policy))"
  using no_placeholder_survives [OF demo_generate]
  by (simp add: demo_gen_policy demo_safety demo_args_def dget_def as_bool_def list_all_set)

subsection \<open>The rendered texts\<close>

lemma conf_checks:
  assumes "render_nftables_conf policy paths = Inr conf"
  obtains shebang incs nft where "conf = conf_text shebang incs"
    and "starts_with ''#!'' shebang" "nl \<notin> set shebang"
    and "mapE (\<lambda>key. bindE (out_path key paths) (\<lambda>p. Inr (''include '' @ quote_nft_string p))) FRAGMENT_KEYS
        = Inr incs"
    and "as_dict (dget ''nftables'' policy) ''nftables'' = Inr nft"
    and "dget_or ''family'' (PStr ''inet'') nft = PStr ''inet''"
    and "dget_or ''filter_table'' (PStr ''labwc_filter'') nft = PStr ''labwc_filter''"
  using assms unfolding render_nftables_conf_def Let_def
  by (auto simp del: mapE.simps split: if_splits)

lemma mapE_out_path:
  "mapE (\<lambda>key. bindE (out_path key paths) (\<lambda>p. Inr (f p))) ks = Inr incs
    \<Longrightarrow> incs = map (\<lambda>key. f (the (map_of paths key))) ks"
  by (induction ks arbitrary: incs) (auto simp: out_path_def split: option.splits)

lemma fixed_family_table:
  assumes "as_dict (dget ''nftables'' policy) ''nftables'' = Inr nft"
    and "dget_or ''family'' (PStr ''inet'') nft = PStr ''inet''"
    and "dget_or ''filter_table'' (PStr ''labwc_filter'') nft = PStr ''labwc_filter''"
  shows "family_table policy = Inr (''inet'', ''labwc_filter'')"
proof -
  have "strip ''inet'' = ''inet''" "lower ''inet'' = ''inet''" "strip ''labwc_filter'' = ''labwc_filter''"
    "nft_ident_ok ''labwc_filter''"
    by code_simp+
  then show ?thesis
    using assms
    by (simp add: family_table_def validate_nft_family_def validate_nft_identifier_def NFT_FAMILIES_def)
qed

text \<open>C4 (only the owned tables): \<open>nftables.conf\<close> of a successful run is a shebang line, two fixed
  comments, the destruction of the two owned tables and nothing else, then the five includes, in that
  order; it never flushes the ruleset, and the filter rules are rendered for the owned table.\<close>

theorem conf_touches_owned_tables:
  assumes "generate fs safe_load args = Inr g"
  shows "\<exists>conf shebang. render_nftables_conf (gen_policy g) (gen_paths g) = Inr conf
    \<and> conf = join [nl]
       ([shebang, [],
         ''# Managed by nft-policy-generate.py. Do not edit generated fragments directly.'',
         ''# Reserved exclusively for this installer; other tables are untouched.'',
         ''destroy table inet labwc_filter'', ''destroy table ip labwc_nat'', []]
        @ map (\<lambda>key. ''include '' @ quote_nft_string (the (map_of (gen_paths g) key))) FRAGMENT_KEYS @ [[]])
    \<and> starts_with ''#!'' shebang \<and> nl \<notin> set shebang
    \<and> family_table (gen_policy g) = Inr (''inet'', ''labwc_filter'')"
proof -
  from assms obtain ctx where
    "render_all (gen_policy g) (gen_paths g) ctx (arg_allow_public_sensitive args)
      = Inr (gen_rendered g, gen_ctx g)" by (rule generateE)
  then obtain conf where conf: "render_nftables_conf (gen_policy g) (gen_paths g) = Inr conf"
    by (rule render_allE)
  from conf_checks [OF conf] obtain shebang incs nft where
    t: "conf = conf_text shebang incs" and s: "starts_with ''#!'' shebang" "nl \<notin> set shebang"
    and i: "mapE (\<lambda>key. bindE (out_path key (gen_paths g)) (\<lambda>p. Inr (''include '' @ quote_nft_string p)))
        FRAGMENT_KEYS = Inr incs"
    and n: "as_dict (dget ''nftables'' (gen_policy g)) ''nftables'' = Inr nft"
      "dget_or ''family'' (PStr ''inet'') nft = PStr ''inet''"
      "dget_or ''filter_table'' (PStr ''labwc_filter'') nft = PStr ''labwc_filter''" .
  show ?thesis unfolding conf_text_def [symmetric] mapE_out_path [OF i, symmetric]
    using conf t s fixed_family_table [OF n] by metis
qed

theorem conf_touches_owned_tables_witness:
  "family_table demo_policy = Inr (''inet'', ''labwc_filter'')"
  using conf_touches_owned_tables [OF demo_generate] by (auto simp: demo_gen_policy)

text \<open>C3 (the filter text is confined): when no key of the policy holds a newline and no text with a
  scope identifier does, every line of the filter text, as a reader that splits it at newlines sees
  it, is blank, a comment, or begins with \<open>add rule\<close> or \<open>add chain\<close> on the owned table; so no value of
  the YAML documents can start a statement of its own.\<close>

theorem filter_text_confined:
  assumes "generate fs safe_load args = Inr g" "clean (PDict (gen_policy g))"
  shows "\<exists>ctx maps ctx1 filt ctx2. build_define_maps (gen_policy g) ctx = Inr (maps, ctx1)
    \<and> render_filter (gen_policy g) maps ctx1 (arg_allow_public_sensitive args) = Inr (filt, ctx2)
    \<and> list_all (\<lambda>l. l = [] \<or> starts_with ''#'' l \<or> starts_with ''add rule inet labwc_filter '' l
         \<or> starts_with ''add chain inet labwc_filter '' l) (split_on nl filt)"
proof -
  from assms(1) obtain ctx where
    "render_all (gen_policy g) (gen_paths g) ctx (arg_allow_public_sensitive args)
      = Inr (gen_rendered g, gen_ctx g)" by (rule generateE)
  then obtain maps ctx1 filt conf where m: "build_define_maps (gen_policy g) ctx = Inr (maps, ctx1)"
    and f: "render_filter (gen_policy g) maps ctx1 (arg_allow_public_sensitive args) = Inr (filt, gen_ctx g)"
    and conf: "render_nftables_conf (gen_policy g) (gen_paths g) = Inr conf"
    by (rule render_allE)
  have ft: "family_table (gen_policy g) = Inr (''inet'', ''labwc_filter'')"
    by (rule conf_checks [OF conf]) (rule fixed_family_table)
  from f obtain ls where ls: "filter_lines (gen_policy g) maps ctx1 (arg_allow_public_sensitive args) = Inr (ls, gen_ctx g)"
    and t: "filt = join [nl] ls" by (auto simp: render_filter_def)
  have ok: "list_all (line_ok (gen_policy g)) ls" by (rule filter_lines_all_ok [OF ls m assms(2)])
  have "ls \<noteq> []"
    using ls run_sections_prefix by (fastforce simp: filter_lines_def run_sections_def FILTER_HEADER_def)
  then have "split_on nl filt = ls"
    unfolding t using ok by (intro split_on_join) (auto simp: list_all_set line_ok_def one_line_set)
  moreover have "list_all (\<lambda>l. l = [] \<or> starts_with ''#'' l \<or> starts_with ''add rule inet labwc_filter '' l
         \<or> starts_with ''add chain inet labwc_filter '' l) ls"
    using ok unfolding list_all_set line_ok_def ft by fastforce
  ultimately have "list_all (\<lambda>l. l = [] \<or> starts_with ''#'' l \<or> starts_with ''add rule inet labwc_filter '' l
         \<or> starts_with ''add chain inet labwc_filter '' l) (split_on nl filt)" by (simp only:)
  with m f show ?thesis by (intro exI conjI) assumption+
qed

lemma demo_clean: "clean (PDict demo_policy)"
  by code_simp

theorem filter_text_confined_witness:
  "\<exists>ctx maps ctx1 filt ctx2. build_define_maps demo_policy ctx = Inr (maps, ctx1)
    \<and> render_filter demo_policy maps ctx1 False = Inr (filt, ctx2)
    \<and> list_all (\<lambda>l. l = [] \<or> starts_with ''#'' l \<or> starts_with ''add rule inet labwc_filter '' l
         \<or> starts_with ''add chain inet labwc_filter '' l) (split_on nl filt)"
  using filter_text_confined [OF demo_generate] demo_clean by (simp add: demo_gen_policy demo_args_def)

subsection \<open>Instances of the rule properties\<close>

theorem enforced_service_guarded_witness:
  "\<exists>maps ctx lines ctx'. filter_lines demo_policy maps ctx False = Inr (lines, ctx')
    \<and> (\<exists>pre block post. lines = pre @ block @ post
         \<and> guarded_block demo_policy maps ''ssh'' demo_service block)"
proof -
  from demo_generate obtain ctx where
    "render_all (gen_policy demo_generated) (gen_paths demo_generated) ctx
       (arg_allow_public_sensitive demo_args) = Inr (gen_rendered demo_generated, gen_ctx demo_generated)"
    by (rule generateE)
  then obtain maps ctx1 filt where
    "render_filter demo_policy maps ctx1 False = Inr (filt, gen_ctx demo_generated)"
    by (auto simp: demo_gen_policy demo_args_def elim!: render_allE)
  then obtain ls where ls: "filter_lines demo_policy maps ctx1 False = Inr (ls, gen_ctx demo_generated)"
    by (auto simp: render_filter_def)
  have s: "as_dict (dget ''services'' demo_policy) ''services'' = Inr [(''ssh'', PDict demo_service)]"
    by (simp add: demo_policy_def dget_def as_dict_def)
  have e: "as_dict (PDict demo_service) l = Inr demo_service"
    "as_bool (dget ''enabled'' demo_service) False = Inr True"
    "as_bool (dget ''enforce_allowlist'' demo_service) False = Inr True" for l
    by (simp_all add: demo_service_def dget_def as_dict_def as_bool_def)
  obtain cfg ch invalid veth pre block post where
    "ls = FILTER_HEADER @ invalid @ veth @ pre @ block @ post"
    "guarded_block demo_policy maps ''ssh'' demo_service block"
    using enforced_service_guarded [OF ls s _ e(1-3), of "''ssh''"] by auto
  with ls show ?thesis by (metis append.assoc)
qed

theorem inbound_rules_fail_closed_witness:
  "case build_inbound_rules_for_ip_version demo_policy empty_maps ''ssh''
       [(''allow'', PDict [(''ipv4'', PList [PStr ''10.0.0.0/8''])])] ''tcp'' [''22''] V4 empty_context of
     Inl e \<Rightarrow> False
   | Inr (rules, ctx) \<Rightarrow> rules \<noteq> [] \<and> list_all (has_address_match V4) rules"
proof -
  let ?allow = "[(''ipv4'', PList [PStr ''10.0.0.0/8''])]"
  let ?run = "build_inbound_rules_for_ip_version demo_policy empty_maps ''ssh''
       [(''allow'', PDict ?allow)] ''tcp'' [''22''] V4 empty_context"
  have run: "case ?run of Inl e \<Rightarrow> False | Inr (rules, ctx) \<Rightarrow> rules \<noteq> []" by code_simp
  have a: "as_dict (dget ''allow'' [(''allow'', PDict ?allow)]) l = Inr ?allow" for l
    by (simp add: dget_def as_dict_def)
  have c: "allow_has_any_ip_constraints ?allow (''services.'' @ ''ssh'' @ ''.allow'') = Inr True"
    by code_simp
  show ?thesis using run inbound_rules_fail_closed [OF _ a c] by (auto split: sum.splits)
qed

theorem outbound_rules_fail_closed_witness:
  "case build_outbound_rules_for_ip_version demo_policy empty_maps ''dns''
       [(''allow_to'', PDict [(''ipv6'', PList [PStr ''fd00::/8''])])] ''udp'' [''53''] V6 ''egress'' empty_context of
     Inl e \<Rightarrow> False
   | Inr (rules, ctx) \<Rightarrow> rules \<noteq> [] \<and> list_all (has_address_match V6) rules"
proof -
  let ?allow = "[(''ipv6'', PList [PStr ''fd00::/8''])]"
  let ?run = "build_outbound_rules_for_ip_version demo_policy empty_maps ''dns''
       [(''allow_to'', PDict ?allow)] ''udp'' [''53''] V6 ''egress'' empty_context"
  have run: "case ?run of Inl e \<Rightarrow> False | Inr (rules, ctx) \<Rightarrow> rules \<noteq> []" by code_simp
  have a: "as_dict (dget ''allow_to'' [(''allow_to'', PDict ?allow)]) l = Inr ?allow" for l
    by (simp add: dget_def as_dict_def)
  have c: "allow_has_any_ip_constraints ?allow (''egress'' @ ''.'' @ ''dns'' @ ''.allow_to'') = Inr True"
    by code_simp
  show ?thesis using run outbound_rules_fail_closed [OF _ a c] by (auto split: sum.splits)
qed

theorem render_base_policies_witness:
  "\<exists>t family tbl ch i f. render_base demo_policy = Inr t \<and> t = base_text family tbl ch i f ''drop''"
proof -
  have r: "case render_base demo_policy of Inl e \<Rightarrow> False | Inr t \<Rightarrow> True" by code_simp
  then obtain t where t: "render_base demo_policy = Inr t" by (auto split: sum.splits)
  have e: "egress_enforced demo_policy = Inr True" by code_simp
  have d: "as_dict (dget ''egress'' demo_policy) ''egress'' = Inr [(''mode'', PStr ''enforce'')]"
    by (simp add: demo_policy_def dget_def as_dict_def)
  have m: "\<not> dmem ''default_policy_when_enforced'' [(''mode'', PStr ''enforce'')]" by code_simp
  from render_base_policies [OF t] obtain family tbl ch i f out where b: "t = base_text family tbl ch i f out"
    and out: "\<forall>egress. egress_enforced demo_policy = Inr True
         \<longrightarrow> as_dict (dget ''egress'' demo_policy) ''egress'' = Inr egress
         \<longrightarrow> \<not> dmem ''default_policy_when_enforced'' egress \<longrightarrow> out = ''drop''" by (elim exE conjE)
  from out e d m have "out = ''drop''" by (simp only: simp_thms)
  with t b show ?thesis by (intro exI conjI) simp_all
qed

end
