(* ===== verification/PyEffect.thy ===== *)
theory PyEffect
  imports PyValue
begin

text \<open>
  Python code with effects: a state transformer whose result is a value or an exception, where the
  state survives an exception. A weakest-precondition function with one equation per combinator
  (collection \<open>wp\<close>) turns a property of a program into a property of states.

  \<open>op\<close> is one interruptible step. A script decides, for each step of a run, whether it takes effect,
  fails before or fails after its effect, and with which exception; \<open>Killed\<close> ends the process there.
  A theorem over all scripts therefore covers every fault and every crash point.
\<close>

named_theorems wp "equations of the weakest precondition"

type_synonym ('s, 'a) eff = "'s \<Rightarrow> 'a res \<times> 's"

definition retF :: "'a \<Rightarrow> ('s, 'a) eff" where
  "retF x s = (Inr x, s)"

definition raiseF :: "pyexn \<Rightarrow> ('s, 'a) eff" where
  "raiseF e s = (Inl e, s)"

definition bindF :: "('s, 'a) eff \<Rightarrow> ('a \<Rightarrow> ('s, 'b) eff) \<Rightarrow> ('s, 'b) eff" where
  "bindF m f s = (case m s of (Inl e, s') \<Rightarrow> (Inl e, s') | (Inr x, s') \<Rightarrow> f x s')"

definition seqF :: "('s, 'a) eff \<Rightarrow> ('s, 'b) eff \<Rightarrow> ('s, 'b) eff" where
  "seqF m n = bindF m (\<lambda>_. n)"

definition getF :: "('s \<Rightarrow> 'a) \<Rightarrow> ('s, 'a) eff" where
  "getF f s = (Inr (f s), s)"

definition modF :: "('s \<Rightarrow> 's) \<Rightarrow> ('s, unit) eff" where
  "modF f s = (Inr (), f s)"

definition liftE :: "'a res \<Rightarrow> ('s, 'a) eff" where
  "liftE r s = (r, s)"

definition assertF :: "bool \<Rightarrow> pyexn \<Rightarrow> ('s, unit) eff" where
  "assertF b e s = (if b then Inr () else Inl e, s)"

text \<open>\<open>try: m except <matching>: h\<close> and \<open>try: m finally: fin\<close>.\<close>

definition catchF :: "('s, 'a) eff \<Rightarrow> (pyexn \<Rightarrow> bool) \<Rightarrow> (pyexn \<Rightarrow> ('s, 'a) eff) \<Rightarrow> ('s, 'a) eff" where
  "catchF m catches h s =
     (case m s of
        (Inr x, s') \<Rightarrow> (Inr x, s')
      | (Inl e, s') \<Rightarrow> if e \<noteq> Killed \<and> catches e then h e s' else (Inl e, s'))"

definition finallyF :: "('s, 'a) eff \<Rightarrow> ('s, unit) eff \<Rightarrow> ('s, 'a) eff" where
  "finallyF m fin s =
     (case m s of
        (r, s') \<Rightarrow> if r = Inl Killed then (r, s')
                  else case fin s' of (Inl e, t) \<Rightarrow> (Inl e, t) | (Inr u, t) \<Rightarrow> (r, t))"

fun forF :: "('a \<Rightarrow> ('s, unit) eff) \<Rightarrow> 'a list \<Rightarrow> ('s, unit) eff" where
  "forF f [] = retF ()"
| "forF f (x # xs) = seqF (f x) (forF f xs)"

fun mapF :: "('a \<Rightarrow> ('s, 'b) eff) \<Rightarrow> 'a list \<Rightarrow> ('s, 'b list) eff" where
  "mapF f [] = retF []"
| "mapF f (x # xs) = bindF (f x) (\<lambda>y. bindF (mapF f xs) (\<lambda>ys. retF (y # ys)))"

fun foldF :: "('b \<Rightarrow> 'a \<Rightarrow> ('s, 'b) eff) \<Rightarrow> 'b \<Rightarrow> 'a list \<Rightarrow> ('s, 'b) eff" where
  "foldF f b [] = retF b"
| "foldF f b (x # xs) = bindF (f b x) (\<lambda>b'. foldF f b' xs)"

text \<open>\<open>any(f(x) for x in xs)\<close>, which stops at the first hit.\<close>

fun existsF :: "('a \<Rightarrow> ('s, bool) eff) \<Rightarrow> 'a list \<Rightarrow> ('s, bool) eff" where
  "existsF f [] = retF False"
| "existsF f (x # xs) = bindF (f x) (\<lambda>b. if b then retF True else existsF f xs)"

definition whenF :: "bool \<Rightarrow> ('s, 'a) eff \<Rightarrow> ('s, unit) eff" where
  "whenF b m = (if b then seqF m (retF ()) else retF ())"

subsection \<open>Weakest preconditions\<close>

definition wpF :: "('s, 'a) eff \<Rightarrow> ('a \<Rightarrow> 's \<Rightarrow> bool) \<Rightarrow> (pyexn \<Rightarrow> 's \<Rightarrow> bool) \<Rightarrow> 's \<Rightarrow> bool" where
  "wpF m Q E s = (case m s of (Inl e, s') \<Rightarrow> E e s' | (Inr x, s') \<Rightarrow> Q x s')"

lemma wpF_ret [wp]: "wpF (retF x) Q E s = Q x s"
  by (simp add: wpF_def retF_def)

lemma wpF_raise [wp]: "wpF (raiseF e) Q E s = E e s"
  by (simp add: wpF_def raiseF_def)

lemma wpF_bind [wp]: "wpF (bindF m f) Q E s = wpF m (\<lambda>x. wpF (f x) Q E) E s"
  by (simp add: wpF_def bindF_def split: prod.split sum.split)

lemma wpF_seq [wp]: "wpF (seqF m n) Q E s = wpF m (\<lambda>_. wpF n Q E) E s"
  by (simp add: seqF_def wpF_bind)

lemma wpF_get [wp]: "wpF (getF f) Q E s = Q (f s) s"
  by (simp add: wpF_def getF_def)

lemma wpF_mod [wp]: "wpF (modF f) Q E s = Q () (f s)"
  by (simp add: wpF_def modF_def)

lemma wpF_lift [wp]: "wpF (liftE r) Q E s = (case r of Inl e \<Rightarrow> E e s | Inr x \<Rightarrow> Q x s)"
  by (simp add: wpF_def liftE_def)

lemma wpF_assert [wp]: "wpF (assertF b e) Q E s = (if b then Q () s else E e s)"
  by (simp add: wpF_def assertF_def)

lemma wpF_if [wp]: "wpF (if b then m else n) Q E s = (if b then wpF m Q E s else wpF n Q E s)"
  by simp

lemma wpF_catch [wp]:
  "wpF (catchF m c h) Q E s
     = wpF m Q (\<lambda>e s'. if e \<noteq> Killed \<and> c e then wpF (h e) Q E s' else E e s') s"
  by (cases "m s") (auto simp: wpF_def catchF_def split: sum.split)

lemma wpF_finally [wp]:
  "wpF (finallyF m fin) Q E s
     = wpF m (\<lambda>x. wpF fin (\<lambda>_. Q x) E)
         (\<lambda>e s'. if e = Killed then E e s' else wpF fin (\<lambda>_. E e) E s') s"
  by (auto simp: wpF_def finallyF_def split: prod.split sum.split)

lemma wpF_mono:
  assumes "wpF m Q E s" "\<And>x s'. Q x s' \<Longrightarrow> Q' x s'" "\<And>e s'. E e s' \<Longrightarrow> E' e s'"
  shows "wpF m Q' E' s"
  using assms by (auto simp: wpF_def split: prod.splits sum.splits)

lemma wpF_conj: "wpF m Q E s \<Longrightarrow> wpF m Q' E' s \<Longrightarrow> wpF m (\<lambda>x t. Q x t \<and> Q' x t) (\<lambda>e t. E e t \<and> E' e t) s"
  by (auto simp: wpF_def split: prod.splits sum.splits)

text \<open>A loop invariant may mention the elements done so far.\<close>

lemma wpF_for:
  assumes "I [] s"
    and "\<And>ys x zs s. xs = ys @ x # zs \<Longrightarrow> I ys s \<Longrightarrow> wpF (f x) (\<lambda>_. I (ys @ [x])) E s"
  shows "wpF (forF f xs) (\<lambda>_. I xs) E s"
proof -
  have "wpF (forF f zs) (\<lambda>_. I (ys @ zs)) E s" if "xs = ys @ zs" "I ys s" for ys zs s
    using that
  proof (induction zs arbitrary: ys s)
    case Nil
    then show ?case by (simp add: wp)
  next
    case (Cons z zs)
    have "wpF (f z) (\<lambda>_. I (ys @ [z])) E s" by (rule assms(2) [OF Cons.prems])
    then have "wpF (f z) (\<lambda>_. wpF (forF f zs) (\<lambda>_. I (ys @ z # zs)) E) E s"
      by (rule wpF_mono) (use Cons.IH [of "ys @ [z]"] Cons.prems in auto)
    then show ?case by (simp add: wp)
  qed
  from this [of "[]" xs s] assms(1) show ?thesis by simp
qed

lemma wpF_for_inv:
  assumes "I s" and "\<And>x s. x \<in> set xs \<Longrightarrow> I s \<Longrightarrow> wpF (f x) (\<lambda>_. I) E s"
  shows "wpF (forF f xs) (\<lambda>_. I) E s"
  by (rule wpF_for [where I = "\<lambda>_. I"]) (use assms in auto)

lemma wpF_fold:
  assumes "I [] b s"
    and "\<And>ys x zs b s. xs = ys @ x # zs \<Longrightarrow> I ys b s \<Longrightarrow> wpF (f b x) (I (ys @ [x])) E s"
  shows "wpF (foldF f b xs) (I xs) E s"
proof -
  have "wpF (foldF f b zs) (I (ys @ zs)) E s" if "xs = ys @ zs" "I ys b s" for ys zs b s
    using that
  proof (induction zs arbitrary: ys b s)
    case Nil
    then show ?case by (simp add: wp)
  next
    case (Cons z zs)
    have "wpF (f b z) (I (ys @ [z])) E s" by (rule assms(2) [OF Cons.prems])
    then have "wpF (f b z) (\<lambda>b'. wpF (foldF f b' zs) (I (ys @ z # zs)) E) E s"
      by (rule wpF_mono) (use Cons.IH [of "ys @ [z]"] Cons.prems in auto)
    then show ?case by (simp add: wp)
  qed
  from this [of "[]" xs b s] assms(1) show ?thesis by simp
qed

lemma wpF_fold_inv:
  assumes "I b s" and "\<And>x b s. x \<in> set xs \<Longrightarrow> I b s \<Longrightarrow> wpF (f b x) I E s"
  shows "wpF (foldF f b xs) I E s"
  by (rule wpF_fold [where I = "\<lambda>_. I"]) (use assms in auto)

lemma wpF_when [wp]: "wpF (whenF b m) Q E s = (if b then wpF m (\<lambda>_. Q ()) E s else Q () s)"
  by (simp add: whenF_def wpF_def seqF_def bindF_def retF_def split: prod.split sum.split)

lemma wpF_cases:
  assumes "wpF m Q E s"
  obtains (normal) x s' where "m s = (Inr x, s')" "Q x s'" | (error) e s' where "m s = (Inl e, s')" "E e s'"
  using assms by (auto simp: wpF_def split: prod.splits sum.splits)

lemma wpF_run: "wpF m Q E s \<Longrightarrow> m s = (r, s') \<Longrightarrow> (case r of Inl e \<Rightarrow> E e s' | Inr x \<Rightarrow> Q x s')"
  by (auto simp: wpF_def split: sum.splits)

subsection \<open>Interruptible steps\<close>

datatype cause = OsFault | Interrupted | ProcessKilled

datatype fault = Fine | Before cause | After cause

fun exn_of :: "cause \<Rightarrow> pyexn" where
  "exn_of OsFault = OSErr ''os error''"
| "exn_of Interrupted = KeyboardInterrupt"
| "exn_of ProcessKilled = Killed"

record 'w sys =
  sys_step :: nat
  sys_script :: "nat \<Rightarrow> fault"
  sys_world :: 'w

definition tick :: "'w sys \<Rightarrow> 'w sys" where
  "tick s = s\<lparr>sys_step := Suc (sys_step s)\<rparr>"

definition upd :: "('w \<Rightarrow> 'w) \<Rightarrow> 'w sys \<Rightarrow> 'w sys" where
  "upd f s = s\<lparr>sys_world := f (sys_world s)\<rparr>"

lemma tick_upd_simps [simp]:
  "sys_world (tick s) = sys_world s" "sys_script (tick s) = sys_script s"
  "sys_world (upd f s) = f (sys_world s)" "sys_script (upd f s) = sys_script s"
  "sys_step (tick s) = Suc (sys_step s)" "sys_step (upd f s) = sys_step s"
  by (simp_all add: tick_def upd_def)

definition op :: "('w \<Rightarrow> 'w) \<Rightarrow> ('w sys, unit) eff" where
  "op f s =
     (case sys_script s (sys_step s) of
        Fine \<Rightarrow> (Inr (), upd f (tick s))
      | Before c \<Rightarrow> (Inl (exn_of c), tick s)
      | After c \<Rightarrow> (Inl (exn_of c), upd f (tick s)))"

text \<open>A step without an effect on the world, such as \<open>fsync\<close>, and a step of local bookkeeping.\<close>

definition skip_op :: "('w sys, unit) eff" where
  "skip_op = op (\<lambda>w. w)"

definition look :: "('w \<Rightarrow> 'a) \<Rightarrow> ('w sys, 'a) eff" where
  "look f = getF (\<lambda>s. f (sys_world s))"

definition assign :: "('w \<Rightarrow> 'w) \<Rightarrow> ('w sys, unit) eff" where
  "assign f = modF (upd f)"

lemma wpF_look [wp]: "wpF (look f) Q E s = Q (f (sys_world s)) s"
  by (simp add: look_def wp)

lemma wpF_assign [wp]: "wpF (assign f) Q E s = Q () (upd f s)"
  by (simp add: assign_def wp)

lemma exn_of_simps [simp]:
  "exn_of c \<noteq> PolicyError m" "exn_of c \<noteq> RecoveryRequired m" "exn_of c \<noteq> CommandTimeout m"
  "exn_of c \<noteq> TuningError m" "exn_of c = Killed \<longleftrightarrow> c = ProcessKilled"
  by (cases c; simp)+

text \<open>For a property of worlds only, a step is one of three cases.\<close>

lemma wpF_opI:
  assumes "\<And>s'. sys_world s' = f (sys_world s) \<Longrightarrow> Q () s'"
    and "\<And>c s'. sys_world s' = sys_world s \<Longrightarrow> E (exn_of c) s'"
    and "\<And>c s'. sys_world s' = f (sys_world s) \<Longrightarrow> E (exn_of c) s'"
  shows "wpF (op f) Q E s"
  using assms by (simp add: wpF_def op_def split: fault.split)

lemma wpF_skipI:
  assumes "\<And>s'. sys_world s' = sys_world s \<Longrightarrow> Q () s'"
    and "\<And>c s'. sys_world s' = sys_world s \<Longrightarrow> E (exn_of c) s'"
  shows "wpF skip_op Q E s"
  unfolding skip_op_def using assms by (intro wpF_opI) auto

lemma wpF_any: "wpF m (\<lambda>_ _. True) (\<lambda>_ _. True) s"
  by (simp add: wpF_def split: prod.split sum.split)

lemma wpF_seq_eta: "wpF (seqF m n) Q E = wpF m (\<lambda>_. wpF n Q E) E"
  by (rule ext) (rule wpF_seq)

text \<open>Without faults every step takes effect.\<close>

definition fault_free :: "'w sys \<Rightarrow> bool" where
  "fault_free s = (\<forall>n. sys_script s n = Fine)"

lemma fault_free_simps [simp]:
  "fault_free (tick s) = fault_free s" "fault_free (upd f s) = fault_free s"
  by (simp_all add: fault_free_def)

lemma wpF_op_fine: "fault_free s \<Longrightarrow> wpF (op f) Q E s = Q () (upd f (tick s))"
  by (simp add: wpF_def op_def fault_free_def)

lemma wpF_skip_fine: "fault_free s \<Longrightarrow> wpF skip_op Q E s = Q () (upd (\<lambda>w. w) (tick s))"
  by (simp add: skip_op_def wpF_op_fine)

text \<open>\<open>except Exception\<close>: neither the cancellation of the task nor the end of the process.\<close>

definition is_exception :: "pyexn \<Rightarrow> bool" where
  "is_exception e = (e \<noteq> KeyboardInterrupt \<and> e \<noteq> Killed)"

end
