(* ===== verification/NftWrite.thy ===== *)
theory NftWrite
  imports PyEffect NftPolicy "HOL-Library.Word"
begin

unbundle bit_operations_syntax

text \<open>
  \<open>nft-policy-generate.py\<close>, part 7: publishing the generated files. \<open>write_generation\<close> copies the
  previous files and the owned live tables into a recovery directory, validates candidates, replaces
  the outputs one by one, validates and reloads; on any exception it rolls back in reverse order and
  keeps the recovery directory when it cannot.

  The world holds the files (those of the file system and those of the recovery directory, which
  \<open>mkdtemp\<close> makes new), temporary files by creation number, directories, the live tables and the local
  variables of \<open>write_generation\<close> that its handlers read. The environment gives what the code calls:
  the outcome and effect of each command, the JSON texts, the name of the recovery directory.
\<close>

subsection \<open>The world\<close>

record finfo =
  f_content :: string
  f_mode :: int
  f_uid :: int
  f_gid :: int
  f_regular :: bool

record dinfo =
  d_isdir :: bool
  d_uid :: int
  d_mode :: int

datatype loc = Disk string | Rec string

type_synonym live = "string \<times> string \<Rightarrow> string option"

record prev =
  p_path :: string
  p_existed :: bool
  p_backup :: string
  p_mode :: int
  p_uid :: int
  p_gid :: int

record nft_world =
  nw_files :: "loc \<Rightarrow> finfo option"
  nw_tmps :: "nat \<Rightarrow> finfo option"
  nw_next :: nat
  nw_dirs :: "string \<Rightarrow> dinfo option"
  nw_rec :: bool
  nw_live :: live
  nw_cmds :: nat
  nw_lock_free :: bool
  nw_lock_mine :: bool
  nw_previous :: "prev list"
  nw_attempted :: "string list"
  nw_live_attempted :: bool
  nw_retain :: bool
  nw_failures :: "string list"

type_synonym 'a nft_io = "(nft_world sys, 'a) eff"

datatype status = Exited int | NoExecutable | TimedOut | CommandFault cause

record cmd_result =
  cr_status :: status
  cr_applied :: bool
  cr_utf8 :: bool

datatype command = CheckFile loc | ListTables | ListTable string string | LoadFile loc | ReloadService

record nft_env =
  e_cmd :: "nat \<Rightarrow> cmd_result"
  e_reload :: "(loc \<Rightarrow> finfo option) \<Rightarrow> live \<Rightarrow> live"
  e_load :: "string \<Rightarrow> live \<Rightarrow> live"
  e_tables :: "live \<Rightarrow> (string \<times> string) list res"
  e_dumps :: "prev list \<Rightarrow> string"
  e_recovery :: string
  e_stamp :: string
  e_lock_ok :: bool
  e_mkdir_mode :: int

definition LIMIT16M :: int where
  "LIMIT16M = 16 * 1024 * 1024"

subsection \<open>Directories\<close>

text \<open>\<open>path.parent, *path.parent.parents\<close> for an absolute path, nearest first, and the path itself.\<close>

definition abs_path :: "string list \<Rightarrow> string" where
  "abs_path parts = CHR ''/'' # join ''/'' parts"

definition parents_of :: "string \<Rightarrow> string list" where
  "parents_of p = (let parts = path_parts p in
     map (\<lambda>k. abs_path (take k parts)) (rev [0..<length parts]))"

definition parent_of :: "string \<Rightarrow> string" where
  "parent_of p = (case parents_of p of [] \<Rightarrow> p | d # ds \<Rightarrow> d)"

definition trusted_parent :: "string \<Rightarrow> string \<Rightarrow> dinfo option \<Rightarrow> bool" where
  "trusted_parent nearest d info =
     (case info of
        None \<Rightarrow> True
      | Some i \<Rightarrow> d_isdir i \<and> d_uid i = 0
          \<and> (d_mode i AND 18 = 0 \<or> d \<noteq> nearest \<and> d_mode i AND 512 \<noteq> 0))"

definition trusted_output :: "string \<Rightarrow> unit nft_io" where
  "trusted_output path =
     forF (\<lambda>d. bindF (look (\<lambda>w. nw_dirs w d)) (\<lambda>info.
              assertF (trusted_parent (parent_of path) d info)
                (PolicyError (''untrusted output parent: '' @ d))))
       (parents_of path)"

definition sync_directory :: "string \<Rightarrow> unit nft_io" where
  "sync_directory d = skip_op"

definition missing_dirs :: "nft_world \<Rightarrow> string \<Rightarrow> string list" where
  "missing_dirs w path = takeWhile (\<lambda>d. nw_dirs w d = None) (path # parents_of path)"

definition make_directory :: "nft_env \<Rightarrow> string \<Rightarrow> unit nft_io" where
  "make_directory env d =
     op (\<lambda>w. case nw_dirs w d of
               None \<Rightarrow> w\<lparr>nw_dirs := (nw_dirs w)(d \<mapsto> \<lparr>d_isdir = True, d_uid = 0, d_mode = e_mkdir_mode env\<rparr>)\<rparr>
             | Some i \<Rightarrow> w)"

definition durable_directory :: "nft_env \<Rightarrow> string \<Rightarrow> unit nft_io" where
  "durable_directory env path =
     bindF (look (\<lambda>w. missing_dirs w path)) (\<lambda>missing.
     forF (\<lambda>d. seqF (make_directory env d) (seqF (sync_directory d) (sync_directory (parent_of d))))
       (rev missing))"

text \<open>The recovery directory exists while files are written to it.\<close>

definition durable_parent :: "nft_env \<Rightarrow> loc \<Rightarrow> unit nft_io" where
  "durable_parent env l = (case l of Disk p \<Rightarrow> durable_directory env (parent_of p) | Rec n \<Rightarrow> retF ())"

subsection \<open>Atomic replacement\<close>

definition ensure_nl :: "string \<Rightarrow> string" where
  "ensure_nl content = (if ends_with [nl] content then content else content @ [nl])"

definition set_file :: "loc \<Rightarrow> finfo option \<Rightarrow> nft_world \<Rightarrow> nft_world" where
  "set_file l f w = w\<lparr>nw_files := (nw_files w)(l := f)\<rparr>"

definition set_tmp :: "nat \<Rightarrow> finfo option \<Rightarrow> nft_world \<Rightarrow> nft_world" where
  "set_tmp i f w = w\<lparr>nw_tmps := (nw_tmps w)(i := f)\<rparr>"

definition map_tmp :: "nat \<Rightarrow> (finfo \<Rightarrow> finfo) \<Rightarrow> nft_world \<Rightarrow> nft_world" where
  "map_tmp i g w = set_tmp i (map_option g (nw_tmps w i)) w"

definition mkstemp :: "nat nft_io" where
  "mkstemp = bindF (look nw_next) (\<lambda>i.
     seqF (op (\<lambda>w. (set_tmp i (Some \<lparr>f_content = [], f_mode = 384, f_uid = 0, f_gid = 0, f_regular = True\<rparr>) w)
                  \<lparr>nw_next := Suc i\<rparr>))
       (retF i))"

definition write_tmp :: "nat \<Rightarrow> string \<Rightarrow> unit nft_io" where
  "write_tmp i text = op (map_tmp i (\<lambda>f. f\<lparr>f_content := f_content f @ text\<rparr>))"

text \<open>\<open>os.replace(tmp, target)\<close>\<close>

definition replace_tmp :: "nat \<Rightarrow> loc \<Rightarrow> unit nft_io" where
  "replace_tmp i l = op (\<lambda>w. case nw_tmps w i of None \<Rightarrow> w | Some f \<Rightarrow> set_tmp i None (set_file l (Some f) w))"

definition unlink_tmp :: "nat \<Rightarrow> unit nft_io" where
  "unlink_tmp i = bindF (look (\<lambda>w. nw_tmps w i)) (\<lambda>t.
     if t = None then retF () else op (set_tmp i None))"

definition atomic_write :: "nft_env \<Rightarrow> loc \<Rightarrow> string \<Rightarrow> int \<Rightarrow> unit nft_io" where
  "atomic_write env l content mode =
     seqF (durable_parent env l)
     (bindF mkstemp (\<lambda>i.
      finallyF
        (seqF (write_tmp i content)
        (seqF (if ends_with [nl] content then retF () else write_tmp i [nl])
        (seqF (op (map_tmp i (\<lambda>f. f\<lparr>f_mode := mode\<rparr>)))
        (seqF skip_op
        (seqF (replace_tmp i l)
              (case l of Disk p \<Rightarrow> sync_directory (parent_of p) | Rec n \<Rightarrow> sync_directory (e_recovery env)))))))
        (catchF (unlink_tmp i) is_os_error (\<lambda>_. retF ()))))"

subsection \<open>Commands\<close>

text \<open>What a command does to the live tables when it is applied.\<close>

definition command_effect :: "nft_env \<Rightarrow> command \<Rightarrow> nft_world \<Rightarrow> live" where
  "command_effect env c w =
     (case c of
        ReloadService \<Rightarrow> e_reload env (nw_files w) (nw_live w)
      | LoadFile l \<Rightarrow> (case nw_files w l of None \<Rightarrow> nw_live w | Some f \<Rightarrow> e_load env (f_content f) (nw_live w))
      | _ \<Rightarrow> nw_live w)"

definition command_output :: "command \<Rightarrow> nft_world \<Rightarrow> string" where
  "command_output c w =
     (case c of
        ListTable family name \<Rightarrow> (case nw_live w (family, name) of None \<Rightarrow> [] | Some t \<Rightarrow> t)
      | _ \<Rightarrow> [])"

text \<open>A command that exits with status 0 has taken effect; one that fails or times out may have.\<close>

definition run_command :: "nft_env \<Rightarrow> command \<Rightarrow> nft_world \<Rightarrow> nft_world" where
  "run_command env c w =
     (let r = e_cmd env (nw_cmds w) in
      w\<lparr>nw_cmds := Suc (nw_cmds w),
        nw_live := if cr_status r = Exited 0 \<or> cr_applied r \<and> cr_status r \<noteq> NoExecutable
                   then command_effect env c w else nw_live w\<rparr>)"

definition run_checked :: "nft_env \<Rightarrow> command \<Rightarrow> string \<Rightarrow> string nft_io" where
  "run_checked env c label =
     seqF skip_op
     (bindF (look (\<lambda>w. (e_cmd env (nw_cmds w), command_output c w))) (\<lambda>(r, out).
      seqF (assign (run_command env c))
      (case cr_status r of
         NoExecutable \<Rightarrow> raiseF (PolicyError (label @ '': executable not found''))
       | TimedOut \<Rightarrow> raiseF (CommandTimeout (label @ '': timed out''))
       | CommandFault x \<Rightarrow> raiseF (exn_of x)
       | Exited n \<Rightarrow>
           if n \<noteq> 0 then raiseF (PolicyError (label @ '' failed with exit code '' @ int_str n))
           else if LIMIT16M < int (length out) then raiseF (PolicyError (label @ '': output exceeds its bound''))
           else if \<not> cr_utf8 r then raiseF ValueErr
           else retF out)))"

subsection \<open>Preparation\<close>

definition candidate_name :: "nat \<Rightarrow> string" where
  "candidate_name i = ''candidate-'' @ int_str (int i) @ ''.nft''"

definition previous_name :: "nat \<Rightarrow> string" where
  "previous_name i = ''previous-'' @ int_str (int i)"

text \<open>The include operands of the candidate point at the other candidates.\<close>

definition redirect :: "nft_env \<Rightarrow> (string \<times> string) list \<Rightarrow> string \<Rightarrow> string" where
  "redirect env rendered content =
     foldl (\<lambda>c (i, path). replace_all (quote_nft_string path)
              (quote_nft_string (path_join (e_recovery env) (candidate_name i))) c)
       content (enumerate 0 (map fst rendered))"

definition unsafe_previous :: "finfo \<Rightarrow> bool" where
  "unsafe_previous f = (\<not> f_regular f \<or> f_uid f \<noteq> 0 \<or> f_mode f AND 18 \<noteq> 0
     \<or> LIMIT16M < int (length (f_content f)))"

text \<open>Open exclusively, set the mode, copy the content, sync.\<close>

definition backup_file :: "string \<Rightarrow> string \<Rightarrow> unit nft_io" where
  "backup_file path name =
     seqF (op (set_file (Rec name) (Some \<lparr>f_content = [], f_mode = 420, f_uid = 0, f_gid = 0, f_regular = True\<rparr>)))
     (seqF (op (\<lambda>w. set_file (Rec name) (map_option (\<lambda>f. f\<lparr>f_mode := 384\<rparr>) (nw_files w (Rec name))) w))
     (seqF (op (\<lambda>w. case nw_files w (Disk path) of
                 None \<Rightarrow> w
               | Some src \<Rightarrow> set_file (Rec name)
                   (map_option (\<lambda>f. f\<lparr>f_content := f_content src\<rparr>) (nw_files w (Rec name))) w))
     skip_op))"

definition save_previous :: "nat \<Rightarrow> string \<Rightarrow> prev nft_io" where
  "save_previous i path =
     bindF (look (\<lambda>w. nw_files w (Disk path))) (\<lambda>f.
     case f of
       None \<Rightarrow> retF \<lparr>p_path = path, p_existed = False, p_backup = [], p_mode = 0, p_uid = 0, p_gid = 0\<rparr>
     | Some info \<Rightarrow>
         seqF (assertF (\<not> unsafe_previous info) (PolicyError (''unsafe previous generated file: '' @ path)))
         (seqF (backup_file path (previous_name i))
         (retF \<lparr>p_path = path, p_existed = True, p_backup = previous_name i, p_mode = f_mode info,
                p_uid = f_uid info, p_gid = f_gid info\<rparr>)))"

definition prepare_file ::
    "nft_env \<Rightarrow> (string \<times> string) list \<Rightarrow> nat \<times> string \<times> string \<Rightarrow> unit nft_io" where
  "prepare_file env rendered entry =
     (case entry of (i, path, content) \<Rightarrow>
      bindF (save_previous i path) (\<lambda>st.
      seqF (assign (\<lambda>w. w\<lparr>nw_previous := nw_previous w @ [st]\<rparr>))
           (atomic_write env (Rec (candidate_name i)) (redirect env rendered content) 384)))"

definition OWNED_TABLES :: "(string \<times> string) list" where
  "OWNED_TABLES = [(''inet'', ''labwc_filter''), (''ip'', ''labwc_nat'')]"

definition DESTROY_OWNED :: "string list" where
  "DESTROY_OWNED = [''destroy table inet labwc_filter'', ''destroy table ip labwc_nat'']"

definition snapshot_live :: "nft_env \<Rightarrow> unit nft_io" where
  "snapshot_live env =
     seqF (run_checked env ListTables ''nft table snapshot'')
     (bindF (look (\<lambda>w. e_tables env (nw_live w))) (\<lambda>listing.
      bindF (liftE listing) (\<lambda>tables.
      bindF (mapF (\<lambda>(family, name). run_checked env (ListTable family name) ''nft owned-table snapshot'')
               (filter (\<lambda>t. t \<in> set tables) OWNED_TABLES)) (\<lambda>texts.
      atomic_write env (Rec ''live.nft'') (join [nl] (DESTROY_OWNED @ texts)) 384))))"

definition prepare :: "nft_env \<Rightarrow> cli_args \<Rightarrow> nat \<Rightarrow> (string \<times> string) list \<Rightarrow> unit nft_io" where
  "prepare env args conf_index rendered =
     seqF (forF (prepare_file env rendered) (enumerate 0 rendered))
     (seqF (bindF (look nw_previous) (\<lambda>ps. atomic_write env (Rec ''previous.json'') (e_dumps env ps) 384))
     (seqF (whenF (arg_check args)
              (run_checked env (CheckFile (Rec (candidate_name conf_index))) ''nft candidate validation''))
     (seqF (whenF (arg_reload args) (snapshot_live env))
     (seqF (sync_directory (e_recovery env)) (sync_directory (parent_of (e_recovery env)))))))"

subsection \<open>Publication and rollback\<close>

definition publish_file :: "nft_env \<Rightarrow> string \<Rightarrow> string \<times> string \<Rightarrow> unit nft_io" where
  "publish_file env conf entry =
     (case entry of (path, content) \<Rightarrow>
      seqF (assign (\<lambda>w. w\<lparr>nw_attempted := nw_attempted w @ [path]\<rparr>))
           (atomic_write env (Disk path) content (if path = conf then 493 else 420)))"

definition publish :: "nft_env \<Rightarrow> cli_args \<Rightarrow> string \<Rightarrow> (string \<times> string) list \<Rightarrow> unit nft_io" where
  "publish env args conf rendered =
     seqF (assign (\<lambda>w. w\<lparr>nw_retain := True\<rparr>))
     (seqF (forF (publish_file env conf) rendered)
     (seqF (whenF (arg_check args) (run_checked env (CheckFile (Disk conf)) ''nft published validation''))
     (seqF (whenF (arg_reload args)
              (seqF (assign (\<lambda>w. w\<lparr>nw_live_attempted := True\<rparr>))
                    (run_checked env ReloadService ''nftables reload'')))
     (assign (\<lambda>w. w\<lparr>nw_retain := False\<rparr>)))))"

text \<open>Write the saved bytes to a temporary file with the saved owner and mode, and replace the output.\<close>

definition restore_file :: "prev \<Rightarrow> unit nft_io" where
  "restore_file st =
     bindF mkstemp (\<lambda>i.
     finallyF
       (bindF (look (\<lambda>w. nw_files w (Rec (p_backup st)))) (\<lambda>saved.
        seqF (case saved of None \<Rightarrow> raiseF (OSErr ''no backup'') | Some f \<Rightarrow> write_tmp i (f_content f))
        (seqF (op (map_tmp i (\<lambda>f. f\<lparr>f_uid := p_uid st, f_gid := p_gid st\<rparr>)))
        (seqF (op (map_tmp i (\<lambda>f. f\<lparr>f_mode := p_mode st\<rparr>)))
        (seqF skip_op
        (replace_tmp i (Disk (p_path st))))))))
       (op (set_tmp i None)))"

definition add_failure :: "string \<Rightarrow> unit nft_io" where
  "add_failure m = assign (\<lambda>w. w\<lparr>nw_failures := nw_failures w @ [m]\<rparr>)"

definition rollback_path :: "prev \<Rightarrow> unit nft_io" where
  "rollback_path st =
     bindF (look nw_attempted) (\<lambda>attempted.
     if p_path st \<notin> set attempted then retF ()
     else catchF
       (seqF (if p_existed st then restore_file st else op (set_file (Disk (p_path st)) None))
             (sync_directory (parent_of (p_path st))))
       is_os_error
       (\<lambda>_. add_failure (''cannot restore '' @ p_path st)))"

definition rollback_live :: "nft_env \<Rightarrow> unit nft_io" where
  "rollback_live env =
     bindF (look nw_live_attempted) (\<lambda>live_attempted.
     if live_attempted
     then catchF (seqF (run_checked env (LoadFile (Rec ''live.nft'')) ''nft live rollback'') (retF ()))
            (\<lambda>e. is_policy_error e \<or> is_os_error e)
            (\<lambda>_. add_failure ''cannot restore previous owned live tables'')
     else retF ())"

fun is_timeout :: "pyexn \<Rightarrow> bool" where
  "is_timeout (CommandTimeout m) = True"
| "is_timeout e = False"

definition rollback_result :: "nft_env \<Rightarrow> pyexn \<Rightarrow> unit nft_io" where
  "rollback_result env e =
     bindF (look (\<lambda>w. (nw_failures w, nw_live_attempted w \<and> is_timeout e))) (\<lambda>(failures, uncertain).
     if failures \<noteq> [] \<or> uncertain
     then seqF (assign (\<lambda>w. w\<lparr>nw_retain := True\<rparr>))
          (raiseF (RecoveryRequired (''policy outcome unknown; ''
             @ (if failures = [] then ''reload timed out'' else join ''; '' failures)
             @ ''; recovery retained at '' @ e_recovery env)))
     else seqF (assign (\<lambda>w. w\<lparr>nw_retain := False\<rparr>))
          (if e = KeyboardInterrupt then raiseF e
           else raiseF (PolicyError (''policy generation failed; previous state restored: '' @ exn_str e))))"

definition rollback :: "nft_env \<Rightarrow> pyexn \<Rightarrow> unit nft_io" where
  "rollback env e =
     seqF (assign (\<lambda>w. w\<lparr>nw_failures := []\<rparr>))
     (seqF (bindF (look nw_previous) (\<lambda>ps. forF rollback_path (rev ps)))
     (seqF (rollback_live env)
     (rollback_result env e)))"

text \<open>\<open>rmtree\<close> empties the directory and removes it.\<close>

definition remove_recovery :: "nft_env \<Rightarrow> unit nft_io" where
  "remove_recovery env =
     bindF (look nw_retain) (\<lambda>retain.
     if retain then retF ()
     else seqF (op (\<lambda>w. w\<lparr>nw_files := (\<lambda>l. case l of Rec n \<Rightarrow> None | Disk p \<Rightarrow> nw_files w l)\<rparr>))
          (seqF (op (\<lambda>w. w\<lparr>nw_rec := False\<rparr>))
          (sync_directory (parent_of (e_recovery env)))))"

definition make_recovery :: "unit nft_io" where
  "make_recovery =
     seqF (op (\<lambda>w. w\<lparr>nw_rec := True,
                   nw_files := (\<lambda>l. case l of Rec n \<Rightarrow> None | Disk p \<Rightarrow> nw_files w l)\<rparr>))
     (assign (\<lambda>w. w\<lparr>nw_previous := [], nw_attempted := [], nw_live_attempted := False, nw_retain := False,
                   nw_failures := []\<rparr>))"

definition backup_root :: "cli_args \<Rightarrow> string res" where
  "backup_root args =
     (if path_root (arg_backup_dir args) \<noteq> []
      then map_to_target_root (arg_backup_dir args) (arg_resolved_root args)
      else Inr (arg_backup_dir args))"

text \<open>The index of an output in the rendered texts names its candidate.\<close>

definition index_of :: "string \<Rightarrow> string list \<Rightarrow> nat" where
  "index_of x xs = length (takeWhile (\<lambda>y. y \<noteq> x) xs)"

definition write_generation ::
    "nft_env \<Rightarrow> cli_args \<Rightarrow> out_paths \<Rightarrow> (string \<times> string) list \<Rightarrow> unit nft_io" where
  "write_generation env args paths rendered =
     seqF (assertF (distinct (map snd paths)) (PolicyError ''generated output paths must be distinct''))
     (seqF (forF (\<lambda>entry. trusted_output (fst entry)) rendered)
     (bindF (liftE (out_path ''nftables_conf'' paths)) (\<lambda>conf.
      bindF (liftE (backup_root args)) (\<lambda>root.
      seqF (trusted_output (path_join root ''recovery''))
      (seqF (durable_directory env root)
      (seqF make_recovery
      (finallyF
        (catchF
          (seqF (prepare env args (index_of conf (map fst rendered)) rendered)
                (publish env args conf rendered))
          (\<lambda>_. True) (rollback env))
        (remove_recovery env))))))))"

subsection \<open>Backups of the output files\<close>

definition two_digits :: "nat \<Rightarrow> string" where
  "two_digits k = (if k < 10 then ''0'' else []) @ int_str (int k)"

definition backup_target :: "nft_env \<Rightarrow> string \<Rightarrow> nat \<Rightarrow> string" where
  "backup_target env backup_dir attempt =
     path_join backup_dir (''nftables-'' @ e_stamp env
       @ (if attempt = 0 then [] else CHR ''-'' # two_digits attempt))"

definition path_exists :: "nft_world \<Rightarrow> string \<Rightarrow> bool" where
  "path_exists w p \<longleftrightarrow> nw_dirs w p \<noteq> None \<or> nw_files w (Disk p) \<noteq> None"

text \<open>\<open>mkdir(parents=True)\<close>: the missing directories, outermost first, as one step.\<close>

definition make_parents :: "nft_env \<Rightarrow> string \<Rightarrow> unit nft_io" where
  "make_parents env d =
     op (\<lambda>w. w\<lparr>nw_dirs := foldl (\<lambda>m x. m(x \<mapsto> \<lparr>d_isdir = True, d_uid = 0, d_mode = e_mkdir_mode env\<rparr>))
                  (nw_dirs w) (missing_dirs w d)\<rparr>)"

definition backup_one :: "nft_env \<Rightarrow> string \<Rightarrow> string \<Rightarrow> unit nft_io" where
  "backup_one env target src =
     (let dst = path_join target (lstrip_slash src) in
      seqF (make_parents env (parent_of dst))
           (op (\<lambda>w. set_file (Disk dst) (nw_files w (Disk src)) w)))"

definition backup_existing :: "nft_env \<Rightarrow> string list \<Rightarrow> string \<Rightarrow> string option nft_io" where
  "backup_existing env files backup_dir =
     bindF (look (\<lambda>w. filter (path_exists w) files)) (\<lambda>existing.
     if existing = [] then retF None
     else
       bindF (look (\<lambda>w. find (\<lambda>d. \<not> path_exists w d) (map (backup_target env backup_dir) [0..<100])))
         (\<lambda>free. case free of
            None \<Rightarrow> raiseF (PolicyError (''cannot allocate unique backup directory under '' @ backup_dir))
          | Some target \<Rightarrow>
              seqF (make_parents env target)
              (seqF (forF (backup_one env target) existing) (retF (Some target)))))"

subsection \<open>The lock and the exit status\<close>

definition LOCK_PATH :: string where
  "LOCK_PATH = ''/run/lock/labwc-firewall-security.lock''"

definition generation_lock :: "nft_env \<Rightarrow> cli_args \<Rightarrow> unit nft_io \<Rightarrow> unit nft_io" where
  "generation_lock env args body =
     bindF (liftE (map_to_target_root LOCK_PATH (arg_resolved_root args))) (\<lambda>path.
     seqF (make_parents env (parent_of path))
     (seqF skip_op
     (finallyF
       (seqF (assertF (e_lock_ok env) (PolicyError ''unsafe firewall generation lock''))
       (seqF (bindF (look nw_lock_free) (\<lambda>free.
                assertF free (PolicyError ''firewall policy is busy; no generation published'')))
       (seqF (op (\<lambda>w. w\<lparr>nw_lock_free := False, nw_lock_mine := True\<rparr>))
       body)))
       (op (\<lambda>w. if nw_lock_mine w then w\<lparr>nw_lock_free := True, nw_lock_mine := False\<rparr> else w)))))"

definition publish_generated :: "nft_env \<Rightarrow> cli_args \<Rightarrow> generated \<Rightarrow> unit nft_io" where
  "publish_generated env args g =
     generation_lock env args
       (bindF (if arg_backup args then retF True
               else liftE (as_bool (dget ''backup_before_apply'' (gen_safety g)) False)) (\<lambda>backup.
        seqF (if backup
              then bindF (liftE (backup_root args)) (\<lambda>dir.
                     seqF (backup_existing env (map fst (gen_rendered g)) dir) (retF ()))
              else retF ())
             (write_generation env args (gen_paths g) (gen_rendered g))))"

text \<open>The handlers of \<open>main\<close>: an exit status, or an exception that escapes.\<close>

fun exit_status :: "pyexn \<Rightarrow> int option" where
  "exit_status (RecoveryRequired m) = Some 3"
| "exit_status KeyboardInterrupt = Some 130"
| "exit_status (PolicyError m) = Some 2"
| "exit_status (CommandTimeout m) = Some 2"
| "exit_status (OSErr m) = Some 2"
| "exit_status ValueErr = Some 2"
| "exit_status (KeyErr m) = Some 2"
| "exit_status e = None"

definition run_main :: "nft_env \<Rightarrow> fs_read \<Rightarrow> yaml_load \<Rightarrow> cli_args \<Rightarrow> int nft_io" where
  "run_main env fs safe_load args =
     catchF
       (bindF (liftE (generate fs safe_load args)) (\<lambda>g.
        seqF (if arg_write args then publish_generated env args g else retF ()) (retF 0)))
       (\<lambda>e. exit_status e \<noteq> None)
       (\<lambda>e. retF (the (exit_status e)))"

end
