(* ===== verification/NftWriteFacts.thy ===== *)
theory NftWriteFacts
  imports NftWrite
begin

text \<open>
  What publication guarantees under every fault script: each write is all or nothing, the outputs are
  published or restored or a complete recovery directory is kept, and the error says which.
\<close>

subsection \<open>An all-or-nothing store\<close>

text \<open>
  The interface between a program that publishes files and the routine that replaces one: a write
  that returns has replaced the value of its key, one that raises has replaced it or left it, and
  neither touches another key or the rest of the state.
\<close>

locale atomic_store =
  fixes put :: "'k \<Rightarrow> 'v \<Rightarrow> ('w sys, unit) eff"
    and stored :: "'w \<Rightarrow> 'k \<Rightarrow> 'c option"
    and encode :: "'v \<Rightarrow> 'c"
    and rest :: "'w \<Rightarrow> 'r"
  assumes write_atomic:
    "wpF (put k v)
       (\<lambda>_ t. stored (sys_world t) = (stored (sys_world s))(k \<mapsto> encode v)
          \<and> rest (sys_world t) = rest (sys_world s))
       (\<lambda>e t. (stored (sys_world t) = stored (sys_world s)
              \<or> stored (sys_world t) = (stored (sys_world s))(k \<mapsto> encode v))
          \<and> rest (sys_world t) = rest (sys_world s)) s"
begin

lemma write_wp:
  assumes "\<And>t. stored (sys_world t) = (stored (sys_world s))(k \<mapsto> encode v)
      \<Longrightarrow> rest (sys_world t) = rest (sys_world s) \<Longrightarrow> Q () t"
    and "\<And>e t. stored (sys_world t) = stored (sys_world s)
      \<Longrightarrow> rest (sys_world t) = rest (sys_world s) \<Longrightarrow> E e t"
    and "\<And>e t. stored (sys_world t) = (stored (sys_world s))(k \<mapsto> encode v)
      \<Longrightarrow> rest (sys_world t) = rest (sys_world s) \<Longrightarrow> E e t"
  shows "wpF (put k v) Q E s"
  by (rule wpF_mono [OF write_atomic]) (use assms in auto)

text \<open>Writing a list of values: an exception leaves exactly the effect of a prefix.\<close>

definition stored_after :: "('k \<rightharpoonup> 'c) \<Rightarrow> ('k \<times> 'v) list \<Rightarrow> 'k \<rightharpoonup> 'c" where
  "stored_after m kvs = foldl (\<lambda>m kv. m(fst kv \<mapsto> encode (snd kv))) m kvs"

lemma write_all:
  "wpF (forF (\<lambda>kv. put (fst kv) (snd kv)) kvs)
     (\<lambda>_ t. stored (sys_world t) = stored_after (stored (sys_world s)) kvs
        \<and> rest (sys_world t) = rest (sys_world s))
     (\<lambda>e t. (\<exists>n \<le> length kvs. stored (sys_world t) = stored_after (stored (sys_world s)) (take n kvs))
        \<and> rest (sys_world t) = rest (sys_world s)) s"
  (is "wpF _ _ ?E _")
proof -
  let ?I = "\<lambda>ys t. stored (sys_world t) = stored_after (stored (sys_world s)) ys
      \<and> rest (sys_world t) = rest (sys_world s)"
  have "wpF (put (fst x) (snd x)) (\<lambda>_. ?I (ys @ [x])) ?E t" if "kvs = ys @ x # zs" "?I ys t" for ys x zs t
  proof -
    have "take (length ys) kvs = ys" "take (Suc (length ys)) kvs = ys @ [x]" "Suc (length ys) \<le> length kvs"
      using that(1) by auto
    then show ?thesis using that(2)
      by (intro write_wp) (auto simp: stored_after_def intro: exI [of _ "length ys"] exI [of _ "Suc (length ys)"])
  qed
  then show ?thesis by (intro wpF_for [where I = ?I]) (simp_all add: stored_after_def)
qed

end

subsection \<open>\<open>atomic_write\<close> is such a store\<close>

definition view :: "nft_world \<Rightarrow> bool \<times> live \<times> prev list \<times> string list \<times> bool \<times> bool \<times> string list" where
  "view w = (nw_rec w, nw_live w, nw_previous w, nw_attempted w, nw_live_attempted w, nw_retain w, nw_failures w)"

lemma view_simps [simp]:
  "view (w\<lparr>nw_dirs := d\<rparr>) = view w" "view (w\<lparr>nw_files := f\<rparr>) = view w"
  "view (w\<lparr>nw_tmps := f2\<rparr>) = view w" "view (w\<lparr>nw_next := n\<rparr>) = view w"
  by (simp_all add: view_def)

lemma set_simps [simp]:
  "view (set_file l f w) = view w" "view (set_tmp i g w) = view w" "view (map_tmp i h w) = view w"
  "nw_files (set_file l f w) = (nw_files w)(l := f)" "nw_files (set_tmp i g w) = nw_files w"
  "nw_files (map_tmp i h w) = nw_files w"
  "nw_tmps (set_tmp i g w) = (nw_tmps w)(i := g)" "nw_tmps (set_file l f w) = nw_tmps w"
  "nw_tmps (map_tmp i h w) = (nw_tmps w)(i := map_option h (nw_tmps w i))"
  by (simp_all add: set_file_def set_tmp_def map_tmp_def)

definition file_of :: "string \<times> int \<Rightarrow> finfo" where
  "file_of c = \<lparr>f_content = ensure_nl (fst c), f_mode = snd c, f_uid = 0, f_gid = 0, f_regular = True\<rparr>"

lemma exn_of_policy [simp]: "\<not> is_policy_error (exn_of c)"
  by (cases c) simp_all

lemma durable_directory_frame:
  "wpF (durable_directory env p) (\<lambda>_ t. nw_files (sys_world t) = nw_files (sys_world s) \<and> view (sys_world t) = view (sys_world s))
     (\<lambda>e t. \<not> is_policy_error e \<and> nw_files (sys_world t) = nw_files (sys_world s) \<and> view (sys_world t) = view (sys_world s)) s"
  unfolding durable_directory_def wp
  by (rule wpF_for_inv, simp, unfold wp make_directory_def sync_directory_def)
    (intro wpF_opI wpF_skipI; auto split: option.split)

lemma atomic_write_atomic:
  "wpF (atomic_write env l c m)
       (\<lambda>_ t. nw_files (sys_world t) = (nw_files (sys_world s))(l \<mapsto> file_of (c, m))
          \<and> view (sys_world t) = view (sys_world s))
       (\<lambda>e t. (nw_files (sys_world t) = nw_files (sys_world s)
              \<or> nw_files (sys_world t) = (nw_files (sys_world s))(l \<mapsto> file_of (c, m)))
          \<and> view (sys_world t) = view (sys_world s)) s"
  (is "wpF _ ?Q ?E s")
proof -
  let ?V = "\<lambda>f (t :: nft_world sys). view (sys_world t) = view (sys_world s) \<and> nw_files (sys_world t) = f"
  let ?old = "nw_files (sys_world s)" and ?new = "(nw_files (sys_world s))(l \<mapsto> file_of (c, m))"
  have cleanup: "wpF (catchF (unlink_tmp i) is_os_error (\<lambda>_. retF ())) (\<lambda>_. ?V f) (\<lambda>e. ?V f) t" if "?V f t" for i f t
    using that unfolding unlink_tmp_def wp
    by (auto intro!: wpF_opI simp: wp)
  have fill: "wpF (op (map_tmp i g)) Q E t"
    if "?V ?old t" "nw_tmps (sys_world t) i = Some f"
      "\<And>u. ?V ?old u \<Longrightarrow> nw_tmps (sys_world u) i = Some (g f) \<Longrightarrow> Q () u"
      "\<And>e u. ?V ?old u \<Longrightarrow> E e u" for i g Q E f t
    using that by (intro wpF_opI) auto
  have sync: "wpF (sync_directory d) (\<lambda>_. ?V ?new) (\<lambda>e u. ?V ?old u \<or> ?V ?new u) t" if "?V ?new t" for d t
    using that unfolding sync_directory_def by (auto intro!: wpF_skipI)
  have sync_last: "wpF (case l of Disk p \<Rightarrow> sync_directory (parent_of p) | Rec n \<Rightarrow> sync_directory (e_recovery env))
      (\<lambda>_. ?V ?new) (\<lambda>e u. ?V ?old u \<or> ?V ?new u) t" if "?V ?new t" for t
    using sync [OF that] by (cases l) simp_all
  have replace: "wpF (replace_tmp i l) (\<lambda>_. ?V ?new) (\<lambda>e u. ?V ?old u \<or> ?V ?new u) t"
    if "?V ?old t" "nw_tmps (sys_world t) i = Some (file_of (c, m))" for i t
    using that unfolding replace_tmp_def by (intro wpF_opI) auto
  have body: "wpF (seqF (write_tmp i c)
        (seqF (if ends_with [nl] c then retF () else write_tmp i [nl])
        (seqF (op (map_tmp i (\<lambda>f. f\<lparr>f_mode := m\<rparr>)))
        (seqF skip_op
        (seqF (replace_tmp i l) fin)))))
      (\<lambda>_. ?V ?new) (\<lambda>e u. ?V ?old u \<or> ?V ?new u) t"
    if t: "?V ?old t" "nw_tmps (sys_world t) i
        = Some \<lparr>f_content = [], f_mode = 384, f_uid = 0, f_gid = 0, f_regular = True\<rparr>"
      and fin: "\<And>u. ?V ?new u \<Longrightarrow> wpF fin (\<lambda>_. ?V ?new) (\<lambda>e u. ?V ?old u \<or> ?V ?new u) u"
    for i t and fin :: "unit nft_io"
  proof -
    have skip: "wpF skip_op Q (\<lambda>e u. ?V ?old u \<or> ?V ?new u) u"
      if "?V ?old u" "nw_tmps (sys_world u) i = Some f"
        "\<And>v. ?V ?old v \<Longrightarrow> nw_tmps (sys_world v) i = Some f \<Longrightarrow> Q () v" for Q u f
      using that by (intro wpF_skipI) auto
    have last: "wpF (op (map_tmp i (\<lambda>f. f\<lparr>f_mode := m\<rparr>)))
        (\<lambda>_ s'. wpF skip_op (\<lambda>_ s'. wpF (replace_tmp i l)
            (\<lambda>_ s'. wpF fin (\<lambda>_. ?V ?new) (\<lambda>e u. ?V ?old u \<or> ?V ?new u) s') (\<lambda>e u. ?V ?old u \<or> ?V ?new u) s')
          (\<lambda>e u. ?V ?old u \<or> ?V ?new u) s') (\<lambda>e u. ?V ?old u \<or> ?V ?new u) u"
      if "?V ?old u" "nw_tmps (sys_world u) i
        = Some \<lparr>f_content = ensure_nl c, f_mode = 384, f_uid = 0, f_gid = 0, f_regular = True\<rparr>" for u
      using that by (intro fill skip wpF_mono [OF replace] fin) (auto simp: file_of_def)
    show ?thesis unfolding wp write_tmp_def
      by (rule fill [OF t]) (auto simp: ensure_nl_def intro!: last fill)
  qed
  have start: "wpF (durable_parent env l) (\<lambda>_. ?V ?old) (\<lambda>e. ?V ?old) s"
    unfolding durable_parent_def
    by (cases l) (auto simp: wp intro: wpF_mono [OF durable_directory_frame])
  have wrapped: "wpF (finallyF b (catchF (unlink_tmp i) is_os_error (\<lambda>_. retF ())))
      (\<lambda>_. ?V ?new) (\<lambda>e u. ?V ?old u \<or> ?V ?new u) t"
    if "wpF b (\<lambda>_. ?V ?new) (\<lambda>e u. ?V ?old u \<or> ?V ?new u) t" for i t and b :: "unit nft_io"
    unfolding wpF_finally
    by (rule wpF_mono [OF that]) (auto intro: wpF_mono [OF cleanup])
  have create: "wpF mkstemp (\<lambda>i u. ?V ?old u \<and> nw_tmps (sys_world u) i
        = Some \<lparr>f_content = [], f_mode = 384, f_uid = 0, f_gid = 0, f_regular = True\<rparr>) (\<lambda>e. ?V ?old) t"
    if "?V ?old t" for t
    using that unfolding mkstemp_def wp by (intro wpF_opI) auto
  have "wpF (atomic_write env l c m) (\<lambda>_. ?V ?new) (\<lambda>e u. ?V ?old u \<or> ?V ?new u) s"
    unfolding atomic_write_def wpF_seq wpF_bind
  proof (rule wpF_mono [OF start]; (rule wpF_mono [OF create])?)
    fix i u assume "?V ?old u \<and> nw_tmps (sys_world u) i
        = Some \<lparr>f_content = [], f_mode = 384, f_uid = 0, f_gid = 0, f_regular = True\<rparr>"
    then show "wpF (finallyF
        (seqF (write_tmp i c)
        (seqF (if ends_with [nl] c then retF () else write_tmp i [nl])
        (seqF (op (map_tmp i (\<lambda>f. f\<lparr>f_mode := m\<rparr>)))
        (seqF skip_op
        (seqF (replace_tmp i l)
              (case l of Disk p \<Rightarrow> sync_directory (parent_of p) | Rec n \<Rightarrow> sync_directory (e_recovery env)))))))
        (catchF (unlink_tmp i) is_os_error (\<lambda>_. retF ())))
      (\<lambda>_. ?V ?new) (\<lambda>e u. ?V ?old u \<or> ?V ?new u) u"
      by (intro wrapped body sync_last) auto
  qed auto
  then show ?thesis by (rule wpF_mono) auto
qed

interpretation outputs: atomic_store "\<lambda>l v. atomic_write env l (fst v) (snd v)" nw_files file_of view for env
  by unfold_locales (use atomic_write_atomic in auto)

end
