(* ===== verification/NftPublish.thy ===== *)
theory NftPublish
  imports NftWriteFacts
begin

text \<open>
  The invariants of \<open>write_generation\<close>: during preparation the outputs are untouched; from then on a
  complete recovery directory exists, and each output holds its previous file or, once attempted, its
  new text; rollback puts the previous files back or records a failure.
\<close>

subsection \<open>Frames\<close>

type_synonym disk = "string \<Rightarrow> finfo option"

definition disk :: "nft_world \<Rightarrow> disk" where
  "disk w = (\<lambda>p. nw_files w (Disk p))"

lemma disk_updates [simp]:
  "disk (w\<lparr>nw_live_attempted := b\<rparr>) = disk w" "disk (w\<lparr>nw_retain := b\<rparr>) = disk w"
  "disk (w\<lparr>nw_failures := fs\<rparr>) = disk w" "disk (w\<lparr>nw_rec := b\<rparr>) = disk w"
  "disk (w\<lparr>nw_attempted := ps\<rparr>) = disk w" "disk (w\<lparr>nw_previous := st\<rparr>) = disk w"
  by (simp_all add: disk_def)

definition locals_of :: "nft_world \<Rightarrow> bool \<times> prev list \<times> string list \<times> bool \<times> bool \<times> string list" where
  "locals_of w = (nw_rec w, nw_previous w, nw_attempted w, nw_live_attempted w, nw_retain w, nw_failures w)"

lemma view_locals: "view v = view w \<Longrightarrow> locals_of v = locals_of w \<and> nw_live v = nw_live w"
  by (simp add: view_def locals_of_def)

text \<open>Same files and same local variables; the live tables and counters may differ.\<close>

definition same :: "nft_world \<Rightarrow> nft_world \<Rightarrow> bool" where
  "same v w \<longleftrightarrow> nw_files v = nw_files w \<and> locals_of v = locals_of w"

lemma same_refl [simp]: "same w w"
  by (simp add: same_def)

lemma same_trans: "same u v \<Longrightarrow> same v w \<Longrightarrow> same u w"
  by (simp add: same_def)

lemma run_checked_same:
  "wpF (run_checked env c label) (\<lambda>_ t. same (sys_world t) (sys_world s))
     (\<lambda>e t. same (sys_world t) (sys_world s)) s"
  unfolding run_checked_def wp
  by (rule wpF_skipI)
    (auto simp: wp same_def locals_of_def run_command_def Let_def split: status.split)

lemma wpF_map_inv:
  assumes "I s" and "\<And>x s. I s \<Longrightarrow> wpF (f x) (\<lambda>_. I) (\<lambda>e. I) s"
  shows "wpF (mapF f xs) (\<lambda>_. I) (\<lambda>e. I) s"
  using assms(1)
proof (induction xs arbitrary: s)
  case (Cons x xs)
  show ?case unfolding mapF.simps wp
    by (rule wpF_mono [OF assms(2) [OF Cons.prems]]) (auto intro: Cons.IH)
qed (simp add: wp)

text \<open>A write into the recovery directory, to a name that backups do not use.\<close>

lemma rec_write:
  assumes "\<And>f. I (nw_files (sys_world s)) \<Longrightarrow> I ((nw_files (sys_world s))(Rec n \<mapsto> f))"
    and "I (nw_files (sys_world s))" "locals_of (sys_world s) = L"
  shows "wpF (atomic_write env (Rec n) c m) (\<lambda>_ t. I (nw_files (sys_world t)) \<and> locals_of (sys_world t) = L)
     (\<lambda>e t. I (nw_files (sys_world t)) \<and> locals_of (sys_world t) = L) s"
  by (rule wpF_mono [OF atomic_write_atomic]) (use assms in \<open>auto dest: view_locals\<close>)

subsection \<open>Backups\<close>

definition backup_ok :: "disk \<Rightarrow> (loc \<Rightarrow> finfo option) \<Rightarrow> prev \<Rightarrow> bool" where
  "backup_ok D files st =
     (case D (p_path st) of
        None \<Rightarrow> \<not> p_existed st
      | Some f \<Rightarrow> p_existed st \<and> f_regular f \<and> p_mode st = f_mode f \<and> p_uid st = f_uid f \<and> p_gid st = f_gid f
          \<and> (case files (Rec (p_backup st)) of None \<Rightarrow> False | Some b \<Rightarrow> f_content b = f_content f))"

text \<open>The first \<open>k\<close> outputs are saved, and every other name of the directory is free of backups.\<close>

definition saved :: "disk \<Rightarrow> string list \<Rightarrow> (loc \<Rightarrow> finfo option) \<Rightarrow> prev list \<Rightarrow> bool" where
  "saved D paths files ps \<longleftrightarrow>
     (\<exists>k. map p_path ps = take k paths) \<and> list_all (backup_ok D files) ps
     \<and> (\<forall>i < length ps. p_existed (ps ! i) \<longrightarrow> p_backup (ps ! i) = previous_name i)"

lemma previous_name_inj: "previous_name i = previous_name j \<Longrightarrow> i = j"
  using dec_str_inj [of "int i" "int j"] by (simp add: previous_name_def int_str_def)

lemma other_names [simp]:
  "previous_name i \<noteq> candidate_name j" "previous_name i \<noteq> ''live.nft''" "previous_name i \<noteq> ''previous.json''"
  "candidate_name j \<noteq> previous_name i"
  by (simp_all add: previous_name_def candidate_name_def)

lemma backup_ok_rec:
  "backup_ok D files st \<Longrightarrow> p_existed st \<longrightarrow> p_backup st \<noteq> n \<Longrightarrow> backup_ok D (files(Rec n := f)) st"
  by (auto simp: backup_ok_def split: option.splits)

lemma saved_rec:
  assumes "saved D paths files ps" "\<And>i. i < length ps \<Longrightarrow> previous_name i \<noteq> n"
  shows "saved D paths (files(Rec n := f)) ps"
proof -
  have "backup_ok D (files(Rec n := f)) (ps ! i)" if "i < length ps" for i
    by (rule backup_ok_rec) (use assms that in \<open>auto simp: saved_def list_all_length\<close>)
  then show ?thesis using assms(1) by (auto simp: saved_def list_all_length)
qed

lemma backup_ok_cong:
  "files' (Rec (p_backup st)) = files (Rec (p_backup st)) \<Longrightarrow> backup_ok D files' st = backup_ok D files st"
  by (simp add: backup_ok_def split: option.split)

lemma saved_disk:
  assumes "saved D paths files ps" "\<And>n. files' (Rec n) = files (Rec n)"
  shows "saved D paths files' ps"
proof -
  have "backup_ok D files' = backup_ok D files"
    by (rule ext, rule backup_ok_cong, rule assms(2))
  then show ?thesis using assms(1) by (simp add: saved_def)
qed

lemma disk_rec [simp]: "(\<lambda>p. (files(Rec n := f)) (Disk p)) = (\<lambda>p. files (Disk p))"
  by simp

text \<open>During preparation.\<close>

definition preparing :: "disk \<Rightarrow> string list \<Rightarrow> nft_world \<Rightarrow> bool" where
  "preparing D paths w \<longleftrightarrow>
     disk w = D \<and> nw_rec w \<and> nw_attempted w = [] \<and> \<not> nw_live_attempted w \<and> \<not> nw_retain w
     \<and> saved D paths (nw_files w) (nw_previous w)"

lemma preparing_same: "preparing D paths v \<Longrightarrow> same w v \<Longrightarrow> preparing D paths w"
  by (simp add: preparing_def same_def locals_of_def disk_def)

lemma preparing_rec_write:
  assumes "preparing D paths (sys_world s)" "\<And>i. i < length (nw_previous (sys_world s)) \<Longrightarrow> previous_name i \<noteq> n"
  shows "wpF (atomic_write env (Rec n) c m)
     (\<lambda>_ t. preparing D paths (sys_world t) \<and> nw_previous (sys_world t) = nw_previous (sys_world s))
     (\<lambda>e t. preparing D paths (sys_world t)) s"
proof -
  let ?I = "\<lambda>files. (\<lambda>p. files (Disk p)) = D \<and> saved D paths files (nw_previous (sys_world s))"
  have "wpF (atomic_write env (Rec n) c m)
     (\<lambda>_ t. ?I (nw_files (sys_world t)) \<and> locals_of (sys_world t) = locals_of (sys_world s))
     (\<lambda>e t. ?I (nw_files (sys_world t)) \<and> locals_of (sys_world t) = locals_of (sys_world s)) s"
    using assms by (intro rec_write) (auto simp: preparing_def disk_def simp del: fun_upd_apply intro: saved_rec)
  then show ?thesis
    by (rule wpF_mono) (use assms(1) in \<open>auto simp: preparing_def locals_of_def disk_def\<close>)
qed

lemma backup_file_wp:
  assumes "preparing D paths (sys_world s)" "D path = Some f"
    and "\<And>i. i < length (nw_previous (sys_world s)) \<Longrightarrow> previous_name i \<noteq> n"
  shows "wpF (backup_file path n)
     (\<lambda>_ t. preparing D paths (sys_world t) \<and> nw_previous (sys_world t) = nw_previous (sys_world s)
        \<and> (\<exists>b. nw_files (sys_world t) (Rec n) = Some b \<and> f_content b = f_content f))
     (\<lambda>e t. preparing D paths (sys_world t)) s"
proof -
  have keep: "preparing D paths (set_file (Rec n) g w) \<and> nw_previous (set_file (Rec n) g w) = nw_previous (sys_world s)"
    if "preparing D paths w" "nw_previous w = nw_previous (sys_world s)" for g w
    using that assms(3) saved_rec [of D paths "nw_files w" "nw_previous w" n g]
    by (auto simp: preparing_def disk_def set_file_def)
  have d: "nw_files w (Disk path) = Some f" if "preparing D paths w" for w
    using that assms(2) by (auto simp: preparing_def disk_def)
  show ?thesis
    unfolding backup_file_def wp using assms(1)
    by (intro wpF_opI wpF_skipI) (auto simp: keep d)
qed

lemma saved_snoc:
  assumes "saved D paths files ps" "backup_ok D files st" "length ps < length paths"
    and "p_path st = paths ! length ps" "p_existed st \<longrightarrow> p_backup st = previous_name (length ps)"
  shows "saved D paths files (ps @ [st])"
proof -
  from assms(1) obtain k where k: "map p_path ps = take k paths" by (auto simp: saved_def)
  then have "length ps = min k (length paths)" by (metis length_map length_take min.commute)
  then have "k = length ps" using assms(3) by (auto simp: min_def split: if_splits)
  then have "map p_path (ps @ [st]) = take (Suc (length ps)) paths"
    using k assms(3,4) by (simp add: take_Suc_conv_app_nth)
  then show ?thesis using assms by (auto simp: saved_def nth_append less_Suc_eq)
qed

definition prepared :: "disk \<Rightarrow> string list \<Rightarrow> nat \<Rightarrow> nft_world \<Rightarrow> bool" where
  "prepared D paths k w \<longleftrightarrow> preparing D paths w \<and> length (nw_previous w) = k"

lemma prepared_preparing: "prepared D paths k w \<Longrightarrow> preparing D paths w"
  by (simp add: prepared_def)

lemma save_previous_wp:
  assumes "prepared D paths i (sys_world s)" "i < length paths"
  shows "wpF (save_previous i (paths ! i))
     (\<lambda>st t. prepared D paths i (sys_world t) \<and> backup_ok D (nw_files (sys_world t)) st
        \<and> p_path st = paths ! i \<and> (p_existed st \<longrightarrow> p_backup st = previous_name i))
     (\<lambda>e t. preparing D paths (sys_world t)) s"
proof -
  have d: "nw_files (sys_world s) (Disk (paths ! i)) = D (paths ! i)" and prep: "preparing D paths (sys_world s)"
    and len: "length (nw_previous (sys_world s)) = i"
    using assms(1) by (auto simp: prepared_def preparing_def disk_def)
  show ?thesis
  proof (cases "D (paths ! i)")
    case None
    then show ?thesis using assms d by (simp add: save_previous_def wp backup_ok_def)
  next
    case (Some f)
    have names: "previous_name j \<noteq> previous_name i" if "j < length (nw_previous (sys_world s))" for j
      using that len previous_name_inj by fastforce
    have b: "wpF (backup_file (paths ! i) (previous_name i))
        (\<lambda>_ t. prepared D paths i (sys_world t) \<and> (\<exists>b. nw_files (sys_world t) (Rec (previous_name i)) = Some b
           \<and> f_content b = f_content f)) (\<lambda>e t. preparing D paths (sys_world t)) s"
      by (rule wpF_mono [OF backup_file_wp [OF prep Some names]]) (auto simp: prepared_def len)
    show ?thesis
      unfolding save_previous_def wp d Some option.case using prep Some
      by (auto intro!: wpF_mono [OF b] simp: backup_ok_def unsafe_previous_def)
  qed
qed

lemma prepare_file_wp:
  assumes "prepared D paths i (sys_world s)" "i < length paths" "paths ! i = path"
  shows "wpF (prepare_file env rendered (i, path, content))
     (\<lambda>_ t. prepared D paths (Suc i) (sys_world t)) (\<lambda>e t. preparing D paths (sys_world t)) s"
  unfolding prepare_file_def prod.case wp
proof (rule wpF_mono [OF save_previous_wp [OF assms(1,2), unfolded assms(3)]])
  fix st and t :: "nft_world sys"
  assume t: "prepared D paths i (sys_world t) \<and> backup_ok D (nw_files (sys_world t)) st
        \<and> p_path st = path \<and> (p_existed st \<longrightarrow> p_backup st = previous_name i)"
  let ?t = "upd (\<lambda>w. w\<lparr>nw_previous := nw_previous w @ [st]\<rparr>) t"
  have "prepared D paths (Suc i) (sys_world ?t)"
    using t assms(2,3) saved_snoc [of D paths "nw_files (sys_world t)" "nw_previous (sys_world t)" st]
    by (auto simp: prepared_def preparing_def disk_def)
  then show "wpF (atomic_write env (Rec (candidate_name i)) (redirect env rendered content) 384)
      (\<lambda>_ t. prepared D paths (Suc i) (sys_world t)) (\<lambda>e t. preparing D paths (sys_world t)) ?t"
    by (intro wpF_mono [OF preparing_rec_write]) (auto simp: prepared_def)
qed simp

lemma take_enumerate: "take n (enumerate 0 xs) = enumerate 0 (take n xs)"
  by (simp add: enumerate_eq_zip take_zip min_def)

lemma prepare_loop_wp:
  assumes "prepared D (map fst rendered) 0 (sys_world s)"
  shows "wpF (forF (prepare_file env rendered) (enumerate 0 rendered))
     (\<lambda>_ t. prepared D (map fst rendered) (length rendered) (sys_world t))
     (\<lambda>e t. preparing D (map fst rendered) (sys_world t)) s"
proof -
  have "wpF (forF (prepare_file env rendered) (enumerate 0 rendered))
     (\<lambda>_ t. prepared D (map fst rendered) (length (enumerate 0 rendered)) (sys_world t))
     (\<lambda>e t. preparing D (map fst rendered) (sys_world t)) s"
  proof (rule wpF_for [where I = "\<lambda>ys t. prepared D (map fst rendered) (length ys) (sys_world t)"])
    fix ys x zs and t :: "nft_world sys"
    assume e: "enumerate 0 rendered = ys @ x # zs" and I: "prepared D (map fst rendered) (length ys) (sys_world t)"
    have n: "length ys < length rendered"
      by (metis e length_append length_enumerate length_Cons less_add_Suc1 add_Suc_right)
    have "x = enumerate 0 rendered ! length ys" using e by simp
    also have "\<dots> = (length ys, rendered ! length ys)" using n by (simp add: enumerate_eq_zip)
    finally have x: "x = (length ys, fst (rendered ! length ys), snd (rendered ! length ys))" by simp
    show "wpF (prepare_file env rendered x) (\<lambda>_ t. prepared D (map fst rendered) (length (ys @ [x])) (sys_world t))
      (\<lambda>e t. preparing D (map fst rendered) (sys_world t)) t"
      unfolding x using prepare_file_wp [OF I, of "fst (rendered ! length ys)" env rendered "snd (rendered ! length ys)"] n by simp
  qed (simp add: assms)
  then show ?thesis by simp
qed

text \<open>The recovery index of the directory lists the saved outputs.\<close>

definition index_text :: "nft_env \<Rightarrow> prev list \<Rightarrow> finfo" where
  "index_text env ps = file_of (e_dumps env ps, 384)"

definition indexed :: "nft_env \<Rightarrow> nft_world \<Rightarrow> bool" where
  "indexed env w \<longleftrightarrow> nw_files w (Rec ''previous.json'') = Some (index_text env (nw_previous w))"

definition ready :: "nft_env \<Rightarrow> disk \<Rightarrow> string list \<Rightarrow> nat \<Rightarrow> nft_world \<Rightarrow> bool" where
  "ready env D paths k w \<longleftrightarrow> prepared D paths k w \<and> indexed env w"

lemma ready_preparing: "ready env D paths k w \<Longrightarrow> preparing D paths w"
  by (simp add: ready_def prepared_def)

lemma index_write_ready:
  assumes "prepared D paths k (sys_world s)"
  shows "wpF (atomic_write env (Rec ''previous.json'') (e_dumps env (nw_previous (sys_world s))) 384)
     (\<lambda>_ t. ready env D paths k (sys_world t)) (\<lambda>e t. preparing D paths (sys_world t)) s"
proof -
  have prep: "preparing D paths (sys_world s)" and len: "length (nw_previous (sys_world s)) = k"
    using assms by (auto simp: prepared_def)
  have kept: "preparing D paths (sys_world t)"
    if "nw_files (sys_world t) = nw_files (sys_world s)
       \<or> nw_files (sys_world t) = (nw_files (sys_world s))(Rec ''previous.json'' \<mapsto> f)"
      "view (sys_world t) = view (sys_world s)" for t :: "nft_world sys" and f
  proof -
    have "saved D paths (nw_files (sys_world t)) (nw_previous (sys_world s))"
      using that(1) prep saved_rec [of D paths "nw_files (sys_world s)" "nw_previous (sys_world s)" "''previous.json''" "Some f"]
      by (auto simp: preparing_def)
    moreover have "disk (sys_world t) = disk (sys_world s)" using that(1) by (auto simp: disk_def)
    ultimately show ?thesis using prep that(2) by (simp add: preparing_def view_def)
  qed
  show ?thesis
    by (rule wpF_mono [OF atomic_write_atomic])
      (use kept len in \<open>auto simp: ready_def prepared_def indexed_def index_text_def view_def\<close>)
qed

lemma run_checked_ready:
  assumes "ready env D paths k (sys_world s)"
  shows "wpF (run_checked env c label) (\<lambda>_ t. ready env D paths k (sys_world t))
     (\<lambda>e t. preparing D paths (sys_world t)) s"
  by (rule wpF_mono [OF run_checked_same])
    (use assms preparing_same in \<open>auto simp: ready_def indexed_def prepared_def same_def locals_of_def\<close>)

lemma live_write_ready:
  assumes "ready env D paths k (sys_world s)"
  shows "wpF (atomic_write env (Rec ''live.nft'') c m) (\<lambda>_ t. ready env D paths k (sys_world t))
     (\<lambda>e t. preparing D paths (sys_world t)) s"
proof -
  have kept: "wpF (atomic_write env (Rec ''live.nft'') c m)
      (\<lambda>_ t. indexed env (sys_world t)) (\<lambda>e t. True) s"
    by (rule wpF_mono [OF atomic_write_atomic])
      (use assms in \<open>auto simp: ready_def indexed_def view_def\<close>)
  have "wpF (atomic_write env (Rec ''live.nft'') c m) (\<lambda>_ t. prepared D paths k (sys_world t))
     (\<lambda>e t. preparing D paths (sys_world t)) s"
    by (rule wpF_mono [OF preparing_rec_write]) (use assms in \<open>auto simp: ready_def prepared_def\<close>)
  with kept show ?thesis by (auto simp: wpF_def ready_def split: prod.splits sum.splits)
qed

lemma snapshot_live_wp:
  assumes "ready env D paths k (sys_world s)"
  shows "wpF (snapshot_live env) (\<lambda>_ t. ready env D paths k (sys_world t))
     (\<lambda>e t. preparing D paths (sys_world t)) s"
proof -
  have tables: "wpF (mapF (\<lambda>(family, name). run_checked env (ListTable family name) l) ts)
      (\<lambda>_ t. ready env D paths k (sys_world t)) (\<lambda>e t. preparing D paths (sys_world t)) t"
    if "ready env D paths k (sys_world t)" for l ts t
    using that
  proof (induction ts arbitrary: t)
    case (Cons x xs)
    show ?case unfolding mapF.simps wp
      by (cases x) (auto intro!: wpF_mono [OF run_checked_ready [OF Cons.prems]]
          intro: wpF_mono [OF Cons.IH])
  qed (simp add: wp)
  show ?thesis unfolding snapshot_live_def wp
    by (rule wpF_mono [OF run_checked_ready [OF assms]])
      (auto dest: ready_preparing split: sum.split intro!: wpF_mono [OF tables] live_write_ready)
qed

lemma prepare_wp:
  assumes "prepared D (map fst rendered) 0 (sys_world s)"
  shows "wpF (prepare env args c rendered)
     (\<lambda>_ t. ready env D (map fst rendered) (length rendered) (sys_world t))
     (\<lambda>e t. preparing D (map fst rendered) (sys_world t)) s"
proof -
  let ?Q = "\<lambda>_ t. ready env D (map fst rendered) (length rendered) (sys_world t)"
  let ?E = "\<lambda>e t. preparing D (map fst rendered) (sys_world t)"
  have sync: "wpF (sync_directory d) ?Q ?E t" if "?Q () t" for d t
    using that unfolding sync_directory_def by (intro wpF_skipI) (auto dest: ready_preparing)
  have snap: "wpF (whenF b (snapshot_live env)) ?Q ?E t" if "?Q () t" for b t
    using snapshot_live_wp [OF that] that by (simp add: wpF_when)
  have check: "wpF (whenF b (run_checked env cmd l)) ?Q ?E t" if "?Q () t" for b cmd l t
    using run_checked_ready [OF that] that by (simp add: wpF_when)
  show ?thesis unfolding prepare_def wpF_seq wpF_bind wpF_look
    by (rule wpF_mono [OF prepare_loop_wp [OF assms]])
      (auto intro!: wpF_mono [OF index_write_ready] wpF_mono [OF check] wpF_mono [OF snap] wpF_mono [OF sync] sync)
qed

subsection \<open>Publication\<close>

definition new_file :: "string \<Rightarrow> string \<Rightarrow> string \<Rightarrow> finfo" where
  "new_file conf path content = file_of (content, if path = conf then 493 else 420)"

text \<open>
  The recovery directory holds what is needed to put every output back: for each output that existed a
  copy with its content, and the index \<open>previous.json\<close> that names the copies, owners and modes.
\<close>

definition recoverable :: "nft_env \<Rightarrow> disk \<Rightarrow> (string \<times> string) list \<Rightarrow> nft_world \<Rightarrow> bool" where
  "recoverable env D rendered w \<longleftrightarrow>
     nw_rec w \<and> indexed env w \<and> map p_path (nw_previous w) = map fst rendered
     \<and> list_all (backup_ok D (nw_files w)) (nw_previous w)
     \<and> (\<forall>p. p \<notin> fst ` set rendered \<longrightarrow> disk w p = D p)"

definition publishing :: "nft_env \<Rightarrow> disk \<Rightarrow> (string \<times> string) list \<Rightarrow> nft_world \<Rightarrow> bool" where
  "publishing env D rendered w \<longleftrightarrow>
     recoverable env D rendered w \<and> nw_retain w \<and> (\<forall>p. p \<notin> set (nw_attempted w) \<longrightarrow> disk w p = D p)"

definition published :: "disk \<Rightarrow> string \<Rightarrow> (string \<times> string) list \<Rightarrow> disk" where
  "published D conf rendered =
     foldl (\<lambda>m entry. m(fst entry \<mapsto> new_file conf (fst entry) (snd entry))) D rendered"

lemma published_other: "p \<notin> fst ` set rendered \<Longrightarrow> published D conf rendered p = D p"
  unfolding published_def by (induction rendered arbitrary: D) auto

lemma prepared_publishing:
  assumes "ready env D (map fst rendered) (length rendered) w"
  shows "publishing env D rendered (w\<lparr>nw_retain := True\<rparr>)"
proof -
  obtain k where k: "map p_path (nw_previous w) = take k (map fst rendered)"
    and len: "length (nw_previous w) = length rendered"
    using assms by (auto simp: ready_def prepared_def preparing_def saved_def)
  then have "take k (map fst rendered) = map fst rendered"
    by (metis length_map nat_le_linear take_all length_take min.absorb2)
  then show ?thesis using assms k
    by (auto simp: publishing_def recoverable_def ready_def indexed_def prepared_def preparing_def saved_def disk_def)
qed

lemma publishing_same: "publishing env D rendered v \<Longrightarrow> same w v \<Longrightarrow> publishing env D rendered w"
  by (simp add: publishing_def recoverable_def indexed_def same_def locals_of_def disk_def)

lemma backup_ok_disk [simp]: "backup_ok D (files(Disk p := f)) = backup_ok D files"
  by (rule ext, rule backup_ok_cong) simp

lemma publish_file_wp:
  assumes "publishing env D rendered (sys_world s)" "disk (sys_world s) = published D conf ys"
    and "entry \<in> set rendered"
  shows "wpF (publish_file env conf entry)
     (\<lambda>_ t. publishing env D rendered (sys_world t) \<and> disk (sys_world t) = published D conf (ys @ [entry]))
     (\<lambda>e t. publishing env D rendered (sys_world t)) s"
proof -
  obtain path content where e: "entry = (path, content)" by (cases entry)
  have mem: "path \<in> fst ` set rendered" using assms(3) e by force
  let ?s = "upd (\<lambda>w. w\<lparr>nw_attempted := nw_attempted w @ [path]\<rparr>) s"
  have kept: "publishing env D rendered (sys_world t)"
    if "nw_files (sys_world t) = nw_files (sys_world s)
       \<or> nw_files (sys_world t) = (nw_files (sys_world s))(Disk path \<mapsto> f)"
      "view (sys_world t) = view (sys_world ?s)" for t :: "nft_world sys" and f
    using assms(1) that by (auto simp: publishing_def recoverable_def indexed_def disk_def view_def mem)
  have new: "disk (sys_world t) = published D conf (ys @ [entry])"
    if "nw_files (sys_world t) = (nw_files (sys_world s))(Disk path \<mapsto> new_file conf path content)"
    for t :: "nft_world sys"
    using assms(2) that e by (auto simp: published_def disk_def fun_eq_iff)
  show ?thesis
    unfolding publish_file_def e prod.case wp
    by (rule wpF_mono [OF atomic_write_atomic]) (use kept new e in \<open>auto simp: new_file_def\<close>)
qed

lemma publish_wp:
  assumes "ready env D (map fst rendered) (length rendered) (sys_world s)"
  shows "wpF (publish env args conf rendered)
     (\<lambda>_ t. disk (sys_world t) = published D conf rendered \<and> nw_rec (sys_world t) \<and> \<not> nw_retain (sys_world t))
     (\<lambda>e t. publishing env D rendered (sys_world t)) s"
proof -
  let ?E = "\<lambda>e t. publishing env D rendered (sys_world t)"
  let ?Q = "\<lambda>ys t. publishing env D rendered (sys_world t) \<and> disk (sys_world t) = published D conf ys"
  have loop: "wpF (forF (publish_file env conf) rendered) (\<lambda>_. ?Q rendered) ?E t" if "?Q [] t" for t
    by (rule wpF_for [where I = ?Q]) (use that in \<open>auto intro!: publish_file_wp\<close>)
  have check: "wpF (run_checked env cmd l) (\<lambda>_. ?Q rendered) ?E t" if "?Q rendered t" for cmd l t
    by (rule wpF_mono [OF run_checked_same])
      (use that publishing_same in \<open>auto simp: same_def disk_def\<close>)
  have mark: "?Q rendered (upd (\<lambda>w. w\<lparr>nw_live_attempted := True\<rparr>) t)" if "?Q rendered t" for t
    using that by (auto simp: publishing_def recoverable_def indexed_def)
  have start: "?Q [] (upd (\<lambda>w. w\<lparr>nw_retain := True\<rparr>) s)"
    using prepared_publishing [OF assms] assms
    by (auto simp: published_def ready_def prepared_def preparing_def disk_def)
  show ?thesis unfolding publish_def wp wpF_when
    by (rule wpF_mono [OF loop [OF start]])
      (auto simp: publishing_def recoverable_def indexed_def intro!: wpF_mono [OF check] wpF_mono [OF check [OF mark]] mark)
qed

subsection \<open>Rollback\<close>

lemma restore_file_wp:
  fixes s :: "nft_world sys"
  assumes "backup_ok D (nw_files (sys_world s)) st" "D (p_path st) = Some f"
  defines "old \<equiv> nw_files (sys_world s)"
  shows "wpF (restore_file st)
     (\<lambda>_ t. nw_files (sys_world t) = old(Disk (p_path st) \<mapsto> f) \<and> view (sys_world t) = view (sys_world s))
     (\<lambda>e t. \<not> is_policy_error e \<and> (nw_files (sys_world t) = old \<or> nw_files (sys_world t) = old(Disk (p_path st) \<mapsto> f))
        \<and> view (sys_world t) = view (sys_world s)) s"
proof -
  let ?V = "\<lambda>g (t :: nft_world sys). view (sys_world t) = view (sys_world s) \<and> nw_files (sys_world t) = g"
  let ?new = "old(Disk (p_path st) \<mapsto> f)"
  from assms(1,2) obtain b where b: "old (Rec (p_backup st)) = Some b" "f_content b = f_content f"
    and m: "f_regular f" "p_mode st = f_mode f" "p_uid st = f_uid f" "p_gid st = f_gid f"
    by (auto simp: backup_ok_def old_def split: option.splits)
  have fill: "wpF (op (map_tmp i g)) Q (\<lambda>e u. \<not> is_policy_error e \<and> (?V old u \<or> ?V ?new u)) t"
    if "?V old t" "nw_tmps (sys_world t) i = Some h"
      "\<And>u. ?V old u \<Longrightarrow> nw_tmps (sys_world u) i = Some (g h) \<Longrightarrow> Q () u" for i g h Q t
    using that by (intro wpF_opI) auto
  have skip: "wpF skip_op Q (\<lambda>e u. \<not> is_policy_error e \<and> (?V old u \<or> ?V ?new u)) t"
    if "?V old t" "nw_tmps (sys_world t) i = Some h"
      "\<And>u. ?V old u \<Longrightarrow> nw_tmps (sys_world u) i = Some h \<Longrightarrow> Q () u" for i h Q t
    using that by (intro wpF_skipI) auto
  have replace: "wpF (replace_tmp i (Disk (p_path st))) (\<lambda>_. ?V ?new) (\<lambda>e u. \<not> is_policy_error e \<and> (?V old u \<or> ?V ?new u)) t"
    if "?V old t" "nw_tmps (sys_world t) i = Some f" for i t
    using that unfolding replace_tmp_def by (intro wpF_opI) auto
  have clean: "wpF (op (set_tmp i None)) (\<lambda>_. ?V g) (\<lambda>e t. \<not> is_policy_error e \<and> ?V g t) t" if "?V g t" for i g t
    using that by (intro wpF_opI) auto
  have create: "wpF mkstemp (\<lambda>i u. ?V old u \<and> nw_tmps (sys_world u) i
        = Some \<lparr>f_content = [], f_mode = 384, f_uid = 0, f_gid = 0, f_regular = True\<rparr>) (\<lambda>e t. \<not> is_policy_error e \<and> ?V old t) s"
    unfolding mkstemp_def wp by (intro wpF_opI) (auto simp: old_def)
  have "wpF (restore_file st) (\<lambda>_. ?V ?new) (\<lambda>e u. \<not> is_policy_error e \<and> (?V old u \<or> ?V ?new u)) s"
    unfolding restore_file_def wpF_bind
  proof (rule wpF_mono [OF create], unfold wpF_finally)
    fix i and u :: "nft_world sys"
    assume u: "?V old u \<and> nw_tmps (sys_world u) i
        = Some \<lparr>f_content = [], f_mode = 384, f_uid = 0, f_gid = 0, f_regular = True\<rparr>"
    have saved: "nw_files (sys_world u) (Rec (p_backup st)) = Some b" using u b by simp
    have "wpF (bindF (look (\<lambda>w. nw_files w (Rec (p_backup st)))) (\<lambda>saved.
        seqF (case saved of None \<Rightarrow> raiseF (OSErr ''no backup'') | Some f \<Rightarrow> write_tmp i (f_content f))
        (seqF (op (map_tmp i (\<lambda>f. f\<lparr>f_uid := p_uid st, f_gid := p_gid st\<rparr>)))
        (seqF (op (map_tmp i (\<lambda>f. f\<lparr>f_mode := p_mode st\<rparr>)))
        (seqF skip_op
        (replace_tmp i (Disk (p_path st))))))))
      (\<lambda>_. ?V ?new) (\<lambda>e u. \<not> is_policy_error e \<and> (?V old u \<or> ?V ?new u)) u"
      unfolding wp write_tmp_def saved option.case
      by (intro fill skip replace) (use u b m in auto)
    then show "wpF (bindF (look (\<lambda>w. nw_files w (Rec (p_backup st)))) (\<lambda>saved.
        seqF (case saved of None \<Rightarrow> raiseF (OSErr ''no backup'') | Some f \<Rightarrow> write_tmp i (f_content f))
        (seqF (op (map_tmp i (\<lambda>f. f\<lparr>f_uid := p_uid st, f_gid := p_gid st\<rparr>)))
        (seqF (op (map_tmp i (\<lambda>f. f\<lparr>f_mode := p_mode st\<rparr>)))
        (seqF skip_op
        (replace_tmp i (Disk (p_path st))))))))
      (\<lambda>x. wpF (op (set_tmp i None)) (\<lambda>_. ?V ?new) (\<lambda>e u. \<not> is_policy_error e \<and> (?V old u \<or> ?V ?new u)))
      (\<lambda>e s'. if e = Killed then \<not> is_policy_error e \<and> (?V old s' \<or> ?V ?new s')
         else wpF (op (set_tmp i None)) (\<lambda>_ u. \<not> is_policy_error e \<and> (?V old u \<or> ?V ?new u)) (\<lambda>e u. \<not> is_policy_error e \<and> (?V old u \<or> ?V ?new u)) s') u"
      by (rule wpF_mono) (auto intro: wpF_mono [OF clean])
  qed auto
  then show ?thesis by (rule wpF_mono) auto
qed

lemma publishing_failures [simp]:
  "publishing env D rendered (w\<lparr>nw_failures := fs\<rparr>) = publishing env D rendered w"
  by (simp add: publishing_def recoverable_def indexed_def)

lemma rollback_path_wp:
  fixes s :: "nft_world sys"
  assumes "publishing env D rendered (sys_world s)" "st \<in> set (nw_previous (sys_world s))"
  shows "wpF (rollback_path st)
     (\<lambda>_ t. publishing env D rendered (sys_world t)
        \<and> nw_previous (sys_world t) = nw_previous (sys_world s)
        \<and> nw_live_attempted (sys_world t) = nw_live_attempted (sys_world s)
        \<and> (nw_failures (sys_world t) = [] \<longrightarrow> nw_failures (sys_world s) = []
             \<and> disk (sys_world t) (p_path st) = D (p_path st)
             \<and> (\<forall>p. disk (sys_world s) p = D p \<longrightarrow> disk (sys_world t) p = D p)))
     (\<lambda>e t. \<not> is_policy_error e \<and> publishing env D rendered (sys_world t)) s"
  (is "wpF _ ?Q ?E s")
proof (cases "p_path st \<in> set (nw_attempted (sys_world s))")
  case False
  then show ?thesis using assms by (auto simp: rollback_path_def wp publishing_def)
next
  case True
  let ?p = "p_path st"
  let ?old = "nw_files (sys_world s)" and ?new = "(nw_files (sys_world s))(Disk ?p := D ?p)"
  have ok: "backup_ok D ?old st" using assms by (auto simp: publishing_def recoverable_def indexed_def list_all_set)
  have kept: "publishing env D rendered (sys_world t) \<and> nw_previous (sys_world t) = nw_previous (sys_world s)
        \<and> nw_live_attempted (sys_world t) = nw_live_attempted (sys_world s)"
    if "nw_files (sys_world t) = ?old \<or> nw_files (sys_world t) = ?new" "view (sys_world t) = view (sys_world s)"
    for t :: "nft_world sys"
    using assms(1) that by (auto simp: publishing_def recoverable_def indexed_def disk_def view_def)
  have undone: "wpF (if p_existed st then restore_file st else op (set_file (Disk ?p) None))
      (\<lambda>_ t. nw_files (sys_world t) = ?new \<and> view (sys_world t) = view (sys_world s))
      (\<lambda>e t. \<not> is_policy_error e \<and> (nw_files (sys_world t) = ?old \<or> nw_files (sys_world t) = ?new)
         \<and> view (sys_world t) = view (sys_world s)) s"
  proof (cases "D ?p")
    case None
    then show ?thesis using ok by (auto simp: backup_ok_def intro!: wpF_opI)
  next
    case (Some f)
    then show ?thesis using ok restore_file_wp [OF ok Some] by (simp add: backup_ok_def)
  qed
  have finished: "?Q u t" if "nw_files (sys_world t) = ?new" "view (sys_world t) = view (sys_world s)" for u t
  proof -
    have "nw_failures (sys_world t) = nw_failures (sys_world s)" using that(2) by (simp add: view_def)
    then show ?thesis using kept [of t] that by (simp add: disk_def)
  qed
  have failed: "?Q u (upd (\<lambda>w. w\<lparr>nw_failures := nw_failures w @ [m]\<rparr>) t)"
    if "publishing env D rendered (sys_world t) \<and> nw_previous (sys_world t) = nw_previous (sys_world s)
        \<and> nw_live_attempted (sys_world t) = nw_live_attempted (sys_world s)" for u t m
    using that by (auto simp: publishing_def recoverable_def indexed_def)
  let ?kept = "\<lambda>t. publishing env D rendered (sys_world t)
      \<and> nw_previous (sys_world t) = nw_previous (sys_world s)
        \<and> nw_live_attempted (sys_world t) = nw_live_attempted (sys_world s)"
  have sync: "wpF (sync_directory d) ?Q (\<lambda>e t. \<not> is_policy_error e \<and> ?kept t) t"
    if "nw_files (sys_world t) = ?new \<and> view (sys_world t) = view (sys_world s)" for d t
    unfolding sync_directory_def
  proof (rule wpF_skipI)
    fix s' :: "nft_world sys" assume e: "sys_world s' = sys_world t"
    show "?Q () s'" by (rule finished) (use that e in simp_all)
  next
    fix c and s' :: "nft_world sys" assume e: "sys_world s' = sys_world t"
    show "\<not> is_policy_error (exn_of c) \<and> ?kept s'"
      using kept [of s'] that e by simp
  qed
  have "wpF (seqF (if p_existed st then restore_file st else op (set_file (Disk ?p) None))
      (sync_directory (parent_of ?p))) ?Q (\<lambda>e t. \<not> is_policy_error e \<and> ?kept t) s"
    unfolding wpF_seq
    by (rule wpF_mono [OF undone]) (erule sync, use kept in blast)
  then have "wpF (catchF (seqF (if p_existed st then restore_file st else op (set_file (Disk ?p) None))
      (sync_directory (parent_of ?p))) is_os_error (\<lambda>_. add_failure (''cannot restore '' @ ?p))) ?Q ?E s"
    unfolding wpF_catch add_failure_def wpF_assign
    by (rule wpF_mono) (auto intro: failed)
  then show ?thesis using True by (simp add: rollback_path_def wpF_bind wpF_look del: wpF_catch)
qed

definition rolled_back :: "nft_env \<Rightarrow> disk \<Rightarrow> (string \<times> string) list \<Rightarrow> pyexn \<Rightarrow> nft_world \<Rightarrow> bool" where
  "rolled_back env D rendered e w \<longleftrightarrow>
     (if is_policy_error e \<and> (\<forall>m. e \<noteq> RecoveryRequired m) then disk w = D \<and> \<not> nw_retain w
      else if is_policy_error e then recoverable env D rendered w \<and> nw_retain w
      else disk w = D \<and> \<not> nw_retain w \<or> recoverable env D rendered w \<and> nw_retain w)"

lemma rolled_back_publishing:
  "publishing env D rendered w \<Longrightarrow> \<not> is_policy_error e \<Longrightarrow> rolled_back env D rendered e w"
  by (simp add: rolled_back_def publishing_def)

lemma rollback_loop_wp:
  fixes s :: "nft_world sys"
  assumes "publishing env D rendered (sys_world s)"
  shows "wpF (forF rollback_path (rev (nw_previous (sys_world s))))
     (\<lambda>_ t. publishing env D rendered (sys_world t) \<and> nw_live_attempted (sys_world t) = nw_live_attempted (sys_world s)
        \<and> (nw_failures (sys_world t) = [] \<longrightarrow> disk (sys_world t) = D))
     (\<lambda>e t. \<not> is_policy_error e \<and> publishing env D rendered (sys_world t)) s"
proof -
  let ?ps = "rev (nw_previous (sys_world s))"
  let ?I = "\<lambda>ys (t :: nft_world sys). publishing env D rendered (sys_world t)
     \<and> nw_previous (sys_world t) = nw_previous (sys_world s)
        \<and> nw_live_attempted (sys_world t) = nw_live_attempted (sys_world s)
     \<and> (nw_failures (sys_world t) = [] \<longrightarrow> (\<forall>st \<in> set ys. disk (sys_world t) (p_path st) = D (p_path st)))"
  have "wpF (forF rollback_path ?ps) (\<lambda>_. ?I ?ps) (\<lambda>e t. \<not> is_policy_error e \<and> publishing env D rendered (sys_world t)) s"
  proof (rule wpF_for [where I = ?I])
    fix ys st zs and t :: "nft_world sys"
    assume e: "?ps = ys @ st # zs" and I: "?I ys t"
    have "st \<in> set (nw_previous (sys_world t))" using I e by (metis in_set_conv_decomp set_rev)
    from wpF_mono [OF rollback_path_wp [OF conjunct1 [OF I] this]] I
    show "wpF (rollback_path st) (\<lambda>_. ?I (ys @ [st])) (\<lambda>e t. \<not> is_policy_error e \<and> publishing env D rendered (sys_world t)) t"
      by auto
  qed (use assms in auto)
  then show ?thesis
  proof (rule wpF_mono)
    fix x :: unit and t :: "nft_world sys"
    assume I: "?I ?ps t"
    have "disk (sys_world t) p = D p" if "nw_failures (sys_world t) = []" for p
    proof (cases "p \<in> fst ` set rendered")
      case True
      then have "p \<in> p_path ` set (nw_previous (sys_world s))"
        using assms by (metis image_set publishing_def recoverable_def)
      then show ?thesis using I that by auto
    qed (use I in \<open>auto simp: publishing_def recoverable_def indexed_def\<close>)
    then show "publishing env D rendered (sys_world t) \<and> nw_live_attempted (sys_world t) = nw_live_attempted (sys_world s)
        \<and> (nw_failures (sys_world t) = [] \<longrightarrow> disk (sys_world t) = D)"
      using I by auto
  qed
qed

lemma rollback_live_wp:
  fixes s :: "nft_world sys"
  assumes "publishing env D rendered (sys_world s)"
    and "nw_failures (sys_world s) = [] \<longrightarrow> disk (sys_world s) = D"
  shows "wpF (rollback_live env)
     (\<lambda>_ t. publishing env D rendered (sys_world t) \<and> (nw_failures (sys_world t) = [] \<longrightarrow> disk (sys_world t) = D))
     (\<lambda>e t. rolled_back env D rendered e (sys_world t)) s"
proof (cases "nw_live_attempted (sys_world s)")
  case True
  have kept: "publishing env D rendered (sys_world t) \<and> (nw_failures (sys_world t) = [] \<longrightarrow> disk (sys_world t) = D)"
    if "same (sys_world t) (sys_world s)" for t :: "nft_world sys"
    using assms that publishing_same [OF assms(1) that] by (auto simp: same_def locals_of_def disk_def)
  show ?thesis unfolding rollback_live_def add_failure_def wp if_P [OF True]
    by (rule wpF_mono [OF run_checked_same])
      (auto dest: kept intro: rolled_back_publishing)
qed (use assms in \<open>simp add: rollback_live_def wp\<close>)

lemma rollback_wp:
  fixes s :: "nft_world sys"
  assumes "preparing D (map fst rendered) (sys_world s) \<or> publishing env D rendered (sys_world s)"
  shows "wpF (rollback env e) (\<lambda>_ t. False) (\<lambda>e' t. rolled_back env D rendered e' (sys_world t)) s"
proof -
  let ?E = "\<lambda>e' (t :: nft_world sys). rolled_back env D rendered e' (sys_world t)"
  have result: "wpF (rollback_result env e) (\<lambda>_ t. False) ?E t"
    if "publishing env D rendered (sys_world t) \<and> (nw_failures (sys_world t) = [] \<longrightarrow> disk (sys_world t) = D)"
    for t :: "nft_world sys"
    using that by (auto simp: rollback_result_def wp rolled_back_def publishing_def recoverable_def indexed_def)
  from assms show ?thesis
  proof
    assume p: "publishing env D rendered (sys_world s)"
    let ?s = "upd (\<lambda>w. w\<lparr>nw_failures := []\<rparr>) s"
    have "publishing env D rendered (sys_world ?s)" using p by simp
    from rollback_loop_wp [OF this] show ?thesis unfolding rollback_def wp
      by (rule wpF_mono)
        (elim conjE, rule wpF_mono [OF rollback_live_wp], assumption+, rule result, assumption+,
         blast intro: rolled_back_publishing)
  next
    assume p: "preparing D (map fst rendered) (sys_world s)"
    have none: "wpF (forF rollback_path ps) (\<lambda>_ t. sys_world t = w) (\<lambda>e t. False) t"
      if "sys_world t = w" "nw_attempted w = []" for ps w and t :: "nft_world sys"
      by (rule wpF_for_inv) (use that in \<open>auto simp: rollback_path_def wp\<close>)
    show ?thesis unfolding rollback_def wp
      by (rule wpF_mono [OF none [OF refl]])
        (use p in \<open>auto simp: rollback_live_def rollback_result_def wp rolled_back_def preparing_def\<close>)
  qed
qed

text \<open>A reload that timed out is never reported as a clean rollback.\<close>

lemma rollback_timeout_wp:
  fixes s :: "nft_world sys"
  assumes "publishing env D rendered (sys_world s)" "nw_live_attempted (sys_world s)" "is_timeout e"
  shows "wpF (rollback env e) (\<lambda>_ t. False) (\<lambda>e' t. \<forall>m. e' \<noteq> PolicyError m) s"
proof -
  let ?s = "upd (\<lambda>w. w\<lparr>nw_failures := []\<rparr>) s"
  have ok: "wpF (rollback_result env e) (\<lambda>_ t. False) (\<lambda>e' t. \<forall>m. e' \<noteq> PolicyError m) t"
    if "nw_live_attempted (sys_world t)" for t :: "nft_world sys"
    using that assms(3) by (auto simp: rollback_result_def wp)
  have live: "wpF (rollback_live env) (\<lambda>_ t. nw_live_attempted (sys_world t)) (\<lambda>e' t. \<forall>m. e' \<noteq> PolicyError m) t"
    if "nw_live_attempted (sys_world t)" for t :: "nft_world sys"
    unfolding rollback_live_def add_failure_def wp using that
    by (auto intro!: wpF_mono [OF run_checked_same] simp: same_def locals_of_def)
  have "publishing env D rendered (sys_world ?s)" using assms(1) by simp
  from rollback_loop_wp [OF this] show ?thesis unfolding rollback_def wp
    by (rule wpF_mono) (use assms(2) in \<open>auto intro!: wpF_mono [OF live] intro: ok\<close>)
qed

text \<open>Putting the saved files back by hand.\<close>

definition recover_by_hand :: "prev list \<Rightarrow> nft_world \<Rightarrow> disk" where
  "recover_by_hand entries w =
     foldl (\<lambda>d st. d(p_path st :=
        if \<not> p_existed st then None
        else map_option (\<lambda>b. \<lparr>f_content = f_content b, f_mode = p_mode st, f_uid = p_uid st, f_gid = p_gid st,
               f_regular = True\<rparr>) (nw_files w (Rec (p_backup st)))))
       (disk w) entries"

lemma recoverable_restores:
  assumes "recoverable env D rendered w"
  shows "recover_by_hand (nw_previous w) w = D"
proof -
  let ?f = "\<lambda>st. if \<not> p_existed st then None
        else map_option (\<lambda>b. \<lparr>f_content = f_content b, f_mode = p_mode st, f_uid = p_uid st, f_gid = p_gid st,
               f_regular = True\<rparr>) (nw_files w (Rec (p_backup st)))"
  have f: "?f st = D (p_path st)" if "backup_ok D (nw_files w) st" for st
    using that by (cases "D (p_path st)") (auto simp: backup_ok_def split: option.splits)
  have "foldl (\<lambda>d st. d(p_path st := ?f st)) d ps p = D p"
    if "list_all (backup_ok D (nw_files w)) ps" "d p = D p \<or> p \<in> p_path ` set ps" for d ps p
    using that by (induction ps arbitrary: d) (auto simp: f)
  moreover have "disk w p = D p \<or> p \<in> p_path ` set (nw_previous w)" for p
    using assms by (metis recoverable_def image_set)
  ultimately show ?thesis using assms unfolding recover_by_hand_def
    by (intro ext) (auto simp: recoverable_def indexed_def)
qed

subsection \<open>The whole publication\<close>

definition safe_failure :: "nft_env \<Rightarrow> disk \<Rightarrow> string \<Rightarrow> (string \<times> string) list \<Rightarrow> pyexn \<Rightarrow> nft_world \<Rightarrow> bool" where
  "safe_failure env D conf rendered e w \<longleftrightarrow>
     (if is_policy_error e \<and> (\<forall>m. e \<noteq> RecoveryRequired m) then disk w = D
      else if is_policy_error e then recoverable env D rendered w
      else disk w = D \<or> disk w = published D conf rendered \<or> recoverable env D rendered w)"

lemma remove_recovery_wp:
  fixes s :: "nft_world sys"
  shows "wpF (remove_recovery env)
     (\<lambda>_ t. disk (sys_world t) = disk (sys_world s)
        \<and> (nw_retain (sys_world s) \<longrightarrow> sys_world t = sys_world s)
        \<and> (\<not> nw_retain (sys_world s) \<longrightarrow> \<not> nw_rec (sys_world t)))
     (\<lambda>e t. \<not> is_policy_error e \<and> \<not> nw_retain (sys_world s) \<and> disk (sys_world t) = disk (sys_world s)) s"
  unfolding remove_recovery_def sync_directory_def wp
  by (auto intro!: wpF_opI wpF_skipI simp: disk_def)

lemma guarded_wp:
  fixes s :: "nft_world sys"
  assumes "prepared D (map fst rendered) 0 (sys_world s)"
  shows "wpF (catchF (seqF (prepare env args c rendered) (publish env args conf rendered)) (\<lambda>_. True) (rollback env))
     (\<lambda>_ t. disk (sys_world t) = published D conf rendered \<and> nw_rec (sys_world t) \<and> \<not> nw_retain (sys_world t))
     (\<lambda>e t. rolled_back env D rendered e (sys_world t)) s"
proof -
  have killed: "rolled_back env D rendered Killed w"
    if "preparing D (map fst rendered) w \<or> publishing env D rendered w" for w
    using that by (auto simp: rolled_back_def preparing_def publishing_def)
  show ?thesis unfolding wpF_catch wpF_seq
  proof (rule wpF_mono [OF prepare_wp [OF assms]])
    fix x :: unit and t :: "nft_world sys"
    assume "ready env D (map fst rendered) (length rendered) (sys_world t)"
    from publish_wp [OF this]
    show "wpF (publish env args conf rendered)
       (\<lambda>_ t. disk (sys_world t) = published D conf rendered \<and> nw_rec (sys_world t) \<and> \<not> nw_retain (sys_world t))
       (\<lambda>e s'. if e \<noteq> Killed \<and> True
          then wpF (rollback env e)
            (\<lambda>_ t. disk (sys_world t) = published D conf rendered \<and> nw_rec (sys_world t) \<and> \<not> nw_retain (sys_world t))
            (\<lambda>e t. rolled_back env D rendered e (sys_world t)) s'
          else rolled_back env D rendered e (sys_world s')) t"
      by (rule wpF_mono) (auto intro: killed wpF_mono [OF rollback_wp])
  next
    fix e and t :: "nft_world sys"
    assume "preparing D (map fst rendered) (sys_world t)"
    then show "if e \<noteq> Killed \<and> True
          then wpF (rollback env e)
            (\<lambda>_ t. disk (sys_world t) = published D conf rendered \<and> nw_rec (sys_world t) \<and> \<not> nw_retain (sys_world t))
            (\<lambda>e t. rolled_back env D rendered e (sys_world t)) t
          else rolled_back env D rendered e (sys_world t)"
      by (auto intro: killed wpF_mono [OF rollback_wp])
  qed
qed

lemma trusted_output_wp:
  "wpF (trusted_output p) (\<lambda>_ t. t = s) (\<lambda>e t. t = s \<and> (\<forall>m. e \<noteq> RecoveryRequired m)) s"
  unfolding trusted_output_def by (rule wpF_for_inv) (auto simp: wp)

lemma map_to_target_root_error:
  "map_to_target_root path root = Inl e \<Longrightarrow> e \<noteq> RecoveryRequired m"
  by (auto simp: map_to_target_root_def split: if_splits)

lemma split_if_both: "P \<Longrightarrow> Q \<Longrightarrow> if b then P else Q"
  by simp

lemma write_generation_wp:
  fixes s :: "nft_world sys"
  defines "D \<equiv> disk (sys_world s)"
  shows "wpF (write_generation env args paths rendered)
     (\<lambda>_ t. \<exists>conf. map_of paths ''nftables_conf'' = Some conf
        \<and> disk (sys_world t) = published D conf rendered \<and> \<not> nw_rec (sys_world t))
     (\<lambda>e t. disk (sys_world t) = D \<and> (\<forall>m. e \<noteq> RecoveryRequired m) \<or> (\<exists>conf. map_of paths ''nftables_conf'' = Some conf
        \<and> safe_failure env D conf rendered e (sys_world t))) s"
  (is "wpF _ ?Q ?E s")
proof -
  have same_disk: "disk w = D" if "nw_files w = nw_files (sys_world s)" for w
    using that by (simp add: D_def disk_def)
  have trusted: "wpF (forF (\<lambda>entry. trusted_output (fst entry)) rendered) (\<lambda>_ t. t = s)
      (\<lambda>e t. t = s \<and> (\<forall>m. e \<noteq> RecoveryRequired m)) s"
    by (rule wpF_for_inv) (auto intro: wpF_mono [OF trusted_output_wp])
  have start: "wpF make_recovery (\<lambda>_ t. prepared D (map fst rendered) 0 (sys_world t)) (\<lambda>e t. disk (sys_world t) = D \<and> \<not> is_policy_error e) t"
    if "disk (sys_world t) = D" for t :: "nft_world sys"
    using that unfolding make_recovery_def wp
    by (auto intro!: wpF_opI simp: prepared_def preparing_def saved_def disk_def)
  have main: "wpF (finallyF
        (catchF
          (seqF (prepare env args c rendered) (publish env args conf rendered)) (\<lambda>_. True) (rollback env))
        (remove_recovery env)) ?Q ?E t"
    if "prepared D (map fst rendered) 0 (sys_world t)" "map_of paths ''nftables_conf'' = Some conf"
    for c conf and t :: "nft_world sys"
    unfolding wpF_finally
  proof (rule wpF_mono [OF guarded_wp [OF that(1)]])
    fix x :: unit and u :: "nft_world sys"
    assume u: "disk (sys_world u) = published D conf rendered \<and> nw_rec (sys_world u) \<and> \<not> nw_retain (sys_world u)"
    show "wpF (remove_recovery env) (\<lambda>_. ?Q x) ?E u"
      by (rule wpF_mono [OF remove_recovery_wp]) (use u that(2) in \<open>auto simp: safe_failure_def\<close>)
  next
    fix e and u :: "nft_world sys"
    assume u: "rolled_back env D rendered e (sys_world u)"
    then have direct: "?E e u" using that(2) by (auto simp: rolled_back_def safe_failure_def split: if_splits)
    have "wpF (remove_recovery env) (\<lambda>_. ?E e) ?E u"
      by (rule wpF_mono [OF remove_recovery_wp])
        (use u that(2) in \<open>auto simp: rolled_back_def safe_failure_def recoverable_def indexed_def disk_def split: if_splits\<close>)
    with direct show "if e = Killed then ?E e u else wpF (remove_recovery env) (\<lambda>_. ?E e) ?E u"
      by (rule split_if_both)
  qed
  show ?thesis
    unfolding write_generation_def wpF_seq wpF_bind wpF_assert wpF_lift
    by (auto simp: out_path_def D_def backup_root_def map_to_target_root_error
          split: sum.split option.splits if_splits
          intro!: wpF_mono [OF trusted] wpF_mono [OF trusted_output_wp] wpF_mono [OF durable_directory_frame]
            wpF_mono [OF start] wpF_mono [OF main] dest: same_disk)
qed

end
