(* ===== verification/NftPublished.thy ===== *)
theory NftPublished
  imports NftPublish NftDemo
begin

text \<open>
  The properties of publication: what each result of \<open>write_generation\<close> says about the outputs under
  every fault script, that an undisturbed publication succeeds, and the exit status of a run.
\<close>

subsection \<open>An undisturbed publication returns\<close>

definition bounded_live :: "nft_world \<Rightarrow> bool" where
  "bounded_live w = (\<forall>t. case nw_live w t of None \<Rightarrow> True | Some text \<Rightarrow> int (length text) \<le> LIMIT16M)"

lemma bounded_live_simps [simp]:
  "bounded_live (w\<lparr>nw_cmds := n\<rparr>) = bounded_live w"
  by (simp add: bounded_live_def)

definition calm_env :: "nft_env \<Rightarrow> bool" where
  "calm_env env \<longleftrightarrow>
     (\<forall>n. cr_status (e_cmd env n) = Exited 0 \<and> cr_utf8 (e_cmd env n))
     \<and> (\<forall>l. \<exists>ts. e_tables env l = Inr ts)"

definition calm :: "nft_world sys \<Rightarrow> bool" where
  "calm s \<longleftrightarrow> fault_free s \<and> bounded_live (sys_world s)"

abbreviation returnsF :: "('s, 'a) eff \<Rightarrow> ('a \<Rightarrow> 's \<Rightarrow> bool) \<Rightarrow> 's \<Rightarrow> bool" where
  "returnsF m Q s \<equiv> wpF m Q (\<lambda>e t. False) s"

lemma calm_tick [simp]: "calm (tick s) = calm s"
  by (simp add: calm_def)

lemma calm_upd: "nw_live (f (sys_world s)) = nw_live (sys_world s) \<Longrightarrow> calm (upd f s) = calm s"
  by (simp add: calm_def bounded_live_def)

lemma calm_op: "calm s \<Longrightarrow> wpF (op f) Q E s = Q () (upd f (tick s))"
  by (simp add: calm_def wpF_op_fine)

lemma calm_skip: "calm s \<Longrightarrow> wpF skip_op Q E s = Q () (upd (\<lambda>w. w) (tick s))"
  by (simp add: calm_def wpF_skip_fine)

lemma live_simps [simp]:
  "nw_live (set_file l f w) = nw_live w" "nw_live (set_tmp i g w) = nw_live w" "nw_live (map_tmp i h w) = nw_live w"
  by (simp_all add: set_file_def set_tmp_def map_tmp_def)

lemmas calm_simps = calm_op calm_skip calm_upd

lemma returns_conj:
  "returnsF m Q s \<Longrightarrow> wpF m Q' E s \<Longrightarrow> returnsF m (\<lambda>x t. Q x t \<and> Q' x t) s"
  by (auto simp: wpF_def split: prod.splits sum.splits)

lemma durable_directory_returns:
  assumes "calm s"
  shows "returnsF (durable_directory env p) (\<lambda>_. calm) s"
  unfolding durable_directory_def wp
  by (rule wpF_for_inv)
    (auto simp: assms make_directory_def sync_directory_def wp calm_simps split: option.split)

lemma atomic_write_returns:
  assumes "calm s"
  shows "returnsF (atomic_write env l c m) (\<lambda>_. calm) s"
proof -
  have "returnsF (durable_parent env l) (\<lambda>_. calm) s"
    using assms by (cases l) (simp_all add: durable_parent_def wp durable_directory_returns)
  then show ?thesis unfolding atomic_write_def wpF_seq wpF_bind
    by (rule wpF_mono)
      (auto simp: wp mkstemp_def write_tmp_def replace_tmp_def unlink_tmp_def sync_directory_def calm_simps
        split: option.split loc.split)
qed

lemma run_checked_returns:
  assumes "calm s" "calm_env env" "c \<noteq> ReloadService" "\<And>l. c \<noteq> LoadFile l"
  shows "returnsF (run_checked env c label) (\<lambda>_. calm) s"
proof -
  have "int (length (command_output c w)) \<le> LIMIT16M" if "bounded_live w" for w
    using that by (auto simp: command_output_def bounded_live_def LIMIT16M_def split: command.split option.splits)
  moreover have "command_effect env c w = nw_live w" for w
    using assms(3,4) by (auto simp: command_effect_def split: command.split)
  ultimately show ?thesis unfolding run_checked_def wp
    using assms by (simp add: calm_simps wp calm_env_def run_command_def Let_def calm_def not_less)
qed

lemma reload_returns:
  assumes "calm s" "calm_env env"
  shows "returnsF (run_checked env ReloadService label) (\<lambda>_. fault_free) s"
  unfolding run_checked_def wp
  using assms by (simp add: calm_simps wp calm_env_def command_output_def calm_def LIMIT16M_def)

definition safe_outputs :: "disk \<Rightarrow> string list \<Rightarrow> bool" where
  "safe_outputs D paths = list_all (\<lambda>p. case D p of None \<Rightarrow> True | Some f \<Rightarrow> \<not> unsafe_previous f) paths"

lemma prepare_file_returns:
  assumes "calm s" "prepared D paths i (sys_world s)" "i < length paths" "paths ! i = path" "safe_outputs D paths"
  shows "returnsF (prepare_file env rendered (i, path, content))
     (\<lambda>_ t. calm t \<and> prepared D paths (Suc i) (sys_world t)) s"
proof (rule returns_conj [OF _ prepare_file_wp [OF assms(2-4)]])
  have d: "nw_files (sys_world s) (Disk path) = D path"
    using assms(2) by (auto simp: prepared_def preparing_def disk_def)
  have safe: "\<not> unsafe_previous f" if "D path = Some f" for f
    using assms(3-5) that by (auto simp: safe_outputs_def list_all_length)
  have snoc: "calm (upd (\<lambda>w. w\<lparr>nw_previous := nw_previous w @ [st]\<rparr>) t)" if "calm t" for st and t :: "nft_world sys"
    using that by (simp add: calm_upd)
  show "returnsF (prepare_file env rendered (i, path, content)) (\<lambda>_. calm) s"
    using assms(1) safe
    by (cases "D path")
      (auto simp: prepare_file_def save_previous_def backup_file_def wp d calm_simps
        intro!: atomic_write_returns snoc split: option.split)
qed

lemma prepare_returns:
  assumes "calm s" "calm_env env" "prepared D (map fst rendered) 0 (sys_world s)"
    and "safe_outputs D (map fst rendered)"
  shows "returnsF (prepare env args c rendered)
     (\<lambda>_ t. calm t \<and> ready env D (map fst rendered) (length rendered) (sys_world t)) s"
proof (rule returns_conj [OF _ prepare_wp [OF assms(3)]])
  let ?paths = "map fst rendered"
  have "returnsF (forF (prepare_file env rendered) (enumerate 0 rendered))
      (\<lambda>_ t. calm t \<and> prepared D ?paths (length (enumerate 0 rendered)) (sys_world t)) s"
  proof (rule wpF_for [where I = "\<lambda>ys t. calm t \<and> prepared D ?paths (length ys) (sys_world t)"])
    fix ys x zs and t :: "nft_world sys"
    assume e: "enumerate 0 rendered = ys @ x # zs" and I: "calm t \<and> prepared D ?paths (length ys) (sys_world t)"
    have n: "length ys < length rendered"
      by (metis e length_append length_enumerate length_Cons less_add_Suc1 add_Suc_right)
    have "x = enumerate 0 rendered ! length ys" using e by simp
    also have "\<dots> = (length ys, rendered ! length ys)" using n by (simp add: enumerate_eq_zip)
    finally have x: "x = (length ys, fst (rendered ! length ys), snd (rendered ! length ys))" by simp
    show "returnsF (prepare_file env rendered x)
        (\<lambda>_ t. calm t \<and> prepared D ?paths (length (ys @ [x])) (sys_world t)) t"
      unfolding x using prepare_file_returns [of t D ?paths "length ys" "fst (rendered ! length ys)" env rendered
          "snd (rendered ! length ys)"] I n assms(4) by simp
  qed (use assms in simp)
  then have loop: "returnsF (forF (prepare_file env rendered) (enumerate 0 rendered)) (\<lambda>_. calm) s"
    by (rule wpF_mono) auto
  have tables: "returnsF (mapF (\<lambda>(family, name). run_checked env (ListTable family name) l) ts) (\<lambda>_. calm) t"
    if "calm t" for l ts t
    using that
  proof (induction ts arbitrary: t)
    case (Cons y ys)
    show ?case unfolding mapF.simps wp
      by (cases y) (auto intro!: wpF_mono [OF run_checked_returns [OF Cons.prems assms(2)]]
          intro: wpF_mono [OF Cons.IH])
  qed (simp add: wp)
  have snapshot: "returnsF (snapshot_live env) (\<lambda>_. calm) t" if "calm t" for t
    unfolding snapshot_live_def wp
  proof (rule wpF_mono [OF run_checked_returns [OF that assms(2)]])
    fix out and u :: "nft_world sys" assume u: "calm u"
    from assms(2) obtain listed where "e_tables env (nw_live (sys_world u)) = Inr listed"
      by (auto simp: calm_env_def)
    then show "case e_tables env (nw_live (sys_world u)) of Inl e \<Rightarrow> False
      | Inr tabs \<Rightarrow> returnsF (mapF (\<lambda>(family, name). run_checked env (ListTable family name)
            ''nft owned-table snapshot'') (filter (\<lambda>t. t \<in> set tabs) OWNED_TABLES))
          (\<lambda>texts. returnsF (atomic_write env (Rec ''live.nft'') (join [nl] (DESTROY_OWNED @ texts)) 384)
             (\<lambda>_. calm)) u"
      using u by (auto intro!: wpF_mono [OF tables] atomic_write_returns)
  qed auto
  show "returnsF (prepare env args c rendered) (\<lambda>_. calm) s"
    unfolding prepare_def wp wpF_when sync_directory_def
    by (rule wpF_mono [OF loop])
      (auto simp: calm_simps intro!: wpF_mono [OF atomic_write_returns]
        wpF_mono [OF run_checked_returns [OF _ assms(2)]] wpF_mono [OF snapshot])
qed

lemma publish_returns:
  assumes "calm s" "calm_env env"
  shows "returnsF (publish env args conf rendered) (\<lambda>_. fault_free) s"
proof -
  have loop: "returnsF (forF (publish_file env conf) rendered) (\<lambda>_. calm) t" if "calm t" for t
    by (rule wpF_for_inv)
      (use that in \<open>auto simp: publish_file_def wp calm_upd intro!: atomic_write_returns\<close>)
  have calm_free: "calm t \<Longrightarrow> fault_free t" for t
    by (simp add: calm_def)
  show ?thesis unfolding publish_def wp wpF_when
    using assms
    by (auto simp: calm_upd calm_free intro!: wpF_mono [OF loop] wpF_mono [OF run_checked_returns]
        wpF_mono [OF reload_returns])
qed

definition trusted_dirs :: "nft_world \<Rightarrow> string \<Rightarrow> bool" where
  "trusted_dirs w p = list_all (\<lambda>d. trusted_parent (parent_of p) d (nw_dirs w d)) (parents_of p)"

lemma trusted_output_returns:
  "trusted_dirs (sys_world s) p \<Longrightarrow> returnsF (trusted_output p) (\<lambda>_ t. t = s) s"
  unfolding trusted_output_def
  by (rule wpF_for_inv) (auto simp: wp trusted_dirs_def list_all_set)

lemma returns_run: "returnsF m Q s \<Longrightarrow> \<exists>x t. m s = (Inr x, t) \<and> Q x t"
  by (auto simp: wpF_def split: prod.splits sum.splits)

lemma remove_recovery_returns: "fault_free s \<Longrightarrow> returnsF (remove_recovery env) (\<lambda>_. fault_free) s"
  by (simp add: remove_recovery_def sync_directory_def wp wpF_op_fine wpF_skip_fine)

lemma write_generation_returns:
  assumes "calm s" "calm_env env" "distinct (map snd paths)"
    and "map_of paths ''nftables_conf'' = Some conf" "backup_root args = Inr root"
    and "list_all (trusted_dirs (sys_world s)) (path_join root ''recovery'' # map fst rendered)"
    and "safe_outputs (disk (sys_world s)) (map fst rendered)"
  shows "returnsF (write_generation env args paths rendered) (\<lambda>_. fault_free) s"
proof -
  let ?D = "disk (sys_world s)"
  have trusted: "returnsF (forF (\<lambda>entry. trusted_output (fst entry)) rendered) (\<lambda>_ t. t = s) s"
    by (rule wpF_for_inv) (use assms(6) in \<open>auto simp: list_all_set intro: trusted_output_returns\<close>)
  have dirs: "returnsF (durable_directory env root) (\<lambda>_ t. calm t \<and> disk (sys_world t) = ?D) s"
    by (rule wpF_mono [OF returns_conj [OF durable_directory_returns [OF assms(1)] durable_directory_frame]])
      (auto simp: disk_def)
  have start: "returnsF make_recovery (\<lambda>_ t. calm t \<and> prepared ?D (map fst rendered) 0 (sys_world t)) t"
    if "calm t \<and> disk (sys_world t) = ?D" for t
    using that unfolding make_recovery_def wp
    by (simp add: calm_simps prepared_def preparing_def saved_def disk_def)
  have main: "returnsF (finallyF (catchF (seqF (prepare env args c rendered) (publish env args conf rendered))
      (\<lambda>_. True) (rollback env)) (remove_recovery env)) (\<lambda>_. fault_free) t"
    if "calm t \<and> prepared ?D (map fst rendered) 0 (sys_world t)" for c t
  proof -
    have "returnsF (seqF (prepare env args c rendered) (publish env args conf rendered)) (\<lambda>_. fault_free) t"
      unfolding wpF_seq
      by (rule wpF_mono [OF prepare_returns]) (use that assms in \<open>auto intro: publish_returns\<close>)
    then show ?thesis unfolding wpF_finally wpF_catch
      by (rule wpF_mono) (auto intro: remove_recovery_returns)
  qed
  show ?thesis
    unfolding write_generation_def wpF_seq wpF_bind wpF_assert wpF_lift
    using assms(3-6)
    by (auto simp: out_path_def list_all_set intro!: wpF_mono [OF trusted] wpF_mono [OF trusted_output_returns]
        wpF_mono [OF dirs] wpF_mono [OF start] wpF_mono [OF main])
qed

text \<open>C8 (an undisturbed publication succeeds): when no step fails, every command exits with status 0,
  the output directories are trusted and the previous files safe, \<open>write_generation\<close> returns; the
  outputs hold the rendered texts, every other file is unchanged and no recovery directory is left.\<close>

theorem write_generation_succeeds:
  assumes "calm s" "calm_env env" "distinct (map snd paths)"
    and "map_of paths ''nftables_conf'' = Some conf" "backup_root args = Inr root"
    and "list_all (trusted_dirs (sys_world s)) (path_join root ''recovery'' # map fst rendered)"
    and "safe_outputs (disk (sys_world s)) (map fst rendered)"
  shows "\<exists>t. write_generation env args paths rendered s = (Inr (), t)
    \<and> disk (sys_world t) = published (disk (sys_world s)) conf rendered \<and> \<not> nw_rec (sys_world t)"
  using returns_run [OF returns_conj [OF write_generation_returns [OF assms] write_generation_wp]] assms(4)
  by auto

text \<open>C5 (all or nothing, or a recovery directory): whatever steps fail, wherever the process is
  interrupted or killed and whatever the commands do, publication ends with the outputs all new, all
  old, or recoverable: then the recovery directory exists, the index \<open>previous.json\<close> in it holds the
  JSON text of a list of entries, and putting back the copies these entries name gives exactly the
  previous files. A file that is not an output is never changed.\<close>

theorem publication_never_loses_files:
  assumes "write_generation env args paths rendered s = (r, t)"
  shows "(disk (sys_world t) = disk (sys_world s)
      \<or> (\<exists>conf. disk (sys_world t) = published (disk (sys_world s)) conf rendered)
      \<or> nw_rec (sys_world t)
        \<and> (\<exists>entries. nw_files (sys_world t) (Rec ''previous.json'') = Some (index_text env entries)
             \<and> recover_by_hand entries (sys_world t) = disk (sys_world s)))
    \<and> (\<forall>p. p \<notin> fst ` set rendered \<longrightarrow> disk (sys_world t) p = disk (sys_world s) p)"
proof -
  have "disk (sys_world t) = disk (sys_world s)
      \<or> (\<exists>conf. disk (sys_world t) = published (disk (sys_world s)) conf rendered)
      \<or> recoverable env (disk (sys_world s)) rendered (sys_world t)"
    using wpF_run [OF write_generation_wp [of env args paths rendered s] assms]
    by (cases r) (auto simp: safe_failure_def split: if_splits)
  then show ?thesis
  proof (elim disjE exE)
    assume "recoverable env (disk (sys_world s)) rendered (sys_world t)"
    then show ?thesis using recoverable_restores [of env "disk (sys_world s)" rendered "sys_world t"]
      by (auto simp: recoverable_def indexed_def)
  qed (auto simp: published_other)
qed

text \<open>C7 (the error tells the truth): an ordinary \<open>PolicyError\<close> means that every output is as it was;
  \<open>RecoveryRequired\<close> means that the recovery directory is there and complete for the output files: a
  copy of each previous file, and the index that says where it goes, with its owner and mode.\<close>

theorem publication_errors_truthful:
  assumes "write_generation env args paths rendered s = (Inl e, t)"
  shows "(\<exists>m. e = PolicyError m) \<and> disk (sys_world t) = disk (sys_world s)
    \<or> (\<exists>m. e = RecoveryRequired m) \<and> recoverable env (disk (sys_world s)) rendered (sys_world t)
    \<or> e \<notin> range PolicyError \<union> range RecoveryRequired"
  using wpF_run [OF write_generation_wp [of env args paths rendered s] assms]
  by (auto simp: safe_failure_def)

text \<open>A timed-out reload is never called a clean rollback: when the reload was attempted and its
  command timed out, rollback never ends in an ordinary \<open>PolicyError\<close>; unless it is interrupted
  itself, it ends in \<open>RecoveryRequired\<close> and keeps the recovery directory.\<close>

theorem reload_timeout_keeps_recovery:
  assumes "publishing env D rendered (sys_world s)" "nw_live_attempted (sys_world s)"
    and "rollback env (CommandTimeout m) s = (r, t)"
  shows "\<exists>e. r = Inl e \<and> e \<notin> range PolicyError
    \<and> (e \<in> range RecoveryRequired \<longrightarrow> recoverable env D rendered (sys_world t) \<and> nw_retain (sys_world t))"
  using wpF_run [OF rollback_timeout_wp [OF assms(1,2) , of "CommandTimeout m"] assms(3)]
    wpF_run [OF rollback_wp [OF disjI2 [OF assms(1)], of "CommandTimeout m"] assms(3)]
  by (cases r) (auto simp: rolled_back_def)

subsection \<open>The exit status of a run\<close>

lemma published_lookup:
  "distinct (map fst rendered) \<Longrightarrow> (p, c) \<in> set rendered \<Longrightarrow> published D conf rendered p = Some (new_file conf p c)"
proof (induction rendered arbitrary: D)
  case (Cons x xs)
  show ?case
  proof (cases "(p, c) = x")
    case True
    then have "p \<notin> fst ` set xs" using Cons.prems(1) by (metis distinct.simps(2) fst_conv list.set_map list.simps(9))
    then have "published (D(p \<mapsto> new_file conf p c)) conf xs p = Some (new_file conf p c)"
      by (simp add: published_other)
    then show ?thesis by (simp add: published_def True [symmetric])
  qed (use Cons in \<open>simp add: published_def\<close>)
qed simp

lemma distinct_dupdate: "distinct (map fst d) \<Longrightarrow> distinct (map fst (dupdate d e))"
  unfolding dupdate_def by (induction e arbitrary: d) (auto intro: distinct_dset)

lemma generate_distinct: "generate fs safe_load args = Inr g \<Longrightarrow> distinct (map fst (gen_rendered g))"
  by (erule generateE, erule render_allE) (auto intro!: distinct_dupdate simp del: dupdate_def)

definition outputs_published :: "generated \<Rightarrow> nft_world \<Rightarrow> bool" where
  "outputs_published g w \<longleftrightarrow>
     (\<exists>conf. map_of (gen_paths g) ''nftables_conf'' = Some conf
       \<and> list_all (\<lambda>(p, c). disk w p = Some (new_file conf p c)) (gen_rendered g))"

lemma write_generation_outputs:
  assumes "distinct (map fst (gen_rendered g))"
  shows "wpF (write_generation env args (gen_paths g) (gen_rendered g))
     (\<lambda>_ t. outputs_published g (sys_world t)) (\<lambda>_ _. True) s"
  by (rule wpF_mono [OF write_generation_wp])
    (use assms in \<open>auto simp: outputs_published_def list_all_set published_lookup\<close>)

lemma publish_generated_outputs:
  assumes "distinct (map fst (gen_rendered g))"
  shows "wpF (publish_generated env args g) (\<lambda>_ t. outputs_published g (sys_world t)) (\<lambda>_ _. True) s"
proof -
  let ?Q = "\<lambda>_ (t :: nft_world sys). outputs_published g (sys_world t)"
  have release: "wpF (op (\<lambda>w. if nw_lock_mine w then w\<lparr>nw_lock_free := True, nw_lock_mine := False\<rparr> else w))
      ?Q (\<lambda>_ _. True) t" if "?Q () t" for t
    using that by (intro wpF_opI) (auto simp: outputs_published_def disk_def)
  have body: "wpF (seqF (bindF (look nw_lock_free) (\<lambda>free. assertF free e)) (seqF (op f) (bindF b
       (\<lambda>backup. seqF (c backup) (write_generation env args (gen_paths g) (gen_rendered g))))))
       ?Q (\<lambda>_ _. True) t" for e f t and b :: "bool nft_io" and c :: "bool \<Rightarrow> unit nft_io"
    unfolding wp
    by (auto intro!: wpF_mono [OF wpF_any] wpF_mono [OF write_generation_outputs [OF assms]])
  have lock: "wpF (finallyF (seqF (assertF ok e) m) (op (\<lambda>w. if nw_lock_mine w
        then w\<lparr>nw_lock_free := True, nw_lock_mine := False\<rparr> else w))) ?Q (\<lambda>_ _. True) t"
    if "\<And>u. wpF m ?Q (\<lambda>_ _. True) u" for ok e t and m :: "unit nft_io"
    unfolding wpF_finally wpF_seq wpF_assert
    by (auto simp: wpF_any intro!: wpF_mono [OF that] release)
  show ?thesis
    unfolding publish_generated_def generation_lock_def wpF_bind wpF_lift wpF_seq
    by (auto split: sum.split intro!: wpF_mono [OF wpF_any] lock body)
qed

lemma exit_status_nonzero: "exit_status e = Some c \<Longrightarrow> c \<noteq> 0"
  by (cases e) auto

text \<open>C6 (exit status 0): a run with \<open>--write\<close> that ends with status 0 has generated its texts, and every
  output file holds its text with a final newline, owned by root and not writable by others.\<close>

theorem exit_zero_published:
  assumes "run_main env fs safe_load args s = (Inr 0, t)" "arg_write args"
  shows "\<exists>g. generate fs safe_load args = Inr g \<and> outputs_published g (sys_world t)"
proof -
  have "wpF (run_main env fs safe_load args)
     (\<lambda>c t. c = 0 \<longrightarrow> (\<exists>g. generate fs safe_load args = Inr g \<and> outputs_published g (sys_world t)))
     (\<lambda>_ _. True) s"
    unfolding run_main_def wpF_catch wpF_bind wpF_lift
  proof (cases "generate fs safe_load args")
    case (Inr g)
    show "case generate fs safe_load args of Inl e \<Rightarrow> if e \<noteq> Killed \<and> exit_status e \<noteq> None
        then wpF (retF (the (exit_status e))) (\<lambda>c t. c = 0 \<longrightarrow> (\<exists>g. generate fs safe_load args = Inr g
            \<and> outputs_published g (sys_world t))) (\<lambda>_ _. True) s else True
      | Inr g \<Rightarrow> wpF (seqF (if arg_write args then publish_generated env args g else retF ()) (retF 0))
          (\<lambda>c t. c = 0 \<longrightarrow> (\<exists>g. generate fs safe_load args = Inr g \<and> outputs_published g (sys_world t)))
          (\<lambda>e s'. if e \<noteq> Killed \<and> exit_status e \<noteq> None
             then wpF (retF (the (exit_status e))) (\<lambda>c t. c = 0 \<longrightarrow> (\<exists>g. generate fs safe_load args = Inr g
               \<and> outputs_published g (sys_world t))) (\<lambda>_ _. True) s' else True) s"
      using Inr assms(2) generate_distinct [OF Inr]
      by (auto simp: wp dest: exit_status_nonzero intro!: wpF_mono [OF publish_generated_outputs])
  qed (auto simp: wp dest: exit_status_nonzero)
  from wpF_run [OF this assms(1)] show ?thesis by simp
qed

subsection \<open>Instances\<close>

text \<open>
  A host whose directories are owned by root, with an earlier \<open>nftables.conf\<close>, where every command
  succeeds unless the environment says otherwise.
\<close>

definition pub_env :: "status \<Rightarrow> nft_env" where
  "pub_env reload =
     \<lparr>e_cmd = (\<lambda>n. \<lparr>cr_status = (if n = 3 then reload else Exited 0), cr_applied = True, cr_utf8 = True\<rparr>),
      e_reload = (\<lambda>files live. live), e_load = (\<lambda>text live. live), e_tables = (\<lambda>live. Inr []),
      e_dumps = (\<lambda>ps. ''[]''), e_recovery = ''/var/backups/nftables/.nft-policy-recovery.x'',
      e_stamp = ''20260101T000000Z'', e_lock_ok = True, e_mkdir_mode = 493\<rparr>"

definition pub_args :: cli_args where
  "pub_args = demo_args\<lparr>arg_write := True, arg_check := True, arg_reload := True\<rparr>"

definition old_conf :: finfo where
  "old_conf = \<lparr>f_content = ''flush'', f_mode = 493, f_uid = 0, f_gid = 0, f_regular = True\<rparr>"

definition pub_world :: nft_world where
  "pub_world =
     \<lparr>nw_files = [Disk ''/etc/nftables.conf'' \<mapsto> old_conf], nw_tmps = (\<lambda>i. None), nw_next = 0,
      nw_dirs = (\<lambda>d. Some \<lparr>d_isdir = True, d_uid = 0, d_mode = 493\<rparr>), nw_rec = False, nw_live = (\<lambda>t. None),
      nw_cmds = 0, nw_lock_free = True, nw_lock_mine = False, nw_previous = [], nw_attempted = [],
      nw_live_attempted = False, nw_retain = False, nw_failures = []\<rparr>"

definition pub_sys :: "(nat \<Rightarrow> fault) \<Rightarrow> nft_world sys" where
  "pub_sys script = \<lparr>sys_step = 0, sys_script = script, sys_world = pub_world\<rparr>"

definition pub_paths :: out_paths where
  "pub_paths = [(''nftables_conf'', ''/etc/nftables.conf''), (''defines'', ''/etc/d'')]"

definition pub_rendered :: "(string \<times> string) list" where
  "pub_rendered = [(''/etc/nftables.conf'', ''include d''), (''/etc/d'', ''define x'')]"

lemma pub_calm: "calm (pub_sys (\<lambda>n. Fine))"
  by (simp add: calm_def fault_free_def pub_sys_def pub_world_def bounded_live_def)

lemma pub_calm_env: "calm_env (pub_env (Exited 0))"
  by (simp add: calm_env_def pub_env_def)

lemma pub_trusted: "nw_dirs w = nw_dirs pub_world \<Longrightarrow> trusted_dirs w p"
  by (simp add: trusted_dirs_def pub_world_def trusted_parent_def list_all_set)

lemma backup_root_default:
  "arg_backup_dir args = ''/var/backups/nftables'' \<Longrightarrow> arg_resolved_root args = ''/'' \<Longrightarrow>
   backup_root args = Inr ''/var/backups/nftables''"
proof -
  have "backup_root demo_args = Inr ''/var/backups/nftables''" by code_simp
  moreover have "arg_backup_dir demo_args = ''/var/backups/nftables''" "arg_resolved_root demo_args = ''/''"
    by (simp_all add: demo_args_def)
  ultimately show "arg_backup_dir args = ''/var/backups/nftables'' \<Longrightarrow> arg_resolved_root args = ''/'' \<Longrightarrow>
      backup_root args = Inr ''/var/backups/nftables''"
    by (simp add: backup_root_def cong: if_cong)
qed

theorem write_generation_succeeds_witness:
  "\<exists>t. write_generation (pub_env (Exited 0)) pub_args pub_paths pub_rendered (pub_sys (\<lambda>n. Fine)) = (Inr (), t)
    \<and> disk (sys_world t) = published (disk pub_world) ''/etc/nftables.conf'' pub_rendered \<and> \<not> nw_rec (sys_world t)"
proof -
  have "safe_outputs (disk pub_world) (map fst pub_rendered)"
    by (simp add: safe_outputs_def pub_rendered_def disk_def pub_world_def unsafe_previous_def old_conf_def
        LIMIT16M_def)
  then show ?thesis
    using write_generation_succeeds [OF pub_calm pub_calm_env, of pub_paths "''/etc/nftables.conf''" pub_args
        "''/var/backups/nftables''" pub_rendered]
    by (simp add: pub_sys_def pub_paths_def pub_trusted list_all_set backup_root_default pub_args_def demo_args_def)
qed

theorem publication_never_loses_files_witness:
  "\<exists>r t. write_generation (pub_env (Exited 0)) pub_args pub_paths pub_rendered
        (pub_sys (\<lambda>n. if n = 60 then Before ProcessKilled else Fine)) = (r, t)
    \<and> (disk (sys_world t) = disk pub_world
      \<or> (\<exists>conf. disk (sys_world t) = published (disk pub_world) conf pub_rendered)
      \<or> nw_rec (sys_world t)
        \<and> (\<exists>entries. nw_files (sys_world t) (Rec ''previous.json'') = Some (index_text (pub_env (Exited 0)) entries)
             \<and> recover_by_hand entries (sys_world t) = disk pub_world))"
proof -
  let ?s = "pub_sys (\<lambda>n. if n = 60 then Before ProcessKilled else Fine)"
  have w: "sys_world ?s = pub_world" by (simp add: pub_sys_def)
  obtain r t where e: "write_generation (pub_env (Exited 0)) pub_args pub_paths pub_rendered ?s = (r, t)"
    by fastforce
  from publication_never_loses_files [OF e] e show ?thesis unfolding w by blast
qed

lemma pub_failed_reload:
  "case write_generation (pub_env (Exited 1)) pub_args pub_paths pub_rendered (pub_sys (\<lambda>n. Fine)) of
     (Inl (PolicyError m), t) \<Rightarrow> True | _ \<Rightarrow> False"
  by code_simp

theorem publication_errors_truthful_witness:
  "\<exists>m t. write_generation (pub_env (Exited 1)) pub_args pub_paths pub_rendered (pub_sys (\<lambda>n. Fine))
      = (Inl (PolicyError m), t) \<and> disk (sys_world t) = disk pub_world"
proof -
  obtain m t where e: "write_generation (pub_env (Exited 1)) pub_args pub_paths pub_rendered (pub_sys (\<lambda>n. Fine))
      = (Inl (PolicyError m), t)"
    using pub_failed_reload by (auto split: prod.splits sum.splits pyexn.splits)
  from publication_errors_truthful [OF e] show ?thesis using e by (auto simp: pub_sys_def)
qed

definition pub_midway :: nft_world where
  "pub_midway = pub_world\<lparr>nw_rec := True, nw_retain := True, nw_live_attempted := True,
     nw_files := (nw_files pub_world)(Rec ''previous.json'' \<mapsto> index_text (pub_env TimedOut) [])\<rparr>"

theorem reload_timeout_keeps_recovery_witness:
  "\<exists>e t. rollback (pub_env TimedOut) (CommandTimeout ''reload'')
        (pub_sys (\<lambda>n. Fine)\<lparr>sys_world := pub_midway\<rparr>) = (Inl e, t) \<and> e \<notin> range PolicyError"
proof -
  let ?s = "pub_sys (\<lambda>n. Fine)\<lparr>sys_world := pub_midway\<rparr>"
  have p: "publishing (pub_env TimedOut) (disk pub_midway) [] (sys_world ?s)"
    by (simp add: publishing_def recoverable_def indexed_def pub_midway_def pub_world_def)
  have l: "nw_live_attempted (sys_world ?s)" by (simp add: pub_midway_def)
  obtain r t where e: "rollback (pub_env TimedOut) (CommandTimeout ''reload'') ?s = (r, t)" by fastforce
  from reload_timeout_keeps_recovery [OF p l e] show ?thesis using e by auto
qed

lemma demo_paths:
  "gen_paths demo_generated =
     [(''nftables_conf'', ''/etc/nftables.conf''), (''defines'', ''/etc/d''), (''base'', ''/etc/b''),
      (''filter'', ''/etc/f''), (''nat'', ''/etc/n''), (''local'', ''/etc/l'')]"
proof -
  have "output_paths demo_policy ''/'' = Inr
     [(''nftables_conf'', ''/etc/nftables.conf''), (''defines'', ''/etc/d''), (''base'', ''/etc/b''),
      (''filter'', ''/etc/f''), (''nat'', ''/etc/n''), (''local'', ''/etc/l'')]"
    by code_simp
  then show ?thesis using demo_generate by (auto simp: demo_gen_policy demo_args_def elim!: generateE)
qed

lemma pub_generate: "generate demo_fs demo_yaml pub_args = Inr demo_generated"
proof -
  have "generate demo_fs demo_yaml pub_args = generate demo_fs demo_yaml demo_args"
    by (simp add: generate_def check_mode_flags_def pub_args_def demo_args_def)
  then show ?thesis by (simp add: demo_generate)
qed

lemma pub_no_backup: "as_bool (dget ''backup_before_apply'' (gen_safety demo_generated)) False = Inr False"
proof -
  have "as_dict (dget ''safety'' demo_policy) ''safety'' = Inr []"
    by (simp add: demo_policy_def dget_def as_dict_def)
  then have "gen_safety demo_generated = []"
    using demo_generate demo_gen_policy by (auto elim!: generateE)
  then show ?thesis by (simp add: dget_def as_bool_def)
qed

lemma pub_write_returns:
  assumes "calm u" "nw_dirs (sys_world u) = nw_dirs pub_world" "nw_files (sys_world u) = nw_files pub_world"
  shows "returnsF (write_generation (pub_env (Exited 0)) pub_args (gen_paths demo_generated)
     (gen_rendered demo_generated)) (\<lambda>_. fault_free) u"
proof -
  have safe: "safe_outputs (disk (sys_world u)) ps" for ps
    using assms(3) by (auto simp: safe_outputs_def disk_def pub_world_def unsafe_previous_def old_conf_def
        LIMIT16M_def list_all_set)
  show ?thesis
    by (rule write_generation_returns [OF assms(1) pub_calm_env, where conf = "''/etc/nftables.conf''"
          and root = "''/var/backups/nftables''"])
      (auto simp: demo_paths pub_trusted assms(2) list_all_set backup_root_default pub_args_def demo_args_def safe)
qed

lemma pub_lock_returns:
  assumes s: "fault_free s" "sys_world s = pub_world"
    and body: "\<And>u. calm u \<Longrightarrow> nw_dirs (sys_world u) = nw_dirs pub_world \<Longrightarrow>
      nw_files (sys_world u) = nw_files pub_world \<Longrightarrow> returnsF body (\<lambda>_. fault_free) u"
  shows "returnsF (generation_lock (pub_env (Exited 0)) pub_args body) (\<lambda>_. fault_free) s"
proof -
  have lock: "map_to_target_root LOCK_PATH (arg_resolved_root pub_args) = Inr LOCK_PATH" by code_simp
  have none: "missing_dirs pub_world d = []" for d
    by (simp add: missing_dirs_def pub_world_def)
  have world: "nw_lock_free pub_world" "bounded_live pub_world" and env: "e_lock_ok (pub_env (Exited 0))"
    by (simp_all add: pub_world_def pub_env_def bounded_live_def)
  have "returnsF body (\<lambda>_. fault_free) u"
    if "fault_free u" "sys_world u = pub_world\<lparr>nw_lock_free := False, nw_lock_mine := True\<rparr>" for u
    by (rule body) (use that world in \<open>auto simp: calm_def bounded_live_def\<close>)
  note inner = this
  show ?thesis
    unfolding generation_lock_def make_parents_def wp lock
    using s world env by (auto simp: wpF_op_fine wpF_skip_fine none wp intro!: wpF_mono [OF inner])
qed

lemma pub_run_returns: "returnsF (run_main (pub_env (Exited 0)) demo_fs demo_yaml pub_args) (\<lambda>c t. c = 0) (pub_sys (\<lambda>n. Fine))"
proof -
  have args: "arg_write pub_args" "\<not> arg_backup pub_args" by (simp_all add: pub_args_def demo_args_def)
  have start: "fault_free (pub_sys (\<lambda>n. Fine))" "sys_world (pub_sys (\<lambda>n. Fine)) = pub_world"
    by (simp_all add: fault_free_def pub_sys_def)
  have "returnsF (publish_generated (pub_env (Exited 0)) pub_args demo_generated) (\<lambda>_. fault_free)
      (pub_sys (\<lambda>n. Fine))"
    unfolding publish_generated_def
    by (rule pub_lock_returns [OF start]) (simp add: wp args pub_no_backup pub_write_returns)
  then have "returnsF (publish_generated (pub_env (Exited 0)) pub_args demo_generated) (\<lambda>_ _. True)
      (pub_sys (\<lambda>n. Fine))" by (rule wpF_mono) auto
  then show ?thesis
    unfolding run_main_def wp pub_generate using args by (auto simp: wp elim!: wpF_mono)
qed

theorem exit_zero_published_witness:
  "\<exists>t. run_main (pub_env (Exited 0)) demo_fs demo_yaml pub_args (pub_sys (\<lambda>n. Fine)) = (Inr 0, t)
    \<and> outputs_published demo_generated (sys_world t)"
proof -
  from returns_run [OF pub_run_returns] obtain t where
    t: "run_main (pub_env (Exited 0)) demo_fs demo_yaml pub_args (pub_sys (\<lambda>n. Fine)) = (Inr 0, t)" by auto
  have "arg_write pub_args" by (simp add: pub_args_def)
  with exit_zero_published [OF t] t show ?thesis by (auto simp: pub_generate)
qed

end
