(* ===== verification/HwCommon.thy ===== *)
theory HwCommon
  imports NftWrite
begin

text \<open>
  \<open>hardware_tuning/common.py\<close>: the profiles, bounded integers and scalar texts, the policy file of a
  vendor, and \<open>Knob\<close>: one hardware control with its bounds, symbols and permissions. \<open>resolve\<close> turns
  a configured text into the value that is written. A parsed JSON document is a \<open>pyval\<close>; the parser
  itself is a parameter. \<open>validate_policy\<close> returns the checked document as a record, so later code
  reads typed fields where the source indexes the dictionary.
\<close>

definition PROFILES :: "string list" where
  "PROFILES = [''performance'', ''high'', ''balanced'', ''silent'']"

definition VENDORS :: "string list" where
  "VENDORS = [''intel'', ''nvidia'']"

definition RANK :: "string \<Rightarrow> int" where
  "RANK name = int (length PROFILES) - int (index_of name PROFILES)"

definition MAX_JSON :: int where
  "MAX_JSON = 4 * 1024 * 1024"

text \<open>\<open>x in value\<close> for a text \<open>x\<close>.\<close>

definition py_in :: "string \<Rightarrow> pyval \<Rightarrow> bool res" where
  "py_in x v = (case v of
      PList xs \<Rightarrow> Inr (PStr x \<in> set xs)
    | PDict d \<Rightarrow> Inr (dmem x d)
    | PStr s \<Rightarrow> Inr (contains x s)
    | _ \<Rightarrow> Inl TypeErr)"

definition power_profiles_api :: "pydict \<Rightarrow> bool res" where
  "power_profiles_api config =
     (let err = TuningError ''invalid custom Power Profiles provider configuration'' in
      case dget_or ''power_profiles_api'' (PBool False) config of
        PBool b \<Rightarrow>
          if b then bindE (py_in ''intel'' (dget_or ''vendors'' (PList []) config))
                      (\<lambda>found. if found then Inr True else Inl err)
          else Inr False
      | _ \<Rightarrow> Inl err)"

definition strict_object :: "(string \<times> pyval) list \<Rightarrow> pydict res" where
  "strict_object pairs =
     foldE (\<lambda>result (key, v).
       if key \<in> fst ` set result then Inl (TuningError (''duplicate JSON key: '' @ key))
       else Inr (dset key v result)) [] pairs"

record jfile =
  jf_regular :: bool
  jf_uid :: int
  jf_mode :: int
  jf_size :: int
  jf_doc :: "pyval res"

definition trusted_dir :: "dinfo \<Rightarrow> bool" where
  "trusted_dir i = (d_isdir i \<and> d_uid i = 0 \<and> d_mode i AND 18 = 0)"

definition trusted_json :: "(string \<Rightarrow> dinfo option) \<Rightarrow> (string \<Rightarrow> jfile option) \<Rightarrow> string \<Rightarrow> int \<Rightarrow> pyval res" where
  "trusted_json dirs files path maximum =
     bindE (mapE (\<lambda>d. case dirs d of
               None \<Rightarrow> Inl (OSErr d)
             | Some i \<Rightarrow> guardE (trusted_dir i) (TuningError (''untrusted directory: '' @ d)))
             (butlast (parents_of path))) (\<lambda>_.
      case files path of
        None \<Rightarrow> Inl (OSErr path)
      | Some f \<Rightarrow>
          if \<not> jf_regular f \<or> jf_uid f \<noteq> 0 \<or> jf_mode f AND 18 \<noteq> 0 \<or> maximum < jf_size f
          then Inl (TuningError (''untrusted configuration/state: '' @ path))
          else jf_doc f)"

subsection \<open>Bounded values\<close>

text \<open>The pattern \<open>-?(?:0|[1-9][0-9]{0,15})\<close>.\<close>

definition unsigned_text :: "string \<Rightarrow> bool" where
  "unsigned_text s = (s = ''0''
     \<or> s \<noteq> [] \<and> hd s \<noteq> CHR ''0'' \<and> list_all is_digit s \<and> length s \<le> 16)"

definition integer_text :: "string \<Rightarrow> int option" where
  "integer_text s =
     (case s of
        [] \<Rightarrow> None
      | c # cs \<Rightarrow>
          if c = CHR ''-'' then (if unsigned_text cs then Some (- digits_val cs) else None)
          else if unsigned_text s then Some (digits_val s) else None)"

definition integer :: "pyval \<Rightarrow> int \<Rightarrow> int \<Rightarrow> int res" where
  "integer v low high =
     bindE (case v of
         PInt i \<Rightarrow> Inr i
       | PStr s \<Rightarrow> (case integer_text s of
             Some i \<Rightarrow> Inr i
           | None \<Rightarrow> Inl (TuningError (''expected an integer, got '' @ py_repr v)))
       | _ \<Rightarrow> Inl (TuningError (''expected an integer, got '' @ py_repr v))) (\<lambda>result.
     if low \<le> result \<and> result \<le> high then Inr result
     else Inl (TuningError (int_str result @ '' is outside ['' @ int_str low @ '', '' @ int_str high @ '']'')))"

definition value_char :: "char \<Rightarrow> bool" where
  "value_char c = (is_alnum c \<or> c \<in> set ''_,.-'')"

definition safe_value :: "pyval \<Rightarrow> string res" where
  "safe_value v =
     (let err = TuningError ''tuning values must be bounded scalar strings'' in
      case v of
        PStr s \<Rightarrow> if s \<noteq> [] \<and> length s \<le> 100 \<and> list_all value_char s then Inr s else Inl err
      | _ \<Rightarrow> Inl err)"

subsection \<open>The policy of a vendor\<close>

record profile =
  pr_knobs :: "(string \<times> string) list"
  pr_overrides :: "(string \<times> string) list"

record policy =
  pol_overclock :: bool
  pol_power :: bool
  pol_exclusive :: bool
  pol_max_temp :: int
  pol_verified_ok :: bool
  pol_verified :: "(string \<times> int \<times> int) list"
  pol_profiles :: "(string \<times> profile) list"

type_synonym settings = "(string \<times> string list) list"

definition POLICY_FIELDS :: "string list" where
  "POLICY_FIELDS = [''version'', ''allow_overclock'', ''allow_power_increase'', ''exclusive_clock_control'',
     ''max_temperature_c'', ''profiles'']"

definition POLICY_OPTIONAL :: "string list" where
  "POLICY_OPTIONAL = [''allow_verified_bounds'', ''verified_bounds'']"

definition keys_eq :: "(string \<times> 'a) list \<Rightarrow> string list \<Rightarrow> bool" where
  "keys_eq d ks = (set (map fst d) = set ks)"

text \<open>The pattern \<open>RAPL_PL[124]_(?:POWER_UW|WINDOW_US)\<close>.\<close>

definition verified_setting :: "string \<Rightarrow> bool" where
  "verified_setting k = (k \<in> set (map (\<lambda>(c, t). ''RAPL_PL'' @ c @ t)
     (List.product [''1'', ''2'', ''4''] [''_POWER_UW'', ''_WINDOW_US''])))"

definition INTEL_EPP :: "string list" where
  "INTEL_EPP = [''keep'', ''default'', ''performance'', ''balance_performance'', ''balance_power'', ''power'',
     ''balanced'']"

definition bool_field :: "string \<Rightarrow> pydict \<Rightarrow> string \<Rightarrow> bool res" where
  "bool_field k d msg = (case dget k d of PBool b \<Rightarrow> Inr b | _ \<Rightarrow> Inl (TuningError msg))"

definition verified_bound :: "string \<times> pyval \<Rightarrow> (string \<times> int \<times> int) res" where
  "verified_bound entry =
     (let err = TuningError ''verified RAPL bounds require integer minimum and maximum'' in
      case snd entry of
        PDict d \<Rightarrow>
          if \<not> keys_eq d [''minimum'', ''maximum''] then Inl err
          else (case (dget ''minimum'' d, dget ''maximum'' d) of
              (PInt lo, PInt hi) \<Rightarrow>
                bindE (integer (PInt lo) 1 (2 ^ 63 - 1)) (\<lambda>low.
                bindE (integer (PInt hi) 1 (2 ^ 63 - 1)) (\<lambda>high.
                if high < low then Inl (TuningError ''inverted verified RAPL bounds'')
                else Inr (fst entry, low, high)))
            | _ \<Rightarrow> Inl err)
      | _ \<Rightarrow> Inl err)"

definition validate_override :: "string \<times> pyval \<Rightarrow> (string \<times> string) res" where
  "validate_override entry =
     (if 512 < length (fst entry) \<or> contains ''..'' (fst entry)
      then Inl (TuningError ''invalid hardware identifier'')
      else bindE (safe_value (snd entry)) (\<lambda>v. Inr (fst entry, v)))"

definition check_epp :: "string \<Rightarrow> (string \<times> string) list \<Rightarrow> unit res" where
  "check_epp profile_name knobs =
     (case map_of knobs ''CPU_EPP'' of
        None \<Rightarrow> Inr ()
      | Some epp \<Rightarrow>
          if epp \<notin> set INTEL_EPP then Inl (TuningError ''invalid configured Intel EPP'')
          else guardE (epp = ''balanced'' \<longrightarrow> profile_name = ''balanced'')
                 (TuningError ''the balanced EPP selector is restricted to the Balanced profile''))"

definition validate_profile :: "settings \<Rightarrow> string \<times> pyval \<Rightarrow> (string \<times> profile) res" where
  "validate_profile settings entry =
     (let err = TuningError ''a profile must contain knobs and overrides'' in
      case snd entry of
        PDict d \<Rightarrow>
          if \<not> keys_eq d [''knobs'', ''overrides''] then Inl err
          else
            bindE (case dget ''knobs'' d of
                PDict ks \<Rightarrow> if keys_eq ks (map fst settings) then Inr ks
                           else Inl (TuningError ''missing or unknown tuning knob'')
              | _ \<Rightarrow> Inl (TuningError ''missing or unknown tuning knob'')) (\<lambda>ks.
            bindE (case dget ''overrides'' d of
                PDict os \<Rightarrow> if length os \<le> 4096 then Inr os
                           else Inl (TuningError ''invalid per-device overrides'')
              | _ \<Rightarrow> Inl (TuningError ''invalid per-device overrides'')) (\<lambda>os.
            bindE (mapE validate_override os) (\<lambda>overrides.
            bindE (mapE (\<lambda>kv. bindE (safe_value (snd kv)) (\<lambda>v. Inr (fst kv, v))) ks) (\<lambda>knobs.
            bindE (if ''CPU_EPP'' \<in> set (map fst settings) then check_epp (fst entry) knobs else Inr ()) (\<lambda>_.
            Inr (fst entry, \<lparr>pr_knobs = knobs, pr_overrides = overrides\<rparr>))))))
      | _ \<Rightarrow> Inl err)"

definition validate_policy :: "pyval \<Rightarrow> settings \<Rightarrow> policy res" where
  "validate_policy data settings =
     (case data of
        PDict d \<Rightarrow>
          if \<not> set POLICY_FIELDS \<subseteq> set (map fst d)
             \<or> \<not> set (map fst d) \<subseteq> set POLICY_FIELDS \<union> set POLICY_OPTIONAL
             \<or> dget ''version'' d \<noteq> PInt 1
          then Inl (TuningError ''invalid vendor configuration schema'')
          else
            bindE (case dget_or ''allow_verified_bounds'' (PBool False) d of
                PBool b \<Rightarrow> Inr b
              | _ \<Rightarrow> Inl (TuningError ''allow_verified_bounds must be a JSON boolean'')) (\<lambda>allow_verified.
            bindE (case dget_or ''verified_bounds'' (PDict []) d of
                PDict vs \<Rightarrow>
                  if list_all (\<lambda>kv. fst kv \<in> set (map fst settings) \<and> verified_setting (fst kv)) vs then Inr vs
                  else Inl (TuningError ''verified bounds are only supported for named package RAPL constraints'')
              | _ \<Rightarrow> Inl (TuningError ''verified bounds are only supported for named package RAPL constraints''))
              (\<lambda>vs.
            bindE (guardE (vs = [] \<or> allow_verified)
                (TuningError ''verified bounds require an explicit allow_verified_bounds=true acknowledgement'')) (\<lambda>_.
            bindE (mapE verified_bound vs) (\<lambda>verified.
            bindE (bool_field ''allow_overclock'' d ''allow_overclock must be a JSON boolean'') (\<lambda>overclock.
            bindE (bool_field ''allow_power_increase'' d ''allow_power_increase must be a JSON boolean'') (\<lambda>power.
            bindE (bool_field ''exclusive_clock_control'' d ''exclusive_clock_control must be a JSON boolean'')
              (\<lambda>exclusive.
            bindE (case dget ''max_temperature_c'' d of
                PInt t \<Rightarrow> integer (PInt t) 50 99
              | _ \<Rightarrow> Inl (TuningError ''max_temperature_c must be a JSON integer'')) (\<lambda>temp.
            bindE (case dget ''profiles'' d of
                PDict ps \<Rightarrow> if keys_eq ps PROFILES then Inr ps
                           else Inl (TuningError ''all four profiles must be specified'')
              | _ \<Rightarrow> Inl (TuningError ''all four profiles must be specified'')) (\<lambda>ps.
            bindE (mapE (validate_profile settings) ps) (\<lambda>profiles.
            Inr \<lparr>pol_overclock = overclock, pol_power = power, pol_exclusive = exclusive, pol_max_temp = temp,
                 pol_verified_ok = allow_verified, pol_verified = verified, pol_profiles = profiles\<rparr>))))))))))
      | _ \<Rightarrow> Inl (TuningError ''invalid vendor configuration schema''))"

subsection \<open>Knobs\<close>

text \<open>
  The functions of a knob that reach the hardware (\<open>read\<close>, \<open>write\<close>, \<open>write_maximum\<close>,
  \<open>restore_value\<close>) belong to the driver of the world; here are its data and its local check.
\<close>

record knob =
  kn_id :: string
  kn_setting :: string
  kn_minimum :: "int option"
  kn_maximum :: "int option"
  kn_choices :: "string list"
  kn_symbols :: "(string \<times> pyval) list"
  kn_unit :: string
  kn_pair :: "string option"
  kn_side :: "string option"
  kn_overclock :: bool
  kn_power_default :: "pyval option"
  kn_restorable :: bool
  kn_note :: string
  kn_validate_extra :: "pyval \<Rightarrow> unit res"
  kn_companions :: "string list"
  kn_verified_allowed :: bool
  kn_has_maximum :: bool
  kn_has_restore :: bool

definition opt_max :: "int \<Rightarrow> int option \<Rightarrow> int" where
  "opt_max low m = (case m of None \<Rightarrow> low | Some x \<Rightarrow> max low x)"

definition opt_min :: "int \<Rightarrow> int option \<Rightarrow> int" where
  "opt_min high m = (case m of None \<Rightarrow> high | Some x \<Rightarrow> min high x)"

definition effective_bounds :: "knob \<Rightarrow> policy \<Rightarrow> (int option \<times> int option \<times> string) res" where
  "effective_bounds k policy =
     (case map_of (pol_verified policy) (kn_setting k) of
        None \<Rightarrow> Inr (kn_minimum k, kn_maximum k, ''driver-advertised; missing bounds remain unknown'')
      | Some (minimum, maximum) \<Rightarrow>
          if \<not> kn_verified_allowed k \<or> \<not> pol_verified_ok policy
          then Inl (TuningError (kn_id k @ '': administrator-verified bounds are not enabled for this control''))
          else
            let low = opt_max minimum (kn_minimum k); high = opt_min maximum (kn_maximum k) in
            if high < low
            then Inl (TuningError (kn_id k @ '': verified bounds do not intersect the driver range''))
            else Inr (Some low, Some high,
              ''administrator-verified platform limits, intersected with every known driver bound''))"

text \<open>\<open>a > b\<close> for what a control holds; only numbers are ordered against numbers.\<close>

definition py_gt :: "pyval \<Rightarrow> pyval \<Rightarrow> bool res" where
  "py_gt a b =
     (case (a, b) of
        (PInt i, PInt j) \<Rightarrow> Inr (j < i)
      | (PStr s, PStr t) \<Rightarrow> Inr (t < s)
      | _ \<Rightarrow> Inl TypeErr)"

definition strip_supported :: "string \<Rightarrow> string" where
  "strip_supported v = (if v \<in> {''supported-max'', ''supported-1''} then drop (length ''supported-'') v else v)"

definition pick_candidate :: "knob \<Rightarrow> int option \<Rightarrow> int option \<Rightarrow> string \<Rightarrow> pyval" where
  "pick_candidate k low high v =
     (case map_of (kn_symbols k) v of
        Some c \<Rightarrow> c
      | None \<Rightarrow>
          if v = ''min'' \<and> low \<noteq> None then PInt (the low)
          else if v = ''max'' \<and> high \<noteq> None then PInt (the high)
          else PStr v)"

definition fit_candidate :: "knob \<Rightarrow> policy \<Rightarrow> int option \<Rightarrow> int option \<Rightarrow> pyval \<Rightarrow> pyval res" where
  "fit_candidate k policy low high candidate =
     (if kn_choices k \<noteq> [] then
        (let c = py_str candidate in
         if c \<notin> set (kn_choices k)
         then Inl (TuningError (kn_id k @ '': unsupported choice '' @ py_repr candidate))
         else if kn_setting k = ''PLATFORM_PROFILE'' \<and> c = ''performance'' \<and> \<not> pol_power policy
         then Inl (TuningError (kn_id k @ '': firmware performance requires allow_power_increase=true''))
         else Inr (PStr c))
      else if kn_unit k = ''MHz-pair'' then
        (case (split_on (CHR '','') (py_str candidate), low, high) of
           ([a, b], Some lo, Some hi) \<Rightarrow>
             bindE (integer (PStr a) lo hi) (\<lambda>x.
             bindE (integer (PStr b) lo hi) (\<lambda>y.
             if y < x then Inl (TuningError (kn_id k @ '': minimum exceeds maximum''))
             else Inr (PList [PInt x, PInt y])))
         | _ \<Rightarrow> Inl (TuningError (kn_id k @ '': expected two advertised clock limits'')))
      else
        (case (low, high) of
           (Some lo, Some hi) \<Rightarrow> bindE (integer candidate lo hi) (\<lambda>x. Inr (PInt x))
         | _ \<Rightarrow> Inl (TuningError (kn_id k @ '': hardware did not advertise usable bounds''))))"

definition check_permissions :: "knob \<Rightarrow> policy \<Rightarrow> pyval \<Rightarrow> unit res" where
  "check_permissions k policy candidate =
     bindE (if kn_overclock k then py_gt candidate (PInt 0) else Inr False) (\<lambda>positive.
     bindE (guardE (\<not> (positive \<and> \<not> pol_overclock policy))
        (TuningError (kn_id k @ '': positive offsets require allow_overclock=true''))) (\<lambda>_.
     bindE (case kn_power_default k of None \<Rightarrow> Inr False | Some d \<Rightarrow> py_gt candidate d) (\<lambda>above.
     bindE (guardE (\<not> (above \<and> \<not> pol_power policy))
        (TuningError (kn_id k @ '': exceeding the baseline/default power limit requires allow_power_increase=true''))) (\<lambda>_.
     bindE (guardE (kn_restorable k \<or> pol_exclusive policy)
        (TuningError (kn_id k @ '': no portable lock-range getter; exclusive_clock_control=true is required''))) (\<lambda>_.
     kn_validate_extra k candidate)))))"

definition resolve :: "knob \<Rightarrow> string \<Rightarrow> policy \<Rightarrow> pyval option res" where
  "resolve k configured policy =
     bindE (safe_value (PStr configured)) (\<lambda>text.
     let v = strip_supported text in
     if v = ''keep'' then Inr None
     else
       bindE (effective_bounds k policy) (\<lambda>(low, high, source).
       bindE (fit_candidate k policy low high (pick_candidate k low high v)) (\<lambda>candidate.
       bindE (check_permissions k policy candidate) (\<lambda>_.
       Inr (Some candidate)))))"

text \<open>\<open>profile["overrides"].get(id, profile["knobs"].get(setting, "keep"))\<close>\<close>

definition configured_value :: "profile \<Rightarrow> knob \<Rightarrow> string" where
  "configured_value p k =
     (case map_of (pr_overrides p) (kn_id k) of
        Some v \<Rightarrow> v
      | None \<Rightarrow> (case map_of (pr_knobs p) (kn_setting k) of Some v \<Rightarrow> v | None \<Rightarrow> ''keep''))"

subsection \<open>The report of a control\<close>

definition opt_val :: "('a \<Rightarrow> pyval) \<Rightarrow> 'a option \<Rightarrow> pyval" where
  "opt_val f x = (case x of None \<Rightarrow> PNone | Some y \<Rightarrow> f y)"

text \<open>\<open>except TuningError\<close> around a computation whose handler returns the message.\<close>

definition tuning_message :: "'a res \<Rightarrow> (string + 'a) res" where
  "tuning_message r =
     (case r of
        Inr x \<Rightarrow> Inr (Inr x)
      | Inl e \<Rightarrow> if is_tuning_error e then Inr (Inl (exn_str e)) else Inl e)"

definition report_proposal :: "knob \<Rightarrow> policy \<Rightarrow> string \<Rightarrow> pyval res" where
  "report_proposal k policy v =
     bindE (tuning_message (resolve k v policy)) (\<lambda>r. Inr (PDict (case r of
         Inl m \<Rightarrow> [(''configured'', PStr v), (''error'', PStr m)]
       | Inr resolved \<Rightarrow>
           [(''configured'', PStr v), (''resolved'', opt_val id resolved),
            (''meaning'', PStr (if resolved = None then ''leave unchanged''
               else ''bounded request; not a stability guarantee''))])))"

definition report_current :: "knob \<Rightarrow> pyval res \<Rightarrow> (pyval \<times> pyval) res" where
  "report_current k reading =
     (if \<not> kn_restorable k then Inr (PNone, PStr ''not queryable through the portable driver ABI'')
      else (case reading of
          Inr v \<Rightarrow> Inr (v, PNone)
        | Inl e \<Rightarrow> if is_os_error e \<or> is_tuning_error e then Inr (PNone, PStr (exn_str e)) else Inl e))"

definition report :: "knob \<Rightarrow> pyval res \<Rightarrow> policy \<Rightarrow> pydict res" where
  "report k reading policy =
     bindE (report_current k reading) (\<lambda>(current, error).
     bindE (tuning_message (effective_bounds k policy)) (\<lambda>bounds.
     let (emin, emax, source) = (case bounds of Inl m \<Rightarrow> (None, None, m) | Inr b \<Rightarrow> b) in
     bindE (mapE (\<lambda>name. case map_of (pol_profiles policy) name of
               None \<Rightarrow> Inl (KeyErr name)
             | Some p \<Rightarrow> bindE (report_proposal k policy (configured_value p k)) (\<lambda>v. Inr (name, v))) PROFILES)
       (\<lambda>proposed.
     Inr [(''id'', PStr (kn_id k)), (''setting'', PStr (kn_setting k)), (''unit'', PStr (kn_unit k)),
          (''current'', current), (''read_error'', error),
          (''minimum'', opt_val PInt (kn_minimum k)), (''maximum'', opt_val PInt (kn_maximum k)),
          (''effective_minimum'', opt_val PInt emin), (''effective_maximum'', opt_val PInt emax),
          (''bounds_source'', PStr source), (''choices'', PList (map PStr (kn_choices k))),
          (''symbols'', PDict (kn_symbols k)), (''restores_previous_value'', PBool (kn_restorable k)),
          (''note'', PStr (kn_note k)), (''profiles'', PDict proposed)])))"

end
