(* ===== verification/HwCommonFacts.thy ===== *)
theory HwCommonFacts
  imports HwCommon
begin

text \<open>
  What \<open>validate_policy\<close> accepts, and what \<open>Knob.resolve\<close> can return: values within every bound that
  the driver or the administrator gave, and beyond a gate only with the permission for it.
\<close>

subsection \<open>Bounds and permissions\<close>

lemma integer_bounds: "integer v low high = Inr i \<Longrightarrow> low \<le> i \<and> i \<le> high"
  by (auto simp: integer_def split: if_splits)

lemma integer_PInt: "integer (PInt i) low high = (if low \<le> i \<and> i \<le> high then Inr i
    else Inl (TuningError (int_str i @ '' is outside ['' @ int_str low @ '', '' @ int_str high @ '']'')))"
  by (simp add: integer_def)

definition below :: "int option \<Rightarrow> int \<Rightarrow> bool" where
  "below m v = (case m of None \<Rightarrow> True | Some x \<Rightarrow> x \<le> v)"

definition above :: "int option \<Rightarrow> int \<Rightarrow> bool" where
  "above m v = (case m of None \<Rightarrow> True | Some x \<Rightarrow> v \<le> x)"

text \<open>\<open>v\<close> lies in the range of the driver, and in the range that the administrator verified.\<close>

definition in_bounds :: "knob \<Rightarrow> policy \<Rightarrow> int \<Rightarrow> bool" where
  "in_bounds k policy v \<longleftrightarrow> below (kn_minimum k) v \<and> above (kn_maximum k) v
     \<and> (case map_of (pol_verified policy) (kn_setting k) of None \<Rightarrow> True | Some (lo, hi) \<Rightarrow> lo \<le> v \<and> v \<le> hi)"

lemma effective_bounds_sound:
  assumes "effective_bounds k policy = Inr (Some low, Some high, source)" "low \<le> v" "v \<le> high"
  shows "in_bounds k policy v"
  using assms by (auto simp: effective_bounds_def in_bounds_def below_def above_def opt_max_def opt_min_def Let_def
      split: option.splits if_splits prod.splits)

lemma resolveE:
  assumes "resolve k text policy = Inr (Some c)"
  obtains low high source raw where "effective_bounds k policy = Inr (low, high, source)"
    and "fit_candidate k policy low high raw = Inr c" and "check_permissions k policy c = Inr ()"
  using assms by (auto simp: resolve_def Let_def split: if_splits prod.splits)

text \<open>What a fitted candidate is, by the kind of the control.\<close>

definition candidate_ok :: "knob \<Rightarrow> policy \<Rightarrow> pyval \<Rightarrow> bool" where
  "candidate_ok k policy c \<longleftrightarrow>
     (if kn_choices k \<noteq> [] then (\<exists>s \<in> set (kn_choices k). c = PStr s)
      else if kn_unit k = ''MHz-pair''
      then (\<exists>x y. c = PList [PInt x, PInt y] \<and> x \<le> y \<and> in_bounds k policy x \<and> in_bounds k policy y)
      else (\<exists>i. c = PInt i \<and> in_bounds k policy i))"

lemma fit_candidate_ok:
  assumes "effective_bounds k policy = Inr (low, high, source)" "fit_candidate k policy low high raw = Inr c"
  shows "candidate_ok k policy c"
proof (cases "kn_choices k \<noteq> []")
  case True
  then show ?thesis using assms(2) by (auto simp: fit_candidate_def candidate_ok_def Let_def split: if_splits)
next
  case False
  show ?thesis
  proof (cases "kn_unit k = ''MHz-pair''")
    case True
    with False assms(2) obtain a b lo hi x y where c: "c = PList [PInt x, PInt y]" "x \<le> y"
      and "low = Some lo" "high = Some hi" "integer (PStr a) lo hi = Inr x" "integer (PStr b) lo hi = Inr y"
      by (auto simp: fit_candidate_def split: list.splits option.splits if_splits)
    then show ?thesis using assms(1) False True
      by (auto simp: candidate_ok_def dest: integer_bounds intro: effective_bounds_sound)
  next
    case unit: False
    with False assms(2) obtain lo hi i where "c = PInt i" "low = Some lo" "high = Some hi"
        "integer raw lo hi = Inr i"
      by (auto simp: fit_candidate_def split: option.splits)
    then show ?thesis using assms(1) False unit
      by (auto simp: candidate_ok_def dest: integer_bounds intro: effective_bounds_sound)
  qed
qed

text \<open>C32 (no control leaves its range): a value that \<open>resolve\<close> returns is one of the choices of the
  control, or a number (for clock pairs: two ordered numbers) within every bound the driver advertises
  and within the administrator's verified bounds; those can narrow the driver's range, never widen it.\<close>

theorem resolve_within_bounds:
  "resolve k text policy = Inr (Some c) \<Longrightarrow> candidate_ok k policy c"
  by (erule resolveE) (rule fit_candidate_ok)

definition demo_profile :: "string \<Rightarrow> profile" where
  "demo_profile v = \<lparr>pr_knobs = [(''RAPL_PL1_POWER_UW'', v)], pr_overrides = []\<rparr>"

definition demo_policy_of :: "bool \<Rightarrow> policy" where
  "demo_policy_of allowed = \<lparr>pol_overclock = False, pol_power = allowed, pol_exclusive = False, pol_max_temp = 90,
     pol_verified_ok = True, pol_verified = [(''RAPL_PL1_POWER_UW'', 1, 20000000)],
     pol_profiles = map (\<lambda>p. (p, demo_profile ''max'')) PROFILES\<rparr>"

definition demo_knob :: knob where
  "demo_knob = \<lparr>kn_id = ''rapl/pl1'', kn_setting = ''RAPL_PL1_POWER_UW'', kn_minimum = Some 5000000,
     kn_maximum = Some 28000000, kn_choices = [], kn_symbols = [], kn_unit = ''uW'', kn_pair = None,
     kn_side = None, kn_overclock = False, kn_power_default = Some (PInt 15000000), kn_restorable = True,
     kn_note = [], kn_validate_extra = (\<lambda>v. Inr ()), kn_companions = [], kn_verified_allowed = True,
     kn_has_maximum = False, kn_has_restore = False\<rparr>"

lemma demo_resolve: "resolve demo_knob ''max'' (demo_policy_of True) = Inr (Some (PInt 20000000))"
  by code_simp

theorem resolve_within_bounds_witness:
  "resolve demo_knob ''max'' (demo_policy_of True) = Inr (Some (PInt 20000000))
     \<and> candidate_ok demo_knob (demo_policy_of True) (PInt 20000000)"
  using resolve_within_bounds [OF demo_resolve] demo_resolve by simp

text \<open>C33 (gates need permission): a value above the default power limit, a positive overclocking offset
  and the \<open>performance\<close> choice of the firmware profile are resolved only under the policy's permission
  for them, and a control without a getter only under exclusive clock control.\<close>

theorem resolve_respects_permissions:
  assumes "resolve k text policy = Inr (Some c)"
  shows "(kn_overclock k \<and> c = PInt i \<and> 0 < i \<longrightarrow> pol_overclock policy)
    \<and> (kn_power_default k = Some (PInt d) \<and> c = PInt i \<and> d < i \<longrightarrow> pol_power policy)
    \<and> (kn_setting k = ''PLATFORM_PROFILE'' \<and> kn_choices k \<noteq> [] \<and> c = PStr ''performance'' \<longrightarrow> pol_power policy)
    \<and> (kn_restorable k \<or> pol_exclusive policy)"
proof -
  obtain low high source raw where b: "effective_bounds k policy = Inr (low, high, source)"
    and f: "fit_candidate k policy low high raw = Inr c" and p: "check_permissions k policy c = Inr ()"
    using assms by (rule resolveE)
  have "kn_overclock k \<Longrightarrow> c = PInt i \<Longrightarrow> 0 < i \<Longrightarrow> pol_overclock policy"
    using p by (auto simp: check_permissions_def py_gt_def)
  moreover have "kn_power_default k = Some (PInt d) \<Longrightarrow> c = PInt i \<Longrightarrow> d < i \<Longrightarrow> pol_power policy"
    using p by (auto simp: check_permissions_def py_gt_def)
  moreover have "kn_setting k = ''PLATFORM_PROFILE'' \<Longrightarrow> kn_choices k \<noteq> [] \<Longrightarrow> c = PStr ''performance'' \<Longrightarrow>
      pol_power policy"
    using f by (auto simp: fit_candidate_def Let_def split: if_splits)
  moreover have "kn_restorable k \<or> pol_exclusive policy"
    using p by (auto simp: check_permissions_def)
  ultimately show ?thesis by blast
qed

theorem resolve_respects_permissions_witness:
  "resolve demo_knob ''max'' (demo_policy_of True) = Inr (Some (PInt 20000000))
     \<and> pol_power (demo_policy_of True)"
  using resolve_respects_permissions [OF demo_resolve, of _ 15000000] demo_resolve
  by (auto simp: demo_knob_def demo_policy_of_def)

subsection \<open>The accepted policy files\<close>

definition text_ok :: "string \<Rightarrow> bool" where
  "text_ok s \<longleftrightarrow> s \<noteq> [] \<and> length s \<le> 100 \<and> list_all value_char s"

definition profile_ok :: "settings \<Rightarrow> string \<times> profile \<Rightarrow> bool" where
  "profile_ok settings entry \<longleftrightarrow>
     keys_eq (pr_knobs (snd entry)) (map fst settings)
     \<and> list_all (\<lambda>kv. text_ok (snd kv)) (pr_knobs (snd entry))
     \<and> list_all (\<lambda>kv. text_ok (snd kv) \<and> length (fst kv) \<le> 512) (pr_overrides (snd entry))
     \<and> (\<forall>v. ''CPU_EPP'' \<in> set (map fst settings) \<and> map_of (pr_knobs (snd entry)) ''CPU_EPP'' = Some v \<longrightarrow>
          v \<in> set INTEL_EPP \<and> (v = ''balanced'' \<longrightarrow> fst entry = ''balanced''))"

definition policy_ok :: "settings \<Rightarrow> policy \<Rightarrow> bool" where
  "policy_ok settings p \<longleftrightarrow>
     50 \<le> pol_max_temp p \<and> pol_max_temp p \<le> 99
     \<and> list_all (\<lambda>(s, lo, hi). s \<in> set (map fst settings) \<and> verified_setting s \<and> 1 \<le> lo \<and> lo \<le> hi) (pol_verified p)
     \<and> (pol_verified p \<noteq> [] \<longrightarrow> pol_verified_ok p)
     \<and> keys_eq (pol_profiles p) PROFILES
     \<and> list_all (profile_ok settings) (pol_profiles p)"

lemma safe_value_ok: "safe_value v = Inr s \<Longrightarrow> text_ok s"
  by (auto simp: safe_value_def text_ok_def Let_def split: pyval.splits if_splits)

lemma mapE_keys: "mapE f xs = Inr ys \<Longrightarrow> (\<And>x y. f x = Inr y \<Longrightarrow> fst y = fst x) \<Longrightarrow> map fst ys = map fst xs"
  by (induction xs arbitrary: ys) auto

lemma mapE_list_all: "mapE f xs = Inr ys \<Longrightarrow> (\<And>x y. x \<in> set xs \<Longrightarrow> f x = Inr y \<Longrightarrow> P y) \<Longrightarrow> list_all P ys"
  by (auto simp: list_all_set dest!: mapE_in_set)

lemma case_returns [simp]:
  "((case v of PBool b \<Rightarrow> Inr b | _ \<Rightarrow> Inl e) = Inr x) = (v = PBool x)"
  "((case v of PDict d \<Rightarrow> if P d then Inr d else Inl e1 | _ \<Rightarrow> Inl e2) = Inr y) = (v = PDict y \<and> P y)"
  "((case v of PInt i \<Rightarrow> f i | _ \<Rightarrow> Inl e) = Inr z) = (\<exists>i. v = PInt i \<and> f i = Inr z)"
  by (cases v; auto)+

lemma if_Inl_eq: "((if b then Inl e else r) = Inr x) = (\<not> b \<and> r = Inr x)"
  by simp

lemma keys_eq_map: "map fst d = map fst e \<Longrightarrow> keys_eq d ks = keys_eq e ks"
  by (simp add: keys_eq_def)

lemma validate_profile_ok:
  assumes "validate_profile settings entry = Inr p"
  shows "profile_ok settings p \<and> fst p = fst entry"
proof -
  obtain d where d: "snd entry = PDict d"
    using assms by (auto simp: validate_profile_def Let_def split: pyval.splits)
  obtain ks os overrides knobs where parts: "keys_eq ks (map fst settings)"
      "mapE validate_override os = Inr overrides"
      "mapE (\<lambda>kv. bindE (safe_value (snd kv)) (\<lambda>v. Inr (fst kv, v))) ks = Inr knobs"
      "(if ''CPU_EPP'' \<in> set (map fst settings) then check_epp (fst entry) knobs else Inr ()) = Inr ()"
      "p = (fst entry, \<lparr>pr_knobs = knobs, pr_overrides = overrides\<rparr>)"
    using assms unfolding validate_profile_def d
    by (auto simp: Let_def simp del: set_map split: pyval.splits if_splits)
  have "keys_eq knobs (map fst settings)"
    using parts(1) keys_eq_map [OF mapE_keys [OF parts(3)]] by auto
  moreover have "list_all (\<lambda>kv. text_ok (snd kv)) knobs"
    by (rule mapE_list_all [OF parts(3)]) (auto dest: safe_value_ok)
  moreover have "list_all (\<lambda>kv. text_ok (snd kv) \<and> length (fst kv) \<le> 512) overrides"
    by (rule mapE_list_all [OF parts(2)]) (auto simp: validate_override_def dest: safe_value_ok split: if_splits)
  moreover have "v \<in> set INTEL_EPP \<and> (v = ''balanced'' \<longrightarrow> fst entry = ''balanced'')"
    if "''CPU_EPP'' \<in> set (map fst settings)" "map_of knobs ''CPU_EPP'' = Some v" for v
    using parts(4) that by (auto simp: check_epp_def simp del: set_map split: if_splits)
  ultimately show ?thesis by (auto simp: profile_ok_def parts(5))
qed

lemma verified_bound_ok:
  "verified_bound entry = Inr (s, lo, hi) \<Longrightarrow> s = fst entry \<and> 1 \<le> lo \<and> lo \<le> hi"
  by (auto simp: verified_bound_def Let_def dest!: integer_bounds split: pyval.splits if_splits)

text \<open>C34 (an accepted policy file is well formed): the thermal limit lies in 50..99, verified bounds are
  positive, ordered, for named package limits of the vendor and acknowledged, the four profiles are there,
  each assigns a bounded text to exactly the settings of the vendor, and the energy preference of a
  processor is a known one, \<open>balanced\<close> only in the Balanced profile.\<close>

theorem validate_policy_accepts_ok:
  assumes "validate_policy data settings = Inr p"
  shows "policy_ok settings p"
proof -
  obtain d where d: "data = PDict d"
    using assms by (auto simp: validate_policy_def split: pyval.splits)
  obtain vs ps where parts: "vs = [] \<or> pol_verified_ok p"
      "list_all (\<lambda>kv. fst kv \<in> set (map fst settings) \<and> verified_setting (fst kv)) vs"
      "mapE verified_bound vs = Inr (pol_verified p)"
      "keys_eq ps PROFILES" "mapE (validate_profile settings) ps = Inr (pol_profiles p)"
      "50 \<le> pol_max_temp p" "pol_max_temp p \<le> 99"
    using assms unfolding validate_policy_def d pyval.case if_Inl_eq bindE_Inr_iff case_returns bool_field_def
      guardE_Inr_iff
    by (force dest!: integer_bounds)
  have keys: "map fst (pol_profiles p) = map fst ps"
    by (rule mapE_keys [OF parts(5)]) (auto dest: validate_profile_ok)
  have "list_all (\<lambda>(s, lo, hi). s \<in> set (map fst settings) \<and> verified_setting s \<and> 1 \<le> lo \<and> lo \<le> hi) (pol_verified p)"
    by (rule mapE_list_all [OF parts(3)]) (use parts(2) in \<open>force simp: list_all_set dest!: verified_bound_ok\<close>)
  moreover have "list_all (profile_ok settings) (pol_profiles p)"
    by (rule mapE_list_all [OF parts(5)]) (auto dest: validate_profile_ok)
  moreover have "pol_verified p \<noteq> [] \<longrightarrow> pol_verified_ok p" using parts(1,3) by auto
  ultimately show ?thesis using parts(4,6,7) keys_eq_map [OF keys] by (auto simp: policy_ok_def)
qed

definition demo_settings :: settings where
  "demo_settings = [(''CPU_EPP'', [''performance'', ''balance_performance'', ''balance_power'', ''power''])]"

definition demo_document :: pyval where
  "demo_document = PDict
     [(''version'', PInt 1), (''allow_overclock'', PBool False), (''allow_power_increase'', PBool False),
      (''exclusive_clock_control'', PBool False), (''max_temperature_c'', PInt 90),
      (''profiles'', PDict (map (\<lambda>p. (p, PDict [(''knobs'', PDict [(''CPU_EPP'', PStr ''keep'')]),
         (''overrides'', PDict [(''cpu0/epp'', PStr ''power'')])])) PROFILES))]"

lemma demo_document_accepted:
  "case validate_policy demo_document demo_settings of Inl e \<Rightarrow> False | Inr p \<Rightarrow> pol_max_temp p = 90"
  by code_simp

theorem validate_policy_accepts_ok_witness:
  "case validate_policy demo_document demo_settings of
     Inl e \<Rightarrow> False | Inr p \<Rightarrow> pol_max_temp p = 90 \<and> policy_ok demo_settings p"
  using demo_document_accepted validate_policy_accepts_ok [of demo_document demo_settings]
  by (auto split: sum.splits)

end
