(* ===== verification/HwStore.thy ===== *)
theory HwStore
  imports HwCommon NftWriteFacts
begin

text \<open>
  \<open>atomic_json\<close> of \<open>hardware_tuning/common.py\<close> and the files it works on. A file holds the document
  that its text decodes to (\<open>None\<close> while the text is still incomplete); the size of the text is a
  parameter. The engine and the broker extend this state with their own.
\<close>

record jtmp =
  jt_mode :: int
  jt_doc :: "pyval option"

record jstore =
  js_files :: "string \<Rightarrow> jtmp option"
  js_tmps :: "nat \<Rightarrow> jtmp option"
  js_next :: nat

definition set_jtmp :: "nat \<Rightarrow> jtmp option \<Rightarrow> 'a jstore_scheme \<Rightarrow> 'a jstore_scheme" where
  "set_jtmp i f w = w\<lparr>js_tmps := (js_tmps w)(i := f)\<rparr>"

definition map_jtmp :: "nat \<Rightarrow> (jtmp \<Rightarrow> jtmp) \<Rightarrow> 'a jstore_scheme \<Rightarrow> 'a jstore_scheme" where
  "map_jtmp i g w = set_jtmp i (map_option g (js_tmps w i)) w"

text \<open>\<open>os.replace\<close> moves the temporary file; it is gone when \<open>os.unlink\<close> comes.\<close>

definition replace_jtmp :: "nat \<Rightarrow> string \<Rightarrow> 'a jstore_scheme \<Rightarrow> 'a jstore_scheme" where
  "replace_jtmp i path w =
     (case js_tmps w i of
        None \<Rightarrow> w
      | Some f \<Rightarrow> set_jtmp i None (w\<lparr>js_files := (js_files w)(path \<mapsto> f)\<rparr>))"

definition make_jtmp :: "(('a jstore_scheme) sys, nat) eff" where
  "make_jtmp = bindF (look js_next) (\<lambda>i.
     seqF (op (\<lambda>w. (set_jtmp i (Some \<lparr>jt_mode = 384, jt_doc = None\<rparr>) w)\<lparr>js_next := Suc i\<rparr>)) (retF i))"

definition unlink_jtmp :: "nat \<Rightarrow> (('a jstore_scheme) sys, unit) eff" where
  "unlink_jtmp i = bindF (look (\<lambda>w. js_tmps w i)) (\<lambda>t. if t = None then retF () else op (set_jtmp i None))"

definition atomic_json :: "(pyval \<Rightarrow> int) \<Rightarrow> string \<Rightarrow> pyval \<Rightarrow> int \<Rightarrow> (('a jstore_scheme) sys, unit) eff" where
  "atomic_json json_size path document mode =
     seqF (assertF (json_size document \<le> MAX_JSON) (TuningError ''state exceeds size limit''))
     (bindF make_jtmp (\<lambda>i.
      finallyF
        (seqF (op (map_jtmp i (\<lambda>f. f\<lparr>jt_mode := mode\<rparr>)))
        (seqF (op (map_jtmp i (\<lambda>f. f\<lparr>jt_doc := Some document\<rparr>)))
        (seqF skip_op
        (seqF (op (replace_jtmp i path))
        (seqF skip_op skip_op)))))
        (unlink_jtmp i)))"

subsection \<open>The second provider of \<open>atomic_store\<close>\<close>

definition store_rest :: "'a jstore_scheme \<Rightarrow> 'a" where
  "store_rest w = jstore.more w"

lemma store_simps [simp]:
  "js_files (set_jtmp i f w) = js_files w" "js_files (map_jtmp i g w) = js_files w"
  "js_tmps (set_jtmp i f w) = (js_tmps w)(i := f)"
  "js_tmps (map_jtmp i g w) = (js_tmps w)(i := map_option g (js_tmps w i))"
  "store_rest (set_jtmp i f w) = store_rest w" "store_rest (map_jtmp i g w) = store_rest w"
  "store_rest (w\<lparr>js_next := n\<rparr>) = store_rest w" "store_rest (w\<lparr>js_files := fs\<rparr>) = store_rest w"
  by (simp_all add: set_jtmp_def map_jtmp_def store_rest_def)

definition json_file :: "int \<Rightarrow> pyval \<Rightarrow> jtmp" where
  "json_file mode document = \<lparr>jt_mode = mode, jt_doc = Some document\<rparr>"

lemma atomic_json_atomic:
  fixes s :: "('a jstore_scheme) sys"
  shows "wpF (atomic_json sz path v mode)
     (\<lambda>_ t. js_files (sys_world t) = (js_files (sys_world s))(path \<mapsto> json_file mode v)
        \<and> store_rest (sys_world t) = store_rest (sys_world s))
     (\<lambda>e t. (js_files (sys_world t) = js_files (sys_world s)
            \<or> js_files (sys_world t) = (js_files (sys_world s))(path \<mapsto> json_file mode v))
        \<and> store_rest (sys_world t) = store_rest (sys_world s)) s"
  (is "wpF _ ?Q ?E s")
proof -
  let ?V = "\<lambda>f (t :: ('a jstore_scheme) sys). store_rest (sys_world t) = store_rest (sys_world s) \<and> js_files (sys_world t) = f"
  let ?old = "js_files (sys_world s)" and ?new = "(js_files (sys_world s))(path \<mapsto> json_file mode v)"
  let ?any = "\<lambda>(e :: pyexn) u. ?V ?old u \<or> ?V ?new u"
  have cleanup: "wpF (unlink_jtmp i) (\<lambda>_. ?V f) (\<lambda>e. ?V f) t" if "?V f t" for i f t
    using that unfolding unlink_jtmp_def wp by (auto intro!: wpF_opI simp: wp)
  have fill: "wpF (op (map_jtmp i g)) Q E t"
    if "?V ?old t" "js_tmps (sys_world t) i = Some f"
      "\<And>u. ?V ?old u \<Longrightarrow> js_tmps (sys_world u) i = Some (g f) \<Longrightarrow> Q () u"
      "\<And>e u. ?V ?old u \<Longrightarrow> E e u" for i g Q E f t
    using that by (intro wpF_opI) auto
  have sync: "wpF (seqF skip_op skip_op) (\<lambda>_. ?V ?new) ?any t" if "?V ?new t" for t
    using that unfolding wp by (auto intro!: wpF_skipI)
  have publish: "wpF (seqF (op (replace_jtmp i path)) (seqF skip_op skip_op)) (\<lambda>_. ?V ?new) ?any t"
    if "?V ?old t" "js_tmps (sys_world t) i = Some (json_file mode v)" for i t
    using that by (subst wpF_seq, intro wpF_opI sync) (auto simp: replace_jtmp_def)
  have skip: "wpF (seqF skip_op (seqF (op (replace_jtmp i path)) (seqF skip_op skip_op))) (\<lambda>_. ?V ?new) ?any t"
    if "?V ?old t" "js_tmps (sys_world t) i = Some (json_file mode v)" for i t
    using that by (subst wpF_seq, intro wpF_skipI publish) auto
  have body: "wpF (seqF (op (map_jtmp i (\<lambda>f. f\<lparr>jt_mode := mode\<rparr>)))
        (seqF (op (map_jtmp i (\<lambda>f. f\<lparr>jt_doc := Some v\<rparr>)))
        (seqF skip_op (seqF (op (replace_jtmp i path)) (seqF skip_op skip_op))))) (\<lambda>_. ?V ?new) ?any t"
    if "?V ?old t" "js_tmps (sys_world t) i = Some \<lparr>jt_mode = 384, jt_doc = None\<rparr>" for i t
    unfolding wpF_seq [of "op _"]
    by (rule fill [OF that], erule (1) fill, rule skip) (simp_all add: json_file_def)
  have all: "wpF (finallyF (seqF (op (map_jtmp i (\<lambda>f. f\<lparr>jt_mode := mode\<rparr>)))
        (seqF (op (map_jtmp i (\<lambda>f. f\<lparr>jt_doc := Some v\<rparr>)))
        (seqF skip_op (seqF (op (replace_jtmp i path)) (seqF skip_op skip_op)))))
        (unlink_jtmp i)) ?Q ?E t"
    if "?V ?old t" "js_tmps (sys_world t) i = Some \<lparr>jt_mode = 384, jt_doc = None\<rparr>" for i t
    unfolding wpF_finally
    by (rule wpF_mono [OF body [OF that]])
      (auto intro: wpF_mono [OF cleanup] split: if_splits)
  have make: "wpF make_jtmp (\<lambda>i t. ?V ?old t \<and> js_tmps (sys_world t) i = Some \<lparr>jt_mode = 384, jt_doc = None\<rparr>) ?any s"
    unfolding make_jtmp_def wp by (auto intro!: wpF_opI simp: wp)
  show ?thesis
    unfolding atomic_json_def wpF_seq [of "assertF _ _"] wpF_assert wpF_bind
    by (auto intro!: wpF_mono [OF make] all)
qed

interpretation journals: atomic_store "\<lambda>path v. atomic_json sz path v mode" js_files "json_file mode" store_rest
  for sz :: "pyval \<Rightarrow> int" and mode :: int
  by unfold_locales (rule atomic_json_atomic)

end
