(* ===== verification/HwEngine.thy ===== *)
theory HwEngine
  imports HwStore
begin

text \<open>
  \<open>hardware_tuning/engine.py\<close>, part 1: the recovery journal, the hardware as the engine sees it, the
  health check and the order of writes.

  The hardware is what each control reads now (a value, or the exception of a failing read) and a
  driver, a parameter, that answers the calls of a control and may change any control; its answer may
  also depend on how many calls came before. Between two runs the hardware may change in any way.
\<close>

subsection \<open>The journal\<close>

record entry =
  en_id :: string
  en_before :: pyval
  en_last :: pyval
  en_pending :: bool
  en_requested :: pyval

record journal =
  jr_profile :: "string option"
  jr_entries :: "entry list"

definition empty_journal :: journal where
  "empty_journal = \<lparr>jr_profile = None, jr_entries = []\<rparr>"

definition entry_doc :: "entry \<Rightarrow> pyval" where
  "entry_doc e = PDict [(''before'', en_before e), (''id'', PStr (en_id e)), (''last'', en_last e),
     (''pending'', PBool (en_pending e)), (''requested'', en_requested e)]"

definition journal_doc :: "journal \<Rightarrow> pyval" where
  "journal_doc j = PDict [(''entries'', PList (map entry_doc (jr_entries j))),
     (''profile'', opt_val PStr (jr_profile j)), (''version'', PInt 1)]"

definition ENTRY_KEYS :: "string list" where
  "ENTRY_KEYS = [''id'', ''before'', ''last'', ''pending'', ''requested'']"

definition parse_entry :: "string list \<Rightarrow> pyval \<Rightarrow> entry res" where
  "parse_entry ids v =
     (let err = TuningError ''invalid or duplicate recovery entry'' in
      case v of
        PDict d \<Rightarrow>
          if \<not> keys_eq d ENTRY_KEYS then Inl err
          else (case dget ''id'' d of
              PStr i \<Rightarrow>
                if i \<in> set ids then Inl err
                else (case dget ''pending'' d of
                    PBool p \<Rightarrow> Inr \<lparr>en_id = i, en_before = dget ''before'' d, en_last = dget ''last'' d,
                                 en_pending = p, en_requested = dget ''requested'' d\<rparr>
                  | _ \<Rightarrow> Inl (TuningError ''invalid recovery phase''))
            | _ \<Rightarrow> Inl err)
      | _ \<Rightarrow> Inl err)"

definition parse_profile :: "pyval \<Rightarrow> string option res" where
  "parse_profile v =
     (case v of
        PNone \<Rightarrow> Inr None
      | PStr p \<Rightarrow> if p \<in> set PROFILES then Inr (Some p) else Inl (TuningError ''invalid recovery journal'')
      | _ \<Rightarrow> Inl (TuningError ''invalid recovery journal''))"

definition parse_journal :: "pyval \<Rightarrow> journal res" where
  "parse_journal v =
     (let err = TuningError ''invalid recovery journal'' in
      case v of
        PDict d \<Rightarrow>
          if \<not> keys_eq d [''version'', ''entries'', ''profile''] \<or> dget ''version'' d \<noteq> PInt 1 then Inl err
          else (case dget ''entries'' d of
              PList es \<Rightarrow>
                bindE (parse_profile (dget ''profile'' d)) (\<lambda>prof.
                if 8192 < length es
                then Inl (TuningError ''recovery journal exceeds supported device count'')
                else bindE (foldE (\<lambda>done v. bindE (parse_entry (map en_id done) v) (\<lambda>e. Inr (done @ [e]))) [] es)
                       (\<lambda>entries. Inr \<lparr>jr_profile = prof, jr_entries = entries\<rparr>))
            | _ \<Rightarrow> Inl err)
      | _ \<Rightarrow> Inl err)"

type_synonym knobs = "(string \<times> knob) list"

text \<open>The power gate of an owned limit is the limit before tuning, never the tuned one.\<close>

definition gated_by_baseline :: "knob \<Rightarrow> bool" where
  "gated_by_baseline k = (kn_power_default k \<noteq> None
     \<and> (starts_with ''RAPL_'' (kn_setting k) \<or> starts_with ''DOMAIN_'' (kn_setting k)))"

definition rebase_knob :: "journal \<Rightarrow> string \<times> knob \<Rightarrow> string \<times> knob" where
  "rebase_knob j entry =
     (case entry of (key, k) \<Rightarrow>
      case find (\<lambda>e. en_id e = key) (jr_entries j) of
        None \<Rightarrow> (key, k)
      | Some e \<Rightarrow>
          (key, if gated_by_baseline k
                then k\<lparr>kn_power_default := if en_before e = PNone then None else Some (en_before e)\<rparr> else k))"

text \<open>\<open>Engine.__init__\<close>; the first argument is the decoded journal file, when there is one.\<close>

definition init_engine :: "pyval option \<Rightarrow> knobs \<Rightarrow> (journal \<times> knobs) res" where
  "init_engine old knobs =
     bindE (case old of None \<Rightarrow> Inr empty_journal | Some v \<Rightarrow> parse_journal v) (\<lambda>j.
     Inr (j, map (rebase_knob j) knobs))"

subsection \<open>The hardware\<close>

datatype call = CallWrite pyval | CallRestore pyval | CallMaximum

type_synonym regs = "string \<Rightarrow> pyval res"

record temperature =
  t_milli :: int
  t_str :: string
  t_short :: string

record hw_world = jstore +
  hw_regs :: regs
  hw_log :: "(string \<times> call) list"
  hw_journal :: journal

record hw_env =
  he_size :: "pyval \<Rightarrow> int"
  he_path :: string
  he_call :: "nat \<Rightarrow> string \<Rightarrow> call \<Rightarrow> regs \<Rightarrow> pyval res \<times> regs"
  he_check :: "((string \<times> pyval) list \<Rightarrow> unit res) option"
  he_temperature :: "nat \<Rightarrow> temperature option"

type_synonym 'a hw_io = "(hw_world sys, 'a) eff"

definition read_knob :: "string \<Rightarrow> pyval hw_io" where
  "read_knob key = seqF skip_op (bindF (look (\<lambda>w. hw_regs w key)) liftE)"

definition apply_call :: "hw_env \<Rightarrow> string \<Rightarrow> call \<Rightarrow> hw_world \<Rightarrow> hw_world" where
  "apply_call env key c w =
     w\<lparr>hw_regs := snd (he_call env (length (hw_log w)) key c (hw_regs w)), hw_log := hw_log w @ [(key, c)]\<rparr>"

definition call_knob :: "hw_env \<Rightarrow> string \<Rightarrow> call \<Rightarrow> pyval hw_io" where
  "call_knob env key c =
     bindF (look (\<lambda>w. fst (he_call env (length (hw_log w)) key c (hw_regs w)))) (\<lambda>answer.
     seqF (op (apply_call env key c)) (liftE answer))"

definition temperature :: "hw_env \<Rightarrow> temperature option hw_io" where
  "temperature env = seqF skip_op (look (\<lambda>w. he_temperature env (length (hw_log w))))"

definition check_ownership :: "hw_env \<Rightarrow> (string \<times> pyval) list \<Rightarrow> unit hw_io" where
  "check_ownership env values =
     (case he_check env of None \<Rightarrow> retF () | Some f \<Rightarrow> seqF skip_op (liftE (f values)))"

definition knob_at :: "knobs \<Rightarrow> string \<Rightarrow> knob res" where
  "knob_at knobs key = (case map_of knobs key of None \<Rightarrow> Inl (KeyErr key) | Some k \<Rightarrow> Inr k)"

definition save :: "hw_env \<Rightarrow> unit hw_io" where
  "save env = bindF (look hw_journal) (\<lambda>j. atomic_json (he_size env) (he_path env) (journal_doc j) 384)"

definition set_journal :: "journal \<Rightarrow> unit hw_io" where
  "set_journal j = assign (\<lambda>w. w\<lparr>hw_journal := j\<rparr>)"

subsection \<open>Health\<close>

record health =
  hl_conflicts :: "string list"
  hl_temperature :: "temperature option"

definition entry_conflict :: "knobs \<Rightarrow> entry \<Rightarrow> string list hw_io" where
  "entry_conflict knobs e =
     (case map_of knobs (en_id e) of
        None \<Rightarrow> retF [en_id e @ '': device/control disappeared'']
      | Some k \<Rightarrow>
          if en_pending e then retF [en_id e @ '': interrupted transaction'']
          else if kn_restorable k
          then bindF (read_knob (en_id e)) (\<lambda>v.
               retF (if v \<noteq> en_last e then [en_id e @ '': changed by firmware/another power manager''] else []))
          else retF [])"

definition risky_value :: "knob \<Rightarrow> pyval \<Rightarrow> bool res" where
  "risky_value k v =
     (if kn_setting k = ''PLATFORM_PROFILE'' \<and> v = PStr ''performance'' then Inr True
      else case v of
        PInt i \<Rightarrow>
          if kn_overclock k \<and> 0 < i then Inr True
          else (case kn_power_default k of None \<Rightarrow> Inr False | Some d \<Rightarrow> py_gt v d)
      | _ \<Rightarrow> Inr False)"

definition risky_entry :: "knobs \<Rightarrow> entry \<Rightarrow> bool res" where
  "risky_entry knobs e =
     (case map_of knobs (en_id e) of None \<Rightarrow> Inr False | Some k \<Rightarrow> risky_value k (en_requested e))"

definition is_recoverable :: "pyexn \<Rightarrow> bool" where
  "is_recoverable e = (is_os_error e \<or> is_tuning_error e)"

definition ownership_conflict :: "hw_env \<Rightarrow> entry list \<Rightarrow> string list hw_io" where
  "ownership_conflict env es =
     (if es = [] then retF []
      else catchF (seqF (check_ownership env (map (\<lambda>e. (en_id e, en_requested e)) es)) (retF []))
             is_recoverable (\<lambda>exc. retF [exn_str exc]))"

definition thermal_conflict :: "policy option \<Rightarrow> temperature option \<Rightarrow> string list" where
  "thermal_conflict pol temp =
     (case (pol, temp) of
        (Some p, Some t) \<Rightarrow>
          if 1000 * pol_max_temp p \<le> t_milli t
          then [''thermal interlock: '' @ t_str t @ '' C >= '' @ int_str (pol_max_temp p) @ '' C''] else []
      | _ \<Rightarrow> [])"

definition health :: "hw_env \<Rightarrow> policy option \<Rightarrow> knobs \<Rightarrow> health hw_io" where
  "health env pol knobs =
     bindF (look (\<lambda>w. jr_entries (hw_journal w))) (\<lambda>es.
     bindF (mapF (entry_conflict knobs) es) (\<lambda>own.
     bindF (ownership_conflict env es) (\<lambda>owners.
     bindF (temperature env) (\<lambda>temp.
     bindF (if temp = None then liftE (existsE (risky_entry knobs) es) else retF False) (\<lambda>blind.
     retF \<lparr>hl_conflicts = concat own @ owners
              @ (if blind then [''thermal sensor disappeared while an overclock/power increase is owned''] else [])
              @ thermal_conflict pol temp,
           hl_temperature = temp\<rparr>)))))"

subsection \<open>The order of writes\<close>

definition EARLY :: "(string \<times> int) list" where
  "EARLY = [(''PLATFORM_PROFILE'', -2), (''CPU_GOVERNOR'', 0), (''CPU_NO_TURBO'', 1), (''CPU_MIN_PERF_PCT'', 2),
     (''CPU_MAX_PERF_PCT'', 2)]"

definition LATE :: "(string \<times> int) list" where
  "LATE = [(''CPU_EPP'', 5), (''CPU_EPB'', 6), (''AUTO_BOOST'', 7)]"

definition is_int :: "int \<Rightarrow> pyval \<Rightarrow> bool" where
  "is_int i v = (v = PInt i \<or> v = PBool True \<and> i = 1 \<or> v = PBool False \<and> i = 0)"

definition priority :: "knob \<Rightarrow> pyval \<Rightarrow> int" where
  "priority k v =
     (if kn_setting k = ''PERSISTENCE_MODE'' then (if is_int 1 v then -1 else 8)
      else case map_of EARLY (kn_setting k) of
        Some p \<Rightarrow> p
      | None \<Rightarrow> (case map_of LATE (kn_setting k) of Some p \<Rightarrow> p | None \<Rightarrow> 3))"

datatype batch = Single string | Paired "(string \<times> knob) list"

text \<open>The pair name of a control, when it is a non-empty text.\<close>

definition pair_of :: "knob \<Rightarrow> string option" where
  "pair_of k = (case kn_pair k of Some p \<Rightarrow> if p = [] then None else Some p | None \<Rightarrow> None)"

definition pair_mates :: "(string \<times> knob) list \<Rightarrow> knob \<Rightarrow> (string \<times> knob) list" where
  "pair_mates members k =
     (case pair_of k of None \<Rightarrow> [] | Some p \<Rightarrow> filter (\<lambda>(key, m). pair_of m = Some p) members)"

fun make_batches :: "(string \<times> knob) list \<Rightarrow> string list \<Rightarrow> (string \<times> knob) list \<Rightarrow> batch list" where
  "make_batches members finished [] = []"
| "make_batches members finished ((key, k) # rest) =
     (if key \<in> set finished then make_batches members finished rest
      else
        let mates = pair_mates members k in
        if length mates = 2 then Paired mates # make_batches members (map fst mates @ finished) rest
        else Single key # make_batches members (key # finished) rest)"

definition member_knobs :: "knobs \<Rightarrow> (string \<times> pyval) list \<Rightarrow> (string \<times> knob) list res" where
  "member_knobs knobs values = mapE (\<lambda>(key, v). bindE (knob_at knobs key) (\<lambda>k. Inr (key, k))) values"

definition batches :: "knobs \<Rightarrow> (string \<times> pyval) list \<Rightarrow> batch list res" where
  "batches knobs values =
     bindE (member_knobs knobs values) (\<lambda>members.
     Inr (make_batches members [] (sort_key (\<lambda>(key, k). (priority k (dget key values), key)) members)))"

text \<open>
  The generator reads the upper limit when the pair is due, after the writes before it. A pair without
  both sides makes its \<open>next\<close> raise \<open>StopIteration\<close>, which a generator turns into \<open>RuntimeError\<close>.
\<close>

definition find_side :: "(string \<times> knob) list \<Rightarrow> string \<Rightarrow> string res" where
  "find_side mates side =
     (case find (\<lambda>(key, k). kn_side k = Some side) mates of
        Some (key, k) \<Rightarrow> Inr key
      | None \<Rightarrow> Inl RuntimeErr)"

definition batch_order :: "(string \<times> pyval) list \<Rightarrow> batch \<Rightarrow> (string \<times> pyval) list hw_io" where
  "batch_order values b =
     (let at = (\<lambda>key. (key, dget key values)) in
      case b of
        Single key \<Rightarrow> retF [at key]
      | Paired mates \<Rightarrow>
          bindF (liftE (find_side mates ''min'')) (\<lambda>lo.
          bindF (liftE (find_side mates ''max'')) (\<lambda>hi.
          bindF (read_knob hi) (\<lambda>current.
          bindF (liftE (py_gt (dget lo values) current)) (\<lambda>raise_first.
          retF (if raise_first then [at hi, at lo] else [at lo, at hi]))))))"

definition for_ordered ::
    "knobs \<Rightarrow> (string \<times> pyval) list \<Rightarrow> ('b \<Rightarrow> string \<times> pyval \<Rightarrow> 'b hw_io) \<Rightarrow> 'b \<Rightarrow> 'b hw_io" where
  "for_ordered knobs values body b =
     bindF (liftE (batches knobs values)) (\<lambda>bs.
     foldF (\<lambda>b bat. bindF (batch_order values bat) (\<lambda>kvs. foldF body b kvs)) b bs)"

end
