(* ===== verification/HwReset.thy ===== *)
theory HwReset
  imports HwEngine
begin

text \<open>
  \<open>hardware_tuning/engine.py\<close>, part 2: \<open>Engine.reset\<close>. It classifies the journalled controls into those
  to restore and those that another power manager has changed since (they are yielded), persists the
  intent, writes the old values, verifies the final state and keeps in the journal every entry whose
  side-effect domain is not completely restored.
\<close>

definition CPU_POLICY :: "string list" where
  "CPU_POLICY = [''PLATFORM_PROFILE'', ''CPU_GOVERNOR'', ''CPU_EPP'', ''CPU_MIN_FREQ_KHZ'', ''CPU_MAX_FREQ_KHZ'',
     ''CPU_MIN_PERF_PCT'', ''CPU_MAX_PERF_PCT'', ''CPU_NO_TURBO'', ''CPU_EPB'', ''CPU_HWP_DYNAMIC_BOOST'']"

text \<open>The keys that the code looks up here were found in the inventory before.\<close>

definition setting_at :: "knobs \<Rightarrow> string \<Rightarrow> string" where
  "setting_at knobs key = (case map_of knobs key of None \<Rightarrow> [] | Some k \<Rightarrow> kn_setting k)"

definition restorable_at :: "knobs \<Rightarrow> string \<Rightarrow> bool" where
  "restorable_at knobs key = (case map_of knobs key of None \<Rightarrow> False | Some k \<Rightarrow> kn_restorable k)"

definition cpu_coupled :: "knobs \<Rightarrow> string \<Rightarrow> bool" where
  "cpu_coupled knobs key = (setting_at knobs key \<in> set CPU_POLICY)"

subsection \<open>What to restore\<close>

record classes =
  cl_restore :: "(string \<times> pyval) list"
  cl_yielded :: "string list"
  cl_failures :: "string list"

definition is_restore_error :: "pyexn \<Rightarrow> bool" where
  "is_restore_error e = (is_os_error e \<or> is_tuning_error e \<or> e = ValueErr)"

definition add_class_failure :: "string \<Rightarrow> classes \<Rightarrow> classes" where
  "add_class_failure m c = c\<lparr>cl_failures := cl_failures c @ [m]\<rparr>"

definition classify_entry :: "knobs \<Rightarrow> classes \<Rightarrow> entry \<Rightarrow> classes hw_io" where
  "classify_entry knobs c e =
     (case map_of knobs (en_id e) of
        None \<Rightarrow> retF (add_class_failure (en_id e @ '': missing from hardware inventory; retained for recovery'') c)
      | Some k \<Rightarrow>
          catchF (bindF (read_knob (en_id e)) (\<lambda>current.
             retF (if en_pending e \<or> \<not> kn_restorable k \<or> current = en_last e
                   then c\<lparr>cl_restore := cl_restore c @ [(en_id e, en_before e)]\<rparr>
                   else c\<lparr>cl_yielded := cl_yielded c @ [en_id e]\<rparr>)))
           is_restore_error
           (\<lambda>exc. retF (add_class_failure (en_id e @ '': '' @ exn_str exc) c)))"

definition platform_owned :: "knobs \<Rightarrow> entry list \<Rightarrow> bool" where
  "platform_owned knobs es =
     list_ex (\<lambda>(key, k). kn_setting k = ''PLATFORM_PROFILE'' \<and> kn_id k \<in> set (map en_id es)) knobs"

text \<open>A replaced member of a coupled domain takes the whole domain with it.\<close>

definition yields_with :: "knobs \<Rightarrow> entry list \<Rightarrow> classes \<Rightarrow> string \<Rightarrow> bool" where
  "yields_with knobs es c key =
     (platform_owned knobs es \<and> cl_yielded c \<noteq> []
      \<or> list_ex (cpu_coupled knobs) (cl_yielded c) \<and> cpu_coupled knobs key)"

definition yield_coupled :: "knobs \<Rightarrow> entry list \<Rightarrow> classes \<Rightarrow> classes" where
  "yield_coupled knobs es c =
     c\<lparr>cl_restore := filter (\<lambda>kv. \<not> yields_with knobs es c (fst kv)) (cl_restore c),
       cl_yielded := cl_yielded c @ filter (yields_with knobs es c) (map fst (cl_restore c))\<rparr>"

definition mark_pending :: "string list \<Rightarrow> journal \<Rightarrow> journal" where
  "mark_pending keys j =
     j\<lparr>jr_entries := map (\<lambda>e. if en_id e \<in> set keys then e\<lparr>en_pending := True\<rparr> else e) (jr_entries j)\<rparr>"

text \<open>The search for \<open>/platform-profile-[0-9]+/profile(?:@[0-9a-f]{16})?$\<close>, where \<open>$\<close> also matches before
  a final newline.\<close>

definition lower_hex :: "char \<Rightarrow> bool" where
  "lower_hex c = (is_digit c \<or> c \<in> set ''abcdef'')"

definition platform_tail :: "string \<Rightarrow> bool" where
  "platform_tail s =
     (starts_with ''/platform-profile-'' s \<and>
      (let r = drop (length ''/platform-profile-'') s; digits = takeWhile is_digit r; t = dropWhile is_digit r in
       digits \<noteq> [] \<and> starts_with ''/profile'' t \<and>
       (let u = drop (length ''/profile'') t in
        u = [] \<or> hd u = CHR ''@'' \<and> length u = 17 \<and> list_all lower_hex (tl u))))"

definition platform_key :: "string \<Rightarrow> bool" where
  "platform_key key =
     list_ex (\<lambda>k. list_ex (\<lambda>i. platform_tail (drop i k)) [0..<length k])
       (key # (if ends_with [nl] key then [butlast key] else []))"

subsection \<open>Restoring\<close>

record restoring =
  rs_complete :: "string list"
  rs_unresolved :: "string list"
  rs_failures :: "string list"
  rs_platform_failed :: bool

definition retain_key :: "string \<Rightarrow> string \<Rightarrow> restoring \<Rightarrow> restoring" where
  "retain_key key m st = st\<lparr>rs_failures := rs_failures st @ [key @ '': '' @ m], rs_unresolved := rs_unresolved st @ [key]\<rparr>"

definition device_of :: "string \<Rightarrow> string" where
  "device_of key = takeWhile (\<lambda>c. c \<noteq> CHR ''/'') key @ ''/''"

definition restore_call :: "hw_env \<Rightarrow> knob \<Rightarrow> string \<Rightarrow> pyval \<Rightarrow> unit hw_io" where
  "restore_call env k key v =
     bindF (if kn_restorable k then bindF (read_knob key) (\<lambda>current. retF (current \<noteq> v)) else retF True) (\<lambda>differs.
     seqF (whenF (differs \<or> kn_has_restore k)
             (call_knob env key (if kn_has_restore k then CallRestore v else CallWrite v)))
     (if kn_restorable k
      then bindF (read_knob key) (\<lambda>current.
           assertF (current = v) (TuningError ''restoration readback differs from original value''))
      else retF ()))"

definition restore_key :: "hw_env \<Rightarrow> knobs \<Rightarrow> restoring \<Rightarrow> string \<times> pyval \<Rightarrow> restoring hw_io" where
  "restore_key env knobs st kv =
     (case kv of (key, v) \<Rightarrow>
      bindF (liftE (knob_at knobs key)) (\<lambda>k.
      if rs_platform_failed st
      then retF (retain_key key ''retained until firmware profile restoration succeeds'' st)
      else if kn_setting k = ''PERSISTENCE_MODE'' \<and> is_int 0 v
              \<and> list_ex (\<lambda>failed. starts_with (device_of key) failed) (rs_unresolved st)
      then retF (retain_key key ''persistence retained for incomplete device restoration'' st)
      else
        catchF (seqF (restore_call env k key v) (retF (st\<lparr>rs_complete := rs_complete st @ [key]\<rparr>)))
          is_restore_error
          (\<lambda>exc. retF ((retain_key key (exn_str exc) st)
              \<lparr>rs_platform_failed := rs_platform_failed st \<or> kn_setting k = ''PLATFORM_PROFILE''\<rparr>))))"

text \<open>Later writes may have changed an earlier control: read every restored one again.\<close>

definition verify_key ::
    "knobs \<Rightarrow> (string \<times> pyval) list \<Rightarrow> restoring \<Rightarrow> string \<Rightarrow> restoring hw_io" where
  "verify_key knobs restore st key =
     bindF (liftE (knob_at knobs key)) (\<lambda>k.
     catchF
       (if kn_restorable k
        then bindF (read_knob key) (\<lambda>current.
             seqF (assertF (Some current = map_of restore key)
                     (TuningError ''final restoration readback differs from original value''))
             (retF st))
        else retF st)
       is_restore_error
       (\<lambda>exc. retF (st\<lparr>rs_complete := filter (\<lambda>x. x \<noteq> key) (rs_complete st),
                       rs_failures := rs_failures st @ [key @ '': '' @ exn_str exc]\<rparr>)))"

definition companions_at :: "knobs \<Rightarrow> string \<Rightarrow> string list" where
  "companions_at knobs key = (case map_of knobs key of None \<Rightarrow> [] | Some k \<Rightarrow> kn_companions k)"

definition pair_at :: "knobs \<Rightarrow> string \<Rightarrow> string option" where
  "pair_at knobs key = (case map_of knobs key of None \<Rightarrow> None | Some k \<Rightarrow> pair_of k)"

text \<open>A failed key keeps the entries of its domain.\<close>

definition retains :: "knobs \<Rightarrow> string \<Rightarrow> string \<Rightarrow> bool" where
  "retains knobs failed key =
     (setting_at knobs failed = ''PLATFORM_PROFILE''
      \<or> key \<in> set (companions_at knobs failed) \<or> failed \<in> set (companions_at knobs key)
      \<or> pair_at knobs failed \<noteq> None \<and> pair_at knobs key = pair_at knobs failed
      \<or> cpu_coupled knobs failed \<and> cpu_coupled knobs key)"

definition retained_keys :: "knobs \<Rightarrow> entry list \<Rightarrow> string list \<Rightarrow> string list \<Rightarrow> string list" where
  "retained_keys knobs es restored failed =
     filter (\<lambda>key. key \<in> set failed \<or> failed \<noteq> [] \<and> platform_owned knobs es
               \<or> list_ex (\<lambda>f. retains knobs f key) failed) restored"

definition drop_entries :: "string list \<Rightarrow> journal \<Rightarrow> journal" where
  "drop_entries keys j =
     (let es = filter (\<lambda>e. en_id e \<notin> set keys) (jr_entries j) in
      \<lparr>jr_profile = if es = [] then None else jr_profile j, jr_entries = es\<rparr>)"

definition restore_all :: "hw_env \<Rightarrow> knobs \<Rightarrow> entry list \<Rightarrow> classes \<Rightarrow> restoring hw_io" where
  "restore_all env knobs es c =
     (let keys = map fst (cl_restore c);
          unresolved = filter (\<lambda>i. i \<notin> set keys \<and> i \<notin> set (cl_yielded c)) (map en_id es) in
      for_ordered knobs (cl_restore c) (restore_key env knobs)
        \<lparr>rs_complete = [], rs_unresolved = unresolved, rs_failures = cl_failures c,
         rs_platform_failed = list_ex (\<lambda>k. platform_key k \<or> setting_at knobs k = ''PLATFORM_PROFILE'') unresolved\<rparr>)"

definition verify_all :: "knobs \<Rightarrow> (string \<times> pyval) list \<Rightarrow> restoring \<Rightarrow> restoring hw_io" where
  "verify_all knobs restore st = foldF (verify_key knobs restore) st (sort (rs_complete st))"

definition finish_reset ::
    "hw_env \<Rightarrow> knobs \<Rightarrow> entry list \<Rightarrow> classes \<Rightarrow> restoring \<Rightarrow> (int \<times> string list) hw_io" where
  "finish_reset env knobs es c st =
     (let keys = map fst (cl_restore c);
          failed = filter (\<lambda>k. k \<notin> set (rs_complete st)) keys;
          complete = filter (\<lambda>k. k \<notin> set (retained_keys knobs es keys failed)) (rs_complete st) in
      seqF (assign (\<lambda>w. w\<lparr>hw_journal := drop_entries (complete @ cl_yielded c) (hw_journal w)\<rparr>))
      (seqF (save env)
      (seqF (assertF (rs_failures st = [])
               (TuningError (''restoration incomplete; journal retained: '' @ join ''; '' (rs_failures st))))
      (retF (int (length complete), sort (remdups (cl_yielded c)))))))"

definition reset :: "hw_env \<Rightarrow> knobs \<Rightarrow> (int \<times> string list) hw_io" where
  "reset env knobs =
     bindF (look (\<lambda>w. jr_entries (hw_journal w))) (\<lambda>es.
     bindF (foldF (classify_entry knobs) \<lparr>cl_restore = [], cl_yielded = [], cl_failures = []\<rparr> es) (\<lambda>found.
     let c = yield_coupled knobs es found in
     seqF (assign (\<lambda>w. w\<lparr>hw_journal := mark_pending (map fst (cl_restore c)) (hw_journal w)\<rparr>))
     (seqF (whenF (cl_restore c \<noteq> []) (save env))
     (bindF (restore_all env knobs es c) (\<lambda>st.
      bindF (verify_all knobs (cl_restore c) st) (\<lambda>st.
      finish_reset env knobs es c st))))))"

end
