(* ===== verification/HwApply.thy ===== *)
theory HwApply
  imports HwReset
begin

text \<open>
  \<open>hardware_tuning/engine.py\<close>, part 3: \<open>Engine.plan\<close> and \<open>Engine.apply\<close>. A plan resolves every control
  of the inventory; an application snapshots the controls it will change and their side-effect domains
  into the journal before the first write, and resets when anything goes wrong.
\<close>

subsection \<open>The plan\<close>

definition CONDITIONAL :: "string list" where
  "CONDITIONAL = [''supported-max'', ''supported-1'']"

definition profile_index :: "string \<Rightarrow> nat" where
  "profile_index name = index_of name PROFILES"

definition plan_setting :: "settings \<Rightarrow> knobs \<Rightarrow> string \<Rightarrow> string list \<Rightarrow> string \<times> string \<Rightarrow> string list res" where
  "plan_setting settings knobs name skips sv =
     (case sv of (setting, v) \<Rightarrow>
      if v \<noteq> ''keep'' \<and> setting \<notin> set (map (\<lambda>k. kn_setting (snd k)) knobs) then
        if v \<in> set CONDITIONAL
        then Inr (skips @ [setting @ '': unavailable; conditional capability request skipped''])
        else (case map_of settings setting of
            None \<Rightarrow> Inl (KeyErr setting)
          | Some defaults \<Rightarrow>
              if length defaults \<le> profile_index name then Inl (KeyErr setting)
              else if v \<noteq> defaults ! profile_index name
              then Inl (TuningError (''explicit request for unsupported knob: '' @ setting))
              else Inr (skips @ [setting @ '': unavailable; portable default skipped'']))
      else Inr skips)"

definition plan_value :: "policy \<Rightarrow> profile \<Rightarrow> (string \<times> pyval) list \<Rightarrow> string \<times> knob \<Rightarrow> (string \<times> pyval) list res" where
  "plan_value pol prof values entry =
     (case entry of (key, k) \<Rightarrow>
      bindE (resolve k (configured_value prof k) pol) (\<lambda>resolved.
      case resolved of
        None \<Rightarrow> Inr values
      | Some v \<Rightarrow>
          bindE (if kn_setting k = ''TARGET_TEMPERATURE_C'' then py_gt v (PInt (pol_max_temp pol)) else Inr False)
            (\<lambda>hot. if hot then Inl (TuningError ''temperature target exceeds the thermal interlock'')
                   else Inr (values @ [(key, v)]))))"

text \<open>The value a control will have: the planned one, or what it reads now.\<close>

definition planned :: "(string \<times> pyval) list \<Rightarrow> knob \<Rightarrow> pyval hw_io" where
  "planned values k =
     (case map_of values (kn_id k) of Some v \<Rightarrow> retF v | None \<Rightarrow> read_knob (kn_id k))"

type_synonym pair_table = "(string \<times> (string option \<times> knob) list) list"

definition add_member :: "pair_table \<Rightarrow> knob \<Rightarrow> pair_table" where
  "add_member table k =
     (case pair_of k of
        None \<Rightarrow> table
      | Some p \<Rightarrow> dset p (dset (kn_side k) k (case map_of table p of None \<Rightarrow> [] | Some m \<Rightarrow> m)) table)"

definition pair_table :: "knobs \<Rightarrow> pair_table" where
  "pair_table knobs = foldl add_member [] (map snd knobs)"

definition member_at :: "(string option \<times> 'a) list \<Rightarrow> string \<Rightarrow> 'a res" where
  "member_at members side = (case map_of members (Some side) of None \<Rightarrow> Inl (KeyErr side) | Some x \<Rightarrow> Inr x)"

definition check_pair :: "(string \<times> pyval) list \<Rightarrow> string \<times> (string option \<times> knob) list \<Rightarrow> unit hw_io" where
  "check_pair values entry =
     (case entry of (pair_name, members) \<Rightarrow>
      if \<not> list_ex (\<lambda>(side, k). kn_id k \<in> set (map fst values)) members then retF ()
      else
        bindF (mapF (\<lambda>(side, k). bindF (planned values k) (\<lambda>v. retF (side, v))) members) (\<lambda>pair.
        if length pair \<noteq> 2 then retF ()
        else
          bindF (liftE (member_at pair ''min'')) (\<lambda>lo.
          bindF (liftE (member_at pair ''max'')) (\<lambda>hi.
          bindF (liftE (py_gt lo hi)) (\<lambda>inverted.
          seqF (assertF (\<not> inverted) (TuningError (''inverted min/max pair: '' @ pair_name)))
          (bindF (liftE (member_at members ''min'')) (\<lambda>low.
           assertF (\<not> (kn_setting low = ''GPU_RPS_DOWN_THRESHOLD_PCT'' \<and> lo = hi))
             (TuningError ''GPU RPS down threshold must be below its up threshold''))))))))"

text \<open>\<open>id.rsplit("/", 1)[0]\<close>\<close>

definition directory_of :: "string \<Rightarrow> string" where
  "directory_of key =
     (if CHR ''/'' \<in> set key then rev (tl (dropWhile (\<lambda>c. c \<noteq> CHR ''/'') (rev key))) else key)"

definition governor_table :: "knobs \<Rightarrow> (string \<times> knob) list" where
  "governor_table knobs =
     foldl (\<lambda>t k. if kn_setting k = ''CPU_GOVERNOR'' then dset (directory_of (kn_id k)) k t else t) [] (map snd knobs)"

definition check_epp_knob :: "(string \<times> knob) list \<Rightarrow> (string \<times> pyval) list \<Rightarrow> knob \<Rightarrow> unit hw_io" where
  "check_epp_knob governors values k =
     (if kn_setting k \<noteq> ''CPU_EPP'' then retF ()
      else case map_of governors (directory_of (kn_id k)) of
        None \<Rightarrow> retF ()
      | Some g \<Rightarrow>
          bindF (planned values g) (\<lambda>gov.
          if gov \<noteq> PStr ''performance'' then retF ()
          else bindF (planned values k) (\<lambda>epp.
               assertF (epp = PStr ''performance'')
                 (TuningError ''performance governor cannot be combined with non-performance EPP''))))"

definition check_gpu_clocks :: "knobs \<Rightarrow> (string \<times> pyval) list \<Rightarrow> string \<Rightarrow> unit res" where
  "check_gpu_clocks knobs values device =
     (let families = map (setting_at knobs) (filter (starts_with (device @ ''/'')) (map fst values)) in
      guardE (\<not> (''APPLICATION_CLOCKS_MHZ'' \<in> set families
               \<and> list_ex (\<lambda>f. f \<in> {''GPU_LOCK_MHZ'', ''MEMORY_LOCK_MHZ'', ''GPU_OFFSET_MHZ'', ''MEMORY_OFFSET_MHZ''}) families))
        (TuningError (''choose application clocks OR offsets/clock locks for '' @ device)))"

definition gpu_devices :: "(string \<times> pyval) list \<Rightarrow> string list" where
  "gpu_devices values =
     remdups (map (takeWhile (\<lambda>c. c \<noteq> CHR ''/'')) (filter (starts_with ''GPU-'') (map fst values)))"

definition plan ::
    "hw_env \<Rightarrow> policy option \<Rightarrow> knobs \<Rightarrow> string \<Rightarrow> settings \<Rightarrow> ((string \<times> pyval) list \<times> string list) hw_io" where
  "plan env pol knobs name settings =
     (case pol of
        None \<Rightarrow> raiseF (TuningError ''invalid profile'')
      | Some p \<Rightarrow>
          (case map_of (pol_profiles p) name of
             None \<Rightarrow> raiseF (TuningError ''invalid profile'')
           | Some prof \<Rightarrow>
               let unknown = sort (filter (\<lambda>k. k \<notin> set (map fst knobs)) (map fst (pr_overrides prof))) in
               seqF (assertF (unknown = [])
                       (TuningError (''unknown/unavailable device overrides: '' @ join '', '' unknown)))
               (bindF (liftE (foldE (plan_setting settings knobs name) [] (pr_knobs prof))) (\<lambda>skipped.
                bindF (liftE (foldE (plan_value p prof) [] knobs)) (\<lambda>values.
                seqF (forF (check_pair values) (pair_table knobs))
                (seqF (forF (check_epp_knob (governor_table knobs) values) (map snd knobs))
                (seqF (check_ownership env values)
                (seqF (forF (\<lambda>d. liftE (check_gpu_clocks knobs values d)) (gpu_devices values))
                (retF (values, skipped))))))))))"

subsection \<open>Side effects\<close>

definition COUPLED_BY :: "string list" where
  "COUPLED_BY = [''CPU_GOVERNOR'', ''CPU_NO_TURBO'', ''CPU_MIN_PERF_PCT'', ''CPU_MAX_PERF_PCT'']"

definition COUPLED_TO :: "string list" where
  "COUPLED_TO = [''CPU_GOVERNOR'', ''CPU_EPP'', ''CPU_EPB'', ''CPU_MIN_PERF_PCT'', ''CPU_MAX_PERF_PCT'',
     ''CPU_MIN_FREQ_KHZ'', ''CPU_MAX_FREQ_KHZ'', ''CPU_NO_TURBO'']"

text \<open>The controls that a write to a control may change.\<close>

definition side_effects :: "knobs \<Rightarrow> string \<Rightarrow> string list" where
  "side_effects knobs key =
     (case map_of knobs key of
        None \<Rightarrow> [key]
      | Some k \<Rightarrow>
          key # filter (\<lambda>c. c \<in> set (map fst knobs)) (kn_companions k)
          @ (if pair_of k \<noteq> None then map kn_id (filter (\<lambda>m. kn_pair m = kn_pair k) (map snd knobs)) else [])
          @ (if kn_setting k \<in> set COUPLED_BY
             then map kn_id (filter (\<lambda>m. kn_setting m \<in> set COUPLED_TO) (map snd knobs)) else [])
          @ (if kn_setting k = ''PLATFORM_PROFILE''
             then map kn_id (filter (\<lambda>m. kn_setting m \<in> set CPU_POLICY \<or> starts_with ''GPU_'' (kn_setting m)
                    \<or> starts_with ''UNCORE_'' (kn_setting m)) (map snd knobs)) else []))"

definition affected_keys :: "knobs \<Rightarrow> string list \<Rightarrow> string list" where
  "affected_keys knobs changed = sort (remdups (changed @ concat (map (side_effects knobs) changed)))"

definition differs :: "knobs \<Rightarrow> string \<times> pyval \<Rightarrow> bool hw_io" where
  "differs knobs kv =
     bindF (liftE (knob_at knobs (fst kv))) (\<lambda>k.
     if \<not> kn_restorable k then retF True
     else bindF (read_knob (fst kv)) (\<lambda>v. retF (v \<noteq> snd kv)))"

definition changed_keys :: "knobs \<Rightarrow> (string \<times> pyval) list \<Rightarrow> string list hw_io" where
  "changed_keys knobs values =
     bindF (mapF (\<lambda>kv. bindF (differs knobs kv) (\<lambda>b. retF (fst kv, b))) values) (\<lambda>flags.
     retF (map fst (filter snd flags)))"

subsection \<open>Writing\<close>

record writing =
  wr_values :: "(string \<times> pyval) list"
  wr_count :: int
  wr_selections :: "(string \<times> pyval \<times> pyval) list"
  wr_unmodified :: "string list"
  wr_skipped :: "string list"

definition ddrop :: "string \<Rightarrow> (string \<times> 'a) list \<Rightarrow> (string \<times> 'a) list" where
  "ddrop key d = filter (\<lambda>kv. fst kv \<noteq> key) d"

definition set_requested :: "string \<Rightarrow> pyval \<Rightarrow> unit hw_io" where
  "set_requested key v = assign (\<lambda>w. w\<lparr>hw_journal := (hw_journal w)\<lparr>jr_entries :=
     map (\<lambda>e. if en_id e = key then e\<lparr>en_requested := v\<rparr> else e) (jr_entries (hw_journal w))\<rparr>\<rparr>)"

definition skip_request :: "string \<Rightarrow> string \<Rightarrow> writing \<Rightarrow> writing hw_io" where
  "skip_request key why st =
     seqF (set_requested key PNone)
     (retF (st\<lparr>wr_values := ddrop key (wr_values st), wr_skipped := wr_skipped st @ [key @ why],
               wr_unmodified := wr_unmodified st @ [key]\<rparr>))"

definition write_selected ::
    "hw_env \<Rightarrow> policy \<Rightarrow> string \<Rightarrow> knob \<Rightarrow> string \<Rightarrow> pyval \<Rightarrow> pyval \<Rightarrow> writing \<Rightarrow> writing hw_io" where
  "write_selected env pol key k configured v prior st =
     bindF (call_knob env key CallMaximum) (\<lambda>selected.
     let st = st\<lparr>wr_selections := wr_selections st @ [(key, v, selected)]\<rparr> in
     case selected of
       PStr text \<Rightarrow>
         bindF (liftE (resolve k text pol)) (\<lambda>resolved.
         let new = opt_val id resolved in
         seqF (set_requested key new)
         (retF (st\<lparr>wr_values := dset key new (wr_values st),
                   wr_count := wr_count st + (if selected \<noteq> prior then 1 else 0),
                   wr_unmodified := wr_unmodified st @ (if selected = prior then [key] else [])\<rparr>)))
     | PNone \<Rightarrow>
         if configured \<noteq> ''supported-max''
         then raiseF (TuningError (key @ '': no working advertised maximum clock pair''))
         else skip_request key '': no working advertised clock pair; conditional request skipped'' st
     | _ \<Rightarrow> raiseF (TuningError ''tuning values must be bounded scalar strings''))"

text \<open>The observation is \<open>None\<close> when the request is unconditional or some affected control has no getter.\<close>

definition observe :: "knobs \<Rightarrow> string list \<Rightarrow> string \<Rightarrow> (string \<times> pyval) list option hw_io" where
  "observe knobs affected configured =
     (if configured \<in> set CONDITIONAL \<and> list_all (restorable_at knobs) affected
      then bindF (mapF (\<lambda>key. bindF (read_knob key) (\<lambda>v. retF (key, v))) affected) (\<lambda>obs. retF (Some obs))
      else retF None)"

fun is_unsupported :: "pyexn \<Rightarrow> bool" where
  "is_unsupported (UnsupportedControl m) = True"
| "is_unsupported e = False"

definition write_direct ::
    "hw_env \<Rightarrow> knobs \<Rightarrow> string list \<Rightarrow> string \<Rightarrow> string \<Rightarrow> pyval \<Rightarrow> writing \<Rightarrow> writing hw_io" where
  "write_direct env knobs affected key configured v st =
     bindF (observe knobs affected configured) (\<lambda>observed.
     catchF
       (seqF (call_knob env key (CallWrite v)) (retF (st\<lparr>wr_count := wr_count st + 1\<rparr>)))
       is_unsupported
       (\<lambda>exc. case observed of
          None \<Rightarrow> raiseF exc
        | Some obs \<Rightarrow>
            bindF (existsF (\<lambda>(k, old). bindF (read_knob k) (\<lambda>now. retF (now \<noteq> old))) obs) (\<lambda>moved.
            if moved
            then raiseF (TuningError (key @ '': unsupported setter changed state; request not skipped''))
            else skip_request key '': setter unsupported; conditional request skipped'' st)))"

definition write_key ::
    "hw_env \<Rightarrow> policy \<Rightarrow> profile \<Rightarrow> knobs \<Rightarrow> string list \<Rightarrow> writing \<Rightarrow> string \<times> pyval \<Rightarrow> writing hw_io" where
  "write_key env pol prof knobs affected st kv =
     (case kv of (key, v) \<Rightarrow>
      bindF (liftE (knob_at knobs key)) (\<lambda>k.
      bindF (if kn_restorable k then read_knob key else retF PNone) (\<lambda>prior.
      if kn_restorable k \<and> prior = v then retF st
      else
        let configured = configured_value prof k in
        if kn_has_maximum k \<and> configured \<in> {''max'', ''supported-max''}
        then write_selected env pol key k configured v prior st
        else write_direct env knobs affected key configured v st)))"

subsection \<open>Reading back\<close>

definition set_last :: "string \<Rightarrow> pyval \<Rightarrow> unit hw_io" where
  "set_last key v = assign (\<lambda>w. w\<lparr>hw_journal := (hw_journal w)\<lparr>jr_entries :=
     map (\<lambda>e. if en_id e = key then e\<lparr>en_last := v\<rparr> else e) (jr_entries (hw_journal w))\<rparr>\<rparr>)"

definition clear_pending :: "string \<Rightarrow> unit hw_io" where
  "clear_pending key = assign (\<lambda>w. w\<lparr>hw_journal := (hw_journal w)\<lparr>jr_entries :=
     map (\<lambda>e. if en_id e = key then e\<lparr>en_pending := False\<rparr> else e) (jr_entries (hw_journal w))\<rparr>\<rparr>)"

definition confirm_key :: "policy \<Rightarrow> knobs \<Rightarrow> (string \<times> pyval) list \<Rightarrow> string \<Rightarrow> unit hw_io" where
  "confirm_key pol knobs values key =
     bindF (liftE (knob_at knobs key)) (\<lambda>k.
     bindF (if kn_restorable k then read_knob key
            else liftE (case map_of values key of None \<Rightarrow> Inl (KeyErr key) | Some v \<Rightarrow> Inr v)) (\<lambda>last_value.
     seqF (set_last key last_value)
     (seqF (case map_of values key of
              None \<Rightarrow> retF ()
            | Some v \<Rightarrow>
                whenF (kn_restorable k)
                  (seqF (liftE (resolve k (py_str last_value) pol))
                   (assertF (last_value = v) (TuningError (kn_id k @ '': requested '' @ py_repr v @ '', read back ''
                      @ py_repr last_value @ ''; rejected, quantized or overridden request'')))))
     (clear_pending key))))"

definition forget_unmodified :: "string list \<Rightarrow> unit hw_io" where
  "forget_unmodified keys = assign (\<lambda>w. w\<lparr>hw_journal := (hw_journal w)\<lparr>jr_entries :=
     filter (\<lambda>e. en_id e \<notin> set keys \<or> en_last e \<noteq> en_before e) (jr_entries (hw_journal w))\<rparr>\<rparr>)"

record applied =
  ap_profile :: string
  ap_changed :: int
  ap_controls :: "entry list"
  ap_skipped :: "string list"
  ap_selections :: "(string \<times> pyval \<times> pyval) list"
  ap_temperature :: "temperature option"

text \<open>The body of the \<open>try\<close>; the controls of the result are the entries as they are confirmed.\<close>

definition perform ::
    "hw_env \<Rightarrow> policy \<Rightarrow> profile \<Rightarrow> knobs \<Rightarrow> string \<Rightarrow> string list \<Rightarrow> (string \<times> pyval) list \<Rightarrow> string list
      \<Rightarrow> temperature option \<Rightarrow> applied hw_io" where
  "perform env pol prof knobs name affected values skips temp =
     bindF (for_ordered knobs values (write_key env pol prof knobs affected)
        \<lparr>wr_values = values, wr_count = 0, wr_selections = [], wr_unmodified = [], wr_skipped = skips\<rparr>) (\<lambda>st.
     seqF (forF (confirm_key pol knobs (wr_values st)) affected)
     (bindF (look (\<lambda>w. jr_entries (hw_journal w))) (\<lambda>controls.
      seqF (forget_unmodified (wr_unmodified st))
      (seqF (save env)
      (retF \<lparr>ap_profile = name, ap_changed = wr_count st, ap_controls = controls, ap_skipped = wr_skipped st,
             ap_selections = wr_selections st, ap_temperature = temp\<rparr>)))))"

definition recover :: "hw_env \<Rightarrow> knobs \<Rightarrow> pyexn \<Rightarrow> 'a hw_io" where
  "recover env knobs exc =
     seqF (catchF (reset env knobs) is_recoverable
             (\<lambda>recovery. raiseF (TuningError (''apply failed ('' @ exn_str exc @ ''); recovery failed (''
                @ exn_str recovery @ '')''))))
     (raiseF exc)"

subsection \<open>Applying a profile\<close>

definition yield_or_reset :: "hw_env \<Rightarrow> policy option \<Rightarrow> knobs \<Rightarrow> unit hw_io" where
  "yield_or_reset env pol knobs =
     bindF (look (\<lambda>w. jr_entries (hw_journal w))) (\<lambda>es.
     if es = [] then retF ()
     else
       bindF (health env pol knobs) (\<lambda>h.
       seqF (reset env knobs)
       (assertF (hl_conflicts h = [])
          (TuningError (''yielding to external/thermal policy: '' @ join ''; '' (hl_conflicts h))))))"

definition risky_plan :: "knobs \<Rightarrow> (string \<times> pyval) list \<Rightarrow> bool res" where
  "risky_plan knobs values =
     (let any = (\<lambda>f. existsE (\<lambda>(key, v). bindE (knob_at knobs key) (\<lambda>k. f k v)) values) in
      bindE (any (\<lambda>k v. if kn_overclock k then py_gt v (PInt 0) else Inr False)) (\<lambda>a.
      bindE (if a then Inr True
             else any (\<lambda>k v. case kn_power_default k of None \<Rightarrow> Inr False | Some d \<Rightarrow> py_gt v d)) (\<lambda>b.
      if b then Inr True
      else any (\<lambda>k v. Inr (kn_setting k = ''PLATFORM_PROFILE'' \<and> v = PStr ''performance'')))))"

definition snapshot :: "(string \<times> pyval) list \<Rightarrow> string list \<Rightarrow> entry list hw_io" where
  "snapshot values affected =
     mapF (\<lambda>key. bindF (read_knob key) (\<lambda>v.
        retF \<lparr>en_id = key, en_before = v, en_last = PNone, en_pending = True, en_requested = dget key values\<rparr>)) affected"

definition check_temperature :: "policy \<Rightarrow> temperature option \<Rightarrow> unit res" where
  "check_temperature p temp =
     (case temp of
        None \<Rightarrow> Inr ()
      | Some t \<Rightarrow> guardE (t_milli t < 1000 * pol_max_temp p)
          (TuningError (''thermal interlock prevents applying this profile: '' @ t_short t @ '' C >= ''
             @ int_str (pol_max_temp p) @ '' C'')))"

definition apply_planned ::
    "hw_env \<Rightarrow> policy \<Rightarrow> profile \<Rightarrow> knobs \<Rightarrow> string \<Rightarrow> (string \<times> pyval) list \<times> string list \<Rightarrow> applied hw_io" where
  "apply_planned env pol prof knobs name planned_values =
     (case planned_values of (values, skips) \<Rightarrow>
      bindF (temperature env) (\<lambda>temp.
      seqF (liftE (check_temperature pol temp))
      (bindF (liftE (risky_plan knobs values)) (\<lambda>risky.
       seqF (assertF (\<not> (risky \<and> temp = None))
               (TuningError ''overclock/power increases require a readable temperature sensor''))
       (bindF (changed_keys knobs values) (\<lambda>changed.
        let affected = affected_keys knobs changed;
            kept = filter (\<lambda>kv. fst kv \<in> set affected) values in
        bindF (snapshot kept affected) (\<lambda>entries.
        seqF (set_journal \<lparr>jr_profile = Some name, jr_entries = entries\<rparr>)
        (seqF (save env)
        (catchF (perform env pol prof knobs name affected kept skips temp) (\<lambda>e. True) (recover env knobs))))))))))"

definition apply_profile :: "hw_env \<Rightarrow> policy option \<Rightarrow> knobs \<Rightarrow> string \<Rightarrow> settings \<Rightarrow> applied hw_io" where
  "apply_profile env pol knobs name settings =
     seqF (yield_or_reset env pol knobs)
     (bindF (plan env pol knobs name settings) (\<lambda>planned_values.
      case pol of
        None \<Rightarrow> raiseF (TuningError ''invalid profile'')
      | Some p \<Rightarrow>
          (case map_of (pol_profiles p) name of
             None \<Rightarrow> raiseF (TuningError ''invalid profile'')
           | Some prof \<Rightarrow> apply_planned env p prof knobs name planned_values)))"

end
