(* ===== verification/HwResetFacts.thy ===== *)
theory HwResetFacts
  imports HwReset
begin

text \<open>
  Recovery under every fault script: no baseline value is ever lost, a value that another power manager
  set is never overwritten, and a reset that returns has restored everything.
\<close>

subsection \<open>Steps of the engine\<close>

definition hw_part :: "hw_world \<Rightarrow> regs \<times> (string \<times> call) list \<times> journal" where
  "hw_part w = (hw_regs w, hw_log w, hw_journal w)"

lemma hw_part_rest: "store_rest v = store_rest w \<Longrightarrow> hw_part v = hw_part w"
  by (cases v; cases w) (simp add: store_rest_def hw_part_def)

definition disk_doc :: "hw_env \<Rightarrow> hw_world \<Rightarrow> pyval option" where
  "disk_doc env w = (case js_files w (he_path env) of None \<Rightarrow> None | Some f \<Rightarrow> jt_doc f)"

lemma save_wp:
  assumes "\<And>t. disk_doc env (sys_world t) = Some (journal_doc (hw_journal (sys_world s)))
      \<Longrightarrow> hw_part (sys_world t) = hw_part (sys_world s) \<Longrightarrow> Q () t"
    and "\<And>e t. disk_doc env (sys_world t) = disk_doc env (sys_world s)
      \<Longrightarrow> hw_part (sys_world t) = hw_part (sys_world s) \<Longrightarrow> E e t"
    and "\<And>e t. disk_doc env (sys_world t) = Some (journal_doc (hw_journal (sys_world s)))
      \<Longrightarrow> hw_part (sys_world t) = hw_part (sys_world s) \<Longrightarrow> E e t"
  shows "wpF (save env) Q E s"
  unfolding save_def wp
  by (rule journals.write_wp)
    (use assms in \<open>auto simp: disk_doc_def json_file_def dest!: hw_part_rest\<close>)

lemma read_knob_wp:
  assumes "\<And>v t. sys_world t = sys_world s \<Longrightarrow> hw_regs (sys_world s) key = Inr v \<Longrightarrow> Q v t"
    and "\<And>e t. sys_world t = sys_world s \<Longrightarrow> E e t"
  shows "wpF (read_knob key) Q E s"
  unfolding read_knob_def wp
  by (rule wpF_skipI) (use assms in \<open>auto simp: wp split: sum.split\<close>)

lemma call_knob_wp:
  assumes "\<And>v t. sys_world t = apply_call env key c (sys_world s) \<Longrightarrow> Q v t"
    and "\<And>e t. sys_world t = sys_world s \<Longrightarrow> E e t"
    and "\<And>e t. sys_world t = apply_call env key c (sys_world s) \<Longrightarrow> E e t"
  shows "wpF (call_knob env key c) Q E s"
  unfolding call_knob_def wp
  by (rule wpF_opI) (use assms in \<open>auto simp: wp split: sum.split\<close>)

lemma catch_wp:
  assumes "wpF m Q (\<lambda>e t. if e \<noteq> Killed \<and> c e then wpF (h e) Q E t else E e t) s"
  shows "wpF (catchF m c h) Q E s"
  using assms by (simp add: wpF_catch)

subsection \<open>Classification\<close>

definition changed_outside :: "hw_world \<Rightarrow> knobs \<Rightarrow> entry \<Rightarrow> bool" where
  "changed_outside w knobs e \<longleftrightarrow> restorable_at knobs (en_id e) \<and> \<not> en_pending e
     \<and> (\<exists>v. hw_regs w (en_id e) = Inr v \<and> v \<noteq> en_last e)"

text \<open>An entry of the inventory whose control, or a coupled one, another manager has changed.\<close>

definition released :: "hw_world \<Rightarrow> knobs \<Rightarrow> entry list \<Rightarrow> entry \<Rightarrow> bool" where
  "released w knobs es e \<longleftrightarrow> map_of knobs (en_id e) \<noteq> None \<and> (\<exists>e' \<in> set es. changed_outside w knobs e'
     \<and> (e' = e \<or> platform_owned knobs es \<or> cpu_coupled knobs (en_id e') \<and> cpu_coupled knobs (en_id e)))"

definition classified :: "hw_world \<Rightarrow> knobs \<Rightarrow> entry list \<Rightarrow> (entry \<Rightarrow> bool) \<Rightarrow> classes \<Rightarrow> bool" where
  "classified w knobs es yields c \<longleftrightarrow>
     (\<forall>kv \<in> set (cl_restore c). map_of knobs (fst kv) \<noteq> None
        \<and> (\<exists>e \<in> set es. kv = (en_id e, en_before e) \<and> \<not> changed_outside w knobs e))
     \<and> (\<forall>k \<in> set (cl_yielded c). \<exists>e \<in> set es. en_id e = k \<and> yields e)
     \<and> (cl_failures c = [] \<longrightarrow> en_id ` set es \<subseteq> fst ` set (cl_restore c) \<union> set (cl_yielded c))
     \<and> distinct (map fst (cl_restore c) @ cl_yielded c)"

lemma classified_snoc:
  assumes "classified w knobs es yields c" "distinct (map en_id (es @ [e]))"
  shows "map_of knobs (en_id e) \<noteq> None \<Longrightarrow> \<not> changed_outside w knobs e \<Longrightarrow>
      classified w knobs (es @ [e]) yields (c\<lparr>cl_restore := cl_restore c @ [(en_id e, en_before e)]\<rparr>)"
    and "yields e \<Longrightarrow> classified w knobs (es @ [e]) yields (c\<lparr>cl_yielded := cl_yielded c @ [en_id e]\<rparr>)"
    and "classified w knobs (es @ [e]) yields (add_class_failure m c)"
proof -
  have new: "en_id e' \<noteq> en_id e" if "e' \<in> set es" for e' using assms(2) that by (force simp: image_iff)
  have restores: "\<forall>kv \<in> set (cl_restore c). map_of knobs (fst kv) \<noteq> None
        \<and> (\<exists>e \<in> set es. kv = (en_id e, en_before e) \<and> \<not> changed_outside w knobs e)"
    and yielded: "\<forall>k \<in> set (cl_yielded c). \<exists>e \<in> set es. en_id e = k \<and> yields e"
    and covers: "cl_failures c = [] \<longrightarrow> en_id ` set es \<subseteq> fst ` set (cl_restore c) \<union> set (cl_yielded c)"
    and dist: "distinct (map fst (cl_restore c) @ cl_yielded c)"
    using assms(1) unfolding classified_def by blast+
  have fresh: "en_id e \<notin> fst ` set (cl_restore c)" "en_id e \<notin> set (cl_yielded c)"
    using restores yielded new by (metis (no_types, lifting) fst_conv imageE, metis)
  show "classified w knobs (es @ [e]) yields (c\<lparr>cl_restore := cl_restore c @ [(en_id e, en_before e)]\<rparr>)"
    if "map_of knobs (en_id e) \<noteq> None" "\<not> changed_outside w knobs e"
    using that restores yielded covers dist fresh unfolding classified_def by (intro conjI; simp; blast)
  show "classified w knobs (es @ [e]) yields (c\<lparr>cl_yielded := cl_yielded c @ [en_id e]\<rparr>)" if "yields e"
    using that restores yielded covers dist fresh unfolding classified_def by (intro conjI; simp; blast)
  show "classified w knobs (es @ [e]) yields (add_class_failure m c)"
    using restores yielded covers dist fresh unfolding classified_def add_class_failure_def
    by (intro conjI; simp; blast)
qed

lemma classify_wp:
  fixes s :: "hw_world sys"
  assumes "distinct (map en_id es)"
  shows "wpF (foldF (classify_entry knobs) \<lparr>cl_restore = [], cl_yielded = [], cl_failures = []\<rparr> es)
     (\<lambda>c t. sys_world t = sys_world s \<and> classified (sys_world s) knobs es (changed_outside (sys_world s) knobs) c)
     (\<lambda>e t. sys_world t = sys_world s) s"
proof (rule wpF_fold [where I = "\<lambda>ys c t. sys_world t = sys_world s
        \<and> classified (sys_world s) knobs ys (changed_outside (sys_world s) knobs) c"])
  show "sys_world s = sys_world s \<and> classified (sys_world s) knobs [] (changed_outside (sys_world s) knobs)
      \<lparr>cl_restore = [], cl_yielded = [], cl_failures = []\<rparr>"
    by (simp add: classified_def)
next
  fix ys e zs c and t :: "hw_world sys"
  assume split: "es = ys @ e # zs" and inv: "sys_world t = sys_world s
      \<and> classified (sys_world s) knobs ys (changed_outside (sys_world s) knobs) c"
  have d: "distinct (map en_id (ys @ [e]))" using assms split by auto
  note snoc = classified_snoc [OF conjunct2 [OF inv] d]
  show "wpF (classify_entry knobs c e)
      (\<lambda>c t. sys_world t = sys_world s \<and> classified (sys_world s) knobs (ys @ [e]) (changed_outside (sys_world s) knobs) c)
      (\<lambda>e t. sys_world t = sys_world s) t"
  proof (cases "map_of knobs (en_id e)")
    case None
    then show ?thesis using inv snoc(3) by (simp add: classify_entry_def wp)
  next
    case (Some k)
    then show ?thesis unfolding classify_entry_def
      using inv snoc
      by (auto simp: wp changed_outside_def restorable_at_def intro!: catch_wp read_knob_wp)
  qed
qed

lemma yield_coupled_classified:
  assumes "classified w knobs es (changed_outside w knobs) c"
  shows "classified w knobs es (released w knobs es) (yield_coupled knobs es c)"
proof -
  let ?P = "yields_with knobs es c"
  have old: "\<exists>e' \<in> set es. en_id e' = k \<and> changed_outside w knobs e'" if "k \<in> set (cl_yielded c)" for k
    using assms that unfolding classified_def by blast
  have rel: "\<exists>e \<in> set es. en_id e = k \<and> released w knobs es e" if "k \<in> set (cl_yielded c)" for k
    using old [OF that] unfolding released_def
    by (metis changed_outside_def restorable_at_def option.case(1))
  have new: "\<exists>e \<in> set es. en_id e = k \<and> released w knobs es e"
    if k: "k \<in> fst ` set (cl_restore c)" "?P k" for k
  proof -
    have "map_of knobs k \<noteq> None \<and> (\<exists>e \<in> set es. en_id e = k)"
      using assms k(1) unfolding classified_def by force
    then obtain e where e: "e \<in> set es" "en_id e = k" "map_of knobs k \<noteq> None" by blast
    obtain y where y: "y \<in> set (cl_yielded c)" "platform_owned knobs es \<or> cpu_coupled knobs y \<and> cpu_coupled knobs k"
      using k(2) by (cases "cl_yielded c") (auto simp: yields_with_def list_ex_iff)
    from old [OF y(1)] obtain e' where "e' \<in> set es" "en_id e' = y" "changed_outside w knobs e'" by blast
    then have "released w knobs es e" using e y(2) unfolding released_def by auto
    with e show ?thesis by blast
  qed
  have dist: "distinct (map fst (cl_restore c) @ cl_yielded c)"
    and restores: "\<forall>kv \<in> set (cl_restore c). map_of knobs (fst kv) \<noteq> None
        \<and> (\<exists>e \<in> set es. kv = (en_id e, en_before e) \<and> \<not> changed_outside w knobs e)"
    and covers: "cl_failures c = [] \<longrightarrow> en_id ` set es \<subseteq> fst ` set (cl_restore c) \<union> set (cl_yielded c)"
    using assms unfolding classified_def by blast+
  have keep: "map fst (filter (\<lambda>kv. \<not> ?P (fst kv)) (cl_restore c)) = filter (\<lambda>k. \<not> ?P k) (map fst (cl_restore c))"
    by (simp add: filter_map o_def)
  have "distinct (filter (\<lambda>k. \<not> ?P k) (map fst (cl_restore c)) @ cl_yielded c @ filter ?P (map fst (cl_restore c)))"
    using dist by (auto simp del: set_map)
  moreover have "fst ` set (cl_restore c) \<subseteq> fst ` set (filter (\<lambda>kv. \<not> ?P (fst kv)) (cl_restore c))
      \<union> set (filter ?P (map fst (cl_restore c)))" by auto
  moreover have "\<forall>k \<in> set (cl_yielded c @ filter ?P (map fst (cl_restore c))).
      \<exists>e \<in> set es. en_id e = k \<and> released w knobs es e" using rel new by auto
  moreover have "\<forall>kv \<in> set (filter (\<lambda>kv. \<not> ?P (fst kv)) (cl_restore c)). map_of knobs (fst kv) \<noteq> None
        \<and> (\<exists>e \<in> set es. kv = (en_id e, en_before e) \<and> \<not> changed_outside w knobs e)" using restores by simp
  ultimately show ?thesis
    using covers unfolding classified_def yield_coupled_def by (simp add: keep del: set_filter set_map) blast
qed

subsection \<open>The ordered loop visits every control\<close>

fun batch_keys :: "batch \<Rightarrow> string list" where
  "batch_keys (Single key) = [key]"
| "batch_keys (Paired mates) = map fst mates"

lemma make_batches_cover:
  "set ks \<subseteq> set members \<Longrightarrow>
   fst ` set ks \<subseteq> set finished \<union> (\<Union>b \<in> set (make_batches members finished ks). set (batch_keys b))
   \<and> (\<Union>b \<in> set (make_batches members finished ks). set (batch_keys b)) \<subseteq> fst ` set members
   \<and> (\<forall>mates. Paired mates \<in> set (make_batches members finished ks) \<longrightarrow> length mates = 2)"
proof (induction members finished ks rule: make_batches.induct)
  case (2 members finished key k rest)
  have mates: "set (pair_mates members k) \<subseteq> set members" by (auto simp: pair_mates_def split: option.splits)
  have self: "length (pair_mates members k) = 2 \<Longrightarrow> key \<in> fst ` set (pair_mates members k)"
    using "2.prems" by (force simp: pair_mates_def split: option.splits)
  have rest: "set rest \<subseteq> set members" "key \<in> fst ` set members" using "2.prems" by force+
  show ?case
  proof (cases "key \<in> set finished")
    case True
    then show ?thesis using "2.IH"(1) [OF True rest(1)] by auto
  next
    case False
    show ?thesis
    proof (cases "length (pair_mates members k) = 2")
      case True
      from "2.IH"(2) [OF False refl True rest(1)] True False self [OF True] mates show ?thesis
        by (auto simp: Let_def)
    next
      case nopair: False
      from "2.IH"(3) [OF False refl nopair rest(1)] nopair False rest(2) show ?thesis
        by (auto simp: Let_def)
    qed
  qed
qed simp

lemma find_side_in: "find_side mates side = Inr key \<Longrightarrow> \<exists>k. (key, k) \<in> set mates \<and> kn_side k = Some side"
  unfolding find_side_def by (auto split: option.splits dest!: find_Some_iff [THEN iffD1]) (metis nth_mem)

lemma two_sides:
  assumes "length mates = 2" "find_side mates ''min'' = Inr lo" "find_side mates ''max'' = Inr hi"
  shows "fst ` set mates = {lo, hi}"
proof -
  obtain a b where m: "mates = [a, b]" using assms(1) by (auto simp: length_Suc_conv numeral_2_eq_2)
  obtain k1 k2 where "(lo, k1) \<in> set mates" "kn_side k1 = Some ''min''" "(hi, k2) \<in> set mates" "kn_side k2 = Some ''max''"
    using assms(2,3) find_side_in by metis
  then show ?thesis unfolding m by auto
qed

lemma batch_order_wp:
  assumes "\<And>mates. b = Paired mates \<Longrightarrow> length mates = 2"
    and "\<And>kvs t. sys_world t = sys_world s \<Longrightarrow> fst ` set kvs = set (batch_keys b) \<Longrightarrow>
      \<forall>kv \<in> set kvs. snd kv = dget (fst kv) values \<Longrightarrow> Q kvs t"
    and "\<And>e t. sys_world t = sys_world s \<Longrightarrow> E e t"
  shows "wpF (batch_order values b) Q E s"
proof (cases b)
  case (Single key)
  then show ?thesis using assms(2) [of s "[(key, dget key values)]"] by (simp add: batch_order_def wp)
next
  case (Paired mates)
  show ?thesis
  proof (cases "find_side mates ''min''")
    case (Inl e)
    then show ?thesis using Paired assms(3) [of s] by (simp add: batch_order_def wp)
  next
    case lo: (Inr lo)
    show ?thesis
    proof (cases "find_side mates ''max''")
      case (Inl e)
      then show ?thesis using Paired lo assms(3) [of s] by (simp add: batch_order_def wp)
    next
      case hi: (Inr hi)
      have keys: "fst ` set mates = {lo, hi}" by (rule two_sides [OF assms(1) [OF Paired] lo hi])
      have Q: "Q [(lo, dget lo values), (hi, dget hi values)] t" "Q [(hi, dget hi values), (lo, dget lo values)] t"
        if "sys_world t = sys_world s" for t
        by (rule assms(2) [OF that]; use keys Paired in auto)+
      show ?thesis unfolding batch_order_def Paired
        using lo hi Q assms(3)
        by (auto simp: wp Let_def split: sum.split intro!: read_knob_wp)
    qed
  qed
qed

lemma for_ordered_wp:
  fixes s :: "hw_world sys"
  assumes start: "I {} b s"
    and body: "\<And>D b s key v. (key, v) \<in> set values \<Longrightarrow> I D b s \<Longrightarrow> wpF (body b (key, v)) (I (insert key D)) E s"
    and cong: "\<And>D b s t. I D b s \<Longrightarrow> sys_world t = sys_world s \<Longrightarrow> I D b t"
    and err: "\<And>D b s e. I D b s \<Longrightarrow> E e s"
    and dist: "distinct (map fst values)"
  shows "wpF (for_ordered knobs values body b) (\<lambda>b t. \<exists>D. fst ` set values \<subseteq> D \<and> I D b t) E s"
proof (cases "batches knobs values")
  case (Inl e)
  then show ?thesis using err [OF start] by (simp add: for_ordered_def wp)
next
  case (Inr bs)
  then obtain members where members: "member_knobs knobs values = Inr members"
    and bs: "bs = make_batches members [] (sort_key (\<lambda>(key, k). (priority k (dget key values), key)) members)"
    by (auto simp: batches_def)
  have keys: "fst ` set members = fst ` set values"
  proof -
    have "map fst ms = map fst vs" if "member_knobs knobs vs = Inr ms" for vs ms
      using that unfolding member_knobs_def by (induction vs arbitrary: ms) auto
    from this [OF members] show ?thesis by (metis set_map)
  qed
  have cover: "fst ` set values \<subseteq> (\<Union>b \<in> set bs. set (batch_keys b))"
    and within: "(\<Union>b \<in> set bs. set (batch_keys b)) \<subseteq> fst ` set values"
    and two: "\<And>mates. Paired mates \<in> set bs \<Longrightarrow> length mates = 2"
    using make_batches_cover [of "sort_key (\<lambda>(key, k). (priority k (dget key values), key)) members" members "[]"]
    unfolding bs keys [symmetric] by auto
  let ?I = "\<lambda>ys b t. \<exists>D. (\<Union>b \<in> set ys. set (batch_keys b)) \<subseteq> D \<and> I D b t"
  have inner: "wpF (foldF body b kvs) (\<lambda>b t. \<exists>D'. D \<union> fst ` set kvs \<subseteq> D' \<and> I D' b t) E t"
    if "I D b t" "\<forall>kv \<in> set kvs. kv \<in> set values" for b t D kvs
  proof (rule wpF_fold [where I = "\<lambda>ys b t. \<exists>D'. D \<union> fst ` set ys \<subseteq> D' \<and> I D' b t"])
    show "\<exists>D'. D \<union> fst ` set [] \<subseteq> D' \<and> I D' b t" using that(1) by auto
    fix ys kv zs b and u :: "hw_world sys"
    assume kv: "kvs = ys @ kv # zs" and "\<exists>D'. D \<union> fst ` set ys \<subseteq> D' \<and> I D' b u"
    then obtain D' where D': "D \<union> fst ` set ys \<subseteq> D'" "I D' b u" by auto
    have "(fst kv, snd kv) \<in> set values" using that(2) kv by simp
    from body [OF this D'(2)] have "wpF (body b kv) (I (insert (fst kv) D')) E u" by simp
    then show "wpF (body b kv) (\<lambda>b t. \<exists>D'. D \<union> fst ` set (ys @ [kv]) \<subseteq> D' \<and> I D' b t) E u"
      by (rule wpF_mono) (use D'(1) in \<open>auto intro!: exI [of _ "insert (fst kv) D'"]\<close>)
  qed
  have step: "wpF (bindF (batch_order values bat) (\<lambda>kvs. foldF body b kvs)) (?I (ys @ [bat])) E t"
    if "bs = ys @ bat # zs" "?I ys b t" for ys bat zs b t
  proof -
    note split = that(1) and inv = that(2)
    obtain D where D: "(\<Union>b \<in> set ys. set (batch_keys b)) \<subseteq> D" "I D b t" using inv by auto
    have sub: "set (batch_keys bat) \<subseteq> fst ` set values" using within split by auto
    have vals: "kv \<in> set values" if "fst kv \<in> fst ` set values" "snd kv = dget (fst kv) values" for kv
      using that dist by (cases kv) (auto simp: dget_def)
    show ?thesis unfolding wpF_bind
    proof (rule batch_order_wp)
      show "length mates = 2" if "bat = Paired mates" for mates using two that split by auto
      show "E e u" if "sys_world u = sys_world t" for e and u :: "hw_world sys" by (rule err [OF cong [OF D(2) that]])
      fix kvs and u :: "hw_world sys" assume u: "sys_world u = sys_world t" "fst ` set kvs = set (batch_keys bat)"
        "\<forall>kv \<in> set kvs. snd kv = dget (fst kv) values"
      have "\<forall>kv \<in> set kvs. kv \<in> set values" using u(2,3) sub vals by (metis image_eqI subsetD)
      then have run: "wpF (foldF body b kvs) (\<lambda>b t. \<exists>D'. D \<union> fst ` set kvs \<subseteq> D' \<and> I D' b t) E u"
        by (rule inner [OF cong [OF D(2) u(1)]])
      have un: "(\<Union>b \<in> set (ys @ [bat]). set (batch_keys b)) \<subseteq> D \<union> fst ` set kvs" using u(2) D(1) by auto
      show "wpF (foldF body b kvs) (?I (ys @ [bat])) E u"
        by (rule wpF_mono [OF run]) (use un in \<open>blast intro: subset_trans\<close>)+
    qed
  qed
  have "wpF (foldF (\<lambda>b bat. bindF (batch_order values bat) (\<lambda>kvs. foldF body b kvs)) b bs) (?I bs) E s"
    by (rule wpF_fold [where I = ?I]) (use start step in auto)
  then show ?thesis
    unfolding for_ordered_def wpF_bind wpF_lift Inr sum.case
    by (rule wpF_mono) (use cover in auto)
qed

end
