(* ===== verification/HwRecovery.thy ===== *)
theory HwRecovery
  imports HwResetFacts
begin

text \<open>
  The phases of \<open>reset\<close>: the journal on disk holds the baselines of all entries until the very last
  save, which drops exactly the entries whose restoration was verified and those that were yielded.
\<close>

subsection \<open>The invariant of the writing phases\<close>

definition base :: "entry list \<Rightarrow> (string \<times> pyval) list" where
  "base es = map (\<lambda>e. (en_id e, en_before e)) es"

lemma base_ids: "base js = base es \<Longrightarrow> map en_id js = map en_id es"
  unfolding base_def by (metis (no_types, lifting) fst_conv list.map_comp comp_def map_eq_conv)

definition baselined :: "hw_env \<Rightarrow> entry list \<Rightarrow> hw_world \<Rightarrow> bool" where
  "baselined env es w \<longleftrightarrow> base (jr_entries (hw_journal w)) = base es
     \<and> (\<exists>j. disk_doc env w = Some (journal_doc j) \<and> set (base es) \<subseteq> set (base (jr_entries j)))"

text \<open>The hardware is the result of the driver calls made since a state, all on given controls.\<close>

fun replay :: "hw_env \<Rightarrow> nat \<Rightarrow> regs \<Rightarrow> (string \<times> call) list \<Rightarrow> regs" where
  "replay env n r [] = r"
| "replay env n r ((key, c) # cs) = replay env (Suc n) (snd (he_call env n key c r)) cs"

lemma replay_append: "replay env n r (xs @ ys) = replay env (n + length xs) (replay env n r xs) ys"
  by (induction xs arbitrary: n r) auto

definition calls_only :: "hw_env \<Rightarrow> hw_world \<Rightarrow> string set \<Rightarrow> hw_world \<Rightarrow> bool" where
  "calls_only env w0 keys w \<longleftrightarrow> (\<exists>ext. hw_log w = hw_log w0 @ ext \<and> fst ` set ext \<subseteq> keys
     \<and> hw_regs w = replay env (length (hw_log w0)) (hw_regs w0) ext)"

lemma calls_only_refl: "hw_log w = hw_log w0 \<Longrightarrow> hw_regs w = hw_regs w0 \<Longrightarrow> calls_only env w0 keys w"
  by (auto simp: calls_only_def intro: exI [of _ "[]"])

lemma calls_only_call:
  assumes "calls_only env w0 keys w" "key \<in> keys"
  shows "calls_only env w0 keys (apply_call env key c w)"
proof -
  obtain ext where "hw_log w = hw_log w0 @ ext" "fst ` set ext \<subseteq> keys"
      "hw_regs w = replay env (length (hw_log w0)) (hw_regs w0) ext"
    using assms(1) by (auto simp: calls_only_def)
  then show ?thesis using assms(2)
    by (auto simp: calls_only_def apply_call_def replay_append intro!: exI [of _ "ext @ [(key, c)]"])
qed

lemma calls_only_same:
  "calls_only env w0 keys w \<Longrightarrow> hw_log v = hw_log w \<Longrightarrow> hw_regs v = hw_regs w \<Longrightarrow> calls_only env w0 keys v"
  by (simp add: calls_only_def)

definition recovering :: "hw_env \<Rightarrow> hw_world \<Rightarrow> string set \<Rightarrow> entry list \<Rightarrow> hw_world \<Rightarrow> bool" where
  "recovering env w0 keys es w \<longleftrightarrow> baselined env es w \<and> calls_only env w0 keys w"

lemma disk_doc_call [simp]: "disk_doc env (apply_call env' key c w) = disk_doc env w"
  by (simp add: disk_doc_def apply_call_def)

lemma recovering_call: "recovering env w0 keys es w \<Longrightarrow> key \<in> keys \<Longrightarrow> recovering env w0 keys es (apply_call env key c w)"
  by (simp add: recovering_def baselined_def calls_only_call) (simp add: apply_call_def)

lemma recovering_same:
  "recovering env w0 keys es (sys_world s) \<Longrightarrow> sys_world t = sys_world s \<Longrightarrow> recovering env w0 keys es (sys_world t)"
  by simp

text \<open>The value was handed to the driver again since a state.\<close>

definition rewritten :: "hw_world \<Rightarrow> hw_world \<Rightarrow> string \<Rightarrow> pyval \<Rightarrow> bool" where
  "rewritten w0 w key v \<longleftrightarrow>
     (\<exists>c \<in> {CallWrite v, CallRestore v}. (key, c) \<in> set (drop (length (hw_log w0)) (hw_log w)))"

definition rewrote :: "hw_world \<Rightarrow> knobs \<Rightarrow> (string \<times> pyval) list \<Rightarrow> string set \<Rightarrow> hw_world \<Rightarrow> bool" where
  "rewrote w0 knobs restore keys w \<longleftrightarrow>
     (\<forall>key \<in> keys. restorable_at knobs key \<or> (\<exists>v. map_of restore key = Some v \<and> rewritten w0 w key v))"

lemma rewritten_call: "rewritten w0 w key v \<Longrightarrow> rewritten w0 (apply_call env key' c w) key v"
  by (auto simp: rewritten_def apply_call_def)

lemma rewritten_now:
  assumes "calls_only env w0 keys w" "c \<in> {CallWrite v, CallRestore v}"
  shows "rewritten w0 (apply_call env key c w) key v"
  using assms by (auto simp: rewritten_def apply_call_def calls_only_def)

lemma rewrote_call: "rewrote w0 knobs restore keys w \<Longrightarrow> rewrote w0 knobs restore keys (apply_call env key c w)"
  unfolding rewrote_def by (blast intro: rewritten_call)

lemma rewrote_log: "rewrote w0 knobs restore keys w \<Longrightarrow> hw_log v = hw_log w \<Longrightarrow> rewrote w0 knobs restore keys v"
  by (simp add: rewrote_def rewritten_def)

lemma restore_call_wp:
  assumes "recovering env w0 keys es (sys_world s)" "key \<in> keys" "rewrote w0 knobs restore X (sys_world s)"
  shows "wpF (restore_call env k key v)
     (\<lambda>_ t. recovering env w0 keys es (sys_world t) \<and> rewrote w0 knobs restore X (sys_world t)
        \<and> (kn_restorable k \<or> rewritten w0 (sys_world t) key v))
     (\<lambda>e t. recovering env w0 keys es (sys_world t) \<and> rewrote w0 knobs restore X (sys_world t)) s"
proof -
  have log: "calls_only env w0 keys (sys_world s)" using assms(1) by (simp add: recovering_def)
  show ?thesis unfolding restore_call_def
    using assms rewritten_now [OF log, of _ v]
    by (auto simp: wp intro!: read_knob_wp call_knob_wp recovering_call rewrote_call)
qed

definition progress :: "string list \<Rightarrow> string set \<Rightarrow> string set \<Rightarrow> restoring \<Rightarrow> bool" where
  "progress fs keys D st \<longleftrightarrow> set (rs_complete st) \<subseteq> keys
     \<and> (rs_failures st = [] \<longrightarrow> fs = [] \<and> D \<subseteq> set (rs_complete st))"

lemma restore_key_wp:
  assumes "recovering env w0 keys es (sys_world s)" "progress fs keys D st" "key \<in> keys"
    and "rewrote w0 knobs restore (set (rs_complete st)) (sys_world s)" "map_of restore key = Some v"
  shows "wpF (restore_key env knobs st (key, v))
     (\<lambda>st t. recovering env w0 keys es (sys_world t) \<and> progress fs keys (insert key D) st
        \<and> rewrote w0 knobs restore (set (rs_complete st)) (sys_world t))
     (\<lambda>e t. recovering env w0 keys es (sys_world t)) s"
proof (cases "knob_at knobs key")
  case (Inl e)
  then show ?thesis using assms(1) by (simp add: restore_key_def wp)
next
  case (Inr k)
  then have k: "restorable_at knobs key = kn_restorable k"
    by (auto simp: knob_at_def restorable_at_def split: option.splits)
  have kept: "progress fs keys (insert key D) (retain_key key m st)" for m
    using assms(2) by (auto simp: progress_def retain_key_def)
  have failed: "progress fs keys (insert key D) ((retain_key key m st)\<lparr>rs_platform_failed := b\<rparr>)" for m b
    using assms(2) by (auto simp: progress_def retain_key_def)
  have done': "progress fs keys (insert key D) (st\<lparr>rs_complete := rs_complete st @ [key]\<rparr>)"
    using assms(2,3) by (auto simp: progress_def)
  have now: "rewrote w0 knobs restore (insert key (set (rs_complete st))) w"
    if "rewrote w0 knobs restore (set (rs_complete st)) w" "kn_restorable k \<or> rewritten w0 w key v" for w
    using that assms(5) k by (auto simp: rewrote_def)
  have same: "set (rs_complete (retain_key key m st)) = set (rs_complete st)" for m by (simp add: retain_key_def)
  have "wpF (catchF (seqF (restore_call env k key v) (retF (st\<lparr>rs_complete := rs_complete st @ [key]\<rparr>)))
          is_restore_error
          (\<lambda>exc. retF ((retain_key key (exn_str exc) st)\<lparr>rs_platform_failed := b\<rparr>)))
     (\<lambda>st t. recovering env w0 keys es (sys_world t) \<and> progress fs keys (insert key D) st
        \<and> rewrote w0 knobs restore (set (rs_complete st)) (sys_world t))
     (\<lambda>e t. recovering env w0 keys es (sys_world t)) s" for b
    by (rule catch_wp, unfold wpF_seq, rule wpF_mono [OF restore_call_wp [OF assms(1,3,4)]])
      (auto simp: wp done' failed now same)
  then show ?thesis unfolding restore_key_def
    using assms(1,4) kept same by (simp add: wp Inr del: wpF_catch)
qed

lemma restore_all_wp:
  assumes "recovering env w0 (fst ` set (cl_restore c)) es (sys_world s)" "distinct (map fst (cl_restore c))"
  shows "wpF (restore_all env knobs es c)
     (\<lambda>st t. recovering env w0 (fst ` set (cl_restore c)) es (sys_world t)
        \<and> progress (cl_failures c) (fst ` set (cl_restore c)) (fst ` set (cl_restore c)) st
        \<and> rewrote w0 knobs (cl_restore c) (set (rs_complete st)) (sys_world t))
     (\<lambda>e t. recovering env w0 (fst ` set (cl_restore c)) es (sys_world t)) s"
proof -
  let ?K = "fst ` set (cl_restore c)"
  let ?I = "\<lambda>D st (t :: hw_world sys). recovering env w0 ?K es (sys_world t) \<and> progress (cl_failures c) ?K D st
      \<and> rewrote w0 knobs (cl_restore c) (set (rs_complete st)) (sys_world t)"
  let ?E = "\<lambda>(e :: pyexn) (t :: hw_world sys). recovering env w0 ?K es (sys_world t)"
  have step: "wpF (restore_key env knobs st (key, v)) (?I (insert key D)) ?E t"
    if "(key, v) \<in> set (cl_restore c)" "?I D st t" for D st t key v
  proof (rule restore_key_wp)
    show "key \<in> ?K" using that(1) by force
    show "map_of (cl_restore c) key = Some v" using that(1) assms(2) by (rule map_of_is_SomeI [rotated])
  qed (use that(2) in auto)
  have loop: "wpF (for_ordered knobs (cl_restore c) (restore_key env knobs) st)
      (\<lambda>st t. \<exists>D. ?K \<subseteq> D \<and> ?I D st t) ?E s" if "?I {} st s" for st
    by (rule for_ordered_wp [where I = ?I]) (use that assms(2) step in \<open>auto\<close>)
  show ?thesis unfolding restore_all_def Let_def
    by (rule wpF_mono [OF loop]) (use assms(1) in \<open>auto simp: progress_def rewrote_def\<close>)
qed

subsection \<open>Verification\<close>

definition verified :: "hw_world \<Rightarrow> knobs \<Rightarrow> (string \<times> pyval) list \<Rightarrow> string \<Rightarrow> bool" where
  "verified w knobs restore key \<longleftrightarrow> map_of knobs key \<noteq> None \<and> (restorable_at knobs key \<longrightarrow>
     (\<exists>v. hw_regs w key = Inr v \<and> map_of restore key = Some v))"

lemma verify_key_wp:
  "wpF (verify_key knobs restore st key)
     (\<lambda>st' t. sys_world t = sys_world s \<and> set (rs_complete st') \<subseteq> set (rs_complete st)
        \<and> (key \<in> set (rs_complete st') \<longrightarrow> verified (sys_world s) knobs restore key)
        \<and> (rs_failures st' = [] \<longrightarrow> st' = st))
     (\<lambda>e t. sys_world t = sys_world s) s"
proof (cases "knob_at knobs key")
  case (Inl e)
  then show ?thesis by (simp add: verify_key_def wp)
next
  case (Inr k)
  then have k: "map_of knobs key = Some k" by (auto simp: knob_at_def split: option.splits)
  show ?thesis unfolding verify_key_def wpF_bind wpF_lift Inr sum.case
    by (rule catch_wp)
      (auto simp: wp verified_def restorable_at_def k intro!: read_knob_wp)
qed

lemma verify_all_wp:
  "wpF (verify_all knobs restore st)
     (\<lambda>st' t. sys_world t = sys_world s \<and> set (rs_complete st') \<subseteq> set (rs_complete st)
        \<and> (\<forall>key \<in> set (rs_complete st'). verified (sys_world s) knobs restore key)
        \<and> (rs_failures st' = [] \<longrightarrow> st' = st))
     (\<lambda>e t. sys_world t = sys_world s) s"
proof -
  let ?I = "\<lambda>ys st' t. sys_world t = sys_world s \<and> set (rs_complete st') \<subseteq> set (rs_complete st)
      \<and> (\<forall>key \<in> set ys \<inter> set (rs_complete st'). verified (sys_world s) knobs restore key)
      \<and> (rs_failures st' = [] \<longrightarrow> st' = st)"
  have "wpF (foldF (verify_key knobs restore) st (sort (rs_complete st))) (?I (sort (rs_complete st)))
      (\<lambda>e t. sys_world t = sys_world s) s"
  proof (rule wpF_fold [where I = ?I])
    fix ys key zs st' and t :: "hw_world sys"
    assume I: "?I ys st' t"
    show "wpF (verify_key knobs restore st' key) (?I (ys @ [key])) (\<lambda>e t. sys_world t = sys_world s) t"
      by (rule wpF_mono [OF verify_key_wp]) (use I in \<open>auto split: if_splits\<close>)
  qed simp
  then show ?thesis unfolding verify_all_def by (rule wpF_mono) auto
qed

subsection \<open>The last save\<close>

definition journalled :: "hw_env \<Rightarrow> hw_world \<Rightarrow> entry \<Rightarrow> bool" where
  "journalled env w e \<longleftrightarrow>
     (\<exists>j. disk_doc env w = Some (journal_doc j) \<and> (en_id e, en_before e) \<in> set (base (jr_entries j)))"

text \<open>
  The baseline is needed no more: the control is in the inventory, and it reads its original value, or
  was given up to another manager, or has no getter and was handed its original value again. A control
  that is missing from the inventory is never settled.
\<close>

definition settled :: "hw_world \<Rightarrow> hw_world \<Rightarrow> knobs \<Rightarrow> entry list \<Rightarrow> entry \<Rightarrow> bool" where
  "settled w0 w knobs es e \<longleftrightarrow> map_of knobs (en_id e) \<noteq> None
     \<and> (hw_regs w (en_id e) = Inr (en_before e) \<or> released w0 knobs es e
        \<or> \<not> restorable_at knobs (en_id e) \<and> rewritten w0 w (en_id e) (en_before e))"

definition baselines_safe :: "hw_env \<Rightarrow> hw_world \<Rightarrow> knobs \<Rightarrow> entry list \<Rightarrow> hw_world \<Rightarrow> bool" where
  "baselines_safe env w0 knobs es w \<longleftrightarrow> list_all (\<lambda>e. journalled env w e \<or> settled w0 w knobs es e) es"

definition consistent :: "hw_env \<Rightarrow> hw_world \<Rightarrow> bool" where
  "consistent env w \<longleftrightarrow> disk_doc env w = Some (journal_doc (hw_journal w))
     \<and> distinct (map en_id (jr_entries (hw_journal w)))"

lemma baselined_journalled: "baselined env es w \<Longrightarrow> e \<in> set es \<Longrightarrow> journalled env w e"
proof -
  assume w: "baselined env es w" and "e \<in> set es"
  then have "(en_id e, en_before e) \<in> set (base es)" by (auto simp: base_def)
  with w show "journalled env w e" unfolding baselined_def journalled_def by blast
qed

lemma recovering_safe: "recovering env w0 keys es w \<Longrightarrow> baselines_safe env w1 knobs es w"
  unfolding recovering_def baselines_safe_def by (auto simp: list_all_set baselined_journalled)

lemma same_entry: "distinct (map en_id es) \<Longrightarrow> e \<in> set es \<Longrightarrow> e' \<in> set es \<Longrightarrow> en_id e' = en_id e \<Longrightarrow> e' = e"
  by (auto simp: distinct_map inj_on_def)

lemma dropped_safe:
  assumes "base (jr_entries j) = base es" "disk_doc env w = Some (journal_doc (drop_entries gone j))"
    and "\<And>e. e \<in> set es \<Longrightarrow> en_id e \<in> set gone \<Longrightarrow> settled w0 w knobs es e"
  shows "baselines_safe env w0 knobs es w"
proof -
  have "journalled env w e" if e: "e \<in> set es" "en_id e \<notin> set gone" for e
  proof -
    have "(en_id e, en_before e) \<in> set (base (jr_entries j))" using e(1) assms(1) by (force simp: base_def)
    then have "(en_id e, en_before e) \<in> set (base (jr_entries (drop_entries gone j)))"
      using e(2) by (auto simp: base_def drop_entries_def Let_def)
    with assms(2) show ?thesis by (auto simp: journalled_def)
  qed
  with assms(3) show ?thesis by (auto simp: baselines_safe_def list_all_set)
qed

lemma dropped_all:
  assumes "map en_id (jr_entries j) = ids" "set ids \<subseteq> set gone"
  shows "drop_entries gone j = empty_journal"
proof -
  have "filter (\<lambda>e. en_id e \<notin> set gone) (jr_entries j) = []" using assms by (auto simp: filter_empty_conv)
  then show ?thesis by (simp add: drop_entries_def empty_journal_def Let_def)
qed

lemma finish_reset_wp:
  assumes rec: "recovering env w0 (fst ` set (cl_restore c)) es (sys_world s)"
    and cls: "classified w0 knobs es (released w0 knobs es) c" and dist: "distinct (map en_id es)"
    and ver: "\<forall>key \<in> set (rs_complete st). verified (sys_world s) knobs (cl_restore c) key"
    and all: "rs_failures st = [] \<longrightarrow> cl_failures c = [] \<and> fst ` set (cl_restore c) \<subseteq> set (rs_complete st)"
    and sub: "set (rs_complete st) \<subseteq> fst ` set (cl_restore c)"
    and wrote: "rewrote w0 knobs (cl_restore c) (set (rs_complete st)) (sys_world s)"
  shows "wpF (finish_reset env knobs es c st)
     (\<lambda>r t. baselines_safe env w0 knobs es (sys_world t) \<and> hw_journal (sys_world t) = empty_journal
        \<and> consistent env (sys_world t) \<and> calls_only env w0 (fst ` set (cl_restore c)) (sys_world t))
     (\<lambda>e t. baselines_safe env w0 knobs es (sys_world t) \<and> calls_only env w0 (fst ` set (cl_restore c)) (sys_world t)) s"
proof -
  let ?keys = "map fst (cl_restore c)"
  let ?failed = "filter (\<lambda>k. k \<notin> set (rs_complete st)) ?keys"
  let ?complete = "filter (\<lambda>k. k \<notin> set (retained_keys knobs es ?keys ?failed)) (rs_complete st)"
  let ?gone = "?complete @ cl_yielded c"
  let ?j = "drop_entries ?gone (hw_journal (sys_world s))"
  have j: "base (jr_entries (hw_journal (sys_world s))) = base es"
    using rec by (simp add: recovering_def baselined_def)
  have restores: "\<forall>kv \<in> set (cl_restore c). \<exists>e \<in> set es. kv = (en_id e, en_before e)"
    and yielded: "\<forall>k \<in> set (cl_yielded c). \<exists>e \<in> set es. en_id e = k \<and> released w0 knobs es e"
    and covers: "cl_failures c = [] \<longrightarrow> en_id ` set es \<subseteq> fst ` set (cl_restore c) \<union> set (cl_yielded c)"
    using cls unfolding classified_def by blast+
  have original: "v = en_before e" if "map_of (cl_restore c) (en_id e) = Some v" "e \<in> set es" for e v
  proof -
    from map_of_SomeD [OF that(1)] restores obtain e' where "e' \<in> set es" "(en_id e, v) = (en_id e', en_before e')"
      by blast
    with same_entry [OF dist that(2)] show ?thesis by auto
  qed
  have settled: "settled w0 w knobs es e"
    if e: "e \<in> set es" "en_id e \<in> set ?gone" and regs: "hw_regs w = hw_regs (sys_world s)" "hw_log w = hw_log (sys_world s)" for e w
  proof (cases "en_id e \<in> set (cl_yielded c)")
    case True
    with yielded same_entry [OF dist e(1)] have "released w0 knobs es e" by metis
    then show ?thesis by (auto simp: settled_def released_def)
  next
    case False
    then have in_complete: "en_id e \<in> set (rs_complete st)" using e(2) by auto
    then have v: "verified (sys_world s) knobs (cl_restore c) (en_id e)" using ver by auto
    show ?thesis
    proof (cases "restorable_at knobs (en_id e)")
      case True
      with v obtain v where v': "hw_regs (sys_world s) (en_id e) = Inr v" "map_of (cl_restore c) (en_id e) = Some v"
        by (auto simp: verified_def)
      with original [OF v'(2) e(1)] v regs show ?thesis by (auto simp: settled_def verified_def)
    next
      case False
      with wrote in_complete obtain v where "map_of (cl_restore c) (en_id e) = Some v"
          "rewritten w0 (sys_world s) (en_id e) v" by (auto simp: rewrote_def)
      with original [OF this(1) e(1)] False v regs show ?thesis by (auto simp: settled_def verified_def rewritten_def)
    qed
  qed
  have new: "baselines_safe env w0 knobs es w"
    if "disk_doc env w = Some (journal_doc ?j)" "hw_regs w = hw_regs (sys_world s)" "hw_log w = hw_log (sys_world s)" for w
    using that settled by (intro dropped_safe [OF j]) auto
  have old: "baselines_safe env w0 knobs es w" if "disk_doc env w = disk_doc env (sys_world s)" for w
    using rec that baselined_journalled [of env es "sys_world s"]
    by (auto simp: recovering_def baselines_safe_def list_all_set journalled_def)
  have empty: "?j = empty_journal" if ok: "rs_failures st = []"
  proof (rule dropped_all [OF refl])
    have "?failed = []" using all ok by (auto simp: filter_empty_conv)
    then have "retained_keys knobs es ?keys ?failed = []" by (simp add: retained_keys_def)
    moreover have "set (map en_id (jr_entries (hw_journal (sys_world s)))) = en_id ` set es"
      using base_ids [OF j] by (metis set_map)
    ultimately show "set (map en_id (jr_entries (hw_journal (sys_world s)))) \<subseteq> set ?gone"
      using all ok covers by (auto simp del: set_map)
  qed
  obtain J where J: "J = ?j" by simp
  have part: "hw_regs w = hw_regs (sys_world s)" "hw_log w = hw_log (sys_world s)" "hw_journal w = J"
    if "hw_part w = hw_part ((sys_world s)\<lparr>hw_journal := J\<rparr>)" for w
    using that by (simp_all add: hw_part_def)
  have disk: "disk_doc env ((sys_world s)\<lparr>hw_journal := J\<rparr>) = disk_doc env (sys_world s)"
    by (simp add: disk_doc_def)
  let ?K = "fst ` set (cl_restore c)"
  let ?Q = "\<lambda>r t. baselines_safe env w0 knobs es (sys_world t) \<and> hw_journal (sys_world t) = empty_journal
        \<and> consistent env (sys_world t) \<and> calls_only env w0 ?K (sys_world t)"
  let ?E = "\<lambda>e t. baselines_safe env w0 knobs es (sys_world t) \<and> calls_only env w0 ?K (sys_world t)"
  have calls: "calls_only env w0 ?K w" if "hw_log w = hw_log (sys_world s)" "hw_regs w = hw_regs (sys_world s)" for w
    using rec that by (auto simp: recovering_def elim: calls_only_same)
  have saved: "wpF (seqF (assertF (rs_failures st = []) m) (retF r)) ?Q ?E t"
    if "disk_doc env (sys_world t) = Some (journal_doc J)" "hw_part (sys_world t) = hw_part ((sys_world s)\<lparr>hw_journal := J\<rparr>)"
    for m r and t :: "hw_world sys"
    using that(1) part [OF that(2)] new [of "sys_world t"] empty calls [of "sys_world t"]
    by (simp add: wp J [symmetric]) (simp add: consistent_def empty_journal_def)
  have failed: "?E e t" if "disk_doc env (sys_world t) = disk_doc env (sys_world s) \<or> disk_doc env (sys_world t) = Some (journal_doc J)"
      "hw_part (sys_world t) = hw_part ((sys_world s)\<lparr>hw_journal := J\<rparr>)" for e and t :: "hw_world sys"
    using that(1) part [OF that(2)] new [of "sys_world t"] old [of "sys_world t"] calls [of "sys_world t"]
    by (auto simp: J [symmetric])
  have u: "sys_world (upd (\<lambda>w. w\<lparr>hw_journal := drop_entries ?gone (hw_journal w)\<rparr>) s) = (sys_world s)\<lparr>hw_journal := J\<rparr>"
    by (simp add: J)
  show ?thesis
    unfolding finish_reset_def Let_def wpF_seq [of "assign _"] wpF_seq [of "save _"] wpF_assign
    by (rule save_wp; unfold u disk; intro saved failed) simp_all
qed

subsection \<open>Reset as a whole\<close>

definition untouched :: "hw_world \<Rightarrow> hw_world \<Rightarrow> string \<Rightarrow> bool" where
  "untouched w0 w key \<longleftrightarrow> key \<notin> fst ` set (drop (length (hw_log w0)) (hw_log w))"

definition hands_off :: "hw_world \<Rightarrow> knobs \<Rightarrow> entry list \<Rightarrow> hw_world \<Rightarrow> bool" where
  "hands_off w0 knobs es w \<longleftrightarrow> list_all (\<lambda>e. changed_outside w0 knobs e \<longrightarrow> untouched w0 w (en_id e)) es"

lemma calls_hands_off:
  assumes "calls_only env w0 (fst ` set (cl_restore c)) w" "classified w0 knobs es yields c" "distinct (map en_id es)"
  shows "hands_off w0 knobs es w"
proof -
  obtain ext where ext: "hw_log w = hw_log w0 @ ext" "fst ` set ext \<subseteq> fst ` set (cl_restore c)"
    using assms(1) by (auto simp: calls_only_def)
  have "\<forall>kv \<in> set (cl_restore c). \<exists>e \<in> set es. kv = (en_id e, en_before e) \<and> \<not> changed_outside w0 knobs e"
    using assms(2) unfolding classified_def by blast
  then have "en_id e \<notin> fst ` set (cl_restore c)" if "e \<in> set es" "changed_outside w0 knobs e" for e
    using that same_entry [OF assms(3)] by (metis (no_types, lifting) fst_conv imageE)
  with ext show ?thesis by (auto simp: hands_off_def untouched_def list_all_set)
qed

lemma base_mark_pending [simp]: "base (jr_entries (mark_pending keys j)) = base (jr_entries j)"
  by (simp add: base_def mark_pending_def)

text \<open>All that a reset needs: the journal on disk has the baselines of the one in memory.\<close>

definition reset_ready :: "hw_env \<Rightarrow> hw_world \<Rightarrow> bool" where
  "reset_ready env w \<longleftrightarrow> distinct (map en_id (jr_entries (hw_journal w)))
     \<and> (\<exists>j. disk_doc env w = Some (journal_doc j) \<and> set (base (jr_entries (hw_journal w))) \<subseteq> set (base (jr_entries j)))"

lemma consistent_ready: "consistent env w \<Longrightarrow> reset_ready env w"
  by (auto simp: consistent_def reset_ready_def)

lemma ready_safe: "reset_ready env w0 \<Longrightarrow> baselines_safe env w1 knobs (jr_entries (hw_journal w0)) w0"
  by (auto simp: reset_ready_def baselines_safe_def list_all_set journalled_def base_def)

definition reset_kept :: "hw_env \<Rightarrow> hw_world \<Rightarrow> knobs \<Rightarrow> entry list \<Rightarrow> hw_world \<Rightarrow> bool" where
  "reset_kept env w0 knobs es w \<longleftrightarrow> baselines_safe env w0 knobs es w \<and> hands_off w0 knobs es w
     \<and> calls_only env w0 (en_id ` set es) w"

lemma hands_off_refl: "hands_off w0 knobs es w0"
  by (simp add: hands_off_def untouched_def list_all_set)

lemma calls_only_mono: "calls_only env w0 keys w \<Longrightarrow> keys \<subseteq> keys' \<Longrightarrow> calls_only env w0 keys' w"
  unfolding calls_only_def by blast

lemma classified_keys: "classified w0 knobs es yields c \<Longrightarrow> fst ` set (cl_restore c) \<subseteq> en_id ` set es"
  unfolding classified_def by fastforce

lemma reset_wp:
  fixes s :: "hw_world sys"
  defines "w0 \<equiv> sys_world s" and "es \<equiv> jr_entries (hw_journal (sys_world s))"
  assumes "reset_ready env (sys_world s)"
  shows "wpF (reset env knobs)
     (\<lambda>r t. reset_kept env w0 knobs es (sys_world t)
        \<and> hw_journal (sys_world t) = empty_journal \<and> consistent env (sys_world t))
     (\<lambda>e t. reset_kept env w0 knobs es (sys_world t)) s"
  (is "wpF _ ?Q ?E s")
proof -
  have dist: "distinct (map en_id es)" using assms(3) by (simp add: reset_ready_def es_def)
  have start: "?E e t" if "sys_world t = w0" for e t
    using that ready_safe [OF assms(3)] by (simp add: w0_def es_def hands_off_refl reset_kept_def calls_only_refl)
  have kept: "reset_kept env w0 knobs es w"
    if "classified w0 knobs es (released w0 knobs es) c" "calls_only env w0 (fst ` set (cl_restore c)) w"
      "baselines_safe env w0 knobs es w" for c w
    using that calls_hands_off [OF that(2,1) dist] calls_only_mono [OF that(2) classified_keys [OF that(1)]]
    by (simp add: reset_kept_def)
  have phases: "wpF (bindF (restore_all env knobs es c) (\<lambda>st. bindF (verify_all knobs (cl_restore c) st)
        (\<lambda>st. finish_reset env knobs es c st))) ?Q ?E t"
    if rec: "recovering env w0 (fst ` set (cl_restore c)) es (sys_world t)"
      and cls: "classified w0 knobs es (released w0 knobs es) c" for c t
  proof -
    let ?K = "fst ` set (cl_restore c)"
    let ?rec = "recovering env w0 ?K es"
    have e: "?E e u" if "?rec (sys_world u)" for e u
      using that recovering_safe kept [OF cls] by (auto simp: recovering_def)
    have "distinct (map fst (cl_restore c))" using cls by (simp add: classified_def)
    note restored = restore_all_wp [OF rec this]
    have finish: "wpF (finish_reset env knobs es c st') ?Q ?E v"
      if u: "?rec (sys_world u)" "progress (cl_failures c) ?K ?K st"
        "rewrote w0 knobs (cl_restore c) (set (rs_complete st)) (sys_world u)" and v: "sys_world v = sys_world u"
        "set (rs_complete st') \<subseteq> set (rs_complete st)"
        "\<forall>key \<in> set (rs_complete st'). verified (sys_world u) knobs (cl_restore c) key"
        "rs_failures st' = [] \<longrightarrow> st' = st" for st st' u v
    proof (rule wpF_mono [OF finish_reset_wp [OF _ cls dist]])
      show "?rec (sys_world v)" using u(1) v(1) by simp
      show "\<forall>key \<in> set (rs_complete st'). verified (sys_world v) knobs (cl_restore c) key" using v by simp
      show "rs_failures st' = [] \<longrightarrow> cl_failures c = [] \<and> ?K \<subseteq> set (rs_complete st')"
        using v(4) u(2) by (auto simp: progress_def)
      show "set (rs_complete st') \<subseteq> ?K" using v(2) u(2) by (auto simp: progress_def)
      show "rewrote w0 knobs (cl_restore c) (set (rs_complete st')) (sys_world v)"
        using u(3) v(1,2) by (auto simp: rewrote_def)
    qed (auto intro: kept [OF cls])
    show ?thesis unfolding wpF_bind
      by (rule wpF_mono [OF restored], rule wpF_mono [OF verify_all_wp], blast intro: finish, simp_all add: e)
  qed
  have marked: "wpF (seqF (whenF (cl_restore c \<noteq> []) (save env)) m) ?Q ?E u"
    if cls: "classified w0 knobs es (released w0 knobs es) c"
      and m: "\<And>t. recovering env w0 (fst ` set (cl_restore c)) es (sys_world t) \<Longrightarrow> wpF m ?Q ?E t"
      and u: "sys_world u = w0\<lparr>hw_journal := mark_pending keys (hw_journal w0)\<rparr>" for c m u keys
  proof -
    let ?rec = "recovering env w0 (fst ` set (cl_restore c)) es"
    have j: "base (jr_entries (hw_journal (sys_world u))) = base es" by (simp add: u es_def w0_def)
    have old: "\<exists>j. disk_doc env (sys_world u) = Some (journal_doc j) \<and> set (base es) \<subseteq> set (base (jr_entries j))"
      using assms(3) by (auto simp: u es_def w0_def reset_ready_def disk_doc_def)
    have rec: "?rec w" if "hw_part w = hw_part (sys_world u)"
        "disk_doc env w = disk_doc env (sys_world u) \<or> disk_doc env w = Some (journal_doc (hw_journal (sys_world u)))" for w
    proof -
      have "hw_journal w = hw_journal (sys_world u)" "hw_log w = hw_log w0" "hw_regs w = hw_regs w0"
        using that(1) u by (simp_all add: hw_part_def)
      with that(2) j old show ?thesis by (auto simp: recovering_def baselined_def intro: calls_only_refl)
    qed
    have e: "?E e t" if "?rec (sys_world t)" for e t
      using that recovering_safe kept [OF cls] by (auto simp: recovering_def)
    show ?thesis unfolding wpF_seq wpF_when
      by (auto intro!: save_wp m e rec)
  qed
  have classify: "wpF (foldF (classify_entry knobs) \<lparr>cl_restore = [], cl_yielded = [], cl_failures = []\<rparr> es)
     (\<lambda>c t. sys_world t = w0 \<and> classified w0 knobs es (changed_outside w0 knobs) c)
     (\<lambda>e t. sys_world t = w0) s"
    unfolding w0_def by (rule classify_wp [OF dist])
  show ?thesis
    unfolding reset_def wpF_bind wpF_look es_def [symmetric]
  proof (rule wpF_mono [OF classify], goal_cases)
    case (1 found t)
    then have w: "sys_world t = w0"
      and cls: "classified w0 knobs es (released w0 knobs es) (yield_coupled knobs es found)"
      by (simp_all add: yield_coupled_classified)
    show ?case unfolding Let_def wpF_seq [of "assign _"] wpF_assign
      by (rule marked [OF cls phases [OF _ cls]]) (simp_all add: w)
  next
    case (2 e t)
    then show ?case by (rule start)
  qed
qed

text \<open>C12 (no baseline is ever lost): whatever steps of a reset fail, wherever it is interrupted or killed
  and however the driver answers, afterwards every journalled control still has its original value in
  the journal on disk, unless it is in the inventory and reads that value again, or was given up because
  another manager had changed it or a coupled control, or has no getter and was written back. A control
  that is missing from the inventory keeps its baseline.\<close>

theorem reset_keeps_baselines:
  assumes "consistent env (sys_world s)" "reset env knobs s = (r, t)"
  shows "baselines_safe env (sys_world s) knobs (jr_entries (hw_journal (sys_world s))) (sys_world t)"
  using wpF_run [OF reset_wp [OF consistent_ready [OF assms(1)]] assms(2)] by (cases r) (auto simp: reset_kept_def)

text \<open>C14 (another manager's value is respected): a reset makes no call at all to a control whose value
  differs from what this program last wrote and read back.\<close>

theorem reset_hands_off:
  assumes "consistent env (sys_world s)" "reset env knobs s = (r, t)"
  shows "hands_off (sys_world s) knobs (jr_entries (hw_journal (sys_world s))) (sys_world t)"
  using wpF_run [OF reset_wp [OF consistent_ready [OF assms(1)]] assms(2)] by (cases r) (auto simp: reset_kept_def)

lemma empty_doc_entries: "journal_doc j = journal_doc empty_journal \<Longrightarrow> jr_entries j = []"
  by (simp add: journal_doc_def empty_journal_def)

text \<open>C15 (a reset that returns is complete): the journal in memory and on disk is empty, and every control
  it named is in the inventory and reads its original value, or was given up to another manager, or has
  no getter and was written back. So a reset with a control missing from the inventory never returns.\<close>

theorem reset_complete:
  assumes "consistent env (sys_world s)" "reset env knobs s = (Inr x, t)"
  shows "disk_doc env (sys_world t) = Some (journal_doc empty_journal)
    \<and> hw_journal (sys_world t) = empty_journal
    \<and> list_all (settled (sys_world s) (sys_world t) knobs (jr_entries (hw_journal (sys_world s))))
        (jr_entries (hw_journal (sys_world s)))"
proof -
  have t: "baselines_safe env (sys_world s) knobs (jr_entries (hw_journal (sys_world s))) (sys_world t)"
      "disk_doc env (sys_world t) = Some (journal_doc empty_journal)"
      "hw_journal (sys_world t) = empty_journal"
    using wpF_run [OF reset_wp [OF consistent_ready [OF assms(1)]] assms(2)] by (auto simp: consistent_def reset_kept_def)
  then have "\<not> journalled env (sys_world t) e" for e
    by (auto simp: journalled_def base_def dest: empty_doc_entries [OF sym])
  with t show ?thesis by (simp add: baselines_safe_def)
qed

subsection \<open>An instance\<close>

definition tiny_knob :: "string \<Rightarrow> string \<Rightarrow> knob" where
  "tiny_knob key setting = \<lparr>kn_id = key, kn_setting = setting, kn_minimum = Some 0,
     kn_maximum = Some 100, kn_choices = [], kn_symbols = [], kn_unit = ''integer'', kn_pair = None,
     kn_side = None, kn_overclock = False, kn_power_default = None, kn_restorable = True,
     kn_note = [], kn_validate_extra = (\<lambda>v. Inr ()), kn_companions = [], kn_verified_allowed = False,
     kn_has_maximum = False, kn_has_restore = False\<rparr>"

definition tiny_knobs :: knobs where
  "tiny_knobs = [(''cpu/epb'', tiny_knob ''cpu/epb'' ''CPU_EPB''), (''gpu/boost'', tiny_knob ''gpu/boost'' ''GPU_BOOST'')]"

text \<open>A driver whose writes take effect.\<close>

fun tiny_call :: "nat \<Rightarrow> string \<Rightarrow> call \<Rightarrow> regs \<Rightarrow> pyval res \<times> regs" where
  "tiny_call n key (CallWrite v) r = (Inr PNone, r(key := Inr v))"
| "tiny_call n key (CallRestore v) r = (Inr PNone, r(key := Inr v))"
| "tiny_call n key CallMaximum r = (Inr PNone, r)"

definition tiny_env :: hw_env where
  "tiny_env = \<lparr>he_size = (\<lambda>v. 100), he_path = ''/run/hardware-tuning/intel.json'', he_call = tiny_call,
     he_check = None, he_temperature = (\<lambda>n. Some \<lparr>t_milli = 50000, t_str = ''50.0'', t_short = ''50''\<rparr>)\<rparr>"

definition tiny_journal :: journal where
  "tiny_journal = \<lparr>jr_profile = Some ''high'', jr_entries =
     [\<lparr>en_id = ''cpu/epb'', en_before = PInt 6, en_last = PInt 0, en_pending = False, en_requested = PInt 0\<rparr>,
      \<lparr>en_id = ''gpu/boost'', en_before = PInt 50, en_last = PInt 90, en_pending = False, en_requested = PInt 90\<rparr>]\<rparr>"

text \<open>The processor control is as written, the graphics control was changed by someone else.\<close>

definition tiny_world :: hw_world where
  "tiny_world = \<lparr>js_files = [''/run/hardware-tuning/intel.json'' \<mapsto> json_file 384 (journal_doc tiny_journal)],
     js_tmps = (\<lambda>i. None), js_next = 0,
     hw_regs = (\<lambda>k. if k = ''cpu/epb'' then Inr (PInt 0) else Inr (PInt 70)),
     hw_log = [], hw_journal = tiny_journal\<rparr>"

definition tiny_sys :: "(nat \<Rightarrow> fault) \<Rightarrow> hw_world sys" where
  "tiny_sys script = \<lparr>sys_step = 0, sys_script = script, sys_world = tiny_world\<rparr>"

lemma tiny_consistent: "consistent tiny_env (sys_world (tiny_sys script))"
  by (simp add: consistent_def disk_doc_def tiny_env_def tiny_sys_def tiny_world_def tiny_journal_def json_file_def)

lemma tiny_reset:
  "case reset tiny_env tiny_knobs (tiny_sys (\<lambda>n. Fine)) of (r, t) \<Rightarrow>
     r = Inr (1, [''gpu/boost'']) \<and> hw_regs (sys_world t) ''cpu/epb'' = Inr (PInt 6)
       \<and> hw_regs (sys_world t) ''gpu/boost'' = Inr (PInt 70)"
  by code_simp

theorem reset_keeps_baselines_witness:
  "case reset tiny_env tiny_knobs (tiny_sys (\<lambda>n. if n = 9 then After ProcessKilled else Fine)) of (r, t) \<Rightarrow>
     baselines_safe tiny_env tiny_world tiny_knobs (jr_entries tiny_journal) (sys_world t)"
proof -
  obtain r t where e: "reset tiny_env tiny_knobs (tiny_sys (\<lambda>n. if n = 9 then After ProcessKilled else Fine)) = (r, t)"
    by fastforce
  from reset_keeps_baselines [OF tiny_consistent e] show ?thesis
    unfolding e by (simp add: tiny_sys_def tiny_world_def)
qed

theorem reset_hands_off_witness:
  "case reset tiny_env tiny_knobs (tiny_sys (\<lambda>n. Fine)) of (r, t) \<Rightarrow>
     hands_off tiny_world tiny_knobs (jr_entries tiny_journal) (sys_world t)"
proof -
  obtain r t where e: "reset tiny_env tiny_knobs (tiny_sys (\<lambda>n. Fine)) = (r, t)" by fastforce
  from reset_hands_off [OF tiny_consistent e] show ?thesis
    unfolding e by (simp add: tiny_sys_def tiny_world_def)
qed

theorem reset_complete_witness:
  "\<exists>t. reset tiny_env tiny_knobs (tiny_sys (\<lambda>n. Fine)) = (Inr (1, [''gpu/boost'']), t)
     \<and> disk_doc tiny_env (sys_world t) = Some (journal_doc empty_journal)"
proof -
  obtain t where e: "reset tiny_env tiny_knobs (tiny_sys (\<lambda>n. Fine)) = (Inr (1, [''gpu/boost'']), t)"
    using tiny_reset by (auto split: prod.splits)
  from reset_complete [OF tiny_consistent e] e show ?thesis by blast
qed

subsection \<open>The journal file\<close>

definition journal_ok :: "journal \<Rightarrow> bool" where
  "journal_ok j \<longleftrightarrow> distinct (map en_id (jr_entries j)) \<and> length (jr_entries j) \<le> 8192
     \<and> (case jr_profile j of None \<Rightarrow> True | Some p \<Rightarrow> p \<in> set PROFILES)"

lemma parse_entry_doc: "en_id e \<notin> set ids \<Longrightarrow> parse_entry ids (entry_doc e) = Inr e"
  by (simp add: parse_entry_def entry_doc_def keys_eq_def ENTRY_KEYS_def dget_def insert_commute)

lemma parse_entries_doc:
  "distinct (map en_id (xs @ es)) \<Longrightarrow>
   foldE (\<lambda>found v. bindE (parse_entry (map en_id found) v) (\<lambda>e. Inr (found @ [e]))) xs (map entry_doc es) = Inr (xs @ es)"
proof (induction es arbitrary: xs)
  case (Cons e es)
  have "en_id e \<notin> set (map en_id xs)" using Cons.prems by auto
  then show ?case using Cons.IH [of "xs @ [e]"] Cons.prems by (simp add: parse_entry_doc)
qed simp

lemma dget_simps: "dget k [] = PNone" "dget k ((k', v) # d) = (if k = k' then v else dget k d)"
  by (simp_all add: dget_def)

text \<open>What is saved can be recovered: the journal document that the engine writes is accepted by the
  next run and gives back the same journal.\<close>

theorem journal_roundtrip: "journal_ok j \<Longrightarrow> parse_journal (journal_doc j) = Inr j"
  using parse_entries_doc [of "[]" "jr_entries j"]
  by (cases "jr_profile j")
    (auto simp: parse_journal_def journal_doc_def journal_ok_def keys_eq_def dget_simps parse_profile_def opt_val_def
      Let_def insert_commute)

theorem journal_roundtrip_witness:
  "journal_ok tiny_journal \<and> parse_journal (journal_doc tiny_journal) = Inr tiny_journal"
proof -
  have "journal_ok tiny_journal" by (simp add: journal_ok_def tiny_journal_def PROFILES_def)
  then show ?thesis using journal_roundtrip by blast
qed

end
