(* ===== verification/HwApplyFacts.thy ===== *)
theory HwApplyFacts
  imports HwApply HwRecovery
begin

text \<open>
  Applying a profile under every fault script: the snapshot is durable before the first write, so at any
  moment each control reads its old value or has it in the journal on disk.
\<close>

subsection \<open>Programs that only read\<close>

definition reads :: "'a hw_io \<Rightarrow> bool" where
  "reads m \<longleftrightarrow> (\<forall>s. sys_world (snd (m s)) = sys_world s)"

named_theorems reads_intro "composition rules for programs that only read"

lemma reads_wp:
  assumes "reads m" "\<And>x t. sys_world t = sys_world s \<Longrightarrow> Q x t" "\<And>e t. sys_world t = sys_world s \<Longrightarrow> E e t"
  shows "wpF m Q E s"
  using assms unfolding reads_def wpF_def by (cases "m s") (metis (mono_tags, lifting) case_prod_conv snd_conv sum.case_eq_if)

lemma reads_ret [reads_intro]: "reads (retF x)"
  by (simp add: reads_def retF_def)

lemma reads_raise [reads_intro]: "reads (raiseF e)"
  by (simp add: reads_def raiseF_def)

lemma reads_lift [reads_intro]: "reads (liftE r)"
  by (simp add: reads_def liftE_def)

lemma reads_assert [reads_intro]: "reads (assertF b e)"
  by (simp add: reads_def assertF_def)

lemma reads_bind [reads_intro]: "reads m \<Longrightarrow> (\<And>x. reads (f x)) \<Longrightarrow> reads (bindF m f)"
  by (auto simp: reads_def bindF_def split: prod.split sum.split) (metis snd_conv)+

lemma reads_seq [reads_intro]: "reads m \<Longrightarrow> reads n \<Longrightarrow> reads (seqF m n)"
  by (simp add: seqF_def reads_bind)

lemma reads_look [reads_intro]: "reads (look f)"
  by (simp add: reads_def look_def getF_def)

lemma reads_skip [reads_intro]: "reads skip_op"
  by (simp add: reads_def skip_op_def op_def split: fault.split)

lemma reads_catch [reads_intro]: "reads m \<Longrightarrow> (\<And>e. reads (h e)) \<Longrightarrow> reads (catchF m c h)"
  by (auto simp: reads_def catchF_def split: prod.split sum.split) (metis snd_conv)+

lemma reads_map [reads_intro]: "(\<And>x. reads (f x)) \<Longrightarrow> reads (mapF f xs)"
  by (induction xs) (auto intro: reads_intro)

lemma reads_for [reads_intro]: "(\<And>x. reads (f x)) \<Longrightarrow> reads (forF f xs)"
  by (induction xs) (auto intro: reads_intro)

lemma reads_exists [reads_intro]: "(\<And>x. reads (f x)) \<Longrightarrow> reads (existsF f xs)"
  by (induction xs) (auto intro!: reads_intro split: if_split)

lemma reads_if [reads_intro]: "reads m \<Longrightarrow> reads n \<Longrightarrow> reads (if b then m else n)"
  by simp

lemma reads_option [reads_intro]: "reads m \<Longrightarrow> (\<And>x. reads (f x)) \<Longrightarrow> reads (case v of None \<Rightarrow> m | Some x \<Rightarrow> f x)"
  by (cases v) auto

lemma reads_pair [reads_intro]: "(\<And>x y. reads (f x y)) \<Longrightarrow> reads (case p of (x, y) \<Rightarrow> f x y)"
  by (cases p) auto

lemma reads_knob [reads_intro]: "reads (read_knob key)"
  by (simp add: read_knob_def reads_intro)

lemma reads_temperature [reads_intro]: "reads (temperature env)"
  by (simp add: temperature_def reads_intro)

lemma reads_check_ownership [reads_intro]: "reads (check_ownership env values)"
  by (simp add: check_ownership_def reads_intro)

lemma reads_planned [reads_intro]: "reads (planned values k)"
  by (simp add: planned_def reads_intro)

lemma reads_check_pair [reads_intro]: "reads (check_pair values entry)"
  unfolding check_pair_def by (intro reads_intro)

lemma reads_check_epp [reads_intro]: "reads (check_epp_knob governors values k)"
  unfolding check_epp_knob_def by (intro reads_intro)

lemma reads_plan: "reads (plan env pol knobs name settings)"
  unfolding plan_def Let_def by (intro reads_intro)

lemma reads_health: "reads (health env pol knobs)"
  unfolding health_def entry_conflict_def ownership_conflict_def by (intro reads_intro)

lemma reads_changed_keys: "reads (changed_keys knobs values)"
  unfolding changed_keys_def differs_def by (intro reads_intro)

lemma reads_observe: "reads (observe knobs affected configured)"
  unfolding observe_def by (intro reads_intro)

subsection \<open>The driver and the domains\<close>

text \<open>A call changes only controls in the side-effect domain that the code computes, and domains are closed.\<close>

definition local_driver :: "hw_env \<Rightarrow> knobs \<Rightarrow> bool" where
  "local_driver env knobs \<longleftrightarrow>
     (\<forall>n key c r other. other \<notin> set (side_effects knobs key) \<longrightarrow> snd (he_call env n key c r) other = r other)"

definition closed_domains :: "knobs \<Rightarrow> bool" where
  "closed_domains knobs \<longleftrightarrow>
     (\<forall>key other. other \<in> set (side_effects knobs key) \<longrightarrow> set (side_effects knobs other) \<subseteq> set (side_effects knobs key))"

lemma affected_closed:
  assumes "closed_domains knobs" "key \<in> set (affected_keys knobs changed)"
  shows "set (side_effects knobs key) \<subseteq> set (affected_keys knobs changed)"
  using assms unfolding affected_keys_def closed_domains_def by auto

lemma replay_frame:
  assumes "local_driver env knobs" "\<And>key. key \<in> A \<Longrightarrow> set (side_effects knobs key) \<subseteq> A" "fst ` set cs \<subseteq> A" "other \<notin> A"
  shows "replay env n r cs other = r other"
  using assms(3)
proof (induction cs arbitrary: n r)
  case (Cons kc cs)
  obtain key c where kc: "kc = (key, c)" by (cases kc)
  have "other \<notin> set (side_effects knobs key)" using Cons.prems assms(2,4) kc by auto
  then show ?case using Cons assms(1) by (simp add: kc local_driver_def)
qed simp

lemma calls_only_frame:
  assumes "local_driver env knobs" "\<And>key. key \<in> A \<Longrightarrow> set (side_effects knobs key) \<subseteq> A"
    "calls_only env w0 A w" "other \<notin> A"
  shows "hw_regs w other = hw_regs w0 other"
  using assms(3) replay_frame [OF assms(1,2) _ assms(4)] by (auto simp: calls_only_def)

lemma calls_only_trans:
  assumes "calls_only env w0 A u" "calls_only env u A w"
  shows "calls_only env w0 A w"
proof -
  obtain x where x: "hw_log u = hw_log w0 @ x" "fst ` set x \<subseteq> A"
      "hw_regs u = replay env (length (hw_log w0)) (hw_regs w0) x"
    using assms(1) by (auto simp: calls_only_def)
  obtain y where y: "hw_log w = hw_log u @ y" "fst ` set y \<subseteq> A"
      "hw_regs w = replay env (length (hw_log u)) (hw_regs u) y"
    using assms(2) by (auto simp: calls_only_def)
  show ?thesis unfolding calls_only_def
    by (rule exI [of _ "x @ y"]) (use x y in \<open>auto simp: replay_append\<close>)
qed

subsection \<open>Armed: the snapshot is durable\<close>

text \<open>A control whose request is neither conditional nor left to the driver's maximum.\<close>

definition plain_control :: "knobs \<Rightarrow> profile \<Rightarrow> string \<Rightarrow> bool" where
  "plain_control knobs prof key =
     (case map_of knobs key of
        None \<Rightarrow> False
      | Some k \<Rightarrow> kn_restorable k \<and> configured_value prof k \<notin> set (''max'' # CONDITIONAL))"

definition snapped :: "hw_env \<Rightarrow> hw_world \<Rightarrow> string set \<Rightarrow> hw_world \<Rightarrow> bool" where
  "snapped env w0 A w \<longleftrightarrow> distinct (map en_id (jr_entries (hw_journal w)))
     \<and> (\<forall>e \<in> set (jr_entries (hw_journal w)). hw_regs w0 (en_id e) = Inr (en_before e) \<and> en_id e \<in> A)
     \<and> (\<exists>j. disk_doc env w = Some (journal_doc j) \<and> set (base (jr_entries (hw_journal w))) \<subseteq> set (base (jr_entries j)))
     \<and> calls_only env w0 A w"

definition has_entries :: "string set \<Rightarrow> hw_world \<Rightarrow> bool" where
  "has_entries A w \<longleftrightarrow> A \<subseteq> en_id ` set (jr_entries (hw_journal w))"

definition all_pending :: "hw_world \<Rightarrow> bool" where
  "all_pending w \<longleftrightarrow> list_all en_pending (jr_entries (hw_journal w))"

definition settled_or_pending :: "knobs \<Rightarrow> hw_world \<Rightarrow> bool" where
  "settled_or_pending knobs w \<longleftrightarrow>
     list_all (\<lambda>e. en_pending e \<or> \<not> restorable_at knobs (en_id e) \<or> hw_regs w (en_id e) = Inr (en_last e))
       (jr_entries (hw_journal w))"

definition armed :: "hw_env \<Rightarrow> hw_world \<Rightarrow> string set \<Rightarrow> hw_world \<Rightarrow> bool" where
  "armed env w0 A w \<longleftrightarrow> snapped env w0 A w \<and> has_entries A w \<and> all_pending w"

text \<open>What every end of an application guarantees for a control.\<close>

definition recoverable_control :: "hw_env \<Rightarrow> hw_world \<Rightarrow> hw_world \<Rightarrow> string \<Rightarrow> bool" where
  "recoverable_control env w0 w key \<longleftrightarrow> hw_regs w key = hw_regs w0 key
     \<or> (\<exists>v j. hw_regs w0 key = Inr v \<and> disk_doc env w = Some (journal_doc j) \<and> (key, v) \<in> set (base (jr_entries j)))"

lemma armed_call: "armed env w0 A w \<Longrightarrow> key \<in> A \<Longrightarrow> armed env w0 A (apply_call env key c w)"
  by (simp add: armed_def snapped_def has_entries_def all_pending_def calls_only_call) (simp add: apply_call_def)

lemma map_entries_base:
  assumes "\<And>e. en_id (f e) = en_id e \<and> en_before (f e) = en_before e"
  shows "base (map f es) = base es" "map en_id (map f es) = map en_id es"
  using assms by (simp_all add: base_def)

lemma snapped_update:
  assumes "snapped env w0 A w" "\<And>e. en_id (f e) = en_id e \<and> en_before (f e) = en_before e"
  shows "snapped env w0 A (w\<lparr>hw_journal := (hw_journal w)\<lparr>jr_entries := map f (jr_entries (hw_journal w))\<rparr>\<rparr>)"
  using assms map_entries_base [of f, OF assms(2)]
  by (auto simp: snapped_def disk_doc_def calls_only_def o_def)

lemma has_entries_update:
  assumes "\<And>e. en_id (f e) = en_id e"
  shows "has_entries A (w\<lparr>hw_journal := (hw_journal w)\<lparr>jr_entries := map f (jr_entries (hw_journal w))\<rparr>\<rparr>)
     = has_entries A w"
  using assms by (simp add: has_entries_def image_image)

lemma set_requested_wp:
  assumes "armed env w0 A (sys_world s)" "\<And>t. armed env w0 A (sys_world t) \<Longrightarrow> Q () t"
  shows "wpF (set_requested key v) Q E s"
proof -
  let ?f = "\<lambda>e. if en_id e = key then e\<lparr>en_requested := v\<rparr> else e"
  have "armed env w0 A (sys_world s\<lparr>hw_journal := (hw_journal (sys_world s))
      \<lparr>jr_entries := map ?f (jr_entries (hw_journal (sys_world s)))\<rparr>\<rparr>)"
    using assms(1) snapped_update [of env w0 A "sys_world s" ?f] has_entries_update [of ?f A "sys_world s"]
    by (auto simp: armed_def all_pending_def list_all_set)
  then show ?thesis using assms(2) by (simp add: set_requested_def wp)
qed

lemma call_armed_wp:
  assumes "armed env w0 A (sys_world s)" "key \<in> A" "\<And>v t. armed env w0 A (sys_world t) \<Longrightarrow> Q v t"
    "\<And>e t. armed env w0 A (sys_world t) \<Longrightarrow> E e t"
  shows "wpF (call_knob env key c) Q E s"
  by (rule call_knob_wp) (use assms armed_call [OF assms(1,2)] in auto)

lemma reads_armed_wp:
  assumes "reads m" "armed env w0 A (sys_world s)" "\<And>x t. armed env w0 A (sys_world t) \<Longrightarrow> Q x t"
    "\<And>e t. armed env w0 A (sys_world t) \<Longrightarrow> E e t"
  shows "wpF m Q E s"
  by (rule reads_wp [OF assms(1)]) (use assms(2-) in auto)

definition unmodified_ok :: "knobs \<Rightarrow> profile \<Rightarrow> writing \<Rightarrow> bool" where
  "unmodified_ok knobs prof st \<longleftrightarrow> (\<forall>key \<in> set (wr_unmodified st). \<not> plain_control knobs prof key)"

lemma unmodified_simps [simp]:
  "unmodified_ok knobs prof (st\<lparr>wr_values := a\<rparr>) = unmodified_ok knobs prof st"
  "unmodified_ok knobs prof (st\<lparr>wr_count := b\<rparr>) = unmodified_ok knobs prof st"
  "unmodified_ok knobs prof (st\<lparr>wr_selections := c\<rparr>) = unmodified_ok knobs prof st"
  "unmodified_ok knobs prof (st\<lparr>wr_skipped := d\<rparr>) = unmodified_ok knobs prof st"
  "unmodified_ok knobs prof (st\<lparr>wr_unmodified := wr_unmodified st @ [key]\<rparr>)
     = (unmodified_ok knobs prof st \<and> \<not> plain_control knobs prof key)"
  by (auto simp: unmodified_ok_def)

lemma skip_request_wp:
  assumes "armed env w0 A (sys_world s)" "unmodified_ok knobs prof st" "\<not> plain_control knobs prof key"
  shows "wpF (skip_request key why st) (\<lambda>st t. armed env w0 A (sys_world t) \<and> unmodified_ok knobs prof st)
     (\<lambda>e t. armed env w0 A (sys_world t)) s"
  unfolding skip_request_def wpF_seq
  by (rule set_requested_wp [OF assms(1)]) (use assms(2,3) in \<open>simp add: wp unmodified_ok_def\<close>)

lemma write_selected_wp:
  assumes "armed env w0 A (sys_world s)" "key \<in> A" "unmodified_ok knobs prof st" "\<not> plain_control knobs prof key"
  shows "wpF (write_selected env pol key k configured v prior st)
     (\<lambda>st t. armed env w0 A (sys_world t) \<and> unmodified_ok knobs prof st) (\<lambda>e t. armed env w0 A (sys_world t)) s"
proof -
  have ok: "unmodified_ok knobs prof st'" if "set (wr_unmodified st') \<subseteq> insert key (set (wr_unmodified st))" for st'
    using assms(3,4) that by (auto simp: unmodified_ok_def)
  show ?thesis unfolding write_selected_def wpF_bind Let_def
  proof (rule call_armed_wp [OF assms(1,2)], goal_cases)
    case (1 selected t)
    show ?case
    proof (cases selected)
      case PNone
      then show ?thesis using 1 assms(3,4) by (auto simp: wp intro: skip_request_wp)
    next
      case (PStr chosen)
      then show ?thesis using 1
        by (auto simp: wp split: sum.split intro!: set_requested_wp [OF 1] ok)
    qed (use 1 in \<open>simp_all add: wp\<close>)
  qed
qed

lemma write_direct_wp:
  assumes "armed env w0 A (sys_world s)" "key \<in> A" "unmodified_ok knobs prof st"
    and "configured \<in> set CONDITIONAL \<Longrightarrow> \<not> plain_control knobs prof key"
  shows "wpF (write_direct env knobs affected key configured v st)
     (\<lambda>st t. armed env w0 A (sys_world t) \<and> unmodified_ok knobs prof st) (\<lambda>e t. armed env w0 A (sys_world t)) s"
proof -
  let ?Q = "\<lambda>st (t :: hw_world sys). armed env w0 A (sys_world t) \<and> unmodified_ok knobs prof st"
  let ?E = "\<lambda>(e :: pyexn) (t :: hw_world sys). armed env w0 A (sys_world t)"
  have moved: "reads (existsF (\<lambda>(k, old). bindF (read_knob k) (\<lambda>now. retF (now \<noteq> old))) obs)" for obs
    by (intro reads_intro)
  have handler: "wpF (case observed of
          None \<Rightarrow> raiseF exc
        | Some obs \<Rightarrow>
            bindF (existsF (\<lambda>(k, old). bindF (read_knob k) (\<lambda>now. retF (now \<noteq> old))) obs) (\<lambda>moved.
            if moved
            then raiseF (TuningError (key @ '': unsupported setter changed state; request not skipped''))
            else skip_request key '': setter unsupported; conditional request skipped'' st)) ?Q ?E t"
    if "armed env w0 A (sys_world t)" "observed \<noteq> None \<Longrightarrow> configured \<in> set CONDITIONAL" for observed exc t
    using that assms(3,4)
    by (auto simp: wp split: option.split intro!: reads_armed_wp [OF moved] skip_request_wp)
  have attempt: "wpF (catchF (seqF (call_knob env key (CallWrite v)) (retF (st\<lparr>wr_count := wr_count st + 1\<rparr>)))
       is_unsupported
       (\<lambda>exc. case observed of
          None \<Rightarrow> raiseF exc
        | Some obs \<Rightarrow>
            bindF (existsF (\<lambda>(k, old). bindF (read_knob k) (\<lambda>now. retF (now \<noteq> old))) obs) (\<lambda>moved.
            if moved
            then raiseF (TuningError (key @ '': unsupported setter changed state; request not skipped''))
            else skip_request key '': setter unsupported; conditional request skipped'' st))) ?Q ?E t"
    if "armed env w0 A (sys_world t)" "observed \<noteq> None \<Longrightarrow> configured \<in> set CONDITIONAL" for observed t
    by (rule catch_wp, unfold wpF_seq, rule call_armed_wp [OF that(1) assms(2)])
      (use assms(3) that(2) in \<open>auto simp: wp intro!: handler\<close>)
  show ?thesis
  proof (cases "configured \<in> set CONDITIONAL")
    case True
    show ?thesis unfolding write_direct_def wpF_bind
      by (rule reads_armed_wp [OF reads_observe assms(1)]) (auto intro: attempt simp: True)
  next
    case False
    then show ?thesis unfolding write_direct_def observe_def using attempt [OF assms(1), of None]
      by (simp add: wpF_bind wpF_ret)
  qed
qed

lemma write_key_wp:
  assumes "armed env w0 A (sys_world s)" "key \<in> A" "unmodified_ok knobs prof st"
  shows "wpF (write_key env pol prof knobs affected st (key, v))
     (\<lambda>st t. armed env w0 A (sys_world t) \<and> unmodified_ok knobs prof st) (\<lambda>e t. armed env w0 A (sys_world t)) s"
proof (cases "knob_at knobs key")
  case (Inl e)
  then show ?thesis using assms(1) by (simp add: write_key_def wp)
next
  case (Inr k)
  then have k: "map_of knobs key = Some k" by (auto simp: knob_at_def split: option.splits)
  have before: "reads (if kn_restorable k then read_knob key else retF PNone)" by (intro reads_intro)
  show ?thesis unfolding write_key_def wpF_bind wpF_lift Inr sum.case prod.case Let_def
    by (rule reads_armed_wp [OF before assms(1)])
      (use assms(2,3) in \<open>auto simp: wpF_ret plain_control_def k CONDITIONAL_def intro!: write_selected_wp write_direct_wp\<close>)
qed

subsection \<open>Reading back and closing the journal\<close>

definition closing :: "hw_env \<Rightarrow> hw_world \<Rightarrow> string set \<Rightarrow> knobs \<Rightarrow> profile \<Rightarrow> hw_world \<Rightarrow> bool" where
  "closing env w0 A knobs prof w \<longleftrightarrow> snapped env w0 A w \<and> settled_or_pending knobs w
     \<and> (\<forall>key \<in> A. plain_control knobs prof key \<longrightarrow> key \<in> en_id ` set (jr_entries (hw_journal w)))"

lemma armed_closing: "armed env w0 A w \<Longrightarrow> closing env w0 A knobs prof w"
  by (auto simp: armed_def closing_def has_entries_def all_pending_def settled_or_pending_def list_all_set)

definition confirmed :: "knobs \<Rightarrow> string \<Rightarrow> hw_world \<Rightarrow> bool" where
  "confirmed knobs key w \<longleftrightarrow> (\<forall>e \<in> set (jr_entries (hw_journal w)). en_id e = key \<longrightarrow>
     \<not> restorable_at knobs key \<or> hw_regs w key = Inr (en_last e))"

lemma closing_update:
  assumes "closing env w0 A knobs prof w" "\<And>e. en_id (f e) = en_id e \<and> en_before (f e) = en_before e"
    and "\<And>e. e \<in> set (jr_entries (hw_journal w)) \<Longrightarrow>
      en_pending (f e) \<or> \<not> restorable_at knobs (en_id e) \<or> hw_regs w (en_id e) = Inr (en_last (f e))"
  shows "closing env w0 A knobs prof (w\<lparr>hw_journal := (hw_journal w)\<lparr>jr_entries := map f (jr_entries (hw_journal w))\<rparr>\<rparr>)"
  using assms(1,3) snapped_update [of env w0 A w f] assms(2)
  by (auto simp: closing_def settled_or_pending_def list_all_set image_image)

lemma settled_entry:
  "closing env w0 A knobs prof w \<Longrightarrow> e \<in> set (jr_entries (hw_journal w)) \<Longrightarrow>
   en_pending e \<or> \<not> restorable_at knobs (en_id e) \<or> hw_regs w (en_id e) = Inr (en_last e)"
  by (simp add: closing_def settled_or_pending_def list_all_set)

lemma set_last_wp:
  assumes "closing env w0 A knobs prof (sys_world s)" "restorable_at knobs key \<Longrightarrow> hw_regs (sys_world s) key = Inr v"
    and "\<And>t. closing env w0 A knobs prof (sys_world t) \<Longrightarrow> confirmed knobs key (sys_world t) \<Longrightarrow> Q () t"
  shows "wpF (set_last key v) Q E s"
proof -
  let ?f = "\<lambda>e. if en_id e = key then e\<lparr>en_last := v\<rparr> else e"
  let ?w = "(sys_world s)\<lparr>hw_journal := (hw_journal (sys_world s))
      \<lparr>jr_entries := map ?f (jr_entries (hw_journal (sys_world s)))\<rparr>\<rparr>"
  have "closing env w0 A knobs prof ?w"
  proof (rule closing_update [OF assms(1)])
    fix e
    assume "e \<in> set (jr_entries (hw_journal (sys_world s)))"
    note old = settled_entry [OF assms(1) this]
    show "en_pending (?f e) \<or> \<not> restorable_at knobs (en_id e) \<or> hw_regs (sys_world s) (en_id e) = Inr (en_last (?f e))"
    proof (cases "en_id e = key")
      case True
      show ?thesis using assms(2) by (simp add: True)
    next
      case False
      then show ?thesis using old by simp
    qed
  qed simp
  moreover have "confirmed knobs key ?w"
  proof (cases "restorable_at knobs key")
    case True
    then have v: "hw_regs (sys_world s) key = Inr v" by (rule assms(2))
    show ?thesis unfolding confirmed_def
    proof (intro ballI impI)
      fix e
      assume mem: "e \<in> set (jr_entries (hw_journal ?w))" and e: "en_id e = key"
      have "jr_entries (hw_journal ?w) = map ?f (jr_entries (hw_journal (sys_world s)))" by simp
      with mem have "e \<in> ?f ` set (jr_entries (hw_journal (sys_world s)))" by (simp only: set_map)
      then obtain e0 where "e = ?f e0" by blast
      with e have "en_last e = v" by (cases "en_id e0 = key") simp_all
      with v show "\<not> restorable_at knobs key \<or> hw_regs ?w key = Inr (en_last e)" by simp
    qed
  qed (simp add: confirmed_def)
  ultimately show ?thesis using assms(3) by (simp add: set_last_def wp)
qed

lemma clear_pending_wp:
  assumes "closing env w0 A knobs prof (sys_world s)" "confirmed knobs key (sys_world s)"
    and "\<And>t. closing env w0 A knobs prof (sys_world t) \<Longrightarrow> Q () t"
  shows "wpF (clear_pending key) Q E s"
proof -
  let ?f = "\<lambda>e. if en_id e = key then e\<lparr>en_pending := False\<rparr> else e"
  let ?w = "(sys_world s)\<lparr>hw_journal := (hw_journal (sys_world s))
      \<lparr>jr_entries := map ?f (jr_entries (hw_journal (sys_world s)))\<rparr>\<rparr>"
  have "closing env w0 A knobs prof ?w"
    by (rule closing_update [OF assms(1)]) (use assms(2) settled_entry [OF assms(1)] in \<open>auto simp: confirmed_def\<close>)
  then show ?thesis using assms(3) by (simp add: clear_pending_def wp)
qed

lemma confirm_key_wp:
  assumes "closing env w0 A knobs prof (sys_world s)"
  shows "wpF (confirm_key pol knobs values key) (\<lambda>_ t. closing env w0 A knobs prof (sys_world t))
     (\<lambda>e t. closing env w0 A knobs prof (sys_world t)) s"
proof (cases "knob_at knobs key")
  case (Inl e)
  then show ?thesis using assms by (simp add: confirm_key_def wp)
next
  case (Inr k)
  then have k: "restorable_at knobs key = kn_restorable k"
    by (auto simp: knob_at_def restorable_at_def split: option.splits)
  let ?P = "\<lambda>t :: hw_world sys. closing env w0 A knobs prof (sys_world t)"
  have check: "reads (case map_of values key of
              None \<Rightarrow> retF ()
            | Some v \<Rightarrow> whenF (kn_restorable k) (seqF (liftE (resolve k (py_str last_value) pol)) (assertF (last_value = v) (err v last_value))))"
    for err last_value
    unfolding whenF_def by (intro reads_intro)
  have rest: "wpF (seqF (set_last key last_value)
     (seqF (case map_of values key of
              None \<Rightarrow> retF ()
            | Some v \<Rightarrow> whenF (kn_restorable k) (seqF (liftE (resolve k (py_str last_value) pol)) (assertF (last_value = v) (err v last_value))))
     (clear_pending key))) (\<lambda>_. ?P) (\<lambda>e. ?P) t"
    if "?P t" "kn_restorable k \<Longrightarrow> hw_regs (sys_world t) key = Inr last_value" for last_value err t
    unfolding wpF_seq [of "set_last _ _"]
  proof (rule set_last_wp [OF that(1)])
    fix u :: "hw_world sys"
    assume u: "?P u" "confirmed knobs key (sys_world u)"
    show "wpF (seqF (case map_of values key of
              None \<Rightarrow> retF ()
            | Some v \<Rightarrow> whenF (kn_restorable k) (seqF (liftE (resolve k (py_str last_value) pol)) (assertF (last_value = v) (err v last_value))))
     (clear_pending key)) (\<lambda>_. ?P) (\<lambda>e. ?P) u"
      unfolding wpF_seq [of _ "clear_pending _"]
      by (rule reads_wp [OF check]) (use u in \<open>auto intro: clear_pending_wp\<close>)
  qed (use that(2) k in auto)
  show ?thesis
  proof (cases "kn_restorable k")
    case True
    show ?thesis unfolding confirm_key_def wpF_bind wpF_lift Inr sum.case if_P [OF True]
      by (rule read_knob_wp) (use assms in \<open>auto intro!: rest\<close>)
  next
    case False
    then show ?thesis unfolding confirm_key_def wpF_bind wpF_lift Inr sum.case
      using assms by (auto simp: wpF_lift split: sum.split intro!: rest)
  qed
qed

lemma forget_wp:
  assumes "closing env w0 A knobs prof (sys_world s)" "\<forall>key \<in> set keys. \<not> plain_control knobs prof key"
    and "\<And>t. closing env w0 A knobs prof (sys_world t) \<Longrightarrow> Q () t"
  shows "wpF (forget_unmodified keys) Q E s"
proof -
  let ?P = "\<lambda>e. en_id e \<notin> set keys \<or> en_last e \<noteq> en_before e"
  let ?w = "(sys_world s)\<lparr>hw_journal := (hw_journal (sys_world s))
      \<lparr>jr_entries := filter ?P (jr_entries (hw_journal (sys_world s)))\<rparr>\<rparr>"
  have "distinct (map en_id (filter ?P es))" if "distinct (map en_id es)" for es
    using that by (simp add: distinct_map_filter)
  moreover have "set (base (filter ?P es)) \<subseteq> set (base es)" for es by (auto simp: base_def)
  ultimately have "closing env w0 A knobs prof ?w"
    using assms(1,2) unfolding closing_def snapped_def settled_or_pending_def
    by (auto simp: list_all_set disk_doc_def calls_only_def) (blast | force)+
  then show ?thesis using assms(3) by (simp add: forget_unmodified_def wp)
qed

lemma save_closing_wp:
  assumes "closing env w0 A knobs prof (sys_world s)"
  shows "wpF (save env) (\<lambda>_ t. closing env w0 A knobs prof (sys_world t))
     (\<lambda>e t. closing env w0 A knobs prof (sys_world t)) s"
proof -
  have keep: "closing env w0 A knobs prof w"
    if "hw_part w = hw_part (sys_world s)" "disk_doc env w = disk_doc env (sys_world s)
      \<or> disk_doc env w = Some (journal_doc (hw_journal (sys_world s)))" for w
    using assms that unfolding closing_def snapped_def settled_or_pending_def calls_only_def
    by (auto simp: hw_part_def)
  show ?thesis by (rule save_wp) (auto intro: keep)
qed

definition kept_safe :: "hw_env \<Rightarrow> hw_world \<Rightarrow> knobs \<Rightarrow> profile \<Rightarrow> hw_world \<Rightarrow> bool" where
  "kept_safe env w0 knobs prof w \<longleftrightarrow>
     (\<forall>key. plain_control knobs prof key \<longrightarrow> recoverable_control env w0 w key)"

lemma unchanged_safe: "hw_regs w = hw_regs w0 \<Longrightarrow> kept_safe env w0 knobs prof w"
  by (simp add: kept_safe_def recoverable_control_def)

lemma closing_safe:
  assumes "closing env w0 A knobs prof w" "local_driver env knobs" "\<And>key. key \<in> A \<Longrightarrow> set (side_effects knobs key) \<subseteq> A"
  shows "kept_safe env w0 knobs prof w"
  unfolding kept_safe_def
proof (intro allI impI)
  fix key
  assume p: "plain_control knobs prof key"
  show "recoverable_control env w0 w key"
  proof (cases "key \<in> A")
    case True
    then obtain e where e: "e \<in> set (jr_entries (hw_journal w))" "en_id e = key"
      using assms(1) p by (auto simp: closing_def)
    obtain j where "disk_doc env w = Some (journal_doc j)" "set (base (jr_entries (hw_journal w))) \<subseteq> set (base (jr_entries j))"
      using assms(1) by (auto simp: closing_def snapped_def)
    moreover have "(key, en_before e) \<in> set (base (jr_entries (hw_journal w)))" using e by (auto simp: base_def)
    moreover have "hw_regs w0 key = Inr (en_before e)" using assms(1) e by (auto simp: closing_def snapped_def)
    ultimately show ?thesis by (auto simp: recoverable_control_def)
  next
    case False
    have "calls_only env w0 A w" using assms(1) by (simp add: closing_def snapped_def)
    from calls_only_frame [OF assms(2,3) this False] show ?thesis by (simp add: recoverable_control_def)
  qed
qed

lemma reset_kept_safe:
  assumes "closing env w0 A knobs prof u" "local_driver env knobs" "\<And>key. key \<in> A \<Longrightarrow> set (side_effects knobs key) \<subseteq> A"
    and "reset_kept env u knobs (jr_entries (hw_journal u)) w"
  shows "kept_safe env w0 knobs prof w"
  unfolding kept_safe_def
proof (intro allI impI)
  fix key
  assume p: "plain_control knobs prof key"
  let ?es = "jr_entries (hw_journal u)"
  have calls: "calls_only env w0 A u" and ids: "en_id ` set ?es \<subseteq> A"
    using assms(1) by (auto simp: closing_def snapped_def)
  show "recoverable_control env w0 w key"
  proof (cases "key \<in> A")
    case True
    then obtain e where e: "e \<in> set ?es" "en_id e = key" using assms(1) p by (auto simp: closing_def)
    have before: "hw_regs w0 key = Inr (en_before e)" using assms(1) e by (auto simp: closing_def snapped_def)
    have "\<not> changed_outside u knobs e'" if "e' \<in> set ?es" for e'
      using settled_entry [OF assms(1) that] by (auto simp: changed_outside_def)
    then have "\<not> released u knobs ?es e" by (auto simp: released_def)
    moreover have "restorable_at knobs key"
      using p by (auto simp: plain_control_def restorable_at_def split: option.splits)
    ultimately have "journalled env w e \<or> hw_regs w key = Inr (en_before e)"
      using assms(4) e by (auto simp: reset_kept_def baselines_safe_def settled_def list_all_set)
    then show ?thesis using before e(2) by (auto simp: recoverable_control_def journalled_def)
  next
    case False
    have "calls_only env u A w" using assms(4) calls_only_mono [OF _ ids] by (simp add: reset_kept_def)
    from calls_only_frame [OF assms(2,3) calls_only_trans [OF calls this] False]
    show ?thesis by (simp add: recoverable_control_def)
  qed
qed

lemma recover_wp:
  assumes "closing env w0 A knobs prof (sys_world s)" "local_driver env knobs"
    "\<And>key. key \<in> A \<Longrightarrow> set (side_effects knobs key) \<subseteq> A"
  shows "wpF (recover env knobs exc) Q (\<lambda>e t. kept_safe env w0 knobs prof (sys_world t)) s"
proof -
  have ready: "reset_ready env (sys_world s)"
    using assms(1) by (auto simp: closing_def snapped_def reset_ready_def)
  have "wpF (catchF (reset env knobs) is_recoverable (\<lambda>r. raiseF (f r)))
      (\<lambda>_ t. kept_safe env w0 knobs prof (sys_world t)) (\<lambda>e t. kept_safe env w0 knobs prof (sys_world t)) s" for f
    by (rule catch_wp, rule wpF_mono [OF reset_wp [OF ready]])
      (use reset_kept_safe [OF assms(1) assms(2) assms(3)] in \<open>auto simp: wp\<close>)
  then show ?thesis unfolding recover_def wpF_seq by (rule wpF_mono) (auto simp: wp)
qed

lemma perform_wp:
  assumes "armed env w0 A (sys_world s)" "set affected = A" "distinct (map fst values)" "fst ` set values \<subseteq> A"
  shows "wpF (perform env pol prof knobs name affected values skips temp)
     (\<lambda>_ t. closing env w0 A knobs prof (sys_world t)) (\<lambda>e t. closing env w0 A knobs prof (sys_world t)) s"
proof -
  let ?P = "\<lambda>t :: hw_world sys. closing env w0 A knobs prof (sys_world t)"
  let ?I = "\<lambda>(D :: string set) st (t :: hw_world sys). armed env w0 A (sys_world t) \<and> unmodified_ok knobs prof st"
  have loop: "wpF (for_ordered knobs values (write_key env pol prof knobs affected) st)
      (\<lambda>st t. \<exists>D. fst ` set values \<subseteq> D \<and> ?I D st t) (\<lambda>e t. armed env w0 A (sys_world t)) s"
    if "unmodified_ok knobs prof st" for st
    by (rule for_ordered_wp [where I = ?I])
      (use that assms in \<open>auto intro!: write_key_wp intro: rev_image_eqI\<close>)
  have confirm: "wpF (forF (confirm_key pol knobs vs) affected) (\<lambda>_. ?P) (\<lambda>e. ?P) t" if "?P t" for vs t
    by (rule wpF_for_inv [where I = ?P]) (use that confirm_key_wp in auto)
  have close: "wpF (seqF (forget_unmodified (wr_unmodified st)) (seqF (save env) (retF x))) (\<lambda>_. ?P) (\<lambda>e. ?P) t"
    if "?P t" "unmodified_ok knobs prof st" for st x t
    unfolding wpF_seq
    by (rule forget_wp [OF that(1)], use that(2) in \<open>simp add: unmodified_ok_def\<close>)
      (rule wpF_mono [OF save_closing_wp], simp_all add: wp)
  show ?thesis unfolding perform_def wpF_bind wpF_seq [of "forF _ _"] wpF_look
    by (rule wpF_mono [OF loop])
      (auto simp: unmodified_ok_def [of _ _ "\<lparr>wr_values = values, wr_count = 0, wr_selections = [], wr_unmodified = [],
          wr_skipped = skips\<rparr>"] armed_closing close intro!: wpF_mono [OF confirm])
qed

subsection \<open>Applying a profile\<close>

lemma plan_value_keys:
  "foldE (plan_value pol prof) vs ks = Inr values \<Longrightarrow> distinct (map fst vs @ map fst ks) \<Longrightarrow>
   distinct (map fst values) \<and> fst ` set values \<subseteq> fst ` set vs \<union> fst ` set ks"
proof (induction ks arbitrary: vs)
  case (Cons entry ks)
  obtain key k where entry: "entry = (key, k)" by (cases entry)
  obtain vs' where vs': "plan_value pol prof vs entry = Inr vs'" "foldE (plan_value pol prof) vs' ks = Inr values"
    using Cons.prems(1) by auto
  have "vs' = vs \<or> (\<exists>v. vs' = vs @ [(key, v)])"
    using vs'(1) by (auto simp: plan_value_def entry split: option.splits if_splits)
  then show ?case
  proof
    assume "vs' = vs"
    then show ?thesis using Cons.IH [OF vs'(2)] Cons.prems(2) by (simp add: entry) blast
  next
    assume "\<exists>v. vs' = vs @ [(key, v)]"
    then obtain v where v: "vs' = vs @ [(key, v)]" by blast
    have "distinct (map fst vs' @ map fst ks)" using Cons.prems(2) by (auto simp: v entry)
    from Cons.IH [OF vs'(2) this] show ?thesis by (simp add: v entry)
  qed
qed simp

text \<open>What the planned values are, when the plan returns.\<close>

lemma plan_wp:
  assumes "map_of (pol_profiles p) name = Some prof"
  shows "wpF (plan env (Some p) knobs name settings)
     (\<lambda>(values, skips) t. sys_world t = sys_world s \<and> foldE (plan_value p prof) [] knobs = Inr values)
     (\<lambda>e t. sys_world t = sys_world s) s"
proof -
  have same: "wpF (plan env (Some p) knobs name settings) (\<lambda>_ t. sys_world t = sys_world s) (\<lambda>e t. sys_world t = sys_world s) s"
    by (rule reads_wp [OF reads_plan]) auto
  have vals: "wpF (plan env (Some p) knobs name settings) (\<lambda>(values, skips) t. foldE (plan_value p prof) [] knobs = Inr values)
      (\<lambda>e t. True) s"
    unfolding plan_def Let_def assms option.case
    by (auto simp: wp wpF_any split: sum.split intro!: wpF_mono [OF wpF_any [of "forF f xs" for f xs]] wpF_mono [OF wpF_any [of "check_ownership a b" for a b]])
  show ?thesis by (rule wpF_mono [OF wpF_conj [OF same vals]]) auto
qed

lemma snapshot_wp:
  "wpF (snapshot values affected)
     (\<lambda>es t. sys_world t = sys_world s \<and> map en_id es = affected
        \<and> list_all (\<lambda>e. en_pending e \<and> hw_regs (sys_world s) (en_id e) = Inr (en_before e)) es)
     (\<lambda>e t. sys_world t = sys_world s) s"
  unfolding snapshot_def
proof (induction affected arbitrary: s)
  case Nil
  then show ?case by (simp add: wp)
next
  case (Cons key affected)
  show ?case unfolding mapF.simps wpF_bind [of "bindF _ _"] wpF_bind [of "read_knob _"]
    by (rule read_knob_wp) (auto simp: wp intro!: wpF_mono [OF Cons.IH])
qed

lemma wpF_same_world: "wpF m Q E s \<Longrightarrow> sys_world t = sys_world s \<Longrightarrow> t = s \<Longrightarrow> wpF m Q E t"
  by simp

lemma arming_wp:
  assumes w: "sys_world s = w0" and ids: "map en_id es = affected" and dist: "distinct affected"
    and ok: "list_all (\<lambda>e. en_pending e \<and> hw_regs w0 (en_id e) = Inr (en_before e)) es"
    and Q: "\<And>t. armed env w0 (set affected) (sys_world t) \<Longrightarrow> Q () t"
    and E: "\<And>e t. hw_regs (sys_world t) = hw_regs w0 \<Longrightarrow> E e t"
  shows "wpF (seqF (set_journal \<lparr>jr_profile = Some name, jr_entries = es\<rparr>) (save env)) Q E s"
proof -
  let ?w = "w0\<lparr>hw_journal := \<lparr>jr_profile = Some name, jr_entries = es\<rparr>\<rparr>"
  have u: "sys_world (upd (\<lambda>w. w\<lparr>hw_journal := \<lparr>jr_profile = Some name, jr_entries = es\<rparr>\<rparr>) s) = ?w"
    by (simp add: w)
  have part: "hw_regs v = hw_regs w0" "hw_log v = hw_log w0" "hw_journal v = \<lparr>jr_profile = Some name, jr_entries = es\<rparr>"
    if "hw_part v = hw_part ?w" for v
    using that by (simp_all add: hw_part_def)
  have armed: "armed env w0 (set affected) v"
    if "hw_part v = hw_part ?w" "disk_doc env v = Some (journal_doc (hw_journal v))" for v
    using that part [OF that(1)] ids dist ok
    by (auto simp: armed_def snapped_def has_entries_def all_pending_def list_all_set intro: calls_only_refl)
  show ?thesis unfolding wpF_seq set_journal_def wpF_assign
    by (rule save_wp; unfold u; intro Q E; use armed part in force)
qed

lemma apply_planned_wp:
  fixes s :: "hw_world sys"
  assumes drv: "local_driver env knobs" "closed_domains knobs" and vals: "distinct (map fst values)"
    and start: "hw_regs (sys_world s) = hw_regs w0"
  shows "wpF (apply_planned env pol prof knobs name (values, skips))
     (\<lambda>_ t. kept_safe env w0 knobs prof (sys_world t)) (\<lambda>e t. kept_safe env w0 knobs prof (sys_world t)) s"
proof -
  let ?S = "\<lambda>t :: hw_world sys. kept_safe env w0 knobs prof (sys_world t)"
  let ?w = "sys_world s"
  have idle: "?S t" if "hw_regs (sys_world t) = hw_regs ?w" for t
    using that start by (simp add: unchanged_safe)
  have same: "kept_safe env ?w knobs prof v = kept_safe env w0 knobs prof v" for v
    using start by (simp add: kept_safe_def recoverable_control_def)
  have closed: "set (side_effects knobs key) \<subseteq> set (affected_keys knobs changed)"
    if "key \<in> set (affected_keys knobs changed)" for key changed
    by (rule affected_closed [OF drv(2) that])
  have safe: "?S t" if "closing env ?w (set (affected_keys knobs changed)) knobs prof (sys_world t)" for changed t
    using closing_safe [OF that drv(1) closed] same by blast
  have again: "wpF (recover env knobs e) (\<lambda>_ :: applied. ?S) (\<lambda>e. ?S) t"
    if "closing env ?w (set (affected_keys knobs changed)) knobs prof (sys_world t)" for changed e t
    by (rule wpF_mono [OF recover_wp [OF that drv(1) closed, where Q = "\<lambda>_. ?S"]]) (simp_all add: same)
  have run: "wpF (catchF (perform env pol prof knobs name (affected_keys knobs changed) kept skips temp) (\<lambda>e. True)
      (recover env knobs)) (\<lambda>_. ?S) (\<lambda>e. ?S) t"
    if "armed env ?w (set (affected_keys knobs changed)) (sys_world t)"
      "kept = filter (\<lambda>kv. fst kv \<in> set (affected_keys knobs changed)) values" for changed kept temp t
  proof (rule catch_wp, rule wpF_mono [OF perform_wp [OF that(1) refl]])
    show "distinct (map fst kept)" using vals that(2) by (simp add: distinct_map_filter)
    show "fst ` set kept \<subseteq> set (affected_keys knobs changed)" using that(2) by auto
    show "?S u" if "closing env ?w (set (affected_keys knobs changed)) knobs prof (sys_world u)" for u
      by (rule safe [OF that])
    show "if e \<noteq> Killed \<and> True then wpF (recover env knobs e) (\<lambda>_ :: applied. ?S) (\<lambda>e. ?S) u else ?S u"
      if "closing env ?w (set (affected_keys knobs changed)) knobs prof (sys_world u)" for e u
      using safe [OF that] again [OF that] by simp
  qed
  have go: "wpF (seqF (set_journal \<lparr>jr_profile = Some name, jr_entries = es\<rparr>) (seqF (save env)
      (catchF (perform env pol prof knobs name (affected_keys knobs changed)
         (filter (\<lambda>kv. fst kv \<in> set (affected_keys knobs changed)) values) skips temp) (\<lambda>e. True)
       (recover env knobs)))) (\<lambda>_. ?S) (\<lambda>e. ?S) t"
    if "sys_world t = ?w" "map en_id es = affected_keys knobs changed"
      "list_all (\<lambda>e. en_pending e \<and> hw_regs ?w (en_id e) = Inr (en_before e)) es" for es changed temp t
  proof -
    let ?run = "catchF (perform env pol prof knobs name (affected_keys knobs changed)
         (filter (\<lambda>kv. fst kv \<in> set (affected_keys knobs changed)) values) skips temp) (\<lambda>e. True) (recover env knobs)"
    have "distinct (affected_keys knobs changed)" by (simp add: affected_keys_def)
    then have "wpF (seqF (set_journal \<lparr>jr_profile = Some name, jr_entries = es\<rparr>) (save env))
        (\<lambda>_. wpF ?run (\<lambda>_. ?S) (\<lambda>e. ?S)) (\<lambda>e. ?S) t"
      by (rule arming_wp [OF that(1,2) _ that(3)]) (auto intro: run idle)
    then show ?thesis by (simp only: wpF_seq_eta)
  qed
  have body: "wpF (bindF (changed_keys knobs values) (\<lambda>changed.
        let affected = affected_keys knobs changed; kept = filter (\<lambda>kv. fst kv \<in> set affected) values in
        bindF (snapshot kept affected) (\<lambda>entries.
        seqF (set_journal \<lparr>jr_profile = Some name, jr_entries = entries\<rparr>)
        (seqF (save env)
        (catchF (perform env pol prof knobs name affected kept skips temp) (\<lambda>e. True) (recover env knobs))))))
      (\<lambda>_. ?S) (\<lambda>e. ?S) t" if "sys_world t = ?w" for temp t
    unfolding wpF_bind Let_def
    by (rule reads_wp [OF reads_changed_keys], rule wpF_mono [OF snapshot_wp])
      (use that idle in \<open>auto intro!: go\<close>)
  have gates: "wpF (seqF (liftE c) (bindF (liftE r) (\<lambda>risky. seqF (assertF (b risky) e) m))) (\<lambda>_. ?S) (\<lambda>e. ?S) t"
    if "sys_world t = ?w" "wpF m (\<lambda>_. ?S) (\<lambda>e. ?S) t"
    for c :: "unit res" and r :: "bool res" and b e and m :: "applied hw_io" and t
    using that idle by (auto simp: wp split: sum.split)
  show ?thesis unfolding apply_planned_def prod.case wpF_bind [of "temperature _"]
    by (rule reads_wp [OF reads_temperature]) (auto simp: idle intro!: gates body)
qed

text \<open>C11 (a killed or failed application can be undone): starting from an empty journal, whatever steps
  fail, wherever the process is killed and whatever the driver answers, every restorable control with an
  unconditional request other than \<open>max\<close> (or none) afterwards reads its original value or has that value in
  the journal on disk. A call of the driver may do anything to the controls of the side-effect domain that
  the code computes for the control it is made on, and nothing to others (\<open>local_driver\<close>), and these domains
  are closed: the domain of a member lies within the domain (\<open>closed_domains\<close>).\<close>

theorem apply_crash_safe:
  assumes drv: "local_driver env knobs" "closed_domains knobs" "distinct (map fst knobs)"
    and prof: "map_of (pol_profiles p) name = Some prof"
    and start: "jr_entries (hw_journal (sys_world s)) = []"
    and run: "apply_profile env (Some p) knobs name settings s = (r, t)"
    and key: "plain_control knobs prof key"
  shows "recoverable_control env (sys_world s) (sys_world t) key"
proof -
  let ?S = "\<lambda>t :: hw_world sys. kept_safe env (sys_world s) knobs prof (sys_world t)"
  have plan: "wpF (bindF (plan env (Some p) knobs name settings) (apply_planned env p prof knobs name))
      (\<lambda>_. ?S) (\<lambda>e. ?S) s"
    unfolding wpF_bind
  proof (rule wpF_mono [OF plan_wp [OF prof]])
    fix vs :: "(string \<times> pyval) list \<times> string list" and u :: "hw_world sys"
    assume u: "(\<lambda>(values, skips) t. sys_world t = sys_world s \<and> foldE (plan_value p prof) [] knobs = Inr values) vs u"
    obtain plans skips where vs: "vs = (plans, skips)" by (cases vs)
    have "distinct (map fst plans)" using plan_value_keys [of p prof "[]" knobs plans] u drv(3) by (simp add: vs)
    then show "wpF (apply_planned env p prof knobs name vs) (\<lambda>_. ?S) (\<lambda>e. ?S) u"
      unfolding vs by (intro apply_planned_wp drv) (use u vs in auto)
  qed (simp add: unchanged_safe)
  have "wpF (apply_profile env (Some p) knobs name settings) (\<lambda>_. ?S) (\<lambda>e. ?S) s"
    using plan unfolding apply_profile_def yield_or_reset_def option.case prof
    by (simp add: wpF_seq wpF_bind wpF_look wpF_ret start)
  from wpF_run [OF this run] have "?S t" by (cases r) auto
  with key show ?thesis by (simp add: kept_safe_def)
qed

end
