(* ===== verification/HwGuarantees.thy ===== *)
theory HwGuarantees
  imports HwApplyFacts
begin

text \<open>
  What the tuning engine guarantees of a successful application, of the thermal interlock and of paired
  limits, with the instances of these theorems.
\<close>

subsection \<open>A successful application reads back what it planned\<close>

definition keeps :: "knobs \<Rightarrow> profile \<Rightarrow> (string \<times> pyval) list \<Rightarrow> writing \<Rightarrow> bool" where
  "keeps knobs prof vs st \<longleftrightarrow> (\<forall>key. plain_control knobs prof key \<longrightarrow> map_of (wr_values st) key = map_of vs key)"

lemma keeps_simps [simp]:
  "keeps knobs prof vs (st\<lparr>wr_count := b\<rparr>) = keeps knobs prof vs st"
  "keeps knobs prof vs (st\<lparr>wr_selections := c\<rparr>) = keeps knobs prof vs st"
  "keeps knobs prof vs (st\<lparr>wr_skipped := d\<rparr>) = keeps knobs prof vs st"
  "keeps knobs prof vs (st\<lparr>wr_unmodified := e\<rparr>) = keeps knobs prof vs st"
  by (simp_all add: keeps_def)

lemma map_of_ddrop: "map_of (ddrop key d) other = (if other = key then None else map_of d other)"
  by (induction d) (auto simp: ddrop_def)

lemma keeps_values:
  "keeps knobs prof vs st \<Longrightarrow> \<not> plain_control knobs prof key \<Longrightarrow> keeps knobs prof vs (st\<lparr>wr_values := ddrop key (wr_values st)\<rparr>)"
  "keeps knobs prof vs st \<Longrightarrow> \<not> plain_control knobs prof key \<Longrightarrow> keeps knobs prof vs (st\<lparr>wr_values := dset key v (wr_values st)\<rparr>)"
  by (auto simp: keeps_def map_of_ddrop)

lemma skip_request_keeps:
  assumes "keeps knobs prof vs st" "\<not> plain_control knobs prof key"
  shows "wpF (skip_request key why st) (\<lambda>st t. keeps knobs prof vs st) (\<lambda>_ _. True) s"
  using keeps_values(1) [OF assms] by (simp add: skip_request_def set_requested_def wp)

lemma write_selected_keeps:
  assumes "keeps knobs prof vs st" "\<not> plain_control knobs prof key"
  shows "wpF (write_selected env pol key k configured v prior st) (\<lambda>st t. keeps knobs prof vs st) (\<lambda>_ _. True) s"
  unfolding write_selected_def wpF_bind Let_def
proof (rule wpF_mono [OF wpF_any], goal_cases)
  case (1 selected t)
  show ?case
  proof (cases selected)
    case PNone
    then show ?thesis using skip_request_keeps [of knobs prof vs "st\<lparr>wr_selections := wr_selections st @ [(key, v, PNone)]\<rparr>"] assms
      by (auto simp: wp)
  next
    case (PStr chosen)
    have "keeps knobs prof vs (st\<lparr>wr_selections := a, wr_values := dset key x (wr_values st), wr_count := b, wr_unmodified := c\<rparr>)"
      for a b c x
      using keeps_values(2) [OF assms, of x] by (simp add: keeps_def)
    then show ?thesis by (auto simp: PStr wp set_requested_def split: sum.split)
  qed (simp_all add: wp)
qed simp

lemma write_key_keeps:
  assumes "keeps knobs prof vs st"
  shows "wpF (write_key env pol prof knobs affected st (key, v)) (\<lambda>st t. keeps knobs prof vs st) (\<lambda>_ _. True) s"
proof (cases "knob_at knobs key")
  case (Inl e)
  then show ?thesis by (simp add: write_key_def wp)
next
  case (Inr k)
  then have k: "map_of knobs key = Some k" by (auto simp: knob_at_def split: option.splits)
  have handler: "wpF (case observed of
          None \<Rightarrow> raiseF exc
        | Some obs \<Rightarrow> bindF (m obs) (\<lambda>moved. if moved then raiseF err else skip_request key why st))
      (\<lambda>st t. keeps knobs prof vs st) (\<lambda>_ _. True) t"
    if "observed \<noteq> None \<Longrightarrow> \<not> plain_control knobs prof key"
    for observed :: "(string \<times> pyval) list option" and exc m err why t
    using that skip_request_keeps [OF assms]
    by (auto simp: wp split: option.split intro!: wpF_mono [OF wpF_any [of "m x" for x]])
  have attempt: "wpF (catchF (seqF m (retF (st\<lparr>wr_count := n\<rparr>))) c h) (\<lambda>st t. keeps knobs prof vs st) (\<lambda>_ _. True) t"
    if "\<And>e t. wpF (h e) (\<lambda>st t. keeps knobs prof vs st) (\<lambda>_ _. True) t" for m :: "pyval hw_io" and n c h t
    by (rule catch_wp, unfold wpF_seq, rule wpF_mono [OF wpF_any]) (use that assms in \<open>auto simp: wpF_ret\<close>)
  have direct: "wpF (write_direct env knobs affected key configured v st) (\<lambda>st t. keeps knobs prof vs st) (\<lambda>_ _. True) t"
    if "configured \<in> set CONDITIONAL \<Longrightarrow> \<not> plain_control knobs prof key" for configured t
  proof (cases "configured \<in> set CONDITIONAL")
    case True
    show ?thesis unfolding write_direct_def wpF_bind
      by (rule wpF_mono [OF wpF_any]) (use that True in \<open>auto intro!: attempt handler\<close>)
  next
    case False
    then show ?thesis unfolding write_direct_def observe_def wpF_bind
      by (simp add: wpF_ret) (intro attempt, simp add: wp)
  qed
  show ?thesis unfolding write_key_def wpF_bind wpF_lift Inr sum.case prod.case Let_def
    by (rule wpF_mono [OF wpF_any])
      (use assms in \<open>auto simp: wpF_ret plain_control_def k CONDITIONAL_def intro!: write_selected_keeps direct\<close>)
qed

lemma changed_keys_wp:
  "wpF (changed_keys knobs values)
     (\<lambda>changed t. sys_world t = sys_world s
        \<and> (\<forall>kv \<in> set values. fst kv \<notin> set changed \<longrightarrow> hw_regs (sys_world s) (fst kv) = Inr (snd kv)))
     (\<lambda>_ _. True) s"
proof -
  have one: "wpF (bindF (differs knobs kv) (\<lambda>b. retF (fst kv, b)))
      (\<lambda>f t. sys_world t = sys_world s \<and> fst f = fst kv \<and> (snd f \<or> hw_regs (sys_world s) (fst kv) = Inr (snd kv)))
      (\<lambda>_ _. True) t" if "sys_world t = sys_world s" for kv t
    using that unfolding differs_def
    by (auto simp: wp split: sum.split intro!: read_knob_wp)
  have "wpF (mapF (\<lambda>kv. bindF (differs knobs kv) (\<lambda>b. retF (fst kv, b))) vs)
      (\<lambda>flags t. sys_world t = sys_world s
        \<and> list_all2 (\<lambda>f kv. fst f = fst kv \<and> (snd f \<or> hw_regs (sys_world s) (fst kv) = Inr (snd kv))) flags vs)
      (\<lambda>_ _. True) t" if "sys_world t = sys_world s" for vs t
    using that
  proof (induction vs arbitrary: t)
    case Nil
    then show ?case by (simp add: wp)
  next
    case (Cons kv vs)
    show ?case unfolding mapF.simps wpF_bind [of "bindF _ _"]
      by (rule wpF_mono [OF one [OF Cons.prems]])
        (auto simp: wpF_bind wpF_ret intro!: wpF_mono [OF Cons.IH])
  qed
  note flags = this [OF refl]
  have "\<forall>kv \<in> set vs. fst kv \<notin> set (map fst (filter snd fs)) \<longrightarrow> hw_regs (sys_world s) (fst kv) = Inr (snd kv)"
    if "list_all2 (\<lambda>f kv. fst f = fst kv \<and> (snd f \<or> hw_regs (sys_world s) (fst kv) = Inr (snd kv))) fs vs" for fs vs
    using that by (induction rule: list_all2_induct) auto
  note settle = this
  show ?thesis unfolding changed_keys_def wpF_bind
    by (rule wpF_mono [OF flags], unfold wpF_ret, elim conjE, intro conjI, assumption, rule settle, assumption, rule TrueI)
qed

definition reads_planned_value :: "knobs \<Rightarrow> profile \<Rightarrow> (string \<times> pyval) list \<Rightarrow> regs \<Rightarrow> string \<Rightarrow> bool" where
  "reads_planned_value knobs prof values r key \<longleftrightarrow>
     (plain_control knobs prof key \<longrightarrow> (\<forall>v. map_of values key = Some v \<longrightarrow> r key = Inr v))"

lemma confirm_key_reads:
  assumes "\<forall>key. plain_control knobs prof key \<longrightarrow> map_of vs key = map_of values key"
  shows "wpF (confirm_key pol knobs vs key)
     (\<lambda>_ t. hw_regs (sys_world t) = hw_regs (sys_world s) \<and> reads_planned_value knobs prof values (hw_regs (sys_world s)) key)
     (\<lambda>_ _. True) s"
proof (cases "knob_at knobs key")
  case (Inl e)
  then show ?thesis by (simp add: confirm_key_def wp)
next
  case (Inr k)
  then have k: "map_of knobs key = Some k" by (auto simp: knob_at_def split: option.splits)
  show ?thesis
  proof (cases "kn_restorable k")
    case False
    then show ?thesis unfolding confirm_key_def wpF_bind wpF_lift Inr sum.case
      by (auto simp: wp set_last_def clear_pending_def reads_planned_value_def plain_control_def k split: sum.split option.split)
  next
    case True
    show ?thesis unfolding confirm_key_def wpF_bind wpF_lift Inr sum.case if_P [OF True]
      by (rule read_knob_wp)
        (use assms True in \<open>auto simp: wp set_last_def clear_pending_def reads_planned_value_def split: sum.split option.split\<close>)
  qed
qed

lemma perform_reads:
  assumes "armed env w0 A (sys_world s)" "set affected = A" "distinct (map fst kept)" "fst ` set kept \<subseteq> A"
  shows "wpF (perform env pol prof knobs name affected kept skips temp)
     (\<lambda>_ t. calls_only env w0 A (sys_world t)
        \<and> (\<forall>key \<in> A. reads_planned_value knobs prof kept (hw_regs (sys_world t)) key)) (\<lambda>_ _. True) s"
proof -
  let ?I = "\<lambda>(D :: string set) st (t :: hw_world sys). keeps knobs prof kept st"
  have one: "wpF (write_key env pol prof knobs affected b (key, v)) (?I (insert key D)) (\<lambda>_ _. True) u"
    if "keeps knobs prof kept b" for D b key v u
    by (rule write_key_keeps [OF that])
  have loop: "wpF (for_ordered knobs kept (write_key env pol prof knobs affected) st)
      (\<lambda>st t. \<exists>D. fst ` set kept \<subseteq> D \<and> ?I D st t) (\<lambda>_ _. True) s" if "keeps knobs prof kept st" for st
    by (rule for_ordered_wp [where I = ?I]) (use that assms(3) one in auto)
  have confirm: "wpF (forF (confirm_key pol knobs vs) affected)
      (\<lambda>_ t. hw_regs (sys_world t) = hw_regs (sys_world u)
         \<and> (\<forall>key \<in> set affected. reads_planned_value knobs prof kept (hw_regs (sys_world u)) key)) (\<lambda>_ _. True) u"
    if "\<forall>key. plain_control knobs prof key \<longrightarrow> map_of vs key = map_of kept key" for vs u
    by (rule wpF_for [where I = "\<lambda>ys t. hw_regs (sys_world t) = hw_regs (sys_world u)
         \<and> (\<forall>key \<in> set ys. reads_planned_value knobs prof kept (hw_regs (sys_world u)) key)"])
      (use wpF_mono [OF confirm_key_reads [OF that]] in \<open>force\<close>)+
  have close: "wpF (seqF (forget_unmodified ks) (seqF (save env) (retF x)))
      (\<lambda>_ t. \<forall>key \<in> set affected. reads_planned_value knobs prof kept (hw_regs (sys_world t)) key) (\<lambda>_ _. True) u"
    if "\<forall>key \<in> set affected. reads_planned_value knobs prof kept (hw_regs (sys_world u)) key" for ks x u
    unfolding wpF_seq forget_unmodified_def wpF_assign
    by (rule save_wp) (use that in \<open>auto simp: wpF_ret hw_part_def\<close>)
  have "wpF (perform env pol prof knobs name affected kept skips temp)
     (\<lambda>_ t. \<forall>key \<in> set affected. reads_planned_value knobs prof kept (hw_regs (sys_world t)) key) (\<lambda>_ _. True) s"
    unfolding perform_def wpF_bind wpF_seq [of "forF _ _"] wpF_look
    by (rule wpF_mono [OF loop]; (simp add: keeps_def)?)
      (auto simp: keeps_def intro!: wpF_mono [OF confirm] close)
  note vals = this
  have "wpF (perform env pol prof knobs name affected kept skips temp) (\<lambda>_ t. calls_only env w0 A (sys_world t)) (\<lambda>_ _. True) s"
    by (rule wpF_mono [OF perform_wp [OF assms, where prof = prof]]) (auto simp: closing_def snapped_def)
  from wpF_conj [OF this vals] show ?thesis by (rule wpF_mono) (simp_all add: assms(2))
qed

lemma recover_raises: "wpF (recover env knobs exc) Q (\<lambda>_ _. True) s"
  unfolding recover_def wpF_seq by (rule wpF_mono [OF wpF_any]) (simp_all add: wp)

lemma apply_planned_reads:
  fixes s :: "hw_world sys"
  assumes drv: "local_driver env knobs" "closed_domains knobs" and vals: "distinct (map fst values)"
  shows "wpF (apply_planned env pol prof knobs name (values, skips))
     (\<lambda>_ t. \<forall>key. reads_planned_value knobs prof values (hw_regs (sys_world t)) key) (\<lambda>_ _. True) s"
proof -
  let ?w = "sys_world s"
  let ?R = "\<lambda>t :: hw_world sys. \<forall>key. reads_planned_value knobs prof values (hw_regs (sys_world t)) key"
  have final: "?R t"
    if changed: "\<forall>kv \<in> set values. fst kv \<notin> set changed \<longrightarrow> hw_regs ?w (fst kv) = Inr (snd kv)"
      and calls: "calls_only env ?w (set (affected_keys knobs changed)) (sys_world t)"
      and agree: "\<forall>key \<in> set (affected_keys knobs changed). reads_planned_value knobs prof
        (filter (\<lambda>kv. fst kv \<in> set (affected_keys knobs changed)) values) (hw_regs (sys_world t)) key"
    for changed and t :: "hw_world sys"
  proof
    fix key
    let ?A = "set (affected_keys knobs changed)"
    have kept: "map_of (filter (\<lambda>kv. fst kv \<in> ?A) values) key = map_of values key" if "key \<in> ?A"
      using that by (induction "values") auto
    have sub: "set changed \<subseteq> ?A" by (auto simp: affected_keys_def)
    have "hw_regs (sys_world t) key = Inr v" if v: "map_of values key = Some v" "key \<notin> ?A" for v
    proof -
      have "(key, v) \<in> set values" using v(1) by (rule map_of_SomeD)
      with changed sub v(2) have "hw_regs ?w key = Inr v" by fastforce
      moreover have "hw_regs (sys_world t) key = hw_regs ?w key"
        by (rule calls_only_frame [OF drv(1) affected_closed [OF drv(2)] calls v(2)])
      ultimately show ?thesis by simp
    qed
    then show "reads_planned_value knobs prof values (hw_regs (sys_world t)) key"
      using agree kept by (cases "key \<in> ?A") (auto simp: reads_planned_value_def)
  qed
  have run: "wpF (catchF (perform env pol prof knobs name (affected_keys knobs changed)
         (filter (\<lambda>kv. fst kv \<in> set (affected_keys knobs changed)) values) skips temp) (\<lambda>e. True) (recover env knobs))
      (\<lambda>_. ?R) (\<lambda>_ _. True) t"
    if "armed env ?w (set (affected_keys knobs changed)) (sys_world t)"
      "\<forall>kv \<in> set values. fst kv \<notin> set changed \<longrightarrow> hw_regs ?w (fst kv) = Inr (snd kv)" for changed temp t
    by (rule catch_wp, rule wpF_mono [OF perform_reads [OF that(1) refl]])
      (use vals that(2) in \<open>auto simp: distinct_map_filter intro!: recover_raises final [THEN spec]\<close>)
  have go: "wpF (seqF (set_journal \<lparr>jr_profile = Some name, jr_entries = es\<rparr>) (seqF (save env)
      (catchF (perform env pol prof knobs name (affected_keys knobs changed)
         (filter (\<lambda>kv. fst kv \<in> set (affected_keys knobs changed)) values) skips temp) (\<lambda>e. True)
       (recover env knobs)))) (\<lambda>_. ?R) (\<lambda>_ _. True) t"
    if "sys_world t = ?w" "map en_id es = affected_keys knobs changed"
      "list_all (\<lambda>e. en_pending e \<and> hw_regs ?w (en_id e) = Inr (en_before e)) es"
      "\<forall>kv \<in> set values. fst kv \<notin> set changed \<longrightarrow> hw_regs ?w (fst kv) = Inr (snd kv)" for es changed temp t
  proof -
    let ?run = "catchF (perform env pol prof knobs name (affected_keys knobs changed)
         (filter (\<lambda>kv. fst kv \<in> set (affected_keys knobs changed)) values) skips temp) (\<lambda>e. True) (recover env knobs)"
    have "distinct (affected_keys knobs changed)" by (simp add: affected_keys_def)
    then have "wpF (seqF (set_journal \<lparr>jr_profile = Some name, jr_entries = es\<rparr>) (save env))
        (\<lambda>_. wpF ?run (\<lambda>_. ?R) (\<lambda>_ _. True)) (\<lambda>_ _. True) t"
      by (rule arming_wp [OF that(1,2) _ that(3)]) (use that(4) in \<open>auto intro: run\<close>)
    then show ?thesis by (simp only: wpF_seq_eta)
  qed
  have body: "wpF (bindF (changed_keys knobs values) (\<lambda>changed.
        let affected = affected_keys knobs changed; kept = filter (\<lambda>kv. fst kv \<in> set affected) values in
        bindF (snapshot kept affected) (\<lambda>entries.
        seqF (set_journal \<lparr>jr_profile = Some name, jr_entries = entries\<rparr>)
        (seqF (save env)
        (catchF (perform env pol prof knobs name affected kept skips temp) (\<lambda>e. True) (recover env knobs))))))
      (\<lambda>_. ?R) (\<lambda>_ _. True) t" if "sys_world t = ?w" for temp t
    unfolding wpF_bind Let_def
    by (rule wpF_mono [OF changed_keys_wp], rule wpF_mono [OF snapshot_wp]) (use that in \<open>auto intro!: go\<close>)
  have gates: "wpF (seqF (liftE c) (bindF (liftE r) (\<lambda>risky. seqF (assertF (b risky) e) m))) (\<lambda>_. ?R) (\<lambda>_ _. True) t"
    if "wpF m (\<lambda>_. ?R) (\<lambda>_ _. True) t"
    for c :: "unit res" and r :: "bool res" and b e and m :: "applied hw_io" and t
    using that by (auto simp: wp split: sum.split)
  show ?thesis unfolding apply_planned_def prod.case wpF_bind [of "temperature _"]
    by (rule reads_wp [OF reads_temperature]) (auto intro!: gates body)
qed

lemma plan_value_keep:
  "foldE (plan_value pol prof) vs ks = Inr values \<Longrightarrow> map_of vs key = Some v \<Longrightarrow> map_of values key = Some v"
proof (induction ks arbitrary: vs)
  case (Cons entry ks)
  then show ?case
    by (auto simp: plan_value_def map_add_def split: option.splits if_splits prod.splits)
qed simp

lemma plan_value_lookup:
  "foldE (plan_value pol prof) vs ks = Inr values \<Longrightarrow> distinct (map fst vs @ map fst ks) \<Longrightarrow> map_of ks key = Some k \<Longrightarrow>
   resolve k (configured_value prof k) pol = Inr (Some v) \<Longrightarrow> map_of values key = Some v"
proof (induction ks arbitrary: vs)
  case (Cons entry ks)
  obtain key' k' where entry: "entry = (key', k')" by (cases entry)
  obtain vs' where vs': "plan_value pol prof vs entry = Inr vs'" "foldE (plan_value pol prof) vs' ks = Inr values"
    using Cons.prems(1) by auto
  have grown: "map fst vs' = map fst vs \<or> map fst vs' = map fst vs @ [key']"
    using vs'(1) by (auto simp: plan_value_def entry split: option.splits if_splits)
  show ?case
  proof (cases "key' = key")
    case True
    then have "k' = k" using Cons.prems(3) by (simp add: entry)
    then have "vs' = vs @ [(key, v)]"
      using vs'(1) Cons.prems(4) by (auto simp: plan_value_def entry True split: if_splits)
    moreover have "map_of vs key = None" using Cons.prems(2) by (auto simp: entry True map_of_eq_None_iff)
    ultimately have "map_of vs' key = Some v" by (simp add: map_add_def)
    with vs'(2) show ?thesis by (rule plan_value_keep)
  next
    case False
    have "distinct (map fst vs' @ map fst ks)" using grown Cons.prems(2) by (auto simp: entry simp del: set_map)
    moreover have "map_of ks key = Some k" using Cons.prems(3) False by (simp add: entry)
    ultimately show ?thesis using Cons.IH [OF vs'(2)] Cons.prems(4) by blast
  qed
qed simp

text \<open>C13 (success means the hardware agrees): when an application that started from an empty journal
  returns, every restorable control with an unconditional request other than \<open>max\<close> that resolves to a value
  reads exactly that value, on a driver whose calls change nothing outside the closed side-effect domain that
  the code computes for the control (\<open>local_driver\<close>, \<open>closed_domains\<close>).\<close>

theorem apply_reads_back:
  assumes drv: "local_driver env knobs" "closed_domains knobs" "distinct (map fst knobs)"
    and prof: "map_of (pol_profiles p) name = Some prof"
    and start: "jr_entries (hw_journal (sys_world s)) = []"
    and run: "apply_profile env (Some p) knobs name settings s = (Inr a, t)"
    and key: "plain_control knobs prof key" "map_of knobs key = Some k"
    and v: "resolve k (configured_value prof k) p = Inr (Some v)"
  shows "hw_regs (sys_world t) key = Inr v"
proof -
  let ?R = "\<lambda>t :: hw_world sys. hw_regs (sys_world t) key = Inr v"
  have "wpF (bindF (plan env (Some p) knobs name settings) (apply_planned env p prof knobs name)) (\<lambda>_. ?R) (\<lambda>_ _. True) s"
    unfolding wpF_bind
  proof (rule wpF_mono [OF plan_wp [OF prof]])
    fix vs :: "(string \<times> pyval) list \<times> string list" and u :: "hw_world sys"
    assume u: "(\<lambda>(values, skips) t. sys_world t = sys_world s \<and> foldE (plan_value p prof) [] knobs = Inr values) vs u"
    obtain plans skips where vs: "vs = (plans, skips)" by (cases vs)
    have "distinct (map fst plans)" using plan_value_keys [of p prof "[]" knobs plans] u drv(3) by (simp add: vs)
    moreover have "map_of plans key = Some v"
      using plan_value_lookup [of p prof "[]" knobs plans key k v] u drv(3) key(2) v by (simp add: vs)
    ultimately show "wpF (apply_planned env p prof knobs name vs) (\<lambda>_. ?R) (\<lambda>_ _. True) u"
      unfolding vs by (intro wpF_mono [OF apply_planned_reads [OF drv(1,2)]])
        (use key(1) in \<open>auto simp: reads_planned_value_def\<close>)
  qed simp
  then have "wpF (apply_profile env (Some p) knobs name settings) (\<lambda>_. ?R) (\<lambda>_ _. True) s"
    unfolding apply_profile_def yield_or_reset_def option.case prof
    by (simp add: wpF_seq wpF_bind wpF_look wpF_ret start)
  from wpF_run [OF this run] show ?thesis by simp
qed

subsection \<open>The thermal interlock\<close>

text \<open>The sensor reads at least the limit, or is missing while the plan raises power or clocks.\<close>

definition too_risky :: "hw_env \<Rightarrow> policy \<Rightarrow> knobs \<Rightarrow> profile \<Rightarrow> nat \<Rightarrow> bool" where
  "too_risky env p knobs prof n \<longleftrightarrow>
     (case he_temperature env n of
        Some temp \<Rightarrow> 1000 * pol_max_temp p \<le> t_milli temp
      | None \<Rightarrow> (case foldE (plan_value p prof) [] knobs of
            Inl e \<Rightarrow> False | Inr values \<Rightarrow> risky_plan knobs values = Inr True))"

text \<open>C16 (the interlock comes before every write): from an empty journal, so that there is nothing to reset
  first, a profile is not applied and no driver call is made when the sensor reads the policy's limit or more,
  or when it is missing and the plan raises power or clocks.\<close>

theorem thermal_interlock:
  assumes prof: "map_of (pol_profiles p) name = Some prof"
    and start: "jr_entries (hw_journal (sys_world s)) = []"
    and risk: "too_risky env p knobs prof (length (hw_log (sys_world s)))"
    and run: "apply_profile env (Some p) knobs name settings s = (r, t)"
  shows "sys_world t = sys_world s \<and> (\<exists>e. r = Inl e)"
proof -
  let ?same = "\<lambda>t :: hw_world sys. sys_world t = sys_world s"
  have temp: "wpF (temperature env) (\<lambda>temp u. ?same u \<and> temp = he_temperature env (length (hw_log (sys_world s)))) (\<lambda>e. ?same) u"
    if "?same u" for u
    unfolding temperature_def wp by (rule wpF_skipI) (use that in \<open>simp_all add: wp\<close>)
  have planned: "wpF (apply_planned env p prof knobs name (vals, skips)) (\<lambda>_ _. False) (\<lambda>e. ?same) u"
    if u: "?same u" "foldE (plan_value p prof) [] knobs = Inr vals" for vals skips u
    unfolding apply_planned_def prod.case wpF_bind [of "temperature _"]
    by (rule wpF_mono [OF temp [OF u(1)]])
      (use risk u(2) in \<open>auto simp: wp too_risky_def check_temperature_def split: option.splits sum.split\<close>)
  have "wpF (bindF (plan env (Some p) knobs name settings) (apply_planned env p prof knobs name)) (\<lambda>_ _. False) (\<lambda>e. ?same) s"
    unfolding wpF_bind by (rule wpF_mono [OF plan_wp [OF prof]]) (auto intro: planned)
  then have "wpF (apply_profile env (Some p) knobs name settings) (\<lambda>_ _. False) (\<lambda>e. ?same) s"
    unfolding apply_profile_def yield_or_reset_def option.case prof
    by (simp add: wpF_seq wpF_bind wpF_look wpF_ret start)
  from wpF_run [OF this run] show ?thesis by (cases r) auto
qed

subsection \<open>Paired limits\<close>

text \<open>A pair is never inverted on the way: when the two limits of a pair are ordered now and ordered
  in the plan, the order in which they are written keeps them ordered after the first write too: either
  the upper limit is written first and stays above the current lower one, or the lower limit is written
  first and stays below the current upper one.\<close>

theorem paired_writes_ordered:
  assumes sides: "find_side mates ''min'' = Inr lo" "find_side mates ''max'' = Inr hi"
    and now: "hw_regs (sys_world s) lo = Inr (PInt L)" "hw_regs (sys_world s) hi = Inr (PInt H)" "L \<le> H"
    and new: "dget lo values = PInt l" "dget hi values = PInt h" "l \<le> h"
    and run: "batch_order values (Paired mates) s = (Inr kvs, t)"
  shows "kvs = [(hi, PInt h), (lo, PInt l)] \<and> L \<le> h \<or> kvs = [(lo, PInt l), (hi, PInt h)] \<and> l \<le> H"
proof -
  have "wpF (batch_order values (Paired mates))
      (\<lambda>kvs t. kvs = (if H < l then [(hi, PInt h), (lo, PInt l)] else [(lo, PInt l), (hi, PInt h)])) (\<lambda>_ _. True) s"
    using sides now(2) new
    by (auto simp: batch_order_def wp py_gt_def Let_def intro!: read_knob_wp)
  from wpF_run [OF this run] now(3) new(3) show ?thesis by (auto split: if_splits)
qed

subsection \<open>Instances\<close>

definition tiny_policy :: policy where
  "tiny_policy = \<lparr>pol_overclock = False, pol_power = False, pol_exclusive = False, pol_max_temp = 90,
     pol_verified_ok = False, pol_verified = [],
     pol_profiles = map (\<lambda>p. (p, \<lparr>pr_knobs = [(''CPU_EPB'', ''15''), (''GPU_BOOST'', ''keep'')], pr_overrides = []\<rparr>)) PROFILES\<rparr>"

definition tiny_prof :: profile where
  "tiny_prof = \<lparr>pr_knobs = [(''CPU_EPB'', ''15''), (''GPU_BOOST'', ''keep'')], pr_overrides = []\<rparr>"

definition fresh_sys :: "(nat \<Rightarrow> fault) \<Rightarrow> hw_world sys" where
  "fresh_sys script = \<lparr>sys_step = 0, sys_script = script,
     sys_world = tiny_world\<lparr>js_files := (\<lambda>p. None), hw_journal := empty_journal\<rparr>\<rparr>"

lemma tiny_side_effects: "set (side_effects tiny_knobs key) = {key}"
  by (auto simp: side_effects_def tiny_knobs_def tiny_knob_def pair_of_def COUPLED_BY_def)

lemma tiny_local: "local_driver tiny_env tiny_knobs"
proof -
  have "snd (tiny_call n key c r) other = r other" if "other \<noteq> key" for n key c r other
    using that by (cases c) auto
  then show ?thesis by (auto simp: local_driver_def tiny_side_effects tiny_env_def)
qed

lemma tiny_closed: "closed_domains tiny_knobs"
  by (simp add: closed_domains_def tiny_side_effects)

lemma tiny_distinct: "distinct (map fst tiny_knobs)"
  by (simp add: tiny_knobs_def)

lemma tiny_prof_of: "map_of (pol_profiles tiny_policy) ''high'' = Some tiny_prof"
  by (simp add: tiny_policy_def tiny_prof_def PROFILES_def)

lemma tiny_plain: "plain_control tiny_knobs tiny_prof ''cpu/epb''"
  by (simp add: plain_control_def tiny_knobs_def tiny_knob_def tiny_prof_def configured_value_def CONDITIONAL_def)

lemma fresh_empty: "jr_entries (hw_journal (sys_world (fresh_sys script))) = []"
  by (simp add: fresh_sys_def empty_journal_def)

lemma tiny_killed_run:
  "case apply_profile tiny_env (Some tiny_policy) tiny_knobs ''high'' []
      (fresh_sys (\<lambda>n. if n = 11 then After ProcessKilled else Fine)) of (r, t) \<Rightarrow>
     r = Inl Killed \<and> hw_regs (sys_world t) ''cpu/epb'' = Inr (PInt 15)"
  by code_simp

theorem apply_crash_safe_witness:
  "case apply_profile tiny_env (Some tiny_policy) tiny_knobs ''high'' []
      (fresh_sys (\<lambda>n. if n = 11 then After ProcessKilled else Fine)) of (r, t) \<Rightarrow>
     hw_regs (sys_world t) ''cpu/epb'' = Inr (PInt 15)
     \<and> (\<exists>j. disk_doc tiny_env (sys_world t) = Some (journal_doc j) \<and> (''cpu/epb'', PInt 0) \<in> set (base (jr_entries j)))"
proof -
  let ?s = "fresh_sys (\<lambda>n. if n = 11 then After ProcessKilled else Fine)"
  obtain r t where run: "apply_profile tiny_env (Some tiny_policy) tiny_knobs ''high'' [] ?s = (r, t)" by fastforce
  have now: "hw_regs (sys_world t) ''cpu/epb'' = Inr (PInt 15)" using tiny_killed_run by (simp add: run)
  have old: "hw_regs (sys_world ?s) ''cpu/epb'' = Inr (PInt 0)" by (simp add: fresh_sys_def tiny_world_def)
  from apply_crash_safe [OF tiny_local tiny_closed tiny_distinct tiny_prof_of fresh_empty run tiny_plain] now old
  show ?thesis by (auto simp: run recoverable_control_def)
qed

lemma tiny_run:
  "case apply_profile tiny_env (Some tiny_policy) tiny_knobs ''high'' [] (fresh_sys (\<lambda>n. Fine)) of (r, t) \<Rightarrow>
     (case r of Inl e \<Rightarrow> False | Inr a \<Rightarrow> ap_changed a = 1)"
  by code_simp

lemma tiny_resolves:
  "case map_of tiny_knobs ''cpu/epb'' of None \<Rightarrow> False
   | Some k \<Rightarrow> resolve k (configured_value tiny_prof k) tiny_policy = Inr (Some (PInt 15))"
  by code_simp

theorem apply_reads_back_witness:
  "\<exists>a t. apply_profile tiny_env (Some tiny_policy) tiny_knobs ''high'' [] (fresh_sys (\<lambda>n. Fine)) = (Inr a, t)
     \<and> hw_regs (sys_world t) ''cpu/epb'' = Inr (PInt 15)"
proof -
  obtain a t where run: "apply_profile tiny_env (Some tiny_policy) tiny_knobs ''high'' [] (fresh_sys (\<lambda>n. Fine)) = (Inr a, t)"
    using tiny_run by (auto split: prod.splits sum.splits)
  obtain k where k: "map_of tiny_knobs ''cpu/epb'' = Some k"
      "resolve k (configured_value tiny_prof k) tiny_policy = Inr (Some (PInt 15))"
    using tiny_resolves by (auto split: option.splits)
  from apply_reads_back [OF tiny_local tiny_closed tiny_distinct tiny_prof_of fresh_empty run tiny_plain k] run
  show ?thesis by blast
qed

definition hot_env :: hw_env where
  "hot_env = tiny_env\<lparr>he_temperature := (\<lambda>n. Some \<lparr>t_milli = 90000, t_str = ''90.0'', t_short = ''90''\<rparr>)\<rparr>"

theorem thermal_interlock_witness:
  "\<exists>e t. apply_profile hot_env (Some tiny_policy) tiny_knobs ''high'' [] (fresh_sys (\<lambda>n. Fine)) = (Inl e, t)
     \<and> sys_world t = sys_world (fresh_sys (\<lambda>n. Fine))"
proof -
  obtain r t where run: "apply_profile hot_env (Some tiny_policy) tiny_knobs ''high'' [] (fresh_sys (\<lambda>n. Fine)) = (r, t)"
    by fastforce
  have "too_risky hot_env tiny_policy tiny_knobs tiny_prof n" for n
    by (simp add: too_risky_def hot_env_def tiny_policy_def)
  from thermal_interlock [OF tiny_prof_of fresh_empty this run] run show ?thesis by auto
qed

definition pair_mates_demo :: "(string \<times> knob) list" where
  "pair_mates_demo = [(''cpu/epb'', (tiny_knob ''cpu/epb'' ''CPU_MIN_FREQ_KHZ'')\<lparr>kn_pair := Some ''f'', kn_side := Some ''min''\<rparr>),
     (''gpu/boost'', (tiny_knob ''gpu/boost'' ''CPU_MAX_FREQ_KHZ'')\<lparr>kn_pair := Some ''f'', kn_side := Some ''max''\<rparr>)]"

lemma pair_run:
  "case batch_order [(''cpu/epb'', PInt 80), (''gpu/boost'', PInt 95)] (Paired pair_mates_demo) (fresh_sys (\<lambda>n. Fine)) of
     (r, t) \<Rightarrow> r = Inr [(''gpu/boost'', PInt 95), (''cpu/epb'', PInt 80)]"
  by code_simp

theorem paired_writes_ordered_witness:
  "\<exists>t kvs. batch_order [(''cpu/epb'', PInt 80), (''gpu/boost'', PInt 95)] (Paired pair_mates_demo) (fresh_sys (\<lambda>n. Fine)) = (Inr kvs, t)
     \<and> (kvs = [(''gpu/boost'', PInt 95), (''cpu/epb'', PInt 80)] \<and> (0::int) \<le> 95
      \<or> kvs = [(''cpu/epb'', PInt 80), (''gpu/boost'', PInt 95)] \<and> (80::int) \<le> 70)"
proof -
  obtain kvs t where run: "batch_order [(''cpu/epb'', PInt 80), (''gpu/boost'', PInt 95)] (Paired pair_mates_demo)
      (fresh_sys (\<lambda>n. Fine)) = (Inr kvs, t)"
    using pair_run by (auto split: prod.splits)
  have sides: "find_side pair_mates_demo ''min'' = Inr ''cpu/epb''" "find_side pair_mates_demo ''max'' = Inr ''gpu/boost''"
    by (simp_all add: find_side_def pair_mates_demo_def)
  have regs: "hw_regs (sys_world (fresh_sys (\<lambda>n. Fine))) ''cpu/epb'' = Inr (PInt 0)"
      "hw_regs (sys_world (fresh_sys (\<lambda>n. Fine))) ''gpu/boost'' = Inr (PInt 70)"
    by (simp_all add: fresh_sys_def tiny_world_def)
  from paired_writes_ordered [OF sides regs _ _ _ _ run, of 80 95] run show ?thesis by (simp add: dget_def)
qed

end
