(* ===== verification/HwBroker.thy ===== *)
theory HwBroker
  imports HwStore
begin

text \<open>
  \<open>hardware_tuning/broker.py\<close>, part 1: the configuration, the power supply, the arbitration of requests
  (\<open>Selection\<close>), and the broker's helpers: the hardware worker and the policy owner, two programs that it
  starts and whose JSON answers it reads.

  The broker holds an \<open>asyncio\<close> lock around every operation that changes its state, so operations do not
  interleave; what a step of one operation can meet is a failing or cancelled step (the script of
  \<open>PyEffect\<close>), a helper whose outcome stays unknown, and any answer of a helper. A cancelled task raises
  \<open>KeyboardInterrupt\<close> here: like \<open>CancelledError\<close> it is no \<open>Exception\<close>. \<open>bk_calls\<close> is a history variable:
  the helpers that were started, with what became of them.
\<close>

text \<open>\<open>d[key]\<close> and \<open>d.get(key, default)\<close> for a value that should be a dictionary.\<close>

definition py_item :: "pyval \<Rightarrow> string \<Rightarrow> pyval res" where
  "py_item v key = (case v of
      PDict d \<Rightarrow> (case map_of d key of None \<Rightarrow> Inl (KeyErr key) | Some x \<Rightarrow> Inr x)
    | _ \<Rightarrow> Inl TypeErr)"

definition py_get :: "pyval \<Rightarrow> string \<Rightarrow> pyval \<Rightarrow> pyval res" where
  "py_get v key default_value = (case v of PDict d \<Rightarrow> Inr (dget_or key default_value d) | _ \<Rightarrow> Inl AttributeErr)"

text \<open>\<open>value in {texts}\<close>: a list or a dictionary has no hash.\<close>

definition in_texts :: "pyval \<Rightarrow> string list \<Rightarrow> bool res" where
  "in_texts v texts = (case v of
      PList xs \<Rightarrow> Inl TypeErr
    | PDict d \<Rightarrow> Inl TypeErr
    | PStr s \<Rightarrow> Inr (s \<in> set texts)
    | _ \<Rightarrow> Inr False)"

text \<open>\<open>"; ".join(values)\<close>; joining a text joins its characters.\<close>

definition join_values :: "string \<Rightarrow> pyval \<Rightarrow> string res" where
  "join_values sep v = (case v of
      PList xs \<Rightarrow> bindE (mapE (\<lambda>x. case x of PStr s \<Rightarrow> Inr s | _ \<Rightarrow> Inl TypeErr) xs) (\<lambda>ss. Inr (join sep ss))
    | PDict d \<Rightarrow> Inr (join sep (map fst d))
    | PStr s \<Rightarrow> Inr (join sep (map (\<lambda>c. [c]) s))
    | _ \<Rightarrow> Inl TypeErr)"

subsection \<open>Configuration and power supply\<close>

record bconfig =
  bc_uid :: int
  bc_vendors :: "string list"
  bc_poll :: int
  bc_idle_ac :: string
  bc_idle_battery :: string
  bc_api :: bool

definition CONFIG_FIELDS :: "string list" where
  "CONFIG_FIELDS = [''version'', ''uid'', ''vendors'', ''poll_seconds'', ''idle_ac'', ''idle_battery'']"

definition int_field :: "int \<Rightarrow> int \<Rightarrow> string \<Rightarrow> pydict \<Rightarrow> string \<Rightarrow> int res" where
  "int_field low high k d msg =
     (case dget k d of
        PInt i \<Rightarrow> if low \<le> i \<and> i \<le> high then Inr i else Inl (TuningError msg)
      | _ \<Rightarrow> Inl (TuningError msg))"

definition vendor_names :: "pyval \<Rightarrow> string list res" where
  "vendor_names v =
     (let err = TuningError ''invalid installed vendors'' in
      case v of
        PList vs \<Rightarrow>
          bindE (mapE (\<lambda>x. case x of PStr s \<Rightarrow> if s \<in> set VENDORS then Inr s else Inl err | _ \<Rightarrow> Inl err) vs) (\<lambda>names.
          if names \<noteq> [] \<and> distinct names then Inr names else Inl err)
      | _ \<Rightarrow> Inl err)"

definition idle_field :: "pyval \<Rightarrow> string res" where
  "idle_field v =
     (let err = TuningError ''invalid idle profile'' in
      case v of PStr s \<Rightarrow> if s \<in> set (PROFILES @ [''none'']) then Inr s else Inl err | _ \<Rightarrow> Inl err)"

definition validate_config :: "pyval \<Rightarrow> bconfig res" where
  "validate_config data =
     (let err = TuningError ''invalid broker configuration'' in
      case data of
        PDict d \<Rightarrow>
          if \<not> set CONFIG_FIELDS \<subseteq> set (map fst d)
             \<or> \<not> set (map fst d) \<subseteq> set (''power_profiles_api'' # CONFIG_FIELDS) then Inl err
          else
            bindE (int_field 1 1 ''version'' d ''invalid broker version'') (\<lambda>_.
            bindE (int_field 1000 (2 ^ 31 - 1) ''uid'' d ''broker requires a non-system desktop account'') (\<lambda>uid.
            bindE (vendor_names (dget ''vendors'' d)) (\<lambda>vendors.
            bindE (int_field 5 60 ''poll_seconds'' d ''invalid poll interval'') (\<lambda>poll.
            bindE (idle_field (dget ''idle_ac'' d)) (\<lambda>ac.
            bindE (idle_field (dget ''idle_battery'' d)) (\<lambda>battery.
            bindE (power_profiles_api d) (\<lambda>api.
            Inr \<lparr>bc_uid = uid, bc_vendors = vendors, bc_poll = poll, bc_idle_ac = ac, bc_idle_battery = battery,
                 bc_api = api\<rparr>)))))))
      | _ \<Rightarrow> Inl err)"

text \<open>A kernel attribute is regular or not, and has bytes.\<close>

type_synonym attrs = "string \<Rightarrow> (bool \<times> string) option"

definition read_text :: "attrs \<Rightarrow> string \<Rightarrow> int \<Rightarrow> string res" where
  "read_text attrs path maximum =
     (if maximum < 1 \<or> MAX_JSON < maximum then Inl (TuningError ''invalid kernel attribute size limit'')
      else case attrs path of
        None \<Rightarrow> Inl (OSErr path)
      | Some (regular, data) \<Rightarrow>
          if \<not> regular then Inl (TuningError (''nonregular kernel attribute: '' @ path))
          else if maximum < int (length data) then Inl (TuningError (''oversized kernel attribute: '' @ path))
          else if list_all (\<lambda>c. ord c < 128) data then Inr (strip data) else Inl ValueErr)"

definition SUPPLY_KINDS :: "string list" where
  "SUPPLY_KINDS = [''Mains'', ''USB'', ''USB_C'', ''USB_PD'', ''USB_PD_DRP'', ''Wireless'']"

definition supply_step :: "attrs \<Rightarrow> bool list \<times> bool \<Rightarrow> string \<Rightarrow> (bool list \<times> bool) res" where
  "supply_step attrs st device =
     (case st of (found, battery) \<Rightarrow>
      case read_text attrs (device @ ''/type'') 16384 of
        Inl e \<Rightarrow> if is_os_error e \<or> is_tuning_error e then Inr (found, battery) else Inl e
      | Inr kind \<Rightarrow>
          let battery = (battery \<or> kind = ''Battery'') in
          if kind \<notin> set SUPPLY_KINDS then Inr (found, battery)
          else (case read_text attrs (device @ ''/online'') 16384 of
              Inl e \<Rightarrow> if is_os_error e \<or> is_tuning_error e then Inr (found, battery) else Inl e
            | Inr t \<Rightarrow> Inr (found @ [t = ''1''], battery)))"

definition on_ac :: "attrs \<Rightarrow> string list \<Rightarrow> bool res" where
  "on_ac attrs devices =
     bindE (foldE (supply_step attrs) ([], False) (sort devices)) (\<lambda>(found, battery).
     Inr (if found \<noteq> [] then True \<in> set found else \<not> battery))"

subsection \<open>Arbitration\<close>

text \<open>A \<open>Counter\<close>; a missing key counts nothing.\<close>

definition count_of :: "('k \<times> int) list \<Rightarrow> 'k \<Rightarrow> int" where
  "count_of c k = (case map_of c k of None \<Rightarrow> 0 | Some n \<Rightarrow> n)"

definition set_count :: "'k \<Rightarrow> int \<Rightarrow> ('k \<times> int) list \<Rightarrow> ('k \<times> int) list" where
  "set_count k n c = (if n = 0 then filter (\<lambda>kv. fst kv \<noteq> k) c else dset k n c)"

record selection =
  se_automatic :: bool
  se_manual :: "string \<Rightarrow> string option"
  se_leases :: "((string \<times> string) \<times> int) list"
  se_holds :: "(string \<times> int) list"
  se_generation :: int
  se_faults :: "(string \<times> string) list"
  se_paused :: bool

definition initial_selection :: selection where
  "initial_selection = \<lparr>se_automatic = False, se_manual = (\<lambda>_. None), se_leases = [], se_holds = [],
     se_generation = 0, se_faults = [], se_paused = False\<rparr>"

text \<open>\<open>max(candidates, key=RANK.__getitem__)\<close>: the first of the highest rank.\<close>

definition highest :: "string \<Rightarrow> string list \<Rightarrow> string" where
  "highest c cs = foldl (\<lambda>b x. if RANK b < RANK x then x else b) c cs"

definition lease_candidates :: "selection \<Rightarrow> string \<Rightarrow> string list" where
  "lease_candidates se vendor =
     map (\<lambda>kv. snd (fst kv)) (filter (\<lambda>kv. fst (fst kv) = vendor \<and> 0 < snd kv) (se_leases se))"

definition desired :: "selection \<Rightarrow> string \<Rightarrow> bool \<Rightarrow> string \<Rightarrow> string option" where
  "desired se vendor active idle =
     (if \<not> active \<or> se_paused se \<or> vendor \<in> set (map fst (se_faults se)) then None
      else if 0 < count_of (se_holds se) ''silent'' then Some ''silent''
      else if 0 < count_of (se_holds se) ''performance'' then Some ''performance''
      else if se_manual se vendor \<noteq> None then se_manual se vendor
      else if \<not> se_automatic se then None
      else if idle = ''performance'' then Some ''performance''
      else case lease_candidates se vendor of
          c # cs \<Rightarrow> Some (highest c cs)
        | [] \<Rightarrow> if idle = ''none'' then None else Some idle)"

definition change_lease :: "string \<Rightarrow> string \<Rightarrow> int \<Rightarrow> selection \<Rightarrow> selection res" where
  "change_lease vendor prof delta se =
     (let n = count_of (se_leases se) (vendor, prof) + delta in
      if n < 0 then Inl (TuningError ''unbalanced lease lifecycle'')
      else Inr (se\<lparr>se_leases := set_count (vendor, prof) n (se_leases se)\<rparr>))"

definition clear_power_holds :: "selection \<Rightarrow> selection" where
  "clear_power_holds se = se\<lparr>se_generation := se_generation se + 1, se_holds := []\<rparr>"

text \<open>\<open>automatic or any(manual.values()) or power_holds\<close>.\<close>

definition wants_tuning :: "string list \<Rightarrow> selection \<Rightarrow> bool" where
  "wants_tuning vendors se =
     (se_automatic se \<or> list_ex (\<lambda>v. se_manual se v \<noteq> None) vendors \<or> se_holds se \<noteq> [])"

subsection \<open>The broker and its helpers\<close>

text \<open>
  A helper that was started is lost (timeout, too much output, a cancelled wait: then it may still be
  running), or has finished with an exit code, the document its output decodes to, and its error output.
\<close>

datatype helper_end = Lost bool | Finished int "pyval option" string

record broker = jstore +
  bk_sel :: selection
  bk_applied :: "string \<Rightarrow> string option"
  bk_owned :: "string \<Rightarrow> bool"
  bk_details :: "(string \<times> pyval) list"
  bk_pending :: "string list"
  bk_policy :: pyval
  bk_policy_error :: string
  bk_release :: "string option"
  bk_unknown :: bool
  bk_was_active :: bool
  bk_calls :: "(string list \<times> helper_end) list"
  bk_queries :: nat

record bk_env =
  be_size :: "pyval \<Rightarrow> int"
  be_config :: bconfig
  be_active :: "nat \<Rightarrow> bool"
  be_devices :: "nat \<Rightarrow> string list"
  be_attrs :: "nat \<Rightarrow> attrs"
  be_autostart :: "nat \<Rightarrow> bool res"
  be_helper :: "nat \<Rightarrow> string list \<Rightarrow> helper_end"

type_synonym 'a bk_io = "(broker sys, 'a) eff"

definition vendors_of :: "bk_env \<Rightarrow> string list" where
  "vendors_of env = bc_vendors (be_config env)"

definition set_sel :: "(selection \<Rightarrow> selection) \<Rightarrow> broker \<Rightarrow> broker" where
  "set_sel f w = w\<lparr>bk_sel := f (bk_sel w)\<rparr>"

text \<open>What the broker asks the system may be answered differently each time.\<close>

definition ask :: "(nat \<Rightarrow> 'a) \<Rightarrow> 'a bk_io" where
  "ask f = bindF (look (\<lambda>w. f (bk_queries w))) (\<lambda>x. seqF (assign (\<lambda>w. w\<lparr>bk_queries := Suc (bk_queries w)\<rparr>)) (retF x))"

definition seat_active :: "bk_env \<Rightarrow> bool bk_io" where
  "seat_active env = ask (be_active env)"

definition WORKER :: string where "WORKER = ''/usr/local/libexec/hardware-tuning-worker''"
definition POLICY :: string where "POLICY = ''/usr/local/libexec/hardware-tuning-policy''"
definition CONTROLS :: string where "CONTROLS = ''/run/hardware-tuning/controls.json''"

definition helper_answer :: "int \<Rightarrow> pyval option \<Rightarrow> string \<Rightarrow> pyval res" where
  "helper_answer code doc errors =
     (case doc of
        None \<Rightarrow> Inl (TuningError ''helper did not return valid bounded JSON'')
      | Some (PDict d) \<Rightarrow>
          if code \<noteq> 0 \<or> dget ''ok'' d \<noteq> PBool True
          then Inl (TuningError (py_str (dget_or ''error''
                 (PStr (if errors = [] then ''helper failure'' else take 4096 errors)) d)))
          else py_item (PDict d) ''result''
      | Some v \<Rightarrow> Inl (TuningError ''helper failure''))"

definition record_call :: "string list \<Rightarrow> helper_end \<Rightarrow> broker \<Rightarrow> broker" where
  "record_call args r w = w\<lparr>bk_calls := bk_calls w @ [(args, r)]\<rparr>"

definition run_child :: "bk_env \<Rightarrow> string list \<Rightarrow> pyval bk_io" where
  "run_child env args =
     bindF (look bk_unknown) (\<lambda>unknown.
     seqF (assertF (\<not> unknown) (TuningError
        ''helper outcome unknown; reconcile the owning service before further hardware operations''))
     (bindF (look (\<lambda>w. be_helper env (length (bk_calls w)) args)) (\<lambda>r.
      seqF (op (record_call args r))
      (case r of
         Lost cancelled \<Rightarrow>
           seqF (assign (\<lambda>w. w\<lparr>bk_unknown := True\<rparr>))
           (raiseF (if cancelled then KeyboardInterrupt else TuningError
              ''helper outcome unknown; further hardware operations blocked until owning service reconciliation''))
       | Finished code doc errors \<Rightarrow> liftE (helper_answer code doc errors)))))"

definition call_worker :: "bk_env \<Rightarrow> string \<Rightarrow> string \<Rightarrow> string option \<Rightarrow> pyval bk_io" where
  "call_worker env vendor action prof =
     seqF (assertF (vendor \<in> set (vendors_of env) \<and> action \<in> {''apply'', ''reset'', ''report'', ''health''}
              \<and> (case prof of None \<Rightarrow> True | Some p \<Rightarrow> p \<in> set PROFILES))
            (TuningError ''invalid internal worker operation''))
     (run_child env ([WORKER, vendor, action] @ (case prof of None \<Rightarrow> [] | Some p \<Rightarrow> [p])))"

definition POLICY_ACTIONS :: "string list" where
  "POLICY_ACTIONS = [''status'', ''prepare-runtime'', ''prepare-boot'', ''activate'', ''stop'', ''disable'', ''recover'']"

definition call_policy :: "bk_env \<Rightarrow> string \<Rightarrow> pyval bk_io" where
  "call_policy env action =
     seqF (assertF (action \<in> set POLICY_ACTIONS) (TuningError ''invalid internal policy operation''))
     (bindF (run_child env [POLICY, action]) (\<lambda>r.
      seqF (assign (\<lambda>w. w\<lparr>bk_policy := r\<rparr>)) (retF r)))"

text \<open>\<open>self.policy_state.get("claimed")\<close> as a condition, and a conjunction that stops at the first failure.\<close>

definition claimed :: "bool bk_io" where
  "claimed = bindF (look bk_policy) (\<lambda>p. bindF (liftE (py_get p ''claimed'' PNone)) (\<lambda>v. retF (py_truthy v)))"

definition andF :: "bool bk_io \<Rightarrow> bool bk_io \<Rightarrow> bool bk_io" where
  "andF m n = bindF m (\<lambda>b. if b then n else retF False)"

subsection \<open>The recovery file\<close>

definition manual_doc :: "string list \<Rightarrow> (string \<Rightarrow> string option) \<Rightarrow> pyval" where
  "manual_doc vendors manual = PDict (map (\<lambda>v. (v, opt_val PStr (manual v))) vendors)"

definition texts_doc :: "(string \<times> string) list \<Rightarrow> pyval" where
  "texts_doc kvs = PDict (map (\<lambda>(k, v). (k, PStr v)) kvs)"

definition controls_doc :: "string list \<Rightarrow> broker \<Rightarrow> pyval" where
  "controls_doc vendors w = PDict
     [(''version'', PInt 2), (''automatic'', PBool (se_automatic (bk_sel w))),
      (''manual'', manual_doc vendors (se_manual (bk_sel w))), (''paused'', PBool (se_paused (bk_sel w))),
      (''faults'', texts_doc (se_faults (bk_sel w))), (''policy_release'', opt_val PStr (bk_release w)),
      (''policy_error'', PStr (bk_policy_error w))]"

definition save_controls :: "bk_env \<Rightarrow> unit bk_io" where
  "save_controls env = bindF (look (controls_doc (vendors_of env))) (\<lambda>v. atomic_json (be_size env) CONTROLS v 384)"

record controls =
  ct_automatic :: bool
  ct_manual :: "(string \<times> string option) list"
  ct_paused :: bool
  ct_faults :: "(string \<times> string) list"
  ct_release :: "string option"
  ct_error :: string

definition CONTROL_FIELDS :: "string list" where
  "CONTROL_FIELDS = [''version'', ''automatic'', ''manual'', ''paused'', ''faults'', ''policy_release'', ''policy_error'']"

definition parse_manual :: "string list \<Rightarrow> pyval \<Rightarrow> (string \<times> string option) list res" where
  "parse_manual vendors v =
     (let err = TuningError ''invalid manual recovery state'' in
      case v of
        PDict d \<Rightarrow>
          if \<not> keys_eq d vendors then Inl err
          else mapE (\<lambda>(k, x). case x of
              PNone \<Rightarrow> Inr (k, None)
            | PStr p \<Rightarrow> if p \<in> set PROFILES then Inr (k, Some p) else Inl err
            | _ \<Rightarrow> Inl err) d
      | _ \<Rightarrow> Inl err)"

definition parse_faults :: "string list \<Rightarrow> pyval \<Rightarrow> (string \<times> string) list res" where
  "parse_faults vendors v =
     (let err = TuningError ''invalid fault state'' in
      case v of
        PDict d \<Rightarrow>
          if \<not> set (map fst d) \<subseteq> set vendors then Inl err
          else mapE (\<lambda>(k, x). case x of
              PStr m \<Rightarrow> if length m \<le> 8192 then Inr (k, m) else Inl err
            | _ \<Rightarrow> Inl err) d
      | _ \<Rightarrow> Inl err)"

definition parse_release :: "pyval \<Rightarrow> pyval \<Rightarrow> (string option \<times> string) res" where
  "parse_release release error =
     (let err = TuningError ''invalid policy handover recovery state'' in
      bindE (case release of
          PNone \<Rightarrow> Inr None
        | PStr r \<Rightarrow> if r \<in> {''stop'', ''disable''} then Inr (Some r) else Inl err
        | _ \<Rightarrow> Inl err) (\<lambda>r.
      case error of PStr m \<Rightarrow> if length m \<le> 8192 then Inr (r, m) else Inl err | _ \<Rightarrow> Inl err))"

definition parse_controls :: "string list \<Rightarrow> pyval \<Rightarrow> controls res" where
  "parse_controls vendors data =
     (let err = TuningError ''invalid broker recovery state'' in
      case data of
        PDict d \<Rightarrow>
          if dget ''version'' d \<noteq> PInt 2 \<or> \<not> keys_eq d CONTROL_FIELDS then Inl err
          else
            bindE (bool_field ''automatic'' d ''invalid automatic/pause state'') (\<lambda>automatic.
            bindE (bool_field ''paused'' d ''invalid automatic/pause state'') (\<lambda>paused.
            bindE (parse_manual vendors (dget ''manual'' d)) (\<lambda>manual.
            bindE (parse_faults vendors (dget ''faults'' d)) (\<lambda>faults.
            bindE (parse_release (dget ''policy_release'' d) (dget ''policy_error'' d)) (\<lambda>(release, error).
            Inr \<lparr>ct_automatic = automatic, ct_manual = manual, ct_paused = paused, ct_faults = faults,
                 ct_release = release, ct_error = error\<rparr>)))))
      | _ \<Rightarrow> Inl err)"

definition adopt :: "bool \<Rightarrow> controls \<Rightarrow> broker \<Rightarrow> broker" where
  "adopt active c w = (set_sel (\<lambda>se. se\<lparr>se_automatic := ct_automatic c,
        se_manual := (\<lambda>v. if active then Option.bind (map_of (ct_manual c) v) id else None),
        se_paused := ct_paused c, se_faults := ct_faults c\<rparr>) w)
     \<lparr>bk_release := ct_release c, bk_policy_error := ct_error c\<rparr>"

text \<open>Only the broker writes below \<open>/run/hardware-tuning\<close>, as root; of the checks of \<open>trusted_json\<close> the mode
  and the decoding can fail.\<close>

definition load_controls :: "bk_env \<Rightarrow> bool bk_io" where
  "load_controls env =
     seqF skip_op
     (bindF (look (\<lambda>w. js_files w CONTROLS)) (\<lambda>file.
      case file of
        None \<Rightarrow> retF False
      | Some f \<Rightarrow>
          seqF (assertF (jt_mode f AND 18 = 0) (TuningError (''untrusted configuration/state: '' @ CONTROLS)))
          (case jt_doc f of
             None \<Rightarrow> raiseF (TuningError ''invalid or excessively nested JSON'')
           | Some v \<Rightarrow>
               bindF (liftE (parse_controls (vendors_of env) v)) (\<lambda>c.
               bindF (seat_active env) (\<lambda>active.
               seqF (assign (adopt active c)) (retF True))))))"

end
