(* ===== verification/HwBrokerOps.thy ===== *)
theory HwBrokerOps
  imports HwBroker
begin

text \<open>
  \<open>hardware_tuning/broker.py\<close>, part 2: restoring and applying through the worker, taking over the power
  policy and handing it back, and the operations of the control socket.
\<close>

subsection \<open>One vendor\<close>

definition restore_vendor :: "bk_env \<Rightarrow> string \<Rightarrow> unit bk_io" where
  "restore_vendor env v =
     bindF (call_worker env v ''reset'' None) (\<lambda>r.
     assign (\<lambda>w. w\<lparr>bk_details := dset v r (bk_details w), bk_applied := (bk_applied w)(v := None),
        bk_owned := (bk_owned w)(v := False), bk_pending := removeAll v (bk_pending w)\<rparr>))"

definition note_fault :: "string \<Rightarrow> string \<Rightarrow> broker \<Rightarrow> broker" where
  "note_fault v error = set_sel (\<lambda>se. se\<lparr>se_faults := dset v (take 8192 error) (se_faults se)\<rparr>)"

definition fault_vendor :: "bk_env \<Rightarrow> string \<Rightarrow> pyexn \<Rightarrow> unit bk_io" where
  "fault_vendor env v exc =
     bindF (catchF (seqF (restore_vendor env v) (retF (exn_str exc))) is_exception
        (\<lambda>recovery. seqF (assign (\<lambda>w. w\<lparr>bk_pending := List.insert v (bk_pending w)\<rparr>))
           (retF (exn_str exc @ ''; recovery still pending: '' @ exn_str recovery)))) (\<lambda>error.
     seqF (assign (note_fault v error)) (save_controls env))"

text \<open>\<open>try: restore(v) except Exception: fault(v)\<close>.\<close>

definition release_vendor :: "bk_env \<Rightarrow> string \<Rightarrow> unit bk_io" where
  "release_vendor env v = catchF (restore_vendor env v) is_exception (fault_vendor env v)"

definition check_health :: "bk_env \<Rightarrow> string \<Rightarrow> unit bk_io" where
  "check_health env v =
     bindF (call_worker env v ''health'' None) (\<lambda>r.
     bindF (liftE (py_item r ''conflicts'')) (\<lambda>c.
     if py_truthy c then bindF (liftE (join_values ''; '' c)) (\<lambda>m. raiseF (TuningError m)) else retF ()))"

definition apply_vendor :: "bk_env \<Rightarrow> string \<Rightarrow> string \<Rightarrow> unit bk_io" where
  "apply_vendor env v p =
     bindF (call_worker env v ''apply'' (Some p)) (\<lambda>r.
     seqF (assign (\<lambda>w. w\<lparr>bk_details := dset v r (bk_details w), bk_applied := (bk_applied w)(v := Some p)\<rparr>))
     (bindF (liftE (py_get r ''controls'' PNone)) (\<lambda>c.
      assign (\<lambda>w. w\<lparr>bk_owned := (bk_owned w)(v := py_truthy c)\<rparr>))))"

definition steer_vendor :: "bk_env \<Rightarrow> bool \<Rightarrow> string option \<Rightarrow> string \<Rightarrow> unit bk_io" where
  "steer_vendor env health want v =
     bindF (look (\<lambda>w. (bk_owned w v, bk_applied w v))) (\<lambda>(owned, applied).
     seqF (whenF (owned \<and> (health \<or> want \<noteq> None \<and> want \<noteq> applied)) (check_health env v))
     (whenF (want \<noteq> applied)
        (seqF (whenF (applied \<noteq> None \<or> owned) (restore_vendor env v))
              (case want of None \<Rightarrow> retF () | Some p \<Rightarrow> apply_vendor env v p))))"

definition wanted :: "string \<Rightarrow> bool \<Rightarrow> string \<Rightarrow> broker \<Rightarrow> string option" where
  "wanted v active idle w = (if bk_release w \<noteq> None then None else desired (bk_sel w) v active idle)"

definition reconcile_vendor :: "bk_env \<Rightarrow> bool \<Rightarrow> bool \<Rightarrow> string \<Rightarrow> string \<Rightarrow> unit bk_io" where
  "reconcile_vendor env health active idle v =
     bindF (look (\<lambda>w. v \<in> set (map fst (se_faults (bk_sel w))))) (\<lambda>faulted.
     if faulted then retF ()
     else bindF (look (wanted v active idle)) (\<lambda>want.
          catchF (steer_vendor env health want v) is_exception (fault_vendor env v)))"

subsection \<open>Stopping\<close>

definition nothing_held :: "string list \<Rightarrow> broker \<Rightarrow> bool" where
  "nothing_held vendors w = (bk_pending w = [] \<and> \<not> list_ex (bk_owned w) vendors)"

definition begin_stop :: "bool \<Rightarrow> bool \<Rightarrow> broker \<Rightarrow> broker" where
  "begin_stop disable clear_faults w = (set_sel (\<lambda>se. (clear_power_holds se)\<lparr>se_automatic := False,
        se_manual := (\<lambda>_. None), se_faults := if clear_faults then [] else se_faults se\<rparr>) w)
     \<lparr>bk_release := Some (if disable then ''disable'' else ''stop''), bk_policy_error := []\<rparr>"

definition hand_back :: "bk_env \<Rightarrow> unit bk_io" where
  "hand_back env =
     catchF
       (bindF (look bk_release) (\<lambda>r.
        seqF (call_policy env (case r of None \<Rightarrow> ''None'' | Some a \<Rightarrow> a)) (assign (\<lambda>w. w\<lparr>bk_release := None\<rparr>))))
       is_exception (\<lambda>e. assign (\<lambda>w. w\<lparr>bk_policy_error := take 8192 (exn_str e)\<rparr>))"

definition stop_tuning :: "bk_env \<Rightarrow> bool \<Rightarrow> bool \<Rightarrow> unit bk_io" where
  "stop_tuning env disable clear_faults =
     seqF (assign (begin_stop disable clear_faults))
     (seqF (save_controls env)
     (seqF (forF (release_vendor env) (vendors_of env))
     (bindF (look (nothing_held (vendors_of env))) (\<lambda>free.
      seqF (whenF free (hand_back env)) (save_controls env)))))"

text \<open>What the handlers of a failed start write down after stopping.\<close>

definition note_failure :: "string \<Rightarrow> broker \<Rightarrow> broker" where
  "note_failure message w = w\<lparr>bk_policy_error := take 8192 (message
     @ (if bk_policy_error w \<noteq> [] then ''; recovery: '' @ bk_policy_error w else []))\<rparr>"

subsection \<open>Reconciling\<close>

definition leave_seat :: "bk_env \<Rightarrow> bool \<Rightarrow> unit bk_io" where
  "leave_seat env active =
     bindF (look bk_was_active) (\<lambda>was.
     seqF (whenF (was \<and> \<not> active)
             (seqF (assign (set_sel (\<lambda>se. se\<lparr>se_manual := (\<lambda>_. None)\<rparr>))) (save_controls env)))
     (assign (\<lambda>w. w\<lparr>bk_was_active := active\<rparr>)))"

definition idle_profile :: "bk_env \<Rightarrow> string bk_io" where
  "idle_profile env =
     bindF (ask (\<lambda>n. on_ac (be_attrs env n) (be_devices env n))) (\<lambda>r.
     bindF (liftE r) (\<lambda>ac. retF (if ac then bc_idle_ac (be_config env) else bc_idle_battery (be_config env))))"

definition settle_policy :: "bk_env \<Rightarrow> unit bk_io" where
  "settle_policy env =
     bindF (andF (look (\<lambda>w. ''intel'' \<in> set (map fst (se_faults (bk_sel w)))))
           (andF claimed (look (\<lambda>w. wants_tuning (vendors_of env) (bk_sel w))))) (\<lambda>excluded.
     if excluded then stop_tuning env False False
     else
       bindF (andF (look (\<lambda>w. \<not> wants_tuning (vendors_of env) (bk_sel w)))
             (andF claimed (look (\<lambda>w. bk_release w = None \<and> nothing_held (vendors_of env) w)))) (\<lambda>unused.
       whenF unused
         (catchF (seqF (call_policy env ''stop'') (retF ())) is_exception
            (\<lambda>e. seqF (assign (\<lambda>w. w\<lparr>bk_release := Some ''stop'', bk_policy_error := take 8192 (exn_str e)\<rparr>))
                  (save_controls env)))))"

definition reconcile :: "bk_env \<Rightarrow> bool \<Rightarrow> unit bk_io" where
  "reconcile env health =
     bindF (seat_active env) (\<lambda>active.
     seqF (leave_seat env active)
     (bindF (idle_profile env) (\<lambda>idle.
      seqF (forF (reconcile_vendor env health active idle) (vendors_of env))
      (settle_policy env))))"

subsection \<open>Status\<close>

definition autostart_enabled :: "bk_env \<Rightarrow> bool bk_io" where
  "autostart_enabled env =
     bindF (look bk_policy) (\<lambda>p.
     if py_truthy p
     then bindF (liftE (bindE (py_item p ''autostart_unit'') (\<lambda>u. py_item u ''file''))) (\<lambda>f. retF (f = PStr ''enabled''))
     else bindF (ask (be_autostart env)) liftE)"

definition status_faults :: "broker \<Rightarrow> (string \<times> string) list" where
  "status_faults w =
     (if bk_policy_error w \<noteq> [] then dset ''policy-owner'' (bk_policy_error w) (se_faults (bk_sel w))
      else se_faults (bk_sel w))"

definition status_doc :: "bk_env \<Rightarrow> bool \<Rightarrow> bool \<Rightarrow> broker \<Rightarrow> pyval" where
  "status_doc env active autostart w =
     (let vs = vendors_of env; se = bk_sel w in PDict
      [(''vendors'', PList (map PStr vs)), (''automatic'', PBool (se_automatic se)),
       (''manual'', manual_doc vs (se_manual se)), (''applied'', manual_doc vs (bk_applied w)),
       (''owns_controls'', PDict (map (\<lambda>v. (v, PBool (bk_owned w v))) vs)),
       (''paused'', PBool (se_paused se)), (''active_local_seat'', PBool active),
       (''autostart'', PBool autostart), (''policy_owner'', bk_policy w),
       (''power_profiles_api'', PBool (bc_api (be_config env))),
       (''power_generation'', PInt (se_generation se)),
       (''policy_release_pending'', opt_val PStr (bk_release w)),
       (''leases'', PDict (map (\<lambda>((v, p), n). (v @ ''/'' @ p, PInt n)) (sort_key fst (se_leases se)))),
       (''faults'', texts_doc (status_faults w)),
       (''recovery_pending'', PList (map PStr (sort (bk_pending w)))),
       (''last_result'', PDict (bk_details w))])"

definition broker_status :: "bk_env \<Rightarrow> pyval bk_io" where
  "broker_status env =
     bindF (seat_active env) (\<lambda>active. bindF (autostart_enabled env) (\<lambda>autostart. look (status_doc env active autostart)))"

text \<open>\<open>self.status()["faults"]\<close> as a condition.\<close>

definition has_faults :: "bk_env \<Rightarrow> bool bk_io" where
  "has_faults env = seqF (broker_status env) (look (\<lambda>w. status_faults w \<noteq> []))"

subsection \<open>Starting\<close>

definition masked_daemon :: "pyval \<Rightarrow> bool res" where
  "masked_daemon ppd =
     bindE (py_get ppd ''file'' PNone) (\<lambda>f.
     if f \<noteq> PStr ''masked'' then Inr False
     else bindE (py_get ppd ''active'' PNone) (\<lambda>a. in_texts a [''inactive'', ''failed'']))"

definition already_started :: "bk_env \<Rightarrow> bool \<Rightarrow> pyval \<Rightarrow> bool bk_io" where
  "already_started env boot ppd =
     andF (look (\<lambda>w. boot \<and> se_automatic (bk_sel w)))
     (andF (bindF (has_faults env) (\<lambda>b. retF (\<not> b)))
     (andF (look (\<lambda>w. bk_pending w = []))
     (andF claimed
       (if bc_api (be_config env) \<or> ''intel'' \<notin> set (vendors_of env) then retF True
        else liftE (masked_daemon ppd)))))"

definition begin_start :: "broker \<Rightarrow> broker" where
  "begin_start w = (set_sel (\<lambda>se. (clear_power_holds se)\<lparr>se_automatic := False, se_faults := []\<rparr>) w)
     \<lparr>bk_policy_error := [], bk_release := Some ''stop''\<rparr>"

definition take_over :: "bk_env \<Rightarrow> string \<Rightarrow> unit bk_io" where
  "take_over env action =
     seqF (call_policy env action)
     (seqF (assign (\<lambda>w. (set_sel (\<lambda>se. se\<lparr>se_automatic := True\<rparr>) w)\<lparr>bk_release := None\<rparr>))
     (seqF (save_controls env)
     (seqF (reconcile env False)
     (bindF (look (\<lambda>w. se_automatic (bk_sel w))) (\<lambda>a. whenF a (call_policy env ''activate''))))))"

definition start_tuning :: "bk_env \<Rightarrow> bool \<Rightarrow> unit bk_io" where
  "start_tuning env boot =
     bindF (look (\<lambda>w. se_paused (bk_sel w))) (\<lambda>paused.
     seqF (assertF (\<not> paused) (TuningError ''tuning is paused for sleep; retry after resume''))
     (bindF (autostart_enabled env) (\<lambda>old_boot.
      bindF (bindF (look bk_policy) (\<lambda>p. liftE (py_get p ''ppd'' (PDict [])))) (\<lambda>ppd.
      bindF (already_started env (boot \<and> old_boot) ppd) (\<lambda>started.
      if started then seqF (call_policy env ''activate'') (retF ())
      else
        seqF (assign begin_start)
        (seqF (save_controls env)
        (seqF (forF (release_vendor env) (vendors_of env))
        (bindF (look (\<lambda>w. bk_pending w = [])) (\<lambda>clean.
         whenF clean
           (catchF (take_over env (if boot \<or> old_boot then ''prepare-boot'' else ''prepare-runtime'')) is_exception
              (\<lambda>e. seqF (stop_tuning env (boot \<and> \<not> old_boot) False)
                   (seqF (assign (note_failure (exn_str e))) (save_controls env)))))))))))))"

definition resume_automatic :: "bk_env \<Rightarrow> unit bk_io" where
  "resume_automatic env =
     catchF
       (bindF (autostart_enabled env) (\<lambda>boot.
        seqF (call_policy env (if boot then ''prepare-boot'' else ''prepare-runtime''))
        (seqF (reconcile env False)
        (bindF (look (\<lambda>w. se_automatic (bk_sel w))) (\<lambda>a. whenF a (call_policy env ''activate''))))))
       is_exception
       (\<lambda>e. seqF (stop_tuning env False False) (assign (note_failure (exn_str e))))"

definition resume_manual :: "bk_env \<Rightarrow> unit bk_io" where
  "resume_manual env =
     bindF (look (\<lambda>w. se_manual (bk_sel w) ''intel'')) (\<lambda>m.
     seqF (whenF (m \<noteq> None) (call_policy env ''prepare-runtime'')) (reconcile env False))"

definition initialize :: "bk_env \<Rightarrow> unit bk_io" where
  "initialize env =
     bindF (load_controls env) (\<lambda>recovered.
     seqF (call_policy env ''status'')
     (seqF (if recovered then retF ()
            else bindF (autostart_enabled env) (\<lambda>b. assign (set_sel (\<lambda>se. se\<lparr>se_automatic := b\<rparr>))))
     (seqF (forF (release_vendor env) (vendors_of env))
     (seqF
       (bindF (look (\<lambda>w. (bk_release w, bk_pending w, bk_sel w))) (\<lambda>(release, pending, se).
        case release of
          Some r \<Rightarrow> stop_tuning env (r = ''disable'') False
        | None \<Rightarrow>
            if pending \<noteq> [] then retF ()
            else if se_automatic se then resume_automatic env
            else if list_ex (\<lambda>v. se_manual se v \<noteq> None) (vendors_of env) then resume_manual env
            else bindF claimed (\<lambda>c. whenF c (stop_tuning env False False))))
       (save_controls env)))))"

subsection \<open>Taking over the policy for one request\<close>

text \<open>The part of \<open>prepare_power_profile\<close> and of a manual request that acquires the policy.\<close>

definition begin_acquire :: "broker \<Rightarrow> broker" where
  "begin_acquire w = w\<lparr>bk_release := Some ''stop''\<rparr>"

definition acquired :: "broker \<Rightarrow> broker" where
  "acquired w = w\<lparr>bk_release := None, bk_policy_error := []\<rparr>"

definition acquire_policy :: "bk_env \<Rightarrow> unit bk_io" where
  "acquire_policy env =
     seqF (forF (restore_vendor env) (vendors_of env))
     (seqF (call_policy env ''prepare-runtime'') (assign acquired))"

definition abandon_acquire :: "bk_env \<Rightarrow> pyexn \<Rightarrow> unit bk_io" where
  "abandon_acquire env e =
     seqF (stop_tuning env False False) (seqF (assign (note_failure (exn_str e))) (save_controls env))"

definition prepare_power_profile :: "bk_env \<Rightarrow> unit bk_io" where
  "prepare_power_profile env =
     seqF (assertF (bc_api (be_config env)) (TuningError ''custom Power Profiles provider is not installed''))
     (bindF (look (\<lambda>w. se_paused (bk_sel w) \<or> bk_pending w \<noteq> [] \<or> bk_release w \<noteq> None \<or> bk_unknown w)) (\<lambda>busy.
      seqF (assertF (\<not> busy) (TuningError ''hardware recovery or sleep coordination is pending''))
      (seqF (call_policy env ''status'')
      (bindF claimed (\<lambda>c.
       whenF (\<not> c)
         (seqF (assign begin_acquire)
         (seqF (save_controls env)
         (catchF (seqF (acquire_policy env) (save_controls env)) is_exception
            (\<lambda>e. seqF (abandon_acquire env e)
                 (raiseF (TuningError ''custom policy acquisition failed; inspect hardware tuning status'')))))))))))"

definition select_public :: "string list \<Rightarrow> string \<Rightarrow> broker \<Rightarrow> broker" where
  "select_public vendors p = set_sel (\<lambda>se. (clear_power_holds se)
     \<lparr>se_manual := (\<lambda>v. if v \<in> set vendors then Some p else None), se_faults := []\<rparr>)"

definition public_profile :: "bk_env \<Rightarrow> string \<Rightarrow> pyval bk_io" where
  "public_profile env p =
     seqF (prepare_power_profile env)
     (seqF (assign (select_public (vendors_of env) p))
     (seqF (save_controls env)
     (seqF (reconcile env False)
     (bindF (has_faults env) (\<lambda>faulty.
      bindF (look (\<lambda>w. faulty \<or> bk_pending w \<noteq> [] \<or> list_ex (\<lambda>v. bk_applied w v \<noteq> Some p) (vendors_of env))) (\<lambda>failed.
      seqF (assertF (\<not> failed) (TuningError ''custom profile could not be applied; inspect hardware tuning status''))
      (broker_status env)))))))"

end
