(* ===== verification/HwServe.thy ===== *)
theory HwServe
  imports HwBrokerOps Complex_Main
begin

text \<open>
  \<open>hardware_tuning/broker.py\<close>, part 3: the control socket. A request is checked, limited in rate and
  executed under the lock; a connection that holds a lease or a power hold releases it when it closes.
  \<open>served\<close> is the life of a broker: initialisation, then requests, closing connections and health polls in
  any order, each under any script of faults and any answers of the helpers.
\<close>

subsection \<open>Requests\<close>

definition ACTIONS :: "string list" where
  "ACTIONS = [''status'', ''report'', ''auto-start'', ''auto-stop'', ''manual'', ''profiles-reset'', ''reset'',
     ''boot-enable'', ''boot-disable'', ''pause'', ''resume'', ''lease'', ''power-profile'', ''power-hold'']"

definition request_text :: "string \<Rightarrow> pydict \<Rightarrow> string" where
  "request_text k d = (case dget k d of PStr s \<Rightarrow> s | _ \<Rightarrow> [])"

definition required_fields :: "string \<Rightarrow> string list" where
  "required_fields action =
     (if action \<in> {''power-profile'', ''power-hold''} then [''action'', ''profile'']
      else if action \<in> {''manual'', ''lease''} then [''action'', ''vendor'', ''profile'']
      else [''action''])"

definition optional_fields :: "string \<Rightarrow> string list" where
  "optional_fields action =
     (if action \<in> {''auto-start'', ''boot-enable'', ''manual''} then [''confirm_policy_owner''] else [])"

definition text_in :: "pyval \<Rightarrow> string list \<Rightarrow> bool" where
  "text_in v texts = (case v of PStr s \<Rightarrow> s \<in> set texts | _ \<Rightarrow> False)"

definition validate_fields :: "string list \<Rightarrow> string \<Rightarrow> pydict \<Rightarrow> pydict res" where
  "validate_fields vendors action d =
     (let keys = set (map fst d) in
      if \<not> set (required_fields action) \<subseteq> keys
         \<or> \<not> keys \<subseteq> set (required_fields action @ optional_fields action)
      then Inl (TuningError ''unexpected or missing request fields'')
      else if ''confirm_policy_owner'' \<in> keys \<and> dget ''confirm_policy_owner'' d \<notin> {PBool True, PBool False}
      then Inl (TuningError ''policy confirmation must be a boolean'')
      else if action \<in> {''manual'', ''lease''}
              \<and> (\<not> text_in (dget ''vendor'' d) vendors \<or> \<not> text_in (dget ''profile'' d) PROFILES)
      then Inl (TuningError ''vendor/profile is not installed or not supported'')
      else if action \<in> {''power-profile'', ''power-hold''}
      then bindE (in_texts (dget ''profile'' d)
               (if action = ''power-hold'' then [''silent'', ''performance'']
                else [''silent'', ''balanced'', ''performance''])) (\<lambda>known.
           if known then Inr d else Inl (TuningError ''unsupported public power profile''))
      else Inr d)"

definition validate_request :: "string list \<Rightarrow> pyval \<Rightarrow> pydict res" where
  "validate_request vendors request =
     (let err = TuningError ''invalid control request'' in
      case request of
        PDict d \<Rightarrow>
          bindE (in_texts (dget ''action'' d) ACTIONS) (\<lambda>known.
          if known then validate_fields vendors (request_text ''action'' d) d else Inl err)
      | _ \<Rightarrow> Inl err)"

text \<open>The token bucket; times and tokens are exact numbers here, floats in the program.\<close>

record limiter =
  lm_tokens :: rat
  lm_updated :: rat
  lm_report_after :: rat

definition rate_limit :: "int \<Rightarrow> string \<Rightarrow> rat \<Rightarrow> limiter \<Rightarrow> limiter \<times> unit res" where
  "rate_limit uid action now l =
     (if uid = 0 then (l, Inr ())
      else
        let tokens = min 16 (lm_tokens l + (now - lm_updated l) / 2); l = l\<lparr>lm_tokens := tokens, lm_updated := now\<rparr> in
        if tokens < 1 then (l, Inl (TuningError ''control rate limit; retry after a few seconds''))
        else
          let l = l\<lparr>lm_tokens := tokens - 1\<rparr> in
          if action \<noteq> ''report'' then (l, Inr ())
          else if now < lm_report_after l
          then (l, Inl (TuningError ''reports are limited to one per 30 seconds''))
          else (l\<lparr>lm_report_after := now + 30\<rparr>, Inr ()))"

text \<open>\<open>serve\<close> up to the lock: the line as received and what it decodes to.\<close>

definition admit ::
    "bconfig \<Rightarrow> int \<Rightarrow> int \<Rightarrow> string \<Rightarrow> pyval res \<Rightarrow> rat \<Rightarrow> limiter \<Rightarrow> limiter \<times> pydict res" where
  "admit cfg connections uid line decoded now l =
     (if uid \<noteq> 0 \<and> uid \<noteq> bc_uid cfg then (l, Inl (TuningError ''unauthorized peer UID''))
      else if (if uid = 0 then 68 else 64) < connections
      then (l, Inl (TuningError ''too many control connections''))
      else if \<not> ends_with [nl] line \<or> 4096 < length line
      then (l, Inl (TuningError ''one bounded JSON request is required''))
      else case bindE decoded (validate_request (bc_vendors cfg)) of
          Inl e \<Rightarrow> (l, Inl e)
        | Inr req \<Rightarrow>
            (case rate_limit uid (request_text ''action'' req) now l of
               (l', Inl e) \<Rightarrow> (l', Inl e)
             | (l', Inr u) \<Rightarrow> (l', Inr req)))"

subsection \<open>Actions\<close>

definition require_seat :: "bk_env \<Rightarrow> string \<Rightarrow> int \<Rightarrow> unit bk_io" where
  "require_seat env action uid =
     (if action \<notin> {''lease'', ''status'', ''reset'', ''auto-stop'', ''profiles-reset'', ''boot-disable''} \<and> uid \<noteq> 0
      then bindF (seat_active env) (\<lambda>active. assertF active (TuningError ''an active local seat0 session is required''))
      else retF ())"

definition refresh_policy :: "bk_env \<Rightarrow> string \<Rightarrow> unit bk_io" where
  "refresh_policy env action =
     (if action \<in> {''status'', ''report'', ''auto-start'', ''boot-enable'', ''manual''}
      then catchF (seqF (call_policy env ''status'') (retF ())) is_exception
             (\<lambda>e. if action \<in> {''status'', ''report''}
                  then assign (\<lambda>w. w\<lparr>bk_policy_error := take 8192 (exn_str e)\<rparr>) else raiseF e)
      else retF ())"

definition requires_owner :: "bk_env \<Rightarrow> string \<Rightarrow> pydict \<Rightarrow> bool" where
  "requires_owner env action req =
     (''intel'' \<in> set (vendors_of env)
      \<and> (action \<in> {''auto-start'', ''boot-enable''} \<or> action = ''manual'' \<and> request_text ''vendor'' req = ''intel''))"

definition confirm_owner :: "bk_env \<Rightarrow> string \<Rightarrow> pydict \<Rightarrow> int \<Rightarrow> unit bk_io" where
  "confirm_owner env action req uid =
     bindF (andF (retF (requires_owner env action req \<and> uid \<noteq> 0 \<and> dget ''confirm_policy_owner'' req \<noteq> PBool True))
           (if action = ''boot-enable'' then retF True else bindF claimed (\<lambda>c. retF (\<not> c)))) (\<lambda>blocked.
     assertF (\<not> blocked)
       (TuningError ''policy handover needs confirmation; use the launcher confirmation or --confirm-policy-owner''))"

definition report_vendor :: "bk_env \<Rightarrow> string \<Rightarrow> (string \<times> pyval) bk_io" where
  "report_vendor env v =
     catchF (bindF (call_worker env v ''report'' None) (\<lambda>r. retF (v, r))) is_exception
       (\<lambda>e. retF (v, PDict [(''error'', PStr (exn_str e))]))"

definition broker_report :: "bk_env \<Rightarrow> pyval bk_io" where
  "broker_report env =
     bindF (broker_status env) (\<lambda>st.
     bindF (mapF (report_vendor env) (vendors_of env)) (\<lambda>hw.
     retF (PDict [(''status'', st), (''hardware'', PDict hw)])))"

definition finish_action :: "bk_env \<Rightarrow> pyval bk_io" where
  "finish_action env = seqF (save_controls env) (seqF (reconcile env False) (broker_status env))"

definition select_manual :: "string \<Rightarrow> string \<Rightarrow> broker \<Rightarrow> broker" where
  "select_manual v p = set_sel (\<lambda>se. se\<lparr>se_manual := (se_manual se)(v := Some p),
     se_faults := filter (\<lambda>kv. fst kv \<noteq> v) (se_faults se)\<rparr>)"

definition choose_manual :: "bk_env \<Rightarrow> string \<Rightarrow> string \<Rightarrow> pyval bk_io" where
  "choose_manual env v p =
     seqF (assign (select_manual v p)) (seqF (release_vendor env v) (finish_action env))"

definition manual_request :: "bk_env \<Rightarrow> bool \<Rightarrow> string \<Rightarrow> string \<Rightarrow> pyval bk_io" where
  "manual_request env owner v p =
     seqF (assign (set_sel clear_power_holds))
     (bindF (look (\<lambda>w. bk_release w \<noteq> None)) (\<lambda>releasing.
      seqF (assertF (\<not> releasing) (TuningError ''a policy handback is pending; complete Stop or Reset first''))
      (bindF (andF (retF owner) (bindF claimed (\<lambda>c. retF (\<not> c)))) (\<lambda>acquire.
       if acquire
       then
         seqF (assign begin_acquire)
         (seqF (save_controls env)
         (bindF (catchF (seqF (acquire_policy env) (retF True)) is_exception
                   (\<lambda>e. seqF (abandon_acquire env e) (retF False))) (\<lambda>ok.
          if ok then choose_manual env v p else broker_status env)))
       else choose_manual env v p))))"

text \<open>The set of vendors with a pending recovery is run through in the order of the vendors.\<close>

definition set_paused :: "bk_env \<Rightarrow> bool \<Rightarrow> pyval bk_io" where
  "set_paused env b =
     seqF (assign (set_sel (\<lambda>se. se\<lparr>se_paused := b\<rparr>)))
     (seqF (whenF b (bindF (look (\<lambda>w. filter (\<lambda>v. v \<in> set (bk_pending w)) (vendors_of env)))
         (\<lambda>vs. forF (release_vendor env) vs)))
     (finish_action env))"

definition perform_action :: "bk_env \<Rightarrow> string \<Rightarrow> pydict \<Rightarrow> pyval bk_io" where
  "perform_action env action req =
     (if action = ''status'' then broker_status env
      else if action = ''report'' then broker_report env
      else if action = ''power-profile'' then public_profile env (request_text ''profile'' req)
      else if action \<in> {''auto-start'', ''boot-enable''}
      then seqF (start_tuning env (action = ''boot-enable'')) (broker_status env)
      else if action \<in> {''auto-stop'', ''boot-disable'', ''reset''}
      then seqF (stop_tuning env (action \<in> {''boot-disable'', ''reset''}) True) (broker_status env)
      else if action = ''manual''
      then manual_request env (requires_owner env action req) (request_text ''vendor'' req) (request_text ''profile'' req)
      else if action = ''profiles-reset''
      then seqF (assign (set_sel (\<lambda>se. (clear_power_holds se)\<lparr>se_manual := (\<lambda>_. None)\<rparr>))) (finish_action env)
      else if action \<in> {''pause'', ''resume''} then set_paused env (action = ''pause'')
      else raiseF (TuningError ''unsupported action''))"

definition broker_action :: "bk_env \<Rightarrow> pydict \<Rightarrow> int \<Rightarrow> pyval bk_io" where
  "broker_action env req uid =
     (let action = request_text ''action'' req in
      seqF (assertF (\<not> (action \<in> {''pause'', ''resume''} \<and> uid \<noteq> 0)) (TuningError ''sleep coordination is root-only''))
      (seqF (require_seat env action uid)
      (seqF (refresh_policy env action)
      (seqF (confirm_owner env action req uid)
      (perform_action env action req)))))"

subsection \<open>Leases\<close>

datatype lease = AppLease string string | HoldLease string int

definition take_hold :: "string \<Rightarrow> selection \<Rightarrow> selection" where
  "take_hold p se = se\<lparr>se_holds := dset p (count_of (se_holds se) p + 1) (se_holds se)\<rparr>"

definition drop_hold :: "string \<Rightarrow> int \<Rightarrow> selection \<Rightarrow> selection" where
  "drop_hold p g se =
     (if g = se_generation se then se\<lparr>se_holds := set_count p (count_of (se_holds se) p - 1) (se_holds se)\<rparr> else se)"

definition shift_lease :: "string \<Rightarrow> string \<Rightarrow> int \<Rightarrow> unit bk_io" where
  "shift_lease v p delta =
     bindF (look bk_sel) (\<lambda>se. bindF (liftE (change_lease v p delta se)) (\<lambda>se'. assign (set_sel (\<lambda>_. se'))))"

text \<open>The handler answers an exception with an error reply; a cancelled handler is left to the shutdown.\<close>

definition attempt :: "'a bk_io \<Rightarrow> 'a res bk_io" where
  "attempt m = catchF (bindF m (\<lambda>x. retF (Inr x))) is_exception (\<lambda>e. retF (Inl e))"

definition grant_hold :: "bk_env \<Rightarrow> int \<Rightarrow> unit bk_io" where
  "grant_hold env uid =
     bindF (if uid \<noteq> bc_uid (be_config env) then retF False else seat_active env) (\<lambda>allowed.
     seqF (assertF allowed (TuningError ''power holds require the active configured desktop account''))
     (prepare_power_profile env))"

definition open_hold :: "bk_env \<Rightarrow> int \<Rightarrow> string \<Rightarrow> (lease option \<times> pyval res) bk_io" where
  "open_hold env uid p =
     bindF (attempt (grant_hold env uid)) (\<lambda>granted.
     case granted of
       Inl e \<Rightarrow> retF (None, Inl e)
     | Inr u \<Rightarrow>
         seqF (assign (set_sel (take_hold p)))
         (bindF (look (\<lambda>w. HoldLease p (se_generation (bk_sel w)))) (\<lambda>lease.
          bindF (attempt (seqF (reconcile env False)
              (bindF (has_faults env) (\<lambda>faulty.
               seqF (assertF (\<not> faulty) (TuningError ''power hold could not be applied; inspect hardware tuning status''))
               (broker_status env))))) (\<lambda>r. retF (Some lease, r)))))"

definition open_lease :: "bk_env \<Rightarrow> int \<Rightarrow> string \<Rightarrow> string \<Rightarrow> (lease option \<times> pyval res) bk_io" where
  "open_lease env uid v p =
     (if uid \<noteq> bc_uid (be_config env)
      then retF (None, Inl (TuningError ''leases belong to the configured desktop user''))
      else bindF (attempt (seqF (shift_lease v p 1) (seqF (reconcile env False) (broker_status env))))
             (\<lambda>r. retF (Some (AppLease v p), r)))"

definition open_session :: "bk_env \<Rightarrow> int \<Rightarrow> pydict \<Rightarrow> (lease option \<times> pyval res) bk_io" where
  "open_session env uid req =
     (if request_text ''action'' req = ''power-hold'' then open_hold env uid (request_text ''profile'' req)
      else if request_text ''action'' req = ''lease''
      then open_lease env uid (request_text ''vendor'' req) (request_text ''profile'' req)
      else bindF (attempt (broker_action env req uid)) (\<lambda>r. retF (None, r)))"

definition release_lease :: "lease \<Rightarrow> unit bk_io" where
  "release_lease l =
     (case l of HoldLease p g \<Rightarrow> assign (set_sel (drop_hold p g)) | AppLease v p \<Rightarrow> shift_lease v p (-1))"

definition close_session :: "bk_env \<Rightarrow> bool \<Rightarrow> lease \<Rightarrow> unit bk_io" where
  "close_session env stopping l = seqF (release_lease l) (whenF (\<not> stopping) (reconcile env False))"

definition shutdown :: "bk_env \<Rightarrow> unit bk_io" where
  "shutdown env = forF (\<lambda>v. catchF (restore_vendor env v) is_exception (\<lambda>e. retF ())) (vendors_of env)"

subsection \<open>The life of a broker\<close>

text \<open>\<open>Broker.__init__\<close> over the files that an earlier broker left.\<close>

definition fresh_broker :: "bk_env \<Rightarrow> (string \<Rightarrow> jtmp option) \<Rightarrow> bool \<Rightarrow> broker" where
  "fresh_broker env files active =
     \<lparr>js_files = files, js_tmps = (\<lambda>_. None), js_next = 0, bk_sel = initial_selection, bk_applied = (\<lambda>_. None),
      bk_owned = (\<lambda>_. False), bk_details = [], bk_pending = [], bk_policy = PDict [], bk_policy_error = [],
      bk_release = None, bk_unknown = False, bk_was_active = active, bk_calls = [], bk_queries = 0\<rparr>"

inductive served :: "bk_env \<Rightarrow> lease list \<Rightarrow> broker sys \<Rightarrow> bool" for env where
  start: "initialize env \<lparr>sys_step = 0, sys_script = script, sys_world = fresh_broker env files active\<rparr> = (Inr (), t)
     \<Longrightarrow> served env [] t"
| poll: "served env ls s \<Longrightarrow> reconcile env True s = (Inr (), t) \<Longrightarrow> served env ls t"
| request: "served env ls s \<Longrightarrow> validate_request (vendors_of env) doc = Inr req
     \<Longrightarrow> open_session env uid req s = (Inr (l, reply), t) \<Longrightarrow> served env (case l of None \<Rightarrow> ls | Some x \<Rightarrow> x # ls) t"
| closing: "served env ls s \<Longrightarrow> l \<in> set ls \<Longrightarrow> close_session env stopping l s = (r, t)
     \<Longrightarrow> r \<noteq> Inl KeyboardInterrupt \<Longrightarrow> r \<noteq> Inl Killed \<Longrightarrow> served env (remove1 l ls) t"

inductive_cases servedE: "served env ls s"

text \<open>Every state that an operation can be cut off in: it returned, raised, was cancelled, or the process died.\<close>

inductive visited :: "bk_env \<Rightarrow> broker \<Rightarrow> bool" for env where
  starting: "initialize env \<lparr>sys_step = 0, sys_script = script, sys_world = fresh_broker env files active\<rparr> = (r, t)
     \<Longrightarrow> visited env (sys_world t)"
| polling: "served env ls s \<Longrightarrow> reconcile env True s = (r, t) \<Longrightarrow> visited env (sys_world t)"
| answering: "served env ls s \<Longrightarrow> validate_request (vendors_of env) doc = Inr req
     \<Longrightarrow> open_session env uid req s = (r, t) \<Longrightarrow> visited env (sys_world t)"
| ending: "served env ls s \<Longrightarrow> close_session env stopping l s = (r, t) \<Longrightarrow> visited env (sys_world t)"

end
