(* ===== verification/HwArbitration.thy ===== *)
theory HwArbitration
  imports HwServe
begin

text \<open>
  The arbitration of \<open>Selection.desired\<close> against a specification by priorities, and the rate limit of the
  control socket over any sequence of requests.
\<close>

subsection \<open>Arbitration\<close>

text \<open>Every request for a profile, with the priority of its source.\<close>

definition claims :: "selection \<Rightarrow> string \<Rightarrow> string \<Rightarrow> (nat \<times> string) list" where
  "claims se v idle =
     (if 0 < count_of (se_holds se) ''silent'' then [(6, ''silent'')] else [])
     @ (if 0 < count_of (se_holds se) ''performance'' then [(5, ''performance'')] else [])
     @ (case se_manual se v of None \<Rightarrow> [] | Some p \<Rightarrow> [(4, p)])
     @ (if se_automatic se
        then (if idle = ''performance'' then [(3, ''performance'')] else [])
          @ map (Pair 2) (lease_candidates se v) @ (if idle = ''none'' then [] else [(1, idle)])
        else [])"

text \<open>A claim that none beats: of the highest priority, and of the highest rank among those.\<close>

definition unbeaten :: "(nat \<times> string) list \<Rightarrow> string \<Rightarrow> bool" where
  "unbeaten cs p \<longleftrightarrow> (\<exists>k. (k, p) \<in> set cs \<and> list_all (\<lambda>(j, q). j < k \<or> j = k \<and> RANK q \<le> RANK p) cs)"

definition known_leases :: "selection \<Rightarrow> bool" where
  "known_leases se \<longleftrightarrow> list_all (\<lambda>((v, p), n). p \<in> set PROFILES) (se_leases se)"

lemma RANK_inj: "p \<in> set PROFILES \<Longrightarrow> q \<in> set PROFILES \<Longrightarrow> RANK p = RANK q \<Longrightarrow> p = q"
  by (auto simp: PROFILES_def RANK_def index_of_def)

lemma highest_simps [simp]:
  "highest c [] = c" "highest c (x # cs) = highest (if RANK c < RANK x then x else c) cs"
  by (simp_all add: highest_def)

lemma highest_best: "highest c cs \<in> set (c # cs) \<and> (\<forall>q \<in> set (c # cs). RANK q \<le> RANK (highest c cs))"
proof (induction cs arbitrary: c)
  case (Cons x cs)
  show ?case
  proof (cases "RANK c < RANK x")
    case True
    then show ?thesis using Cons.IH [of x] by fastforce
  next
    case False
    then show ?thesis using Cons.IH [of c] by fastforce
  qed
qed simp

lemma candidate_known: "known_leases se \<Longrightarrow> p \<in> set (lease_candidates se v) \<Longrightarrow> p \<in> set PROFILES"
  by (auto simp: known_leases_def lease_candidates_def list_all_iff)

lemma unbeaten_first: "list_all (\<lambda>(j, q). j < k) cs \<Longrightarrow> unbeaten ((k, x) # cs) p \<longleftrightarrow> p = x"
  by (auto simp: unbeaten_def list_all_iff)

lemma unbeaten_none [simp]: "\<not> unbeaten [] p"
  by (simp add: unbeaten_def)

lemma unbeaten_level:
  assumes "list_all (\<lambda>(j, q). j < k) ds" "\<And>q. q \<in> set (c # cs) \<Longrightarrow> q \<in> set PROFILES"
  shows "unbeaten (map (Pair k) (c # cs) @ ds) p \<longleftrightarrow> p = highest c cs"
proof -
  have "unbeaten (map (Pair k) (c # cs) @ ds) p \<longleftrightarrow> p \<in> set (c # cs) \<and> (\<forall>q \<in> set (c # cs). RANK q \<le> RANK p)"
    using assms(1) unfolding unbeaten_def list_all_append by (auto simp: list_all_iff)
  moreover have "p = highest c cs" if "p \<in> set (c # cs)" "\<forall>q \<in> set (c # cs). RANK q \<le> RANK p"
    by (rule RANK_inj) (use that assms(2) highest_best [of c cs] in \<open>blast intro: order_antisym\<close>)+
  ultimately show ?thesis using highest_best [of c cs] by blast
qed

lemma unbeaten_leases:
  assumes "known_leases se"
  shows "unbeaten (map (Pair 2) (lease_candidates se v) @ (if idle = ''none'' then [] else [(1, idle)])) p
    \<longleftrightarrow> (case lease_candidates se v of c # cs \<Rightarrow> p = highest c cs | [] \<Rightarrow> idle \<noteq> ''none'' \<and> p = idle)"
proof (cases "lease_candidates se v")
  case Nil
  then show ?thesis by (simp add: unbeaten_first)
next
  case (Cons c cs)
  have "unbeaten (map (Pair 2) (c # cs) @ (if idle = ''none'' then [] else [(1, idle)])) p \<longleftrightarrow> p = highest c cs"
    by (rule unbeaten_level) (simp, use candidate_known [OF assms] Cons in metis)
  then show ?thesis using Cons by simp
qed

text \<open>C36 (the arbitration picks the best claim): for an active seat, outside a pause and for a vendor without a
  fault, the desired profile is the claim with the highest priority (hold for silence, hold for performance,
  manual choice, performance while idle on this supply, leases, idle profile), and among leases the one of the
  highest rank; in every other case nothing is desired.\<close>

theorem desired_unbeaten:
  assumes "known_leases se"
  shows "desired se v active idle = Some p \<longleftrightarrow>
    active \<and> \<not> se_paused se \<and> v \<notin> set (map fst (se_faults se)) \<and> unbeaten (claims se v idle) p"
proof (cases "active \<and> \<not> se_paused se \<and> v \<notin> set (map fst (se_faults se))")
  case open_seat: True
  let ?idle = "map (Pair 2) (lease_candidates se v) @ (if idle = ''none'' then [] else [(1, idle)])"
  have low: "list_all (\<lambda>(j, q). j < k) ?idle" if "2 < k" for k :: nat using that by (simp add: list_all_iff)
  consider "0 < count_of (se_holds se) ''silent''"
    | "\<not> 0 < count_of (se_holds se) ''silent''" "0 < count_of (se_holds se) ''performance''"
    | m where "\<not> 0 < count_of (se_holds se) ''silent''" "\<not> 0 < count_of (se_holds se) ''performance''" "se_manual se v = Some m"
    | "\<not> 0 < count_of (se_holds se) ''silent''" "\<not> 0 < count_of (se_holds se) ''performance''" "se_manual se v = None"
    by blast
  then have "desired se v active idle = Some p \<longleftrightarrow> unbeaten (claims se v idle) p"
  proof cases
    case 1
    then show ?thesis using open_seat low [of 6]
      by (subst claims_def) (auto simp: desired_def unbeaten_first split: option.split)
  next
    case 2
    then show ?thesis using open_seat low [of 5]
      by (subst claims_def) (auto simp: desired_def unbeaten_first split: option.split)
  next
    case (3 m)
    then show ?thesis using open_seat low [of 4] by (subst claims_def) (auto simp: desired_def unbeaten_first)
  next
    case 4
    then show ?thesis using open_seat low [of 3] unbeaten_leases [OF assms, of v idle p]
      by (subst claims_def) (auto simp: desired_def unbeaten_first split: list.splits)
  qed
  then show ?thesis using open_seat by simp
qed (auto simp: desired_def)

definition leased_selection :: selection where
  "leased_selection = initial_selection\<lparr>se_automatic := True,
     se_leases := [((''intel'', ''balanced''), 1), ((''intel'', ''high''), 2)]\<rparr>"

lemma leased_known: "known_leases leased_selection"
  by code_simp

theorem desired_unbeaten_witness:
  "desired leased_selection ''intel'' True ''silent'' = Some ''high'' \<and> unbeaten (claims leased_selection ''intel'' ''silent'') ''high''"
proof -
  have "desired leased_selection ''intel'' True ''silent'' = Some ''high''" by code_simp
  then show ?thesis using desired_unbeaten [OF leased_known, of "''intel''" True "''silent''" "''high''"] by blast
qed

subsection \<open>The rate limit\<close>

definition fresh_limiter :: "rat \<Rightarrow> limiter" where
  "fresh_limiter now = \<lparr>lm_tokens = 16, lm_updated = now, lm_report_after = 0\<rparr>"

text \<open>The requests that pass, of a sequence of actions with their times.\<close>

fun accepted :: "int \<Rightarrow> limiter \<Rightarrow> (string \<times> rat) list \<Rightarrow> (string \<times> rat) list" where
  "accepted uid l [] = []"
| "accepted uid l ((a, t) # rs) =
     (case rate_limit uid a t l of
        (l', Inl e) \<Rightarrow> accepted uid l' rs
      | (l', Inr u) \<Rightarrow> (a, t) # accepted uid l' rs)"

text \<open>What one request does to the bucket.\<close>

lemma rate_limit_step:
  assumes "uid \<noteq> 0" "rate_limit uid a t l = (l', r)" "0 \<le> lm_tokens l" "lm_updated l \<le> t"
  shows "0 \<le> lm_tokens l'" "lm_updated l' = t"
    "lm_tokens l' + (case r of Inl e \<Rightarrow> 0 | Inr u \<Rightarrow> 1) \<le> lm_tokens l + (t - lm_updated l) / 2"
    "a = ''report'' \<Longrightarrow> r = Inr u \<Longrightarrow> lm_report_after l \<le> t \<and> lm_report_after l' = t + 30"
    "\<not> (a = ''report'' \<and> r = Inr ()) \<Longrightarrow> lm_report_after l' = lm_report_after l"
proof -
  have "0 \<le> (t - lm_updated l) / 2" using assms(4) by simp
  then have "0 \<le> min 16 (lm_tokens l + (t - lm_updated l) / 2)" using assms(3) by simp
  then show "0 \<le> lm_tokens l'" "lm_updated l' = t"
    "lm_tokens l' + (case r of Inl e \<Rightarrow> 0 | Inr u \<Rightarrow> 1) \<le> lm_tokens l + (t - lm_updated l) / 2"
    "a = ''report'' \<Longrightarrow> r = Inr u \<Longrightarrow> lm_report_after l \<le> t \<and> lm_report_after l' = t + 30"
    "\<not> (a = ''report'' \<and> r = Inr ()) \<Longrightarrow> lm_report_after l' = lm_report_after l"
    using assms(1, 2) by (auto simp: rate_limit_def Let_def split: if_splits)
qed

lemma accepted_count:
  assumes "uid \<noteq> 0" "0 \<le> lm_tokens l" "sorted (lm_updated l # map snd rs)"
  shows "rat_of_nat (length (accepted uid l rs)) \<le> lm_tokens l + (last (lm_updated l # map snd rs) - lm_updated l) / 2"
  using assms(2, 3)
proof (induction rs arbitrary: l)
  case (Cons x rs)
  obtain a t where x: "x = (a, t)" by (cases x)
  obtain l' r where step: "rate_limit uid a t l = (l', r)" by (cases "rate_limit uid a t l")
  have t: "lm_updated l \<le> t" using Cons.prems(2) x by simp
  note s = rate_limit_step [OF assms(1) step Cons.prems(1) t]
  have "rat_of_nat (length (accepted uid l' rs)) \<le> lm_tokens l' + (last (t # map snd rs) - t) / 2"
    using Cons.IH [OF s(1)] Cons.prems(2) s(2) x by simp
  then show ?case using s(3) step x by (cases r) (simp_all add: field_simps)
qed simp

lemma accepted_reports:
  assumes "uid \<noteq> 0" "0 \<le> lm_tokens l" "sorted (lm_updated l # map snd rs)"
  shows "sorted_wrt (\<lambda>x y. snd x + 30 \<le> snd y) (filter (\<lambda>x. fst x = ''report'') (accepted uid l rs))
    \<and> (\<forall>x \<in> set (accepted uid l rs). fst x = ''report'' \<longrightarrow> lm_report_after l \<le> snd x)"
  using assms(2, 3)
proof (induction rs arbitrary: l)
  case (Cons x rs)
  obtain a t where x: "x = (a, t)" by (cases x)
  obtain l' r where step: "rate_limit uid a t l = (l', r)" by (cases "rate_limit uid a t l")
  have t: "lm_updated l \<le> t" using Cons.prems(2) x by simp
  note s = rate_limit_step [OF assms(1) step Cons.prems(1) t]
  have "sorted (lm_updated l' # map snd rs)" using Cons.prems(2) s(2) x by simp
  note IH = Cons.IH [OF s(1) this]
  show ?case
  proof (cases "a = ''report'' \<and> r = Inr ()")
    case True
    then show ?thesis using IH s(4) [of "()"] step x by fastforce
  next
    case False
    then show ?thesis using IH s(5) step x by (cases r) auto
  qed
qed simp

text \<open>The control socket is limited in rate: of any sequence of requests from a user that is not root, in
  the order of their times, at most sixteen and one more for every two seconds since the start are served,
  and two reports are never served within thirty seconds.\<close>

theorem requests_limited:
  assumes "uid \<noteq> 0" "sorted (start # map snd rs)"
  shows "rat_of_nat (length (accepted uid (fresh_limiter start) rs)) \<le> 16 + (last (start # map snd rs) - start) / 2
    \<and> sorted_wrt (\<lambda>x y. snd x + 30 \<le> snd y)
        (filter (\<lambda>x. fst x = ''report'') (accepted uid (fresh_limiter start) rs))"
  using accepted_count [OF assms(1), of "fresh_limiter start" rs] accepted_reports [OF assms(1), of "fresh_limiter start" rs]
    assms(2) by (simp add: fresh_limiter_def)

definition two_reports :: "(string \<times> rat) list" where
  "two_reports = [(''report'', 100), (''report'', 110), (''report'', 140)]"

theorem requests_limited_witness:
  "map snd (accepted 1000 (fresh_limiter 100) two_reports) = [100, 140]
     \<and> rat_of_nat (length (accepted 1000 (fresh_limiter 100) two_reports)) \<le> 36"
proof -
  have "map snd (accepted 1000 (fresh_limiter 100) two_reports) = [100, 140]"
    by (simp add: two_reports_def fresh_limiter_def rate_limit_def Let_def)
  then show ?thesis using requests_limited [of 1000 100 two_reports] by (simp add: two_reports_def)
qed

end
