(* ===== verification/PyKeeps.thy ===== *)
theory PyKeeps
  imports PyEffect
begin

text \<open>
  Relations that a program with effects keeps. \<open>keeps R W m\<close>: whatever the script and the environment do, the
  states before and after \<open>m\<close> are related by \<open>R\<close>, when \<open>m\<close> returns or raises an \<open>Exception\<close>, and by the
  weaker \<open>W\<close> when it is cancelled or killed. For a reflexive and transitive \<open>R\<close> this composes along the
  program text; the locale \<open>state_rel\<close> has the rules.
\<close>

definition keeps :: "('w \<Rightarrow> 'w \<Rightarrow> bool) \<Rightarrow> ('w \<Rightarrow> 'w \<Rightarrow> bool) \<Rightarrow> ('w sys, 'a) eff \<Rightarrow> bool" where
  "keeps R W m \<longleftrightarrow> (\<forall>s. wpF m (\<lambda>_ t. R (sys_world s) (sys_world t))
     (\<lambda>e t. if is_exception e then R (sys_world s) (sys_world t) else W (sys_world s) (sys_world t)) s)"

lemma keepsD:
  assumes "keeps R W m"
  shows "wpF m (\<lambda>_ t. R (sys_world s) (sys_world t))
    (\<lambda>e t. if is_exception e then R (sys_world s) (sys_world t) else W (sys_world s) (sys_world t)) s"
  using assms by (simp add: keeps_def)

lemma keepsI:
  assumes "\<And>s. wpF m (\<lambda>_ t. R (sys_world s) (sys_world t))
    (\<lambda>e t. if is_exception e then R (sys_world s) (sys_world t) else W (sys_world s) (sys_world t)) s"
  shows "keeps R W m"
  using assms by (simp add: keeps_def)

lemma keeps_run:
  assumes "keeps R W m" "m s = (r, t)" "r \<noteq> Inl KeyboardInterrupt" "r \<noteq> Inl Killed"
  shows "R (sys_world s) (sys_world t)"
  using wpF_run [OF keepsD [OF assms(1)] assms(2)] assms(3, 4) by (auto simp: is_exception_def split: sum.splits if_splits)

lemma keeps_cut:
  assumes "keeps R W m" "m s = (r, t)" "\<And>w. R (sys_world s) w \<Longrightarrow> W (sys_world s) w"
  shows "W (sys_world s) (sys_world t)"
  using wpF_run [OF keepsD [OF assms(1)] assms(2)] assms(3) by (auto split: sum.splits if_splits)

lemma is_exception_simps [simp]:
  "is_exception KeyboardInterrupt = False" "is_exception Killed = False" "is_exception (TuningError m) = True"
  "is_exception (OSErr m) = True" "is_exception TypeErr = True" "is_exception AttributeErr = True"
  "is_exception (KeyErr k) = True"
  by (simp_all add: is_exception_def)

lemma is_exception_not_killed: "is_exception e \<Longrightarrow> e \<noteq> Killed"
  by (simp add: is_exception_def)

locale state_rel =
  fixes R W :: "'w \<Rightarrow> 'w \<Rightarrow> bool"
  assumes rel_refl: "R w w"
    and rel_trans: "R u v \<Longrightarrow> R v w \<Longrightarrow> R u w"
    and rel_weaken: "R v w \<Longrightarrow> W v w"
    and rel_weak_trans: "R u v \<Longrightarrow> W v w \<Longrightarrow> W u w"
begin

lemma keeps_pure: "(\<And>s. sys_world (snd (m s)) = sys_world s) \<Longrightarrow> keeps R W m"
  by (auto simp: keeps_def wpF_def rel_refl split: prod.split sum.split) (metis rel_refl rel_weaken snd_conv)+

lemma keeps_ret: "keeps R W (retF x)"
  by (rule keeps_pure) (simp add: retF_def)

lemma keeps_raise: "keeps R W (raiseF e)"
  by (rule keeps_pure) (simp add: raiseF_def)

lemma keeps_lift: "keeps R W (liftE r)"
  by (rule keeps_pure) (simp add: liftE_def)

lemma keeps_assert: "keeps R W (assertF b e)"
  by (rule keeps_pure) (simp add: assertF_def)

lemma keeps_look: "keeps R W (look f)"
  by (rule keeps_pure) (simp add: look_def getF_def)

lemma keeps_after:
  fixes s t :: "'w sys"
  assumes "keeps R W m" "R (sys_world s) (sys_world t)"
  shows "wpF m (\<lambda>_ u. R (sys_world s) (sys_world u))
    (\<lambda>e u. if is_exception e then R (sys_world s) (sys_world u) else W (sys_world s) (sys_world u)) t"
  by (rule wpF_mono [OF keepsD [OF assms(1)]]) (use assms(2) in \<open>auto intro: rel_trans rel_weak_trans split: if_splits\<close>)

lemma keeps_bind:
  assumes "keeps R W m" and "\<And>x. keeps R W (f x)"
  shows "keeps R W (bindF m f)"
  by (rule keepsI, unfold wpF_bind, rule wpF_mono [OF keepsD [OF assms(1)]])
    (rule keeps_after [OF assms(2)], assumption+)

lemma keeps_seq: "keeps R W m \<Longrightarrow> keeps R W n \<Longrightarrow> keeps R W (seqF m n)"
  unfolding seqF_def by (rule keeps_bind)

lemma keeps_catch:
  assumes "keeps R W m" and "\<And>e. keeps R W (h e)"
  shows "keeps R W (catchF m is_exception h)"
proof (rule keepsI, unfold wpF_catch, rule wpF_mono [OF keepsD [OF assms(1)]])
  fix s t :: "'w sys" and e
  assume R: "if is_exception e then R (sys_world s) (sys_world t) else W (sys_world s) (sys_world t)"
  show "if e \<noteq> Killed \<and> is_exception e
      then wpF (h e) (\<lambda>_ u. R (sys_world s) (sys_world u))
        (\<lambda>e u. if is_exception e then R (sys_world s) (sys_world u) else W (sys_world s) (sys_world u)) t
      else if is_exception e then R (sys_world s) (sys_world t) else W (sys_world s) (sys_world t)"
    using R keeps_after [OF assms(2), of s t] by (cases "is_exception e") (simp_all add: is_exception_not_killed)
qed auto

lemma keeps_when: "(b \<Longrightarrow> keeps R W m) \<Longrightarrow> keeps R W (whenF b m)"
  by (simp add: whenF_def keeps_seq keeps_ret)

lemma keeps_if: "(b \<Longrightarrow> keeps R W m) \<Longrightarrow> (\<not> b \<Longrightarrow> keeps R W n) \<Longrightarrow> keeps R W (if b then m else n)"
  by simp

lemma keeps_option:
  "(x = None \<Longrightarrow> keeps R W m) \<Longrightarrow> (\<And>y. x = Some y \<Longrightarrow> keeps R W (f y)) \<Longrightarrow> keeps R W (case x of None \<Rightarrow> m | Some y \<Rightarrow> f y)"
  by (cases x) simp_all

lemma keeps_sum:
  "(\<And>e. x = Inl e \<Longrightarrow> keeps R W (f e)) \<Longrightarrow> (\<And>y. x = Inr y \<Longrightarrow> keeps R W (g y))
    \<Longrightarrow> keeps R W (case x of Inl e \<Rightarrow> f e | Inr y \<Rightarrow> g y)"
  by (cases x) simp_all

lemma keeps_prod: "(\<And>a b. x = (a, b) \<Longrightarrow> keeps R W (f a b)) \<Longrightarrow> keeps R W (case x of (a, b) \<Rightarrow> f a b)"
  by (cases x) simp

lemma keeps_for: "(\<And>x. x \<in> set xs \<Longrightarrow> keeps R W (f x)) \<Longrightarrow> keeps R W (forF f xs)"
  by (induction xs) (simp_all add: keeps_ret keeps_seq)

lemma keeps_map: "(\<And>x. x \<in> set xs \<Longrightarrow> keeps R W (f x)) \<Longrightarrow> keeps R W (mapF f xs)"
  by (induction xs) (simp_all add: keeps_ret keeps_bind)

lemma keeps_assign: "(\<And>w. R w (f w)) \<Longrightarrow> keeps R W (assign f)"
  by (simp add: keeps_def wp)

lemma keeps_op: "(\<And>w. R w (f w)) \<Longrightarrow> keeps R W (op f)"
  by (auto simp: keeps_def rel_refl rel_weaken intro!: wpF_opI)

lemmas keeps_rules = keeps_bind keeps_seq keeps_catch keeps_when keeps_if keeps_option keeps_sum keeps_prod
  keeps_for keeps_map keeps_ret keeps_raise keeps_lift keeps_assert keeps_look

end

end
