(* ===== verification/HwBrokerFacts.thy ===== *)
theory HwBrokerFacts
  imports HwServe PyKeeps
begin

text \<open>
  Relations that every operation of the broker keeps (\<open>keeps\<close> of \<open>PyKeeps\<close>); the locale \<open>broker_rel\<close> has the
  rules, and an operation is done by applying them.
\<close>

text \<open>A relation on broker states that files, details and the query counter do not matter for.\<close>

locale broker_rel = state_rel R W for R W :: "broker \<Rightarrow> broker \<Rightarrow> bool" +
  assumes rel_store: "store_rest v = store_rest w \<Longrightarrow> R v w"
    and rel_queries: "R w (w\<lparr>bk_queries := n\<rparr>)"
begin

lemma keeps_save: "keeps R W (save_controls env)"
  unfolding save_controls_def
proof (rule keepsI, unfold wpF_bind wpF_look, rule wpF_mono [OF atomic_json_atomic])
qed (auto intro: rel_store rel_weaken [OF rel_store])

lemma keeps_ask: "keeps R W (ask f)"
  unfolding ask_def by (intro keeps_rules keeps_assign rel_queries)

lemma keeps_seat: "keeps R W (seat_active env)"
  unfolding seat_active_def by (rule keeps_ask)

lemma keeps_claimed: "keeps R W claimed"
  unfolding claimed_def by (intro keeps_rules)

lemma keeps_and: "keeps R W m \<Longrightarrow> keeps R W n \<Longrightarrow> keeps R W (andF m n)"
  unfolding andF_def by (intro keeps_rules)

lemma keeps_autostart: "keeps R W (autostart_enabled env)"
  unfolding autostart_enabled_def by (intro keeps_rules keeps_ask)

lemma keeps_idle: "keeps R W (idle_profile env)"
  unfolding idle_profile_def by (intro keeps_rules keeps_ask)

lemma keeps_status: "keeps R W (broker_status env)"
  unfolding broker_status_def by (intro keeps_rules keeps_seat keeps_autostart)

lemma keeps_has_faults: "keeps R W (has_faults env)"
  unfolding has_faults_def by (intro keeps_rules keeps_status)

lemma keeps_started: "keeps R W (already_started env boot ppd)"
  unfolding already_started_def by (intro keeps_rules keeps_and keeps_has_faults keeps_claimed)

lemma keeps_attempt: "keeps R W m \<Longrightarrow> keeps R W (attempt m)"
  unfolding attempt_def by (intro keeps_rules)

lemma keeps_seat_check: "keeps R W (require_seat env action uid)"
  unfolding require_seat_def by (intro keeps_rules keeps_seat)

lemma keeps_confirm: "keeps R W (confirm_owner env action req uid)"
  unfolding confirm_owner_def by (intro keeps_rules keeps_and keeps_claimed)

lemmas keeps_queries = keeps_save keeps_ask keeps_seat keeps_claimed keeps_and keeps_autostart keeps_idle
  keeps_status keeps_has_faults keeps_started keeps_attempt keeps_seat_check keeps_confirm

end

subsection \<open>Every operation, from its updates\<close>

text \<open>A validated request names an installed vendor and a known profile.\<close>

definition request_ok :: "string list \<Rightarrow> pydict \<Rightarrow> bool" where
  "request_ok vendors req \<longleftrightarrow>
     (request_text ''action'' req \<in> {''manual'', ''lease''} \<longrightarrow> request_text ''vendor'' req \<in> set vendors)
     \<and> (request_text ''action'' req \<in> {''manual'', ''lease'', ''power-profile'', ''power-hold''}
        \<longrightarrow> request_text ''profile'' req \<in> set PROFILES)
     \<and> (request_text ''action'' req = ''power-hold'' \<longrightarrow> request_text ''profile'' req \<in> {''silent'', ''performance''})"

lemma text_in_request: "text_in (dget k d) texts \<Longrightarrow> request_text k d \<in> set texts"
  by (auto simp: text_in_def request_text_def split: pyval.splits)

lemma in_texts_request: "in_texts (dget k d) texts = Inr True \<Longrightarrow> request_text k d \<in> set texts"
  by (auto simp: in_texts_def request_text_def split: pyval.splits)

lemma validate_fields_same: "validate_fields vendors a d = Inr r \<Longrightarrow> r = d"
  by (auto simp: validate_fields_def Let_def split: if_splits)

lemma validate_request_ok:
  assumes "validate_request vendors doc = Inr req"
  shows "request_ok vendors req"
proof -
  let ?a = "request_text ''action'' req" and ?p = "request_text ''profile'' req"
  have f: "validate_fields vendors ?a req = Inr req"
    using assms validate_fields_same [of vendors _ _ req]
    by (auto simp: validate_request_def Let_def split: pyval.splits if_splits)
  have 1: "request_text ''vendor'' req \<in> set vendors \<and> ?p \<in> set PROFILES" if "?a \<in> {''manual'', ''lease''}"
    using f that by (auto simp: validate_fields_def Let_def text_in_request split: if_splits)
  have 2: "?p \<in> {''silent'', ''performance''}" if "?a = ''power-hold''"
    using f that in_texts_request [of "''profile''" req "[''silent'', ''performance'']"]
    by (auto simp: validate_fields_def Let_def split: if_splits)
  have 3: "?p \<in> {''silent'', ''balanced'', ''performance''}" if "?a = ''power-profile''"
    using f that in_texts_request [of "''profile''" req "[''silent'', ''balanced'', ''performance'']"]
    by (auto simp: validate_fields_def Let_def split: if_splits)
  show ?thesis unfolding request_ok_def using 1 2 3 by (auto simp: PROFILES_def)
qed

locale operations = broker_rel R W for R W :: "broker \<Rightarrow> broker \<Rightarrow> bool" +
  fixes env :: bk_env
  assumes rel_call: "R w (record_call args r w)"
    and rel_unknown: "R w (w\<lparr>bk_unknown := True\<rparr>)"
    and rel_policy: "R w (w\<lparr>bk_policy := answer\<rparr>)"
    and rel_restored: "R w (w\<lparr>bk_details := d, bk_applied := (bk_applied w)(v := None),
        bk_owned := (bk_owned w)(v := False), bk_pending := removeAll v (bk_pending w)\<rparr>)"
    and rel_pending: "v \<in> set (vendors_of env) \<Longrightarrow> R w (w\<lparr>bk_pending := List.insert v (bk_pending w)\<rparr>)"
    and rel_fault: "v \<in> set (vendors_of env) \<Longrightarrow> R w (note_fault v m w)"
    and rel_applied: "R w (w\<lparr>bk_details := d, bk_applied := f\<rparr>)"
    and rel_owned: "R w (w\<lparr>bk_owned := g\<rparr>)"
    and rel_active: "R w (w\<lparr>bk_was_active := b\<rparr>)"
    and rel_error: "length m \<le> 8192 \<Longrightarrow> R w (w\<lparr>bk_policy_error := m\<rparr>)"
    and rel_release: "x \<in> {None, Some ''stop'', Some ''disable''} \<Longrightarrow> R w (w\<lparr>bk_release := x\<rparr>)"
    and rel_automatic: "R w (set_sel (\<lambda>se. se\<lparr>se_automatic := b\<rparr>) w)"
    and rel_paused: "R w (set_sel (\<lambda>se. se\<lparr>se_paused := b\<rparr>) w)"
    and rel_no_manual: "R w (set_sel (\<lambda>se. se\<lparr>se_manual := (\<lambda>_. None)\<rparr>) w)"
    and rel_no_faults: "R w (set_sel (\<lambda>se. se\<lparr>se_faults := []\<rparr>) w)"
    and rel_clear: "R w (set_sel clear_power_holds w)"
    and rel_adopt: "parse_controls (vendors_of env) doc = Inr c \<Longrightarrow> R w (adopt active c w)"
    and rel_manual: "v \<in> set (vendors_of env) \<Longrightarrow> p \<in> set PROFILES \<Longrightarrow> R w (select_manual v p w)"
    and rel_public: "p \<in> set PROFILES \<Longrightarrow> R w (select_public (vendors_of env) p w)"
begin

lemma rel_begin_stop: "R w (begin_stop disable clear w)"
proof -
  let ?a = "set_sel (\<lambda>se. se\<lparr>se_manual := (\<lambda>_. None)\<rparr>) (set_sel (\<lambda>se. se\<lparr>se_automatic := False\<rparr>) (set_sel clear_power_holds w))"
  let ?b = "if clear then set_sel (\<lambda>se. se\<lparr>se_faults := []\<rparr>) ?a else ?a"
  have a: "R w ?a" by (rule rel_trans [OF rel_trans [OF rel_clear rel_automatic] rel_no_manual])
  have b: "R w ?b" using rel_trans [OF a rel_no_faults] a by simp
  have "begin_stop disable clear w
      = (?b\<lparr>bk_release := Some (if disable then ''disable'' else ''stop'')\<rparr>)\<lparr>bk_policy_error := []\<rparr>"
    by (cases "bk_sel w") (simp add: begin_stop_def set_sel_def clear_power_holds_def)
  then show ?thesis by (simp only:) (rule rel_trans [OF rel_trans [OF b rel_release] rel_error]; simp)
qed

lemma rel_begin_start: "R w (begin_start w)"
proof -
  let ?a = "set_sel (\<lambda>se. se\<lparr>se_faults := []\<rparr>) (set_sel (\<lambda>se. se\<lparr>se_automatic := False\<rparr>) (set_sel clear_power_holds w))"
  have a: "R w ?a" by (rule rel_trans [OF rel_trans [OF rel_clear rel_automatic] rel_no_faults])
  have "begin_start w = (?a\<lparr>bk_policy_error := []\<rparr>)\<lparr>bk_release := Some ''stop''\<rparr>"
    by (simp add: begin_start_def set_sel_def)
  then show ?thesis by (simp only:) (rule rel_trans [OF rel_trans [OF a rel_error] rel_release]; simp)
qed

lemma rel_started: "R w ((set_sel (\<lambda>se. se\<lparr>se_automatic := True\<rparr>) w)\<lparr>bk_release := None\<rparr>)"
  by (rule rel_trans [OF rel_automatic rel_release]) simp

lemma rel_acquire: "R w (begin_acquire w)" "R w (acquired w)"
  unfolding begin_acquire_def acquired_def
  by (rule rel_release, simp) (rule rel_trans [OF rel_release [of None] rel_error [of "[]"]], simp_all)

lemma rel_note_failure: "R w (note_failure m w)"
  unfolding note_failure_def by (rule rel_error) simp

lemma rel_handed_back: "length m \<le> 8192 \<Longrightarrow> R w (w\<lparr>bk_release := Some ''stop'', bk_policy_error := m\<rparr>)"
  using rel_trans [OF rel_release [of "Some ''stop''" w] rel_error] by simp

lemma rel_profiles_reset: "R w (set_sel (\<lambda>se. (clear_power_holds se)\<lparr>se_manual := (\<lambda>_. None)\<rparr>) w)"
  using rel_trans [OF rel_clear [of w] rel_no_manual] by (simp add: set_sel_def)

lemmas updates = keeps_assign rel_restored rel_pending rel_fault rel_applied rel_owned rel_active rel_begin_stop
  rel_begin_start rel_started rel_acquire rel_note_failure rel_handed_back rel_profiles_reset rel_automatic
  rel_paused rel_no_manual rel_clear rel_manual rel_public rel_policy rel_unknown

lemma keeps_child: "keeps R W (run_child env args)"
proof -
  have "keeps R W (case r of
         Lost cancelled \<Rightarrow> seqF (assign (\<lambda>w. w\<lparr>bk_unknown := True\<rparr>)) (raiseF (e cancelled))
       | Finished code doc errors \<Rightarrow> liftE (helper_answer code doc errors))" for r and e :: "bool \<Rightarrow> pyexn"
    by (cases r) (simp_all add: keeps_seq keeps_raise keeps_lift keeps_assign rel_unknown)
  then show ?thesis unfolding run_child_def by (intro keeps_rules keeps_op rel_call)
qed

lemma keeps_worker: "keeps R W (call_worker env v action p)"
  unfolding call_worker_def by (intro keeps_rules keeps_child)

lemma keeps_policy: "keeps R W (call_policy env action)"
  unfolding call_policy_def by (intro keeps_rules keeps_child updates)

lemma keeps_restore: "keeps R W (restore_vendor env v)"
  unfolding restore_vendor_def by (intro keeps_rules keeps_worker updates)

lemma keeps_fault: "v \<in> set (vendors_of env) \<Longrightarrow> keeps R W (fault_vendor env v e)"
  unfolding fault_vendor_def by (intro keeps_rules keeps_restore keeps_save updates)

lemma keeps_release: "v \<in> set (vendors_of env) \<Longrightarrow> keeps R W (release_vendor env v)"
  unfolding release_vendor_def by (intro keeps_rules keeps_restore keeps_fault)

lemma keeps_steer: "keeps R W (steer_vendor env health want v)"
  unfolding steer_vendor_def check_health_def apply_vendor_def
  by (intro keeps_rules keeps_worker keeps_restore updates)

lemma keeps_reconcile_vendor: "v \<in> set (vendors_of env) \<Longrightarrow> keeps R W (reconcile_vendor env health active idle v)"
  unfolding reconcile_vendor_def by (intro keeps_rules keeps_steer keeps_fault)

lemma keeps_error: "keeps R W (assign (\<lambda>w. w\<lparr>bk_policy_error := take 8192 m\<rparr>))"
  by (intro updates rel_error) simp

lemma keeps_release_none: "keeps R W (assign (\<lambda>w. w\<lparr>bk_release := None\<rparr>))"
  by (intro updates rel_release) simp

lemma keeps_hand_back: "keeps R W (hand_back env)"
  unfolding hand_back_def by (intro keeps_rules keeps_policy keeps_error keeps_release_none)

lemma keeps_stop: "keeps R W (stop_tuning env disable clear)"
  unfolding stop_tuning_def by (intro keeps_rules updates keeps_save keeps_release keeps_hand_back)

lemma keeps_settle: "keeps R W (settle_policy env)"
  unfolding settle_policy_def by (intro keeps_rules keeps_queries keeps_stop keeps_policy updates) simp

lemma keeps_leave: "keeps R W (leave_seat env active)"
  unfolding leave_seat_def by (intro keeps_rules keeps_save updates)

lemma keeps_reconcile: "keeps R W (reconcile env health)"
  unfolding reconcile_def
  by (intro keeps_rules keeps_queries keeps_leave keeps_reconcile_vendor keeps_settle)

lemma keeps_take_over: "keeps R W (take_over env action)"
  unfolding take_over_def by (intro keeps_rules keeps_policy updates keeps_save keeps_reconcile)

lemma keeps_start: "keeps R W (start_tuning env boot)"
  unfolding start_tuning_def
  by (intro keeps_rules keeps_queries keeps_policy updates keeps_release keeps_take_over keeps_stop)

lemma keeps_load: "keeps R W (load_controls env)"
proof -
  have adopt: "keeps R W (bindF (liftE (parse_controls (vendors_of env) v)) (\<lambda>c.
               bindF (seat_active env) (\<lambda>active. seqF (assign (adopt active c)) (retF True))))" for v
  proof (cases "parse_controls (vendors_of env) v")
    case (Inr c)
    then have "keeps R W (bindF (seat_active env) (\<lambda>active. seqF (assign (adopt active c)) (retF True)))"
      by (intro keeps_rules keeps_queries updates rel_adopt)
    with Inr show ?thesis by (simp add: keeps_def wp)
  qed (auto simp: keeps_def wp rel_refl intro: rel_weaken [OF rel_refl])
  show ?thesis
    unfolding load_controls_def skip_op_def
    by (intro keeps_rules keeps_op rel_refl adopt)
qed

lemma keeps_resume: "keeps R W (resume_automatic env)" "keeps R W (resume_manual env)"
  unfolding resume_automatic_def resume_manual_def
  by (intro keeps_rules keeps_queries keeps_policy keeps_reconcile keeps_stop updates)+

lemma keeps_initialize: "keeps R W (initialize env)"
  unfolding initialize_def
  by (intro keeps_rules keeps_queries keeps_load keeps_policy keeps_release keeps_stop keeps_resume updates)

lemma keeps_acquire: "keeps R W (acquire_policy env)" "keeps R W (abandon_acquire env e)"
  unfolding acquire_policy_def abandon_acquire_def
  by (intro keeps_rules keeps_restore keeps_policy keeps_stop keeps_save updates)+

lemma keeps_prepare: "keeps R W (prepare_power_profile env)"
  unfolding prepare_power_profile_def by (intro keeps_rules keeps_queries keeps_policy keeps_acquire updates)

lemma keeps_public: "p \<in> set PROFILES \<Longrightarrow> keeps R W (public_profile env p)"
  unfolding public_profile_def by (intro keeps_rules keeps_queries keeps_prepare keeps_reconcile updates)

lemma keeps_finish: "keeps R W (finish_action env)"
  unfolding finish_action_def by (intro keeps_rules keeps_queries keeps_reconcile)

lemma keeps_choose: "v \<in> set (vendors_of env) \<Longrightarrow> p \<in> set PROFILES \<Longrightarrow> keeps R W (choose_manual env v p)"
  unfolding choose_manual_def by (intro keeps_rules keeps_finish keeps_release updates)

lemma keeps_manual: "v \<in> set (vendors_of env) \<Longrightarrow> p \<in> set PROFILES \<Longrightarrow> keeps R W (manual_request env owner v p)"
  unfolding manual_request_def
  by (intro keeps_rules keeps_queries keeps_choose keeps_acquire updates)

lemma keeps_refresh: "keeps R W (refresh_policy env action)"
  unfolding refresh_policy_def by (intro keeps_rules keeps_policy keeps_error)

lemma keeps_report: "keeps R W (broker_report env)"
  unfolding broker_report_def report_vendor_def by (intro keeps_rules keeps_queries keeps_worker)

lemma keeps_pause: "keeps R W (set_paused env b)"
proof -
  have retry: "keeps R W (bindF (look (\<lambda>w. filter (\<lambda>v. v \<in> set (bk_pending w)) (vendors_of env))) (\<lambda>vs. forF (release_vendor env) vs))"
  proof (rule keepsI, unfold wpF_bind wpF_look)
    fix s :: "broker sys"
    show "wpF (forF (release_vendor env) (filter (\<lambda>v. v \<in> set (bk_pending (sys_world s))) (vendors_of env)))
        (\<lambda>_ t. R (sys_world s) (sys_world t)) (\<lambda>e t. if is_exception e then R (sys_world s) (sys_world t) else W (sys_world s) (sys_world t)) s"
      by (rule keepsD, intro keeps_rules keeps_release) simp
  qed
  show ?thesis unfolding set_paused_def by (intro keeps_seq [OF keeps_assign] keeps_seq keeps_when retry rel_paused keeps_finish)
qed

lemma keeps_action:
  assumes "request_ok (vendors_of env) req"
  shows "keeps R W (broker_action env req uid)"
proof -
  have "keeps R W (perform_action env (request_text ''action'' req) req)"
    unfolding perform_action_def
    by (intro keeps_rules keeps_queries keeps_report keeps_public keeps_start keeps_stop keeps_manual updates
        keeps_finish keeps_pause) (use assms in \<open>auto simp: request_ok_def\<close>)
  then show ?thesis unfolding broker_action_def Let_def by (intro keeps_rules keeps_queries keeps_refresh)
qed

lemma keeps_grant: "keeps R W (grant_hold env uid)"
  unfolding grant_hold_def by (intro keeps_rules keeps_queries keeps_prepare)

end

text \<open>When leases and holds do not matter for the relation, sessions keep it too.\<close>

locale sessions = operations R W env for R W :: "broker \<Rightarrow> broker \<Rightarrow> bool" and env +
  assumes rel_leases: "R w (set_sel (\<lambda>se. se\<lparr>se_leases := l\<rparr>) w)"
    and rel_holds: "R w (set_sel (\<lambda>se. se\<lparr>se_holds := h\<rparr>) w)"
begin

lemma keeps_shift: "keeps R W (shift_lease v p d)"
proof (rule keepsI)
  fix s :: "broker sys"
  show "wpF (shift_lease v p d) (\<lambda>_ t. R (sys_world s) (sys_world t))
      (\<lambda>e t. if is_exception e then R (sys_world s) (sys_world t) else W (sys_world s) (sys_world t)) s"
    using rel_leases [of "sys_world s"]
    by (auto simp: shift_lease_def change_lease_def Let_def wp set_sel_def rel_refl)
qed

lemma keeps_take: "keeps R W (assign (set_sel (take_hold p)))"
  using rel_holds by (intro keeps_assign) (simp add: take_hold_def set_sel_def)

lemma keeps_drop: "keeps R W (assign (set_sel (drop_hold p g)))"
  using rel_holds rel_refl by (intro keeps_assign) (simp add: drop_hold_def set_sel_def)

lemma keeps_open:
  assumes "request_ok (vendors_of env) req"
  shows "keeps R W (open_session env uid req)"
  unfolding open_session_def open_hold_def open_lease_def
  by (intro keeps_rules keeps_queries keeps_grant keeps_take keeps_shift keeps_reconcile keeps_action assms)

lemma keeps_close: "keeps R W (close_session env stopping l)"
proof -
  have "keeps R W (release_lease l)"
    by (cases l) (simp_all add: release_lease_def keeps_drop keeps_shift)
  then show ?thesis unfolding close_session_def by (intro keeps_rules keeps_reconcile)
qed

end

lemma served_invariant:
  assumes "served env ls s"
    and init: "\<And>script files active t. initialize env
      \<lparr>sys_step = 0, sys_script = script, sys_world = fresh_broker env files active\<rparr> = (Inr (), t) \<Longrightarrow> I (sys_world t)"
    and rel: "\<And>v w. R v w \<Longrightarrow> I v \<Longrightarrow> I w"
    and poll: "keeps R W (reconcile env True)"
    and opens: "\<And>uid req. request_ok (vendors_of env) req \<Longrightarrow> keeps R W (open_session env uid req)"
    and closes: "\<And>stopping l. keeps R W (close_session env stopping l)"
  shows "I (sys_world s)"
  using assms(1)
proof (induction rule: served.induct)
  case (start script files active t)
  then show ?case by (rule init)
next
  case (poll ls s t)
  then show ?case using keeps_run [OF assms(4) poll(2)] rel by blast
next
  case (request ls s doc req uid l reply t)
  then show ?case using keeps_run [OF opens [OF validate_request_ok [OF request(2)]] request(3)] rel by blast
next
  case (closing ls s l stopping r t)
  then show ?case using keeps_run [OF closes closing(3)] rel by blast
qed

end
