(* ===== verification/HwControls.thy ===== *)
theory HwControls
  imports HwBrokerFacts
begin

text \<open>The recovery file of the broker: what it saves is what a broker that starts later accepts.\<close>

definition controls_ok :: "string list \<Rightarrow> broker \<Rightarrow> bool" where
  "controls_ok vendors w \<longleftrightarrow>
     (\<forall>v \<in> set vendors. \<forall>p. se_manual (bk_sel w) v = Some p \<longrightarrow> p \<in> set PROFILES)
     \<and> (\<forall>kv \<in> set (se_faults (bk_sel w)). fst kv \<in> set vendors \<and> length (snd kv) \<le> 8192)
     \<and> bk_release w \<in> {None, Some ''stop'', Some ''disable''} \<and> length (bk_policy_error w) \<le> 8192"

definition controls_rel :: "bk_env \<Rightarrow> broker \<Rightarrow> broker \<Rightarrow> bool" where
  "controls_rel env v w \<longleftrightarrow> (controls_ok (vendors_of env) v \<longrightarrow> controls_ok (vendors_of env) w)"

lemma store_rest_broker:
  assumes "store_rest v = store_rest w"
  shows "bk_sel v = bk_sel w" "bk_release v = bk_release w" "bk_policy_error v = bk_policy_error w"
    "bk_calls v = bk_calls w" "bk_owned v = bk_owned w" "bk_applied v = bk_applied w"
    "bk_pending v = bk_pending w" "bk_unknown v = bk_unknown w"
  using assms by (cases v; cases w; simp add: store_rest_def)+

lemma parse_manual_ok:
  assumes "parse_manual vendors d = Inr m" "map_of m v = Some (Some p)"
  shows "p \<in> set PROFILES"
proof -
  have "(v, Some p) \<in> set m" using assms(2) by (rule map_of_SomeD)
  moreover obtain kvs where "mapE (\<lambda>(k, x). case x of PNone \<Rightarrow> Inr (k, None)
      | PStr p \<Rightarrow> if p \<in> set PROFILES then Inr (k, Some p) else Inl (TuningError ''invalid manual recovery state'')
      | _ \<Rightarrow> Inl (TuningError ''invalid manual recovery state'')) kvs = Inr m"
    using assms(1) by (auto simp: parse_manual_def Let_def split: pyval.splits if_splits)
  ultimately show ?thesis by (auto dest!: mapE_in_set split: pyval.splits if_splits)
qed

lemma parse_faults_ok:
  assumes "parse_faults vendors d = Inr fs" "kv \<in> set fs"
  shows "fst kv \<in> set vendors \<and> length (snd kv) \<le> 8192"
proof -
  obtain kvs where "set (map fst kvs) \<subseteq> set vendors" and "mapE (\<lambda>(k, x). case x of
        PStr m \<Rightarrow> if length m \<le> 8192 then Inr (k, m) else Inl (TuningError ''invalid fault state'')
      | _ \<Rightarrow> Inl (TuningError ''invalid fault state'')) kvs = Inr fs"
    using assms(1) by (auto simp: parse_faults_def Let_def split: pyval.splits if_splits)
  then show ?thesis using assms(2) by (fastforce dest!: mapE_in_set split: pyval.splits if_splits)
qed

lemma parse_release_ok:
  assumes "parse_release a b = Inr (r, m)"
  shows "r \<in> {None, Some ''stop'', Some ''disable''} \<and> length m \<le> 8192"
  using assms by (cases a; cases b) (auto simp: parse_release_def Let_def split: if_splits)

lemma controls_adopt:
  assumes "parse_controls vendors doc = Inr c"
  shows "controls_ok vendors (adopt active c w)"
proof -
  obtain d where "parse_manual vendors (dget ''manual'' d) = Inr (ct_manual c)"
      "parse_faults vendors (dget ''faults'' d) = Inr (ct_faults c)"
      "parse_release (dget ''policy_release'' d) (dget ''policy_error'' d) = Inr (ct_release c, ct_error c)"
    using assms by (auto simp: parse_controls_def Let_def split: pyval.splits if_splits prod.splits)
  then show ?thesis
    using parse_manual_ok parse_faults_ok parse_release_ok
    by (fastforce simp: controls_ok_def adopt_def set_sel_def bind_eq_Some_conv split: if_splits)
qed

lemma set_dset_fault: "kv \<in> set (dset k v d) \<Longrightarrow> kv = (k, v) \<or> kv \<in> set d"
  using set_dset [of k v d] by auto

lemma controls_ok_same:
  "bk_sel w = bk_sel v \<Longrightarrow> bk_release w = bk_release v \<Longrightarrow> bk_policy_error w = bk_policy_error v
    \<Longrightarrow> controls_ok vendors w = controls_ok vendors v"
  by (simp add: controls_ok_def)

interpretation controls: sessions "controls_rel env" "\<lambda>_ _. True" env for env
proof (unfold_locales, goal_cases)
  case (2 u v w)
  then show ?case by (simp add: controls_rel_def)
next
  case (5 v w)
  show ?case unfolding controls_rel_def
    using controls_ok_same [OF store_rest_broker(1-3) [OF 5], of "vendors_of env"] by simp
next
  case (12 v w m)
  then show ?case by (auto simp: controls_rel_def controls_ok_def note_fault_def set_sel_def dest!: set_dset_fault)
next
  case (23 doc c w active)
  then show ?case by (simp add: controls_rel_def controls_adopt)
qed (simp_all add: controls_rel_def controls_ok_def record_call_def set_sel_def clear_power_holds_def
    select_manual_def select_public_def)

lemma served_controls: "served env ls s \<Longrightarrow> controls_ok (vendors_of env) (sys_world s)"
proof (erule served_invariant [where R = "controls_rel env" and W = "\<lambda>_ _. True"], goal_cases)
  case (1 script files active t)
  have "controls_ok (vendors_of env) (fresh_broker env files active)"
    by (simp add: controls_ok_def fresh_broker_def initial_selection_def)
  then show ?case using keeps_run [OF controls.keeps_initialize 1] by (simp add: controls_rel_def)
qed (simp_all add: controls.keeps_reconcile controls.keeps_open controls.keeps_close controls_rel_def)

subsection \<open>Saving and loading\<close>

lemma mapE_ok: "(\<And>x. x \<in> set xs \<Longrightarrow> f (g x) = Inr x) \<Longrightarrow> mapE f (map g xs) = Inr xs"
  by (induction xs) auto

lemma parse_manual_doc:
  assumes "\<forall>v \<in> set vendors. \<forall>p. m v = Some p \<longrightarrow> p \<in> set PROFILES"
  shows "parse_manual vendors (manual_doc vendors m) = Inr (map (\<lambda>v. (v, m v)) vendors)"
proof -
  have 1: "keys_eq (map (\<lambda>v. (v, opt_val PStr (m v))) vendors) vendors" by (simp add: keys_eq_def o_def)
  have 2: "mapE (\<lambda>(k, x). case x of PNone \<Rightarrow> Inr (k, None)
      | PStr p \<Rightarrow> if p \<in> set PROFILES then Inr (k, Some p) else Inl (TuningError ''invalid manual recovery state'')
      | _ \<Rightarrow> Inl (TuningError ''invalid manual recovery state'')) (map (\<lambda>v. (v, opt_val PStr (m v))) vs)
      = Inr (map (\<lambda>v. (v, m v)) vs)" if "set vs \<subseteq> set vendors" for vs
    using that assms by (induction vs) (auto simp: opt_val_def split: option.splits)
  show ?thesis using 1 2 [of vendors] by (simp add: parse_manual_def manual_doc_def Let_def)
qed

lemma parse_faults_doc:
  assumes "\<forall>kv \<in> set fs. fst kv \<in> set vendors \<and> length (snd kv) \<le> 8192"
  shows "parse_faults vendors (texts_doc fs) = Inr fs"
proof -
  have 1: "map fst (map (\<lambda>(k, v). (k, PStr v)) fs) = map fst fs" by auto
  have 2: "mapE (\<lambda>(k, x). case x of
        PStr m \<Rightarrow> if length m \<le> 8192 then Inr (k, m) else Inl (TuningError ''invalid fault state'')
      | _ \<Rightarrow> Inl (TuningError ''invalid fault state'')) (map (\<lambda>(k, v). (k, PStr v)) fs) = Inr fs"
    using assms by (intro mapE_ok) auto
  show ?thesis unfolding parse_faults_def texts_doc_def Let_def pyval.case 1 using assms 2 by auto
qed

lemma parse_release_doc:
  assumes "r \<in> {None, Some ''stop'', Some ''disable''}" "length m \<le> 8192"
  shows "parse_release (opt_val PStr r) (PStr m) = Inr (r, m)"
  using assms by (auto simp: parse_release_def opt_val_def Let_def)

lemma parse_controls_doc:
  assumes "controls_ok vendors w"
  shows "parse_controls vendors (controls_doc vendors w) = Inr \<lparr>ct_automatic = se_automatic (bk_sel w),
     ct_manual = map (\<lambda>v. (v, se_manual (bk_sel w) v)) vendors, ct_paused = se_paused (bk_sel w),
     ct_faults = se_faults (bk_sel w), ct_release = bk_release w, ct_error = bk_policy_error w\<rparr>"
  using assms parse_manual_doc [of vendors "se_manual (bk_sel w)"] parse_faults_doc [of "se_faults (bk_sel w)" vendors]
    parse_release_doc [of "bk_release w" "bk_policy_error w"]
  by (simp add: controls_ok_def parse_controls_def controls_doc_def keys_eq_def CONTROL_FIELDS_def dget_def
      bool_field_def Let_def insert_commute)

lemma manual_doc_cong: "(\<And>v. v \<in> set vendors \<Longrightarrow> f v = g v) \<Longrightarrow> manual_doc vendors f = manual_doc vendors g"
  by (simp add: manual_doc_def)

end
