(* ===== verification/HwHandover.thy ===== *)
theory HwHandover
  imports HwControls
begin

text \<open>
  Which vendors may still have tuned hardware, as the history of worker calls tells, against what the
  broker keeps in mind; and when the power policy changes hands.
\<close>

subsection \<open>What the history says\<close>

definition helper_result :: "helper_end \<Rightarrow> pyval option" where
  "helper_result r = (case r of
      Lost cancelled \<Rightarrow> None
    | Finished code doc errors \<Rightarrow> (case helper_answer code doc errors of Inl e \<Rightarrow> None | Inr v \<Rightarrow> Some v))"

text \<open>An application that succeeded and reports no controls has nothing to restore.\<close>

definition owns_nothing :: "helper_end \<Rightarrow> bool" where
  "owns_nothing r = (case helper_result r of
      Some (PDict d) \<Rightarrow> \<not> py_truthy (dget_or ''controls'' PNone d) | _ \<Rightarrow> False)"

definition owes_step :: "string \<Rightarrow> bool \<Rightarrow> string list \<times> helper_end \<Rightarrow> bool" where
  "owes_step v owing call =
     (case call of (args, r) \<Rightarrow>
      if args = [WORKER, v, ''reset''] then owing \<and> helper_result r = None
      else if take 3 args = [WORKER, v, ''apply''] then \<not> owns_nothing r
      else owing)"

text \<open>Before its first successful reset every vendor counts: an earlier broker may have died.\<close>

definition owes :: "string \<Rightarrow> (string list \<times> helper_end) list \<Rightarrow> bool" where
  "owes v calls = foldl (owes_step v) True calls"

definition HANDOVER :: "string list" where
  "HANDOVER = [''prepare-runtime'', ''prepare-boot'', ''stop'', ''disable'']"

text \<open>The policy owner was asked to change hands only while no vendor owed anything.\<close>

definition handovers_clean :: "string list \<Rightarrow> (string list \<times> helper_end) list \<Rightarrow> bool" where
  "handovers_clean vendors calls \<longleftrightarrow>
     (\<forall>n < length calls. \<forall>a \<in> set HANDOVER. fst (calls ! n) = [POLICY, a]
        \<longrightarrow> (\<forall>v \<in> set vendors. \<not> owes v (take n calls)))"

lemma owes_snoc: "owes v (calls @ [c]) = owes_step v (owes v calls) c"
  by (simp add: owes_def)

lemma owes_other:
  "args \<noteq> [WORKER, v, ''reset''] \<Longrightarrow> take 3 args \<noteq> [WORKER, v, ''apply''] \<Longrightarrow> owes v (calls @ [(args, r)]) = owes v calls"
  by (simp add: owes_snoc owes_step_def)

lemma handovers_snoc:
  "handovers_clean vs (calls @ [(args, r)]) \<longleftrightarrow> handovers_clean vs calls
     \<and> ((\<exists>a \<in> set HANDOVER. args = [POLICY, a]) \<longrightarrow> (\<forall>v \<in> set vs. \<not> owes v calls))"
  by (auto simp: handovers_clean_def nth_append less_Suc_eq)

lemma WORKER_not_POLICY [simp]: "POLICY \<noteq> WORKER" "WORKER \<noteq> POLICY"
  by (simp_all add: POLICY_def WORKER_def)

text \<open>A vendor is settled when the broker does not think it owns it, or knows that recovery is pending.\<close>

definition settled :: "broker \<Rightarrow> string \<Rightarrow> bool" where
  "settled w v \<longleftrightarrow> \<not> bk_owned w v \<or> v \<in> set (bk_pending w)"

definition accounted :: "broker \<Rightarrow> string \<Rightarrow> bool" where
  "accounted w v \<longleftrightarrow> (owes v (bk_calls w) \<longrightarrow> bk_owned w v \<or> v \<in> set (bk_pending w) \<or> bk_unknown w)"

definition faulted :: "broker \<Rightarrow> string \<Rightarrow> bool" where
  "faulted w v \<longleftrightarrow> v \<in> set (map fst (se_faults (bk_sel w)))"

text \<open>\<open>X\<close> are the vendors that an operation is working on.\<close>

definition in_order :: "bk_env \<Rightarrow> string set \<Rightarrow> broker \<Rightarrow> bool" where
  "in_order env X w \<longleftrightarrow> handovers_clean (vendors_of env) (bk_calls w)
     \<and> (\<forall>v \<in> set (vendors_of env) - X. accounted w v \<and> (faulted w v \<longrightarrow> settled w v))
     \<and> (\<forall>v. bk_owned w v \<longrightarrow> bk_applied w v \<noteq> None)"

definition clean :: "bk_env \<Rightarrow> broker \<Rightarrow> bool" where
  "clean env w \<longleftrightarrow> handovers_clean (vendors_of env) (bk_calls w)"

definition order_rel :: "bk_env \<Rightarrow> string set \<Rightarrow> broker \<Rightarrow> broker \<Rightarrow> bool" where
  "order_rel env X v w \<longleftrightarrow> (in_order env X v \<longrightarrow> in_order env X w)"

definition clean_rel :: "bk_env \<Rightarrow> string set \<Rightarrow> broker \<Rightarrow> broker \<Rightarrow> bool" where
  "clean_rel env X v w \<longleftrightarrow> (in_order env X v \<longrightarrow> clean env w)"

lemma in_order_clean: "in_order env X w \<Longrightarrow> clean env w"
  by (simp add: in_order_def clean_def)

text \<open>Updates that touch nothing of this, except that faults may go.\<close>

definition same_order :: "broker \<Rightarrow> broker \<Rightarrow> bool" where
  "same_order v w \<longleftrightarrow> bk_calls w = bk_calls v \<and> bk_owned w = bk_owned v \<and> bk_applied w = bk_applied v
     \<and> bk_pending w = bk_pending v \<and> bk_unknown w = bk_unknown v
     \<and> (\<forall>u. faulted w u \<longrightarrow> faulted v u)"

lemma in_order_same: "same_order v w \<Longrightarrow> in_order env X v \<Longrightarrow> in_order env X w"
  by (simp add: same_order_def in_order_def accounted_def settled_def)

interpretation ordered: broker_rel "order_rel env X" "clean_rel env X" for env X
proof (unfold_locales, goal_cases)
  case (5 v w)
  then show ?case using in_order_same [of v w env X] store_rest_broker [OF 5]
    by (simp add: order_rel_def same_order_def faulted_def)
next
  case (6 w n)
  show ?case using in_order_same [of w "w\<lparr>bk_queries := n\<rparr>" env X] by (simp add: order_rel_def same_order_def faulted_def)
qed (auto simp: order_rel_def clean_rel_def intro: in_order_clean)

lemma ordered_assign: "(\<And>w. same_order w (f w)) \<Longrightarrow> keeps (order_rel env X) (clean_rel env X) (assign f)"
  by (intro ordered.keeps_assign, unfold order_rel_def, intro impI, rule in_order_same)

text \<open>\<open>good env X m Q s\<close>: from \<open>s\<close> the program ends in order, with \<open>Q\<close> on return.\<close>

definition good :: "bk_env \<Rightarrow> string set \<Rightarrow> ('a \<Rightarrow> broker \<Rightarrow> bool) \<Rightarrow> 'a bk_io \<Rightarrow> broker sys \<Rightarrow> bool" where
  "good env X Q m s \<longleftrightarrow> wpF m (\<lambda>x t. in_order env X (sys_world t) \<and> Q x (sys_world t))
     (\<lambda>e t. if is_exception e then in_order env X (sys_world t) else clean env (sys_world t)) s"

lemma good_keeps:
  "keeps (order_rel env X) (clean_rel env X) m \<Longrightarrow> in_order env X (sys_world s) \<Longrightarrow> good env X (\<lambda>_ _. True) m s"
  unfolding good_def order_rel_def clean_rel_def by (drule keepsD [of _ _ _ s], erule wpF_mono) (auto split: if_splits)

lemma keeps_good:
  assumes "\<And>s. in_order env X (sys_world s) \<Longrightarrow> good env X (\<lambda>_ _. True) m s"
  shows "keeps (order_rel env X) (clean_rel env X) m"
proof (rule keepsI)
  fix s :: "broker sys"
  show "wpF m (\<lambda>_ t. order_rel env X (sys_world s) (sys_world t))
      (\<lambda>e t. if is_exception e then order_rel env X (sys_world s) (sys_world t) else clean_rel env X (sys_world s) (sys_world t)) s"
  proof (cases "in_order env X (sys_world s)")
    case True
    from assms [OF this] show ?thesis unfolding good_def
      by (rule wpF_mono) (auto simp: order_rel_def clean_rel_def split: if_splits)
  next
    case False
    then show ?thesis by (intro wpF_mono [OF wpF_any]) (simp_all add: order_rel_def clean_rel_def)
  qed
qed

lemma good_weaken: "good env X Q m s \<Longrightarrow> (\<And>x w. Q x w \<Longrightarrow> Q' x w) \<Longrightarrow> good env X Q' m s"
  unfolding good_def by (erule wpF_mono) auto

lemma good_bind:
  "good env X Q m s \<Longrightarrow> (\<And>x t. in_order env X (sys_world t) \<Longrightarrow> Q x (sys_world t) \<Longrightarrow> good env X Q' (f x) t)
    \<Longrightarrow> good env X Q' (bindF m f) s"
  unfolding good_def wpF_bind by (erule wpF_mono) auto

lemma good_seq:
  "good env X Q m s \<Longrightarrow> (\<And>x t. in_order env X (sys_world t) \<Longrightarrow> Q x (sys_world t) \<Longrightarrow> good env X Q' n t)
    \<Longrightarrow> good env X Q' (seqF m n) s"
  unfolding seqF_def by (rule good_bind)

lemma good_look:
  "in_order env X (sys_world s) \<Longrightarrow> (f (sys_world s) = f (sys_world s) \<Longrightarrow> good env X Q (g (f (sys_world s))) s)
    \<Longrightarrow> good env X Q (bindF (look f) g) s"
  unfolding good_def by (simp add: wp)

lemma good_catch:
  "good env X Q m s \<Longrightarrow> (\<And>e t. in_order env X (sys_world t) \<Longrightarrow> good env X Q (h e) t)
    \<Longrightarrow> good env X Q (catchF m is_exception h) s"
  unfolding good_def wpF_catch by (erule wpF_mono) (auto simp: is_exception_not_killed split: if_splits)

lemma good_keeps_seq:
  "keeps (order_rel env X) (clean_rel env X) m \<Longrightarrow> in_order env X (sys_world s)
    \<Longrightarrow> (\<And>t. in_order env X (sys_world t) \<Longrightarrow> good env X Q n t) \<Longrightarrow> good env X Q (seqF m n) s"
  by (rule good_seq [OF good_keeps])

subsection \<open>Helpers\<close>

lemma child_wp:
  assumes "\<And>r x t. helper_result r = Some x \<Longrightarrow> \<not> bk_unknown (sys_world s)
      \<Longrightarrow> sys_world t = record_call args r (sys_world s) \<Longrightarrow> Q x t"
    and "\<And>e t. sys_world t = sys_world s \<Longrightarrow> E e t"
    and "\<And>e r t. \<not> bk_unknown (sys_world s) \<Longrightarrow> sys_world t = record_call args r (sys_world s) \<Longrightarrow> E e t"
    and "\<And>e r t. \<not> bk_unknown (sys_world s)
      \<Longrightarrow> sys_world t = (record_call args r (sys_world s))\<lparr>bk_unknown := True\<rparr> \<Longrightarrow> E e t"
  shows "wpF (run_child env args) Q E s"
proof -
  let ?r = "be_helper env (length (bk_calls (sys_world s))) args"
  have "wpF (seqF (op (record_call args ?r)) (case ?r of
         Lost cancelled \<Rightarrow> seqF (assign (\<lambda>w. w\<lparr>bk_unknown := True\<rparr>)) (raiseF (e cancelled))
       | Finished code doc errors \<Rightarrow> liftE (helper_answer code doc errors))) Q E s"
    if "\<not> bk_unknown (sys_world s)" for e :: "bool \<Rightarrow> pyexn"
    unfolding wpF_seq [of "op _"]
  proof (rule wpF_opI)
    fix t :: "broker sys"
    assume t: "sys_world t = record_call args ?r (sys_world s)"
    show "wpF (case ?r of
         Lost cancelled \<Rightarrow> seqF (assign (\<lambda>w. w\<lparr>bk_unknown := True\<rparr>)) (raiseF (e cancelled))
       | Finished code doc errors \<Rightarrow> liftE (helper_answer code doc errors)) Q E t"
    proof (cases ?r)
      case (Lost b)
      then show ?thesis using t that assms(4) by (simp add: wp)
    next
      case (Finished code doc errors)
      then show ?thesis using t that assms(1) [of ?r _ t] assms(3) [of t ?r]
        by (auto simp: wp helper_result_def split: sum.splits)
    qed
  qed (use that assms(2, 3) in auto)
  then show ?thesis using assms(2) [of s] by (auto simp: run_child_def wp)
qed

lemma record_call_simps [simp]:
  "bk_calls (record_call args r w) = bk_calls w @ [(args, r)]" "bk_owned (record_call args r w) = bk_owned w"
  "bk_applied (record_call args r w) = bk_applied w" "bk_pending (record_call args r w) = bk_pending w"
  "bk_unknown (record_call args r w) = bk_unknown w" "bk_sel (record_call args r w) = bk_sel w"
  "bk_release (record_call args r w) = bk_release w" "faulted (record_call args r w) v = faulted w v"
  "faulted (w\<lparr>bk_unknown := u\<rparr>) v = faulted w v"
  by (simp_all add: record_call_def faulted_def)

text \<open>Calls that neither restore nor apply nor change the policy owner.\<close>

lemma in_order_call:
  assumes "in_order env X w" "\<And>a. a \<in> set HANDOVER \<Longrightarrow> args = [POLICY, a] \<Longrightarrow> \<forall>v \<in> set (vendors_of env). \<not> owes v (bk_calls w)"
    and "\<And>v. take 3 args = [WORKER, v, ''apply''] \<Longrightarrow> v \<in> X"
  shows "in_order env X (record_call args r w)" "in_order env X ((record_call args r w)\<lparr>bk_unknown := True\<rparr>)"
proof -
  have "handovers_clean (vendors_of env) (bk_calls w @ [(args, r)])"
    using assms(1, 2) by (auto simp: handovers_snoc in_order_def)
  moreover have "owes v (bk_calls w @ [(args, r)]) \<Longrightarrow> owes v (bk_calls w)" if "v \<notin> X" for v
    using assms(3) that by (auto simp: owes_snoc owes_step_def split: if_splits)
  ultimately show "in_order env X (record_call args r w)" "in_order env X ((record_call args r w)\<lparr>bk_unknown := True\<rparr>)"
    using assms(1) by (auto simp: in_order_def accounted_def settled_def)
qed

lemma child_good:
  assumes "in_order env X (sys_world s)"
    and "\<And>a. a \<in> set HANDOVER \<Longrightarrow> args = [POLICY, a] \<Longrightarrow> \<not> bk_unknown (sys_world s)
      \<Longrightarrow> \<forall>v \<in> set (vendors_of env). \<not> owes v (bk_calls (sys_world s))"
    and "\<And>v. take 3 args = [WORKER, v, ''apply''] \<Longrightarrow> v \<in> X"
  shows "good env X (\<lambda>_ _. True) (run_child env args) s"
  unfolding good_def
proof (rule child_wp, goal_cases)
  case (1 r x t)
  then show ?case using in_order_call(1) [OF assms(1, 2, 3)] by simp
next
  case (2 e t)
  then show ?case using assms(1) in_order_clean [OF assms(1)] by simp
next
  case (3 e r t)
  note w = in_order_call(1) [OF assms(1) assms(2) [OF _ _ 3(1)] assms(3)]
  show ?case using w in_order_clean [OF w] by (simp add: 3)
next
  case (4 e r t)
  note w = in_order_call(2) [OF assms(1) assms(2) [OF _ _ 4(1)] assms(3)]
  show ?case using w in_order_clean [OF w] by (simp add: 4)
qed

lemma keeps_plain_call:
  assumes "\<And>a. a \<in> set HANDOVER \<Longrightarrow> args \<noteq> [POLICY, a]" "\<And>v. take 3 args = [WORKER, v, ''apply''] \<Longrightarrow> v \<in> X"
  shows "keeps (order_rel env X) (clean_rel env X) (run_child env args)"
  by (rule keeps_good, rule child_good) (use assms in auto)

subsection \<open>Restoring, faults, applying\<close>

lemma in_order_mono: "in_order env X w \<Longrightarrow> X \<subseteq> Y \<Longrightarrow> in_order env Y w"
  by (auto simp: in_order_def)

definition same_hold :: "broker \<Rightarrow> broker \<Rightarrow> bool" where
  "same_hold v w \<longleftrightarrow> bk_owned w = bk_owned v \<and> bk_pending w = bk_pending v \<and> bk_sel w = bk_sel v"

definition restored :: "string \<Rightarrow> broker \<Rightarrow> broker \<Rightarrow> bool" where
  "restored v w w' \<longleftrightarrow> \<not> bk_owned w' v \<and> \<not> owes v (bk_calls w') \<and> bk_pending w' = removeAll v (bk_pending w)
     \<and> bk_sel w' = bk_sel w
     \<and> (\<forall>u. u \<noteq> v \<longrightarrow> bk_owned w' u = bk_owned w u \<and> owes u (bk_calls w') = owes u (bk_calls w))"

text \<open>The other vendors stay settled, and with \<open>touched\<close> the vendor itself becomes so.\<close>

definition others :: "string \<Rightarrow> broker \<Rightarrow> broker \<Rightarrow> bool" where
  "others v w w' \<longleftrightarrow> (\<forall>u. u \<noteq> v \<longrightarrow> settled w u \<longrightarrow> settled w' u)"

definition touched :: "string \<Rightarrow> broker \<Rightarrow> broker \<Rightarrow> bool" where
  "touched v w w' \<longleftrightarrow> settled w' v \<and> others v w w'"

lemma restored_touched: "restored v w w' \<Longrightarrow> touched v w w'"
  by (auto simp: restored_def touched_def others_def settled_def)

lemma owes_reset:
  "helper_result r = Some x \<Longrightarrow> owes u (calls @ [([WORKER, v, ''reset''], r)]) = (u \<noteq> v \<and> owes u calls)"
  by (auto simp: owes_snoc owes_step_def)

lemma call_worker_wp:
  assumes "\<And>r x t. helper_result r = Some x \<Longrightarrow> sys_world t = record_call (WORKER # v # action # map id (case p of None \<Rightarrow> [] | Some q \<Rightarrow> [q])) r (sys_world s) \<Longrightarrow> Q x t"
    and "\<And>e t. sys_world t = sys_world s \<Longrightarrow> E e t"
    and "\<And>e r t. sys_world t = record_call (WORKER # v # action # (case p of None \<Rightarrow> [] | Some q \<Rightarrow> [q])) r (sys_world s) \<Longrightarrow> E e t"
    and "\<And>e r t. sys_world t = (record_call (WORKER # v # action # (case p of None \<Rightarrow> [] | Some q \<Rightarrow> [q])) r (sys_world s))\<lparr>bk_unknown := True\<rparr> \<Longrightarrow> E e t"
  shows "wpF (call_worker env v action p) Q E s"
proof -
  have "wpF (run_child env (WORKER # v # action # (case p of None \<Rightarrow> [] | Some q \<Rightarrow> [q]))) Q E s"
    by (rule child_wp) (use assms in auto)
  then show ?thesis using assms(2) [of s] by (simp add: call_worker_def wp)
qed

lemma restore_wp:
  assumes "in_order env X (sys_world s)"
  shows "wpF (restore_vendor env v)
     (\<lambda>_ t. in_order env (X - {v}) (sys_world t) \<and> restored v (sys_world s) (sys_world t))
     (\<lambda>e t. if is_exception e then in_order env X (sys_world t) \<and> same_hold (sys_world s) (sys_world t)
            else clean env (sys_world t)) s"
  unfolding restore_vendor_def wpF_bind
proof (rule call_worker_wp, goal_cases)
  case (1 r x t)
  let ?w = "record_call [WORKER, v, ''reset''] r (sys_world s)"
  let ?u = "?w\<lparr>bk_details := dset v x (bk_details ?w), bk_applied := (bk_applied ?w)(v := None),
        bk_owned := (bk_owned ?w)(v := False), bk_pending := removeAll v (bk_pending ?w)\<rparr>"
  have sel: "bk_sel ?u = bk_sel (sys_world s)" by simp
  have "restored v (sys_world s) ?u" using 1(1) by (simp add: restored_def owes_reset)
  moreover have "in_order env (X - {v}) ?u"
    using assms 1(1)
    by (auto simp: in_order_def accounted_def settled_def faulted_def owes_reset handovers_snoc)
  ultimately show ?case using 1(2) by (simp add: wp)
next
  case (2 e t)
  then show ?case using assms in_order_clean [OF assms] by (simp add: same_hold_def)
next
  case (3 e r t)
  have w: "in_order env X (record_call [WORKER, v, ''reset''] r (sys_world s))"
    by (rule in_order_call(1) [OF assms]) simp_all
  then show ?case using 3 in_order_clean [OF w] by (simp add: same_hold_def)
next
  case (4 e r t)
  have w: "in_order env X ((record_call [WORKER, v, ''reset''] r (sys_world s))\<lparr>bk_unknown := True\<rparr>)"
    by (rule in_order_call(2) [OF assms]) simp_all
  then show ?case using 4 in_order_clean [OF w] by (simp add: same_hold_def)
qed

lemma note_fault_simps [simp]:
  "bk_calls (note_fault v m w) = bk_calls w" "bk_owned (note_fault v m w) = bk_owned w"
  "bk_applied (note_fault v m w) = bk_applied w" "bk_pending (note_fault v m w) = bk_pending w"
  "bk_unknown (note_fault v m w) = bk_unknown w" "settled (note_fault v m w) u = settled w u"
  "accounted (note_fault v m w) u = accounted w u"
  by (simp_all add: note_fault_def set_sel_def settled_def accounted_def)

lemma faulted_note: "faulted (note_fault v m w) u = (u = v \<or> faulted w u)"
  by (simp add: faulted_def note_fault_def set_sel_def dkeys_dset) auto

lemma in_order_note: "in_order env X w \<Longrightarrow> settled w v \<Longrightarrow> in_order env X (note_fault v m w)"
  by (auto simp: in_order_def faulted_note)

lemma save_same:
  assumes "\<And>t. same_order (sys_world s) (sys_world t) \<Longrightarrow> (\<And>u. settled (sys_world t) u = settled (sys_world s) u) \<Longrightarrow> Q () t"
    and "\<And>e t. same_order (sys_world s) (sys_world t) \<Longrightarrow> (\<And>u. settled (sys_world t) u = settled (sys_world s) u) \<Longrightarrow> E e t"
  shows "wpF (save_controls env) Q E s"
proof -
  have *: "same_order (sys_world s) (sys_world t) \<and> (\<forall>u. settled (sys_world t) u = settled (sys_world s) u)"
    if "store_rest (sys_world t) = store_rest (sys_world s)" for t :: "broker sys"
    unfolding same_order_def faulted_def settled_def store_rest_broker [OF that] by simp
  show ?thesis unfolding save_controls_def wpF_bind wpF_look
  proof (rule wpF_mono [OF atomic_json_atomic], goal_cases)
    case (1 x t)
    then have "x = ()" "store_rest (sys_world t) = store_rest (sys_world s)" by simp_all
    then show ?case using assms(1) [of t] * [of t] by blast
  next
    case (2 e t)
    then have "store_rest (sys_world t) = store_rest (sys_world s)" by simp
    then show ?case using assms(2) [of t e] * [of t] by blast
  qed
qed

lemma fault_wp:
  assumes "in_order env X (sys_world s)"
  shows "wpF (fault_vendor env v exc)
     (\<lambda>_ t. in_order env (X - {v}) (sys_world t) \<and> touched v (sys_world s) (sys_world t))
     (\<lambda>e t. if is_exception e then in_order env (X - {v}) (sys_world t) else clean env (sys_world t)) s"
proof -
  let ?done = "\<lambda>t :: broker sys. in_order env (X - {v}) (sys_world t) \<and> touched v (sys_world s) (sys_world t)"
  have finish: "wpF (seqF (assign (note_fault v m)) (save_controls env)) (\<lambda>_. ?done)
      (\<lambda>e t. if is_exception e then in_order env (X - {v}) (sys_world t) else clean env (sys_world t)) t"
    if "?done t" for m t
    unfolding wpF_seq wpF_assign
  proof (rule save_same)
    fix u :: "broker sys"
    assume u: "same_order (sys_world (upd (note_fault v m) t)) (sys_world u)"
      and st: "\<And>x. settled (sys_world u) x = settled (sys_world (upd (note_fault v m) t)) x"
    have o: "in_order env (X - {v}) (sys_world u)"
      by (rule in_order_same [OF u]) (use that in \<open>simp add: in_order_note touched_def\<close>)
    then show "?done u" using that st by (simp add: touched_def others_def)
    show "if is_exception e then in_order env (X - {v}) (sys_world u) else clean env (sys_world u)" for e :: pyexn
      using o in_order_clean [OF o] by simp
  qed
  have pend: "?done (upd (\<lambda>w. w\<lparr>bk_pending := List.insert v (bk_pending w)\<rparr>) t)"
    if "in_order env X (sys_world t)" "same_hold (sys_world s) (sys_world t)" for t
    using that by (auto simp: in_order_def accounted_def settled_def faulted_def touched_def others_def same_hold_def)
  show ?thesis
    unfolding fault_vendor_def wpF_bind [of "catchF _ _ _"] wpF_catch wpF_seq [of "restore_vendor _ _"] wpF_ret
  proof (rule wpF_mono [OF restore_wp [OF assms]], goal_cases)
    case (1 x t)
    then show ?case by (intro finish) (simp add: restored_touched)
  next
    case (2 e t)
    then show ?case
      using finish [OF pend, of t "exn_str exc @ ''; recovery still pending: '' @ exn_str e"]
      by (cases "is_exception e") (simp_all only: wpF_seq [of "assign _" "retF _"] wpF_assign wpF_ret if_True if_False
          is_exception_not_killed simp_thms)
  qed
qed

lemma same_hold_settled: "same_hold v w \<Longrightarrow> settled w u = settled v u"
  by (simp add: same_hold_def settled_def)

lemma release_wp:
  assumes "in_order env X (sys_world s)"
  shows "wpF (release_vendor env v)
     (\<lambda>_ t. in_order env (X - {v}) (sys_world t) \<and> touched v (sys_world s) (sys_world t))
     (\<lambda>e t. if is_exception e then in_order env (X - {v}) (sys_world t) else clean env (sys_world t)) s"
  unfolding release_vendor_def wpF_catch
proof (rule wpF_mono [OF restore_wp [OF assms]], goal_cases)
  case (2 e t)
  have "wpF (fault_vendor env v e)
     (\<lambda>_ t. in_order env (X - {v}) (sys_world t) \<and> touched v (sys_world s) (sys_world t))
     (\<lambda>e t. if is_exception e then in_order env (X - {v}) (sys_world t) else clean env (sys_world t)) t"
    if "is_exception e"
    using 2 that by (intro wpF_mono [OF fault_wp [of env X t v e]])
      (auto simp: touched_def others_def same_hold_settled)
  then show ?case using 2 by (auto simp: is_exception_not_killed split: if_splits)
qed (auto simp: restored_touched)

lemma release_all_wp:
  assumes "in_order env X (sys_world s)"
  shows "wpF (forF (release_vendor env) vs)
     (\<lambda>_ t. in_order env (X - set vs) (sys_world t)
        \<and> (\<forall>u. u \<in> set vs \<or> settled (sys_world s) u \<longrightarrow> settled (sys_world t) u))
     (\<lambda>e t. if is_exception e then in_order env X (sys_world t) else clean env (sys_world t)) s"
proof (rule wpF_for [where I = "\<lambda>ys t. in_order env (X - set ys) (sys_world t)
        \<and> (\<forall>u. u \<in> set ys \<or> settled (sys_world s) u \<longrightarrow> settled (sys_world t) u)"])
  show "in_order env (X - set []) (sys_world s)
      \<and> (\<forall>u. u \<in> set [] \<or> settled (sys_world s) u \<longrightarrow> settled (sys_world s) u)"
    using assms by simp
next
  fix ys v zs and t :: "broker sys"
  assume I: "in_order env (X - set ys) (sys_world t)
      \<and> (\<forall>u. u \<in> set ys \<or> settled (sys_world s) u \<longrightarrow> settled (sys_world t) u)"
  have D: "X - set (ys @ [v]) = X - set ys - {v}" by auto
  have all: "\<forall>u. u \<in> set (ys @ [v]) \<or> settled (sys_world s) u \<longrightarrow> settled w u" if "touched v (sys_world t) w" for w
    using that I unfolding touched_def others_def set_append by auto
  show "wpF (release_vendor env v)
      (\<lambda>_ t. in_order env (X - set (ys @ [v])) (sys_world t)
        \<and> (\<forall>u. u \<in> set (ys @ [v]) \<or> settled (sys_world s) u \<longrightarrow> settled (sys_world t) u))
      (\<lambda>e t. if is_exception e then in_order env X (sys_world t) else clean env (sys_world t)) t"
    unfolding D
  proof (rule wpF_mono [OF release_wp [OF conjunct1 [OF I]]], goal_cases)
    case (1 x u)
    then show ?case using all by blast
  next
    case (2 e u)
    then show ?case using in_order_mono [of env "X - set ys - {v}" "sys_world u" X] by (auto split: if_splits)
  qed
qed

end
