(* ===== verification/HwReconcile.thy ===== *)
theory HwReconcile
  imports HwHandover
begin

text \<open>
  Every operation of the broker keeps its books in order, and asks the policy owner to change hands only
  while nothing is owed.
\<close>

abbreviation ordered :: "bk_env \<Rightarrow> 'a bk_io \<Rightarrow> bool" where
  "ordered env m \<equiv> keeps (order_rel env {}) (clean_rel env {}) m"

lemmas order_rules = ordered.keeps_rules ordered.keeps_queries

lemma same_order_simps [simp]:
  "same_order w (w\<lparr>bk_policy := x\<rparr>)" "same_order w (w\<lparr>bk_was_active := b\<rparr>)"
  "same_order w (w\<lparr>bk_policy_error := m\<rparr>)" "same_order w (w\<lparr>bk_release := r\<rparr>)"
  "same_order w (w\<lparr>bk_release := r, bk_policy_error := m\<rparr>)"
  "same_order w (set_sel (\<lambda>se. se\<lparr>se_manual := f\<rparr>) w)" "same_order w (set_sel (\<lambda>se. se\<lparr>se_automatic := b\<rparr>) w)"
  "same_order w (set_sel (\<lambda>se. se\<lparr>se_paused := b\<rparr>) w)" "same_order w (set_sel clear_power_holds w)"
  "same_order w (set_sel (\<lambda>se. (clear_power_holds se)\<lparr>se_manual := f\<rparr>) w)"
  "same_order w (begin_stop disable clear w)" "same_order w (begin_start w)" "same_order w (note_failure m w)"
  "same_order w ((set_sel (\<lambda>se. se\<lparr>se_automatic := b\<rparr>) w)\<lparr>bk_release := r\<rparr>)"
  "same_order w (begin_acquire w)" "same_order w (acquired w)" "same_order w (select_public vs p w)"
  "same_order w (select_manual v p w)" "same_order w (set_sel (\<lambda>se. se\<lparr>se_leases := l\<rparr>) w)"
  "same_order w (set_sel (\<lambda>se. se\<lparr>se_holds := h\<rparr>) w)"
  by (auto simp: same_order_def faulted_def set_sel_def clear_power_holds_def begin_stop_def begin_start_def
      note_failure_def begin_acquire_def acquired_def select_public_def select_manual_def)

lemma ordered_update: "(\<And>w. same_order w (f w)) \<Longrightarrow> ordered env (assign f)"
  by (rule ordered_assign)

subsection \<open>One vendor\<close>

lemma in_order_applied:
  assumes "in_order env {v} w" "helper_result r = Some x" "py_get x ''controls'' PNone = Inr c" "\<not> faulted w v"
    and "bk_applied w v \<noteq> None" "bk_calls w = calls @ [([WORKER, v, ''apply'', p], r)]"
  shows "in_order env {} (w\<lparr>bk_owned := (bk_owned w)(v := py_truthy c)\<rparr>)"
proof -
  have "owes v (bk_calls w) \<longrightarrow> py_truthy c"
    using assms(2, 3, 6) by (auto simp: owes_snoc owes_step_def owns_nothing_def py_get_def split: pyval.splits)
  then show ?thesis using assms(1, 4, 5)
    by (auto simp: in_order_def accounted_def settled_def faulted_def)
qed

lemma in_order_single: "in_order env {} w \<Longrightarrow> in_order env {v} w"
  by (rule in_order_mono) auto

lemma apply_wp:
  assumes "in_order env {} (sys_world s)" "\<not> faulted (sys_world s) v"
  shows "wpF (apply_vendor env v p)
     (\<lambda>_ t. in_order env {} (sys_world t) \<and> others v (sys_world s) (sys_world t))
     (\<lambda>e t. if is_exception e then in_order env {v} (sys_world t) \<and> others v (sys_world s) (sys_world t)
            else clean env (sys_world t)) s"
proof -
  let ?args = "[WORKER, v, ''apply'', p]"
  note w1 = in_order_call(1) [OF in_order_single [OF assms(1)], of ?args v]
  note w2 = in_order_call(2) [OF in_order_single [OF assms(1)], of ?args v]
  have o: "others v (sys_world s) (record_call ?args r (sys_world s))"
    "others v (sys_world s) ((record_call ?args r (sys_world s))\<lparr>bk_unknown := True\<rparr>)" for r
    by (simp_all add: others_def settled_def)
  show ?thesis unfolding apply_vendor_def wpF_bind [of "call_worker _ _ _ _"]
  proof (rule call_worker_wp, goal_cases)
    case (1 r x t)
    let ?w = "record_call ?args r (sys_world s)"
    let ?u = "?w\<lparr>bk_details := dset v x (bk_details ?w), bk_applied := (bk_applied ?w)(v := Some p)\<rparr>"
    have u: "in_order env {v} ?u" using w1 by (auto simp: in_order_def accounted_def settled_def faulted_def)
    have "in_order env {} (?u\<lparr>bk_owned := (bk_owned ?u)(v := py_truthy c)\<rparr>)" if "py_get x ''controls'' PNone = Inr c" for c
      by (rule in_order_applied [OF u 1(1) that, of "bk_calls (sys_world s)" p]) (use assms(2) in \<open>simp_all add: faulted_def\<close>)
    then show ?case using 1(2) u in_order_clean [OF u]
      by (auto simp: wp others_def settled_def split: sum.split)
  next
    case (2 e t)
    then show ?case using in_order_single [OF assms(1)] in_order_clean [OF assms(1)] by (simp add: others_def)
  next
    case (3 e r t)
    then show ?case using w1 in_order_clean [OF w1] o by simp
  next
    case (4 e r t)
    then show ?case using w2 in_order_clean [OF w2] o by simp
  qed
qed

lemma health_keeps: "ordered env (check_health env v)"
  unfolding check_health_def call_worker_def
  by (intro order_rules keeps_plain_call) (simp_all add: HANDOVER_def)

text \<open>A health check changes nothing but the history.\<close>

definition same_books :: "broker \<Rightarrow> broker \<Rightarrow> bool" where
  "same_books v w \<longleftrightarrow> bk_owned w = bk_owned v \<and> bk_pending w = bk_pending v \<and> bk_sel w = bk_sel v
     \<and> bk_applied w = bk_applied v \<and> bk_release w = bk_release v"

interpretation books: broker_rel same_books "\<lambda>_ _. True"
proof (unfold_locales, goal_cases)
  case (5 v w)
  then show ?case unfolding same_books_def by (simp add: store_rest_broker [OF 5])
qed (auto simp: same_books_def)

lemma child_books: "keeps same_books (\<lambda>_ _. True) (run_child env args)"
  by (rule keepsI, rule child_wp) (simp_all add: same_books_def record_call_def)

lemma health_books: "keeps same_books (\<lambda>_ _. True) (check_health env v)"
  unfolding check_health_def call_worker_def by (intro books.keeps_rules child_books)

lemma health_wp:
  assumes "in_order env {} (sys_world s)"
  shows "wpF (check_health env v)
     (\<lambda>_ t. in_order env {} (sys_world t) \<and> same_books (sys_world s) (sys_world t))
     (\<lambda>e t. if is_exception e then in_order env {} (sys_world t) \<and> same_books (sys_world s) (sys_world t)
            else clean env (sys_world t)) s"
  by (rule wpF_mono [OF wpF_conj [OF keepsD [OF health_keeps] keepsD [OF health_books]]])
    (use assms in \<open>auto simp: order_rel_def clean_rel_def split: if_splits\<close>)

lemma same_books_simps:
  assumes "same_books v w"
  shows "settled w u = settled v u" "faulted w u = faulted v u" "bk_owned w = bk_owned v"
    "bk_applied w = bk_applied v" "bk_pending w = bk_pending v" "others u' v w"
  using assms by (simp_all add: same_books_def settled_def faulted_def others_def)

lemma others_trans: "others v w w' \<Longrightarrow> others v w' w'' \<Longrightarrow> others v w w''"
  by (simp add: others_def)

lemma restored_faulted: "restored v w w' \<Longrightarrow> faulted w' u = faulted w u"
  by (simp add: restored_def faulted_def)

lemma replace_wp:
  assumes "in_order env {} (sys_world s)" "\<not> faulted (sys_world s) v" "want = None \<Longrightarrow> restoring \<or> settled (sys_world s) v"
  shows "wpF (seqF (whenF restoring (restore_vendor env v)) (case want of None \<Rightarrow> retF () | Some p \<Rightarrow> apply_vendor env v p))
     (\<lambda>_ t. in_order env {} (sys_world t) \<and> others v (sys_world s) (sys_world t) \<and> (want = None \<longrightarrow> settled (sys_world t) v))
     (\<lambda>e t. if is_exception e then in_order env {v} (sys_world t) \<and> others v (sys_world s) (sys_world t)
            else clean env (sys_world t)) s"
proof -
  have rest: "wpF (case want of None \<Rightarrow> retF () | Some p \<Rightarrow> apply_vendor env v p)
     (\<lambda>_ t. in_order env {} (sys_world t) \<and> others v (sys_world s) (sys_world t) \<and> (want = None \<longrightarrow> settled (sys_world t) v))
     (\<lambda>e t. if is_exception e then in_order env {v} (sys_world t) \<and> others v (sys_world s) (sys_world t)
            else clean env (sys_world t)) t"
    if "in_order env {} (sys_world t)" "\<not> faulted (sys_world t) v" "others v (sys_world s) (sys_world t)"
      "want = None \<Longrightarrow> settled (sys_world t) v" for t
  proof (cases want)
    case (Some p)
    then show ?thesis
      by (simp, intro wpF_mono [OF apply_wp [OF that(1, 2)]])
        (use that in \<open>auto intro: others_trans split: if_splits\<close>)
  qed (use that in \<open>simp add: wp\<close>)
  have restore: "wpF (restore_vendor env v)
     (\<lambda>_ t. in_order env {} (sys_world t) \<and> \<not> faulted (sys_world t) v \<and> touched v (sys_world s) (sys_world t))
     (\<lambda>e t. if is_exception e then in_order env {v} (sys_world t) \<and> others v (sys_world s) (sys_world t)
            else clean env (sys_world t)) s"
    by (rule wpF_mono [OF restore_wp [OF assms(1)]])
      (use assms(2) in \<open>auto simp: restored_touched restored_faulted others_def same_hold_settled intro: in_order_single
        split: if_splits\<close>)
  show ?thesis
  proof (cases restoring)
    case True
    then show ?thesis unfolding wpF_seq wpF_when if_True
      by (simp only: if_True) (rule wpF_mono [OF restore], rule rest; simp add: touched_def)
  next
    case False
    then show ?thesis unfolding wpF_seq wpF_when using rest [of s] assms by (simp add: others_def)
  qed
qed

lemma steer_wp:
  assumes "in_order env {} (sys_world s)" "\<not> faulted (sys_world s) v"
  shows "wpF (steer_vendor env health want v)
     (\<lambda>_ t. in_order env {} (sys_world t) \<and> others v (sys_world s) (sys_world t) \<and> (want = None \<longrightarrow> settled (sys_world t) v))
     (\<lambda>e t. if is_exception e then in_order env {v} (sys_world t) \<and> others v (sys_world s) (sys_world t)
            else clean env (sys_world t)) s"
proof -
  let ?a = "bk_applied (sys_world s) v" and ?o = "bk_owned (sys_world s) v"
  let ?rest = "whenF (want \<noteq> ?a) (seqF (whenF (?a \<noteq> None \<or> ?o) (restore_vendor env v))
      (case want of None \<Rightarrow> retF () | Some p \<Rightarrow> apply_vendor env v p))"
  have owned: "?o \<Longrightarrow> ?a \<noteq> None" using assms(1) by (auto simp: in_order_def)
  have rest: "wpF ?rest
     (\<lambda>_ t. in_order env {} (sys_world t) \<and> others v (sys_world s) (sys_world t) \<and> (want = None \<longrightarrow> settled (sys_world t) v))
     (\<lambda>e t. if is_exception e then in_order env {v} (sys_world t) \<and> others v (sys_world s) (sys_world t)
            else clean env (sys_world t)) t"
    if t: "in_order env {} (sys_world t)" "same_books (sys_world s) (sys_world t)" for t
  proof (cases "want = ?a")
    case True
    then show ?thesis using t owned by (auto simp: wp same_books_simps [OF t(2)] settled_def)
  next
    case False
    have "wpF (seqF (whenF (?a \<noteq> None \<or> ?o) (restore_vendor env v))
        (case want of None \<Rightarrow> retF () | Some p \<Rightarrow> apply_vendor env v p))
     (\<lambda>_ u. in_order env {} (sys_world u) \<and> others v (sys_world t) (sys_world u) \<and> (want = None \<longrightarrow> settled (sys_world u) v))
     (\<lambda>e u. if is_exception e then in_order env {v} (sys_world u) \<and> others v (sys_world t) (sys_world u)
            else clean env (sys_world u)) t"
      by (rule replace_wp) (use t False assms(2) in \<open>auto simp: same_books_simps [OF t(2)]\<close>)
    then show ?thesis using False
      by (simp add: wpF_when, elim wpF_mono)
        (auto intro: others_trans [OF same_books_simps(6) [OF t(2)]] split: if_splits)
  qed
  have health: "wpF (whenF c (check_health env v))
     (\<lambda>_ t. in_order env {} (sys_world t) \<and> same_books (sys_world s) (sys_world t))
     (\<lambda>e t. if is_exception e then in_order env {v} (sys_world t) \<and> others v (sys_world s) (sys_world t)
            else clean env (sys_world t)) s" for c
    unfolding wpF_when
    by (auto intro!: wpF_mono [OF health_wp [OF assms(1)]] split: if_splits)
      (use assms(1) in \<open>auto simp: same_books_simps(6) same_books_def intro: in_order_single\<close>)
  show ?thesis
    unfolding steer_vendor_def wpF_bind wpF_look prod.case wpF_seq
    by (rule wpF_mono [OF health], elim conjE, rule rest, assumption+)
qed

lemma reconcile_vendor_wp:
  assumes "in_order env {} (sys_world s)" "v \<in> set (vendors_of env)"
  shows "wpF (reconcile_vendor env health active idle v)
     (\<lambda>_ t. in_order env {} (sys_world t) \<and> others v (sys_world s) (sys_world t)
        \<and> (wanted v active idle (sys_world s) = None \<longrightarrow> settled (sys_world t) v))
     (\<lambda>e t. if is_exception e then in_order env {} (sys_world t) else clean env (sys_world t)) s"
proof (cases "faulted (sys_world s) v")
  case True
  then have "settled (sys_world s) v" using assms by (auto simp: in_order_def)
  then show ?thesis using assms(1) True by (simp add: reconcile_vendor_def wp others_def faulted_def)
next
  case False
  let ?want = "wanted v active idle (sys_world s)"
  have handler: "wpF (fault_vendor env v e)
     (\<lambda>_ t. in_order env {} (sys_world t) \<and> others v (sys_world s) (sys_world t) \<and> (?want = None \<longrightarrow> settled (sys_world t) v))
     (\<lambda>e t. if is_exception e then in_order env {} (sys_world t) else clean env (sys_world t)) t"
    if "in_order env {v} (sys_world t) \<and> others v (sys_world s) (sys_world t)" for e t
    by (rule wpF_mono [OF fault_wp [OF conjunct1 [OF that]]])
      (use that in \<open>auto simp: touched_def intro: others_trans split: if_splits\<close>)
  have "wpF (catchF (steer_vendor env health ?want v) is_exception (fault_vendor env v))
     (\<lambda>_ t. in_order env {} (sys_world t) \<and> others v (sys_world s) (sys_world t) \<and> (?want = None \<longrightarrow> settled (sys_world t) v))
     (\<lambda>e t. if is_exception e then in_order env {} (sys_world t) else clean env (sys_world t)) s"
    unfolding wpF_catch
  proof (rule wpF_mono [OF steer_wp [OF assms(1) False]], assumption)
    fix e and t :: "broker sys"
    assume "if is_exception e then in_order env {v} (sys_world t) \<and> others v (sys_world s) (sys_world t)
      else clean env (sys_world t)"
    then show "if e \<noteq> Killed \<and> is_exception e
        then wpF (fault_vendor env v e)
     (\<lambda>_ t. in_order env {} (sys_world t) \<and> others v (sys_world s) (sys_world t) \<and> (?want = None \<longrightarrow> settled (sys_world t) v))
     (\<lambda>e t. if is_exception e then in_order env {} (sys_world t) else clean env (sys_world t)) t
        else if is_exception e then in_order env {} (sys_world t) else clean env (sys_world t)"
      using handler [of t e] by (cases "is_exception e") (simp_all add: is_exception_not_killed)
  qed
  then show ?thesis using False by (simp add: reconcile_vendor_def wpF_bind wpF_look faulted_def)
qed

lemma reconcile_vendor_ordered: "v \<in> set (vendors_of env) \<Longrightarrow> ordered env (reconcile_vendor env health active idle v)"
  by (rule keeps_good, unfold good_def, rule wpF_mono [OF reconcile_vendor_wp]) auto

lemma release_all_good:
  assumes "in_order env {} (sys_world s)"
  shows "good env {} (\<lambda>_ w. \<forall>v \<in> set vs. settled w v) (forF (release_vendor env) vs) s"
  unfolding good_def by (rule wpF_mono [OF release_all_wp [OF assms]]) auto

lemma release_all_ordered: "ordered env (forF (release_vendor env) vs)"
  by (rule keeps_good) (auto intro: good_weaken release_all_good)

subsection \<open>The policy changes hands\<close>

lemma policy_wp:
  assumes "in_order env {} (sys_world s)"
    and "\<And>v. v \<in> set (vendors_of env) \<Longrightarrow> \<not> bk_unknown (sys_world s) \<Longrightarrow> \<not> owes v (bk_calls (sys_world s))"
  shows "good env {} (\<lambda>_ _. True) (call_policy env action) s"
proof -
  have "good env {} (\<lambda>_ _. True) (run_child env [POLICY, action]) s"
    by (rule child_good) (use assms in auto)
  then have "good env {} (\<lambda>_ _. True) (bindF (run_child env [POLICY, action]) (\<lambda>r. seqF (assign (\<lambda>w. w\<lparr>bk_policy := r\<rparr>)) (retF r))) s"
    by (rule good_bind) (auto simp: good_def wp elim: in_order_same [rotated])
  then show ?thesis
    using assms(1) in_order_clean [OF assms(1)] by (simp add: call_policy_def good_def wpF_seq [of "assertF _ _"] wpF_assert)
qed

lemma policy_free:
  assumes "in_order env {} (sys_world s)" "nothing_held (vendors_of env) (sys_world s)"
  shows "good env {} (\<lambda>_ _. True) (call_policy env action) s"
  by (rule policy_wp [OF assms(1)]) (use assms in \<open>auto simp: nothing_held_def in_order_def accounted_def list_ex_iff\<close>)

lemma policy_ordered: "action \<notin> set HANDOVER \<Longrightarrow> ordered env (call_policy env action)"
  unfolding call_policy_def by (intro order_rules keeps_plain_call ordered_update) auto

lemma status_action [simp]: "''status'' \<notin> set HANDOVER" "''activate'' \<notin> set HANDOVER"
  by (simp_all add: HANDOVER_def)

lemma restore_ordered: "ordered env (restore_vendor env v)"
  by (rule keeps_good, unfold good_def, rule wpF_mono [OF restore_wp]) auto

lemma settled_free:
  "\<forall>v \<in> set (vendors_of env). settled w v \<Longrightarrow> bk_pending w = [] \<Longrightarrow> nothing_held (vendors_of env) w"
  by (auto simp: nothing_held_def settled_def list_ex_iff)

lemma hand_back_good:
  assumes "in_order env {} (sys_world s)" "nothing_held (vendors_of env) (sys_world s)"
  shows "good env {} (\<lambda>_ _. True) (hand_back env) s"
  unfolding hand_back_def
  by (intro good_catch good_look good_seq [OF policy_free] good_keeps ordered_update assms) simp_all

text \<open>A program that runs only when a look at the state allows it.\<close>

lemma good_when:
  "in_order env X (sys_world s) \<Longrightarrow> (b \<Longrightarrow> good env X (\<lambda>_ _. True) m s) \<Longrightarrow> good env X (\<lambda>_ _. True) (whenF b m) s"
  by (simp add: good_def wpF_when)

lemma ordered_guard:
  assumes "\<And>s. in_order env {} (sys_world s) \<Longrightarrow> P (sys_world s) \<Longrightarrow> good env {} (\<lambda>_ _. True) m s"
  shows "ordered env n \<Longrightarrow> ordered env (bindF (look P) (\<lambda>b. seqF (whenF b m) n))"
    and "ordered env (bindF (look P) (\<lambda>b. whenF b m))"
proof -
  show "ordered env (bindF (look P) (\<lambda>b. whenF b m))"
    by (rule keeps_good, rule good_look, assumption, rule good_when, assumption, rule assms)
  show "ordered env (bindF (look P) (\<lambda>b. seqF (whenF b m) n))" if "ordered env n"
    by (rule keeps_good, rule good_look, assumption, rule good_seq [OF good_when], assumption, rule assms)
      (simp_all add: good_keeps that)
qed

lemma stop_ordered: "ordered env (stop_tuning env disable clear)"
  unfolding stop_tuning_def
  by (intro order_rules(2) ordered_update release_all_ordered ordered_guard(1) hand_back_good ordered.keeps_save same_order_simps)

lemma unused_good:
  assumes "in_order env {} (sys_world s)"
  shows "good env {} (\<lambda>b w. b \<longrightarrow> nothing_held (vendors_of env) w)
     (andF (look (\<lambda>w. \<not> wants_tuning (vendors_of env) (bk_sel w)))
       (andF claimed (look (\<lambda>w. bk_release w = None \<and> nothing_held (vendors_of env) w)))) s"
  using assms in_order_clean [OF assms]
  by (simp add: good_def andF_def claimed_def wpF_bind wpF_look wpF_ret wpF_lift split: sum.split)

lemma settle_ordered: "ordered env (settle_policy env)"
proof -
  let ?m = "catchF (seqF (call_policy env ''stop'') (retF ())) is_exception
            (\<lambda>e. seqF (assign (\<lambda>w. w\<lparr>bk_release := Some ''stop'', bk_policy_error := take 8192 (exn_str e)\<rparr>))
                  (save_controls env))"
  have m: "good env {} (\<lambda>_ _. True) ?m s" if "in_order env {} (sys_world s)" "nothing_held (vendors_of env) (sys_world s)" for s
    by (rule good_catch [OF good_seq [OF policy_free [OF that]]];
        intro good_keeps ordered.keeps_ret ordered.keeps_seq ordered.keeps_save ordered_update; simp)
  have unused: "ordered env (bindF (andF (look (\<lambda>w. \<not> wants_tuning (vendors_of env) (bk_sel w)))
             (andF claimed (look (\<lambda>w. bk_release w = None \<and> nothing_held (vendors_of env) w)))) (\<lambda>unused. whenF unused ?m))"
    by (rule keeps_good, rule good_bind [OF unused_good], assumption, rule good_when, assumption, rule m) simp_all
  show ?thesis unfolding settle_policy_def
    by (rule ordered.keeps_bind, intro ordered.keeps_queries ordered.keeps_look, rule ordered.keeps_if)
      (rule stop_ordered, rule unused)
qed

lemma leave_ordered: "ordered env (leave_seat env active)"
  unfolding leave_seat_def by (intro order_rules ordered_update) simp_all

lemma reconcile_ordered: "ordered env (reconcile env health)"
  unfolding reconcile_def by (intro order_rules leave_ordered reconcile_vendor_ordered settle_ordered)

subsection \<open>Taking the policy over\<close>

lemma good_ordered_seq:
  "good env {} Q m s \<Longrightarrow> ordered env n \<Longrightarrow> good env {} (\<lambda>_ _. True) (seqF m n) s"
  by (erule good_seq) (rule good_keeps)

lemma good_ordered_catch:
  "good env {} (\<lambda>_ _. True) m s \<Longrightarrow> (\<And>e. ordered env (h e)) \<Longrightarrow> good env {} (\<lambda>_ _. True) (catchF m is_exception h) s"
  by (erule good_catch) (rule good_keeps)

lemma autostart_same: "keeps same_books (\<lambda>_ _. True) (autostart_enabled env)"
  by (rule books.keeps_autostart)

lemma activate_ordered: "ordered env (bindF (look (\<lambda>w. se_automatic (bk_sel w))) (\<lambda>a. whenF a (call_policy env ''activate'')))"
  by (intro order_rules policy_ordered) simp

lemma take_over_good:
  assumes "in_order env {} (sys_world s)" "nothing_held (vendors_of env) (sys_world s)"
  shows "good env {} (\<lambda>_ _. True) (take_over env action) s"
  unfolding take_over_def
  by (rule good_ordered_seq [OF policy_free [OF assms]])
    (intro ordered.keeps_seq ordered_update same_order_simps ordered.keeps_save reconcile_ordered activate_ordered)

lemma failed_start_ordered:
  "ordered env (seqF (stop_tuning env disable False) (seqF (assign (note_failure m)) (save_controls env)))"
  "ordered env (seqF (stop_tuning env disable False) (assign (note_failure m)))"
  by (intro ordered.keeps_seq stop_ordered ordered_update same_order_simps ordered.keeps_save)+

lemma release_then_ordered:
  assumes "\<And>s. in_order env {} (sys_world s) \<Longrightarrow> nothing_held (vendors_of env) (sys_world s) \<Longrightarrow> good env {} (\<lambda>_ _. True) m s"
  shows "ordered env (seqF (forF (release_vendor env) (vendors_of env)) (bindF (look (\<lambda>w. bk_pending w = [])) (\<lambda>c. whenF c m)))"
proof (rule keeps_good, rule good_seq [OF release_all_good], assumption)
  fix t :: "broker sys"
  assume t: "in_order env {} (sys_world t)" "\<forall>v \<in> set (vendors_of env). settled (sys_world t) v"
  show "good env {} (\<lambda>_ _. True) (bindF (look (\<lambda>w. bk_pending w = [])) (\<lambda>c. whenF c m)) t"
    by (rule good_look [OF t(1)], rule good_when [OF t(1)], rule assms [OF t(1)], rule settled_free [OF t(2)])
qed

lemma start_ordered: "ordered env (start_tuning env boot)"
proof -
  have main: "ordered env (seqF (assign begin_start) (seqF (save_controls env)
        (seqF (forF (release_vendor env) (vendors_of env))
        (bindF (look (\<lambda>w. bk_pending w = [])) (\<lambda>clean.
         whenF clean
           (catchF (take_over env action) is_exception
              (\<lambda>e. seqF (stop_tuning env disable False)
                   (seqF (assign (note_failure (exn_str e))) (save_controls env)))))))))" for action disable
    by (intro ordered.keeps_seq ordered_update same_order_simps ordered.keeps_save release_then_ordered
        good_ordered_catch take_over_good failed_start_ordered(1))
  show ?thesis unfolding start_tuning_def
    by (intro ordered.keeps_bind ordered.keeps_seq ordered.keeps_if ordered.keeps_queries ordered.keeps_look
        ordered.keeps_assert ordered.keeps_lift ordered.keeps_ret policy_ordered main) simp_all
qed

text \<open>Restoring every vendor without a failure leaves nothing owed.\<close>

lemma restore_all_good:
  assumes "in_order env {} (sys_world s)"
  shows "good env {} (\<lambda>_ w. \<forall>v \<in> set vs. \<not> owes v (bk_calls w)) (forF (restore_vendor env) vs) s"
proof -
  have "wpF (forF (restore_vendor env) vs)
     (\<lambda>_ t. in_order env {} (sys_world t) \<and> (\<forall>v \<in> set vs. \<not> owes v (bk_calls (sys_world t))))
     (\<lambda>e t. if is_exception e then in_order env {} (sys_world t) else clean env (sys_world t)) s"
  proof (rule wpF_for [where I = "\<lambda>ys t. in_order env {} (sys_world t) \<and> (\<forall>v \<in> set ys. \<not> owes v (bk_calls (sys_world t)))"])
    fix ys v zs and t :: "broker sys"
    assume I: "in_order env {} (sys_world t) \<and> (\<forall>v \<in> set ys. \<not> owes v (bk_calls (sys_world t)))"
    show "wpF (restore_vendor env v)
      (\<lambda>_ t. in_order env {} (sys_world t) \<and> (\<forall>v \<in> set (ys @ [v]). \<not> owes v (bk_calls (sys_world t))))
      (\<lambda>e t. if is_exception e then in_order env {} (sys_world t) else clean env (sys_world t)) t"
    proof (rule wpF_mono [OF restore_wp [OF conjunct1 [OF I]]], goal_cases)
      case (1 x u)
      then show ?case using I unfolding restored_def by auto
    qed (auto split: if_splits)
  qed (use assms in simp)
  then show ?thesis by (simp add: good_def)
qed

lemma acquire_ordered: "ordered env (acquire_policy env)"
  unfolding acquire_policy_def
  by (rule keeps_good, rule good_seq [OF restore_all_good], assumption, rule good_ordered_seq [OF policy_wp])
    (auto intro: ordered_update)

lemma abandon_ordered: "ordered env (abandon_acquire env e)"
  unfolding abandon_acquire_def by (rule failed_start_ordered)

lemma prepare_ordered: "ordered env (prepare_power_profile env)"
  unfolding prepare_power_profile_def
  by (intro order_rules policy_ordered status_action ordered_update same_order_simps acquire_ordered abandon_ordered)

lemma public_ordered: "ordered env (public_profile env p)"
  unfolding public_profile_def by (intro order_rules prepare_ordered ordered_update reconcile_ordered same_order_simps)

lemma finish_ordered: "ordered env (finish_action env)"
  unfolding finish_action_def by (intro order_rules reconcile_ordered)

lemma release_ordered: "ordered env (release_vendor env v)"
  by (rule keeps_good, unfold good_def, rule wpF_mono [OF release_wp]) auto

lemma choose_ordered: "ordered env (choose_manual env v p)"
  unfolding choose_manual_def by (intro order_rules ordered_update same_order_simps release_ordered finish_ordered)

lemma manual_ordered: "ordered env (manual_request env owner v p)"
  unfolding manual_request_def
  by (intro order_rules ordered_update same_order_simps acquire_ordered abandon_ordered choose_ordered)

lemma report_ordered: "ordered env (report_vendor env v)"
  unfolding report_vendor_def call_worker_def
  by (intro order_rules keeps_plain_call) (simp_all add: HANDOVER_def)

lemma action_ordered: "ordered env (broker_action env req uid)"
proof -
  have "ordered env (perform_action env action req)" for action
    unfolding perform_action_def broker_report_def set_paused_def
    by (intro order_rules report_ordered public_ordered start_ordered stop_ordered manual_ordered ordered_update
        same_order_simps finish_ordered release_ordered)
  moreover have "ordered env (refresh_policy env action)" for action
    unfolding refresh_policy_def by (intro order_rules policy_ordered ordered_update same_order_simps) simp
  ultimately show ?thesis unfolding broker_action_def Let_def by (intro order_rules)
qed

lemma shift_ordered: "ordered env (shift_lease v p d)"
proof (rule keeps_good)
  fix s :: "broker sys"
  assume s: "in_order env {} (sys_world s)"
  then show "good env {} (\<lambda>_ _. True) (shift_lease v p d) s"
    by (auto simp: good_def shift_lease_def change_lease_def Let_def wp set_sel_def
        intro: in_order_same [OF same_order_simps(19) [unfolded set_sel_def]])
qed

lemma open_ordered: "ordered env (open_session env uid req)"
proof -
  have hold: "ordered env (assign (set_sel (take_hold p)))" for p
    by (rule ordered_update) (simp add: take_hold_def same_order_def set_sel_def faulted_def)
  show ?thesis
    unfolding open_session_def open_hold_def open_lease_def grant_hold_def
    by (intro order_rules prepare_ordered hold shift_ordered reconcile_ordered action_ordered)
qed

lemma close_ordered: "ordered env (close_session env stopping l)"
proof -
  have "ordered env (release_lease l)"
    by (cases l) (auto simp: release_lease_def drop_hold_def same_order_def set_sel_def faulted_def
        intro: shift_ordered ordered_update)
  then show ?thesis unfolding close_session_def by (intro order_rules reconcile_ordered)
qed

end
