(* ===== verification/HwLedger.thy ===== *)
theory HwLedger
  imports HwBrokerFacts
begin

text \<open>
  The counters of the broker against the open connections: every application lease counts once while its
  connection lives, a power hold counts once while its connection lives and nobody cleared the holds.
\<close>

text \<open>What every operation but opening and closing a lease does to the counters.\<close>

definition ledger_rel :: "broker \<Rightarrow> broker \<Rightarrow> bool" where
  "ledger_rel v w \<longleftrightarrow> se_leases (bk_sel w) = se_leases (bk_sel v)
     \<and> (se_generation (bk_sel w) = se_generation (bk_sel v) \<and> se_holds (bk_sel w) = se_holds (bk_sel v)
        \<or> se_generation (bk_sel v) < se_generation (bk_sel w) \<and> se_holds (bk_sel w) = [])"

lemma ledger_rel_sel: "bk_sel w = bk_sel v \<Longrightarrow> ledger_rel v w"
  by (simp add: ledger_rel_def)

lemma store_rest_sel: "store_rest v = store_rest w \<Longrightarrow> bk_sel v = bk_sel w"
  by (cases v; cases w) (simp add: store_rest_def)

interpretation ledger: operations ledger_rel "\<lambda>_ _. True" env for env
proof (unfold_locales, goal_cases)
  case (2 u v w)
  then show ?case by (auto simp: ledger_rel_def)
next
  case (5 v w)
  show ?case by (rule ledger_rel_sel) (rule store_rest_sel [OF 5, symmetric])
qed (simp_all add: ledger_rel_def record_call_def note_fault_def set_sel_def clear_power_holds_def adopt_def
    select_manual_def select_public_def)

definition ledger_ok :: "lease list \<Rightarrow> selection \<Rightarrow> bool" where
  "ledger_ok ls se \<longleftrightarrow>
     (\<forall>v p. count_of (se_leases se) (v, p) = int (count_list ls (AppLease v p)))
     \<and> (\<forall>p. count_of (se_holds se) p = int (count_list ls (HoldLease p (se_generation se))))
     \<and> (\<forall>p g. HoldLease p g \<in> set ls \<longrightarrow> g \<le> se_generation se)"

lemma ledger_ok_rel:
  assumes "ledger_ok ls (bk_sel v)" "ledger_rel v w"
  shows "ledger_ok ls (bk_sel w)"
proof -
  have "count_list ls (HoldLease p g) = 0" if "se_generation (bk_sel v) < g" for p g
    using assms(1) that by (fastforce simp: ledger_ok_def count_list_0_iff)
  moreover have "g \<le> se_generation (bk_sel w)" if "HoldLease p g \<in> set ls" for p g
    using assms that unfolding ledger_ok_def ledger_rel_def by fastforce
  ultimately show ?thesis using assms by (auto simp: ledger_ok_def ledger_rel_def count_of_def)
qed

lemma count_of_set_count: "count_of (set_count k n c) j = (if j = k then n else count_of c j)"
proof (cases "n = 0")
  case True
  then show ?thesis by (induction c) (auto simp: set_count_def count_of_def)
qed (simp add: set_count_def count_of_def)

lemma count_of_dset: "count_of (dset k n c) j = (if j = k then n else count_of c j)"
  by (simp add: count_of_def)

lemma int_count_remove1:
  "x \<in> set xs \<Longrightarrow> int (count_list (remove1 x xs) y) = int (count_list xs y) - (if y = x then 1 else 0)"
  by (induction xs) (auto simp del: count_list_remove1)

lemma ledger_take_hold: "ledger_ok ls se \<Longrightarrow> ledger_ok (HoldLease p (se_generation se) # ls) (take_hold p se)"
  by (auto simp: ledger_ok_def take_hold_def count_of_dset)

lemma ledger_drop_hold:
  assumes "ledger_ok ls se" "HoldLease p g \<in> set ls"
  shows "ledger_ok (remove1 (HoldLease p g) ls) (drop_hold p g se)"
  using assms by (auto simp: ledger_ok_def drop_hold_def count_of_set_count int_count_remove1
      simp del: count_list_remove1 dest: set_remove1_subset [THEN subsetD])

lemma ledger_lease:
  assumes "ledger_ok ls se"
  shows "\<exists>se'. change_lease v p 1 se = Inr se' \<and> ledger_ok (AppLease v p # ls) se'"
    and "AppLease v p \<in> set ls \<Longrightarrow> \<exists>se'. change_lease v p (-1) se = Inr se' \<and> ledger_ok (remove1 (AppLease v p) ls) se'"
proof -
  have n: "count_of (se_leases se) (v, p) = int (count_list ls (AppLease v p))"
    using assms by (simp add: ledger_ok_def)
  show "\<exists>se'. change_lease v p 1 se = Inr se' \<and> ledger_ok (AppLease v p # ls) se'"
    using assms n by (auto simp: change_lease_def Let_def ledger_ok_def count_of_set_count)
  assume l: "AppLease v p \<in> set ls"
  then have "0 < count_list ls (AppLease v p)" by (metis count_list_0_iff neq0_conv)
  then have "change_lease v p (-1) se = Inr (se\<lparr>se_leases :=
      set_count (v, p) (int (count_list ls (AppLease v p)) - 1) (se_leases se)\<rparr>)"
    by (simp add: change_lease_def Let_def n)
  then show "\<exists>se'. change_lease v p (-1) se = Inr se' \<and> ledger_ok (remove1 (AppLease v p) ls) se'"
    using assms l by (auto simp: ledger_ok_def count_of_set_count int_count_remove1
        simp del: count_list_remove1 dest: set_remove1_subset [THEN subsetD])
qed

lemma shift_lease_wp:
  assumes "change_lease v p d (bk_sel (sys_world s)) = Inr se" "Q () (upd (set_sel (\<lambda>_. se)) s)"
  shows "wpF (shift_lease v p d) Q E s"
  using assms by (simp add: shift_lease_def wp)

text \<open>An operation between opening and closing leaves the ledger in order.\<close>

lemma ledger_wp:
  fixes s :: "broker sys"
  assumes "keeps ledger_rel (\<lambda>_ _. True) m" "ledger_ok ls (bk_sel (sys_world s))"
    and "\<And>x t. ledger_ok ls (bk_sel (sys_world t)) \<Longrightarrow> Q x t"
    and "\<And>e t. (is_exception e \<Longrightarrow> ledger_ok ls (bk_sel (sys_world t))) \<Longrightarrow> E e t"
  shows "wpF m Q E s"
  by (rule wpF_mono [OF keepsD [OF assms(1)]]) (use assms(2-4) ledger_ok_rel [OF assms(2)] in \<open>auto\<close>)

lemma attempt_wp:
  assumes "wpF m (\<lambda>x. Q (Inr x)) (\<lambda>e t. if is_exception e then Q (Inl e) t else E e t) s"
  shows "wpF (attempt m) Q E s"
  using assms unfolding attempt_def wpF_catch wpF_bind
  by (rule wpF_mono) (auto simp: wp is_exception_not_killed split: if_splits)

definition ledger_after :: "lease list \<Rightarrow> lease option \<times> pyval res \<Rightarrow> broker sys \<Rightarrow> bool" where
  "ledger_after ls r t \<longleftrightarrow> ledger_ok (case fst r of None \<Rightarrow> ls | Some x \<Rightarrow> x # ls) (bk_sel (sys_world t))"

lemma open_hold_ledger:
  assumes "ledger_ok ls (bk_sel (sys_world s))"
  shows "wpF (open_hold env uid p) (ledger_after ls) (\<lambda>_ _. True) s"
proof -
  let ?body = "attempt (seqF (reconcile env False) (bindF (has_faults env) (\<lambda>faulty.
     seqF (assertF (\<not> faulty) (TuningError ''power hold could not be applied; inspect hardware tuning status''))
       (broker_status env))))"
  have body: "keeps ledger_rel (\<lambda>_ _. True) ?body"
    by (intro ledger.keeps_rules ledger.keeps_queries ledger.keeps_reconcile)
  have after: "wpF (seqF (assign (set_sel (take_hold p))) (bindF (look (\<lambda>w. HoldLease p (se_generation (bk_sel w))))
      (\<lambda>lease. bindF ?body (\<lambda>r. retF (Some lease, r))))) (ledger_after ls) (\<lambda>_ _. True) t"
    if "ledger_ok ls (bk_sel (sys_world t))" for t
    unfolding wpF_seq [of "assign _"] wpF_assign wpF_bind wpF_look
    by (rule ledger_wp [OF body]) (use ledger_take_hold [OF that] in
        \<open>auto simp: set_sel_def take_hold_def ledger_after_def wp\<close>)
  show ?thesis unfolding open_hold_def wpF_bind
    by (rule ledger_wp [OF ledger.keeps_attempt [OF ledger.keeps_grant] assms])
      (auto simp: ledger_after_def wpF_ret intro: after split: sum.split)
qed

lemma open_lease_ledger:
  assumes "ledger_ok ls (bk_sel (sys_world s))"
  shows "wpF (open_lease env uid v p) (ledger_after ls) (\<lambda>_ _. True) s"
proof (cases "uid = bc_uid (be_config env)")
  case True
  obtain se where se: "change_lease v p 1 (bk_sel (sys_world s)) = Inr se" "ledger_ok (AppLease v p # ls) se"
    using ledger_lease(1) [OF assms] by blast
  have body: "keeps ledger_rel (\<lambda>_ _. True) (seqF (reconcile env False) (broker_status env))"
    by (intro ledger.keeps_rules ledger.keeps_queries ledger.keeps_reconcile)
  have "wpF (seqF (shift_lease v p 1) (seqF (reconcile env False) (broker_status env)))
      (\<lambda>_ t. ledger_ok (AppLease v p # ls) (bk_sel (sys_world t)))
      (\<lambda>e t. is_exception e \<longrightarrow> ledger_ok (AppLease v p # ls) (bk_sel (sys_world t))) s"
    unfolding wpF_seq [of "shift_lease v p 1"]
    by (rule shift_lease_wp [OF se(1)], rule ledger_wp [OF body]) (use se(2) in \<open>auto simp: set_sel_def\<close>)
  then show ?thesis using True unfolding open_lease_def
    by (simp add: wpF_bind) (rule attempt_wp, erule wpF_mono, auto simp: wp ledger_after_def)
next
  case False
  then show ?thesis using assms by (simp add: open_lease_def wp ledger_after_def)
qed

lemma open_session_ledger:
  assumes "ledger_ok ls (bk_sel (sys_world s))" "request_ok (vendors_of env) req"
  shows "wpF (open_session env uid req) (ledger_after ls) (\<lambda>_ _. True) s"
proof -
  have "wpF (bindF (attempt (broker_action env req uid)) (\<lambda>r. retF (None, r))) (ledger_after ls) (\<lambda>_ _. True) s"
    unfolding wpF_bind
    by (rule ledger_wp [OF ledger.keeps_attempt [OF ledger.keeps_action [OF assms(2)]] assms(1)])
      (auto simp: wpF_ret ledger_after_def)
  then show ?thesis unfolding open_session_def
    by (simp add: open_hold_ledger [OF assms(1)] open_lease_ledger [OF assms(1)])
qed

lemma release_lease_ledger:
  assumes "ledger_ok ls (bk_sel (sys_world s))" "l \<in> set ls"
  shows "wpF (release_lease l) (\<lambda>_ t. ledger_ok (remove1 l ls) (bk_sel (sys_world t))) (\<lambda>_ _. False) s"
proof (cases l)
  case (AppLease v p)
  obtain se where "change_lease v p (-1) (bk_sel (sys_world s)) = Inr se" "ledger_ok (remove1 l ls) se"
    using ledger_lease(2) [OF assms(1), of v p] assms(2) AppLease by blast
  then show ?thesis using AppLease by (simp add: release_lease_def shift_lease_wp set_sel_def)
next
  case (HoldLease p g)
  then show ?thesis using ledger_drop_hold [OF assms(1), of p g] assms(2)
    by (simp add: release_lease_def wp set_sel_def)
qed

lemma served_ledger: "served env ls s \<Longrightarrow> ledger_ok ls (bk_sel (sys_world s))"
proof (induction rule: served.induct)
  case (start script files active t)
  have "ledger_ok [] (bk_sel (fresh_broker env files active))"
    by (simp add: ledger_ok_def fresh_broker_def initial_selection_def count_of_def)
  then show ?case using keeps_run [OF ledger.keeps_initialize start] by (simp add: ledger_ok_rel)
next
  case (poll ls s t)
  then show ?case using keeps_run [OF ledger.keeps_reconcile poll(2)] by (simp add: ledger_ok_rel)
next
  case (request ls s doc req uid l reply t)
  from wpF_run [OF open_session_ledger [OF request.IH validate_request_ok [OF request(2)]] request(3)]
  show ?case by (simp add: ledger_after_def)
next
  case (closing ls s l stopping r t)
  have "wpF (close_session env stopping l) (\<lambda>_ t. ledger_ok (remove1 l ls) (bk_sel (sys_world t)))
      (\<lambda>e t. is_exception e \<longrightarrow> ledger_ok (remove1 l ls) (bk_sel (sys_world t))) s"
    unfolding close_session_def wpF_seq
    by (rule wpF_mono [OF release_lease_ledger [OF closing.IH closing(2)]], auto simp: wp,
        rule ledger_wp [OF ledger.keeps_reconcile], auto)
  from wpF_run [OF this closing(3)] closing(4, 5) show ?case
    by (cases r) (auto simp: is_exception_def)
qed

end
