(* ===== verification/HwBrokerGuarantees.thy ===== *)
theory HwBrokerGuarantees
  imports HwReconcile HwLedger
begin

text \<open>
  What the broker guarantees over its whole life: leases and counters agree, no vendor with tuned hardware
  is forgotten, the power policy changes hands only while no hardware is tuned, an absent user keeps
  nothing, and only what the arbitration allows is applied.
\<close>

subsection \<open>Initialisation\<close>

lemma in_order_all:
  "in_order env (set (vendors_of env)) v \<Longrightarrow> bk_calls w = bk_calls v \<Longrightarrow> bk_owned w = bk_owned v
    \<Longrightarrow> bk_applied w = bk_applied v \<Longrightarrow> in_order env (set (vendors_of env)) w"
  by (simp add: in_order_def)

lemma all_assign:
  assumes "\<And>w. bk_calls (f w) = bk_calls w \<and> bk_owned (f w) = bk_owned w \<and> bk_applied (f w) = bk_applied w"
  shows "keeps (order_rel env (set (vendors_of env))) (clean_rel env (set (vendors_of env))) (assign f)"
  by (rule ordered.keeps_assign) (use assms in \<open>auto simp: order_rel_def intro: in_order_all\<close>)

lemma load_all: "keeps (order_rel env (set (vendors_of env))) (clean_rel env (set (vendors_of env))) (load_controls env)"
  unfolding load_controls_def skip_op_def
  by (intro ordered.keeps_rules ordered.keeps_queries ordered.keeps_op all_assign)
    (simp_all add: order_rel_def adopt_def set_sel_def)

lemma status_all:
  "keeps (order_rel env (set (vendors_of env))) (clean_rel env (set (vendors_of env))) (call_policy env ''status'')"
  unfolding call_policy_def
  by (intro ordered.keeps_rules keeps_plain_call all_assign) (auto simp: HANDOVER_def)

lemma nothing_held_books: "same_books v w \<Longrightarrow> nothing_held vs w = nothing_held vs v"
  by (simp add: same_books_def nothing_held_def)

lemma autostart_good:
  assumes "in_order env {} (sys_world s)" "nothing_held (vendors_of env) (sys_world s)"
  shows "good env {} (\<lambda>_ w. nothing_held (vendors_of env) w) (autostart_enabled env) s"
  unfolding good_def
  by (rule wpF_mono [OF wpF_conj [OF keepsD [OF ordered.keeps_autostart] keepsD [OF autostart_same]]])
    (use assms in \<open>auto simp: order_rel_def clean_rel_def nothing_held_books split: if_splits\<close>)

lemma resume_automatic_good:
  assumes "in_order env {} (sys_world s)" "nothing_held (vendors_of env) (sys_world s)"
  shows "good env {} (\<lambda>_ _. True) (resume_automatic env) s"
  unfolding resume_automatic_def
  by (rule good_ordered_catch [OF good_bind [OF autostart_good [OF assms] good_ordered_seq [OF policy_free]]])
    (assumption | intro ordered.keeps_seq reconcile_ordered activate_ordered failed_start_ordered(2))+

lemma resume_manual_good:
  assumes "in_order env {} (sys_world s)" "nothing_held (vendors_of env) (sys_world s)"
  shows "good env {} (\<lambda>_ _. True) (resume_manual env) s"
  unfolding resume_manual_def
  by (rule good_look [OF assms(1)], rule good_ordered_seq [OF good_when [OF assms(1) policy_free [OF assms]] reconcile_ordered])

lemma initialize_good:
  assumes "in_order env (set (vendors_of env)) (sys_world s)"
  shows "wpF (initialize env) (\<lambda>_ t. in_order env {} (sys_world t)) (\<lambda>e t. clean env (sys_world t)) s"
proof -
  let ?X = "set (vendors_of env)"
  let ?resume = "bindF (look (\<lambda>w. (bk_release w, bk_pending w, bk_sel w))) (\<lambda>(release, pending, se).
        case release of
          Some r \<Rightarrow> stop_tuning env (r = ''disable'') False
        | None \<Rightarrow>
            if pending \<noteq> [] then retF ()
            else if se_automatic se then resume_automatic env
            else if list_ex (\<lambda>v. se_manual se v \<noteq> None) (vendors_of env) then resume_manual env
            else bindF claimed (\<lambda>c. whenF c (stop_tuning env False False)))"
  have resume: "good env {} (\<lambda>_ _. True) (seqF ?resume (save_controls env)) t"
    if t: "in_order env {} (sys_world t)" "\<forall>v \<in> ?X. settled (sys_world t) v" for t
  proof (rule good_ordered_seq [where Q = "\<lambda>_ _. True", OF good_look [OF t(1)]], goal_cases)
    case 1
    have stop: "good env {} (\<lambda>_ _. True) (stop_tuning env a b) t" for a b by (rule good_keeps [OF stop_ordered t(1)])
    have "good env {} (\<lambda>_ _. True) (bindF claimed (\<lambda>c. whenF c (stop_tuning env False False))) t"
      by (rule good_keeps [OF _ t(1)]) (intro ordered.keeps_rules ordered.keeps_queries stop_ordered)
    then show ?case
      using stop resume_automatic_good [OF t(1)] resume_manual_good [OF t(1)] settled_free [OF t(2)] t(1)
        good_keeps [OF ordered.keeps_ret [where x = "()"] t(1)]
      by (cases "bk_release (sys_world t)") simp_all
  qed (rule ordered.keeps_save)
  have first: "good env ?X (\<lambda>_ _. True) (load_controls env) s" by (rule good_keeps [OF load_all assms])
  have second: "keeps (order_rel env ?X) (clean_rel env ?X) (if b then retF ()
      else bindF (autostart_enabled env) (\<lambda>b. assign (set_sel (\<lambda>se. se\<lparr>se_automatic := b\<rparr>))))" for b
    by (intro ordered.keeps_rules ordered.keeps_queries all_assign) (simp add: set_sel_def)
  have weak: "(if is_exception e then in_order env Y (sys_world u) else clean env (sys_world u)) \<Longrightarrow> clean env (sys_world u)"
    for e Y and u :: "broker sys"
    by (auto split: if_splits intro: in_order_clean)
  have rest: "wpF (seqF (forF (release_vendor env) (vendors_of env)) (seqF ?resume (save_controls env)))
      (\<lambda>_ t. in_order env {} (sys_world t)) (\<lambda>e t. clean env (sys_world t)) t" if "in_order env ?X (sys_world t)" for t
    unfolding wpF_seq [of "forF _ _"]
    by (rule wpF_mono [OF release_all_wp [OF that]], rule wpF_mono [OF resume [unfolded good_def]])
      (auto dest: weak)
  show ?thesis
    unfolding initialize_def wpF_bind [of "load_controls env"]
  proof (rule wpF_mono [OF first [unfolded good_def]], goal_cases)
    case (1 b t)
    show ?case
      unfolding wpF_seq [of "call_policy env ''status''"]
    proof (rule wpF_mono [OF good_keeps [OF status_all conjunct1 [OF 1], unfolded good_def]], goal_cases)
      case (1 x u)
      show ?case
        unfolding wpF_seq [of "if b then retF () else bindF (autostart_enabled env) (\<lambda>b. assign (set_sel (\<lambda>se. se\<lparr>se_automatic := b\<rparr>)))"]
        by (rule wpF_mono [OF good_keeps [OF second conjunct1 [OF 1], unfolded good_def]]) (auto intro: rest dest: weak)
    qed (rule weak)
  qed (rule weak)
qed

lemma fresh_in_order: "in_order env (set (vendors_of env)) (fresh_broker env files active)"
  by (simp add: in_order_def fresh_broker_def handovers_clean_def)

lemma served_in_order: "served env ls s \<Longrightarrow> in_order env {} (sys_world s)"
proof (erule served_invariant [where R = "order_rel env {}" and W = "clean_rel env {}"], goal_cases)
  case (1 script files active t)
  from wpF_run [OF initialize_good 1] show ?case by (simp add: fresh_in_order)
qed (simp_all add: reconcile_ordered open_ordered close_ordered order_rel_def)

subsection \<open>Relations for the last two guarantees\<close>

text \<open>New calls are from a given set.\<close>

definition calls_in :: "string list set \<Rightarrow> broker \<Rightarrow> broker \<Rightarrow> bool" where
  "calls_in A v w \<longleftrightarrow> (\<exists>new. bk_calls w = bk_calls v @ new \<and> fst ` set new \<subseteq> A)"

lemma calls_in_same: "bk_calls w = bk_calls v \<Longrightarrow> calls_in A v w"
  by (simp add: calls_in_def)

lemma calls_in_trans: "calls_in A u v \<Longrightarrow> calls_in A v w \<Longrightarrow> calls_in A u w"
proof -
  assume "calls_in A u v" "calls_in A v w"
  then obtain a b where "bk_calls v = bk_calls u @ a" "fst ` set a \<subseteq> A" "bk_calls w = bk_calls v @ b" "fst ` set b \<subseteq> A"
    unfolding calls_in_def by blast
  then have "bk_calls w = bk_calls u @ (a @ b)" "fst ` set (a @ b) \<subseteq> A" by auto
  then show "calls_in A u w" unfolding calls_in_def by blast
qed

interpretation tracked: broker_rel "calls_in A" "calls_in A" for A
proof (unfold_locales, goal_cases)
  case (4 v w)
  show ?case by (rule calls_in_same) (rule store_rest_broker(4) [OF 4, symmetric])
qed (assumption | rule calls_in_same calls_in_trans | simp)+

lemma child_tracked: "args \<in> A \<Longrightarrow> keeps (calls_in A) (calls_in A) (run_child env args)"
  by (rule keepsI, rule child_wp) (auto simp: calls_in_def)

lemma tracked_assign: "(\<And>w. bk_calls (f w) = bk_calls w) \<Longrightarrow> keeps (calls_in A) (calls_in A) (assign f)"
  by (intro tracked.keeps_assign) (simp add: calls_in_same)

text \<open>Calls other than applications.\<close>

definition no_apply :: "string list set" where
  "no_apply = {args. \<forall>v p. args \<noteq> [WORKER, v, ''apply'', p]}"

lemma restore_tracked: "no_apply \<subseteq> A \<Longrightarrow> keeps (calls_in A) (calls_in A) (restore_vendor env v)"
  unfolding restore_vendor_def call_worker_def
  by (intro tracked.keeps_rules child_tracked tracked_assign) (auto simp: no_apply_def)

lemma fault_tracked: "no_apply \<subseteq> A \<Longrightarrow> keeps (calls_in A) (calls_in A) (fault_vendor env v e)"
  unfolding fault_vendor_def
  by (intro tracked.keeps_rules restore_tracked tracked_assign tracked.keeps_save) simp_all

lemma steer_tracked:
  assumes "no_apply \<subseteq> A" "\<And>p. want = Some p \<Longrightarrow> [WORKER, v, ''apply'', p] \<in> A"
  shows "keeps (calls_in A) (calls_in A) (steer_vendor env health want v)"
  unfolding steer_vendor_def check_health_def apply_vendor_def call_worker_def
  by (intro tracked.keeps_rules child_tracked tracked_assign restore_tracked assms(1))
    (use assms in \<open>auto simp: no_apply_def\<close>)

lemma policy_tracked: "no_apply \<subseteq> A \<Longrightarrow> keeps (calls_in A) (calls_in A) (call_policy env action)"
  unfolding call_policy_def by (intro tracked.keeps_rules child_tracked tracked_assign) (auto simp: no_apply_def)

lemma stop_tracked: "no_apply \<subseteq> A \<Longrightarrow> keeps (calls_in A) (calls_in A) (stop_tuning env disable clear)"
  unfolding stop_tuning_def release_vendor_def hand_back_def
  by (intro tracked.keeps_rules restore_tracked fault_tracked policy_tracked tracked_assign tracked.keeps_save)
    (simp_all add: begin_stop_def set_sel_def)

lemma settle_tracked: "no_apply \<subseteq> A \<Longrightarrow> keeps (calls_in A) (calls_in A) (settle_policy env)"
  unfolding settle_policy_def
  by (intro tracked.keeps_rules tracked.keeps_queries stop_tracked policy_tracked tracked_assign) simp_all

text \<open>The part of the selection that reconciling one vendor leaves alone.\<close>

definition core_rel :: "broker \<Rightarrow> broker \<Rightarrow> bool" where
  "core_rel v w \<longleftrightarrow> bk_release w = bk_release v \<and> (\<forall>u. faulted v u \<longrightarrow> faulted w u)
     \<and> bk_sel w = (bk_sel v)\<lparr>se_faults := se_faults (bk_sel w)\<rparr>"

interpretation core: broker_rel core_rel "\<lambda>_ _. True"
proof (unfold_locales, goal_cases)
  case (2 u v w)
  then show ?case unfolding core_rel_def by (metis selection.update_convs(6) selection.surjective)
next
  case (5 v w)
  show ?case unfolding core_rel_def faulted_def store_rest_broker [OF 5] by simp
qed (simp_all add: core_rel_def faulted_def)

lemma core_assign: "(\<And>w. bk_release (f w) = bk_release w \<and> bk_sel (f w) = bk_sel w) \<Longrightarrow> keeps core_rel (\<lambda>_ _. True) (assign f)"
  by (intro core.keeps_assign) (simp add: core_rel_def faulted_def)

lemma child_core: "keeps core_rel (\<lambda>_ _. True) (run_child env args)"
  by (rule keepsI, rule child_wp) (simp_all add: core_rel_def faulted_def)

lemma restore_core: "keeps core_rel (\<lambda>_ _. True) (restore_vendor env v)"
  unfolding restore_vendor_def call_worker_def by (intro core.keeps_rules child_core core_assign) simp

lemma fault_core: "keeps core_rel (\<lambda>_ _. True) (fault_vendor env v e)"
proof -
  have noted: "keeps core_rel (\<lambda>_ _. True) (assign (note_fault v m))" for m
    by (rule core.keeps_assign) (simp add: core_rel_def faulted_note, simp add: note_fault_def set_sel_def)
  have "keeps core_rel (\<lambda>_ _. True) (catchF (seqF (restore_vendor env v) (retF (exn_str e))) is_exception
        (\<lambda>r. seqF (assign (\<lambda>w. w\<lparr>bk_pending := List.insert v (bk_pending w)\<rparr>)) (retF (f r))))" for f :: "pyexn \<Rightarrow> string"
    by (intro core.keeps_rules restore_core core_assign) simp
  then show ?thesis unfolding fault_vendor_def by (rule core.keeps_bind) (rule core.keeps_seq [OF noted core.keeps_save])
qed

lemma steer_core: "keeps core_rel (\<lambda>_ _. True) (steer_vendor env health want v)"
  unfolding steer_vendor_def check_health_def apply_vendor_def call_worker_def
  by (intro core.keeps_rules child_core core_assign restore_core) simp_all

lemma desired_faults:
  assumes "desired (se\<lparr>se_faults := f\<rparr>) v active idle = Some p"
    and "v \<in> set (map fst (se_faults se)) \<Longrightarrow> v \<in> set (map fst f)"
  shows "desired se v active idle = Some p"
proof (cases "v \<in> set (map fst f)")
  case True
  then show ?thesis using assms(1) by (simp add: desired_def)
next
  case False
  then have "v \<notin> set (map fst (se_faults se))" using assms(2) by blast
  with False have "desired se v active idle = desired (se\<lparr>se_faults := f\<rparr>) v active idle"
    by (simp add: desired_def lease_candidates_def cong: if_cong)
  then show ?thesis using assms(1) by simp
qed

lemma wanted_core:
  assumes "core_rel v w" "wanted u active idle w = Some p"
  shows "wanted u active idle v = Some p"
proof -
  have rel: "bk_release w = bk_release v" "faulted v u \<Longrightarrow> faulted w u"
      "bk_sel w = (bk_sel v)\<lparr>se_faults := se_faults (bk_sel w)\<rparr>"
    using assms(1) unfolding core_rel_def by blast+
  from rel(3) obtain f where f: "bk_sel w = (bk_sel v)\<lparr>se_faults := f\<rparr>" by (rule that)
  have r: "bk_release w = bk_release v" by (rule rel(1))
  have m: "u \<in> set (map fst (se_faults (bk_sel v))) \<Longrightarrow> u \<in> set (map fst f)"
    using rel(2) by (simp add: faulted_def f)
  have free: "bk_release v = None" using assms(2) r by (simp add: wanted_def split: if_splits)
  have "desired (bk_sel w) u active idle = Some p" using assms(2) by (simp add: wanted_def split: if_splits)
  then have "desired ((bk_sel v)\<lparr>se_faults := f\<rparr>) u active idle = Some p" by (simp only: f)
  then have "desired (bk_sel v) u active idle = Some p" by (rule desired_faults) (rule m)
  then show ?thesis using free by (simp add: wanted_def)
qed

lemma tracked_cases:
  "keeps (calls_in A) (calls_in A) m \<Longrightarrow> wpF m (\<lambda>_ t. calls_in A (sys_world s) (sys_world t))
     (\<lambda>e t. calls_in A (sys_world s) (sys_world t)) s"
  by (drule keepsD [of _ _ _ s], erule wpF_mono) (simp_all split: if_splits)

lemma vendor_tracked:
  fixes s t :: "broker sys"
  assumes "no_apply \<subseteq> A" "\<And>p. wanted v active idle (sys_world s) = Some p \<Longrightarrow> [WORKER, v, ''apply'', p] \<in> A"
    and "core_rel (sys_world s) (sys_world t)" "calls_in A (sys_world s) (sys_world t)"
  shows "wpF (reconcile_vendor env health active idle v)
     (\<lambda>_ u. core_rel (sys_world s) (sys_world u) \<and> calls_in A (sys_world s) (sys_world u))
     (\<lambda>_ u. calls_in A (sys_world s) (sys_world u)) t"
proof (cases "faulted (sys_world t) v")
  case True
  then show ?thesis using assms(3, 4) by (simp add: reconcile_vendor_def faulted_def wpF_bind wpF_look wpF_ret)
next
  case False
  define want where "want = wanted v active idle (sys_world t)"
  let ?m = "catchF (steer_vendor env health want v) is_exception (fault_vendor env v)"
  have "[WORKER, v, ''apply'', p] \<in> A" if "want = Some p" for p
    using that wanted_core [OF assms(3)] assms(2) unfolding want_def by blast
  then have 1: "keeps (calls_in A) (calls_in A) ?m"
    by (intro tracked.keeps_catch steer_tracked fault_tracked assms(1))
  have 2: "keeps core_rel (\<lambda>_ _. True) ?m" by (intro core.keeps_catch steer_core fault_core)
  have "wpF ?m (\<lambda>_ u. core_rel (sys_world s) (sys_world u) \<and> calls_in A (sys_world s) (sys_world u))
     (\<lambda>_ u. calls_in A (sys_world s) (sys_world u)) t"
    by (rule wpF_mono [OF wpF_conj [OF keepsD [OF 2] tracked_cases [OF 1]]])
      (use core.rel_trans [OF assms(3)] calls_in_trans [OF assms(4)] in auto)
  then show ?thesis using False by (simp add: reconcile_vendor_def faulted_def wpF_bind wpF_look want_def)
qed

lemma idle_wp:
  "wpF (idle_profile env) (\<lambda>idle t. idle \<in> {bc_idle_ac (be_config env), bc_idle_battery (be_config env)}
       \<and> core_rel (sys_world s) (sys_world t) \<and> bk_calls (sys_world t) = bk_calls (sys_world s))
     (\<lambda>_ t. bk_calls (sys_world t) = bk_calls (sys_world s)) s"
  unfolding idle_profile_def ask_def
  by (simp add: wpF_bind wpF_seq wpF_look wpF_assign wpF_ret wpF_lift core_rel_def faulted_def split: sum.split)

lemma leave_tracked: "keeps (calls_in A) (calls_in A) (leave_seat env active)"
  unfolding leave_seat_def
  by (intro tracked.keeps_rules tracked.keeps_save tracked_assign) (simp_all add: set_sel_def)

lemma leave_core: "keeps core_rel (\<lambda>_ _. True) (leave_seat env True)"
  unfolding leave_seat_def
  by (intro core.keeps_rules core_assign) simp_all

lemma reconcile_tracked_wp:
  fixes env :: bk_env and s :: "broker sys"
  defines "active \<equiv> be_active env (bk_queries (sys_world s))"
  assumes A: "no_apply \<subseteq> A" "\<And>v p idle. idle \<in> {bc_idle_ac (be_config env), bc_idle_battery (be_config env)}
      \<Longrightarrow> wanted v active idle (sys_world s) = Some p \<Longrightarrow> [WORKER, v, ''apply'', p] \<in> A"
  shows "wpF (reconcile env health) (\<lambda>_ t. calls_in A (sys_world s) (sys_world t)) (\<lambda>_ t. calls_in A (sys_world s) (sys_world t)) s"
proof -
  let ?C = "\<lambda>t :: broker sys. calls_in A (sys_world s) (sys_world t)"
  let ?K = "\<lambda>t :: broker sys. \<forall>v idle p. wanted v active idle (sys_world t) = Some p \<longrightarrow> wanted v active idle (sys_world s) = Some p"
  have settle: "wpF (settle_policy env) (\<lambda>_. ?C) (\<lambda>_. ?C) t" if "?C t" for t
    by (rule wpF_mono [OF tracked_cases [OF settle_tracked [OF A(1)]]]) (use calls_in_trans [OF that] in auto)
  have loop: "wpF (forF (reconcile_vendor env health active idle) vs) (\<lambda>_. ?C) (\<lambda>_. ?C) t"
    if t: "?C t" "?K t" and idle: "idle \<in> {bc_idle_ac (be_config env), bc_idle_battery (be_config env)}" for t idle vs
  proof (rule wpF_mono [OF wpF_for [where E = "\<lambda>_ u. calls_in A (sys_world t) (sys_world u)"
        and I = "\<lambda>_ u. core_rel (sys_world t) (sys_world u) \<and> calls_in A (sys_world t) (sys_world u)"]])
    fix ys v zs and u :: "broker sys"
    assume I: "core_rel (sys_world t) (sys_world u) \<and> calls_in A (sys_world t) (sys_world u)"
    show "wpF (reconcile_vendor env health active idle v)
       (\<lambda>_ u. core_rel (sys_world t) (sys_world u) \<and> calls_in A (sys_world t) (sys_world u))
       (\<lambda>_ u. calls_in A (sys_world t) (sys_world u)) u"
      by (rule vendor_tracked [OF A(1)]) (use I t(2) A(2) [OF idle] in auto)
  qed (use calls_in_trans [OF t(1)] in \<open>auto simp: core.rel_refl tracked.rel_refl\<close>)
  have leave: "wpF (leave_seat env active) (\<lambda>_ u. ?C u \<and> ?K u) (\<lambda>_. ?C) t" if t: "?C t" "core_rel (sys_world s) (sys_world t)" for t
  proof (cases active)
    case True
    then have core: "keeps core_rel (\<lambda>_ _. True) (leave_seat env active)" by (simp add: leave_core)
    show ?thesis
      by (rule wpF_mono [OF wpF_conj [OF keepsD [OF core] tracked_cases [OF leave_tracked]]])
        (use calls_in_trans [OF t(1)] wanted_core [OF core.rel_trans [OF t(2)]] in auto)
  next
    case False
    then show ?thesis
      by (intro wpF_mono [OF tracked_cases [OF leave_tracked]])
        (use calls_in_trans [OF t(1)] in \<open>auto simp: wanted_def desired_def\<close>)
  qed
  let ?idle = "\<lambda>active. bindF (idle_profile env) (\<lambda>idle.
      seqF (forF (reconcile_vendor env health active idle) (vendors_of env)) (settle_policy env))"
  have profiled: "wpF (?idle active) (\<lambda>_. ?C) (\<lambda>_. ?C) t" if t: "?C t" "?K t" for t
    unfolding wpF_bind [of "idle_profile env"]
  proof (rule wpF_mono [OF idle_wp], goal_cases)
    case (1 idle u)
    have "?C u" by (rule calls_in_trans [OF t(1)]) (use 1 in \<open>simp add: calls_in_same\<close>)
    moreover have "?K u" using t(2) wanted_core [of "sys_world t" "sys_world u"] 1 by blast
    ultimately show ?case
      unfolding wpF_seq [of "forF _ _"] using 1 by (intro wpF_mono [OF loop settle]) auto
  next
    case (2 e u)
    show ?case by (rule calls_in_trans [OF t(1)]) (use 2 in \<open>simp add: calls_in_same\<close>)
  qed
  let ?s = "upd (\<lambda>w. w\<lparr>bk_queries := Suc (bk_queries w)\<rparr>) s"
  have "wpF (seqF (leave_seat env active) (?idle active)) (\<lambda>_. ?C) (\<lambda>_. ?C) ?s"
    unfolding wpF_seq [of "leave_seat env active"]
    by (rule wpF_mono [OF leave profiled]) (auto simp: calls_in_same core_rel_def faulted_def)
  then show ?thesis
    unfolding reconcile_def seat_active_def ask_def
    by (simp add: wpF_bind [of "look _"] wpF_bind [of "bindF _ _"] wpF_look wpF_seq [of "assign _"] wpF_assign wpF_ret active_def)
qed

end
