(* ===== verification/HwBrokerSafety.thy ===== *)
theory HwBrokerSafety
  imports HwBrokerGuarantees
begin

text \<open>
  The guarantees of the broker as properties of its states and of the history of its helper calls, each
  instantiated on a concrete broker with one vendor.
\<close>

subsection \<open>A concrete broker\<close>

definition demo_config :: bconfig where
  "demo_config = \<lparr>bc_uid = 1000, bc_vendors = [''intel''], bc_poll = 30, bc_idle_ac = ''balanced'',
     bc_idle_battery = ''silent'', bc_api = True\<rparr>"

definition demo_helper :: "nat \<Rightarrow> string list \<Rightarrow> helper_end" where
  "demo_helper n args =
     Finished 0 (Some (PDict [(''ok'', PBool True), (''result'',
       if take 1 args = [POLICY]
       then PDict [(''claimed'', PBool True), (''autostart_unit'', PDict [(''file'', PStr ''enabled'')])]
       else if take 3 args = [WORKER, ''intel'', ''apply'']
       then PDict [(''controls'', PDict [(''cpu/epp'', PInt 1)])] else PDict [])])) []"

text \<open>The seat is active for the first questions only: then the user is gone.\<close>

definition demo_env :: "nat \<Rightarrow> bk_env" where
  "demo_env n = \<lparr>be_size = (\<lambda>_. 0), be_config = demo_config, be_active = (\<lambda>q. q < n), be_devices = (\<lambda>_. []),
     be_attrs = (\<lambda>_ _. None), be_autostart = (\<lambda>_. Inr True), be_helper = demo_helper\<rparr>"

definition demo_start :: "broker sys" where
  "demo_start = \<lparr>sys_step = 0, sys_script = (\<lambda>_. Fine), sys_world = fresh_broker (demo_env 1) (\<lambda>_. None) True\<rparr>"

definition demo_started :: "broker sys" where
  "demo_started = snd (initialize (demo_env 1) demo_start)"

lemma broker_demo_runs: "fst (initialize (demo_env 1) demo_start) = Inr ()"
  by code_simp

lemma demo_served: "served (demo_env 1) [] demo_started"
  unfolding demo_started_def
  by (rule served.start [of _ "\<lambda>_. Fine" "\<lambda>_. None" True])
    (simp only: demo_start_def [symmetric] broker_demo_runs [symmetric] prod.collapse)

lemma demo_history:
  "map fst (bk_calls (sys_world demo_started)) = [[POLICY, ''status''], [WORKER, ''intel'', ''reset''],
     [POLICY, ''prepare-boot''], [WORKER, ''intel'', ''apply'', ''balanced''], [POLICY, ''activate'']]
   \<and> bk_owned (sys_world demo_started) ''intel'' \<and> owes ''intel'' (bk_calls (sys_world demo_started))"
  by code_simp

subsection \<open>The policy changes hands\<close>

lemma start_is_fresh:
  "in_order env (set (vendors_of env)) (sys_world \<lparr>sys_step = 0, sys_script = script, sys_world = fresh_broker env files active\<rparr>)"
  by (simp add: fresh_in_order)

text \<open>C9 (the power policy changes hands only while no hardware is tuned): in every state that a broker can
  reach, or be cut off in, each request to the policy owner to take the policy over or to hand it back was
  made at a time when every installed vendor had been reset successfully since its last application that
  left controls to restore, whatever the helpers answered and wherever a step failed.\<close>

theorem handover_only_when_free:
  assumes "visited env w"
  shows "handovers_clean (vendors_of env) (bk_calls w)"
proof -
  have cut: "clean env (sys_world t)"
    if "served env ls s" "ordered env m" "m s = (r, t)" for ls s t r and m :: "'b bk_io"
    using keeps_cut [OF that(2, 3)] served_in_order [OF that(1)] in_order_clean
    by (auto simp: clean_rel_def order_rel_def)
  from assms have "clean env w"
  proof cases
    case (starting script files active r t)
    from wpF_run [OF initialize_good [OF start_is_fresh] starting(2)] show ?thesis
      by (auto simp: starting(1) intro: in_order_clean split: sum.splits)
  next
    case (polling ls s r t)
    then show ?thesis using cut [OF _ reconcile_ordered] by blast
  next
    case (answering ls s doc req uid r t)
    then show ?thesis using cut [OF _ open_ordered] by blast
  next
    case (ending ls s stopping l r t)
    then show ?thesis using cut [OF _ close_ordered] by blast
  qed
  then show ?thesis by (simp add: clean_def)
qed

lemma demo_visited: "visited (demo_env 1) (sys_world demo_started)"
  unfolding demo_started_def
  by (rule visited.starting [of _ "\<lambda>_. Fine" "\<lambda>_. None" True "fst (initialize (demo_env 1) demo_start)"])
    (simp only: demo_start_def [symmetric] prod.collapse)

lemma demo_vendors: "vendors_of (demo_env n) = [''intel'']"
  by (simp add: vendors_of_def demo_env_def demo_config_def)

theorem handover_only_when_free_witness:
  "handovers_clean [''intel''] (bk_calls (sys_world demo_started))
     \<and> [POLICY, ''prepare-boot''] \<in> set (map fst (bk_calls (sys_world demo_started)))"
  using handover_only_when_free [OF demo_visited] demo_history by (simp only: demo_vendors) simp

subsection \<open>No vendor is forgotten\<close>

text \<open>C10 (no tuned vendor is forgotten): between two operations, a vendor whose hardware may still hold tuned
  values, as the history of the worker calls shows, is one that the broker knows to own controls, or to have
  a recovery pending, or else the broker is blocked because the outcome of a helper is unknown.\<close>

theorem no_vendor_forgotten:
  assumes "served env ls s" "v \<in> set (vendors_of env)" "owes v (bk_calls (sys_world s))"
  shows "bk_owned (sys_world s) v \<or> v \<in> set (bk_pending (sys_world s)) \<or> bk_unknown (sys_world s)"
  using served_in_order [OF assms(1)] assms(2, 3) by (auto simp: in_order_def accounted_def)

theorem no_vendor_forgotten_witness:
  "owes ''intel'' (bk_calls (sys_world demo_started))
     \<and> (bk_owned (sys_world demo_started) ''intel'' \<or> ''intel'' \<in> set (bk_pending (sys_world demo_started))
        \<or> bk_unknown (sys_world demo_started))"
  using no_vendor_forgotten [OF demo_served, of "''intel''"] demo_history by (simp add: demo_vendors)

subsection \<open>Leases\<close>

text \<open>C35 (leases and holds are balanced): between two operations the lease counters are exactly the open
  application leases, and the hold counters exactly the open power holds of the current generation. Releasing
  any open one, which is what closing its connection does first, does not fail and leaves the counters exact
  for the others; the reconciliation that follows is not part of this.\<close>

theorem leases_balanced:
  assumes "served env ls s"
  shows "ledger_ok ls (bk_sel (sys_world s))
    \<and> (l \<in> set ls \<longrightarrow> (\<exists>t. release_lease l s = (Inr (), t) \<and> ledger_ok (remove1 l ls) (bk_sel (sys_world t))))"
proof (intro conjI impI)
  show ok: "ledger_ok ls (bk_sel (sys_world s))" by (rule served_ledger [OF assms])
  assume "l \<in> set ls"
  from release_lease_ledger [OF ok this]
  show "\<exists>t. release_lease l s = (Inr (), t) \<and> ledger_ok (remove1 l ls) (bk_sel (sys_world t))"
    by (auto simp: wpF_def split: prod.splits sum.splits)
qed

subsection \<open>An absent user keeps nothing\<close>

definition settled_rel :: "broker \<Rightarrow> broker \<Rightarrow> bool" where
  "settled_rel v w \<longleftrightarrow> (\<forall>u. settled v u \<longrightarrow> settled w u)"

interpretation settling: broker_rel settled_rel "\<lambda>_ _. True"
proof (unfold_locales, goal_cases)
  case (5 v w)
  show ?case unfolding settled_rel_def settled_def by (simp add: store_rest_broker [OF 5])
qed (auto simp: settled_rel_def settled_def)

lemma settling_assign:
  "(\<And>w. bk_owned (f w) = bk_owned w \<and> bk_pending (f w) = bk_pending w) \<Longrightarrow> keeps settled_rel (\<lambda>_ _. True) (assign f)"
  by (intro settling.keeps_assign) (simp add: settled_rel_def settled_def)

lemma child_settling: "keeps settled_rel (\<lambda>_ _. True) (run_child env args)"
  by (rule keepsI, rule child_wp) (auto simp: settled_rel_def settled_def)

lemma release_settling: "keeps settled_rel (\<lambda>_ _. True) (release_vendor env v)"
  unfolding release_vendor_def fault_vendor_def restore_vendor_def call_worker_def
  by (intro settling.keeps_rules child_settling settling.keeps_save settling.keeps_assign)
    (auto simp: settled_rel_def settled_def note_fault_def set_sel_def)

lemma policy_settling: "keeps settled_rel (\<lambda>_ _. True) (call_policy env action)"
  unfolding call_policy_def by (intro settling.keeps_rules child_settling settling_assign) simp

lemma settle_settling: "keeps settled_rel (\<lambda>_ _. True) (settle_policy env)"
  unfolding settle_policy_def stop_tuning_def hand_back_def
  by (intro settling.keeps_rules settling.keeps_queries release_settling policy_settling settling_assign)
    (simp_all add: begin_stop_def set_sel_def)

lemma wanted_inactive: "wanted v False idle w = None"
  by (simp add: wanted_def desired_def)

lemma reconcile_away_wp:
  assumes "in_order env {} (sys_world s)" "\<not> be_active env (bk_queries (sys_world s))"
  shows "wpF (reconcile env health) (\<lambda>_ t. \<forall>v \<in> set (vendors_of env). settled (sys_world t) v) (\<lambda>_ _. True) s"
proof -
  have each: "wpF (forF (reconcile_vendor env health False idle) (vendors_of env))
      (\<lambda>_ t. \<forall>v \<in> set (vendors_of env). settled (sys_world t) v) (\<lambda>_ _. True) t"
    if "in_order env {} (sys_world t)" for idle t
  proof (rule wpF_mono [OF wpF_for [where E = "\<lambda>_ _. True" and I = "\<lambda>ys t. in_order env {} (sys_world t) \<and> (\<forall>v \<in> set ys. settled (sys_world t) v)"]])
    fix ys v zs and u :: "broker sys"
    assume vs: "vendors_of env = ys @ v # zs"
      and I: "in_order env {} (sys_world u) \<and> (\<forall>v \<in> set ys. settled (sys_world u) v)"
    have v: "v \<in> set (vendors_of env)" by (simp add: vs)
    show "wpF (reconcile_vendor env health False idle v)
       (\<lambda>_ t. in_order env {} (sys_world t) \<and> (\<forall>v \<in> set (ys @ [v]). settled (sys_world t) v)) (\<lambda>_ _. True) u"
      by (rule wpF_mono [OF reconcile_vendor_wp [OF conjunct1 [OF I] v]])
        (use I in \<open>auto simp: wanted_inactive others_def\<close>)
  qed (use that in auto)
  have rest: "wpF (seqF (leave_seat env False) (bindF (idle_profile env) (\<lambda>idle.
      seqF (forF (reconcile_vendor env health False idle) (vendors_of env)) (settle_policy env))))
      (\<lambda>_ t. \<forall>v \<in> set (vendors_of env). settled (sys_world t) v) (\<lambda>_ _. True) t"
    if t: "in_order env {} (sys_world t)" for t
  proof -
    have tail: "wpF (seqF (forF (reconcile_vendor env health False idle) (vendors_of env)) (settle_policy env))
      (\<lambda>_ t. \<forall>v \<in> set (vendors_of env). settled (sys_world t) v) (\<lambda>_ _. True) t"
      if "in_order env {} (sys_world t)" for idle t
      unfolding wpF_seq [of "forF _ _"]
      by (rule wpF_mono [OF each [OF that]], rule wpF_mono [OF keepsD [OF settle_settling]])
        (auto simp: settled_rel_def)
    show ?thesis
      unfolding wpF_seq [of "leave_seat env False"]
      by (rule wpF_mono [OF keepsD [OF leave_ordered]], unfold wpF_bind [of "idle_profile env"],
          rule wpF_mono [OF keepsD [OF ordered.keeps_idle [where env = env and X = "{}"]]], rule tail)
        (use t in \<open>auto simp: order_rel_def\<close>)
  qed
  have "in_order env {} ((sys_world s)\<lparr>bk_queries := Suc (bk_queries (sys_world s))\<rparr>)"
    using in_order_same [of "sys_world s" "(sys_world s)\<lparr>bk_queries := Suc (bk_queries (sys_world s))\<rparr>" env "{}"] assms(1)
    by (simp add: same_order_def faulted_def)
  then show ?thesis using assms(2)
    unfolding reconcile_def seat_active_def ask_def
    by (simp add: wpF_bind [of "look _"] wpF_bind [of "bindF _ _"] wpF_look wpF_seq [of "assign _"] wpF_assign wpF_ret rest)
qed

text \<open>What the broker still knows of: tuned hardware of a vendor is owned or pending.\<close>

definition traced :: "broker \<Rightarrow> string \<Rightarrow> bool" where
  "traced w v \<longleftrightarrow> (owes v (bk_calls w) \<longrightarrow> bk_owned w v \<or> v \<in> set (bk_pending w))"

definition traced_rel :: "broker \<Rightarrow> broker \<Rightarrow> bool" where
  "traced_rel v w \<longleftrightarrow> (\<forall>u. traced v u \<longrightarrow> traced w u)"

interpretation tracing: broker_rel traced_rel "\<lambda>_ _. True"
proof (unfold_locales, goal_cases)
  case (5 v w)
  show ?case unfolding traced_rel_def traced_def by (simp add: store_rest_broker [OF 5])
qed (auto simp: traced_rel_def traced_def)

lemma tracing_assign:
  "(\<And>w. bk_calls (f w) = bk_calls w \<and> bk_owned (f w) = bk_owned w \<and> set (bk_pending w) \<subseteq> set (bk_pending (f w)))
    \<Longrightarrow> keeps traced_rel (\<lambda>_ _. True) (assign f)"
  by (intro tracing.keeps_assign) (auto simp: traced_rel_def traced_def)

lemma owes_not_apply:
  "owes v (calls @ [(args, r)]) \<Longrightarrow> take 3 args \<noteq> [WORKER, v, ''apply''] \<Longrightarrow> owes v calls"
  by (auto simp: owes_snoc owes_step_def split: if_splits)

lemma child_tracing:
  assumes "\<And>v. take 3 args \<noteq> [WORKER, v, ''apply'']"
  shows "keeps traced_rel (\<lambda>_ _. True) (run_child env args)"
  by (rule keepsI, rule child_wp) (use owes_not_apply assms in \<open>fastforce simp: traced_rel_def traced_def\<close>)+

lemma worker_tracing: "a \<noteq> ''apply'' \<Longrightarrow> keeps traced_rel (\<lambda>_ _. True) (call_worker env v a None)"
  unfolding call_worker_def by (intro tracing.keeps_rules child_tracing) simp_all

lemma restore_tracing: "keeps traced_rel (\<lambda>_ _. True) (restore_vendor env v)"
proof (rule keepsI, unfold restore_vendor_def wpF_bind, rule call_worker_wp, goal_cases)
  case (1 s r x t)
  then show ?case by (auto simp: wp traced_rel_def traced_def owes_reset)
qed (use owes_not_apply in \<open>fastforce simp: traced_rel_def traced_def\<close>)+

lemma fault_tracing: "keeps traced_rel (\<lambda>_ _. True) (fault_vendor env v exc)"
  unfolding fault_vendor_def
  by (intro tracing.keeps_rules restore_tracing tracing.keeps_save tracing_assign)
    (auto simp: note_fault_def set_sel_def)

lemma release_tracing: "keeps traced_rel (\<lambda>_ _. True) (release_vendor env v)"
  unfolding release_vendor_def by (intro tracing.keeps_rules restore_tracing fault_tracing)

lemma policy_tracing: "keeps traced_rel (\<lambda>_ _. True) (call_policy env action)"
  unfolding call_policy_def
  by (intro tracing.keeps_rules child_tracing tracing_assign) (auto simp: POLICY_def WORKER_def)

lemma settle_tracing: "keeps traced_rel (\<lambda>_ _. True) (settle_policy env)"
  unfolding settle_policy_def stop_tuning_def hand_back_def
  by (intro tracing.keeps_rules tracing.keeps_queries release_tracing policy_tracing tracing.keeps_save tracing_assign)
    (simp_all add: begin_stop_def set_sel_def)

lemma look_const: "bindF (look (\<lambda>_. x)) f = f x"
  by (rule ext) (simp add: bindF_def look_def getF_def)

lemma away_vendor_tracing: "keeps traced_rel (\<lambda>_ _. True) (reconcile_vendor env health False idle v)"
proof -
  have "keeps traced_rel (\<lambda>_ _. True) (steer_vendor env health None v)"
    unfolding steer_vendor_def check_health_def
    by (intro tracing.keeps_rules restore_tracing worker_tracing) simp_all
  then have "keeps traced_rel (\<lambda>_ _. True) (catchF (steer_vendor env health None v) is_exception (fault_vendor env v))"
    by (intro tracing.keeps_rules fault_tracing)
  then have body: "keeps traced_rel (\<lambda>_ _. True) (bindF (look (wanted v False idle))
      (\<lambda>want. catchF (steer_vendor env health want v) is_exception (fault_vendor env v)))"
    by (simp only: wanted_inactive [abs_def] look_const)
  show ?thesis unfolding reconcile_vendor_def
    by (rule tracing.keeps_bind [OF tracing.keeps_look]) (simp add: body tracing.keeps_ret)
qed

text \<open>Once the outcome of a helper is unknown, no helper is called.\<close>

definition blocked_rel :: "broker \<Rightarrow> broker \<Rightarrow> bool" where
  "blocked_rel v w \<longleftrightarrow> (bk_unknown v \<longrightarrow> bk_unknown w \<and> bk_calls w = bk_calls v)"

interpretation blocking: broker_rel blocked_rel blocked_rel
proof (unfold_locales, goal_cases)
  case (4 v w)
  show ?case unfolding blocked_rel_def by (simp add: store_rest_broker [OF 4])
qed (simp_all add: blocked_rel_def)

lemma blocking_assign:
  "(\<And>w. bk_calls (f w) = bk_calls w \<and> bk_unknown (f w) = bk_unknown w) \<Longrightarrow> keeps blocked_rel blocked_rel (assign f)"
  by (intro blocking.keeps_assign) (simp add: blocked_rel_def)

lemma child_blocking: "keeps blocked_rel blocked_rel (run_child env args)"
  by (rule keepsI, rule child_wp) (auto simp: blocked_rel_def)

lemma restore_blocking: "keeps blocked_rel blocked_rel (restore_vendor env v)"
  unfolding restore_vendor_def call_worker_def
  by (intro blocking.keeps_rules child_blocking blocking_assign) simp_all

lemma fault_blocking: "keeps blocked_rel blocked_rel (fault_vendor env v e)"
  unfolding fault_vendor_def
  by (intro blocking.keeps_rules restore_blocking blocking.keeps_save blocking_assign)
    (simp_all add: note_fault_def set_sel_def)

lemma steer_blocking: "keeps blocked_rel blocked_rel (steer_vendor env health want v)"
  unfolding steer_vendor_def check_health_def apply_vendor_def call_worker_def
  by (intro blocking.keeps_rules child_blocking restore_blocking blocking_assign) simp_all

lemma vendor_blocking: "keeps blocked_rel blocked_rel (reconcile_vendor env health active idle v)"
  unfolding reconcile_vendor_def by (intro blocking.keeps_rules steer_blocking fault_blocking)

lemma release_blocking: "keeps blocked_rel blocked_rel (release_vendor env v)"
  unfolding release_vendor_def by (intro blocking.keeps_rules restore_blocking fault_blocking)

lemma policy_blocking: "keeps blocked_rel blocked_rel (call_policy env action)"
  unfolding call_policy_def by (intro blocking.keeps_rules child_blocking blocking_assign) simp_all

lemma settle_blocking: "keeps blocked_rel blocked_rel (settle_policy env)"
  unfolding settle_policy_def stop_tuning_def hand_back_def
  by (intro blocking.keeps_rules blocking.keeps_queries release_blocking policy_blocking blocking_assign)
    (simp_all add: begin_stop_def set_sel_def)

lemma leave_blocking: "keeps blocked_rel blocked_rel (leave_seat env active)"
  unfolding leave_seat_def
  by (intro blocking.keeps_rules blocking.keeps_save blocking_assign) (simp_all add: set_sel_def)

lemma reconcile_blocking: "keeps blocked_rel blocked_rel (reconcile env health)"
  unfolding reconcile_def
  by (intro blocking.keeps_rules blocking.keeps_queries leave_blocking vendor_blocking settle_blocking)

lemma reconcile_away_traced:
  assumes "\<not> be_active env (bk_queries (sys_world s))" "traced (sys_world s) v"
  shows "wpF (reconcile env health) (\<lambda>_ t. traced (sys_world t) v) (\<lambda>_ _. True) s"
proof -
  have "keeps traced_rel (\<lambda>_ _. True) (seqF (leave_seat env False) (bindF (idle_profile env) (\<lambda>idle.
      seqF (forF (reconcile_vendor env health False idle) (vendors_of env)) (settle_policy env))))"
    unfolding leave_seat_def
    by (intro tracing.keeps_rules tracing.keeps_idle away_vendor_tracing settle_tracing tracing.keeps_save tracing_assign)
      (simp_all add: set_sel_def)
  note rest = keepsD [OF this]
  have "traced ((sys_world s)\<lparr>bk_queries := Suc (bk_queries (sys_world s))\<rparr>) v"
    using assms(2) by (simp add: traced_def)
  then show ?thesis using assms(1)
    unfolding reconcile_def seat_active_def ask_def
    by (simp add: wpF_bind [of "look _"] wpF_bind [of "bindF _ _"] wpF_look wpF_seq [of "assign _"] wpF_assign wpF_ret)
      (rule wpF_mono [OF rest], auto simp: traced_rel_def)
qed

text \<open>C17 (an absent user keeps nothing): when the desktop account has no active local seat, a completed
  reconciliation leaves no vendor with tuned hardware, except one whose recovery is known to be pending. The
  one exception is a broker for which the outcome of an earlier helper was already unknown: it is blocked,
  and this reconciliation calls no helper at all.\<close>

theorem absent_user_released:
  assumes "served env ls s" "reconcile env health s = (Inr (), t)" "\<not> be_active env (bk_queries (sys_world s))"
    and "v \<in> set (vendors_of env)" "owes v (bk_calls (sys_world t))"
  shows "v \<in> set (bk_pending (sys_world t))
    \<or> bk_unknown (sys_world s) \<and> bk_calls (sys_world t) = bk_calls (sys_world s)"
proof (cases "bk_unknown (sys_world s)")
  case True
  then show ?thesis using keeps_run [OF reconcile_blocking assms(2)] by (simp add: blocked_rel_def)
next
  case False
  note order = served_in_order [OF assms(1)]
  have "settled (sys_world t) v"
    using wpF_run [OF reconcile_away_wp [OF order assms(3)] assms(2)] assms(4) by simp
  moreover have "traced (sys_world s) v"
    using order assms(4) False by (auto simp: in_order_def accounted_def traced_def)
  from wpF_run [OF reconcile_away_traced [OF assms(3) this] assms(2)] have "traced (sys_world t) v" by simp
  ultimately show ?thesis using assms(5) by (auto simp: traced_def settled_def)
qed

text \<open>The cut of a message to its first 8192 characters is evaluated only where it cuts something.\<close>

lemma note_fault_code [code]:
  "note_fault v error = set_sel (\<lambda>se. se\<lparr>se_faults :=
     dset v (if int (length error) \<le> 8192 then error else take 8192 error) (se_faults se)\<rparr>)"
  by (simp add: note_fault_def)

text \<open>A broker whose hardware cannot be reset, with nobody at the seat.\<close>

definition stuck_helper :: "nat \<Rightarrow> string list \<Rightarrow> helper_end" where
  "stuck_helper n args =
     (if args = [WORKER, ''intel'', ''reset''] then Finished 1 None []
      else Finished 0 (Some (PDict [(''ok'', PBool True), (''result'', PDict [(''autostart_unit'', PDict [(''file'', PNone)])])])) [])"

definition stuck_env :: bk_env where
  "stuck_env = (demo_env 0)\<lparr>be_helper := stuck_helper\<rparr>"

definition stuck_start :: "broker sys" where
  "stuck_start = \<lparr>sys_step = 0, sys_script = (\<lambda>_. Fine), sys_world = fresh_broker stuck_env (\<lambda>_. None) True\<rparr>"

definition stuck_started :: "broker sys" where
  "stuck_started = snd (initialize stuck_env stuck_start)"

definition stuck_away :: "broker sys" where
  "stuck_away = snd (reconcile stuck_env True stuck_started)"

lemma stuck_facts:
  "fst (initialize stuck_env stuck_start) = Inr ()" "fst (reconcile stuck_env True stuck_started) = Inr ()"
  "\<not> be_active stuck_env (bk_queries (sys_world stuck_started))"
  "owes ''intel'' (bk_calls (sys_world stuck_away))" "\<not> bk_unknown (sys_world stuck_started)"
  by code_simp+

theorem absent_user_released_witness:
  "owes ''intel'' (bk_calls (sys_world stuck_away)) \<and> ''intel'' \<in> set (bk_pending (sys_world stuck_away))"
proof -
  have start: "served stuck_env [] stuck_started"
    unfolding stuck_started_def
    by (rule served.start [of _ "\<lambda>_. Fine" "\<lambda>_. None" True])
      (simp only: stuck_start_def [symmetric] stuck_facts(1) [symmetric] prod.collapse)
  have run: "reconcile stuck_env True stuck_started = (Inr (), stuck_away)"
    unfolding stuck_away_def by (simp only: stuck_facts(2) [symmetric] prod.collapse)
  from absent_user_released [OF start run stuck_facts(3), of "''intel''"] show ?thesis
    using stuck_facts(4, 5) by (simp add: stuck_env_def vendors_of_def demo_env_def demo_config_def)
qed

definition demo_request :: pydict where
  "demo_request = [(''action'', PStr ''lease''), (''vendor'', PStr ''intel''), (''profile'', PStr ''performance'')]"

definition demo_leased :: "broker sys" where
  "demo_leased = snd (open_session (demo_env 1) 1000 demo_request demo_started)"

lemma demo_leased_facts:
  "validate_request [''intel''] (PDict demo_request) = Inr demo_request"
  "map_sum id fst (fst (open_session (demo_env 1) 1000 demo_request demo_started)) = Inr (Some (AppLease ''intel'' ''performance''))"
  by code_simp+

lemma demo_leased_served: "served (demo_env 1) [AppLease ''intel'' ''performance''] demo_leased"
proof -
  obtain reply where "open_session (demo_env 1) 1000 demo_request demo_started
      = (Inr (Some (AppLease ''intel'' ''performance''), reply), demo_leased)"
    using demo_leased_facts(2) unfolding demo_leased_def
    by (cases "open_session (demo_env 1) 1000 demo_request demo_started"; cases "fst (open_session (demo_env 1) 1000 demo_request demo_started)") auto
  from served.request [OF demo_served demo_leased_facts(1) [folded demo_vendors [of 1]] this] show ?thesis by simp
qed

theorem leases_balanced_witness:
  "ledger_ok [AppLease ''intel'' ''performance''] (bk_sel (sys_world demo_leased))
     \<and> (\<exists>t. release_lease (AppLease ''intel'' ''performance'') demo_leased = (Inr (), t)
          \<and> ledger_ok [] (bk_sel (sys_world t)))"
  using leases_balanced [OF demo_leased_served, of "AppLease ''intel'' ''performance''"] by simp

subsection \<open>What is applied\<close>

text \<open>C18 (only what the arbitration allows is applied): whatever a reconciliation ends in, every profile that
  it applied to a vendor is the one that the arbitration selects for the selection at its beginning, with
  the idle profile of the power supply; the local seat was active, tuning was not paused, the vendor not
  faulty, and no handback of the policy pending.\<close>

theorem apply_only_wanted:
  assumes "reconcile env health s = (r, t)"
  shows "\<exists>new. bk_calls (sys_world t) = bk_calls (sys_world s) @ new
    \<and> (\<forall>c v p. c \<in> set new \<longrightarrow> fst c = [WORKER, v, ''apply'', p] \<longrightarrow>
        be_active env (bk_queries (sys_world s)) \<and> bk_release (sys_world s) = None
        \<and> (\<exists>idle \<in> {bc_idle_ac (be_config env), bc_idle_battery (be_config env)}.
             desired (bk_sel (sys_world s)) v True idle = Some p))"
proof -
  let ?idles = "{bc_idle_ac (be_config env), bc_idle_battery (be_config env)}"
  let ?active = "be_active env (bk_queries (sys_world s))"
  define A where "A = {args. \<forall>v p. args = [WORKER, v, ''apply'', p] \<longrightarrow>
     (\<exists>idle \<in> ?idles. wanted v ?active idle (sys_world s) = Some p)}"
  have 1: "no_apply \<subseteq> A" by (auto simp: A_def no_apply_def)
  have 2: "[WORKER, v, ''apply'', p] \<in> A" if "idle \<in> ?idles" "wanted v ?active idle (sys_world s) = Some p" for v p idle
    using that unfolding A_def by blast
  have "calls_in A (sys_world s) (sys_world t)"
    using wpF_run [OF reconcile_tracked_wp [OF 1 2] assms] by (cases r) auto
  then obtain new where new: "bk_calls (sys_world t) = bk_calls (sys_world s) @ new" "fst ` set new \<subseteq> A"
    unfolding calls_in_def by blast
  have "?active \<and> bk_release (sys_world s) = None \<and> (\<exists>idle \<in> ?idles. desired (bk_sel (sys_world s)) v True idle = Some p)"
    if c: "c \<in> set new" "fst c = [WORKER, v, ''apply'', p]" for c v p
  proof -
    have "fst c \<in> A" using c(1) new(2) by blast
    then obtain idle where "idle \<in> ?idles" "wanted v ?active idle (sys_world s) = Some p"
      using c(2) unfolding A_def by blast
    moreover from this(2) have "?active" by (cases "?active") (simp_all add: wanted_inactive)
    ultimately show ?thesis by (auto simp: wanted_def split: if_splits)
  qed
  with new(1) show ?thesis by blast
qed

definition demo_automatic :: "broker sys" where
  "demo_automatic = upd (set_sel (\<lambda>se. se\<lparr>se_automatic := True\<rparr>)) demo_start"

lemma demo_applied:
  "map fst (bk_calls (sys_world (snd (reconcile (demo_env 1) False demo_automatic))))
     = [[WORKER, ''intel'', ''apply'', ''balanced'']] \<and> bk_calls (sys_world demo_automatic) = []"
  by code_simp

theorem apply_only_wanted_witness:
  "be_active (demo_env 1) (bk_queries (sys_world demo_automatic)) \<and> bk_release (sys_world demo_automatic) = None
     \<and> (\<exists>idle. desired (bk_sel (sys_world demo_automatic)) ''intel'' True idle = Some ''balanced'')"
proof -
  let ?t = "snd (reconcile (demo_env 1) False demo_automatic)"
  from apply_only_wanted [OF prod.collapse [symmetric], of "demo_env 1" False demo_automatic]
  obtain new where new: "bk_calls (sys_world ?t) = bk_calls (sys_world demo_automatic) @ new"
    "\<And>c v p. c \<in> set new \<Longrightarrow> fst c = [WORKER, v, ''apply'', p] \<Longrightarrow>
        be_active (demo_env 1) (bk_queries (sys_world demo_automatic)) \<and> bk_release (sys_world demo_automatic) = None
        \<and> (\<exists>idle \<in> {bc_idle_ac (be_config (demo_env 1)), bc_idle_battery (be_config (demo_env 1))}.
             desired (bk_sel (sys_world demo_automatic)) v True idle = Some p)" by metis
  obtain c where "c \<in> set new" "fst c = [WORKER, ''intel'', ''apply'', ''balanced'']"
    using new(1) demo_applied by (cases new) auto
  from new(2) [OF this] show ?thesis by blast
qed

subsection \<open>The recovery file\<close>

text \<open>C37 (a restarted broker continues where it was): at any time in the life of a broker, when it saves its
  controls and another broker for the same vendors is started on the files that are there then, reading them
  succeeds if the read itself does not fail, and the new broker would save the same document; only without
  an active local seat the manual selections are cleared.\<close>

theorem saved_controls_load:
  assumes "served env ls s" and saved: "save_controls env s = (Inr (), t)"
    and "vendors_of env' = vendors_of env" and fine: "fault_free u"
    and u: "sys_world u = fresh_broker env' (js_files (sys_world t)) was_active"
  shows "\<exists>v. load_controls env' u = (Inr True, v)
    \<and> controls_doc (vendors_of env') (sys_world v)
      = controls_doc (vendors_of env)
          (if be_active env' 0 then sys_world s else set_sel (\<lambda>se. se\<lparr>se_manual := (\<lambda>_. None)\<rparr>) (sys_world s))"
proof -
  let ?vs = "vendors_of env"
  have "map_of (map (\<lambda>v. (v, f v)) vs) v = Some (f v)" if "v \<in> set vs" for v vs and f :: "string \<Rightarrow> string option"
    using that by (induction vs) auto
  then have manual: "manual_doc vs (\<lambda>v. Option.bind (map_of (map (\<lambda>v. (v, f v)) vs) v) id) = manual_doc vs f" for f vs
    by (intro manual_doc_cong) simp
  have "wpF (save_controls env) (\<lambda>_ t. js_files (sys_world t) CONTROLS = Some (json_file 384 (controls_doc ?vs (sys_world s))))
      (\<lambda>_ _. True) s"
    unfolding save_controls_def wpF_bind wpF_look by (rule wpF_mono [OF atomic_json_atomic]) auto
  from wpF_run [OF this saved]
  have stored: "js_files (sys_world u) CONTROLS = Some (json_file 384 (controls_doc ?vs (sys_world s)))"
    by (simp add: u fresh_broker_def)
  have fresh: "bk_queries (sys_world u) = 0" by (simp add: u fresh_broker_def)
  obtain c where c: "parse_controls ?vs (controls_doc ?vs (sys_world s)) = Inr c"
    and same: "\<And>w. controls_doc ?vs (adopt True c w) = controls_doc ?vs (sys_world s)"
    and cleared: "\<And>w. controls_doc ?vs (adopt False c w)
      = controls_doc ?vs (set_sel (\<lambda>se. se\<lparr>se_manual := (\<lambda>_. None)\<rparr>) (sys_world s))"
    using parse_controls_doc [OF served_controls [OF assms(1)]] manual
    by (auto simp: controls_doc_def adopt_def set_sel_def)
  have "wpF (load_controls env') (\<lambda>b v. b \<and> controls_doc ?vs (sys_world v) = controls_doc ?vs
      (if be_active env' 0 then sys_world s else set_sel (\<lambda>se. se\<lparr>se_manual := (\<lambda>_. None)\<rparr>) (sys_world s)))
      (\<lambda>_ _. False) u"
    unfolding load_controls_def seat_active_def ask_def
    using fine stored fresh c same cleared assms(3) by (simp add: wp wpF_skip_fine json_file_def)
  then show ?thesis
    by (auto simp: wpF_def assms(3) split: prod.splits sum.splits)
qed

definition demo_saved :: "broker sys" where
  "demo_saved = snd (save_controls (demo_env 1) demo_started)"

lemma demo_saves: "fst (save_controls (demo_env 1) demo_started) = Inr ()"
  by code_simp

definition demo_restarted :: "broker sys" where
  "demo_restarted = \<lparr>sys_step = 0, sys_script = (\<lambda>_. Fine),
     sys_world = fresh_broker (demo_env 1) (js_files (sys_world demo_saved)) True\<rparr>"

theorem saved_controls_load_witness:
  "\<exists>v. load_controls (demo_env 1) demo_restarted = (Inr True, v)
    \<and> controls_doc [''intel''] (sys_world v) = controls_doc [''intel''] (sys_world demo_started)"
proof -
  have saved: "save_controls (demo_env 1) demo_started = (Inr (), demo_saved)"
    unfolding demo_saved_def by (simp only: demo_saves [symmetric] prod.collapse)
  have start: "fault_free demo_restarted"
    "sys_world demo_restarted = fresh_broker (demo_env 1) (js_files (sys_world demo_saved)) True"
    by (simp_all add: demo_restarted_def fault_free_def)
  have "be_active (demo_env 1) 0" by (simp add: demo_env_def)
  then show ?thesis
    using saved_controls_load [OF demo_served saved refl start] by (simp add: demo_vendors)
qed

end
