(* ===== verification/HwPolicyBus.thy ===== *)
theory HwPolicyBus
  imports HwStore Complex_Main
begin

text \<open>
  \<open>hardware_tuning/policy_owner.py\<close>, part 1, and \<open>system_state.power_managers\<close>: the bounded connection to
  systemd. What PID 1 does to its units and what it answers to a call is a parameter (\<open>pe_bus\<close>), as are the
  clock and the queries of other power managers. A D-Bus call is one interruptible step; that its answer
  is lost shows as a step that fails after its effect.

  Only two places of the program look at the name of a bus error, so it is a value here (\<open>Inl\<close>) and
  \<open>required\<close> raises it as the error that it is elsewhere.
\<close>

record unit_state =
  un_load :: string
  un_active :: string
  un_file :: string

text \<open>What PID 1 knows of a unit: installed, enabled and masked for the next boot, masked until then, active.\<close>

record pid1_unit =
  pu_installed :: bool
  pu_enabled :: bool
  pu_masked :: bool
  pu_runtime :: bool
  pu_active :: bool

datatype bus_call = Method string string "pyval list" | Property string string string

datatype bus_reply = Refused "string option" "string option" | Reply "string option"

type_synonym units = "string \<Rightarrow> pid1_unit"

record lock_file =
  lk_untrusted :: "string option"
  lk_regular :: bool
  lk_busy :: bool

record policy_world = jstore +
  pw_units :: units
  pw_claimed :: bool
  pw_held :: "string list"
  pw_deadline :: rat
  pw_slept :: rat
  pw_calls :: nat
  pw_reads :: nat

record policy_env =
  pe_size :: "pyval \<Rightarrow> int"
  pe_connected :: bool
  pe_bus :: "nat \<Rightarrow> bus_call \<Rightarrow> units \<Rightarrow> units \<times> bus_reply"
  pe_bounded :: "nat \<Rightarrow> bool"
  pe_clock :: "nat \<Rightarrow> rat"
  pe_lock :: "string \<Rightarrow> lock_file"
  pe_managers :: "nat \<Rightarrow> (string \<Rightarrow> bus_reply) res"

type_synonym 'a policy_io = "(policy_world sys, 'a) eff"

definition PPD :: string where "PPD = ''power-profiles-daemon.service''"
definition AUTOSTART :: string where "AUTOSTART = ''hardware-tuning-autostart.service''"
definition UNITS :: "string list" where "UNITS = [PPD, AUTOSTART]"
definition MANAGER_PATH :: string where "MANAGER_PATH = ''/org/freedesktop/systemd1''"
definition MANAGER :: string where "MANAGER = ''org.freedesktop.systemd1.Manager''"
definition UNIT_INTERFACE :: string where "UNIT_INTERFACE = ''org.freedesktop.systemd1.Unit''"
definition JOB_INTERFACE :: string where "JOB_INTERFACE = ''org.freedesktop.systemd1.Job''"

definition ABSENT :: "string list" where
  "ABSENT = [''org.freedesktop.systemd1.NoSuchUnit'', ''org.freedesktop.DBus.Error.UnknownObject'',
     ''org.freedesktop.systemd1.NoSuchUnitFile'', ''org.freedesktop.DBus.Error.FileNotFound'']"

definition INACTIVE :: "string list" where "INACTIVE = [''inactive'', ''failed'', ''not-loaded'']"
definition MASKED :: "string list" where "MASKED = [''masked'', ''masked-runtime'']"

subsection \<open>One call\<close>

text \<open>\<open>time.monotonic()\<close>: readings, and what \<open>time.sleep\<close> has added.\<close>

definition monotonic :: "policy_env \<Rightarrow> rat policy_io" where
  "monotonic env =
     bindF (look (\<lambda>w. pe_clock env (pw_reads w) + pw_slept w)) (\<lambda>now.
     seqF (assign (\<lambda>w. w\<lparr>pw_reads := Suc (pw_reads w)\<rparr>)) (retF now))"

definition connect :: "policy_env \<Rightarrow> unit policy_io" where
  "connect env =
     bindF (monotonic env) (\<lambda>now.
     seqF (assign (\<lambda>w. w\<lparr>pw_deadline := now + 40\<rparr>))
     (assertF (pe_connected env) (TuningError ''system bus unavailable; no policy handover performed'')))"

definition bound_call :: "policy_env \<Rightarrow> unit policy_io" where
  "bound_call env =
     bindF (monotonic env) (\<lambda>now. bindF (look pw_deadline) (\<lambda>deadline.
     seqF (assertF (0 < deadline - now) (TuningError ''policy handover deadline expired; retry Stop or Reset''))
     (bindF (look pw_calls) (\<lambda>n.
      assertF (pe_bounded env n) (TuningError ''cannot bound systemd policy operation'')))))"

definition bus_step :: "policy_env \<Rightarrow> bus_call \<Rightarrow> bus_reply policy_io" where
  "bus_step env c =
     bindF (look (\<lambda>w. pe_bus env (pw_calls w) c (pw_units w))) (\<lambda>(units, reply).
     seqF (op (\<lambda>w. w\<lparr>pw_units := units, pw_calls := Suc (pw_calls w)\<rparr>)) (retF reply))"

definition bus_failure :: "string option \<Rightarrow> string option \<Rightarrow> string \<Rightarrow> string \<times> string" where
  "bus_failure name message operation =
     ((case name of None \<Rightarrow> ''unknown'' | Some n \<Rightarrow> if n = [] then ''unknown'' else n),
      operation @ '': '' @ (case message of None \<Rightarrow> ''systemd call failed''
         | Some m \<Rightarrow> if m = [] then ''systemd call failed'' else m))"

definition ascii :: "string \<Rightarrow> string res" where
  "ascii s = (if list_all (\<lambda>c. ord c < 128) s then Inr s else Inl ValueErr)"

type_synonym 'a bus_result = "string \<times> string + 'a"

text \<open>\<open>Systemd.call\<close>; \<open>wants\<close> is whether a result type is given.\<close>

definition bus_method ::
    "policy_env \<Rightarrow> string \<Rightarrow> string \<Rightarrow> pyval list \<Rightarrow> bool \<Rightarrow> string bus_result policy_io" where
  "bus_method env path member args wants =
     seqF (bound_call env)
     (bindF (bus_step env (Method path member args)) (\<lambda>r.
      case r of
        Refused name message \<Rightarrow> retF (Inl (bus_failure name message member))
      | Reply v \<Rightarrow>
          if \<not> wants then retF (Inr [])
          else case v of
            None \<Rightarrow> raiseF (TuningError (''invalid systemd reply to '' @ member))
          | Some s \<Rightarrow>
              if s = [] then raiseF (TuningError (''invalid systemd reply to '' @ member))
              else bindF (liftE (ascii s)) (\<lambda>t. retF (Inr t))))"

definition bus_property :: "policy_env \<Rightarrow> string \<Rightarrow> string \<Rightarrow> string \<Rightarrow> string bus_result policy_io" where
  "bus_property env path interface key =
     seqF (bound_call env)
     (bindF (bus_step env (Property path interface key)) (\<lambda>r.
      case r of
        Refused name message \<Rightarrow> retF (Inl (bus_failure name message key))
      | Reply None \<Rightarrow> raiseF (TuningError ''empty systemd property'')
      | Reply (Some s) \<Rightarrow> bindF (liftE (ascii s)) (\<lambda>t. retF (Inr t))))"

definition required :: "'a bus_result policy_io \<Rightarrow> 'a policy_io" where
  "required m = bindF m (\<lambda>r. case r of Inl (name, message) \<Rightarrow> raiseF (TuningError message) | Inr x \<Rightarrow> retF x)"

subsection \<open>Units\<close>

definition path_label :: "string \<Rightarrow> string" where
  "path_label unit = concat (map (\<lambda>c. if ord c < 128 \<and> is_alnum c then [c] else CHR ''_'' # hex2 c) unit)"

definition unit_path :: "string \<Rightarrow> string res" where
  "unit_path unit =
     (if unit \<notin> set UNITS then Inl (TuningError ''unit is outside the policy handover allowlist'')
      else Inr (''/org/freedesktop/systemd1/unit/'' @ path_label unit))"

definition ACTIVE_STATES :: "string list" where
  "ACTIVE_STATES = [''active'', ''inactive'', ''failed'', ''activating'', ''deactivating'', ''reloading'',
     ''refreshing'', ''maintenance'']"

definition FILE_STATES :: "string list" where
  "FILE_STATES = [''enabled'', ''enabled-runtime'', ''disabled'', ''masked'', ''masked-runtime'', ''static'',
     ''indirect'', ''linked'', ''linked-runtime'', ''alias'', ''generated'', ''transient'']"

definition loaded_state :: "policy_env \<Rightarrow> string \<Rightarrow> string \<Rightarrow> unit_state policy_io" where
  "loaded_state env unit path =
     bindF (required (bus_property env path UNIT_INTERFACE ''LoadState'')) (\<lambda>loaded.
     bindF (required (bus_property env path UNIT_INTERFACE ''ActiveState'')) (\<lambda>active.
     if loaded = ''not-found'' \<and> active \<in> set INACTIVE
     then retF \<lparr>un_load = loaded, un_active = active, un_file = ''not-found''\<rparr>
     else
       seqF (assertF (loaded \<in> {''loaded'', ''masked''})
              (TuningError (''unit cannot be managed safely: '' @ unit @ '' ('' @ loaded @ '')'')))
       (bindF (required (bus_method env MANAGER_PATH ''GetUnitFileState'' [PStr unit] True)) (\<lambda>file.
        seqF (assertF (active \<in> set ACTIVE_STATES) (TuningError (''unrecognized systemd active state for '' @ unit)))
        (seqF (assertF (file \<in> set FILE_STATES) (TuningError (''unrecognized systemd enablement state for '' @ unit)))
        (retF \<lparr>un_load = loaded, un_active = active, un_file = file\<rparr>))))))"

definition unit_state_of :: "policy_env \<Rightarrow> string \<Rightarrow> unit_state policy_io" where
  "unit_state_of env unit =
     bindF (liftE (unit_path unit)) (\<lambda>path.
     bindF (bus_method env MANAGER_PATH ''LoadUnit'' [PStr unit] True) (\<lambda>r.
     case r of
       Inl (name, message) \<Rightarrow>
         if name \<in> set ABSENT then retF \<lparr>un_load = ''not-found'', un_active = ''inactive'', un_file = ''not-found''\<rparr>
         else raiseF (TuningError message)
     | Inr _ \<Rightarrow> loaded_state env unit path))"

definition change_files :: "policy_env \<Rightarrow> string \<Rightarrow> string \<Rightarrow> bool \<Rightarrow> unit policy_io" where
  "change_files env member unit runtime =
     bindF (liftE (unit_path unit)) (\<lambda>_.
     seqF (assertF (member \<in> {''EnableUnitFiles'', ''DisableUnitFiles'', ''MaskUnitFiles'', ''UnmaskUnitFiles''})
            (TuningError ''invalid unit-file operation''))
     (seqF (required (bus_method env MANAGER_PATH member
              ([PStr unit, PBool runtime] @ (if member \<in> {''EnableUnitFiles'', ''MaskUnitFiles''} then [PBool False] else []))
              False))
     (bindF (required (bus_method env MANAGER_PATH ''Reload'' [] False)) (\<lambda>_. retF ()))))"

subsection \<open>Jobs\<close>

definition JOB_PREFIX :: string where "JOB_PREFIX = ''/org/freedesktop/systemd1/job/''"

definition job_path_ok :: "string \<Rightarrow> bool" where
  "job_path_ok job = (let number = last (split_on (CHR ''/'') job) in
     starts_with JOB_PREFIX job \<and> number \<noteq> [] \<and> list_all is_digit number)"

text \<open>One turn of the loop before its sleep: whether the job is gone and its unit has the required state.\<close>

definition job_finished :: "policy_env \<Rightarrow> string \<Rightarrow> string \<Rightarrow> string \<Rightarrow> string \<Rightarrow> bool policy_io" where
  "job_finished env member unit path job =
     bindF (bus_property env job JOB_INTERFACE ''State'') (\<lambda>r.
     case r of
       Inr st \<Rightarrow>
         seqF (assertF (st \<in> {''waiting'', ''running''}) (TuningError ''unrecognized systemd job state'')) (retF False)
     | Inl (name, message) \<Rightarrow>
         if name \<notin> set ABSENT then raiseF (TuningError message)
         else
           bindF (required (bus_property env path UNIT_INTERFACE ''ActiveState'')) (\<lambda>active.
           seqF (assertF (active \<in> (if member = ''StartUnit'' then {''active''} else set INACTIVE))
                  (TuningError (member @ '' did not reach its required state: '' @ unit @ '' ('' @ active @ '')'')))
           (retF True)))"

text \<open>The loop with a number of turns; \<open>False\<close> is that they did not suffice.\<close>

fun job_wait :: "nat \<Rightarrow> policy_env \<Rightarrow> string \<Rightarrow> string \<Rightarrow> string \<Rightarrow> string \<Rightarrow> rat \<Rightarrow> bool policy_io" where
  "job_wait 0 env member unit path job expires = retF False"
| "job_wait (Suc n) env member unit path job expires =
     bindF (job_finished env member unit path job) (\<lambda>finished.
     if finished then retF True
     else
       bindF (monotonic env) (\<lambda>now.
       seqF (assertF (now < expires) (TuningError (''systemd job timed out: '' @ member @ '' '' @ unit)))
       (seqF (assign (\<lambda>w. w\<lparr>pw_slept := pw_slept w + 1 / 20\<rparr>))
       (job_wait n env member unit path job expires))))"

text \<open>Twenty seconds in steps of at least a twentieth: see \<open>job_wait_ends\<close>.\<close>

definition JOB_TURNS :: nat where "JOB_TURNS = 401"

definition cancel_job :: "policy_env \<Rightarrow> string \<Rightarrow> unit policy_io" where
  "cancel_job env job =
     bindF (look pw_deadline) (\<lambda>deadline.
     finallyF
       (catchF
         (bindF (monotonic env) (\<lambda>now.
          seqF (assign (\<lambda>w. w\<lparr>pw_deadline := max deadline (now + 1)\<rparr>))
          (bindF (required (bus_method env job ''Cancel'' [] False)) (\<lambda>_. retF ()))))
         is_tuning_error (\<lambda>_. retF ()))
       (assign (\<lambda>w. w\<lparr>pw_deadline := deadline\<rparr>)))"

definition run_job :: "policy_env \<Rightarrow> string \<Rightarrow> string \<Rightarrow> unit policy_io" where
  "run_job env member unit =
     bindF (liftE (unit_path unit)) (\<lambda>path.
     seqF (assertF (member \<in> {''StartUnit'', ''StopUnit''}) (TuningError ''invalid lifecycle operation''))
     (bindF (required (bus_method env MANAGER_PATH member [PStr unit, PStr ''replace''] True)) (\<lambda>job.
      seqF (assertF (job_path_ok job) (TuningError ''invalid systemd job path''))
      (bindF (look pw_deadline) (\<lambda>deadline.
       bindF (monotonic env) (\<lambda>now.
       catchF
         (bindF (job_wait JOB_TURNS env member unit path job (min (deadline - 2) (now + 20))) (\<lambda>ended.
          if ended then retF () else raiseF Killed))
         (\<lambda>_. True) (\<lambda>e. seqF (cancel_job env job) (raiseF e))))))))"

definition manager_stopping :: "policy_env \<Rightarrow> bool policy_io" where
  "manager_stopping env =
     bindF (required (bus_property env MANAGER_PATH MANAGER ''SystemState'')) (\<lambda>s. retF (s = ''stopping''))"

subsection \<open>Other power managers\<close>

definition POWER_MANAGERS :: "string list" where
  "POWER_MANAGERS = [PPD, ''tlp.service'', ''tlp-pd.service'', ''tuned.service'', ''tuned-ppd.service'',
     ''auto-cpufreq.service'', ''cpufrequtils.service'', ''ondemand.service'', ''throttled.service'',
     ''system76-power.service'']"

text \<open>The pattern \<open>[a-z-]{1,32}\<close>.\<close>

definition state_word :: "string \<Rightarrow> bool" where
  "state_word s = (1 \<le> length s \<and> length s \<le> 32 \<and> list_all (\<lambda>c. is_lower_alpha c \<or> c = CHR ''-'') s)"

definition manager_state :: "string \<Rightarrow> bus_reply \<Rightarrow> string res" where
  "manager_state unit reply =
     (case reply of
        Refused name message \<Rightarrow>
          if name \<in> {Some ''org.freedesktop.DBus.Error.UnknownObject'', Some ''org.freedesktop.systemd1.NoSuchUnit''}
          then Inr ''not-loaded''
          else Inl (TuningError (''cannot verify CPU policy owner '' @ unit @ '': '' @
                 (case message of None \<Rightarrow> ''D-Bus property query failed''
                  | Some m \<Rightarrow> if m = [] then ''D-Bus property query failed'' else m)))
      | Reply None \<Rightarrow> Inl (TuningError ''empty policy-owner reply'')
      | Reply (Some s) \<Rightarrow>
          bindE (ascii s) (\<lambda>t. if state_word t then Inr t else Inl (TuningError ''invalid policy-owner reply'')))"

definition power_managers :: "(string \<Rightarrow> bus_reply) \<Rightarrow> (string \<times> string) list res" where
  "power_managers query = mapE (\<lambda>unit. bindE (manager_state unit (query unit)) (\<lambda>s. Inr (unit, s))) POWER_MANAGERS"

end
