(* ===== verification/HwPolicyOwner.thy ===== *)
theory HwPolicyOwner
  imports HwPolicyBus
begin

text \<open>
  \<open>hardware_tuning/policy_owner.py\<close>, part 2: the ownership journal, the hardware locks, and taking the power
  policy over from the system's daemon and handing it back.
\<close>

definition OWNER_JOURNAL :: string where "OWNER_JOURNAL = ''/run/hardware-tuning/policy-owner.json''"

definition state_file :: "string \<Rightarrow> string" where
  "state_file name = ''/run/hardware-tuning/'' @ name"

record owner =
  ow_vendors :: "string list"
  ow_custom :: bool

subsection \<open>Files and locks\<close>

text \<open>As for the broker, of the checks of \<open>trusted_json\<close> the mode and the decoding can fail.\<close>

definition read_json :: "string \<Rightarrow> pyval option policy_io" where
  "read_json path =
     seqF skip_op
     (bindF (look (\<lambda>w. js_files w path)) (\<lambda>file.
      case file of
        None \<Rightarrow> retF None
      | Some f \<Rightarrow>
          seqF (assertF (jt_mode f AND 18 = 0) (TuningError (''untrusted configuration/state: '' @ path)))
          (case jt_doc f of
             None \<Rightarrow> raiseF (TuningError ''invalid or excessively nested JSON'')
           | Some v \<Rightarrow> retF (Some v))))"

definition take_lock :: "policy_env \<Rightarrow> string \<Rightarrow> unit policy_io" where
  "take_lock env path =
     (case lk_untrusted (pe_lock env path) of
        Some d \<Rightarrow> raiseF (TuningError (''untrusted policy state directory: '' @ d))
      | None \<Rightarrow>
          seqF skip_op
          (seqF (assertF (lk_regular (pe_lock env path)) (TuningError ''untrusted policy/hardware transaction lock''))
          (seqF (assertF (\<not> lk_busy (pe_lock env path)) (OSErr path))
          (assign (\<lambda>w. w\<lparr>pw_held := path # pw_held w\<rparr>)))))"

definition with_lock :: "policy_env \<Rightarrow> string \<Rightarrow> 'a policy_io \<Rightarrow> 'a policy_io" where
  "with_lock env path body =
     seqF (take_lock env path) (finallyF body (assign (\<lambda>w. w\<lparr>pw_held := removeAll path (pw_held w)\<rparr>)))"

definition parse_claim :: "pyval \<Rightarrow> bool res" where
  "parse_claim v =
     (let err = TuningError ''invalid policy ownership journal'' in
      case v of
        PDict d \<Rightarrow>
          if \<not> keys_eq d [''version'', ''claimed''] \<or> dget ''version'' d \<noteq> PInt 1 then Inl err
          else (case dget ''claimed'' d of PBool b \<Rightarrow> Inr b | _ \<Rightarrow> Inl err)
      | _ \<Rightarrow> Inl err)"

definition check_vendors :: "pyval \<Rightarrow> string list res" where
  "check_vendors v =
     (let err = TuningError ''invalid installed vendor set for policy handover'';
          check = (\<lambda>names. if names \<noteq> [] \<and> set names \<subseteq> set VENDORS \<and> distinct names then Inr names else Inl err)
      in case v of
        PList vs \<Rightarrow> bindE (mapE (\<lambda>x. case x of PStr s \<Rightarrow> Inr s | _ \<Rightarrow> Inl err) vs) check
      | PDict d \<Rightarrow> check (map fst d)
      | PStr s \<Rightarrow> Inl err
      | _ \<Rightarrow> if py_truthy v then Inl TypeErr else Inl err)"

definition open_owner :: "policy_env \<Rightarrow> pyval \<Rightarrow> bool \<Rightarrow> owner policy_io" where
  "open_owner env vendors custom =
     bindF (liftE (check_vendors vendors)) (\<lambda>vs.
     seqF (assign (\<lambda>w. w\<lparr>pw_claimed := False\<rparr>))
     (bindF (read_json OWNER_JOURNAL) (\<lambda>data.
      case data of
        None \<Rightarrow> retF \<lparr>ow_vendors = vs, ow_custom = custom\<rparr>
      | Some v \<Rightarrow>
          bindF (liftE (parse_claim v)) (\<lambda>b.
          seqF (assign (\<lambda>w. w\<lparr>pw_claimed := b\<rparr>)) (retF \<lparr>ow_vendors = vs, ow_custom = custom\<rparr>)))))"

definition claim_doc :: "bool \<Rightarrow> pyval" where
  "claim_doc b = PDict [(''version'', PInt 1), (''claimed'', PBool b)]"

definition set_claim :: "policy_env \<Rightarrow> bool \<Rightarrow> unit policy_io" where
  "set_claim env b =
     seqF (atomic_json (pe_size env) OWNER_JOURNAL (claim_doc b) 384) (assign (\<lambda>w. w\<lparr>pw_claimed := b\<rparr>))"

text \<open>A hardware journal that has nothing left to restore.\<close>

definition idle_journal :: "pyval \<Rightarrow> bool" where
  "idle_journal v = (case v of
      PDict d \<Rightarrow> keys_eq d [''version'', ''entries'', ''profile''] \<and> dget ''version'' d = PInt 1
        \<and> (case dget ''profile'' d of PNone \<Rightarrow> True | PStr p \<Rightarrow> p \<in> set PROFILES | _ \<Rightarrow> False)
        \<and> dget ''entries'' d = PList []
    | _ \<Rightarrow> False)"

definition check_idle :: "string \<Rightarrow> unit policy_io" where
  "check_idle vendor =
     bindF (read_json (state_file (vendor @ ''.json''))) (\<lambda>data.
     assertF (case data of None \<Rightarrow> True | Some v \<Rightarrow> idle_journal v)
       (TuningError (''hardware recovery must complete before policy handover: '' @ vendor)))"

fun with_idle :: "policy_env \<Rightarrow> string list \<Rightarrow> 'a policy_io \<Rightarrow> 'a policy_io" where
  "with_idle env [] body = body"
| "with_idle env (v # vs) body =
     with_lock env (state_file (v @ ''.lock'')) (seqF (check_idle v) (with_idle env vs body))"

definition hardware_idle :: "policy_env \<Rightarrow> owner \<Rightarrow> 'a policy_io \<Rightarrow> 'a policy_io" where
  "hardware_idle env ow body = with_idle env (sort (ow_vendors ow)) body"

subsection \<open>The two units\<close>

definition unmanaged :: unit_state where
  "unmanaged = \<lparr>un_load = ''not-managed'', un_active = ''not-managed'', un_file = ''not-managed''\<rparr>"

definition manages :: "owner \<Rightarrow> bool" where
  "manages ow = (''intel'' \<in> set (ow_vendors ow) \<and> \<not> ow_custom ow)"

definition ppd :: "policy_env \<Rightarrow> owner \<Rightarrow> unit_state policy_io" where
  "ppd env ow = (if manages ow then unit_state_of env PPD else retF unmanaged)"

definition state_doc :: "unit_state \<Rightarrow> pyval" where
  "state_doc u = PDict [(''load'', PStr (un_load u)), (''active'', PStr (un_active u)), (''file'', PStr (un_file u))]"

definition owner_status :: "policy_env \<Rightarrow> owner \<Rightarrow> pyval policy_io" where
  "owner_status env ow =
     bindF (ppd env ow) (\<lambda>p. bindF (unit_state_of env AUTOSTART) (\<lambda>a. bindF (look pw_claimed) (\<lambda>c.
     retF (PDict ([(''ppd'', state_doc p), (''autostart_unit'', state_doc a), (''claimed'', PBool c)]
        @ (if ow_custom ow then [(''provider'', PStr ''hardware-tuning'')] else []))))))"

definition owner_conflicts :: "(string \<times> string) list \<Rightarrow> string list" where
  "owner_conflicts states = map fst (filter (\<lambda>(unit, st). unit \<noteq> PPD \<and> st \<notin> set INACTIVE) states)"

definition check_other_owners :: "policy_env \<Rightarrow> owner \<Rightarrow> unit policy_io" where
  "check_other_owners env ow =
     (if ''intel'' \<notin> set (ow_vendors ow) then retF ()
      else
        seqF skip_op
        (bindF (look (\<lambda>w. pe_managers env (pw_calls w))) (\<lambda>query.
         bindF (liftE (bindE query power_managers)) (\<lambda>states.
         seqF (assertF (keys_eq states POWER_MANAGERS) (TuningError ''incomplete CPU policy-owner inventory''))
         (assertF (owner_conflicts states = [])
           (TuningError (''another CPU policy owner requires administrator attention: ''
              @ join '', '' (owner_conflicts states))))))))"

definition unmask_ppd :: "policy_env \<Rightarrow> unit policy_io" where
  "unmask_ppd env = seqF (change_files env ''UnmaskUnitFiles'' PPD True) (change_files env ''UnmaskUnitFiles'' PPD False)"

subsection \<open>Taking over\<close>

definition exclude_ppd :: "policy_env \<Rightarrow> owner \<Rightarrow> bool \<Rightarrow> unit_state \<Rightarrow> unit policy_io" where
  "exclude_ppd env ow boot p =
     seqF (if boot
           then seqF (unmask_ppd env)
                (seqF (change_files env ''DisableUnitFiles'' PPD False) (change_files env ''MaskUnitFiles'' PPD False))
           else whenF (un_file p \<notin> set MASKED) (change_files env ''MaskUnitFiles'' PPD True))
     (seqF (run_job env ''StopUnit'' PPD)
     (bindF (ppd env ow) (\<lambda>current.
      assertF (un_file current \<in> (if boot then {''masked''} else set MASKED) \<and> un_active current \<in> set INACTIVE)
        (TuningError ''PPD exclusion could not be verified; custom tuning remains stopped''))))"

definition prepare_owner :: "policy_env \<Rightarrow> owner \<Rightarrow> bool \<Rightarrow> pyval policy_io" where
  "prepare_owner env ow boot =
     seqF (check_other_owners env ow)
     (hardware_idle env ow
       (bindF (ppd env ow) (\<lambda>p.
        bindF (unit_state_of env AUTOSTART) (\<lambda>auto.
        seqF (assertF (un_load auto = ''loaded'' \<and> un_file auto \<in> {''enabled'', ''disabled''})
               (TuningError ''autostart unit is missing, masked or not a managed installable unit''))
        (seqF (set_claim env True)
        (seqF (whenF (boot \<and> un_file auto \<noteq> ''enabled'') (change_files env ''EnableUnitFiles'' AUTOSTART False))
        (seqF (whenF (un_load p \<noteq> ''not-managed'' \<and> un_load p \<noteq> ''not-found'') (exclude_ppd env ow boot p))
        (owner_status env ow))))))))"

definition activate_owner :: "policy_env \<Rightarrow> owner \<Rightarrow> pyval policy_io" where
  "activate_owner env ow =
     bindF (unit_state_of env AUTOSTART) (\<lambda>auto.
     seqF (whenF (un_file auto = ''enabled'' \<and> un_active auto \<noteq> ''active'') (run_job env ''StartUnit'' AUTOSTART))
     (owner_status env ow))"

subsection \<open>Handing back\<close>

definition restore_ppd :: "policy_env \<Rightarrow> owner \<Rightarrow> bool \<Rightarrow> unit_state \<Rightarrow> unit policy_io" where
  "restore_ppd env ow disable p =
     seqF (check_other_owners env ow)
     (seqF (whenF (un_file p \<in> set MASKED) (unmask_ppd env))
     (seqF (if disable
            then bindF (ppd env ow) (\<lambda>q. whenF (un_file q \<noteq> ''enabled'') (change_files env ''EnableUnitFiles'' PPD False))
            else retF ())
     (bindF (ppd env ow) (\<lambda>q.
      seqF (whenF (un_active q \<noteq> ''active'') (run_job env ''StartUnit'' PPD))
      (bindF (ppd env ow) (\<lambda>current.
       assertF (un_active current = ''active'' \<and> un_file current \<notin> set MASKED
                \<and> (disable \<longrightarrow> un_file current = ''enabled''))
         (TuningError ''PPD restoration could not be verified'')))))))"

definition release_owner :: "policy_env \<Rightarrow> owner \<Rightarrow> bool \<Rightarrow> bool \<Rightarrow> pyval policy_io" where
  "release_owner env ow disable recovery =
     bindF (if recovery
            then bindF (look pw_claimed) (\<lambda>c. if \<not> c then retF True else manager_stopping env)
            else retF False) (\<lambda>nothing.
     if nothing then owner_status env ow
     else
       hardware_idle env ow
         (bindF (ppd env ow) (\<lambda>p.
          seqF (whenF (un_load p \<noteq> ''not-found'' \<and> un_load p \<noteq> ''not-managed'') (restore_ppd env ow disable p))
          (bindF (unit_state_of env AUTOSTART) (\<lambda>auto.
           seqF (whenF (disable \<and> un_file auto = ''enabled'') (change_files env ''DisableUnitFiles'' AUTOSTART False))
           (seqF (whenF (un_active auto \<notin> set INACTIVE) (run_job env ''StopUnit'' AUTOSTART))
           (seqF (set_claim env False)
           (owner_status env ow))))))))"

subsection \<open>Running one operation\<close>

definition OWNER_ACTIONS :: "string list" where
  "OWNER_ACTIONS = [''status'', ''prepare-runtime'', ''prepare-boot'', ''activate'', ''stop'', ''disable'', ''recover'']"

definition execute_owner :: "policy_env \<Rightarrow> owner \<Rightarrow> string \<Rightarrow> pyval policy_io" where
  "execute_owner env ow action =
     (if action \<notin> set OWNER_ACTIONS then raiseF (TuningError ''invalid policy handover operation'')
      else if action = ''status'' then owner_status env ow
      else if starts_with ''prepare-'' action then prepare_owner env ow (action = ''prepare-boot'')
      else if action = ''activate'' then activate_owner env ow
      else release_owner env ow (action = ''disable'') (action = ''recover''))"

definition run_owner :: "policy_env \<Rightarrow> int \<Rightarrow> string list \<Rightarrow> pyval res \<Rightarrow> pyval policy_io" where
  "run_owner env euid argv config =
     seqF (assertF (euid = 0 \<and> length argv = 1 \<and> set argv \<subseteq> set OWNER_ACTIONS)
            (TuningError ''policy handover is root-only and accepts one fixed operation''))
     (bindF (liftE config) (\<lambda>cfg.
      case cfg of
        PDict d \<Rightarrow>
          seqF (connect env)
          (with_lock env (state_file ''policy-owner.lock'')
            (bindF (liftE (power_profiles_api d)) (\<lambda>custom.
             bindF (open_owner env (dget_or ''vendors'' (PList []) d) custom) (\<lambda>ow.
             bindF (execute_owner env ow (hd argv)) (\<lambda>r.
             retF (PDict [(''ok'', PBool True), (''result'', r)]))))))
      | _ \<Rightarrow> raiseF (TuningError ''invalid broker configuration'')))"

end
