(* ===== verification/HwPolicyFacts.thy ===== *)
theory HwPolicyFacts
  imports HwPolicyOwner HwBrokerFacts
begin

text \<open>
  What the calls of the policy helper keep. \<open>bus_rel\<close> is a relation of worlds that the program's own
  bookkeeping and a set of allowed bus calls keep; inside it, every function that makes only allowed calls
  keeps the relation, however its run ends.
\<close>

subsection \<open>Relations kept by allowed calls\<close>

locale bus_rel = state_rel R R for R :: "policy_world \<Rightarrow> policy_world \<Rightarrow> bool" +
  fixes env :: policy_env and allowed :: "bus_call \<Rightarrow> bool"
  assumes rel_call: "allowed c \<Longrightarrow> R w (w\<lparr>pw_units := fst (pe_bus env n c (pw_units w)), pw_calls := m\<rparr>)"
    and rel_reads: "R w (w\<lparr>pw_reads := Suc (pw_reads w)\<rparr>)"
    and rel_slept: "R w (w\<lparr>pw_slept := pw_slept w + 1 / 20\<rparr>)"
    and rel_deadline: "R w (w\<lparr>pw_deadline := q\<rparr>)"
    and rel_held: "R w (w\<lparr>pw_held := l\<rparr>)"
    and rel_claimed: "R w (w\<lparr>pw_claimed := b\<rparr>)"
    and queries_allowed: "allowed (Property path interface key)" "allowed (Method MANAGER_PATH ''LoadUnit'' a)"
      "allowed (Method MANAGER_PATH ''GetUnitFileState'' a)" "allowed (Method MANAGER_PATH ''Reload'' a)"
begin

lemma keeps_finally: "keeps R R m \<Longrightarrow> keeps R R fin \<Longrightarrow> keeps R R (finallyF m fin)"
proof (rule keepsI, unfold wpF_finally, rule wpF_mono [OF keepsD], assumption)
  fix s t :: "policy_world sys" and x
  assume "keeps R R fin" "R (sys_world s) (sys_world t)"
  then show "wpF fin (\<lambda>_ u. R (sys_world s) (sys_world u))
      (\<lambda>e u. if is_exception e then R (sys_world s) (sys_world u) else R (sys_world s) (sys_world u)) t"
    by (rule keeps_after)
next
  fix s t :: "policy_world sys" and e
  assume fin: "keeps R R fin" and R: "if is_exception e then R (sys_world s) (sys_world t) else R (sys_world s) (sys_world t)"
  have "wpF fin (\<lambda>_ u. R (sys_world s) (sys_world u)) (\<lambda>e u. R (sys_world s) (sys_world u)) t"
    using keeps_after [OF fin, of s t] R by simp
  then show "if e = Killed then (if is_exception e then R (sys_world s) (sys_world t) else R (sys_world s) (sys_world t))
      else wpF fin (\<lambda>_ u. if is_exception e then R (sys_world s) (sys_world u) else R (sys_world s) (sys_world u))
        (\<lambda>e u. if is_exception e then R (sys_world s) (sys_world u) else R (sys_world s) (sys_world u)) t"
    using R by simp
qed

lemma keeps_catch_any:
  assumes "keeps R R m" "\<And>e. keeps R R (h e)"
  shows "keeps R R (catchF m c h)"
proof (rule keepsI, unfold wpF_catch, rule wpF_mono [OF keepsD [OF assms(1)]])
  fix s t :: "policy_world sys" and e
  assume R: "if is_exception e then R (sys_world s) (sys_world t) else R (sys_world s) (sys_world t)"
  show "if e \<noteq> Killed \<and> c e
      then wpF (h e) (\<lambda>_ u. R (sys_world s) (sys_world u))
        (\<lambda>e u. if is_exception e then R (sys_world s) (sys_world u) else R (sys_world s) (sys_world u)) t
      else if is_exception e then R (sys_world s) (sys_world t) else R (sys_world s) (sys_world t)"
    using R keeps_after [OF assms(2), of s t e] by simp
qed auto

lemmas rules = keeps_bind keeps_seq keeps_when keeps_if keeps_option keeps_sum keeps_prod keeps_for keeps_map
  keeps_ret keeps_raise keeps_lift keeps_assert keeps_look keeps_finally

lemma keeps_monotonic: "keeps R R (monotonic env)"
  unfolding monotonic_def by (intro rules keeps_assign rel_reads)

lemma keeps_bound: "keeps R R (bound_call env)"
  unfolding bound_call_def by (intro rules keeps_monotonic)

lemma keeps_step: "allowed c \<Longrightarrow> keeps R R (bus_step env c)"
  unfolding bus_step_def
  by (rule keepsI) (auto simp: wp split: prod.split intro!: wpF_opI rel_refl, (metis rel_call fst_conv)+)

lemma keeps_reply: "(\<And>a b. keeps R R (f a b)) \<Longrightarrow> (\<And>v. keeps R R (g v)) \<Longrightarrow>
    keeps R R (case r of Refused a b \<Rightarrow> f a b | Reply v \<Rightarrow> g v)"
  by (cases r) simp_all

lemma keeps_method: "allowed (Method path member args) \<Longrightarrow> keeps R R (bus_method env path member args wants)"
  unfolding bus_method_def by (intro rules keeps_bound keeps_step keeps_reply)

lemma keeps_property: "keeps R R (bus_property env path interface key)"
  unfolding bus_property_def by (intro rules keeps_bound keeps_step keeps_reply queries_allowed)

lemma keeps_required: "keeps R R m \<Longrightarrow> keeps R R (required m)"
  unfolding required_def by (intro rules)

lemma keeps_state: "keeps R R (unit_state_of env unit)"
  unfolding unit_state_of_def loaded_state_def
  by (intro rules keeps_method keeps_property keeps_required queries_allowed)

lemma keeps_files:
  assumes "\<And>args. hd args = PStr unit \<Longrightarrow> args ! 1 = PBool runtime \<Longrightarrow> allowed (Method MANAGER_PATH member args)"
  shows "keeps R R (change_files env member unit runtime)"
  unfolding change_files_def
  by (intro rules keeps_method keeps_required queries_allowed assms) simp_all

lemma keeps_finished: "keeps R R (job_finished env member unit path job)"
  unfolding job_finished_def by (intro rules keeps_property keeps_required)

lemma keeps_wait: "keeps R R (job_wait n env member unit path job expires)"
  by (induction n) (simp_all, intro rules, intro rules keeps_finished keeps_monotonic keeps_assign rel_slept)

lemma keeps_cancel: "allowed (Method job ''Cancel'' []) \<Longrightarrow> keeps R R (cancel_job env job)"
  unfolding cancel_job_def
  by (intro rules keeps_catch_any keeps_monotonic keeps_method keeps_required keeps_assign rel_deadline)

lemma keeps_job:
  assumes "\<And>args. allowed (Method MANAGER_PATH member args)" "\<And>job. allowed (Method job ''Cancel'' [])"
  shows "keeps R R (run_job env member unit)"
  unfolding run_job_def
  by (intro rules keeps_catch_any keeps_monotonic keeps_method keeps_required keeps_wait keeps_cancel assms)

lemma keeps_read: "keeps R R (read_json path)"
  unfolding read_json_def skip_op_def by (intro rules keeps_op rel_refl)

lemma keeps_lock: "keeps R R (take_lock env path)"
  unfolding take_lock_def skip_op_def by (intro rules keeps_op keeps_assign rel_refl rel_held)

lemma keeps_with_lock: "keeps R R body \<Longrightarrow> keeps R R (with_lock env path body)"
  unfolding with_lock_def by (intro rules keeps_lock keeps_assign rel_held)

lemma keeps_with_idle: "keeps R R body \<Longrightarrow> keeps R R (with_idle env vs body)"
proof (induction vs)
  case (Cons v vs)
  then show ?case by (simp, intro keeps_with_lock rules) (simp_all add: check_idle_def, intro rules keeps_read)
qed simp

lemma keeps_ppd: "keeps R R (ppd env ow)"
  unfolding ppd_def by (intro rules keeps_state)

lemma keeps_owner_status: "keeps R R (owner_status env ow)"
  unfolding owner_status_def by (intro rules keeps_ppd keeps_state)

lemma keeps_others: "keeps R R (check_other_owners env ow)"
  unfolding check_other_owners_def skip_op_def by (intro rules keeps_op rel_refl)

lemmas reading = rules keeps_state keeps_ppd keeps_owner_status keeps_others

end

end
