(* ===== verification/HwPolicyBoot.thy ===== *)
theory HwPolicyBoot
  imports HwPolicyFacts
begin

text \<open>
  After a power cut at any moment of a handover, the next boot has an owner of the power policy: the
  autostart of hardware tuning or the system's own daemon. And no service is changed before the ownership
  journal says so.
\<close>

subsection \<open>What is documented of systemd\<close>

definition next_boot :: "pid1_unit \<Rightarrow> bool" where
  "next_boot u \<longleftrightarrow> pu_installed u \<and> pu_enabled u \<and> \<not> pu_masked u"

text \<open>The calls that may take a unit out of the next boot, and the calls that only ask.\<close>

definition disables :: "bus_call \<Rightarrow> string \<Rightarrow> bool" where
  "disables c unit \<longleftrightarrow> (case c of
      Method path member (a # b # args) \<Rightarrow> path = MANAGER_PATH \<and> a = PStr unit
        \<and> (member = ''DisableUnitFiles'' \<or> member = ''MaskUnitFiles'' \<and> b = PBool False)
    | _ \<Rightarrow> False)"

definition asks :: "bus_call \<Rightarrow> bool" where
  "asks c \<longleftrightarrow> (case c of
      Property path interface key \<Rightarrow> True
    | Method path member args \<Rightarrow> path = MANAGER_PATH \<and> member \<in> {''LoadUnit'', ''GetUnitFileState'', ''Reload''})"

definition documented :: "policy_env \<Rightarrow> bool" where
  "documented env \<longleftrightarrow> (\<forall>n c us us' r. pe_bus env n c us = (us', r) \<longrightarrow>
     (asks c \<longrightarrow> us' = us)
     \<and> (\<forall>u. pu_installed (us' u) = pu_installed (us u))
     \<and> (\<forall>u. next_boot (us u) \<longrightarrow> \<not> disables c u \<longrightarrow> next_boot (us' u))
     \<and> (\<forall>u v. c = Method MANAGER_PATH ''EnableUnitFiles'' [PStr u, PBool False, PBool False] \<longrightarrow> r = Reply v \<longrightarrow> next_boot (us' u))
     \<and> (\<forall>u. c = Method MANAGER_PATH ''GetUnitFileState'' [PStr u] \<longrightarrow> r = Reply (Some ''enabled'') \<longrightarrow> next_boot (us u))
     \<and> (\<forall>u name m. c = Method MANAGER_PATH ''LoadUnit'' [PStr u] \<longrightarrow> r = Refused (Some name) m \<longrightarrow> name \<in> set ABSENT
          \<longrightarrow> \<not> pu_installed (us u))
     \<and> (\<forall>u p. unit_path u = Inr p \<longrightarrow> c = Property p UNIT_INTERFACE ''LoadState'' \<longrightarrow> r = Reply (Some ''not-found'')
          \<longrightarrow> \<not> pu_installed (us u)))"

lemma documentedD:
  assumes "documented env" "pe_bus env n c us = (us', r)"
  shows "asks c \<Longrightarrow> us' = us" "pu_installed (us' u) = pu_installed (us u)"
    "next_boot (us u) \<Longrightarrow> \<not> disables c u \<Longrightarrow> next_boot (us' u)"
    "c = Method MANAGER_PATH ''EnableUnitFiles'' [PStr u, PBool False, PBool False] \<Longrightarrow> r = Reply v \<Longrightarrow> next_boot (us' u)"
    "c = Method MANAGER_PATH ''GetUnitFileState'' [PStr u] \<Longrightarrow> r = Reply (Some ''enabled'') \<Longrightarrow> next_boot (us u)"
    "c = Method MANAGER_PATH ''LoadUnit'' [PStr u] \<Longrightarrow> r = Refused (Some name) m \<Longrightarrow> name \<in> set ABSENT \<Longrightarrow> \<not> pu_installed (us u)"
    "unit_path u = Inr p \<Longrightarrow> c = Property p UNIT_INTERFACE ''LoadState'' \<Longrightarrow> r = Reply (Some ''not-found'') \<Longrightarrow> \<not> pu_installed (us u)"
  using assms unfolding documented_def by blast+

lemma asks_simps [simp]:
  "asks (Property path interface key)" "asks (Method MANAGER_PATH ''LoadUnit'' a)"
  "asks (Method MANAGER_PATH ''GetUnitFileState'' a)" "asks (Method MANAGER_PATH ''Reload'' a)"
  by (simp_all add: asks_def)

lemma disables_simps [simp]:
  "\<not> disables (Property path interface key) u" "\<not> disables (Method p ''LoadUnit'' a) u"
  "\<not> disables (Method p ''GetUnitFileState'' a) u" "\<not> disables (Method p ''Reload'' a) u"
  "\<not> disables (Method p ''Cancel'' a) u" "\<not> disables (Method p ''StartUnit'' a) u" "\<not> disables (Method p ''StopUnit'' a) u"
  "\<not> disables (Method p ''EnableUnitFiles'' a) u" "\<not> disables (Method p ''UnmaskUnitFiles'' a) u"
  by (simp_all add: disables_def split: list.split)

lemma disables_files:
  assumes "hd args = PStr unit" "args ! 1 = PBool runtime" "disables (Method path member args) u"
  shows "u = unit \<and> (member = ''MaskUnitFiles'' \<longrightarrow> \<not> runtime)"
  using assms by (auto simp: disables_def split: list.splits)

subsection \<open>Two relations\<close>

text \<open>Asking leaves units and files alone; the other calls keep the units of \<open>X\<close> in the next boot.\<close>

definition untouched :: "policy_world \<Rightarrow> policy_world \<Rightarrow> bool" where
  "untouched v w \<longleftrightarrow> pw_units w = pw_units v \<and> js_files w = js_files v"

definition stays :: "string set \<Rightarrow> policy_world \<Rightarrow> policy_world \<Rightarrow> bool" where
  "stays X v w \<longleftrightarrow> (\<forall>u. pu_installed (pw_units w u) = pu_installed (pw_units v u))
     \<and> (\<forall>u \<in> X. next_boot (pw_units v u) \<longrightarrow> next_boot (pw_units w u))"

text \<open>An environment that behaves as documented, or one whose calls do nothing.\<close>

definition behaving :: "policy_env \<Rightarrow> policy_env" where
  "behaving env = (if documented env then env else env\<lparr>pe_bus := (\<lambda>n c us. (us, Refused None None))\<rparr>)"

lemma behaving_documented: "documented env \<Longrightarrow> behaving env = env"
  by (simp add: behaving_def)

lemma documented_behaving: "documented (behaving env)"
  by (auto simp: behaving_def documented_def)

interpretation asking: bus_rel untouched "behaving env" asks for env
proof (unfold_locales, goal_cases)
  case (4 c w m n)
  then show ?case
    using documentedD(1) [OF documented_behaving [of env], of n c "pw_units w"]
    by (cases "pe_bus (behaving env) n c (pw_units w)") (simp add: untouched_def)
qed (simp_all add: untouched_def)

interpretation staying: bus_rel "stays X" "behaving env" "\<lambda>c. \<forall>u \<in> X. \<not> disables c u" for env X
proof (unfold_locales, goal_cases)
  case (4 c w m n)
  then show ?case
    using documentedD(2, 3) [OF documented_behaving [of env], of n c "pw_units w"]
    by (cases "pe_bus (behaving env) n c (pw_units w)") (simp add: stays_def)
qed (simp_all add: stays_def)

text \<open>The first kind of relation does not see the journal, so recording the claim keeps it.\<close>

lemma claim_units: "wpF (set_claim env b) (\<lambda>_ t. pw_units (sys_world t) = pw_units (sys_world s))
    (\<lambda>_ t. pw_units (sys_world t) = pw_units (sys_world s)) s"
proof -
  have units: "pw_units v = pw_units w" if "store_rest v = store_rest w" for v w :: policy_world
    using that by (cases v; cases w) (simp add: store_rest_def)
  show ?thesis
    unfolding set_claim_def wpF_seq [of "atomic_json _ _ _ _"]
  proof (rule wpF_mono [OF atomic_json_atomic], goal_cases)
    case (1 x t)
    then show ?case using units [of "sys_world t" "sys_world s"] by (simp add: wpF_assign)
  next
    case (2 e t)
    then show ?case using units [of "sys_world t" "sys_world s"] by simp
  qed
qed

lemma claim_stays: "keeps (stays X) (stays X) (set_claim env b)"
  by (rule keepsI, rule wpF_mono [OF claim_units]) (auto simp: stays_def)

subsection \<open>What an answer says\<close>

text \<open>The reply that a returned result stands for.\<close>

fun stands_for :: "bus_reply \<Rightarrow> string \<Rightarrow> bool \<Rightarrow> string bus_result \<Rightarrow> bool" where
  "stands_for (Refused a b) operation wants r = (r = Inl (bus_failure a b operation))"
| "stands_for (Reply v) operation wants r = (\<exists>x. r = Inr x \<and> (wants \<longrightarrow> v = Some x))"

definition answered :: "policy_env \<Rightarrow> bus_call \<Rightarrow> policy_world \<Rightarrow> policy_world \<Rightarrow> bus_reply \<Rightarrow> bool" where
  "answered env c v w reply \<longleftrightarrow> (\<exists>n. pe_bus env n c (pw_units v) = (pw_units w, reply))"

lemma bound_wp:
  assumes "documented env"
  shows "wpF (bound_call env) (\<lambda>_ t. untouched (sys_world s) (sys_world t)) (\<lambda>_ t. untouched (sys_world s) (sys_world t)) s"
  using keepsD [OF asking.keeps_bound [of env], of s] by (simp add: behaving_documented [OF assms])

lemma step_wp:
  "wpF (bus_step env c) (\<lambda>r t. answered env c (sys_world s) (sys_world t) r) (\<lambda>_ _. True) s"
  unfolding bus_step_def answered_def
  by (auto simp: wp split: prod.split intro!: wpF_opI)

lemma method_wp:
  assumes "documented env"
  shows "wpF (bus_method env path member args wants)
     (\<lambda>r t. \<exists>reply. answered env (Method path member args) (sys_world s) (sys_world t) reply \<and> stands_for reply member wants r)
     (\<lambda>_ _. True) s"
  unfolding bus_method_def wpF_seq [of "bound_call env"]
proof (rule wpF_mono [OF bound_wp [OF assms]], unfold wpF_bind [of "bus_step _ _"], rule wpF_mono [OF step_wp])
  fix x s' reply and t :: "policy_world sys"
  assume u: "untouched (sys_world s) (sys_world s')" and a: "answered env (Method path member args) (sys_world s') (sys_world t) reply"
  have "answered env (Method path member args) (sys_world s) (sys_world t) reply" using u a by (simp add: answered_def untouched_def)
  then show "wpF (case reply of Refused name message \<Rightarrow> retF (Inl (bus_failure name message member))
      | Reply v \<Rightarrow> if \<not> wants then retF (Inr []) else (case v of
          None \<Rightarrow> raiseF (TuningError (''invalid systemd reply to '' @ member))
        | Some s \<Rightarrow> if s = [] then raiseF (TuningError (''invalid systemd reply to '' @ member))
            else bindF (liftE (ascii s)) (\<lambda>t. retF (Inr t))))
     (\<lambda>r t. \<exists>reply. answered env (Method path member args) (sys_world s) (sys_world t) reply \<and> stands_for reply member wants r)
     (\<lambda>_ _. True) t"
    by (auto simp: wp ascii_def split: bus_reply.split option.split sum.split intro!: exI [of _ reply])
qed simp_all

lemma property_wp:
  assumes "documented env"
  shows "wpF (bus_property env path interface key)
     (\<lambda>r t. \<exists>reply. answered env (Property path interface key) (sys_world s) (sys_world t) reply \<and> stands_for reply key True r)
     (\<lambda>_ _. True) s"
  unfolding bus_property_def wpF_seq [of "bound_call env"]
proof (rule wpF_mono [OF bound_wp [OF assms]], unfold wpF_bind [of "bus_step _ _"], rule wpF_mono [OF step_wp])
  fix x s' reply and t :: "policy_world sys"
  assume u: "untouched (sys_world s) (sys_world s')" and a: "answered env (Property path interface key) (sys_world s') (sys_world t) reply"
  have "answered env (Property path interface key) (sys_world s) (sys_world t) reply" using u a by (simp add: answered_def untouched_def)
  then show "wpF (case reply of Refused name message \<Rightarrow> retF (Inl (bus_failure name message key))
      | Reply None \<Rightarrow> raiseF (TuningError ''empty systemd property'')
      | Reply (Some s) \<Rightarrow> bindF (liftE (ascii s)) (\<lambda>t. retF (Inr t)))
     (\<lambda>r t. \<exists>reply. answered env (Property path interface key) (sys_world s) (sys_world t) reply \<and> stands_for reply key True r)
     (\<lambda>_ _. True) t"
    by (auto simp: wp ascii_def split: bus_reply.split option.split sum.split intro!: exI [of _ reply])
qed simp_all

text \<open>A state that is read tells the truth about the unit.\<close>

definition truthful :: "string \<Rightarrow> unit_state \<Rightarrow> policy_world \<Rightarrow> bool" where
  "truthful u st w \<longleftrightarrow> (un_file st = ''enabled'' \<longrightarrow> next_boot (pw_units w u))
     \<and> (un_load st = ''not-found'' \<longrightarrow> \<not> pu_installed (pw_units w u)) \<and> un_load st \<noteq> ''not-managed''"

lemma answered_asks: "documented env \<Longrightarrow> asks c \<Longrightarrow> answered env c v w reply \<Longrightarrow> pw_units w = pw_units v"
  unfolding answered_def using documentedD(1) by blast

lemma loaded_state_wp:
  assumes "documented env" "unit_path u = Inr path"
  shows "wpF (loaded_state env u path) (\<lambda>st t. pw_units (sys_world t) = pw_units (sys_world s) \<and> truthful u st (sys_world t)) (\<lambda>_ _. True) s"
proof -
  let ?same = "\<lambda>t :: policy_world sys. pw_units (sys_world t) = pw_units (sys_world s)"
  have filed: "wpF (required (bus_method env MANAGER_PATH ''GetUnitFileState'' [PStr u] True))
     (\<lambda>f v. ?same v \<and> (f = ''enabled'' \<longrightarrow> next_boot (pw_units (sys_world s) u))) (\<lambda>_ _. True) t" if "?same t" for t
    unfolding required_def wpF_bind
  proof (rule wpF_mono [OF method_wp [OF assms(1)]], goal_cases)
    case (1 r v)
    then obtain reply where reply: "answered env (Method MANAGER_PATH ''GetUnitFileState'' [PStr u]) (sys_world t) (sys_world v) reply"
      "stands_for reply ''GetUnitFileState'' True r" by blast
    then have "?same v" using answered_asks [OF assms(1) _ reply(1)] that by simp
    moreover have "next_boot (pw_units (sys_world s) u)" if "r = Inr ''enabled''"
      using reply that \<open>?same t\<close> documentedD(5) [OF assms(1)] by (cases reply) (auto simp: answered_def)
    ultimately show ?case by (cases r) (auto simp: wp split: prod.split)
  qed simp
  have asked: "wpF (required (bus_property env path UNIT_INTERFACE key))
     (\<lambda>x v. ?same v \<and> (key = ''LoadState'' \<longrightarrow> x = ''not-found'' \<longrightarrow> \<not> pu_installed (pw_units (sys_world s) u))) (\<lambda>_ _. True) t"
    if "?same t" for t key
    unfolding required_def wpF_bind
  proof (rule wpF_mono [OF property_wp [OF assms(1)]], goal_cases)
    case (1 r v)
    then obtain reply where reply: "answered env (Property path UNIT_INTERFACE key) (sys_world t) (sys_world v) reply"
      "stands_for reply key True r" by blast
    then have "?same v" using answered_asks [OF assms(1) _ reply(1)] that by simp
    moreover have "\<not> pu_installed (pw_units (sys_world s) u)" if "key = ''LoadState''" "r = Inr ''not-found''"
      using reply that \<open>?same t\<close> documentedD(7) [OF assms(1) _ assms(2)] by (cases reply) (auto simp: answered_def)
    ultimately show ?case by (cases r) (auto simp: wp split: prod.split)
  qed simp
  show ?thesis
    unfolding loaded_state_def wpF_bind [of "required _"]
    by (rule wpF_mono [OF asked [of s "''LoadState''"]], simp, rule wpF_mono [OF asked [of _ "''ActiveState''"]], simp)
      (auto simp: wp truthful_def intro!: wpF_mono [OF filed])
qed

lemma state_wp:
  assumes "documented env"
  shows "wpF (unit_state_of env u) (\<lambda>st t. untouched (sys_world s) (sys_world t) \<and> truthful u st (sys_world t))
     (\<lambda>_ t. untouched (sys_world s) (sys_world t)) s"
proof -
  have "wpF (unit_state_of env u) (\<lambda>st t. pw_units (sys_world t) = pw_units (sys_world s) \<and> truthful u st (sys_world t)) (\<lambda>_ _. True) s"
    unfolding unit_state_of_def wpF_bind wpF_lift
  proof (cases "unit_path u")
    case (Inr path)
    then show "case unit_path u of Inl e \<Rightarrow> True | Inr path \<Rightarrow>
        wpF (bus_method env MANAGER_PATH ''LoadUnit'' [PStr u] True)
         (\<lambda>r. wpF (case r of Inl (name, message) \<Rightarrow> if name \<in> set ABSENT
             then retF \<lparr>un_load = ''not-found'', un_active = ''inactive'', un_file = ''not-found''\<rparr> else raiseF (TuningError message)
           | Inr _ \<Rightarrow> loaded_state env u path)
           (\<lambda>st t. pw_units (sys_world t) = pw_units (sys_world s) \<and> truthful u st (sys_world t)) (\<lambda>_ _. True))
         (\<lambda>_ _. True) s"
    proof (simp, intro wpF_mono [OF method_wp [OF assms]], goal_cases)
      case (1 r v)
      then obtain reply where reply: "answered env (Method MANAGER_PATH ''LoadUnit'' [PStr u]) (sys_world s) (sys_world v) reply"
        "stands_for reply ''LoadUnit'' True r" by blast
      then have same: "pw_units (sys_world v) = pw_units (sys_world s)" using answered_asks [OF assms _ reply(1)] by simp
      have "\<not> pu_installed (pw_units (sys_world s) u)" if nm: "r = Inl (name, m)" "name \<in> set ABSENT" for name m
      proof -
        obtain a b where ab: "reply = Refused a b" "bus_failure a b ''LoadUnit'' = (name, m)"
          using reply(2) nm(1) by (cases reply) auto
        then have "a = Some name" using nm(2) by (auto simp: bus_failure_def ABSENT_def split: option.splits if_splits)
        then show ?thesis using reply(1) ab(1) documentedD(6) [OF assms] nm(2) unfolding answered_def by blast
      qed
      moreover have "wpF (loaded_state env u path)
          (\<lambda>st t. pw_units (sys_world t) = pw_units (sys_world s) \<and> truthful u st (sys_world t)) (\<lambda>_ _. True) v"
        by (rule wpF_mono [OF loaded_state_wp [OF assms Inr]]) (use same in auto)
      ultimately show ?case using same by (cases r) (auto simp: wp truthful_def)
    qed simp
  qed simp
  from wpF_conj [OF this keepsD [OF asking.keeps_state [where env = env], where s = s, unfolded behaving_documented [OF assms]]]
  show ?thesis by (rule wpF_mono) (auto split: if_splits)
qed

end
