(* ===== verification/HwPolicySafety.thy ===== *)
theory HwPolicySafety
  imports HwPolicyBoot
begin

text \<open>
  What a handover of the power policy guarantees wherever it is cut off, on every behaviour of systemd that
  is documented.
\<close>

subsection \<open>An owner for the next boot\<close>

definition has_boot_owner :: "units \<Rightarrow> bool" where
  "has_boot_owner us \<longleftrightarrow> next_boot (us AUTOSTART) \<or> next_boot (us PPD) \<or> \<not> pu_installed (us PPD)"

text \<open>A predicate on units that every call used keeps; the locks and files around do not matter.\<close>

interpretation unit_inv: bus_rel "\<lambda>v w. P (pw_units v) \<longrightarrow> P (pw_units w)" "behaving env" asks for P env
proof (unfold_locales, goal_cases)
  case (4 c w m n)
  then show ?case
    using documentedD(1) [OF documented_behaving [of env], of n c "pw_units w"]
    by (cases "pe_bus (behaving env) n c (pw_units w)") simp
qed auto

abbreviation preserves :: "(units \<Rightarrow> bool) \<Rightarrow> 'a policy_io \<Rightarrow> bool" where
  "preserves P m \<equiv> keeps (\<lambda>v w. P (pw_units v) \<longrightarrow> P (pw_units w)) (\<lambda>v w. P (pw_units v) \<longrightarrow> P (pw_units w)) m"

text \<open>From a state with \<open>P\<close> the program ends in a state with \<open>Q\<close>, however it ends.\<close>

definition ends_in :: "(units \<Rightarrow> bool) \<Rightarrow> 'a policy_io \<Rightarrow> policy_world sys \<Rightarrow> bool" where
  "ends_in Q m s \<longleftrightarrow> wpF m (\<lambda>_ t. Q (pw_units (sys_world t))) (\<lambda>_ t. Q (pw_units (sys_world t))) s"

lemma preservesI:
  assumes "\<And>s. P (pw_units (sys_world s)) \<Longrightarrow> ends_in P m s"
  shows "preserves P m"
proof (rule keepsI)
  fix s :: "policy_world sys"
  show "wpF m (\<lambda>_ t. P (pw_units (sys_world s)) \<longrightarrow> P (pw_units (sys_world t)))
     (\<lambda>e t. if is_exception e then P (pw_units (sys_world s)) \<longrightarrow> P (pw_units (sys_world t))
        else P (pw_units (sys_world s)) \<longrightarrow> P (pw_units (sys_world t))) s"
  proof (cases "P (pw_units (sys_world s))")
    case True
    show ?thesis using assms [OF True] unfolding ends_in_def by (rule wpF_mono) simp_all
  next
    case False
    then show ?thesis by (intro wpF_mono [OF wpF_any]) simp_all
  qed
qed

lemma ends_bind:
  assumes "wpF m (\<lambda>x t. ends_in Q (f x) t) (\<lambda>_ t. Q (pw_units (sys_world t))) s"
  shows "ends_in Q (bindF m f) s"
  using assms by (simp add: ends_in_def wpF_bind)

lemma ends_seq:
  assumes "wpF m (\<lambda>x t. ends_in Q n t) (\<lambda>_ t. Q (pw_units (sys_world t))) s"
  shows "ends_in Q (seqF m n) s"
  using assms unfolding seqF_def by (rule ends_bind)

lemma ends_stays:
  assumes "keeps (stays X) (stays X) m" "\<And>w. stays X (sys_world s) w \<Longrightarrow> Q (pw_units w)"
  shows "ends_in Q m s"
  unfolding ends_in_def by (rule wpF_mono [OF keepsD [OF assms(1)]]) (use assms(2) in \<open>auto split: if_splits\<close>)

text \<open>The instances that are used, for an environment that behaves as documented.\<close>

lemma documented_stays:
  assumes "documented env"
  shows "keeps (stays X) (stays X) (unit_state_of env u)" "keeps (stays X) (stays X) (ppd env ow)"
    "keeps (stays X) (stays X) (owner_status env ow)" "keeps (stays X) (stays X) (check_other_owners env ow)"
    "member \<in> {''StartUnit'', ''StopUnit''} \<Longrightarrow> keeps (stays X) (stays X) (run_job env member u)"
    "member \<in> {''EnableUnitFiles'', ''UnmaskUnitFiles''} \<Longrightarrow> keeps (stays X) (stays X) (change_files env member u runtime)"
    "keeps (stays X) (stays X) (change_files env ''MaskUnitFiles'' u True)"
    "u \<notin> X \<Longrightarrow> keeps (stays X) (stays X) (change_files env member u runtime)"
    "keeps (stays X) (stays X) m \<Longrightarrow> keeps (stays X) (stays X) (hardware_idle env ow m)"
    "keeps (stays X) (stays X) (manager_stopping env)"
proof -
  note B = behaving_documented [OF assms]
  show "keeps (stays X) (stays X) (unit_state_of env u)" "keeps (stays X) (stays X) (ppd env ow)"
    "keeps (stays X) (stays X) (owner_status env ow)" "keeps (stays X) (stays X) (check_other_owners env ow)"
    using staying.keeps_state [of X env] staying.keeps_ppd [of X env] staying.keeps_owner_status [of X env]
      staying.keeps_others [of X env] by (simp_all add: B)
  show "keeps (stays X) (stays X) (run_job env member u)" if "member \<in> {''StartUnit'', ''StopUnit''}"
    by (rule staying.keeps_job [where env = env, unfolded B]) (use that in auto)
  show "keeps (stays X) (stays X) (change_files env member u runtime)" if "member \<in> {''EnableUnitFiles'', ''UnmaskUnitFiles''}"
    by (rule staying.keeps_files [where env = env, unfolded B]) (use that in auto)
  show "keeps (stays X) (stays X) (change_files env ''MaskUnitFiles'' u True)"
    by (rule staying.keeps_files [where env = env, unfolded B]) (auto dest: disables_files)
  show "keeps (stays X) (stays X) (change_files env member u runtime)" if "u \<notin> X"
    by (rule staying.keeps_files [where env = env, unfolded B]) (use that disables_files in blast)
  show "keeps (stays X) (stays X) (hardware_idle env ow m)" if "keeps (stays X) (stays X) m"
    unfolding hardware_idle_def by (rule staying.keeps_with_idle [where env = env, unfolded B, OF that])
  show "keeps (stays X) (stays X) (manager_stopping env)"
    unfolding manager_stopping_def
    by (intro staying.rules staying.keeps_required staying.keeps_property [where env = env, unfolded B])
qed

lemma stays_preserves: "keeps (stays UNIV) (stays UNIV) m \<Longrightarrow> preserves has_boot_owner m"
  by (rule preservesI, rule ends_stays) (auto simp: stays_def has_boot_owner_def)

lemmas quiet = staying.rules documented_stays claim_stays

text \<open>Asking for a unit, then going on with what its state says.\<close>

lemma ends_state:
  assumes "documented env" "Q (pw_units (sys_world s))"
    and "\<And>st t. pw_units (sys_world t) = pw_units (sys_world s) \<Longrightarrow> truthful u st (sys_world t) \<Longrightarrow> ends_in Q (f st) t"
  shows "ends_in Q (bindF (unit_state_of env u) f) s"
  by (rule ends_bind, rule wpF_mono [OF state_wp [OF assms(1)]]) (use assms(2, 3) in \<open>auto simp: untouched_def\<close>)

lemma ends_ppd:
  assumes "documented env" "manages ow" "Q (pw_units (sys_world s))"
    and "\<And>st t. pw_units (sys_world t) = pw_units (sys_world s) \<Longrightarrow> truthful PPD st (sys_world t) \<Longrightarrow> ends_in Q (f st) t"
  shows "ends_in Q (bindF (ppd env ow) f) s"
  using ends_state [of env Q s PPD f] assms by (simp add: ppd_def)

lemma ends_claim:
  assumes "Q (pw_units (sys_world s))" "\<And>t. pw_units (sys_world t) = pw_units (sys_world s) \<Longrightarrow> ends_in Q n t"
  shows "ends_in Q (seqF (set_claim env b) n) s"
  by (rule ends_seq, rule wpF_mono [OF claim_units]) (use assms in auto)

lemma ends_assert:
  assumes "Q (pw_units (sys_world s))" "b \<Longrightarrow> ends_in Q n s"
  shows "ends_in Q (seqF (assertF b e) n) s"
  using assms by (simp add: ends_in_def wpF_seq wpF_assert)

lemma enable_wp:
  assumes "documented env"
  shows "wpF (change_files env ''EnableUnitFiles'' u False)
     (\<lambda>_ t. stays UNIV (sys_world s) (sys_world t) \<and> next_boot (pw_units (sys_world t) u))
     (\<lambda>_ t. stays UNIV (sys_world s) (sys_world t)) s"
proof -
  let ?c = "Method MANAGER_PATH ''EnableUnitFiles'' [PStr u, PBool False, PBool False]"
  have "wpF (change_files env ''EnableUnitFiles'' u False) (\<lambda>_ t. next_boot (pw_units (sys_world t) u)) (\<lambda>_ _. True) s"
  proof -
    have enable: "wpF (required (bus_method env MANAGER_PATH ''EnableUnitFiles'' [PStr u, PBool False, PBool False] False))
        (\<lambda>_ t. next_boot (pw_units (sys_world t) u)) (\<lambda>_ _. True) s"
      unfolding required_def wpF_bind
    proof (rule wpF_mono [OF method_wp [OF assms]], goal_cases)
      case (1 r t)
      then obtain reply where reply: "answered env ?c (sys_world s) (sys_world t) reply"
        "stands_for reply ''EnableUnitFiles'' False r" by blast
      show ?case
      proof (cases reply)
        case (Refused a b)
        then show ?thesis using reply(2) by (auto simp: wp split: prod.split)
      next
        case (Reply v)
        then have "next_boot (pw_units (sys_world t) u)"
          using reply(1) documentedD(4) [OF assms, of _ ?c] unfolding answered_def by blast
        then show ?thesis using reply(2) Reply by (auto simp: wp)
      qed
    qed simp
    have reload: "wpF (bindF (required (bus_method env MANAGER_PATH ''Reload'' [] False)) (\<lambda>_. retF ()))
        (\<lambda>_ v. next_boot (pw_units (sys_world v) u)) (\<lambda>_ _. True) t" if "next_boot (pw_units (sys_world t) u)" for t
    proof -
      have "keeps untouched untouched (required (bus_method env MANAGER_PATH ''Reload'' [] False))"
        using asking.keeps_required [OF asking.keeps_method [where env = env and path = MANAGER_PATH and member = "''Reload''" and args = "[]" and wants = False]]
        by (simp add: behaving_documented [OF assms])
      from keepsD [OF this, of t] show ?thesis unfolding wpF_bind wpF_ret
        by (rule wpF_mono) (use that in \<open>auto simp: untouched_def\<close>)
    qed
    show ?thesis
      unfolding change_files_def
      by (auto simp: wpF_bind wpF_lift wpF_seq wpF_assert split: sum.split
          intro!: wpF_mono [OF enable] reload [unfolded wpF_bind])
  qed
  from wpF_conj [OF this keepsD [OF documented_stays(6) [OF assms, of "''EnableUnitFiles''" UNIV u False], of s]]
  show ?thesis by (rule wpF_mono) (auto split: if_splits)
qed

text \<open>Taking over for the next boot: the autostart is enabled before the daemon is disabled.\<close>

lemma units_distinct [simp]: "PPD \<noteq> AUTOSTART" "AUTOSTART \<noteq> PPD"
  by (simp_all add: PPD_def AUTOSTART_def)

lemma exclude_stays:
  assumes "documented env"
  shows "keeps (stays {AUTOSTART}) (stays {AUTOSTART}) (exclude_ppd env ow boot p)"
    "keeps (stays UNIV) (stays UNIV) (exclude_ppd env ow False p)"
  unfolding exclude_ppd_def unmask_ppd_def by (intro quiet assms; simp)+

lemma enabled_wp:
  assumes "documented env" "un_file auto = ''enabled'' \<longrightarrow> next_boot (pw_units (sys_world s) AUTOSTART)"
    and "has_boot_owner (pw_units (sys_world s))"
  shows "wpF (whenF (un_file auto \<noteq> ''enabled'') (change_files env ''EnableUnitFiles'' AUTOSTART False))
     (\<lambda>_ t. next_boot (pw_units (sys_world t) AUTOSTART)) (\<lambda>_ t. has_boot_owner (pw_units (sys_world t))) s"
  unfolding wpF_when
  using assms by (auto intro!: wpF_mono [OF enable_wp [OF assms(1)]] simp: stays_def has_boot_owner_def)

lemma prepare_preserves:
  assumes "documented env" "manages ow"
  shows "preserves has_boot_owner (prepare_owner env ow boot)"
proof (cases boot)
  case False
  then show ?thesis
    unfolding prepare_owner_def by (intro stays_preserves quiet assms) (simp_all add: exclude_stays(2) [OF assms(1)] quiet)
next
  case True
  let ?rest = "\<lambda>p. seqF (whenF (un_load p \<noteq> ''not-managed'' \<and> un_load p \<noteq> ''not-found'') (exclude_ppd env ow boot p)) (owner_status env ow)"
  have rest: "ends_in has_boot_owner (?rest p) t" if "next_boot (pw_units (sys_world t) AUTOSTART)" for p t
    by (rule ends_stays [of "{AUTOSTART}"], intro quiet exclude_stays assms) (use that in \<open>auto simp: stays_def has_boot_owner_def\<close>)
  have body: "preserves has_boot_owner
       (bindF (ppd env ow) (\<lambda>p.
        bindF (unit_state_of env AUTOSTART) (\<lambda>auto.
        seqF (assertF (un_load auto = ''loaded'' \<and> un_file auto \<in> {''enabled'', ''disabled''})
               (TuningError ''autostart unit is missing, masked or not a managed installable unit''))
        (seqF (set_claim env True)
        (seqF (whenF (boot \<and> un_file auto \<noteq> ''enabled'') (change_files env ''EnableUnitFiles'' AUTOSTART False))
        (?rest p))))))"
  proof (rule preservesI, rule ends_ppd [OF assms], assumption, rule ends_state [OF assms(1)], simp, rule ends_assert, simp,
      rule ends_claim, simp, rule ends_seq)
    fix s t v x :: "policy_world sys" and p auto
    assume o: "has_boot_owner (pw_units (sys_world s))" and same: "pw_units (sys_world t) = pw_units (sys_world s)"
      "pw_units (sys_world v) = pw_units (sys_world t)" "pw_units (sys_world x) = pw_units (sys_world v)"
      and auto: "truthful AUTOSTART auto (sys_world v)"
    show "wpF (whenF (boot \<and> un_file auto \<noteq> ''enabled'') (change_files env ''EnableUnitFiles'' AUTOSTART False))
         (\<lambda>_. ends_in has_boot_owner (?rest p)) (\<lambda>_ t. has_boot_owner (pw_units (sys_world t))) x"
      using wpF_mono [OF enabled_wp [OF assms(1), of auto x] rest] o same auto True by (simp add: truthful_def)
  qed
  show ?thesis
    unfolding prepare_owner_def hardware_idle_def
    by (rule unit_inv.keeps_seq, intro stays_preserves quiet assms,
        rule unit_inv.keeps_with_idle [where env = env, unfolded behaving_documented [OF assms(1)]], rule body)
qed

text \<open>Handing back: the daemon is enabled before the autostart is disabled.\<close>

lemma restore_stays:
  assumes "documented env"
  shows "keeps (stays UNIV) (stays UNIV) (restore_ppd env ow disable p)"
  unfolding restore_ppd_def unmask_ppd_def by (intro quiet assms; simp)

lemma pass_bind:
  assumes "preserves P m" "P (pw_units (sys_world s))"
    and "\<And>x t. P (pw_units (sys_world t)) \<Longrightarrow> wpF (f x) Q (\<lambda>_ t. P (pw_units (sys_world t))) t"
  shows "wpF (bindF m f) Q (\<lambda>_ t. P (pw_units (sys_world t))) s"
  unfolding wpF_bind by (rule wpF_mono [OF keepsD [OF assms(1)]]) (use assms(2, 3) in \<open>auto split: if_splits\<close>)

lemma pass_seq:
  assumes "preserves P m" "P (pw_units (sys_world s))"
    and "\<And>t. P (pw_units (sys_world t)) \<Longrightarrow> wpF n Q (\<lambda>_ t. P (pw_units (sys_world t))) t"
  shows "wpF (seqF m n) Q (\<lambda>_ t. P (pw_units (sys_world t))) s"
  unfolding seqF_def by (rule pass_bind [OF assms])

lemma restored_wp:
  assumes "documented env" "manages ow" "has_boot_owner (pw_units (sys_world s))"
  shows "wpF (restore_ppd env ow True p) (\<lambda>_ t. next_boot (pw_units (sys_world t) PPD))
     (\<lambda>_ t. has_boot_owner (pw_units (sys_world t))) s"
proof -
  let ?I = "\<lambda>t :: policy_world sys. has_boot_owner (pw_units (sys_world t))"
  let ?check = "bindF (ppd env ow) (\<lambda>current.
       assertF (un_active current = ''active'' \<and> un_file current \<notin> set MASKED \<and> (True \<longrightarrow> un_file current = ''enabled''))
         (TuningError ''PPD restoration could not be verified''))"
  have check: "wpF ?check (\<lambda>_ t. next_boot (pw_units (sys_world t) PPD)) (\<lambda>_. ?I) t" if "?I t" for t
    using assms(2) that unfolding ppd_def
    by (auto simp: wpF_bind wpF_assert untouched_def truthful_def intro!: wpF_mono [OF state_wp [OF assms(1)]])
  have pre: "preserves has_boot_owner (check_other_owners env ow)"
    "preserves has_boot_owner (whenF (un_file p \<in> set MASKED) (unmask_ppd env))"
    "preserves has_boot_owner (if True then bindF (ppd env ow) (\<lambda>q. whenF (un_file q \<noteq> ''enabled'') (change_files env ''EnableUnitFiles'' PPD False)) else retF ())"
    "preserves has_boot_owner (ppd env ow)" "preserves has_boot_owner (whenF (un_active q \<noteq> ''active'') (run_job env ''StartUnit'' PPD))" for q
    unfolding unmask_ppd_def by (intro stays_preserves quiet assms; simp)+
  show ?thesis
    unfolding restore_ppd_def
    by (rule pass_seq [OF pre(1) assms(3)], rule pass_seq [OF pre(2)], assumption, rule pass_seq [OF pre(3)], assumption,
        rule pass_bind [OF pre(4)], assumption, rule pass_seq [OF pre(5)], assumption, rule check)
qed

lemma release_preserves:
  assumes "documented env" "manages ow"
  shows "preserves has_boot_owner (release_owner env ow disable recovery)"
proof -
  let ?tail = "\<lambda>auto. seqF (whenF (un_active auto \<notin> set INACTIVE) (run_job env ''StopUnit'' AUTOSTART))
     (seqF (set_claim env False) (owner_status env ow))"
  let ?rest = "bindF (unit_state_of env AUTOSTART) (\<lambda>auto.
     seqF (whenF (disable \<and> un_file auto = ''enabled'') (change_files env ''DisableUnitFiles'' AUTOSTART False)) (?tail auto))"
  let ?body = "bindF (ppd env ow) (\<lambda>p.
     seqF (whenF (un_load p \<noteq> ''not-found'' \<and> un_load p \<noteq> ''not-managed'') (restore_ppd env ow disable p)) ?rest)"
  have rest: "ends_in has_boot_owner ?rest t" if "next_boot (pw_units (sys_world t) PPD) \<or> \<not> pu_installed (pw_units (sys_world t) PPD)" for t
    by (rule ends_stays [of "{PPD}"], intro quiet assms) (use that in \<open>auto simp: stays_def has_boot_owner_def\<close>)
  have body: "preserves has_boot_owner ?body"
  proof (cases disable)
    case True
    show ?thesis
    proof (rule preservesI, rule ends_ppd [OF assms], assumption, rule ends_seq)
      fix s t :: "policy_world sys" and p
      assume o: "has_boot_owner (pw_units (sys_world s))" and same: "pw_units (sys_world t) = pw_units (sys_world s)"
        and p: "truthful PPD p (sys_world t)"
      have "wpF (restore_ppd env ow True p) (\<lambda>_. ends_in has_boot_owner ?rest) (\<lambda>_ t. has_boot_owner (pw_units (sys_world t))) t"
        by (rule wpF_mono [OF restored_wp [OF assms, of t p]]) (use o same rest in simp_all)
      then have "wpF (restore_ppd env ow disable p) (\<lambda>_. ends_in has_boot_owner ?rest) (\<lambda>_ t. has_boot_owner (pw_units (sys_world t))) t"
        using True by simp
      then show "wpF (whenF (un_load p \<noteq> ''not-found'' \<and> un_load p \<noteq> ''not-managed'') (restore_ppd env ow disable p))
         (\<lambda>_. ends_in has_boot_owner ?rest) (\<lambda>_ t. has_boot_owner (pw_units (sys_world t))) t"
        using rest [of t] p by (auto simp: wpF_when truthful_def)
    qed
  next
    case False
    then show ?thesis by (intro stays_preserves quiet assms restore_stays) simp_all
  qed
  have whole: "preserves has_boot_owner (hardware_idle env ow ?body)"
    unfolding hardware_idle_def
    by (rule unit_inv.keeps_with_idle [where env = env, unfolded behaving_documented [OF assms(1)]], rule body)
  show ?thesis
    unfolding release_owner_def
    by (intro unit_inv.rules whole) (intro stays_preserves quiet assms)+
qed

text \<open>A helper that does not manage the daemon, as in every configuration whose power profiles the broker
  serves itself, touches no unit file, except that a requested \<open>disable\<close> disables the autostart.\<close>

lemma bind_ret [simp]: "bindF (retF x) f = f x"
  by (rule ext) (simp add: bindF_def retF_def)

lemma unmanaged_status [simp]: "un_load unmanaged = ''not-managed''"
  by (simp add: unmanaged_def)

lemma unmanaged_prepare:
  assumes "documented env" "\<not> manages ow"
  shows "keeps (stays X) (stays X) (prepare_owner env ow boot)"
  unfolding prepare_owner_def ppd_def using assms(2)
  by (simp add: whenF_def) (intro quiet assms; simp)

lemma unmanaged_release:
  assumes "documented env" "\<not> manages ow" "disable \<longrightarrow> AUTOSTART \<notin> X"
  shows "keeps (stays X) (stays X) (release_owner env ow disable recovery)"
proof -
  have off: "keeps (stays X) (stays X)
      (whenF (disable \<and> un_file auto = ''enabled'') (change_files env ''DisableUnitFiles'' AUTOSTART False))" for auto
    by (cases disable) (use assms(3) in \<open>auto simp: whenF_def intro!: staying.rules documented_stays [OF assms(1)]\<close>)
  have skip: "bindF (ppd env ow) (\<lambda>p. seqF (whenF (un_load p \<noteq> ''not-found'' \<and> un_load p \<noteq> ''not-managed'') (m p)) n)
      = seqF (retF ()) n" for m :: "unit_state \<Rightarrow> unit policy_io" and n :: "pyval policy_io"
    using assms(2) by (simp add: ppd_def whenF_def)
  show ?thesis
    unfolding release_owner_def skip by (intro staying.rules documented_stays [OF assms(1)] claim_stays off; simp)
qed

lemma unmanaged_stays:
  assumes "documented env" "\<not> manages ow" "action = ''disable'' \<longrightarrow> AUTOSTART \<notin> X"
  shows "keeps (stays X) (stays X) (execute_owner env ow action)"
  unfolding execute_owner_def activate_owner_def
  by (intro staying.keeps_if unmanaged_prepare unmanaged_release) (use assms in \<open>auto intro!: quiet\<close>)

text \<open>C21 (the next boot keeps an owner of the power policy): on every behaviour of systemd that is documented,
  each operation of the policy helper keeps this at every moment, also when it fails, is cut off or loses an
  answer: the autostart of hardware tuning is enabled, or the system's power profile daemon is, or the daemon
  is not installed. There is one exception. A helper that does not manage the daemon, because no Intel
  hardware is tuned or because the broker serves the power profiles itself (\<open>power_profiles_api\<close>, which the
  installer sets wherever Intel hardware is tuned), does not enable the daemon either: when it is asked to
  \<open>disable\<close> and the daemon was installed but not enabled before, no owner can be left.\<close>

theorem boot_owner_kept:
  assumes "documented env" "has_boot_owner (pw_units (sys_world s))"
    and "execute_owner env ow action s = (r, t)"
  shows "has_boot_owner (pw_units (sys_world t))
    \<or> \<not> manages ow \<and> action = ''disable''
      \<and> pu_installed (pw_units (sys_world s) PPD) \<and> \<not> next_boot (pw_units (sys_world s) PPD)"
proof (cases "manages ow")
  case True
  have "preserves has_boot_owner (execute_owner env ow action)"
    unfolding execute_owner_def activate_owner_def
    by (intro unit_inv.keeps_if prepare_preserves release_preserves assms True) (intro stays_preserves quiet assms; simp)+
  from wpF_run [OF keepsD [OF this] assms(3)] show ?thesis using assms(2) by (auto split: sum.splits if_splits)
next
  case False
  let ?X = "if action = ''disable'' then {PPD} else UNIV"
  have "keeps (stays ?X) (stays ?X) (execute_owner env ow action)"
    by (rule unmanaged_stays [OF assms(1) False]) simp
  from wpF_run [OF keepsD [OF this] assms(3)] have "stays ?X (sys_world s) (sys_world t)"
    by (cases r) (auto split: if_splits)
  then show ?thesis using assms(2) False by (auto simp: stays_def has_boot_owner_def split: if_splits)
qed

end
