(* ===== verification/HwPolicyLife.thy ===== *)
theory HwPolicyLife
  imports HwPolicySafety
begin

text \<open>
  The ownership journal comes before the first change of a service, and the loop that waits for a job ends;
  with a concrete systemd on which the guarantees are instantiated.
\<close>

subsection \<open>The claim comes first\<close>

definition claim_on_disk :: "policy_world \<Rightarrow> bool" where
  "claim_on_disk w \<longleftrightarrow> js_files w OWNER_JOURNAL = Some (json_file 384 (claim_doc True))"

interpretation filing: bus_rel "\<lambda>v w. js_files w = js_files v" env "\<lambda>_. True" for env
  by unfold_locales simp_all

lemma filing_after:
  "keeps (\<lambda>v w :: policy_world. js_files w = js_files v) (\<lambda>v w. js_files w = js_files v) m \<Longrightarrow> claim_on_disk (sys_world s)
    \<Longrightarrow> wpF m (\<lambda>_ t. claim_on_disk (sys_world t)) (\<lambda>_ t. claim_on_disk (sys_world t)) s"
  by (drule keepsD [of _ _ _ s], erule wpF_mono) (auto simp: claim_on_disk_def split: if_splits)

lemma asking_before:
  assumes "keeps untouched untouched m" "A (pw_units (sys_world s), js_files (sys_world s))"
    and "\<And>x t. A (pw_units (sys_world t), js_files (sys_world t)) \<Longrightarrow> Q x t"
    and "\<And>e t. A (pw_units (sys_world t), js_files (sys_world t)) \<Longrightarrow> E e t"
  shows "wpF m Q E s"
  by (rule wpF_mono [OF keepsD [OF assms(1)]]) (use assms(2-4) in \<open>auto simp: untouched_def split: if_splits\<close>)

lemma with_idle_wp:
  fixes s :: "policy_world sys"
  assumes body: "\<And>t. A (pw_units (sys_world t), js_files (sys_world t)) \<Longrightarrow>
      wpF body (\<lambda>_ u. G (pw_units (sys_world u), js_files (sys_world u))) (\<lambda>_ u. H (pw_units (sys_world u), js_files (sys_world u))) t"
    and "\<And>x. A x \<Longrightarrow> H x" "A (pw_units (sys_world s), js_files (sys_world s))"
  shows "wpF (with_idle env vs body) (\<lambda>_ u. G (pw_units (sys_world u), js_files (sys_world u)))
     (\<lambda>_ u. H (pw_units (sys_world u), js_files (sys_world u))) s"
  using assms(3)
proof (induction vs arbitrary: s)
  case (Cons v vs)
  let ?A = "\<lambda>t :: policy_world sys. A (pw_units (sys_world t), js_files (sys_world t))"
  have lock: "keeps untouched untouched (take_lock env path)" for path
    using asking.keeps_lock [of "behaving env"] unfolding take_lock_def
    by (intro asking.rules asking.keeps_assign) (simp_all add: skip_op_def asking.keeps_op untouched_def)
  have check: "keeps untouched untouched (check_idle v)"
    unfolding check_idle_def by (intro asking.rules asking.keeps_read)
  have inner: "wpF (seqF (check_idle v) (with_idle env vs body)) (\<lambda>_ u. G (pw_units (sys_world u), js_files (sys_world u)))
     (\<lambda>_ u. H (pw_units (sys_world u), js_files (sys_world u))) t" if "?A t" for t
    unfolding wpF_seq by (rule asking_before [where A = A, OF check that Cons.IH]) (auto intro: assms(2))
  have "wpF (finallyF (seqF (check_idle v) (with_idle env vs body)) (assign (\<lambda>w. w\<lparr>pw_held := removeAll path (pw_held w)\<rparr>)))
     (\<lambda>_ u. G (pw_units (sys_world u), js_files (sys_world u))) (\<lambda>_ u. H (pw_units (sys_world u), js_files (sys_world u))) t"
    if "?A t" for t path
    unfolding wpF_finally wpF_assign by (rule wpF_mono [OF inner [OF that]]) auto
  then show ?case
    unfolding with_idle.simps with_lock_def wpF_seq [of "take_lock _ _"]
    by (intro asking_before [where A = A, OF lock Cons.prems]) (auto intro: assms(2))
qed (use body in simp)

lemma claim_wp:
  assumes "pw_units (sys_world s) = us"
  shows "wpF (set_claim env True) (\<lambda>_ t. claim_on_disk (sys_world t)) (\<lambda>_ t. pw_units (sys_world t) = us) s"
proof -
  have "wpF (set_claim env True) (\<lambda>_ t. claim_on_disk (sys_world t)) (\<lambda>_ _. True) s"
    unfolding set_claim_def wpF_seq [of "atomic_json _ _ _ _"]
    by (rule wpF_mono [OF atomic_json_atomic]) (simp_all add: wpF_assign claim_on_disk_def)
  from wpF_conj [OF this claim_units [of env True s]] show ?thesis by (rule wpF_mono) (use assms in simp_all)
qed

lemma prepare_tail_files:
  "keeps (\<lambda>v w :: policy_world. js_files w = js_files v) (\<lambda>v w. js_files w = js_files v)
     (seqF (whenF b (change_files env ''EnableUnitFiles'' AUTOSTART False))
     (seqF (whenF c (exclude_ppd env ow boot p)) (owner_status env ow)))"
  unfolding exclude_ppd_def unmask_ppd_def
  by (intro filing.rules filing.keeps_files filing.keeps_job filing.keeps_ppd filing.keeps_owner_status) simp_all

text \<open>C22 (the claim is on disk before a service changes): however the preparation of a takeover ends, as long as
  the ownership journal does not say that the policy is claimed no unit has changed, and when the
  preparation returns it does say so.\<close>

theorem claim_before_change:
  assumes "documented env" "prepare_owner env ow boot s = (r, t)"
  shows "case r of Inl e \<Rightarrow> pw_units (sys_world t) = pw_units (sys_world s) \<or> claim_on_disk (sys_world t)
     | Inr x \<Rightarrow> claim_on_disk (sys_world t)"
proof -
  let ?us = "pw_units (sys_world s)"
  let ?A = "\<lambda>x :: units \<times> (string \<Rightarrow> jtmp option). fst x = ?us"
  let ?G = "\<lambda>x :: units \<times> (string \<Rightarrow> jtmp option). snd x OWNER_JOURNAL = Some (json_file 384 (claim_doc True))"
  let ?H = "\<lambda>x. ?A x \<or> ?G x"
  let ?tail = "\<lambda>p auto. seqF (whenF (boot \<and> un_file auto \<noteq> ''enabled'') (change_files env ''EnableUnitFiles'' AUTOSTART False))
     (seqF (whenF (un_load p \<noteq> ''not-managed'' \<and> un_load p \<noteq> ''not-found'') (exclude_ppd env ow boot p)) (owner_status env ow))"
  note B = behaving_documented [OF assms(1)]
  have tail: "wpF (?tail p auto) (\<lambda>_ u. ?G (pw_units (sys_world u), js_files (sys_world u)))
     (\<lambda>_ u. ?H (pw_units (sys_world u), js_files (sys_world u))) t" if "claim_on_disk (sys_world t)" for p auto t
    by (rule wpF_mono [OF filing_after [OF prepare_tail_files that]]) (simp_all add: claim_on_disk_def)
  have claimed: "wpF (seqF (set_claim env True) (?tail p auto)) (\<lambda>_ u. ?G (pw_units (sys_world u), js_files (sys_world u)))
     (\<lambda>_ u. ?H (pw_units (sys_world u), js_files (sys_world u))) t" if "pw_units (sys_world t) = ?us" for p auto t
    unfolding wpF_seq [of "set_claim _ _"] by (rule wpF_mono [OF claim_wp [OF that] tail]) simp_all
  have body: "wpF (bindF (ppd env ow) (\<lambda>p. bindF (unit_state_of env AUTOSTART) (\<lambda>auto.
        seqF (assertF (un_load auto = ''loaded'' \<and> un_file auto \<in> {''enabled'', ''disabled''})
               (TuningError ''autostart unit is missing, masked or not a managed installable unit''))
        (seqF (set_claim env True) (?tail p auto)))))
      (\<lambda>_ u. ?G (pw_units (sys_world u), js_files (sys_world u))) (\<lambda>_ u. ?H (pw_units (sys_world u), js_files (sys_world u))) t"
    if "?A (pw_units (sys_world t), js_files (sys_world t))" for t
    unfolding wpF_bind wpF_seq [of "assertF _ _"] wpF_assert
    by (rule asking_before [where A = ?A, OF asking.keeps_ppd [where env = env, unfolded B] that],
        rule asking_before [where A = ?A, OF asking.keeps_state [where env = env, unfolded B]])
      (use claimed in auto)
  have "wpF (prepare_owner env ow boot) (\<lambda>_ u. ?G (pw_units (sys_world u), js_files (sys_world u)))
     (\<lambda>_ u. ?H (pw_units (sys_world u), js_files (sys_world u))) s"
    unfolding prepare_owner_def wpF_seq [of "check_other_owners _ _"] hardware_idle_def
    by (rule asking_before [where A = ?A, OF asking.keeps_others [where env = env, unfolded B]], simp,
        rule with_idle_wp [where A = ?A, OF body]) auto
  from wpF_run [OF this assms(2)] show ?thesis by (cases r) (simp_all add: claim_on_disk_def)
qed

subsection \<open>Waiting for a job ends\<close>

text \<open>The clock of a world: what it read last, or a later reading.\<close>

definition clock_at :: "policy_env \<Rightarrow> policy_world \<Rightarrow> rat" where
  "clock_at env w = pe_clock env (pw_reads w) + pw_slept w"

definition later :: "policy_world \<Rightarrow> policy_world \<Rightarrow> bool" where
  "later v w \<longleftrightarrow> pw_reads v \<le> pw_reads w \<and> pw_slept v \<le> pw_slept w"

interpretation passing: bus_rel later env "\<lambda>_. True" for env
  by unfold_locales (auto simp: later_def)

lemma later_clock: "mono (pe_clock env) \<Longrightarrow> later v w \<Longrightarrow> clock_at env v \<le> clock_at env w"
  unfolding clock_at_def later_def by (intro add_mono) (auto dest: monoD)

definition slept_once :: "policy_world \<Rightarrow> policy_world" where
  "slept_once w = w\<lparr>pw_reads := Suc (pw_reads w), pw_slept := pw_slept w + 1 / 20\<rparr>"

lemma job_wait_turn:
  "job_wait (Suc n) env member unit path job expires s =
     (case job_finished env member unit path job s of
        (Inl e, t) \<Rightarrow> (Inl e, t)
      | (Inr b, t) \<Rightarrow>
          if b then (Inr True, t)
          else if clock_at env (sys_world t) < expires
          then job_wait n env member unit path job expires (upd slept_once t)
          else (Inl (TuningError (''systemd job timed out: '' @ member @ '' '' @ unit)),
                upd (\<lambda>w. w\<lparr>pw_reads := Suc (pw_reads w)\<rparr>) t))"
  by (simp add: bindF_def seqF_def monotonic_def look_def getF_def assign_def modF_def assertF_def retF_def raiseF_def
      clock_at_def slept_once_def upd_def split: prod.split sum.split)

lemma slept_clock:
  assumes "mono (pe_clock env)"
  shows "clock_at env w + 1 / 20 \<le> clock_at env (slept_once w)"
  using monoD [OF assms, of "pw_reads w" "Suc (pw_reads w)"] by (simp add: clock_at_def slept_once_def)

lemma finished_later:
  assumes "mono (pe_clock env)" "job_finished env member unit path job s = (r, t)"
  shows "clock_at env (sys_world s) \<le> clock_at env (sys_world t)"
  using wpF_run [OF keepsD [OF passing.keeps_finished] assms(2)]
  by (auto intro: later_clock [OF assms(1)] split: sum.splits if_splits)

lemma job_wait_enough:
  fixes s :: "policy_world sys"
  assumes "mono (pe_clock env)" "expires \<le> clock_at env (sys_world s) + rat_of_nat k / 20"
  shows "job_wait (Suc k + m) env member unit path job expires s = job_wait (Suc k) env member unit path job expires s
     \<and> fst (job_wait (Suc k) env member unit path job expires s) \<noteq> Inr False"
  using assms(2)
proof (induction k arbitrary: s)
  case 0
  obtain r t where run: "job_finished env member unit path job s = (r, t)" by (cases "job_finished env member unit path job s")
  have "\<not> clock_at env (sys_world t) < expires" using finished_later [OF assms(1) run] 0 by simp
  then show ?case unfolding add_Suc job_wait_turn run by (cases r) auto
next
  case (Suc k)
  obtain r t where run: "job_finished env member unit path job s = (r, t)" by (cases "job_finished env member unit path job s")
  have "clock_at env (sys_world s) + 1 / 20 \<le> clock_at env (slept_once (sys_world t))"
    using finished_later [OF assms(1) run] slept_clock [OF assms(1), of "sys_world t"] by simp
  moreover have "rat_of_nat (Suc k) / 20 = rat_of_nat k / 20 + 1 / 20" by (simp add: field_simps)
  then have "expires \<le> clock_at env (sys_world s) + 1 / 20 + rat_of_nat k / 20" using Suc.prems by linarith
  ultimately have "expires \<le> clock_at env (sys_world (upd slept_once t)) + rat_of_nat k / 20" by simp
  from Suc.IH [OF this] show ?case
    unfolding add_Suc [of "Suc k"] job_wait_turn [of "Suc k + m"] job_wait_turn [of "Suc k"] run by (cases r) auto
qed

text \<open>C38 (waiting for a systemd job ends): with a clock that does not run backwards, the loop that polls a job
  ends within its 401 turns, because each sleeps a twentieth of a second and the limit is at most twenty
  seconds away; more turns change nothing.\<close>

theorem job_wait_ends:
  assumes "mono (pe_clock env)" "expires \<le> clock_at env (sys_world s) + 20" "JOB_TURNS \<le> n"
  shows "job_wait n env member unit path job expires s = job_wait JOB_TURNS env member unit path job expires s
     \<and> fst (job_wait JOB_TURNS env member unit path job expires s) \<noteq> Inr False"
  using job_wait_enough [OF assms(1), of expires s 400 "n - JOB_TURNS" member unit path job] assms(2, 3)
  by (simp add: JOB_TURNS_def eval_nat_numeral(3) [symmetric])

subsection \<open>A concrete systemd\<close>

definition set_unit :: "string \<Rightarrow> (pid1_unit \<Rightarrow> pid1_unit) \<Rightarrow> units \<Rightarrow> units" where
  "set_unit u f us = us(u := f (us u))"

definition file_state :: "pid1_unit \<Rightarrow> string" where
  "file_state p = (if pu_masked p then ''masked'' else if pu_runtime p then ''masked-runtime''
     else if pu_enabled p then ''enabled'' else ''disabled'')"

fun unit_of_path :: "string \<Rightarrow> string" where
  "unit_of_path path = (if Inr path = unit_path PPD then PPD else if Inr path = unit_path AUTOSTART then AUTOSTART else [])"

definition tiny_property :: "string \<Rightarrow> string \<Rightarrow> units \<Rightarrow> bus_reply" where
  "tiny_property path key us =
     (let p = us (unit_of_path path) in
      if key = ''LoadState''
      then Reply (Some (if \<not> pu_installed p then ''not-found'' else if pu_masked p \<or> pu_runtime p then ''masked'' else ''loaded''))
      else if key = ''ActiveState'' then Reply (Some (if pu_active p then ''active'' else ''inactive''))
      else Refused (Some ''org.freedesktop.DBus.Error.UnknownObject'') None)"

fun tiny_method :: "string \<Rightarrow> pyval list \<Rightarrow> units \<Rightarrow> units \<times> bus_reply" where
  "tiny_method member (PStr u # args) us =
     (if member = ''LoadUnit'' then (us, Reply (Some ''/unit''))
      else if member = ''GetUnitFileState'' then (us, if pu_installed (us u) then Reply (Some (file_state (us u))) else Refused None None)
      else if member = ''EnableUnitFiles''
      then (if pu_installed (us u) \<and> \<not> pu_masked (us u) then (set_unit u (\<lambda>p. p\<lparr>pu_enabled := True\<rparr>) us, Reply None)
            else (us, Refused None None))
      else if member = ''DisableUnitFiles'' \<and> args \<noteq> [] then (set_unit u (\<lambda>p. p\<lparr>pu_enabled := False\<rparr>) us, Reply None)
      else if member = ''MaskUnitFiles''
      then (set_unit u (\<lambda>p. if take 1 args = [PBool False] then p\<lparr>pu_masked := True\<rparr> else p\<lparr>pu_runtime := True\<rparr>) us, Reply None)
      else if member = ''UnmaskUnitFiles''
      then (set_unit u (\<lambda>p. if take 1 args = [PBool False] then p\<lparr>pu_masked := False\<rparr> else p\<lparr>pu_runtime := False\<rparr>) us, Reply None)
      else if member \<in> {''StartUnit'', ''StopUnit''}
      then (set_unit u (\<lambda>p. p\<lparr>pu_active := (member = ''StartUnit'')\<rparr>) us, Reply (Some (JOB_PREFIX @ ''7'')))
      else (us, Refused None None))"
| "tiny_method member args us = (us, if member = ''Reload'' then Reply None else Refused None None)"

definition tiny_bus :: "nat \<Rightarrow> bus_call \<Rightarrow> units \<Rightarrow> units \<times> bus_reply" where
  "tiny_bus n c us = (case c of
      Method path member args \<Rightarrow> if path = MANAGER_PATH then tiny_method member args us else (us, Refused None None)
    | Property path interface key \<Rightarrow> (us, tiny_property path key us))"

definition tiny_policy_env :: policy_env where
  "tiny_policy_env = \<lparr>pe_size = (\<lambda>_. 0), pe_connected = True, pe_bus = tiny_bus, pe_bounded = (\<lambda>_. True), pe_clock = (\<lambda>_. 0),
     pe_lock = (\<lambda>_. \<lparr>lk_untrusted = None, lk_regular = True, lk_busy = False\<rparr>),
     pe_managers = (\<lambda>_. Inr (\<lambda>_. Reply (Some ''inactive'')))\<rparr>"

definition tiny_units :: units where
  "tiny_units u = (if u = PPD
     then \<lparr>pu_installed = True, pu_enabled = True, pu_masked = False, pu_runtime = False, pu_active = True\<rparr>
     else \<lparr>pu_installed = True, pu_enabled = False, pu_masked = False, pu_runtime = False, pu_active = False\<rparr>)"

definition tiny_owner :: owner where
  "tiny_owner = \<lparr>ow_vendors = [''intel''], ow_custom = False\<rparr>"

definition tiny_world :: "policy_world sys" where
  "tiny_world = \<lparr>sys_step = 0, sys_script = (\<lambda>_. Fine), sys_world =
     \<lparr>js_files = (\<lambda>_. None), js_tmps = (\<lambda>_. None), js_next = 0, pw_units = tiny_units, pw_claimed = False, pw_held = [],
      pw_deadline = 40, pw_slept = 0, pw_calls = 0, pw_reads = 0\<rparr>\<rparr>"

lemma two_paths: "unit_path PPD \<noteq> unit_path AUTOSTART"
  by code_simp

lemma path_of_units: "unit_path u = Inr p \<Longrightarrow> unit_of_path p = u"
  using two_paths by (auto simp: unit_path_def UNITS_def split: if_splits)

lemma tiny_installed: "pu_installed (fst (tiny_bus n c us) u) = pu_installed (us u)"
proof (cases c)
  case (Method path member args)
  have "pu_installed (fst (tiny_method member args us) u) = pu_installed (us u)"
    by (cases "(member, args, us)" rule: tiny_method.cases) (simp_all add: set_unit_def)
  then show ?thesis using Method by (simp add: tiny_bus_def)
qed (simp add: tiny_bus_def)

lemma tiny_asks: "asks c \<Longrightarrow> fst (tiny_bus n c us) = us"
proof (cases c)
  case (Method path member args)
  assume "asks c"
  then have "member \<in> {''LoadUnit'', ''GetUnitFileState'', ''Reload''}" using Method by (simp add: asks_def)
  then have "fst (tiny_method member args us) = us"
    by (cases "(member, args, us)" rule: tiny_method.cases) auto
  then show ?thesis using Method by (simp add: tiny_bus_def)
qed (simp add: tiny_bus_def)

lemma tiny_method_boot:
  assumes "next_boot (us u)" "\<not> disables (Method MANAGER_PATH member (PStr v # args)) u"
  shows "next_boot (fst (tiny_method member (PStr v # args) us) u)"
proof (cases "u = v")
  case True
  then have d: "member = ''DisableUnitFiles'' \<Longrightarrow> args = []" "member = ''MaskUnitFiles'' \<Longrightarrow> take 1 args \<noteq> [PBool False]"
    using assms(2) by (cases args; simp add: disables_def)+
  show ?thesis using assms(1) True d
    by (cases "member = ''MaskUnitFiles''"; cases "member = ''DisableUnitFiles''") (simp_all add: set_unit_def next_boot_def)
next
  case False
  then show ?thesis using assms(1) by (simp add: set_unit_def)
qed

lemma tiny_keeps_boot:
  assumes "next_boot (us u)" "\<not> disables c u"
  shows "next_boot (fst (tiny_bus n c us) u)"
proof (cases c)
  case (Method path member args)
  have "next_boot (fst (tiny_method member args us) u)" if p: "path = MANAGER_PATH"
  proof (cases "(member, args, us)" rule: tiny_method.cases)
    case (1 m v as us')
    then show ?thesis using tiny_method_boot [of us u member v as] assms Method p by simp
  qed (use assms(1) in simp_all)
  then show ?thesis using Method assms(1) by (simp add: tiny_bus_def)
qed (use assms in \<open>simp add: tiny_bus_def\<close>)

lemma tiny_documented: "documented tiny_policy_env"
proof -
  have bus: "pe_bus tiny_policy_env = tiny_bus" by (simp add: tiny_policy_env_def)
  have enable: "next_boot (us' u)"
    if "tiny_bus n (Method MANAGER_PATH ''EnableUnitFiles'' [PStr u, PBool False, PBool False]) us = (us', Reply v)" for n us us' u v
    using that by (auto simp: tiny_bus_def set_unit_def next_boot_def split: if_splits)
  have enabled: "next_boot (us u)"
    if "tiny_bus n (Method MANAGER_PATH ''GetUnitFileState'' [PStr u]) us = (us', Reply (Some ''enabled''))" for n us us' u
    using that by (auto simp: tiny_bus_def next_boot_def file_state_def split: if_splits)
  have loads: "\<not> tiny_bus n (Method MANAGER_PATH ''LoadUnit'' [PStr u]) us = (us', Refused a b)" for n us us' u a b
    by (simp add: tiny_bus_def)
  have found: "\<not> pu_installed (us u)"
    if "unit_path u = Inr p" "tiny_bus n (Property p UNIT_INTERFACE ''LoadState'') us = (us', Reply (Some ''not-found''))" for n us us' u p
    using that(2) path_of_units [OF that(1)] by (auto simp: tiny_bus_def tiny_property_def Let_def split: if_splits)
  show ?thesis
    unfolding documented_def bus
    by (intro allI impI conjI)
      (metis tiny_asks fst_conv, metis tiny_installed fst_conv, metis tiny_keeps_boot fst_conv,
       metis enable, metis enabled, metis loads, metis found)
qed

text \<open>The takeover for the next boot, and the same killed right after the daemon was disabled.\<close>

definition tiny_cut :: "nat \<Rightarrow> policy_world sys" where
  "tiny_cut n = tiny_world\<lparr>sys_script := (\<lambda>k. if k = n then After ProcessKilled else Fine)\<rparr>"


lemma tiny_disabled:
  "\<not> pu_enabled (pw_units (sys_world (snd (execute_owner tiny_policy_env tiny_owner ''prepare-boot'' (tiny_cut 24)))) PPD)"
  by code_simp

theorem boot_owner_kept_witness:
  "has_boot_owner (pw_units (sys_world (snd (execute_owner tiny_policy_env tiny_owner ''prepare-boot'' (tiny_cut 24)))))
     \<and> \<not> pu_enabled (pw_units (sys_world (snd (execute_owner tiny_policy_env tiny_owner ''prepare-boot'' (tiny_cut 24)))) PPD)"
proof -
  have "has_boot_owner (pw_units (sys_world (tiny_cut 24)))"
    by (simp add: tiny_cut_def tiny_world_def has_boot_owner_def next_boot_def tiny_units_def)
  from boot_owner_kept [OF tiny_documented this prod.collapse [symmetric], of tiny_owner "''prepare-boot''"]
  show ?thesis using tiny_disabled by simp
qed

theorem claim_before_change_witness:
  "claim_on_disk (sys_world (snd (prepare_owner tiny_policy_env tiny_owner True (tiny_cut 24))))"
proof -
  let ?run = "prepare_owner tiny_policy_env tiny_owner True (tiny_cut 24)"
  have "execute_owner tiny_policy_env tiny_owner ''prepare-boot'' (tiny_cut 24) = ?run"
    by (simp add: execute_owner_def OWNER_ACTIONS_def)
  then have "pw_units (sys_world (snd ?run)) \<noteq> pw_units (sys_world (tiny_cut 24))"
    using tiny_disabled by (auto simp: tiny_cut_def tiny_world_def tiny_units_def)
  then show ?thesis
    using claim_before_change [OF tiny_documented prod.collapse [symmetric], of tiny_owner True "tiny_cut 24"]
    by (cases "fst ?run") simp_all
qed

theorem job_wait_ends_witness:
  "fst (job_wait JOB_TURNS tiny_policy_env ''StopUnit'' PPD ''/unit'' ''/job'' 20 tiny_world) \<noteq> Inr False"
  using job_wait_ends [of tiny_policy_env 20 tiny_world JOB_TURNS "''StopUnit''" PPD "''/unit''" "''/job''"]
  by (simp add: tiny_policy_env_def tiny_world_def clock_at_def monoI)

end
