(* ===== verification/GgufReader.thy ===== *)
theory GgufReader
  imports PyValue "HOL-Library.Word" "HOL-Library.Sublist"
begin

text \<open>
  \<open>labwc_ai_copilots/gguf.py\<close>, part 1: the bounded reader of a GGUF file. A file is a list of bytes,
  and the reader a state with the position of the file handle, the size that \<open>fstat\<close> gave and the start of
  the metadata. A method of \<open>_Reader\<close> is a function from a reader to an exception, or a value and the next
  reader; an exception ends the inspection, so the reader it leaves is not kept. A decoded text is a list
  of code points, because keys and texts may hold any character. A float is kept as its bits.
\<close>

type_synonym byte = "8 word"
type_synonym utext = "int list"

definition utxt :: "string \<Rightarrow> utext" where
  "utxt s = map ord s"

subsection \<open>\<open>bytes.decode(utf-8)\<close>\<close>

definition is_cont :: "int \<Rightarrow> bool" where
  "is_cont b = (128 \<le> b \<and> b < 192)"

fun utf8_decode :: "int list \<Rightarrow> utext option" where
  "utf8_decode [] = Some []"
| "utf8_decode (a # r) =
     (if a < 128 then map_option (\<lambda>t. a # t) (utf8_decode r)
      else if 194 \<le> a \<and> a \<le> 223 then
        (case r of
           b # r1 \<Rightarrow>
             if is_cont b then map_option (\<lambda>t. ((a - 192) * 64 + (b - 128)) # t) (utf8_decode r1) else None
         | _ \<Rightarrow> None)
      else if 224 \<le> a \<and> a \<le> 239 then
        (case r of
           b # c # r2 \<Rightarrow>
             (let p = ((a - 224) * 64 + (b - 128)) * 64 + (c - 128)
              in if is_cont b \<and> is_cont c \<and> 2048 \<le> p \<and> \<not> (55296 \<le> p \<and> p \<le> 57343)
                 then map_option (\<lambda>t. p # t) (utf8_decode r2) else None)
         | _ \<Rightarrow> None)
      else if 240 \<le> a \<and> a \<le> 244 then
        (case r of
           b # c # d # r3 \<Rightarrow>
             (let p = (((a - 240) * 64 + (b - 128)) * 64 + (c - 128)) * 64 + (d - 128)
              in if is_cont b \<and> is_cont c \<and> is_cont d \<and> 65536 \<le> p \<and> p \<le> 1114111
                 then map_option (\<lambda>t. p # t) (utf8_decode r3) else None)
         | _ \<Rightarrow> None)
      else None)"

subsection \<open>\<open>struct\<close> formats\<close>

text \<open>The little-endian formats that \<open>_SCALAR_FORMATS\<close> uses, and \<open>struct.calcsize\<close> of them.\<close>

datatype format = FmtB | Fmt_b | FmtH | Fmt_h | FmtI | Fmt_i | Fmt_f | FmtQ | Fmt_q | Fmt_d

fun calcsize :: "format \<Rightarrow> int" where
  "calcsize FmtB = 1"
| "calcsize Fmt_b = 1"
| "calcsize FmtH = 2"
| "calcsize Fmt_h = 2"
| "calcsize FmtI = 4"
| "calcsize Fmt_i = 4"
| "calcsize Fmt_f = 4"
| "calcsize FmtQ = 8"
| "calcsize Fmt_q = 8"
| "calcsize Fmt_d = 8"

fun le_int :: "byte list \<Rightarrow> int" where
  "le_int [] = 0"
| "le_int (b # bs) = uint b + 256 * le_int bs"

datatype gvalue = GInt int | GFloat "32 word" | GDouble "64 word" | GText utext

fun unpack_bytes :: "format \<Rightarrow> byte list \<Rightarrow> gvalue" where
  "unpack_bytes Fmt_b bs = GInt (sint (word_of_int (le_int bs) :: 8 word))"
| "unpack_bytes Fmt_h bs = GInt (sint (word_of_int (le_int bs) :: 16 word))"
| "unpack_bytes Fmt_i bs = GInt (sint (word_of_int (le_int bs) :: 32 word))"
| "unpack_bytes Fmt_q bs = GInt (sint (word_of_int (le_int bs) :: 64 word))"
| "unpack_bytes Fmt_f bs = GFloat (word_of_int (le_int bs))"
| "unpack_bytes Fmt_d bs = GDouble (word_of_int (le_int bs))"
| "unpack_bytes fmt bs = GInt (le_int bs)"

definition SCALAR_FORMATS :: "(int \<times> format) list" where
  "SCALAR_FORMATS =
     [(0, FmtB), (1, Fmt_b), (2, FmtH), (3, Fmt_h), (4, FmtI), (5, Fmt_i), (6, Fmt_f), (7, FmtB),
      (10, FmtQ), (11, Fmt_q), (12, Fmt_d)]"

definition SCALAR_SIZES :: "(int \<times> int) list" where
  "SCALAR_SIZES = map (\<lambda>(t, fmt). (t, calcsize fmt)) SCALAR_FORMATS"

definition STRING_TYPE :: int where "STRING_TYPE = 8"

definition ARRAY_TYPE :: int where "ARRAY_TYPE = 9"

subsection \<open>\<open>_Reader\<close>\<close>

record reader =
  rd_handle :: "byte list"
  rd_tell :: int
  rd_file_size :: int
  rd_limit :: int
  rd_start :: int

definition new_reader :: "byte list \<Rightarrow> int \<Rightarrow> reader" where
  "new_reader bytes file_size =
     \<lparr>rd_handle = bytes, rd_tell = 0, rd_file_size = file_size, rd_limit = 536870912, rd_start = 0\<rparr>"

type_synonym 'a rd = "reader \<Rightarrow> ('a \<times> reader) res"

definition retR :: "'a \<Rightarrow> 'a rd" where
  "retR x st = Inr (x, st)"

definition raiseR :: "string \<Rightarrow> 'a rd" where
  "raiseR m st = Inl (GGUFError m)"

definition bindR :: "'a rd \<Rightarrow> ('a \<Rightarrow> 'b rd) \<Rightarrow> 'b rd" where
  "bindR m f st = bindE (m st) (\<lambda>(x, st'). f x st')"

text \<open>A \<open>for _ in range(n)\<close> loop over a local state.\<close>

fun timesR :: "nat \<Rightarrow> ('s \<Rightarrow> 's rd) \<Rightarrow> 's \<Rightarrow> 's rd" where
  "timesR 0 f s = retR s"
| "timesR (Suc n) f s = bindR (f s) (timesR n f)"

definition mark_metadata_start :: "unit rd" where
  "mark_metadata_start st = Inr ((), st\<lparr>rd_start := rd_tell st\<rparr>)"

definition check_position :: "unit rd" where
  "check_position st =
     (let position = rd_tell st in
      if position < 0 \<or> position > rd_file_size st
      then Inl (GGUFError ''GGUF reader moved outside the file'')
      else if rd_start st \<noteq> 0 \<and> position - rd_start st > rd_limit st
      then Inl (GGUFError ''GGUF metadata exceeds the managed byte limit'')
      else Inr ((), st))"

text \<open>\<open>self._handle.read(size)\<close> on a regular file, and \<open>self._handle.seek(size, SEEK_CUR)\<close>.\<close>

definition handle_read :: "int \<Rightarrow> byte list rd" where
  "handle_read sz st =
     (let data = take (nat sz) (drop (nat (rd_tell st)) (rd_handle st))
      in Inr (data, st\<lparr>rd_tell := rd_tell st + int (length data)\<rparr>))"

definition handle_seek :: "int \<Rightarrow> unit rd" where
  "handle_seek sz st = Inr ((), st\<lparr>rd_tell := rd_tell st + sz\<rparr>)"

definition read_exact :: "int \<Rightarrow> byte list rd" where
  "read_exact sz =
     (if sz < 0 \<or> sz > 536870912 then raiseR ''GGUF read size exceeds the managed bound''
      else bindR (handle_read sz) (\<lambda>data.
        if int (length data) \<noteq> sz then raiseR ''GGUF file ended unexpectedly''
        else bindR check_position (\<lambda>_. retR data)))"

definition unpack :: "format \<Rightarrow> gvalue rd" where
  "unpack fmt = bindR (read_exact (calcsize fmt)) (\<lambda>data. retR (unpack_bytes fmt data))"

text \<open>\<open>int(self.unpack(fmt))\<close> of an unsigned format.\<close>

definition unpack_uint :: "format \<Rightarrow> int rd" where
  "unpack_uint fmt = bindR (read_exact (calcsize fmt)) (\<lambda>data. retR (le_int data))"

definition skip :: "int \<Rightarrow> unit rd" where
  "skip sz st =
     (if sz < 0 then Inl (GGUFError ''GGUF skip size is negative'')
      else if rd_tell st + sz > rd_file_size st
      then Inl (GGUFError ''GGUF value extends beyond the file'')
      else bindR (handle_seek sz) (\<lambda>_. check_position) st)"

definition read_string :: "bool \<Rightarrow> int \<Rightarrow> utext option rd" where
  "read_string decode maximum_decoded =
     bindR (unpack_uint FmtQ) (\<lambda>len.
     if len > 268435456 then raiseR ''GGUF string exceeds the managed bound''
     else if \<not> decode then bindR (skip len) (\<lambda>_. retR None)
     else if len > maximum_decoded then raiseR ''interesting GGUF string exceeds the decode bound''
     else bindR (read_exact len) (\<lambda>raw.
       case utf8_decode (map uint raw) of
         None \<Rightarrow> raiseR ''GGUF string is not valid UTF-8''
       | Some t \<Rightarrow> retR (Some t)))"

definition skip_string :: "unit \<Rightarrow> unit rd" where
  "skip_string u = bindR (read_string False 1048576) (\<lambda>_. retR ())"

definition skip_array :: "int \<Rightarrow> int \<Rightarrow> unit rd" where
  "skip_array element_type count =
     (case map_of SCALAR_SIZES element_type of
        Some sz \<Rightarrow> skip (sz * count)
      | None \<Rightarrow>
          if element_type = STRING_TYPE then
            (if count > 2000000 then raiseR ''GGUF string array exceeds the managed element bound''
             else timesR (nat count) skip_string ())
          else raiseR ''nested or unsupported GGUF array type'')"

definition read_value :: "int \<Rightarrow> bool \<Rightarrow> gvalue option rd" where
  "read_value value_type retain =
     (case map_of SCALAR_FORMATS value_type of
        Some fmt \<Rightarrow> bindR (unpack fmt) (\<lambda>v. retR (if retain then Some v else None))
      | None \<Rightarrow>
          if value_type = STRING_TYPE then
            bindR (read_string retain 1048576) (\<lambda>t. retR (map_option GText t))
          else if value_type = ARRAY_TYPE then
            bindR (unpack_uint FmtI) (\<lambda>element_type.
            bindR (unpack_uint FmtQ) (\<lambda>count.
            if count > 10000000 then raiseR ''GGUF array exceeds the managed element bound''
            else if retain then raiseR ''retaining GGUF arrays is intentionally unsupported''
            else bindR (skip_array element_type count) (\<lambda>_. retR None)))
          else raiseR (''unsupported GGUF metadata value type: '' @ int_str value_type))"

end
