(* ===== verification/GgufModel.thy ===== *)
theory GgufModel
  imports GgufReader PyPath
begin

text \<open>
  \<open>labwc_ai_copilots/gguf.py\<close>, part 2: what an inspection returns (\<open>GGUFInfo\<close>), the inspection of an opened
  file, and the two entry points with their path policies. The file system and the group database are an
  environment record.
\<close>

definition TENSOR_TYPES :: "(int \<times> string) list" where
  "TENSOR_TYPES =
     [(0, ''F32''), (1, ''F16''), (2, ''Q4_0''), (3, ''Q4_1''), (6, ''Q5_0''), (7, ''Q5_1''),
      (8, ''Q8_0''), (9, ''Q8_1''), (10, ''Q2_K''), (11, ''Q3_K''), (12, ''Q4_K''), (13, ''Q5_K''),
      (14, ''Q6_K''), (15, ''Q8_K''), (16, ''IQ2_XXS''), (17, ''IQ2_XS''), (18, ''IQ3_XXS''),
      (19, ''IQ1_S''), (20, ''IQ4_NL''), (21, ''IQ3_S''), (22, ''IQ2_S''), (23, ''IQ4_XS''),
      (24, ''I8''), (25, ''I16''), (26, ''I32''), (27, ''I64''), (28, ''F64''), (29, ''IQ1_M''),
      (30, ''BF16''), (31, ''Q4_0_4_4''), (32, ''Q4_0_4_8''), (33, ''Q4_0_8_8''), (34, ''TQ1_0''),
      (35, ''TQ2_0''), (36, ''IQ4_NL_4_4''), (37, ''IQ4_NL_4_8''), (38, ''IQ4_NL_8_8'')]"

definition INTERESTING_KEYS :: "utext list" where
  "INTERESTING_KEYS = map utxt
     [''general.architecture'', ''general.name'', ''general.author'', ''general.description'',
      ''general.license'', ''general.license.name'', ''general.license.link'', ''general.file_type'']"

definition RETAINED_SUFFIXES :: "utext list" where
  "RETAINED_SUFFIXES = map utxt
     [''.context_length'', ''.block_count'', ''.embedding_length'', ''.attention.head_count'',
      ''.attention.head_count_kv'', ''.attention.key_length'', ''.attention.value_length'']"

type_synonym metadata = "(utext \<times> gvalue) list"

record gguf_info =
  gi_path :: string
  gi_size_bytes :: int
  gi_version :: int
  gi_tensor_count :: int
  gi_metadata_count :: int
  gi_parameter_count :: int
  gi_tensor_types :: "(string \<times> int) list"
  gi_metadata :: metadata

subsection \<open>Properties of \<open>GGUFInfo\<close>\<close>

definition architecture :: "gguf_info \<Rightarrow> utext option" where
  "architecture info =
     (case map_of (gi_metadata info) (utxt ''general.architecture'') of
        Some (GText t) \<Rightarrow> if t \<noteq> [] then Some t else None
      | _ \<Rightarrow> None)"

definition positive_int :: "gvalue option \<Rightarrow> int option" where
  "positive_int v = (case v of Some (GInt i) \<Rightarrow> if i > 0 then Some i else None | _ \<Rightarrow> None)"

fun first_context :: "metadata \<Rightarrow> int option" where
  "first_context [] = None"
| "first_context ((k, v) # d) =
     (case (if suffix (utxt ''.context_length'') k then positive_int (Some v) else None) of
        Some i \<Rightarrow> Some i
      | None \<Rightarrow> first_context d)"

definition context_length :: "gguf_info \<Rightarrow> int option" where
  "context_length info =
     (case (case architecture info of
              None \<Rightarrow> None
            | Some a \<Rightarrow> positive_int (map_of (gi_metadata info) (a @ utxt ''.context_length''))) of
        Some i \<Rightarrow> Some i
      | None \<Rightarrow> first_context (gi_metadata info))"

fun join_texts :: "utext \<Rightarrow> utext list \<Rightarrow> utext" where
  "join_texts sep [] = []"
| "join_texts sep [t] = t"
| "join_texts sep (t # u # ts) = t @ sep @ join_texts sep (u # ts)"

definition license_text :: "gguf_info \<Rightarrow> utext option" where
  "license_text info =
     (let values = foldl (\<lambda>values key.
            case map_of (gi_metadata info) (utxt key) of
              Some (GText t) \<Rightarrow> if t \<noteq> [] \<and> t \<notin> set values then values @ [t] else values
            | _ \<Rightarrow> values) [] [''general.license'', ''general.license.name'', ''general.license.link'']
      in if values \<noteq> [] then Some (join_texts (utxt '' | '') values) else None)"

subsection \<open>Inspection of an opened file\<close>

definition retain_metadata :: "utext \<Rightarrow> int \<Rightarrow> bool" where
  "retain_metadata key value_type =
     (let retain = key \<in> set INTERESTING_KEYS \<or> list_ex (\<lambda>s. suffix s key) RETAINED_SUFFIXES
      in if value_type = ARRAY_TYPE \<and> key \<notin> set INTERESTING_KEYS then False else retain)"

definition read_entry :: "metadata \<Rightarrow> metadata rd" where
  "read_entry metadata =
     bindR (read_string True 4096) (\<lambda>key0.
     case key0 of
       None \<Rightarrow> (\<lambda>st. Inl AssertionErr)
     | Some key \<Rightarrow>
         if key = [] \<or> length key > 4096 then raiseR ''GGUF metadata key is invalid''
         else bindR (unpack_uint FmtI) (\<lambda>value_type.
           let retain = retain_metadata key value_type in
           bindR (read_value value_type retain) (\<lambda>v.
           retR (case v of
                   Some x \<Rightarrow> if retain then dset key x metadata else metadata
                 | None \<Rightarrow> metadata))))"

definition read_dimension :: "int \<Rightarrow> int rd" where
  "read_dimension parameters =
     bindR (unpack_uint FmtQ) (\<lambda>dimension.
     if dimension < 1 \<or> dimension > 10000000000 then raiseR ''GGUF tensor dimension is invalid''
     else if parameters * dimension > 10000000000000
     then raiseR ''GGUF tensor parameter count exceeds the managed bound''
     else retR (parameters * dimension))"

definition type_name :: "int \<Rightarrow> string" where
  "type_name t = (case map_of TENSOR_TYPES t of Some n \<Rightarrow> n | None \<Rightarrow> ''TYPE_'' @ int_str t)"

text \<open>\<open>counter[name] += 1\<close>\<close>

definition counter_add :: "string \<Rightarrow> (string \<times> int) list \<Rightarrow> (string \<times> int) list" where
  "counter_add name counter =
     dset name ((case map_of counter name of None \<Rightarrow> 0 | Some n \<Rightarrow> n) + 1) counter"

type_synonym tensor_totals = "int \<times> (string \<times> int) list"

definition read_tensor :: "tensor_totals \<Rightarrow> tensor_totals rd" where
  "read_tensor totals =
     bindR (read_string False 1048576) (\<lambda>_.
     bindR (unpack_uint FmtI) (\<lambda>dimension_count.
     if dimension_count < 1 \<or> dimension_count > 8
     then raiseR ''GGUF tensor dimension count is invalid''
     else bindR (timesR (nat dimension_count) read_dimension 1) (\<lambda>parameters.
       if fst totals + parameters > 100000000000000
       then raiseR ''GGUF model parameter count exceeds the managed bound''
       else bindR (unpack_uint FmtI) (\<lambda>tensor_type.
            bindR (unpack_uint FmtQ) (\<lambda>_.
            retR (fst totals + parameters, counter_add (type_name tensor_type) (snd totals)))))))"

definition GGUF_MAGIC :: "byte list" where
  "GGUF_MAGIC = [0x47, 0x47, 0x55, 0x46]"

definition read_model :: "string \<Rightarrow> int \<Rightarrow> gguf_info rd" where
  "read_model path file_size =
     bindR (read_exact 4) (\<lambda>magic.
     if magic \<noteq> GGUF_MAGIC then raiseR ''model does not contain GGUF magic''
     else bindR (unpack_uint FmtI) (\<lambda>version.
     if version \<notin> {2, 3} then raiseR (''unsupported GGUF version: '' @ int_str version)
     else bindR (unpack_uint FmtQ) (\<lambda>tensor_count.
     bindR (unpack_uint FmtQ) (\<lambda>metadata_count.
     if tensor_count > 1000000 then raiseR ''GGUF tensor count exceeds the managed bound''
     else if metadata_count > 100000 then raiseR ''GGUF metadata count exceeds the managed bound''
     else bindR mark_metadata_start (\<lambda>_.
     bindR (timesR (nat metadata_count) read_entry []) (\<lambda>metadata.
     bindR (timesR (nat tensor_count) read_tensor (0, [])) (\<lambda>totals.
     retR \<lparr>gi_path = path, gi_size_bytes = file_size, gi_version = version,
           gi_tensor_count = tensor_count, gi_metadata_count = metadata_count,
           gi_parameter_count = fst totals, gi_tensor_types = snd totals,
           gi_metadata = metadata\<rparr>)))))))"

record opened =
  op_regular :: bool
  op_size :: int
  op_bytes :: "byte list"

record file_stat =
  fs_uid :: int
  fs_gid :: int
  fs_mode :: int
  fs_size :: int

record model_env =
  me_is_symlink :: "string \<Rightarrow> bool"
  me_is_file :: "string \<Rightarrow> bool"
  me_resolve :: "string \<Rightarrow> string res"
  me_stat :: "string \<Rightarrow> file_stat res"
  me_devops_gid :: "int option"
  me_open :: "string \<Rightarrow> opened res"

definition inspect_gguf_file :: "model_env \<Rightarrow> string \<Rightarrow> gguf_info res" where
  "inspect_gguf_file env path =
     bindE (me_open env path) (\<lambda>f.
     if \<not> op_regular f \<or> \<not> (24 \<le> op_size f \<and> op_size f \<le> 107374182400)
     then Inl (GGUFError ''model must be a bounded regular file'')
     else bindE (read_model path (op_size f) (new_reader (op_bytes f) (op_size f))) (\<lambda>(info, _). Inr info))"

subsection \<open>Entry points\<close>

definition LLAMA_MODEL_ROOT :: string where
  "LLAMA_MODEL_ROOT = ''/pool/cache/llama/models''"

text \<open>\<open>path.relative_to(root)\<close> does not raise.\<close>

definition is_below :: "string \<Rightarrow> string \<Rightarrow> bool" where
  "is_below root path = (path_root root = path_root path \<and> prefix (path_parts root) (path_parts path))"

definition validate_model_path :: "model_env \<Rightarrow> string \<Rightarrow> string res" where
  "validate_model_path env path_text =
     (if path_text = [] \<or> CHR 0x00 \<in> set path_text \<or> nl \<in> set path_text \<or> cr \<in> set path_text
      then Inl (GGUFError ''model path is invalid'')
      else let path = path_str path_text in
      if path_root path = [] \<or> ''..'' \<in> set (path_parts path)
      then Inl (GGUFError ''model path must be a safe absolute path'')
      else if me_is_symlink env path \<or> \<not> me_is_file env path
      then Inl (GGUFError ''model path must be a non-symbolic regular file'')
      else bindE (me_resolve env path) (\<lambda>resolved.
      if resolved \<noteq> path then Inl (GGUFError ''model path must already be canonical'')
      else if \<not> is_below LLAMA_MODEL_ROOT resolved
      then Inl (GGUFError ''model path is outside the managed Llama model directory'')
      else bindE (me_stat env resolved) (\<lambda>stat_result.
      case me_devops_gid env of
        None \<Rightarrow> Inl (GGUFError ''managed devops group is unavailable'')
      | Some devops_gid \<Rightarrow>
          if fs_uid stat_result \<noteq> 0 \<or> fs_gid stat_result \<noteq> devops_gid
          then Inl (GGUFError ''model ownership is unsafe'')
          else if fs_mode stat_result mod 512 \<noteq> 416
          then Inl (GGUFError ''model ownership or mode is unsafe'')
          else if fs_size stat_result < 24 \<or> fs_size stat_result > 107374182400
          then Inl (GGUFError ''model size is outside the supported bounds'')
          else Inr resolved)))"

definition inspect_gguf :: "model_env \<Rightarrow> string \<Rightarrow> gguf_info res" where
  "inspect_gguf env path_text = bindE (validate_model_path env path_text) (inspect_gguf_file env)"

definition inspect_gguf_for_resources :: "model_env \<Rightarrow> string \<Rightarrow> gguf_info res" where
  "inspect_gguf_for_resources env path_text =
     (if path_text = [] \<or> CHR 0x00 \<in> set path_text then Inl (GGUFError ''model path is invalid'')
      else bindE (me_resolve env (path_str path_text)) (inspect_gguf_file env))"

end
