(* ===== verification/GgufGrammar.thy ===== *)
theory GgufGrammar
  imports GgufModel
begin

text \<open>
  The reader against a grammar. A grammar \<open>G\<close> of a reader relates the bytes that it consumes to the value that
  it returns, and \<open>parses r G\<close> says that on a file that did not change since \<open>fstat\<close> the reader succeeds
  exactly where the grammar applies and the bytes fit. Grammars compose as the readers do, so each reader
  gets its grammar from its parts; a loop gets it from its body (locale \<open>counted\<close>).
\<close>

named_theorems grammar "grammars of readers"

definition valid_reader :: "reader \<Rightarrow> bool" where
  "valid_reader st =
     (0 \<le> rd_tell st \<and> rd_tell st \<le> rd_file_size st \<and> rd_file_size st = int (length (rd_handle st))
       \<and> (rd_start st \<noteq> 0 \<longrightarrow> rd_tell st - rd_start st \<le> rd_limit st))"

definition holds :: "reader \<Rightarrow> byte list \<Rightarrow> bool" where
  "holds st bs = (take (length bs) (drop (nat (rd_tell st)) (rd_handle st)) = bs)"

definition fits :: "reader \<Rightarrow> nat \<Rightarrow> bool" where
  "fits st n =
     (rd_tell st + int n \<le> rd_file_size st
       \<and> (rd_start st \<noteq> 0 \<longrightarrow> rd_tell st + int n - rd_start st \<le> rd_limit st))"

definition forward :: "reader \<Rightarrow> nat \<Rightarrow> reader" where
  "forward st n = st\<lparr>rd_tell := rd_tell st + int n\<rparr>"

type_synonym 'a gram = "byte list \<Rightarrow> 'a \<Rightarrow> bool"

text \<open>One grammar after another, the second with the value of the first.\<close>

definition seqG :: "'a gram \<Rightarrow> ('a \<Rightarrow> 'b gram) \<Rightarrow> 'b gram" where
  "seqG G H bs y = (\<exists>b1 b2 x. bs = b1 @ b2 \<and> G b1 x \<and> H x b2 y)"

lemma seqG_I: "G b1 x \<Longrightarrow> H x b2 y \<Longrightarrow> seqG G H (b1 @ b2) y"
  by (auto simp: seqG_def)

definition parses :: "'a rd \<Rightarrow> 'a gram \<Rightarrow> bool" where
  "parses r G = (\<forall>st x st'. valid_reader st \<longrightarrow>
     (r st = Inr (x, st') \<longleftrightarrow>
       (\<exists>bs. holds st bs \<and> fits st (length bs) \<and> st' = forward st (length bs) \<and> G bs x)))"

subsection \<open>Composition\<close>

lemma forward_simps [simp]:
  "forward st 0 = st" "rd_handle (forward st n) = rd_handle st" "rd_tell (forward st n) = rd_tell st + int n"
  "rd_file_size (forward st n) = rd_file_size st" "rd_limit (forward st n) = rd_limit st"
  "rd_start (forward st n) = rd_start st" "forward (forward st m) n = forward st (m + n)"
  by (simp_all add: forward_def)

lemma fits_0 [simp]: "valid_reader st \<Longrightarrow> fits st 0"
  by (auto simp: valid_reader_def fits_def)

lemma fits_add: "fits st (m + n) \<longleftrightarrow> fits st m \<and> fits (forward st m) n"
  by (auto simp: fits_def)

lemma valid_forward: "valid_reader st \<Longrightarrow> valid_reader (forward st n) \<longleftrightarrow> fits st n"
  by (auto simp: valid_reader_def fits_def)

lemma holds_Nil [simp]: "holds st []"
  by (simp add: holds_def)

lemma holds_append:
  assumes "valid_reader st"
  shows "holds st (bs @ cs) \<longleftrightarrow> holds st bs \<and> holds (forward st (length bs)) cs"
proof -
  have n: "nat (rd_tell st + int (length bs)) = length bs + nat (rd_tell st)"
    using assms by (simp add: valid_reader_def nat_add_distrib)
  let ?d = "drop (nat (rd_tell st)) (rd_handle st)"
  have "take (length bs + length cs) ?d
      = take (length bs) ?d @ take (length cs) (drop (length bs) ?d)"
    by (rule take_add)
  moreover have "take (length bs) ?d @ take (length cs) (drop (length bs) ?d) = bs @ cs \<longleftrightarrow>
      take (length bs) ?d = bs \<and> take (length cs) (drop (length bs) ?d) = cs"
    (is "?x @ ?y = _ \<longleftrightarrow> _")
  proof
    assume eq: "?x @ ?y = bs @ cs"
    then have "length ?x + length ?y = length bs + length cs"
      by (metis length_append)
    then have "length ?x = length bs" by auto
    then show "?x = bs \<and> ?y = cs" using eq by simp
  qed simp
  ultimately show ?thesis
    by (simp add: holds_def n drop_drop)
qed

lemma parsesD:
  "parses r G \<Longrightarrow> valid_reader st \<Longrightarrow>
    r st = Inr (x, st') \<longleftrightarrow>
      (\<exists>bs. holds st bs \<and> fits st (length bs) \<and> st' = forward st (length bs) \<and> G bs x)"
  unfolding parses_def by blast

lemma parses_cong: "parses r G \<Longrightarrow> (\<And>bs x. G bs x \<longleftrightarrow> H bs x) \<Longrightarrow> parses r H"
  by (simp add: parses_def)

lemma parses_step:
  assumes "parses r G" and "valid_reader st"
  shows "bindR r f st = Inr (y, st') \<longleftrightarrow>
    (\<exists>bs x. holds st bs \<and> fits st (length bs) \<and> G bs x \<and> f x (forward st (length bs)) = Inr (y, st'))"
proof -
  have "bindR r f st = Inr (y, st') \<longleftrightarrow> (\<exists>x u. r st = Inr (x, u) \<and> f x u = Inr (y, st'))"
    by (auto simp: bindR_def)
  then show ?thesis
    using parsesD [OF assms] by auto
qed

lemma parses_bind:
  assumes r: "parses r G" and f: "\<And>x. parses (f x) (H x)"
  shows "parses (bindR r f) (seqG G H)"
  unfolding parses_def seqG_def
proof (intro allI impI)
  fix st y st' assume v: "valid_reader st"
  have "bindR r f st = Inr (y, st') \<longleftrightarrow>
      (\<exists>b1 x. holds st b1 \<and> fits st (length b1) \<and> G b1 x \<and> f x (forward st (length b1)) = Inr (y, st'))"
    by (rule parses_step [OF r v])
  also have "\<dots> \<longleftrightarrow>
      (\<exists>b1 x. holds st b1 \<and> fits st (length b1) \<and> G b1 x \<and>
        (\<exists>b2. holds (forward st (length b1)) b2 \<and> fits (forward st (length b1)) (length b2)
          \<and> st' = forward st (length b1 + length b2) \<and> H x b2 y))"
    using parsesD [OF f] v by (simp add: valid_forward cong: conj_cong)
  also have "\<dots> \<longleftrightarrow>
      (\<exists>bs. holds st bs \<and> fits st (length bs) \<and> st' = forward st (length bs)
        \<and> (\<exists>b1 b2 x. bs = b1 @ b2 \<and> G b1 x \<and> H x b2 y))" (is "?l \<longleftrightarrow> ?r")
  proof
    assume ?l
    then obtain b1 x b2 where "holds st (b1 @ b2)" "fits st (length (b1 @ b2))" "G b1 x"
        "st' = forward st (length (b1 @ b2))" "H x b2 y"
      by (auto simp: holds_append [OF v] fits_add)
    then show ?r by blast
  next
    assume ?r
    then show ?l by (fastforce simp: holds_append [OF v] fits_add)
  qed
  finally show "bindR r f st = Inr (y, st') \<longleftrightarrow>
      (\<exists>bs. holds st bs \<and> fits st (length bs) \<and> st' = forward st (length bs)
        \<and> (\<exists>b1 b2 x. bs = b1 @ b2 \<and> G b1 x \<and> H x b2 y))" .
qed

lemma seq_ret [simp]: "seqG G (\<lambda>x bs y. bs = [] \<and> y = f x) bs y \<longleftrightarrow> (\<exists>x. G bs x \<and> y = f x)"
  by (auto simp: seqG_def)

lemma seq_ret_if [simp]:
  "seqG G (\<lambda>x bs y. bs = [] \<and> y = f x \<and> Q x) bs y \<longleftrightarrow> (\<exists>x. G bs x \<and> y = f x \<and> Q x)"
  by (auto simp: seqG_def)

lemma seq_unit [simp]: "seqG G (\<lambda>x bs (y :: unit). bs = []) bs u \<longleftrightarrow> (\<exists>x. G bs x)"
  by (auto simp: seqG_def)

lemma parses_ret [grammar]: "parses (retR x) (\<lambda>bs y. bs = [] \<and> y = x)"
  by (auto simp: parses_def retR_def)

lemma parses_raise [grammar]: "parses (raiseR m) (\<lambda>bs y. False)"
  by (simp add: parses_def raiseR_def)

lemma parses_if [grammar]:
  "parses r G \<Longrightarrow> parses q H \<Longrightarrow> parses (if b then r else q) (\<lambda>bs y. if b then G bs y else H bs y)"
  by simp

lemma parses_guard:
  "parses r G \<Longrightarrow> parses (if b then raiseR m else r) (\<lambda>bs y. \<not> b \<and> G bs y)"
  by (simp add: parses_def raiseR_def)

subsection \<open>The methods that move the file handle\<close>

lemma holds_length: "valid_reader st \<Longrightarrow> holds st bs \<Longrightarrow> rd_tell st + int (length bs) \<le> rd_file_size st"
proof -
  assume v: "valid_reader st" and h: "holds st bs"
  from h have "length (take (length bs) (drop (nat (rd_tell st)) (rd_handle st))) = length bs"
    by (simp add: holds_def)
  then show ?thesis using v by (auto simp: valid_reader_def min_def split: if_splits)
qed

lemma check_position_iff:
  "check_position st = Inr r \<longleftrightarrow>
     r = ((), st) \<and> 0 \<le> rd_tell st \<and> rd_tell st \<le> rd_file_size st
       \<and> (rd_start st \<noteq> 0 \<longrightarrow> rd_tell st - rd_start st \<le> rd_limit st)"
  by (auto simp: check_position_def Let_def)

lemma check_forward:
  "valid_reader st \<Longrightarrow> check_position (forward st n) = Inr r \<longleftrightarrow> r = ((), forward st n) \<and> fits st n"
  by (auto simp: check_position_iff fits_def valid_reader_def)

lemma parses_read_exact:
  "parses (read_exact n) (\<lambda>bs x. 0 \<le> n \<and> n \<le> 536870912 \<and> int (length bs) = n \<and> x = bs)"
  unfolding parses_def
proof (intro allI impI)
  fix st x st' assume v: "valid_reader st"
  let ?data = "take (nat n) (drop (nat (rd_tell st)) (rd_handle st))"
  have "read_exact n st = Inr (x, st') \<longleftrightarrow>
      0 \<le> n \<and> n \<le> 536870912 \<and> int (length ?data) = n \<and> x = ?data \<and> st' = forward st (length ?data)
        \<and> fits st (length ?data)"
    by (auto simp: read_exact_def bindR_def handle_read_def retR_def raiseR_def Let_def
        check_forward [OF v] forward_def [symmetric] simp del: length_take length_drop)
  also have "\<dots> \<longleftrightarrow> (\<exists>bs. holds st bs \<and> fits st (length bs) \<and> st' = forward st (length bs)
      \<and> 0 \<le> n \<and> n \<le> 536870912 \<and> int (length bs) = n \<and> x = bs)" (is "?l \<longleftrightarrow> ?r")
  proof
    assume l: ?l
    then have "holds st ?data" by (simp add: holds_def) (metis nat_int)
    then show ?r using l by (intro exI [of _ ?data]) simp
  next
    assume ?r
    then have h: "holds st x" "fits st (length x)" "st' = forward st (length x)"
        "0 \<le> n" "n \<le> 536870912" "int (length x) = n" by auto
    then have "?data = x" by (auto simp: holds_def)
    then show ?l using h by simp
  qed
  finally show "read_exact n st = Inr (x, st') \<longleftrightarrow> (\<exists>bs. holds st bs \<and> fits st (length bs)
      \<and> st' = forward st (length bs) \<and> 0 \<le> n \<and> n \<le> 536870912 \<and> int (length bs) = n \<and> x = bs)" .
qed

lemma parses_skip [grammar]: "parses (skip n) (\<lambda>bs u. int (length bs) = n)"
  unfolding parses_def
proof (intro allI impI)
  fix st u st' assume v: "valid_reader st"
  have "skip n st = Inr (u, st') \<longleftrightarrow> 0 \<le> n \<and> fits st (nat n) \<and> st' = forward st (nat n)"
  proof (cases "0 \<le> n")
    case True
    then have seek: "handle_seek n st = Inr ((), forward st (nat n))"
      by (simp add: handle_seek_def forward_def)
    show ?thesis
      using True v by (auto simp: skip_def bindR_def seek check_forward) (auto simp: fits_def)
  qed (simp add: skip_def)
  also have "\<dots> \<longleftrightarrow> (\<exists>bs. holds st bs \<and> fits st (length bs) \<and> st' = forward st (length bs)
      \<and> int (length bs) = n)" (is "?l \<longleftrightarrow> ?r")
  proof
    assume l: ?l
    let ?bs = "take (nat n) (drop (nat (rd_tell st)) (rd_handle st))"
    have "length ?bs = nat n" using l v by (auto simp: fits_def valid_reader_def)
    then show ?r using l by (intro exI [of _ ?bs]) (auto simp: holds_def)
  qed auto
  finally show "skip n st = Inr (u, st') \<longleftrightarrow> (\<exists>bs. holds st bs \<and> fits st (length bs)
      \<and> st' = forward st (length bs) \<and> int (length bs) = n)" .
qed

lemma calcsize_bounds: "0 \<le> calcsize fmt" "calcsize fmt \<le> 536870912"
  by (cases fmt; simp)+

lemma parses_unpack [grammar]:
  "parses (unpack fmt) (\<lambda>bs v. int (length bs) = calcsize fmt \<and> v = unpack_bytes fmt bs)"
  unfolding unpack_def
  by (rule parses_cong [OF parses_bind [OF parses_read_exact parses_ret]])
    (use calcsize_bounds in auto)

lemma parses_unpack_uint [grammar]:
  "parses (unpack_uint fmt) (\<lambda>bs v. int (length bs) = calcsize fmt \<and> v = le_int bs)"
  unfolding unpack_uint_def
  by (rule parses_cong [OF parses_bind [OF parses_read_exact parses_ret]])
    (use calcsize_bounds in auto)

subsection \<open>Loops\<close>

fun steps :: "('s \<Rightarrow> 's gram) \<Rightarrow> nat \<Rightarrow> 's \<Rightarrow> 's gram" where
  "steps G 0 s bs t = (bs = [] \<and> t = s)"
| "steps G (Suc n) s bs t = (\<exists>b1 b2 u. bs = b1 @ b2 \<and> G s b1 u \<and> steps G n u b2 t)"

locale counted =
  fixes body :: "'s \<Rightarrow> 's rd" and G :: "'s \<Rightarrow> 's gram"
  assumes body: "parses (body s) (G s)"
begin

lemma loop: "parses (timesR n body s) (steps G n s)"
proof (induction n arbitrary: s)
  case 0
  show ?case
    by (simp add: parses_cong [OF parses_ret])
next
  case (Suc n)
  show ?case
    unfolding timesR.simps
    by (rule parses_cong [OF parses_bind [OF body Suc.IH]]) (auto simp: seqG_def)
qed

end

fun run_ok :: "('s \<Rightarrow> 'i \<Rightarrow> bool) \<Rightarrow> ('s \<Rightarrow> 'i \<Rightarrow> 's) \<Rightarrow> 's \<Rightarrow> 'i list \<Rightarrow> bool" where
  "run_ok ok put s [] = True"
| "run_ok ok put s (i # is) = (ok s i \<and> run_ok ok put (put s i) is)"

text \<open>A loop over items that are written one after another: \<open>spell\<close> writes one, \<open>put\<close> is what it does.\<close>

locale spelled = counted body G
  for body :: "'s \<Rightarrow> 's rd" and G :: "'s \<Rightarrow> 's gram" +
  fixes ok :: "'s \<Rightarrow> 'i \<Rightarrow> bool" and spell :: "'i \<Rightarrow> byte list" and put :: "'s \<Rightarrow> 'i \<Rightarrow> 's"
  assumes spelled: "G s bs t \<longleftrightarrow> (\<exists>i. ok s i \<and> bs = spell i \<and> t = put s i)"
begin

lemma steps_spelled:
  "steps G n s bs t \<longleftrightarrow>
     (\<exists>is. length is = n \<and> run_ok ok put s is \<and> bs = concat (map spell is) \<and> t = foldl put s is)"
proof (induction n arbitrary: s bs)
  case 0
  then show ?case by auto
next
  case (Suc n)
  show ?case (is "?l \<longleftrightarrow> ?r")
  proof
    assume ?l
    then obtain b1 b2 u where "bs = b1 @ b2" "G s b1 u" "steps G n u b2 t" by auto
    moreover from this obtain i where "ok s i" "b1 = spell i" "u = put s i"
      by (auto simp: spelled)
    moreover from calculation obtain "is" where "length is = n" "run_ok ok put u is" "b2 = concat (map spell is)"
        "t = foldl put u is"
      using Suc.IH by blast
    ultimately show ?r by (intro exI [of _ "i # is"]) simp
  next
    assume ?r
    then obtain i "is" where h: "length is = n" "ok s i" "run_ok ok put (put s i) is"
        "bs = spell i @ concat (map spell is)" "t = foldl put (put s i) is"
      by (auto simp: length_Suc_conv)
    have "G s (spell i) (put s i)" using h(2) by (auto simp: spelled)
    moreover have "steps G n (put s i) (concat (map spell is)) t"
      unfolding Suc.IH using h by blast
    ultimately show ?l using h(4) by auto
  qed
qed

lemma spelled_loop:
  "parses (timesR n body s)
     (\<lambda>bs t. \<exists>is. length is = n \<and> run_ok ok put s is \<and> bs = concat (map spell is) \<and> t = foldl put s is)"
  by (rule parses_cong [OF loop]) (rule steps_spelled)

end

end
