(* ===== verification/GgufFormat.thy ===== *)
theory GgufFormat
  imports GgufGrammar
begin

text \<open>
  The GGUF format as a specification: documents, their bytes, which of them the program supports, and what
  it should report of them; then the grammar of each reader of \<open>GgufReader\<close> and \<open>GgufModel\<close> in these terms.
\<close>

subsection \<open>Little-endian integers\<close>

fun le_bytes :: "nat \<Rightarrow> int \<Rightarrow> byte list" where
  "le_bytes 0 n = []"
| "le_bytes (Suc k) n = word_of_int n # le_bytes k (n div 256)"

lemma length_le_bytes [simp]: "length (le_bytes k n) = k"
  by (induction k arbitrary: n) auto

lemma uint_byte: "0 \<le> uint (b :: byte)" "uint (b :: byte) < 256"
  using uint_lt2p [of b] by simp_all

lemma le_int_bounds: "0 \<le> le_int bs \<and> le_int bs < 256 ^ length bs"
proof (induction bs)
  case (Cons b bs)
  then show ?case using uint_byte [of b] by simp
qed simp

lemma le_int_le_bytes: "0 \<le> n \<Longrightarrow> n < 256 ^ k \<Longrightarrow> le_int (le_bytes k n) = n"
proof (induction k arbitrary: n)
  case (Suc k)
  have "n div 256 < 256 ^ k" using Suc.prems by simp
  then have "le_int (le_bytes k (n div 256)) = n div 256" using Suc by simp
  moreover have "uint (word_of_int n :: byte) = n mod 256" by (simp add: uint_word_of_int)
  ultimately show ?case by simp
qed simp

lemma le_bytes_le_int: "le_bytes (length bs) (le_int bs) = bs"
proof (induction bs)
  case (Cons b bs)
  have "(word_of_int (uint b + 256 * le_int bs) :: byte) = word_of_int (uint b)"
    by (subst word_of_int_eq_iff) (simp add: take_bit_eq_mod)
  moreover have "(uint b + 256 * le_int bs) div 256 = le_int bs" using uint_byte [of b] by simp
  ultimately show ?case using Cons by simp
qed simp

lemma uint_field:
  "length bs = k \<and> v = le_int bs \<longleftrightarrow> bs = le_bytes k v \<and> 0 \<le> v \<and> v < 256 ^ k"
  using le_bytes_le_int [of bs] le_int_bounds [of bs] le_int_le_bytes [of v k] by auto

definition field :: "nat \<Rightarrow> int gram" where
  "field k bs v = (bs = le_bytes k v \<and> 0 \<le> v \<and> v < 256 ^ k)"

lemma seq_field [simp]:
  "seqG (field k) H bs y \<longleftrightarrow> (\<exists>v b2. bs = le_bytes k v @ b2 \<and> 0 \<le> v \<and> v < 256 ^ k \<and> H v b2 y)"
  by (auto simp: seqG_def field_def)

lemma parses_u32 [grammar]: "parses (unpack_uint FmtI) (field 4)"
  by (rule parses_cong [OF parses_unpack_uint]) (use uint_field [of _ 4] in \<open>auto simp: field_def\<close>)

lemma parses_u64 [grammar]: "parses (unpack_uint FmtQ) (field 8)"
  by (rule parses_cong [OF parses_unpack_uint]) (use uint_field [of _ 8] in \<open>auto simp: field_def\<close>)

subsection \<open>Documents\<close>

text \<open>
  A value with its tag: a scalar by its bytes, a string, an array of scalars by its element type, its count
  and its bytes, an array of strings. A tensor by its name, dimensions, type and data offset.
\<close>

datatype gguf_value =
    Scalar int "byte list"
  | Str "byte list"
  | Scalars int int "byte list"
  | Strs "byte list list"

type_synonym gguf_entry = "byte list \<times> gguf_value"

record tensor =
  t_name :: "byte list"
  t_dims :: "int list"
  t_type :: int
  t_offset :: int

record gguf_doc =
  doc_version :: int
  doc_entries :: "gguf_entry list"
  doc_tensors :: "tensor list"

definition spell_string :: "byte list \<Rightarrow> byte list" where
  "spell_string raw = le_bytes 8 (int (length raw)) @ raw"

lemma spell_string_inject [simp]: "spell_string a = spell_string b \<longleftrightarrow> a = b"
  by (auto simp: spell_string_def)

fun tag_of :: "gguf_value \<Rightarrow> int" where
  "tag_of (Scalar t raw) = t"
| "tag_of (Str raw) = STRING_TYPE"
| "tag_of (Scalars t c raw) = ARRAY_TYPE"
| "tag_of (Strs raws) = ARRAY_TYPE"

fun spell_value :: "gguf_value \<Rightarrow> byte list" where
  "spell_value (Scalar t raw) = raw"
| "spell_value (Str raw) = spell_string raw"
| "spell_value (Scalars t c raw) = le_bytes 4 t @ le_bytes 8 c @ raw"
| "spell_value (Strs raws) =
     le_bytes 4 STRING_TYPE @ le_bytes 8 (int (length raws)) @ concat (map spell_string raws)"

definition spell_entry :: "gguf_entry \<Rightarrow> byte list" where
  "spell_entry e = spell_string (fst e) @ le_bytes 4 (tag_of (snd e)) @ spell_value (snd e)"

definition spell_tensor :: "tensor \<Rightarrow> byte list" where
  "spell_tensor t =
     spell_string (t_name t) @ le_bytes 4 (int (length (t_dims t))) @ concat (map (le_bytes 8) (t_dims t))
       @ le_bytes 4 (t_type t) @ le_bytes 8 (t_offset t)"

definition spell_doc :: "gguf_doc \<Rightarrow> byte list" where
  "spell_doc doc =
     GGUF_MAGIC @ le_bytes 4 (doc_version doc) @ le_bytes 8 (int (length (doc_tensors doc)))
       @ le_bytes 8 (int (length (doc_entries doc)))
       @ concat (map spell_entry (doc_entries doc)) @ concat (map spell_tensor (doc_tensors doc))"

subsection \<open>Supported documents\<close>

definition raw_ok :: "byte list \<Rightarrow> bool" where
  "raw_ok raw = (int (length raw) \<le> 268435456)"

fun value_ok :: "bool \<Rightarrow> gguf_value \<Rightarrow> bool" where
  "value_ok retain (Scalar t raw) =
     (case map_of SCALAR_FORMATS t of None \<Rightarrow> False | Some fmt \<Rightarrow> int (length raw) = calcsize fmt)"
| "value_ok retain (Str raw) =
     (raw_ok raw \<and> (retain \<longrightarrow> int (length raw) \<le> 1048576 \<and> utf8_decode (map uint raw) \<noteq> None))"
| "value_ok retain (Scalars t c raw) =
     (\<not> retain \<and> 0 \<le> c \<and> c \<le> 10000000 \<and>
      (case map_of SCALAR_FORMATS t of None \<Rightarrow> False | Some fmt \<Rightarrow> int (length raw) = calcsize fmt * c))"
| "value_ok retain (Strs raws) =
     (\<not> retain \<and> int (length raws) \<le> 2000000 \<and> list_all raw_ok raws)"

definition key_of :: "gguf_entry \<Rightarrow> utext" where
  "key_of e = (case utf8_decode (map uint (fst e)) of None \<Rightarrow> [] | Some k \<Rightarrow> k)"

definition retained :: "gguf_entry \<Rightarrow> bool" where
  "retained e = retain_metadata (key_of e) (tag_of (snd e))"

definition entry_ok :: "gguf_entry \<Rightarrow> bool" where
  "entry_ok e = (int (length (fst e)) \<le> 4096 \<and> key_of e \<noteq> [] \<and> value_ok (retained e) (snd e))"

definition parameters_of :: "tensor \<Rightarrow> int" where
  "parameters_of t = prod_list (t_dims t)"

definition tensor_ok :: "tensor \<Rightarrow> bool" where
  "tensor_ok t =
     (raw_ok (t_name t) \<and> t_dims t \<noteq> [] \<and> int (length (t_dims t)) \<le> 8
       \<and> list_all (\<lambda>d. 1 \<le> d \<and> d \<le> 10000000000) (t_dims t) \<and> parameters_of t \<le> 10000000000000
       \<and> 0 \<le> t_type t \<and> t_type t < 4294967296 \<and> 0 \<le> t_offset t \<and> t_offset t < 18446744073709551616)"

definition doc_ok :: "gguf_doc \<Rightarrow> bool" where
  "doc_ok doc =
     (doc_version doc \<in> {2, 3} \<and> int (length (doc_entries doc)) \<le> 100000 \<and> int (length (doc_tensors doc)) \<le> 1000000
       \<and> list_all entry_ok (doc_entries doc) \<and> list_all tensor_ok (doc_tensors doc)
       \<and> sum_list (map parameters_of (doc_tensors doc)) \<le> 100000000000000)"

subsection \<open>What an inspection should report\<close>

fun view_value :: "gguf_value \<Rightarrow> gvalue option" where
  "view_value (Scalar t raw) = map_option (\<lambda>fmt. unpack_bytes fmt raw) (map_of SCALAR_FORMATS t)"
| "view_value (Str raw) = map_option GText (utf8_decode (map uint raw))"
| "view_value v = None"

definition record_entry :: "metadata \<Rightarrow> gguf_entry \<Rightarrow> metadata" where
  "record_entry d e =
     (if retained e then (case view_value (snd e) of None \<Rightarrow> d | Some v \<Rightarrow> dset (key_of e) v d) else d)"

definition type_counts :: "tensor list \<Rightarrow> (string \<times> int) list" where
  "type_counts ts = foldl (\<lambda>c t. counter_add (type_name (t_type t)) c) [] ts"

definition report_of :: "string \<Rightarrow> int \<Rightarrow> gguf_doc \<Rightarrow> gguf_info" where
  "report_of path file_size doc =
     \<lparr>gi_path = path, gi_size_bytes = file_size, gi_version = doc_version doc,
      gi_tensor_count = int (length (doc_tensors doc)), gi_metadata_count = int (length (doc_entries doc)),
      gi_parameter_count = sum_list (map parameters_of (doc_tensors doc)),
      gi_tensor_types = type_counts (doc_tensors doc),
      gi_metadata = foldl record_entry [] (doc_entries doc)\<rparr>"

subsection \<open>The grammar of each reader\<close>

lemma parses_text [grammar]:
  "parses (case u of None \<Rightarrow> raiseR m | Some t \<Rightarrow> retR (Some t)) (\<lambda>bs y. bs = [] \<and> y = u \<and> u \<noteq> None)"
  by (cases u) (auto simp: parses_def raiseR_def retR_def)

definition string_gram :: "bool \<Rightarrow> int \<Rightarrow> utext option gram" where
  "string_gram decode maximum bs t =
     (\<exists>raw. raw_ok raw \<and> bs = spell_string raw
        \<and> (if decode then int (length raw) \<le> maximum \<and> t = utf8_decode (map uint raw) \<and> t \<noteq> None
           else t = None))"

lemma parses_read_string [grammar]: "parses (read_string decode maximum) (string_gram decode maximum)"
proof -
  have "parses (read_string decode maximum)
      (seqG (field 8) (\<lambda>n bs t. \<not> n > 268435456 \<and>
         (if \<not> decode
          then seqG (\<lambda>bs (u :: unit). int (length bs) = n) (\<lambda>u bs t. bs = [] \<and> t = None) bs t
          else \<not> n > maximum \<and>
            seqG (\<lambda>bs raw. 0 \<le> n \<and> n \<le> 536870912 \<and> int (length bs) = n \<and> raw = bs)
              (\<lambda>raw bs t. bs = [] \<and> t = utf8_decode (map uint raw) \<and> utf8_decode (map uint raw) \<noteq> None)
              bs t)))"
    unfolding read_string_def
    by (intro parses_bind parses_if parses_guard parses_u64 parses_skip parses_ret parses_read_exact
        parses_text)
  then show ?thesis
    by (rule parses_cong) (auto simp: string_gram_def raw_ok_def spell_string_def)
qed

definition skip_string_gram :: "unit \<Rightarrow> unit gram" where
  "skip_string_gram u bs v = (\<exists>raw. raw_ok raw \<and> bs = spell_string raw)"

lemma parses_skip_string: "parses (skip_string u) (skip_string_gram u)"
  unfolding skip_string_def
  by (rule parses_cong [OF parses_bind [OF parses_read_string parses_ret]])
    (auto simp: string_gram_def skip_string_gram_def)

interpretation names: spelled skip_string skip_string_gram "\<lambda>_. raw_ok" spell_string "\<lambda>u _. ()"
  by unfold_locales (auto simp: parses_skip_string skip_string_gram_def)

lemma run_ok_const: "run_ok (\<lambda>_. ok) put s is = list_all ok is"
  by (induction "is" arbitrary: s) auto

lemma parses_strings:
  "parses (timesR n skip_string ())
     (\<lambda>bs v. \<exists>raws. length raws = n \<and> list_all raw_ok raws \<and> bs = concat (map spell_string raws))"
  by (rule parses_cong [OF names.spelled_loop]) (simp add: run_ok_const)

definition array_gram :: "int \<Rightarrow> int \<Rightarrow> unit gram" where
  "array_gram t c bs v =
     (case map_of SCALAR_FORMATS t of
        Some fmt \<Rightarrow> int (length bs) = calcsize fmt * c
      | None \<Rightarrow> t = STRING_TYPE \<and> c \<le> 2000000 \<and>
          (\<exists>raws. length raws = nat c \<and> list_all raw_ok raws \<and> bs = concat (map spell_string raws)))"

lemma map_of_sizes: "map_of SCALAR_SIZES t = map_option calcsize (map_of SCALAR_FORMATS t)"
  by (simp add: SCALAR_SIZES_def map_of_map)

lemma parses_skip_array: "parses (skip_array t c) (array_gram t c)"
proof (cases "map_of SCALAR_FORMATS t")
  case None
  have "parses (if t = STRING_TYPE then
       (if c > 2000000 then raiseR m1 else timesR (nat c) skip_string ()) else raiseR m2)
      (\<lambda>bs y. if t = STRING_TYPE then \<not> c > 2000000 \<and>
          (\<exists>raws. length raws = nat c \<and> list_all raw_ok raws \<and> bs = concat (map spell_string raws))
        else False)" for m1 m2
    by (intro parses_if parses_guard parses_strings parses_raise)
  from parses_cong [OF this] show ?thesis
    unfolding skip_array_def map_of_sizes None option.map option.case
    by (rule parses_cong) (auto simp: array_gram_def None)
next
  case (Some fmt)
  then show ?thesis
    by (simp add: skip_array_def map_of_sizes) (rule parses_cong [OF parses_skip], simp add: array_gram_def)
qed

definition value_gram :: "int \<Rightarrow> bool \<Rightarrow> gvalue option gram" where
  "value_gram t retain bs y =
     (\<exists>v. tag_of v = t \<and> value_ok retain v \<and> bs = spell_value v
        \<and> y = (if retain then view_value v else None))"

lemma format_not_composite [simp]:
  "map_of SCALAR_FORMATS STRING_TYPE = None" "map_of SCALAR_FORMATS ARRAY_TYPE = None"
  "STRING_TYPE \<noteq> ARRAY_TYPE" "ARRAY_TYPE \<noteq> STRING_TYPE"
  by (simp_all add: SCALAR_FORMATS_def STRING_TYPE_def ARRAY_TYPE_def)

lemma scalar_grammar:
  assumes "map_of SCALAR_FORMATS t = Some fmt"
  shows "value_gram t retain bs y \<longleftrightarrow>
    int (length bs) = calcsize fmt \<and> y = (if retain then Some (unpack_bytes fmt bs) else None)"
  (is "?l \<longleftrightarrow> ?r")
proof
  assume ?l
  then obtain v where v: "tag_of v = t" "value_ok retain v" "bs = spell_value v"
      "y = (if retain then view_value v else None)" by (auto simp: value_gram_def)
  with assms obtain raw where "v = Scalar t raw" by (cases v) auto
  then show ?r using v assms by simp
next
  assume ?r
  then show ?l
    unfolding value_gram_def using assms by (intro exI [of _ "Scalar t bs"]) simp
qed

lemma string_grammar:
  "value_gram STRING_TYPE retain bs y \<longleftrightarrow>
    (\<exists>t. string_gram retain 1048576 bs t \<and> y = map_option GText t)"
proof -
  have "value_gram STRING_TYPE retain bs y \<longleftrightarrow>
      (\<exists>raw. value_ok retain (Str raw) \<and> bs = spell_string raw
        \<and> y = (if retain then view_value (Str raw) else None))" (is "?l \<longleftrightarrow> ?r")
  proof
    assume ?l
    then obtain v where v: "tag_of v = STRING_TYPE" "value_ok retain v" "bs = spell_value v"
        "y = (if retain then view_value v else None)" by (auto simp: value_gram_def)
    then show ?r by (cases v) auto
  qed (use value_gram_def tag_of.simps(2) spell_value.simps(2) in metis)
  then show ?thesis by (auto simp: string_gram_def)
qed

lemma ex_unit: "(\<exists>u :: unit. P u) \<longleftrightarrow> P ()"
  by auto

lemma array_grammar:
  "value_gram ARRAY_TYPE retain bs y \<longleftrightarrow>
    (\<exists>t c cs. bs = le_bytes 4 t @ le_bytes 8 c @ cs \<and> 0 \<le> t \<and> t < 4294967296 \<and> 0 \<le> c
       \<and> c < 18446744073709551616 \<and> c \<le> 10000000 \<and> \<not> retain \<and> array_gram t c cs () \<and> y = None)" (is "?l \<longleftrightarrow> ?r")
proof
  assume ?l
  then obtain v where v: "tag_of v = ARRAY_TYPE" "value_ok retain v" "bs = spell_value v"
      "y = (if retain then view_value v else None)" by (auto simp: value_gram_def)
  show ?r
  proof (cases v)
    case (Scalars t c raw)
    have "0 \<le> t \<and> t < 4294967296" if "map_of SCALAR_FORMATS t \<noteq> None"
      using that by (auto simp: SCALAR_FORMATS_def split: if_splits)
    then show ?thesis
      using v Scalars
      by - (rule exI [of _ t], rule exI [of _ c], rule exI [of _ raw],
          auto simp: array_gram_def split: option.splits)
  next
    case (Strs raws)
    then show ?thesis
      using v
      by - (rule exI [of _ STRING_TYPE], rule exI [of _ "int (length raws)"],
          rule exI [of _ "concat (map spell_string raws)"],
          auto simp: array_gram_def, simp_all add: STRING_TYPE_def)
  qed (use v in \<open>auto simp: value_ok.simps split: option.splits\<close>)
next
  assume ?r
  then obtain t c cs where r: "bs = le_bytes 4 t @ le_bytes 8 c @ cs" "0 \<le> c" "c \<le> 10000000"
      "\<not> retain" "array_gram t c cs ()" "y = None" by blast
  show ?l
  proof (cases "map_of SCALAR_FORMATS t")
    case None
    then obtain raws where "t = STRING_TYPE" "c \<le> 2000000" "length raws = nat c"
        "list_all raw_ok raws" "cs = concat (map spell_string raws)"
      using r by (auto simp: array_gram_def)
    then show ?thesis
      unfolding value_gram_def using r by (intro exI [of _ "Strs raws"]) auto
  next
    case (Some fmt)
    then show ?thesis
      unfolding value_gram_def using r
      by (intro exI [of _ "Scalars t c cs"]) (auto simp: array_gram_def)
  qed
qed

lemma parses_read_value: "parses (read_value t retain) (value_gram t retain)"
proof (cases "map_of SCALAR_FORMATS t")
  case (Some fmt)
  have "parses (bindR (unpack fmt) (\<lambda>v. retR (if retain then Some v else None))) (value_gram t retain)"
    by (rule parses_cong [OF parses_bind [OF parses_unpack parses_ret]])
      (auto simp: scalar_grammar [OF Some])
  then show ?thesis using Some by (simp add: read_value_def)
next
  case None
  have str: "parses (bindR (read_string retain 1048576) (\<lambda>u. retR (map_option GText u)))
      (value_gram STRING_TYPE retain)"
    by (rule parses_cong [OF parses_bind [OF parses_read_string parses_ret]]) (auto simp: string_grammar)
  have "parses (bindR (unpack_uint FmtI) (\<lambda>element_type.
            bindR (unpack_uint FmtQ) (\<lambda>count.
            if count > 10000000 then raiseR m1
            else if retain then raiseR m2
            else bindR (skip_array element_type count) (\<lambda>_. retR None))))
      (seqG (field 4) (\<lambda>t. seqG (field 8) (\<lambda>c bs y. \<not> c > 10000000 \<and> \<not> retain \<and>
        seqG (array_gram t c) (\<lambda>u bs y. bs = [] \<and> y = None) bs y)))" for m1 m2
    by (intro parses_bind parses_guard parses_u32 parses_u64 parses_skip_array parses_ret)
  then have arr: "parses (bindR (unpack_uint FmtI) (\<lambda>element_type.
            bindR (unpack_uint FmtQ) (\<lambda>count.
            if count > 10000000 then raiseR m1
            else if retain then raiseR m2
            else bindR (skip_array element_type count) (\<lambda>_. retR None))))
      (value_gram ARRAY_TYPE retain)" for m1 m2
    by (rule parses_cong) (simp add: array_grammar not_less ex_unit, blast)
  have no: "value_gram t retain bs y \<longleftrightarrow> False" if "t \<noteq> STRING_TYPE" "t \<noteq> ARRAY_TYPE" for bs y
  proof -
    have "\<not> value_ok retain v" if "tag_of v = t" for v
      using that None \<open>t \<noteq> STRING_TYPE\<close> \<open>t \<noteq> ARRAY_TYPE\<close> by (cases v) auto
    then show ?thesis by (auto simp: value_gram_def)
  qed
  have "parses (raiseR m) (value_gram t retain)" if "t \<noteq> STRING_TYPE" "t \<noteq> ARRAY_TYPE" for m
    by (rule parses_cong [OF parses_raise]) (simp add: no [OF that])
  then show ?thesis
    using None str arr by (auto simp: read_value_def)
qed

end
