(* ===== verification/GgufExact.thy ===== *)
theory GgufExact
  imports GgufFormat
begin

text \<open>
  The inspection against the format: the loops over metadata entries, dimensions and tensors are instances of
  the locale of counted loops, and a file is accepted exactly when it starts with a supported document,
  which is then what the report describes.
\<close>

subsection \<open>Metadata entries\<close>

lemma utf8_decode_length: "utf8_decode bs = Some t \<Longrightarrow> length t \<le> length bs"
proof (induction "length bs" arbitrary: bs t rule: less_induct)
  case less
  show ?case
  proof (cases bs)
    case (Cons a r)
    then show ?thesis
      using less.prems
      by (auto simp: Let_def split: if_splits list.splits) (force dest: less.hyps [rotated])+
  qed (use less.prems in simp)
qed

lemma parses_some [grammar]:
  assumes "\<And>k. parses (f k) (G k)"
  shows "parses (case u of None \<Rightarrow> (\<lambda>st. Inl e) | Some k \<Rightarrow> f k) (\<lambda>bs y. \<exists>k. u = Some k \<and> G k bs y)"
  using assms by (cases u) (auto simp: parses_def)

definition entry_gram :: "metadata \<Rightarrow> metadata gram" where
  "entry_gram d bs d' = (\<exists>e. entry_ok e \<and> bs = spell_entry e \<and> d' = record_entry d e)"

lemma scalar_tag: "map_of SCALAR_FORMATS t \<noteq> None \<Longrightarrow> 0 \<le> t \<and> t < 4294967296"
  by (auto simp: SCALAR_FORMATS_def split: if_splits)

lemma tag_bounds: "value_ok retain v \<Longrightarrow> 0 \<le> tag_of v \<and> tag_of v < 4294967296"
  by (cases v) (use scalar_tag in \<open>auto simp: STRING_TYPE_def ARRAY_TYPE_def split: option.splits\<close>)

lemma entry_grammar:
  "seqG (string_gram True 4096) (\<lambda>key0 bs y. \<exists>key. key0 = Some key \<and> \<not> (key = [] \<or> length key > 4096) \<and>
      seqG (field 4) (\<lambda>t. seqG (value_gram t (retain_metadata key t)) (\<lambda>v bs y. bs = [] \<and> y =
        (case v of Some x \<Rightarrow> if retain_metadata key t then dset key x d else d | None \<Rightarrow> d))) bs y) bs y
    \<longleftrightarrow> entry_gram d bs y" (is "?l \<longleftrightarrow> ?r")
proof
  assume ?l
  then obtain raw key t c v where h: "bs = spell_string raw @ le_bytes 4 t @ c" "int (length raw) \<le> 4096"
      "Some key = utf8_decode (map uint raw)" "key \<noteq> []"
      "value_gram t (retain_metadata key t) c v"
      "y = (case v of Some x \<Rightarrow> if retain_metadata key t then dset key x d else d | None \<Rightarrow> d)"
    by (auto simp: seqG_def [of "string_gram True 4096"] string_gram_def)
  from h(5) obtain w where w: "tag_of w = t" "value_ok (retain_metadata key t) w" "c = spell_value w"
      "v = (if retain_metadata key t then view_value w else None)"
    by (auto simp: value_gram_def)
  have "key_of (raw, w) = key" "retained (raw, w) = retain_metadata key t"
    using h(3) [symmetric] w(1) by (simp_all add: key_of_def retained_def)
  then show ?r
    unfolding entry_gram_def using h w
    by (intro exI [of _ "(raw, w)"]) (auto simp: entry_ok_def spell_entry_def record_entry_def split: option.splits)
next
  assume ?r
  then obtain e where e: "entry_ok e" "bs = spell_entry e" "y = record_entry d e"
    by (auto simp: entry_gram_def)
  obtain key where key: "utf8_decode (map uint (fst e)) = Some key" "key_of e = key" "key \<noteq> []"
    using e(1) by (auto simp: entry_ok_def key_of_def split: option.splits)
  then have "length key \<le> 4096"
    using e(1) utf8_decode_length by (fastforce simp: entry_ok_def)
  then have len: "\<not> (key = [] \<or> length key > 4096)" using key by simp
  let ?t = "tag_of (snd e)"
  have ret: "retain_metadata key ?t = retained e" using key by (simp add: retained_def)
  have g1: "string_gram True 4096 (spell_string (fst e)) (Some key)"
    using e(1) key by (auto simp: string_gram_def entry_ok_def raw_ok_def)
  have "value_gram ?t (retained e) (spell_value (snd e)) (if retained e then view_value (snd e) else None)"
    using e(1) by (auto simp: value_gram_def entry_ok_def)
  then have g2: "seqG (value_gram ?t (retain_metadata key ?t)) (\<lambda>v bs y. bs = [] \<and> y =
        (case v of Some x \<Rightarrow> if retain_metadata key ?t then dset key x d else d | None \<Rightarrow> d))
        (spell_value (snd e)) y"
    unfolding seq_ret ret using e(3) key
    by (intro exI [of _ "if retained e then view_value (snd e) else None"])
      (auto simp: record_entry_def split: option.splits)
  have t: "0 \<le> ?t" "?t < 256 ^ 4" using e(1) tag_bounds by (auto simp: entry_ok_def)
  show ?l
    unfolding seqG_def [of "string_gram True 4096"] seq_field
    using e(2) len g1 g2 t unfolding spell_entry_def by blast
qed

lemma parses_read_entry: "parses (read_entry d) (entry_gram d)"
proof -
  have "parses (read_entry d)
    (seqG (string_gram True 4096) (\<lambda>key0 bs y. \<exists>key. key0 = Some key \<and> \<not> (key = [] \<or> length key > 4096) \<and>
      seqG (field 4) (\<lambda>t. seqG (value_gram t (retain_metadata key t)) (\<lambda>v bs y. bs = [] \<and> y =
        (case v of Some x \<Rightarrow> if retain_metadata key t then dset key x d else d | None \<Rightarrow> d))) bs y))"
    unfolding read_entry_def Let_def
    by (intro parses_bind parses_some parses_guard parses_read_string parses_u32 parses_read_value parses_ret)
  then show ?thesis by (rule parses_cong) (rule entry_grammar)
qed

interpretation entries: spelled read_entry entry_gram "\<lambda>_. entry_ok" spell_entry record_entry
  by unfold_locales (auto simp: parses_read_entry entry_gram_def)

subsection \<open>Dimensions and tensors\<close>

definition dimension_ok :: "int \<Rightarrow> int \<Rightarrow> bool" where
  "dimension_ok p d = (1 \<le> d \<and> d \<le> 10000000000 \<and> p * d \<le> 10000000000000)"

definition dimension_gram :: "int \<Rightarrow> int gram" where
  "dimension_gram p bs q = (\<exists>d. dimension_ok p d \<and> bs = le_bytes 8 d \<and> q = p * d)"

lemma parses_read_dimension: "parses (read_dimension p) (dimension_gram p)"
proof -
  have "parses (read_dimension p)
      (seqG (field 8) (\<lambda>d bs y. \<not> (d < 1 \<or> d > 10000000000) \<and> \<not> p * d > 10000000000000 \<and> bs = [] \<and> y = p * d))"
    unfolding read_dimension_def by (intro parses_bind parses_guard parses_u64 parses_ret)
  then show ?thesis
    by (rule parses_cong) (auto simp: dimension_gram_def dimension_ok_def, metis linorder_not_less)
qed

interpretation dimensions: spelled read_dimension dimension_gram dimension_ok "le_bytes 8" "(*)"
  by unfold_locales (auto simp: parses_read_dimension dimension_gram_def)

lemma prod_list_pos: "list_all (\<lambda>d. 1 \<le> d \<and> d \<le> 10000000000) ds \<Longrightarrow> (1 :: int) \<le> prod_list ds"
proof (induction ds)
  case (Cons d ds)
  then have "1 * 1 \<le> d * prod_list ds" by (intro mult_mono) auto
  then show ?case by simp
qed simp

lemma run_dimensions:
  "run_ok dimension_ok (*) p ds \<and> foldl (*) p ds = q \<longleftrightarrow>
     list_all (\<lambda>d. 1 \<le> d \<and> d \<le> 10000000000) ds \<and> (ds \<noteq> [] \<longrightarrow> p * prod_list ds \<le> 10000000000000)
       \<and> q = p * prod_list ds" if "1 \<le> p"
  using that
proof (induction ds arbitrary: p)
  case (Cons d ds)
  show ?case
  proof (cases "1 \<le> d \<and> d \<le> 10000000000")
    case True
    then have pd: "1 \<le> p * d" using Cons.prems mult_mono [of 1 p 1 d] by simp
    have "p * d \<le> 10000000000000"
      if "list_all (\<lambda>d. 1 \<le> d \<and> d \<le> 10000000000) ds" "p * (d * prod_list ds) \<le> 10000000000000"
    proof -
      have "p * d * 1 \<le> p * d * prod_list ds"
        using prod_list_pos [OF that(1)] pd by (intro mult_left_mono) auto
      then show ?thesis using that(2) by (simp add: mult.assoc)
    qed
    then show ?thesis
      using Cons.IH [OF pd] True by (auto simp: dimension_ok_def mult.assoc)
  qed (auto simp: dimension_ok_def)
qed auto

type_synonym totals_gram = "tensor_totals \<Rightarrow> tensor_totals gram"

definition add_tensor :: "tensor_totals \<Rightarrow> tensor \<Rightarrow> tensor_totals" where
  "add_tensor s t = (fst s + parameters_of t, counter_add (type_name (t_type t)) (snd s))"

definition tensor_fine :: "tensor_totals \<Rightarrow> tensor \<Rightarrow> bool" where
  "tensor_fine s t = (tensor_ok t \<and> fst s + parameters_of t \<le> 100000000000000)"

definition tensor_gram :: totals_gram where
  "tensor_gram s bs s' = (\<exists>t. tensor_fine s t \<and> bs = spell_tensor t \<and> s' = add_tensor s t)"

lemma parses_dimensions:
  assumes "1 \<le> k"
  shows "parses (timesR k read_dimension 1)
    (\<lambda>bs q. \<exists>ds. length ds = k \<and> list_all (\<lambda>d. 1 \<le> d \<and> d \<le> 10000000000) ds
       \<and> prod_list ds \<le> 10000000000000 \<and> bs = concat (map (le_bytes 8) ds) \<and> q = prod_list ds)"
proof (rule parses_cong [OF dimensions.spelled_loop])
  fix bs q
  have "(\<exists>is. length is = k \<and> run_ok dimension_ok (*) 1 is \<and> bs = concat (map (le_bytes 8) is)
          \<and> q = foldl (*) 1 is)
      = (\<exists>is. length is = k \<and> bs = concat (map (le_bytes 8) is)
          \<and> (run_ok dimension_ok (*) 1 is \<and> foldl (*) 1 is = q))" by auto
  also have "\<dots> = (\<exists>ds. length ds = k \<and> list_all (\<lambda>d. 1 \<le> d \<and> d \<le> 10000000000) ds
       \<and> prod_list ds \<le> 10000000000000 \<and> bs = concat (map (le_bytes 8) ds) \<and> q = prod_list ds)"
    unfolding run_dimensions [OF order_refl] using assms by auto
  finally show "(\<exists>is. length is = k \<and> run_ok dimension_ok (*) 1 is \<and> bs = concat (map (le_bytes 8) is)
          \<and> q = foldl (*) 1 is)
      = (\<exists>ds. length ds = k \<and> list_all (\<lambda>d. 1 \<le> d \<and> d \<le> 10000000000) ds
       \<and> prod_list ds \<le> 10000000000000 \<and> bs = concat (map (le_bytes 8) ds) \<and> q = prod_list ds)" .
qed

lemma parses_read_tensor: "parses (read_tensor s) (tensor_gram s)"
proof -
  have k: "1 \<le> nat k" if "\<not> (k < 1 \<or> k > 8)" for k :: int
    using that by arith
  let ?dims = "\<lambda>k bs q. \<exists>ds. length ds = k \<and> list_all (\<lambda>d. 1 \<le> d \<and> d \<le> 10000000000) ds
       \<and> prod_list ds \<le> 10000000000000 \<and> bs = concat (map (le_bytes 8) ds) \<and> q = prod_list ds"
  have guard: "parses (if k < 1 \<or> k > 8 then raiseR m else bindR (timesR (nat k) read_dimension 1) f)
      (\<lambda>bs y. \<not> (k < 1 \<or> k > 8) \<and> seqG (?dims (nat k)) G bs y)"
    if "\<And>q. parses (f q) (G q)" for m k f and G :: "int \<Rightarrow> tensor_totals gram"
    using parses_bind [OF parses_dimensions [OF k] that] by (auto simp: parses_def raiseR_def)
  have "parses (read_tensor s)
    (seqG (string_gram False 1048576) (\<lambda>u. seqG (field 4) (\<lambda>k bs y. \<not> (k < 1 \<or> k > 8) \<and>
      seqG (?dims (nat k)) (\<lambda>q bs y. \<not> fst s + q > 100000000000000 \<and>
        seqG (field 4) (\<lambda>t. seqG (field 8) (\<lambda>off bs y.
          bs = [] \<and> y = (fst s + q, counter_add (type_name t) (snd s)))) bs y) bs y)))"
    unfolding read_tensor_def
    by (intro parses_bind guard parses_guard parses_read_string parses_u32 parses_u64 parses_ret)
  then show ?thesis
  proof (rule parses_cong)
    fix bs y
    show "seqG (string_gram False 1048576) (\<lambda>u. seqG (field 4) (\<lambda>k bs y. \<not> (k < 1 \<or> k > 8) \<and>
      seqG (?dims (nat k)) (\<lambda>q bs y. \<not> fst s + q > 100000000000000 \<and>
        seqG (field 4) (\<lambda>t. seqG (field 8) (\<lambda>off bs y.
          bs = [] \<and> y = (fst s + q, counter_add (type_name t) (snd s)))) bs y) bs y)) bs y
      = tensor_gram s bs y" (is "?l = ?r")
    proof
      assume ?l
      then obtain raw k ds t off where h: "raw_ok raw" "0 \<le> k" "1 \<le> k" "k \<le> 8" "length ds = nat k"
          "list_all (\<lambda>d. 1 \<le> d \<and> d \<le> 10000000000) ds" "prod_list ds \<le> 10000000000000"
          "fst s + prod_list ds \<le> 100000000000000" "0 \<le> t" "t < 4294967296" "0 \<le> off"
          "off < 18446744073709551616"
          "bs = spell_string raw @ le_bytes 4 k @ concat (map (le_bytes 8) ds) @ le_bytes 4 t @ le_bytes 8 off"
          "y = (fst s + prod_list ds, counter_add (type_name t) (snd s))"
        by (auto simp: seqG_def [of "string_gram False 1048576"] seqG_def [of "?dims k" for k] string_gram_def
            field_def not_less)
      then show ?r
        unfolding tensor_gram_def
        by (intro exI [of _ "\<lparr>t_name = raw, t_dims = ds, t_type = t, t_offset = off\<rparr>"])
          (auto simp: tensor_fine_def tensor_ok_def add_tensor_def parameters_of_def spell_tensor_def)
    next
      assume ?r
      then obtain t where t: "tensor_fine s t" "bs = spell_tensor t" "y = add_tensor s t"
        by (auto simp: tensor_gram_def)
      let ?k = "int (length (t_dims t))"
      have g1: "string_gram False 1048576 (spell_string (t_name t)) None"
        using t(1) by (auto simp: string_gram_def tensor_fine_def tensor_ok_def)
      have g2: "?dims (nat ?k) (concat (map (le_bytes 8) (t_dims t))) (parameters_of t)"
        using t(1) by (auto simp: tensor_fine_def tensor_ok_def parameters_of_def)
      have g3: "seqG (field 4) (\<lambda>u. seqG (field 8) (\<lambda>off bs y.
          bs = [] \<and> y = (fst s + parameters_of t, counter_add (type_name u) (snd s))))
          (le_bytes 4 (t_type t) @ le_bytes 8 (t_offset t)) y"
        using t(1,3) by (force simp: tensor_fine_def tensor_ok_def add_tensor_def field_def)
      have g4: "seqG (?dims (nat ?k)) (\<lambda>q bs y. \<not> fst s + q > 100000000000000 \<and>
        seqG (field 4) (\<lambda>t. seqG (field 8) (\<lambda>off bs y.
          bs = [] \<and> y = (fst s + q, counter_add (type_name t) (snd s)))) bs y)
        (concat (map (le_bytes 8) (t_dims t)) @ le_bytes 4 (t_type t) @ le_bytes 8 (t_offset t)) y"
        by (rule seqG_I [of "?dims (nat ?k)", OF g2]) (use g3 t(1) in \<open>simp add: tensor_fine_def\<close>)
      have k: "\<not> (?k < 1 \<or> ?k > 8)" "0 \<le> ?k" "?k < 256 ^ 4"
        using t(1) by (auto simp: tensor_fine_def tensor_ok_def)
      have g5: "field 4 (le_bytes 4 ?k) ?k" using k by (simp add: field_def)
      show ?l
        unfolding t(2) spell_tensor_def
        by (rule seqG_I [of "string_gram False 1048576", OF g1], rule seqG_I [of "field 4", OF g5], rule conjI [OF k(1) g4])
    qed
  qed
qed

interpretation tensors: spelled read_tensor tensor_gram tensor_fine spell_tensor add_tensor
  by unfold_locales (auto simp: parses_read_tensor tensor_gram_def)

lemma parameters_pos: "tensor_ok t \<Longrightarrow> 1 \<le> parameters_of t"
  by (simp add: tensor_ok_def parameters_of_def prod_list_pos)

lemma sum_parameters_nonneg: "list_all tensor_ok ts \<Longrightarrow> 0 \<le> sum_list (map parameters_of ts)"
  by (induction ts) (auto dest: parameters_pos)

lemma run_tensors:
  "fst s \<le> 100000000000000 \<Longrightarrow>
   run_ok tensor_fine add_tensor s ts \<longleftrightarrow>
     list_all tensor_ok ts \<and> fst s + sum_list (map parameters_of ts) \<le> 100000000000000"
proof (induction ts arbitrary: s)
  case (Cons t ts)
  have "fst s + parameters_of t \<le> 100000000000000"
    if "list_all tensor_ok ts" "fst s + (parameters_of t + sum_list (map parameters_of ts)) \<le> 100000000000000"
    using that sum_parameters_nonneg [OF that(1)] by simp
  then show ?case
    using Cons.IH [of "add_tensor s t"] by (auto simp: tensor_fine_def add_tensor_def add.assoc)
qed simp

lemma foldl_add_tensor:
  "foldl add_tensor s ts =
     (fst s + sum_list (map parameters_of ts), foldl (\<lambda>c t. counter_add (type_name (t_type t)) c) (snd s) ts)"
  by (induction ts arbitrary: s) (auto simp: add_tensor_def add.assoc)

subsection \<open>The whole file\<close>

definition body_gram :: "nat \<Rightarrow> nat \<Rightarrow> (metadata \<times> tensor_totals) gram" where
  "body_gram m n bs y =
     (\<exists>es ts. length es = m \<and> length ts = n \<and> list_all entry_ok es \<and> list_all tensor_ok ts
        \<and> sum_list (map parameters_of ts) \<le> 100000000000000
        \<and> bs = concat (map spell_entry es) @ concat (map spell_tensor ts)
        \<and> y = (foldl record_entry [] es, (sum_list (map parameters_of ts), type_counts ts)))"

lemma parses_body:
  "parses (bindR (timesR m read_entry []) (\<lambda>d. bindR (timesR n read_tensor (0, [])) (\<lambda>t. retR (f d t))))
     (\<lambda>bs y. \<exists>d t. body_gram m n bs (d, t) \<and> y = f d t)"
proof -
  have "parses (bindR (timesR m read_entry []) (\<lambda>d. bindR (timesR n read_tensor (0, [])) (\<lambda>t. retR (f d t))))
    (seqG (\<lambda>bs d. \<exists>is. length is = m \<and> run_ok (\<lambda>_. entry_ok) record_entry [] is
        \<and> bs = concat (map spell_entry is) \<and> d = foldl record_entry [] is)
      (\<lambda>d. seqG (\<lambda>bs t. \<exists>is. length is = n \<and> run_ok tensor_fine add_tensor (0, []) is
        \<and> bs = concat (map spell_tensor is) \<and> t = foldl add_tensor (0, []) is)
        (\<lambda>t bs y. bs = [] \<and> y = f d t)))"
    by (intro parses_bind entries.spelled_loop tensors.spelled_loop parses_ret)
  then show ?thesis
  proof (rule parses_cong, unfold run_ok_const seq_ret)
    fix bs y
    have "run_ok tensor_fine add_tensor (0, []) ts \<longleftrightarrow>
        list_all tensor_ok ts \<and> sum_list (map parameters_of ts) \<le> 100000000000000" for ts
      by (simp add: run_tensors)
    moreover have "foldl add_tensor (0, []) ts = (sum_list (map parameters_of ts), type_counts ts)" for ts
      by (simp add: foldl_add_tensor type_counts_def)
    ultimately show "seqG (\<lambda>bs d. \<exists>is. length is = m \<and> list_all entry_ok is
        \<and> bs = concat (map spell_entry is) \<and> d = foldl record_entry [] is)
      (\<lambda>d bs y. \<exists>t. (\<exists>is. length is = n \<and> run_ok tensor_fine add_tensor (0, []) is
        \<and> bs = concat (map spell_tensor is) \<and> t = foldl add_tensor (0, []) is) \<and> y = f d t) bs y
      \<longleftrightarrow> (\<exists>d t. body_gram m n bs (d, t) \<and> y = f d t)"
      by (auto simp: seqG_def body_gram_def) blast+
  qed
qed

lemma valid_new_reader: "valid_reader (new_reader bytes (int (length bytes)))"
  by (simp add: valid_reader_def new_reader_def)

lemma holds_start:
  "holds (new_reader bytes sz) bs \<longleftrightarrow> (\<exists>rest. bytes = bs @ rest)"
  by (auto simp: holds_def new_reader_def) (metis append_take_drop_id)

lemma parses_header:
  "parses (bindR (read_exact 4) (\<lambda>magic.
     if magic \<noteq> GGUF_MAGIC then raiseR m1
     else bindR (unpack_uint FmtI) (\<lambda>version.
     if version \<notin> {2, 3} then raiseR (m2 version)
     else bindR (unpack_uint FmtQ) (\<lambda>tensor_count.
     bindR (unpack_uint FmtQ) (\<lambda>metadata_count.
     if tensor_count > 1000000 then raiseR m3
     else if metadata_count > 100000 then raiseR m4
     else retR (version, tensor_count, metadata_count))))))
   (\<lambda>bs (v, n, m). bs = GGUF_MAGIC @ le_bytes 4 v @ le_bytes 8 n @ le_bytes 8 m
      \<and> v \<in> {2, 3} \<and> 0 \<le> n \<and> n \<le> 1000000 \<and> 0 \<le> m \<and> m \<le> 100000)"
  (is "parses ?r ?G")
proof -
  have "parses ?r
    (seqG (\<lambda>bs x. (0 :: int) \<le> 4 \<and> 4 \<le> (536870912 :: int) \<and> int (length bs) = 4 \<and> x = bs)
      (\<lambda>magic bs y. \<not> magic \<noteq> GGUF_MAGIC \<and> seqG (field 4) (\<lambda>v bs y. \<not> v \<notin> {2, 3} \<and>
        seqG (field 8) (\<lambda>n. seqG (field 8) (\<lambda>m bs y. \<not> n > 1000000 \<and> \<not> m > 100000 \<and>
          bs = [] \<and> y = (v, n, m))) bs y) bs y))"
    by (intro parses_bind parses_guard parses_read_exact parses_u32 parses_u64 parses_ret)
  then show ?thesis
  proof (rule parses_cong)
    fix bs and y :: "int \<times> int \<times> int"
    obtain v n m where y: "y = (v, n, m)" by (cases y) auto
    have four: "length GGUF_MAGIC = 4" by (simp add: GGUF_MAGIC_def)
    show "seqG (\<lambda>bs x. (0 :: int) \<le> 4 \<and> 4 \<le> (536870912 :: int) \<and> int (length bs) = 4 \<and> x = bs)
      (\<lambda>magic bs y. \<not> magic \<noteq> GGUF_MAGIC \<and> seqG (field 4) (\<lambda>v bs y. \<not> v \<notin> {2, 3} \<and>
        seqG (field 8) (\<lambda>n. seqG (field 8) (\<lambda>m bs y. \<not> n > 1000000 \<and> \<not> m > 100000 \<and>
          bs = [] \<and> y = (v, n, m))) bs y) bs y) bs y = ?G bs y"
      unfolding seqG_def [of "\<lambda>bs x. (0 :: int) \<le> 4 \<and> 4 \<le> (536870912 :: int) \<and> int (length bs) = 4 \<and> x = bs"]
        seq_field y
      using four by auto
  qed
qed

text \<open>The size limit of the metadata starts to count behind the 24 bytes of the header.\<close>

lemma read_model_split:
  "read_model path sz =
     bindR (bindR (read_exact 4) (\<lambda>magic.
     if magic \<noteq> GGUF_MAGIC then raiseR ''model does not contain GGUF magic''
     else bindR (unpack_uint FmtI) (\<lambda>version.
     if version \<notin> {2, 3} then raiseR (''unsupported GGUF version: '' @ int_str version)
     else bindR (unpack_uint FmtQ) (\<lambda>tensor_count.
     bindR (unpack_uint FmtQ) (\<lambda>metadata_count.
     if tensor_count > 1000000 then raiseR ''GGUF tensor count exceeds the managed bound''
     else if metadata_count > 100000 then raiseR ''GGUF metadata count exceeds the managed bound''
     else retR (version, tensor_count, metadata_count))))))
     (\<lambda>(version, tensor_count, metadata_count).
       bindR mark_metadata_start (\<lambda>_.
       bindR (timesR (nat metadata_count) read_entry []) (\<lambda>metadata.
       bindR (timesR (nat tensor_count) read_tensor (0, [])) (\<lambda>totals.
       retR \<lparr>gi_path = path, gi_size_bytes = sz, gi_version = version,
             gi_tensor_count = tensor_count, gi_metadata_count = metadata_count,
             gi_parameter_count = fst totals, gi_tensor_types = snd totals,
             gi_metadata = metadata\<rparr>))))"
  by (rule ext) (simp add: read_model_def bindR_def bindE_def raiseR_def retR_def split: sum.split prod.split if_split)

lemma read_model_exact:
  fixes bytes path
  defines "sz \<equiv> int (length bytes)"
  shows "(\<exists>st'. read_model path sz (new_reader bytes sz) = Inr (info, st')) \<longleftrightarrow>
    (\<exists>doc rest. doc_ok doc \<and> bytes = spell_doc doc @ rest
       \<and> int (length (spell_doc doc)) \<le> 24 + 536870912 \<and> info = report_of path sz doc)"
    (is "?l \<longleftrightarrow> ?r")
proof -
  let ?st = "new_reader bytes sz"
  let ?mk = "\<lambda>v n m d (t :: tensor_totals). \<lparr>gi_path = path, gi_size_bytes = sz, gi_version = v, gi_tensor_count = n,
      gi_metadata_count = m, gi_parameter_count = fst t, gi_tensor_types = snd t, gi_metadata = d\<rparr>"
  have v: "valid_reader ?st" unfolding sz_def by (rule valid_new_reader)
  have body: "bindR mark_metadata_start (\<lambda>_. bindR (timesR (nat m) read_entry []) (\<lambda>d.
        bindR (timesR (nat n) read_tensor (0, [])) (\<lambda>t. retR (?mk v n m d t))))
        (forward ?st 24) = Inr (info, st') \<longleftrightarrow>
      (\<exists>bs d t. holds (forward ?st 24) bs \<and> 24 + int (length bs) \<le> sz \<and> int (length bs) \<le> 536870912
        \<and> st' = forward ((forward ?st 24)\<lparr>rd_start := 24\<rparr>) (length bs)
        \<and> body_gram (nat m) (nat n) bs (d, t) \<and> info = ?mk v n m d t)"
    if "24 \<le> sz" for v n m st'
  proof -
    let ?mark = "(forward ?st 24)\<lparr>rd_start := 24\<rparr>"
    have "valid_reader ?mark" using that v by (simp add: valid_reader_def new_reader_def)
    moreover have "holds ?mark bs = holds (forward ?st 24) bs" for bs by (simp add: holds_def)
    moreover have "fits ?mark k \<longleftrightarrow> 24 + int k \<le> sz \<and> int k \<le> 536870912" for k
      by (simp add: fits_def new_reader_def)
    moreover have "bindR mark_metadata_start f (forward ?st 24) = f () ?mark" for f :: "unit \<Rightarrow> gguf_info rd"
      by (simp add: bindR_def mark_metadata_start_def new_reader_def forward_def)
    ultimately show ?thesis
      using parsesD [OF parses_body [of "nat m" "nat n" "?mk v n m"], of ?mark info st'] by auto
  qed
  let ?G = "\<lambda>bs (v, n, m). bs = GGUF_MAGIC @ le_bytes 4 v @ le_bytes 8 n @ le_bytes 8 m
      \<and> v \<in> {2, 3} \<and> 0 \<le> n \<and> n \<le> 1000000 \<and> 0 \<le> m \<and> m \<le> 100000"
  have len: "length bs = 24" if "?G bs (v, n, m)" for bs v n m
    using that by (auto simp: GGUF_MAGIC_def)
  have fit: "fits ?st 24 \<longleftrightarrow> 24 \<le> sz" by (simp add: fits_def new_reader_def)
  show ?thesis
  proof
    assume ?l
    then obtain st' where "read_model path sz ?st = Inr (info, st')" ..
    then obtain bs v n m where h: "holds ?st bs" "fits ?st (length bs)" and G: "?G bs (v, n, m)" and
      run: "bindR mark_metadata_start (\<lambda>_. bindR (timesR (nat m) read_entry []) (\<lambda>d.
        bindR (timesR (nat n) read_tensor (0, [])) (\<lambda>t. retR (?mk v n m d t)))) (forward ?st (length bs))
        = Inr (info, st')"
      unfolding read_model_split parses_step [OF parses_header v] by auto
    have sz: "24 \<le> sz" using h(2) fit unfolding len [OF G] by simp
    obtain b2 d t where b2: "holds (forward ?st 24) b2" "int (length b2) \<le> 536870912"
        "body_gram (nat m) (nat n) b2 (d, t)" "info = ?mk v n m d t"
      using run unfolding len [OF G] body [OF sz] by blast
    then obtain es ts where b: "length es = nat m" "length ts = nat n" "list_all entry_ok es"
        "list_all tensor_ok ts" "sum_list (map parameters_of ts) \<le> 100000000000000"
        "b2 = concat (map spell_entry es) @ concat (map spell_tensor ts)" "d = foldl record_entry [] es"
        "t = (sum_list (map parameters_of ts), type_counts ts)"
      by (auto simp: body_gram_def)
    let ?doc = "\<lparr>doc_version = v, doc_entries = es, doc_tensors = ts\<rparr>"
    have nm: "int (length ts) = n" "int (length es) = m" using G b(1,2) by auto
    have spelled: "spell_doc ?doc = bs @ b2" using G b(6) nm by (simp add: spell_doc_def)
    have "holds ?st (spell_doc ?doc)"
      using h(1) b2(1) len [OF G] by (simp add: spelled holds_append [OF v])
    then obtain rest where "bytes = spell_doc ?doc @ rest" unfolding holds_start by blast
    moreover have "doc_ok ?doc" using G b nm by (auto simp: doc_ok_def)
    moreover have "int (length (spell_doc ?doc)) \<le> 24 + 536870912"
      using spelled len [OF G] b2(2) by simp
    moreover have "info = report_of path sz ?doc"
      using b2(4) b(7,8) nm by (simp add: report_of_def)
    ultimately show ?r by blast
  next
    assume ?r
    then obtain doc rest where d: "doc_ok doc" "bytes = spell_doc doc @ rest"
        "int (length (spell_doc doc)) \<le> 24 + 536870912" "info = report_of path sz doc" by blast
    let ?v = "doc_version doc" and ?n = "int (length (doc_tensors doc))" and
      ?m = "int (length (doc_entries doc))"
    let ?b1 = "GGUF_MAGIC @ le_bytes 4 ?v @ le_bytes 8 ?n @ le_bytes 8 ?m"
    let ?b2 = "concat (map spell_entry (doc_entries doc)) @ concat (map spell_tensor (doc_tensors doc))"
    have G: "?G ?b1 (?v, ?n, ?m)" using d(1) by (auto simp: doc_ok_def)
    have b1: "length ?b1 = 24" by (rule len [OF G])
    have spelled: "spell_doc doc = ?b1 @ ?b2" by (simp add: spell_doc_def)
    have "length bytes = 24 + length ?b2 + length rest"
      unfolding d(2) spelled using b1 by simp
    then have sz: "24 \<le> sz" "24 + int (length ?b2) \<le> sz" by (simp_all add: sz_def)
    have "holds ?st (?b1 @ ?b2)" unfolding holds_start spelled [symmetric] using d(2) by blast
    then have h: "holds ?st ?b1" "holds (forward ?st 24) ?b2"
      unfolding holds_append [OF v] b1 by auto
    have "body_gram (nat ?m) (nat ?n) ?b2
        (foldl record_entry [] (doc_entries doc),
         sum_list (map parameters_of (doc_tensors doc)), type_counts (doc_tensors doc))"
      unfolding body_gram_def using d(1)
      by (intro exI [of _ "doc_entries doc"] exI [of _ "doc_tensors doc"]) (auto simp: doc_ok_def)
    moreover have "int (length ?b2) \<le> 536870912" using d(3) b1 unfolding spelled by simp
    moreover have "info = ?mk ?v ?n ?m (foldl record_entry [] (doc_entries doc))
        (sum_list (map parameters_of (doc_tensors doc)), type_counts (doc_tensors doc))"
      using d(4) by (simp add: report_of_def)
    ultimately obtain st' where "bindR mark_metadata_start (\<lambda>_. bindR (timesR (nat ?m) read_entry []) (\<lambda>d.
        bindR (timesR (nat ?n) read_tensor (0, [])) (\<lambda>t. retR (?mk ?v ?n ?m d t)))) (forward ?st 24)
        = Inr (info, st')"
      unfolding body [OF sz(1)] using h(2) sz(2) by blast
    moreover have "fits ?st (length ?b1)" unfolding b1 fit by (rule sz(1))
    ultimately show ?l
      unfolding read_model_split parses_step [OF parses_header v]
      using h(1) G b1
      by (intro exI [of _ st'] exI [of _ ?b1] exI [of _ "(?v, ?n, ?m)"]) simp
  qed
qed

end
