(* ===== verification/GgufGuarantees.thy ===== *)
theory GgufGuarantees
  imports GgufExact
begin

text \<open>
  What an inspection guarantees: it accepts exactly the supported documents and reports what they hold,
  its numbers are bounded, and the managed entry point only opens models that pass the path policy.
\<close>

definition unchanged :: "opened \<Rightarrow> bool" where
  "unchanged f = (op_size f = int (length (op_bytes f)))"

lemma inspect_open:
  assumes "me_open env path = Inr f" and "unchanged f"
  shows "inspect_gguf_file env path = Inr info \<longleftrightarrow>
    op_regular f \<and> 24 \<le> op_size f \<and> op_size f \<le> 107374182400 \<and>
    (\<exists>doc rest. doc_ok doc \<and> op_bytes f = spell_doc doc @ rest
       \<and> int (length (spell_doc doc)) \<le> 24 + 536870912 \<and> info = report_of path (op_size f) doc)"
  using read_model_exact [of path "op_bytes f" info] assms
  by (auto simp: inspect_gguf_file_def unchanged_def)

text \<open>C20 (the inspection accepts exactly the supported format): for a file that does not change while it is
  open, the inspection succeeds if and only if the file is regular, of a supported size and starts with
  the bytes of a supported document, metadata and tensor table within their limit; the report is then the
  specified one for that document, whatever tensor data follow.\<close>

theorem inspect_exact:
  assumes "me_open env path = Inr f" and "unchanged f"
  shows "inspect_gguf_file env path = Inr info \<longleftrightarrow>
    op_regular f \<and> 24 \<le> op_size f \<and> op_size f \<le> 107374182400 \<and>
    (\<exists>doc rest. doc_ok doc \<and> op_bytes f = spell_doc doc @ rest
       \<and> int (length (spell_doc doc)) \<le> 24 + 536870912 \<and> info = report_of path (op_size f) doc)"
  using assms by (rule inspect_open)

subsection \<open>Bounds\<close>

lemma counter_total:
  "sum_list (map snd (counter_add n c)) = sum_list (map snd c) + 1"
proof -
  have "sum_list (map snd (dset n ((case map_of c n of None \<Rightarrow> 0 | Some k \<Rightarrow> k) + 1) c))
      = sum_list (map snd c) + (1 :: int)"
    by (induction c) (auto split: option.splits)
  then show ?thesis by (simp add: counter_add_def)
qed

lemma type_counts_total: "sum_list (map snd (type_counts ts)) = int (length ts)"
proof -
  have "sum_list (map snd (foldl (\<lambda>c t. counter_add (type_name (t_type t)) c) c ts))
      = sum_list (map snd c) + int (length ts)" for c
    by (induction ts arbitrary: c) (auto simp: counter_total)
  then show ?thesis by (simp add: type_counts_def)
qed

lemma parameters_at_least:
  "list_all tensor_ok ts \<Longrightarrow> int (length ts) \<le> sum_list (map parameters_of ts)"
  by (induction ts) (auto dest: parameters_pos)

lemma kept_keys:
  "list_all entry_ok es \<Longrightarrow> (k, v) \<in> set (foldl record_entry d es) \<Longrightarrow>
     (k, v) \<in> set d \<or> (k \<noteq> [] \<and> length k \<le> 4096 \<and> (\<exists>t. retain_metadata k t))"
proof (induction es arbitrary: d)
  case (Cons e es)
  then consider "(k, v) \<in> set (record_entry d e)" | "k \<noteq> [] \<and> length k \<le> 4096 \<and> (\<exists>t. retain_metadata k t)"
    by auto
  then show ?case
  proof cases
    case 1
    have "length (key_of e) \<le> 4096"
      using Cons.prems(1) utf8_decode_length [of "map uint (fst e)"]
      by (auto simp: entry_ok_def key_of_def split: option.splits)
    moreover have "(k, v) \<in> set d \<or> k = key_of e \<and> retained e"
      using 1 set_dset by (fastforce simp: record_entry_def split: if_splits option.splits)
    ultimately show ?thesis
      using Cons.prems(1) by (auto simp: entry_ok_def retained_def)
  qed simp
qed simp

text \<open>The report is bounded: the numbers of a report respect the limits of the reader, every tensor
  counts at least one parameter, the tensor types add up to the tensors, and each kept metadata key is a
  non-empty text of at most 4096 code points that is on the list of kept keys.\<close>

theorem inspect_bounds:
  assumes "me_open env path = Inr f" and "unchanged f" and "inspect_gguf_file env path = Inr info"
  shows "gi_version info \<in> {2, 3} \<and> gi_metadata_count info \<le> 100000
    \<and> gi_tensor_count info \<le> 1000000
    \<and> gi_tensor_count info \<le> gi_parameter_count info \<and> gi_parameter_count info \<le> 100000000000000
    \<and> sum_list (map snd (gi_tensor_types info)) = gi_tensor_count info
    \<and> (\<forall>(k, v) \<in> set (gi_metadata info). k \<noteq> [] \<and> length k \<le> 4096 \<and> (\<exists>t. retain_metadata k t))"
proof -
  obtain doc where d: "doc_ok doc" "info = report_of path (op_size f) doc"
    using assms(3) inspect_open [OF assms(1,2)] by blast
  have "(k, v) \<in> set (gi_metadata info) \<Longrightarrow> k \<noteq> [] \<and> length k \<le> 4096 \<and> (\<exists>t. retain_metadata k t)" for k v
    using kept_keys [of "doc_entries doc" k v "[]"] d by (auto simp: report_of_def doc_ok_def)
  then show ?thesis
    using d parameters_at_least [of "doc_tensors doc"]
    by (auto simp: report_of_def doc_ok_def type_counts_total)
qed

subsection \<open>The path policy\<close>

text \<open>C40 (only managed models are viewed): an inspection through the managed entry point returns only for
  a canonical regular file, no symbolic link, below the model directory, owned by root and the managed
  group with mode 0640.\<close>

theorem managed_models_only:
  assumes "inspect_gguf env path_text = Inr info"
  shows "\<exists>st gid. \<not> me_is_symlink env (path_str path_text) \<and> me_is_file env (path_str path_text)
    \<and> me_resolve env (path_str path_text) = Inr (path_str path_text)
    \<and> is_below LLAMA_MODEL_ROOT (path_str path_text)
    \<and> me_stat env (path_str path_text) = Inr st \<and> me_devops_gid env = Some gid
    \<and> fs_uid st = 0 \<and> fs_gid st = gid \<and> fs_mode st mod 512 = 416
    \<and> inspect_gguf_file env (path_str path_text) = Inr info"
  using assms
  by (auto simp: inspect_gguf_def validate_model_path_def Let_def split: if_splits option.splits)

subsection \<open>A small model file\<close>

definition bytes_of :: "string \<Rightarrow> byte list" where
  "bytes_of s = map (\<lambda>c. word_of_int (ord c)) s"

definition small_doc :: gguf_doc where
  "small_doc =
     \<lparr>doc_version = 3,
      doc_entries = [(bytes_of ''general.architecture'', Str (bytes_of ''ll'')),
                     (bytes_of ''ll.block_count'', Scalar 4 (le_bytes 4 2)),
                     (bytes_of ''t'', Strs [bytes_of ''a'', []])],
      doc_tensors = [\<lparr>t_name = bytes_of ''w'', t_dims = [2, 3], t_type = 1, t_offset = 0\<rparr>]\<rparr>"

definition small_file :: opened where
  "small_file =
     \<lparr>op_regular = True, op_size = int (length (spell_doc small_doc) + 2),
      op_bytes = spell_doc small_doc @ [0, 255]\<rparr>"

definition small_path :: string where
  "small_path = ''/pool/cache/llama/models/a.gguf''"

definition small_env :: model_env where
  "small_env =
     \<lparr>me_is_symlink = (\<lambda>p. False), me_is_file = (\<lambda>p. p = small_path), me_resolve = Inr,
      me_stat = (\<lambda>p. Inr \<lparr>fs_uid = 0, fs_gid = 7, fs_mode = 33184, fs_size = op_size small_file\<rparr>),
      me_devops_gid = Some 7,
      me_open = (\<lambda>p. if p = small_path then Inr small_file else Inl (OSErr ''''))\<rparr>"

lemma small_open: "me_open small_env small_path = Inr small_file" "unchanged small_file"
  by (simp_all add: small_env_def small_file_def unchanged_def)

lemma small_length: "length (spell_doc small_doc) = 179"
  by code_simp

lemma small_ok: "doc_ok small_doc"
  by code_simp

definition small_report :: gguf_info where
  "small_report = report_of small_path 181 small_doc"

theorem inspect_exact_witness:
  "inspect_gguf_file small_env small_path = Inr small_report \<and> gi_parameter_count small_report = 6
    \<and> architecture small_report = Some (utxt ''ll'')"
proof -
  have size: "op_size small_file = 181" by (simp add: small_file_def small_length)
  have "op_regular small_file" "op_bytes small_file = spell_doc small_doc @ [0, 255]"
    by (simp_all add: small_file_def)
  then have "inspect_gguf_file small_env small_path = Inr small_report"
    unfolding inspect_exact [OF small_open] size small_report_def
    using small_ok small_length by (intro conjI exI [of _ small_doc] exI [of _ "[0, 255]"]) simp_all
  then show ?thesis by (intro conjI) (simp, code_simp+)
qed

lemma small_inspected: "inspect_gguf_file small_env small_path = Inr small_report"
proof -
  have size: "op_size small_file = 181" by (simp add: small_file_def small_length)
  have "op_regular small_file" "op_bytes small_file = spell_doc small_doc @ [0, 255]"
    by (simp_all add: small_file_def)
  then show ?thesis
    unfolding inspect_open [OF small_open] size small_report_def
    using small_ok small_length by (intro conjI exI [of _ small_doc] exI [of _ "[0, 255]"]) simp_all
qed

theorem inspect_bounds_witness:
  "gi_tensor_count small_report \<le> gi_parameter_count small_report \<and> gi_metadata_count small_report = 3"
  using inspect_bounds [OF small_open small_inspected] by (simp add: small_report_def report_of_def small_doc_def)

theorem managed_models_only_witness:
  "inspect_gguf small_env small_path = Inr small_report \<and> is_below LLAMA_MODEL_ROOT small_path"
proof -
  have path: "path_str small_path = small_path" by code_simp
  have "validate_model_path small_env small_path = Inr small_path"
    by (simp add: validate_model_path_def small_env_def path small_file_def small_length Let_def) code_simp
  then have "inspect_gguf small_env small_path = Inr small_report"
    by (simp add: inspect_gguf_def small_inspected)
  with managed_models_only [OF this] show ?thesis unfolding path by blast
qed

end
