(* ===== verification/LlamaBudget.thy ===== *)
theory LlamaBudget
  imports GgufModel
begin

text \<open>
  \<open>labwc_ai_copilots/resources.py\<close>, part 1: the memory that a Llama run will need, from its command line, its
  environment and the header of the selected model, and the comparison with what is free. The environment
  variables are a map, and the telemetry is the text of \<open>/proc/meminfo\<close> and the rows of \<open>nvidia-smi\<close>.
\<close>

definition MIB :: int where
  "MIB = 1024 * 1024"

subsection \<open>The resource settings of a command line\<close>

definition SETTING_KEYS :: "string list" where
  "SETTING_KEYS =
     [''LLAMA_ARG_MODEL'', ''LLAMA_ARG_CTX_SIZE'', ''LLAMA_ARG_N_GPU_LAYERS'', ''LLAMA_ARG_KV_OFFLOAD'']"

definition RESOURCE_OPTIONS :: "(string \<times> string) list" where
  "RESOURCE_OPTIONS =
     [(''-m'', ''LLAMA_ARG_MODEL''), (''--model'', ''LLAMA_ARG_MODEL''),
      (''-c'', ''LLAMA_ARG_CTX_SIZE''), (''--ctx-size'', ''LLAMA_ARG_CTX_SIZE''),
      (''-ngl'', ''LLAMA_ARG_N_GPU_LAYERS''), (''--gpu-layers'', ''LLAMA_ARG_N_GPU_LAYERS''),
      (''--n-gpu-layers'', ''LLAMA_ARG_N_GPU_LAYERS'')]"

definition TEXT_OPTIONS :: "string list" where
  "TEXT_OPTIONS =
     [''-p'', ''--prompt'', ''-f'', ''--file'', ''-bf'', ''--binary-file'',
      ''-sp'', ''--system-prompt'', ''--system-prompt-file'', ''--chat-template'',
      ''--chat-template-file'', ''--grammar'', ''--grammar-file'', ''--json-schema'',
      ''--json-schema-file'', ''--log-file'', ''--log-prefix'']"

type_synonym llama_settings = "(string \<times> string) list \<times> bool"

definition initial_settings :: "(string \<Rightarrow> string option) \<Rightarrow> llama_settings" where
  "initial_settings environ =
     (map (\<lambda>key. (key, case environ key of None \<Rightarrow> [] | Some v \<Rightarrow> v)) SETTING_KEYS,
      environ ''CUDA_VISIBLE_DEVICES'' \<in> {Some [], Some ''-1''})"

text \<open>The loop over the command line, on the arguments from \<open>index\<close> on.\<close>

function parse_options :: "string list \<Rightarrow> llama_settings \<Rightarrow> llama_settings res" where
  "parse_options [] s = Inr s"
| "parse_options (arg # rest) s =
     (case partition_at CHR ''='' arg of (option, equals, v) \<Rightarrow>
        if option \<in> set TEXT_OPTIONS then parse_options (if equals then rest else drop 1 rest) s
        else case map_of RESOURCE_OPTIONS option of
          Some key \<Rightarrow>
            if equals then parse_options rest (dset key v (fst s), snd s)
            else (case rest of
                    [] \<Rightarrow> Inl ValueErr
                  | w # rest' \<Rightarrow> parse_options rest' (dset key w (fst s), snd s))
        | None \<Rightarrow>
            if option = ''-nkvo'' \<or> option = ''--no-kv-offload''
            then parse_options rest (dset ''LLAMA_ARG_KV_OFFLOAD'' ''0'' (fst s), snd s)
            else if option = ''--device''
            then (case rest of
                    w # rest' \<Rightarrow>
                      if equals then parse_options rest (fst s, v = ''none'')
                      else parse_options rest' (fst s, w = ''none'')
                  | [] \<Rightarrow> parse_options [] (fst s, v = ''none''))
            else parse_options rest s)"
  by pat_completeness auto
termination
  by (relation "measure (\<lambda>(args, s). length args)") auto

definition setting :: "string \<Rightarrow> llama_settings \<Rightarrow> string" where
  "setting key s = (case map_of (fst s) key of None \<Rightarrow> [] | Some v \<Rightarrow> v)"

subsection \<open>The estimate\<close>

text \<open>\<open>number(suffix, default)\<close>\<close>

definition model_number :: "gguf_info \<Rightarrow> string \<Rightarrow> int \<Rightarrow> int res" where
  "model_number model suffix0 dflt =
     (let arch = (case architecture model of None \<Rightarrow> utxt ''None'' | Some a \<Rightarrow> a);
          v = (case map_of (gi_metadata model) (arch @ utxt ''.'' @ utxt suffix0) of
                 None \<Rightarrow> GInt dflt | Some g \<Rightarrow> g)
      in case v of GInt i \<Rightarrow> if 1 \<le> i \<and> i \<le> 1048576 then Inr i else Inl ValueErr | _ \<Rightarrow> Inl ValueErr)"

definition int_setting :: "string \<Rightarrow> int res" where
  "int_setting t = (case int_of_str t of None \<Rightarrow> Inl ValueErr | Some i \<Rightarrow> Inr i)"

definition memory_estimate :: "gguf_info \<Rightarrow> llama_settings \<Rightarrow> (int \<times> int) res" where
  "memory_estimate model s =
     bindE (model_number model ''block_count'' 1) (\<lambda>blocks.
     bindE (model_number model ''embedding_length'' 8192) (\<lambda>embedding.
     bindE (model_number model ''attention.head_count'' 1) (\<lambda>heads.
     bindE (model_number model ''attention.head_count_kv'' heads) (\<lambda>kv_heads.
     bindE (model_number model ''attention.key_length'' (max 1 (embedding div heads))) (\<lambda>key.
     bindE (model_number model ''attention.value_length'' key) (\<lambda>val.
     bindE (int_setting (setting ''LLAMA_ARG_CTX_SIZE'' s)) (\<lambda>context0.
     let context = (if context0 = 0
                    then (case context_length model of None \<Rightarrow> 131072 | Some c \<Rightarrow> c) else context0);
         layers_text = setting ''LLAMA_ARG_N_GPU_LAYERS'' s in
     bindE (if layers_text \<in> {''-1'', ''all'', ''auto''} then Inr (blocks + 1) else int_setting layers_text)
       (\<lambda>layers.
     if \<not> (1 \<le> context \<and> context \<le> 1048576) \<or> \<not> (0 \<le> layers \<and> layers \<le> 1048576) then Inl ValueErr
     else let kv = 2 * (key + val) * kv_heads * blocks * context;
              ram = gi_size_bytes model + kv + 1024 * MIB;
              vram = (if layers \<noteq> 0 \<and> \<not> snd s
                      then gi_size_bytes model * min layers blocks div blocks + 256 * MIB
                           + (if setting ''LLAMA_ARG_KV_OFFLOAD'' s \<noteq> ''0''
                              then kv * min layers blocks div blocks else 0)
                      else 0)
          in Inr (ram, vram)))))))))"

definition memory_budget :: "model_env \<Rightarrow> (string \<Rightarrow> string option) \<Rightarrow> string list \<Rightarrow> (int \<times> int) res" where
  "memory_budget env environ arguments =
     bindE (parse_options arguments (initial_settings environ)) (\<lambda>s.
     bindE (inspect_gguf_for_resources env (setting ''LLAMA_ARG_MODEL'' s)) (\<lambda>model.
     memory_estimate model s))"

subsection \<open>Free memory\<close>

text \<open>\<open>str.split()\<close> and \<open>str.splitlines()\<close> on ASCII text.\<close>

fun words_of :: "string \<Rightarrow> string list" where
  "words_of [] = []"
| "words_of (c # cs) =
     (if is_space c then words_of cs
      else case cs of
             [] \<Rightarrow> [[c]]
           | d # _ \<Rightarrow> if is_space d then [c] # words_of cs
                      else (case words_of cs of [] \<Rightarrow> [[c]] | w # ws \<Rightarrow> (c # w) # ws))"

definition line_break :: "char \<Rightarrow> bool" where
  "line_break c = (ord c \<in> {10, 11, 12, 13, 28, 29, 30})"

text \<open>The file is opened in text mode, so a carriage return does not stand before a newline.\<close>

fun lines_of :: "string \<Rightarrow> string list" where
  "lines_of [] = []"
| "lines_of (c # cs) =
     (if line_break c then [] # lines_of cs
      else case lines_of cs of [] \<Rightarrow> [[c]] | l # ls \<Rightarrow> (c # l) # ls)"

fun available_kb :: "int option \<Rightarrow> string list \<Rightarrow> int option res" where
  "available_kb acc [] = Inr acc"
| "available_kb acc (line # ls) =
     (case words_of line of
        [a, n, u] \<Rightarrow>
          if a = ''MemAvailable:'' \<and> u = ''kB''
          then bindE (int_setting n) (\<lambda>i. available_kb (Some (i * 1024)) ls)
          else available_kb acc ls
      | _ \<Rightarrow> available_kb acc ls)"

definition plain_number :: "string list \<Rightarrow> bool" where
  "plain_number row = (case row of [t] \<Rightarrow> all_in is_digit t | _ \<Rightarrow> False)"

definition row_value :: "string list \<Rightarrow> int res" where
  "row_value row = (case row of t # _ \<Rightarrow> int_setting t | [] \<Rightarrow> Inl ValueErr)"

text \<open>The \<open>MemAvailable\<close> line of \<open>/proc/meminfo\<close>, of which at most 16385 characters were read.\<close>

definition available_memory :: "string \<Rightarrow> int res" where
  "available_memory content =
     (if length content > 16384 then Inl ValueErr
      else bindE (available_kb None (lines_of content)) (\<lambda>available.
           case available of None \<Rightarrow> Inl ValueErr | Some a \<Rightarrow> if a < 0 then Inl ValueErr else Inr a))"

definition some_gpu_low :: "string list list \<Rightarrow> int \<Rightarrow> bool res" where
  "some_gpu_low rows vram = existsE (\<lambda>row. bindE (row_value row) (\<lambda>n. Inr (n * MIB < vram))) rows"

subsection \<open>\<open>csv.reader\<close>\<close>

text \<open>The default dialect of \<open>csv.reader\<close> over the lines of a text: quoted fields, doubled quotes, empty
  lines as empty rows. A lone carriage return outside of quotes is an error.\<close>

datatype csv_state = StartRecord | StartField | InField | InQuoted | QuoteInQuoted | EatReturn

fun csv_go :: "csv_state \<Rightarrow> string \<Rightarrow> string list \<Rightarrow> string \<Rightarrow> string list list res" where
  "csv_go st f r [] =
     (case st of
        StartRecord \<Rightarrow> Inr []
      | EatReturn \<Rightarrow> Inr [r]
      | _ \<Rightarrow> Inr [r @ [f]])"
| "csv_go st f r (c # cs) =
     (if st = InQuoted then
        (if c = CHR 0x22 then csv_go QuoteInQuoted f r cs else csv_go InQuoted (f @ [c]) r cs)
      else if st = EatReturn then
        (if c = nl then bindE (csv_go StartRecord [] [] cs) (\<lambda>rows. Inr (r # rows))
         else if c = cr then csv_go EatReturn f r cs
         else Inl RuntimeErr)
      else if c = nl then
        bindE (csv_go StartRecord [] [] cs) (\<lambda>rows. Inr ((if st = StartRecord then [] else r @ [f]) # rows))
      else if c = cr then csv_go EatReturn [] (if st = StartRecord then [] else r @ [f]) cs
      else if c = CHR '','' then csv_go StartField [] (r @ [f]) cs
      else if c = CHR 0x22 \<and> st \<noteq> InField then csv_go InQuoted (if st = QuoteInQuoted then f @ [c] else f) r cs
      else csv_go InField (f @ [c]) r cs)"

definition csv_rows :: "string \<Rightarrow> string list list res" where
  "csv_rows content = csv_go StartRecord [] [] content"

end
