(* ===== verification/LlamaCoord.thy ===== *)
theory LlamaCoord
  imports LlamaBudget PyEffect
begin

text \<open>
  \<open>labwc_ai_copilots/resources.py\<close>, part 2: the coordination of Llama runs with the Whisper service. A Llama
  run that needs the memory suspends Whisper and records in \<open>state.json\<close> that it has to come back; a user
  service restores it when the run is over.

  Programs that are run, locks, process checks and the clock are the environment, asked at each step of
  the run. Everything that the program asks of others is written to a log, newest first. A text of
  \<open>state.json\<close> is the document that it decodes to, with its length; \<open>execv\<close> ends the program.
\<close>

subsection \<open>State and environment\<close>

datatype lock_mode = LOCK_SH | LOCK_EX | LOCK_UN

record captured =
  cp_status :: int
  cp_size :: int
  cp_text :: "string res"

datatype pid_check = PidGone | PidReady | PidAlive

datatype event =
    Ran "string list" "captured res"
  | Flock string lock_mode bool
  | Checked int "pid_check res"
  | MemRead "string res"
  | Exec string "string list"

record state_text =
  st_doc :: "pyval res"
  st_len :: int

record llama_world =
  lw_text :: state_text
  lw_temp :: "state_text option"
  lw_log :: "event list"
  lw_slept :: int

record lock_stat =
  ls_regular :: bool
  ls_uid :: int
  ls_mode :: int
  ls_nlink :: int

record dir_stat =
  ds_directory :: bool
  ds_uid :: int
  ds_mode :: int

record llama_env =
  le_uid :: int
  le_pid :: int
  le_environ :: "string \<Rightarrow> string option"
  le_models :: model_env
  le_run :: "nat \<Rightarrow> string list \<Rightarrow> captured res"
  le_lstat :: "string \<Rightarrow> dir_stat res"
  le_resolve :: "string \<Rightarrow> string res"
  le_open :: "nat \<Rightarrow> string \<Rightarrow> lock_stat res"
  le_free :: "nat \<Rightarrow> string \<Rightarrow> lock_mode \<Rightarrow> bool"
  le_check :: "nat \<Rightarrow> int \<Rightarrow> pid_check res"
  le_mem :: "nat \<Rightarrow> string res"
  le_clock :: "nat \<Rightarrow> int"

type_synonym 'a llama_io = "(llama_world sys, 'a) eff"

definition log_event :: "event \<Rightarrow> llama_world \<Rightarrow> llama_world" where
  "log_event e w = w\<lparr>lw_log := e # lw_log w\<rparr>"

text \<open>A question to the environment at this step; \<open>ev\<close> is what the log keeps of it.\<close>

definition consult :: "(nat \<Rightarrow> 'a) \<Rightarrow> ('a \<Rightarrow> event) \<Rightarrow> 'a llama_io" where
  "consult answer ev = bindF (getF (\<lambda>s. answer (sys_step s))) (\<lambda>a. seqF (op (log_event (ev a))) (retF a))"

definition WHISPER :: string where "WHISPER = ''whisper-server.service''"
definition GUARD :: string where "GUARD = ''llama-whisper-guard.service''"

subsection \<open>Programs\<close>

definition capture :: "llama_env \<Rightarrow> string list \<Rightarrow> string llama_io" where
  "capture env arguments =
     bindF (consult (\<lambda>n. le_run env n arguments) (Ran arguments)) (\<lambda>r.
     bindF (liftE r) (\<lambda>result.
     if cp_status result \<noteq> 0 then raiseF ValueErr
     else if cp_size result > 65536 then raiseF ValueErr
     else bindF (liftE (cp_text result)) (\<lambda>content. retF (strip content))))"

definition systemctl_args :: "string list \<Rightarrow> string list" where
  "systemctl_args arguments = [''/usr/bin/systemctl'', ''--user'', ''--no-pager''] @ arguments"

definition systemctl :: "llama_env \<Rightarrow> string list \<Rightarrow> string llama_io" where
  "systemctl env arguments = capture env (systemctl_args arguments)"

text \<open>\<open>dict(line.split('=', 1) for line in content.splitlines() if '=' in line)\<close>\<close>

definition status_dict :: "string \<Rightarrow> (string \<times> string) list" where
  "status_dict content =
     foldl (\<lambda>d line. case partition_at CHR ''='' line of (k, sep, v) \<Rightarrow> if sep then dset k v d else d)
       [] (lines_of content)"

definition STATUS_QUERY :: "string list" where
  "STATUS_QUERY = [''show'', ''--property=LoadState,ActiveState,MainPID'', WHISPER]"

definition status_of :: "string \<Rightarrow> (string \<times> string) res" where
  "status_of content =
     (let d = status_dict content in
      case (map_of d ''LoadState'', map_of d ''ActiveState'', map_of d ''MainPID'') of
        (Some l, Some a, Some p) \<Rightarrow> Inr (a, p)
      | _ \<Rightarrow> Inl ValueErr)"

text \<open>The active state and the main process of the service.\<close>

definition whisper_status :: "llama_env \<Rightarrow> (string \<times> string) llama_io" where
  "whisper_status env = bindF (systemctl env STATUS_QUERY) (\<lambda>content. liftE (status_of content))"

definition gpu_args :: "string \<Rightarrow> string list" where
  "gpu_args query = [''/usr/bin/nvidia-smi'', query, ''--format=csv,noheader,nounits'']"

definition gpu_rows :: "llama_env \<Rightarrow> string \<Rightarrow> string list list llama_io" where
  "gpu_rows env query =
     bindF (capture env (gpu_args query)) (\<lambda>content.
     bindF (liftE (csv_rows content)) (\<lambda>rows. retF (map (map strip) rows)))"

definition gpu_pids :: "llama_env \<Rightarrow> int list llama_io" where
  "gpu_pids env =
     bindF (gpu_rows env ''--query-compute-apps=pid'') (\<lambda>rows.
     seqF (assertF (list_all plain_number rows) ValueErr)
     (liftE (mapE row_value rows)))"

subsection \<open>Waiting\<close>

text \<open>The clock counts microseconds: its reading at a step, and what \<open>time.sleep\<close> has added.\<close>

definition monotonic_now :: "llama_env \<Rightarrow> int llama_io" where
  "monotonic_now env = getF (\<lambda>s. le_clock env (sys_step s) + lw_slept (sys_world s))"

definition sleep :: "int \<Rightarrow> unit llama_io" where
  "sleep us = op (\<lambda>w. w\<lparr>lw_slept := lw_slept w + us\<rparr>)"

text \<open>A wait that has no turns left is shown as the end of the process; see \<open>waits_end\<close>.\<close>

fun gpu_wait :: "nat \<Rightarrow> llama_env \<Rightarrow> int list \<Rightarrow> int \<Rightarrow> nat \<Rightarrow> bool llama_io" where
  "gpu_wait 0 env pids deadline clear = retF False"
| "gpu_wait (Suc n) env pids deadline clear =
     bindF (monotonic_now env) (\<lambda>now.
     if \<not> now < deadline then raiseF ValueErr
     else
       bindF (gpu_pids env) (\<lambda>busy.
       let clear' = (if set busy \<inter> set pids = {} then clear + 1 else 0) in
       if clear' = 2 then retF True
       else seqF (sleep 250000) (gpu_wait n env pids deadline clear')))"

definition GPU_TURNS :: nat where "GPU_TURNS = 81"

definition wait_gpu_release :: "llama_env \<Rightarrow> int list \<Rightarrow> bool \<Rightarrow> unit llama_io" where
  "wait_gpu_release env pids cuda =
     (if \<not> cuda then retF ()
      else
        bindF (monotonic_now env) (\<lambda>start.
        bindF (gpu_wait GPU_TURNS env pids (start + 20000000) 0) (\<lambda>ended.
        if ended then retF () else raiseF Killed)))"

fun processes_exited :: "llama_env \<Rightarrow> int list \<Rightarrow> bool llama_io" where
  "processes_exited env [] = retF True"
| "processes_exited env (pid # pids) =
     bindF (consult (\<lambda>n. le_check env n pid) (Checked pid)) (\<lambda>r.
     bindF (liftE r) (\<lambda>c.
     if c = PidAlive then retF False else processes_exited env pids))"

definition try_lock :: "llama_env \<Rightarrow> string \<Rightarrow> lock_mode \<Rightarrow> bool llama_io" where
  "try_lock env name mode = consult (\<lambda>n. le_free env n name mode) (Flock name mode)"

fun lock_wait :: "nat \<Rightarrow> llama_env \<Rightarrow> string \<Rightarrow> lock_mode \<Rightarrow> int \<Rightarrow> unit llama_io" where
  "lock_wait 0 env name mode deadline = raiseF Killed"
| "lock_wait (Suc n) env name mode deadline =
     bindF (try_lock env name mode) (\<lambda>free.
     if free then retF ()
     else
       bindF (monotonic_now env) (\<lambda>now.
       if now \<ge> deadline then raiseF ValueErr
       else seqF (sleep 100000) (lock_wait n env name mode deadline)))"

definition acquire_lock :: "llama_env \<Rightarrow> string \<Rightarrow> lock_mode \<Rightarrow> nat \<Rightarrow> unit llama_io" where
  "acquire_lock env name mode seconds =
     bindF (monotonic_now env) (\<lambda>start.
     lock_wait (10 * seconds + 2) env name mode (start + int seconds * 1000000))"

subsection \<open>Files\<close>

definition open_file :: "llama_env \<Rightarrow> string \<Rightarrow> unit llama_io" where
  "open_file env name =
     bindF (getF (\<lambda>s. le_open env (sys_step s) name)) (\<lambda>r. seqF skip_op
     (bindF (liftE r) (\<lambda>info.
      if \<not> ls_regular info \<or> ls_uid info \<noteq> le_uid env \<or> ls_mode info mod 4096 \<noteq> 384 \<or> ls_nlink info \<noteq> 1
      then raiseF ValueErr else retF ())))"

text \<open>Closing a descriptor drops its lock.\<close>

definition close_lock :: "string \<Rightarrow> unit llama_io" where
  "close_lock name = op (log_event (Flock name LOCK_UN True))"

definition admission :: "llama_env \<Rightarrow> 'a llama_io \<Rightarrow> 'a llama_io" where
  "admission env m =
     seqF (open_file env ''admission.lock'')
     (finallyF (seqF (acquire_lock env ''admission.lock'' LOCK_EX 180) m) (close_lock ''admission.lock''))"

record coord_state =
  cs_pids :: "int list"
  cs_cuda :: bool
  cs_restore :: bool

definition coord_doc :: "coord_state \<Rightarrow> pyval" where
  "coord_doc st =
     PDict [(''pids'', PList (map PInt (cs_pids st))), (''cuda'', PBool (cs_cuda st)),
            (''restore'', PBool (cs_restore st))]"

definition pid_ok :: "pyval \<Rightarrow> bool" where
  "pid_ok v = (case v of PInt i \<Rightarrow> 1 \<le> i \<and> i \<le> 4194304 | _ \<Rightarrow> False)"

definition pid_value :: "pyval \<Rightarrow> int" where
  "pid_value v = (case v of PInt i \<Rightarrow> i | _ \<Rightarrow> 0)"

definition parse_state :: "state_text \<Rightarrow> coord_state res" where
  "parse_state content =
     bindE (st_doc content) (\<lambda>v.
     if st_len content > 65536 then Inl ValueErr
     else case v of
       PDict d \<Rightarrow>
         (if fst ` set d \<noteq> {''pids'', ''cuda'', ''restore''} then Inl ValueErr
          else case (dget ''cuda'' d, dget ''restore'' d, dget ''pids'' d) of
            (PBool c, PBool r, PList ps) \<Rightarrow>
              if length ps > 4096 \<or> \<not> list_all pid_ok ps then Inl ValueErr
              else Inr \<lparr>cs_pids = map pid_value ps, cs_cuda = c, cs_restore = r\<rparr>
          | _ \<Rightarrow> Inl ValueErr)
     | _ \<Rightarrow> Inl ValueErr)"

definition empty_state :: coord_state where
  "empty_state = \<lparr>cs_pids = [], cs_cuda = False, cs_restore = False\<rparr>"

definition load_state :: "state_text \<Rightarrow> coord_state res" where
  "load_state content = (if st_len content = 0 then Inr empty_state else parse_state content)"

definition read_state :: "llama_env \<Rightarrow> coord_state llama_io" where
  "read_state env =
     seqF (open_file env ''state.json'')
     (bindF (look lw_text) (\<lambda>content. liftE (load_state content)))"

text \<open>\<open>json.dump(state, stream)\<close>\<close>

definition json_bool :: "bool \<Rightarrow> string" where
  "json_bool b = (if b then ''true'' else ''false'')"

definition state_json :: "coord_state \<Rightarrow> string" where
  "state_json st =
     ''{\"pids\": ['' @ join '', '' (map int_str (cs_pids st)) @ ''], \"cuda\": '' @ json_bool (cs_cuda st)
       @ '', \"restore\": '' @ json_bool (cs_restore st) @ ''}''"

definition text_of :: "coord_state \<Rightarrow> state_text" where
  "text_of st = \<lparr>st_doc = Inr (coord_doc st), st_len = int (length (state_json st))\<rparr>"

text \<open>\<open>mkstemp\<close>, write, flush, \<open>fsync\<close>, \<open>replace\<close>; the temporary file is removed in any case.\<close>

definition write_state :: "coord_state \<Rightarrow> unit llama_io" where
  "write_state st =
     seqF (op (\<lambda>w. w\<lparr>lw_temp := Some \<lparr>st_doc = Inl ValueErr, st_len = 0\<rparr>\<rparr>))
     (finallyF
       (seqF (op (\<lambda>w. w\<lparr>lw_temp := Some (text_of st)\<rparr>))
       (seqF skip_op
       (op (\<lambda>w. case lw_temp w of None \<Rightarrow> w | Some t \<Rightarrow> w\<lparr>lw_text := t, lw_temp := None\<rparr>))))
       (op (\<lambda>w. w\<lparr>lw_temp := None\<rparr>)))"

end
