(* ===== verification/LlamaRun.thy ===== *)
theory LlamaRun
  imports LlamaCoord
begin

text \<open>
  \<open>labwc_ai_copilots/resources.py\<close>, part 3: the class \<open>Coordinator\<close> with its three operations, and \<open>main\<close>. A
  line that \<open>log\<close> prints is a step without an effect.
\<close>

definition private_dir :: "llama_env \<Rightarrow> dir_stat \<Rightarrow> bool" where
  "private_dir env st = (ds_directory st \<and> ds_uid st = le_uid env \<and> ds_mode st mod 4096 = 448)"

definition coordinator_init :: "llama_env \<Rightarrow> unit llama_io" where
  "coordinator_init env =
     (let runtime = ''/run/user/'' @ int_str (le_uid env); directory = runtime @ ''/llama-whisper'' in
      seqF (assertF (\<not> (le_uid env = 0 \<or> le_environ env ''XDG_RUNTIME_DIR'' \<noteq> Some runtime)) ValueErr)
      (bindF (liftE (le_lstat env runtime)) (\<lambda>metadata.
       seqF (assertF (private_dir env metadata) ValueErr)
       (bindF (liftE (le_resolve env runtime)) (\<lambda>resolved.
        seqF (assertF (resolved = runtime) ValueErr)
        (seqF skip_op
        (bindF (liftE (le_lstat env directory)) (\<lambda>metadata.
         seqF (assertF (private_dir env metadata) ValueErr)
         (bindF (liftE (le_resolve env directory)) (\<lambda>resolved.
          assertF (resolved = directory) ValueErr))))))))))"

definition constrained :: "llama_env \<Rightarrow> int \<Rightarrow> int \<Rightarrow> bool llama_io" where
  "constrained env ram vram =
     bindF (consult (le_mem env) MemRead) (\<lambda>r.
     bindF (liftE r) (\<lambda>content.
     bindF (liftE (available_memory content)) (\<lambda>available.
     let low = available < ram in
     if vram = 0 then retF low
     else
       bindF (gpu_rows env ''--query-gpu=memory.free'') (\<lambda>rows.
       seqF (assertF (\<not> (rows = [] \<or> \<not> list_all plain_number rows)) ValueErr)
       (if low then retF True else liftE (some_gpu_low rows vram))))))"

definition execv :: "string \<Rightarrow> string list \<Rightarrow> 'a llama_io" where
  "execv binary arguments = seqF (op (log_event (Exec binary arguments))) (raiseF Killed)"

definition log_line :: "unit llama_io" where
  "log_line = skip_op"

text \<open>\<open>list(dict.fromkeys(xs))\<close>\<close>

definition first_occurrences :: "int list \<Rightarrow> int list" where
  "first_occurrences xs = rev (remdups (rev xs))"

definition STOPPED_STATES :: "string list" where
  "STOPPED_STATES = [''inactive'', ''failed'']"

definition stop_whisper :: "llama_env \<Rightarrow> unit llama_io" where
  "stop_whisper env =
     bindF (systemctl env [''stop'', WHISPER]) (\<lambda>_.
     bindF (whisper_status env) (\<lambda>(active, main_pid).
     assertF (\<not> (active \<notin> set STOPPED_STATES \<or> main_pid \<noteq> ''0'')) ValueErr))"

definition suspend_whisper :: "llama_env \<Rightarrow> coord_state \<Rightarrow> string \<Rightarrow> int \<Rightarrow> coord_state llama_io" where
  "suspend_whisper env st main_pid vram =
     bindF (liftE (int_setting main_pid)) (\<lambda>pid.
     let st' = st\<lparr>cs_pids := (if pid \<noteq> 0 \<and> pid \<notin> set (cs_pids st) then cs_pids st @ [pid] else cs_pids st),
                  cs_restore := True\<rparr> in
     seqF (write_state st')
     (seqF log_line
     (seqF (stop_whisper env)
     (seqF (wait_gpu_release env (if pid \<noteq> 0 then [pid] else []) (vram \<noteq> 0))
     (retF st')))))"

text \<open>The steps of \<open>run\<close> under the admission lock: the state with this process in it, whether Whisper has to
  go, and what is done when it need not or is gone.\<close>

definition with_process :: "coord_state \<Rightarrow> int \<Rightarrow> int \<Rightarrow> coord_state" where
  "with_process st pid vram =
     st\<lparr>cs_pids := first_occurrences (cs_pids st @ [pid]), cs_cuda := cs_cuda st \<or> vram \<noteq> 0\<rparr>"

definition must_suspend :: "llama_env \<Rightarrow> string \<Rightarrow> coord_state \<Rightarrow> int \<Rightarrow> int \<Rightarrow> bool llama_io" where
  "must_suspend env active_state st ram vram =
     (if active_state \<in> {''active'', ''activating'', ''reloading''}
      then (if cs_restore st then retF True else constrained env ram vram)
      else retF False)"

definition commit_run :: "llama_env \<Rightarrow> int \<Rightarrow> int \<Rightarrow> coord_state \<Rightarrow> unit llama_io" where
  "commit_run env ram vram st =
     seqF (write_state st)
     (bindF (constrained env ram vram) (\<lambda>low. seqF (assertF (\<not> low) ValueErr) skip_op))"

definition admit_process :: "llama_env \<Rightarrow> int \<Rightarrow> int \<Rightarrow> coord_state \<Rightarrow> unit llama_io" where
  "admit_process env ram vram st0 =
     (let st = with_process st0 (le_pid env) vram in
      seqF (assertF (length (cs_pids st) \<le> 4095) ValueErr)
      (bindF (whisper_status env) (\<lambda>(active_state, main_pid).
       bindF (must_suspend env active_state st ram vram) (\<lambda>suspend.
       bindF (if suspend then suspend_whisper env st main_pid vram else retF st)
       (commit_run env ram vram)))))"

definition admitted_run :: "llama_env \<Rightarrow> int \<Rightarrow> int \<Rightarrow> unit llama_io" where
  "admitted_run env ram vram =
     seqF (acquire_lock env ''leases.lock'' LOCK_SH 30)
     (seqF (systemctl env [''start'', GUARD])
     (bindF (read_state env) (admit_process env ram vram)))"

definition BINARIES :: "string list" where
  "BINARIES = [''/data/llama/bin/llama-cli'', ''/data/llama/bin/llama-server'']"

definition diagnostic_run :: "string list \<Rightarrow> bool" where
  "diagnostic_run arguments =
     (let diagnostic = (case arguments of
            [a, b, c] \<Rightarrow> if a \<in> {''-tb'', ''--threads-batch'', ''--threads_batch''} then [c] else arguments
          | _ \<Rightarrow> arguments)
      in diagnostic \<in> {[''-h''], [''--help''], [''--version'']})"

definition run_llama :: "llama_env \<Rightarrow> string \<Rightarrow> string list \<Rightarrow> unit llama_io" where
  "run_llama env binary arguments =
     seqF (assertF (binary \<in> set BINARIES) ValueErr)
     (if diagnostic_run arguments then execv binary (binary # arguments)
      else
        bindF (liftE (memory_budget (le_models env) (le_environ env) arguments)) (\<lambda>(ram, vram).
        seqF (open_file env ''leases.lock'')
        (finallyF
          (seqF (admission env (admitted_run env ram vram)) (execv binary (binary # arguments)))
          (close_lock ''leases.lock''))))"

text \<open>\<open>whisper-allowed\<close>, the \<open>ExecCondition\<close> of the service.\<close>

definition whisper_allowed :: "llama_env \<Rightarrow> bool llama_io" where
  "whisper_allowed env =
     bindF (read_state env) (\<lambda>st.
     if \<not> cs_restore st then retF True
     else
       seqF (open_file env ''leases.lock'')
       (finallyF
         (bindF (try_lock env ''leases.lock'' LOCK_EX) (\<lambda>free.
          if \<not> free then seqF log_line (retF False)
          else
            bindF (processes_exited env (cs_pids st)) (\<lambda>gone.
            if \<not> gone then retF False
            else seqF (wait_gpu_release env (cs_pids st) (cs_cuda st)) (retF True))))
         (close_lock ''leases.lock'')))"

definition resume_whisper :: "llama_env \<Rightarrow> unit llama_io" where
  "resume_whisper env =
     bindF (systemctl env [''start'', WHISPER]) (\<lambda>_.
     bindF (whisper_status env) (\<lambda>(active, _).
     seqF (assertF (active = ''active'') ValueErr) log_line))"

definition SESSION_QUERY :: "string list" where
  "SESSION_QUERY = [''show'', ''--property=ActiveState'', ''--value'', ''labwc-session.target'']"

text \<open>\<open>restore_once\<close> from the point where the state was read: the processes that have to be gone, the session,
  and all but the last write.\<close>

definition live_pids :: "llama_env \<Rightarrow> coord_state \<Rightarrow> int list llama_io" where
  "live_pids env st =
     (if cs_restore st
      then bindF (whisper_status env) (\<lambda>(_, main_pid).
           bindF (liftE (int_setting main_pid)) (\<lambda>p. retF (filter (\<lambda>pid. pid \<noteq> p) (cs_pids st))))
      else retF (cs_pids st))"

definition session_active :: "llama_env \<Rightarrow> coord_state \<Rightarrow> bool llama_io" where
  "session_active env st =
     (if cs_restore st
      then bindF (systemctl env SESSION_QUERY) (\<lambda>session. retF (session = ''active''))
      else retF True)"

definition before_reset :: "llama_env \<Rightarrow> coord_state \<Rightarrow> unit llama_io" where
  "before_reset env st =
     seqF (whenF (cs_restore st) (stop_whisper env))
     (seqF (whenF (cs_pids st \<noteq> []) (wait_gpu_release env (cs_pids st) (cs_cuda st)))
     (seqF (op (log_event (Flock ''leases.lock'' LOCK_UN True)))
     (whenF (cs_restore st) (resume_whisper env))))"

definition restore_state :: "llama_env \<Rightarrow> coord_state \<Rightarrow> unit llama_io" where
  "restore_state env st =
     (if cs_pids st = [] \<and> \<not> cs_restore st then retF ()
      else
        bindF (live_pids env st) (\<lambda>live.
        bindF (processes_exited env live) (\<lambda>gone.
        if \<not> gone then retF ()
        else
          bindF (session_active env st) (\<lambda>session.
          if \<not> session then retF () else seqF (before_reset env st) (write_state empty_state)))))"

definition restore_once :: "llama_env \<Rightarrow> unit llama_io" where
  "restore_once env =
     admission env
       (seqF (open_file env ''leases.lock'')
       (finallyF
         (bindF (try_lock env ''leases.lock'' LOCK_EX) (\<lambda>free.
          if \<not> free then retF ()
          else bindF (read_state env) (restore_state env)))
         (close_lock ''leases.lock'')))"

subsection \<open>The service and the entry point\<close>

definition is_reported :: "pyexn \<Rightarrow> bool" where
  "is_reported e = (is_os_error e \<or> is_value_error e \<or> e = SubprocessErr)"

text \<open>The first turns of \<open>watch\<close>, which runs for ever.\<close>

fun watch :: "nat \<Rightarrow> llama_env \<Rightarrow> unit llama_io" where
  "watch 0 env = retF ()"
| "watch (Suc n) env =
     seqF (catchF (restore_once env) is_reported (\<lambda>_. seqF log_line (sleep 9000000)))
       (seqF (sleep 1000000) (watch n env))"

definition llama_main :: "nat \<Rightarrow> llama_env \<Rightarrow> string list \<Rightarrow> int llama_io" where
  "llama_main turns env argv =
     catchF
       (seqF (coordinator_init env)
        (if argv = [''watch''] then seqF (watch turns env) (retF 0)
         else if argv = [''whisper-allowed'']
         then bindF (whisper_allowed env) (\<lambda>ok. retF (if ok then 0 else 1))
         else case argv of
           (command # binary # arguments) \<Rightarrow>
             if command = ''run'' then seqF (run_llama env binary arguments) (retF 0) else raiseF ValueErr
         | _ \<Rightarrow> raiseF ValueErr))
       is_reported (\<lambda>_. seqF log_line (retF 255))"

end
