(* ===== verification/LlamaFacts.thy ===== *)
theory LlamaFacts
  imports LlamaRun PyKeeps
begin

text \<open>
  What the operations of the coordinator leave alone. Most of them only add to the log: \<open>grows P\<close> relates a
  world to one with the same state file and more events, all of the kind \<open>P\<close>, and the locale \<open>quiet\<close> lists
  the operations that only do this. What is written to the state file can be read back.
\<close>

definition grows :: "(event \<Rightarrow> bool) \<Rightarrow> llama_world \<Rightarrow> llama_world \<Rightarrow> bool" where
  "grows P v w = (lw_text w = lw_text v \<and> (\<exists>es. lw_log w = es @ lw_log v \<and> list_all P es))"

lemma grows_refl: "grows P w w"
  by (simp add: grows_def)

lemma grows_trans: "grows P u v \<Longrightarrow> grows P v w \<Longrightarrow> grows P u w"
  by (auto simp: grows_def)

lemma grows_log: "P e \<Longrightarrow> grows P w (log_event e w)"
  by (simp add: grows_def log_event_def)

interpretation growing: state_rel "grows P" "grows P" for P
  by unfold_locales (auto intro: grows_refl grows_trans)

text \<open>A quiet program keeps any property of worlds that a growing log keeps.\<close>

lemma quiet_wp:
  assumes "keeps (grows P) (grows P) m" and "J (sys_world s)"
    and "\<And>v w. grows P v w \<Longrightarrow> J v \<Longrightarrow> J w"
    and "\<And>x t. J (sys_world t) \<Longrightarrow> Q x t" and "\<And>e t. J (sys_world t) \<Longrightarrow> E e t"
  shows "wpF m Q E s"
  by (rule wpF_mono [OF keepsD [OF assms(1)]]) (use assms(2-5) in \<open>auto split: if_splits\<close>)

text \<open>The calls that matter here: those that stop or start Whisper, and \<open>execv\<close>.\<close>

definition stops :: "event \<Rightarrow> bool" where
  "stops e = (case e of Ran args r \<Rightarrow> args = systemctl_args [''stop'', WHISPER] | _ \<Rightarrow> False)"

definition starts :: "event \<Rightarrow> bool" where
  "starts e = (case e of Ran args r \<Rightarrow> args = systemctl_args [''start'', WHISPER] | _ \<Rightarrow> False)"

definition executes :: "event \<Rightarrow> bool" where
  "executes e = (case e of Exec b args \<Rightarrow> True | _ \<Rightarrow> False)"

definition calm :: "event \<Rightarrow> bool" where
  "calm e = (\<not> stops e \<and> \<not> starts e \<and> \<not> executes e)"

definition harmless :: "string list \<Rightarrow> bool" where
  "harmless args = (args \<noteq> systemctl_args [''stop'', WHISPER] \<and> args \<noteq> systemctl_args [''start'', WHISPER])"

lemma calm_simps [simp]:
  "calm (Flock n m b)" "calm (Checked p c)" "calm (MemRead r)" "harmless args \<Longrightarrow> calm (Ran args c2)"
  by (simp_all add: calm_def stops_def starts_def executes_def harmless_def)

lemma harmless_simps [simp]:
  "harmless (systemctl_args STATUS_QUERY)" "harmless (systemctl_args SESSION_QUERY)"
  "harmless (systemctl_args [''start'', GUARD])" "harmless (gpu_args query)"
  by (simp_all add: harmless_def systemctl_args_def STATUS_QUERY_def SESSION_QUERY_def WHISPER_def GUARD_def
      gpu_args_def)

subsection \<open>Quiet operations\<close>

locale quiet =
  fixes P :: "event \<Rightarrow> bool"
  assumes calm_kind: "calm e \<Longrightarrow> P e"
begin

abbreviation silent :: "'a llama_io \<Rightarrow> bool" where
  "silent m \<equiv> keeps (grows P) (grows P) m"

lemmas rules = growing.keeps_bind growing.keeps_seq growing.keeps_when growing.keeps_if growing.keeps_option
  growing.keeps_prod growing.keeps_ret growing.keeps_raise growing.keeps_lift growing.keeps_assert
  growing.keeps_look

lemma silent_get: "silent (getF f)"
  by (rule growing.keeps_pure) (simp add: getF_def)

lemma silent_skip: "silent skip_op"
  unfolding skip_op_def by (rule growing.keeps_op) (rule grows_refl)

lemma silent_sleep: "silent (sleep us)"
  unfolding sleep_def by (rule growing.keeps_op) (simp add: grows_def)

lemma silent_consult: "(\<And>a. P (ev a)) \<Longrightarrow> silent (consult f ev)"
  unfolding consult_def by (intro rules silent_get growing.keeps_op grows_log)

lemma silent_finally: "silent m \<Longrightarrow> silent fin \<Longrightarrow> silent (finallyF m fin)"
proof (rule keepsI, unfold wpF_finally, rule wpF_mono [OF keepsD], assumption)
  fix s t :: "llama_world sys" and x
  assume "silent fin" "grows P (sys_world s) (sys_world t)"
  then show "wpF fin (\<lambda>_ u. grows P (sys_world s) (sys_world u))
      (\<lambda>e u. if is_exception e then grows P (sys_world s) (sys_world u) else grows P (sys_world s) (sys_world u)) t"
    by (rule growing.keeps_after)
next
  fix s t :: "llama_world sys" and e
  assume fin: "silent fin"
    and R: "if is_exception e then grows P (sys_world s) (sys_world t) else grows P (sys_world s) (sys_world t)"
  have "wpF fin (\<lambda>_ u. grows P (sys_world s) (sys_world u)) (\<lambda>e u. grows P (sys_world s) (sys_world u)) t"
    using growing.keeps_after [OF fin, of s t] R by simp
  then show "if e = Killed then (if is_exception e then grows P (sys_world s) (sys_world t) else grows P (sys_world s) (sys_world t))
      else wpF fin (\<lambda>_ u. if is_exception e then grows P (sys_world s) (sys_world u) else grows P (sys_world s) (sys_world u))
        (\<lambda>e u. if is_exception e then grows P (sys_world s) (sys_world u) else grows P (sys_world s) (sys_world u)) t"
    using R by simp
qed

lemma silent_program: "(\<And>r. P (Ran args r)) \<Longrightarrow> silent (capture env args)"
  unfolding capture_def by (intro rules silent_consult)

lemma silent_capture: "harmless args \<Longrightarrow> silent (capture env args)"
  by (intro silent_program calm_kind calm_simps)

lemma silent_systemctl: "harmless (systemctl_args args) \<Longrightarrow> silent (systemctl env args)"
  unfolding systemctl_def by (rule silent_capture)

lemma silent_status: "silent (whisper_status env)"
  unfolding whisper_status_def by (intro rules silent_systemctl harmless_simps)

lemma silent_gpu_rows: "silent (gpu_rows env query)"
  unfolding gpu_rows_def by (intro rules silent_capture harmless_simps)

lemma silent_gpu_wait: "silent (gpu_wait n env pids deadline clear)"
  by (induction n arbitrary: clear)
    (auto simp: monotonic_now_def gpu_pids_def Let_def intro!: rules silent_get silent_gpu_rows silent_sleep)

lemma silent_release: "silent (wait_gpu_release env pids cuda)"
  unfolding wait_gpu_release_def monotonic_now_def by (intro rules silent_get silent_gpu_wait)

lemma silent_exited: "silent (processes_exited env pids)"
  by (induction pids) (auto intro!: rules silent_consult calm_kind)

lemma silent_try_lock: "silent (try_lock env name mode)"
  unfolding try_lock_def by (intro silent_consult calm_kind calm_simps)

lemma silent_lock_wait: "silent (lock_wait n env name mode deadline)"
  by (induction n) (auto simp: monotonic_now_def intro!: rules silent_get silent_try_lock silent_sleep)

lemma silent_acquire: "silent (acquire_lock env name mode seconds)"
  unfolding acquire_lock_def monotonic_now_def by (intro rules silent_get silent_lock_wait)

lemma silent_open: "silent (open_file env name)"
  unfolding open_file_def by (intro rules silent_get silent_skip)

lemma silent_unlock: "silent (op (log_event (Flock name mode b)))"
  by (intro growing.keeps_op grows_log calm_kind calm_simps)

lemma silent_close: "silent (close_lock name)"
  unfolding close_lock_def by (rule silent_unlock)

lemma silent_read: "silent (read_state env)"
  unfolding read_state_def by (intro rules silent_open)

lemma silent_constrained: "silent (constrained env ram vram)"
  unfolding constrained_def Let_def
  by (intro rules silent_consult silent_gpu_rows calm_kind calm_simps)

lemma silent_log: "silent log_line"
  unfolding log_line_def by (rule silent_skip)

lemma silent_allowed: "silent (whisper_allowed env)"
  unfolding whisper_allowed_def
  by (intro rules silent_read silent_open silent_finally silent_try_lock silent_log silent_exited silent_release
      silent_close)

lemma silent_init: "silent (coordinator_init env)"
  unfolding coordinator_init_def Let_def by (intro rules silent_skip)

end

interpretation calm: quiet calm
  by unfold_locales

text \<open>The final lines of a critical section.\<close>

lemma wpF_closing:
  assumes "keeps (grows P) (grows P) fin"
    and "wpF m (\<lambda>x t. J (sys_world t)) (\<lambda>e t. J (sys_world t)) s"
    and "\<And>v w. grows P v w \<Longrightarrow> J v \<Longrightarrow> J w"
  shows "wpF (finallyF m fin) (\<lambda>x t. J (sys_world t)) (\<lambda>e t. J (sys_world t)) s"
  unfolding wpF_finally
  by (rule wpF_mono [OF assms(2)]) (auto intro: quiet_wp [OF assms(1) _ assms(3)])

subsection \<open>The state file\<close>

lemma cleanup_wp:
  assumes "\<And>e u. lw_text (sys_world u) = lw_text (sys_world t) \<Longrightarrow> lw_log (sys_world u) = lw_log (sys_world t) \<Longrightarrow> E e u"
  shows "if e = Killed then E e t else wpF (op (lw_temp_update (\<lambda>_. None))) (\<lambda>_. E e) E t"
  by (auto intro!: wpF_opI assms)

lemma write_state_wp:
  assumes "\<And>t. lw_text (sys_world t) = text_of st \<Longrightarrow> lw_log (sys_world t) = lw_log (sys_world s) \<Longrightarrow> Q () t"
    and "\<And>e t. lw_text (sys_world t) \<in> {lw_text (sys_world s), text_of st} \<Longrightarrow>
      lw_log (sys_world t) = lw_log (sys_world s) \<Longrightarrow> E e t"
  shows "wpF (write_state st) Q E s"
  unfolding write_state_def wpF_seq wpF_finally
  by (intro wpF_opI wpF_skipI cleanup_wp assms) simp_all

text \<open>What is written is read back: at most 4096 process numbers of at most seven digits fit.\<close>

definition coord_ok :: "coord_state \<Rightarrow> bool" where
  "coord_ok st = (length (cs_pids st) \<le> 4096 \<and> (\<forall>i \<in> set (cs_pids st). 1 \<le> i \<and> i \<le> 4194304))"

lemma join_length:
  "(\<And>x. x \<in> set xs \<Longrightarrow> length x \<le> k) \<Longrightarrow> length (join sep xs) \<le> (k + length sep) * length xs"
proof (induction sep xs rule: join.induct)
  case (3 d x y ys)
  have "length x \<le> k" "length (join d (y # ys)) \<le> (k + length d) * length (y # ys)"
    using 3 by auto
  then show ?case by simp
qed auto

lemma state_json_length:
  assumes "coord_ok st"
  shows "0 < length (state_json st)" "int (length (state_json st)) \<le> 65536"
proof -
  have "length (int_str i) \<le> 7" if "i \<in> set (cs_pids st)" for i
    using that assms dec_str_length [of i 7] by (auto simp: coord_ok_def int_str_def)
  then have "length (join '', '' (map int_str (cs_pids st))) \<le> (7 + length '', '') * length (map int_str (cs_pids st))"
    by (intro join_length) auto
  then have "length (join '', '' (map int_str (cs_pids st))) \<le> 36864"
    using assms by (simp add: coord_ok_def)
  then show "0 < length (state_json st)" "int (length (state_json st)) \<le> 65536"
    by (simp_all add: state_json_def json_bool_def)
qed

lemma load_text_of:
  assumes "coord_ok st"
  shows "load_state (text_of st) = Inr st"
  using state_json_length [OF assms] assms
  by (auto simp: load_state_def text_of_def parse_state_def coord_doc_def dget_def coord_ok_def list_all_set
      pid_ok_def comp_def pid_value_def)

lemma pid_values_ok: "list_all pid_ok ps \<Longrightarrow> \<forall>i \<in> set (map pid_value ps). 1 \<le> i \<and> i \<le> 4194304"
  by (induction ps) (auto simp: pid_ok_def pid_value_def split: pyval.splits)

lemma loaded_ok:
  assumes "load_state t = Inr st"
  shows "coord_ok st"
proof (cases "st_len t = 0")
  case True
  then show ?thesis using assms by (auto simp: load_state_def coord_ok_def empty_state_def)
next
  case False
  with assms obtain v where v: "st_doc t = Inr v" by (auto simp: load_state_def parse_state_def)
  with False assms obtain d where d: "v = PDict d"
    by (cases v) (auto simp: load_state_def parse_state_def split: if_splits)
  let ?res = "case (dget ''cuda'' d, dget ''restore'' d, dget ''pids'' d) of
      (PBool c, PBool r, PList ps) \<Rightarrow>
        if length ps > 4096 \<or> \<not> list_all pid_ok ps then Inl ValueErr
        else Inr \<lparr>cs_pids = map pid_value ps, cs_cuda = c, cs_restore = r\<rparr>
    | _ \<Rightarrow> Inl ValueErr"
  have res: "?res = Inr st"
    using assms False v d by (simp add: load_state_def parse_state_def split: if_splits)
  then obtain c where c: "dget ''cuda'' d = PBool c" by (cases "dget ''cuda'' d") auto
  with res obtain r where r: "dget ''restore'' d = PBool r" by (cases "dget ''restore'' d") auto
  with res c obtain ps where "dget ''pids'' d = PList ps" by (cases "dget ''pids'' d") auto
  with res c r have "length ps \<le> 4096" "list_all pid_ok ps" "cs_pids st = map pid_value ps"
    by (auto split: if_splits)
  then show ?thesis using pid_values_ok by (simp add: coord_ok_def)
qed

subsection \<open>What a call leaves in the log\<close>

lemma capture_wp:
  assumes "\<And>n result content t. le_run env n args = Inr result \<Longrightarrow> cp_status result = 0 \<Longrightarrow>
      \<not> cp_size result > 65536 \<Longrightarrow> cp_text result = Inr content \<Longrightarrow>
      sys_world t = log_event (Ran args (Inr result)) (sys_world s) \<Longrightarrow> Q (strip content) t"
    and "\<And>e t. sys_world t = sys_world s \<Longrightarrow> E e t"
    and "\<And>r e t. sys_world t = log_event (Ran args r) (sys_world s) \<Longrightarrow> E e t"
  shows "wpF (capture env args) Q E s"
  unfolding capture_def consult_def wpF_bind wpF_seq wpF_get
  by (intro wpF_opI) (auto simp: wp intro: assms split: sum.split)

text \<open>The service was stopped and has not been seen active since.\<close>

definition says_active :: "event \<Rightarrow> bool" where
  "says_active e =
     (case e of
        Ran args (Inr result) \<Rightarrow>
          args = systemctl_args STATUS_QUERY \<and> cp_status result = 0 \<and> cp_size result \<le> 65536 \<and>
          (case cp_text result of
             Inr content \<Rightarrow> (case status_of (strip content) of Inr (a, p) \<Rightarrow> a = ''active'' | _ \<Rightarrow> False)
           | _ \<Rightarrow> False)
      | _ \<Rightarrow> False)"

fun owed :: "event list \<Rightarrow> bool" where
  "owed [] = False"
| "owed (e # es) = (stops e \<or> (\<not> says_active e \<and> owed es))"

definition documented_llama :: "llama_env \<Rightarrow> bool" where
  "documented_llama env =
     (1 \<le> le_pid env \<and> le_pid env \<le> 4194304 \<and>
      (\<forall>n result content a p i. le_run env n (systemctl_args STATUS_QUERY) = Inr result \<longrightarrow>
         cp_text result = Inr content \<longrightarrow> status_of (strip content) = Inr (a, p) \<longrightarrow> int_of_str p = Some i \<longrightarrow>
         0 \<le> i \<and> i \<le> 4194304))"

definition pid_text :: "string \<Rightarrow> bool" where
  "pid_text p = (\<forall>i. int_of_str p = Some i \<longrightarrow> 0 \<le> i \<and> i \<le> 4194304)"

lemma status_wp:
  assumes "documented_llama env"
    and "\<And>a p e t. sys_world t = log_event e (sys_world s) \<Longrightarrow> calm e \<Longrightarrow> (a = ''active'' \<Longrightarrow> says_active e) \<Longrightarrow>
      pid_text p \<Longrightarrow> Q (a, p) t"
    and "\<And>x t. sys_world t = sys_world s \<Longrightarrow> E x t"
    and "\<And>e x t. sys_world t = log_event e (sys_world s) \<Longrightarrow> calm e \<Longrightarrow> E x t"
  shows "wpF (whisper_status env) Q E s"
  unfolding whisper_status_def systemctl_def wpF_bind
proof (rule capture_wp)
  fix n result content and t :: "llama_world sys"
  assume r: "le_run env n (systemctl_args STATUS_QUERY) = Inr result" "cp_status result = 0"
    "\<not> 65536 < cp_size result" "cp_text result = Inr content"
    and t: "sys_world t = log_event (Ran (systemctl_args STATUS_QUERY) (Inr result)) (sys_world s)"
  show "wpF (liftE (status_of (strip content))) Q E t"
  proof (cases "status_of (strip content)")
    case (Inl x)
    then show ?thesis using assms(4) [OF t] by (simp add: wp)
  next
    case (Inr ap)
    obtain a p where ap: "ap = (a, p)" by (cases ap)
    have "pid_text p"
      using assms(1) r(1,4) Inr ap unfolding documented_llama_def pid_text_def by blast
    moreover have "a = ''active'' \<Longrightarrow> says_active (Ran (systemctl_args STATUS_QUERY) (Inr result))"
      using r Inr ap by (simp add: says_active_def)
    ultimately show ?thesis using assms(2) [OF t] Inr ap by (simp add: wp)
  qed
qed (use assms(3,4) in auto)

end
