(* ===== verification/LlamaIntent.thy ===== *)
theory LlamaIntent
  imports LlamaFacts
begin

text \<open>
  The recovery intent: whenever Whisper was stopped and not seen active since, the state file says that it
  has to be restored. Every operation of the coordinator keeps this at every step.
\<close>

definition recorded :: "llama_world \<Rightarrow> bool" where
  "recorded w = (case load_state (lw_text w) of Inr st \<Rightarrow> cs_restore st | Inl e \<Rightarrow> False)"

definition intent :: "llama_world \<Rightarrow> bool" where
  "intent w = (owed (lw_log w) \<longrightarrow> recorded w)"

definition intent_run :: "'a llama_io \<Rightarrow> bool" where
  "intent_run m = (\<forall>s. intent (sys_world s) \<longrightarrow>
     wpF m (\<lambda>_ t. intent (sys_world t)) (\<lambda>_ t. intent (sys_world t)) s)"

lemma owed_append: "list_all calm es \<Longrightarrow> owed (es @ l) \<Longrightarrow> owed l"
  by (induction es) (auto simp: calm_def)

lemma grows_owed: "grows calm v w \<Longrightarrow> \<not> owed (lw_log v) \<Longrightarrow> \<not> owed (lw_log w)"
  by (auto simp: grows_def dest: owed_append)

lemma grows_intent: "grows calm v w \<Longrightarrow> intent v \<Longrightarrow> intent w"
  by (auto simp: grows_def intent_def recorded_def dest: owed_append)

lemma grows_text: "grows P v w \<Longrightarrow> lw_text w = lw_text v"
  by (simp add: grows_def)

lemma recorded_intent: "recorded w \<Longrightarrow> intent w"
  by (simp add: intent_def)

lemma recorded_written: "lw_text w = text_of st \<Longrightarrow> coord_ok st \<Longrightarrow> cs_restore st \<Longrightarrow> recorded w"
  by (simp add: recorded_def load_text_of)

lemma quiet_intent: "keeps (grows calm) (grows calm) m \<Longrightarrow> intent_run m"
  by (auto simp: intent_run_def intro: quiet_wp grows_intent)

text \<open>Any call at all leaves the state file alone.\<close>

interpretation any: quiet "\<lambda>_. True"
  by unfold_locales simp

lemma quiet_text:
  assumes "keeps (grows (\<lambda>_. True)) (grows (\<lambda>_. True)) m"
  shows "wpF m (\<lambda>_ t. lw_text (sys_world t) = lw_text (sys_world s))
    (\<lambda>_ t. lw_text (sys_world t) = lw_text (sys_world s)) s"
  by (rule quiet_wp [OF assms, where J = "\<lambda>w. lw_text w = lw_text (sys_world s)"]) (auto dest: grows_text)

lemma any_systemctl: "any.silent (systemctl env args)"
  unfolding systemctl_def by (rule any.silent_program) simp

lemma any_stop: "any.silent (stop_whisper env)"
  unfolding stop_whisper_def by (intro any.rules any_systemctl any.silent_status)

lemma after_suspend: "any.silent (seqF log_line (seqF (stop_whisper env) (wait_gpu_release env pids cuda)))"
  by (intro any.rules any.silent_log any_stop any.silent_release)

lemma wpF_ret_eta: "wpF (retF x) Q E = Q x"
  by (rule ext) (rule wpF_ret)

lemma wpF_bind_eta: "wpF (bindF m f) Q E = wpF m (\<lambda>x. wpF (f x) Q E) E"
  by (rule ext) (rule wpF_bind)

lemma wpF_when_eta: "wpF (whenF b m) Q E = (if b then wpF m (\<lambda>_. Q ()) E else Q ())"
  by (rule ext) (simp add: wpF_when)

lemma after_suspend_wp:
  assumes "lw_text (sys_world t) = text"
    and "\<And>u. lw_text (sys_world u) = text \<Longrightarrow> Q x u" and "\<And>e u. lw_text (sys_world u) = text \<Longrightarrow> E e u"
  shows "wpF (seqF log_line (seqF (stop_whisper env) (seqF (wait_gpu_release env pids cuda) (retF x)))) Q E t"
proof -
  have "wpF (seqF log_line (seqF (stop_whisper env) (wait_gpu_release env pids cuda))) (\<lambda>_. Q x) E t"
    by (rule wpF_mono [OF quiet_text [OF after_suspend]]) (use assms in auto)
  then show ?thesis by (simp add: wpF_seq_eta wpF_ret_eta)
qed

subsection \<open>Suspending\<close>

lemma suspend_wp:
  assumes "intent (sys_world s)" and "coord_ok st" and "length (cs_pids st) \<le> 4095" and "pid_text main_pid"
    and "\<And>st' t. lw_text (sys_world t) = text_of st' \<Longrightarrow> coord_ok st' \<Longrightarrow> cs_restore st' \<Longrightarrow> Q st' t"
    and "\<And>e t. intent (sys_world t) \<Longrightarrow> E e t"
  shows "wpF (suspend_whisper env st main_pid vram) Q E s"
proof (cases "int_of_str main_pid")
  case None
  then show ?thesis using assms(1,6) by (simp add: suspend_whisper_def int_setting_def wp)
next
  case (Some pid)
  let ?st = "st\<lparr>cs_pids := (if pid \<noteq> 0 \<and> pid \<notin> set (cs_pids st) then cs_pids st @ [pid] else cs_pids st),
                cs_restore := True\<rparr>"
  have ok: "coord_ok ?st" "cs_restore ?st"
    using assms(2-4) Some by (auto simp: coord_ok_def pid_text_def)
  have later: "wpF (seqF log_line (seqF (stop_whisper env)
        (seqF (wait_gpu_release env (if pid \<noteq> 0 then [pid] else []) (vram \<noteq> 0)) (retF ?st)))) Q E t"
    if "lw_text (sys_world t) = text_of ?st" for t
    by (rule after_suspend_wp [OF that]) (blast intro: assms(5,6) ok recorded_intent recorded_written)+
  have "wpF (write_state ?st) (\<lambda>_. wpF (seqF log_line (seqF (stop_whisper env)
        (seqF (wait_gpu_release env (if pid \<noteq> 0 then [pid] else []) (vram \<noteq> 0)) (retF ?st)))) Q E) E s"
  proof (rule write_state_wp)
    fix e and t :: "llama_world sys"
    assume "lw_text (sys_world t) \<in> {lw_text (sys_world s), text_of ?st}" "lw_log (sys_world t) = lw_log (sys_world s)"
    then have "intent (sys_world t)"
      using assms(1) ok by (auto simp: intent_def recorded_def load_text_of)
    then show "E e t" by (rule assms(6))
  qed (rule later)
  then show ?thesis
    unfolding suspend_whisper_def Let_def wpF_bind wpF_lift int_setting_def Some option.case sum.case wpF_seq .
qed

lemma first_occurrences_set [simp]: "set (first_occurrences xs) = set xs"
  by (simp add: first_occurrences_def)

lemma write_keeps_intent:
  assumes "intent (sys_world s)" and "coord_ok st" and "recorded (sys_world s) \<Longrightarrow> cs_restore st"
    and "\<And>t. intent (sys_world t) \<Longrightarrow> Q () t" and "\<And>e t. intent (sys_world t) \<Longrightarrow> E e t"
  shows "wpF (write_state st) Q E s"
proof (rule write_state_wp)
  have *: "intent (sys_world t)"
    if "lw_text (sys_world t) \<in> {lw_text (sys_world s), text_of st}" "lw_log (sys_world t) = lw_log (sys_world s)" for t :: "llama_world sys"
    using that assms(1-3) by (auto simp: intent_def recorded_def load_text_of)
  fix t :: "llama_world sys" and e
  assume "lw_log (sys_world t) = lw_log (sys_world s)"
  then show "lw_text (sys_world t) = text_of st \<Longrightarrow> Q () t"
    and "lw_text (sys_world t) \<in> {lw_text (sys_world s), text_of st} \<Longrightarrow> E e t"
    using * assms(4,5) by blast+
qed

subsection \<open>A Llama run\<close>

lemma intent_runD:
  assumes "intent_run m" and "intent (sys_world s)"
    and "\<And>x t. intent (sys_world t) \<Longrightarrow> Q x t" and "\<And>e t. intent (sys_world t) \<Longrightarrow> E e t"
  shows "wpF m Q E s"
  using assms(1,2) unfolding intent_run_def by (blast intro: wpF_mono assms(3,4))

lemma intent_bind: "intent_run m \<Longrightarrow> (\<And>x. intent_run (f x)) \<Longrightarrow> intent_run (bindF m f)"
  unfolding intent_run_def wpF_bind by (blast intro: wpF_mono)

lemma intent_seq: "intent_run m \<Longrightarrow> intent_run n \<Longrightarrow> intent_run (seqF m n)"
  unfolding seqF_def by (rule intent_bind)

lemma intent_finally: "intent_run m \<Longrightarrow> intent_run fin \<Longrightarrow> intent_run (finallyF m fin)"
  unfolding intent_run_def wpF_finally by (auto elim!: wpF_mono)

lemma intent_catch: "intent_run m \<Longrightarrow> (\<And>e. intent_run (h e)) \<Longrightarrow> intent_run (catchF m c h)"
  unfolding intent_run_def wpF_catch by (auto elim!: wpF_mono)

lemma intent_if: "(b \<Longrightarrow> intent_run m) \<Longrightarrow> (\<not> b \<Longrightarrow> intent_run n) \<Longrightarrow> intent_run (if b then m else n)"
  by simp

lemma intent_op: "(\<And>w. intent w \<Longrightarrow> intent (f w)) \<Longrightarrow> intent_run (op f)"
  by (auto simp: intent_run_def intro!: wpF_opI)

lemma owed_log_event: "intent w \<Longrightarrow> \<not> stops e \<Longrightarrow> intent (log_event e w)"
  by (auto simp: intent_def log_event_def recorded_def)

lemma read_wp:
  assumes "intent (sys_world s)"
    and "\<And>st t. load_state (lw_text (sys_world t)) = Inr st \<Longrightarrow> coord_ok st \<Longrightarrow> intent (sys_world t) \<Longrightarrow> Q st t"
    and "\<And>e t. intent (sys_world t) \<Longrightarrow> E e t"
  shows "wpF (read_state env) Q E s"
  unfolding read_state_def wpF_seq
proof (rule quiet_wp [OF calm.silent_open, where J = intent])
  fix t :: "llama_world sys"
  assume "intent (sys_world t)"
  then show "wpF (bindF (look lw_text) (\<lambda>content. liftE (load_state content))) Q E t"
    using assms(2,3) loaded_ok by (auto simp: wp split: sum.split)
qed (auto intro: assms grows_intent)

text \<open>Between reading the state and writing it, the file keeps the state that was read.\<close>

definition holding :: "coord_state \<Rightarrow> llama_world \<Rightarrow> bool" where
  "holding st w = (load_state (lw_text w) = Inr st \<and> intent w)"

lemma holding_grows: "grows calm v w \<Longrightarrow> holding st v \<Longrightarrow> holding st w"
  by (auto simp: holding_def grows_text intro: grows_intent)

lemma holding_event: "holding st w \<Longrightarrow> calm e \<Longrightarrow> holding st (log_event e w)"
  by (auto intro: holding_grows grows_log)

lemma holding_intent: "holding st w \<Longrightarrow> intent w"
  by (simp add: holding_def)

lemma holding_restore: "holding st w \<Longrightarrow> recorded w \<longleftrightarrow> cs_restore st"
  by (simp add: holding_def recorded_def)

lemma with_process_ok:
  assumes "documented_llama env" "coord_ok st" "length (cs_pids (with_process st (le_pid env) vram)) \<le> 4095"
  shows "coord_ok (with_process st (le_pid env) vram)"
  using assms by (auto simp: coord_ok_def with_process_def documented_llama_def)

lemma commit_wp:
  assumes "intent (sys_world s)" "coord_ok st" "recorded (sys_world s) \<Longrightarrow> cs_restore st"
  shows "wpF (commit_run env ram vram st) (\<lambda>_ t. intent (sys_world t)) (\<lambda>_ t. intent (sys_world t)) s"
proof -
  have "calm.silent (bindF (constrained env ram vram) (\<lambda>low. seqF (assertF (\<not> low) ValueErr) skip_op))"
    by (intro calm.rules calm.silent_constrained calm.silent_skip)
  note checked = intent_runD [OF quiet_intent [OF this]]
  show ?thesis
    unfolding commit_run_def wpF_seq by (rule write_keeps_intent [OF assms]) (auto intro: checked)
qed

lemma suspended_wp:
  assumes h: "holding st0 (sys_world s)" "coord_ok st" "length (cs_pids st) \<le> 4095" "cs_restore st = cs_restore st0"
    "pid_text main_pid"
  shows "wpF (bindF (if suspend then suspend_whisper env st main_pid vram else retF st) (commit_run env ram vram))
       (\<lambda>_ t. intent (sys_world t)) (\<lambda>_ t. intent (sys_world t)) s"
proof (cases suspend)
  case True
  have "wpF (suspend_whisper env st main_pid vram)
      (\<lambda>st'. wpF (commit_run env ram vram st') (\<lambda>_ t. intent (sys_world t)) (\<lambda>_ t. intent (sys_world t)))
      (\<lambda>_ t. intent (sys_world t)) s"
    using holding_intent [OF h(1)] h(2,3,5)
  proof (rule suspend_wp)
    fix st' and t :: "llama_world sys"
    assume "lw_text (sys_world t) = text_of st'" "coord_ok st'" "cs_restore st'"
    then show "wpF (commit_run env ram vram st') (\<lambda>_ t. intent (sys_world t)) (\<lambda>_ t. intent (sys_world t)) t"
      by (blast intro: commit_wp recorded_intent recorded_written)
  qed
  then show ?thesis using True by (simp add: wpF_bind)
next
  case False
  then show ?thesis
    using h commit_wp [OF holding_intent [OF h(1)]] by (simp add: wp holding_restore)
qed

lemma must_suspend_quiet: "calm.silent (must_suspend env active_state st ram vram)"
  unfolding must_suspend_def by (intro calm.rules calm.silent_constrained)

lemma admit_wp:
  assumes d: "documented_llama env" and h: "holding st0 (sys_world s)" "coord_ok st0"
  shows "wpF (admit_process env ram vram st0) (\<lambda>_ t. intent (sys_world t)) (\<lambda>_ t. intent (sys_world t)) s"
proof -
  let ?st = "with_process st0 (le_pid env) vram"
  have restore: "cs_restore ?st = cs_restore st0" by (simp add: with_process_def)
  have "wpF (whisper_status env) (\<lambda>(active_state, main_pid). wpF
        (bindF (must_suspend env active_state ?st ram vram) (\<lambda>suspend.
         bindF (if suspend then suspend_whisper env ?st main_pid vram else retF ?st) (commit_run env ram vram)))
        (\<lambda>_ t. intent (sys_world t)) (\<lambda>_ t. intent (sys_world t))) (\<lambda>_ t. intent (sys_world t)) s"
    if len: "length (cs_pids ?st) \<le> 4095"
  proof (rule status_wp [OF d], unfold prod.case)
    fix a p e and t :: "llama_world sys"
    assume t: "sys_world t = log_event e (sys_world s)" "calm e" "pid_text p"
    have "holding st0 (sys_world t)" unfolding t(1) using h(1) t(2) by (rule holding_event)
    then show "wpF (bindF (must_suspend env a ?st ram vram) (\<lambda>suspend.
         bindF (if suspend then suspend_whisper env ?st p vram else retF ?st) (commit_run env ram vram)))
        (\<lambda>_ t. intent (sys_world t)) (\<lambda>_ t. intent (sys_world t)) t"
      unfolding wpF_bind [of "must_suspend env a ?st ram vram"]
    proof (rule quiet_wp [OF must_suspend_quiet, where J = "holding st0"])
      fix suspend and u :: "llama_world sys"
      assume "holding st0 (sys_world u)"
      then show "wpF (bindF (if suspend then suspend_whisper env ?st p vram else retF ?st) (commit_run env ram vram))
          (\<lambda>_ t. intent (sys_world t)) (\<lambda>_ t. intent (sys_world t)) u"
        by (rule suspended_wp [OF _ with_process_ok [OF d h(2) len] len restore t(3)])
    qed (blast intro: holding_grows holding_intent)+
  qed (use h(1) holding_event in \<open>auto dest: holding_intent\<close>)
  then show ?thesis
    using holding_intent [OF h(1)] unfolding admit_process_def Let_def wpF_seq wpF_assert wpF_bind
    by (auto simp: case_prod_unfold wpF_bind_eta)
qed

lemma admitted_intent:
  assumes "documented_llama env"
  shows "intent_run (admitted_run env ram vram)"
proof -
  have "intent_run (bindF (read_state env) (admit_process env ram vram))"
    unfolding intent_run_def wpF_bind
    by (auto intro!: read_wp admit_wp [OF assms] simp: holding_def)
  then show ?thesis
    unfolding admitted_run_def
    by (intro intent_seq quiet_intent [OF calm.silent_acquire]
        quiet_intent [OF calm.silent_systemctl [OF harmless_simps(3)]])
qed

lemma admission_intent: "intent_run m \<Longrightarrow> intent_run (admission env m)"
  unfolding admission_def
  by (intro intent_seq intent_finally quiet_intent [OF calm.silent_open] quiet_intent [OF calm.silent_acquire]
      quiet_intent [OF calm.silent_close])

lemma exec_intent: "intent_run (execv binary arguments)"
  unfolding execv_def
  by (intro intent_seq intent_op owed_log_event quiet_intent [OF growing.keeps_raise]) (simp_all add: stops_def)

lemma lift_bind_intent:
  assumes "\<And>x. m = Inr x \<Longrightarrow> intent_run (f x)"
  shows "intent_run (bindF (liftE m) f)"
  using assms by (cases m) (auto simp: intent_run_def wp)

lemma run_intent:
  assumes "documented_llama env"
  shows "intent_run (run_llama env binary arguments)"
  unfolding run_llama_def
proof (intro intent_seq intent_if exec_intent quiet_intent [OF growing.keeps_assert] lift_bind_intent)
  fix rv :: "int \<times> int"
  show "intent_run (case rv of (ram, vram) \<Rightarrow>
      seqF (open_file env ''leases.lock'')
        (finallyF (seqF (admission env (admitted_run env ram vram)) (execv binary (binary # arguments)))
          (close_lock ''leases.lock'')))"
    by (cases rv)
      (auto intro!: intent_seq intent_finally quiet_intent [OF calm.silent_open] quiet_intent [OF calm.silent_close]
        admission_intent admitted_intent [OF assms] exec_intent)
qed

subsection \<open>The restoration\<close>

text \<open>With the intent recorded every call may follow; without a debt every calm call may.\<close>

lemma text_intent:
  assumes "any.silent m" and "recorded (sys_world s)"
    and "\<And>x t. recorded (sys_world t) \<Longrightarrow> Q x t" and "\<And>e t. intent (sys_world t) \<Longrightarrow> E e t"
  shows "wpF m Q E s"
proof (rule wpF_mono [OF quiet_text [OF assms(1)]])
  fix x e and t :: "llama_world sys"
  assume "lw_text (sys_world t) = lw_text (sys_world s)"
  then have "recorded (sys_world t)" using assms(2) by (simp add: recorded_def)
  then show "Q x t" "E e t" using assms(3,4) recorded_intent by blast+
qed

lemma resume_wp:
  assumes d: "documented_llama env" and "recorded (sys_world s)"
    and Q: "\<And>t. \<not> owed (lw_log (sys_world t)) \<Longrightarrow> Q () t" and E: "\<And>e t. intent (sys_world t) \<Longrightarrow> E e t"
  shows "wpF (resume_whisper env) Q E s"
  unfolding resume_whisper_def wpF_bind [of "systemctl env xs" for xs]
proof (rule text_intent [OF any_systemctl assms(2)])
  fix t :: "llama_world sys"
  assume r: "recorded (sys_world t)"
  show "wpF (bindF (whisper_status env) (\<lambda>(active, _). seqF (assertF (active = ''active'') ValueErr) log_line)) Q E t"
    unfolding wpF_bind
  proof (rule status_wp [OF d])
    fix a p e and u :: "llama_world sys"
    assume u: "sys_world u = log_event e (sys_world t)" "a = ''active'' \<Longrightarrow> says_active e" "calm e"
    have i: "intent (sys_world u)"
      using r u(1) by (simp add: log_event_def intent_def recorded_def)
    have paid: "a = ''active'' \<Longrightarrow> \<not> owed (lw_log (sys_world u))"
      using u by (simp add: log_event_def calm_def)
    show "wpF (case (a, p) of (active, _) \<Rightarrow> seqF (assertF (active = ''active'') ValueErr) log_line) Q E u"
      using i by (auto simp: wp intro!: E quiet_wp [OF calm.silent_log, where J = "\<lambda>w. \<not> owed (lw_log w)"]
          paid Q dest: grows_owed) (auto simp: intent_def intro: E)
  qed (use r in \<open>auto simp: log_event_def recorded_def intent_def intro!: E\<close>)
qed (auto intro: E)

lemma restore_quiet_parts:
  "calm.silent (processes_exited env pids)" "calm.silent (wait_gpu_release env pids cuda)"
  "any.silent (whenF b (stop_whisper env))" "any.silent (whenF b (wait_gpu_release env pids cuda))"
  "any.silent (op (log_event (Flock name mode free)))"
  by (intro calm.silent_exited calm.silent_release any.rules any_stop any.silent_release any.silent_unlock)+

lemma before_reset_wp:
  assumes d: "documented_llama env" and h: "holding st (sys_world s)"
    and Q: "\<And>t. \<not> owed (lw_log (sys_world t)) \<Longrightarrow> Q () t" and E: "\<And>e t. intent (sys_world t) \<Longrightarrow> E e t"
  shows "wpF (before_reset env st) Q E s"
proof (cases "cs_restore st")
  case True
  then have r: "recorded (sys_world s)" using h by (simp add: holding_restore)
  have "any.silent (seqF (whenF (cs_restore st) (stop_whisper env))
     (seqF (whenF (cs_pids st \<noteq> []) (wait_gpu_release env (cs_pids st) (cs_cuda st)))
     (op (log_event (Flock ''leases.lock'' LOCK_UN True)))))"
    by (intro any.rules restore_quiet_parts any_stop any.silent_release)
  then have "wpF (seqF (whenF (cs_restore st) (stop_whisper env))
     (seqF (whenF (cs_pids st \<noteq> []) (wait_gpu_release env (cs_pids st) (cs_cuda st)))
     (op (log_event (Flock ''leases.lock'' LOCK_UN True))))) (\<lambda>_. wpF (resume_whisper env) Q E) E s"
    by (rule text_intent [OF _ r]) (auto intro: resume_wp [OF d] Q E)
  then show ?thesis using True by (simp add: before_reset_def wpF_seq_eta wpF_seq wpF_when wpF_when_eta)
next
  case False
  then have o: "\<not> owed (lw_log (sys_world s))" using h by (auto simp: holding_restore [OF h] intent_def dest: holding_intent)
  have "calm.silent (seqF (whenF (cs_pids st \<noteq> []) (wait_gpu_release env (cs_pids st) (cs_cuda st)))
     (op (log_event (Flock ''leases.lock'' LOCK_UN True))))"
    by (intro calm.rules calm.silent_release calm.silent_unlock)
  then have "wpF (seqF (whenF (cs_pids st \<noteq> []) (wait_gpu_release env (cs_pids st) (cs_cuda st)))
     (op (log_event (Flock ''leases.lock'' LOCK_UN True)))) Q E s"
    by (rule quiet_wp [where J = "\<lambda>w. \<not> owed (lw_log w)"]) (use o in \<open>auto intro: Q E simp: grows_owed intent_def\<close>)
  then show ?thesis using False by (simp add: before_reset_def wp wpF_seq_eta wpF_ret_eta wpF_when_eta)
qed

lemma query_parts: "calm.silent (live_pids env st)" "calm.silent (session_active env st)"
  unfolding live_pids_def session_active_def
  by (intro calm.rules calm.silent_status calm.silent_systemctl harmless_simps)+

lemma empty_ok: "coord_ok empty_state"
  by (simp add: coord_ok_def empty_state_def)

lemma reset_intent_wp:
  assumes "documented_llama env" and "holding st (sys_world s)"
  shows "wpF (seqF (before_reset env st) (write_state empty_state)) (\<lambda>_ t. intent (sys_world t))
    (\<lambda>_ t. intent (sys_world t)) s"
  unfolding wpF_seq
proof (rule before_reset_wp [OF assms])
  fix t :: "llama_world sys"
  assume "\<not> owed (lw_log (sys_world t))"
  then show "wpF (write_state empty_state) (\<lambda>_ t. intent (sys_world t)) (\<lambda>_ t. intent (sys_world t)) t"
    by (intro write_state_wp) (simp_all add: intent_def)
qed

lemma restore_intent_wp:
  assumes "documented_llama env" and "holding st (sys_world s)"
  shows "wpF (restore_state env st) (\<lambda>_ t. intent (sys_world t)) (\<lambda>_ t. intent (sys_world t)) s"
proof -
  have step: "wpF (bindF m f) (\<lambda>_ t. intent (sys_world t)) (\<lambda>_ t. intent (sys_world t)) t"
    if "calm.silent m" "holding st (sys_world t)"
      "\<And>x u. holding st (sys_world u) \<Longrightarrow> wpF (f x) (\<lambda>_ t. intent (sys_world t)) (\<lambda>_ t. intent (sys_world t)) u"
    for m :: "'a llama_io" and f :: "'a \<Rightarrow> unit llama_io" and t
    unfolding wpF_bind using that(1,2)
    by (rule quiet_wp [where J = "holding st"]) (auto intro: that(3) holding_grows holding_intent)
  have hi: "holding st w \<Longrightarrow> intent w" for w by (rule holding_intent)
  show ?thesis
    unfolding restore_state_def using assms(2)
    by (auto simp: wpF_ret wpF_if hi intro!: step query_parts calm.silent_exited reset_intent_wp [OF assms(1)])
qed

lemma restore_once_intent:
  assumes "documented_llama env"
  shows "intent_run (restore_once env)"
proof -
  have "intent_run (bindF (read_state env) (restore_state env))"
    unfolding intent_run_def wpF_bind by (auto intro!: read_wp restore_intent_wp [OF assms] simp: holding_def)
  then show ?thesis
    unfolding restore_once_def
    by (auto intro!: admission_intent intent_seq intent_finally intent_bind quiet_intent [OF calm.silent_open]
        quiet_intent [OF calm.silent_close] quiet_intent [OF calm.silent_try_lock] quiet_intent [OF growing.keeps_ret])
qed

lemma watch_intent: "documented_llama env \<Longrightarrow> intent_run (watch n env)"
  by (induction n)
    (auto intro!: intent_seq intent_catch restore_once_intent quiet_intent [OF growing.keeps_ret]
      quiet_intent [OF calm.silent_log] quiet_intent [OF calm.silent_sleep])

lemma main_intent:
  assumes "documented_llama env"
  shows "intent_run (llama_main turns env argv)"
  unfolding llama_main_def
  by (auto intro!: intent_catch intent_seq intent_bind quiet_intent [OF calm.silent_init] watch_intent [OF assms]
      quiet_intent [OF growing.keeps_ret] quiet_intent [OF growing.keeps_raise] quiet_intent [OF calm.silent_log]
      quiet_intent [OF calm.silent_allowed] run_intent [OF assms] split: list.split)

text \<open>C19 (a suspended Whisper comes back): if the recovery intent holds before, then a run of the program leaves
  it at every point where the run can fail, be interrupted or be killed: whenever Whisper was stopped for a
  Llama run and has not been seen active since, \<open>state.json\<close> says that it has to be restored.\<close>

theorem recovery_intent_kept:
  assumes "documented_llama env" and "intent (sys_world s)"
    and "llama_main turns env argv s = (r, t)"
  shows "intent (sys_world t)"
  using main_intent [OF assms(1), of turns argv] assms(2,3)
  by (auto simp: intent_run_def wpF_def split: sum.splits)

end
