(* ===== verification/LlamaRestore.thy ===== *)
theory LlamaRestore
  imports LlamaIntent
begin

text \<open>
  When Whisper is started again and when a Llama binary is executed, from the log of a run: the events that
  a run adds are \<open>es\<close> in \<open>lw_log t = es @ lw_log s\<close>. \<open>before K \<Phi> l\<close> says that no event of kind \<open>K\<close> was added
  to the log \<open>l\<close> yet, and \<open>\<Phi>\<close> of the events that were.
\<close>

definition before :: "(event \<Rightarrow> bool) \<Rightarrow> (event set \<Rightarrow> bool) \<Rightarrow> event list \<Rightarrow> llama_world \<Rightarrow> bool" where
  "before K \<Phi> l w = (\<exists>es. lw_log w = es @ l \<and> list_all (\<lambda>e. \<not> K e) es \<and> \<Phi> (set es))"

definition justified :: "(event \<Rightarrow> bool) \<Rightarrow> (event set \<Rightarrow> bool) \<Rightarrow> event list \<Rightarrow> llama_world \<Rightarrow> bool" where
  "justified K \<Phi> l w =
     (\<exists>es. lw_log w = es @ l \<and> (\<forall>es1 e es2. es = es1 @ e # es2 \<longrightarrow> K e \<longrightarrow> \<Phi> (set es2)))"

lemma before_start: "\<Phi> {} \<Longrightarrow> before K \<Phi> (lw_log w) w"
  by (auto simp: before_def)

lemma before_weaken: "before K \<Phi> l w \<Longrightarrow> (\<And>E. \<Phi> E \<Longrightarrow> \<Psi> E) \<Longrightarrow> before K \<Psi> l w"
  by (auto simp: before_def)

lemma before_justified: "before K \<Phi> l w \<Longrightarrow> justified K \<Psi> l w"
  by (fastforce simp: before_def justified_def)

lemma before_event:
  assumes "before K \<Phi> l v" "w = log_event e v" "\<not> K e" "\<And>E. \<Phi> E \<Longrightarrow> \<Psi> (insert e E)"
  shows "before K \<Psi> l w"
proof -
  obtain es where "lw_log v = es @ l" "list_all (\<lambda>e. \<not> K e) es" "\<Phi> (set es)"
    using assms(1) by (auto simp: before_def)
  then show ?thesis
    unfolding before_def using assms(2-4) by (intro exI [of _ "e # es"]) (simp add: log_event_def)
qed

lemma justified_event:
  assumes "before K \<Phi> l v" "w = log_event e v"
  shows "justified K \<Phi> l w"
proof -
  obtain es where es: "lw_log v = es @ l" "list_all (\<lambda>e. \<not> K e) es" "\<Phi> (set es)"
    using assms(1) by (auto simp: before_def)
  have "\<Phi> (set es2)" if "e # es = es1 @ f # es2" "K f" for es1 f es2
    using that es(2,3) by (cases es1) auto
  then show ?thesis
    unfolding justified_def using es(1) assms(2) by (intro exI [of _ "e # es"]) (simp add: log_event_def)
qed

lemma before_grows:
  assumes "grows calm v w" "before K \<Phi> l v" "\<And>e. calm e \<Longrightarrow> \<not> K e" "\<And>E F. \<Phi> E \<Longrightarrow> E \<subseteq> F \<Longrightarrow> \<Phi> F"
  shows "before K \<Phi> l w"
proof -
  obtain es fs where "lw_log v = es @ l" "list_all (\<lambda>e. \<not> K e) es" "\<Phi> (set es)"
      "lw_log w = fs @ lw_log v" "list_all calm fs"
    using assms(1,2) by (auto simp: before_def grows_def)
  then show ?thesis
    unfolding before_def using assms(3,4)
    by (intro exI [of _ "fs @ es"]) (auto simp: list_all_set)
qed

lemma justified_grows:
  assumes "grows calm v w" "justified K \<Phi> l v" "\<And>e. calm e \<Longrightarrow> \<not> K e"
  shows "justified K \<Phi> l w"
proof -
  obtain es fs where es: "lw_log v = es @ l" "\<forall>es1 e es2. es = es1 @ e # es2 \<longrightarrow> K e \<longrightarrow> \<Phi> (set es2)"
      "lw_log w = fs @ lw_log v" "list_all calm fs"
    using assms(1,2) by (auto simp: justified_def grows_def)
  have "\<Phi> (set es2)" if eq: "fs @ es = es1 @ e # es2" and K: "K e" for es1 e es2
  proof -
    have "e \<notin> set fs" using K es(4) assms(3) by (auto simp: list_all_set)
    obtain us where "(fs = es1 @ us \<and> us @ es = e # es2) \<or> (fs @ us = es1 \<and> es = us @ e # es2)"
      using eq unfolding append_eq_append_conv2 by blast
    with \<open>e \<notin> set fs\<close> have "es = [] @ e # es2 \<or> es = us @ e # es2"
      by (auto simp: append_eq_Cons_conv)
    then have "\<exists>us. es = us @ e # es2" by blast
    then show ?thesis using es(2) K by blast
  qed
  then show ?thesis
    unfolding justified_def using es(1,3) by (intro exI [of _ "fs @ es"]) simp
qed

lemma justified_same_log: "lw_log w = lw_log v \<Longrightarrow> justified K \<Phi> l v \<Longrightarrow> justified K \<Phi> l w"
  by (simp add: justified_def)

lemma justifiedD:
  "justified K \<Phi> l w \<Longrightarrow> lw_log w = es1 @ e # es2 @ l \<Longrightarrow> K e \<Longrightarrow> \<Phi> (set es2)"
  by (auto simp: justified_def)

lemma calm_not [simp]: "calm e \<Longrightarrow> \<not> starts e" "calm e \<Longrightarrow> \<not> executes e"
  by (simp_all add: calm_def)

lemma consult_wp:
  assumes "\<And>a t. sys_world t = log_event (ev a) (sys_world s) \<Longrightarrow> Q a t"
    and "\<And>e t. sys_world t = sys_world s \<Longrightarrow> E e t"
    and "\<And>a e t. sys_world t = log_event (ev a) (sys_world s) \<Longrightarrow> E e t"
  shows "wpF (consult f ev) Q E s"
  unfolding consult_def wpF_bind wpF_seq wpF_get by (intro wpF_opI) (auto simp: wp intro: assms)

subsection \<open>Starting Whisper\<close>

definition lease_taken :: "event set \<Rightarrow> bool" where
  "lease_taken es = (Flock ''leases.lock'' LOCK_EX True \<in> es)"

definition gone :: "int list \<Rightarrow> event set \<Rightarrow> bool" where
  "gone pids es = (\<forall>pid \<in> set pids. \<exists>c. c \<noteq> PidAlive \<and> Checked pid (Inr c) \<in> es)"

lemma exited_wp:
  assumes b: "before K (\<lambda>E. \<Phi> E \<and> gone seen E) l (sys_world s)" "lw_text (sys_world s) = tx"
    and mono: "\<And>E F. \<Phi> E \<Longrightarrow> E \<subseteq> F \<Longrightarrow> \<Phi> F" and K: "\<And>e. calm e \<Longrightarrow> \<not> K e"
    and Q: "\<And>t. before K (\<lambda>E. \<Phi> E \<and> gone (seen @ pids) E) l (sys_world t) \<Longrightarrow> lw_text (sys_world t) = tx \<Longrightarrow> Q True t"
      "\<And>t. before K \<Phi> l (sys_world t) \<Longrightarrow> Q False t" and E: "\<And>e t. before K \<Phi> l (sys_world t) \<Longrightarrow> E e t"
  shows "wpF (processes_exited env pids) Q E s"
  using b Q(1)
proof (induction pids arbitrary: s "seen")
  case Nil
  then show ?case by (simp add: wp)
next
  case (Cons pid pids)
  let ?\<Phi> = "\<lambda>E. \<Phi> E \<and> gone seen E"
  have step: "before K ?\<Phi> l (sys_world t)" "before K \<Phi> l (sys_world t)"
    if "sys_world t = log_event (Checked pid a) (sys_world s)" for a t
  proof -
    show 1: "before K ?\<Phi> l (sys_world t)"
      by (rule before_event [OF Cons.prems(1) that]) (auto simp: gone_def K [OF calm_simps(2)] intro: mono)
    show "before K \<Phi> l (sys_world t)" by (rule before_weaken [OF 1]) simp
  qed
  have "wpF (bindF (liftE a) (\<lambda>c. if c = PidAlive then retF False else processes_exited env pids)) Q E t"
    if t: "sys_world t = log_event (Checked pid a) (sys_world s)" for a t
  proof (cases a)
    case (Inl x)
    then show ?thesis using step [OF t] by (simp add: wp E)
  next
    case (Inr c)
    show ?thesis
    proof (cases "c = PidAlive")
      case True
      then show ?thesis using Inr step [OF t] by (simp add: wp Q)
    next
      case False
      have "before K (\<lambda>E. \<Phi> E \<and> gone (seen @ [pid]) E) l (sys_world t)"
        by (rule before_event [OF Cons.prems(1) t]) (use Inr False in \<open>auto simp: gone_def K [OF calm_simps(2)] intro: mono\<close>)
      moreover have "lw_text (sys_world t) = tx" using t Cons.prems(2) by (simp add: log_event_def)
      ultimately have "wpF (processes_exited env pids) Q E t"
        by (rule Cons.IH) (use Cons.prems(3) in simp)
      then show ?thesis using Inr False by (simp add: wp)
    qed
  qed
  moreover have "before K \<Phi> l (sys_world s)" by (rule before_weaken [OF Cons.prems(1)]) simp
  ultimately show ?case
    unfolding processes_exited.simps wpF_bind [of "consult f ev" for f ev]
    by (intro consult_wp) (auto intro: E step(2))
qed

text \<open>systemctl answered the query for the state of Whisper, and named \<open>p\<close> as its main process.\<close>

definition whisper_pid :: "int \<Rightarrow> event set \<Rightarrow> bool" where
  "whisper_pid p es \<longleftrightarrow> (\<exists>result content a text. Ran (systemctl_args STATUS_QUERY) (Inr result) \<in> es
     \<and> cp_status result = 0 \<and> cp_text result = Inr content \<and> status_of (strip content) = Inr (a, text)
     \<and> int_setting text = Inr p)"

lemma whisper_pid_mono: "whisper_pid p E \<Longrightarrow> E \<subseteq> F \<Longrightarrow> whisper_pid p F"
  unfolding whisper_pid_def by blast

text \<open>What is known before the start: the lease is held and every recorded process but the reported main process
  of Whisper is gone.\<close>

definition exited_state :: "state_text \<Rightarrow> event set \<Rightarrow> bool" where
  "exited_state text es =
     (lease_taken es \<and> (\<exists>st p. load_state text = Inr st \<and> cs_restore st
        \<and> whisper_pid p es \<and> gone (filter (\<lambda>pid. pid \<noteq> p) (cs_pids st)) es))"

definition fair :: "state_text \<Rightarrow> event list \<Rightarrow> llama_world \<Rightarrow> bool" where
  "fair text l w = justified starts (exited_state text) l w"

lemma fair_before: "before starts \<Phi> l w \<Longrightarrow> fair text l w"
  unfolding fair_def by (rule before_justified)

lemma fair_grows: "grows calm v w \<Longrightarrow> fair text l v \<Longrightarrow> fair text l w"
  unfolding fair_def by (rule justified_grows) simp_all

lemma fair_quiet: "calm.silent m \<Longrightarrow> fair text l (sys_world s) \<Longrightarrow>
    wpF m (\<lambda>_ t. fair text l (sys_world t)) (\<lambda>_ t. fair text l (sys_world t)) s"
  by (rule quiet_wp [where J = "fair text l"]) (auto intro: fair_grows)

lemma fair_bind:
  assumes "wpF m (\<lambda>_ t. fair text l (sys_world t)) (\<lambda>_ t. fair text l (sys_world t)) s" and "\<And>x. calm.silent (f x)"
  shows "wpF (bindF m f) (\<lambda>_ t. fair text l (sys_world t)) (\<lambda>_ t. fair text l (sys_world t)) s"
  unfolding wpF_bind by (rule wpF_mono [OF assms(1)]) (auto intro: fair_quiet assms(2))

lemma resume_fair:
  assumes "before starts (exited_state text) l (sys_world s)"
  shows "wpF (resume_whisper env) (\<lambda>_ t. fair text l (sys_world t)) (\<lambda>_ t. fair text l (sys_world t)) s"
proof -
  have log: "fair text l (log_event e (sys_world s))" for e
    unfolding fair_def by (rule justified_event [OF assms refl])
  show ?thesis
    unfolding resume_whisper_def
    by (rule fair_bind, unfold systemctl_def, rule capture_wp)
      (auto intro: log fair_before [OF assms] calm.rules calm.silent_status calm.silent_log)
qed

lemma lease_mono: "lease_taken E \<Longrightarrow> E \<subseteq> F \<Longrightarrow> lease_taken F"
  by (auto simp: lease_taken_def)

lemma gone_mono: "gone pids E \<Longrightarrow> E \<subseteq> F \<Longrightarrow> gone pids F"
  unfolding gone_def by blast

lemma exited_state_mono:
  assumes "exited_state text E" "E \<subseteq> F"
  shows "exited_state text F"
proof -
  obtain st p where "load_state text = Inr st" "cs_restore st" "whisper_pid p E" "gone (filter (\<lambda>pid. pid \<noteq> p) (cs_pids st)) E"
    using assms(1) unfolding exited_state_def by blast
  moreover have "lease_taken F" using assms lease_mono unfolding exited_state_def by blast
  ultimately show ?thesis
    unfolding exited_state_def using whisper_pid_mono [OF _ assms(2)] gone_mono [OF _ assms(2)] by blast
qed

text \<open>Calls that leave the log free of starts; \<open>stop_whisper\<close> is one of them.\<close>

definition startless :: "event \<Rightarrow> bool" where
  "startless e = (\<not> starts e)"

interpretation startless: quiet startless
  by unfold_locales (simp add: startless_def)

lemma startless_stop: "startless.silent (stop_whisper env)"
  unfolding stop_whisper_def systemctl_def
  by (intro startless.rules startless.silent_program startless.silent_status)
    (simp add: startless_def starts_def systemctl_args_def)

lemma before_startless:
  assumes "grows startless v w" "before starts \<Phi> l v" "\<And>E F. \<Phi> E \<Longrightarrow> E \<subseteq> F \<Longrightarrow> \<Phi> F"
  shows "before starts \<Phi> l w"
proof -
  obtain es fs where "lw_log v = es @ l" "list_all (\<lambda>e. \<not> starts e) es" "\<Phi> (set es)"
      "lw_log w = fs @ lw_log v" "list_all startless fs"
    using assms(1,2) by (auto simp: before_def grows_def)
  then show ?thesis
    unfolding before_def using assms(3)
    by (intro exI [of _ "fs @ es"]) (auto simp: list_all_set startless_def)
qed

lemma before_reset_fair:
  assumes b: "before starts (\<lambda>E. cs_restore st \<longrightarrow> exited_state text E) l (sys_world s)"
  shows "wpF (before_reset env st) (\<lambda>_ t. fair text l (sys_world t)) (\<lambda>_ t. fair text l (sys_world t)) s"
proof -
  have "startless.silent (seqF (whenF (cs_restore st) (stop_whisper env))
     (seqF (whenF (cs_pids st \<noteq> []) (wait_gpu_release env (cs_pids st) (cs_cuda st)))
     (op (log_event (Flock ''leases.lock'' LOCK_UN True)))))"
    by (intro startless.rules startless_stop startless.silent_release startless.silent_unlock)
  then have "wpF (seqF (whenF (cs_restore st) (stop_whisper env))
     (seqF (whenF (cs_pids st \<noteq> []) (wait_gpu_release env (cs_pids st) (cs_cuda st)))
     (op (log_event (Flock ''leases.lock'' LOCK_UN True)))))
     (\<lambda>_. wpF (whenF (cs_restore st) (resume_whisper env))
       (\<lambda>_ t. fair text l (sys_world t)) (\<lambda>_ t. fair text l (sys_world t))) (\<lambda>_ t. fair text l (sys_world t)) s"
  proof (rule quiet_wp [where J = "before starts (\<lambda>E. cs_restore st \<longrightarrow> exited_state text E) l"])
    fix t :: "llama_world sys"
    assume "before starts (\<lambda>E. cs_restore st \<longrightarrow> exited_state text E) l (sys_world t)"
    then show "wpF (whenF (cs_restore st) (resume_whisper env)) (\<lambda>_ t. fair text l (sys_world t))
        (\<lambda>_ t. fair text l (sys_world t)) t"
      by (cases "cs_restore st") (auto simp: wp intro: resume_fair fair_before)
  qed (use b in \<open>auto intro: before_startless fair_before exited_state_mono\<close>)
  then show ?thesis by (simp add: before_reset_def wpF_seq_eta wpF_seq)
qed

lemma write_fair:
  assumes "fair text l (sys_world s)"
  shows "wpF (write_state st) (\<lambda>_ t. fair text l (sys_world t)) (\<lambda>_ t. fair text l (sys_world t)) s"
  using assms unfolding fair_def by (intro write_state_wp) (auto intro: justified_same_log)

text \<open>A calm call whose result does not matter, before any event of kind \<open>K\<close>.\<close>

definition waiting ::
    "(event \<Rightarrow> bool) \<Rightarrow> state_text \<Rightarrow> (event set \<Rightarrow> bool) \<Rightarrow> event list \<Rightarrow> llama_world \<Rightarrow> bool" where
  "waiting K text \<Phi> l w = (lw_text w = text \<and> before K \<Phi> l w)"

lemma waiting_fair: "waiting starts text \<Phi> l w \<Longrightarrow> fair text' l w"
  by (auto simp: waiting_def intro: fair_before)

lemma waiting_quiet:
  assumes "calm.silent m" "waiting K text \<Phi> l (sys_world s)" "\<And>E F. \<Phi> E \<Longrightarrow> E \<subseteq> F \<Longrightarrow> \<Phi> F"
    and K: "\<And>e. calm e \<Longrightarrow> \<not> K e"
    and "\<And>x t. waiting K text \<Phi> l (sys_world t) \<Longrightarrow> Q x t" "\<And>e t. waiting K text \<Phi> l (sys_world t) \<Longrightarrow> E e t"
  shows "wpF m Q E s"
proof (rule quiet_wp [OF assms(1), where J = "waiting K text \<Phi> l"])
  show "waiting K text \<Phi> l w" if "grows calm v w" "waiting K text \<Phi> l v" for v w
    using that before_grows [OF that(1) _ K assms(3)] by (auto simp: waiting_def grows_text)
qed (use assms(2,5,6) in auto)

text \<open>The lease is held and \<open>live\<close> are the recorded processes, without the main process of Whisper if it has to be
  restored.\<close>

definition held :: "coord_state \<Rightarrow> int list \<Rightarrow> event set \<Rightarrow> bool" where
  "held st live E \<longleftrightarrow> lease_taken E
     \<and> (cs_restore st \<longrightarrow> (\<exists>p. whisper_pid p E \<and> live = filter (\<lambda>pid. pid \<noteq> p) (cs_pids st)))"

lemma held_mono: "held st live E \<Longrightarrow> E \<subseteq> F \<Longrightarrow> held st live F"
  unfolding held_def using lease_mono whisper_pid_mono by blast

lemma live_pids_wp:
  assumes w: "waiting starts text lease_taken l (sys_world s)"
    and Q: "\<And>live t. waiting starts text (held st live) l (sys_world t) \<Longrightarrow> Q live t"
    and E: "\<And>e t. waiting starts text lease_taken l (sys_world t) \<Longrightarrow> E e t"
  shows "wpF (live_pids env st) Q E s"
proof (cases "cs_restore st")
  case True
  have logged: "waiting starts text \<Psi> l (sys_world t)"
    if "sys_world t = log_event (Ran (systemctl_args STATUS_QUERY) r) (sys_world s)"
      "\<And>F. lease_taken F \<Longrightarrow> \<Psi> (insert (Ran (systemctl_args STATUS_QUERY) r) F)" for t r \<Psi>
    using w that before_event [of starts lease_taken l "sys_world s" "sys_world t" "Ran (systemctl_args STATUS_QUERY) r" \<Psi>]
    by (simp add: waiting_def log_event_def starts_def systemctl_args_def STATUS_QUERY_def)
  have "wpF (systemctl env STATUS_QUERY) (\<lambda>content. wpF (bindF (liftE (status_of content)) (\<lambda>(_, p).
      bindF (liftE (int_setting p)) (\<lambda>p. retF (filter (\<lambda>pid. pid \<noteq> p) (cs_pids st))))) Q E) E s"
    unfolding systemctl_def
  proof (rule capture_wp)
    fix n result content and t :: "llama_world sys"
    assume r: "cp_status result = 0" "cp_text result = Inr content"
      and t: "sys_world t = log_event (Ran (systemctl_args STATUS_QUERY) (Inr result)) (sys_world s)"
    have calm: "waiting starts text lease_taken l (sys_world t)"
      by (rule logged [OF t]) (auto intro: lease_mono)
    have "waiting starts text (held st (filter (\<lambda>pid. pid \<noteq> p) (cs_pids st))) l (sys_world t)"
      if "status_of (strip content) = Inr (a, i)" "int_setting i = Inr p" for a i p
    proof (rule logged [OF t])
      fix F assume F: "lease_taken F"
      have "whisper_pid p (insert (Ran (systemctl_args STATUS_QUERY) (Inr result)) F)"
        unfolding whisper_pid_def using r that by blast
      then show "held st (filter (\<lambda>pid. pid \<noteq> p) (cs_pids st)) (insert (Ran (systemctl_args STATUS_QUERY) (Inr result)) F)"
        using lease_mono [OF F] unfolding held_def by blast
    qed
    then show "wpF (bindF (liftE (status_of (strip content))) (\<lambda>(_, p).
      bindF (liftE (int_setting p)) (\<lambda>p. retF (filter (\<lambda>pid. pid \<noteq> p) (cs_pids st))))) Q E t"
      by (auto simp: wp intro: Q E calm split: sum.split)
  next
    fix r e and t :: "llama_world sys"
    assume t: "sys_world t = log_event (Ran (systemctl_args STATUS_QUERY) r) (sys_world s)"
    show "E e t" by (rule E, rule logged [OF t]) (auto intro: lease_mono)
  qed (use w E in auto)
  then show ?thesis using True
    by (simp add: live_pids_def whisper_status_def wpF_bind_eta case_prod_unfold)
next
  case False
  then have "waiting starts text (held st (cs_pids st)) l (sys_world s)"
    using w before_weaken [of starts lease_taken l "sys_world s" "held st (cs_pids st)"]
    by (simp add: waiting_def held_def)
  then show ?thesis using False by (simp add: live_pids_def wp Q)
qed

lemma restore_state_fair:
  assumes w: "waiting starts text lease_taken l (sys_world s)" and st: "load_state text = Inr st"
  shows "wpF (restore_state env st) (\<lambda>_ t. fair text l (sys_world t)) (\<lambda>_ t. fair text l (sys_world t)) s"
proof -
  let ?ok = "\<lambda>live E. held st live E \<and> gone live E"
  have mono: "?ok live E \<Longrightarrow> E \<subseteq> F \<Longrightarrow> ?ok live F" for live E F
    using held_mono gone_mono by blast
  have reset: "wpF (seqF (before_reset env st) (write_state empty_state)) (\<lambda>_ t. fair text l (sys_world t))
      (\<lambda>_ t. fair text l (sys_world t)) t"
    if "waiting starts text (?ok live) l (sys_world t)" for live t
    unfolding wpF_seq
  proof (rule wpF_mono [OF before_reset_fair])
    show "before starts (\<lambda>E. cs_restore st \<longrightarrow> exited_state text E) l (sys_world t)"
      using that st by (auto simp: waiting_def exited_state_def held_def intro: before_weaken)
  qed (auto intro: write_fair)
  have session: "wpF (bindF (session_active env st) (\<lambda>session. if \<not> session then retF ()
        else seqF (before_reset env st) (write_state empty_state))) (\<lambda>_ t. fair text l (sys_world t))
      (\<lambda>_ t. fair text l (sys_world t)) t"
    if "waiting starts text (?ok live) l (sys_world t)" for live t
    unfolding wpF_bind
    by (rule waiting_quiet [OF query_parts(2) that mono calm_not(1)])
      (auto simp: wpF_ret wpF_if intro: reset waiting_fair)
  have exited: "wpF (bindF (processes_exited env live) (\<lambda>gone. if \<not> gone then retF ()
      else bindF (session_active env st) (\<lambda>session. if \<not> session then retF ()
        else seqF (before_reset env st) (write_state empty_state)))) (\<lambda>_ t. fair text l (sys_world t))
      (\<lambda>_ t. fair text l (sys_world t)) t"
    if "waiting starts text (held st live) l (sys_world t)" for live t
    unfolding wpF_bind [of "processes_exited env live"]
  proof (rule exited_wp [where seen = "[]" and \<Phi> = "held st live" and l = l and tx = "text" and K = starts])
    show "before starts (\<lambda>E. held st live E \<and> gone [] E) l (sys_world t)" "lw_text (sys_world t) = text"
      using that by (auto simp: waiting_def gone_def)
    fix u :: "llama_world sys"
    assume "before starts (\<lambda>E. held st live E \<and> gone ([] @ live) E) l (sys_world u)" "lw_text (sys_world u) = text"
    then have "waiting starts text (?ok live) l (sys_world u)" by (simp add: waiting_def)
    from session [OF this] show "wpF (if \<not> True then retF ()
      else bindF (session_active env st) (\<lambda>session. if \<not> session then retF ()
        else seqF (before_reset env st) (write_state empty_state))) (\<lambda>_ t. fair text l (sys_world t))
      (\<lambda>_ t. fair text l (sys_world t)) u" by simp
  qed (auto simp: wp intro: held_mono fair_before)
  show ?thesis
  proof (cases "cs_pids st = [] \<and> \<not> cs_restore st")
    case True
    then show ?thesis using w by (simp add: restore_state_def wp waiting_fair)
  next
    case False
    have "wpF (live_pids env st) (\<lambda>live. wpF (bindF (processes_exited env live) (\<lambda>gone. if \<not> gone then retF ()
      else bindF (session_active env st) (\<lambda>session. if \<not> session then retF ()
        else seqF (before_reset env st) (write_state empty_state)))) (\<lambda>_ t. fair text l (sys_world t))
      (\<lambda>_ t. fair text l (sys_world t))) (\<lambda>_ t. fair text l (sys_world t)) s"
      by (rule live_pids_wp [OF w]) (blast intro: exited waiting_fair)+
    then show ?thesis unfolding restore_state_def if_not_P [OF False] wpF_bind [of "live_pids env st"] .
  qed
qed

lemma restore_once_fair:
  "wpF (restore_once env) (\<lambda>_ t. fair (lw_text (sys_world s)) (lw_log (sys_world s)) (sys_world t))
    (\<lambda>_ t. fair (lw_text (sys_world s)) (lw_log (sys_world s)) (sys_world t)) s"
proof -
  let ?text = "lw_text (sys_world s)" and ?l = "lw_log (sys_world s)"
  let ?Q = "\<lambda>t. fair ?text ?l (sys_world t)"
  have load: "wpF (bindF (look lw_text) (\<lambda>content. liftE (load_state content)))
        (\<lambda>st. wpF (restore_state env st) (\<lambda>_. ?Q) (\<lambda>_. ?Q)) (\<lambda>_. ?Q) u"
    if u: "waiting starts ?text lease_taken ?l (sys_world u)" for u
    using u by (auto simp: wp waiting_def split: sum.split intro: restore_state_fair fair_before)
  have read: "wpF (bindF (read_state env) (restore_state env)) (\<lambda>_. ?Q) (\<lambda>_. ?Q) t"
    if w: "waiting starts ?text lease_taken ?l (sys_world t)" for t
  proof -
    have "wpF (open_file env ''state.json'') (\<lambda>_. wpF (bindF (look lw_text) (\<lambda>content. liftE (load_state content)))
        (\<lambda>st. wpF (restore_state env st) (\<lambda>_. ?Q) (\<lambda>_. ?Q)) (\<lambda>_. ?Q)) (\<lambda>_. ?Q) t"
      by (rule waiting_quiet [OF calm.silent_open w lease_mono calm_not(1)]) (auto intro: load waiting_fair)
    then show ?thesis by (simp add: read_state_def wpF_bind wpF_seq)
  qed
  have lease: "wpF (bindF (try_lock env ''leases.lock'' LOCK_EX) (\<lambda>free. if \<not> free then retF ()
      else bindF (read_state env) (restore_state env))) (\<lambda>_. ?Q) (\<lambda>_. ?Q) t"
    if w: "waiting starts ?text (\<lambda>_. True) ?l (sys_world t)" for t
    unfolding try_lock_def wpF_bind [of "consult f g" for f g]
  proof (rule consult_wp)
    fix free and u :: "llama_world sys"
    assume u: "sys_world u = log_event (Flock ''leases.lock'' LOCK_EX free) (sys_world t)"
    have b: "before starts (\<lambda>E. free \<longrightarrow> lease_taken E) ?l (sys_world u)"
      by (rule before_event [OF _ u]) (use w in \<open>auto simp: waiting_def lease_taken_def starts_def\<close>)
    have "waiting starts ?text lease_taken ?l (sys_world u)" if free
      using before_weaken [OF b] that w u by (auto simp: waiting_def log_event_def)
    then show "wpF (if \<not> free then retF () else bindF (read_state env) (restore_state env)) (\<lambda>_. ?Q) (\<lambda>_. ?Q) u"
      using fair_before [OF b] by (auto simp: wpF_ret intro: read)
  next
    fix free e and u :: "llama_world sys"
    assume u: "sys_world u = log_event (Flock ''leases.lock'' LOCK_EX free) (sys_world t)"
    have "before starts (\<lambda>E. True) ?l (sys_world u)"
      by (rule before_event [OF _ u]) (use w in \<open>auto simp: waiting_def starts_def\<close>)
    then show "?Q u" by (rule fair_before)
  qed (use w in \<open>auto intro: waiting_fair\<close>)
  have true_mono: "\<And>E F :: event set. True \<Longrightarrow> E \<subseteq> F \<Longrightarrow> True" by simp
  have inner: "wpF (seqF (open_file env ''leases.lock'') (finallyF (bindF (try_lock env ''leases.lock'' LOCK_EX)
      (\<lambda>free. if \<not> free then retF () else bindF (read_state env) (restore_state env)))
      (close_lock ''leases.lock''))) (\<lambda>_. ?Q) (\<lambda>_. ?Q) t"
    if w: "waiting starts ?text (\<lambda>_. True) ?l (sys_world t)" for t
    unfolding wpF_seq
    by (rule waiting_quiet [OF calm.silent_open w true_mono calm_not(1)])
      (auto intro: wpF_closing [OF calm.silent_close] lease fair_grows waiting_fair)
  have start: "waiting starts ?text (\<lambda>_. True) ?l (sys_world s)"
    by (simp add: waiting_def before_start)
  have acquire: "wpF (seqF (acquire_lock env ''admission.lock'' LOCK_EX 180)
      (seqF (open_file env ''leases.lock'') (finallyF (bindF (try_lock env ''leases.lock'' LOCK_EX)
      (\<lambda>free. if \<not> free then retF () else bindF (read_state env) (restore_state env)))
      (close_lock ''leases.lock'')))) (\<lambda>_. ?Q) (\<lambda>_. ?Q) t"
    if w: "waiting starts ?text (\<lambda>_. True) ?l (sys_world t)" for t
    unfolding wpF_seq [of "acquire_lock env n m k" for n m k]
    by (rule waiting_quiet [OF calm.silent_acquire w true_mono calm_not(1)]) (auto intro: inner waiting_fair)
  show ?thesis
    unfolding restore_once_def admission_def wpF_seq [of "open_file env ''admission.lock''"]
    by (rule waiting_quiet [OF calm.silent_open start true_mono calm_not(1)])
      (auto intro: wpF_closing [OF calm.silent_close] acquire fair_grows waiting_fair)
qed

text \<open>C24 (Whisper is started only when Llama is gone): a restoration asks systemd to start Whisper only after it
  took the exclusive lease and found every process of the state file it had read gone, except the process that
  systemctl had reported, in this restoration, as the main process of Whisper, and only if that file asked for
  the restoration.\<close>

theorem started_after_exit:
  assumes "restore_once env s = (r, t)"
    and "lw_log (sys_world t) = es1 @ Ran (systemctl_args [''start'', WHISPER]) x # es2 @ lw_log (sys_world s)"
  shows "Flock ''leases.lock'' LOCK_EX True \<in> set es2
    \<and> (\<exists>st p. load_state (lw_text (sys_world s)) = Inr st \<and> cs_restore st \<and> whisper_pid p (set es2)
        \<and> (\<forall>pid \<in> set (cs_pids st). pid \<noteq> p \<longrightarrow> (\<exists>c. c \<noteq> PidAlive \<and> Checked pid (Inr c) \<in> set es2)))"
proof -
  have "fair (lw_text (sys_world s)) (lw_log (sys_world s)) (sys_world t)"
    using wpF_run [OF restore_once_fair assms(1)] by (cases r) simp_all
  then have "exited_state (lw_text (sys_world s)) (set es2)"
    unfolding fair_def by (rule justifiedD [OF _ assms(2)]) (simp add: starts_def)
  then show ?thesis by (force simp: exited_state_def lease_taken_def gone_def)
qed

end
