(* ===== verification/LlamaAdmission.thy ===== *)
theory LlamaAdmission
  imports LlamaRestore
begin

text \<open>
  What a Llama run has established when it executes the binary: the memory that it needs is free, and the
  state file lists its process, so that no restoration runs beside it.
\<close>

subsection \<open>Free memory\<close>

definition memory_fits :: "int \<Rightarrow> int \<Rightarrow> event set \<Rightarrow> bool" where
  "memory_fits ram vram es =
     ((\<exists>content available. MemRead (Inr content) \<in> es \<and> available_memory content = Inr available \<and> ram \<le> available)
      \<and> (vram \<noteq> 0 \<longrightarrow>
           (\<exists>result content rows. Ran (gpu_args ''--query-gpu=memory.free'') (Inr result) \<in> es
              \<and> cp_text result = Inr content \<and> csv_rows (strip content) = Inr rows \<and> rows \<noteq> []
              \<and> (\<forall>row \<in> set rows. \<exists>n. row_value (map strip row) = Inr n \<and> vram \<le> n * MIB))))"

lemma memory_fits_mono: "memory_fits ram vram E \<Longrightarrow> E \<subseteq> F \<Longrightarrow> memory_fits ram vram F"
  unfolding memory_fits_def by blast

lemma existsE_False: "existsE f xs = Inr False \<Longrightarrow> x \<in> set xs \<Longrightarrow> f x = Inr False"
proof (induction xs)
  case (Cons y ys)
  then show ?case by (cases "f y") (auto split: if_splits)
qed simp

lemma no_gpu_low:
  assumes "some_gpu_low rows vram = Inr False" "row \<in> set rows"
  shows "\<exists>n. row_value row = Inr n \<and> vram \<le> n * MIB"
  using existsE_False [OF assms(1) [unfolded some_gpu_low_def] assms(2)] by auto

abbreviation idle :: "(event set \<Rightarrow> bool) \<Rightarrow> event list \<Rightarrow> llama_world \<Rightarrow> bool" where
  "idle \<equiv> before executes"

lemma idle_any: "idle \<Phi> l w \<Longrightarrow> idle (\<lambda>_. True) l w"
  by (rule before_weaken) simp_all

lemma gpu_rows_wp:
  assumes i: "idle \<Phi> l (sys_world s)" "lw_text (sys_world s) = tx" and mono: "\<And>E F. \<Phi> E \<Longrightarrow> E \<subseteq> F \<Longrightarrow> \<Phi> F"
    and Q: "\<And>result content rows t. cp_text result = Inr content \<Longrightarrow> csv_rows (strip content) = Inr rows \<Longrightarrow>
      idle (\<lambda>E. \<Phi> E \<and> Ran (gpu_args query) (Inr result) \<in> E) l (sys_world t) \<Longrightarrow> lw_text (sys_world t) = tx \<Longrightarrow>
      Q (map (map strip) rows) t"
    and E: "\<And>e t. idle (\<lambda>_. True) l (sys_world t) \<Longrightarrow> E e t"
  shows "wpF (gpu_rows env query) Q E s"
  unfolding gpu_rows_def wpF_bind [of "capture env a" for a]
proof (rule capture_wp)
  fix n result content and t :: "llama_world sys"
  assume r: "cp_text result = Inr content"
    and t: "sys_world t = log_event (Ran (gpu_args query) (Inr result)) (sys_world s)"
  have "\<not> executes (Ran (gpu_args query) (Inr result))" by (simp add: executes_def)
  from before_event [OF i(1) t this, of "\<lambda>E. \<Phi> E \<and> Ran (gpu_args query) (Inr result) \<in> E"]
  have b: "idle (\<lambda>E. \<Phi> E \<and> Ran (gpu_args query) (Inr result) \<in> E) l (sys_world t)" using mono by blast
  have "lw_text (sys_world t) = tx" using t i(2) by (simp add: log_event_def)
  then show "wpF (bindF (liftE (csv_rows (strip content))) (\<lambda>rows. retF (map (map strip) rows))) Q E t"
    using Q [OF r _ b] E [OF idle_any [OF b]] by (simp add: wp split: sum.split)
next
  fix r e and t :: "llama_world sys"
  assume t: "sys_world t = log_event (Ran (gpu_args query) r) (sys_world s)"
  have "\<not> executes (Ran (gpu_args query) r)" by (simp add: executes_def)
  from before_event [OF i(1) t this] show "E e t" by (intro E) simp
next
  fix e and t :: "llama_world sys"
  assume "sys_world t = sys_world s"
  then show "E e t" using idle_any [OF i(1)] by (intro E) simp
qed

lemma constrained_wp:
  assumes i: "idle (\<lambda>_. True) l (sys_world s)" "lw_text (sys_world s) = tx"
    and F: "\<And>t. idle (memory_fits ram vram) l (sys_world t) \<Longrightarrow> lw_text (sys_world t) = tx \<Longrightarrow> Q False t"
    and T: "\<And>t. idle (\<lambda>_. True) l (sys_world t) \<Longrightarrow> lw_text (sys_world t) = tx \<Longrightarrow> Q True t"
    and E: "\<And>e t. idle (\<lambda>_. True) l (sys_world t) \<Longrightarrow> E e t"
  shows "wpF (constrained env ram vram) Q E s"
  unfolding constrained_def wpF_bind [of "consult f g" for f g]
proof (rule consult_wp)
  fix r and t :: "llama_world sys"
  assume t: "sys_world t = log_event (MemRead r) (sys_world s)"
  have b: "idle (\<lambda>E. MemRead r \<in> E) l (sys_world t)"
    by (rule before_event [OF i(1) t]) (simp_all add: executes_def)
  have tx: "lw_text (sys_world t) = tx" using t i(2) by (simp add: log_event_def)
  show "wpF (bindF (liftE r) (\<lambda>content. bindF (liftE (available_memory content)) (\<lambda>available.
     let low = available < ram in
     if vram = 0 then retF low
     else
       bindF (gpu_rows env ''--query-gpu=memory.free'') (\<lambda>rows.
       seqF (assertF (\<not> (rows = [] \<or> \<not> list_all plain_number rows)) ValueErr)
       (if low then retF True else liftE (some_gpu_low rows vram)))))) Q E t"
  proof (cases "\<exists>content a. r = Inr content \<and> available_memory content = Inr a")
    case False
    then show ?thesis using E [OF idle_any [OF b]] by (auto simp: wp split: sum.splits)
  next
    case True
    then obtain content a where ca: "r = Inr content" "available_memory content = Inr a" by blast
    let ?\<Phi> = "\<lambda>E. MemRead (Inr content) \<in> E"
    have b': "idle ?\<Phi> l (sys_world t)" using b ca by simp
    have gpu: "wpF (gpu_rows env ''--query-gpu=memory.free'') (\<lambda>rows.
       wpF (seqF (assertF (\<not> (rows = [] \<or> \<not> list_all plain_number rows)) ValueErr)
       (if a < ram then retF True else liftE (some_gpu_low rows vram))) Q E) E t" if "vram \<noteq> 0"
    proof (rule gpu_rows_wp [OF b' tx])
      fix result c rows and u :: "llama_world sys"
      assume u: "cp_text result = Inr c" "csv_rows (strip c) = Inr rows" "lw_text (sys_world u) = tx"
        "idle (\<lambda>E. MemRead (Inr content) \<in> E \<and> Ran (gpu_args ''--query-gpu=memory.free'') (Inr result) \<in> E) l (sys_world u)"
      let ?rows = "map (map strip) rows"
      show "wpF (seqF (assertF (\<not> (?rows = [] \<or> \<not> list_all plain_number ?rows)) ValueErr)
        (if a < ram then retF True else liftE (some_gpu_low ?rows vram))) Q E u"
      proof (cases "some_gpu_low ?rows vram")
        case (Inl x)
        then show ?thesis using u idle_any [OF u(4)] by (auto simp: wp intro: E T)
      next
        case (Inr low)
        have "idle (memory_fits ram vram) l (sys_world u)" if "\<not> low" "\<not> a < ram" "rows \<noteq> []"
        proof (rule before_weaken [OF u(4)])
          fix E assume E: "MemRead (Inr content) \<in> E \<and> Ran (gpu_args ''--query-gpu=memory.free'') (Inr result) \<in> E"
          have "\<exists>n. row_value (map strip row) = Inr n \<and> vram \<le> n * MIB" if "row \<in> set rows" for row
            using no_gpu_low [of ?rows vram "map strip row"] Inr \<open>\<not> low\<close> that by auto
          then show "memory_fits ram vram E"
            unfolding memory_fits_def using E u(1,2) ca \<open>\<not> a < ram\<close> \<open>rows \<noteq> []\<close> by (meson linorder_not_less)
        qed
        then show ?thesis using Inr u idle_any [OF u(4)] by (auto simp: wp intro: E T F) (metis (full_types) F T)+
      qed
    qed (auto intro: E)
    have "idle (memory_fits ram vram) l (sys_world t)" if "vram = 0" "\<not> a < ram"
      by (rule before_weaken [OF b']) (use that ca in \<open>auto simp: memory_fits_def linorder_not_less\<close>)
    then show ?thesis
      using ca gpu idle_any [OF b] tx F T
      by (cases "a < ram") (auto simp: wp wpF_bind_eta wpF_seq_eta Let_def)
  qed
next
  fix r e and t :: "llama_world sys"
  assume t: "sys_world t = log_event (MemRead r) (sys_world s)"
  have "\<not> executes (MemRead r)" by (simp add: executes_def)
  from before_event [OF i(1) t this] show "E e t" by (intro E) simp
qed (use i in \<open>auto intro: E\<close>)

subsection \<open>The process in the state file\<close>

definition listed :: "int \<Rightarrow> llama_world \<Rightarrow> bool" where
  "listed pid w = (\<exists>st. load_state (lw_text w) = Inr st \<and> pid \<in> set (cs_pids st))"

text \<open>Calls that execute no binary; those of a suspension are among them.\<close>

definition execless :: "event \<Rightarrow> bool" where
  "execless e = (\<not> executes e)"

interpretation execless: quiet execless
  by unfold_locales (simp add: execless_def)

lemma execless_program: "execless.silent (systemctl env args)"
  unfolding systemctl_def by (rule execless.silent_program) (simp add: execless_def executes_def)

lemma execless_stop: "execless.silent (stop_whisper env)"
  unfolding stop_whisper_def by (intro execless.rules execless_program execless.silent_status)

lemma execless_idle: "grows execless v w \<Longrightarrow> idle (\<lambda>_. True) l v \<Longrightarrow> idle (\<lambda>_. True) l w"
  by (fastforce simp: grows_def before_def execless_def list_all_set)

lemma idle_quiet:
  assumes "execless.silent m" "idle (\<lambda>_. True) l (sys_world s)"
    and "\<And>x t. idle (\<lambda>_. True) l (sys_world t) \<Longrightarrow> Q x t" "\<And>e t. idle (\<lambda>_. True) l (sys_world t) \<Longrightarrow> E e t"
  shows "wpF m Q E s"
  by (rule quiet_wp [OF assms(1), where J = "idle (\<lambda>_. True) l"]) (use assms in \<open>auto intro: execless_idle\<close>)

lemma write_idle:
  assumes "idle (\<lambda>_. True) l (sys_world s)"
    and "\<And>t. idle (\<lambda>_. True) l (sys_world t) \<Longrightarrow> lw_text (sys_world t) = text_of st \<Longrightarrow> Q () t"
    and "\<And>e t. idle (\<lambda>_. True) l (sys_world t) \<Longrightarrow> E e t"
  shows "wpF (write_state st) Q E s"
  using assms by (intro write_state_wp) (auto simp: before_def)

lemma stopped_idle:
  assumes "idle (\<lambda>_. True) l (sys_world t)"
    and Q: "\<And>u. idle (\<lambda>_. True) l (sys_world u) \<Longrightarrow> Q x u" and E: "\<And>e u. idle (\<lambda>_. True) l (sys_world u) \<Longrightarrow> E e u"
  shows "wpF (seqF log_line (seqF (stop_whisper env) (seqF (wait_gpu_release env pids cuda) (retF x)))) Q E t"
proof -
  have "execless.silent (seqF log_line (seqF (stop_whisper env) (wait_gpu_release env pids cuda)))"
    by (intro execless.rules execless.silent_log execless_stop execless.silent_release)
  then have "wpF (seqF log_line (seqF (stop_whisper env) (wait_gpu_release env pids cuda))) (\<lambda>_. Q x) E t"
    by (rule idle_quiet [OF _ assms(1) Q E])
  then show ?thesis by (simp add: wpF_seq_eta wpF_ret_eta)
qed

lemma suspend_idle:
  assumes i: "idle (\<lambda>_. True) l (sys_world s)" and st: "coord_ok st" "length (cs_pids st) \<le> 4095" "pid_text main_pid"
    and Q: "\<And>st' t. idle (\<lambda>_. True) l (sys_world t) \<Longrightarrow> coord_ok st' \<Longrightarrow> set (cs_pids st) \<subseteq> set (cs_pids st') \<Longrightarrow> Q st' t"
    and E: "\<And>e t. idle (\<lambda>_. True) l (sys_world t) \<Longrightarrow> E e t"
  shows "wpF (suspend_whisper env st main_pid vram) Q E s"
proof (cases "int_of_str main_pid")
  case None
  then show ?thesis using i E by (simp add: suspend_whisper_def int_setting_def wp)
next
  case (Some pid)
  let ?st = "st\<lparr>cs_pids := (if pid \<noteq> 0 \<and> pid \<notin> set (cs_pids st) then cs_pids st @ [pid] else cs_pids st),
                cs_restore := True\<rparr>"
  have ok: "coord_ok ?st" "set (cs_pids st) \<subseteq> set (cs_pids ?st)"
    using st Some by (auto simp: coord_ok_def pid_text_def)
  have "wpF (write_state ?st) (\<lambda>_. wpF (seqF log_line (seqF (stop_whisper env)
        (seqF (wait_gpu_release env (if pid \<noteq> 0 then [pid] else []) (vram \<noteq> 0)) (retF ?st)))) Q E) E s"
    by (rule write_idle [OF i]) (rule stopped_idle Q [OF _ ok] E, assumption)+
  then show ?thesis
    unfolding suspend_whisper_def Let_def wpF_bind wpF_lift int_setting_def Some option.case sum.case wpF_seq .
qed

text \<open>The end of an admission: the memory is free and the process is listed.\<close>

definition cleared :: "int \<Rightarrow> int \<Rightarrow> int \<Rightarrow> event list \<Rightarrow> llama_world \<Rightarrow> bool" where
  "cleared pid ram vram l w = (idle (memory_fits ram vram) l w \<and> listed pid w)"

lemma cleared_grows: "grows calm v w \<Longrightarrow> cleared pid ram vram l v \<Longrightarrow> cleared pid ram vram l w"
  using before_grows [of v w executes "memory_fits ram vram" l] memory_fits_mono
  by (auto simp: cleared_def listed_def grows_text)

lemma commit_cleared:
  assumes i: "idle (\<lambda>_. True) l (sys_world s)" and st: "coord_ok st" "pid \<in> set (cs_pids st)"
  shows "wpF (commit_run env ram vram st) (\<lambda>_ t. cleared pid ram vram l (sys_world t))
    (\<lambda>_ t. idle (\<lambda>_. True) l (sys_world t)) s"
  unfolding commit_run_def wpF_seq [of "write_state st"]
proof (rule write_idle [OF i])
  fix t :: "llama_world sys"
  assume t: "idle (\<lambda>_. True) l (sys_world t)" "lw_text (sys_world t) = text_of st"
  show "wpF (bindF (constrained env ram vram) (\<lambda>low. seqF (assertF (\<not> low) ValueErr) skip_op))
      (\<lambda>_ t. cleared pid ram vram l (sys_world t)) (\<lambda>_ t. idle (\<lambda>_. True) l (sys_world t)) t"
    unfolding wpF_bind
  proof (rule constrained_wp [OF t])
    fix u :: "llama_world sys"
    assume u: "idle (memory_fits ram vram) l (sys_world u)" "lw_text (sys_world u) = text_of st"
    then have "cleared pid ram vram l (sys_world u)"
      using st by (auto simp: cleared_def listed_def load_text_of)
    then show "wpF (seqF (assertF (\<not> False) ValueErr) skip_op) (\<lambda>_ t. cleared pid ram vram l (sys_world t))
        (\<lambda>_ t. idle (\<lambda>_. True) l (sys_world t)) u"
      by (auto simp: wp intro!: wpF_skipI idle_any [OF u(1)])
  qed (auto simp: wp)
qed

lemma suspended_cleared:
  assumes i: "idle (\<lambda>_. True) l (sys_world s)" and st: "coord_ok st" "length (cs_pids st) \<le> 4095" "pid \<in> set (cs_pids st)"
    and p: "pid_text main_pid"
  shows "wpF (bindF (if suspend then suspend_whisper env st main_pid vram else retF st) (commit_run env ram vram))
    (\<lambda>_ t. cleared pid ram vram l (sys_world t)) (\<lambda>_ t. idle (\<lambda>_. True) l (sys_world t)) s"
proof (cases suspend)
  case True
  have "wpF (suspend_whisper env st main_pid vram) (\<lambda>st'. wpF (commit_run env ram vram st')
      (\<lambda>_ t. cleared pid ram vram l (sys_world t)) (\<lambda>_ t. idle (\<lambda>_. True) l (sys_world t)))
      (\<lambda>_ t. idle (\<lambda>_. True) l (sys_world t)) s"
    by (rule suspend_idle [OF i st(1,2) p]) (use st(3) in \<open>auto intro: commit_cleared\<close>)
  then show ?thesis using True by (simp add: wpF_bind)
next
  case False
  then show ?thesis using commit_cleared [OF i st(1,3)] by (simp add: wp)
qed

lemma admit_cleared:
  assumes d: "documented_llama env" and i: "idle (\<lambda>_. True) l (sys_world s)" and ok: "coord_ok st0"
  shows "wpF (admit_process env ram vram st0) (\<lambda>_ t. cleared (le_pid env) ram vram l (sys_world t))
    (\<lambda>_ t. idle (\<lambda>_. True) l (sys_world t)) s"
proof -
  let ?st = "with_process st0 (le_pid env) vram"
  let ?Q = "\<lambda>_ t. cleared (le_pid env) ram vram l (sys_world t)" and ?E = "\<lambda>_ t. idle (\<lambda>_. True) l (sys_world t)"
  have pid: "le_pid env \<in> set (cs_pids ?st)" by (simp add: with_process_def)
  have "wpF (whisper_status env) (\<lambda>(active_state, main_pid). wpF
        (bindF (must_suspend env active_state ?st ram vram) (\<lambda>suspend.
         bindF (if suspend then suspend_whisper env ?st main_pid vram else retF ?st) (commit_run env ram vram)))
        ?Q ?E) ?E s"
    if len: "length (cs_pids ?st) \<le> 4095"
  proof (rule status_wp [OF d], unfold prod.case)
    fix a p e and t :: "llama_world sys"
    assume t: "sys_world t = log_event e (sys_world s)" "calm e" "pid_text p"
    have "idle (\<lambda>_. True) l (sys_world t)" by (rule before_event [OF i t(1)]) (use t(2) in simp_all)
    then show "wpF (bindF (must_suspend env a ?st ram vram) (\<lambda>suspend.
         bindF (if suspend then suspend_whisper env ?st p vram else retF ?st) (commit_run env ram vram))) ?Q ?E t"
      unfolding wpF_bind [of "must_suspend env a ?st ram vram"]
    proof (rule idle_quiet [rotated])
      show "execless.silent (must_suspend env a ?st ram vram)"
        unfolding must_suspend_def by (intro execless.rules execless.silent_constrained)
      fix suspend and u :: "llama_world sys"
      assume "idle (\<lambda>_. True) l (sys_world u)"
      then show "wpF (bindF (if suspend then suspend_whisper env ?st p vram else retF ?st) (commit_run env ram vram)) ?Q ?E u"
        by (rule suspended_cleared [OF _ with_process_ok [OF d ok len] len pid t(3)])
    qed
  next
    fix e x and t :: "llama_world sys"
    assume t: "sys_world t = log_event e (sys_world s)" "calm e"
    show "?E x t" by (rule before_event [OF i t(1)]) (use t(2) in simp_all)
  qed (use i in auto)
  then show ?thesis
    using i unfolding admit_process_def Let_def wpF_seq wpF_assert wpF_bind
    by (auto simp: case_prod_unfold wpF_bind_eta)
qed

subsection \<open>The run\<close>

abbreviation cleared_run :: "int \<Rightarrow> int \<Rightarrow> int \<Rightarrow> event list \<Rightarrow> 'a llama_io \<Rightarrow> llama_world sys \<Rightarrow> bool" where
  "cleared_run pid ram vram l m \<equiv>
     wpF m (\<lambda>_ t. cleared pid ram vram l (sys_world t)) (\<lambda>_ t. idle (\<lambda>_. True) l (sys_world t))"

lemma idle_then:
  assumes "execless.silent m" "idle (\<lambda>_. True) l (sys_world s)"
    and "\<And>t. idle (\<lambda>_. True) l (sys_world t) \<Longrightarrow> cleared_run pid ram vram l n t"
  shows "cleared_run pid ram vram l (seqF m n) s"
  unfolding wpF_seq by (rule idle_quiet [OF assms(1,2)]) (simp_all add: assms(3))

lemma read_idle:
  assumes "idle (\<lambda>_. True) l (sys_world s)"
    and "\<And>st t. idle (\<lambda>_. True) l (sys_world t) \<Longrightarrow> coord_ok st \<Longrightarrow> Q st t" "\<And>e t. idle (\<lambda>_. True) l (sys_world t) \<Longrightarrow> E e t"
  shows "wpF (read_state env) Q E s"
  unfolding read_state_def wpF_seq
  by (rule idle_quiet [OF execless.silent_open assms(1)])
    (auto simp: wp split: sum.split intro: assms(2,3) loaded_ok)

lemma admitted_cleared:
  assumes "documented_llama env" and "idle (\<lambda>_. True) l (sys_world s)"
  shows "cleared_run (le_pid env) ram vram l (admitted_run env ram vram) s"
  unfolding admitted_run_def
proof (intro idle_then [OF execless.silent_acquire assms(2)] idle_then [OF execless_program])
  fix t :: "llama_world sys"
  assume "idle (\<lambda>_. True) l (sys_world t)"
  then show "cleared_run (le_pid env) ram vram l (bindF (read_state env) (admit_process env ram vram)) t"
    unfolding wpF_bind by (rule read_idle) (simp_all add: admit_cleared [OF assms(1)])
qed

lemma cleared_idle: "cleared pid ram vram l w \<Longrightarrow> idle (\<lambda>_. True) l w"
  by (auto simp: cleared_def intro: idle_any)

lemma closing_cleared:
  assumes "cleared_run pid ram vram l m s"
  shows "cleared_run pid ram vram l (finallyF m (close_lock name)) s"
  unfolding wpF_finally
proof (rule wpF_mono [OF assms])
  fix t :: "llama_world sys"
  assume "cleared pid ram vram l (sys_world t)"
  then show "wpF (close_lock name) (\<lambda>_ t. cleared pid ram vram l (sys_world t)) (\<lambda>_ t. idle (\<lambda>_. True) l (sys_world t)) t"
    by (intro quiet_wp [OF calm.silent_close, where J = "cleared pid ram vram l"]) (auto intro: cleared_grows cleared_idle)
next
  fix e and t :: "llama_world sys"
  assume "idle (\<lambda>_. True) l (sys_world t)"
  then show "if e = Killed then idle (\<lambda>_. True) l (sys_world t)
      else wpF (close_lock name) (\<lambda>_ t. idle (\<lambda>_. True) l (sys_world t)) (\<lambda>_ t. idle (\<lambda>_. True) l (sys_world t)) t"
    by (auto intro: idle_quiet [OF execless.silent_close])
qed

lemma admission_cleared:
  assumes "documented_llama env" and "idle (\<lambda>_. True) l (sys_world s)"
  shows "cleared_run (le_pid env) ram vram l (admission env (admitted_run env ram vram)) s"
  unfolding admission_def
proof (rule idle_then [OF execless.silent_open assms(2)])
  fix t :: "llama_world sys"
  assume "idle (\<lambda>_. True) l (sys_world t)"
  then show "cleared_run (le_pid env) ram vram l (finallyF
      (seqF (acquire_lock env ''admission.lock'' LOCK_EX 180) (admitted_run env ram vram))
      (close_lock ''admission.lock'')) t"
    by (intro closing_cleared idle_then [OF execless.silent_acquire] admitted_cleared [OF assms(1)])
qed

text \<open>Each execution in the log of a run came after the checks.\<close>

definition lawful :: "llama_env \<Rightarrow> int \<Rightarrow> int \<Rightarrow> event list \<Rightarrow> llama_world \<Rightarrow> bool" where
  "lawful env ram vram l w =
     (justified executes (memory_fits ram vram) l w
      \<and> (idle (\<lambda>_. True) l w \<or> listed (le_pid env) w))"

lemma idle_lawful: "idle (\<lambda>_. True) l w \<Longrightarrow> lawful env ram vram l w"
  by (simp add: lawful_def before_justified)

lemma lawful_grows:
  assumes g: "grows calm v w" and "lawful env ram vram l v"
  shows "lawful env ram vram l w"
proof -
  have "idle (\<lambda>_. True) l v \<Longrightarrow> idle (\<lambda>_. True) l w"
    by (rule before_grows [OF g]) simp_all
  moreover have "lw_text w = lw_text v" using g by (rule grows_text)
  ultimately show ?thesis
    using assms(2) justified_grows [OF g] by (auto simp: lawful_def listed_def)
qed

lemma exec_lawful:
  assumes "cleared (le_pid env) ram vram l (sys_world s)"
  shows "wpF (execv b args) (\<lambda>_ t. lawful env ram vram l (sys_world t)) (\<lambda>_ t. lawful env ram vram l (sys_world t)) s"
proof -
  have before: "lawful env ram vram l (sys_world s)"
    using assms by (intro idle_lawful cleared_idle)
  have i: "idle (memory_fits ram vram) l (sys_world s)" "listed (le_pid env) (sys_world s)"
    using assms by (simp_all add: cleared_def)
  have after: "lawful env ram vram l (log_event (Exec b args) (sys_world s))"
    using justified_event [OF i(1) refl] i(2) by (simp add: lawful_def listed_def log_event_def)
  show ?thesis
    unfolding execv_def wpF_seq by (intro wpF_opI) (simp_all add: wp before after)
qed

lemma budget_run_lawful:
  assumes d: "documented_llama env" and i: "idle (\<lambda>_. True) l (sys_world s)"
  shows "wpF (seqF (open_file env ''leases.lock'')
        (finallyF (seqF (admission env (admitted_run env ram vram)) (execv b args)) (close_lock ''leases.lock'')))
      (\<lambda>_ t. lawful env ram vram l (sys_world t)) (\<lambda>_ t. lawful env ram vram l (sys_world t)) s"
  unfolding wpF_seq [of "open_file env n" for n]
proof (rule idle_quiet [OF execless.silent_open i])
  fix t :: "llama_world sys"
  assume "idle (\<lambda>_. True) l (sys_world t)"
  then have "cleared_run (le_pid env) ram vram l (admission env (admitted_run env ram vram)) t"
    by (rule admission_cleared [OF d])
  then have "wpF (seqF (admission env (admitted_run env ram vram)) (execv b args))
      (\<lambda>_ t. lawful env ram vram l (sys_world t)) (\<lambda>_ t. lawful env ram vram l (sys_world t)) t"
    unfolding wpF_seq by (rule wpF_mono) (simp_all add: exec_lawful idle_lawful)
  then show "wpF (finallyF (seqF (admission env (admitted_run env ram vram)) (execv b args)) (close_lock ''leases.lock''))
      (\<lambda>_ t. lawful env ram vram l (sys_world t)) (\<lambda>_ t. lawful env ram vram l (sys_world t)) t"
    by (rule wpF_closing [OF calm.silent_close]) (rule lawful_grows)
qed (rule idle_lawful)

lemma idle_start: "idle (\<lambda>_. True) (lw_log w) w"
  by (rule before_start) simp

definition budgeted :: "llama_env \<Rightarrow> string list \<Rightarrow> event list \<Rightarrow> llama_world \<Rightarrow> bool" where
  "budgeted env args l w =
     (idle (\<lambda>_. True) l w \<or>
      (\<exists>ram vram. memory_budget (le_models env) (le_environ env) args = Inr (ram, vram)
         \<and> justified executes (memory_fits ram vram) l w \<and> listed (le_pid env) w))"

lemma run_budgeted:
  assumes d: "documented_llama env" and "\<not> diagnostic_run args"
  shows "wpF (run_llama env b args) (\<lambda>_ t. budgeted env args (lw_log (sys_world s)) (sys_world t))
      (\<lambda>_ t. budgeted env args (lw_log (sys_world s)) (sys_world t)) s"
proof (cases "memory_budget (le_models env) (le_environ env) args")
  case (Inl e)
  then show ?thesis using assms(2) idle_start by (simp add: run_llama_def wp budgeted_def)
next
  case (Inr rv)
  obtain ram vram where rv: "rv = (ram, vram)" by (cases rv)
  have lawful: "lawful env ram vram l w \<Longrightarrow> budgeted env args l w" for l w
    using Inr rv by (auto simp: lawful_def budgeted_def)
  have "wpF (seqF (open_file env ''leases.lock'')
        (finallyF (seqF (admission env (admitted_run env ram vram)) (execv b (b # args) :: unit llama_io)) (close_lock ''leases.lock'')))
      (\<lambda>_ t. budgeted env args (lw_log (sys_world s)) (sys_world t))
      (\<lambda>_ t. budgeted env args (lw_log (sys_world s)) (sys_world t)) s"
    by (rule wpF_mono [OF budget_run_lawful [OF d idle_start]]) (erule lawful)+
  moreover have "budgeted env args (lw_log (sys_world s)) (sys_world s)"
    using idle_start by (simp add: budgeted_def)
  ultimately show ?thesis
    using assms(2) Inr rv
    by (simp add: run_llama_def wpF_seq [of "assertF c e" for c e] wpF_assert wpF_bind [of "liftE r" for r] wpF_lift)
qed

text \<open>C23 (no model is loaded without memory for it): when a run executes the binary on a model, it computed the
  budget of the command line, read before that at least that much memory was available, on each GPU as well
  if the model uses one, and left its process in \<open>state.json\<close>, where a restoration finds it.\<close>

theorem exec_registered:
  assumes "documented_llama env" and "\<not> diagnostic_run args"
    and "run_llama env binary args s = (r, t)"
    and "lw_log (sys_world t) = es1 @ Exec b a # es2 @ lw_log (sys_world s)"
  shows "\<exists>ram vram st. memory_budget (le_models env) (le_environ env) args = Inr (ram, vram)
    \<and> memory_fits ram vram (set es2)
    \<and> load_state (lw_text (sys_world t)) = Inr st \<and> le_pid env \<in> set (cs_pids st)"
proof -
  have "budgeted env args (lw_log (sys_world s)) (sys_world t)"
    using wpF_run [OF run_budgeted [OF assms(1,2)] assms(3)] by (cases r) simp_all
  moreover have "\<not> idle (\<lambda>_. True) (lw_log (sys_world s)) (sys_world t)"
    using assms(4) by (auto simp: before_def executes_def)
  ultimately obtain ram vram where
    m: "memory_budget (le_models env) (le_environ env) args = Inr (ram, vram)"
    and j: "justified executes (memory_fits ram vram) (lw_log (sys_world s)) (sys_world t)"
    and l: "listed (le_pid env) (sys_world t)"
    unfolding budgeted_def by blast
  have "memory_fits ram vram (set es2)"
    by (rule justifiedD [OF j assms(4)]) (simp add: executes_def)
  then show ?thesis using m l unfolding listed_def by blast
qed

end
