(* ===== verification/LlamaWaits.thy ===== *)
theory LlamaWaits
  imports LlamaAdmission
begin

text \<open>
  The loops that wait, for the GPU to be released and for a lock, end: the clock does not go back, each turn
  sleeps, and the numbers of turns of the model are enough to reach the deadline. The bounds of a budget.
\<close>

subsection \<open>Time\<close>

definition now_at :: "llama_env \<Rightarrow> llama_world sys \<Rightarrow> int" where
  "now_at env s = le_clock env (sys_step s) + lw_slept (sys_world s)"

definition passes :: "llama_world sys \<Rightarrow> llama_world sys \<Rightarrow> bool" where
  "passes s t = (sys_step s \<le> sys_step t \<and> lw_slept (sys_world s) \<le> lw_slept (sys_world t))"

lemma passes_clock: "mono (le_clock env) \<Longrightarrow> passes s t \<Longrightarrow> now_at env s \<le> now_at env t"
  unfolding now_at_def passes_def by (intro add_mono) (auto dest: monoD)

definition onward :: "'a llama_io \<Rightarrow> bool" where
  "onward m = (\<forall>s. passes s (snd (m s)))"

lemma onwardD: "onward m \<Longrightarrow> m s = (r, t) \<Longrightarrow> passes s t"
  unfolding onward_def by (metis snd_conv)

lemma onward_pure: "(\<And>s. snd (m s) = s) \<Longrightarrow> onward m"
  by (simp add: onward_def passes_def)

lemma onward_parts:
  "onward (retF x)" "onward (raiseF e)" "onward (liftE r)" "onward (assertF b e)" "onward (getF f)"
  by (rule onward_pure, simp add: retF_def raiseF_def liftE_def assertF_def getF_def)+

lemma onward_op: "(\<And>w. lw_slept w \<le> lw_slept (f w)) \<Longrightarrow> onward (op f)"
  by (simp add: onward_def passes_def op_def split: fault.split)

lemma onward_bind:
  assumes "onward m" "\<And>x. onward (f x)"
  shows "onward (bindF m f)"
  unfolding onward_def
proof
  fix s
  obtain r t where m: "m s = (r, t)" by fastforce
  then have st: "passes s t" using assms(1) by (simp add: onwardD)
  show "passes s (snd (bindF m f s))"
  proof (cases r)
    case (Inr x)
    obtain r' u where "f x t = (r', u)" by fastforce
    moreover from this have "passes t u" by (rule onwardD [OF assms(2)])
    ultimately show ?thesis using m Inr st by (auto simp: bindF_def passes_def)
  qed (use m st in \<open>simp add: bindF_def\<close>)
qed

lemma onward_seq: "onward m \<Longrightarrow> onward n \<Longrightarrow> onward (seqF m n)"
  unfolding seqF_def by (rule onward_bind)

lemma onward_if: "onward m \<Longrightarrow> onward n \<Longrightarrow> onward (if b then m else n)"
  by simp

lemmas onward_rules = onward_parts onward_bind onward_seq onward_if onward_op

lemma onward_consult: "onward (consult f ev)"
  unfolding consult_def by (intro onward_rules) (simp add: log_event_def)

lemma onward_gpu: "onward (gpu_pids env)"
  unfolding gpu_pids_def gpu_rows_def capture_def by (intro onward_rules onward_consult)

lemma sleep_passes: "sleep us s = (Inr x, t) \<Longrightarrow> passes s t \<or> us < 0"
  by (auto simp: sleep_def op_def passes_def upd_def tick_def split: fault.splits)

lemma slept_now:
  assumes "mono (le_clock env)" "sleep us s = (Inr x, t)"
  shows "now_at env s + us \<le> now_at env t"
proof -
  have "sys_step s \<le> sys_step t" "lw_slept (sys_world t) = lw_slept (sys_world s) + us"
    using assms(2) by (auto simp: sleep_def op_def split: fault.splits)
  then show ?thesis using monoD [OF assms(1)] by (simp add: now_at_def)
qed

subsection \<open>The GPU\<close>

lemma gpu_wait_turn:
  "gpu_wait (Suc n) env pids deadline clear s =
     (if \<not> now_at env s < deadline then (Inl ValueErr, s)
      else case gpu_pids env s of
        (Inl e, t) \<Rightarrow> (Inl e, t)
      | (Inr busy, t) \<Rightarrow>
          let clear' = (if set busy \<inter> set pids = {} then clear + 1 else 0) in
          if clear' = 2 then (Inr True, t)
          else case sleep 250000 t of (Inl e, u) \<Rightarrow> (Inl e, u) | (Inr x, u) \<Rightarrow> gpu_wait n env pids deadline clear' u)"
  by (simp add: bindF_def seqF_def monotonic_now_def getF_def raiseF_def retF_def now_at_def Let_def
      split: prod.split sum.split)

lemma gpu_wait_enough:
  assumes "mono (le_clock env)" "deadline \<le> now_at env s + 250000 * int k"
  shows "gpu_wait (Suc k + m) env pids deadline clear s = gpu_wait (Suc k) env pids deadline clear s
     \<and> fst (gpu_wait (Suc k) env pids deadline clear s) \<noteq> Inr False"
  using assms(2)
proof (induction k arbitrary: s clear)
  case 0
  then show ?case unfolding add_Suc gpu_wait_turn by simp
next
  case (Suc k)
  obtain r t where gpu: "gpu_pids env s = (r, t)" by fastforce
  then have st: "now_at env s \<le> now_at env t"
    using onwardD [OF onward_gpu] passes_clock [OF assms(1)] by blast
  obtain r' u where sleep: "sleep 250000 t = (r', u)" by fastforce
  have IH: "gpu_wait (Suc k + m) env pids deadline c u = gpu_wait (Suc k) env pids deadline c u
     \<and> fst (gpu_wait (Suc k) env pids deadline c u) \<noteq> Inr False" if "r' = Inr x" for c x
    using slept_now [OF assms(1), of 250000 t x u] sleep that st Suc.prems by (intro Suc.IH) (auto simp: algebra_simps)
  show ?case
    unfolding add_Suc [of "Suc k"] gpu_wait_turn [of "Suc k + m"] gpu_wait_turn [of "Suc k"] gpu
    using IH sleep by (cases r; cases r') (auto simp: Let_def)
qed

subsection \<open>A lock\<close>

lemma lock_wait_turn:
  "lock_wait (Suc n) env name mode deadline s =
     (case try_lock env name mode s of
        (Inl e, t) \<Rightarrow> (Inl e, t)
      | (Inr free, t) \<Rightarrow>
          if free then (Inr (), t)
          else if now_at env t \<ge> deadline then (Inl ValueErr, t)
          else case sleep 100000 t of (Inl e, u) \<Rightarrow> (Inl e, u) | (Inr x, u) \<Rightarrow> lock_wait n env name mode deadline u)"
  by (simp add: bindF_def seqF_def monotonic_now_def getF_def raiseF_def retF_def now_at_def
      split: prod.split sum.split)

lemma lock_wait_enough:
  assumes "mono (le_clock env)" "deadline \<le> now_at env s + 100000 * int k"
  shows "lock_wait (Suc k + m) env name mode deadline s = lock_wait (Suc k) env name mode deadline s"
  using assms(2)
proof (induction k arbitrary: s)
  case 0
  obtain r t where lk: "try_lock env name mode s = (r, t)" by fastforce
  then have "now_at env s \<le> now_at env t"
    using onwardD [OF onward_consult] passes_clock [OF assms(1)] unfolding try_lock_def by blast
  with 0 lk show ?case unfolding add_Suc lock_wait_turn by (cases r) auto
next
  case (Suc k)
  obtain r t where lk: "try_lock env name mode s = (r, t)" by fastforce
  then have st: "now_at env s \<le> now_at env t"
    using onwardD [OF onward_consult] passes_clock [OF assms(1)] unfolding try_lock_def by blast
  obtain r' u where sleep: "sleep 100000 t = (r', u)" by fastforce
  have IH: "lock_wait (Suc k + m) env name mode deadline u = lock_wait (Suc k) env name mode deadline u"
    if "r' = Inr x" for x
    using slept_now [OF assms(1), of 100000 t x u] sleep that st Suc.prems by (intro Suc.IH) (auto simp: algebra_simps)
  show ?case
    unfolding add_Suc [of "Suc k"] lock_wait_turn [of "Suc k + m"] lock_wait_turn [of "Suc k"] lk
    using IH sleep by (cases r; cases r') auto
qed

text \<open>C39 (the waits end): with a clock that does not go back, more than \<open>GPU_TURNS\<close> turns of the wait of 20
  seconds for the GPU change nothing, and it never runs out of turns; the same of the turns of
  \<open>acquire_lock\<close>, whatever the number of seconds is that it may wait for a lock.\<close>

theorem waits_end:
  assumes "mono (le_clock env)"
  shows "gpu_wait (GPU_TURNS + m) env pids (now_at env s + 20000000) 0 s
       = gpu_wait GPU_TURNS env pids (now_at env s + 20000000) 0 s
     \<and> fst (gpu_wait GPU_TURNS env pids (now_at env s + 20000000) 0 s) \<noteq> Inr False
     \<and> lock_wait (10 * seconds + 2 + m) env name mode (now_at env s + int seconds * 1000000) s
       = lock_wait (10 * seconds + 2) env name mode (now_at env s + int seconds * 1000000) s"
  using gpu_wait_enough [OF assms, of "now_at env s + 20000000" s 80 m pids 0]
    lock_wait_enough [OF assms, of "now_at env s + int seconds * 1000000" s "10 * seconds + 1" m name mode]
  by (simp add: GPU_TURNS_def)

subsection \<open>The budget\<close>

lemma model_number_range: "model_number model suffix0 dflt = Inr i \<Longrightarrow> 1 \<le> i \<and> i \<le> 1048576"
  by (auto simp: model_number_def Let_def split: gvalue.splits if_splits)

lemma share_bounds:
  fixes a b l :: int
  assumes "0 \<le> a" "0 < b" "0 \<le> l"
  shows "0 \<le> a * min l b div b" "a * min l b div b \<le> a"
proof -
  show "0 \<le> a * min l b div b" using assms by (intro pos_imp_zdiv_nonneg_iff [THEN iffD2] mult_nonneg_nonneg) simp_all
  have "a * min l b div b \<le> a * b div b" using assms by (intro zdiv_mono1 mult_left_mono) auto
  then show "a * min l b div b \<le> a" using assms by simp
qed

lemma cache_bounds:
  fixes key val heads blocks ctx :: int
  assumes "1 \<le> key \<and> key \<le> 1048576" "1 \<le> val \<and> val \<le> 1048576" "1 \<le> heads \<and> heads \<le> 1048576"
    "1 \<le> blocks \<and> blocks \<le> 1048576" "1 \<le> ctx \<and> ctx \<le> 1048576"
  shows "0 < 2 * (key + val) * heads * blocks * ctx"
    "2 * (key + val) * heads * blocks * ctx \<le> 2 ^ 82"
proof -
  show "0 < 2 * (key + val) * heads * blocks * ctx" using assms by simp
  have "2 * (key + val) * heads * blocks * ctx \<le> 4194304 * 1048576 * 1048576 * 1048576"
    using assms by (intro mult_mono) auto
  then show "2 * (key + val) * heads * blocks * ctx \<le> 2 ^ 82" by simp
qed

lemma estimate_bounds:
  assumes "memory_estimate model s = Inr (ram, vram)" and "0 \<le> gi_size_bytes model"
  shows "gi_size_bytes model + 1024 * MIB < ram \<and> ram \<le> gi_size_bytes model + 1024 * MIB + 2 ^ 82
    \<and> vram \<le> ram - 768 * MIB \<and> (vram = 0 \<or> 256 * MIB \<le> vram) \<and> (snd s \<longrightarrow> vram = 0)"
proof -
  from assms(1) obtain blocks embedding heads kv_heads key val ctx layers where
    n: "model_number model ''block_count'' 1 = Inr blocks" "model_number model ''attention.head_count_kv'' heads = Inr kv_heads"
      "model_number model ''attention.key_length'' (max 1 (embedding div heads)) = Inr key"
      "model_number model ''attention.value_length'' key = Inr val"
    and f: "(if \<not> (1 \<le> ctx \<and> ctx \<le> 1048576) \<or> \<not> (0 \<le> layers \<and> layers \<le> 1048576) then Inl ValueErr
       else Inr (gi_size_bytes model + 2 * (key + val) * kv_heads * blocks * ctx + 1024 * MIB,
          if layers \<noteq> 0 \<and> \<not> snd s
          then gi_size_bytes model * min layers blocks div blocks + 256 * MIB
            + (if setting ''LLAMA_ARG_KV_OFFLOAD'' s \<noteq> ''0''
               then 2 * (key + val) * kv_heads * blocks * ctx * min layers blocks div blocks else 0) else 0))
       = Inr (ram, vram)"
    by (simp only: memory_estimate_def Let_def bindE_Inr_iff) blast
  then have c: "1 \<le> ctx \<and> ctx \<le> 1048576" "0 \<le> layers"
    and r: "ram = gi_size_bytes model + 2 * (key + val) * kv_heads * blocks * ctx + 1024 * MIB"
      "vram = (if layers \<noteq> 0 \<and> \<not> snd s
              then gi_size_bytes model * min layers blocks div blocks + 256 * MIB
                + (if setting ''LLAMA_ARG_KV_OFFLOAD'' s \<noteq> ''0''
                   then 2 * (key + val) * kv_heads * blocks * ctx * min layers blocks div blocks else 0) else 0)"
    by (cases "(1 \<le> ctx \<and> ctx \<le> 1048576) \<and> 0 \<le> layers \<and> layers \<le> 1048576", simp_all only: simp_thms if_True if_False
        de_Morgan_conj sum.inject prod.inject sum.distinct)+
  define kv where kv_eq: "kv = 2 * (key + val) * kv_heads * blocks * ctx"
  note ranges = n [THEN model_number_range]
  have kv: "0 < kv" "kv \<le> 2 ^ 82" unfolding kv_eq using cache_bounds [of key val kv_heads blocks ctx] ranges c by simp_all
  have "0 \<le> gi_size_bytes model * min layers blocks div blocks" "gi_size_bytes model * min layers blocks div blocks \<le> gi_size_bytes model"
      "0 \<le> kv * min layers blocks div blocks" "kv * min layers blocks div blocks \<le> kv"
    using share_bounds [of "gi_size_bytes model" blocks layers] share_bounds [of kv blocks layers] assms(2) kv ranges c by auto
  then show ?thesis using r [folded kv_eq] kv assms(2) by (auto simp: MIB_def)
qed

definition yields :: "('a \<Rightarrow> bool) \<Rightarrow> 'a rd \<Rightarrow> bool" where
  "yields \<Phi> m = (\<forall>r x r'. m r = Inr (x, r') \<longrightarrow> \<Phi> x)"

lemma yields_rules:
  "(\<And>x. yields \<Phi> (f x)) \<Longrightarrow> yields \<Phi> (bindR k f)" "yields \<Phi> m \<Longrightarrow> yields \<Phi> n \<Longrightarrow> yields \<Phi> (if b then m else n)"
  "yields \<Phi> (raiseR t)" "\<Phi> y \<Longrightarrow> yields \<Phi> (retR y)"
  by (fastforce simp: yields_def bindR_def raiseR_def retR_def)
    (simp_all add: yields_def raiseR_def retR_def)

lemma read_model_size: "read_model path n r = Inr (info, r') \<Longrightarrow> gi_size_bytes info = n"
proof -
  have "yields (\<lambda>info. gi_size_bytes info = n) (read_model path n)"
    unfolding read_model_def by (intro yields_rules) simp
  then show "read_model path n r = Inr (info, r') \<Longrightarrow> gi_size_bytes info = n"
    unfolding yields_def by blast
qed

text \<open>The budget is bounded: a computed budget holds the whole file and more than one gibibyte beside
  it, is bounded for every model that is accepted, and asks of the GPU nothing or at least 256 MiB, at least
  768 MiB less than of the main memory, and nothing if the devices are switched off.\<close>

theorem budget_bounds:
  assumes "memory_budget env environ args = Inr (ram, vram)"
  shows "\<exists>s model. parse_options args (initial_settings environ) = Inr s
    \<and> inspect_gguf_for_resources env (setting ''LLAMA_ARG_MODEL'' s) = Inr model
    \<and> 24 \<le> gi_size_bytes model \<and> gi_size_bytes model \<le> 107374182400
    \<and> gi_size_bytes model + 1024 * MIB < ram \<and> ram \<le> gi_size_bytes model + 1024 * MIB + 2 ^ 82
    \<and> vram \<le> ram - 768 * MIB \<and> (vram = 0 \<or> 256 * MIB \<le> vram) \<and> (snd s \<longrightarrow> vram = 0)"
proof -
  obtain s model where m: "parse_options args (initial_settings environ) = Inr s"
      "inspect_gguf_for_resources env (setting ''LLAMA_ARG_MODEL'' s) = Inr model"
      "memory_estimate model s = Inr (ram, vram)"
    using assms by (auto simp: memory_budget_def bindE_def split: sum.splits)
  have sz: "24 \<le> gi_size_bytes model \<and> gi_size_bytes model \<le> 107374182400"
    using m(2) by (auto simp: inspect_gguf_for_resources_def inspect_gguf_file_def bindE_def
        dest: read_model_size split: sum.splits if_splits)
  show ?thesis using m(1,2) sz estimate_bounds [OF m(3)] by auto
qed

end
