(* ===== verification/LlamaDemo.thy ===== *)
theory LlamaDemo
  imports LlamaWaits GgufGuarantees
begin

text \<open>A concrete session on which the guarantees of the coordinator are instantiated.\<close>

definition reply :: "string \<Rightarrow> captured res" where
  "reply t = Inr \<lparr>cp_status = 0, cp_size = int (length t), cp_text = Inr t\<rparr>"

definition status_lines :: "string \<Rightarrow> string \<Rightarrow> string" where
  "status_lines a p = ''LoadState=loaded'' @ [nl] @ ''ActiveState='' @ a @ [nl] @ ''MainPID='' @ p @ [nl]"

definition session_run :: "nat \<Rightarrow> string list \<Rightarrow> captured res" where
  "session_run n args =
     (if args = systemctl_args STATUS_QUERY
      then reply (if n < 12 then status_lines ''inactive'' ''0'' else status_lines ''active'' ''77'')
      else if args = systemctl_args SESSION_QUERY then reply (''active'' @ [nl])
      else if args = gpu_args ''--query-gpu=memory.free'' then reply (''4096'' @ [nl])
      else reply [])"

definition session_env :: llama_env where
  "session_env =
     \<lparr>le_uid = 1000, le_pid = 41,
      le_environ = map_of [(''XDG_RUNTIME_DIR'', ''/run/user/1000''), (''LLAMA_ARG_MODEL'', small_path),
        (''LLAMA_ARG_CTX_SIZE'', ''512''), (''LLAMA_ARG_N_GPU_LAYERS'', ''all'')],
      le_models = small_env, le_run = session_run,
      le_lstat = (\<lambda>p. Inr \<lparr>ds_directory = True, ds_uid = 1000, ds_mode = 16832\<rparr>), le_resolve = Inr,
      le_open = (\<lambda>n p. Inr \<lparr>ls_regular = True, ls_uid = 1000, ls_mode = 33152, ls_nlink = 1\<rparr>),
      le_free = (\<lambda>n p m. True), le_check = (\<lambda>n p. Inr PidGone),
      le_mem = (\<lambda>n. Inr (''MemAvailable:  4194304 kB'' @ [nl])), le_clock = (\<lambda>n. 1000 * int n)\<rparr>"

definition suspended_state :: coord_state where
  "suspended_state = \<lparr>cs_pids = [41], cs_cuda = False, cs_restore = True\<rparr>"

definition session_start :: "(nat \<Rightarrow> fault) \<Rightarrow> coord_state \<Rightarrow> llama_world sys" where
  "session_start script st =
     \<lparr>sys_step = 0, sys_script = script,
      sys_world = \<lparr>lw_text = text_of st, lw_temp = None, lw_log = [], lw_slept = 0\<rparr>\<rparr>"


lemma session_budget: "memory_budget small_env (le_environ session_env) [] = Inr (1107296437, 301990069)"
  by code_simp

definition pressed_env :: llama_env where
  "pressed_env = session_env\<lparr>le_run := (\<lambda>n. session_run 99), le_mem := (\<lambda>n. Inr (''MemAvailable: 1024 kB'' @ [nl]))\<rparr>"


lemma session_texts:
  "status_of (strip (status_lines ''inactive'' ''0'')) = Inr (''inactive'', ''0'')"
  "status_of (strip (status_lines ''active'' ''77'')) = Inr (''active'', ''77'')"
  "int_of_str ''0'' = Some 0" "int_of_str ''77'' = Some 77"
  by code_simp+

lemma session_documented: "documented_llama session_env"
  by (auto simp: documented_llama_def session_env_def session_run_def reply_def session_texts split: if_splits)

lemma pressed_documented: "documented_llama pressed_env"
  by (auto simp: documented_llama_def pressed_env_def session_env_def session_run_def reply_def session_texts)

text \<open>The process is killed right after it asked systemd to stop Whisper.\<close>

definition killed_start :: "llama_world sys" where
  "killed_start = session_start (\<lambda>n. if n = 16 then After ProcessKilled else Fine) empty_state"

definition killed_end :: "int res \<times> llama_world sys" where
  "killed_end = llama_main 0 pressed_env [''run'', ''/data/llama/bin/llama-cli''] killed_start"

theorem recovery_intent_kept_witness:
  "fst killed_end = Inl Killed \<and> owed (lw_log (sys_world (snd killed_end))) \<and> recorded (sys_world (snd killed_end))"
proof -
  have run: "fst killed_end = Inl Killed" by code_simp
  have owed: "owed (lw_log (sys_world (snd killed_end)))" by code_simp
  have start: "intent (sys_world killed_start)" by code_simp
  have "intent (sys_world (snd killed_end))"
    by (rule recovery_intent_kept [OF pressed_documented start, of 0 "[''run'', ''/data/llama/bin/llama-cli'']" "fst killed_end"])
      (simp add: killed_end_def)
  with run owed show ?thesis by (simp add: intent_def)
qed

text \<open>A restoration in the session.\<close>

definition restored_start :: "llama_world sys" where
  "restored_start = session_start (\<lambda>n. Fine) suspended_state"

definition restored_log :: "event list" where
  "restored_log = lw_log (sys_world (snd (restore_once session_env restored_start)))"

lemma split_nth: "n < length l \<Longrightarrow> l = take n l @ l ! n # drop (Suc n) l"
  by (simp add: id_take_nth_drop)

theorem started_after_exit_witness:
  "length restored_log = 12 \<and> starts (restored_log ! 3)
    \<and> Flock ''leases.lock'' LOCK_EX True \<in> set (drop 4 restored_log)"
proof -
  have nolog: "lw_log (sys_world restored_start) = []" by (simp add: restored_start_def session_start_def)
  have len: "length restored_log = 12" by code_simp
  have ev: "restored_log ! 3 = Ran (systemctl_args [''start'', WHISPER]) (reply [])" by code_simp
  have "lw_log (sys_world (snd (restore_once session_env restored_start)))
      = take 3 restored_log @ Ran (systemctl_args [''start'', WHISPER]) (reply []) # drop 4 restored_log @ lw_log (sys_world restored_start)"
    using split_nth [of 3 restored_log] len ev unfolding nolog restored_log_def [symmetric] by simp
  from started_after_exit [OF surjective_pairing this] len ev show ?thesis
    by (simp add: starts_def)
qed

text \<open>A run in the session.\<close>

definition run_start :: "llama_world sys" where
  "run_start = session_start (\<lambda>n. Fine) empty_state"

definition run_end :: "unit res \<times> llama_world sys" where
  "run_end = run_llama session_env ''/data/llama/bin/llama-cli'' [] run_start"

definition run_log :: "event list" where
  "run_log = lw_log (sys_world (snd run_end))"

theorem exec_registered_witness:
  "executes (run_log ! 0) \<and> memory_fits 1107296437 301990069 (set (drop 1 run_log))
    \<and> listed 41 (sys_world (snd run_end))"
proof -
  have nolog: "lw_log (sys_world run_start) = []" by (simp add: run_start_def session_start_def)
  have len: "length run_log = 8" by code_simp
  have ev: "run_log ! 0 = Exec ''/data/llama/bin/llama-cli'' [''/data/llama/bin/llama-cli'']" by code_simp
  have l: "lw_log (sys_world (snd run_end))
      = take 0 run_log @ Exec ''/data/llama/bin/llama-cli'' [''/data/llama/bin/llama-cli''] # drop 1 run_log @ lw_log (sys_world run_start)"
    using split_nth [of 0 run_log] len ev unfolding nolog run_log_def [symmetric] by simp
  have d: "\<not> diagnostic_run []" by (simp add: diagnostic_run_def)
  have r: "run_llama session_env ''/data/llama/bin/llama-cli'' [] run_start = (fst run_end, snd run_end)"
    by (simp add: run_end_def)
  have env: "le_models session_env = small_env" "le_pid session_env = 41" by (simp_all add: session_env_def)
  show ?thesis
    using exec_registered [OF session_documented d r l] ev
    by (auto simp: env session_budget executes_def listed_def)
qed

theorem waits_end_witness:
  "fst (gpu_wait GPU_TURNS session_env [41] (now_at session_env run_start + 20000000) 0 run_start) \<noteq> Inr False"
proof -
  have "mono (le_clock session_env)" by (simp add: session_env_def mono_def)
  from waits_end [OF this] show ?thesis by blast
qed

theorem budget_bounds_witness:
  "memory_budget small_env (le_environ session_env) [] = Inr (1107296437, 301990069)
    \<and> (301990069 :: int) \<le> 1107296437 - 768 * MIB"
  using session_budget budget_bounds [OF session_budget] by blast

end
