(* ===== verification/VethPolicy.thy ===== *)
theory VethPolicy
  imports PyIp PyPath
begin

text \<open>
  \<open>app_veth_policy.py\<close>: the administrator's application network policy, from the bytes of the file to the
  checked configuration. \<open>json.loads\<close> without a hook is a parameter: it gives the document with all pairs of
  an object in order, or \<open>None\<close> if it raises one of the errors that the code translates.
\<close>

definition MAX_CONFIG_BYTES :: nat where "MAX_CONFIG_BYTES = 65536"

definition MAX_APPS :: nat where "MAX_APPS = 128"

definition PRIVATE_IPV4_NETWORKS :: "ip_net list" where
  "PRIVATE_IPV4_NETWORKS =
     [IpNet V4 167772160 8 None, IpNet V4 2886729728 12 None, IpNet V4 3232235520 16 None]"

definition NETWORK_FIELDS :: "string list" where
  "NETWORK_FIELDS =
     [''ipv4_cidr'', ''max_leases'', ''host_interface_prefix'', ''host_interface_suffix'',
      ''peer_interface_suffix'', ''namespace_interface'', ''dns_address'',
      ''dns_host_address'', ''dns_host_port'']"

subsection \<open>Texts\<close>

definition word_char :: "char \<Rightarrow> bool" where
  "word_char c = (is_lower_alpha c \<or> is_digit c)"

definition name_char :: "char \<Rightarrow> bool" where
  "name_char c = (word_char c \<or> c = CHR ''_'' \<or> c = CHR ''-'')"

text \<open>\<open>re.fullmatch('[a-z]X{0,n}', s)\<close> for a character class \<open>X\<close>.\<close>

definition bounded_word :: "(char \<Rightarrow> bool) \<Rightarrow> nat \<Rightarrow> string \<Rightarrow> bool" where
  "bounded_word ok n s =
     (case s of [] \<Rightarrow> False | c # cs \<Rightarrow> is_lower_alpha c \<and> list_all ok cs \<and> length cs \<le> n)"

definition interface_word :: "pyval \<Rightarrow> bool" where
  "interface_word v = (case v of PStr s \<Rightarrow> bounded_word word_char 14 s | _ \<Rightarrow> False)"

definition suffix_word :: "pyval \<Rightarrow> bool" where
  "suffix_word v =
     (case v of PStr s \<Rightarrow> (case s of c # cs \<Rightarrow> c = CHR ''-'' \<and> bounded_word word_char 8 cs | [] \<Rightarrow> False)
      | _ \<Rightarrow> False)"

definition user_word :: "string \<Rightarrow> bool" where
  "user_word s =
     (case s of [] \<Rightarrow> False
      | c # cs \<Rightarrow> (is_lower_alpha c \<or> c = CHR ''_'') \<and> list_all name_char cs \<and> length cs \<le> 31)"

definition py_text :: "pyval \<Rightarrow> string" where
  "py_text v = (case v of PStr s \<Rightarrow> s | _ \<Rightarrow> [])"

definition py_number :: "pyval \<Rightarrow> int" where
  "py_number v = (case v of PInt i \<Rightarrow> i | _ \<Rightarrow> 0)"

definition int_between :: "int \<Rightarrow> int \<Rightarrow> pyval \<Rightarrow> bool" where
  "int_between lo hi v = (case v of PInt i \<Rightarrow> lo \<le> i \<and> i \<le> hi | _ \<Rightarrow> False)"

subsection \<open>The network\<close>

text \<open>\<open>ipaddress.IPv4Network(text)\<close>, which refuses host bits, and membership of an address.\<close>

definition ipv4_network :: "string \<Rightarrow> ip_net option" where
  "ipv4_network s =
     (case split_on CHR ''/'' s of
        [a] \<Rightarrow> map_option (\<lambda>x. IpNet V4 (addr_int x) 32 None) (parse_ipv4_addr a)
      | [a, m] \<Rightarrow>
          (case (parse_ipv4_addr a, make_netmask V4 m) of
             (Some x, Some l) \<Rightarrow>
               if addr_int x mod block_size V4 l = 0 then Some (IpNet V4 (addr_int x) l None) else None
           | _ \<Rightarrow> None)
      | _ \<Rightarrow> None)"

definition in_net :: "int \<Rightarrow> ip_net \<Rightarrow> bool" where
  "in_net a n = (net_int n \<le> a \<and> a \<le> net_last n)"

definition py_ipv4_network :: "pyval \<Rightarrow> ip_net option" where
  "py_ipv4_network v = (case v of PStr s \<Rightarrow> ipv4_network s | _ \<Rightarrow> None)"

definition py_ipv4_address :: "pyval \<Rightarrow> int option" where
  "py_ipv4_address v = (case v of PStr s \<Rightarrow> map_option addr_int (parse_ipv4_addr s) | _ \<Rightarrow> None)"

text \<open>The conditions of \<open>parse_network\<close>. A number as an address is refused by the code in the second one,
  because only a text is equal to the canonical text.\<close>

definition network_addresses :: "pydict \<Rightarrow> bool" where
  "network_addresses d =
     (case (py_ipv4_network (dget ''ipv4_cidr'' d), py_ipv4_address (dget ''dns_address'' d),
            py_ipv4_address (dget ''dns_host_address'' d)) of
        (Some pool, Some dns, Some listener) \<Rightarrow>
          PStr (net_str pool) = dget ''ipv4_cidr'' d
          \<and> 16 \<le> net_len pool \<and> net_len pool \<le> 30 \<and> list_ex (subnet_of pool) PRIVATE_IPV4_NETWORKS
          \<and> int_between 1 128 (dget ''max_leases'' d)
          \<and> py_number (dget ''max_leases'' d) * 4 \<le> block_size V4 (net_len pool)
          \<and> list_ex (in_net dns) PRIVATE_IPV4_NETWORKS \<and> \<not> in_net dns pool
          \<and> PStr (ipv4_str dns) = dget ''dns_address'' d
          \<and> in_net listener (IpNet V4 2130706432 8 None)
          \<and> PStr (ipv4_str listener) = dget ''dns_host_address'' d
          \<and> int_between 1024 65535 (dget ''dns_host_port'' d)
      | _ \<Rightarrow> False)"

definition network_names :: "pydict \<Rightarrow> bool" where
  "network_names d =
     (interface_word (dget ''host_interface_prefix'' d) \<and> interface_word (dget ''namespace_interface'' d)
      \<and> suffix_word (dget ''host_interface_suffix'' d) \<and> suffix_word (dget ''peer_interface_suffix'' d))"

definition network_lengths :: "pydict \<Rightarrow> bool" where
  "network_lengths d =
     (dget ''namespace_interface'' d \<noteq> PStr ''lo''
      \<and> dget ''host_interface_suffix'' d \<noteq> dget ''peer_interface_suffix'' d
      \<and> list_all (\<lambda>key. length (py_text (dget ''host_interface_prefix'' d)
                          @ int_str (py_number (dget ''max_leases'' d) - 1) @ py_text (dget key d)) \<le> 15)
          [''host_interface_suffix'', ''peer_interface_suffix''])"

definition parse_network :: "pyval \<Rightarrow> pydict res" where
  "parse_network v =
     (case v of
        PDict d \<Rightarrow>
          if fst ` set d \<noteq> set NETWORK_FIELDS then Inl ValueErr
          else if \<not> network_addresses d then Inl ValueErr
          else if \<not> network_names d then Inl ValueErr
          else if \<not> network_lengths d then Inl ValueErr
          else Inr d
      | _ \<Rightarrow> Inl ValueErr)"

subsection \<open>The hook for objects\<close>

definition unique_object :: "(string \<times> pyval) list \<Rightarrow> pydict res" where
  "unique_object pairs =
     foldE (\<lambda>result (k, v). if dmem k result then Inl ValueErr else Inr (dset k v result)) [] pairs"

fun unique_tree :: "pyval \<Rightarrow> pyval res"
  and unique_items :: "pyval list \<Rightarrow> pyval list res"
  and unique_pairs :: "(string \<times> pyval) list \<Rightarrow> (string \<times> pyval) list res" where
  "unique_tree (PDict d) = bindE (unique_pairs d) (\<lambda>d'. bindE (unique_object d') (\<lambda>r. Inr (PDict r)))"
| "unique_tree (PList xs) = bindE (unique_items xs) (\<lambda>ys. Inr (PList ys))"
| "unique_tree v = Inr v"
| "unique_items [] = Inr []"
| "unique_items (x # xs) = bindE (unique_tree x) (\<lambda>y. bindE (unique_items xs) (\<lambda>ys. Inr (y # ys)))"
| "unique_pairs [] = Inr []"
| "unique_pairs ((k, v) # d) = bindE (unique_tree v) (\<lambda>w. bindE (unique_pairs d) (\<lambda>e. Inr ((k, w) # e)))"

subsection \<open>An application\<close>

datatype peer_port = NoPort | FixedPort int | UplinkPorts int int

record app_policy =
  ap_network :: bool
  ap_block_lan :: bool
  ap_peer_port :: peer_port
  ap_pin_route :: bool
  ap_executables :: "string list"
  ap_slots :: "int list"
  ap_addresses :: "string list"

definition APP_FIELDS :: "string list" where
  "APP_FIELDS =
     [''network'', ''block_lan'', ''peer_port'', ''pin_route'', ''executables'', ''slots'', ''addresses'']"

definition uplink_ports_ok :: "string \<Rightarrow> pydict \<Rightarrow> bool" where
  "uplink_ports_ok name d =
     (name = ''qbittorrent'' \<and> fst ` set d = {''ethernet'', ''wifi''}
      \<and> list_all (int_between 1024 65535) (map snd d) \<and> dget ''ethernet'' d \<noteq> dget ''wifi'' d)"

definition port_of :: "pyval \<Rightarrow> peer_port" where
  "port_of v =
     (case v of
        PDict d \<Rightarrow> UplinkPorts (py_number (dget ''ethernet'' d)) (py_number (dget ''wifi'' d))
      | PInt i \<Rightarrow> FixedPort i
      | _ \<Rightarrow> NoPort)"

definition slots_of :: "int \<Rightarrow> pyval \<Rightarrow> int list option" where
  "slots_of max_leases v =
     (case v of
        PList ss \<Rightarrow>
          if 1 \<le> length ss \<and> int (length ss) \<le> max_leases \<and> list_all (int_between 0 (max_leases - 1)) ss
          then Some (map py_number ss) else None
      | _ \<Rightarrow> None)"

definition slot_address :: "ip_net \<Rightarrow> int \<Rightarrow> string" where
  "slot_address pool slot = ipv4_str (net_int pool + slot * 4 + 2)"

definition app_settings_ok :: "pyval \<Rightarrow> pyval \<Rightarrow> pyval \<Rightarrow> pyval \<Rightarrow> pyval \<Rightarrow> bool" where
  "app_settings_ok enabled block_lan pinned port executables =
     (enabled \<in> {PBool True, PBool False} \<and> block_lan \<in> {PBool True, PBool False}
      \<and> pinned \<in> {PBool True, PBool False}
      \<and> (case port of PNone \<Rightarrow> True | PDict d \<Rightarrow> True | _ \<Rightarrow> int_between 1024 65535 port)
      \<and> \<not> (enabled = PBool False \<and> port \<noteq> PNone) \<and> \<not> (port \<noteq> PNone \<and> pinned = PBool False)
      \<and> (case executables of PList es \<Rightarrow> length es \<le> 16 | _ \<Rightarrow> False))"

definition EXECUTABLE_ROOTS :: "string list" where
  "EXECUTABLE_ROOTS = [''/usr/bin/'', ''/usr/local/bin/'', ''/usr/lib/'', ''/opt/'']"

definition control_char :: "char \<Rightarrow> bool" where
  "control_char c = (ord c < 32 \<or> ord c = 127)"

definition executable_ok :: "string \<Rightarrow> bool" where
  "executable_ok s =
     (length s \<le> 4096 \<and> list_ex (\<lambda>root. starts_with root s) EXECUTABLE_ROOTS
      \<and> \<not> list_ex control_char s \<and> path_str s = s \<and> ''..'' \<notin> set (path_parts s))"

definition add_executable :: "string list \<Rightarrow> pyval \<Rightarrow> string list res" where
  "add_executable paths v =
     (case v of
        PStr s \<Rightarrow> if executable_ok s \<and> s \<notin> set paths then Inr (paths @ [s]) else Inl ValueErr
      | _ \<Rightarrow> Inl ValueErr)"

text \<open>The state of the loop over the applications: the result, the executables and the slots so far.\<close>

record veth_scan =
  vs_apps :: "(string \<times> app_policy) list"
  vs_paths :: "string list"
  vs_slots :: "int list"

definition parse_app :: "pydict \<Rightarrow> ip_net \<Rightarrow> veth_scan \<Rightarrow> string \<times> pyval \<Rightarrow> veth_scan res" where
  "parse_app network pool scan entry =
     (case entry of
        (name, PDict p) \<Rightarrow>
          if \<not> bounded_word name_char 63 name \<or> \<not> fst ` set p \<subseteq> set APP_FIELDS \<or> \<not> dmem ''network'' p
          then Inl ValueErr
          else
            (let enabled = dget ''network'' p;
                 block_lan = dget_or ''block_lan'' (PBool False) p;
                 port = dget ''peer_port'' p;
                 pinned = dget_or ''pin_route'' (PBool (port \<noteq> PNone)) p;
                 executables = dget_or ''executables'' (PList []) p
             in if (case port of PDict d \<Rightarrow> \<not> uplink_ports_ok name d | _ \<Rightarrow> False) then Inl ValueErr
                else case slots_of (py_number (dget ''max_leases'' network)) (dget ''slots'' p) of
                  None \<Rightarrow> Inl ValueErr
                | Some slots \<Rightarrow>
                    if \<not> distinct slots \<or> set (vs_slots scan) \<inter> set slots \<noteq> {}
                       \<or> (port \<noteq> PNone \<or> pinned = PBool True) \<and> length slots \<noteq> 1
                    then Inl ValueErr
                    else if dget ''addresses'' p \<noteq> PList (map (\<lambda>slot. PStr (slot_address pool slot)) slots)
                    then Inl ValueErr
                    else if \<not> app_settings_ok enabled block_lan pinned port executables then Inl ValueErr
                    else case executables of
                      PList es \<Rightarrow>
                        bindE (foldE add_executable (vs_paths scan) es) (\<lambda>paths.
                        Inr \<lparr>vs_apps = dset name
                               \<lparr>ap_network = enabled = PBool True, ap_block_lan = block_lan = PBool True,
                                ap_peer_port = port_of port, ap_pin_route = pinned = PBool True,
                                ap_executables = map py_text es, ap_slots = slots,
                                ap_addresses = map (slot_address pool) slots\<rparr> (vs_apps scan),
                             vs_paths = paths, vs_slots = vs_slots scan @ slots\<rparr>)
                    | _ \<Rightarrow> Inl ValueErr)
      | _ \<Rightarrow> Inl ValueErr)"

subsection \<open>The configuration\<close>

record veth_config =
  vc_desktop_user :: string
  vc_network :: pydict
  vc_apps :: "(string \<times> app_policy) list"

definition configuration_shape :: "pydict \<Rightarrow> bool" where
  "configuration_shape conf =
     (fst ` set conf = {''version'', ''desktop_user'', ''apps'', ''network''}
      \<and> dget ''version'' conf = PInt 2
      \<and> (case dget ''desktop_user'' conf of PStr u \<Rightarrow> user_word u \<and> u \<noteq> ''root'' | _ \<Rightarrow> False)
      \<and> (case dget ''apps'' conf of PDict apps \<Rightarrow> length apps \<le> MAX_APPS | _ \<Rightarrow> False))"

definition check_configuration :: "pyval \<Rightarrow> veth_config res" where
  "check_configuration v =
     (case v of
        PDict conf \<Rightarrow>
          if \<not> configuration_shape conf then Inl ValueErr
          else
            bindE (parse_network (dget ''network'' conf)) (\<lambda>network.
            case py_ipv4_network (dget ''ipv4_cidr'' network) of
              None \<Rightarrow> Inl ValueErr
            | Some pool \<Rightarrow>
                (case dget ''apps'' conf of
                   PDict apps \<Rightarrow>
                     bindE (foldE (parse_app network pool) \<lparr>vs_apps = [], vs_paths = [], vs_slots = []\<rparr> apps)
                       (\<lambda>scan. Inr \<lparr>vc_desktop_user = py_text (dget ''desktop_user'' conf),
                                   vc_network = network, vc_apps = vs_apps scan\<rparr>)
                 | _ \<Rightarrow> Inl ValueErr))
      | _ \<Rightarrow> Inl ValueErr)"

definition parse_configuration :: "(string \<Rightarrow> pyval option) \<Rightarrow> string \<Rightarrow> veth_config res" where
  "parse_configuration loads raw =
     (if length raw > MAX_CONFIG_BYTES then Inl ValueErr
      else case loads raw of
        None \<Rightarrow> Inl ValueErr
      | Some tree \<Rightarrow> bindE (unique_tree tree) check_configuration)"

record veth_file =
  vf_regular :: bool
  vf_uid :: int
  vf_mode :: int
  vf_nlink :: int
  vf_bytes :: string

text \<open>\<open>mode & 0o022\<close>: the file is writable for its group or for others.\<close>

definition writable_by_others :: "int \<Rightarrow> bool" where
  "writable_by_others mode = (mode div 16 mod 2 = 1 \<or> mode div 2 mod 2 = 1)"

definition read_configuration ::
    "(string \<Rightarrow> veth_file res) \<Rightarrow> (string \<Rightarrow> pyval option) \<Rightarrow> string \<Rightarrow> int \<Rightarrow> veth_config res" where
  "read_configuration open_nofollow loads path owner_uid =
     bindE (open_nofollow path) (\<lambda>f.
     if \<not> vf_regular f \<or> vf_uid f \<noteq> owner_uid \<or> writable_by_others (vf_mode f) \<or> vf_nlink f \<noteq> 1
     then Inl ValueErr
     else parse_configuration loads (take (MAX_CONFIG_BYTES + 1) (vf_bytes f)))"

end
