(* ===== verification/VethNet.thy ===== *)
theory VethNet
  imports VethPolicy PyEffect
begin

text \<open>
  \<open>app-veth\<close>, the daemon that routes the applications' network namespaces: the lease of one application (class
  \<open>Network\<close>), how a change of the route replaces its mapping in the firewall, how it is taken down, and which slot an
  application gets.

  A command is one interruptible step; a script lets it fail before or after its effect, as an \<open>OSErr\<close>. The kernel's
  side of a command is the part that the guarantees need: the elements of the table \<open>app_veth\<close>, which \<open>nft\<close> changes,
  and the host links that are up. A log keeps every command with its arguments and its input, newest first.
  What \<open>nft\<close>, the sockets, \<open>sysfs\<close> and the clock answer is the environment.
\<close>

subsection \<open>Elements of the table\<close>

definition quoted :: "string \<Rightarrow> string" where
  "quoted s = CHR 0x22 # s @ [CHR 0x22]"

definition dotted :: "string list \<Rightarrow> string" where
  "dotted parts = join '' . '' parts"

text \<open>\<open>value.split(' : ')[0]\<close>\<close>

fun element_key :: "string \<Rightarrow> string" where
  "element_key [] = []"
| "element_key (c # cs) = (if starts_with '' : '' (c # cs) then [] else c # element_key cs)"

datatype nft_row = AddElement string string | DeleteElement string string

fun row_text :: "nft_row \<Rightarrow> string" where
  "row_text (AddElement set_name v) = ''add element inet app_veth '' @ set_name @ '' { '' @ v @ '' }''"
| "row_text (DeleteElement set_name v) = ''delete element inet app_veth '' @ set_name @ '' { '' @ v @ '' }''"

type_synonym element = "string \<times> string"
type_synonym veth_table = "string \<times> string \<Rightarrow> string option"

text \<open>\<open>element(name, value)\<close> appends one row to add the element and one to delete it.\<close>

definition added :: "element list \<Rightarrow> nft_row list" where
  "added es = map (\<lambda>(set_name, v). AddElement set_name v) es"

definition deleted :: "element list \<Rightarrow> nft_row list" where
  "deleted es = map (\<lambda>(set_name, v). DeleteElement set_name (element_key v)) es"

text \<open>What \<open>nft\<close> documents of the rows of one transaction: they are applied in order; an element that exists with
  another value cannot be added, and one that does not exist cannot be deleted.\<close>

fun nft_rows :: "nft_row list \<Rightarrow> veth_table \<Rightarrow> veth_table option" where
  "nft_rows [] t = Some t"
| "nft_rows (AddElement set_name v # rows) t =
     (case t (set_name, element_key v) of
        None \<Rightarrow> nft_rows rows (t((set_name, element_key v) \<mapsto> v))
      | Some w \<Rightarrow> if w = v then nft_rows rows t else None)"
| "nft_rows (DeleteElement set_name k # rows) t =
     (if t (set_name, k) = None then None else nft_rows rows (t((set_name, k) := None)))"

subsection \<open>State and environment\<close>

type_synonym uplink = "string \<times> string \<times> int"

datatype sock_kind = SockStream | SockDgram

record veth_lease =
  vl_slot :: int
  vl_app :: string
  vl_name :: string
  vl_peer_name :: string
  vl_gateway :: string
  vl_address :: string
  vl_remove :: "nft_row list"
  vl_reservations :: "nat list"
  vl_route_remove :: "nft_row list"
  vl_route_reservations :: "nat list"
  vl_attached :: bool
  vl_installed :: bool
  vl_uplink :: "uplink option"
  vl_retry_at :: "int option"
  vl_initialized :: bool
  vl_port_policy :: peer_port
  vl_peer_port :: "int option"
  vl_channel :: bool
  vl_pinned :: bool

datatype veth_event =
    Command "string list" string
  | Sent "int option"

record veth_world =
  vw_table :: veth_table
  vw_up :: "string \<Rightarrow> bool"
  vw_bound :: "(nat \<times> string \<times> int \<times> sock_kind) list"
  vw_sockets :: nat
  vw_leases :: "nat \<Rightarrow> veth_lease"
  vw_log :: "veth_event list"

record veth_env =
  ve_network :: pydict
  ve_wireless :: "nat \<Rightarrow> string \<Rightarrow> string \<Rightarrow> bool option res"
  ve_free_port :: "nat \<Rightarrow> string \<Rightarrow> int \<Rightarrow> sock_kind \<Rightarrow> bool"
  ve_nft :: "nft_row list \<Rightarrow> veth_table \<Rightarrow> veth_table option"
  ve_late :: "nat \<Rightarrow> pyexn option"
  ve_sent :: "nat \<Rightarrow> bool res"
  ve_clock :: "nat \<Rightarrow> int"

type_synonym 'a veth_io = "(veth_world sys, 'a) eff"

definition interface_name :: "pydict \<Rightarrow> int \<Rightarrow> bool \<Rightarrow> string" where
  "interface_name settings slot peer =
     py_text (dget ''host_interface_prefix'' settings) @ int_str slot
       @ py_text (dget (if peer then ''peer_interface_suffix'' else ''host_interface_suffix'') settings)"

definition namespace_interface :: "veth_env \<Rightarrow> string" where
  "namespace_interface env = py_text (dget ''namespace_interface'' (ve_network env))"

definition lease_of :: "nat \<Rightarrow> veth_lease veth_io" where
  "lease_of i = look (\<lambda>w. vw_leases w i)"

definition set_lease :: "nat \<Rightarrow> (veth_lease \<Rightarrow> veth_lease) \<Rightarrow> unit veth_io" where
  "set_lease i f = assign (\<lambda>w. w\<lparr>vw_leases := (vw_leases w)(i := f (vw_leases w i))\<rparr>)"

definition logged :: "veth_event \<Rightarrow> veth_world \<Rightarrow> veth_world" where
  "logged e w = w\<lparr>vw_log := e # vw_log w\<rparr>"

text \<open>\<open>run(argv, data=data)\<close> of a command whose effect on the kernel's state here is \<open>f\<close>.\<close>

definition run_argv :: "string list \<Rightarrow> string \<Rightarrow> (veth_world \<Rightarrow> veth_world) \<Rightarrow> unit veth_io" where
  "run_argv argv data f = op (\<lambda>w. f (logged (Command argv data) w))"

definition nft_text :: "nft_row list \<Rightarrow> string" where
  "nft_text rows = join [nl] (map row_text rows) @ [nl]"

text \<open>A transaction fails or is interrupted before it, is refused, or is committed. \<open>ve_late\<close> is the exception that
  ends the wait for a command that did commit: the timeout of the command, or a signal.\<close>

definition nft :: "veth_env \<Rightarrow> nft_row list \<Rightarrow> unit veth_io" where
  "nft env rows =
     bindF (look (\<lambda>w. ve_nft env rows (vw_table w))) (\<lambda>r.
     seqF skip_op
     (bindF (getF (\<lambda>s. ve_late env (sys_step s))) (\<lambda>late.
      seqF (assign (\<lambda>w. logged (Command [''/usr/sbin/nft'', ''-f'', ''-''] (nft_text rows))
                          (case r of None \<Rightarrow> w | Some t \<Rightarrow> w\<lparr>vw_table := t\<rparr>)))
      (if r = None then raiseF RuntimeErr else case late of None \<Rightarrow> retF () | Some e \<Rightarrow> raiseF e))))"

definition link_set :: "string list \<Rightarrow> (veth_world \<Rightarrow> veth_world) \<Rightarrow> unit veth_io" where
  "link_set words f = run_argv ([''/usr/sbin/ip'', ''link'', ''set'', ''dev''] @ words) [] f"

definition link_down :: "string \<Rightarrow> unit veth_io" where
  "link_down name = link_set [name, ''down''] (\<lambda>w. w\<lparr>vw_up := (vw_up w)(name := False)\<rparr>)"

definition link_up :: "string \<Rightarrow> int \<Rightarrow> unit veth_io" where
  "link_up name mtu =
     link_set [name, ''mtu'', int_str mtu, ''up''] (\<lambda>w. w\<lparr>vw_up := (vw_up w)(name := True)\<rparr>)"

text \<open>A command inside the namespace of the lease; \<open>fd\<close> stands for its path under \<open>/proc/self/fd\<close>.\<close>

definition enter :: "string list \<Rightarrow> string \<Rightarrow> unit veth_io" where
  "enter words data = run_argv ([''/usr/bin/nsenter'', ''--net=fd'', ''--''] @ words) data (\<lambda>w. w)"

definition forget_flows :: "string \<Rightarrow> string \<Rightarrow> unit veth_io" where
  "forget_flows direction address =
     run_argv [''/usr/sbin/conntrack'', ''-D'', ''-f'', ''ipv4'', direction, address] [] (\<lambda>w. w)"

subsection \<open>Sockets that hold a port\<close>

definition new_socket :: "nat \<Rightarrow> bool \<Rightarrow> nat veth_io" where
  "new_socket i route_owned =
     bindF (look vw_sockets) (\<lambda>channel.
     seqF (op (\<lambda>w. w\<lparr>vw_sockets := channel + 1\<rparr>))
     (seqF (set_lease i (\<lambda>l. if route_owned then l\<lparr>vl_route_reservations := vl_route_reservations l @ [channel]\<rparr>
                             else l\<lparr>vl_reservations := vl_reservations l @ [channel]\<rparr>))
     (retF channel)))"

definition reserve :: "veth_env \<Rightarrow> nat \<Rightarrow> string \<Rightarrow> int \<Rightarrow> sock_kind \<Rightarrow> bool \<Rightarrow> unit veth_io" where
  "reserve env i address port kind route_owned =
     bindF (new_socket i route_owned) (\<lambda>channel.
     bindF (getF (\<lambda>s. ve_free_port env (sys_step s) address port kind
                      \<and> (address, port, kind) \<notin> snd ` set (vw_bound (sys_world s)))) (\<lambda>free.
     seqF (if free then op (\<lambda>w. w\<lparr>vw_bound := (channel, address, port, kind) # vw_bound w\<rparr>)
           else raiseF (OSErr ''address in use''))
     (whenF (kind = SockStream) skip_op)))"

definition close_sockets :: "nat list \<Rightarrow> unit veth_io" where
  "close_sockets channels = assign (\<lambda>w. w\<lparr>vw_bound := filter (\<lambda>b. fst b \<notin> set channels) (vw_bound w)\<rparr>)"

subsection \<open>\<open>Network.update_route\<close>\<close>

text \<open>The loop over the two names under \<open>/sys/class/net\<close>; \<open>None\<close> is \<open>FileNotFoundError\<close>, \<open>Some\<close> says whether the
  entry is a directory.\<close>

fun wireless_from :: "veth_env \<Rightarrow> string \<Rightarrow> string list \<Rightarrow> bool veth_io" where
  "wireless_from env interface [] = retF False"
| "wireless_from env interface (name # names) =
     bindF (getF (\<lambda>s. ve_wireless env (sys_step s) interface name)) (\<lambda>r. seqF skip_op
     (case r of
        Inl e \<Rightarrow> raiseF (if is_os_error e then RuntimeErr else e)
      | Inr None \<Rightarrow> wireless_from env interface names
      | Inr (Some directory) \<Rightarrow> if directory then retF True else raiseF ValueErr))"

definition wireless_interface :: "veth_env \<Rightarrow> string \<Rightarrow> bool veth_io" where
  "wireless_interface env interface = wireless_from env interface [''wireless'', ''phy80211'']"

definition same_egress :: "uplink option \<Rightarrow> uplink option \<Rightarrow> bool" where
  "same_egress current previous =
     (case (current, previous) of
        (Some (iface, source, _), Some (iface', source', _)) \<Rightarrow> iface = iface' \<and> source = source'
      | _ \<Rightarrow> False)"

definition update_mtu :: "veth_env \<Rightarrow> nat \<Rightarrow> veth_lease \<Rightarrow> uplink option \<Rightarrow> int \<Rightarrow> unit veth_io" where
  "update_mtu env i l current mtu =
     seqF (enter [''/usr/sbin/ip'', ''link'', ''set'', ''dev'', namespace_interface env, ''mtu'', int_str mtu] [])
     (seqF (link_set [vl_name l, ''mtu'', int_str mtu] (\<lambda>w. w))
     (seqF (set_lease i (\<lambda>l. l\<lparr>vl_uplink := current\<rparr>))
     skip_op))"

definition egress_elements :: "veth_lease \<Rightarrow> string \<Rightarrow> string \<Rightarrow> element list" where
  "egress_elements l iface source =
     [(''pinned'', dotted [quoted (vl_name l), quoted iface]),
      (''snat_map'', quoted (vl_name l) @ '' : '' @ source)]"

definition protocol_elements :: "veth_lease \<Rightarrow> string \<Rightarrow> string \<Rightarrow> int \<Rightarrow> element list" where
  "protocol_elements l source protocol port =
     [(''incoming'', dotted [quoted (vl_name l), vl_address l, protocol, int_str port]),
      (''peer_snat'', dotted [quoted (vl_name l), protocol, int_str port] @ '' : '' @ dotted [source, int_str port]),
      (''forwards'', dotted [source, protocol, int_str port] @ '' : '' @ dotted [vl_address l, int_str port])]"

definition PROTOCOLS :: "(string \<times> sock_kind) list" where
  "PROTOCOLS = [(''tcp'', SockStream), (''udp'', SockDgram)]"

text \<open>The elements of a route, and the reservations that are made for them.\<close>

definition route_elements :: "veth_lease \<Rightarrow> uplink option \<Rightarrow> int option \<Rightarrow> element list" where
  "route_elements l current port =
     (case current of
        None \<Rightarrow> []
      | Some (iface, source, _) \<Rightarrow>
          if \<not> vl_pinned l then []
          else egress_elements l iface source
               @ (case port of None \<Rightarrow> []
                  | Some p \<Rightarrow> concat (map (\<lambda>(protocol, _). protocol_elements l source protocol p) PROTOCOLS)))"

definition reserve_route :: "veth_env \<Rightarrow> nat \<Rightarrow> veth_lease \<Rightarrow> uplink option \<Rightarrow> int option \<Rightarrow> unit veth_io" where
  "reserve_route env i l current port =
     (case (current, port) of
        (Some (_, source, _), Some p) \<Rightarrow>
          if vl_pinned l then forF (\<lambda>(_, kind). reserve env i source p kind True) PROTOCOLS else retF ()
      | _ \<Rightarrow> retF ())"

definition active_port :: "veth_env \<Rightarrow> veth_lease \<Rightarrow> uplink option \<Rightarrow> int option veth_io" where
  "active_port env l current =
     (case (current, vl_port_policy l) of
        (Some (iface, _, _), UplinkPorts ethernet wifi) \<Rightarrow>
          bindF (wireless_interface env iface) (\<lambda>wireless. retF (Some (if wireless then wifi else ethernet)))
      | _ \<Rightarrow> retF (vl_peer_port l))"

definition notify_port :: "veth_env \<Rightarrow> int option \<Rightarrow> unit veth_io" where
  "notify_port env port =
     bindF (getF (\<lambda>s. ve_sent env (sys_step s))) (\<lambda>r.
     seqF (op (logged (Sent port)))
     (bindF (liftE r) (\<lambda>complete. if complete then retF () else raiseF RuntimeErr)))"

definition uplink_mtu :: "uplink option \<Rightarrow> int" where
  "uplink_mtu current = (case current of None \<Rightarrow> 1500 | Some (_, _, mtu) \<Rightarrow> mtu)"

text \<open>The steps after the new mapping is committed.\<close>

definition finish_route :: "veth_env \<Rightarrow> nat \<Rightarrow> veth_lease \<Rightarrow> uplink option \<Rightarrow> int option \<Rightarrow> unit veth_io" where
  "finish_route env i l current port =
     seqF (forF (\<lambda>direction. forget_flows direction (vl_address l)) [''--orig-src'', ''--reply-src''])
     (seqF (enter [''/usr/sbin/ip'', ''link'', ''set'', ''dev'', namespace_interface env, ''mtu'', int_str (uplink_mtu current)] [])
     (seqF (whenF (port \<noteq> vl_peer_port l \<and> vl_channel l) (notify_port env port))
     (seqF (whenF (current \<noteq> None \<or> \<not> vl_pinned l) (link_up (vl_name l) (uplink_mtu current)))
     (seqF (set_lease i (\<lambda>l. l\<lparr>vl_uplink := current, vl_initialized := True, vl_retry_at := None, vl_peer_port := port\<rparr>))
     skip_op))))"

definition replace_mapping :: "veth_env \<Rightarrow> nat \<Rightarrow> veth_lease \<Rightarrow> uplink option \<Rightarrow> unit veth_io" where
  "replace_mapping env i l current =
     seqF (link_down (vl_name l))
     (seqF (close_sockets (vl_route_reservations l))
     (seqF (set_lease i (\<lambda>l. l\<lparr>vl_route_reservations := []\<rparr>))
     (bindF (active_port env l current) (\<lambda>port.
      seqF (reserve_route env i l current port)
      (let rows = vl_route_remove l @ added (route_elements l current port) in
       seqF (whenF (rows \<noteq> []) (nft env rows))
       (seqF (set_lease i (\<lambda>l'. l'\<lparr>vl_route_remove := deleted (route_elements l current port)\<rparr>))
       (finish_route env i l current port)))))))"

definition update_route :: "veth_env \<Rightarrow> nat \<Rightarrow> uplink option \<Rightarrow> unit veth_io" where
  "update_route env i current =
     bindF (lease_of i) (\<lambda>l.
     if vl_initialized l \<and> current = vl_uplink l \<and> vl_retry_at l = None then retF ()
     else if vl_initialized l \<and> vl_retry_at l = None \<and> same_egress current (vl_uplink l)
     then update_mtu env i l current (uplink_mtu current)
     else replace_mapping env i l current)"

subsection \<open>\<open>Network.refresh_route\<close> and \<open>Network.close\<close>\<close>

definition ROUTE_RETRY_SECONDS :: int where "ROUTE_RETRY_SECONDS = 5"

text \<open>\<open>time.monotonic()\<close> in whole milliseconds.\<close>

definition veth_monotonic :: "veth_env \<Rightarrow> int veth_io" where
  "veth_monotonic env = getF (\<lambda>s. ve_clock env (sys_step s))"

definition is_cleanup_failure :: "pyexn \<Rightarrow> bool" where
  "is_cleanup_failure e = (is_os_error e \<or> e = RuntimeErr \<or> e = CleanupErr \<or> e = SubprocessErr)"

definition is_route_failure :: "pyexn \<Rightarrow> bool" where
  "is_route_failure e = (is_cleanup_failure e \<or> is_value_error e)"

definition too_early :: "veth_lease \<Rightarrow> uplink option \<Rightarrow> int \<Rightarrow> bool" where
  "too_early l current now =
     (case vl_retry_at l of None \<Rightarrow> False | Some at \<Rightarrow> current = vl_uplink l \<and> now < at)"

definition postpone :: "veth_env \<Rightarrow> nat \<Rightarrow> uplink option \<Rightarrow> unit veth_io" where
  "postpone env i current =
     seqF (set_lease i (\<lambda>l. l\<lparr>vl_uplink := current\<rparr>))
     (bindF (veth_monotonic env) (\<lambda>now.
      seqF (set_lease i (\<lambda>l. l\<lparr>vl_retry_at := Some (now + ROUTE_RETRY_SECONDS * 1000)\<rparr>))
      skip_op))"

definition refresh_route :: "veth_env \<Rightarrow> nat \<Rightarrow> uplink option \<Rightarrow> unit veth_io" where
  "refresh_route env i current =
     bindF (lease_of i) (\<lambda>l.
     bindF (veth_monotonic env) (\<lambda>now.
     if too_early l current now then retF ()
     else catchF (update_route env i current) is_route_failure (\<lambda>_. postpone env i current)))"

text \<open>One of the three \<open>try\<close> blocks of \<open>close\<close>: whether it failed.\<close>

definition attempt_step :: "unit veth_io \<Rightarrow> bool veth_io" where
  "attempt_step m = catchF (seqF m (retF False)) is_cleanup_failure (\<lambda>_. retF True)"

definition quiesce :: "nat \<Rightarrow> unit veth_io" where
  "quiesce i = bindF (lease_of i) (\<lambda>l. whenF (vl_attached l) (link_down (vl_name l)))"

definition give_back :: "veth_env \<Rightarrow> nat \<Rightarrow> unit veth_io" where
  "give_back env i =
     bindF (lease_of i) (\<lambda>l. whenF (vl_attached l)
     (let idle_name = interface_name (ve_network env) (vl_slot l) True in
      seqF (enter [''/usr/sbin/ip'', ''link'', ''set'', ''dev'', vl_peer_name l, ''down''] [])
      (seqF (enter [''/usr/sbin/ip'', ''addr'', ''flush'', ''dev'', vl_peer_name l] [])
      (seqF (whenF (vl_peer_name l \<noteq> idle_name)
         (seqF (enter [''/usr/sbin/ip'', ''link'', ''set'', ''dev'', vl_peer_name l, ''name'', idle_name] [])
           (set_lease i (\<lambda>l. l\<lparr>vl_peer_name := idle_name\<rparr>))))
      (seqF (enter [''/usr/sbin/ip'', ''link'', ''set'', ''dev'', idle_name, ''netns'', ''/proc/self/fd/host''] [])
      (set_lease i (\<lambda>l. l\<lparr>vl_attached := False\<rparr>)))))))"

definition uninstall :: "veth_env \<Rightarrow> nat \<Rightarrow> unit veth_io" where
  "uninstall env i =
     bindF (lease_of i) (\<lambda>l. whenF (vl_installed l)
     (seqF (nft env (vl_route_remove l @ vl_remove l))
     (set_lease i (\<lambda>l. l\<lparr>vl_installed := False\<rparr>))))"

definition forget_lease :: "nat \<Rightarrow> unit veth_io" where
  "forget_lease i =
     bindF (lease_of i) (\<lambda>l.
     seqF (whenF (\<not> vl_installed l) (set_lease i (\<lambda>l. l\<lparr>vl_remove := [], vl_route_remove := []\<rparr>)))
     (seqF (close_sockets (vl_route_reservations l @ vl_reservations l))
     (set_lease i (\<lambda>l. l\<lparr>vl_reservations := [], vl_route_reservations := []\<rparr>))))"

definition close_lease :: "veth_env \<Rightarrow> nat \<Rightarrow> unit veth_io" where
  "close_lease env i =
     bindF (attempt_step (quiesce i)) (\<lambda>e1.
     bindF (attempt_step (give_back env i)) (\<lambda>e2.
     bindF (finallyF (attempt_step (uninstall env i)) (forget_lease i)) (\<lambda>e3.
     seqF skip_op
     (if e1 \<or> e2 \<or> e3 then raiseF CleanupErr else retF ()))))"

subsection \<open>\<open>application_slot\<close> and \<open>route_retry_timeout\<close>\<close>

text \<open>\<open>policy['addresses'].index(address)\<close>\<close>

fun slot_at :: "string \<Rightarrow> string list \<Rightarrow> int list \<Rightarrow> int option" where
  "slot_at address (a # as) (slot # slots) = (if a = address then Some slot else slot_at address as slots)"
| "slot_at address _ _ = None"

definition application_slot :: "app_policy \<Rightarrow> int list \<Rightarrow> string option \<Rightarrow> int res" where
  "application_slot policy occupied address =
     (case address of
        Some a \<Rightarrow>
          (if a \<notin> set (ap_addresses policy) then Inl ValueErr
           else case slot_at a (ap_addresses policy) (ap_slots policy) of
             None \<Rightarrow> Inl ValueErr
           | Some slot \<Rightarrow> if slot \<in> set occupied then Inl ValueErr else Inr slot)
      | None \<Rightarrow>
          (case find (\<lambda>slot. slot \<notin> set occupied) (ap_slots policy) of
             None \<Rightarrow> Inl ValueErr
           | Some slot \<Rightarrow> Inr slot))"

definition route_retry_timeout :: "veth_lease list \<Rightarrow> int \<Rightarrow> int option" where
  "route_retry_timeout leases now =
     (case concat (map (\<lambda>l. case vl_retry_at l of None \<Rightarrow> [] | Some at \<Rightarrow> [at]) leases) of
        [] \<Rightarrow> None
      | d # ds \<Rightarrow> Some (max 0 (foldl min d ds - now)))"

end
