(* ===== verification/VethPolicyFacts.thy ===== *)
theory VethPolicyFacts
  imports VethPolicy PyIpFacts NetCover
begin

text \<open>
  What an accepted application network policy promises: every slot belongs to one application, its block of
  four addresses lies in the pool and meets no other block, and an executable names one application.
\<close>

subsection \<open>The hook for objects\<close>

lemma unique_object_run:
  "foldE (\<lambda>result (k, v). if dmem k result then Inl ValueErr else Inr (dset k v result)) acc pairs = Inr d \<Longrightarrow>
     distinct (map fst acc) \<Longrightarrow> d = acc @ pairs \<and> distinct (map fst d)"
proof (induction pairs arbitrary: acc)
  case (Cons p pairs)
  obtain k v where p: "p = (k, v)" by (cases p)
  with Cons.prems(1) have new: "map_of acc k = None" by (auto simp: dmem_def split: if_splits)
  then have fresh: "dset k v acc = acc @ [(k, v)]" by (rule dset_fresh)
  have "d = (acc @ [(k, v)]) @ pairs \<and> distinct (map fst d)"
    by (rule Cons.IH) (use Cons.prems p new fresh in \<open>auto simp: dmem_def map_of_eq_None_iff split: if_splits\<close>)
  then show ?case using p by (elim conjE) (simp only: append_assoc append_Cons append_Nil)
qed simp

lemma unique_object_keeps: "unique_object pairs = Inr d \<Longrightarrow> d = pairs \<and> distinct (map fst d)"
  unfolding unique_object_def by (drule unique_object_run) (simp, elim conjE, simp)

lemma unique_pairs_keys: "unique_pairs d = Inr e \<Longrightarrow> map fst e = map fst d"
  by (induction d arbitrary: e) auto

lemma unique_tree_wf:
  "unique_tree v = Inr w \<Longrightarrow> doc_wf w"
  "unique_items xs = Inr ys \<Longrightarrow> list_all doc_wf ys"
  "unique_pairs d = Inr e \<Longrightarrow> list_all (\<lambda>kv. doc_wf (snd kv)) e"
  by (induction v and xs and d arbitrary: w and ys and e rule: unique_tree_unique_items_unique_pairs.induct)
    (auto dest!: unique_object_keeps)

lemma doc_wf_dget: "doc_wf (PDict d) \<Longrightarrow> doc_wf (dget k d)"
  by (force simp: dget_def list_all_set split: option.splits dest: dget_in_set)

subsection \<open>The pool\<close>

definition slot_block :: "ip_net \<Rightarrow> int \<Rightarrow> int set" where
  "slot_block pool slot = {net_int pool + slot * 4 .. net_int pool + slot * 4 + 3}"

lemma net_of_aligned:
  assumes "parse_ipv4_addr s = Some a" "addr_int a mod block_size V4 l = 0"
  shows "IpNet V4 (addr_int a) l None = net_of_addr a l"
  using parse_ipv4_addr_wf [OF assms(1)] assms(2) by (simp add: net_of_addr_def)

lemma ipv4_network_wf:
  assumes "ipv4_network s = Some n"
  shows "net_wf n \<and> net_ver n = V4"
proof -
  have whole: "addr_int a mod block_size V4 32 = 0" for a by (simp add: block_size_def)
  obtain t a l where a: "parse_ipv4_addr t = Some a" "l \<le> 32" "n = net_of_addr a l"
  proof -
    consider a where "split_on CHR ''/'' s = [a]" | a m where "split_on CHR ''/'' s = [a, m]"
      using assms by (auto simp: ipv4_network_def split: list.splits)
    then show thesis
    proof cases
      case 1
      then obtain x where "parse_ipv4_addr a = Some x" "n = IpNet V4 (addr_int x) 32 None"
        using assms by (auto simp: ipv4_network_def)
      then show ?thesis using net_of_aligned [OF _ whole] by (intro that [of a x 32]) simp_all
    next
      case 2
      then obtain x l where x: "parse_ipv4_addr a = Some x" "make_netmask V4 m = Some l"
          "addr_int x mod block_size V4 l = 0" "n = IpNet V4 (addr_int x) l None"
        using assms by (auto simp: ipv4_network_def split: option.splits if_splits)
      then show ?thesis using net_of_aligned [OF x(1,3)] make_netmask_le [OF x(2)] by (intro that [of a x l]) simp_all
    qed
  qed
  then show ?thesis using net_of_addr_wf [of a l] parse_ipv4_addr_wf [OF a(1)] by simp
qed

lemma slot_block_disjoint: "s \<noteq> t \<Longrightarrow> slot_block pool s \<inter> slot_block pool t = {}"
  by (auto simp: slot_block_def)

lemma slot_block_in_pool:
  assumes "0 \<le> s" "s < m" "m * 4 \<le> block_size V4 (net_len pool)" "net_ver pool = V4"
  shows "slot_block pool s \<subseteq> net_addrs pool"
proof -
  have "s * 4 + 3 < block_size V4 (net_len pool)" using assms(2,3) by simp
  then show ?thesis using assms(1,4) by (auto simp: slot_block_def net_addrs_def net_last_eq)
qed

lemma ipv4_str_inj:
  assumes "0 \<le> m" "m < 2 ^ 32" "0 \<le> n" "n < 2 ^ 32" "ipv4_str m = ipv4_str n"
  shows "m = n"
  using parse_ipv4_str [OF assms(1,2)] unfolding assms(5) parse_ipv4_str [OF assms(3,4)] by (simp only: option.inject)

lemma slot_address_inj:
  assumes "net_wf pool" "net_ver pool = V4" "slot_block pool s \<subseteq> net_addrs pool" "slot_block pool t \<subseteq> net_addrs pool"
    and "slot_address pool s = slot_address pool t"
  shows "s = t"
proof -
  have range: "0 \<le> net_int pool + u * 4 + 2 \<and> net_int pool + u * 4 + 2 < 2 ^ 32"
    if "slot_block pool u \<subseteq> net_addrs pool" for u
  proof -
    have "net_int pool + u * 4 + 2 \<in> net_addrs pool" using that by (rule subsetD) (simp add: slot_block_def)
    then have "net_int pool \<le> net_int pool + u * 4 + 2" "net_int pool + u * 4 + 2 \<le> net_last pool"
      by (simp_all only: net_addrs_def atLeastAtMost_iff)
    moreover have "0 \<le> net_int pool" "net_last pool < 2 ^ 32" using assms(1,2) by (simp_all add: net_wf_def)
    ultimately show ?thesis by linarith
  qed
  have "net_int pool + s * 4 + 2 = net_int pool + t * 4 + 2"
    using range [OF assms(3)] range [OF assms(4)] assms(5) unfolding slot_address_def
    by (elim conjE) (rule ipv4_str_inj)
  then show ?thesis by simp
qed

subsection \<open>The loop over the applications\<close>

definition app_ok :: "ip_net \<Rightarrow> int \<Rightarrow> app_policy \<Rightarrow> bool" where
  "app_ok pool m a =
     (ap_slots a \<noteq> [] \<and> (\<forall>s \<in> set (ap_slots a). 0 \<le> s \<and> s < m)
      \<and> ap_addresses a = map (slot_address pool) (ap_slots a)
      \<and> list_all executable_ok (ap_executables a)
      \<and> (ap_peer_port a \<noteq> NoPort \<longrightarrow> ap_network a \<and> ap_pin_route a)
      \<and> (ap_pin_route a \<longrightarrow> length (ap_slots a) = 1))"

definition scan_ok :: "ip_net \<Rightarrow> int \<Rightarrow> veth_scan \<Rightarrow> bool" where
  "scan_ok pool m scan =
     (vs_slots scan = concat (map (ap_slots \<circ> snd) (vs_apps scan)) \<and> distinct (vs_slots scan)
      \<and> vs_paths scan = concat (map (ap_executables \<circ> snd) (vs_apps scan)) \<and> distinct (vs_paths scan)
      \<and> (\<forall>(n, a) \<in> set (vs_apps scan). app_ok pool m a))"

lemma add_executables:
  "foldE add_executable paths es = Inr paths' \<Longrightarrow> distinct paths \<Longrightarrow>
     paths' = paths @ map py_text es \<and> distinct paths' \<and> list_all executable_ok (map py_text es)"
proof (induction es arbitrary: paths)
  case (Cons e es)
  then obtain s where e: "e = PStr s" "executable_ok s" "s \<notin> set paths"
    by (cases e) (auto simp: add_executable_def split: if_splits)
  have "paths' = (paths @ [s]) @ map py_text es \<and> distinct paths' \<and> list_all executable_ok (map py_text es)"
    by (rule Cons.IH) (use Cons.prems e in \<open>auto simp: add_executable_def\<close>)
  then show ?case using e by (elim conjE) (simp add: py_text_def [of "PStr s"])
qed simp

lemma slots_of_range: "slots_of m v = Some ss \<Longrightarrow> ss \<noteq> [] \<and> (\<forall>s \<in> set ss. 0 \<le> s \<and> s < m)"
  by (auto simp: slots_of_def list_all_set int_between_def py_number_def split: pyval.splits if_splits)

lemma parse_app_cases:
  assumes "parse_app network pool scan (name, v) = Inr scan'"
  obtains p slots es paths where "v = PDict p"
    "slots_of (py_number (dget ''max_leases'' network)) (dget ''slots'' p) = Some slots"
    "distinct slots" "set (vs_slots scan) \<inter> set slots = {}"
    "(dget ''peer_port'' p \<noteq> PNone \<or> dget_or ''pin_route'' (PBool (dget ''peer_port'' p \<noteq> PNone)) p = PBool True)
       \<longrightarrow> length slots = 1"
    "app_settings_ok (dget ''network'' p) (dget_or ''block_lan'' (PBool False) p)
       (dget_or ''pin_route'' (PBool (dget ''peer_port'' p \<noteq> PNone)) p) (dget ''peer_port'' p) (PList es)"
    "foldE add_executable (vs_paths scan) es = Inr paths"
    "scan' = \<lparr>vs_apps = dset name
        \<lparr>ap_network = dget ''network'' p = PBool True,
         ap_block_lan = dget_or ''block_lan'' (PBool False) p = PBool True, ap_peer_port = port_of (dget ''peer_port'' p),
         ap_pin_route = dget_or ''pin_route'' (PBool (dget ''peer_port'' p \<noteq> PNone)) p = PBool True,
         ap_executables = map py_text es, ap_slots = slots, ap_addresses = map (slot_address pool) slots\<rparr> (vs_apps scan),
       vs_paths = paths, vs_slots = vs_slots scan @ slots\<rparr>"
proof -
  obtain p where p: "v = PDict p" using assms by (cases v) (simp_all add: parse_app_def)
  obtain slots where s: "slots_of (py_number (dget ''max_leases'' network)) (dget ''slots'' p) = Some slots"
    using assms p by (cases "slots_of (py_number (dget ''max_leases'' network)) (dget ''slots'' p)")
      (simp_all add: parse_app_def Let_def split: if_split_asm)
  obtain es where e: "dget_or ''executables'' (PList []) p = PList es"
    using assms p s by (cases "dget_or ''executables'' (PList []) p")
      (simp_all add: parse_app_def Let_def app_settings_ok_def split: if_split_asm)
  show ?thesis
    using assms p s e by (auto simp add: parse_app_def Let_def split: if_split_asm intro!: that [OF p s])
qed

lemma parse_app_ok:
  assumes "parse_app network pool scan (name, v) = Inr scan'"
    and "scan_ok pool (py_number (dget ''max_leases'' network)) scan" and "name \<notin> fst ` set (vs_apps scan)"
  shows "scan_ok pool (py_number (dget ''max_leases'' network)) scan'
     \<and> map fst (vs_apps scan') = map fst (vs_apps scan) @ [name]"
  using assms(1)
proof (rule parse_app_cases)
  fix p slots es paths
  let ?port = "dget ''peer_port'' p"
  let ?pinned = "dget_or ''pin_route'' (PBool (?port \<noteq> PNone)) p"
  let ?app = "\<lparr>ap_network = dget ''network'' p = PBool True,
         ap_block_lan = dget_or ''block_lan'' (PBool False) p = PBool True, ap_peer_port = port_of ?port,
         ap_pin_route = ?pinned = PBool True,
         ap_executables = map py_text es, ap_slots = slots, ap_addresses = map (slot_address pool) slots\<rparr>"
  assume s: "slots_of (py_number (dget ''max_leases'' network)) (dget ''slots'' p) = Some slots"
    "distinct slots" "set (vs_slots scan) \<inter> set slots = {}"
    "(?port \<noteq> PNone \<or> ?pinned = PBool True) \<longrightarrow> length slots = 1"
    and ok: "app_settings_ok (dget ''network'' p) (dget_or ''block_lan'' (PBool False) p) ?pinned ?port (PList es)"
    and ex: "foldE add_executable (vs_paths scan) es = Inr paths"
    and scan': "scan' = \<lparr>vs_apps = dset name ?app (vs_apps scan), vs_paths = paths, vs_slots = vs_slots scan @ slots\<rparr>"
  have fresh: "dset name ?app (vs_apps scan) = vs_apps scan @ [(name, ?app)]"
    using assms(3) by (intro dset_fresh) (simp add: map_of_eq_None_iff)
  have paths: "paths = vs_paths scan @ map py_text es" "distinct paths" "list_all executable_ok (map py_text es)"
    using add_executables [OF ex] assms(2) unfolding scan_ok_def by blast+
  have port: "port_of ?port \<noteq> NoPort \<Longrightarrow> ?port \<noteq> PNone" by (auto simp: port_of_def)
  have "app_ok pool (py_number (dget ''max_leases'' network)) ?app"
    using slots_of_range [OF s(1)] s(4) paths(3) ok port by (auto simp: app_ok_def app_settings_ok_def)
  then show ?thesis
    using assms(2) s(2,3) paths(1,2) unfolding scan' fresh scan_ok_def by (elim conjE, intro conjI) auto
qed

lemma parse_apps_ok:
  assumes "foldE (parse_app network pool) scan apps = Inr scan'"
    and "scan_ok pool (py_number (dget ''max_leases'' network)) scan"
    and "distinct (map fst (vs_apps scan) @ map fst apps)"
  shows "scan_ok pool (py_number (dget ''max_leases'' network)) scan'
     \<and> map fst (vs_apps scan') = map fst (vs_apps scan) @ map fst apps"
  using assms
proof (induction apps arbitrary: scan)
  case (Cons app apps)
  obtain name v where app: "app = (name, v)" by (cases app)
  with Cons.prems(1) obtain scan1 where s1: "parse_app network pool scan (name, v) = Inr scan1"
      "foldE (parse_app network pool) scan1 apps = Inr scan'" by auto
  have "name \<notin> fst ` set (vs_apps scan)" using Cons.prems(3) app by auto
  note step = parse_app_ok [OF s1(1) Cons.prems(2) this]
  have "distinct (map fst (vs_apps scan1) @ map fst apps)" using step Cons.prems(3) app by auto
  with Cons.IH [OF s1(2)] step show ?case using app by auto
qed simp

subsection \<open>The configuration\<close>

lemma empty_scan_ok: "scan_ok pool m \<lparr>vs_apps = [], vs_paths = [], vs_slots = []\<rparr>"
  by (simp add: scan_ok_def)

lemma parse_network_ok:
  assumes "parse_network v = Inr d"
  shows "v = PDict d" "network_addresses d" "network_names d" "network_lengths d"
  using assms by (auto simp: parse_network_def split: pyval.splits if_splits)

lemma parse_configuration_cases:
  assumes "parse_configuration loads raw = Inr cfg"
  obtains pool scan apps where "network_addresses (vc_network cfg)" "network_names (vc_network cfg)"
    "network_lengths (vc_network cfg)"
    "py_ipv4_network (dget ''ipv4_cidr'' (vc_network cfg)) = Some pool"
    "foldE (parse_app (vc_network cfg) pool) \<lparr>vs_apps = [], vs_paths = [], vs_slots = []\<rparr> apps = Inr scan"
    "distinct (map fst apps)" "vc_apps cfg = vs_apps scan"
proof -
  obtain tree doc where t: "unique_tree tree = Inr doc" "check_configuration doc = Inr cfg"
    using assms by (auto simp: parse_configuration_def split: if_splits option.splits)
  obtain conf where c: "doc = PDict conf" "configuration_shape conf"
    using t(2) by (cases doc) (auto simp: check_configuration_def split: if_splits)
  obtain apps where a: "dget ''apps'' conf = PDict apps"
    using c(2) by (auto simp: configuration_shape_def split: pyval.splits)
  obtain network where n: "parse_network (dget ''network'' conf) = Inr network"
    using t(2) c by (auto simp: check_configuration_def)
  obtain pool where p: "py_ipv4_network (dget ''ipv4_cidr'' network) = Some pool"
    using t(2) c n by (cases "py_ipv4_network (dget ''ipv4_cidr'' network)") (simp_all add: check_configuration_def)
  obtain scan where s: "foldE (parse_app network pool) \<lparr>vs_apps = [], vs_paths = [], vs_slots = []\<rparr> apps = Inr scan"
      "vc_network cfg = network" "vc_apps cfg = vs_apps scan"
    using t(2) c n p a by (auto simp: check_configuration_def)
  have "doc_wf (PDict apps)" using doc_wf_dget [of conf "''apps''"] unique_tree_wf(1) [OF t(1)] c(1) a by simp
  then have "distinct (map fst apps)" by simp
  from that [OF _ _ _ _ _ this] s p parse_network_ok [OF n] show thesis by simp
qed

definition pool_of :: "pydict \<Rightarrow> ip_net" where
  "pool_of network =
     (case py_ipv4_network (dget ''ipv4_cidr'' network) of None \<Rightarrow> IpNet V4 0 0 None | Some n \<Rightarrow> n)"

lemma configuration_ok:
  assumes "parse_configuration loads raw = Inr cfg"
  shows "net_wf (pool_of (vc_network cfg))" "net_ver (pool_of (vc_network cfg)) = V4"
    "py_number (dget ''max_leases'' (vc_network cfg)) * 4 \<le> block_size V4 (net_len (pool_of (vc_network cfg)))"
    "\<exists>scan. vc_apps cfg = vs_apps scan
       \<and> scan_ok (pool_of (vc_network cfg)) (py_number (dget ''max_leases'' (vc_network cfg))) scan"
    "distinct (map fst (vc_apps cfg))"
proof -
  obtain pool scan apps where c: "network_addresses (vc_network cfg)"
      "py_ipv4_network (dget ''ipv4_cidr'' (vc_network cfg)) = Some pool"
      "foldE (parse_app (vc_network cfg) pool) \<lparr>vs_apps = [], vs_paths = [], vs_slots = []\<rparr> apps = Inr scan"
      "distinct (map fst apps)" "vc_apps cfg = vs_apps scan"
    using assms by (rule parse_configuration_cases)
  have pool: "pool_of (vc_network cfg) = pool" using c(2) by (simp add: pool_of_def)
  show "net_wf (pool_of (vc_network cfg))" "net_ver (pool_of (vc_network cfg)) = V4"
    using c(2) ipv4_network_wf unfolding pool by (auto simp: py_ipv4_network_def split: pyval.splits)
  show "py_number (dget ''max_leases'' (vc_network cfg)) * 4 \<le> block_size V4 (net_len (pool_of (vc_network cfg)))"
    using c(1,2) unfolding pool by (auto simp: network_addresses_def split: option.splits)
  have scan: "scan_ok pool (py_number (dget ''max_leases'' (vc_network cfg))) scan \<and> map fst (vs_apps scan) = map fst apps"
    using parse_apps_ok [OF c(3) empty_scan_ok] c(4) by simp
  then show "\<exists>scan. vc_apps cfg = vs_apps scan
       \<and> scan_ok (pool_of (vc_network cfg)) (py_number (dget ''max_leases'' (vc_network cfg))) scan"
    using c(5) unfolding pool by blast
  show "distinct (map fst (vc_apps cfg))" using scan c(4,5) by simp
qed

text \<open>C28 (applications share nothing): in an accepted configuration every slot lies in the pool with its block of
  four addresses, the blocks of different slots do not meet, no slot and no executable is listed twice, in
  one application or in two, the reserved addresses are the third ones of their blocks and all distinct, and
  an application with a peer port has network access and one pinned slot.\<close>

theorem applications_disjoint:
  assumes "parse_configuration loads raw = Inr cfg"
  shows "distinct (concat (map (\<lambda>(n, a). ap_slots a) (vc_apps cfg)))
    \<and> distinct (concat (map (\<lambda>(n, a). ap_addresses a) (vc_apps cfg)))
    \<and> distinct (concat (map (\<lambda>(n, a). ap_executables a) (vc_apps cfg)))
    \<and> (\<forall>(n, a) \<in> set (vc_apps cfg). \<forall>s \<in> set (ap_slots a).
          slot_block (pool_of (vc_network cfg)) s \<subseteq> net_addrs (pool_of (vc_network cfg))
          \<and> (\<forall>t. t \<noteq> s \<longrightarrow> slot_block (pool_of (vc_network cfg)) s \<inter> slot_block (pool_of (vc_network cfg)) t = {}))
    \<and> (\<forall>(n, a) \<in> set (vc_apps cfg). ap_addresses a = map (slot_address (pool_of (vc_network cfg))) (ap_slots a)
          \<and> (ap_peer_port a \<noteq> NoPort \<longrightarrow> ap_network a \<and> ap_pin_route a \<and> length (ap_slots a) = 1))"
proof -
  let ?pool = "pool_of (vc_network cfg)" and ?m = "py_number (dget ''max_leases'' (vc_network cfg))"
  note ok = configuration_ok [OF assms]
  obtain scan where scan: "vc_apps cfg = vs_apps scan" "scan_ok ?pool ?m scan" using ok(4) by blast
  have slots: "distinct (concat (map (\<lambda>(n, a). ap_slots a) (vc_apps cfg)))"
    and paths: "distinct (concat (map (\<lambda>(n, a). ap_executables a) (vc_apps cfg)))"
    and apps: "\<And>n a. (n, a) \<in> set (vc_apps cfg) \<Longrightarrow> app_ok ?pool ?m a"
    using scan by (auto simp: scan_ok_def comp_def case_prod_unfold)
  have block: "slot_block ?pool s \<subseteq> net_addrs ?pool" if "(n, a) \<in> set (vc_apps cfg)" "s \<in> set (ap_slots a)" for n a s
    using apps [OF that(1)] that(2) by (intro slot_block_in_pool [OF _ _ ok(3,2)]) (auto simp: app_ok_def)
  have addresses: "concat (map (\<lambda>(n, a). ap_addresses a) (vc_apps cfg))
      = map (slot_address ?pool) (concat (map (\<lambda>(n, a). ap_slots a) (vc_apps cfg)))"
    using apps unfolding map_concat by (intro arg_cong [of _ _ concat]) (auto simp: app_ok_def)
  have "inj_on (slot_address ?pool) (set (concat (map (\<lambda>(n, a). ap_slots a) (vc_apps cfg))))"
    by (rule inj_onI) (auto intro: slot_address_inj [OF ok(1,2) block block])
  then have "distinct (concat (map (\<lambda>(n, a). ap_addresses a) (vc_apps cfg)))"
    unfolding addresses using slots by (simp only: distinct_map simp_thms)
  then show ?thesis using slots paths block apps by (auto simp: app_ok_def slot_block_disjoint)
qed

end
