(* ===== verification/VethFacts.thy ===== *)
theory VethFacts
  imports VethNet PyKeeps VethPolicyFacts
begin

text \<open>
  The elements of a lease in the table, as transactions change them, and the commands that a step of the
  route machine issues.
\<close>

subsection \<open>Transactions\<close>

definition keyed :: "element list \<Rightarrow> ((string \<times> string) \<times> string) list" where
  "keyed es = map (\<lambda>(set_name, v). ((set_name, element_key v), v)) es"

definition element_keys :: "element list \<Rightarrow> (string \<times> string) list" where
  "element_keys es = map (\<lambda>(set_name, v). (set_name, element_key v)) es"

lemma keyed_keys: "map fst (keyed es) = element_keys es"
  by (simp add: keyed_def element_keys_def comp_def case_prod_unfold)

lemma dom_keyed: "dom (map_of (keyed es)) = set (element_keys es)"
  by (simp add: dom_map_of_conv_image_fst keyed_keys [symmetric])

lemma keyed_simps [simp]:
  "keyed [] = []" "keyed ((n, v) # es) = ((n, element_key v), v) # keyed es"
  "element_keys [] = []" "element_keys ((n, v) # es) = (n, element_key v) # element_keys es"
  "added [] = []" "added ((n, v) # es) = AddElement n v # added es"
  "deleted [] = []" "deleted ((n, v) # es) = DeleteElement n (element_key v) # deleted es"
  by (simp_all add: keyed_def element_keys_def added_def deleted_def)

lemma nft_added:
  "distinct (element_keys es) \<Longrightarrow> dom t \<inter> set (element_keys es) = {}
    \<Longrightarrow> nft_rows (added es @ rows) t = nft_rows rows (t ++ map_of (keyed es))"
proof (induction es arbitrary: t)
  case (Cons e es)
  obtain n v where e: "e = (n, v)" by (cases e)
  let ?k = "(n, element_key v)"
  have fresh: "t ?k = None" "?k \<notin> set (element_keys es)" using Cons.prems e by auto
  have "map_of (keyed es) ?k = None" using fresh(2) dom_keyed [of es] by blast
  then have table: "t(?k \<mapsto> v) ++ map_of (keyed es) = t ++ map_of (keyed (e # es))"
    unfolding e by (intro ext) (auto simp add: map_add_def split: option.split)
  have "nft_rows (added (e # es) @ rows) t = nft_rows (added es @ rows) (t(?k \<mapsto> v))"
    using fresh(1) e by simp
  also have "\<dots> = nft_rows rows (t(?k \<mapsto> v) ++ map_of (keyed es))"
    by (rule Cons.IH) (use Cons.prems e fresh(2) in \<open>auto split: if_splits simp: disjoint_iff dom_def\<close>)
  finally show ?case unfolding table .
qed simp

lemma nft_deleted:
  "distinct (element_keys es) \<Longrightarrow> dom base \<inter> set (element_keys es) = {}
    \<Longrightarrow> nft_rows (deleted es @ rows) (base ++ map_of (keyed es)) = nft_rows rows base"
proof (induction es arbitrary: base)
  case (Cons e es)
  obtain n v where e: "e = (n, v)" by (cases e)
  let ?k = "(n, element_key v)"
  have fresh: "base ?k = None" "?k \<notin> set (element_keys es)" using Cons.prems e by auto
  then have none: "map_of (keyed es) ?k = None" using dom_keyed [of es] by blast
  then have undo: "(base ++ map_of (keyed (e # es)))(?k := None) = base ++ map_of (keyed es)"
    unfolding e using fresh(1) by (intro ext) (simp add: map_add_def)
  have "(base ++ map_of (keyed (e # es))) ?k = Some v" unfolding e by simp
  then have "nft_rows (deleted (e # es) @ rows) (base ++ map_of (keyed (e # es)))
      = nft_rows (deleted es @ rows) (base ++ map_of (keyed es))"
    unfolding undo [symmetric] by (simp add: e del: keyed_simps(2))
  also have "\<dots> = nft_rows rows base" by (rule Cons.IH) (use Cons.prems e in auto)
  finally show ?case .
qed simp

lemma nft_replaces:
  assumes "distinct (element_keys old)" "dom base \<inter> set (element_keys old) = {}"
    and "distinct (element_keys new)" "dom base \<inter> set (element_keys new) = {}"
  shows "nft_rows (deleted old @ added new) (base ++ map_of (keyed old)) = Some (base ++ map_of (keyed new))"
  using nft_deleted [OF assms(1,2), of "added new"] nft_added [OF assms(3,4), of "[]"] by simp

subsection \<open>Keys\<close>

definition colon_free :: "string \<Rightarrow> bool" where
  "colon_free s = (CHR '':'' \<notin> set s)"

lemma colon_free_simps [simp]:
  "colon_free []" "colon_free (c # s) \<longleftrightarrow> c \<noteq> CHR '':'' \<and> colon_free s"
  "colon_free (s @ t) \<longleftrightarrow> colon_free s \<and> colon_free t" "colon_free (quoted s) \<longleftrightarrow> colon_free s"
  by (auto simp: colon_free_def quoted_def)

lemma element_key_whole: "colon_free s \<Longrightarrow> element_key s = s"
proof (induction s)
  case (Cons c s)
  then show ?case by (cases s) (auto simp: colon_free_def)
qed simp

lemma element_key_split: "colon_free s \<Longrightarrow> element_key (s @ '' : '' @ v) = s"
proof (induction s)
  case Nil
  show ?case by simp
next
  case (Cons c s)
  then show ?case by (cases s) (auto simp: colon_free_def)
qed

subsection \<open>The elements of a route\<close>

definition clean_lease :: "veth_lease \<Rightarrow> bool" where
  "clean_lease l = (colon_free (vl_name l) \<and> colon_free (vl_address l))"

definition clean_uplink :: "uplink option \<Rightarrow> bool" where
  "clean_uplink c = (case c of None \<Rightarrow> True | Some (iface, source, _) \<Rightarrow> colon_free iface \<and> colon_free source)"

text \<open>No element of the table's other part has a key that a route of this lease may use, with one of the ports \<open>P\<close>.\<close>

definition apart :: "veth_table \<Rightarrow> int option set \<Rightarrow> veth_lease \<Rightarrow> bool" where
  "apart base P l \<longleftrightarrow>
     (\<forall>c. \<forall>p \<in> P. dom base \<inter> set (element_keys (route_elements l c p)) = {})"

lemma dotted_simps [simp]:
  "dotted [a, b] = a @ '' . '' @ b" "dotted [a, b, c] = a @ '' . '' @ b @ '' . '' @ c"
  "dotted [a, b, c, d] = a @ '' . '' @ b @ '' . '' @ c @ '' . '' @ d"
  by (simp_all add: dotted_def)

lemma colon_free_int [simp]: "colon_free (int_str n)"
proof -
  have "CHR '':'' \<notin> set (dec_str m)" if "0 \<le> m" for m
    using is_digit_dec_str [OF that, of "CHR '':''"] by (auto simp: is_digit_def ord_def)
  then show ?thesis by (simp add: colon_free_def int_str_def)
qed

definition egress_keys :: "veth_lease \<Rightarrow> string \<Rightarrow> (string \<times> string) list" where
  "egress_keys l iface =
     [(''pinned'', dotted [quoted (vl_name l), quoted iface]), (''snat_map'', quoted (vl_name l))]"

definition protocol_keys :: "veth_lease \<Rightarrow> string \<Rightarrow> int \<Rightarrow> string \<Rightarrow> (string \<times> string) list" where
  "protocol_keys l source port protocol =
     [(''incoming'', dotted [quoted (vl_name l), vl_address l, protocol, int_str port]),
      (''peer_snat'', dotted [quoted (vl_name l), protocol, int_str port]),
      (''forwards'', dotted [source, protocol, int_str port])]"

lemma egress_element_keys:
  assumes "clean_lease l" "colon_free iface"
  shows "element_keys (egress_elements l iface source) = egress_keys l iface"
  using assms element_key_split [of "quoted (vl_name l)" source]
  by (simp add: egress_elements_def egress_keys_def clean_lease_def element_key_whole)

lemma protocol_element_keys:
  assumes "clean_lease l" "colon_free source" "colon_free protocol"
  shows "element_keys (protocol_elements l source protocol port) = protocol_keys l source port protocol"
proof -
  have "element_key (s @ '' : '' @ v) = s" if "colon_free s" for s v using that by (rule element_key_split)
  from this [of "dotted [quoted (vl_name l), protocol, int_str port]"] this [of "dotted [source, protocol, int_str port]"]
  show ?thesis
    using assms
    by (simp add: protocol_elements_def protocol_keys_def clean_lease_def element_key_whole)
qed

lemma element_keys_append: "element_keys (es @ fs) = element_keys es @ element_keys fs"
  by (simp add: element_keys_def)

lemma route_element_keys:
  assumes "clean_lease l" "clean_uplink (Some (iface, source, mtu))" "vl_pinned l"
  shows "element_keys (route_elements l (Some (iface, source, mtu)) port)
    = egress_keys l iface @ (case port of None \<Rightarrow> []
        | Some p \<Rightarrow> protocol_keys l source p ''tcp'' @ protocol_keys l source p ''udp'')"
  using assms
  by (simp add: route_elements_def element_keys_append egress_element_keys protocol_element_keys clean_uplink_def
      PROTOCOLS_def split: option.split)

lemma route_elements_distinct:
  assumes "clean_lease l" "clean_uplink c"
  shows "distinct (element_keys (route_elements l c p))"
proof (cases c)
  case (Some u)
  obtain iface source mtu where u: "u = (iface, source, mtu)" by (cases u)
  show ?thesis
  proof (cases "vl_pinned l")
    case True
    show ?thesis
      using route_element_keys [of l iface source mtu p] assms Some u True
      by (cases p) (simp_all add: egress_keys_def protocol_keys_def)
  qed (simp add: route_elements_def Some u)
qed (simp add: route_elements_def)

lemma route_elements_cong:
  assumes "vl_name l = vl_name k" "vl_address l = vl_address k" "vl_pinned l = vl_pinned k"
  shows "route_elements l c p = route_elements k c p"
  using assms by (simp add: route_elements_def egress_elements_def protocol_elements_def split: option.split)

lemma route_elements_same_egress:
  "same_egress c d \<Longrightarrow> route_elements l c p = route_elements l d p"
  by (cases c; cases d) (auto simp: same_egress_def route_elements_def split: prod.splits)

end
