(* ===== verification/VethRoute.thy ===== *)
theory VethRoute
  imports VethFacts
begin

text \<open>
  The route of a lease: at every moment the table holds, beside what others put there, exactly the elements of
  one route, and the lease knows how to delete them; the link of a lease with a pinned route is up only if that
  is a real route.
\<close>

subsection \<open>Steps that do not touch the packet path\<close>

definition core :: "veth_lease \<Rightarrow> veth_lease" where
  "core l = l\<lparr>vl_reservations := [], vl_route_reservations := []\<rparr>"

definition kept :: "nat \<Rightarrow> veth_world \<Rightarrow> veth_world \<Rightarrow> bool" where
  "kept i v w =
     (vw_table w = vw_table v \<and> vw_up w = vw_up v \<and> core (vw_leases w i) = core (vw_leases v i))"

interpretation kept: state_rel "kept i" "kept i" for i
  by unfold_locales (auto simp: kept_def)

lemma kept_logged: "kept i w (logged e w)"
  by (simp add: kept_def logged_def)

lemmas kept_rules = kept.keeps_rules

lemma keeps_get: "keeps (kept i) (kept i) (getF f)"
  by (rule kept.keeps_pure) (simp add: getF_def)

lemma keeps_skip: "keeps (kept i) (kept i) skip_op"
  unfolding skip_op_def by (rule kept.keeps_op) (simp add: kept_def)

lemma keeps_enter: "keeps (kept i) (kept i) (enter words data)"
  unfolding enter_def run_argv_def by (rule kept.keeps_op) (rule kept_logged)

lemma keeps_forget_flows: "keeps (kept i) (kept i) (forget_flows d a)"
  unfolding forget_flows_def run_argv_def by (rule kept.keeps_op) (rule kept_logged)

lemma keeps_notify: "keeps (kept i) (kept i) (notify_port env port)"
  unfolding notify_port_def
  by (intro kept_rules keeps_get kept.keeps_op kept_logged)

lemma keeps_close_sockets: "keeps (kept i) (kept i) (close_sockets cs)"
  unfolding close_sockets_def by (rule kept.keeps_assign) (simp add: kept_def)

lemma keeps_set_reservations:
  "keeps (kept i) (kept i) (set_lease i (\<lambda>l. l\<lparr>vl_route_reservations := f l\<rparr>))"
  "keeps (kept i) (kept i) (set_lease i (\<lambda>l. l\<lparr>vl_reservations := f l\<rparr>))"
  unfolding set_lease_def by (rule kept.keeps_assign; simp add: kept_def core_def)+

lemma keeps_reserve: "keeps (kept i) (kept i) (reserve env i a p k b)"
proof -
  have "keeps (kept i) (kept i) (set_lease i
      (\<lambda>l. if b then l\<lparr>vl_route_reservations := vl_route_reservations l @ [c]\<rparr>
           else l\<lparr>vl_reservations := vl_reservations l @ [c]\<rparr>))" for c
    by (cases b) (simp_all add: keeps_set_reservations)
  moreover have "keeps (kept i) (kept i) (op (\<lambda>w. w\<lparr>vw_sockets := c\<rparr>))" for c
    by (rule kept.keeps_op) (simp add: kept_def)
  moreover have "keeps (kept i) (kept i) (op (\<lambda>w. w\<lparr>vw_bound := x # vw_bound w\<rparr>))" for x
    by (rule kept.keeps_op) (simp add: kept_def)
  ultimately show ?thesis
    unfolding reserve_def new_socket_def by (intro kept_rules keeps_get keeps_skip) simp_all
qed

lemma keeps_wireless: "keeps (kept i) (kept i) (wireless_from env iface names)"
proof (induction names)
  case (Cons n ns)
  then show ?case by (simp, intro kept_rules keeps_get keeps_skip) 
qed (simp add: kept_rules)

lemma keeps_active_port: "keeps (kept i) (kept i) (active_port env l c)"
  unfolding active_port_def wireless_interface_def
  by (auto split: option.split peer_port.split intro!: kept_rules keeps_wireless simp del: wireless_from.simps)

lemma keeps_reserve_route: "keeps (kept i) (kept i) (reserve_route env j l c p)"
  if "j = i"
  unfolding reserve_route_def that
  by (auto split: option.split intro!: kept_rules keeps_reserve)

subsection \<open>The mapping of a lease\<close>

definition mapped :: "veth_table \<Rightarrow> nat \<Rightarrow> uplink option \<Rightarrow> int option \<Rightarrow> veth_world \<Rightarrow> bool" where
  "mapped base i c p w \<longleftrightarrow>
     vl_route_remove (vw_leases w i) = deleted (route_elements (vw_leases w i) c p)
     \<and> vw_table w = base ++ map_of (keyed (route_elements (vw_leases w i) c p))
     \<and> (vw_up w (vl_name (vw_leases w i)) \<longrightarrow> c \<noteq> None \<or> \<not> vl_pinned (vw_leases w i))"

text \<open>The ports that the lease may come to use.\<close>

definition ports_in :: "int option set \<Rightarrow> veth_lease \<Rightarrow> bool" where
  "ports_in P l \<longleftrightarrow> vl_peer_port l \<in> P
     \<and> (case vl_port_policy l of UplinkPorts e w \<Rightarrow> {Some e, Some w} \<subseteq> P | _ \<Rightarrow> True)"

definition steady :: "veth_table \<Rightarrow> int option set \<Rightarrow> uplink option set \<Rightarrow> veth_lease \<Rightarrow> bool" where
  "steady base P R l \<longleftrightarrow> clean_lease l \<and> ports_in P l \<and> apart base P l \<and> (\<forall>c \<in> R. clean_uplink c)"

definition exact :: "veth_table \<Rightarrow> int option set \<Rightarrow> uplink option set \<Rightarrow> nat \<Rightarrow> veth_world \<Rightarrow> bool" where
  "exact base P R i w \<longleftrightarrow> steady base P R (vw_leases w i)
     \<and> (\<exists>c p. c \<in> R \<and> p \<in> P \<and> mapped base i c p w)"

definition route_settled :: "veth_table \<Rightarrow> nat \<Rightarrow> veth_world \<Rightarrow> bool" where
  "route_settled base i w \<longleftrightarrow>
     (let l = vw_leases w i in
      vl_initialized l \<and> vl_retry_at l = None \<longrightarrow>
        mapped base i (vl_uplink l) (vl_peer_port l) w
        \<and> vw_up w (vl_name l) = (vl_uplink l \<noteq> None \<or> \<not> vl_pinned l))"

text \<open>\<open>nft\<close> does what it documents with a transaction that is applicable; which others it accepts is left open.
  Whether it has committed one for which the daemon sees a failure (\<open>ve_late\<close>) is left open too.\<close>

definition documented_nft :: "veth_env \<Rightarrow> bool" where
  "documented_nft env \<longleftrightarrow> (\<forall>rows t u. nft_rows rows t = Some u \<longrightarrow> ve_nft env rows t = Some u)"

definition may_be_late :: "veth_env \<Rightarrow> bool" where
  "may_be_late env \<longleftrightarrow> (\<exists>n. ve_late env n \<noteq> None)"

text \<open>After a transaction that committed but was seen as failed: the link is down, the elements are those of the
  new route \<open>c\<close>, and the lease would still delete those of an earlier one.\<close>

definition adrift ::
  "veth_table \<Rightarrow> int option set \<Rightarrow> uplink option set \<Rightarrow> nat \<Rightarrow> uplink option \<Rightarrow> veth_world \<Rightarrow> bool" where
  "adrift base P R i c w \<longleftrightarrow> steady base P R (vw_leases w i) \<and> \<not> vw_up w (vl_name (vw_leases w i))
     \<and> (\<exists>p \<in> P. vw_table w = base ++ map_of (keyed (route_elements (vw_leases w i) c p)))
     \<and> (\<exists>c0 \<in> R. \<exists>p0 \<in> P. vl_route_remove (vw_leases w i) = deleted (route_elements (vw_leases w i) c0 p0))"

lemma core_fields:
  assumes "core l = core k"
  shows "vl_name l = vl_name k" "vl_address l = vl_address k" "vl_pinned l = vl_pinned k"
    "vl_port_policy l = vl_port_policy k" "vl_peer_port l = vl_peer_port k" "vl_channel l = vl_channel k"
    "vl_uplink l = vl_uplink k" "vl_retry_at l = vl_retry_at k" "vl_initialized l = vl_initialized k"
    "vl_route_remove l = vl_route_remove k"
  using assms by (cases l; cases k; simp add: core_def)+

text \<open>Between the link down and the link up the mapping is that of \<open>c\<close> and \<open>p\<close> for the lease \<open>l\<close>, up to what
  \<open>kept\<close> leaves open.\<close>

definition staged :: "veth_table \<Rightarrow> nat \<Rightarrow> veth_lease \<Rightarrow> uplink option \<Rightarrow> int option \<Rightarrow> veth_world \<Rightarrow> bool" where
  "staged base i l c p w \<longleftrightarrow>
     core ((vw_leases w i)\<lparr>vl_route_remove := []\<rparr>) = core (l\<lparr>vl_route_remove := []\<rparr>)
     \<and> vl_route_remove (vw_leases w i) = deleted (route_elements l c p)
     \<and> vw_table w = base ++ map_of (keyed (route_elements l c p)) \<and> \<not> vw_up w (vl_name l)"

lemma staged_kept: "staged base i l c p v \<Longrightarrow> kept i v w \<Longrightarrow> staged base i l c p w"
  unfolding staged_def kept_def core_def
  by (cases "vw_leases v i"; cases "vw_leases w i") simp

lemma staged_fields:
  assumes "staged base i l c p w"
  shows "vl_name (vw_leases w i) = vl_name l" "vl_address (vw_leases w i) = vl_address l"
    "vl_pinned (vw_leases w i) = vl_pinned l" "vl_port_policy (vw_leases w i) = vl_port_policy l"
    "vl_peer_port (vw_leases w i) = vl_peer_port l"
  using core_fields [of "(vw_leases w i)\<lparr>vl_route_remove := []\<rparr>" "l\<lparr>vl_route_remove := []\<rparr>"] assms
  by (simp_all add: staged_def)

lemma staged_mapped: "staged base i l c p w \<Longrightarrow> mapped base i c p w"
  using staged_fields [of base i l c p w] route_elements_cong [of "vw_leases w i" l c p]
  by (simp add: mapped_def staged_def)

lemma steady_cong:
  assumes "vl_name l = vl_name k" "vl_address l = vl_address k" "vl_pinned l = vl_pinned k"
    "vl_port_policy l = vl_port_policy k" "vl_peer_port l = vl_peer_port k"
  shows "steady base P R l = steady base P R k"
  using assms route_elements_cong [of l k] by (simp add: steady_def clean_lease_def ports_in_def apart_def)

lemma staged_exact:
  assumes "staged base i l c p w" "steady base P R l" "c \<in> R" "p \<in> P"
  shows "exact base P R i w"
  using staged_mapped [OF assms(1)] steady_cong [OF staged_fields [OF assms(1)]] assms(2-4) by (auto simp: exact_def)

text \<open>A step that keeps the packet path, between stages.\<close>

lemma wpF_kept:
  assumes "keeps (kept i) (kept i) m" "staged base i l c p (sys_world s)"
    and "\<And>x t. staged base i l c p (sys_world t) \<Longrightarrow> Q x t"
    and "\<And>e t. staged base i l c p (sys_world t) \<Longrightarrow> E e t"
  shows "wpF m Q E s"
  by (rule wpF_mono [OF keepsD [OF assms(1)]]) (use assms(2-4) staged_kept in \<open>auto split: if_splits\<close>)

subsection \<open>The steps of a replacement\<close>

lemma link_down_stages:
  assumes "mapped base i c p (sys_world s)" "l = vw_leases (sys_world s) i"
    and "\<And>t. staged base i l c p (sys_world t) \<Longrightarrow> Q () t"
    and "\<And>e t. staged base i l c p (sys_world t) \<or> sys_world t = sys_world s \<Longrightarrow> E e t"
  shows "wpF (link_down (vl_name l)) Q E s"
  unfolding link_down_def link_set_def run_argv_def
proof (rule wpF_opI)
  let ?f = "\<lambda>w. logged (Command ([''/usr/sbin/ip'', ''link'', ''set'', ''dev''] @ [vl_name l, ''down'']) []) w
      \<lparr>vw_up := (vw_up (logged (Command ([''/usr/sbin/ip'', ''link'', ''set'', ''dev''] @ [vl_name l, ''down'']) []) w))
         (vl_name l := False)\<rparr>"
  have "staged base i l c p (?f (sys_world s))" using assms(1,2) by (simp add: staged_def mapped_def logged_def)
  then show "sys_world t = ?f (sys_world s) \<Longrightarrow> Q () t" "sys_world t = ?f (sys_world s) \<Longrightarrow> E e t" for t e
    using assms(3,4) by simp_all
  show "sys_world t = sys_world s \<Longrightarrow> E e t" for t e using assms(4) by simp
qed

lemma route_rows:
  assumes "steady base P R l" "c \<in> R" "p \<in> P" "c' \<in> R" "p' \<in> P"
  shows "nft_rows (deleted (route_elements l c p) @ added (route_elements l c' p'))
      (base ++ map_of (keyed (route_elements l c p))) = Some (base ++ map_of (keyed (route_elements l c' p')))"
  by (rule nft_replaces)
    (use assms route_elements_distinct in \<open>auto simp: steady_def apart_def\<close>)

lemma committed:
  assumes "staged base i l c p w"
    and "w' = w \<or> w' = logged e w\<lparr>vw_table := base ++ map_of (keyed (route_elements l c' p'))\<rparr>"
    and "w' = w \<Longrightarrow> vw_table w = base ++ map_of (keyed (route_elements l c' p'))"
  shows "staged base i l c' p' (w'\<lparr>vw_leases := (vw_leases w')
     (i := (vw_leases w' i)\<lparr>vl_route_remove := deleted (route_elements l c' p')\<rparr>)\<rparr>)"
  using assms by (auto simp: staged_def logged_def)

lemma staged_adrift:
  assumes "staged base i l c p w" "steady base P R l" "c \<in> R" "p \<in> P" "p' \<in> P"
  shows "adrift base P R i c' ((logged e w)\<lparr>vw_table := base ++ map_of (keyed (route_elements l c' p'))\<rparr>)"
proof -
  note f = staged_fields [OF assms(1)]
  have same: "route_elements (vw_leases w i) d q = route_elements l d q" for d q
    by (rule route_elements_cong) (use f in auto)
  have "steady base P R (vw_leases w i)" using steady_cong [OF f] assms(2) by blast
  moreover have "\<exists>c0 \<in> R. \<exists>p0 \<in> P. vl_route_remove (vw_leases w i) = deleted (route_elements l c0 p0)"
    using assms(1,3,4) unfolding staged_def by blast
  ultimately show ?thesis
    unfolding adrift_def using assms(1,5) f(1) same by (auto simp: logged_def staged_def)
qed

lemma nft_commits:
  assumes start: "staged base i l c p (sys_world s)"
    and ok: "steady base P R l" "c \<in> R" "p \<in> P" "c' \<in> R" "p' \<in> P" "documented_nft env"
    and rows: "rows = vl_route_remove l @ added (route_elements l c' p')" "vl_route_remove l = deleted (route_elements l c p)"
    and Q: "\<And>t. staged base i l c' p' (sys_world t) \<Longrightarrow> Q () t"
    and E: "\<And>e t. staged base i l c p (sys_world t) \<Longrightarrow> E e t"
    and L: "\<And>e t. may_be_late env \<Longrightarrow> adrift base P R i c' (sys_world t) \<Longrightarrow> E e t"
  shows "wpF (whenF (rows \<noteq> []) (nft env rows)) (\<lambda>_. wpF
      (set_lease i (\<lambda>l'. l'\<lparr>vl_route_remove := deleted (route_elements l c' p')\<rparr>)) Q E) E s"
proof (cases "rows = []")
  case True
  then have none: "route_elements l c p = []" "route_elements l c' p' = []"
    using rows by (auto simp: deleted_def added_def)
  with start have "staged base i l c' p' (sys_world s\<lparr>vw_leases := (vw_leases (sys_world s))
     (i := (vw_leases (sys_world s) i)\<lparr>vl_route_remove := deleted (route_elements l c' p')\<rparr>)\<rparr>)"
    by (intro committed [OF start]) (auto simp: staged_def)
  then show ?thesis using True by (simp add: wp set_lease_def Q)
next
  case False
  let ?e = "Command [''/usr/sbin/nft'', ''-f'', ''-''] (nft_text rows)"
  have table: "ve_nft env rows (vw_table (sys_world t)) = Some (base ++ map_of (keyed (route_elements l c' p')))"
    if "staged base i l c p (sys_world t)" for t
    using route_rows [OF ok(1-5)] that rows ok(6) by (simp add: staged_def documented_nft_def)
  let ?w = "(logged ?e (sys_world s))\<lparr>vw_table := base ++ map_of (keyed (route_elements l c' p'))\<rparr>"
  have new: "?w \<noteq> sys_world s" by (auto simp: logged_def dest: arg_cong [of _ _ vw_log])
  have fine: "Q () t" if "sys_world t = ?w\<lparr>vw_leases := (vw_leases ?w)
      (i := (vw_leases ?w i)\<lparr>vl_route_remove := deleted (route_elements l c' p')\<rparr>)\<rparr>" for t
    by (rule Q, unfold that, rule committed [OF start, where e = ?e]) (simp_all add: new)
  have late: "E e t" if "ve_late env n = Some e"
      "sys_world t = ?w" for n e t
    by (rule L) (use that staged_adrift [OF start ok(1-3) ok(5)] in \<open>auto simp: may_be_late_def\<close>)
  show ?thesis
    unfolding wpF_when if_P [OF False] nft_def wpF_bind wpF_look wpF_seq wpF_seq_eta table [OF start]
  proof (rule wpF_skipI, goal_cases)
    case (1 u)
    then show ?case by (auto simp: wp set_lease_def logged_def split: option.split intro: fine late)
  qed (use start in \<open>simp add: E\<close>)
qed

text \<open>The end of a replacement: the route is in force.\<close>

definition in_force :: "veth_table \<Rightarrow> int option set \<Rightarrow> uplink option set \<Rightarrow> nat \<Rightarrow> uplink option \<Rightarrow> veth_world \<Rightarrow> bool" where
  "in_force base P R i c w \<longleftrightarrow>
     exact base P R i w \<and> route_settled base i w
     \<and> vl_initialized (vw_leases w i) \<and> vl_retry_at (vw_leases w i) = None \<and> vl_uplink (vw_leases w i) = c"

definition concluded :: "uplink option \<Rightarrow> int option \<Rightarrow> veth_lease \<Rightarrow> veth_lease" where
  "concluded c p l = l\<lparr>vl_uplink := c, vl_initialized := True, vl_retry_at := None, vl_peer_port := p\<rparr>"

lemma concluded_in_force:
  assumes "mapped base i c p w" "steady base P R (vw_leases w i)" "c \<in> R" "p \<in> P"
    and "vw_up w (vl_name (vw_leases w i)) = (c \<noteq> None \<or> \<not> vl_pinned (vw_leases w i))"
  shows "in_force base P R i c (w\<lparr>vw_leases := (vw_leases w)(i := concluded c p (vw_leases w i))\<rparr>)"
proof -
  let ?l = "vw_leases w i" and ?w = "w\<lparr>vw_leases := (vw_leases w)(i := concluded c p (vw_leases w i))\<rparr>"
  have same: "route_elements (concluded c p ?l) d q = route_elements ?l d q" for d q
    by (rule route_elements_cong) (simp_all add: concluded_def)
  have "mapped base i c p ?w" using assms(1) same by (simp add: mapped_def) (simp add: concluded_def)
  moreover have "steady base P R (concluded c p ?l)"
    using assms(2,4) same by (simp add: steady_def apart_def clean_lease_def ports_in_def) (simp add: concluded_def)
  ultimately show ?thesis
    using assms(3-5) unfolding in_force_def exact_def route_settled_def by (auto simp: concluded_def Let_def)
qed

lemma staged_up:
  assumes "staged base i l c p w" "c \<noteq> None \<or> \<not> vl_pinned l" "w' = logged e w\<lparr>vw_up := (vw_up w)(vl_name l := True)\<rparr>"
  shows "mapped base i c p w'" "vw_leases w' = vw_leases w" "vw_up w' (vl_name (vw_leases w i))"
  using staged_mapped [OF assms(1)] staged_fields [OF assms(1)] assms(2)
  unfolding assms(3) by (auto simp: mapped_def logged_def)

lemma finish_route_in_force:
  assumes start: "staged base i l c p (sys_world s)"
    and ok: "steady base P R l" "c \<in> R" "p \<in> P"
    and Q: "\<And>t. in_force base P R i c (sys_world t) \<Longrightarrow> Q () t"
    and E: "\<And>e t. exact base P R i (sys_world t) \<Longrightarrow> E e t"
  shows "wpF (finish_route env i l c p) Q E s"
proof -
  have steady: "steady base P R (vw_leases w i)" if "staged base i l c p w" for w
    using steady_cong [OF staged_fields [OF that]] ok(1) by blast
  have E': "E e t" if "staged base i l c p (sys_world t)" for e t
    by (rule E) (rule staged_exact [OF that ok])
  have flows: "keeps (kept i) (kept i) (forF (\<lambda>d. forget_flows d a) ds)" for a ds
    by (intro kept_rules keeps_forget_flows)
  have final: "wpF (set_lease i (\<lambda>l. l\<lparr>vl_uplink := c, vl_initialized := True, vl_retry_at := None, vl_peer_port := p\<rparr>))
       (\<lambda>_. wpF skip_op Q E) E t"
    if m: "mapped base i c p (sys_world t)" "steady base P R (vw_leases (sys_world t) i)"
       "vw_up (sys_world t) (vl_name (vw_leases (sys_world t) i)) = (c \<noteq> None \<or> \<not> vl_pinned (vw_leases (sys_world t) i))"
    for t
  proof -
    have f: "in_force base P R i c (sys_world t\<lparr>vw_leases := (vw_leases (sys_world t))
       (i := concluded c p (vw_leases (sys_world t) i))\<rparr>)"
      by (rule concluded_in_force [OF m(1,2) ok(2,3) m(3)])
    then have g: "exact base P R i (sys_world t\<lparr>vw_leases := (vw_leases (sys_world t))
       (i := concluded c p (vw_leases (sys_world t) i))\<rparr>)" by (simp add: in_force_def)
    show ?thesis
      unfolding set_lease_def concluded_def [symmetric] wpF_assign
      by (rule wpF_skipI; simp add: Q E f g)
  qed
  have up: "wpF (whenF (c \<noteq> None \<or> \<not> vl_pinned l) (link_up (vl_name l) m)) (\<lambda>_. wpF
      (set_lease i (\<lambda>l. l\<lparr>vl_uplink := c, vl_initialized := True, vl_retry_at := None, vl_peer_port := p\<rparr>))
       (\<lambda>_. wpF skip_op Q E) E) E t" if st: "staged base i l c p (sys_world t)" for m t
  proof (cases "c \<noteq> None \<or> \<not> vl_pinned l")
    case True
    show ?thesis
      unfolding wpF_when if_P [OF True] link_up_def link_set_def run_argv_def
    proof (rule wpF_opI)
      fix t' :: "veth_world sys"
      let ?e = "Command ([''/usr/sbin/ip'', ''link'', ''set'', ''dev''] @ [vl_name l, ''mtu'', int_str m, ''up'']) []"
      assume "sys_world t' = (logged ?e (sys_world t))\<lparr>vw_up := (vw_up (logged ?e (sys_world t)))(vl_name l := True)\<rparr>"
      then have w: "sys_world t' = (logged ?e (sys_world t))\<lparr>vw_up := (vw_up (sys_world t))(vl_name l := True)\<rparr>"
        by (simp add: logged_def)
      note u = staged_up [OF st True w]
      have "steady base P R (vw_leases (sys_world t') i)" unfolding u(2) by (rule steady [OF st])
      moreover have "vw_up (sys_world t') (vl_name (vw_leases (sys_world t') i))
          = (c \<noteq> None \<or> \<not> vl_pinned (vw_leases (sys_world t') i))"
        using u(2,3) True staged_fields [OF st] by simp
      ultimately show "wpF (set_lease i (\<lambda>l. l\<lparr>vl_uplink := c, vl_initialized := True, vl_retry_at := None,
          vl_peer_port := p\<rparr>)) (\<lambda>_. wpF skip_op Q E) E t'" by (intro final u(1))
    next
      fix cs and t' :: "veth_world sys" assume "sys_world t' = sys_world t"
      then show "E (exn_of cs) t'" using E' st by simp
    next
      fix cs and t' :: "veth_world sys"
      let ?e = "Command ([''/usr/sbin/ip'', ''link'', ''set'', ''dev''] @ [vl_name l, ''mtu'', int_str m, ''up'']) []"
      assume "sys_world t' = (logged ?e (sys_world t))\<lparr>vw_up := (vw_up (logged ?e (sys_world t)))(vl_name l := True)\<rparr>"
      then have w: "sys_world t' = (logged ?e (sys_world t))\<lparr>vw_up := (vw_up (sys_world t))(vl_name l := True)\<rparr>"
        by (simp add: logged_def)
      note u = staged_up [OF st True w]
      have "steady base P R (vw_leases (sys_world t') i)" unfolding u(2) by (rule steady [OF st])
      then show "E (exn_of cs) t'" using u(1) ok(2,3) by (intro E) (auto simp: exact_def)
    qed
  next
    case False
    have "\<not> vw_up (sys_world t) (vl_name (vw_leases (sys_world t) i))"
      "vl_pinned (vw_leases (sys_world t) i) = vl_pinned l"
      using st staged_fields [OF st] by (simp_all add: staged_def)
    then show ?thesis
      using False final [OF staged_mapped [OF st] steady [OF st]] unfolding wpF_when by simp
  qed
  show ?thesis
    unfolding finish_route_def wpF_seq wpF_seq_eta
    apply (rule wpF_kept [OF flows start _ E'])
     apply (rule wpF_kept [OF keeps_enter _ _ E'], assumption)
      apply (rule wpF_kept [OF _ _ _ E'])
         apply (rule kept.keeps_when, rule keeps_notify)
        apply assumption
       apply (rule up, assumption+)
    done
qed

subsection \<open>\<open>update_route\<close> and \<open>refresh_route\<close>\<close>

lemma active_port_in:
  assumes "ports_in P l"
  shows "wpF (active_port env l c) (\<lambda>p _. p \<in> P) (\<lambda>_ _. True) s"
proof -
  have any: "wpF (wireless_interface env iface) (\<lambda>w _. (if w then Some b else Some a) \<in> P) (\<lambda>_ _. True) s"
    if "{Some a, Some b} \<subseteq> P" for iface a b
    by (rule wpF_mono [OF wpF_any]) (use that in auto)
  have choice: "wpF (wireless_interface env iface) (\<lambda>w. wpF (retF (Some (if w then b else a))) (\<lambda>p _. p \<in> P) (\<lambda>_ _. True))
      (\<lambda>_ _. True) s" if "{Some a, Some b} \<subseteq> P" for iface a b
    by (rule wpF_mono [OF any [OF that, of iface]]) (auto simp: wp split: if_splits)
  show ?thesis
    using assms choice by (auto simp: active_port_def ports_in_def wp split: option.split peer_port.split peer_port.splits)
qed

lemma active_port_staged:
  assumes "staged base i l c0 p0 (sys_world s)" "ports_in P l"
    and "\<And>p t. staged base i l c0 p0 (sys_world t) \<Longrightarrow> p \<in> P \<Longrightarrow> Q p t"
    and "\<And>e t. staged base i l c0 p0 (sys_world t) \<Longrightarrow> E e t"
  shows "wpF (active_port env l c) Q E s"
  by (rule wpF_mono [OF wpF_conj [OF active_port_in [OF assms(2)] keepsD [OF keeps_active_port [of i]]]])
    (use assms(1,3,4) staged_kept in \<open>auto split: if_splits\<close>)

lemma replace_mapping_in_force:
  assumes start: "mapped base i c0 p0 (sys_world s)" "l = vw_leases (sys_world s) i"
    and ok: "steady base P R l" "c0 \<in> R" "p0 \<in> P" "c \<in> R" "documented_nft env"
    and Q: "\<And>t. in_force base P R i c (sys_world t) \<Longrightarrow> Q () t"
    and E: "\<And>e t. exact base P R i (sys_world t) \<Longrightarrow> E e t"
    and L: "\<And>e t. may_be_late env \<Longrightarrow> adrift base P R i c (sys_world t) \<Longrightarrow> E e t"
  shows "wpF (replace_mapping env i l c) Q E s"
proof -
  have E': "E e t" if "staged base i l c0 p0 (sys_world t)" for e t
    by (rule E) (rule staged_exact [OF that ok(1-3)])
  have "exact base P R i (sys_world s)" unfolding exact_def using start ok(1-3) by blast
  then have E0: "E e t" if "staged base i l c0 p0 (sys_world t) \<or> sys_world t = sys_world s" for e t
    using that E' E [of t e] by auto
  have remove: "vl_route_remove l = deleted (route_elements l c0 p0)"
    using start by (simp add: mapped_def)
  have ports: "ports_in P l" using ok(1) by (simp add: steady_def)
  have commit: "wpF (whenF (vl_route_remove l @ added (route_elements l c p) \<noteq> [])
        (nft env (vl_route_remove l @ added (route_elements l c p))))
      (\<lambda>_. wpF (set_lease i (\<lambda>l'. l'\<lparr>vl_route_remove := deleted (route_elements l c p)\<rparr>))
        (\<lambda>_. wpF (finish_route env i l c p) Q E) E) E t"
    if "staged base i l c0 p0 (sys_world t)" "p \<in> P" for t p
    by (rule nft_commits [OF that(1) ok(1-4) that(2) ok(5) refl remove _ E'])
      (rule finish_route_in_force [OF _ ok(1,4) that(2)], assumption, erule Q, erule E, assumption, erule (1) L)
  show ?thesis
    unfolding replace_mapping_def Let_def wpF_seq wpF_seq_eta wpF_bind
    apply (rule link_down_stages [OF start _ E0])
     apply (rule wpF_kept [OF keeps_close_sockets _ _ E'], assumption)
      apply (rule wpF_kept [OF keeps_set_reservations(1) _ _ E'], assumption)
       apply (rule active_port_staged [OF _ ports _ E'], assumption)
        apply (rule wpF_kept [OF keeps_reserve_route [OF refl] _ _ E'], assumption)
         apply (rule commit)
          apply assumption+
    done
qed

lemma mapped_cong:
  assumes "vw_leases v i = l" "vw_leases w i = (vw_leases v i)\<lparr>vl_uplink := u, vl_retry_at := r\<rparr>"
    and "vw_table w = vw_table v" "vw_up w = vw_up v"
  shows "mapped base i c p w = mapped base i c p v"
proof -
  have "route_elements (vw_leases w i) c p = route_elements (vw_leases v i) c p"
    by (rule route_elements_cong) (simp_all add: assms(2))
  then show ?thesis using assms(2-4) by (simp add: mapped_def)
qed

lemma exact_cong:
  assumes "vw_leases w i = (vw_leases v i)\<lparr>vl_uplink := u, vl_retry_at := r\<rparr>"
    and "vw_table w = vw_table v" "vw_up w = vw_up v"
  shows "exact base P R i w = exact base P R i v"
proof -
  have "steady base P R (vw_leases w i) = steady base P R (vw_leases v i)"
    by (rule steady_cong) (simp_all add: assms(1))
  then show ?thesis using mapped_cong [OF refl assms] by (simp add: exact_def)
qed

text \<open>The invariant of a lease between two calls.\<close>

definition route_inv :: "veth_table \<Rightarrow> int option set \<Rightarrow> uplink option set \<Rightarrow> nat \<Rightarrow> veth_world \<Rightarrow> bool" where
  "route_inv base P R i w \<longleftrightarrow> exact base P R i w \<and> route_settled base i w"

lemma kept_mapped:
  assumes "kept i v w"
  shows "mapped base i c p w = mapped base i c p v" "steady base P R (vw_leases w i) = steady base P R (vw_leases v i)"
proof -
  have "core (vw_leases w i) = core (vw_leases v i)" using assms by (simp add: kept_def)
  note f = core_fields [OF this]
  have "route_elements (vw_leases w i) c p = route_elements (vw_leases v i) c p"
    by (rule route_elements_cong) (use f in auto)
  then show "mapped base i c p w = mapped base i c p v" using assms f by (simp add: mapped_def kept_def)
  show "steady base P R (vw_leases w i) = steady base P R (vw_leases v i)" by (rule steady_cong) (use f in auto)
qed

lemma kept_exact: "kept i v w \<Longrightarrow> exact base P R i v \<Longrightarrow> exact base P R i w"
  using kept_mapped [of i v w] by (auto simp: exact_def)

lemma kept_settled: "kept i v w \<Longrightarrow> route_settled base i v \<Longrightarrow> route_settled base i w"
  using kept_mapped(1) [of i v w] core_fields [of "vw_leases w i" "vw_leases v i"]
  by (auto simp: route_settled_def Let_def kept_def)

lemma wpF_path:
  assumes "keeps (kept i) (kept i) m" "kept i v (sys_world s)" "exact base P R i v"
    and "\<And>x t. kept i v (sys_world t) \<Longrightarrow> Q x t"
    and "\<And>e t. exact base P R i (sys_world t) \<Longrightarrow> E e t"
  shows "wpF m Q E s"
proof (rule wpF_mono [OF keepsD [OF assms(1)]])
  have step: "kept i v (sys_world t)" if "kept i (sys_world s) (sys_world t)" for t
    using that assms(2) by (simp add: kept_def)
  show "Q x t" if "kept i (sys_world s) (sys_world t)" for x t using step [OF that] by (rule assms(4))
  show "E e t" if "if is_exception e then kept i (sys_world s) (sys_world t) else kept i (sys_world s) (sys_world t)" for e t
    using that by (intro assms(5) kept_exact [OF step assms(3)]) (simp split: if_splits)
qed

lemma keeps_link_words: "keeps (kept i) (kept i) (link_set words (\<lambda>w. w))"
  unfolding link_set_def run_argv_def by (rule kept.keeps_op) (rule kept_logged)

lemma egress_in_force:
  assumes "exact base P R i w" "route_settled base i w" "same_egress c (vl_uplink (vw_leases w i))"
    and "vl_initialized (vw_leases w i)" "vl_retry_at (vw_leases w i) = None"
  shows "in_force base P R i c (w\<lparr>vw_leases := (vw_leases w)(i := (vw_leases w i)\<lparr>vl_uplink := c\<rparr>)\<rparr>)"
proof -
  let ?l = "vw_leases w i" and ?w = "w\<lparr>vw_leases := (vw_leases w)(i := (vw_leases w i)\<lparr>vl_uplink := c\<rparr>)\<rparr>"
  have cong: "exact base P R i ?w = exact base P R i w" "mapped base i d p ?w = mapped base i d p w" for d p
    using exact_cong [where w = ?w and v = w and i = i and u = c and r = "vl_retry_at ?l"]
      mapped_cong [where w = ?w and v = w and i = i and u = c and r = "vl_retry_at ?l", OF refl] by simp_all
  have some: "c \<noteq> None" "vl_uplink ?l \<noteq> None" using assms(3) by (auto simp: same_egress_def split: option.splits)
  have "mapped base i (vl_uplink ?l) (vl_peer_port ?l) w" "vw_up w (vl_name ?l)"
    using assms(2,4,5) some(2) by (simp_all add: route_settled_def Let_def)
  then have "mapped base i c (vl_peer_port ?l) w"
    using route_elements_same_egress [OF assms(3), of ?l] some(1) by (simp add: mapped_def)
  then show ?thesis
    using assms(1,4,5) cong some(1) \<open>vw_up w (vl_name ?l)\<close> by (simp add: in_force_def route_settled_def Let_def)
qed

lemma update_mtu_in_force:
  assumes start: "exact base P R i (sys_world s)" "route_settled base i (sys_world s)" "l = vw_leases (sys_world s) i"
    and same: "same_egress c (vl_uplink l)" "vl_initialized l" "vl_retry_at l = None"
    and Q: "\<And>t. in_force base P R i c (sys_world t) \<Longrightarrow> Q () t"
    and E: "\<And>e t. exact base P R i (sys_world t) \<Longrightarrow> E e t"
  shows "wpF (update_mtu env i l c m) Q E s"
proof -
  have set_it: "wpF (set_lease i (\<lambda>l. l\<lparr>vl_uplink := c\<rparr>)) (\<lambda>_. wpF skip_op Q E) E t"
    if k: "kept i (sys_world s) (sys_world t)" for t
  proof -
    have "core (vw_leases (sys_world t) i) = core l" using k start(3) by (simp add: kept_def)
    note f = core_fields [OF this]
    have i: "in_force base P R i c (sys_world t\<lparr>vw_leases := (vw_leases (sys_world t))
        (i := (vw_leases (sys_world t) i)\<lparr>vl_uplink := c\<rparr>)\<rparr>)"
      by (rule egress_in_force) (use kept_exact [OF k start(1)] kept_settled [OF k start(2)] f same in auto)
    then have "exact base P R i (sys_world t\<lparr>vw_leases := (vw_leases (sys_world t))
        (i := (vw_leases (sys_world t) i)\<lparr>vl_uplink := c\<rparr>)\<rparr>)" by (simp add: in_force_def)
    with i show ?thesis unfolding set_lease_def wpF_assign by (intro wpF_skipI) (simp_all add: Q E)
  qed
  have "kept i (sys_world s) (sys_world s)" by (simp add: kept_def)
  then show ?thesis
    unfolding update_mtu_def wpF_seq wpF_seq_eta
    by (intro wpF_path [OF keeps_enter _ start(1)] wpF_path [OF keeps_link_words _ start(1)] set_it E)
qed

lemma update_route_in_force:
  assumes start: "route_inv base P R i (sys_world s)" and ok: "c \<in> R" "documented_nft env"
    and Q: "\<And>t. in_force base P R i c (sys_world t) \<Longrightarrow> Q () t"
    and E: "\<And>e t. exact base P R i (sys_world t) \<Longrightarrow> E e t"
    and L: "\<And>e t. may_be_late env \<Longrightarrow> adrift base P R i c (sys_world t) \<Longrightarrow> E e t"
  shows "wpF (update_route env i c) Q E s"
proof -
  define l where "l = vw_leases (sys_world s) i"
  have e: "exact base P R i (sys_world s)" and st: "route_settled base i (sys_world s)"
    using start by (simp_all add: route_inv_def)
  obtain c0 p0 where m: "mapped base i c0 p0 (sys_world s)" "c0 \<in> R" "p0 \<in> P" "steady base P R l"
    using e unfolding exact_def l_def by blast
  have same: "Q () s" if "vl_initialized l \<and> c = vl_uplink l \<and> vl_retry_at l = None"
    by (rule Q) (use that e st in \<open>auto simp: in_force_def l_def\<close>)
  have mtu: "wpF (update_mtu env i l c m) Q E s"
    if "vl_initialized l \<and> vl_retry_at l = None \<and> same_egress c (vl_uplink l)" for m
    by (rule update_mtu_in_force [OF e st l_def]) (use that Q E in auto)
  have other: "wpF (replace_mapping env i l c) Q E s"
    by (rule replace_mapping_in_force [OF m(1) l_def m(4,2,3) ok], erule Q, erule E, erule (1) L)
  show ?thesis
    unfolding update_route_def lease_of_def wpF_bind wpF_look l_def [symmetric]
    using same mtu other by (simp add: wp)
qed

text \<open>A failed update is put off.\<close>

lemma postpone_wp:
  assumes "\<And>n t. sys_world t = sys_world s\<lparr>vw_leases := (vw_leases (sys_world s))
      (i := (vw_leases (sys_world s) i)\<lparr>vl_uplink := c, vl_retry_at := Some n\<rparr>)\<rparr> \<Longrightarrow> Q () t \<and> (\<forall>e. E e t)"
  shows "wpF (postpone env i c) Q E s"
  unfolding postpone_def set_lease_def veth_monotonic_def wpF_seq wpF_bind wpF_assign wpF_get
  by (rule wpF_skipI) (use assms in auto)

lemma put_off_inv:
  assumes "exact base P R i v"
    and "w = v\<lparr>vw_leases := (vw_leases v)(i := (vw_leases v i)\<lparr>vl_uplink := c, vl_retry_at := Some n\<rparr>)\<rparr>"
  shows "route_inv base P R i w" "vl_retry_at (vw_leases w i) \<noteq> None"
proof -
  have "exact base P R i w" using exact_cong [where w = w and i = i and v = v and u = c and r = "Some n"] assms by simp
  then show "route_inv base P R i w" using assms(2) by (simp add: route_inv_def route_settled_def)
  show "vl_retry_at (vw_leases w i) \<noteq> None" using assms(2) by simp
qed

lemma put_off_adrift:
  assumes "adrift base P R i d v"
    and w: "w = v\<lparr>vw_leases := (vw_leases v)(i := (vw_leases v i)\<lparr>vl_uplink := c, vl_retry_at := Some n\<rparr>)\<rparr>"
  shows "adrift base P R i d w"
proof -
  have "steady base P R (vw_leases w i) = steady base P R (vw_leases v i)" by (rule steady_cong) (simp_all add: w)
  moreover have "route_elements (vw_leases w i) e p = route_elements (vw_leases v i) e p" for e p
    by (rule route_elements_cong) (simp_all add: w)
  ultimately show ?thesis using assms by (simp add: adrift_def)
qed

text \<open>What a call to \<open>refresh_route\<close> leaves, whatever happens in it.\<close>

definition refreshed ::
  "veth_table \<Rightarrow> int option set \<Rightarrow> uplink option set \<Rightarrow> nat \<Rightarrow> uplink option \<Rightarrow> unit res \<Rightarrow> veth_world \<Rightarrow> bool" where
  "refreshed base P R i c r w \<longleftrightarrow>
     (if r = Inr () then route_inv base P R i w \<and> (vl_retry_at (vw_leases w i) = None \<longrightarrow> in_force base P R i c w)
      else exact base P R i w)"

lemma refresh_route_outcome:
  assumes start: "route_inv base P R i (sys_world s)" and ok: "c \<in> R" "documented_nft env"
    and run: "refresh_route env i c s = (r, t)"
  shows "refreshed base P R i c r (sys_world t) \<or> may_be_late env \<and> adrift base P R i c (sys_world t)"
proof -
  let ?A = "\<lambda>t :: veth_world sys. may_be_late env \<and> adrift base P R i c (sys_world t)"
  let ?Q = "\<lambda>_ t. refreshed base P R i c (Inr ()) (sys_world t) \<or> ?A t"
    and ?E = "\<lambda>e t. refreshed base P R i c (Inl e) (sys_world t) \<or> ?A t"
  have late: "wpF (postpone env i c) ?Q ?E t" if "?A t" for t
    by (rule postpone_wp) (use that put_off_adrift in blast)
  have failed: "wpF (postpone env i c) ?Q ?E t" if "exact base P R i (sys_world t)" for t
  proof (rule postpone_wp)
    fix n and u :: "veth_world sys"
    assume u: "sys_world u = sys_world t\<lparr>vw_leases := (vw_leases (sys_world t))
      (i := (vw_leases (sys_world t) i)\<lparr>vl_uplink := c, vl_retry_at := Some n\<rparr>)\<rparr>"
    note p = put_off_inv [OF that u]
    show "?Q () u \<and> (\<forall>e. ?E e u)" using p by (auto simp: refreshed_def route_inv_def)
  qed
  have "wpF (update_route env i c) ?Q (\<lambda>e t. if e \<noteq> Killed \<and> is_route_failure e then wpF (postpone env i c) ?Q ?E t else ?E e t) s"
  proof (rule update_route_in_force [OF start ok], goal_cases)
    case (2 e t)
    then show ?case using failed [OF 2] by (cases "e \<noteq> Killed \<and> is_route_failure e") (simp_all add: refreshed_def)
  next
    case (3 e t)
    then show ?case using late [of t] by (cases "e \<noteq> Killed \<and> is_route_failure e") simp_all
  qed (simp add: in_force_def route_inv_def refreshed_def)
  moreover have "\<not> too_early (vw_leases (sys_world s) i) c n" if "vl_retry_at (vw_leases (sys_world s) i) = None" for n
    using that by (simp add: too_early_def)
  moreover have "refreshed base P R i c (Inr ()) (sys_world s)" if "vl_retry_at (vw_leases (sys_world s) i) \<noteq> None"
    using start that by (auto simp: refreshed_def)
  ultimately have "wpF (refresh_route env i c) ?Q ?E s"
    unfolding refresh_route_def lease_of_def veth_monotonic_def wpF_bind wpF_look wpF_get
    using start by (cases "vl_retry_at (vw_leases (sys_world s) i)") (simp_all add: wp)
  from wpF_run [OF this run] show ?thesis by (cases r) auto
qed

lemma settled_init: "\<not> vl_initialized (vw_leases w i) \<Longrightarrow> route_settled base i w"
  by (simp add: route_settled_def Let_def)

text \<open>Any number of routes in any order, each with its own outcome: all goes well up to the end, or up to the first
  call that leaves the lease adrift.\<close>

definition strands ::
  "veth_env \<Rightarrow> veth_table \<Rightarrow> int option set \<Rightarrow> uplink option set \<Rightarrow> nat \<Rightarrow> uplink option list \<Rightarrow> veth_world sys \<Rightarrow> bool" where
  "strands env base P R i cs s \<longleftrightarrow> (\<exists>pre c post u v e.
     cs = pre @ c # post \<and> forF (refresh_route env i) pre s = (Inr (), u) \<and> refresh_route env i c u = (e, v)
     \<and> may_be_late env \<and> adrift base P R i c (sys_world v))"

lemma forF_snoc: "forF f (xs @ [x]) s = (case forF f xs s of (Inr _, t) \<Rightarrow> f x t | (Inl e, t) \<Rightarrow> (Inl e, t))"
proof (induction xs arbitrary: s)
  case Nil
  show ?case by (cases "f x s"; cases "fst (f x s)") (auto simp: seqF_def bindF_def retF_def)
next
  case (Cons y ys)
  then show ?case by (cases "f y s"; cases "fst (f y s)") (auto simp: seqF_def bindF_def)
qed

lemma refresh_all_outcome:
  assumes start: "route_inv base P R i (sys_world s)" and ok: "set cs \<subseteq> R" "documented_nft env"
    and run: "forF (refresh_route env i) cs s = (r, t)"
  shows "(if r = Inr () \<and> cs \<noteq> [] then refreshed base P R i (last cs) r (sys_world t) else exact base P R i (sys_world t))
    \<or> strands env base P R i cs s"
  using ok run
proof (induction cs arbitrary: r t rule: rev_induct)
  case Nil
  then show ?case using start by (simp add: retF_def route_inv_def)
next
  case (snoc c cs)
  obtain q u where u: "forF (refresh_route env i) cs s = (q, u)" by fastforce
  have more: "strands env base P R i (cs @ [c]) s" if "strands env base P R i cs s"
    using that unfolding strands_def by (metis append_Cons append_assoc)
  show ?case
  proof (cases "strands env base P R i cs s")
    case False
    note before = snoc.IH [OF _ snoc.prems(2) u] False snoc.prems(1)
    show ?thesis
    proof (cases q)
      case (Inl e)
      then show ?thesis using before snoc.prems(3) u by (auto simp: forF_snoc)
    next
      case (Inr x)
      then have run: "refresh_route env i c u = (r, t)" using u snoc.prems(3) by (simp add: forF_snoc)
      have inv: "route_inv base P R i (sys_world u)"
        using before Inr u start by (cases "cs = []") (simp_all add: refreshed_def retF_def)
      from refresh_route_outcome [OF inv _ snoc.prems(2) run] snoc.prems(1)
      consider "refreshed base P R i c r (sys_world t)" | "may_be_late env" "adrift base P R i c (sys_world t)" by auto
      then show ?thesis
      proof cases
        case 1
        then show ?thesis by (auto simp: refreshed_def)
      next
        case 2
        then have "strands env base P R i (cs @ [c]) s"
          unfolding strands_def using u Inr run by (intro exI [of _ cs] exI [of _ c] exI [of _ "[]"]) auto
        then show ?thesis by blast
      qed
    qed
  qed (use more in blast)
qed

end
