(* ===== verification/VethClose.thy ===== *)
theory VethClose
  imports VethRoute
begin

text \<open>
  The end of a lease: the transaction that removes its elements removes all of them or none, and only when it did
  does the daemon forget how to remove them.
\<close>

definition unmoved :: "nat \<Rightarrow> veth_world \<Rightarrow> veth_world \<Rightarrow> bool" where
  "unmoved i v w \<longleftrightarrow>
     vw_table w = vw_table v \<and> vw_up w = vw_up v \<and> vw_bound w = vw_bound v
     \<and> (\<exists>n b. vw_leases w i = (vw_leases v i)\<lparr>vl_peer_name := n, vl_attached := b\<rparr>)"

lemma unmoved_trans: "unmoved i u v \<Longrightarrow> unmoved i v w \<Longrightarrow> unmoved i u w"
  by (auto simp: unmoved_def) (intro exI, rule refl)

lemma unmoved_refl: "unmoved i w w"
  unfolding unmoved_def by (cases "vw_leases w i") simp

interpretation unmoved: state_rel "unmoved i" "unmoved i" for i
  by unfold_locales (rule unmoved_refl, erule unmoved_trans, assumption+)

lemma unmoved_fields:
  assumes "unmoved i v w"
  shows "vl_name (vw_leases w i) = vl_name (vw_leases v i)" "vl_installed (vw_leases w i) = vl_installed (vw_leases v i)"
    "vl_remove (vw_leases w i) = vl_remove (vw_leases v i)"
    "vl_route_remove (vw_leases w i) = vl_route_remove (vw_leases v i)"
    "vl_reservations (vw_leases w i) = vl_reservations (vw_leases v i)"
    "vl_route_reservations (vw_leases w i) = vl_route_reservations (vw_leases v i)"
    "vw_table w = vw_table v" "vw_up w = vw_up v" "vw_bound w = vw_bound v"
  using assms by (auto simp: unmoved_def)

lemma unmoved_logged: "unmoved i w (logged e w)"
  unfolding unmoved_def logged_def by (cases "vw_leases w i") simp

lemma unmoved_enter: "keeps (unmoved i) (unmoved i) (enter words data)"
  unfolding enter_def run_argv_def by (rule unmoved.keeps_op) (rule unmoved_logged)

lemma unmoved_set:
  "keeps (unmoved i) (unmoved i) (set_lease i (\<lambda>l. l\<lparr>vl_peer_name := n\<rparr>))"
  "keeps (unmoved i) (unmoved i) (set_lease i (\<lambda>l. l\<lparr>vl_attached := b\<rparr>))"
  unfolding set_lease_def
proof -
  have "\<exists>n' b'. l\<lparr>vl_peer_name := n\<rparr> = l\<lparr>vl_peer_name := n', vl_attached := b'\<rparr>"
    "\<exists>n' b'. l\<lparr>vl_attached := b\<rparr> = l\<lparr>vl_peer_name := n', vl_attached := b'\<rparr>" for l :: veth_lease
    by (cases l; simp)+
  then show "keeps (unmoved i) (unmoved i) (assign (\<lambda>w. w\<lparr>vw_leases := (vw_leases w)(i := (vw_leases w i)\<lparr>vl_peer_name := n\<rparr>)\<rparr>))"
    "keeps (unmoved i) (unmoved i) (assign (\<lambda>w. w\<lparr>vw_leases := (vw_leases w)(i := (vw_leases w i)\<lparr>vl_attached := b\<rparr>)\<rparr>))"
    by (auto simp: unmoved_def intro!: unmoved.keeps_assign)
qed

lemma unmoved_give_back: "keeps (unmoved i) (unmoved i) (give_back env i)"
  unfolding give_back_def lease_of_def Let_def
  by (intro unmoved.keeps_rules unmoved_enter unmoved_set)

lemma give_back_detaches:
  "wpF (give_back env i) (\<lambda>_ t. \<not> vl_attached (vw_leases (sys_world t) i)) (\<lambda>_ _. True) s"
proof -
  have final: "wpF (set_lease i (\<lambda>l. l\<lparr>vl_attached := False\<rparr>)) (\<lambda>_ t. \<not> vl_attached (vw_leases (sys_world t) i)) (\<lambda>_ _. True)
      = (\<lambda>_. True)"
    by (rule ext) (simp add: set_lease_def wp)
  have any: "wpF m (\<lambda>_ _. True) (\<lambda>_ _. True) = (\<lambda>_. True)" for m :: "unit veth_io"
    by (rule ext) (simp add: wpF_any)
  show ?thesis
    unfolding give_back_def lease_of_def Let_def wpF_bind wpF_look wpF_when wpF_seq wpF_seq_eta
    by (simp add: final any)
qed

text \<open>What \<open>close\<close> starts from: the elements of the lease and of its route, beside the others.\<close>

definition installed_on :: "veth_table \<Rightarrow> element list \<Rightarrow> nat \<Rightarrow> veth_world \<Rightarrow> bool" where
  "installed_on foreign es i w \<longleftrightarrow>
     distinct (element_keys es) \<and> dom foreign \<inter> set (element_keys es) = {}
     \<and> vl_remove (vw_leases w i) = deleted es \<and> vl_installed (vw_leases w i)"

lemma uninstall_rows:
  assumes "exact (foreign ++ map_of (keyed es)) P R i w" "installed_on foreign es i w"
  shows "nft_rows (vl_route_remove (vw_leases w i) @ vl_remove (vw_leases w i)) (vw_table w) = Some foreign"
proof -
  obtain c p where m: "mapped (foreign ++ map_of (keyed es)) i c p w" "c \<in> R" "p \<in> P"
      "steady (foreign ++ map_of (keyed es)) P R (vw_leases w i)"
    using assms(1) unfolding exact_def by blast
  let ?route = "route_elements (vw_leases w i) c p"
  have "distinct (element_keys ?route)"
    by (rule route_elements_distinct) (use m in \<open>simp_all add: steady_def\<close>)
  moreover have "dom (foreign ++ map_of (keyed es)) \<inter> set (element_keys ?route) = {}"
    using m(3,4) unfolding steady_def apart_def by simp
  ultimately have "nft_rows (deleted ?route @ deleted es) (foreign ++ map_of (keyed es) ++ map_of (keyed ?route))
      = nft_rows (deleted es) (foreign ++ map_of (keyed es))"
    by (rule nft_deleted)
  also have "\<dots> = Some foreign"
    using nft_deleted [of es foreign "[]"] assms(2) by (simp add: installed_on_def)
  finally show ?thesis using m(1) assms(2) by (simp add: mapped_def installed_on_def)
qed

text \<open>Until the transaction, and after it.\<close>

definition before_removal :: "nat \<Rightarrow> veth_world \<Rightarrow> veth_world \<Rightarrow> bool" where
  "before_removal i v w \<longleftrightarrow>
     vw_table w = vw_table v \<and> vw_bound w = vw_bound v
     \<and> (\<forall>n. vw_up w n \<longrightarrow> vw_up v n)
     \<and> vl_name (vw_leases w i) = vl_name (vw_leases v i)
     \<and> vl_installed (vw_leases w i) = vl_installed (vw_leases v i)
     \<and> vl_remove (vw_leases w i) = vl_remove (vw_leases v i)
     \<and> vl_route_remove (vw_leases w i) = vl_route_remove (vw_leases v i)
     \<and> vl_reservations (vw_leases w i) = vl_reservations (vw_leases v i)
     \<and> vl_route_reservations (vw_leases w i) = vl_route_reservations (vw_leases v i)"

definition still_there :: "nat \<Rightarrow> veth_world \<Rightarrow> veth_world \<Rightarrow> bool" where
  "still_there i v w \<longleftrightarrow>
     vw_table w = vw_table v \<and> vl_installed (vw_leases w i)
     \<and> vl_remove (vw_leases w i) = vl_remove (vw_leases v i)
     \<and> vl_route_remove (vw_leases w i) = vl_route_remove (vw_leases v i)"

definition removed :: "veth_table \<Rightarrow> nat \<Rightarrow> veth_world \<Rightarrow> bool" where
  "removed foreign i w \<longleftrightarrow> vw_table w = foreign \<and> \<not> vl_installed (vw_leases w i)"

text \<open>The removal was committed, but the daemon does not know.\<close>

definition gone_unnoticed :: "veth_table \<Rightarrow> nat \<Rightarrow> veth_world \<Rightarrow> veth_world \<Rightarrow> bool" where
  "gone_unnoticed foreign i v w \<longleftrightarrow>
     vw_table w = foreign \<and> vl_installed (vw_leases w i)
     \<and> vl_remove (vw_leases w i) = vl_remove (vw_leases v i)
     \<and> vl_route_remove (vw_leases w i) = vl_route_remove (vw_leases v i)"

lemma unmoved_before: "before_removal i u v \<Longrightarrow> unmoved i v w \<Longrightarrow> before_removal i u w"
  using unmoved_fields [of i v w] by (simp add: before_removal_def)

lemma attempt_step_wp: "wpF (attempt_step m) Q E s
    = wpF m (\<lambda>_. Q False) (\<lambda>e t. if e \<noteq> Killed \<and> is_cleanup_failure e then Q True t else E e t) s"
proof -
  have "wpF (retF False) Q F = Q False" for F by (rule ext) (simp add: wp)
  then show ?thesis by (simp add: attempt_step_def wpF_catch wpF_seq wpF_ret)
qed

lemma quiesce_before:
  assumes "vl_attached (vw_leases (sys_world s) i)"
    and "\<And>t. before_removal i (sys_world s) (sys_world t) \<Longrightarrow> vl_attached (vw_leases (sys_world t) i) \<Longrightarrow>
           \<not> vw_up (sys_world t) (vl_name (vw_leases (sys_world s) i)) \<Longrightarrow> Q () t"
    and "\<And>e t. before_removal i (sys_world s) (sys_world t) \<Longrightarrow> vl_attached (vw_leases (sys_world t) i) \<Longrightarrow> E e t"
  shows "wpF (quiesce i) Q E s"
  unfolding quiesce_def lease_of_def wpF_bind wpF_look wpF_when if_P [OF assms(1)] link_down_def link_set_def run_argv_def
  by (rule wpF_opI) (rule assms(2,3); use assms(1) in \<open>simp add: before_removal_def logged_def\<close>)+

lemma uninstall_outcome:
  assumes rows: "nft_rows (vl_route_remove (vw_leases (sys_world s) i) @ vl_remove (vw_leases (sys_world s) i))
      (vw_table (sys_world s)) = Some foreign"
    and inst: "vl_installed (vw_leases (sys_world s) i)" and nft: "documented_nft env"
    and Q: "\<And>t. vw_table (sys_world t) = foreign \<Longrightarrow> vw_up (sys_world t) = vw_up (sys_world s)
      \<Longrightarrow> vw_bound (sys_world t) = vw_bound (sys_world s)
      \<Longrightarrow> vw_leases (sys_world t) i = (vw_leases (sys_world s) i)\<lparr>vl_installed := False\<rparr> \<Longrightarrow> Q () t"
    and E: "\<And>e t. sys_world t = sys_world s \<Longrightarrow> E e t"
    and L: "\<And>e t. may_be_late env \<Longrightarrow> vw_table (sys_world t) = foreign
      \<Longrightarrow> vw_leases (sys_world t) i = vw_leases (sys_world s) i \<Longrightarrow> E e t"
  shows "wpF (uninstall env i) Q E s"
proof -
  let ?rows = "vl_route_remove (vw_leases (sys_world s) i) @ vl_remove (vw_leases (sys_world s) i)"
  have table: "ve_nft env ?rows (vw_table (sys_world s)) = Some foreign"
    using rows nft by (simp add: documented_nft_def)
  have late: "E e t" if "ve_late env n = Some e" "vw_table (sys_world t) = foreign"
      "vw_leases (sys_world t) i = vw_leases (sys_world s) i" for n e t
    by (rule L) (use that in \<open>auto simp: may_be_late_def\<close>)
  show ?thesis
    unfolding uninstall_def lease_of_def wpF_bind wpF_look wpF_when if_P [OF inst] wpF_seq wpF_seq_eta nft_def table
  proof (rule wpF_skipI, goal_cases)
    case (1 u)
    then show ?case by (auto simp: wp set_lease_def logged_def split: option.split intro: Q late)
  qed (simp add: E)
qed

lemma forget_outcome:
  assumes "\<And>t. vw_table (sys_world t) = vw_table (sys_world s) \<Longrightarrow> vw_up (sys_world t) = vw_up (sys_world s)
      \<Longrightarrow> vw_bound (sys_world t) = filter (\<lambda>b. fst b \<notin> set (vl_route_reservations (vw_leases (sys_world s) i))
           \<and> fst b \<notin> set (vl_reservations (vw_leases (sys_world s) i))) (vw_bound (sys_world s))
      \<Longrightarrow> vl_installed (vw_leases (sys_world t) i) = vl_installed (vw_leases (sys_world s) i)
      \<Longrightarrow> vl_attached (vw_leases (sys_world t) i) = vl_attached (vw_leases (sys_world s) i)
      \<Longrightarrow> vl_remove (vw_leases (sys_world t) i)
           = (if vl_installed (vw_leases (sys_world s) i) then vl_remove (vw_leases (sys_world s) i) else [])
      \<Longrightarrow> vl_route_remove (vw_leases (sys_world t) i)
           = (if vl_installed (vw_leases (sys_world s) i) then vl_route_remove (vw_leases (sys_world s) i) else [])
      \<Longrightarrow> Q () t"
  shows "wpF (forget_lease i) Q E s"
  unfolding forget_lease_def lease_of_def close_sockets_def set_lease_def
  by (auto simp: wp intro!: assms)

definition stopped :: "veth_table \<Rightarrow> nat \<Rightarrow> veth_world \<Rightarrow> veth_world \<Rightarrow> bool" where
  "stopped foreign i v w \<longleftrightarrow>
     vw_table w = foreign \<and> \<not> vw_up w (vl_name (vw_leases v i))
     \<and> \<not> vl_attached (vw_leases w i) \<and> \<not> vl_installed (vw_leases w i)
     \<and> vl_remove (vw_leases w i) = [] \<and> vl_route_remove (vw_leases w i) = []
     \<and> vw_bound w = filter (\<lambda>b. fst b \<notin> set (vl_route_reservations (vw_leases v i))
         \<and> fst b \<notin> set (vl_reservations (vw_leases v i))) (vw_bound v)"

text \<open>What a failed \<open>close\<close> leaves: nothing, or everything, or what a late failure of \<open>nft\<close> leaves.\<close>

definition intact :: "veth_env \<Rightarrow> veth_table \<Rightarrow> nat \<Rightarrow> veth_world \<Rightarrow> veth_world \<Rightarrow> bool" where
  "intact env foreign i v w \<longleftrightarrow> still_there i v w \<or> may_be_late env \<and> gone_unnoticed foreign i v w"

lemma forget_intact:
  assumes "intact env foreign i v (sys_world u)"
    and "\<And>t. intact env foreign i v (sys_world t) \<Longrightarrow> Q () t"
  shows "wpF (forget_lease i) Q E u"
proof (rule forget_outcome, rule assms(2), goal_cases)
  case (1 t)
  have "vl_installed (vw_leases (sys_world u) i)"
    using assms(1) by (auto simp: intact_def still_there_def gone_unnoticed_def)
  then show ?case using 1 assms(1) by (auto simp: intact_def still_there_def gone_unnoticed_def)
qed

lemma close_lease_outcome:
  assumes e: "exact (foreign ++ map_of (keyed es)) P R i (sys_world s)" and inst: "installed_on foreign es i (sys_world s)"
    and att: "vl_attached (vw_leases (sys_world s) i)" and late: "documented_nft env"
  shows "wpF (close_lease env i) (\<lambda>_ t. stopped foreign i (sys_world s) (sys_world t))
      (\<lambda>_ t. removed foreign i (sys_world t) \<or> intact env foreign i (sys_world s) (sys_world t)) s"
proof -
  let ?v = "sys_world s" and ?name = "vl_name (vw_leases (sys_world s) i)"
  let ?Q = "\<lambda>(_::unit) t. stopped foreign i (sys_world s) (sys_world t)"
    and ?E = "\<lambda>(_::pyexn) t. removed foreign i (sys_world t) \<or> intact env foreign i (sys_world s) (sys_world t)"
  have there: "intact env foreign i ?v w" if "before_removal i ?v w" for w
    using that inst by (simp add: before_removal_def still_there_def intact_def installed_on_def)
  have rows: "nft_rows (vl_route_remove (vw_leases w i) @ vl_remove (vw_leases w i)) (vw_table w) = Some foreign"
    if "before_removal i ?v w" for w
    using uninstall_rows [OF e inst] that by (simp add: before_removal_def)
  have last: "wpF (seqF skip_op (if e1 \<or> e2 \<or> e3 then raiseF CleanupErr else retF ())) ?Q ?E t"
    if "removed foreign i (sys_world t) \<or> intact env foreign i ?v (sys_world t)"
      "\<not> e1 \<Longrightarrow> \<not> e2 \<Longrightarrow> \<not> e3 \<Longrightarrow> stopped foreign i ?v (sys_world t)" for e1 e2 e3 t
    using that unfolding wpF_seq by (intro wpF_skipI) (auto simp: wp)
  have third: "wpF (bindF (finallyF (attempt_step (uninstall env i)) (forget_lease i)) (\<lambda>e3.
      seqF skip_op (if e1 \<or> e2 \<or> e3 then raiseF CleanupErr else retF ()))) ?Q ?E t"
    if b: "before_removal i ?v (sys_world t)" and up: "\<not> e1 \<Longrightarrow> \<not> vw_up (sys_world t) ?name"
      and gone: "\<not> e2 \<Longrightarrow> \<not> vl_attached (vw_leases (sys_world t) i)" for e1 e2 t
  proof -
    have i2: "vl_installed (vw_leases (sys_world t) i)"
      using b inst by (simp add: before_removal_def installed_on_def)
    have failed: "if x \<noteq> Killed \<and> is_cleanup_failure x
        then wpF (forget_lease i) (\<lambda>_. wpF (seqF skip_op (if e1 \<or> e2 \<or> True then raiseF CleanupErr else retF ())) ?Q ?E) ?E u
        else if x = Killed then ?E x u else wpF (forget_lease i) (\<lambda>_. ?E x) ?E u"
      if "intact env foreign i ?v (sys_world u)" for x u
      using that last [of _ True True True] by (auto intro!: forget_intact)
    show ?thesis
      unfolding wpF_bind wpF_finally attempt_step_wp
    proof (rule uninstall_outcome [OF rows [OF b] i2 late], goal_cases)
      case (1 u)
      show ?case
        by (rule forget_outcome, rule last)
          (use 1 b up gone in \<open>auto simp: removed_def stopped_def before_removal_def\<close>)
    next
      case (2 x u)
      then have "intact env foreign i ?v (sys_world u)" using there [OF b] by simp
      from failed [OF this, of x] show ?case by (auto split: if_splits)
    next
      case (3 x u)
      then have "intact env foreign i ?v (sys_world u)"
        using there [OF b] b i2 by (simp add: intact_def gone_unnoticed_def before_removal_def)
      from failed [OF this, of x] show ?case by (auto split: if_splits)
    qed
  qed
  have second: "wpF (bindF (attempt_step (give_back env i)) (\<lambda>e2.
      bindF (finallyF (attempt_step (uninstall env i)) (forget_lease i)) (\<lambda>e3.
      seqF skip_op (if e1 \<or> e2 \<or> e3 then raiseF CleanupErr else retF ())))) ?Q ?E t"
    if b: "before_removal i ?v (sys_world t)" and up: "\<not> e1 \<Longrightarrow> \<not> vw_up (sys_world t) ?name" for e1 t
    unfolding wpF_bind [of "attempt_step (give_back env i)"] attempt_step_wp
  proof (rule wpF_mono [OF wpF_conj [OF keepsD [OF unmoved_give_back] give_back_detaches]], goal_cases)
    case (1 x u)
    then have "before_removal i ?v (sys_world u)" "vw_up (sys_world u) = vw_up (sys_world t)"
      using unmoved_before [OF b] unmoved_fields(8) by blast+
    then show ?case by (intro third) (use 1 up in simp_all)
  next
    case (2 x u)
    then have "unmoved i (sys_world t) (sys_world u)" by (simp split: if_splits)
    then have u: "before_removal i ?v (sys_world u)" "vw_up (sys_world u) = vw_up (sys_world t)"
      using unmoved_before [OF b] unmoved_fields(8) by blast+
    show ?case
    proof (cases "x \<noteq> Killed \<and> is_cleanup_failure x")
      case True
      show ?thesis unfolding if_P [OF True] by (rule third) (use u up in simp_all)
    qed (use there [OF u(1)] in auto)
  qed
  show ?thesis
    unfolding close_lease_def wpF_bind [of "attempt_step (quiesce i)"] attempt_step_wp
  proof (rule quiesce_before [OF att], goal_cases)
    case (1 t)
    show ?case by (rule second [OF 1(1)]) (use 1 in simp)
  next
    case (2 x t)
    show ?case
    proof (cases "x \<noteq> Killed \<and> is_cleanup_failure x")
      case True
      show ?thesis unfolding if_P [OF True] by (rule second [OF 2(1)]) simp
    qed (use there [OF 2(1)] in auto)
  qed
qed

end
