(* ===== verification/VethOrder.thy ===== *)
theory VethOrder
  imports VethNet PyKeeps
begin

text \<open>
  The order of the commands of a route update: \<open>emits p m\<close> says that \<open>m\<close> issues the commands \<open>p\<close>, and a prefix of
  them if it fails.
\<close>

definition emits :: "veth_event list \<Rightarrow> 'a veth_io \<Rightarrow> bool" where
  "emits p m \<longleftrightarrow> (\<forall>s. wpF m (\<lambda>_ t. vw_log (sys_world t) = rev p @ vw_log (sys_world s))
     (\<lambda>_ t. \<exists>k. vw_log (sys_world t) = rev (take k p) @ vw_log (sys_world s)) s)"

lemma emitsD:
  assumes "emits p m"
  shows "wpF m (\<lambda>_ t. vw_log (sys_world t) = rev p @ vw_log (sys_world s))
     (\<lambda>_ t. \<exists>k. vw_log (sys_world t) = rev (take k p) @ vw_log (sys_world s)) s"
  using assms by (simp add: emits_def)

lemma emits_bind:
  assumes "emits p m" "\<And>x. emits q (f x)"
  shows "emits (p @ q) (bindF m f)"
  unfolding emits_def wpF_bind
proof (rule allI, rule wpF_mono [OF emitsD [OF assms(1)]])
  fix s t :: "veth_world sys" and x
  assume t: "vw_log (sys_world t) = rev p @ vw_log (sys_world s)"
  show "wpF (f x) (\<lambda>_ u. vw_log (sys_world u) = rev (p @ q) @ vw_log (sys_world s))
      (\<lambda>_ u. \<exists>k. vw_log (sys_world u) = rev (take k (p @ q)) @ vw_log (sys_world s)) t"
  proof (rule wpF_mono [OF emitsD [OF assms(2)]])
    fix e :: pyexn and u :: "veth_world sys"
    assume "\<exists>k. vw_log (sys_world u) = rev (take k q) @ vw_log (sys_world t)"
    then obtain k where k: "vw_log (sys_world u) = rev (take k q) @ vw_log (sys_world t)" by blast
    show "\<exists>k. vw_log (sys_world u) = rev (take k (p @ q)) @ vw_log (sys_world s)"
      by (rule exI [of _ "length p + k"]) (simp add: k t)
  qed (simp add: t)
next
  fix s t :: "veth_world sys" and e :: pyexn
  assume "\<exists>k. vw_log (sys_world t) = rev (take k p) @ vw_log (sys_world s)"
  then obtain k where k: "vw_log (sys_world t) = rev (take k p) @ vw_log (sys_world s)" by blast
  show "\<exists>k. vw_log (sys_world t) = rev (take k (p @ q)) @ vw_log (sys_world s)"
    by (rule exI [of _ "min k (length p)"]) (simp add: k min_def)
qed

lemma emits_seq: "emits p m \<Longrightarrow> emits q n \<Longrightarrow> emits (p @ q) (seqF m n)"
  unfolding seqF_def by (rule emits_bind)

lemma emits_silent: "emits [] m \<Longrightarrow> (\<And>x. emits q (f x)) \<Longrightarrow> emits q (bindF m f)"
  using emits_bind [of "[]" m q f] by simp

lemma emits_silent_seq: "emits [] m \<Longrightarrow> emits q n \<Longrightarrow> emits q (seqF m n)"
  using emits_seq [of "[]" m q n] by simp

lemma emits_ret: "emits [] (retF x)" and emits_raise: "emits p (raiseF e)" and emits_get: "emits [] (getF g)"
  and emits_lift: "emits [] (liftE r)"
  by (auto simp: emits_def wp intro: exI [of _ 0] split: sum.split)

lemma emits_assign: "(\<And>w. vw_log (f w) = vw_log w) \<Longrightarrow> emits [] (assign f)"
  by (simp add: emits_def wp)

lemma emits_op:
  assumes "\<And>w. vw_log (f w) = rev p @ vw_log w"
  shows "emits p (op f)"
  unfolding emits_def
  by (intro allI wpF_opI) (simp_all add: assms exI [of _ 0] exI [of _ "length p"])

lemma emits_skip: "emits [] skip_op"
  unfolding skip_op_def by (rule emits_op) simp

lemma emits_when: "emits p m \<Longrightarrow> emits (if b then p else []) (whenF b m)"
  using emits_seq [of p m "[]" "retF ()", OF _ emits_ret] by (simp add: whenF_def emits_ret)

lemma emits_for: "(\<And>x. x \<in> set xs \<Longrightarrow> emits [] (f x)) \<Longrightarrow> emits [] (forF f xs)"
  by (induction xs) (auto intro: emits_silent_seq emits_ret)

lemma emits_set_lease: "emits [] (set_lease i f)"
  unfolding set_lease_def by (rule emits_assign) simp

lemma emits_command: "(\<And>w. vw_log (f w) = vw_log w) \<Longrightarrow> emits [Command argv data] (run_argv argv data f)"
  unfolding run_argv_def by (rule emits_op) (simp add: logged_def)

lemma emits_nft: "emits [Command [''/usr/sbin/nft'', ''-f'', ''-''] (nft_text rows)] (nft env rows)"
proof -
  have log: "emits [Command [''/usr/sbin/nft'', ''-f'', ''-''] (nft_text rows)]
     (assign (\<lambda>w. logged (Command [''/usr/sbin/nft'', ''-f'', ''-''] (nft_text rows))
        (case r of None \<Rightarrow> w | Some t \<Rightarrow> w\<lparr>vw_table := t\<rparr>)))" for r
    by (simp add: emits_def wp logged_def split: option.split)
  have "emits [] (if b then raiseF RuntimeErr else case late of None \<Rightarrow> retF () | Some e \<Rightarrow> raiseF e)" for b late
    by (auto intro: emits_ret emits_raise split: option.split)
  then have "emits ([Command [''/usr/sbin/nft'', ''-f'', ''-''] (nft_text rows)] @ [])
      (seqF (assign (\<lambda>w. logged (Command [''/usr/sbin/nft'', ''-f'', ''-''] (nft_text rows))
        (case r of None \<Rightarrow> w | Some t \<Rightarrow> w\<lparr>vw_table := t\<rparr>)))
      (if r = None then raiseF RuntimeErr else case late of None \<Rightarrow> retF () | Some e \<Rightarrow> raiseF e))" for r late
    by (intro emits_seq log)
  then show ?thesis
    unfolding nft_def look_def by (intro emits_silent [OF emits_get] emits_silent_seq [OF emits_skip]) simp
qed

text \<open>The two ways in which \<open>update_route\<close> changes something.\<close>

definition mtu_plan :: "veth_env \<Rightarrow> veth_lease \<Rightarrow> uplink option \<Rightarrow> veth_event list" where
  "mtu_plan env l current =
     [Command [''/usr/bin/nsenter'', ''--net=fd'', ''--'', ''/usr/sbin/ip'', ''link'', ''set'', ''dev'',
        namespace_interface env, ''mtu'', int_str (uplink_mtu current)] [],
      Command [''/usr/sbin/ip'', ''link'', ''set'', ''dev'', vl_name l, ''mtu'', int_str (uplink_mtu current)] []]"

definition up_command :: "veth_lease \<Rightarrow> uplink option \<Rightarrow> veth_event" where
  "up_command l current =
     Command [''/usr/sbin/ip'', ''link'', ''set'', ''dev'', vl_name l, ''mtu'', int_str (uplink_mtu current), ''up''] []"

definition quiet_plan :: "veth_env \<Rightarrow> veth_lease \<Rightarrow> uplink option \<Rightarrow> int option \<Rightarrow> veth_event list" where
  "quiet_plan env l current port =
     [Command [''/usr/sbin/ip'', ''link'', ''set'', ''dev'', vl_name l, ''down''] []]
     @ (if vl_route_remove l @ added (route_elements l current port) \<noteq> []
        then [Command [''/usr/sbin/nft'', ''-f'', ''-''] (nft_text (vl_route_remove l @ added (route_elements l current port)))]
        else [])
     @ [Command [''/usr/sbin/conntrack'', ''-D'', ''-f'', ''ipv4'', ''--orig-src'', vl_address l] [],
        Command [''/usr/sbin/conntrack'', ''-D'', ''-f'', ''ipv4'', ''--reply-src'', vl_address l] [],
        Command [''/usr/bin/nsenter'', ''--net=fd'', ''--'', ''/usr/sbin/ip'', ''link'', ''set'', ''dev'',
          namespace_interface env, ''mtu'', int_str (uplink_mtu current)] []]
     @ (if port \<noteq> vl_peer_port l \<and> vl_channel l then [Sent port] else [])"

definition route_plan :: "veth_env \<Rightarrow> veth_lease \<Rightarrow> uplink option \<Rightarrow> int option \<Rightarrow> veth_event list" where
  "route_plan env l current port =
     quiet_plan env l current port @ (if current \<noteq> None \<or> \<not> vl_pinned l then [up_command l current] else [])"

lemma emits_enter: "emits [Command ([''/usr/bin/nsenter'', ''--net=fd'', ''--''] @ words) data] (enter words data)"
  unfolding enter_def by (rule emits_command) simp

lemma emits_link_set:
  "(\<And>w. vw_log (f w) = vw_log w) \<Longrightarrow> emits [Command ([''/usr/sbin/ip'', ''link'', ''set'', ''dev''] @ words) []] (link_set words f)"
  unfolding link_set_def by (rule emits_command)

lemma emits_flows:
  "emits [Command [''/usr/sbin/conntrack'', ''-D'', ''-f'', ''ipv4'', ''--orig-src'', a] [],
      Command [''/usr/sbin/conntrack'', ''-D'', ''-f'', ''ipv4'', ''--reply-src'', a] []]
     (forF (\<lambda>d. forget_flows d a) [''--orig-src'', ''--reply-src''])"
proof -
  have one: "emits [Command [''/usr/sbin/conntrack'', ''-D'', ''-f'', ''ipv4'', d, a] []] (forget_flows d a)" for d
    unfolding forget_flows_def by (rule emits_command) simp
  show ?thesis
    using emits_seq [OF one [of "''--orig-src''"] emits_seq [OF one [of "''--reply-src''"] emits_ret [of "()"]]] by simp
qed

lemma emits_notify: "emits [Sent port] (notify_port env port)"
proof -
  have rest: "emits [] (bindF (liftE r) (\<lambda>complete. if complete then retF () else raiseF RuntimeErr))" for r
    by (rule emits_silent [OF emits_lift]) (simp add: emits_ret emits_raise)
  have "emits ([Sent port] @ []) (seqF (op (logged (Sent port)))
      (bindF (liftE r) (\<lambda>complete. if complete then retF () else raiseF RuntimeErr)))" for r
    by (intro emits_seq rest emits_op) (simp add: logged_def)
  then show ?thesis unfolding notify_port_def by (intro emits_silent [OF emits_get]) simp
qed

lemma emits_wireless: "emits [] (wireless_from env iface names)"
proof (induction names)
  case (Cons n ns)
  have step: "emits [] (case r of Inl e \<Rightarrow> raiseF (if is_os_error e then RuntimeErr else e)
      | Inr None \<Rightarrow> wireless_from env iface ns
      | Inr (Some directory) \<Rightarrow> if directory then retF True else raiseF ValueErr)" for r
    using Cons.IH by (auto simp: emits_ret emits_raise split: sum.split option.split)
  show ?case unfolding wireless_from.simps
    by (intro emits_silent [OF emits_get] emits_silent_seq [OF emits_skip] step)
qed (simp add: emits_ret)

lemma emits_active_port: "emits [] (active_port env l c)"
  unfolding active_port_def wireless_interface_def
  by (auto split: option.split peer_port.split simp del: wireless_from.simps
      intro!: emits_ret emits_silent [OF emits_wireless])

lemma emits_reserve: "emits [] (reserve env i a p k b)"
proof -
  have "emits [] (op (\<lambda>w. w\<lparr>vw_sockets := c\<rparr>))" "emits [] (op (\<lambda>w. w\<lparr>vw_bound := x # vw_bound w\<rparr>))" for c x
    by (rule emits_op; simp)+
  moreover have "emits [] (whenF b skip_op)" for b
    using emits_when [OF emits_skip, of b] by simp
  ultimately show ?thesis
    unfolding reserve_def new_socket_def look_def
    by (intro emits_silent emits_silent_seq emits_get emits_set_lease emits_skip emits_ret)
      (auto simp: emits_raise intro!: emits_silent_seq emits_skip)
qed

lemma emits_reserve_route: "emits [] (reserve_route env i l c p)"
  unfolding reserve_route_def
  by (auto split: option.split intro!: emits_ret emits_for emits_reserve)

lemma emits_update_mtu:
  "emits (mtu_plan env l c) (update_mtu env i l c (uplink_mtu c))"
  unfolding mtu_plan_def update_mtu_def
proof -
  have "emits ([] @ []) (seqF (set_lease i f) skip_op)" for f
    by (intro emits_seq emits_set_lease emits_skip)
  then have tail: "emits [] (seqF (set_lease i f) skip_op)" for f by simp
  let ?m = "int_str (uplink_mtu c)"
  from emits_seq [OF emits_enter emits_seq [OF emits_link_set tail],
    of "\<lambda>w. w" "[''/usr/sbin/ip'', ''link'', ''set'', ''dev'', namespace_interface env, ''mtu'', ?m]" "[]" "[vl_name l, ''mtu'', ?m]"]
  show "emits [Command [''/usr/bin/nsenter'', ''--net=fd'', ''--'', ''/usr/sbin/ip'', ''link'', ''set'', ''dev'',
        namespace_interface env, ''mtu'', ?m] [],
      Command [''/usr/sbin/ip'', ''link'', ''set'', ''dev'', vl_name l, ''mtu'', ?m] []]
     (seqF (enter [''/usr/sbin/ip'', ''link'', ''set'', ''dev'', namespace_interface env, ''mtu'', ?m] [])
     (seqF (link_set [vl_name l, ''mtu'', ?m] (\<lambda>w. w))
     (seqF (set_lease i (\<lambda>l. l\<lparr>vl_uplink := c\<rparr>)) skip_op)))"
    by simp
qed

text \<open>A plan that depends on the port found on the way.\<close>

definition emits_some :: "(int option \<Rightarrow> veth_event list) \<Rightarrow> 'a veth_io \<Rightarrow> bool" where
  "emits_some q m \<longleftrightarrow> (\<forall>s. wpF m (\<lambda>_ t. \<exists>x. vw_log (sys_world t) = rev (q x) @ vw_log (sys_world s))
     (\<lambda>_ t. \<exists>x k. vw_log (sys_world t) = rev (take k (q x)) @ vw_log (sys_world s)) s)"

lemma emits_const: "emits p m \<Longrightarrow> emits_some (\<lambda>_. p) m"
  unfolding emits_def emits_some_def by (auto intro: wpF_mono)

lemma emits_some_choice:
  assumes "emits [] m" "\<And>x. emits (q x) (f x)"
  shows "emits_some q (bindF m f)"
  unfolding emits_some_def wpF_bind
proof (rule allI, rule wpF_mono [OF emitsD [OF assms(1)]])
  fix s t :: "veth_world sys" and x
  assume t: "vw_log (sys_world t) = rev [] @ vw_log (sys_world s)"
  show "wpF (f x) (\<lambda>_ u. \<exists>x. vw_log (sys_world u) = rev (q x) @ vw_log (sys_world s))
      (\<lambda>_ u. \<exists>x k. vw_log (sys_world u) = rev (take k (q x)) @ vw_log (sys_world s)) t"
    by (rule wpF_mono [OF emitsD [OF assms(2)]]) (use t in auto)
next
  fix s t :: "veth_world sys" and e :: pyexn
  assume "\<exists>k. vw_log (sys_world t) = rev (take k []) @ vw_log (sys_world s)"
  then have "vw_log (sys_world t) = rev (take 0 (q undefined)) @ vw_log (sys_world s)" by simp
  then show "\<exists>x k. vw_log (sys_world t) = rev (take k (q x)) @ vw_log (sys_world s)" by blast
qed

lemma emits_some_seq:
  assumes "emits p m" "emits_some q n"
  shows "emits_some (\<lambda>x. p @ q x) (seqF m n)"
  unfolding emits_some_def wpF_seq
proof (rule allI, rule wpF_mono [OF emitsD [OF assms(1)]])
  fix s t :: "veth_world sys" and x
  assume t: "vw_log (sys_world t) = rev p @ vw_log (sys_world s)"
  have n: "wpF n (\<lambda>_ u. \<exists>x. vw_log (sys_world u) = rev (q x) @ vw_log (sys_world t))
     (\<lambda>_ u. \<exists>x k. vw_log (sys_world u) = rev (take k (q x)) @ vw_log (sys_world t)) t"
    using assms(2) by (simp add: emits_some_def)
  show "wpF n (\<lambda>_ u. \<exists>x. vw_log (sys_world u) = rev (p @ q x) @ vw_log (sys_world s))
      (\<lambda>_ u. \<exists>x k. vw_log (sys_world u) = rev (take k (p @ q x)) @ vw_log (sys_world s)) t"
  proof (rule wpF_mono [OF n])
    fix e :: pyexn and u :: "veth_world sys"
    assume "\<exists>x k. vw_log (sys_world u) = rev (take k (q x)) @ vw_log (sys_world t)"
    then obtain x k where k: "vw_log (sys_world u) = rev (take k (q x)) @ vw_log (sys_world t)" by blast
    show "\<exists>x k. vw_log (sys_world u) = rev (take k (p @ q x)) @ vw_log (sys_world s)"
      by (rule exI [of _ x], rule exI [of _ "length p + k"]) (simp add: k t)
  qed (use t in auto)
next
  fix s t :: "veth_world sys" and e :: pyexn
  assume "\<exists>k. vw_log (sys_world t) = rev (take k p) @ vw_log (sys_world s)"
  then obtain k where k: "vw_log (sys_world t) = rev (take k p) @ vw_log (sys_world s)" by blast
  show "\<exists>x k. vw_log (sys_world t) = rev (take k (p @ q x)) @ vw_log (sys_world s)"
    by (rule exI [of _ undefined], rule exI [of _ "min k (length p)"]) (simp add: k min_def)
qed

lemma emits_after_port:
  "emits (drop 1 (route_plan env l c port))
     (seqF (reserve_route env i l c port)
      (let rows = vl_route_remove l @ added (route_elements l c port) in
       seqF (whenF (rows \<noteq> []) (nft env rows))
       (seqF (set_lease i (\<lambda>l'. l'\<lparr>vl_route_remove := deleted (route_elements l c port)\<rparr>))
       (finish_route env i l c port))))"
proof -
  let ?rows = "vl_route_remove l @ added (route_elements l c port)" and ?m = "int_str (uplink_mtu c)"
  have link_up: "emits [up_command l c] (link_up (vl_name l) (uplink_mtu c))"
    using emits_link_set [of "\<lambda>w. w\<lparr>vw_up := (vw_up w)(vl_name l := True)\<rparr>" "[vl_name l, ''mtu'', ?m, ''up'']"]
    by (simp add: link_up_def up_command_def)
  have tail: "emits ([] @ []) (seqF (set_lease i f) skip_op)" for f
    by (intro emits_seq emits_set_lease emits_skip)
  note finish = emits_seq [OF emits_flows [of "vl_address l"] emits_seq [OF emits_enter
      [of "[''/usr/sbin/ip'', ''link'', ''set'', ''dev'', namespace_interface env, ''mtu'', ?m]" "[]"]
      emits_seq [OF emits_when [OF emits_notify [of port env], of "port \<noteq> vl_peer_port l \<and> vl_channel l"]
      emits_seq [OF emits_when [OF link_up, of "c \<noteq> None \<or> \<not> vl_pinned l"]
        tail [of "\<lambda>l. l\<lparr>vl_uplink := c, vl_initialized := True, vl_retry_at := None, vl_peer_port := port\<rparr>"]]]]]
  have "emits ((if ?rows \<noteq> [] then [Command [''/usr/sbin/nft'', ''-f'', ''-''] (nft_text ?rows)] else [])
      @ ([Command [''/usr/sbin/conntrack'', ''-D'', ''-f'', ''ipv4'', ''--orig-src'', vl_address l] [],
          Command [''/usr/sbin/conntrack'', ''-D'', ''-f'', ''ipv4'', ''--reply-src'', vl_address l] []]
         @ [Command ([''/usr/bin/nsenter'', ''--net=fd'', ''--''] @ [''/usr/sbin/ip'', ''link'', ''set'', ''dev'', namespace_interface env, ''mtu'', ?m]) []]
         @ (if port \<noteq> vl_peer_port l \<and> vl_channel l then [Sent port] else [])
         @ (if c \<noteq> None \<or> \<not> vl_pinned l then [up_command l c] else []) @ [] @ []))
     (seqF (whenF (?rows \<noteq> []) (nft env ?rows))
       (seqF (set_lease i (\<lambda>l'. l'\<lparr>vl_route_remove := deleted (route_elements l c port)\<rparr>))
       (finish_route env i l c port)))"
    unfolding finish_route_def
    by (intro emits_seq [OF emits_when [OF emits_nft]] emits_silent_seq [OF emits_set_lease] finish)
  then show ?thesis
    unfolding Let_def route_plan_def quiet_plan_def
    by (intro emits_silent_seq [OF emits_reserve_route]) simp
qed

lemma emits_replace: "emits_some (route_plan env l c) (replace_mapping env i l c)"
proof -
  let ?down = "Command [''/usr/sbin/ip'', ''link'', ''set'', ''dev'', vl_name l, ''down''] []"
  have plan: "route_plan env l c = (\<lambda>port. [?down] @ [] @ [] @ drop 1 (route_plan env l c port))"
    by (rule ext) (simp add: route_plan_def quiet_plan_def)
  have down: "emits [?down] (link_down (vl_name l))"
    using emits_link_set [of "\<lambda>w. w\<lparr>vw_up := (vw_up w)(vl_name l := False)\<rparr>" "[vl_name l, ''down'']"]
    by (simp add: link_down_def)
  have sockets: "emits [] (close_sockets cs)" for cs
    unfolding close_sockets_def by (rule emits_assign) simp
  show ?thesis
    unfolding replace_mapping_def
    by (subst plan) (intro emits_some_seq down sockets emits_set_lease emits_some_choice emits_active_port emits_after_port)
qed

lemma up_command_fresh: "up_command l c \<notin> set (mtu_plan env l c)" "up_command l c \<notin> set (quiet_plan env l c port)"
  by (simp_all add: up_command_def mtu_plan_def quiet_plan_def)

lemma up_command_last:
  assumes "up_command l c \<in> set (take k (route_plan env l c port))"
  shows "take k (route_plan env l c port) = quiet_plan env l c port @ [up_command l c]"
proof -
  let ?q = "quiet_plan env l c port"
  have tail: "c \<noteq> None \<or> \<not> vl_pinned l"
    using assms up_command_fresh(2) [of l c env port] by (auto simp: route_plan_def dest: in_set_takeD split: if_splits)
  have "\<not> k \<le> length ?q" using assms up_command_fresh(2) [of l c env port]
    by (auto simp: route_plan_def dest: in_set_takeD)
  then show ?thesis using tail by (simp add: route_plan_def)
qed

text \<open>The commands of an update, by what it finds: none for the route in force, the new MTU alone where interface and
  source address stay, and the replacement of the mapping in every other case.\<close>

definition update_plan :: "veth_env \<Rightarrow> veth_lease \<Rightarrow> uplink option \<Rightarrow> int option \<Rightarrow> veth_event list" where
  "update_plan env l c port =
     (let current = (vl_initialized l \<and> vl_retry_at l = None) in
      if current \<and> c = vl_uplink l then []
      else if current \<and> (\<exists>iface source mtu mtu'. c = Some (iface, source, mtu) \<and> vl_uplink l = Some (iface, source, mtu'))
      then mtu_plan env l c
      else route_plan env l c port)"

lemma same_egress_iff:
  "same_egress c u \<longleftrightarrow> (\<exists>iface source mtu mtu'. c = Some (iface, source, mtu) \<and> u = Some (iface, source, mtu'))"
  by (auto simp: same_egress_def split: option.split)

text \<open>C26 (order of an update): an update of the route issues its commands in one order, and a failure or an
  interruption cuts this sequence short. If the mapping is to be replaced, the link goes down, then the mapping
  is replaced in one transaction, then the tracked flows of the lease are dropped, then come the MTU and the notice
  to the supervisor, and the link comes up last. This is the plan unless a completed update is in force for the
  same interface and source address: then only the MTU is set, first inside the namespace and then on the
  host, and nothing at all is done if the MTU is the same too.\<close>

theorem update_commands_ordered:
  assumes "update_route env i c s = (r, t)"
  shows "\<exists>port issued rest.
      vw_log (sys_world t) = rev issued @ vw_log (sys_world s)
      \<and> issued @ rest = update_plan env (vw_leases (sys_world s) i) c port
      \<and> (r = Inr () \<longrightarrow> rest = [])
      \<and> (up_command (vw_leases (sys_world s) i) c \<in> set issued \<longrightarrow>
           issued = quiet_plan env (vw_leases (sys_world s) i) c port @ [up_command (vw_leases (sys_world s) i) c])"
proof -
  let ?l = "vw_leases (sys_world s) i"
  have run: "\<exists>x k. vw_log (sys_world t) = rev (take k (q x)) @ vw_log (sys_world s) \<and> (r = Inr () \<longrightarrow> take k (q x) = q x)"
    if "emits_some q m" "m s = (r, t)" for q and m :: "unit veth_io"
  proof -
    have ended: "case r of Inl e \<Rightarrow> \<exists>x k. vw_log (sys_world t) = rev (take k (q x)) @ vw_log (sys_world s)
      | Inr u \<Rightarrow> \<exists>x. vw_log (sys_world t) = rev (q x) @ vw_log (sys_world s)"
      using wpF_run [OF that(1) [unfolded emits_some_def, THEN spec] that(2)] .
    show ?thesis
    proof (cases r)
      case (Inr u)
      with ended obtain x where "vw_log (sys_world t) = rev (q x) @ vw_log (sys_world s)" by auto
      then show ?thesis by (intro exI [of _ x] exI [of _ "length (q x)"]) simp
    qed (use ended in auto)
  qed
  have conclude: ?thesis
    if some: "emits_some q m" and ran: "m s = (r, t)" and plan: "\<And>x. q x = update_plan env ?l c x"
    for q and m :: "unit veth_io"
  proof -
    obtain x k where k: "vw_log (sys_world t) = rev (take k (q x)) @ vw_log (sys_world s)"
        "r = Inr () \<longrightarrow> take k (q x) = q x" using run [OF some ran] by blast
    have "q x = [] \<or> q x = mtu_plan env ?l c \<or> q x = route_plan env ?l c x"
      by (simp add: plan update_plan_def Let_def)
    then have last: "up_command ?l c \<in> set (take k (q x)) \<longrightarrow> take k (q x) = quiet_plan env ?l c x @ [up_command ?l c]"
      using up_command_fresh(1) [of ?l c env] up_command_last [of ?l c k env x] by (auto dest: in_set_takeD)
    have "r = Inr () \<longrightarrow> drop k (q x) = []" using k(2) by (metis append_take_drop_id append_self_conv)
    with k(1) plan [of x] last show ?thesis
      by (intro exI [of _ x] exI [of _ "take k (q x)"] exI [of _ "drop k (q x)"]) simp
  qed
  have step: "update_route env i c s = (if vl_initialized ?l \<and> c = vl_uplink ?l \<and> vl_retry_at ?l = None then retF () s
      else if vl_initialized ?l \<and> vl_retry_at ?l = None \<and> same_egress c (vl_uplink ?l)
      then update_mtu env i ?l c (uplink_mtu c) s else replace_mapping env i ?l c s)"
    by (simp add: update_route_def lease_of_def look_def bindF_def getF_def)
  consider "vl_initialized ?l \<and> c = vl_uplink ?l \<and> vl_retry_at ?l = None"
    | "\<not> (vl_initialized ?l \<and> c = vl_uplink ?l \<and> vl_retry_at ?l = None)"
      "vl_initialized ?l \<and> vl_retry_at ?l = None \<and> same_egress c (vl_uplink ?l)"
    | "\<not> (vl_initialized ?l \<and> c = vl_uplink ?l \<and> vl_retry_at ?l = None)"
      "\<not> (vl_initialized ?l \<and> vl_retry_at ?l = None \<and> same_egress c (vl_uplink ?l))" by blast
  then show ?thesis
  proof cases
    case 1
    then have "update_route env i c s = retF () s" "\<And>x. [] = update_plan env ?l c x"
      unfolding step update_plan_def Let_def by auto
    then show ?thesis by (intro conclude [OF emits_const [OF emits_ret]]) (use assms in auto)
  next
    case 2
    then have "update_route env i c s = update_mtu env i ?l c (uplink_mtu c) s"
        "\<And>x. mtu_plan env ?l c = update_plan env ?l c x"
      unfolding step update_plan_def Let_def same_egress_iff by auto
    then show ?thesis by (intro conclude [OF emits_const [OF emits_update_mtu]]) (use assms in auto)
  next
    case 3
    then have "update_route env i c s = replace_mapping env i ?l c s"
        "\<And>x. route_plan env ?l c x = update_plan env ?l c x"
      unfolding step update_plan_def Let_def same_egress_iff by auto
    then show ?thesis by (intro conclude [OF emits_replace]) (use assms in auto)
  qed
qed

end
