(* ===== verification/VethGuarantees.thy ===== *)
theory VethGuarantees
  imports VethClose VethOrder
begin

text \<open>
  What the daemon promises about the packet path of a lease, its end and the slot it is given, when \<open>nft\<close> applies
  a transaction as documented (\<open>documented_nft\<close>).
\<close>

subsection \<open>The packet path\<close>


subsection \<open>The end of a lease\<close>

text \<open>C27 (closing is all or nothing): for an attached lease that is installed and whose mapping is exact, as the updates of the route
  keep it: when \<open>close\<close> returns, no element of the lease and of its route is left, its link is down, its
  namespace end is given back and its ports are free; when it raises, or is cut off, either all of its elements
  are gone and the lease is no longer marked as installed, or all are still there and the lease still knows how to delete them.
  There is one exception: if \<open>nft\<close> commits the removal but the wait for it ends in a timeout or a signal, all of
  them are gone and the lease still means to delete them.\<close>

theorem close_all_or_nothing:
  assumes "exact (foreign ++ map_of (keyed es)) P R i (sys_world s)" and "installed_on foreign es i (sys_world s)"
    and "vl_attached (vw_leases (sys_world s) i)" and "documented_nft env"
    and "close_lease env i s = (r, t)"
  shows "if r = Inr () then stopped foreign i (sys_world s) (sys_world t)
    else removed foreign i (sys_world t) \<or> still_there i (sys_world s) (sys_world t)
      \<or> may_be_late env \<and> gone_unnoticed foreign i (sys_world s) (sys_world t)"
  using wpF_run [OF close_lease_outcome [OF assms(1-4)] assms(5)] by (auto simp: intact_def split: sum.splits)

subsection \<open>The slot of a lease\<close>

lemma slot_at_map:
  "inj_on f (set slots) \<Longrightarrow> slot_at a (map f slots) slots = Some s \<longleftrightarrow> s \<in> set slots \<and> a = f s"
  by (induction slots) (auto simp: inj_on_def)

lemma find_filter: "find P xs = (case filter P xs of [] \<Rightarrow> None | x # _ \<Rightarrow> Some x)"
  by (induction xs) simp_all

lemma accepted_app:
  assumes "parse_configuration loads raw = Inr cfg" "(name, policy) \<in> set (vc_apps cfg)"
  shows "ap_addresses policy = map (slot_address (pool_of (vc_network cfg))) (ap_slots policy)"
    "inj_on (slot_address (pool_of (vc_network cfg))) (set (ap_slots policy))"
proof -
  let ?pool = "pool_of (vc_network cfg)" and ?m = "py_number (dget ''max_leases'' (vc_network cfg))"
  note ok = configuration_ok [OF assms(1)]
  have app: "app_ok ?pool ?m policy" using ok(4) assms(2) by (auto simp: scan_ok_def)
  then show "ap_addresses policy = map (slot_address ?pool) (ap_slots policy)" by (simp add: app_ok_def)
  have "slot_block ?pool s \<subseteq> net_addrs ?pool" if "s \<in> set (ap_slots policy)" for s
    using app that by (intro slot_block_in_pool [OF _ _ ok(3,2)]) (auto simp: app_ok_def)
  then show "inj_on (slot_address ?pool) (set (ap_slots policy))"
    by (intro inj_onI) (auto intro: slot_address_inj [OF ok(1,2)])
qed

text \<open>C29 (slots): for an application of an accepted configuration, a request without an address gets the first slot of
  the application that no lease occupies, one with an address exactly the slot of that address if it belongs to
  the application and is free, and the request fails otherwise.\<close>

theorem application_slot_exact:
  assumes "parse_configuration loads raw = Inr cfg" and "(name, policy) \<in> set (vc_apps cfg)"
  shows "application_slot policy occupied None =
        (case filter (\<lambda>s. s \<notin> set occupied) (ap_slots policy) of [] \<Rightarrow> Inl ValueErr | s # _ \<Rightarrow> Inr s)
    \<and> (\<forall>a s. application_slot policy occupied (Some a) = Inr s \<longleftrightarrow>
          s \<in> set (ap_slots policy) \<and> s \<notin> set occupied \<and> a = slot_address (pool_of (vc_network cfg)) s)
    \<and> (\<forall>a e. application_slot policy occupied (Some a) = Inl e \<longrightarrow> e = ValueErr)"
proof (intro conjI allI)
  let ?f = "slot_address (pool_of (vc_network cfg))"
  note app = accepted_app [OF assms]
  show "application_slot policy occupied None =
        (case filter (\<lambda>s. s \<notin> set occupied) (ap_slots policy) of [] \<Rightarrow> Inl ValueErr | s # _ \<Rightarrow> Inr s)"
    by (simp add: application_slot_def find_filter split: list.split)
  have at: "slot_at a (ap_addresses policy) (ap_slots policy) = Some s \<longleftrightarrow> s \<in> set (ap_slots policy) \<and> a = ?f s" for a s
    unfolding app(1) by (rule slot_at_map [OF app(2)])
  show "(application_slot policy occupied (Some a) = Inr s) =
      (s \<in> set (ap_slots policy) \<and> s \<notin> set occupied \<and> a = ?f s)" for a s
  proof (cases "slot_at a (ap_addresses policy) (ap_slots policy)")
    case None
    then show ?thesis using at [of a s] by (simp add: application_slot_def)
  next
    case (Some u)
    then have "a \<in> set (ap_addresses policy)" using at [of a u] by (simp add: app(1))
    then have "application_slot policy occupied (Some a) = (if u \<in> set occupied then Inl ValueErr else Inr u)"
      using Some by (simp add: application_slot_def)
    moreover have "s \<in> set (ap_slots policy) \<and> a = ?f s \<longleftrightarrow> u = s" using at [of a s] Some by simp
    ultimately show ?thesis by auto
  qed
  show "application_slot policy occupied (Some a) = Inl e \<longrightarrow> e = ValueErr" for a e
    by (auto simp: application_slot_def split: option.splits)
qed

end
