(* ===== verification/VethDemo.thy ===== *)
theory VethDemo
  imports VethGuarantees
begin

text \<open>A configuration with two applications, and a lease of the first one whose route changes.\<close>

subsection \<open>A configuration\<close>

definition demo_network :: pydict where
  "demo_network =
     [(''ipv4_cidr'', PStr ''10.9.0.0/24''), (''max_leases'', PInt 4), (''host_interface_prefix'', PStr ''app''),
      (''host_interface_suffix'', PStr ''-h''), (''peer_interface_suffix'', PStr ''-p''),
      (''namespace_interface'', PStr ''net0''), (''dns_address'', PStr ''10.8.0.1''),
      (''dns_host_address'', PStr ''127.0.0.1''), (''dns_host_port'', PInt 5353)]"

definition veth_document :: pyval where
  "veth_document = PDict
     [(''version'', PInt 2), (''desktop_user'', PStr ''alice''), (''network'', PDict demo_network),
      (''apps'', PDict
        [(''qbittorrent'', PDict
           [(''network'', PBool True), (''peer_port'', PDict [(''ethernet'', PInt 40001), (''wifi'', PInt 40002)]),
            (''executables'', PList [PStr ''/usr/bin/qbittorrent'']),
            (''slots'', PList [PInt 1]), (''addresses'', PList [PStr ''10.9.0.6''])]),
         (''discord'', PDict
           [(''network'', PBool True), (''block_lan'', PBool True),
            (''slots'', PList [PInt 0, PInt 3]), (''addresses'', PList [PStr ''10.9.0.2'', PStr ''10.9.0.14''])])])]"

definition demo_torrent :: app_policy where
  "demo_torrent =
     \<lparr>ap_network = True, ap_block_lan = False, ap_peer_port = UplinkPorts 40001 40002, ap_pin_route = True,
      ap_executables = [''/usr/bin/qbittorrent''], ap_slots = [1], ap_addresses = [''10.9.0.6'']\<rparr>"

definition demo_chat :: app_policy where
  "demo_chat =
     \<lparr>ap_network = True, ap_block_lan = True, ap_peer_port = NoPort, ap_pin_route = False,
      ap_executables = [], ap_slots = [0, 3], ap_addresses = [''10.9.0.2'', ''10.9.0.14'']\<rparr>"

definition veth_demo_config :: veth_config where
  "veth_demo_config =
     \<lparr>vc_desktop_user = ''alice'', vc_network = demo_network,
      vc_apps = [(''qbittorrent'', demo_torrent), (''discord'', demo_chat)]\<rparr>"

lemma demo_unique: "unique_tree veth_document = Inr veth_document"
  by (simp add: veth_document_def demo_network_def unique_object_def dmem_def)

lemma demo_pool: "py_ipv4_network (PStr ''10.9.0.0/24'') = Some (IpNet V4 168361984 24 None)"
  by code_simp

lemma demo_addresses: "network_addresses demo_network" by code_simp

lemma demo_names: "network_names demo_network" "network_lengths demo_network" by code_simp+

lemma demo_shape: "case veth_document of PDict d \<Rightarrow> configuration_shape d | _ \<Rightarrow> False" by code_simp

lemma demo_slots: "slot_address (IpNet V4 168361984 24 None) 1 = ''10.9.0.6''"
    "slot_address (IpNet V4 168361984 24 None) 0 = ''10.9.0.2''"
    "slot_address (IpNet V4 168361984 24 None) 3 = ''10.9.0.14''"
  by code_simp+

lemma demo_executable: "executable_ok ''/usr/bin/qbittorrent''" by code_simp

definition demo_apps :: pydict where
  "demo_apps = (case veth_document of PDict d \<Rightarrow> (case dget ''apps'' d of PDict a \<Rightarrow> a | _ \<Rightarrow> []) | _ \<Rightarrow> [])"

lemma demo_parse_network: "parse_network (PDict demo_network) = Inr demo_network"
proof -
  have "fst ` set demo_network = set NETWORK_FIELDS"
    by (simp add: demo_network_def NETWORK_FIELDS_def)
  then show ?thesis by (simp add: parse_network_def demo_addresses demo_names)
qed

lemma demo_max: "map_of demo_network ''max_leases'' = Some (PInt 4)" by code_simp

lemma demo_scan:
  "foldE (parse_app demo_network (IpNet V4 168361984 24 None)) \<lparr>vs_apps = [], vs_paths = [], vs_slots = []\<rparr> demo_apps
    = Inr \<lparr>vs_apps = vc_apps veth_demo_config, vs_paths = [''/usr/bin/qbittorrent''], vs_slots = [1, 0, 3]\<rparr>"
proof -
  have words: "bounded_word name_char 63 ''qbittorrent''" "bounded_word name_char 63 ''discord''" by code_simp+
  have apps: "demo_apps = [(''qbittorrent'', PDict
           [(''network'', PBool True), (''peer_port'', PDict [(''ethernet'', PInt 40001), (''wifi'', PInt 40002)]),
            (''executables'', PList [PStr ''/usr/bin/qbittorrent'']),
            (''slots'', PList [PInt 1]), (''addresses'', PList [PStr ''10.9.0.6''])]),
         (''discord'', PDict
           [(''network'', PBool True), (''block_lan'', PBool True),
            (''slots'', PList [PInt 0, PInt 3]), (''addresses'', PList [PStr ''10.9.0.2'', PStr ''10.9.0.14''])])]"
    by (simp add: demo_apps_def veth_document_def dget_def)
  show ?thesis
    unfolding apps
    by (simp add: parse_app_def words demo_max demo_slots demo_executable dget_def dget_or_def dmem_def APP_FIELDS_def
        uplink_ports_ok_def port_of_def slots_of_def int_between_def py_number_def py_text_def app_settings_ok_def
        add_executable_def veth_demo_config_def demo_torrent_def demo_chat_def Let_def)
qed

lemma demo_accepted: "parse_configuration (\<lambda>_. Some veth_document) [] = Inr veth_demo_config"
proof -
  obtain d where d: "veth_document = PDict d" "configuration_shape d"
    using demo_shape by (simp split: pyval.splits)
  have parts: "dget ''network'' d = PDict demo_network" "dget ''apps'' d = PDict demo_apps"
      "dget ''desktop_user'' d = PStr ''alice''"
    using d(1) by (auto simp: demo_apps_def veth_document_def dget_def)
  have pool: "py_ipv4_network (dget ''ipv4_cidr'' demo_network) = Some (IpNet V4 168361984 24 None)"
    using demo_pool by (simp add: demo_network_def dget_def)
  have "check_configuration (PDict d) = Inr veth_demo_config"
    by (simp add: check_configuration_def d(2) parts demo_parse_network pool demo_scan py_text_def)
      (simp add: veth_demo_config_def)
  then show ?thesis by (simp add: parse_configuration_def demo_unique d(1)[symmetric] )
qed

theorem applications_disjoint_witness:
  "distinct (concat (map (\<lambda>(n, a). ap_slots a) (vc_apps veth_demo_config)))
   \<and> distinct (concat (map (\<lambda>(n, a). ap_addresses a) (vc_apps veth_demo_config)))
   \<and> map fst (vc_apps veth_demo_config) = [''qbittorrent'', ''discord'']"
proof -
  have "distinct (concat (map (\<lambda>(n, a). ap_slots a) (vc_apps veth_demo_config)))"
    "distinct (concat (map (\<lambda>(n, a). ap_addresses a) (vc_apps veth_demo_config)))"
    using applications_disjoint [OF demo_accepted] by blast+
  moreover have "map fst (vc_apps veth_demo_config) = [''qbittorrent'', ''discord'']" by (simp add: veth_demo_config_def)
  ultimately show ?thesis by blast
qed

theorem application_slot_exact_witness:
  "application_slot demo_chat [0] None = Inr 3 \<and> application_slot demo_chat [0] (Some ''10.9.0.2'') \<noteq> Inr 0
   \<and> application_slot demo_chat [] (Some ''10.9.0.14'') = Inr 3"
proof -
  have "(''discord'', demo_chat) \<in> set (vc_apps veth_demo_config)" by (simp add: veth_demo_config_def)
  note spec = application_slot_exact [OF demo_accepted this]
  have "pool_of (vc_network veth_demo_config) = IpNet V4 168361984 24 None"
    using demo_pool by (simp add: pool_of_def veth_demo_config_def demo_network_def dget_def)
  then show ?thesis
    using spec [of "[0]"] spec [of "[]"] demo_slots by (simp add: demo_chat_def)
qed

subsection \<open>A lease\<close>

definition demo_lease :: veth_lease where
  "demo_lease =
     \<lparr>vl_slot = 1, vl_app = ''qbittorrent'', vl_name = ''app1-h'', vl_peer_name = ''net0'',
      vl_gateway = ''10.9.0.5'', vl_address = ''10.9.0.6'', vl_remove = deleted [(''links'', quoted ''app1-h'')],
      vl_reservations = [], vl_route_remove = [], vl_route_reservations = [], vl_attached = True,
      vl_installed = True, vl_uplink = None, vl_retry_at = None, vl_initialized = False,
      vl_port_policy = UplinkPorts 40001 40002, vl_peer_port = Some 40001, vl_channel = True, vl_pinned = True\<rparr>"

definition demo_ethernet :: uplink where "demo_ethernet = (''eth0'', ''192.0.2.7'', 1500)"

definition demo_wireless :: uplink where "demo_wireless = (''wlan0'', ''198.51.100.3'', 1400)"

definition demo_veth_env :: veth_env where
  "demo_veth_env =
     \<lparr>ve_network = demo_network, ve_wireless = (\<lambda>n iface name. Inr (if iface = ''wlan0'' then Some True else None)),
      ve_free_port = (\<lambda>n a p k. True), ve_nft = nft_rows, ve_late = (\<lambda>n. None), ve_sent = (\<lambda>n. Inr True), ve_clock = int\<rparr>"

text \<open>Another lease is in the table, and so is the element of this one.\<close>

definition demo_others :: veth_table where
  "demo_others = [(''links'', quoted ''app0-h'') \<mapsto> quoted ''app0-h'']"

definition demo_base :: veth_table where
  "demo_base = demo_others ++ map_of (keyed [(''links'', quoted ''app1-h'')])"

definition demo_ports :: "int option set" where "demo_ports = {Some 40001, Some 40002}"

definition demo_veth_state :: "(nat \<Rightarrow> fault) \<Rightarrow> veth_lease \<Rightarrow> veth_table \<Rightarrow> veth_world sys" where
  "demo_veth_state script l table =
     \<lparr>sys_step = 0, sys_script = script,
      sys_world = \<lparr>vw_table = table, vw_up = (\<lambda>n. False), vw_bound = [], vw_sockets = 0,
                   vw_leases = (\<lambda>i. l), vw_log = []\<rparr>\<rparr>"

lemma demo_lease_clean:
  "clean_lease demo_lease" "clean_uplink (Some demo_ethernet)" "clean_uplink (Some demo_wireless)" "clean_uplink None"
  by (simp_all add: clean_lease_def clean_uplink_def demo_lease_def demo_ethernet_def demo_wireless_def)

lemma route_key_sets:
  "k \<in> set (element_keys (route_elements l c p)) \<Longrightarrow> fst k \<in> {''pinned'', ''snat_map'', ''incoming'', ''peer_snat'', ''forwards''}"
  by (auto simp: route_elements_def egress_elements_def protocol_elements_def PROTOCOLS_def split: option.splits if_splits)

lemma demo_key: "element_key (quoted ''app1-h'') = quoted ''app1-h''"
  by (rule element_key_whole) simp

lemma demo_apart: "apart demo_base demo_ports demo_lease"
  unfolding apart_def demo_base_def demo_others_def
  by (auto simp: demo_key dest!: route_key_sets split: if_splits)

lemma demo_steady:
  "steady demo_base demo_ports (insert None (set [Some demo_ethernet, Some demo_wireless, None])) demo_lease"
  by (simp add: steady_def demo_lease_clean demo_apart) (simp add: ports_in_def demo_lease_def demo_ports_def)

lemma demo_nft: "documented_nft demo_veth_env" "\<not> may_be_late demo_veth_env"
  by (simp_all add: documented_nft_def may_be_late_def demo_veth_env_def)


text \<open>The lease on Ethernet, and its end.\<close>

definition demo_routed :: veth_lease where
  "demo_routed = demo_lease\<lparr>vl_route_remove := deleted (route_elements demo_lease (Some demo_ethernet) (Some 40001)),
     vl_uplink := Some demo_ethernet, vl_initialized := True\<rparr>"

definition demo_routed_table :: veth_table where
  "demo_routed_table = demo_base ++ map_of (keyed (route_elements demo_lease (Some demo_ethernet) (Some 40001)))"

lemma demo_routed_elements: "route_elements demo_routed c p = route_elements demo_lease c p"
  by (rule route_elements_cong) (simp_all add: demo_routed_def)

lemma demo_exact:
  "exact demo_base demo_ports {None, Some demo_ethernet} 0 (sys_world (demo_veth_state script demo_routed demo_routed_table))"
proof -
  have "steady demo_base demo_ports {None, Some demo_ethernet} demo_lease"
    using demo_steady by (simp add: steady_def)
  then have "steady demo_base demo_ports {None, Some demo_ethernet} demo_routed"
    by (subst steady_cong [where k = demo_lease]) (simp_all add: demo_routed_def)
  moreover have "mapped demo_base 0 (Some demo_ethernet) (Some 40001)
      (sys_world (demo_veth_state script demo_routed demo_routed_table))"
    by (simp add: mapped_def demo_veth_state_def demo_routed_elements demo_routed_table_def) (simp add: demo_routed_def)
  ultimately show ?thesis
    by (auto simp: exact_def demo_ports_def demo_veth_state_def intro!: exI [of _ "Some demo_ethernet"] exI [of _ "Some 40001"])
qed

theorem close_all_or_nothing_witness:
  "\<forall>script. let (r, t) = close_lease demo_veth_env 0 (demo_veth_state script demo_routed demo_routed_table) in
     if r = Inr () then stopped demo_others 0 (sys_world (demo_veth_state script demo_routed demo_routed_table)) (sys_world t)
     else removed demo_others 0 (sys_world t)
       \<or> still_there 0 (sys_world (demo_veth_state script demo_routed demo_routed_table)) (sys_world t)"
  (is "\<forall>script. ?P script")
proof
  fix script
  have inst: "installed_on demo_others [(''links'', quoted ''app1-h'')] 0
      (sys_world (demo_veth_state script demo_routed demo_routed_table))"
    "vl_attached (vw_leases (sys_world (demo_veth_state script demo_routed demo_routed_table)) 0)"
    by (simp_all add: installed_on_def demo_veth_state_def demo_routed_def demo_lease_def demo_others_def demo_key quoted_def)
  show "?P script"
    using close_all_or_nothing [OF demo_exact [unfolded demo_base_def] inst demo_nft(1) prod.collapse [symmetric]] demo_nft(2)
    by (auto simp: case_prod_unfold Let_def split: if_splits)
qed

theorem update_commands_ordered_witness:
  "\<forall>script. \<exists>port issued rest.
      vw_log (sys_world (snd (update_route demo_veth_env 0 (Some demo_wireless) (demo_veth_state script demo_routed demo_routed_table))))
        = rev issued
      \<and> issued @ rest = route_plan demo_veth_env demo_routed (Some demo_wireless) port"
  (is "\<forall>script. ?P script")
proof
  fix script
  have "update_plan demo_veth_env demo_routed (Some demo_wireless) port = route_plan demo_veth_env demo_routed (Some demo_wireless) port"
    for port
    by (simp add: update_plan_def demo_routed_def demo_wireless_def demo_ethernet_def)
  then show "?P script"
    using update_commands_ordered [OF prod.collapse [symmetric], of demo_veth_env 0 "Some demo_wireless"
        "demo_veth_state script demo_routed demo_routed_table"]
    by (auto simp: demo_veth_state_def)
qed

end
