(* ===== verification/Spec2Isabelle.thy ===== *)
theory Spec2Isabelle
  imports NftGuarantees NftNormFacts NftRulesFacts NftPublished
    HwCommonFacts HwGuarantees HwRecovery HwArbitration HwBrokerSafety
    HwPolicyLife GgufGuarantees LlamaDemo VethDemo
begin

text \<open>
  Verification of the policy programs that this repository installs on a Debian desktop.

  \<^bold>\<open>The firewall generator\<close>, \<open>nft-policy-generate.py\<close> under
  \<open>src/d-i/forky/hooks/target/usr/local/sbin\<close>, reads a YAML profile and overlays, merges them,
  normalises ports, interfaces and networks, renders six nftables texts and publishes them.
  \<^item> \<open>NftBase\<close>: \<open>as_dict\<close>, \<open>as_bool\<close>, \<open>as_int\<close>, \<open>deep_merge\<close>, \<open>merge_overlay\<close>, \<open>load_policy\<close>.
  \<^item> \<open>NftNorm\<close>: ports, protocols, \<open>parse_networks\<close>, interfaces, quoting, rate and comment
    expressions, the application network, output paths, \<open>build_define_maps\<close>.
  \<^item> \<open>NftRules\<close>: \<open>render_nftables_conf\<close>, \<open>render_defines\<close>, \<open>render_base\<close>, match expressions, the
    rules of a service for one address family.
  \<^item> \<open>NftFilter\<close>: source filtering, logging, \<open>validate_services\<close>, \<open>build_allowlist_guards\<close>.
  \<^item> \<open>NftRender\<close>: \<open>render_filter\<close>, one definition per section, run in source order.
  \<^item> \<open>NftPolicy\<close>: \<open>render_nat\<close>, \<open>render_all\<close>, \<open>validate_policy\<close>, \<open>apply_runtime_cidrs\<close> and the pure
    part of \<open>main\<close> (\<open>generate\<close>).
  \<^item> \<open>NftWrite\<close>: \<open>atomic_write\<close>, \<open>backup_existing\<close>, \<open>generation_lock\<close>, \<open>write_generation\<close> with its
    preparation, publication and rollback, and \<open>main\<close> down to its exit status (\<open>run_main\<close>).

  A YAML value is a \<open>pyval\<close> (theory \<open>PyValue\<close>), a Python exception a \<open>pyexn\<close>, and a function that may
  raise returns a sum (\<open>'a res\<close>); \<open>Prelude\<close> has the combinators. \<open>PyStr\<close> and \<open>PyIp\<close> model the parts
  of the string methods and of \<open>ipaddress\<close> that the program calls. The YAML parser and the file system
  are parameters. Python dictionaries are association lists in insertion order, strings are lists of
  8-bit characters, so code points above 255 are outside the model.

  Code with effects is a state transformer of \<open>PyEffect\<close>. Each system call is one step, and a script
  says for every step whether it takes effect, fails, or is interrupted or killed before or after its
  effect; the theorems quantify over all scripts. Outcomes of \<open>nft\<close> and \<open>systemctl\<close>, the JSON texts and
  the names that \<open>mkdtemp\<close> and the clock give are an environment record. A write that the kernel
  acknowledged is taken as durable: what \<open>fsync\<close> adds to that is not modelled.

  \<^bold>\<open>What is shown.\<close> \<open>NetCover\<close> proves that \<open>collapse_addresses\<close> keeps the set of addresses, which makes
  the public-exposure interlock exact; \<open>NftBaseFacts\<close> has the laws of merging; \<open>NftNormFacts\<close> the
  normal forms; \<open>NftRulesFacts\<close> the shape of the generated rules; \<open>NftLines\<close> that no value of a
  document leaves its line; \<open>NftGuarantees\<close> states what a run guarantees, on the demonstration profile
  of \<open>NftDemo\<close> as the instance. \<open>NftWriteFacts\<close> states atomic replacement as a locale
  (\<open>atomic_store\<close>) that the generator's \<open>atomic_write\<close> interprets; \<open>NftPublish\<close> has the invariants of
  preparation, publication and rollback, and \<open>NftPublished\<close> what a finished, failed or killed
  publication leaves on disk.

  \<^bold>\<open>Hardware tuning\<close>, \<open>hardware_tuning\<close> under \<open>src/d-i/forky/hooks/target/usr/local/lib\<close>, lets a
  desktop user switch CPU and GPU profiles. A short-lived root worker writes the controls, a broker
  decides what is applied, and a policy helper takes the system's power policy over and hands it back.
  \<^item> \<open>HwCommon\<close>, \<open>HwStore\<close>: \<open>common.py\<close>, values, the policy file, \<open>Knob\<close>, and the trusted JSON files with
    \<open>atomic_json\<close>. A JSON text is represented by the document that it decodes to; its size is a parameter.
  \<^item> \<open>HwEngine\<close>, \<open>HwReset\<close>, \<open>HwApply\<close>: \<open>engine.py\<close>, the recovery journal, \<open>health\<close>, the order of writes,
    \<open>reset\<close>, \<open>plan\<close> and \<open>apply\<close>. The hardware is a register file behind a driver function of the
    environment, which may quantise, couple or refuse; theorems that need more of it say so
    (\<open>local_driver\<close>, \<open>closed_domains\<close>). Those on an application start from an empty journal: with another one,
    it begins with a reset. Changes by others during a run are not modelled.
  \<^item> \<open>HwBroker\<close>, \<open>HwBrokerOps\<close>, \<open>HwServe\<close>: \<open>broker.py\<close>, its configuration, \<open>on_ac\<close>, \<open>Selection\<close>, helper
    calls, recovery file, \<open>reconcile\<close>, \<open>stop_tuning\<close>, \<open>start_tuning\<close>, \<open>initialize\<close>, the actions of the
    control socket and the leases. The lock of the program makes its operations atomic against each
    other, so its life is a sequence of them (\<open>served\<close>), and \<open>visited\<close> adds every state in which one of
    them can be cut off. The event loop, timeouts of the lock and the bytes on the socket are not modelled.
  \<^item> \<open>HwPolicyBus\<close>, \<open>HwPolicyOwner\<close>: \<open>policy_owner.py\<close>, the helper that stops and starts
    \<open>power-profiles-daemon\<close>, with its journal, its actions and \<open>power_managers\<close> of \<open>system_state.py\<close>. PID 1,
    the clock and \<open>libsystemd\<close> are parameters, and a D-Bus call is one step that may fail or be cut off.
    The loop that waits for a job runs on \<open>JOB_TURNS\<close> turns of fuel, and running out is shown as being
    killed; \<open>job_wait_ends\<close> proves that no wait runs out on a clock that never goes back.

  \<open>HwApplyFacts\<close>, \<open>HwRecovery\<close>, \<open>HwResetFacts\<close> and \<open>HwGuarantees\<close> show that a profile is applied and
  taken back without losing an original value, wherever a run is cut off. \<open>HwBrokerFacts\<close> states as
  locales which updates an operation of the broker makes (\<open>broker_rel\<close>, \<open>operations\<close>, \<open>sessions\<close>) and proves
  once that every operation keeps a relation that its updates keep; \<open>HwLedger\<close> (leases), \<open>HwControls\<close>
  (recovery file), \<open>HwHandover\<close> and \<open>HwReconcile\<close> (what the history of helper calls says is still tuned)
  interpret them, \<open>HwBrokerGuarantees\<close> adds initialisation and the applications of a reconciliation, and
  \<open>HwBrokerSafety\<close> states the guarantees. \<open>HwArbitration\<close> has the arbitration and the rate limit.
  \<open>HwPolicyFacts\<close> states as a locale (\<open>bus_rel\<close>) which requests of the helper keep a relation between the
  states of the machine, \<open>HwPolicyBoot\<close> has what \<open>systemd\<close> documents of its requests (\<open>documented\<close>) and the
  machine's next boot, \<open>HwPolicySafety\<close> and \<open>HwPolicyLife\<close> show that a boot owner is never lost but in one
  case (a helper that does not manage the daemon is asked to disable tuning), that a claim is journalled before
  the first change, and that every wait ends.

  \<^bold>\<open>AI copilots\<close>, \<open>labwc_ai_copilots\<close> under \<open>src/d-i/forky/hooks/target/usr/local/lib/python3.14/dist-packages\<close>,
  inspects model files and shares the memory of the machine between Llama runs and the Whisper service.
  \<^item> \<open>GgufReader\<close>, \<open>GgufModel\<close>: \<open>gguf.py\<close>, the bounded reader on a list of bytes, the inspection of metadata and
    tensor table, \<open>GGUFInfo\<close> and the two path policies (\<open>inspect_gguf\<close>, \<open>inspect_gguf_for_resources\<close>). Texts of a
    model are lists of code points, floats are kept as their bits.
  \<^item> \<open>LlamaBudget\<close>: \<open>memory_budget\<close> of \<open>resources.py\<close> and the telemetry that it is compared with.
  \<^item> \<open>LlamaCoord\<close>, \<open>LlamaRun\<close>: the rest of \<open>resources.py\<close>, programs that are run, waits, locks, \<open>state.json\<close>, the
    class \<open>Coordinator\<close> (\<open>run_llama\<close>, \<open>whisper_allowed\<close>, \<open>restore_once\<close>, \<open>watch\<close>) and \<open>main\<close>. What \<open>systemctl\<close>,
    \<open>nvidia-smi\<close>, \<open>flock\<close>, \<open>pidfd_open\<close>, \<open>/proc/meminfo\<close> and the clock answer at each step is the environment,
    and a log keeps what was asked. \<open>documented_llama\<close> says that process numbers are those of Linux.
    The wait for the GPU has \<open>GPU_TURNS\<close> turns of fuel (20 seconds in steps of a quarter of a second, and the
    one that finds the time over), that of a lock ten for each second and two more; running out is shown
    as being killed, and \<open>waits_end\<close> proves that neither does on a clock that never goes back. \<open>watch\<close> runs
    for ever, so its theorems hold for every number of turns.

  \<open>GgufGrammar\<close> has the laws of readers that accept what an encoder spells, as locales (\<open>counted\<close>,
  \<open>spelled\<close>); \<open>GgufFormat\<close> is the specification of the supported documents with their encoders,
  \<open>GgufExact\<close> proves that the reader accepts exactly these, and \<open>GgufGuarantees\<close> states it with the bounds
  and the path policy. \<open>LlamaFacts\<close> states as a locale (\<open>quiet\<close>) which operations of the coordinator only
  add to the log; \<open>LlamaIntent\<close> shows that a stopped Whisper stays recorded, \<open>LlamaRestore\<close> that it is
  started when Llama is gone, \<open>LlamaAdmission\<close> that a binary is executed with the memory free and its
  process listed, \<open>LlamaWaits\<close> that the waits end and the budget is bounded, and \<open>LlamaDemo\<close> has a session as
  the instance. \<open>PyPath\<close> models the parts of \<open>pathlib\<close> in use, and \<open>PyKeeps\<close> relations between the states
  before and after a program, for all components with effects.

  \<^bold>\<open>Application network\<close>, \<open>app_veth_policy.py\<close> in the same directory and the daemon \<open>app-veth\<close> under \<open>sbin\<close>, gives
  applications their own network namespaces, each with a reserved slot of the address pool.
  \<^item> \<open>VethPolicy\<close>: all of \<open>app_veth_policy.py\<close>; \<open>json.loads\<close> and opening the file are parameters.
  \<^item> \<open>VethNet\<close>: of \<open>app-veth\<close> the class \<open>Network\<close> from the first route on (\<open>update_route\<close>, \<open>refresh_route\<close>, \<open>reserve\<close>,
    \<open>close\<close>), \<open>wireless_interface\<close>, \<open>application_slot\<close> and \<open>route_retry_timeout\<close>. Commands are steps; of their effect
    the elements of the table \<open>app_veth\<close> and the host links that are up are kept, and \<open>nft_rows\<close> is what \<open>nft\<close>
    documents of a transaction (\<open>documented_nft\<close>). A transaction may be committed and still end in a timeout or a
    signal for the daemon (\<open>ve_late\<close>); the theorems say what is left then. Time is counted in whole milliseconds.

  \<open>VethPolicyFacts\<close> shows that the applications of an accepted configuration share no slot, address or
  executable; \<open>VethFacts\<close> has the transactions and the keys of elements, \<open>VethRoute\<close> the invariant of a lease
  through all updates, \<open>VethClose\<close> its end, \<open>VethOrder\<close> the order of the commands of an update, \<open>VethGuarantees\<close> what
  follows, and \<open>VethDemo\<close> a configuration and a lease as the instance. Not modelled of \<open>app-veth\<close>: the attachment
  of a namespace, the route and link snapshots of \<open>iproute2\<close>, the pool of endpoints, requests and the event loop.

  \<^bold>\<open>Not modelled.\<close> JSON parsing, the vendor back ends that discover controls, printing (\<open>print_rendered\<close>, \<open>eprint\<close> output, the
  records of \<open>log\<close>), the command line parsers, \<open>labwc_ai_copilots/cli.py\<close>, and the
  subsystems that only assemble calls of external programs.
\<close>

end
